(* ===== verification/Gw_Prelude.thy ===== *)
theory Gw_Prelude
  imports
    Main
    "HOL-Library.Word"
    "HOL-Library.Product_Lexorder"
    "HOL-Library.List_Lexorder"
    "HOL-Library.Char_ord"
begin

text \<open>
  The prelude of the development: Go's 64-bit integers, decimal text and time values,
  Go errors as a datatype with the traversals of package \<open>errors\<close>, database calls
  that may fail, SQL statements on a table kept as a list of rows, and the generic
  lemmas the components share. Nothing here is specific to one component.
\<close>

named_theorems row_simps \<open>what an SQL statement does to the rows of a table\<close>
named_theorems tx_simps \<open>results of database calls and transactions\<close>
named_theorems err_simps \<open>traversals of wrapped Go errors\<close>

section \<open>Go's int64\<close>

text \<open>
  An \<open>int64\<close> is an \<open>int\<close> in the range of 64-bit two's complement. \<open>i64\<close> is the
  wrap-around of an arithmetic result; \<open>i64_word\<close> says that this is the signed reading
  of a 64-bit machine word. Go's integer division truncates towards zero.
\<close>

definition i64 :: "int \<Rightarrow> int" where
  "i64 x = (x + 2 ^ 63) mod 2 ^ 64 - 2 ^ 63"

definition is_i64 :: "int \<Rightarrow> bool" where
  "is_i64 x \<longleftrightarrow> - (2 ^ 63) \<le> x \<and> x < 2 ^ 63"

definition go_quot :: "int \<Rightarrow> int \<Rightarrow> int" where
  "go_quot a b = sgn a * sgn b * (\<bar>a\<bar> div \<bar>b\<bar>)"

text \<open>The left shift of an \<open>int64\<close>: the bits shifted out are lost.\<close>

definition shl64 :: "int \<Rightarrow> nat \<Rightarrow> int" where
  "shl64 x k = i64 (x * 2 ^ k)"

lemma i64_id [simp]: "is_i64 x \<Longrightarrow> i64 x = x"
  by (simp add: i64_def is_i64_def)

lemma i64_nonneg_id: "0 \<le> x \<Longrightarrow> x < 2 ^ 63 \<Longrightarrow> i64 x = x"
  by (simp add: i64_def)

lemma percent_bound: "0 \<le> a \<Longrightarrow> 0 \<le> b \<Longrightarrow> 0 \<le> c \<Longrightarrow> (a + (b + c)) * 100 < X \<Longrightarrow> a + b < (X::int)"
  unfolding distrib_right by linarith

lemma is_i64_i64 [simp, intro]: "is_i64 (i64 x)"
proof -
  have "0 \<le> (x + 2 ^ 63) mod 2 ^ 64" and "(x + 2 ^ 63) mod 2 ^ 64 < 2 ^ 64"
    by (rule pos_mod_sign, simp) (rule pos_mod_bound, simp)
  then show ?thesis by (simp add: i64_def is_i64_def)
qed

lemma i64_word: "i64 x = sint (word_of_int x :: 64 word)"
  by (simp add: i64_def sint_uint uint_word_of_int signed_take_bit_eq_take_bit_shift
      take_bit_eq_mod mod_simps)

lemma go_quot_nonneg: "0 \<le> a \<Longrightarrow> 0 < b \<Longrightarrow> go_quot a b = a div b"
  by (cases "a = 0") (simp_all add: go_quot_def)

lemma le_div_iff_int: "0 < b \<Longrightarrow> k \<le> a div b \<longleftrightarrow> k * b \<le> (a::int)"
proof
  assume b: "0 < b"
  show "k \<le> a div b \<Longrightarrow> k * b \<le> a"
    using mult_right_mono[of k "a div b" b] minus_mod_eq_div_mult[of a b] pos_mod_sign[OF b, of a] b
    by linarith
  show "k * b \<le> a \<Longrightarrow> k \<le> a div b" using zdiv_mono1[of "k * b" a b] b by simp
qed

lemma shl64_exact: "is_i64 (x * 2 ^ k) \<Longrightarrow> shl64 x k = x * 2 ^ k"
  by (simp add: shl64_def)

section \<open>Decimal text\<close>

definition digit_char :: "nat \<Rightarrow> char" where
  "digit_char d = char_of (48 + d)"

fun show_nat :: "nat \<Rightarrow> string" where
  "show_nat n = (if n < 10 then [digit_char n] else show_nat (n div 10) @ [digit_char (n mod 10)])"

declare show_nat.simps [simp del]

definition show_int :: "int \<Rightarrow> string" where
  "show_int i = (if i < 0 then CHR ''-'' # show_nat (nat (- i)) else show_nat (nat i))"

text \<open>
  The verb \<open>%q\<close> on ASCII text (\<open>strconv.Quote\<close>): a quoted literal with the control
  characters escaped.
\<close>

definition hex_char :: "nat \<Rightarrow> char" where
  "hex_char d = (if d < 10 then digit_char d else char_of (87 + d))"

definition quote_char :: "char \<Rightarrow> string" where
  "quote_char c =
     (let n = (of_char c :: nat); esc = (\<lambda>x. [char_of (92::nat), char_of (x::nat)]) in
      if n = 34 \<or> n = 92 then esc n
      else if n = 7 then esc 97 else if n = 8 then esc 98 else if n = 12 then esc 102
      else if n = 10 then esc 110 else if n = 13 then esc 114 else if n = 9 then esc 116
      else if n = 11 then esc 118
      else if n < 32 \<or> n = 127 then esc 120 @ [hex_char (n div 16), hex_char (n mod 16)]
      else [c])"

definition go_quote :: "string \<Rightarrow> string" where
  "go_quote s = [char_of (34::nat)] @ concat (map quote_char s) @ [char_of (34::nat)]"

text \<open>\<open>strings.TrimSpace\<close> on ASCII text.\<close>

definition ascii_space :: "char \<Rightarrow> bool" where
  "ascii_space c \<longleftrightarrow> (let n = of_char c :: nat in (9 \<le> n \<and> n \<le> 13) \<or> n = 32)"

definition TrimSpace :: "string \<Rightarrow> string" where
  "TrimSpace s = rev (dropWhile ascii_space (rev (dropWhile ascii_space s)))"

text \<open>\<open>strings.HasPrefix\<close>, \<open>HasSuffix\<close>, \<open>Contains\<close> and the lower case of an ASCII character.\<close>

definition HasPrefix :: "string \<Rightarrow> string \<Rightarrow> bool" where
  "HasPrefix s p \<longleftrightarrow> take (length p) s = p"

definition HasSuffix :: "string \<Rightarrow> string \<Rightarrow> bool" where
  "HasSuffix s suffix \<longleftrightarrow> length suffix \<le> length s \<and> drop (length s - length suffix) s = suffix"

fun contains :: "string \<Rightarrow> string \<Rightarrow> bool" where
  "contains sub [] = (sub = [])"
| "contains sub (c # cs) = (take (length sub) (c # cs) = sub \<or> contains sub cs)"

definition lower_char :: "char \<Rightarrow> char" where
  "lower_char c = (let n = of_char c :: nat in if 65 \<le> n \<and> n \<le> 90 then char_of (n + 32) else c)"

section \<open>Go's time.Time\<close>

text \<open>
  A \<open>time.Time\<close> is its distance from the Unix epoch in nanoseconds. The zero value is
  January 1 of year 1, which is what \<open>IsZero\<close> recognises. \<open>UnixMilli\<close> rounds
  towards minus infinity, since Go keeps the nanoseconds of a second non-negative.
  A \<open>time.Duration\<close> is an \<open>int64\<close> of nanoseconds and its \<open>Milliseconds\<close> truncates.
\<close>

type_synonym gotime = int
type_synonym duration = int

definition zero_time :: gotime where
  "zero_time = - 62135596800 * 1000000000"

definition IsZero :: "gotime \<Rightarrow> bool" where
  "IsZero t \<longleftrightarrow> t = zero_time"

definition UnixMilli :: "gotime \<Rightarrow> int" where
  "UnixMilli t = t div 1000000"

definition of_UnixMilli :: "int \<Rightarrow> gotime" where
  "of_UnixMilli ms = ms * 1000000"

definition Milliseconds :: "duration \<Rightarrow> int" where
  "Milliseconds d = go_quot d 1000000"

lemma UnixMilli_of_UnixMilli [simp]: "UnixMilli (of_UnixMilli ms) = ms"
  by (simp add: UnixMilli_def of_UnixMilli_def)

lemma UnixMilli_mono: "s \<le> t \<Longrightarrow> UnixMilli s \<le> UnixMilli t"
  by (simp add: UnixMilli_def zdiv_mono1)

section \<open>Go errors\<close>

text \<open>
  \<open>APIError\<close> is \<open>*domain.APIError\<close> (domain/errors.go), \<open>NoDispatchError\<close> the wrapper
  of application/gateway_engine.go, \<open>Sentinel\<close> a package-level \<open>errors.New\<close> value
  compared by identity, \<open>SQLError\<close> a driver error with its code, \<open>Wrapped p e\<close> is
  \<open>fmt.Errorf("p: %w", e)\<close>, \<open>Annotated e s\<close> is \<open>fmt.Errorf("%w: s", e)\<close> and
  \<open>Joined\<close> is \<open>errors.Join\<close>.
\<close>

datatype api_code =
    CodeRateLimited | CodeNotFound | CodeUnauthorized | CodeForbidden | CodeValidationError
  | CodeConflict | CodeNotImplemented | CodeUnavailable | CodeInternal

primrec code_text :: "api_code \<Rightarrow> string" where
  "code_text CodeRateLimited = ''rate_limited''"
| "code_text CodeNotFound = ''not_found''"
| "code_text CodeUnauthorized = ''unauthorized''"
| "code_text CodeForbidden = ''forbidden''"
| "code_text CodeValidationError = ''validation_error''"
| "code_text CodeConflict = ''conflict''"
| "code_text CodeNotImplemented = ''not_implemented''"
| "code_text CodeUnavailable = ''gateway_unavailable''"
| "code_text CodeInternal = ''internal''"

datatype go_err =
    APIError api_code string
  | NoDispatchError go_err
  | Sentinel string
  | SQLError nat string
  | Plain string
  | Wrapped string go_err
  | Annotated go_err string
  | Joined go_err go_err

primrec err_text :: "go_err \<Rightarrow> string" where
  "err_text (APIError c m) = code_text c @ '': '' @ m"
| "err_text (NoDispatchError e) = err_text e"
| "err_text (Sentinel s) = s"
| "err_text (SQLError c s) = s"
| "err_text (Plain s) = s"
| "err_text (Wrapped p e) = p @ '': '' @ err_text e"
| "err_text (Annotated e s) = err_text e @ '': '' @ s"
| "err_text (Joined a b) = err_text a @ [char_of (10::nat)] @ err_text b"

text \<open>\<open>errors.As(err, *domain.APIError)\<close>, reduced to the code the callers look at.\<close>

primrec api_code_of :: "go_err \<Rightarrow> api_code option" where
  "api_code_of (APIError c m) = Some c"
| "api_code_of (NoDispatchError e) = api_code_of e"
| "api_code_of (Sentinel s) = None"
| "api_code_of (SQLError c s) = None"
| "api_code_of (Plain s) = None"
| "api_code_of (Wrapped p e) = api_code_of e"
| "api_code_of (Annotated e s) = api_code_of e"
| "api_code_of (Joined a b) = (case api_code_of a of Some c \<Rightarrow> Some c | None \<Rightarrow> api_code_of b)"

primrec is_no_dispatch :: "go_err \<Rightarrow> bool" where
  "is_no_dispatch (APIError c m) = False"
| "is_no_dispatch (NoDispatchError e) = True"
| "is_no_dispatch (Sentinel s) = False"
| "is_no_dispatch (SQLError c s) = False"
| "is_no_dispatch (Plain s) = False"
| "is_no_dispatch (Wrapped p e) = is_no_dispatch e"
| "is_no_dispatch (Annotated e s) = is_no_dispatch e"
| "is_no_dispatch (Joined a b) = (is_no_dispatch a \<or> is_no_dispatch b)"

primrec err_is :: "string \<Rightarrow> go_err \<Rightarrow> bool" where
  "err_is t (APIError c m) = False"
| "err_is t (NoDispatchError e) = err_is t e"
| "err_is t (Sentinel s) = (s = t)"
| "err_is t (SQLError c s) = False"
| "err_is t (Plain s) = False"
| "err_is t (Wrapped p e) = err_is t e"
| "err_is t (Annotated e s) = err_is t e"
| "err_is t (Joined a b) = (err_is t a \<or> err_is t b)"

primrec sql_code_of :: "go_err \<Rightarrow> nat option" where
  "sql_code_of (APIError c m) = None"
| "sql_code_of (NoDispatchError e) = sql_code_of e"
| "sql_code_of (Sentinel s) = None"
| "sql_code_of (SQLError c s) = Some c"
| "sql_code_of (Plain s) = None"
| "sql_code_of (Wrapped p e) = sql_code_of e"
| "sql_code_of (Annotated e s) = sql_code_of e"
| "sql_code_of (Joined a b) = (case sql_code_of a of Some c \<Rightarrow> Some c | None \<Rightarrow> sql_code_of b)"

abbreviation ErrNotFound :: "string \<Rightarrow> go_err" where "ErrNotFound \<equiv> APIError CodeNotFound"
abbreviation ErrConflict :: "string \<Rightarrow> go_err" where "ErrConflict \<equiv> APIError CodeConflict"
abbreviation ErrValidation :: "string \<Rightarrow> go_err" where "ErrValidation \<equiv> APIError CodeValidationError"
abbreviation ErrRateLimited :: "string \<Rightarrow> go_err" where "ErrRateLimited \<equiv> APIError CodeRateLimited"
abbreviation ErrUnavailable :: "string \<Rightarrow> go_err" where "ErrUnavailable \<equiv> APIError CodeUnavailable"

type_synonym 'a result = "go_err + 'a"

text \<open>\<open>errors.Join\<close> of two possibly nil errors.\<close>

fun errors_join :: "go_err option \<Rightarrow> go_err option \<Rightarrow> go_err option" where
  "errors_join None e = e"
| "errors_join e None = e"
| "errors_join (Some a) (Some b) = Some (Joined a b)"

lemma errors_join_None [simp]: "errors_join a b = None \<longleftrightarrow> a = None \<and> b = None"
  by (cases a; cases b) auto

section \<open>Database calls that may fail\<close>

text \<open>
  The database calls of an operation are numbered in the order of its source;
  \<open>f i = Some e\<close> means that call \<open>i\<close> returns the error \<open>e\<close> and changes nothing, and
  \<open>f i = None\<close> that it succeeds. A failing \<open>Commit\<close> leaves the transaction not
  applied, and the deferred \<open>Rollback\<close> of an early return undoes what the transaction
  wrote: an operation in one transaction therefore returns the table it was given on
  every error path.
\<close>

type_synonym faults = "nat \<Rightarrow> go_err option"

definition no_faults :: faults where
  "no_faults = (\<lambda>_. None)"

lemma no_faults_app [simp]: "no_faults i = None"
  by (simp add: no_faults_def)

text \<open>
  \<open>call x r\<close> is the statement \<open>if err := ...; err != nil { return err }\<close> followed by
  \<open>r\<close>, \<open>bindr\<close> the same for a call with a value, and \<open>in_tx s r\<close> a transaction
  started in the state \<open>s\<close>: an error of its body rolls it back.
\<close>

fun call :: "go_err option \<Rightarrow> 'a result \<Rightarrow> 'a result" where
  "call None r = r"
| "call (Some e) r = Inl e"

fun bindr :: "'a result \<Rightarrow> ('a \<Rightarrow> 'b result) \<Rightarrow> 'b result" where
  "bindr (Inl e) k = Inl e"
| "bindr (Inr a) k = k a"

definition in_tx :: "'s \<Rightarrow> ('s \<times> 'a) result \<Rightarrow> 's \<times> 'a result" where
  "in_tx s r = (case r of Inl e \<Rightarrow> (s, Inl e) | Inr (s', a) \<Rightarrow> (s', Inr a))"

text \<open>\<open>wrapr p r\<close> is \<open>if err != nil { return fmt.Errorf("p: %w", err) }\<close> on the result of a call.\<close>

fun wrapr :: "string \<Rightarrow> 'a result \<Rightarrow> 'a result" where
  "wrapr p (Inl e) = Inl (Wrapped p e)"
| "wrapr p (Inr a) = Inr a"

lemma wrapr_Inr [simp, tx_simps]: "wrapr p r = Inr a \<longleftrightarrow> r = Inr a"
  by (cases r) simp_all

lemma call_Inr [simp, tx_simps]: "call x r = Inr a \<longleftrightarrow> x = None \<and> r = Inr a"
  by (cases x) simp_all

lemma bindr_Inr [simp, tx_simps]: "bindr m k = Inr b \<longleftrightarrow> (\<exists>a. m = Inr a \<and> k a = Inr b)"
  by (cases m) simp_all

lemma in_tx_simps [simp, tx_simps]:
  "in_tx s (Inl e) = (s, Inl e)"
  "in_tx s (Inr (s', a)) = (s', Inr a)"
  by (simp_all add: in_tx_def)

lemma in_txE:
  assumes "in_tx s r = (s', q)"
  obtains (rollback) e where "q = Inl e" "s' = s" "r = Inl e"
    | (commit) a where "q = Inr a" "r = Inr (s', a)"
  using assms by (auto simp: in_tx_def split: sum.splits prod.splits)

lemma in_tx_Inr [simp]: "in_tx s r = (s', Inr a) \<longleftrightarrow> r = Inr (s', a)"
  by (auto simp: in_tx_def split: sum.splits)

lemma in_tx_Inl [simp]: "in_tx s r = (s', Inl e) \<longleftrightarrow> s' = s \<and> r = Inl e"
  by (auto simp: in_tx_def split: sum.splits)

section \<open>Rows\<close>

text \<open>
  A table is the list of its rows. \<open>upd_rows\<close> is \<open>UPDATE ... SET ... WHERE\<close>,
  \<open>matched\<close> its row count: the pool is opened with \<open>clientFoundRows\<close>
  (dbconn/dbconn.go), so a matched row counts whether or not its columns change.
  \<open>select_rows\<close> is \<open>SELECT ... WHERE ... ORDER BY ... LIMIT\<close>.
\<close>

definition upd_rows :: "('r \<Rightarrow> bool) \<Rightarrow> ('r \<Rightarrow> 'r) \<Rightarrow> 'r list \<Rightarrow> 'r list" where
  "upd_rows P g rs = map (\<lambda>r. if P r then g r else r) rs"

definition matched :: "('r \<Rightarrow> bool) \<Rightarrow> 'r list \<Rightarrow> nat" where
  "matched P rs = length (filter P rs)"

definition select_rows :: "('r \<Rightarrow> bool) \<Rightarrow> ('r \<Rightarrow> 'k::linorder) \<Rightarrow> nat \<Rightarrow> 'r list \<Rightarrow> 'r list" where
  "select_rows P key n rs = take n (sort_key key (filter P rs))"

lemma upd_rows_simps [simp, row_simps]:
  "upd_rows P g [] = []"
  "upd_rows P g (r # rs) = (if P r then g r else r) # upd_rows P g rs"
  by (simp_all add: upd_rows_def)

lemma matched_simps [simp, row_simps]:
  "matched P [] = 0"
  "matched P (r # rs) = (if P r then Suc (matched P rs) else matched P rs)"
  by (simp_all add: matched_def)

lemma length_upd_rows [simp]: "length (upd_rows P g rs) = length rs"
  by (simp add: upd_rows_def)

lemma upd_rows_id: "matched P rs = 0 \<Longrightarrow> upd_rows P g rs = rs"
  by (induction rs) (auto split: if_splits)

lemma matched_0_iff: "matched P rs = 0 \<longleftrightarrow> (\<forall>r\<in>set rs. \<not> P r)"
  by (induction rs) auto

lemma map_upd_rows: "(\<And>r. P r \<Longrightarrow> h (g r) = h r) \<Longrightarrow> map h (upd_rows P g rs) = map h rs"
  by (induction rs) auto

lemma set_upd_rows: "set (upd_rows P g rs) = (\<lambda>r. if P r then g r else r) ` set rs"
  by (simp add: upd_rows_def)

lemma in_upd_rowsE:
  assumes "r' \<in> set (upd_rows P g rs)"
  obtains (hit) r where "r \<in> set rs" "P r" "r' = g r"
    | (miss) "r' \<in> set rs" "\<not> P r'"
  using assms by (auto simp: set_upd_rows split: if_splits)

lemma in_upd_rows_miss: "r \<in> set rs \<Longrightarrow> \<not> P r \<Longrightarrow> r \<in> set (upd_rows P g rs)"
  by (induction rs) auto

lemma in_upd_rows_hit: "r \<in> set rs \<Longrightarrow> P r \<Longrightarrow> g r \<in> set (upd_rows P g rs)"
  by (induction rs) auto

text \<open>A predicate on a key that is unique in the table matches at most one row.\<close>

lemma matched_unique:
  assumes "distinct (map key rs)" "\<And>r. P r \<Longrightarrow> key r = k"
  shows "matched P rs \<le> 1"
  using assms
proof (induction rs)
  case (Cons r rs)
  then have IH: "matched P rs \<le> 1" by simp
  show ?case
  proof (cases "P r")
    case True
    then have "key r = k" by (rule Cons.prems)
    with Cons.prems have "\<forall>s\<in>set rs. \<not> P s" by (auto simp: rev_image_eqI)
    then have "matched P rs = 0" by (simp add: matched_0_iff)
    then show ?thesis by simp
  next
    case False
    with IH show ?thesis by simp
  qed
qed simp

lemma matched_key:
  assumes "distinct (map key rs)" "r \<in> set rs" "P r" "\<And>x. P x \<Longrightarrow> key x = key r"
  shows "matched P rs = 1"
proof -
  have "matched P rs \<noteq> 0" using assms(2,3) by (auto simp: matched_0_iff)
  with matched_unique[of key rs P "key r", OF assms(1) assms(4)] show ?thesis by simp
qed

lemma set_select_rows: "set (select_rows P key n rs) \<subseteq> {r \<in> set rs. P r}"
proof
  fix r assume "r \<in> set (select_rows P key n rs)"
  then have "r \<in> set (sort_key key (filter P rs))"
    unfolding select_rows_def by (rule in_set_takeD)
  then show "r \<in> {r \<in> set rs. P r}" by simp
qed

lemma in_select_rowsD: "r \<in> set (select_rows P key n rs) \<Longrightarrow> r \<in> set rs \<and> P r"
  using set_select_rows[of P key n rs] by (simp add: subset_iff)

lemma length_select_rows: "length (select_rows P key n rs) \<le> n"
  by (simp add: select_rows_def)

lemma sorted_select_rows: "sorted (map key (select_rows P key n rs))"
  by (simp add: select_rows_def take_map[symmetric] sorted_wrt_take)

lemma distinct_map_select_rows:
  "distinct (map h rs) \<Longrightarrow> distinct (map h (select_rows P key n rs))"
proof -
  assume d: "distinct (map h rs)"
  then have "distinct (map h (filter P rs))" by (simp add: distinct_map_filter)
  then have "distinct (map h (sort_key key (filter P rs)))"
    by (simp add: distinct_map)
  then show ?thesis by (simp add: select_rows_def take_map[symmetric])
qed

lemma select_rows_prefix_closed:
  assumes "r \<in> set (select_rows P key n rs)" "s \<in> set rs" "P s" "key s < key r"
  shows "s \<in> set (select_rows P key n rs)"
proof -
  let ?xs = "sort_key key (filter P rs)"
  have srt: "sorted (map key ?xs)" by simp
  from assms(1) obtain i where i: "i < n" "i < length ?xs" "r = ?xs ! i"
    by (auto simp: select_rows_def in_set_conv_nth)
  from assms(2,3) have "s \<in> set ?xs" by simp
  then obtain j where j: "j < length ?xs" "s = ?xs ! j"
    unfolding in_set_conv_nth[of s ?xs] by blast
  have "j < i"
  proof (rule ccontr)
    assume "\<not> j < i"
    then have "key (?xs ! i) \<le> key (?xs ! j)"
      using sorted_nth_mono[OF srt, of i j] i j by simp
    with assms(4) i j show False by simp
  qed
  with i have "j < n" by simp
  with j have "s = take n ?xs ! j" "j < length (take n ?xs)" by simp_all
  then show ?thesis unfolding select_rows_def by (metis nth_mem)
qed

section \<open>Lists\<close>

lemma find_Some_in: "find P xs = Some x \<Longrightarrow> x \<in> set xs \<and> P x"
  by (auto simp: find_Some_iff)

lemma find_unique_key:
  "distinct (map h xs) \<Longrightarrow> x \<in> set xs \<Longrightarrow> find (\<lambda>y. h y = h x) xs = Some x"
  by (induction xs) (auto simp: rev_image_eqI)

lemma sorted_wrt_less_append1:
  "sorted_wrt (<) (xs @ [x]) \<longleftrightarrow> sorted_wrt (<) xs \<and> (\<forall>y\<in>set xs. y < (x::'a::order))"
  by (auto simp: sorted_wrt_append)

lemma sort_key_strict_id: "sorted_wrt (<) (map k xs) \<Longrightarrow> sort_key k xs = xs"
  by (rule sort_key_id_if_sorted) (simp add: strict_sorted_imp_sorted)

lemma sum_list_filter_le: "sum_list (map g (filter P xs)) \<le> sum_list (map (g :: 'a \<Rightarrow> nat) xs)"
  by (induction xs) auto

end
