(* ===== verification/Durable_Log.thy ===== *)
theory Durable_Log
  imports Gw_Prelude "HOL-Library.Sublist"
begin

text \<open>
  The contract of a durable, sequence-numbered log as its sender sees it: entries in
  strictly increasing order, a bounded read of a prefix, and an acknowledgement that
  drops what it covers. The client is the delivery loop of the control stream: read a
  batch, hand it over, acknowledge its last entry. The journal interprets the locale.
\<close>

primrec drain :: "('s \<Rightarrow> 'e list) \<Rightarrow> ('e \<Rightarrow> nat) \<Rightarrow> (nat \<Rightarrow> 's \<Rightarrow> 's) \<Rightarrow> nat \<Rightarrow> 's \<Rightarrow> 'e list \<times> 's" where
  "drain rd sq ak 0 s = ([], s)"
| "drain rd sq ak (Suc n) s =
     (if rd s = [] then ([], s)
      else (let (out, s') = drain rd sq ak n (ak (sq (last (rd s))) s) in (rd s @ out, s')))"

locale durable_log =
  fixes entries :: "'s \<Rightarrow> 'e list"
    and seq :: "'e \<Rightarrow> nat"
    and inv :: "'s \<Rightarrow> bool"
    and rd :: "'s \<Rightarrow> 'e list"
    and ak :: "nat \<Rightarrow> 's \<Rightarrow> 's"
  assumes entries_sorted: "inv s \<Longrightarrow> sorted_wrt (<) (map seq (entries s))"
    and rd_prefix: "inv s \<Longrightarrow> prefix (rd s) (entries s)"
    and rd_nonempty: "inv s \<Longrightarrow> entries s \<noteq> [] \<Longrightarrow> rd s \<noteq> []"
    and ak_inv: "inv s \<Longrightarrow> inv (ak n s)"
    and ak_entries: "inv s \<Longrightarrow> e \<in> set (entries s) \<Longrightarrow>
      entries (ak (seq e) s) = filter (\<lambda>x. seq e < seq x) (entries s)"
begin

text \<open>Acknowledging the last entry of a batch leaves exactly the entries after the batch.\<close>

lemma ak_batch:
  assumes inv: "inv s" and split: "entries s = b @ r" and ne: "b \<noteq> []"
  shows "entries (ak (seq (last b)) s) = r"
proof -
  from ne obtain i l where b: "b = i @ [l]" by (metis append_butlast_last_id)
  have srt: "sorted_wrt (<) (map seq ((i @ [l]) @ r))"
    using entries_sorted[OF inv] unfolding split b .
  then have "\<forall>x\<in>set i. \<not> seq l < seq x" "\<forall>x\<in>set r. seq l < seq x"
    by (auto simp: sorted_wrt_append)
  then have "filter (\<lambda>x. seq l < seq x) (i @ [l] @ r) = r"
    by (simp add: filter_empty_conv)
  moreover have "l \<in> set (entries s)" by (simp add: split b)
  ultimately show ?thesis using ak_entries[OF inv, of l] by (simp add: split b)
qed

lemma drain_all:
  "inv s \<Longrightarrow> length (entries s) \<le> n \<Longrightarrow>
    \<exists>s'. drain rd seq ak n s = (entries s, s') \<and> entries s' = [] \<and> inv s'"
proof (induction n arbitrary: s)
  case 0
  then show ?case by simp
next
  case (Suc n)
  show ?case
  proof (cases "rd s = []")
    case True
    then have "entries s = []" using rd_nonempty[OF Suc.prems(1)] by blast
    with True Suc.prems show ?thesis by simp
  next
    case False
    from rd_prefix[OF Suc.prems(1)] obtain r where r: "entries s = rd s @ r"
      by (auto simp: prefix_def)
    let ?t = "ak (seq (last (rd s))) s"
    have t: "entries ?t = r" by (rule ak_batch[OF Suc.prems(1) r False])
    have "length r \<le> n" using Suc.prems(2) False r by (cases "rd s") auto
    then obtain s' where s': "drain rd seq ak n ?t = (r, s')" "entries s' = []" "inv s'"
      using Suc.IH[OF ak_inv[OF Suc.prems(1)]] t by metis
    with False r show ?thesis by simp
  qed
qed

end

end
