(* ===== verification/Journal.thy ===== *)
theory Journal
  imports Durable_Log
begin

text \<open>
  The gateway-local event journal (src/backend/internal/gateway/journal/journal.go): the
  capacity configuration and its normalisation, the capacity states, and the operations
  \<open>Append\<close>, \<open>ReadUnacked\<close>, \<open>Ack\<close> and the usage query on the SQLite tables
  \<open>journal_entries\<close> and \<open>journal_meta\<close>. The record is extended by the command ledger
  and the history inbox, which live in the same database.
\<close>

section \<open>Configuration\<close>

record jconfig =
  MaxBytes :: int
  VolumeBytes :: int
  MaxVolumeShare :: int
  DegradedAt :: int
  PauseAt :: int
  CriticalAt :: int

definition DefaultBatchEntries :: int where "DefaultBatchEntries = 256"
definition DefaultBatchBytes :: int where "DefaultBatchBytes = 1048576"

definition DefaultConfig :: jconfig where
  "DefaultConfig = \<lparr>MaxBytes = 1073741824, VolumeBytes = 0, MaxVolumeShare = 25,
     DegradedAt = 70, PauseAt = 80, CriticalAt = 90\<rparr>"

definition fill_defaults :: "jconfig \<Rightarrow> int \<Rightarrow> jconfig" where
  "fill_defaults c volumeBytes =
     \<lparr>MaxBytes = (if MaxBytes c = 0 then MaxBytes DefaultConfig else MaxBytes c),
      VolumeBytes = (if VolumeBytes c = 0 then volumeBytes else VolumeBytes c),
      MaxVolumeShare = (if MaxVolumeShare c = 0 then MaxVolumeShare DefaultConfig else MaxVolumeShare c),
      DegradedAt = (if DegradedAt c = 0 then DegradedAt DefaultConfig else DegradedAt c),
      PauseAt = (if PauseAt c = 0 then PauseAt DefaultConfig else PauseAt c),
      CriticalAt = (if CriticalAt c = 0 then CriticalAt DefaultConfig else CriticalAt c)\<rparr>"

definition normalized :: "jconfig \<Rightarrow> int \<Rightarrow> jconfig result" where
  "normalized c0 volumeBytes =
     (let c = fill_defaults c0 volumeBytes;
          boundsValid = (MaxBytes c > 0 \<and> VolumeBytes c > 0 \<and> MaxVolumeShare c > 0 \<and> MaxVolumeShare c \<le> 100);
          thresholdsOrdered = (DegradedAt c > 0 \<and> DegradedAt c < PauseAt c \<and>
            PauseAt c < CriticalAt c \<and> CriticalAt c < 100)
      in if \<not> boundsValid \<or> \<not> thresholdsOrdered
         then Inl (Plain ''invalid gateway journal capacity configuration'')
         else if MaxBytes c > go_quot (i64 (VolumeBytes c * MaxVolumeShare c)) 100
         then Inl (Plain (''gateway journal cap '' @ show_int (MaxBytes c) @ '' exceeds '' @
                show_int (MaxVolumeShare c) @ ''% of volume budget '' @ show_int (VolumeBytes c)))
         else Inr c)"

datatype capacity_state = CapacityHealthy | CapacityDegraded | CapacityPaused | CapacityCritical

definition stateFor :: "int \<Rightarrow> jconfig \<Rightarrow> capacity_state" where
  "stateFor bytes cfg =
     (let percent = go_quot (i64 (bytes * 100)) (MaxBytes cfg) in
      if percent \<ge> CriticalAt cfg then CapacityCritical
      else if percent \<ge> PauseAt cfg then CapacityPaused
      else if percent \<ge> DegradedAt cfg then CapacityDegraded
      else CapacityHealthy)"

section \<open>State\<close>

text \<open>
  One row of \<open>journal_entries\<close>; \<open>je_CreatedAt\<close> is in epoch milliseconds. A payload is a
  byte string. \<open>j_sequence\<close> is SQLite's \<open>sqlite_sequence\<close> entry of the AUTOINCREMENT
  column, which deletions do not lower, and \<open>j_acked\<close> is \<open>journal_meta.acked_through\<close>.
\<close>

record jentry =
  je_Seq :: nat
  je_EventID :: string
  je_Payload :: string
  je_CreatedAt :: int

record journal =
  j_cfg :: jconfig
  j_entries :: "jentry list"
  j_sequence :: nat
  j_acked :: nat

record jmetrics =
  jm_Entries :: nat
  jm_Bytes :: int
  jm_OldestUnackedAt :: "int option"
  jm_AckedThrough :: nat
  jm_State :: capacity_state

abbreviation ErrCapacity :: go_err where
  "ErrCapacity \<equiv> Sentinel ''gateway journal capacity exceeded''"
abbreviation ErrUnknownAck :: go_err where
  "ErrUnknownAck \<equiv> Sentinel ''gateway journal acknowledgement exceeds stored entries''"
abbreviation ErrCorrupt :: go_err where
  "ErrCorrupt \<equiv> Sentinel ''gateway journal corrupt''"

definition classifySQLiteError :: "go_err \<Rightarrow> go_err" where
  "classifySQLiteError e = (if sql_code_of e = Some 13 then Annotated ErrCapacity (err_text e) else e)"

definition payload_bytes :: "jentry list \<Rightarrow> int" where
  "payload_bytes es = int (sum_list (map (\<lambda>e. length (je_Payload e)) es))"

definition oldest_created :: "jentry list \<Rightarrow> int option" where
  "oldest_created es = (case map je_CreatedAt es of [] \<Rightarrow> None | x # xs \<Rightarrow> Some (fold min xs x))"

text \<open>\<open>SUM\<close>, \<open>COUNT\<close> and \<open>MIN\<close> of the usage query.\<close>

definition metricsDB :: "go_err option \<Rightarrow> 'z journal_scheme \<Rightarrow> jmetrics result" where
  "metricsDB fault j =
     (case fault of
        Some e \<Rightarrow> Inl (classifySQLiteError e)
      | None \<Rightarrow> Inr \<lparr>jm_Entries = length (j_entries j), jm_Bytes = payload_bytes (j_entries j),
           jm_OldestUnackedAt = oldest_created (j_entries j), jm_AckedThrough = j_acked j,
           jm_State = stateFor (payload_bytes (j_entries j)) (j_cfg j)\<rparr>)"

text \<open>
  SQLite gives a new row of an AUTOINCREMENT table the successor of the largest number
  ever used: the maximum of \<open>sqlite_sequence\<close> and of the rows of the table.
\<close>

definition max_seq :: "nat \<Rightarrow> jentry list \<Rightarrow> nat" where
  "max_seq d es = fold max (map je_Seq es) d"

definition next_seq :: "'z journal_scheme \<Rightarrow> nat" where
  "next_seq j = Suc (max_seq (j_sequence j) (j_entries j))"

section \<open>Opening\<close>

text \<open>
  What \<open>Open\<close> asks of the operating system and of SQLite before it trusts the file:
  the path's shape, the directory, the size of the volume, what is at the path, the
  outcome of opening and of \<open>PRAGMA quick_check\<close>, and of the two schema scripts.
  \<open>existing\<close> is the database found at the path, if there is one.
\<close>

datatype stat_outcome = StatRegular | StatNotRegular | StatNotExist | StatError go_err

record open_env =
  oe_path_absolute :: bool
  oe_mkdir :: "go_err option"
  oe_volume :: "int result"
  oe_stat :: stat_outcome
  oe_sqlopen :: "go_err option"
  oe_quick_check :: "string result"
  oe_schema :: "go_err option"
  oe_history_schema :: "go_err option"
  oe_existing :: "(jentry list \<times> nat \<times> nat) option"

definition integrityCheck :: "string result \<Rightarrow> go_err option" where
  "integrityCheck r =
     (case r of
        Inl e \<Rightarrow> Some (Annotated ErrCorrupt (''quick_check: '' @ err_text e))
      | Inr s \<Rightarrow> if s \<noteq> ''ok'' then Some (Annotated ErrCorrupt (''quick_check returned '' @ go_quote s)) else None)"

definition Open :: "open_env \<Rightarrow> jconfig \<Rightarrow> journal result" where
  "Open env cfg0 =
     (if \<not> oe_path_absolute env then Inl (Plain ''gateway journal path must be absolute'')
      else case oe_mkdir env of Some e \<Rightarrow> Inl (Wrapped ''create journal directory'' e)
      | None \<Rightarrow> (case oe_volume env of Inl e \<Rightarrow> Inl (Wrapped ''stat gateway journal volume'' e)
      | Inr volume \<Rightarrow> (case normalized cfg0 volume of Inl e \<Rightarrow> Inl e
      | Inr cfg \<Rightarrow> (case oe_stat env of
          StatNotRegular \<Rightarrow> Inl (Plain ''gateway journal path is not a regular file'')
        | StatError e \<Rightarrow> Inl (Wrapped ''stat gateway journal'' e)
        | _ \<Rightarrow> (case oe_sqlopen env of Some e \<Rightarrow> Inl (Wrapped ''open gateway journal'' e)
        | None \<Rightarrow> (case integrityCheck (oe_quick_check env) of Some e \<Rightarrow> Inl e
        | None \<Rightarrow> (case oe_schema env of
            Some e \<Rightarrow> Inl (classifySQLiteError (Wrapped ''initialize gateway journal'' e))
        | None \<Rightarrow> (case oe_history_schema env of
            Some e \<Rightarrow> Inl (classifySQLiteError (Wrapped ''initialize gateway history inbox'' e))
        | None \<Rightarrow>
            (case oe_existing env of
               None \<Rightarrow> Inr \<lparr>j_cfg = cfg, j_entries = [], j_sequence = 0, j_acked = 0\<rparr>
             | Some (es, sq, ack) \<Rightarrow>
                 Inr \<lparr>j_cfg = cfg, j_entries = es, j_sequence = sq, j_acked = ack\<rparr>)))))))))"

section \<open>Operations\<close>

text \<open>
  \<open>Append\<close> in one transaction: the calls are \<open>BeginTx\<close> (0), the lookup by event id (1),
  the commit of the duplicate branch (2), the usage query (3), the insert (4),
  \<open>LastInsertId\<close> (5) and the commit (6).
\<close>

definition insert_entry :: "string \<Rightarrow> string \<Rightarrow> int \<Rightarrow> 'z journal_scheme \<Rightarrow> 'z journal_scheme" where
  "insert_entry eventID payload createdMS j =
     j\<lparr>j_entries := j_entries j @
         [\<lparr>je_Seq = next_seq j, je_EventID = eventID, je_Payload = payload, je_CreatedAt = createdMS\<rparr>],
       j_sequence := next_seq j\<rparr>"

definition sq :: "faults \<Rightarrow> nat \<Rightarrow> go_err option" where
  "sq f i = map_option classifySQLiteError (f i)"

definition Append :: "faults \<Rightarrow> string \<Rightarrow> string \<Rightarrow> gotime \<Rightarrow> 'z journal_scheme
    \<Rightarrow> 'z journal_scheme \<times> (jentry \<times> bool) result" where
  "Append f eventID payload createdAt j =
     (if eventID = [] \<or> payload = [] \<or> IsZero createdAt
      then (j, Inl (Plain ''gateway journal event id, payload, and time are required''))
      else in_tx j
        (call (sq f 0)
        (call (sq f 1)
        (case find (\<lambda>e. je_EventID e = eventID) (j_entries j) of
           Some existing \<Rightarrow> call (sq f 2) (Inr (j, existing, False))
         | None \<Rightarrow>
             bindr (map_sum classifySQLiteError id (metricsDB (f 3) j)) (\<lambda>m.
             let projectedBytes = i64 (jm_Bytes m + int (length payload)) in
             if projectedBytes > MaxBytes (j_cfg j)
             then Inl (Annotated ErrCapacity
                    (show_int projectedBytes @ '' > '' @ show_int (MaxBytes (j_cfg j))))
             else
               call (sq f 4)
               (call (sq f 5)
               (call (sq f 6)
               (let j' = insert_entry eventID payload (UnixMilli createdAt) j
                in Inr (j', last (j_entries j'), True)))))))))"

text \<open>
  The row loop of \<open>ReadUnacked\<close>: call \<open>i\<close> is the scan of the next row, and the
  \<open>rows.Err\<close> after the loop is the call after the last scan.
\<close>

fun read_rows :: "faults \<Rightarrow> nat \<Rightarrow> int \<Rightarrow> int \<Rightarrow> jentry list \<Rightarrow> jentry list \<Rightarrow> jentry list result" where
  "read_rows f i maxBytes used out [] =
     (case f i of Some e \<Rightarrow> Inl (classifySQLiteError e) | None \<Rightarrow> Inr out)"
| "read_rows f i maxBytes used out (e # es) =
     (case f i of Some er \<Rightarrow> Inl (classifySQLiteError er)
      | None \<Rightarrow>
          if out \<noteq> [] \<and> i64 (used + int (length (je_Payload e))) > maxBytes
          then (case f (Suc i) of Some er \<Rightarrow> Inl (classifySQLiteError er) | None \<Rightarrow> Inr out)
          else read_rows f (Suc i) maxBytes (i64 (used + int (length (je_Payload e)))) (out @ [e]) es)"

definition ReadUnacked :: "faults \<Rightarrow> int \<Rightarrow> int \<Rightarrow> 'z journal_scheme \<Rightarrow> jentry list result" where
  "ReadUnacked f maxEntries maxBytes j =
     (if maxEntries \<le> 0 \<or> maxBytes \<le> 0
      then Inl (Plain ''gateway journal read limits must be positive'')
      else case f 0 of Some e \<Rightarrow> Inl (classifySQLiteError e)
      | None \<Rightarrow> read_rows f 1 maxBytes 0 []
                  (select_rows (\<lambda>_. True) je_Seq (nat maxEntries) (j_entries j)))"

definition ReadDefaultBatch :: "faults \<Rightarrow> 'z journal_scheme \<Rightarrow> jentry list result" where
  "ReadDefaultBatch f j = ReadUnacked f DefaultBatchEntries DefaultBatchBytes j"

text \<open>
  \<open>Ack\<close> in one transaction: \<open>BeginTx\<close> (0), the watermark (1), the commit of the
  repeated acknowledgement, whose error is not classified (2), the maximum (3), the
  delete (4), the watermark update (5) and the commit (6).
\<close>

definition ack_through :: "nat \<Rightarrow> 'z journal_scheme \<Rightarrow> 'z journal_scheme" where
  "ack_through through j =
     j\<lparr>j_entries := filter (\<lambda>e. \<not> je_Seq e \<le> through) (j_entries j), j_acked := through\<rparr>"

definition stored_maximum :: "'z journal_scheme \<Rightarrow> nat" where
  "stored_maximum j = (case j_entries j of [] \<Rightarrow> j_acked j | e # es \<Rightarrow> max_seq (je_Seq e) es)"

definition Ack :: "faults \<Rightarrow> nat \<Rightarrow> 'z journal_scheme \<Rightarrow> 'z journal_scheme \<times> unit result" where
  "Ack f through j = in_tx j
     (call (sq f 0)
     (call (sq f 1)
     (if through \<le> j_acked j then call (f 2) (Inr (j, ()))
      else
        call (sq f 3)
        (if through > stored_maximum j
         then Inl (Annotated ErrUnknownAck (show_nat through @ '' > '' @ show_nat (stored_maximum j)))
         else
           call (sq f 4)
           (call (sq f 5)
           (call (sq f 6) (Inr (ack_through through j, ()))))))))"

section \<open>The invariant\<close>

text \<open>What \<open>normalized\<close> guarantees of the limits, and what holds of the tables.\<close>

definition cfg_ok :: "jconfig \<Rightarrow> bool" where
  "cfg_ok c \<longleftrightarrow> 0 < MaxBytes c \<and> MaxBytes c * 100 < 2 ^ 63 \<and>
     0 < DegradedAt c \<and> DegradedAt c < PauseAt c \<and> PauseAt c < CriticalAt c \<and> CriticalAt c < 100"

definition jinv :: "'z journal_scheme \<Rightarrow> bool" where
  "jinv j \<longleftrightarrow> cfg_ok (j_cfg j) \<and>
     sorted_wrt (<) (map je_Seq (j_entries j)) \<and>
     distinct (map je_EventID (j_entries j)) \<and>
     (\<forall>e\<in>set (j_entries j). j_acked j < je_Seq e \<and> je_Seq e \<le> j_sequence j \<and>
        je_EventID e \<noteq> [] \<and> je_Payload e \<noteq> []) \<and>
     j_acked j \<le> j_sequence j \<and>
     payload_bytes (j_entries j) * 100 < 2 ^ 63"

lemma normalized_ok:
  assumes "normalized c0 v = Inr c"
  shows "cfg_ok c"
proof -
  let ?w = "i64 (VolumeBytes c * MaxVolumeShare c)"
  from assms have c: "c = fill_defaults c0 v" "0 < MaxBytes c" "MaxBytes c \<le> go_quot ?w 100"
    "0 < DegradedAt c" "DegradedAt c < PauseAt c" "PauseAt c < CriticalAt c" "CriticalAt c < 100"
    by (auto simp: normalized_def Let_def split: if_splits)
  have w: "is_i64 ?w" by simp
  have "0 < ?w" using c(2,3) by (cases "0 < ?w") (auto simp: go_quot_def sgn_if split: if_splits)
  then have "go_quot ?w 100 = ?w div 100" by (simp add: go_quot_nonneg)
  moreover have "?w div 100 * 100 \<le> ?w" by simp
  ultimately have "MaxBytes c * 100 < 2 ^ 63" using c(3) w unfolding is_i64_def by linarith
  with c show ?thesis by (simp add: cfg_ok_def)
qed

lemma payload_bytes_simps [simp]:
  "payload_bytes [] = 0"
  "payload_bytes (e # es) = int (length (je_Payload e)) + payload_bytes es"
  "payload_bytes (es @ fs) = payload_bytes es + payload_bytes fs"
  by (simp_all add: payload_bytes_def)

lemma payload_bytes_nonneg [simp]: "0 \<le> payload_bytes es"
  by (simp add: payload_bytes_def)

lemma payload_bytes_filter: "payload_bytes (filter P es) \<le> payload_bytes es"
  by (simp add: payload_bytes_def sum_list_filter_le)

lemma max_seq_ge: "d \<le> max_seq d es" "e \<in> set es \<Longrightarrow> je_Seq e \<le> max_seq d es"
proof -
  have *: "max_seq d es = Max (insert d (set (map je_Seq es)))"
    unfolding max_seq_def by (metis Max.set_eq_fold list.simps(15))
  show "d \<le> max_seq d es" by (simp add: *)
  show "e \<in> set es \<Longrightarrow> je_Seq e \<le> max_seq d es" by (simp add: *)
qed

lemma max_seq_in: "max_seq d es = d \<or> max_seq d es \<in> je_Seq ` set es"
proof -
  have "max_seq d es = Max (insert d (set (map je_Seq es)))"
    unfolding max_seq_def by (metis Max.set_eq_fold list.simps(15))
  then have "max_seq d es \<in> insert d (set (map je_Seq es))" by (metis Max_in finite.insertI
    finite_set insert_not_empty)
  then show ?thesis by auto
qed

lemma next_seq_inv: "jinv j \<Longrightarrow> next_seq j = Suc (j_sequence j)"
  using max_seq_in[of "j_sequence j" "j_entries j"] max_seq_ge(1)[of "j_sequence j" "j_entries j"]
  by (fastforce simp: next_seq_def jinv_def)

lemma stored_maximum_inv:
  assumes "jinv j"
  shows "stored_maximum j \<le> j_sequence j" "e \<in> set (j_entries j) \<Longrightarrow> je_Seq e \<le> stored_maximum j"
proof -
  show "stored_maximum j \<le> j_sequence j"
  proof (cases "j_entries j")
    case Nil
    with assms show ?thesis by (simp add: stored_maximum_def jinv_def)
  next
    case (Cons d es)
    with max_seq_in[of "je_Seq d" es] assms show ?thesis
      by (auto simp: stored_maximum_def jinv_def)
  qed
  show "e \<in> set (j_entries j) \<Longrightarrow> je_Seq e \<le> stored_maximum j"
    by (auto simp: stored_maximum_def max_seq_ge split: list.splits)
qed

text \<open>
  The outcomes of \<open>Append\<close>: it changes the tables only when it returns a new entry, and
  then the payload fits the capacity.
\<close>

lemma Append_cases:
  assumes "Append f eid p t j = (j', r)"
  obtains (error) err where "r = Inl err" "j' = j"
    | (duplicate) e where "r = Inr (e, False)" "j' = j"
        "find (\<lambda>e. je_EventID e = eid) (j_entries j) = Some e"
    | (appended) "r = Inr (last (j_entries j'), True)" "j' = insert_entry eid p (UnixMilli t) j"
        "eid \<noteq> []" "p \<noteq> []" "find (\<lambda>e. je_EventID e = eid) (j_entries j) = None"
        "i64 (payload_bytes (j_entries j) + int (length p)) \<le> MaxBytes (j_cfg j)"
proof (cases r)
  case (Inl err)
  with assms have "j' = j" by (auto simp: Append_def split: if_splits)
  with Inl error show ?thesis by blast
next
  case (Inr x)
  with assms duplicate appended show ?thesis
    by (auto simp: Append_def metricsDB_def Let_def split: if_splits option.splits)
qed

lemma Ack_cases:
  assumes "Ack f n j = (j', r)"
  obtains (error) err where "r = Inl err" "j' = j"
    | (repeated) "r = Inr ()" "j' = j" "n \<le> j_acked j"
    | (advanced) "r = Inr ()" "j' = ack_through n j" "j_acked j < n" "n \<le> stored_maximum j"
proof (cases r)
  case (Inl err)
  with assms error show ?thesis by (auto simp: Ack_def)
next
  case (Inr x)
  with assms repeated advanced show ?thesis by (auto simp: Ack_def split: if_splits)
qed

lemma insert_entry_sel [simp]:
  "j_cfg (insert_entry eid p c j) = j_cfg j"
  "j_entries (insert_entry eid p c j) = j_entries j @
     [\<lparr>je_Seq = next_seq j, je_EventID = eid, je_Payload = p, je_CreatedAt = c\<rparr>]"
  "j_sequence (insert_entry eid p c j) = next_seq j"
  "j_acked (insert_entry eid p c j) = j_acked j"
  by (simp_all add: insert_entry_def)

lemma ack_through_sel [simp]:
  "j_cfg (ack_through n j) = j_cfg j"
  "j_entries (ack_through n j) = filter (\<lambda>e. \<not> je_Seq e \<le> n) (j_entries j)"
  "j_sequence (ack_through n j) = j_sequence j"
  "j_acked (ack_through n j) = n"
  by (simp_all add: ack_through_def)

lemma insert_entry_jinv:
  assumes inv: "jinv j" and ne: "eid \<noteq> []" "p \<noteq> []" "length p < 2 ^ 62"
    and new: "find (\<lambda>e. je_EventID e = eid) (j_entries j) = None"
    and fits: "i64 (payload_bytes (j_entries j) + int (length p)) \<le> MaxBytes (j_cfg j)"
  shows "jinv (insert_entry eid p c j)"
proof -
  from inv have b: "payload_bytes (j_entries j) * 100 < 2 ^ 63"
    "MaxBytes (j_cfg j) * 100 < 2 ^ 63" by (simp_all add: jinv_def cfg_ok_def)
  have "int (length p) < 2 ^ 62" using ne(3) by (metis of_nat_less_numeral_power_cancel_iff)
  then have "is_i64 (payload_bytes (j_entries j) + int (length p))"
    using b by (simp add: is_i64_def add_increasing2 order_trans[OF _ add_nonneg_nonneg])
  then have "payload_bytes (j_entries j) + int (length p) \<le> MaxBytes (j_cfg j)"
    using fits by simp
  moreover have "eid \<notin> set (map je_EventID (j_entries j))"
    using new by (auto simp: find_None_iff)
  ultimately show ?thesis using inv ne(1,2) next_seq_inv[OF inv] b(2)
    by (auto simp: jinv_def sorted_wrt_append less_Suc_eq_le le_SucI)
qed

lemma ack_through_jinv:
  assumes "jinv j" "n \<le> stored_maximum j"
  shows "jinv (ack_through n j)"
proof -
  have "payload_bytes (filter (\<lambda>e. \<not> je_Seq e \<le> n) (j_entries j)) * 100 < 2 ^ 63"
    using assms(1) payload_bytes_filter[of "\<lambda>e. \<not> je_Seq e \<le> n" "j_entries j"]
    unfolding jinv_def by linarith
  then show ?thesis using assms stored_maximum_inv(1)[OF assms(1)]
    by (auto simp: jinv_def distinct_map_filter sorted_wrt_map sorted_wrt_filter)
qed

lemma Append_jinv:
  assumes "jinv j" "length p < 2 ^ 62" "Append f eid p t j = (j', r)"
  shows "jinv j'"
  using assms(3) by (cases rule: Append_cases) (auto intro: insert_entry_jinv assms(1,2))

lemma Ack_jinv:
  assumes "jinv j" "Ack f n j = (j', r)"
  shows "jinv j'"
  using assms(2) by (cases rule: Ack_cases) (auto intro: ack_through_jinv assms(1))

section \<open>Reading\<close>

text \<open>The row loop without faults: it takes the longest prefix that fits, but always one row.\<close>

lemma read_rows_spec:
  assumes "(payload_bytes out + payload_bytes es) * 100 < 2 ^ 63"
  shows "\<exists>pre rest. es = pre @ rest \<and>
    read_rows no_faults i mb (payload_bytes out) out es = Inr (out @ pre) \<and>
    (out = [] \<longrightarrow> es \<noteq> [] \<longrightarrow> pre \<noteq> []) \<and>
    (payload_bytes (out @ pre) \<le> mb \<or> length (out @ pre) = 1 \<or> pre = []) \<and>
    (rest \<noteq> [] \<longrightarrow> out @ pre \<noteq> [] \<and> mb < payload_bytes (out @ pre) + int (length (je_Payload (hd rest))))"
  using assms
proof (induction es arbitrary: i out)
  case Nil
  then show ?case by simp
next
  case (Cons e es)
  let ?n = "int (length (je_Payload e))"
  have id: "i64 (payload_bytes out + ?n) = payload_bytes out + ?n"
    using Cons.prems by (intro i64_nonneg_id percent_bound[where c = "payload_bytes es"]) simp_all
  show ?case
  proof (cases "out \<noteq> [] \<and> mb < payload_bytes out + ?n")
    case True
    then show ?thesis
      by (intro exI[of _ "[]"] exI[of _ "e # es"]) (simp add: id)
  next
    case False
    have p: "payload_bytes (out @ [e]) = payload_bytes out + ?n" by simp
    have "(payload_bytes (out @ [e]) + payload_bytes es) * 100 < 2 ^ 63"
      using Cons.prems by simp
    from Cons.IH[OF this, of "Suc i"] obtain pre rest where pr: "es = pre @ rest"
      "read_rows no_faults (Suc i) mb (payload_bytes (out @ [e])) (out @ [e]) es = Inr ((out @ [e]) @ pre)"
      "payload_bytes ((out @ [e]) @ pre) \<le> mb \<or> length ((out @ [e]) @ pre) = 1 \<or> pre = []"
      "rest \<noteq> [] \<longrightarrow> mb < payload_bytes ((out @ [e]) @ pre) + int (length (je_Payload (hd rest)))"
      by blast
    have "read_rows no_faults i mb (payload_bytes out) out (e # es) = Inr (out @ e # pre)"
      using False pr(2) by (auto simp: id p)
    moreover have "payload_bytes (out @ e # pre) \<le> mb \<or> length (out @ e # pre) = 1"
      using pr(3) False by (cases "pre = []") auto
    ultimately show ?thesis using pr(1,4) by - (rule exI[of _ "e # pre"], rule exI[of _ rest], simp add: no_faults_def del: read_rows.simps)
  qed
qed

lemma select_entries: "jinv j \<Longrightarrow> select_rows (\<lambda>_. True) je_Seq n (j_entries j) = take n (j_entries j)"
  by (simp add: select_rows_def jinv_def sort_key_strict_id)

lemma ReadUnacked_longest_prefix_aux:
  assumes inv: "jinv j" and pos: "0 < n" "0 < mb"
  shows "\<exists>es rest. ReadUnacked no_faults n mb j = Inr es \<and> j_entries j = es @ rest \<and>
    int (length es) \<le> n \<and> (payload_bytes es \<le> mb \<or> length es = 1) \<and>
    (j_entries j \<noteq> [] \<longrightarrow> es \<noteq> []) \<and>
    (rest \<noteq> [] \<longrightarrow> int (length es) = n \<or> mb < payload_bytes es + int (length (je_Payload (hd rest))))"
proof -
  let ?t = "take (nat n) (j_entries j)"
  have "payload_bytes ?t \<le> payload_bytes (j_entries j)"
    by (metis append_take_drop_id payload_bytes_nonneg payload_bytes_simps(3) le_add_same_cancel1)
  then have "(payload_bytes [] + payload_bytes ?t) * 100 < 2 ^ 63"
    using inv by (simp add: jinv_def)
  from read_rows_spec[OF this, of 1 mb] obtain es r where es: "?t = es @ r"
    "read_rows no_faults 1 mb 0 [] ?t = Inr es" "?t \<noteq> [] \<longrightarrow> es \<noteq> []"
    "payload_bytes es \<le> mb \<or> length es = 1 \<or> es = []"
    "r \<noteq> [] \<longrightarrow> mb < payload_bytes es + int (length (je_Payload (hd r)))"
    by (metis append_Nil payload_bytes_simps(1))
  have eq: "j_entries j = es @ r @ drop (nat n) (j_entries j)"
    using es(1) append_take_drop_id[of "nat n" "j_entries j"] by simp
  have "length es \<le> length ?t" by (simp add: es(1))
  then have len: "int (length es) \<le> n" using pos by (simp add: le_nat_iff)
  have full: "r = [] \<Longrightarrow> drop (nat n) (j_entries j) \<noteq> [] \<Longrightarrow> int (length es) = n"
    using es(1) pos by (auto simp: min_def dest: arg_cong[of _ _ length] split: if_splits)
  have "ReadUnacked no_faults n mb j = Inr es"
    using pos es(2) by (simp add: ReadUnacked_def select_entries[OF inv])
  then show ?thesis using eq len full es(3,4,5) pos
    by (intro exI[of _ es] exI[of _ "r @ drop (nat n) (j_entries j)"]) (cases r; auto)
qed

text \<open>Without database faults a read returns the longest prefix of the journal,
  in sequence order, that respects both limits; the only batch over the byte limit is a
  single entry, and a non-empty journal never gives an empty batch.\<close>

theorem ReadUnacked_longest_prefix:
  assumes inv: "jinv j" and pos: "0 < n" "0 < mb"
  shows "\<exists>es rest. ReadUnacked no_faults n mb j = Inr es \<and> j_entries j = es @ rest \<and>
    int (length es) \<le> n \<and> (payload_bytes es \<le> mb \<or> length es = 1) \<and>
    (j_entries j \<noteq> [] \<longrightarrow> es \<noteq> []) \<and>
    (rest \<noteq> [] \<longrightarrow> int (length es) = n \<or> mb < payload_bytes es + int (length (je_Payload (hd rest))))"
  by (rule ReadUnacked_longest_prefix_aux[OF assms])

section \<open>Histories\<close>

text \<open>
  The operations that change the tables, in any order: an append, an acknowledgement, and
  a restart of the gateway that opens the file again, perhaps with another capacity.
  The length of a Go slice is far below \<open>2 ^ 62\<close>.
\<close>

inductive jstep :: "journal \<Rightarrow> journal \<Rightarrow> bool" where
  append: "Append f eid p t j = (j', r) \<Longrightarrow> length p < 2 ^ 62 \<Longrightarrow> jstep j j'"
| ack: "Ack f n j = (j', r) \<Longrightarrow> jstep j j'"
| reopen: "Open env c = Inr j' \<Longrightarrow>
    oe_existing env = Some (j_entries j, j_sequence j, j_acked j) \<Longrightarrow> jstep j j'"

inductive_cases jstepE: "jstep j j'"

lemma Open_cases:
  assumes "Open env c = Inr j"
  obtains (new) cfg where "cfg_ok cfg" "oe_existing env = None"
      "j = \<lparr>j_cfg = cfg, j_entries = [], j_sequence = 0, j_acked = 0\<rparr>"
    | (existing) cfg es sqn ack where "cfg_ok cfg" "oe_existing env = Some (es, sqn, ack)"
      "j = \<lparr>j_cfg = cfg, j_entries = es, j_sequence = sqn, j_acked = ack\<rparr>"
proof -
  obtain cfg where cfg: "cfg_ok cfg"
    "Inr j = (case oe_existing env of
               None \<Rightarrow> Inr \<lparr>j_cfg = cfg, j_entries = [], j_sequence = 0, j_acked = 0\<rparr>
             | Some (es, sqn, ack) \<Rightarrow>
                 (Inr \<lparr>j_cfg = cfg, j_entries = es, j_sequence = sqn, j_acked = ack\<rparr> :: journal result))"
    using assms normalized_ok
    by (auto simp: Open_def split: if_splits option.splits sum.splits stat_outcome.splits)
  with that show thesis by (cases "oe_existing env") auto
qed

lemma Open_new_jinv: "Open env c = Inr j \<Longrightarrow> oe_existing env = None \<Longrightarrow> jinv j"
  by (erule Open_cases) (simp_all add: jinv_def)

lemma jstep_jinv: "jstep j j' \<Longrightarrow> jinv j \<Longrightarrow> jinv j'"
proof (erule jstepE)
  fix env c
  assume "Open env c = Inr j'" "oe_existing env = Some (j_entries j, j_sequence j, j_acked j)" "jinv j"
  then show "jinv j'" by (elim Open_cases) (simp_all add: jinv_def)
qed (auto intro: Append_jinv Ack_jinv)

text \<open>One step keeps an entry or acknowledges it, and numbers new entries upwards.\<close>

lemma jstep_mono:
  assumes "jstep j j'" "jinv j"
  shows "j_acked j \<le> j_acked j'" "j_sequence j \<le> j_sequence j'"
    "e \<in> set (j_entries j) \<Longrightarrow> e \<in> set (j_entries j') \<or> je_Seq e \<le> j_acked j'"
    "e \<in> set (j_entries j') \<Longrightarrow> e \<in> set (j_entries j) \<or> j_sequence j < je_Seq e"
proof -
  have "j_acked j \<le> j_acked j' \<and> j_sequence j \<le> j_sequence j' \<and>
    (\<forall>e\<in>set (j_entries j). e \<in> set (j_entries j') \<or> je_Seq e \<le> j_acked j') \<and>
    (\<forall>e\<in>set (j_entries j'). e \<in> set (j_entries j) \<or> j_sequence j < je_Seq e)"
    using assms(1)
  proof (cases rule: jstep.cases)
    case append
    from append(1) next_seq_inv[OF assms(2)] show ?thesis by (cases rule: Append_cases) auto
  next
    case ack
    from ack(1) show ?thesis by (cases rule: Ack_cases) auto
  next
    case reopen
    from reopen show ?thesis by (elim Open_cases) auto
  qed
  then show "j_acked j \<le> j_acked j'" "j_sequence j \<le> j_sequence j'"
    "e \<in> set (j_entries j) \<Longrightarrow> e \<in> set (j_entries j') \<or> je_Seq e \<le> j_acked j'"
    "e \<in> set (j_entries j') \<Longrightarrow> e \<in> set (j_entries j) \<or> j_sequence j < je_Seq e"
    by auto
qed

lemma jsteps_jinv: "jstep\<^sup>*\<^sup>* j j' \<Longrightarrow> jinv j \<Longrightarrow> jinv j'"
  by (induction rule: rtranclp_induct) (auto intro: jstep_jinv)

lemma jsteps_mono:
  assumes "jstep\<^sup>*\<^sup>* j j'" "jinv j"
  shows "j_acked j \<le> j_acked j' \<and> j_sequence j \<le> j_sequence j' \<and>
    (\<forall>e\<in>set (j_entries j). e \<in> set (j_entries j') \<or> je_Seq e \<le> j_acked j') \<and>
    (\<forall>e\<in>set (j_entries j'). e \<in> set (j_entries j) \<or> j_sequence j < je_Seq e)"
  using assms
proof (induction rule: rtranclp_induct)
  case (step y z)
  note m = jstep_mono[OF step.hyps(2) jsteps_jinv[OF step.hyps(1) step.prems]]
  from step.IH[OF step.prems] m(1,2) m(3) m(4) show ?case
    by (meson dual_order.strict_trans2 order_trans)
qed simp

lemma Append_result:
  assumes "jinv j" "Append f eid p t j = (j', Inr (e, fresh))"
  shows "e \<in> set (j_entries j')" "je_EventID e = eid" "fresh \<Longrightarrow> je_Payload e = p"
    "fresh \<Longrightarrow> je_Seq e = Suc (j_sequence j)"
  using assms(2) next_seq_inv[OF assms(1)]
  by (cases rule: Append_cases; auto dest: find_Some_in)+

text \<open>Property C2. An event for which \<open>Append\<close> reported success is never lost: after any
  sequence of appends, acknowledgements (failing ones included) and restarts it is still
  in the journal with its payload, or the API has acknowledged its sequence number.\<close>

theorem journal_no_event_lost:
  assumes "jinv j0" "Append f eid p t j0 = (j1, Inr (e, fresh))" "length p < 2 ^ 62"
    "jstep\<^sup>*\<^sup>* j1 j2"
  shows "je_EventID e = eid \<and> (fresh \<longrightarrow> je_Payload e = p) \<and>
    (e \<in> set (j_entries j2) \<or> je_Seq e \<le> j_acked j2)"
  using Append_result[OF assms(1,2)] jsteps_mono[OF assms(4) Append_jinv[OF assms(1,3,2)]]
  by blast

definition demo_journal :: journal where
  "demo_journal = \<lparr>j_cfg = DefaultConfig\<lparr>VolumeBytes := 2 ^ 33\<rparr>, j_entries = [], j_sequence = 0, j_acked = 0\<rparr>"

definition demo_entry :: jentry where
  "demo_entry = \<lparr>je_Seq = 1, je_EventID = ''evt_1'', je_Payload = ''x'', je_CreatedAt = 0\<rparr>"

definition demo_journal1 :: journal where
  "demo_journal1 = demo_journal\<lparr>j_entries := [demo_entry], j_sequence := 1\<rparr>"

lemmas demo_defs = demo_journal_def demo_journal1_def demo_entry_def DefaultConfig_def

lemma demo_inv: "jinv demo_journal" "jinv demo_journal1"
  by (simp_all add: demo_defs jinv_def cfg_ok_def)

lemma demo_append: "Append no_faults ''evt_1'' ''x'' 0 demo_journal = (demo_journal1, Inr (demo_entry, True))"
  by code_simp

lemma demo_ack: "Ack no_faults 1 demo_journal1 = (demo_journal1\<lparr>j_entries := [], j_acked := 1\<rparr>, Inr ())"
  by code_simp

theorem journal_no_event_lost_witness:
  "je_Payload demo_entry = ''x'' \<and> je_Seq demo_entry \<le> j_acked (demo_journal1\<lparr>j_entries := [], j_acked := 1\<rparr>)"
  using journal_no_event_lost[OF demo_inv(1) demo_append _ r_into_rtranclp[of jstep, OF jstep.ack[OF demo_ack]]]
  by simp

text \<open>Sequence numbers are never reused, over restarts and after the
  acknowledgement has emptied the journal: two entries seen at different times with the
  same number are the same entry, and an entry appended later has a larger number than
  every earlier one.\<close>

theorem journal_sequence_never_reused:
  assumes "jinv j1" "jstep\<^sup>*\<^sup>* j1 j2" "e1 \<in> set (j_entries j1)" "e2 \<in> set (j_entries j2)"
  shows "(je_Seq e1 = je_Seq e2 \<longrightarrow> e1 = e2) \<and>
    (e2 \<notin> set (j_entries j1) \<longrightarrow> je_Seq e1 < je_Seq e2)"
proof -
  have new: "e2 \<in> set (j_entries j1) \<or> j_sequence j1 < je_Seq e2"
    using jsteps_mono[OF assms(2,1)] assms(4) by blast
  have le: "je_Seq e1 \<le> j_sequence j1" and "distinct (map je_Seq (j_entries j1))"
    using assms(1,3) by (auto simp: jinv_def strict_sorted_iff)
  then have "e2 \<in> set (j_entries j1) \<Longrightarrow> je_Seq e1 = je_Seq e2 \<Longrightarrow> e1 = e2"
    using assms(3) by (auto simp: distinct_map inj_on_def)
  with new le show ?thesis by auto
qed

definition demo_journal2 :: journal where
  "demo_journal2 = \<lparr>j_cfg = DefaultConfig\<lparr>VolumeBytes := 2 ^ 33\<rparr>,
     j_entries = [demo_entry\<lparr>je_Seq := 2, je_EventID := ''evt_2''\<rparr>], j_sequence = 2, j_acked = 1\<rparr>"

lemma demo_append2:
  "Append no_faults ''evt_2'' ''x'' 0 (demo_journal1\<lparr>j_entries := [], j_acked := 1\<rparr>) =
     (demo_journal2, Inr (demo_entry\<lparr>je_Seq := 2, je_EventID := ''evt_2''\<rparr>, True))"
  by code_simp

lemma demo_steps: "jstep\<^sup>*\<^sup>* demo_journal1 demo_journal2"
  using jstep.ack[OF demo_ack] jstep.append[OF demo_append2]
  by (simp add: converse_rtranclp_into_rtranclp)

theorem journal_sequence_never_reused_witness:
  "je_Seq demo_entry < je_Seq (demo_entry\<lparr>je_Seq := 2, je_EventID := ''evt_2''\<rparr>)"
  using journal_sequence_never_reused[OF demo_inv(2) demo_steps, of demo_entry
      "demo_entry\<lparr>je_Seq := 2, je_EventID := ''evt_2''\<rparr>"]
  by (simp add: demo_journal1_def demo_journal2_def demo_entry_def)

text \<open>Appending is idempotent: once an event is in the journal, any further
  append with its event id, whatever the payload and time, returns the stored entry,
  reports it as a duplicate and changes nothing.\<close>

theorem Append_idempotent:
  assumes "jinv j0" "Append f eid p t j0 = (j1, Inr (e, fresh))" "length p < 2 ^ 62"
    "jstep\<^sup>*\<^sup>* j1 j2" "j_acked j2 < je_Seq e" "p' \<noteq> []" "\<not> IsZero t'"
  shows "Append no_faults eid p' t' j2 = (j2, Inr (e, False))"
proof -
  have "e \<in> set (j_entries j2)" and eid: "je_EventID e = eid"
    using Append_result[OF assms(1,2)] assms(5)
      jsteps_mono[OF assms(4) Append_jinv[OF assms(1,3,2)]] by auto
  moreover have inv: "jinv j2" by (rule jsteps_jinv[OF assms(4) Append_jinv[OF assms(1,3,2)]])
  ultimately have "find (\<lambda>x. je_EventID x = eid) (j_entries j2) = Some e" "eid \<noteq> []"
    by (auto simp: jinv_def intro: find_unique_key)
  then show ?thesis using assms(6,7) by (simp add: Append_def sq_def)
qed

theorem Append_idempotent_witness:
  "Append no_faults ''evt_1'' ''other'' 9 demo_journal1 = (demo_journal1, Inr (demo_entry, False))"
  using Append_idempotent[OF demo_inv(1) demo_append _ rtranclp.rtrancl_refl, of "''other''" 9]
  by (simp add: demo_journal1_def demo_journal_def demo_entry_def IsZero_def zero_time_def)

text \<open>With a normalised configuration the capacity state of a journal compares
  the exact share of the cap with the thresholds: the \<open>int64\<close> product never wraps.\<close>

theorem capacity_state_exact:
  assumes "normalized c0 v = Inr c" "0 \<le> b" "b \<le> MaxBytes c"
  shows "stateFor b c =
    (if CriticalAt c * MaxBytes c \<le> b * 100 then CapacityCritical
     else if PauseAt c * MaxBytes c \<le> b * 100 then CapacityPaused
     else if DegradedAt c * MaxBytes c \<le> b * 100 then CapacityDegraded else CapacityHealthy)"
proof -
  from normalized_ok[OF assms(1)] have ok: "0 < MaxBytes c" "MaxBytes c * 100 < 2 ^ 63"
    by (simp_all add: cfg_ok_def)
  have "b * 100 < 2 ^ 63" using assms(3) ok(2) by linarith
  then have "i64 (b * 100) = b * 100" using assms(2) by (simp add: i64_nonneg_id)
  then have q: "go_quot (i64 (b * 100)) (MaxBytes c) = b * 100 div MaxBytes c"
    using assms(2) ok by (simp add: go_quot_nonneg)
  have "\<And>k. k \<le> b * 100 div MaxBytes c \<longleftrightarrow> k * MaxBytes c \<le> b * 100"
    by (rule le_div_iff_int[OF ok(1)])
  then show ?thesis by (simp add: stateFor_def q Let_def)
qed

theorem capacity_state_exact_witness:
  "stateFor 800 \<lparr>MaxBytes = 1000, VolumeBytes = 8000, MaxVolumeShare = 25,
     DegradedAt = 70, PauseAt = 80, CriticalAt = 90\<rparr> = CapacityPaused"
  using capacity_state_exact[of "\<lparr>MaxBytes = 1000, VolumeBytes = 8000, MaxVolumeShare = 0,
     DegradedAt = 0, PauseAt = 0, CriticalAt = 0\<rparr>" 5 "\<lparr>MaxBytes = 1000, VolumeBytes = 8000, MaxVolumeShare = 25,
     DegradedAt = 70, PauseAt = 80, CriticalAt = 90\<rparr>" 800]
  by (simp add: normalized_def fill_defaults_def DefaultConfig_def go_quot_def i64_def)

section \<open>The journal as a durable log\<close>

definition batch_of :: "journal \<Rightarrow> jentry list" where
  "batch_of j = (case ReadDefaultBatch no_faults j of Inr es \<Rightarrow> es | Inl _ \<Rightarrow> [])"

definition ack_of :: "nat \<Rightarrow> journal \<Rightarrow> journal" where
  "ack_of n j = fst (Ack no_faults n j)"

lemma Ack_entry:
  assumes "jinv j" "e \<in> set (j_entries j)"
  shows "Ack no_faults (je_Seq e) j = (ack_through (je_Seq e) j, Inr ())"
  using assms stored_maximum_inv(2)[OF assms] by (auto simp: Ack_def sq_def jinv_def)

interpretation jlog: durable_log j_entries je_Seq jinv batch_of ack_of
proof
  fix j :: journal and e n
  assume inv: "jinv j"
  show "sorted_wrt (<) (map je_Seq (j_entries j))" using inv by (simp add: jinv_def)
  from ReadUnacked_longest_prefix_aux[OF inv, of DefaultBatchEntries DefaultBatchBytes]
  show "prefix (batch_of j) (j_entries j)" "j_entries j \<noteq> [] \<Longrightarrow> batch_of j \<noteq> []"
    by (auto simp: batch_of_def ReadDefaultBatch_def DefaultBatchEntries_def DefaultBatchBytes_def
        simp del: append_is_Nil_conv)
  show "jinv (ack_of n j)"
    unfolding ack_of_def by (cases "Ack no_faults n j") (use Ack_jinv[OF inv] in auto)
  show "e \<in> set (j_entries j) \<Longrightarrow>
      j_entries (ack_of (je_Seq e) j) = filter (\<lambda>x. je_Seq e < je_Seq x) (j_entries j)"
    by (simp add: ack_of_def Ack_entry[OF inv] not_le)
qed

text \<open>Draining terminates and delivers everything once and in order: repeating
  "read the default batch, acknowledge its last entry" as many times as there are
  entries hands over exactly the entries of the journal and leaves it empty.\<close>

theorem journal_drain:
  assumes "jinv j" "length (j_entries j) \<le> n"
  shows "\<exists>j'. drain batch_of je_Seq ack_of n j = (j_entries j, j') \<and> j_entries j' = []"
  using jlog.drain_all[OF assms] by blast

theorem journal_drain_witness:
  "\<exists>j'. drain batch_of je_Seq ack_of 3 demo_journal1 = ([demo_entry], j') \<and> j_entries j' = []"
  using journal_drain[OF demo_inv(2), of 3] by (simp add: demo_journal1_def)

theorem ReadUnacked_longest_prefix_witness:
  "\<exists>es rest. ReadUnacked no_faults 10 100 demo_journal1 = Inr es \<and> [demo_entry] = es @ rest \<and> es \<noteq> []"
  using ReadUnacked_longest_prefix[OF demo_inv(2), of 10 100] by (auto simp: demo_journal1_def)

end
