(* ===== verification/CommandLedger.thy ===== *)
theory CommandLedger
  imports Journal
begin

text \<open>
  The gateway's ledger of terminal command outcomes
  (src/backend/internal/gateway/journal/commands.go), a table of the journal's SQLite file:
  \<open>LookupCommand\<close>, \<open>SaveCommandResult\<close>, \<open>PruneCommands\<close> and the \<open>Metrics\<close> call that
  prunes. The locale \<open>result_ledger\<close> is what the command executor relies on: the first
  outcome recorded for a key stays.
\<close>

section \<open>The contract\<close>

locale result_ledger =
  fixes lookup :: "'k \<Rightarrow> 's \<Rightarrow> 'r option"
    and save :: "'r \<Rightarrow> 's \<Rightarrow> 's"
    and key :: "'r \<Rightarrow> 'k"
    and ok :: "'r \<Rightarrow> bool"
    and stored :: "'r \<Rightarrow> 'r"
  assumes lookup_save: "ok r \<Longrightarrow> lookup k (save r s) =
      (case lookup k s of Some x \<Rightarrow> Some x | None \<Rightarrow> if k = key r then Some (stored r) else None)"
    and save_bad: "\<not> ok r \<Longrightarrow> save r s = s"
begin

lemma lookup_save_same: "ok r \<Longrightarrow> lookup (key r) (save r s) \<noteq> None"
  by (simp add: lookup_save split: option.splits)

lemma lookup_save_keeps: "lookup k s = Some x \<Longrightarrow> lookup k (save r s) = Some x"
  by (cases "ok r") (simp_all add: lookup_save save_bad)

lemma lookup_save_other: "k \<noteq> key r \<Longrightarrow> lookup k (save r s) = lookup k s"
  by (cases "ok r") (simp_all add: lookup_save save_bad split: option.splits)

lemma first_result_wins:
  "ok r \<Longrightarrow> lookup (key r) s = None \<Longrightarrow> lookup (key r) (fold save rs (save r s)) = Some (stored r)"
proof -
  have keeps: "lookup k s = Some x \<Longrightarrow> lookup k (fold save rs s) = Some x" for k x s
    by (induction rs arbitrary: s) (simp_all add: lookup_save_keeps)
  assume "ok r" "lookup (key r) s = None"
  then show ?thesis by (intro keeps) (simp add: lookup_save)
qed

end

section \<open>The table\<close>

definition CommandSent :: string where "CommandSent = ''sent''"
definition CommandFailed :: string where "CommandFailed = ''failed''"

definition CommandResultRetention :: duration where
  "CommandResultRetention = 7 * 24 * 3600000000000"

record command_result =
  cr_CommandID :: string
  cr_SessionID :: string
  cr_Status :: string
  cr_WAMessageID :: string
  cr_Error :: string
  cr_UpdatedAt :: gotime

text \<open>A row of \<open>command_results\<close>, its times in milliseconds; \<open>lj_db\<close> says that the
  database handle of the journal is not nil.\<close>

record command_row =
  row_command_id :: string
  row_session_id :: string
  row_status :: string
  row_wa_message_id :: string
  row_error :: string
  row_updated_at :: int
  row_expires_at :: int

record ledger_journal = journal +
  lj_db :: bool
  lj_results :: "command_row list"

abbreviation errJournalUnavailable :: go_err where
  "errJournalUnavailable \<equiv> Sentinel ''gateway journal is not open''"

definition result_of_row :: "command_row \<Rightarrow> command_result" where
  "result_of_row r = \<lparr>cr_CommandID = row_command_id r, cr_SessionID = row_session_id r,
     cr_Status = row_status r, cr_WAMessageID = row_wa_message_id r, cr_Error = row_error r,
     cr_UpdatedAt = of_UnixMilli (row_updated_at r)\<rparr>"

definition LookupCommand :: "go_err option \<Rightarrow> string \<Rightarrow> 'z ledger_journal_scheme
    \<Rightarrow> command_result option result" where
  "LookupCommand fault commandID j =
     (if \<not> lj_db j then Inl errJournalUnavailable
      else if commandID = [] then Inl (Plain ''command id is required'')
      else case fault of
        Some e \<Rightarrow> Inl (classifySQLiteError (Wrapped ''lookup command result'' e))
      | None \<Rightarrow> Inr (map_option result_of_row (find (\<lambda>r. row_command_id r = commandID) (lj_results j))))"

definition row_of_result :: "command_result \<Rightarrow> command_row" where
  "row_of_result r = \<lparr>row_command_id = cr_CommandID r, row_session_id = cr_SessionID r,
     row_status = cr_Status r, row_wa_message_id = cr_WAMessageID r, row_error = cr_Error r,
     row_updated_at = UnixMilli (cr_UpdatedAt r),
     row_expires_at = UnixMilli (cr_UpdatedAt r + CommandResultRetention)\<rparr>"

text \<open>\<open>INSERT ... ON CONFLICT(command_id) DO NOTHING\<close>.\<close>

definition insert_or_keep :: "command_row \<Rightarrow> command_row list \<Rightarrow> command_row list" where
  "insert_or_keep r rs =
     (if \<exists>x\<in>set rs. row_command_id x = row_command_id r then rs else rs @ [r])"

definition SaveCommandResult :: "go_err option \<Rightarrow> command_result \<Rightarrow> 'z ledger_journal_scheme
    \<Rightarrow> 'z ledger_journal_scheme \<times> unit result" where
  "SaveCommandResult fault r j =
     (if \<not> lj_db j then (j, Inl errJournalUnavailable)
      else if cr_CommandID r = [] \<or> cr_SessionID r = [] \<or> IsZero (cr_UpdatedAt r)
      then (j, Inl (Plain ''command result id, session, and time are required''))
      else if cr_Status r \<noteq> CommandSent \<and> cr_Status r \<noteq> CommandFailed
      then (j, Inl (Plain ''command result status must be sent or failed''))
      else case fault of
        Some e \<Rightarrow> (j, Inl (classifySQLiteError (Wrapped ''save command result'' e)))
      | None \<Rightarrow> (j\<lparr>lj_results := insert_or_keep (row_of_result r) (lj_results j)\<rparr>, Inr ()))"

definition PruneCommands :: "go_err option \<Rightarrow> gotime \<Rightarrow> 'z ledger_journal_scheme
    \<Rightarrow> 'z ledger_journal_scheme \<times> unit result" where
  "PruneCommands fault now j =
     (if \<not> lj_db j then (j, Inl errJournalUnavailable)
      else case fault of
        Some e \<Rightarrow> (j, Inl (classifySQLiteError (Wrapped ''prune command results'' e)))
      | None \<Rightarrow> (j\<lparr>lj_results := filter (\<lambda>r. \<not> row_expires_at r < UnixMilli now) (lj_results j)\<rparr>, Inr ()))"

text \<open>\<open>Metrics\<close> ignores the error of the prune; the calls are the prune (0) and the query (1).\<close>

definition Metrics :: "faults \<Rightarrow> gotime \<Rightarrow> 'z ledger_journal_scheme
    \<Rightarrow> 'z ledger_journal_scheme \<times> jmetrics result" where
  "Metrics f now j = (let j' = fst (PruneCommands (f 0) now j) in (j', metricsDB (f 1) j'))"

section \<open>The table keeps the contract\<close>

definition ledger_ok :: "command_result \<Rightarrow> bool" where
  "ledger_ok r \<longleftrightarrow> cr_CommandID r \<noteq> [] \<and> cr_SessionID r \<noteq> [] \<and> \<not> IsZero (cr_UpdatedAt r) \<and>
     (cr_Status r = CommandSent \<or> cr_Status r = CommandFailed)"

definition truncated :: "command_result \<Rightarrow> command_result" where
  "truncated r = r\<lparr>cr_UpdatedAt := of_UnixMilli (UnixMilli (cr_UpdatedAt r))\<rparr>"

definition stored_command :: "string \<Rightarrow> command_row list \<Rightarrow> command_result option" where
  "stored_command cid rs = map_option result_of_row (find (\<lambda>r. row_command_id r = cid) rs)"

lemma row_of_result_sel [simp]: "row_command_id (row_of_result r) = cr_CommandID r"
  "result_of_row (row_of_result r) = truncated r"
  by (simp_all add: row_of_result_def result_of_row_def truncated_def)

lemma find_append: "find P (xs @ ys) = (case find P xs of None \<Rightarrow> find P ys | Some x \<Rightarrow> Some x)"
  by (induction xs) simp_all

lemma stored_insert_or_keep:
  "stored_command k (insert_or_keep (row_of_result r) rs) =
     (case stored_command k rs of Some x \<Rightarrow> Some x
      | None \<Rightarrow> if k = cr_CommandID r then Some (truncated r) else None)"
proof (cases "\<exists>x\<in>set rs. row_command_id x = cr_CommandID r")
  case True
  then have "stored_command (cr_CommandID r) rs \<noteq> None"
    by (auto simp: stored_command_def find_None_iff)
  with True show ?thesis by (auto simp: insert_or_keep_def split: option.splits)
next
  case False
  then have "find (\<lambda>x. row_command_id x = cr_CommandID r) rs = None"
    by (auto simp: find_None_iff)
  with False show ?thesis
    by (auto simp: insert_or_keep_def stored_command_def find_append split: option.splits)
qed

text \<open>Saving on the table, with the guards of \<open>SaveCommandResult\<close> on an open journal.\<close>

definition save_rows :: "command_result \<Rightarrow> command_row list \<Rightarrow> command_row list" where
  "save_rows r rs = (if ledger_ok r then insert_or_keep (row_of_result r) rs else rs)"

interpretation cmdledger: result_ledger stored_command save_rows cr_CommandID ledger_ok truncated
  by unfold_locales (simp_all add: save_rows_def stored_insert_or_keep)

lemma LookupCommand_stored:
  "lj_db j \<Longrightarrow> cid \<noteq> [] \<Longrightarrow> LookupCommand None cid j = Inr (stored_command cid (lj_results j))"
  by (simp add: LookupCommand_def stored_command_def)

lemma SaveCommandResult_rows:
  "lj_db j \<Longrightarrow> lj_results (fst (SaveCommandResult None r j)) = save_rows r (lj_results j)"
  by (auto simp: SaveCommandResult_def save_rows_def ledger_ok_def)

lemma SaveCommandResult_frame:
  "lj_db (fst (SaveCommandResult ft r j)) = lj_db j"
  "snd (SaveCommandResult ft r j) = Inl e \<Longrightarrow> fst (SaveCommandResult ft r j) = j"
  by (auto simp: SaveCommandResult_def split: if_splits option.splits)

lemma SaveCommandResult_Inr:
  "snd (SaveCommandResult ft r j) = Inr () \<Longrightarrow>
     ledger_ok r \<and> lj_db j \<and> lj_results (fst (SaveCommandResult ft r j)) = save_rows r (lj_results j)"
  by (auto simp: SaveCommandResult_def save_rows_def ledger_ok_def split: if_splits option.splits)

section \<open>Properties\<close>

fun save_all :: "command_result list \<Rightarrow> 'z ledger_journal_scheme \<Rightarrow> 'z ledger_journal_scheme" where
  "save_all [] j = j"
| "save_all (r # rs) j = save_all rs (fst (SaveCommandResult None r j))"

lemma save_all_rows: "lj_db j \<Longrightarrow> lj_results (save_all rs j) = fold save_rows rs (lj_results j) \<and> lj_db (save_all rs j)"
  by (induction rs arbitrary: j) (simp_all add: SaveCommandResult_rows SaveCommandResult_frame)

text \<open>The recorded outcome of a command is immutable: after the first accepted
  save, whatever is saved later for the same or other commands, a lookup returns that
  first outcome, its time in whole milliseconds.\<close>

theorem first_command_result_wins:
  assumes "lj_db j" "ledger_ok r" "LookupCommand None (cr_CommandID r) j = Inr None"
  shows "LookupCommand None (cr_CommandID r) (save_all rs (fst (SaveCommandResult None r j))) =
    Inr (Some (r\<lparr>cr_UpdatedAt := of_UnixMilli (UnixMilli (cr_UpdatedAt r))\<rparr>))"
proof -
  let ?j = "fst (SaveCommandResult None r j)"
  have cid: "cr_CommandID r \<noteq> []" using assms(2) by (simp add: ledger_ok_def)
  have "stored_command (cr_CommandID r) (lj_results j) = None"
    using assms(3) by (simp add: LookupCommand_stored[OF assms(1) cid])
  then have "stored_command (cr_CommandID r) (lj_results (save_all rs ?j)) = Some (truncated r)"
    using save_all_rows[of ?j rs] assms(1)
    by (simp add: SaveCommandResult_frame SaveCommandResult_rows cmdledger.first_result_wins[OF assms(2)])
  moreover have "lj_db (save_all rs ?j)"
    using save_all_rows[of ?j rs] assms(1) by (simp add: SaveCommandResult_frame)
  ultimately show ?thesis by (simp add: LookupCommand_stored cid truncated_def)
qed

definition demo_ledger :: ledger_journal where
  "demo_ledger = \<lparr>j_cfg = DefaultConfig, j_entries = [], j_sequence = 0, j_acked = 0, lj_db = True, lj_results = []\<rparr>"

definition demo_result :: command_result where
  "demo_result = \<lparr>cr_CommandID = ''cmd'', cr_SessionID = ''s'', cr_Status = ''sent'',
     cr_WAMessageID = ''3EB0'', cr_Error = [], cr_UpdatedAt = 1500000\<rparr>"

theorem first_command_result_wins_witness:
  "LookupCommand None ''cmd'' (save_all [demo_result\<lparr>cr_Status := ''failed''\<rparr>]
      (fst (SaveCommandResult None demo_result demo_ledger))) = Inr (Some (demo_result\<lparr>cr_UpdatedAt := 1000000\<rparr>))"
  using first_command_result_wins[of demo_ledger demo_result "[demo_result\<lparr>cr_Status := ''failed''\<rparr>]"]
  by (simp add: demo_ledger_def demo_result_def ledger_ok_def CommandSent_def IsZero_def zero_time_def
      LookupCommand_def UnixMilli_def of_UnixMilli_def)

text \<open>An outcome is kept for the retention window: no prune up to seven days
  after the time recorded with it removes it, and any later prune does.\<close>

theorem PruneCommands_retention:
  assumes "lj_db j" "LookupCommand None cid j = Inr None" "ledger_ok r" "cr_CommandID r = cid"
  shows "LookupCommand None cid (fst (PruneCommands None now (fst (SaveCommandResult None r j)))) =
    Inr (if UnixMilli (cr_UpdatedAt r + CommandResultRetention) < UnixMilli now then None
         else Some (r\<lparr>cr_UpdatedAt := of_UnixMilli (UnixMilli (cr_UpdatedAt r))\<rparr>))"
proof -
  have cid: "cid \<noteq> []" using assms(3,4) by (auto simp: ledger_ok_def)
  then have none: "\<forall>x\<in>set (lj_results j). row_command_id x \<noteq> cid"
    using assms(1,2) by (auto simp: LookupCommand_def find_None_iff)
  then have save: "fst (SaveCommandResult None r j) = j\<lparr>lj_results := lj_results j @ [row_of_result r]\<rparr>"
    using assms(1,3,4) by (auto simp: SaveCommandResult_def insert_or_keep_def ledger_ok_def)
  from none have "\<And>P. find (\<lambda>x. row_command_id x = cid) (filter P (lj_results j)) = None"
    by (auto simp: find_None_iff)
  then show ?thesis using assms(1,4) cid
    by (simp add: save PruneCommands_def LookupCommand_def find_append)
      (simp add: row_of_result_def truncated_def)
qed

theorem PruneCommands_retention_witness:
  "LookupCommand None ''cmd'' (fst (PruneCommands None 2000000 (fst (SaveCommandResult None demo_result demo_ledger))))
     = Inr (Some (demo_result\<lparr>cr_UpdatedAt := 1000000\<rparr>))"
  using PruneCommands_retention[of demo_ledger "''cmd''" demo_result 2000000]
  by (simp add: demo_ledger_def demo_result_def ledger_ok_def CommandSent_def IsZero_def zero_time_def
      LookupCommand_def UnixMilli_def of_UnixMilli_def CommandResultRetention_def)

end
