(* ===== verification/DurableCommand.thy ===== *)
theory DurableCommand
  imports CommandLedger
begin

text \<open>
  Durable commands on the gateway (src/backend/internal/wa/command_execution.go and the send
  and message-op handlers of wa/application_messages.go). A command runs behind an
  in-process flight per command id, the durable ledger, the assignment fence and its
  expiry. The second half of the theory interleaves any number of requests, crashes
  included, as a step relation over the same operations.
\<close>

section \<open>State\<close>

record mutation_result =
  mr_CommandID :: string
  mr_OrganizationID :: string
  mr_SessionID :: string
  mr_GatewayID :: string
  mr_AssignmentEpoch :: nat

record command_flight =
  cf_target :: mutation_result
  cf_operation :: string

text \<open>The interface \<open>assignmentFence\<close>, implemented by the desired-state reconciler.\<close>

record assignment_fence =
  af_AllowsMutation :: "string \<Rightarrow> string \<Rightarrow> nat \<Rightarrow> bool"
  af_OwnsAssignment :: "string \<Rightarrow> string \<Rightarrow> nat \<Rightarrow> bool"

record adapter =
  ad_gatewayID :: string
  ad_ledger :: "ledger_journal option"
  ad_inFlight :: "string \<rightharpoonup> command_flight"

record send_result =
  sr_mutation :: mutation_result
  sr_WAMessageID :: string
  sr_SentAt :: gotime

definition mutationResult :: "string \<Rightarrow> string \<Rightarrow> string \<Rightarrow> string \<Rightarrow> nat \<Rightarrow> mutation_result" where
  "mutationResult commandID organizationID sessionID gatewayID assignmentEpoch =
     \<lparr>mr_CommandID = commandID, mr_OrganizationID = organizationID, mr_SessionID = sessionID,
      mr_GatewayID = gatewayID, mr_AssignmentEpoch = assignmentEpoch\<rparr>"

section \<open>The executor\<close>

definition validateTarget :: "adapter \<Rightarrow> string \<Rightarrow> string \<Rightarrow> string \<Rightarrow> go_err option" where
  "validateTarget a organizationID sessionID gatewayID =
     (if organizationID = [] \<or> sessionID = [] \<or> gatewayID = []
      then Some (ErrValidation ''organization_id, session_id, and gateway_id are required'')
      else if gatewayID \<noteq> ad_gatewayID a
      then Some (ErrNotFound ''gateway target does not match this gateway'')
      else None)"

definition validateMutation :: "adapter \<Rightarrow> string \<Rightarrow> string \<Rightarrow> string \<Rightarrow> string \<Rightarrow> go_err option" where
  "validateMutation a commandID organizationID sessionID gatewayID =
     (if commandID = [] then Some (ErrValidation ''command_id is required'')
      else validateTarget a organizationID sessionID gatewayID)"

text \<open>The result is the flight and whether the caller follows it.\<close>

definition joinCommand :: "mutation_result \<Rightarrow> string \<Rightarrow> (string \<rightharpoonup> command_flight)
    \<Rightarrow> (string \<rightharpoonup> command_flight) \<times> (command_flight \<times> bool) result" where
  "joinCommand target operation inFlight =
     (case inFlight (mr_CommandID target) of
        Some flight \<Rightarrow>
          (let sameOwner = (mr_OrganizationID (cf_target flight) = mr_OrganizationID target \<and>
                 mr_SessionID (cf_target flight) = mr_SessionID target \<and>
                 mr_GatewayID (cf_target flight) = mr_GatewayID target)
           in if \<not> sameOwner \<or> cf_operation flight \<noteq> operation
              then (inFlight, Inl (ErrConflict ''command id is already executing for another target or operation''))
              else (inFlight, Inr (flight, True)))
      | None \<Rightarrow>
          (let flight = \<lparr>cf_target = target, cf_operation = operation\<rparr>
           in (inFlight(mr_CommandID target \<mapsto> flight), Inr (flight, False))))"

definition lookupCommand :: "go_err option \<Rightarrow> string \<Rightarrow> adapter \<Rightarrow> command_result option result" where
  "lookupCommand fault commandID a =
     (case ad_ledger a of
        None \<Rightarrow> Inl (ErrValidation ''gateway command ledger is not configured'')
      | Some l \<Rightarrow> (case LookupCommand fault commandID l of
            Inl e \<Rightarrow> Inl (Wrapped ''lookup command result'' e)
          | Inr r \<Rightarrow> Inr r))"

text \<open>A nil ledger would make \<open>saveCommand\<close> dereference nil; \<open>lookupCommand\<close> has refused it
  before any command executes, and here it is an error value.\<close>

definition saveCommand :: "go_err option \<Rightarrow> command_result \<Rightarrow> adapter \<Rightarrow> adapter \<times> unit result" where
  "saveCommand fault record a =
     (case ad_ledger a of
        None \<Rightarrow> (a, Inl (Plain ''nil ledger''))
      | Some l \<Rightarrow> (case SaveCommandResult fault record l of
            (l', Inl e) \<Rightarrow> (a\<lparr>ad_ledger := Some l'\<rparr>, Inl (Wrapped (''save command result '' @ cr_CommandID record) e))
          | (l', Inr u) \<Rightarrow> (a\<lparr>ad_ledger := Some l'\<rparr>, Inr u)))"

text \<open>
  What the leader of a flight does before \<open>Execute\<close>: a stored outcome is replayed
  (\<open>Some\<close>), otherwise the fence and the expiry must let the command pass (\<open>None\<close>).
\<close>

definition leader_check :: "go_err option \<Rightarrow> assignment_fence option \<Rightarrow> gotime \<Rightarrow> mutation_result
    \<Rightarrow> bool \<Rightarrow> int option \<Rightarrow> adapter \<Rightarrow> command_result option result" where
  "leader_check fault fence now target allowStopped expiresAt a =
     bindr (lookupCommand fault (mr_CommandID target) a) (\<lambda>rec.
       case rec of
         Some record \<Rightarrow>
           if cr_SessionID record \<noteq> mr_SessionID target
           then Inl (ErrConflict ''command id belongs to another session'')
           else Inr (Some record)
       | None \<Rightarrow>
           (let allowed = (case fence of None \<Rightarrow> True | Some fc \<Rightarrow>
                  (if allowStopped
                   then af_OwnsAssignment fc (mr_OrganizationID target) (mr_SessionID target) (mr_AssignmentEpoch target)
                   else af_AllowsMutation fc (mr_OrganizationID target) (mr_SessionID target) (mr_AssignmentEpoch target)));
                expired = (case expiresAt of None \<Rightarrow> False | Some t \<Rightarrow> UnixMilli now \<ge> t)
            in if \<not> allowed
               then Inl (ErrConflict ''session assignment epoch is stale or lease expired'')
               else if expired then Inl (ErrValidation ''outbound command expired before dispatch'')
               else Inr None))"

text \<open>How a follower's wait ends: the flight finished with a result of its type or of
  another one, or the caller's context was cancelled.\<close>

datatype 'a flight_wait = FlightDone "'a result" | FlightOtherType | ContextDone go_err

definition end_flight :: "string \<Rightarrow> adapter \<Rightarrow> adapter" where
  "end_flight commandID a = a\<lparr>ad_inFlight := (ad_inFlight a)(commandID := None)\<rparr>"

definition runDurableCommand :: "go_err option \<Rightarrow> assignment_fence option \<Rightarrow> gotime \<Rightarrow> 'a flight_wait
    \<Rightarrow> mutation_result \<Rightarrow> string \<Rightarrow> (command_result \<Rightarrow> 'a result)
    \<Rightarrow> (adapter \<Rightarrow> adapter \<times> 'a result) \<Rightarrow> bool \<Rightarrow> int option \<Rightarrow> adapter \<Rightarrow> adapter \<times> 'a result" where
  "runDurableCommand fault fence now wait target operation replay execute allowStopped expiresAt a =
     (case validateMutation a (mr_CommandID target) (mr_OrganizationID target) (mr_SessionID target)
             (mr_GatewayID target) of
        Some e \<Rightarrow> (a, Inl e)
      | None \<Rightarrow>
          if mr_AssignmentEpoch target = 0
          then (a, Inl (ErrValidation ''assignment_epoch must be at least 1''))
          else (case joinCommand target operation (ad_inFlight a) of
              (_, Inl e) \<Rightarrow> (a, Inl e)
            | (_, Inr (flight, True)) \<Rightarrow>
                (case wait of
                   FlightDone r \<Rightarrow> (a, r)
                 | FlightOtherType \<Rightarrow> (a, Inl (ErrConflict ''command id is already executing another operation''))
                 | ContextDone e \<Rightarrow> (a, Inl e))
            | (fl, Inr (flight, False)) \<Rightarrow>
                (let a1 = a\<lparr>ad_inFlight := fl\<rparr>;
                     (a2, r) = (case leader_check fault fence now target allowStopped expiresAt a1 of
                         Inl e \<Rightarrow> (a1, Inl e)
                       | Inr (Some record) \<Rightarrow> (a1, replay record)
                       | Inr None \<Rightarrow> execute a1)
                 in (end_flight (mr_CommandID target) a2, r))))"

section \<open>Sends and message operations\<close>

record send_command =
  sc_CommandID :: string
  sc_OrganizationID :: string
  sc_SessionID :: string
  sc_GatewayID :: string
  sc_AssignmentEpoch :: nat
  sc_ExpiresAt :: "int option"

definition target_of :: "'z send_command_scheme \<Rightarrow> mutation_result" where
  "target_of c = mutationResult (sc_CommandID c) (sc_OrganizationID c) (sc_SessionID c)
     (sc_GatewayID c) (sc_AssignmentEpoch c)"

text \<open>
  What follows the dispatch in \<open>executeSend\<close> and \<open>executeOp\<close>, whose texts agree: a
  validation error is recorded as a failure, any other error is left unrecorded, and a
  success is recorded before the answer. \<open>now\<close> is the clock at that point.
\<close>

definition commit_dispatch :: "go_err option \<Rightarrow> gotime \<Rightarrow> mutation_result \<Rightarrow> (string \<times> int) result
    \<Rightarrow> adapter \<Rightarrow> adapter \<times> send_result result" where
  "commit_dispatch fault now target outcome a =
     (case outcome of
        Inl dispatchErr \<Rightarrow>
          if api_code_of dispatchErr = Some CodeValidationError
          then (case saveCommand fault
                  \<lparr>cr_CommandID = mr_CommandID target, cr_SessionID = mr_SessionID target,
                   cr_Status = CommandFailed, cr_WAMessageID = [], cr_Error = err_text dispatchErr,
                   cr_UpdatedAt = now\<rparr> a of
                (a', Inl saveErr) \<Rightarrow> (a', Inl saveErr)
              | (a', Inr _) \<Rightarrow> (a', Inl dispatchErr))
          else (a, Inl dispatchErr)
      | Inr (waMessageID, ts) \<Rightarrow>
          (let sentAt = (if ts > 0 then of_UnixMilli ts else now) in
           case saveCommand fault
                  \<lparr>cr_CommandID = mr_CommandID target, cr_SessionID = mr_SessionID target,
                   cr_Status = CommandSent, cr_WAMessageID = waMessageID, cr_Error = [],
                   cr_UpdatedAt = sentAt\<rparr> a of
             (a', Inl saveErr) \<Rightarrow> (a', Inl saveErr)
           | (a', Inr _) \<Rightarrow>
               (a', Inr \<lparr>sr_mutation = target, sr_WAMessageID = waMessageID, sr_SentAt = sentAt\<rparr>)))"

definition executeSend :: "go_err option \<Rightarrow> gotime \<Rightarrow> (string \<times> int) result \<Rightarrow> 'z send_command_scheme
    \<Rightarrow> adapter \<Rightarrow> adapter \<times> send_result result" where
  "executeSend fault now dispatched command a = commit_dispatch fault now (target_of command) dispatched a"

definition replayed :: "string \<Rightarrow> 'z send_command_scheme \<Rightarrow> command_result \<Rightarrow> send_result result" where
  "replayed what command record =
     (if cr_Status record = CommandSent
      then Inr \<lparr>sr_mutation = mutationResult (cr_CommandID record) (sc_OrganizationID command)
                  (sc_SessionID command) (sc_GatewayID command) (sc_AssignmentEpoch command),
                sr_WAMessageID = cr_WAMessageID record, sr_SentAt = cr_UpdatedAt record\<rparr>
      else if cr_Status record = CommandFailed
      then Inl (ErrValidation (what @ '' previously failed: '' @ cr_Error record))
      else Inl (Plain (''unknown stored command status '' @ go_quote (cr_Status record))))"

definition replayedSendResult :: "'z send_command_scheme \<Rightarrow> command_result \<Rightarrow> send_result result" where
  "replayedSendResult = replayed ''send''"

text \<open>The environment of one request: database faults of the lookup (0) and the save (1),
  the fence and the clock readings of the check and of the commit, what the dispatcher
  answers if it is called, and how a wait ends.\<close>

record request_env =
  re_faults :: faults
  re_fence :: "assignment_fence option"
  re_check_now :: gotime
  re_commit_now :: gotime
  re_dispatch :: "(string \<times> int) result"
  re_wait :: "send_result flight_wait"

definition SendMessage :: "request_env \<Rightarrow> 'z send_command_scheme \<Rightarrow> adapter \<Rightarrow> adapter \<times> send_result result" where
  "SendMessage env command a =
     runDurableCommand (re_faults env 0) (re_fence env) (re_check_now env) (re_wait env)
       (target_of command) ''send'' (replayedSendResult command)
       (executeSend (re_faults env 1) (re_commit_now env) (re_dispatch env) command)
       False (sc_ExpiresAt command) a"

record op_command = send_command +
  oc_Op :: string

definition replayedMutation :: "op_command \<Rightarrow> command_result \<Rightarrow> send_result result" where
  "replayedMutation = replayed ''op''"

definition executeOp :: "go_err option \<Rightarrow> gotime \<Rightarrow> (string \<times> int) result \<Rightarrow> op_command
    \<Rightarrow> adapter \<Rightarrow> adapter \<times> send_result result" where
  "executeOp fault now dispatched command a = commit_dispatch fault now (target_of command) dispatched a"

definition ExecuteOp :: "request_env \<Rightarrow> op_command \<Rightarrow> adapter \<Rightarrow> adapter \<times> send_result result" where
  "ExecuteOp env command a =
     runDurableCommand (re_faults env 0) (re_fence env) (re_check_now env) (re_wait env)
       (target_of command) (''message-op:'' @ oc_Op command) (replayedMutation command)
       (executeOp (re_faults env 1) (re_commit_now env) (re_dispatch env) command)
       False (sc_ExpiresAt command) a"

section \<open>Case rules\<close>

definition ledger_rows :: "adapter \<Rightarrow> command_row list" where
  "ledger_rows a = (case ad_ledger a of None \<Rightarrow> [] | Some l \<Rightarrow> lj_results l)"

lemma ledger_rows_inFlight [simp]:
  "ledger_rows (a\<lparr>ad_inFlight := fl\<rparr>) = ledger_rows a"
  "ledger_rows (end_flight cid a) = ledger_rows a"
  by (simp_all add: ledger_rows_def end_flight_def)

lemma end_flight_sel [simp]:
  "ad_inFlight (end_flight cid a) = (ad_inFlight a)(cid := None)"
  "ad_ledger (end_flight cid a) = ad_ledger a"
  by (simp_all add: end_flight_def)

lemma saveCommand_cases:
  assumes "saveCommand ft r a = (a', res)"
  obtains (error) e where "res = Inl e" "a' = a"
    | (saved) l l' where "res = Inr ()" "ledger_ok r" "a' = a\<lparr>ad_ledger := Some l'\<rparr>"
        "ad_ledger a = Some l" "lj_db l'" "ledger_rows a' = save_rows r (ledger_rows a)"
proof (cases "ad_ledger a")
  case None
  with assms error show ?thesis by (auto simp: saveCommand_def)
next
  case (Some l)
  obtain l' q where s: "SaveCommandResult ft r l = (l', q)" by fastforce
  show ?thesis
  proof (cases q)
    case (Inl e)
    with s have "l' = l" using SaveCommandResult_frame(2)[of ft r l e] by simp
    with Some s Inl assms error show ?thesis by (auto simp: saveCommand_def)
  next
    case (Inr u)
    with s have "ledger_ok r" "lj_db l'" "lj_results l' = save_rows r (lj_results l)"
      using SaveCommandResult_Inr[of ft r l] SaveCommandResult_frame(1)[of ft r l] by simp_all
    moreover have "res = Inr ()" "a' = a\<lparr>ad_ledger := Some l'\<rparr>"
      using Some s Inr assms by (simp_all add: saveCommand_def)
    ultimately show ?thesis using saved Some by (simp add: ledger_rows_def)
  qed
qed

text \<open>A dispatch commits nothing or one record of its own command, and answers with success
  only when the record is the success it answers.\<close>

lemma commit_dispatch_cases:
  assumes "commit_dispatch ft now t out a = (a', res)"
  obtains (unrecorded) e where "res = Inl e" "a' = a"
    | (recorded) r l l' where "ledger_ok r" "cr_CommandID r = mr_CommandID t" "cr_SessionID r = mr_SessionID t"
        "a' = a\<lparr>ad_ledger := Some l'\<rparr>" "ad_ledger a = Some l" "lj_db l'"
        "ledger_rows a' = save_rows r (ledger_rows a)"
        "\<And>q. res = Inr q \<Longrightarrow> cr_Status r = CommandSent \<and> cr_WAMessageID r = sr_WAMessageID q \<and>
           cr_UpdatedAt r = sr_SentAt q \<and> sr_mutation q = t"
proof (cases out)
  case (Inl e)
  show ?thesis
  proof (cases "api_code_of e = Some CodeValidationError")
    case True
    with Inl assms show ?thesis
      by (auto simp: commit_dispatch_def split: prod.splits sum.splits elim!: saveCommand_cases
          intro: unrecorded recorded)
  next
    case False
    with Inl assms unrecorded show ?thesis by (auto simp: commit_dispatch_def)
  qed
next
  case (Inr w)
  with assms show ?thesis
    by (auto simp: commit_dispatch_def Let_def split: prod.splits sum.splits if_splits
        elim!: saveCommand_cases intro: unrecorded recorded)
qed

lemma lookupCommand_Inr:
  assumes "lookupCommand ft cid a = Inr rec"
  shows "rec = stored_command cid (ledger_rows a)"
  using assms
  by (auto simp: lookupCommand_def LookupCommand_def ledger_rows_def stored_command_def
      split: option.splits sum.splits if_splits)

lemma leader_check_cases:
  assumes "leader_check ft fence now t st ex a = Inr rec"
  shows "rec = stored_command (mr_CommandID t) (ledger_rows a)"
    "\<And>r. rec = Some r \<Longrightarrow> cr_SessionID r = mr_SessionID t"
proof -
  from assms obtain x where x: "lookupCommand ft (mr_CommandID t) a = Inr x" and
    "rec = x \<and> (\<forall>r. x = Some r \<longrightarrow> cr_SessionID r = mr_SessionID t)"
    by (cases "lookupCommand ft (mr_CommandID t) a")
      (auto simp: leader_check_def Let_def split: option.split_asm if_split_asm)
  then show "rec = stored_command (mr_CommandID t) (ledger_rows a)"
    "\<And>r. rec = Some r \<Longrightarrow> cr_SessionID r = mr_SessionID t"
    using lookupCommand_Inr[OF x] by auto
qed

lemma stored_command_id: "stored_command cid rs = Some r \<Longrightarrow> cr_CommandID r = cid"
  by (auto simp: stored_command_def result_of_row_def dest: find_Some_in)

lemma joinCommand_cases:
  assumes "joinCommand t op fl = (fl', q)"
  obtains (refused) e where "q = Inl e" "fl' = fl"
    | (follow) flight where "q = Inr (flight, True)" "fl' = fl"
    | (lead) flight where "q = Inr (flight, False)" "fl (mr_CommandID t) = None"
        "fl' = fl(mr_CommandID t \<mapsto> flight)"
  using assms by (auto simp: joinCommand_def Let_def split: option.splits if_splits)

section \<open>Interleaved requests\<close>

text \<open>
  Each request is a thread with the phase it is in; \<open>dc_sends\<close> logs, for the statements
  below, the command ids handed to the dispatcher. A crash loses every thread and the
  in-process flights and keeps the ledger. The environment chooses faults, fence answers,
  clocks and dispatch outcomes freely.
\<close>

datatype phase =
    Idle
  | Waiting mutation_result
  | Leading mutation_result
  | Executing mutation_result
  | Dispatched mutation_result "(string \<times> int) result"
  | Finished

fun active_target :: "phase \<Rightarrow> mutation_result option" where
  "active_target (Leading t) = Some t"
| "active_target (Executing t) = Some t"
| "active_target (Dispatched t out) = Some t"
| "active_target _ = None"

fun past_check :: "phase \<Rightarrow> bool" where
  "past_check (Executing t) = True"
| "past_check (Dispatched t out) = True"
| "past_check _ = False"

record dc_state =
  dc_adapter :: adapter
  dc_phase :: "nat \<Rightarrow> phase"
  dc_sends :: "string list"

inductive dcstep :: "dc_state \<Rightarrow> dc_state \<Rightarrow> bool" where
  lead: "dc_phase s i = Idle \<Longrightarrow> joinCommand t op (ad_inFlight (dc_adapter s)) = (fl, Inr (flight, False)) \<Longrightarrow>
    dcstep s (s\<lparr>dc_adapter := (dc_adapter s)\<lparr>ad_inFlight := fl\<rparr>, dc_phase := (dc_phase s)(i := Leading t)\<rparr>)"
| follow: "dc_phase s i = Idle \<Longrightarrow> joinCommand t op (ad_inFlight (dc_adapter s)) = (fl, Inr (flight, True)) \<Longrightarrow>
    dcstep s (s\<lparr>dc_phase := (dc_phase s)(i := Waiting t)\<rparr>)"
| released: "dc_phase s i = Waiting t \<Longrightarrow> dcstep s (s\<lparr>dc_phase := (dc_phase s)(i := Finished)\<rparr>)"
| stop: "dc_phase s i = Leading t \<Longrightarrow> leader_check ft fence now t st ex (dc_adapter s) \<noteq> Inr None \<Longrightarrow>
    dcstep s (s\<lparr>dc_adapter := end_flight (mr_CommandID t) (dc_adapter s), dc_phase := (dc_phase s)(i := Finished)\<rparr>)"
| pass: "dc_phase s i = Leading t \<Longrightarrow> leader_check ft fence now t st ex (dc_adapter s) = Inr None \<Longrightarrow>
    dcstep s (s\<lparr>dc_phase := (dc_phase s)(i := Executing t)\<rparr>)"
| dispatch: "dc_phase s i = Executing t \<Longrightarrow>
    dcstep s (s\<lparr>dc_phase := (dc_phase s)(i := Dispatched t out), dc_sends := dc_sends s @ [mr_CommandID t]\<rparr>)"
| commit: "dc_phase s i = Dispatched t out \<Longrightarrow> commit_dispatch ft now t out (dc_adapter s) = (a, res) \<Longrightarrow>
    dcstep s (s\<lparr>dc_adapter := end_flight (mr_CommandID t) a, dc_phase := (dc_phase s)(i := Finished)\<rparr>)"
| again: "dc_phase s i = Finished \<Longrightarrow> dcstep s (s\<lparr>dc_phase := (dc_phase s)(i := Idle)\<rparr>)"
| crash: "dcstep s (s\<lparr>dc_adapter := (dc_adapter s)\<lparr>ad_inFlight := (\<lambda>_. None)\<rparr>, dc_phase := (\<lambda>_. Idle)\<rparr>)"

definition dc_init :: "adapter \<Rightarrow> dc_state" where
  "dc_init a = \<lparr>dc_adapter = a\<lparr>ad_inFlight := (\<lambda>_. None)\<rparr>, dc_phase = (\<lambda>_. Idle), dc_sends = []\<rparr>"

definition recorded_command :: "string \<Rightarrow> dc_state \<Rightarrow> command_result option" where
  "recorded_command cid s = stored_command cid (ledger_rows (dc_adapter s))"

text \<open>Active threads own the flight of their command alone, and past the check the ledger
  has no record of it.\<close>

definition dc_inv :: "dc_state \<Rightarrow> bool" where
  "dc_inv s \<longleftrightarrow>
     (\<forall>i t. active_target (dc_phase s i) = Some t \<longrightarrow> ad_inFlight (dc_adapter s) (mr_CommandID t) \<noteq> None) \<and>
     (\<forall>i j t u. active_target (dc_phase s i) = Some t \<longrightarrow> active_target (dc_phase s j) = Some u \<longrightarrow>
        mr_CommandID t = mr_CommandID u \<longrightarrow> i = j) \<and>
     (\<forall>i t. active_target (dc_phase s i) = Some t \<longrightarrow> past_check (dc_phase s i) \<longrightarrow>
        recorded_command (mr_CommandID t) s = None)"

lemma dc_inv_init: "dc_inv (dc_init a)"
  by (simp add: dc_inv_def dc_init_def)

text \<open>A thread that changes phase without taking or giving up its target.\<close>

lemma dc_inv_phase:
  assumes inv: "dc_inv s" and act: "active_target q = active_target (dc_phase s i)"
    and chk: "past_check q \<Longrightarrow> active_target q = Some u \<Longrightarrow> recorded_command (mr_CommandID u) s = None"
    and u: "active_target q = None \<or> active_target q = Some u"
  shows "dc_inv (s\<lparr>dc_phase := (dc_phase s)(i := q)\<rparr>)"
proof -
  have same: "active_target (((dc_phase s)(i := q)) j) = active_target (dc_phase s j)" for j
    using act by simp
  have "active_target (dc_phase s j) = Some t \<Longrightarrow> past_check (((dc_phase s)(i := q)) j) \<Longrightarrow>
      recorded_command (mr_CommandID t) s = None" for j t
    using inv act chk u unfolding dc_inv_def by (cases "j = i") auto
  moreover have "dc_phase (s\<lparr>dc_phase := (dc_phase s)(i := q)\<rparr>) = (dc_phase s)(i := q)"
    "dc_adapter (s\<lparr>dc_phase := (dc_phase s)(i := q)\<rparr>) = dc_adapter s" by simp_all
  ultimately show ?thesis using inv
    unfolding dc_inv_def recorded_command_def by (simp only: same) blast
qed

lemma dc_inv_sends: "dc_inv (s\<lparr>dc_sends := x\<rparr>) \<longleftrightarrow> dc_inv s"
  by (simp add: dc_inv_def recorded_command_def)

lemma dc_inv_step:
  assumes "dcstep s s'" "dc_inv s"
  shows "dc_inv s'"
  using assms
proof cases
  case (lead i t op fl flight)
  then have new: "ad_inFlight (dc_adapter s) (mr_CommandID t) = None"
    "fl = (ad_inFlight (dc_adapter s))(mr_CommandID t \<mapsto> flight)"
    by (auto elim: joinCommand_cases)
  with assms(2) have "\<And>j u. active_target (dc_phase s j) = Some u \<Longrightarrow> mr_CommandID u \<noteq> mr_CommandID t"
    unfolding dc_inv_def by metis
  note this[dest]
  from assms(2) lead new show ?thesis
    by (auto simp: dc_inv_def recorded_command_def split: if_splits)
next
  case (stop i t ft fence now st ex)
  then have "\<And>j u. j \<noteq> i \<Longrightarrow> active_target (dc_phase s j) = Some u \<Longrightarrow> mr_CommandID u \<noteq> mr_CommandID t"
    using assms(2) unfolding dc_inv_def by (metis active_target.simps(1))
  with assms(2) stop show ?thesis
    by (auto simp: dc_inv_def recorded_command_def split: if_splits)
next
  case (pass i t ft fence now st ex)
  then have "recorded_command (mr_CommandID t) s = None"
    unfolding recorded_command_def by (metis leader_check_cases(1))
  with assms(2) pass show ?thesis by (auto intro: dc_inv_phase[where u = t])
next
  case (dispatch i t out)
  then have "recorded_command (mr_CommandID t) s = None"
    using assms(2) unfolding dc_inv_def by (metis active_target.simps(2) past_check.simps(1))
  then have "dc_inv (s\<lparr>dc_phase := (dc_phase s)(i := Dispatched t out)\<rparr>)"
    using assms(2) dispatch by (auto intro: dc_inv_phase[where u = t])
  then have "dc_inv (s\<lparr>dc_phase := (dc_phase s)(i := Dispatched t out)\<rparr>\<lparr>dc_sends := dc_sends s @ [mr_CommandID t]\<rparr>)"
    by (simp only: dc_inv_sends)
  with dispatch show ?thesis by simp
next
  case (commit i t out ft now a res)
  then have other: "\<And>j u. j \<noteq> i \<Longrightarrow> active_target (dc_phase s j) = Some u \<Longrightarrow> mr_CommandID u \<noteq> mr_CommandID t"
    using assms(2) unfolding dc_inv_def by (metis active_target.simps(3))
  have "ad_inFlight a = ad_inFlight (dc_adapter s)" and
    "\<And>cid. cid \<noteq> mr_CommandID t \<Longrightarrow> stored_command cid (ledger_rows a) = recorded_command cid s"
    using commit(3) cmdledger.lookup_save_other
    by (auto elim!: commit_dispatch_cases simp: recorded_command_def)
  with assms(2) commit other show ?thesis
    by (auto simp: dc_inv_def recorded_command_def split: if_splits)
next
  case crash
  then show ?thesis by (simp add: dc_inv_def)
qed (use assms(2) in \<open>auto intro: dc_inv_phase\<close>)

lemma dc_inv_reachable: "dcstep\<^sup>*\<^sup>* (dc_init a) s \<Longrightarrow> dc_inv s"
  by (induction rule: rtranclp_induct) (auto intro: dc_inv_init dc_inv_step)

text \<open>Records never change, and a recorded command is never dispatched.\<close>

lemma recorded_step:
  assumes "dcstep s s'" "dc_inv s" "recorded_command cid s = Some r"
  shows "recorded_command cid s' = Some r \<and> count_list (dc_sends s') cid = count_list (dc_sends s) cid"
  using assms
proof cases
  case (dispatch i t out)
  then have "recorded_command (mr_CommandID t) s = None"
    using assms(2) unfolding dc_inv_def by (metis active_target.simps(2) past_check.simps(1))
  with assms(3) dispatch show ?thesis by (auto simp: recorded_command_def)
next
  case (commit i t out ft now a res)
  from commit(3) assms(3) show ?thesis
    by (cases rule: commit_dispatch_cases)
      (auto simp: commit(1) recorded_command_def cmdledger.lookup_save_keeps)
qed (auto simp: recorded_command_def)

lemma recorded_steps:
  "dcstep\<^sup>*\<^sup>* s s' \<Longrightarrow> dc_inv s \<Longrightarrow> recorded_command cid s = Some r \<Longrightarrow>
     dc_inv s' \<and> recorded_command cid s' = Some r \<and> count_list (dc_sends s') cid = count_list (dc_sends s) cid"
  by (induction rule: rtranclp_induct) (use recorded_step dc_inv_step in \<open>simp, metis\<close>)


text \<open>Two requests for the same command never execute at the same time.\<close>

theorem command_mutual_exclusion:
  assumes "dcstep\<^sup>*\<^sup>* (dc_init a) s" "active_target (dc_phase s i) = Some t"
    "active_target (dc_phase s j) = Some u" "mr_CommandID t = mr_CommandID u"
  shows "i = j"
  using dc_inv_reachable[OF assms(1)] assms(2-4) unfolding dc_inv_def by blast

section \<open>Retries\<close>

lemma runDurableCommand_leader:
  assumes "validateMutation a (mr_CommandID t) (mr_OrganizationID t) (mr_SessionID t) (mr_GatewayID t) = None"
    "mr_AssignmentEpoch t \<noteq> 0" "ad_inFlight a (mr_CommandID t) = None"
  shows "runDurableCommand ft fence now wait t op replay execute st ex a =
    (let a1 = a\<lparr>ad_inFlight := (ad_inFlight a)(mr_CommandID t \<mapsto> \<lparr>cf_target = t, cf_operation = op\<rparr>)\<rparr>;
         (a2, r) = (case leader_check ft fence now t st ex a1 of
             Inl e \<Rightarrow> (a1, Inl e) | Inr (Some record) \<Rightarrow> (a1, replay record) | Inr None \<Rightarrow> execute a1)
     in (end_flight (mr_CommandID t) a2, r))"
  using assms by (simp add: runDurableCommand_def joinCommand_def Let_def)

lemma runDurableCommand_success:
  assumes "runDurableCommand ft fence now wait t op replay execute st ex a = (a', Inr q)"
    "ad_inFlight a (mr_CommandID t) = None"
  obtains (replayed) r where "stored_command (mr_CommandID t) (ledger_rows a) = Some r" "replay r = Inr q"
      "cr_SessionID r = mr_SessionID t" "ledger_rows a' = ledger_rows a"
    | (executed) a1 a2 where "stored_command (mr_CommandID t) (ledger_rows a) = None"
      "execute a1 = (a2, Inr q)" "ledger_rows a1 = ledger_rows a" "ledger_rows a' = ledger_rows a2"
proof -
  have v: "validateMutation a (mr_CommandID t) (mr_OrganizationID t) (mr_SessionID t) (mr_GatewayID t) = None"
    "mr_AssignmentEpoch t \<noteq> 0"
    using assms(1) by (auto simp: runDurableCommand_def split: option.splits if_splits)
  let ?a1 = "a\<lparr>ad_inFlight := (ad_inFlight a)(mr_CommandID t \<mapsto> \<lparr>cf_target = t, cf_operation = op\<rparr>)\<rparr>"
  note run = assms(1)[unfolded runDurableCommand_leader[OF v assms(2)] Let_def]
  show thesis
  proof (cases "leader_check ft fence now t st ex ?a1")
    case (Inl e)
    with run show ?thesis by simp
  next
    case (Inr rec)
    note chk = leader_check_cases[OF Inr]
    show ?thesis
    proof (cases rec)
      case None
      obtain a2 r where x: "execute ?a1 = (a2, r)" by fastforce
      with run Inr None have "r = Inr q" "a' = end_flight (mr_CommandID t) a2" by auto
      with executed x chk(1) None show ?thesis by simp
    next
      case (Some r)
      with run Inr have "replay r = Inr q" "ledger_rows a' = ledger_rows a" by auto
      moreover have "stored_command (mr_CommandID t) (ledger_rows a) = Some r" "cr_SessionID r = mr_SessionID t"
        using chk(1) chk(2)[OF Some] Some by simp_all
      ultimately show ?thesis using replayed by blast
    qed
  qed
qed

text \<open>After a successful send, the ledger holds its answer.\<close>

lemma SendMessage_success:
  assumes "SendMessage env c a = (a', Inr q)" "ad_inFlight a (sc_CommandID c) = None"
  obtains r where "stored_command (sc_CommandID c) (ledger_rows a') = Some r" "cr_Status r = CommandSent"
    "cr_WAMessageID r = sr_WAMessageID q" "cr_SessionID r = sc_SessionID c"
    "cr_UpdatedAt r = of_UnixMilli (UnixMilli (sr_SentAt q))"
proof -
  have t: "mr_CommandID (target_of c) = sc_CommandID c" "mr_SessionID (target_of c) = sc_SessionID c"
    by (simp_all add: target_of_def mutationResult_def)
  have free: "ad_inFlight a (mr_CommandID (target_of c)) = None" using assms(2) by (simp add: t)
  show thesis using assms(1)[unfolded SendMessage_def] free
  proof (cases rule: runDurableCommand_success)
    case (replayed r)
    then have "cr_UpdatedAt r = of_UnixMilli (UnixMilli (cr_UpdatedAt r))"
      by (auto simp: stored_command_def result_of_row_def)
    moreover have "cr_Status r = CommandSent" "cr_WAMessageID r = sr_WAMessageID q" "sr_SentAt q = cr_UpdatedAt r"
      using replayed(2) by (auto simp: replayedSendResult_def replayed_def split: if_splits)
    ultimately show ?thesis using that[of r] replayed by (simp add: t)
  next
    case (executed a1 a2)
    from executed(2)[unfolded executeSend_def] obtain r where r: "ledger_ok r" "cr_CommandID r = sc_CommandID c"
      "cr_SessionID r = sc_SessionID c" "ledger_rows a2 = save_rows r (ledger_rows a1)" "cr_Status r = CommandSent"
      "cr_WAMessageID r = sr_WAMessageID q" "cr_UpdatedAt r = sr_SentAt q"
      by (cases rule: commit_dispatch_cases) (auto simp: t)
    have "stored_command (sc_CommandID c) (ledger_rows a') = Some (truncated r)"
      using executed(1,3,4) r(1,2,4) by (simp add: t cmdledger.lookup_save)
    then show ?thesis using that[of "truncated r"] r by (simp add: truncated_def)
  qed
qed

text \<open>A retried send is answered from the ledger: after a successful send, a
  retry of the same command on the same session, in whatever state the fence, the lease
  and the expiry are then, returns the same WhatsApp message id and time, dispatches
  nothing and changes nothing, as long as the ledger still has the record.\<close>

theorem SendMessage_retry:
  assumes first: "SendMessage env c a = (a1, Inr q)" "ad_inFlight a (sc_CommandID c) = None"
    and kept: "ad_ledger a2 = Some l" "lj_db l"
      "stored_command (sc_CommandID c) (lj_results l) = stored_command (sc_CommandID c) (ledger_rows a1)"
    and retry: "sc_CommandID c' = sc_CommandID c" "sc_SessionID c' = sc_SessionID c"
      "sc_OrganizationID c' \<noteq> []" "sc_SessionID c \<noteq> []" "sc_GatewayID c' \<noteq> []" "sc_CommandID c \<noteq> []"
      "sc_GatewayID c' = ad_gatewayID a2" "sc_AssignmentEpoch c' \<noteq> 0"
      "ad_inFlight a2 (sc_CommandID c) = None" "re_faults env' 0 = None"
  shows "SendMessage env' c' a2 =
    (a2, Inr \<lparr>sr_mutation = target_of c', sr_WAMessageID = sr_WAMessageID q,
              sr_SentAt = of_UnixMilli (UnixMilli (sr_SentAt q))\<rparr>)"
proof -
  obtain r where r: "stored_command (sc_CommandID c) (ledger_rows a1) = Some r" "cr_Status r = CommandSent"
    "cr_WAMessageID r = sr_WAMessageID q" "cr_SessionID r = sc_SessionID c"
    "cr_UpdatedAt r = of_UnixMilli (UnixMilli (sr_SentAt q))"
    by (rule SendMessage_success[OF first])
  have t: "mr_CommandID (target_of c') = sc_CommandID c" "mr_SessionID (target_of c') = sc_SessionID c"
    "mr_OrganizationID (target_of c') = sc_OrganizationID c'" "mr_GatewayID (target_of c') = sc_GatewayID c'"
    "mr_AssignmentEpoch (target_of c') = sc_AssignmentEpoch c'"
    by (simp_all add: target_of_def mutationResult_def retry)
  let ?a = "a2\<lparr>ad_inFlight := (ad_inFlight a2)(sc_CommandID c \<mapsto>
    \<lparr>cf_target = target_of c', cf_operation = ''send''\<rparr>)\<rparr>"
  have chk: "leader_check (re_faults env' 0) (re_fence env') (re_check_now env') (target_of c') False
      (sc_ExpiresAt c') ?a = Inr (Some r)"
    using kept r(1,4) retry
    by (simp add: leader_check_def lookupCommand_def LookupCommand_stored t)
  have "cr_CommandID r = sc_CommandID c" by (rule stored_command_id[OF r(1)])
  then have "replayedSendResult c' r = Inr \<lparr>sr_mutation = target_of c', sr_WAMessageID = sr_WAMessageID q,
      sr_SentAt = of_UnixMilli (UnixMilli (sr_SentAt q))\<rparr>"
    using r retry(1) by (simp add: replayedSendResult_def replayed_def target_of_def)
  moreover have "end_flight (sc_CommandID c) ?a = a2"
    using retry(9) by (simp add: end_flight_def fun_upd_idem)
  ultimately show ?thesis
    unfolding SendMessage_def using retry chk
    by (subst runDurableCommand_leader) (simp_all add: t validateMutation_def validateTarget_def)
qed

section \<open>Witnesses\<close>

definition demo_adapter :: adapter where
  "demo_adapter = \<lparr>ad_gatewayID = ''gw'', ad_ledger = Some demo_ledger, ad_inFlight = (\<lambda>_. None)\<rparr>"

definition demo_command :: send_command where
  "demo_command = \<lparr>sc_CommandID = ''cmd'', sc_OrganizationID = ''org'', sc_SessionID = ''s'',
     sc_GatewayID = ''gw'', sc_AssignmentEpoch = 4, sc_ExpiresAt = Some 100\<rparr>"

definition demo_env :: request_env where
  "demo_env = \<lparr>re_faults = no_faults, re_fence = None, re_check_now = 5, re_commit_now = 1500000,
     re_dispatch = Inr (''3EB0'', 0), re_wait = FlightOtherType\<rparr>"

text \<open>The retry arrives with a fence that refuses everything and after the expiry.\<close>

definition demo_late_env :: request_env where
  "demo_late_env = demo_env\<lparr>re_check_now := 10 ^ 12,
     re_fence := Some \<lparr>af_AllowsMutation = (\<lambda>_ _ _. False), af_OwnsAssignment = (\<lambda>_ _ _. False)\<rparr>\<rparr>"

lemma demo_send:
  "SendMessage demo_env demo_command demo_adapter =
    (demo_adapter\<lparr>ad_ledger := Some (demo_ledger\<lparr>lj_results := [row_of_result demo_result]\<rparr>)\<rparr>,
     Inr \<lparr>sr_mutation = target_of demo_command, sr_WAMessageID = ''3EB0'', sr_SentAt = 1500000\<rparr>)"
  by (simp add: SendMessage_def runDurableCommand_def validateMutation_def validateTarget_def joinCommand_def
      demo_env_def demo_command_def demo_adapter_def demo_ledger_def demo_result_def target_of_def mutationResult_def
      leader_check_def lookupCommand_def LookupCommand_def executeSend_def commit_dispatch_def saveCommand_def
      SaveCommandResult_def CommandSent_def IsZero_def zero_time_def insert_or_keep_def row_of_result_def
      end_flight_def UnixMilli_def Let_def fun_eq_iff)

theorem SendMessage_retry_witness:
  "SendMessage demo_late_env (demo_command\<lparr>sc_AssignmentEpoch := 9\<rparr>)
      (demo_adapter\<lparr>ad_ledger := Some (demo_ledger\<lparr>lj_results := [row_of_result demo_result]\<rparr>)\<rparr>) =
    (demo_adapter\<lparr>ad_ledger := Some (demo_ledger\<lparr>lj_results := [row_of_result demo_result]\<rparr>)\<rparr>,
     Inr \<lparr>sr_mutation = target_of (demo_command\<lparr>sc_AssignmentEpoch := 9\<rparr>), sr_WAMessageID = ''3EB0'',
          sr_SentAt = 1000000\<rparr>)"
  using SendMessage_retry[OF demo_send, of "demo_adapter\<lparr>ad_ledger := Some (demo_ledger\<lparr>lj_results := [row_of_result demo_result]\<rparr>)\<rparr>"
      "demo_ledger\<lparr>lj_results := [row_of_result demo_result]\<rparr>" "demo_command\<lparr>sc_AssignmentEpoch := 9\<rparr>" demo_late_env]
  by (simp add: demo_adapter_def demo_command_def demo_ledger_def demo_late_env_def demo_env_def ledger_rows_def
      UnixMilli_def of_UnixMilli_def)

definition demo_recorded :: adapter where
  "demo_recorded = demo_adapter\<lparr>ad_ledger := Some (demo_ledger\<lparr>lj_results := [row_of_result demo_result]\<rparr>)\<rparr>"

lemma demo_lead:
  "dcstep (dc_init demo_recorded)
     ((dc_init demo_recorded)\<lparr>dc_adapter := (dc_adapter (dc_init demo_recorded))\<lparr>ad_inFlight := [''cmd'' \<mapsto>
          \<lparr>cf_target = target_of demo_command, cf_operation = ''send''\<rparr>]\<rparr>,
        dc_phase := (\<lambda>_. Idle)(0 := Leading (target_of demo_command))\<rparr>)"
  using dcstep.lead[of "dc_init demo_recorded" 0 "target_of demo_command" "''send''"]
  by (simp add: dc_init_def joinCommand_def target_of_def mutationResult_def demo_command_def Let_def)

lemma demo_recorded_command:
  "recorded_command ''cmd'' (dc_init demo_recorded) = Some (truncated demo_result)"
  by (simp add: recorded_command_def dc_init_def demo_recorded_def demo_adapter_def demo_ledger_def ledger_rows_def
      stored_command_def) (simp add: demo_result_def)


theorem command_mutual_exclusion_witness:
  "{j. active_target (((\<lambda>_. Idle)(0 := Leading (target_of demo_command))) j) = Some (target_of demo_command)} = {0::nat}"
proof -
  have only: "j = 0" if "active_target (((\<lambda>_. Idle)(0 := Leading (target_of demo_command))) j) = Some (target_of demo_command)" for j :: nat
    by (rule command_mutual_exclusion[OF r_into_rtranclp[of dcstep, OF demo_lead], where
          t = "target_of demo_command" and u = "target_of demo_command"])
      (use that in simp_all)
  show ?thesis
  proof (intro equalityI subsetI)
    fix x :: nat assume "x \<in> {j. active_target (((\<lambda>_. Idle)(0 := Leading (target_of demo_command))) j) = Some (target_of demo_command)}"
    then have "x = 0" unfolding mem_Collect_eq by (rule only)
    then show "x \<in> {0}" by simp
  qed simp
qed

end
