(* ===== verification/Control_Types.thy ===== *)
theory Control_Types
  imports Gw_Prelude
begin

text \<open>
  The messages of the private control stream that several components exchange
  (generated from gateway/v1: \<open>DesiredStateSnapshot\<close>, \<open>SessionAssignment\<close>,
  \<open>DesiredStateReport\<close>, \<open>GatewayEvent\<close> and \<open>GatewayEventBatch\<close>), with the fields the
  modelled code reads or writes. An absent optional field is \<open>None\<close>.
\<close>

datatype desired_action = SESSION_DESIRED_ACTION_UNKNOWN | SESSION_DESIRED_ACTION_RUN | SESSION_DESIRED_ACTION_STOP

record session_config =
  scf_Revision :: nat
  scf_AutoRead :: bool
  scf_PresenceTyping :: bool
  scf_RatePerMin :: nat
  scf_RatePerHour :: nat
  scf_HistorySyncDays :: nat

record session_assignment =
  sa_SessionId :: string
  sa_OrganizationId :: string
  sa_DeviceJid :: "string option"
  sa_AssignmentEpoch :: nat
  sa_LeaseExpiresAtUnixMs :: int
  sa_DesiredAction :: desired_action
  sa_Config :: "session_config option"

record desired_snapshot =
  ds_Revision :: nat
  ds_Assignments :: "session_assignment list"

datatype reconciliation_status =
    RECONCILIATION_UNKNOWN
  | RECONCILIATION_APPLIED
  | RECONCILIATION_KEYSTORE_MISSING
  | RECONCILIATION_UNEXPECTED_LOCAL_DEVICE
  | RECONCILIATION_KEYSTORE_CORRUPT

datatype keystore_health = KEYSTORE_UNKNOWN | KEYSTORE_HEALTHY | KEYSTORE_MISSING | KEYSTORE_CORRUPT

record reconciliation_result =
  rr_SessionId :: "string option"
  rr_AssignmentEpoch :: nat
  rr_DeviceJid :: string
  rr_Status :: reconciliation_status

record desired_report =
  dr_ConnectionEpoch :: nat
  dr_ProcessedRevision :: nat
  dr_KeystoreHealth :: keystore_health
  dr_LocalDevices :: "string list"
  dr_Results :: "reconciliation_result list"

record gateway_event =
  ge_EventId :: string
  ge_JournalSequence :: nat
  ge_GatewayId :: string
  ge_ConnectionEpoch :: nat
  ge_AssignmentEpoch :: nat
  ge_SessionId :: string
  ge_OrganizationId :: string
  ge_EventType :: string
  ge_OccurredAtUnixMs :: int
  ge_Payload :: string

end
