(* ===== verification/JournalControl.thy ===== *)
theory JournalControl
  imports Journal Control_Types
begin

text \<open>
  The control adapter of the journal (src/backend/internal/gateway/journal/control.go): it
  replays journal entries as control-stream events of the current connection, retires
  entries whose assignment the last desired-state snapshot no longer has, and forwards
  the API's acknowledgements. The JSON and protobuf codecs are parameters.
\<close>

section \<open>State\<close>

record event_assignment =
  ea_organization :: string
  ea_epoch :: nat

record control_adapter =
  ca_Journal :: journal
  ca_GatewayID :: string
  ca_assignments :: "(string \<rightharpoonup> event_assignment) option"
  ca_revision :: nat

abbreviation ErrControlEventTooLarge :: go_err where
  "ErrControlEventTooLarge \<equiv> Sentinel ''gateway journal event exceeds control batch capacity''"

definition ResetDesiredAssignments :: "control_adapter \<Rightarrow> control_adapter" where
  "ResetDesiredAssignments a = a\<lparr>ca_assignments := None\<rparr>"

definition assignment_map :: "session_assignment list \<Rightarrow> (string \<rightharpoonup> event_assignment)" where
  "assignment_map items =
     fold (\<lambda>item m. m(sa_SessionId item \<mapsto>
       \<lparr>ea_organization = sa_OrganizationId item, ea_epoch = sa_AssignmentEpoch item\<rparr>)) items (\<lambda>_. None)"

definition SetDesiredAssignments :: "desired_snapshot \<Rightarrow> control_adapter \<Rightarrow> control_adapter" where
  "SetDesiredAssignments snapshot a =
     (if ds_Revision snapshot < ca_revision a then a
      else a\<lparr>ca_revision := ds_Revision snapshot, ca_assignments := Some (assignment_map (ds_Assignments snapshot))\<rparr>)"

section \<open>Stored events\<close>

text \<open>
  \<open>persistedEvent\<close> with the fields of the domain event that decoding looks at.
  \<open>pc_unmarshal\<close> is \<open>json.Unmarshal\<close> of a payload and \<open>pc_encode\<close> the rest of the
  pipeline: the JSON object of the event, with \<open>_mediaSource\<close> added to its payload
  when there is one, as a protobuf \<open>Struct\<close>. \<open>pc_marshal\<close> writes the stored JSON.
\<close>

record persisted_event =
  pe_MediaSource :: string
  pe_ID :: string
  pe_Session :: string
  pe_Organization :: string
  pe_Type :: string
  pe_Timestamp :: int
  pe_Body :: string
  pe_AssignmentEpoch :: nat

record payload_codec =
  pc_unmarshal :: "string \<Rightarrow> persisted_event result"
  pc_encode :: "persisted_event \<Rightarrow> string result"
  pc_marshal :: "persisted_event \<Rightarrow> string result"

definition decodeJournalEvent :: "payload_codec \<Rightarrow> string \<Rightarrow> gateway_event result" where
  "decodeJournalEvent pc payload =
     (case pc_unmarshal pc payload of
        Inl e \<Rightarrow> Inl (Wrapped ''decode journal event'' e)
      | Inr p \<Rightarrow>
          if (pe_ID p = [] \<or> pe_AssignmentEpoch p = 0) \<or> (pe_Session p = [] \<or> pe_Organization p = [])
          then Inl (Plain ''journal event is missing canonical assignment metadata'')
          else bindr (pc_encode pc p) (\<lambda>encoded.
            Inr \<lparr>ge_EventId = [], ge_JournalSequence = 0, ge_GatewayId = [], ge_ConnectionEpoch = 0,
                 ge_AssignmentEpoch = pe_AssignmentEpoch p, ge_SessionId = pe_Session p,
                 ge_OrganizationId = pe_Organization p, ge_EventType = pe_Type p,
                 ge_OccurredAtUnixMs = pe_Timestamp p, ge_Payload = encoded\<rparr>))"

definition AppendDomainEvent :: "payload_codec \<Rightarrow> faults \<Rightarrow> persisted_event \<Rightarrow> nat \<Rightarrow> control_adapter
    \<Rightarrow> control_adapter \<times> (jentry \<times> bool) result" where
  "AppendDomainEvent pc f event assignmentEpoch a =
     (case pc_marshal pc (event\<lparr>pe_AssignmentEpoch := assignmentEpoch\<rparr>) of
        Inl e \<Rightarrow> (a, Inl (Wrapped ''marshal normalized event'' e))
      | Inr payload \<Rightarrow>
          (case Append f (pe_ID event) payload (of_UnixMilli (pe_Timestamp event)) (ca_Journal a) of
             (j, r) \<Rightarrow> (a\<lparr>ca_Journal := j\<rparr>, r)))"

section \<open>Batches\<close>

definition owned :: "(string \<rightharpoonup> event_assignment) \<Rightarrow> gateway_event \<Rightarrow> bool" where
  "owned m event \<longleftrightarrow>
     (case m (ge_SessionId event) of
        None \<Rightarrow> False
      | Some assignment \<Rightarrow> ea_organization assignment = ge_OrganizationId event \<and>
          ea_epoch assignment = ge_AssignmentEpoch event)"

definition stamp :: "string \<Rightarrow> nat \<Rightarrow> jentry \<Rightarrow> gateway_event \<Rightarrow> gateway_event" where
  "stamp gatewayID connectionEpoch entry event =
     event\<lparr>ge_JournalSequence := je_Seq entry, ge_EventId := je_EventID entry,
           ge_GatewayId := gatewayID, ge_ConnectionEpoch := connectionEpoch\<rparr>"

fun batch_loop :: "(gateway_event list \<Rightarrow> nat) \<Rightarrow> (string \<Rightarrow> gateway_event result) \<Rightarrow> int \<Rightarrow> string \<Rightarrow> nat
    \<Rightarrow> (string \<rightharpoonup> event_assignment) option \<Rightarrow> gateway_event list \<Rightarrow> jentry list \<Rightarrow> gateway_event list result" where
  "batch_loop psize metadata maxBytes gatewayID ep assignments events [] = Inr events"
| "batch_loop psize metadata maxBytes gatewayID ep assignments events (entry # entries) =
     bindr (metadata (je_Payload entry)) (\<lambda>event.
       if (case assignments of None \<Rightarrow> False | Some m \<Rightarrow> \<not> owned m event)
       then batch_loop psize metadata maxBytes gatewayID ep assignments events entries
       else (let events' = events @ [stamp gatewayID ep entry event] in
             if int (psize events') > maxBytes
             then (if events = [] then Inl ErrControlEventTooLarge else Inr events)
             else batch_loop psize metadata maxBytes gatewayID ep assignments events' entries))"

text \<open>\<open>psize\<close> is \<open>proto.Size\<close> of a batch. The read uses the faults \<open>f\<close>, the local
  acknowledgement the faults \<open>g\<close>.\<close>

definition batch :: "(gateway_event list \<Rightarrow> nat) \<Rightarrow> faults \<Rightarrow> faults \<Rightarrow> int \<Rightarrow> int \<Rightarrow> string \<Rightarrow> nat
    \<Rightarrow> (string \<Rightarrow> gateway_event result) \<Rightarrow> (string \<rightharpoonup> event_assignment) option \<Rightarrow> control_adapter
    \<Rightarrow> control_adapter \<times> gateway_event list result" where
  "batch psize f g maxEntries maxBytes gatewayID ep metadata assignments a =
     (case ReadUnacked f maxEntries maxBytes (ca_Journal a) of
        Inl e \<Rightarrow> (a, Inl e)
      | Inr entries \<Rightarrow>
          (case batch_loop psize metadata maxBytes gatewayID ep assignments [] entries of
             Inl e \<Rightarrow> (a, Inl e)
           | Inr events \<Rightarrow>
               if events = [] \<and> entries \<noteq> [] \<and> assignments \<noteq> None
               then (case Ack g (je_Seq (last entries)) (ca_Journal a) of
                       (j, Inl e) \<Rightarrow> (a\<lparr>ca_Journal := j\<rparr>, Inl e)
                     | (j, Inr _) \<Rightarrow> (a\<lparr>ca_Journal := j\<rparr>, Inr events))
               else (a, Inr events)))"

definition AckEvents :: "faults \<Rightarrow> nat \<Rightarrow> control_adapter \<Rightarrow> control_adapter \<times> unit result" where
  "AckEvents f sequence a = (case Ack f sequence (ca_Journal a) of (j, r) \<Rightarrow> (a\<lparr>ca_Journal := j\<rparr>, r))"

definition NextEventBatch :: "(gateway_event list \<Rightarrow> nat) \<Rightarrow> payload_codec \<Rightarrow> faults \<Rightarrow> faults \<Rightarrow> nat
    \<Rightarrow> control_adapter \<Rightarrow> control_adapter \<times> gateway_event list result" where
  "NextEventBatch psize pc f g ep a =
     (case ca_assignments a of
        None \<Rightarrow> (a, Inr [])
      | Some m \<Rightarrow> batch psize f g DefaultBatchEntries DefaultBatchBytes (ca_GatewayID a) ep
                    (decodeJournalEvent pc) (Some m) a)"

section \<open>What a batch contains\<close>

text \<open>
  \<open>decodes\<close>: every stored payload decodes to an event that fits a batch alone. Entries are
  written by \<open>AppendDomainEvent\<close>, whose JSON decodes, and are bounded well below the
  batch limit by the message sizes of WhatsApp.
\<close>

definition decodes :: "(gateway_event list \<Rightarrow> nat) \<Rightarrow> payload_codec \<Rightarrow> string \<Rightarrow> nat \<Rightarrow> jentry \<Rightarrow> bool" where
  "decodes psize pc gid ep e \<longleftrightarrow>
     (case decodeJournalEvent pc (je_Payload e) of
        Inl _ \<Rightarrow> False
      | Inr ev \<Rightarrow> int (psize [stamp gid ep e ev]) \<le> DefaultBatchBytes)"

definition entry_event :: "payload_codec \<Rightarrow> jentry \<Rightarrow> gateway_event" where
  "entry_event pc e = (case decodeJournalEvent pc (je_Payload e) of Inr ev \<Rightarrow> ev | Inl _ \<Rightarrow> undefined)"

definition live_entries :: "payload_codec \<Rightarrow> (string \<rightharpoonup> event_assignment) \<Rightarrow> jentry list \<Rightarrow> jentry list" where
  "live_entries pc m es = filter (\<lambda>e. owned m (entry_event pc e)) es"

definition replay_events :: "payload_codec \<Rightarrow> string \<Rightarrow> nat \<Rightarrow> jentry list \<Rightarrow> gateway_event list" where
  "replay_events pc gid ep es = map (\<lambda>e. stamp gid ep e (entry_event pc e)) es"

lemma batch_loop_spec:
  assumes "\<forall>e\<in>set es. decodes psize pc gid ep e"
  shows "\<exists>pre rest. es = pre @ rest \<and>
    batch_loop psize (decodeJournalEvent pc) DefaultBatchBytes gid ep (Some m) acc es =
      Inr (acc @ replay_events pc gid ep (live_entries pc m pre)) \<and>
    (acc @ replay_events pc gid ep (live_entries pc m pre) \<noteq> [] \<or> rest = [])"
  using assms
proof (induction es arbitrary: acc)
  case Nil
  then show ?case by (simp add: live_entries_def replay_events_def)
next
  case (Cons e es)
  then obtain ev where ev: "decodeJournalEvent pc (je_Payload e) = Inr ev"
    "int (psize [stamp gid ep e ev]) \<le> DefaultBatchBytes"
    by (auto simp: decodes_def split: sum.splits)
  then have eev: "entry_event pc e = ev" by (simp add: entry_event_def)
  from Cons have IH: "\<exists>pre rest. es = pre @ rest \<and>
    batch_loop psize (decodeJournalEvent pc) DefaultBatchBytes gid ep (Some m) acc' es =
      Inr (acc' @ replay_events pc gid ep (live_entries pc m pre)) \<and>
    (acc' @ replay_events pc gid ep (live_entries pc m pre) \<noteq> [] \<or> rest = [])" for acc'
    by simp
  consider (skip) "\<not> owned m ev" | (full) "owned m ev" "int (psize (acc @ [stamp gid ep e ev])) > DefaultBatchBytes"
    | (add) "owned m ev" "\<not> int (psize (acc @ [stamp gid ep e ev])) > DefaultBatchBytes" by blast
  then show ?case
  proof cases
    case skip
    with IH[of acc] obtain pre rest where "es = pre @ rest"
      "batch_loop psize (decodeJournalEvent pc) DefaultBatchBytes gid ep (Some m) acc es =
        Inr (acc @ replay_events pc gid ep (live_entries pc m pre))"
      "acc @ replay_events pc gid ep (live_entries pc m pre) \<noteq> [] \<or> rest = []" by blast
    with skip ev eev show ?thesis
      by - (rule exI[of _ "e # pre"], rule exI[of _ rest], simp add: live_entries_def)
  next
    case full
    with ev have "acc \<noteq> []" by auto
    with full ev show ?thesis
      by - (rule exI[of _ "[]"], rule exI[of _ "e # es"], simp add: live_entries_def replay_events_def)
  next
    case add
    with IH[of "acc @ [stamp gid ep e ev]"] obtain pre rest where "es = pre @ rest"
      "batch_loop psize (decodeJournalEvent pc) DefaultBatchBytes gid ep (Some m) (acc @ [stamp gid ep e ev]) es =
        Inr ((acc @ [stamp gid ep e ev]) @ replay_events pc gid ep (live_entries pc m pre))" by blast
    with add ev eev show ?thesis
      by - (rule exI[of _ "e # pre"], rule exI[of _ rest], simp add: live_entries_def replay_events_def)
  qed
qed

text \<open>
  One round of the adapter without faults: the batch replays the live entries of a
  prefix of the journal; when none of the entries it read is live they are dropped from
  the journal, and otherwise the journal is unchanged.
\<close>

lemma NextEventBatch_round:
  assumes inv: "jinv (ca_Journal a)" and m: "ca_assignments a = Some m"
    and dec: "\<forall>e\<in>set (j_entries (ca_Journal a)). decodes psize pc (ca_GatewayID a) ep e"
  obtains pre rest where "j_entries (ca_Journal a) = pre @ rest" "j_entries (ca_Journal a) \<noteq> [] \<longrightarrow> pre \<noteq> []"
    "live_entries pc m pre \<noteq> []"
    "NextEventBatch psize pc no_faults no_faults ep a =
       (a, Inr (replay_events pc (ca_GatewayID a) ep (live_entries pc m pre)))"
  | pre rest where "j_entries (ca_Journal a) = pre @ rest" "j_entries (ca_Journal a) \<noteq> [] \<longrightarrow> pre \<noteq> []"
    "live_entries pc m pre = []" "pre \<noteq> []"
    "NextEventBatch psize pc no_faults no_faults ep a =
       (a\<lparr>ca_Journal := ack_through (je_Seq (last pre)) (ca_Journal a)\<rparr>, Inr [])"
  | "j_entries (ca_Journal a) = []" "NextEventBatch psize pc no_faults no_faults ep a = (a, Inr [])"
proof -
  let ?j = "ca_Journal a"
  obtain es r where es: "ReadUnacked no_faults DefaultBatchEntries DefaultBatchBytes ?j = Inr es"
    "j_entries ?j = es @ r" "j_entries ?j \<noteq> [] \<longrightarrow> es \<noteq> []"
    using ReadUnacked_longest_prefix_aux[OF inv, of DefaultBatchEntries DefaultBatchBytes]
    by (auto simp: DefaultBatchEntries_def DefaultBatchBytes_def)
  have "\<forall>e\<in>set es. decodes psize pc (ca_GatewayID a) ep e" using dec es(2) by simp
  from batch_loop_spec[OF this, of m "[]"] obtain pre rest where pr: "es = pre @ rest"
    "batch_loop psize (decodeJournalEvent pc) DefaultBatchBytes (ca_GatewayID a) ep (Some m) [] es =
       Inr (replay_events pc (ca_GatewayID a) ep (live_entries pc m pre))"
    "live_entries pc m pre \<noteq> [] \<or> rest = []"
    by (auto simp: replay_events_def)
  note nb = NextEventBatch_def batch_def m es(1) pr(2)
  show thesis
  proof (cases "live_entries pc m pre = []")
    case False
    then have "pre \<noteq> []" by (auto simp: live_entries_def)
    then show ?thesis using es pr False by (intro that(1)[of pre "rest @ r"]) (auto simp: nb replay_events_def)
  next
    case True
    with pr have pe: "es = pre" by simp
    show ?thesis
    proof (cases "es = []")
      case True
      then show ?thesis using that(3) es pr pe by (simp add: nb replay_events_def live_entries_def)
    next
      case False
      then have "last es \<in> set (j_entries ?j)" using es(2) by simp
      then have "Ack no_faults (je_Seq (last es)) ?j = (ack_through (je_Seq (last es)) ?j, Inr ())"
        by (rule Ack_entry[OF inv])
      moreover have "batch_loop psize (decodeJournalEvent pc) DefaultBatchBytes (ca_GatewayID a) ep (Some m) [] es = Inr []"
        using pr(2) True by (simp add: replay_events_def)
      ultimately have "NextEventBatch psize pc no_faults no_faults ep a =
          (a\<lparr>ca_Journal := ack_through (je_Seq (last es)) ?j\<rparr>, Inr [])"
        using False by (simp add: NextEventBatch_def batch_def m es(1))
      then show ?thesis using that(2)[of pre r] es(2) pe False True by simp
    qed
  qed
qed

text \<open>The sender's loop: take a batch, and when it has events acknowledge the last one.\<close>

primrec control_drain :: "(gateway_event list \<Rightarrow> nat) \<Rightarrow> payload_codec \<Rightarrow> nat \<Rightarrow> nat \<Rightarrow> control_adapter
    \<Rightarrow> gateway_event list \<times> control_adapter" where
  "control_drain psize pc ep 0 a = ([], a)"
| "control_drain psize pc ep (Suc n) a =
     (case NextEventBatch psize pc no_faults no_faults ep a of
        (a1, Inl e) \<Rightarrow> ([], a1)
      | (a1, Inr events) \<Rightarrow>
          (let a2 = (if events = [] then a1 else fst (AckEvents no_faults (ge_JournalSequence (last events)) a1));
               (out, a3) = control_drain psize pc ep n a2
           in (events @ out, a3)))"

text \<open>Acknowledging an entry of the journal leaves the entries after it.\<close>

lemma ack_through_split:
  assumes "jinv j" "j_entries j = xs @ e # ys"
  shows "j_entries (ack_through (je_Seq e) j) = ys" "jinv (ack_through (je_Seq e) j)"
proof -
  have "sorted_wrt (<) (map je_Seq (xs @ e # ys))" using assms by (simp add: jinv_def)
  then have "\<forall>x\<in>set xs. je_Seq x \<le> je_Seq e" "\<forall>y\<in>set ys. \<not> je_Seq y \<le> je_Seq e"
    by (auto simp: sorted_wrt_append less_imp_le)
  then show "j_entries (ack_through (je_Seq e) j) = ys" using assms(2) by (simp add: filter_empty_conv)
  have "je_Seq e \<le> stored_maximum j" using assms by (intro stored_maximum_inv(2)) auto
  then show "jinv (ack_through (je_Seq e) j)" by (rule ack_through_jinv[OF assms(1)])
qed

text \<open>The last live entry of a prefix: what the API acknowledges leaves only retired
  entries of the prefix behind.\<close>

lemma last_live:
  assumes "live_entries pc m pre \<noteq> []"
  obtains xs e ys where "pre = xs @ e # ys" "last (live_entries pc m pre) = e" "live_entries pc m ys = []"
proof -
  obtain xs e ys where s: "pre = xs @ e # ys" "owned m (entry_event pc e)" "\<forall>y\<in>set ys. \<not> owned m (entry_event pc y)"
    using assms split_list_last_prop[of pre "\<lambda>e. owned m (entry_event pc e)"]
    by (auto simp: live_entries_def filter_empty_conv)
  then have "filter (\<lambda>e. owned m (entry_event pc e)) ys = []" by (simp add: filter_empty_conv)
  with s that show thesis by (simp add: live_entries_def)
qed

lemma control_drain_aux:
  assumes "jinv (ca_Journal a)" "ca_assignments a = Some m" "length (j_entries (ca_Journal a)) \<le> n"
    "\<forall>e\<in>set (j_entries (ca_Journal a)). decodes psize pc (ca_GatewayID a) ep e"
  shows "\<exists>a'. control_drain psize pc ep n a =
      (replay_events pc (ca_GatewayID a) ep (live_entries pc m (j_entries (ca_Journal a))), a') \<and>
    j_entries (ca_Journal a') = []"
  using assms
proof (induction n arbitrary: a)
  case 0
  then show ?case by (simp add: live_entries_def replay_events_def)
next
  case (Suc n)
  have IH: "\<exists>a'. control_drain psize pc ep n (a\<lparr>ca_Journal := j\<rparr>) =
      (replay_events pc (ca_GatewayID a) ep (live_entries pc m (j_entries j)), a') \<and> j_entries (ca_Journal a') = []"
    if "jinv j" "length (j_entries j) \<le> n" "set (j_entries j) \<subseteq> set (j_entries (ca_Journal a))" for j
    using Suc.IH[of "a\<lparr>ca_Journal := j\<rparr>"] Suc.prems that by auto
  from Suc.prems(1,2,4) show ?case
  proof (cases rule: NextEventBatch_round)
    case (1 pre rest)
    from 1(3) obtain xs e ys where l: "pre = xs @ e # ys" "last (live_entries pc m pre) = e" "live_entries pc m ys = []"
      by (rule last_live)
    let ?j = "ack_through (je_Seq e) (ca_Journal a)"
    have sp: "j_entries (ca_Journal a) = xs @ e # (ys @ rest)" using 1(1) l(1) by simp
    note ack = ack_through_split[OF Suc.prems(1) sp]
    have "Ack no_faults (je_Seq e) (ca_Journal a) = (?j, Inr ())"
      using sp by (intro Ack_entry[OF Suc.prems(1)]) simp
    moreover have "ge_JournalSequence (last (replay_events pc (ca_GatewayID a) ep (live_entries pc m pre))) = je_Seq e"
      using 1(3) l(2) by (simp add: replay_events_def last_map stamp_def)
    ultimately have step: "control_drain psize pc ep (Suc n) a =
      (let (out, a3) = control_drain psize pc ep n (a\<lparr>ca_Journal := ?j\<rparr>)
       in (replay_events pc (ca_GatewayID a) ep (live_entries pc m pre) @ out, a3))"
      using 1(3,4) by (simp add: AckEvents_def replay_events_def)
    have "live_entries pc m (j_entries (ca_Journal a)) = live_entries pc m pre @ live_entries pc m (ys @ rest)"
      using 1(1) l(3) by (simp add: live_entries_def)
    moreover obtain a' where "control_drain psize pc ep n (a\<lparr>ca_Journal := ?j\<rparr>) =
        (replay_events pc (ca_GatewayID a) ep (live_entries pc m (ys @ rest)), a')" "j_entries (ca_Journal a') = []"
      using IH[OF ack(2), unfolded ack(1)] Suc.prems(3) sp by auto
    ultimately show ?thesis unfolding step by (simp add: replay_events_def)
  next
    case (2 pre rest)
    then obtain xs e where p: "pre = xs @ [e]" by (metis append_butlast_last_id)
    then have sp: "j_entries (ca_Journal a) = xs @ e # rest" using 2(1) by simp
    note ack = ack_through_split[OF Suc.prems(1) sp]
    have "live_entries pc m (j_entries (ca_Journal a)) = live_entries pc m rest"
      using 2(1,3) by (simp add: live_entries_def)
    with IH[OF ack(2), unfolded ack(1)] Suc.prems(3) sp 2(5) p show ?thesis by auto
  next
    case 3
    with IH[of "ca_Journal a"] Suc.prems show ?thesis by (auto simp: live_entries_def replay_events_def)
  qed
qed

section \<open>Properties\<close>


definition demo_codec :: payload_codec where
  "demo_codec = \<lparr>pc_unmarshal = (\<lambda>p. Inr \<lparr>pe_MediaSource = [], pe_ID = ''e'', pe_Session = p, pe_Organization = ''o'',
      pe_Type = ''message'', pe_Timestamp = 1, pe_Body = [], pe_AssignmentEpoch = 3\<rparr>),
     pc_encode = (\<lambda>p. Inr (pe_Session p)), pc_marshal = (\<lambda>p. Inr (pe_Session p))\<rparr>"

definition demo_control :: control_adapter where
  "demo_control = \<lparr>ca_Journal = demo_journal1, ca_GatewayID = ''gw'',
     ca_assignments = Some [''x'' \<mapsto> \<lparr>ea_organization = ''o'', ea_epoch = 3\<rparr>], ca_revision = 1\<rparr>"

lemma demo_control_facts:
  "ca_Journal demo_control = demo_journal1" "ca_GatewayID demo_control = ''gw''"
  "ca_assignments demo_control = Some [''x'' \<mapsto> \<lparr>ea_organization = ''o'', ea_epoch = 3\<rparr>]"
  "j_entries demo_journal1 = [demo_entry]" "decodes length demo_codec ''gw'' 7 demo_entry"
  "live_entries demo_codec [''x'' \<mapsto> \<lparr>ea_organization = ''o'', ea_epoch = 3\<rparr>] [demo_entry] = [demo_entry]"
  by (simp_all add: demo_control_def demo_journal1_def decodes_def demo_codec_def decodeJournalEvent_def
      live_entries_def entry_event_def owned_def demo_entry_def DefaultBatchBytes_def)


text \<open>Replay pauses without an authoritative snapshot: after a reconnect resets
  the assignments no event is sent and nothing is retired until a snapshot at least as
  new as the last one arrives, and an older snapshot changes nothing.\<close>

theorem replay_needs_current_snapshot:
  "NextEventBatch psize pc f g ep (ResetDesiredAssignments a) = (ResetDesiredAssignments a, Inr []) \<and>
   (ds_Revision snap < ca_revision a \<longrightarrow> SetDesiredAssignments snap a = a)"
  by (simp add: NextEventBatch_def ResetDesiredAssignments_def SetDesiredAssignments_def)

theorem replay_needs_current_snapshot_witness:
  "SetDesiredAssignments \<lparr>ds_Revision = 0, ds_Assignments = []\<rparr> demo_control = demo_control"
  using replay_needs_current_snapshot[of length demo_codec no_faults no_faults 1 demo_control "\<lparr>ds_Revision = 0, ds_Assignments = []\<rparr>"]
  by (simp add: demo_control_def)

end
