(* ===== verification/StoreHelpers.thy ===== *)
theory StoreHelpers
  imports Gw_Prelude
begin

text \<open>
  The helpers of the MySQL repositories (src/backend/internal/store/helpers.go): error
  mapping, page sizes, opaque numeric cursors and pages.
\<close>

definition defaultLimit :: int where "defaultLimit = 50"
definition maxLimit :: int where "maxLimit = 200"

text \<open>\<open>sql.ErrNoRows\<close> is a sentinel; any other driver error is wrapped.\<close>

abbreviation ErrNoRows :: go_err where "ErrNoRows \<equiv> Sentinel ''sql: no rows in result set''"

definition notFound :: "go_err \<Rightarrow> string \<Rightarrow> go_err" where
  "notFound e res =
     (if err_is ''sql: no rows in result set'' e then ErrNotFound (res @ '' not found'')
      else Wrapped (''store: get '' @ res) e)"

definition rowsAffectedOrNotFound :: "nat \<Rightarrow> string \<Rightarrow> unit result" where
  "rowsAffectedOrNotFound n res = (if n = 0 then Inl (ErrNotFound (res @ '' not found'')) else Inr ())"

definition normLimit :: "int \<Rightarrow> int" where
  "normLimit limit = (if limit \<le> 0 then defaultLimit else if limit > maxLimit then maxLimit else limit)"

text \<open>\<open>strconv.ParseUint(s, 10, 64)\<close>: decimal digits whose value fits 64 bits.\<close>

definition is_digit :: "char \<Rightarrow> bool" where
  "is_digit c \<longleftrightarrow> 48 \<le> (of_char c :: nat) \<and> (of_char c :: nat) \<le> 57"

definition digits_value :: "string \<Rightarrow> nat" where
  "digits_value s = foldl (\<lambda>acc c. 10 * acc + (of_char c - 48)) 0 s"

definition ParseUint :: "string \<Rightarrow> nat option" where
  "ParseUint s = (if s \<noteq> [] \<and> list_all is_digit s \<and> digits_value s < 2 ^ 64 then Some (digits_value s) else None)"

definition parseCursor :: "string \<Rightarrow> nat result" where
  "parseCursor cursor =
     (if cursor = [] then Inr 0
      else case ParseUint cursor of None \<Rightarrow> Inl (ErrValidation ''invalid cursor'') | Some n \<Rightarrow> Inr n)"

definition encodeCursor :: "nat \<Rightarrow> string" where
  "encodeCursor n = (if n = 0 then [] else show_nat n)"

record 'a page =
  pg_Items :: "'a list"
  pg_NextCursor :: string

definition pageFrom :: "'a list \<Rightarrow> nat \<Rightarrow> ('a \<Rightarrow> nat) \<Rightarrow> 'a page" where
  "pageFrom items limit idOf =
     \<lparr>pg_Items = items,
      pg_NextCursor = (if length items = limit \<and> items \<noteq> [] then encodeCursor (idOf (last items)) else [])\<rparr>"

definition pageFromString :: "'a list \<Rightarrow> nat \<Rightarrow> ('a \<Rightarrow> string) \<Rightarrow> 'a page" where
  "pageFromString items limit idOf =
     \<lparr>pg_Items = items, pg_NextCursor = (if length items = limit \<and> items \<noteq> [] then idOf (last items) else [])\<rparr>"

section \<open>Round trip\<close>

lemma normLimit_bounds: "1 \<le> normLimit n" "normLimit n \<le> 200"
  by (simp_all add: normLimit_def defaultLimit_def maxLimit_def)

lemma of_char_digit [simp]: "d < 10 \<Longrightarrow> (of_char (digit_char d) :: nat) = 48 + d"
  by (simp add: digit_char_def)

lemma is_digit_digit_char [simp]: "d < 10 \<Longrightarrow> is_digit (digit_char d)"
  by (simp add: is_digit_def)

lemma digits_value_snoc: "digits_value (s @ [c]) = 10 * digits_value s + (of_char c - 48)"
  by (simp add: digits_value_def)

lemma show_nat_digits: "show_nat n \<noteq> [] \<and> list_all is_digit (show_nat n) \<and> digits_value (show_nat n) = n"
proof (induction n rule: show_nat.induct)
  case (1 n)
  show ?case
  proof (cases "n < 10")
    case True
    then have "show_nat n = [digit_char n]" by (simp add: show_nat.simps[of n])
    with True show ?thesis by (simp add: digits_value_def)
  next
    case False
    then have "show_nat n = show_nat (n div 10) @ [digit_char (n mod 10)]" by (simp add: show_nat.simps[of n])
    with 1[OF False] show ?thesis by (simp add: digits_value_snoc)
  qed
qed

text \<open>Cursors round-trip: the cursor of any 64-bit id parses back to it, zero
  included, and a text with a character that is not a digit is refused.\<close>

theorem cursor_roundtrip:
  assumes "n < 2 ^ 64"
  shows "parseCursor (encodeCursor n) = Inr n \<and>
    (s \<noteq> [] \<and> \<not> list_all is_digit s \<longrightarrow> parseCursor s = Inl (ErrValidation ''invalid cursor''))"
  using assms show_nat_digits[of n] by (simp add: parseCursor_def encodeCursor_def ParseUint_def)

theorem cursor_roundtrip_witness: "parseCursor (encodeCursor 18446744073709551615) = Inr 18446744073709551615"
  using cursor_roundtrip[of 18446744073709551615] by simp

end
