(* ===== verification/Fenced.thy ===== *)
theory Fenced
  imports Gw_Prelude
begin

text \<open>
  Fenced writes: an update that names the lease or epoch under which its caller owns the
  row and matches nothing when the caller has lost it. The outbox leases and the
  gateway connection epochs interpret the locale.
\<close>

locale fenced_write =
  fixes owns :: "'k \<Rightarrow> 't \<Rightarrow> 's \<Rightarrow> bool"
    and wr :: "'a \<Rightarrow> 'k \<Rightarrow> 't \<Rightarrow> 's \<Rightarrow> 's \<times> bool"
  assumes lost: "\<not> owns k t s \<Longrightarrow> wr a k t s = (s, False)"
    and held: "owns k t s \<Longrightarrow> snd (wr a k t s)"
begin

lemma applied_iff: "snd (wr a k t s) \<longleftrightarrow> owns k t s"
  using held lost by (cases "owns k t s") auto

lemma stale_writes: "\<not> owns k t s \<Longrightarrow> fold (\<lambda>a s. fst (wr a k t s)) as s = s"
  by (induction as) (simp_all add: lost)

lemma stale_write_after:
  "\<not> owns k t s \<Longrightarrow> wr a k t (fold (\<lambda>a s. fst (wr a k t s)) as s) = (s, False)"
  by (simp add: stale_writes lost)

end

end
