(* ===== verification/Registry.thy ===== *)
theory Registry
  imports StoreHelpers Fenced
begin

text \<open>
  The registry of gateways (src/backend/internal/store/gateway.go and the statements of
  store/queries/gateway.sql it runs): registration, lifecycle, the allocation of control
  connection epochs, the writes fenced by an epoch, placement and the desired-state
  snapshot. A repository over \<open>*sql.DB\<close> runs each statement by itself, so other clients
  may write between two statements: an operation of several statements takes their
  writes as \<open>env\<close>, where \<open>env i\<close> happens right before statement \<open>i\<close>.
\<close>

section \<open>Tables\<close>

datatype gateway_status = GatewayPendingEnrollment | GatewayJoining | GatewayActive | GatewayDraining
  | GatewayDrained | GatewayDegraded | GatewayDisabled | GatewayUnreachable
datatype connection_mode = ModeLegacy | ModeControl
datatype desired_lifecycle = LifecycleRun | LifecycleDrain
datatype recon_state = ReconPending | ReconHealthy | ReconDegraded

record gateway_row =
  gw_ID :: string
  gw_Label :: "string option"
  gw_Notes :: "string option"
  gw_Status :: gateway_status
  gw_SessionCount :: int
  gw_Capacity :: "int option"
  gw_BaseURL :: "string option"
  gw_GRPCEndpoint :: "string option"
  gw_SoftwareVersion :: "string option"
  gw_Capabilities :: string
  gw_ConnectionEpoch :: nat
  gw_ConnectionMode :: connection_mode
  gw_DesiredLifecycle :: desired_lifecycle
  gw_DesiredRevision :: nat
  gw_AppliedRevision :: nat
  gw_ReconciliationStatus :: recon_state
  gw_KeystorePresent :: "bool option"
  gw_KeystoreBytes :: "int option"
  gw_KeystoreIntegrity :: "string option"
  gw_KeystoreCheckedAt :: "int option"
  gw_JournalState :: "string option"
  gw_JournalEntries :: "nat option"
  gw_JournalBytes :: "nat option"
  gw_EnrolledAt :: "int option"
  gw_ConnectedAt :: "int option"
  gw_LastSeenAt :: "int option"
  gw_DeletedAt :: "int option"
  gw_CreatedBy :: "string option"
  gw_CreatedAt :: int
  gw_UpdatedAt :: int

datatype session_status = SessionStarting | SessionScanQR | SessionWorking | SessionFailed | SessionStopped | SessionLoggedOut

record session_row =
  ws_ID :: string
  ws_OrganizationID :: string
  ws_GatewayID :: string
  ws_WaJID :: "string option"
  ws_Status :: session_status
  ws_AutoRead :: bool
  ws_PresenceTyping :: bool
  ws_RatePerMin :: int
  ws_RatePerHour :: int
  ws_HistorySyncDays :: int
  ws_UpdatedAt :: int

record assignment_row =
  as_SessionID :: string
  as_GatewayID :: string
  as_Epoch :: nat
  as_CreatedAt :: int
  as_UpdatedAt :: int

record registry =
  rg_gateways :: "gateway_row list"
  rg_sessions :: "session_row list"
  rg_assignments :: "assignment_row list"

type_synonym interference = "nat \<Rightarrow> registry \<Rightarrow> registry"

section \<open>Statements\<close>

abbreviation ErrCheck :: go_err where
  "ErrCheck \<equiv> SQLError 3819 ''Check constraint 'chk_gateway_revisions' is violated.''"

text \<open>An update of gateway rows: the constraint \<open>applied_revision <= desired_revision\<close> refuses a
  statement that would violate it.\<close>

definition update_gateways :: "go_err option \<Rightarrow> (gateway_row \<Rightarrow> bool) \<Rightarrow> (gateway_row \<Rightarrow> gateway_row) \<Rightarrow> registry
    \<Rightarrow> registry \<times> nat result" where
  "update_gateways ft P g db =
     (case ft of
        Some e \<Rightarrow> (db, Inl e)
      | None \<Rightarrow>
          if \<exists>r\<in>set (rg_gateways db). P r \<and> gw_AppliedRevision (g r) > gw_DesiredRevision (g r) then (db, Inl ErrCheck)
          else (db\<lparr>rg_gateways := upd_rows P g (rg_gateways db)\<rparr>, Inr (matched P (rg_gateways db))))"

definition administered :: "gateway_status \<Rightarrow> bool" where
  "administered st \<longleftrightarrow> st = GatewayPendingEnrollment \<or> st = GatewayDisabled"

text \<open>The predicate of every statement fenced by a connection epoch.\<close>

definition current_row :: "string \<Rightarrow> nat \<Rightarrow> gateway_row \<Rightarrow> bool" where
  "current_row gid epoch r \<longleftrightarrow> gw_ID r = gid \<and> gw_ConnectionEpoch r = epoch \<and> gw_DeletedAt r = None \<and>
     \<not> administered (gw_Status r)"

definition connectable :: "string \<Rightarrow> gateway_row \<Rightarrow> bool" where
  "connectable gid r \<longleftrightarrow> gw_ID r = gid \<and> gw_DeletedAt r = None \<and> gw_EnrolledAt r \<noteq> None \<and> \<not> administered (gw_Status r)"

definition one_row :: "string \<Rightarrow> registry \<times> nat result \<Rightarrow> registry \<times> bool result" where
  "one_row what x =
     (case x of
        (db, Inl e) \<Rightarrow> (db, Inl (if what = [] then e else Wrapped what e))
      | (db, Inr n) \<Rightarrow> (db, Inr (n = 1)))"

section \<open>Registration and administration\<close>

text \<open>\<open>UpsertGateway\<close> is an insert with \<open>ON DUPLICATE KEY UPDATE\<close>: \<open>session_count\<close> and
  \<open>created_at\<close> are kept on update. The columns it does not name have their defaults.\<close>

definition new_gateway :: "string \<Rightarrow> gateway_status \<Rightarrow> int \<Rightarrow> int \<Rightarrow> gateway_row" where
  "new_gateway gid st createdAt updatedAt =
     \<lparr>gw_ID = gid, gw_Label = None, gw_Notes = None, gw_Status = st, gw_SessionCount = 0, gw_Capacity = None,
      gw_BaseURL = None, gw_GRPCEndpoint = None, gw_SoftwareVersion = None, gw_Capabilities = [],
      gw_ConnectionEpoch = 0, gw_ConnectionMode = ModeLegacy, gw_DesiredLifecycle = LifecycleRun,
      gw_DesiredRevision = 0, gw_AppliedRevision = 0, gw_ReconciliationStatus = ReconPending, gw_KeystorePresent = None,
      gw_KeystoreBytes = None, gw_KeystoreIntegrity = None, gw_KeystoreCheckedAt = None, gw_JournalState = None,
      gw_JournalEntries = None, gw_JournalBytes = None, gw_EnrolledAt = None, gw_ConnectedAt = None,
      gw_LastSeenAt = None, gw_DeletedAt = None, gw_CreatedBy = None, gw_CreatedAt = createdAt, gw_UpdatedAt = updatedAt\<rparr>"

definition Upsert :: "go_err option \<Rightarrow> gateway_row \<Rightarrow> registry \<Rightarrow> registry \<times> unit result" where
  "Upsert ft g db =
     (case ft of
        Some e \<Rightarrow> (db, Inl (Wrapped ''store: upsert gateway'' e))
      | None \<Rightarrow>
          if \<exists>r\<in>set (rg_gateways db). gw_ID r = gw_ID g
          then (db\<lparr>rg_gateways := upd_rows (\<lambda>r. gw_ID r = gw_ID g)
                  (\<lambda>r. r\<lparr>gw_Label := gw_Label g, gw_Status := gw_Status g, gw_ConnectionMode := ModeLegacy,
                         gw_Capacity := gw_Capacity g, gw_BaseURL := gw_BaseURL g, gw_LastSeenAt := gw_LastSeenAt g,
                         gw_UpdatedAt := gw_UpdatedAt g\<rparr>) (rg_gateways db)\<rparr>, Inr ())
          else (db\<lparr>rg_gateways := rg_gateways db @
                  [(new_gateway (gw_ID g) (gw_Status g) (gw_CreatedAt g) (gw_UpdatedAt g))
                     \<lparr>gw_Label := gw_Label g, gw_SessionCount := gw_SessionCount g, gw_Capacity := gw_Capacity g,
                      gw_BaseURL := gw_BaseURL g, gw_LastSeenAt := gw_LastSeenAt g\<rparr>]\<rparr>, Inr ()))"

definition CreatePending :: "go_err option \<Rightarrow> gateway_row \<Rightarrow> string option \<Rightarrow> string option \<Rightarrow> nat \<Rightarrow> registry
    \<Rightarrow> registry \<times> unit result" where
  "CreatePending ft g notes creatorID desiredRevision db =
     (if creatorID = None \<or> creatorID = Some [] then (db, Inl (Plain ''store: gateway creator is required''))
      else case ft of
        Some e \<Rightarrow> (db, Inl e)
      | None \<Rightarrow>
          if \<exists>r\<in>set (rg_gateways db). gw_ID r = gw_ID g then (db, Inl (SQLError 1062 ''Duplicate entry''))
          else (db\<lparr>rg_gateways := rg_gateways db @
                  [(new_gateway (gw_ID g) GatewayPendingEnrollment (gw_CreatedAt g) (gw_UpdatedAt g))
                     \<lparr>gw_Label := gw_Label g, gw_Notes := notes, gw_CreatedBy := creatorID, gw_Capacity := gw_Capacity g,
                      gw_DesiredRevision := desiredRevision\<rparr>]\<rparr>, Inr ()))"

definition markEnrolledJoining :: "go_err option \<Rightarrow> string \<Rightarrow> int \<Rightarrow> registry \<Rightarrow> registry \<times> bool result" where
  "markEnrolledJoining ft gid atMs db = one_row [] (update_gateways ft
     (\<lambda>r. gw_ID r = gid \<and> gw_Status r = GatewayPendingEnrollment \<and> gw_DeletedAt r = None)
     (\<lambda>r. r\<lparr>gw_Status := GatewayJoining, gw_EnrolledAt := Some atMs, gw_UpdatedAt := atMs\<rparr>) db)"

definition UpdateMetadata :: "go_err option \<Rightarrow> string \<Rightarrow> string option \<Rightarrow> string option \<Rightarrow> int option \<Rightarrow> nat \<Rightarrow> int \<Rightarrow> registry
    \<Rightarrow> registry \<times> bool result" where
  "UpdateMetadata ft gid label notes capacity revision atMs db = one_row [] (update_gateways ft
     (\<lambda>r. gw_ID r = gid \<and> gw_DeletedAt r = None)
     (\<lambda>r. r\<lparr>gw_Label := label, gw_Notes := notes, gw_Capacity := capacity, gw_DesiredRevision := revision,
            gw_UpdatedAt := atMs\<rparr>) db)"

definition Disable :: "go_err option \<Rightarrow> string \<Rightarrow> int \<Rightarrow> registry \<Rightarrow> registry \<times> bool result" where
  "Disable ft gid atMs db = one_row [] (update_gateways ft
     (\<lambda>r. gw_ID r = gid \<and> gw_DeletedAt r = None \<and> gw_Status r \<noteq> GatewayDisabled)
     (\<lambda>r. r\<lparr>gw_Status := GatewayDisabled, gw_UpdatedAt := atMs\<rparr>) db)"

text \<open>\<open>live_credential gid\<close>: there is an active or redeeming enrollment token, or a certificate
  that is not revoked.\<close>

definition SoftDelete :: "go_err option \<Rightarrow> (string \<Rightarrow> bool) \<Rightarrow> string \<Rightarrow> int \<Rightarrow> registry \<Rightarrow> registry \<times> bool result" where
  "SoftDelete ft live_credential gid atMs db = one_row [] (update_gateways ft
     (\<lambda>r. gw_ID r = gid \<and> gw_DeletedAt r = None \<and>
        gw_Status r \<in> {GatewayPendingEnrollment, GatewayDrained, GatewayDisabled} \<and> \<not> live_credential gid)
     (\<lambda>r. r\<lparr>gw_Status := GatewayDisabled, gw_DeletedAt := Some atMs, gw_UpdatedAt := atMs\<rparr>) db)"

definition Heartbeat :: "go_err option \<Rightarrow> string \<Rightarrow> int \<Rightarrow> int \<Rightarrow> registry \<Rightarrow> registry \<times> unit result" where
  "Heartbeat ft gid atMs sessionCount db =
     (case update_gateways ft (\<lambda>r. gw_ID r = gid \<and> gw_DeletedAt r = None)
             (\<lambda>r. r\<lparr>gw_LastSeenAt := Some atMs, gw_SessionCount := sessionCount, gw_UpdatedAt := atMs\<rparr>) db of
        (db', Inl e) \<Rightarrow> (db', Inl (Wrapped ''store: gateway heartbeat'' e))
      | (db', Inr _) \<Rightarrow> (db', Inr ()))"

definition SetStatus :: "go_err option \<Rightarrow> string \<Rightarrow> gateway_status \<Rightarrow> int \<Rightarrow> registry \<Rightarrow> registry \<times> unit result" where
  "SetStatus ft gid st atMs db =
     (case update_gateways ft (\<lambda>r. gw_ID r = gid \<and> gw_DeletedAt r = None)
             (\<lambda>r. r\<lparr>gw_Status := st, gw_UpdatedAt := atMs\<rparr>) db of
        (db', Inl e) \<Rightarrow> (db', Inl (Wrapped ''store: set gateway status'' e))
      | (db', Inr _) \<Rightarrow> (db', Inr ()))"

definition lifecycle_of :: "string \<Rightarrow> desired_lifecycle option" where
  "lifecycle_of s = (if s = ''run'' then Some LifecycleRun else if s = ''drain'' then Some LifecycleDrain else None)"

definition SetDesiredLifecycle :: "go_err option \<Rightarrow> string \<Rightarrow> string \<Rightarrow> int \<Rightarrow> registry \<Rightarrow> registry \<times> bool result" where
  "SetDesiredLifecycle ft gid desired atMs db =
     (case lifecycle_of desired of
        None \<Rightarrow> (db, Inl (Plain ''store: invalid gateway desired lifecycle''))
      | Some l \<Rightarrow> one_row ''store: set gateway desired lifecycle'' (update_gateways ft (connectable gid)
          (\<lambda>r. r\<lparr>gw_DesiredLifecycle := l, gw_DesiredRevision := gw_DesiredRevision r + 1, gw_UpdatedAt := atMs\<rparr>) db))"


section \<open>Connection epochs\<close>

record connection_hello =
  ch_GatewayID :: string
  ch_BaseURL :: "string option"
  ch_GRPCEndpoint :: "string option"
  ch_SoftwareVersion :: "string option"
  ch_Capabilities :: string
  ch_SessionCount :: int
  ch_Status :: gateway_status

record accepted_connection =
  ac_ConnectionEpoch :: nat
  ac_DesiredLifecycle :: desired_lifecycle
  ac_DesiredRevision :: nat

definition gatewayReportedStatus :: "gateway_status \<Rightarrow> bool" where
  "gatewayReportedStatus st \<longleftrightarrow>
     st \<in> {GatewayJoining, GatewayActive, GatewayDraining, GatewayDrained, GatewayDegraded}"

definition u32 :: "int \<Rightarrow> int" where
  "u32 x = x mod 2 ^ 32"

text \<open>\<open>AllocateGatewayConnectionEpoch\<close>: the compare-and-set on the epoch that was read.\<close>

definition allocate_epoch :: "go_err option \<Rightarrow> connection_hello \<Rightarrow> int \<Rightarrow> nat \<Rightarrow> registry \<Rightarrow> registry \<times> nat result" where
  "allocate_epoch ft h atMs current = update_gateways ft
     (\<lambda>r. connectable (ch_GatewayID h) r \<and> gw_ConnectionEpoch r = current)
     (\<lambda>r. r\<lparr>gw_ConnectionEpoch := gw_ConnectionEpoch r + 1, gw_ConnectionMode := ModeControl, gw_ConnectedAt := Some atMs,
            gw_LastSeenAt := Some atMs,
            gw_BaseURL := (case ch_BaseURL h of None \<Rightarrow> gw_BaseURL r | Some b \<Rightarrow> Some b),
            gw_GRPCEndpoint := ch_GRPCEndpoint h, gw_SoftwareVersion := ch_SoftwareVersion h,
            gw_Capabilities := ch_Capabilities h, gw_SessionCount := u32 (ch_SessionCount h),
            gw_Status := ch_Status h, gw_UpdatedAt := atMs\<rparr>)"

definition connectionEpochAllocationAttempts :: nat where
  "connectionEpochAllocationAttempts = 8"

text \<open>The loop of \<open>AcceptConnection\<close>; statement \<open>i\<close> reads the epoch, \<open>i + 1\<close> is the compare-and-set
  and \<open>i + 2\<close> reads the desired lifecycle back.\<close>

fun accept_loop :: "nat \<Rightarrow> faults \<Rightarrow> interference \<Rightarrow> connection_hello \<Rightarrow> int \<Rightarrow> nat \<Rightarrow> registry
    \<Rightarrow> registry \<times> accepted_connection result" where
  "accept_loop 0 f env h atMs i db =
     (db, Inl (Plain ''store: allocate gateway connection epoch: concurrent allocation contention''))"
| "accept_loop (Suc n) f env h atMs i db =
     (let db1 = env i db in
      case f i of Some e \<Rightarrow> (db1, Inl (notFound e ''connectable gateway''))
      | None \<Rightarrow>
     (case find (connectable (ch_GatewayID h)) (rg_gateways db1) of
        None \<Rightarrow> (db1, Inl (notFound ErrNoRows ''connectable gateway''))
      | Some row \<Rightarrow>
     (case allocate_epoch (f (i + 1)) h atMs (gw_ConnectionEpoch row) (env (i + 1) db1) of
        (db2, Inl e) \<Rightarrow> (db2, Inl (Wrapped ''store: allocate gateway connection epoch'' e))
      | (db2, Inr m) \<Rightarrow>
          if m = 1 then
            (let db3 = env (i + 2) db2; epoch = gw_ConnectionEpoch row + 1 in
             case f (i + 2) of
               Some e \<Rightarrow> (db3, Inl (if err_is ''sql: no rows in result set'' e
                   then ErrConflict ''gateway connection was superseded during acceptance''
                   else Wrapped ''store: read accepted gateway connection'' e))
             | None \<Rightarrow>
                 (case find (current_row (ch_GatewayID h) epoch) (rg_gateways db3) of
                    None \<Rightarrow> (db3, Inl (ErrConflict ''gateway connection was superseded during acceptance''))
                  | Some d \<Rightarrow> (db3, Inr \<lparr>ac_ConnectionEpoch = epoch, ac_DesiredLifecycle = gw_DesiredLifecycle d,
                                    ac_DesiredRevision = gw_DesiredRevision d\<rparr>)))
          else accept_loop n f env h atMs (i + 2) db2)))"

text \<open>\<open>valid\<close> is \<open>json.Valid\<close>.\<close>

definition AcceptConnection :: "(string \<Rightarrow> bool) \<Rightarrow> faults \<Rightarrow> interference \<Rightarrow> connection_hello \<Rightarrow> int \<Rightarrow> registry
    \<Rightarrow> registry \<times> accepted_connection result" where
  "AcceptConnection valid f env h atMs db =
     (if (ch_GatewayID h = [] \<or> ch_SessionCount h < 0 \<or> \<not> gatewayReportedStatus (ch_Status h)) \<or>
         (ch_Capabilities h \<noteq> [] \<and> \<not> valid (ch_Capabilities h))
      then (db, Inl (Plain ''store: invalid gateway connection hello''))
      else accept_loop connectionEpochAllocationAttempts f env h atMs 0 db)"

section \<open>Writes fenced by the epoch\<close>

record connection =
  cn_GatewayID :: string
  cn_Epoch :: nat

record heartbeat = connection +
  hb_SessionCount :: int
  hb_Status :: gateway_status
  hb_JournalState :: "string option"
  hb_JournalEntries :: "nat option"
  hb_JournalBytes :: "nat option"

record control_metadata =
  md_GatewayID :: string
  md_GRPCEndpoint :: "string option"
  md_SoftwareVersion :: "string option"
  md_AppliedRevision :: nat
  md_Capabilities :: string
  md_ConnectedAt :: "int option"

text \<open>\<open>fencedWriteApplied\<close>, statement \<open>i\<close>.\<close>

definition fencedWriteApplied :: "faults \<Rightarrow> nat \<Rightarrow> interference \<Rightarrow> nat \<Rightarrow> string \<Rightarrow> nat \<Rightarrow> registry \<Rightarrow> registry \<times> bool result" where
  "fencedWriteApplied f i env changed gid epoch db =
     (if changed = 1 then (db, Inr True)
      else (let db' = env i db in
        case f i of
          Some e \<Rightarrow> (db', Inl (Wrapped ''store: verify gateway connection epoch'' e))
        | None \<Rightarrow> (db', Inr (\<exists>r\<in>set (rg_gateways db'). current_row gid epoch r))))"

definition gatewayJournalTelemetryParams :: "'a heartbeat_scheme \<Rightarrow> (string option \<times> nat option \<times> nat option) result" where
  "gatewayJournalTelemetryParams h =
     (case hb_JournalState h of
        None \<Rightarrow> if hb_JournalEntries h \<noteq> None \<or> hb_JournalBytes h \<noteq> None
          then Inl (Plain ''journal telemetry counts without state'') else Inr (None, None, None)
      | Some st \<Rightarrow>
          if st \<notin> {''healthy'', ''degraded'', ''paused'', ''critical''}
          then Inl (Plain (''unknown journal state '' @ go_quote st))
          else (case (hb_JournalEntries h, hb_JournalBytes h) of
            (Some n, Some b) \<Rightarrow> Inr (Some st, Some n, Some b)
          | _ \<Rightarrow> Inl (Plain ''journal telemetry requires entry and byte counts'')))"

definition coalesce :: "'a option \<Rightarrow> 'a option \<Rightarrow> 'a option" where
  "coalesce x y = (case x of None \<Rightarrow> y | Some v \<Rightarrow> Some v)"

definition write_heartbeat :: "go_err option \<Rightarrow> 'a heartbeat_scheme \<Rightarrow> string option \<times> nat option \<times> nat option \<Rightarrow> int
    \<Rightarrow> registry \<Rightarrow> registry \<times> nat result" where
  "write_heartbeat ft h tel atMs = (case tel of (st, n, b) \<Rightarrow> update_gateways ft (current_row (cn_GatewayID h) (cn_Epoch h))
     (\<lambda>r. r\<lparr>gw_LastSeenAt := Some atMs, gw_SessionCount := u32 (hb_SessionCount h), gw_Status := hb_Status h,
            gw_JournalState := coalesce st (gw_JournalState r), gw_JournalEntries := coalesce n (gw_JournalEntries r),
            gw_JournalBytes := coalesce b (gw_JournalBytes r), gw_UpdatedAt := atMs\<rparr>))"

definition HeartbeatForEpoch :: "faults \<Rightarrow> interference \<Rightarrow> heartbeat \<Rightarrow> int \<Rightarrow> registry
    \<Rightarrow> registry \<times> (accepted_connection option) result" where
  "HeartbeatForEpoch f env h atMs db =
     (if cn_Epoch h = 0 \<or> hb_SessionCount h < 0 \<or> \<not> gatewayReportedStatus (hb_Status h)
      then (db, Inl (Plain ''store: invalid fenced gateway heartbeat''))
      else (case gatewayJournalTelemetryParams h of
        Inl e \<Rightarrow> (db, Inl (Wrapped ''store: invalid fenced gateway heartbeat'' e))
      | Inr tel \<Rightarrow>
     (case write_heartbeat (f 0) h tel atMs (env 0 db) of
        (db1, Inl e) \<Rightarrow> (db1, Inl (Wrapped ''store: fenced gateway heartbeat'' e))
      | (db1, Inr n) \<Rightarrow>
     (case fencedWriteApplied f 1 env n (cn_GatewayID h) (cn_Epoch h) db1 of
        (db2, Inl e) \<Rightarrow> (db2, Inl e)
      | (db2, Inr False) \<Rightarrow> (db2, Inr None)
      | (db2, Inr True) \<Rightarrow>
          (let db3 = env 2 db2 in
           case f 2 of
             Some e \<Rightarrow> (db3, if err_is ''sql: no rows in result set'' e then Inr None
                 else Inl (Wrapped ''store: read fenced gateway desired lifecycle'' e))
           | None \<Rightarrow> (db3, Inr (map_option (\<lambda>d. \<lparr>ac_ConnectionEpoch = cn_Epoch h,
                 ac_DesiredLifecycle = gw_DesiredLifecycle d, ac_DesiredRevision = gw_DesiredRevision d\<rparr>)
                 (find (current_row (cn_GatewayID h) (cn_Epoch h)) (rg_gateways db3)))))))))"

definition write_status :: "go_err option \<Rightarrow> string \<Rightarrow> nat \<Rightarrow> gateway_status \<Rightarrow> int \<Rightarrow> registry \<Rightarrow> registry \<times> nat result" where
  "write_status ft gid epoch st atMs = update_gateways ft (current_row gid epoch)
     (\<lambda>r. r\<lparr>gw_Status := st, gw_UpdatedAt := atMs\<rparr>)"

definition SetStatusForEpoch :: "faults \<Rightarrow> interference \<Rightarrow> connection \<Rightarrow> gateway_status \<Rightarrow> int \<Rightarrow> registry
    \<Rightarrow> registry \<times> bool result" where
  "SetStatusForEpoch f env c st atMs db =
     (if cn_Epoch c = 0 \<or> \<not> gatewayReportedStatus st then (db, Inl (Plain ''store: invalid fenced gateway lifecycle''))
      else case write_status (f 0) (cn_GatewayID c) (cn_Epoch c) st atMs (env 0 db) of
        (db1, Inl e) \<Rightarrow> (db1, Inl (Wrapped ''store: fenced gateway lifecycle'' e))
      | (db1, Inr n) \<Rightarrow> fencedWriteApplied f 1 env n (cn_GatewayID c) (cn_Epoch c) db1)"

definition write_disconnect :: "go_err option \<Rightarrow> string \<Rightarrow> nat \<Rightarrow> int \<Rightarrow> registry \<Rightarrow> registry \<times> nat result" where
  "write_disconnect ft gid epoch atMs = update_gateways ft (current_row gid epoch)
     (\<lambda>r. r\<lparr>gw_ConnectedAt := None, gw_LastSeenAt := None, gw_UpdatedAt := atMs\<rparr>)"

definition DisconnectForEpoch :: "faults \<Rightarrow> interference \<Rightarrow> connection \<Rightarrow> int \<Rightarrow> registry \<Rightarrow> registry \<times> bool result" where
  "DisconnectForEpoch f env c atMs db =
     (if cn_GatewayID c = [] \<or> cn_Epoch c = 0 then (db, Inl (Plain ''store: invalid fenced gateway disconnect''))
      else case write_disconnect (f 0) (cn_GatewayID c) (cn_Epoch c) atMs (env 0 db) of
        (db1, Inl e) \<Rightarrow> (db1, Inl (Wrapped ''store: fenced gateway disconnect'' e))
      | (db1, Inr n) \<Rightarrow> fencedWriteApplied f 1 env n (cn_GatewayID c) (cn_Epoch c) db1)"

definition write_ack :: "go_err option \<Rightarrow> string \<Rightarrow> nat \<Rightarrow> nat \<Rightarrow> int \<Rightarrow> registry \<Rightarrow> registry \<times> nat result" where
  "write_ack ft gid epoch revision atMs = update_gateways ft
     (\<lambda>r. current_row gid epoch r \<and> gw_DesiredRevision r = revision \<and> gw_AppliedRevision r \<le> revision)
     (\<lambda>r. r\<lparr>gw_AppliedRevision := revision, gw_UpdatedAt := atMs\<rparr>)"

definition AcknowledgeDesiredStateForEpoch :: "go_err option \<Rightarrow> connection \<Rightarrow> nat \<Rightarrow> int \<Rightarrow> registry \<Rightarrow> registry \<times> bool result" where
  "AcknowledgeDesiredStateForEpoch ft c revision atMs db =
     one_row [] (write_ack ft (cn_GatewayID c) (cn_Epoch c) revision atMs db)"

definition UpdateConnectionMetadata :: "(string \<Rightarrow> bool) \<Rightarrow> go_err option \<Rightarrow> control_metadata \<Rightarrow> int \<Rightarrow> registry
    \<Rightarrow> registry \<times> bool result" where
  "UpdateConnectionMetadata valid ft m atMs db =
     (if md_Capabilities m \<noteq> [] \<and> \<not> valid (md_Capabilities m) then (db, Inl (Plain ''store: invalid gateway capabilities''))
      else one_row [] (update_gateways ft (\<lambda>r. gw_ID r = md_GatewayID m \<and> gw_DeletedAt r = None)
        (\<lambda>r. r\<lparr>gw_GRPCEndpoint := md_GRPCEndpoint m, gw_SoftwareVersion := md_SoftwareVersion m,
               gw_Capabilities := md_Capabilities m, gw_AppliedRevision := md_AppliedRevision m,
               gw_ConnectedAt := md_ConnectedAt m, gw_UpdatedAt := atMs\<rparr>) db))"

definition write_metadata :: "go_err option \<Rightarrow> string \<Rightarrow> nat \<Rightarrow> control_metadata \<Rightarrow> int \<Rightarrow> registry \<Rightarrow> registry \<times> nat result" where
  "write_metadata ft gid epoch m atMs = update_gateways ft (current_row gid epoch)
     (\<lambda>r. r\<lparr>gw_GRPCEndpoint := md_GRPCEndpoint m, gw_SoftwareVersion := md_SoftwareVersion m,
            gw_Capabilities := md_Capabilities m, gw_AppliedRevision := md_AppliedRevision m,
            gw_LastSeenAt := Some atMs, gw_UpdatedAt := atMs\<rparr>)"

definition UpdateConnectionMetadataForEpoch :: "(string \<Rightarrow> bool) \<Rightarrow> faults \<Rightarrow> interference \<Rightarrow> connection \<Rightarrow> control_metadata \<Rightarrow> int
    \<Rightarrow> registry \<Rightarrow> registry \<times> bool result" where
  "UpdateConnectionMetadataForEpoch valid f env c m atMs db =
     (if cn_Epoch c = 0 \<or> cn_GatewayID c \<noteq> md_GatewayID m
      then (db, Inl (Plain ''store: gateway connection metadata id mismatch''))
      else if md_Capabilities m \<noteq> [] \<and> \<not> valid (md_Capabilities m) then (db, Inl (Plain ''store: invalid gateway capabilities''))
      else case write_metadata (f 0) (cn_GatewayID c) (cn_Epoch c) m atMs (env 0 db) of
        (db1, Inl e) \<Rightarrow> (db1, Inl (Wrapped ''store: fenced gateway connection metadata'' e))
      | (db1, Inr n) \<Rightarrow> fencedWriteApplied f 1 env n (cn_GatewayID c) (cn_Epoch c) db1)"

section \<open>Reads\<close>

definition Get :: "go_err option \<Rightarrow> string \<Rightarrow> registry \<Rightarrow> gateway_row result" where
  "Get ft gid db =
     (case ft of Some e \<Rightarrow> Inl (notFound e ''gateway'')
      | None \<Rightarrow> (case find (\<lambda>r. gw_ID r = gid \<and> gw_DeletedAt r = None) (rg_gateways db) of
          None \<Rightarrow> Inl (notFound ErrNoRows ''gateway'') | Some r \<Rightarrow> Inr r))"

definition ListActive :: "go_err option \<Rightarrow> registry \<Rightarrow> gateway_row list result" where
  "ListActive ft db =
     (case ft of Some e \<Rightarrow> Inl (Wrapped ''store: list active gateways'' e)
      | None \<Rightarrow> Inr (sort_key (\<lambda>r. (gw_SessionCount r, gw_ID r))
          (filter (\<lambda>r. gw_Status r = GatewayActive \<and> gw_DeletedAt r = None) (rg_gateways db))))"

text \<open>Descending \<open>last_seen_at\<close> puts NULL last, as MySQL orders it.\<close>

definition placeable :: "gateway_row \<Rightarrow> bool" where
  "placeable r \<longleftrightarrow> gw_Status r = GatewayActive \<and>
     (gw_ConnectionMode r = ModeLegacy \<or>
      (gw_ConnectionMode r = ModeControl \<and> gw_DesiredLifecycle r = LifecycleRun \<and> gw_ReconciliationStatus r = ReconHealthy)) \<and>
     gw_DeletedAt r = None \<and> (case gw_Capacity r of None \<Rightarrow> True | Some c \<Rightarrow> gw_SessionCount r < c)"

definition placement_key :: "gateway_row \<Rightarrow> int \<times> nat \<times> int \<times> string" where
  "placement_key r = (gw_SessionCount r, (if gw_LastSeenAt r = None then 1 else 0),
     (case gw_LastSeenAt r of None \<Rightarrow> 0 | Some t \<Rightarrow> - t), gw_ID r)"

definition PickForPlacement :: "go_err option \<Rightarrow> registry \<Rightarrow> gateway_row result" where
  "PickForPlacement ft db =
     (case ft of Some e \<Rightarrow> Inl (notFound e ''placement gateway'')
      | None \<Rightarrow> (case select_rows placeable placement_key 1 (rg_gateways db) of
          [] \<Rightarrow> Inl (notFound ErrNoRows ''placement gateway'') | r # _ \<Rightarrow> Inr r))"

record engine_target =
  et_SessionID :: string
  et_OrganizationID :: string
  et_GatewayID :: string
  et_GRPCEndpoint :: string
  et_AssignmentEpoch :: nat
  et_ConnectionEpoch :: nat
  et_DesiredRevision :: nat
  et_AppliedRevision :: nat

definition routable :: "gateway_row \<Rightarrow> bool" where
  "routable g \<longleftrightarrow> gw_DeletedAt g = None \<and> gw_ConnectionMode g = ModeControl \<and> gw_Status g = GatewayActive \<and>
     gw_DesiredLifecycle g = LifecycleRun \<and> gw_ReconciliationStatus g = ReconHealthy \<and> gw_ConnectedAt g \<noteq> None \<and>
     gw_GRPCEndpoint g \<noteq> None"

definition ResolveSessionEngineTarget :: "go_err option \<Rightarrow> string \<Rightarrow> string \<Rightarrow> registry \<Rightarrow> engine_target result" where
  "ResolveSessionEngineTarget ft organizationID sessionID db =
     (case ft of Some e \<Rightarrow> Inl (notFound e ''session engine target'')
      | None \<Rightarrow>
          (case [(s, a, g). s \<leftarrow> rg_sessions db, ws_ID s = sessionID \<and> ws_OrganizationID s = organizationID,
                            a \<leftarrow> rg_assignments db, as_SessionID a = ws_ID s,
                            g \<leftarrow> rg_gateways db, gw_ID g = as_GatewayID a \<and> routable g] of
             [] \<Rightarrow> Inl (notFound ErrNoRows ''session engine target'')
           | (s, a, g) # _ \<Rightarrow> Inr \<lparr>et_SessionID = ws_ID s, et_OrganizationID = ws_OrganizationID s,
               et_GatewayID = as_GatewayID a, et_GRPCEndpoint = the (gw_GRPCEndpoint g), et_AssignmentEpoch = as_Epoch a,
               et_ConnectionEpoch = gw_ConnectionEpoch g, et_DesiredRevision = gw_DesiredRevision g,
               et_AppliedRevision = gw_AppliedRevision g\<rparr>))"

section \<open>The desired-state snapshot\<close>

record desired_session =
  dse_SessionID :: string
  dse_OrganizationID :: string
  dse_DeviceJID :: string
  dse_AssignmentEpoch :: nat
  dse_ConfigRevision :: nat
  dse_AutoRead :: bool
  dse_PresenceTyping :: bool
  dse_DesiredRun :: bool
  dse_RatePerMin :: int
  dse_RatePerHour :: int
  dse_HistorySyncDays :: int
  dse_LeaseExpiresAt :: int

definition jid_text :: "string option \<Rightarrow> string" where
  "jid_text j = (case j of None \<Rightarrow> [] | Some t \<Rightarrow> t)"

definition desired_run :: "session_row \<Rightarrow> bool" where
  "desired_run s \<longleftrightarrow> jid_text (ws_WaJID s) \<noteq> [] \<and> ws_Status s \<in> {SessionWorking, SessionStarting, SessionScanQR}"

text \<open>\<open>ListGatewayDesiredStateAssignments\<close>: the assignments of a gateway with their sessions.\<close>

definition assigned_sessions :: "string \<Rightarrow> registry \<Rightarrow> (assignment_row \<times> session_row) list" where
  "assigned_sessions gid db =
     sort_key (\<lambda>(a, s). as_SessionID a)
       [(a, s). a \<leftarrow> rg_assignments db, as_GatewayID a = gid, s \<leftarrow> rg_sessions db, ws_ID s = as_SessionID a]"

definition desired_of :: "nat \<Rightarrow> int \<Rightarrow> assignment_row \<times> session_row \<Rightarrow> desired_session" where
  "desired_of revision leaseExpiresAt = (\<lambda>(a, s).
     \<lparr>dse_SessionID = as_SessionID a, dse_OrganizationID = ws_OrganizationID s, dse_DeviceJID = jid_text (ws_WaJID s),
      dse_AssignmentEpoch = as_Epoch a, dse_ConfigRevision = revision, dse_AutoRead = ws_AutoRead s,
      dse_PresenceTyping = ws_PresenceTyping s, dse_DesiredRun = desired_run s, dse_RatePerMin = u32 (ws_RatePerMin s),
      dse_RatePerHour = u32 (ws_RatePerHour s), dse_HistorySyncDays = u32 (ws_HistorySyncDays s),
      dse_LeaseExpiresAt = leaseExpiresAt\<rparr>)"

definition current_revision :: "string \<Rightarrow> nat \<Rightarrow> registry \<Rightarrow> nat option" where
  "current_revision gid epoch db = map_option gw_DesiredRevision (find (current_row gid epoch) (rg_gateways db))"

text \<open>The statements are the first revision check (0), the list (1) and the recheck (2);
  \<open>None\<close> is the answer \<open>false\<close>.\<close>

definition DesiredStateForEpoch :: "faults \<Rightarrow> interference \<Rightarrow> connection \<Rightarrow> nat \<Rightarrow> int \<Rightarrow> registry
    \<Rightarrow> registry \<times> (desired_session list option) result" where
  "DesiredStateForEpoch f env c revision leaseExpiresAt db =
     (let gid = cn_GatewayID c; epoch = cn_Epoch c; db0 = env 0 db in
      case f 0 of
        Some e \<Rightarrow> (db0, if err_is ''sql: no rows in result set'' e then Inr None
                         else Inl (Wrapped ''store: get gateway desired revision'' e))
      | None \<Rightarrow>
          if current_revision gid epoch db0 \<noteq> Some revision then (db0, Inr None)
          else (let db1 = env 1 db0 in
            case f 1 of
              Some e \<Rightarrow> (db1, Inl (Wrapped ''store: list gateway desired state'' e))
            | None \<Rightarrow>
                (let rows = (if current_revision gid epoch db1 = Some revision then assigned_sessions gid db1 else []);
                     db2 = env 2 db1 in
                 case f 2 of
                   Some e \<Rightarrow> (db2, if err_is ''sql: no rows in result set'' e then Inr None
                                    else Inl (Wrapped ''store: recheck gateway desired revision'' e))
                 | None \<Rightarrow>
                     if current_revision gid epoch db2 \<noteq> Some revision then (db2, Inr None)
                     else (db2, Inr (Some (map (desired_of revision leaseExpiresAt) rows))))))"

end
