(* ===== verification/Assignments.thy ===== *)
theory Assignments
  imports Registry
begin

text \<open>
  The sole mutation path of desired state
  (src/backend/internal/store/gateway_assignment.go): every operation is one transaction
  that changes an assignment or a session's streamed configuration together with the
  desired revision of the gateways concerned. The calls of a transaction are numbered
  in order, \<open>BeginTx\<close> being call 0; the commit is the last.
\<close>

section \<open>Operations\<close>

definition assignment_of :: "string \<Rightarrow> registry \<Rightarrow> assignment_row option" where
  "assignment_of sid db = find (\<lambda>a. as_SessionID a = sid) (rg_assignments db)"

text \<open>\<open>SELECT ... FOR UPDATE\<close> of the assignment, call \<open>i\<close>.\<close>

definition lock_assignment :: "go_err option \<Rightarrow> string \<Rightarrow> string \<Rightarrow> registry \<Rightarrow> assignment_row result" where
  "lock_assignment ft what sid db =
     (case ft of
        Some e \<Rightarrow> Inl (if err_is ''sql: no rows in result set'' e then ErrNotFound ''session assignment not found''
                       else Wrapped what e)
      | None \<Rightarrow> (case assignment_of sid db of
          None \<Rightarrow> Inl (ErrNotFound ''session assignment not found'') | Some a \<Rightarrow> Inr a))"

definition eligible :: "string \<Rightarrow> registry \<Rightarrow> bool" where
  "eligible gid db \<longleftrightarrow>
     matched (\<lambda>g. gw_ID g = gid \<and> gw_DeletedAt g = None \<and> \<not> administered (gw_Status g)) (rg_gateways db) = 1"

text \<open>\<open>UPDATE gateways SET desired_revision=desired_revision+1 ... WHERE id IN (...)\<close>.\<close>

definition bump :: "int \<Rightarrow> gateway_row \<Rightarrow> gateway_row" where
  "bump atMs g = g\<lparr>gw_DesiredRevision := gw_DesiredRevision g + 1, gw_UpdatedAt := atMs\<rparr>"

definition live_in :: "string set \<Rightarrow> gateway_row \<Rightarrow> bool" where
  "live_in gids g \<longleftrightarrow> gw_ID g \<in> gids \<and> gw_DeletedAt g = None"

definition advance_revisions :: "string set \<Rightarrow> int \<Rightarrow> registry \<Rightarrow> registry" where
  "advance_revisions gids atMs db = db\<lparr>rg_gateways := upd_rows (live_in gids) (bump atMs) (rg_gateways db)\<rparr>"

definition update_session :: "string \<Rightarrow> (session_row \<Rightarrow> session_row) \<Rightarrow> registry \<Rightarrow> registry" where
  "update_session sid g db = db\<lparr>rg_sessions := upd_rows (\<lambda>s. ws_ID s = sid) g (rg_sessions db)\<rparr>"

definition Reassign :: "faults \<Rightarrow> string \<Rightarrow> string \<Rightarrow> int \<Rightarrow> registry \<Rightarrow> registry \<times> nat result" where
  "Reassign f sessionID newGatewayID atMs db = in_tx db
     (call (map_option (Wrapped ''store: begin session reassignment'') (f 0))
     (bindr (lock_assignment (f 1) ''store: lock session assignment'' sessionID db) (\<lambda>a.
      if as_GatewayID a = newGatewayID
      then call (map_option (Wrapped ''store: commit unchanged session assignment'') (f 2)) (Inr (db, as_Epoch a))
      else if f 2 \<noteq> None \<or> \<not> eligible newGatewayID db then Inl (Plain ''store: target gateway is not eligible'')
      else
        call (map_option (Wrapped ''store: update session assignment'') (f 3))
        (if matched (\<lambda>x. as_SessionID x = sessionID) (rg_assignments db) \<noteq> 1
         then Inl (Plain ''store: assignment update lost'')
         else let db1 = db\<lparr>rg_assignments := upd_rows (\<lambda>x. as_SessionID x = sessionID)
                     (\<lambda>x. x\<lparr>as_GatewayID := newGatewayID, as_Epoch := as_Epoch x + 1, as_UpdatedAt := atMs\<rparr>)
                     (rg_assignments db)\<rparr> in
           call (map_option (Wrapped ''store: update session gateway pin'') (f 4))
           (let db2 = update_session sessionID (\<lambda>s. s\<lparr>ws_GatewayID := newGatewayID, ws_UpdatedAt := atMs\<rparr>) db1 in
            call (map_option (Wrapped ''store: advance assignment revisions'') (f 5))
            (if matched (live_in {as_GatewayID a, newGatewayID}) (rg_gateways db2) \<noteq> 2
             then Inl (Plain ''store: assignment revision update lost'')
             else call (map_option (Wrapped ''store: commit session reassignment'') (f 6))
               (Inr (advance_revisions {as_GatewayID a, newGatewayID} atMs db2, as_Epoch a + 1))))))))"

text \<open>The common shape of a configuration change: lock the assignment, change the session, advance
  the owner's revision, commit.\<close>

definition configure :: "faults \<Rightarrow> string \<Rightarrow> string \<Rightarrow> string \<Rightarrow> string \<Rightarrow> string \<Rightarrow> (session_row \<Rightarrow> session_row) \<Rightarrow> int \<Rightarrow> registry
    \<Rightarrow> registry \<times> unit result" where
  "configure f begin_what lock_what update_what advance_what sessionID g atMs db = in_tx db
     (call (map_option (Wrapped begin_what) (f 0))
     (bindr (lock_assignment (f 1) lock_what sessionID db) (\<lambda>a.
      call (map_option (Wrapped update_what) (f 2))
      (call (map_option (Wrapped advance_what) (f 3))
      (call (f 4)
      (Inr (advance_revisions {as_GatewayID a} atMs (update_session sessionID g db), ())))))))"

definition UpdateConfig :: "faults \<Rightarrow> string \<Rightarrow> bool \<Rightarrow> bool \<Rightarrow> int \<Rightarrow> int \<Rightarrow> int \<Rightarrow> registry \<Rightarrow> registry \<times> unit result" where
  "UpdateConfig f sessionID autoRead presenceTyping ratePerMin ratePerHour atMs db =
     (if ratePerMin < 0 \<or> ratePerHour < 0 then (db, Inl (Plain ''store: session rates must be nonnegative''))
      else configure f ''store: begin session config update'' ''store: lock session configuration''
        ''store: update session configuration'' ''store: advance config revision'' sessionID
        (\<lambda>s. s\<lparr>ws_AutoRead := autoRead, ws_PresenceTyping := presenceTyping, ws_RatePerMin := ratePerMin,
               ws_RatePerHour := ratePerHour, ws_UpdatedAt := atMs\<rparr>) atMs db)"

definition UpdateHistorySyncDays :: "faults \<Rightarrow> string \<Rightarrow> int \<Rightarrow> int \<Rightarrow> registry \<Rightarrow> registry \<times> unit result" where
  "UpdateHistorySyncDays f sessionID days atMs db =
     (if days < 0 \<or> days > 65535 then (db, Inl (ErrValidation ''historySyncDays out of range''))
      else configure f ''store: begin history window update'' ''store: lock session history window''
        ''store: update session history window'' ''store: advance config revision'' sessionID
        (\<lambda>s. s\<lparr>ws_HistorySyncDays := days, ws_UpdatedAt := atMs\<rparr>) atMs db)"

definition SetSessionDesired :: "faults \<Rightarrow> string \<Rightarrow> bool \<Rightarrow> int \<Rightarrow> registry \<Rightarrow> registry \<times> unit result" where
  "SetSessionDesired f sessionID run atMs db =
     configure f ''store: begin session desired update'' ''store: lock session assignment''
       ''store: update session desired state'' ''store: advance desired revision'' sessionID
       (\<lambda>s. s\<lparr>ws_Status := (if run \<and> ws_WaJID s = None then ws_Status s
                             else if run then SessionStarting else SessionStopped), ws_UpdatedAt := atMs\<rparr>) atMs db"

text \<open>\<open>assignSession\<close>, calls 1 (lock), 2 (eligibility), 3 (insert) and 4 (revision).\<close>

definition assignSession :: "faults \<Rightarrow> string \<Rightarrow> string \<Rightarrow> int \<Rightarrow> registry \<Rightarrow> (registry \<times> nat) result" where
  "assignSession f sessionID gatewayID atMs db =
     (case (case f 1 of Some e \<Rightarrow> if err_is ''sql: no rows in result set'' e then Inr None
                                   else Inl (Wrapped ''store: lock session assignment'' e)
            | None \<Rightarrow> Inr (assignment_of sessionID db)) of
        Inl e \<Rightarrow> Inl e
      | Inr (Some a) \<Rightarrow> Inr (db, as_Epoch a)
      | Inr None \<Rightarrow>
          if f 2 \<noteq> None \<or> \<not> eligible gatewayID db then Inl (Plain ''store: target gateway is not eligible'')
          else call (map_option (Wrapped ''store: insert session assignment'') (f 3))
            (if \<exists>a\<in>set (rg_assignments db). as_SessionID a = sessionID
             then Inl (Wrapped ''store: insert session assignment'' (SQLError 1062 ''Duplicate entry''))
             else call (map_option (Wrapped ''store: advance assignment revision'') (f 4))
               (Inr (advance_revisions {gatewayID} atMs
                 (db\<lparr>rg_assignments := rg_assignments db @ [\<lparr>as_SessionID = sessionID, as_GatewayID = gatewayID, as_Epoch = 1,
                    as_CreatedAt = atMs, as_UpdatedAt = atMs\<rparr>]\<rparr>), 1))))"

definition Assign :: "faults \<Rightarrow> string \<Rightarrow> string \<Rightarrow> int \<Rightarrow> registry \<Rightarrow> registry \<times> nat result" where
  "Assign f sessionID gatewayID atMs db = in_tx db
     (call (map_option (Wrapped ''store: begin session assignment'') (f 0))
     (bindr (assignSession f sessionID gatewayID atMs db) (\<lambda>r. call (f 5) (Inr r))))"

definition Unassign :: "faults \<Rightarrow> string \<Rightarrow> int \<Rightarrow> registry \<Rightarrow> registry \<times> unit result" where
  "Unassign f sessionID atMs db = in_tx db
     (call (map_option (Wrapped ''store: begin session unassignment'') (f 0))
     (case (case f 1 of Some e \<Rightarrow> if err_is ''sql: no rows in result set'' e then Inr None
                                   else Inl (Wrapped ''store: lock session assignment'' e)
            | None \<Rightarrow> Inr (assignment_of sessionID db)) of
        Inl e \<Rightarrow> Inl e
      | Inr None \<Rightarrow> call (f 2) (Inr (db, ()))
      | Inr (Some a) \<Rightarrow>
          call (map_option (Wrapped ''store: delete session assignment'') (f 2))
          (if matched (\<lambda>x. as_SessionID x = sessionID) (rg_assignments db) \<noteq> 1
           then Inl (Plain ''store: assignment delete lost'')
           else call (map_option (Wrapped ''store: advance unassignment revision'') (f 3))
             (call (f 4)
             (Inr (advance_revisions {as_GatewayID a} atMs
               (db\<lparr>rg_assignments := filter (\<lambda>x. as_SessionID x \<noteq> sessionID) (rg_assignments db)\<rparr>), ()))))))"

end
