(* ===== verification/Connections.thy ===== *)
theory Connections
  imports Assignments
begin

text \<open>
  Control connections of a gateway under concurrency: any number of requests read the
  connection epoch and compete for the next one, while heartbeats, lifecycle reports,
  administration and assignment changes of other clients are interleaved statement by
  statement. Epochs are issued once and a superseded connection can write nothing.
\<close>

section \<open>Statements and transactions of other clients\<close>

inductive gwrite :: "registry \<Rightarrow> registry \<Rightarrow> bool" where
  upsert: "Upsert ft g db = (db', q1) \<Longrightarrow> gwrite db db'"
| create: "CreatePending ft g nts creator rv db = (db', q1) \<Longrightarrow> gwrite db db'"
| enrolled: "markEnrolledJoining ft gid t db = (db', q2) \<Longrightarrow> gwrite db db'"
| metadata: "UpdateMetadata ft gid label nts cap rv t db = (db', q2) \<Longrightarrow> gwrite db db'"
| disable: "Disable ft gid t db = (db', q2) \<Longrightarrow> gwrite db db'"
| delete: "SoftDelete ft live gid t db = (db', q2) \<Longrightarrow> gwrite db db'"
| legacy_heartbeat: "Heartbeat ft gid t n db = (db', q1) \<Longrightarrow> gwrite db db'"
| legacy_status: "SetStatus ft gid st t db = (db', q1) \<Longrightarrow> gwrite db db'"
| lifecycle: "SetDesiredLifecycle ft gid l t db = (db', q2) \<Longrightarrow> gwrite db db'"
| legacy_metadata: "UpdateConnectionMetadata valid ft m t db = (db', q2) \<Longrightarrow> gwrite db db'"
| heartbeat: "write_heartbeat ft (h :: heartbeat) tel t db = (db', q3) \<Longrightarrow> gwrite db db'"
| status: "write_status ft gid ep st t db = (db', q3) \<Longrightarrow> gwrite db db'"
| disconnect: "write_disconnect ft gid ep t db = (db', q3) \<Longrightarrow> gwrite db db'"
| ack: "write_ack ft gid ep rv t db = (db', q3) \<Longrightarrow> gwrite db db'"
| fenced_metadata: "write_metadata ft gid ep m t db = (db', q3) \<Longrightarrow> gwrite db db'"

inductive awrite :: "registry \<Rightarrow> registry \<Rightarrow> bool" where
  reassign: "Reassign f sid gid t db = (db', q3) \<Longrightarrow> awrite db db'"
| config: "UpdateConfig f sid ar pt rm rh t db = (db', q1) \<Longrightarrow> awrite db db'"
| history: "UpdateHistorySyncDays f sid days t db = (db', q1) \<Longrightarrow> awrite db db'"
| desired: "SetSessionDesired f sid run t db = (db', q1) \<Longrightarrow> awrite db db'"
| assign: "Assign f sid gid t db = (db', q3) \<Longrightarrow> awrite db db'"
| unassign: "Unassign f sid t db = (db', q1) \<Longrightarrow> awrite db db'"

section \<open>What they keep of the epochs\<close>

definition epoch_key :: "gateway_row \<Rightarrow> string \<times> nat" where
  "epoch_key r = (gw_ID r, gw_ConnectionEpoch r)"

abbreviation epoch_keys :: "registry \<Rightarrow> (string \<times> nat) list" where
  "epoch_keys db \<equiv> map epoch_key (rg_gateways db)"

lemma update_gateways_cases:
  assumes "update_gateways ft P g db = (db', q)"
  obtains (refused) e where "q = Inl e" "db' = db"
    | (written) "q = Inr (matched P (rg_gateways db))" "db' = db\<lparr>rg_gateways := upd_rows P g (rg_gateways db)\<rparr>"
proof (cases "ft = None \<and> \<not> (\<exists>r\<in>set (rg_gateways db). P r \<and> gw_AppliedRevision (g r) > gw_DesiredRevision (g r))")
  case True
  then have "update_gateways ft P g db = (db\<lparr>rg_gateways := upd_rows P g (rg_gateways db)\<rparr>, Inr (matched P (rg_gateways db)))"
    by (simp add: update_gateways_def)
  with assms show ?thesis by (intro written) simp_all
next
  case False
  then have "\<exists>e. update_gateways ft P g db = (db, Inl e)" by (cases ft) (simp_all add: update_gateways_def)
  with assms show ?thesis using refused by fastforce
qed

lemma update_gateways_keys:
  assumes "update_gateways ft P g db = (db', q)" "\<And>r. epoch_key (g r) = epoch_key r"
  shows "epoch_keys db' = epoch_keys db"
  using assms(1) by (cases rule: update_gateways_cases) (simp_all add: map_upd_rows assms(2))

lemma one_row_db: "one_row what x = (db', q) \<Longrightarrow> fst x = db'"
  by (auto simp: one_row_def split: prod.splits sum.splits)

lemma fst_case_rows: "fst (case x of (db', Inl e) \<Rightarrow> (db', h e) | (db', Inr n) \<Rightarrow> (db', k n)) = fst x"
  by (auto split: prod.splits sum.splits)

text \<open>Rows are never removed and keep their epoch; a new row has a new id and epoch 0.\<close>

definition keeps_epochs :: "registry \<Rightarrow> registry \<Rightarrow> bool" where
  "keeps_epochs db db' \<longleftrightarrow> epoch_keys db' = epoch_keys db \<or>
     (\<exists>gid. gid \<notin> fst ` set (epoch_keys db) \<and> epoch_keys db' = epoch_keys db @ [(gid, 0)])"

lemma keeps_epochs_update:
  assumes "fst (update_gateways ft P g db) = db'" "\<And>r. epoch_key (g r) = epoch_key r"
  shows "keeps_epochs db db'"
proof -
  obtain d q where u: "update_gateways ft P g db = (d, q)" by fastforce
  show ?thesis using update_gateways_keys[OF u assms(2)] assms(1) u by (simp add: keeps_epochs_def)
qed

lemma keeps_epochs_pair:
  "update_gateways ft P g db = (db', q) \<Longrightarrow> (\<And>r. epoch_key (g r) = epoch_key r) \<Longrightarrow> keeps_epochs db db'"
  by (drule arg_cong[where f = fst]) (simp add: keeps_epochs_update)

lemma keeps_epochs_one_row:
  "one_row what (update_gateways ft P g db) = (db', q) \<Longrightarrow> (\<And>r. epoch_key (g r) = epoch_key r) \<Longrightarrow> keeps_epochs db db'"
  by (rule keeps_epochs_update[OF one_row_db])

lemma keeps_epochs_refl [simp]: "keeps_epochs db db"
  by (simp add: keeps_epochs_def)

lemma gwrite_keeps_epochs:
  assumes "gwrite db db'"
  shows "keeps_epochs db db'"
  using assms
proof cases
  case (upsert ft g q1)
  have "gw_ID g \<notin> fst ` set (epoch_keys db)" if "\<not> (\<exists>r\<in>set (rg_gateways db). gw_ID r = gw_ID g)"
    using that by (auto simp: epoch_key_def)
  with upsert show ?thesis
    by (auto simp: keeps_epochs_def Upsert_def new_gateway_def epoch_key_def map_upd_rows split: option.splits if_splits)
next
  case (create ft g nts creator rv q1)
  have "gw_ID g \<notin> fst ` set (epoch_keys db)" if "\<not> (\<exists>r\<in>set (rg_gateways db). gw_ID r = gw_ID g)"
    using that by (auto simp: epoch_key_def)
  with create show ?thesis
    by (auto simp: keeps_epochs_def CreatePending_def new_gateway_def epoch_key_def split: option.splits if_splits)
next
  case (enrolled ft gid t q2)
  then show ?thesis unfolding markEnrolledJoining_def by (rule keeps_epochs_one_row) (simp add: epoch_key_def)
next
  case (metadata ft gid label nts cap rv t q2)
  then show ?thesis unfolding UpdateMetadata_def by (rule keeps_epochs_one_row) (simp add: epoch_key_def)
next
  case (disable ft gid t q2)
  then show ?thesis unfolding Disable_def by (rule keeps_epochs_one_row) (simp add: epoch_key_def)
next
  case (delete ft live gid t q2)
  then show ?thesis unfolding SoftDelete_def by (rule keeps_epochs_one_row) (simp add: epoch_key_def)
next
  case (legacy_heartbeat ft gid t n q1)
  then have "fst (update_gateways ft (\<lambda>r. gw_ID r = gid \<and> gw_DeletedAt r = None)
      (\<lambda>r. r\<lparr>gw_LastSeenAt := Some t, gw_SessionCount := n, gw_UpdatedAt := t\<rparr>) db) = db'"
    by (auto simp: Heartbeat_def split: prod.splits sum.splits)
  then show ?thesis by (rule keeps_epochs_update) (simp add: epoch_key_def)
next
  case (legacy_status ft gid st t q1)
  then have "fst (update_gateways ft (\<lambda>r. gw_ID r = gid \<and> gw_DeletedAt r = None)
      (\<lambda>r. r\<lparr>gw_Status := st, gw_UpdatedAt := t\<rparr>) db) = db'"
    by (auto simp: SetStatus_def split: prod.splits sum.splits)
  then show ?thesis by (rule keeps_epochs_update) (simp add: epoch_key_def)
next
  case (lifecycle ft gid l t q2)
  then show ?thesis
    by (cases "lifecycle_of l") (auto simp: SetDesiredLifecycle_def epoch_key_def elim!: keeps_epochs_one_row)
next
  case (legacy_metadata valid ft m t q2)
  then show ?thesis
    by (auto simp: UpdateConnectionMetadata_def epoch_key_def split: if_splits elim!: keeps_epochs_one_row)
next
  case (heartbeat ft h tel t q3)
  then show ?thesis by (cases tel) (auto simp: write_heartbeat_def epoch_key_def elim!: keeps_epochs_pair)
next
  case (status ft gid ep st t q3)
  then show ?thesis unfolding write_status_def by (rule keeps_epochs_pair) (simp add: epoch_key_def)
next
  case (disconnect ft gid ep t q3)
  then show ?thesis unfolding write_disconnect_def by (rule keeps_epochs_pair) (simp add: epoch_key_def)
next
  case (ack ft gid ep rv t q3)
  then show ?thesis unfolding write_ack_def by (rule keeps_epochs_pair) (simp add: epoch_key_def)
next
  case (fenced_metadata ft gid ep m t q3)
  then show ?thesis unfolding write_metadata_def by (rule keeps_epochs_pair) (simp add: epoch_key_def)
qed

lemma epoch_keys_advance [simp]: "epoch_keys (advance_revisions gids t db) = epoch_keys db"
  by (simp add: advance_revisions_def bump_def epoch_key_def map_upd_rows)

lemma epoch_keys_other [simp]:
  "epoch_keys (update_session sid g db) = epoch_keys db" "epoch_keys (db\<lparr>rg_assignments := x\<rparr>) = epoch_keys db"
  by (simp_all add: update_session_def)

lemma configure_cases:
  assumes "configure f w1 w2 w3 w4 sid g t db = (db', q)"
  obtains (failed) "db' = db"
    | (changed) a where "assignment_of sid db = Some a" "q = Inr ()"
        "db' = advance_revisions {as_GatewayID a} t (update_session sid g db)"
  using assms unfolding configure_def
  by (elim in_txE) (auto simp: lock_assignment_def split: option.splits if_splits)

lemma awrite_keeps_epochs:
  assumes "awrite db db'"
  shows "epoch_keys db' = epoch_keys db"
  using assms
proof cases
  case (reassign f sid gid t q3)
  then show ?thesis
    by (auto simp: Reassign_def Let_def split: if_splits elim!: in_txE)
next
  case (config f sid ar pt rm rh t q1)
  then show ?thesis by (auto simp: UpdateConfig_def split: if_splits elim!: configure_cases)
next
  case (history f sid days t q1)
  then show ?thesis by (auto simp: UpdateHistorySyncDays_def split: if_splits elim!: configure_cases)
next
  case (desired f sid run t q1)
  then show ?thesis by (auto simp: SetSessionDesired_def elim!: configure_cases)
next
  case (assign f sid gid t q3)
  then show ?thesis
    by (auto simp: Assign_def assignSession_def split: if_splits option.splits sum.splits elim!: in_txE)
next
  case (unassign f sid t q1)
  then show ?thesis
    by (auto simp: Unassign_def split: if_splits option.splits sum.splits elim!: in_txE)
qed


section \<open>Competing connections\<close>

text \<open>A request holds its hello and the epoch it read; \<open>cs_issued\<close> records the epochs whose
  compare-and-set succeeded, which are those \<open>AcceptConnection\<close> goes on to return.\<close>

record cn_state =
  cs_db :: registry
  cs_phase :: "nat \<Rightarrow> (connection_hello \<times> nat) option"
  cs_issued :: "(string \<times> nat) list"

inductive cnstep :: "cn_state \<Rightarrow> cn_state \<Rightarrow> bool" where
  read: "find (connectable (ch_GatewayID h)) (rg_gateways (cs_db s)) = Some row \<Longrightarrow>
    cnstep s (s\<lparr>cs_phase := (cs_phase s)(i := Some (h, gw_ConnectionEpoch row))\<rparr>)"
| allocate: "cs_phase s i = Some (h, cur) \<Longrightarrow> allocate_epoch ft h t cur (cs_db s) = (db', q) \<Longrightarrow>
    cnstep s (s\<lparr>cs_db := db', cs_phase := (cs_phase s)(i := None),
      cs_issued := (if q = Inr 1 then cs_issued s @ [(ch_GatewayID h, cur + 1)] else cs_issued s)\<rparr>)"
| registry: "gwrite (cs_db s) db' \<Longrightarrow> cnstep s (s\<lparr>cs_db := db'\<rparr>)"
| assignment: "awrite (cs_db s) db' \<Longrightarrow> cnstep s (s\<lparr>cs_db := db'\<rparr>)"

definition unique_gateways :: "registry \<Rightarrow> bool" where
  "unique_gateways db \<longleftrightarrow> distinct (map gw_ID (rg_gateways db))"

definition unique_assignments :: "registry \<Rightarrow> bool" where
  "unique_assignments db \<longleftrightarrow> distinct (map as_SessionID (rg_assignments db))"

lemma unique_gateways_keys: "unique_gateways db \<longleftrightarrow> distinct (map fst (epoch_keys db))"
  by (simp add: unique_gateways_def epoch_key_def comp_def)

lemma unique_gatewaysD:
  "unique_gateways db \<Longrightarrow> r \<in> set (rg_gateways db) \<Longrightarrow> r' \<in> set (rg_gateways db) \<Longrightarrow> gw_ID r = gw_ID r' \<Longrightarrow> r = r'"
  by (auto simp: unique_gateways_def distinct_map inj_on_def)

definition covered :: "(string \<times> nat) list \<Rightarrow> registry \<Rightarrow> bool" where
  "covered issued db \<longleftrightarrow> (\<forall>(g, n)\<in>set issued. \<exists>e. (g, e) \<in> set (epoch_keys db) \<and> n \<le> e)"

definition cn_inv :: "cn_state \<Rightarrow> bool" where
  "cn_inv s \<longleftrightarrow> unique_gateways (cs_db s) \<and> covered (cs_issued s) (cs_db s) \<and> distinct (cs_issued s)"

lemma keeps_epochs_inv:
  assumes "keeps_epochs db db'" "unique_gateways db"
  shows "unique_gateways db'" "covered issued db \<Longrightarrow> covered issued db'"
proof -
  from assms show "unique_gateways db'"
    unfolding keeps_epochs_def unique_gateways_keys by (elim disjE exE conjE) (simp_all del: map_map)
  have "set (epoch_keys db) \<subseteq> set (epoch_keys db')" using assms(1) unfolding keeps_epochs_def
    by (elim disjE exE conjE) (simp_all add: subset_insertI del: set_map)
  then show "covered issued db \<Longrightarrow> covered issued db'" unfolding covered_def by blast
qed

lemma allocate_epoch_cases:
  assumes "allocate_epoch ft h t cur db = (db', q)" "unique_gateways db"
  obtains (lost) "epoch_keys db' = epoch_keys db" "q \<noteq> Inr 1"
    | (won) r where "q = Inr 1" "r \<in> set (rg_gateways db)" "gw_ID r = ch_GatewayID h" "gw_ConnectionEpoch r = cur"
        "map fst (epoch_keys db') = map fst (epoch_keys db)" "(ch_GatewayID h, cur + 1) \<in> set (epoch_keys db')"
        "\<And>k. k \<in> set (epoch_keys db) \<Longrightarrow> fst k \<noteq> ch_GatewayID h \<Longrightarrow> k \<in> set (epoch_keys db')"
proof -
  define P where "P = (\<lambda>r. connectable (ch_GatewayID h) r \<and> gw_ConnectionEpoch r = cur)"
  from assms(1)[unfolded allocate_epoch_def, folded P_def]
  obtain g where u: "update_gateways ft P g db = (db', q)" and g: "\<And>r. epoch_key (g r) = (gw_ID r, gw_ConnectionEpoch r + 1)"
    by (auto simp: epoch_key_def)
  from u show ?thesis
  proof (cases rule: update_gateways_cases)
    case (refused e)
    then show ?thesis using lost by simp
  next
    case written
    show ?thesis
    proof (cases "matched P (rg_gateways db) = 1")
      case True
      then obtain r where r: "r \<in> set (rg_gateways db)" "P r" using matched_0_iff[of P "rg_gateways db"] by auto
      have rid: "gw_ID r = ch_GatewayID h" "gw_ConnectionEpoch r = cur" using r(2) by (auto simp: P_def connectable_def)
      show ?thesis
      proof (rule won[OF _ r(1) rid])
        show "q = Inr 1" using written True by simp
        have "map gw_ID (upd_rows P g (rg_gateways db)) = map gw_ID (rg_gateways db)"
          by (rule map_upd_rows) (use g in \<open>simp add: epoch_key_def\<close>)
        then show "map fst (epoch_keys db') = map fst (epoch_keys db)" by (simp add: written epoch_key_def comp_def)
        have "g r \<in> set (upd_rows P g (rg_gateways db))" by (rule in_upd_rows_hit[where P = P, OF r])
        then show "(ch_GatewayID h, cur + 1) \<in> set (epoch_keys db')" using g[of r] rid by (force simp: written)
        show "k \<in> set (epoch_keys db')" if k: "k \<in> set (epoch_keys db)" "fst k \<noteq> ch_GatewayID h" for k
        proof -
          from k obtain x where x: "x \<in> set (rg_gateways db)" "k = epoch_key x" by auto
          then have "\<not> P x" using k(2) by (auto simp: P_def connectable_def epoch_key_def)
          then have "x \<in> set (upd_rows P g (rg_gateways db))" by (rule in_upd_rows_miss[where P = P, OF x(1)])
          then show ?thesis by (simp add: written x(2))
        qed
      qed
    next
      case False
      have "matched P (rg_gateways db) \<le> 1"
        using matched_unique[of gw_ID "rg_gateways db" P "ch_GatewayID h"] assms(2)
        by (auto simp: unique_gateways_def P_def connectable_def)
      with False have "matched P (rg_gateways db) = 0" by simp
      then show ?thesis using lost written by (simp add: upd_rows_id)
    qed
  qed
qed

lemma cn_inv_step: "cnstep s s' \<Longrightarrow> cn_inv s \<Longrightarrow> cn_inv s'"
proof (induction rule: cnstep.induct)
  case (allocate s i h cur ft t db' q)
  have uniq: "unique_gateways (cs_db s)" and cov: "covered (cs_issued s) (cs_db s)" and dist: "distinct (cs_issued s)"
    using allocate.prems by (auto simp: cn_inv_def)
  from allocate.hyps(2) uniq show ?case
  proof (cases rule: allocate_epoch_cases)
    case lost
    then show ?thesis using allocate.prems by (simp add: cn_inv_def unique_gateways_keys covered_def)
  next
    case (won r)
    let ?new = "(ch_GatewayID h, cur + 1)"
    have "unique_gateways db'" using uniq by (simp add: unique_gateways_keys won(5) del: map_map)
    moreover have below: "n \<le> cur" if "(ch_GatewayID h, n) \<in> set (cs_issued s)" for n
    proof -
      from cov that obtain x where x: "x \<in> set (rg_gateways (cs_db s))" "gw_ID x = ch_GatewayID h" "n \<le> gw_ConnectionEpoch x"
        by (fastforce simp: covered_def epoch_key_def)
      with unique_gatewaysD[OF uniq x(1) won(2)] won(3,4) show ?thesis by simp
    qed
    moreover have "\<exists>e. (g, e) \<in> set (epoch_keys db') \<and> n \<le> e" if k: "(g, n) \<in> set (cs_issued s @ [?new])" for g n
    proof (cases "g = ch_GatewayID h")
      case True
      then have "n \<le> cur + 1" using k below[of n] by auto
      then show ?thesis using won(6) True by blast
    next
      case False
      then obtain e where "(g, e) \<in> set (epoch_keys (cs_db s))" "n \<le> e" using cov k by (fastforce simp: covered_def)
      then show ?thesis using won(7)[of "(g, e)"] False by auto
    qed
    moreover have "?new \<notin> set (cs_issued s)" using below[of "cur + 1"] by auto
    ultimately show ?thesis using dist won(1) by (auto simp: cn_inv_def covered_def)
  qed
next
  case (registry s db')
  then show ?case using keeps_epochs_inv[OF gwrite_keeps_epochs[OF registry.hyps]] by (simp add: cn_inv_def)
next
  case (assignment s db')
  have "keeps_epochs (cs_db s) db'" using awrite_keeps_epochs[OF assignment.hyps] by (simp add: keeps_epochs_def)
  from keeps_epochs_inv[OF this] assignment.prems show ?case by (simp add: cn_inv_def)
qed (simp add: cn_inv_def)

lemma cn_inv_steps: "cnstep\<^sup>*\<^sup>* s s' \<Longrightarrow> cn_inv s \<Longrightarrow> cn_inv s'"
  by (induction rule: rtranclp_induct) (auto intro: cn_inv_step)

lemma cnstep_issued: "cnstep s s' \<Longrightarrow> set (cs_issued s) \<subseteq> set (cs_issued s')"
  by (induction rule: cnstep.induct) auto

lemma cnsteps_issued: "cnstep\<^sup>*\<^sup>* s s' \<Longrightarrow> set (cs_issued s) \<subseteq> set (cs_issued s')"
  by (induction rule: rtranclp_induct) (auto dest: cnstep_issued)

definition cn_init :: "registry \<Rightarrow> cn_state" where
  "cn_init db = \<lparr>cs_db = db, cs_phase = (\<lambda>_. None), cs_issued = []\<rparr>"

lemma cn_inv_init: "unique_gateways db \<Longrightarrow> cn_inv (cn_init db)"
  by (simp add: cn_inv_def cn_init_def covered_def)


section \<open>The epoch as a fence\<close>

datatype fenced_op =
    FHeartbeat int gateway_status "string option \<times> nat option \<times> nat option" int
  | FStatus gateway_status int
  | FDisconnect int

fun fenced_statement :: "fenced_op \<Rightarrow> string \<Rightarrow> nat \<Rightarrow> registry \<Rightarrow> registry \<times> nat result" where
  "fenced_statement (FHeartbeat n st tel t) gid ep = write_heartbeat None
     \<lparr>cn_GatewayID = gid, cn_Epoch = ep, hb_SessionCount = n, hb_Status = st, hb_JournalState = None,
      hb_JournalEntries = None, hb_JournalBytes = None\<rparr> tel t"
| "fenced_statement (FStatus st t) gid ep = write_status None gid ep st t"
| "fenced_statement (FDisconnect t) gid ep = write_disconnect None gid ep t"

definition fenced_apply :: "fenced_op \<Rightarrow> string \<Rightarrow> nat \<Rightarrow> registry \<Rightarrow> registry \<times> bool" where
  "fenced_apply a gid ep db = (case fenced_statement a gid ep db of (db', Inr n) \<Rightarrow> (db', n \<noteq> 0) | (db', Inl e) \<Rightarrow> (db', False))"

definition holds_epoch :: "string \<Rightarrow> nat \<Rightarrow> registry \<Rightarrow> bool" where
  "holds_epoch gid ep db \<longleftrightarrow> (\<exists>r\<in>set (rg_gateways db). current_row gid ep r) \<and>
     (\<forall>r\<in>set (rg_gateways db). current_row gid ep r \<longrightarrow> gw_AppliedRevision r \<le> gw_DesiredRevision r)"

lemma update_current:
  assumes "\<And>r. gw_AppliedRevision (g r) = gw_AppliedRevision r" "\<And>r. gw_DesiredRevision (g r) = gw_DesiredRevision r"
  shows "\<not> holds_epoch gid ep db \<Longrightarrow> update_gateways None (current_row gid ep) g db = (db, Inr 0) \<or>
      (\<exists>e. update_gateways None (current_row gid ep) g db = (db, Inl e))"
    "holds_epoch gid ep db \<Longrightarrow> \<exists>db' n. update_gateways None (current_row gid ep) g db = (db', Inr n) \<and> n \<noteq> 0"
proof -
  assume n: "\<not> holds_epoch gid ep db"
  show "update_gateways None (current_row gid ep) g db = (db, Inr 0) \<or>
      (\<exists>e. update_gateways None (current_row gid ep) g db = (db, Inl e))"
  proof (cases "\<exists>r\<in>set (rg_gateways db). current_row gid ep r")
    case True
    with n have "\<exists>r\<in>set (rg_gateways db). current_row gid ep r \<and> gw_DesiredRevision r < gw_AppliedRevision r"
      by (auto simp: holds_epoch_def not_le)
    then show ?thesis by (simp add: update_gateways_def assms)
  next
    case False
    then have "matched (current_row gid ep) (rg_gateways db) = 0" by (simp add: matched_0_iff)
    then show ?thesis using False by (simp add: update_gateways_def upd_rows_id)
  qed
next
  assume h: "holds_epoch gid ep db"
  then have "matched (current_row gid ep) (rg_gateways db) \<noteq> 0" by (auto simp: holds_epoch_def matched_0_iff)
  then show "\<exists>db' n. update_gateways None (current_row gid ep) g db = (db', Inr n) \<and> n \<noteq> 0"
    using h by (auto simp: update_gateways_def assms holds_epoch_def not_less)
qed

lemma fenced_statement_update:
  "\<exists>g. fenced_statement a gid ep db = update_gateways None (current_row gid ep) g db \<and>
    (\<forall>r. gw_AppliedRevision (g r) = gw_AppliedRevision r \<and> gw_DesiredRevision (g r) = gw_DesiredRevision r)"
proof (cases a)
  case (FHeartbeat n st tel t)
  then show ?thesis by (cases tel) (auto simp: write_heartbeat_def)
qed (auto simp: write_status_def write_disconnect_def)

interpretation epoch_fence: fenced_write holds_epoch fenced_apply
proof
  fix k t s a
  obtain g where g: "fenced_statement a k t s = update_gateways None (current_row k t) g s"
    "\<And>r. gw_AppliedRevision (g r) = gw_AppliedRevision r" "\<And>r. gw_DesiredRevision (g r) = gw_DesiredRevision r"
    using fenced_statement_update[of a k t s] by auto
  show "fenced_apply a k t s = (s, False)" if "\<not> holds_epoch k t s"
    using update_current(1)[OF g(2,3) that] by (auto simp: fenced_apply_def g(1))
  show "snd (fenced_apply a k t s)" if "holds_epoch k t s"
    using update_current(2)[OF g(2,3) that] by (auto simp: fenced_apply_def g(1))
qed

lemma superseded_no_row:
  assumes "unique_gateways db" "covered issued db" "(gid, n) \<in> set issued" "m < n" "r \<in> set (rg_gateways db)"
  shows "\<not> current_row gid m r"
proof
  assume c: "current_row gid m r"
  from assms(2,3) obtain x where x: "x \<in> set (rg_gateways db)" "gw_ID x = gid" "n \<le> gw_ConnectionEpoch x"
    by (fastforce simp: covered_def epoch_key_def)
  have "x = r" using unique_gatewaysD[OF assms(1) x(1) assms(5)] x(2) c by (simp add: current_row_def)
  with x(3) c assms(4) show False by (simp add: current_row_def)
qed

text \<open>Property C6. A connection epoch is issued once and fences its predecessors: however many
  requests compete for connections of a gateway while other clients write, every epoch is
  issued to one request; and once a newer epoch is issued, no sequence of heartbeats,
  status reports and disconnects of an older connection changes anything, then or later.\<close>

theorem superseded_connection_fenced:
  assumes "unique_gateways db0" "cnstep\<^sup>*\<^sup>* (cn_init db0) s" "(gid, n) \<in> set (cs_issued s)" "m < n" "cnstep\<^sup>*\<^sup>* s s'"
  shows "distinct (cs_issued s') \<and> fold (\<lambda>a db. fst (fenced_apply a gid m db)) ops (cs_db s') = cs_db s' \<and>
    DisconnectForEpoch no_faults (\<lambda>_ db. db) \<lparr>cn_GatewayID = gid, cn_Epoch = m\<rparr> t (cs_db s') \<in>
      {(cs_db s', Inr False), (cs_db s', Inl (Plain ''store: invalid fenced gateway disconnect''))}"
proof -
  have inv: "cn_inv s'" using cn_inv_steps[OF assms(5) cn_inv_steps[OF assms(2) cn_inv_init[OF assms(1)]]] .
  have "(gid, n) \<in> set (cs_issued s')" using cnsteps_issued[OF assms(5)] assms(3) by blast
  then have none: "\<not> current_row gid m r" if "r \<in> set (rg_gateways (cs_db s'))" for r
    using superseded_no_row[of "cs_db s'" "cs_issued s'" gid n m r] inv assms(4) that by (auto simp: cn_inv_def)
  then have "\<not> holds_epoch gid m (cs_db s')" by (auto simp: holds_epoch_def)
  note stale = epoch_fence.stale_writes[OF this, of ops]
  have "matched (current_row gid m) (rg_gateways (cs_db s')) = 0" using none by (simp add: matched_0_iff)
  then have "DisconnectForEpoch no_faults (\<lambda>_ db. db) \<lparr>cn_GatewayID = gid, cn_Epoch = m\<rparr> t (cs_db s') \<in>
      {(cs_db s', Inr False), (cs_db s', Inl (Plain ''store: invalid fenced gateway disconnect''))}"
    using none by (auto simp: DisconnectForEpoch_def write_disconnect_def update_gateways_def fencedWriteApplied_def upd_rows_id)
  with stale inv show ?thesis by (simp add: cn_inv_def)
qed

section \<open>One acceptance under interference\<close>

definition epochs_grow :: "registry \<Rightarrow> registry \<Rightarrow> bool" where
  "epochs_grow db db' \<longleftrightarrow> (unique_gateways db \<longrightarrow> unique_gateways db') \<and>
     (\<forall>(g, e)\<in>set (epoch_keys db). \<exists>e'. (g, e') \<in> set (epoch_keys db') \<and> e \<le> e')"

lemma epochs_growD: "epochs_grow db db' \<Longrightarrow> (g, e) \<in> set (epoch_keys db) \<Longrightarrow> \<exists>e'. (g, e') \<in> set (epoch_keys db') \<and> e \<le> e'"
  unfolding epochs_grow_def by blast

lemma epochs_grow_trans: "epochs_grow a b \<Longrightarrow> epochs_grow b c \<Longrightarrow> epochs_grow a c"
  unfolding epochs_grow_def by (fastforce intro: order_trans)

lemma key_unique: "unique_gateways db \<Longrightarrow> (g, e) \<in> set (epoch_keys db) \<Longrightarrow> (g, e') \<in> set (epoch_keys db) \<Longrightarrow> e = e'"
  by (auto simp: epoch_key_def dest: unique_gatewaysD)

lemma allocate_grows:
  assumes "allocate_epoch ft h t cur db = (db', q)" "unique_gateways db"
  shows "epochs_grow db db'"
  using assms
proof (cases rule: allocate_epoch_cases)
  case lost
  then show ?thesis by (auto simp: epochs_grow_def unique_gateways_keys simp del: set_map)
next
  case (won r)
  have "\<exists>e'. (g, e') \<in> set (epoch_keys db') \<and> e \<le> e'" if k: "(g, e) \<in> set (epoch_keys db)" for g e
  proof (cases "g = ch_GatewayID h")
    case True
    have "(g, cur) \<in> set (epoch_keys db)" using won(2-4) True by (force simp: epoch_key_def)
    then have "e = cur" using key_unique[OF assms(2) k] by simp
    then show ?thesis using won(6) True by fastforce
  next
    case False
    then show ?thesis using won(7)[OF k] by auto
  qed
  moreover have "unique_gateways db'" using assms(2) by (simp add: unique_gateways_keys won(5) del: map_map)
  ultimately show ?thesis by (auto simp: epochs_grow_def simp del: set_map)
qed

lemma accept_loop_epoch:
  assumes "\<And>i d. epochs_grow d (env i d)" "unique_gateways db" "accept_loop n f env h t i db = (db', Inr a)"
  shows "epochs_grow db db' \<and> (ch_GatewayID h, ac_ConnectionEpoch a) \<in> set (epoch_keys db') \<and>
    (\<forall>e. (ch_GatewayID h, e) \<in> set (epoch_keys db) \<longrightarrow> e < ac_ConnectionEpoch a)"
  using assms(2,3)
proof (induction n arbitrary: i db)
  case (Suc n)
  let ?db1 = "env i db" and ?g = "ch_GatewayID h"
  from Suc.prems(2) obtain row where row: "find (connectable ?g) (rg_gateways ?db1) = Some row"
    by (auto simp: Let_def split: option.splits)
  obtain db2 q where al: "allocate_epoch (f (i + 1)) h t (gw_ConnectionEpoch row) (env (i + 1) ?db1) = (db2, q)" by fastforce
  have g1: "epochs_grow db ?db1" "epochs_grow ?db1 (env (i + 1) ?db1)" by (rule assms(1))+
  have u1: "unique_gateways ?db1" "unique_gateways (env (i + 1) ?db1)" using g1 Suc.prems(1) by (auto simp: epochs_grow_def)
  have g2: "epochs_grow db db2" using epochs_grow_trans[OF g1(1) epochs_grow_trans[OF g1(2) allocate_grows[OF al u1(2)]]] .
  then have u2: "unique_gateways db2" using Suc.prems(1) by (simp add: epochs_grow_def)
  have rowk: "(?g, gw_ConnectionEpoch row) \<in> set (epoch_keys ?db1)"
    using find_Some_in[OF row] by (force simp: connectable_def epoch_key_def)
  show ?case
  proof (cases "q = Inr 1")
    case True
    let ?db3 = "env (i + 2) db2"
    from Suc.prems(2) row al True obtain d where d: "find (current_row ?g (gw_ConnectionEpoch row + 1)) (rg_gateways ?db3) = Some d"
      "db' = ?db3" "ac_ConnectionEpoch a = gw_ConnectionEpoch row + 1"
      by (auto simp: Let_def split: option.splits)
    have "(?g, ac_ConnectionEpoch a) \<in> set (epoch_keys db')"
      using find_Some_in[OF d(1)] d(2,3) by (force simp: current_row_def epoch_key_def)
    moreover have "e < ac_ConnectionEpoch a" if "(?g, e) \<in> set (epoch_keys db)" for e
    proof -
      from epochs_growD[OF g1(1) that] obtain e' where "(?g, e') \<in> set (epoch_keys ?db1)" "e \<le> e'" by blast
      then show ?thesis using key_unique[OF u1(1) rowk] d(3) by simp
    qed
    ultimately show ?thesis using epochs_grow_trans[OF g2 assms(1)] d(2) by blast
  next
    case False
    then have "accept_loop n f env h t (i + 2) db2 = (db', Inr a)"
      using Suc.prems(2) row al by (auto simp: Let_def split: option.splits sum.splits)
    from Suc.IH[OF u2 this] g2 show ?thesis
      by (meson epochs_growD epochs_grow_trans order_le_less_trans)
  qed
qed simp

text \<open>A connection that is accepted has a new epoch: whatever other clients write
  between the statements, as long as they do not lower epochs or duplicate gateways, the
  returned epoch is larger than the gateway's epoch before the call and is its epoch when
  the call returns.\<close>

theorem AcceptConnection_fresh_epoch:
  assumes "\<And>i d. epochs_grow d (env i d)" "unique_gateways db" "AcceptConnection valid f env h t db = (db', Inr a)"
  shows "(ch_GatewayID h, ac_ConnectionEpoch a) \<in> set (epoch_keys db') \<and>
    (\<forall>e. (ch_GatewayID h, e) \<in> set (epoch_keys db) \<longrightarrow> e < ac_ConnectionEpoch a)"
  using accept_loop_epoch[OF assms(1,2)] assms(3) by (auto simp: AcceptConnection_def split: if_splits)


section \<open>Witnesses\<close>

definition demo_gw :: "string \<Rightarrow> gateway_row" where
  "demo_gw i = (new_gateway i GatewayActive 0 0)\<lparr>gw_EnrolledAt := Some 0\<rparr>"

definition demo_asg :: assignment_row where
  "demo_asg = \<lparr>as_SessionID = ''s'', as_GatewayID = ''g1'', as_Epoch = 4, as_CreatedAt = 0, as_UpdatedAt = 0\<rparr>"

definition demo_session :: session_row where
  "demo_session = \<lparr>ws_ID = ''s'', ws_OrganizationID = ''org'', ws_GatewayID = ''g1'', ws_WaJID = Some ''628'', ws_Status = SessionWorking,
     ws_AutoRead = True, ws_PresenceTyping = False, ws_RatePerMin = 20, ws_RatePerHour = 200, ws_HistorySyncDays = 30, ws_UpdatedAt = 0\<rparr>"

definition demo_db :: registry where
  "demo_db = \<lparr>rg_gateways = [demo_gw ''g1'', demo_gw ''g2''], rg_sessions = [demo_session], rg_assignments = [demo_asg]\<rparr>"

definition demo_hello :: connection_hello where
  "demo_hello = \<lparr>ch_GatewayID = ''g1'', ch_BaseURL = None, ch_GRPCEndpoint = Some ''x:1'', ch_SoftwareVersion = None,
     ch_Capabilities = [], ch_SessionCount = 1, ch_Status = GatewayActive\<rparr>"

lemmas demo_registry = demo_db_def demo_gw_def demo_asg_def demo_session_def demo_hello_def new_gateway_def

lemma demo_unique: "unique_gateways demo_db" "unique_assignments demo_db"
  by (simp_all add: unique_gateways_def unique_assignments_def demo_registry)

definition demo_accepted :: registry where
  "demo_accepted = fst (allocate_epoch None demo_hello 5 0 demo_db)"

lemma demo_won: "allocate_epoch None demo_hello 5 0 demo_db = (demo_accepted, Inr 1)"
  unfolding demo_accepted_def
  by (simp add: allocate_epoch_def update_gateways_def connectable_def administered_def demo_registry)

definition demo_cn :: cn_state where
  "demo_cn = \<lparr>cs_db = demo_accepted, cs_phase = (\<lambda>_. None), cs_issued = [(''g1'', 1)]\<rparr>"

lemma demo_cn_steps: "cnstep\<^sup>*\<^sup>* (cn_init demo_db) demo_cn"
proof -
  let ?s1 = "(cn_init demo_db)\<lparr>cs_phase := (\<lambda>_. None)(0 := Some (demo_hello, 0))\<rparr>"
  have "find (connectable ''g1'') (rg_gateways demo_db) = Some (demo_gw ''g1'')"
    by (simp add: connectable_def administered_def demo_registry)
  then have 1: "cnstep (cn_init demo_db) ?s1"
    using cnstep.read[of demo_hello "cn_init demo_db" "demo_gw ''g1''" 0]
    by (simp add: cn_init_def demo_hello_def demo_gw_def new_gateway_def)
  have 2: "cnstep ?s1 demo_cn"
    using cnstep.allocate[of ?s1 0 demo_hello 0 None 5 demo_accepted "Inr 1"] demo_won
    by (simp add: cn_init_def demo_cn_def demo_hello_def)
  from 1 2 show ?thesis by (meson r_into_rtranclp rtranclp.rtrancl_into_rtrancl)
qed

theorem superseded_connection_fenced_witness:
  "fold (\<lambda>a db. fst (fenced_apply a ''g1'' 0 db)) [FStatus GatewayDrained 9, FDisconnect 9] (cs_db demo_cn) = cs_db demo_cn"
  using superseded_connection_fenced[OF demo_unique(1) demo_cn_steps _ _ rtranclp.rtrancl_refl, of "''g1''" 1 0,
      where ops = "[FStatus GatewayDrained 9, FDisconnect 9]"] by (simp add: demo_cn_def)

lemma demo_accept:
  "AcceptConnection (\<lambda>_. True) no_faults (\<lambda>_ d. d) demo_hello 5 demo_db =
    (demo_accepted, Inr \<lparr>ac_ConnectionEpoch = 1, ac_DesiredLifecycle = LifecycleRun, ac_DesiredRevision = 0\<rparr>)"
  unfolding demo_accepted_def by code_simp

theorem AcceptConnection_fresh_epoch_witness: "(''g1'', 1) \<in> set (epoch_keys demo_accepted)"
proof -
  have "epochs_grow d d" for d unfolding epochs_grow_def by blast
  from AcceptConnection_fresh_epoch[OF this demo_unique(1) demo_accept] show ?thesis by (simp add: demo_hello_def)
qed

end
