(* ===== verification/Ownership.thy ===== *)
theory Ownership
  imports Connections
begin

text \<open>
  Who owns a session: the desired-state snapshot read by separate statements is a state of
  the database, and reassignments are atomic (src/backend/internal/store/gateway.go,
  \<open>DesiredStateForEpoch\<close>, and store/gateway_assignment.go).
\<close>

section \<open>The snapshot read\<close>

text \<open>
  The desired-state read is three statements outside a transaction. Each change of what a
  gateway is assigned advances its revision in the same transaction, so an unchanged
  revision means an unchanged assignment set.
\<close>

definition of_gateway :: "string \<Rightarrow> registry \<Rightarrow> assignment_row list" where
  "of_gateway gid db = filter (\<lambda>a. as_GatewayID a = gid) (rg_assignments db)"

definition session_rows :: "registry \<Rightarrow> assignment_row \<Rightarrow> session_row list" where
  "session_rows db a = filter (\<lambda>s. ws_ID s = as_SessionID a) (rg_sessions db)"

lemma comprehension_filter: "concat (map (\<lambda>s. if P s then [f s] else []) xs) = map f (filter P xs)"
  by (induction xs) auto

lemma assigned_sessions_alt:
  "assigned_sessions gid db = sort_key (\<lambda>(a, s). as_SessionID a) (concat (map (\<lambda>a. map (Pair a) (session_rows db a)) (of_gateway gid db)))"
proof -
  have "concat (map (\<lambda>a. if as_GatewayID a = gid then concat (map (\<lambda>s. if ws_ID s = as_SessionID a then [(a, s)] else []) ss) else []) xs) =
      concat (map (\<lambda>a. map (Pair a) (filter (\<lambda>s. ws_ID s = as_SessionID a) ss)) (filter (\<lambda>a. as_GatewayID a = gid) xs))"
    for xs :: "assignment_row list" and ss :: "session_row list"
    by (induction xs) (auto simp: comprehension_filter)
  then show ?thesis unfolding assigned_sessions_def of_gateway_def session_rows_def by (simp only:)
qed

lemma assigned_sessions_cong:
  assumes "of_gateway gid db' = of_gateway gid db"
    "\<And>a. a \<in> set (of_gateway gid db) \<Longrightarrow> session_rows db' a = session_rows db a"
  shows "assigned_sessions gid db' = assigned_sessions gid db"
proof -
  have "map (\<lambda>a. map (Pair a) (session_rows db' a)) (of_gateway gid db') = map (\<lambda>a. map (Pair a) (session_rows db a)) (of_gateway gid db)"
    using assms by simp
  then show ?thesis by (simp only: assigned_sessions_alt)
qed

lemma owner_unique:
  assumes "unique_assignments db" "assignment_of sid db = Some a" "x \<in> set (rg_assignments db)" "as_SessionID x = sid"
  shows "x = a"
proof -
  have "a \<in> set (rg_assignments db)" "as_SessionID a = sid" using find_Some_in assms(2) unfolding assignment_of_def by fastforce+
  then show ?thesis using assms(1,3,4) by (auto simp: unique_assignments_def distinct_map inj_on_def)
qed

lemma session_rows_update:
  assumes "\<And>s. ws_ID (g s) = ws_ID s" "as_SessionID a \<noteq> sid"
  shows "session_rows (update_session sid g db) a = session_rows db a"
proof -
  have "filter (\<lambda>s. ws_ID s = as_SessionID a) (upd_rows (\<lambda>s. ws_ID s = sid) g ss) = filter (\<lambda>s. ws_ID s = as_SessionID a) ss" for ss
    using assms by (induction ss) auto
  then show ?thesis by (simp add: session_rows_def update_session_def)
qed

lemma rg_sel [simp]:
  "rg_assignments (advance_revisions gids t db) = rg_assignments db" "rg_sessions (advance_revisions gids t db) = rg_sessions db"
  "rg_gateways (update_session sid g db) = rg_gateways db" "rg_assignments (update_session sid g db) = rg_assignments db"
  "rg_gateways (advance_revisions gids t db) = upd_rows (live_in gids) (bump t) (rg_gateways db)"
  by (simp_all add: advance_revisions_def update_session_def)

lemma assigned_sessions_advance [simp]: "assigned_sessions gid (advance_revisions gids t db) = assigned_sessions gid db"
  by (rule assigned_sessions_cong) (simp_all add: of_gateway_def session_rows_def)

text \<open>A change of the assignments advances the revisions of a set of gateways that contains
  every gateway whose assigned sessions change.\<close>

definition advances :: "string set \<Rightarrow> registry \<Rightarrow> registry \<Rightarrow> bool" where
  "advances gids db db' \<longleftrightarrow> unique_assignments db' \<and>
     (\<exists>t. rg_gateways db' = upd_rows (live_in gids) (bump t) (rg_gateways db)) \<and>
     (\<forall>gid. gid \<notin> gids \<longrightarrow> assigned_sessions gid db' = assigned_sessions gid db)"

lemma advances_none: "unique_assignments db \<Longrightarrow> advances {} db db"
  by (auto simp: advances_def live_in_def upd_rows_def)

lemma advancesI:
  assumes "unique_assignments db1" "rg_gateways db1 = rg_gateways db"
    "\<And>gid. gid \<notin> gids \<Longrightarrow> assigned_sessions gid db1 = assigned_sessions gid db"
  shows "advances gids db (advance_revisions gids t db1)"
  using assms by (auto simp: advances_def unique_assignments_def)

lemma configure_advances:
  assumes "configure f w1 w2 w3 w4 sid g t db = (db', q)" "unique_assignments db" "\<And>s. ws_ID (g s) = ws_ID s"
  shows "\<exists>gids. advances gids db db'"
  using assms(1)
proof (cases rule: configure_cases)
  case failed
  then show ?thesis using advances_none[OF assms(2)] by blast
next
  case (changed a)
  have "assigned_sessions gid (update_session sid g db) = assigned_sessions gid db" if "gid \<notin> {as_GatewayID a}" for gid
  proof (rule assigned_sessions_cong)
    fix x assume "x \<in> set (of_gateway gid db)"
    then have "as_SessionID x \<noteq> sid" using owner_unique[OF assms(2) changed(1)] that by (auto simp: of_gateway_def)
    then show "session_rows (update_session sid g db) x = session_rows db x" by (rule session_rows_update[OF assms(3)])
  qed (simp add: of_gateway_def)
  then have "advances {as_GatewayID a} db (advance_revisions {as_GatewayID a} t (update_session sid g db))"
    using assms(2) by (intro advancesI) (simp_all add: unique_assignments_def)
  then show ?thesis using changed(3) by blast
qed

lemma filter_upd_rows:
  assumes "\<And>a. Q a \<Longrightarrow> a \<in> set xs \<Longrightarrow> \<not> P a \<and> \<not> P (g a)"
  shows "filter P (upd_rows Q g xs) = filter P xs"
  using assms by (induction xs) auto

lemma Reassign_advances:
  assumes "Reassign f sid gid t db = (db', q)" "unique_assignments db"
  shows "\<exists>gids. advances gids db db'"
proof (cases q)
  case (Inl e)
  then show ?thesis using assms advances_none by (auto simp: Reassign_def)
next
  case (Inr n)
  let ?move = "\<lambda>x. x\<lparr>as_GatewayID := gid, as_Epoch := as_Epoch x + 1, as_UpdatedAt := t\<rparr>"
  let ?pin = "\<lambda>s. s\<lparr>ws_GatewayID := gid, ws_UpdatedAt := t\<rparr>"
  let ?db1 = "db\<lparr>rg_assignments := upd_rows (\<lambda>x. as_SessionID x = sid) ?move (rg_assignments db)\<rparr>"
  from assms(1) Inr obtain a where a: "assignment_of sid db = Some a"
    and d: "db' = db \<or> db' = advance_revisions {as_GatewayID a, gid} t (update_session sid ?pin ?db1)"
    by (auto simp: Reassign_def lock_assignment_def Let_def split: if_splits option.splits)
  have ua: "unique_assignments ?db1" using assms(2) by (simp add: unique_assignments_def map_upd_rows)
  have keep: "assigned_sessions g (update_session sid ?pin ?db1) = assigned_sessions g db" if g: "g \<notin> {as_GatewayID a, gid}" for g
  proof (rule assigned_sessions_cong)
    show "of_gateway g (update_session sid ?pin ?db1) = of_gateway g db"
      unfolding of_gateway_def using g owner_unique[OF assms(2) a] by (auto intro!: filter_upd_rows)
    fix x assume "x \<in> set (of_gateway g db)"
    then have "as_SessionID x \<noteq> sid" using owner_unique[OF assms(2) a] g by (auto simp: of_gateway_def)
    then have "session_rows (update_session sid ?pin ?db1) x = session_rows ?db1 x" by (intro session_rows_update) simp_all
    then show "session_rows (update_session sid ?pin ?db1) x = session_rows db x" by (simp add: session_rows_def)
  qed
  have "advances {as_GatewayID a, gid} db (advance_revisions {as_GatewayID a, gid} t (update_session sid ?pin ?db1))"
    by (rule advancesI) (use ua keep in \<open>simp_all add: unique_assignments_def\<close>)
  with d show ?thesis using advances_none[OF assms(2)] by blast
qed

lemma Assign_advances:
  assumes "Assign f sid gid t db = (db', q)" "unique_assignments db"
  shows "\<exists>gids. advances gids db db'"
proof -
  let ?db1 = "db\<lparr>rg_assignments := rg_assignments db @ [\<lparr>as_SessionID = sid, as_GatewayID = gid, as_Epoch = 1,
      as_CreatedAt = t, as_UpdatedAt = t\<rparr>]\<rparr>"
  have "db' = db \<or> (\<forall>a\<in>set (rg_assignments db). as_SessionID a \<noteq> sid) \<and> db' = advance_revisions {gid} t ?db1"
    using assms(1) by (auto simp: Assign_def assignSession_def split: if_splits option.splits sum.splits elim!: in_txE)
  moreover have "advances {gid} db (advance_revisions {gid} t ?db1)" if "\<forall>a\<in>set (rg_assignments db). as_SessionID a \<noteq> sid"
    by (rule advancesI)
      (use that assms(2) in \<open>auto simp: unique_assignments_def of_gateway_def session_rows_def intro!: assigned_sessions_cong\<close>)
  ultimately show ?thesis using advances_none[OF assms(2)] by blast
qed

lemma Unassign_advances:
  assumes "Unassign f sid t db = (db', q)" "unique_assignments db"
  shows "\<exists>gids. advances gids db db'"
proof -
  let ?db1 = "db\<lparr>rg_assignments := filter (\<lambda>x. as_SessionID x \<noteq> sid) (rg_assignments db)\<rparr>"
  have "db' = db \<or> (\<exists>a. assignment_of sid db = Some a \<and> db' = advance_revisions {as_GatewayID a} t ?db1)"
    using assms(1) by (auto simp: Unassign_def split: if_splits option.splits sum.splits elim!: in_txE)
  moreover have "advances {as_GatewayID a} db (advance_revisions {as_GatewayID a} t ?db1)" if a: "assignment_of sid db = Some a" for a
  proof (rule advancesI)
    show "unique_assignments ?db1" using assms(2) by (simp add: unique_assignments_def distinct_map_filter)
    fix g assume g: "g \<notin> {as_GatewayID a}"
    then have "of_gateway g ?db1 = of_gateway g db"
      using owner_unique[OF assms(2) a] by (auto simp: of_gateway_def intro!: filter_cong)
    then show "assigned_sessions g ?db1 = assigned_sessions g db" by (rule assigned_sessions_cong) (simp add: session_rows_def)
  qed simp
  ultimately show ?thesis using advances_none[OF assms(2)] by blast
qed

lemma awrite_advances:
  assumes "awrite db db'" "unique_assignments db"
  shows "\<exists>gids. advances gids db db'"
  using assms(1)
proof cases
  case (config f sid ar pt rm rh t q1)
  then show ?thesis using advances_none[OF assms(2)]
    by (auto simp: UpdateConfig_def split: if_splits dest: configure_advances[OF _ assms(2)])
next
  case (history f sid days t q1)
  then show ?thesis using advances_none[OF assms(2)]
    by (auto simp: UpdateHistorySyncDays_def split: if_splits dest: configure_advances[OF _ assms(2)])
next
  case (desired f sid run t q1)
  then show ?thesis by (auto simp: SetSessionDesired_def dest: configure_advances[OF _ assms(2)])
next
  case (reassign f sid gid t q3)
  then show ?thesis by (rule Reassign_advances[OF _ assms(2)])
next
  case (assign f sid gid t q3)
  then show ?thesis by (rule Assign_advances[OF _ assms(2)])
next
  case (unassign f sid t q1)
  then show ?thesis by (rule Unassign_advances[OF _ assms(2)])
qed


lemma find_upd_rows:
  assumes "\<And>r. P (g r) = P r"
  shows "find P (upd_rows Q g rs) = map_option (\<lambda>r. if Q r then g r else r) (find P rs)"
  using assms by (induction rs) auto

lemma current_revision_advances:
  assumes "advances gids db db'"
  shows "current_revision gid ep db' = map_option (\<lambda>n. if gid \<in> gids then n + 1 else n) (current_revision gid ep db)"
proof -
  from assms obtain t where g: "rg_gateways db' = upd_rows (live_in gids) (bump t) (rg_gateways db)" by (auto simp: advances_def)
  have "find (current_row gid ep) (rg_gateways db') =
      map_option (\<lambda>r. if live_in gids r then bump t r else r) (find (current_row gid ep) (rg_gateways db))"
    unfolding g by (rule find_upd_rows) (simp add: current_row_def bump_def)
  moreover have "live_in gids r \<longleftrightarrow> gid \<in> gids" if "find (current_row gid ep) (rg_gateways db) = Some r" for r
    using find_Some_in[OF that] by (simp add: current_row_def live_in_def)
  ultimately show ?thesis
    by (cases "find (current_row gid ep) (rg_gateways db)") (auto simp: current_revision_def bump_def)
qed

text \<open>While a connection is current its revision does not decrease, and while the revision stays,
  so do the assigned sessions.\<close>

definition same_or_newer :: "string \<Rightarrow> nat \<Rightarrow> registry \<Rightarrow> registry \<Rightarrow> bool" where
  "same_or_newer gid ep db db' \<longleftrightarrow>
     (case current_revision gid ep db of
        None \<Rightarrow> current_revision gid ep db' = None
      | Some n \<Rightarrow> \<exists>n'. current_revision gid ep db' = Some n' \<and> n \<le> n' \<and>
          (n' = n \<longrightarrow> assigned_sessions gid db' = assigned_sessions gid db))"

lemma same_or_newer_trans: "same_or_newer gid ep a b \<Longrightarrow> same_or_newer gid ep b c \<Longrightarrow> same_or_newer gid ep a c"
  unfolding same_or_newer_def by (cases "current_revision gid ep a") (auto intro: order_trans)

lemma awrite_same_or_newer:
  assumes "awrite db db'" "unique_assignments db"
  shows "same_or_newer gid ep db db' \<and> unique_assignments db'"
proof -
  obtain gids where a: "advances gids db db'" using awrite_advances[OF assms] by blast
  then show ?thesis using current_revision_advances[OF a, of gid ep]
    by (cases "current_revision gid ep db") (auto simp: same_or_newer_def advances_def)
qed

lemma awrites_same_or_newer:
  assumes "awrite\<^sup>*\<^sup>* db db'" "unique_assignments db"
  shows "same_or_newer gid ep db db' \<and> unique_assignments db'"
  using assms
proof (induction rule: rtranclp_induct)
  case base
  then show ?case by (cases "current_revision gid ep db") (auto simp: same_or_newer_def)
next
  case (step y z)
  then show ?case using awrite_same_or_newer[OF step.hyps(2)] same_or_newer_trans by blast
qed



section \<open>Ownership changes\<close>

lemma assignment_of_upd:
  assumes "\<And>x. as_SessionID (g x) = as_SessionID x"
  shows "find (\<lambda>a. as_SessionID a = sid) (upd_rows (\<lambda>x. as_SessionID x = sid) g xs) =
    map_option g (find (\<lambda>a. as_SessionID a = sid) xs)"
  using assms by (induction xs) auto

text \<open>Property C24. A reassignment is all or nothing: an error at any of its statements leaves the
  database as it was; a success with a new owner moves the assignment there with the next
  epoch and advances the revisions of exactly the old and the new gateway; an unchanged
  owner changes nothing.\<close>

theorem Reassign_atomic:
  assumes "Reassign f sid gid t db = (db', q)"
  shows "case q of Inl e \<Rightarrow> db' = db
    | Inr n \<Rightarrow> (\<exists>a. assignment_of sid db = Some a \<and>
        (if as_GatewayID a = gid then db' = db \<and> n = as_Epoch a
         else n = as_Epoch a + 1 \<and>
           assignment_of sid db' = Some (a\<lparr>as_GatewayID := gid, as_Epoch := n, as_UpdatedAt := t\<rparr>) \<and>
           rg_gateways db' = upd_rows (live_in {as_GatewayID a, gid}) (bump t) (rg_gateways db)))"
proof (cases q)
  case (Inl e)
  then show ?thesis using assms by (simp add: Reassign_def)
next
  case (Inr n)
  then obtain a where a: "assignment_of sid db = Some a"
    and d: "if as_GatewayID a = gid then db' = db \<and> n = as_Epoch a
      else n = as_Epoch a + 1 \<and> db' = advance_revisions {as_GatewayID a, gid} t
        (update_session sid (\<lambda>s. s\<lparr>ws_GatewayID := gid, ws_UpdatedAt := t\<rparr>)
          (db\<lparr>rg_assignments := upd_rows (\<lambda>x. as_SessionID x = sid)
             (\<lambda>x. x\<lparr>as_GatewayID := gid, as_Epoch := as_Epoch x + 1, as_UpdatedAt := t\<rparr>) (rg_assignments db)\<rparr>))"
    using assms by (auto simp: Reassign_def lock_assignment_def Let_def split: if_splits option.splits)
  then show ?thesis using Inr by (auto simp: assignment_of_def assignment_of_upd)
qed

text \<open>Unassigning a session forgets its epoch: a later assignment starts at epoch 1
  again, also with another owner and however large the epoch was.\<close>

theorem assignment_epoch_restarts:
  assumes "unique_assignments db" "assignment_of sid db = Some a" "Unassign no_faults sid t db = (db1, Inr ())" "eligible gid db1"
  shows "snd (Assign no_faults sid gid t' db1) = Inr 1"
proof -
  have "rg_assignments db1 = filter (\<lambda>x. as_SessionID x \<noteq> sid) (rg_assignments db)"
    using assms(2,3) by (auto simp: Unassign_def split: if_splits)
  then have n: "\<forall>x\<in>set (rg_assignments db1). as_SessionID x \<noteq> sid" by simp
  then have "assignment_of sid db1 = None" by (auto simp: assignment_of_def find_None_iff)
  then show ?thesis using assms(4) n by (auto simp: Assign_def assignSession_def)
qed

section \<open>Witnesses\<close>

lemma demo_snapshot:
  "\<exists>out. DesiredStateForEpoch no_faults (\<lambda>_ d. d) \<lparr>cn_GatewayID = ''g1'', cn_Epoch = 0\<rparr> 0 99 demo_db = (demo_db, Inr (Some out))"
  by (simp add: DesiredStateForEpoch_def Let_def current_revision_def current_row_def administered_def demo_registry)


lemma demo_move: "snd (Reassign no_faults ''s'' ''g2'' 9 demo_db) = Inr 5"
  by code_simp

theorem Reassign_atomic_witness:
  "assignment_of ''s'' (fst (Reassign no_faults ''s'' ''g2'' 9 demo_db)) =
    Some (demo_asg\<lparr>as_GatewayID := ''g2'', as_Epoch := 5, as_UpdatedAt := 9\<rparr>)"
  using Reassign_atomic[OF prod.collapse[symmetric], of no_faults "''s''" "''g2''" 9 demo_db] demo_move
  by (auto simp: assignment_of_def demo_db_def demo_asg_def split: if_splits)

theorem assignment_epoch_restarts_witness:
  "snd (Assign no_faults ''s'' ''g2'' 11 (fst (Unassign no_faults ''s'' 9 demo_db))) = Inr 1"
proof -
  have u: "Unassign no_faults ''s'' 9 demo_db = (fst (Unassign no_faults ''s'' 9 demo_db), Inr ())" by code_simp
  have "eligible ''g2'' (fst (Unassign no_faults ''s'' 9 demo_db))" by code_simp
  moreover have "assignment_of ''s'' demo_db = Some demo_asg" by (simp add: assignment_of_def demo_db_def demo_asg_def)
  ultimately show ?thesis using assignment_epoch_restarts[OF demo_unique(2) _ u] by blast
qed

section \<open>Placement and routing\<close>

text \<open>Placement picks the least loaded gateway: the answer is an active, healthy
  gateway with headroom, no other such gateway has fewer sessions, or as many and a fresher
  heartbeat; and the call reports not found exactly when there is none.\<close>

theorem PickForPlacement_least_loaded:
  "case PickForPlacement None db of
     Inl e \<Rightarrow> e = ErrNotFound ''placement gateway not found'' \<and> (\<forall>r\<in>set (rg_gateways db). \<not> placeable r)
   | Inr g \<Rightarrow> g \<in> set (rg_gateways db) \<and> placeable g \<and>
       (\<forall>r\<in>set (rg_gateways db). placeable r \<longrightarrow> placement_key g \<le> placement_key r)"
proof (cases "sort_key placement_key (filter placeable (rg_gateways db))")
  case Nil
  then have "filter placeable (rg_gateways db) = []" by (metis length_0_conv length_sort)
  with Nil show ?thesis by (auto simp: PickForPlacement_def select_rows_def notFound_def filter_empty_conv)
next
  case (Cons g gs)
  have srt: "sorted (map placement_key (g # gs))" and st: "set (g # gs) = {r \<in> set (rg_gateways db). placeable r}"
    using sorted_sort_key[of placement_key "filter placeable (rg_gateways db)"]
      set_sort[of placement_key "filter placeable (rg_gateways db)"] unfolding Cons by auto
  have "placement_key g \<le> placement_key r" if "r \<in> set (rg_gateways db)" "placeable r" for r
    using srt that st by (cases "r = g") auto
  then show ?thesis using st by (auto simp: PickForPlacement_def select_rows_def Cons)
qed

theorem PickForPlacement_least_loaded_witness:
  "PickForPlacement None demo_db = Inr (demo_gw ''g1'') \<and> placeable (demo_gw ''g1'')"
proof -
  have "PickForPlacement None demo_db = Inr (demo_gw ''g1'')" by code_simp
  with PickForPlacement_least_loaded[of demo_db] show ?thesis by simp
qed

text \<open>A command is routed to the gateway that owns the session now, under its current epochs.\<close>

lemma ResolveSessionEngineTarget_current:
  assumes "ResolveSessionEngineTarget None org sid db = Inr e"
  shows "\<exists>s\<in>set (rg_sessions db). \<exists>a\<in>set (rg_assignments db). \<exists>g\<in>set (rg_gateways db).
    ws_ID s = sid \<and> ws_OrganizationID s = org \<and> as_SessionID a = sid \<and> gw_ID g = as_GatewayID a \<and> routable g \<and>
    et_GatewayID e = gw_ID g \<and> et_AssignmentEpoch e = as_Epoch a \<and> et_ConnectionEpoch e = gw_ConnectionEpoch g"
proof -
  let ?l = "[(s, a, g). s \<leftarrow> rg_sessions db, ws_ID s = sid \<and> ws_OrganizationID s = org,
                            a \<leftarrow> rg_assignments db, as_SessionID a = ws_ID s,
                            g \<leftarrow> rg_gateways db, gw_ID g = as_GatewayID a \<and> routable g]"
  from assms obtain s a g r where l: "?l = (s, a, g) # r" and e: "et_GatewayID e = as_GatewayID a" "et_AssignmentEpoch e = as_Epoch a"
    "et_ConnectionEpoch e = gw_ConnectionEpoch g"
    by (auto simp: ResolveSessionEngineTarget_def split: list.splits)
  have "(s, a, g) \<in> set ?l" unfolding l by simp
  with e show ?thesis by (auto split: if_splits) fastforce
qed

end
