(* ===== verification/Reconciliation.thy ===== *)
theory Reconciliation
  imports Ownership
begin

text \<open>
  Reconciliation reports (src/backend/internal/store/gateway_reconciliation.go): \<open>Persist\<close>
  replaces what is known of one gateway's devices and assignments by a report, in one transaction
  that first checks the report against the assignments of the moment. The calls are numbered in
  order, \<open>BeginTx\<close> being call 0. The table \<open>gateway_reconciliation_results\<close> is that of
  migrations/0010; its surrogate key is left out.
\<close>

section \<open>Reports and the table of results\<close>

record report_result =
  gr_SessionID :: "string option"
  gr_AssignmentEpoch :: nat
  gr_DeviceJID :: string
  gr_Status :: string

record reconciliation_report =
  rp_GatewayID :: string
  rp_Epoch :: nat
  rp_Revision :: nat
  rp_KeystoreState :: string
  rp_KeystoreBytes :: "int option"
  rp_CheckedAt :: "int option"
  rp_Results :: "report_result list"
  rp_LocalDevices :: "string list"

record result_row =
  rw_GatewayID :: string
  rw_DeviceJID :: "string option"
  rw_SessionID :: "string option"
  rw_AssignmentEpoch :: nat
  rw_Status :: string
  rw_DesiredRevision :: nat
  rw_UpdatedAt :: int

record recon_db =
  qd_registry :: registry
  qd_results :: "result_row list"

definition result_statuses :: "string list" where
  "result_statuses = [''applied'', ''keystore_missing'', ''keystore_corrupt'', ''unexpected_local_device'']"

definition result_shape :: "result_row \<Rightarrow> bool" where
  "result_shape w \<longleftrightarrow> (if rw_Status w = ''unexpected_local_device'' then rw_SessionID w = None \<and> rw_AssignmentEpoch w = 0
                    else rw_SessionID w \<noteq> None \<and> rw_AssignmentEpoch w > 0)"

text \<open>A NULL never repeats a value of a unique key.\<close>

definition repeats :: "'a option \<Rightarrow> 'a option list \<Rightarrow> bool" where
  "repeats x ys \<longleftrightarrow> x \<noteq> None \<and> x \<in> set ys"

definition insert_result :: "result_row \<Rightarrow> recon_db \<Rightarrow> recon_db result" where
  "insert_result w db =
     (let own = filter (\<lambda>x. rw_GatewayID x = rw_GatewayID w) (qd_results db) in
      if rw_Status w \<notin> set result_statuses then Inl (SQLError 1265 ''Data truncated for column 'status' at row 1'')
      else if \<not> result_shape w then Inl (SQLError 3819 ''Check constraint 'chk_gateway_reconciliation_result_shape' is violated.'')
      else if repeats (rw_SessionID w) (map rw_SessionID own) \<or> repeats (rw_DeviceJID w) (map rw_DeviceJID own)
      then Inl (SQLError 1062 ''Duplicate entry'')
      else if (case rw_SessionID w of None \<Rightarrow> False | Some s \<Rightarrow> s \<notin> ws_ID ` set (rg_sessions (qd_registry db)))
      then Inl (SQLError 1452 ''Cannot add or update a child row: a foreign key constraint fails'')
      else Inr (db\<lparr>qd_results := qd_results db @ [w]\<rparr>))"

section \<open>The check of a report\<close>

text \<open>The assignments that were locked: the device and whether it should run, by session.\<close>

definition locked_assignments :: "string \<Rightarrow> registry \<Rightarrow> (string \<rightharpoonup> string \<times> bool)" where
  "locked_assignments gid db =
     map_of (rev (map (\<lambda>(a, s). (as_SessionID a, jid_text (ws_WaJID s), desired_run s)) (assigned_sessions gid db)))"

text \<open>\<open>SELECT COUNT(*)\<close> of the assignment with its epoch and device. \<open>s.wa_jid=?\<close> is not true of NULL.\<close>

definition assignment_count :: "string \<Rightarrow> string \<Rightarrow> nat \<Rightarrow> string \<Rightarrow> registry \<Rightarrow> nat" where
  "assignment_count gid sid epoch device db =
     length (filter (\<lambda>(a, s). as_SessionID a = sid \<and> as_Epoch a = epoch \<and>
       ((ws_WaJID s = None \<and> device = []) \<or> ws_WaJID s = Some device)) (assigned_sessions gid db))"

record tally =
  ty_seen :: "string set"
  ty_classified :: "string set"
  ty_degraded :: bool

text \<open>The loop over the results; \<open>i\<close> is the number of the next call.\<close>

fun check_results :: "faults \<Rightarrow> nat \<Rightarrow> string \<Rightarrow> (string \<rightharpoonup> string \<times> bool) \<Rightarrow> string set \<Rightarrow> registry \<Rightarrow> report_result list \<Rightarrow> tally
    \<Rightarrow> (nat \<times> tally) result" where
  "check_results f i gid assigned inventory db [] t = Inr (i, t)"
| "check_results f i gid assigned inventory db (r # rs) t =
     (if gr_Status r = ''unexpected_local_device'' then
        (if gr_SessionID r \<noteq> None \<or> gr_AssignmentEpoch r \<noteq> 0 \<or> gr_DeviceJID r = [] \<or> gr_DeviceJID r \<notin> inventory
         then Inl (Plain ''unexpected device result has assignment'')
         else check_results f i gid assigned inventory db rs
           (t\<lparr>ty_classified := insert (gr_DeviceJID r) (ty_classified t), ty_degraded := True\<rparr>))
      else case gr_SessionID r of
        None \<Rightarrow> Inl (Plain ''invalid assigned reconciliation result'')
      | Some sid \<Rightarrow>
          if gr_AssignmentEpoch r = 0 \<or> sid \<in> ty_seen t then Inl (Plain ''invalid assigned reconciliation result'')
          else (case assigned sid of
            None \<Rightarrow> Inl (Plain ''assigned result device fence'')
          | Some (device, run) \<Rightarrow>
              if device \<noteq> gr_DeviceJID r then Inl (Plain ''assigned result device fence'')
              else if gr_Status r = ''applied'' \<and> run \<and> (gr_DeviceJID r = [] \<or> gr_DeviceJID r \<notin> inventory)
              then Inl (Plain ''running applied device absent from inventory'')
              else if gr_Status r = ''keystore_missing'' \<and> gr_DeviceJID r \<noteq> [] \<and> gr_DeviceJID r \<in> inventory
              then Inl (Plain ''missing device present in inventory'')
              else if f i \<noteq> None \<or> assignment_count gid sid (gr_AssignmentEpoch r) (gr_DeviceJID r) db \<noteq> 1
              then Inl (Plain ''assigned reconciliation result fence'')
              else check_results f (i + 1) gid assigned inventory db rs
                (t\<lparr>ty_classified := (if gr_DeviceJID r \<noteq> [] then insert (gr_DeviceJID r) (ty_classified t) else ty_classified t),
                   ty_seen := insert sid (ty_seen t), ty_degraded := (ty_degraded t \<or> gr_Status r \<noteq> ''applied'')\<rparr>)))"

section \<open>Persist\<close>

definition result_row_of :: "reconciliation_report \<Rightarrow> int \<Rightarrow> report_result \<Rightarrow> result_row" where
  "result_row_of report atMs r =
     \<lparr>rw_GatewayID = rp_GatewayID report, rw_DeviceJID = (if gr_DeviceJID r = [] then None else Some (gr_DeviceJID r)),
      rw_SessionID = gr_SessionID r, rw_AssignmentEpoch = gr_AssignmentEpoch r, rw_Status = gr_Status r,
      rw_DesiredRevision = rp_Revision report, rw_UpdatedAt = atMs\<rparr>"

fun insert_results :: "faults \<Rightarrow> nat \<Rightarrow> reconciliation_report \<Rightarrow> int \<Rightarrow> report_result list \<Rightarrow> recon_db \<Rightarrow> (nat \<times> recon_db) result" where
  "insert_results f i report atMs [] db = Inr (i, db)"
| "insert_results f i report atMs (r # rs) db =
     call (f i) (bindr (insert_result (result_row_of report atMs r) db) (insert_results f (i + 1) report atMs rs))"

text \<open>The last write: both health columns and the applied revision, under the same fence.\<close>

definition fenced_gateway :: "reconciliation_report \<Rightarrow> gateway_row \<Rightarrow> bool" where
  "fenced_gateway report g \<longleftrightarrow> gw_ID g = rp_GatewayID report \<and> gw_ConnectionEpoch g = rp_Epoch report \<and> gw_DesiredRevision g = rp_Revision report"

definition record_health :: "reconciliation_report \<Rightarrow> bool \<Rightarrow> int \<Rightarrow> gateway_row \<Rightarrow> gateway_row" where
  "record_health report degraded atMs g =
     g\<lparr>gw_ReconciliationStatus := (if degraded then ReconDegraded else ReconHealthy),
       gw_KeystorePresent := Some (rp_KeystoreState report \<noteq> ''missing''), gw_KeystoreBytes := rp_KeystoreBytes report,
       gw_KeystoreIntegrity := Some (rp_KeystoreState report), gw_KeystoreCheckedAt := rp_CheckedAt report,
       gw_AppliedRevision := rp_Revision report, gw_UpdatedAt := atMs\<rparr>"

definition write_report :: "faults \<Rightarrow> nat \<Rightarrow> reconciliation_report \<Rightarrow> bool \<Rightarrow> int \<Rightarrow> recon_db \<Rightarrow> (recon_db \<times> unit) result" where
  "write_report f i report degraded atMs db =
     call (f i)
     (bindr (insert_results f (i + 1) report atMs (rp_Results report)
        (db\<lparr>qd_results := filter (\<lambda>w. rw_GatewayID w \<noteq> rp_GatewayID report) (qd_results db)\<rparr>)) (\<lambda>(j, db').
      if rp_KeystoreState report \<notin> {''healthy'', ''missing'', ''corrupt''}
      then Inl (case f j of Some e \<Rightarrow> e | None \<Rightarrow> SQLError 1265 ''Data truncated for column 'keystore_integrity' at row 1'')
      else case update_gateways (f j) (fenced_gateway report) (record_health report degraded atMs) (qd_registry db') of
        (reg, Inl e) \<Rightarrow> Inl e
      | (reg, Inr n) \<Rightarrow>
          if n \<noteq> 1 then Inl (Plain ''reconciliation update fence'')
          else call (f (j + 1)) (Inr (db'\<lparr>qd_registry := reg\<rparr>, ()))))"

definition Persist :: "faults \<Rightarrow> reconciliation_report \<Rightarrow> int \<Rightarrow> recon_db \<Rightarrow> recon_db \<times> unit result" where
  "Persist f report atMs db = in_tx db
     (let reg = qd_registry db; inventory = set (rp_LocalDevices report) in
      call (f 0)
      (case call (f 1) (case find (\<lambda>g. gw_ID g = rp_GatewayID report \<and> gw_ConnectionEpoch g = rp_Epoch report \<and> gw_DeletedAt g = None)
          (rg_gateways reg) of None \<Rightarrow> Inl ErrNoRows | Some g \<Rightarrow> Inr (gw_DesiredRevision g)) of
         Inl e \<Rightarrow> Inl (Wrapped ''reconciliation fence'' e)
       | Inr desired \<Rightarrow>
           if desired \<noteq> rp_Revision report then Inl (Plain ''reconciliation revision fence'')
           else call (f 2) (call (f 3)
             (let assigned = locked_assignments (rp_GatewayID report) reg in
              if [] \<in> inventory \<or> \<not> distinct (rp_LocalDevices report) then Inl (Plain ''invalid local inventory'')
              else bindr (check_results f 4 (rp_GatewayID report) assigned inventory reg (rp_Results report)
                  \<lparr>ty_seen = {}, ty_classified = {}, ty_degraded = (rp_KeystoreState report \<noteq> ''healthy'')\<rparr>) (\<lambda>(i, t).
                if \<not> (as_SessionID \<circ> fst) ` set (assigned_sessions (rp_GatewayID report) reg) \<subseteq> ty_seen t then Inl (Plain ''missing assignment result'')
                else if \<not> inventory \<subseteq> ty_classified t then Inl (Plain ''unclassified inventory device'')
                else write_report f i report (ty_degraded t) atMs db)))))"

section \<open>What an accepted report says\<close>

text \<open>What the loop demands of one result.\<close>

definition result_fits :: "string \<Rightarrow> (string \<rightharpoonup> string \<times> bool) \<Rightarrow> string set \<Rightarrow> registry \<Rightarrow> report_result \<Rightarrow> bool" where
  "result_fits gid assigned inventory db r \<longleftrightarrow>
     (case gr_SessionID r of
        None \<Rightarrow> gr_Status r = ''unexpected_local_device'' \<and> gr_DeviceJID r \<in> inventory
      | Some sid \<Rightarrow> gr_Status r \<noteq> ''unexpected_local_device'' \<and>
          assignment_count gid sid (gr_AssignmentEpoch r) (gr_DeviceJID r) db = 1 \<and>
          (\<exists>run. assigned sid = Some (gr_DeviceJID r, run) \<and> (gr_Status r = ''applied'' \<longrightarrow> run \<longrightarrow> gr_DeviceJID r \<in> inventory)))"

lemma check_results_ok:
  assumes "check_results f i gid assigned inventory db rs t = Inr (j, t')"
  shows "(\<forall>r\<in>set rs. result_fits gid assigned inventory db r) \<and>
    ty_seen t' = ty_seen t \<union> {sid. Some sid \<in> gr_SessionID ` set rs} \<and>
    ty_classified t' \<subseteq> ty_classified t \<union> gr_DeviceJID ` set rs \<and>
    ty_degraded t' = (ty_degraded t \<or> (\<exists>r\<in>set rs. gr_Status r \<noteq> ''applied''))"
  using assms
proof (induction rs arbitrary: i t)
  case (Cons r rs)
  show ?case
  proof (cases "gr_SessionID r")
    case None
    with Cons.prems have c: "gr_Status r = ''unexpected_local_device''" "gr_DeviceJID r \<in> inventory"
      "check_results f i gid assigned inventory db rs
         (t\<lparr>ty_classified := insert (gr_DeviceJID r) (ty_classified t), ty_degraded := True\<rparr>) = Inr (j, t')"
      by (auto split: if_splits)
    show ?thesis using Cons.IH[OF c(3)] c(1,2) None by (auto simp: result_fits_def)
  next
    case (Some sid)
    with Cons.prems obtain run where c: "gr_Status r \<noteq> ''unexpected_local_device''" "assigned sid = Some (gr_DeviceJID r, run)"
      "gr_Status r = ''applied'' \<longrightarrow> run \<longrightarrow> gr_DeviceJID r \<in> inventory"
      "assignment_count gid sid (gr_AssignmentEpoch r) (gr_DeviceJID r) db = 1"
      and rest: "check_results f (i + 1) gid assigned inventory db rs
         (t\<lparr>ty_classified := (if gr_DeviceJID r \<noteq> [] then insert (gr_DeviceJID r) (ty_classified t) else ty_classified t),
            ty_seen := insert sid (ty_seen t), ty_degraded := (ty_degraded t \<or> gr_Status r \<noteq> ''applied'')\<rparr>) = Inr (j, t')"
      by (auto split: if_splits option.splits)
    show ?thesis using Cons.IH[OF rest] c Some by (auto simp: result_fits_def split: if_splits)
  qed
qed simp

lemma insert_results_ok:
  "insert_results f i report atMs rs db = Inr (j, db') \<Longrightarrow>
     db' = db\<lparr>qd_results := qd_results db @ map (result_row_of report atMs) rs\<rparr>"
proof (induction rs arbitrary: i db)
  case (Cons r rs)
  then obtain d where "insert_result (result_row_of report atMs r) db = Inr d"
    "insert_results f (i + 1) report atMs rs d = Inr (j, db')"
    by (cases "f i"; cases "insert_result (result_row_of report atMs r) db") auto
  then show ?case using Cons.IH[of "i + 1" d] by (auto simp: insert_result_def Let_def split: if_splits)
qed simp

lemma Persist_ok:
  assumes "Persist f report atMs db = (db', Inr ())"
  obtains g i t where "g \<in> set (rg_gateways (qd_registry db))" "gw_ID g = rp_GatewayID report" "gw_ConnectionEpoch g = rp_Epoch report"
    "gw_DeletedAt g = None" "gw_DesiredRevision g = rp_Revision report"
    "check_results f 4 (rp_GatewayID report) (locked_assignments (rp_GatewayID report) (qd_registry db)) (set (rp_LocalDevices report))
       (qd_registry db) (rp_Results report) \<lparr>ty_seen = {}, ty_classified = {}, ty_degraded = (rp_KeystoreState report \<noteq> ''healthy'')\<rparr> = Inr (i, t)"
    "(as_SessionID \<circ> fst) ` set (assigned_sessions (rp_GatewayID report) (qd_registry db)) \<subseteq> ty_seen t"
    "set (rp_LocalDevices report) \<subseteq> ty_classified t" "write_report f i report (ty_degraded t) atMs db = Inr (db', ())"
proof -
  let ?P = "\<lambda>g. gw_ID g = rp_GatewayID report \<and> gw_ConnectionEpoch g = rp_Epoch report \<and> gw_DeletedAt g = None"
  have n: "f 0 = None" "f 1 = None" "f 2 = None" "f 3 = None"
    using assms by (auto simp: Persist_def in_tx_def Let_def split: sum.splits if_splits)
  obtain g where g: "find ?P (rg_gateways (qd_registry db)) = Some g"
    using assms n by (auto simp: Persist_def in_tx_def Let_def split: sum.splits option.splits)
  show ?thesis
    using assms n g find_Some_in[OF g] that[of g]
    by (auto simp: Persist_def in_tx_def Let_def split: sum.splits if_splits elim!: bindr.elims)
qed

lemma write_report_ok:
  assumes "write_report f i report degraded atMs db = Inr (db', ())"
  shows "qd_results db' = filter (\<lambda>w. rw_GatewayID w \<noteq> rp_GatewayID report) (qd_results db) @ map (result_row_of report atMs) (rp_Results report) \<and>
    qd_registry db' = (qd_registry db)\<lparr>rg_gateways :=
      upd_rows (fenced_gateway report) (record_health report degraded atMs) (rg_gateways (qd_registry db))\<rparr>"
proof -
  have "f i = None" using assms by (cases "f i") (auto simp: write_report_def)
  with assms obtain j d where "insert_results f (i + 1) report atMs (rp_Results report)
      (db\<lparr>qd_results := filter (\<lambda>w. rw_GatewayID w \<noteq> rp_GatewayID report) (qd_results db)\<rparr>) = Inr (j, d)"
    and "(case update_gateways (f j) (fenced_gateway report) (record_health report degraded atMs) (qd_registry d) of
        (reg, Inl e) \<Rightarrow> Inl e
      | (reg, Inr n) \<Rightarrow> if n \<noteq> 1 then Inl (Plain ''reconciliation update fence'') else call (f (j + 1)) (Inr (d\<lparr>qd_registry := reg\<rparr>, ()))) = Inr (db', ())"
    by (auto simp: write_report_def elim!: bindr.elims split: if_splits)
  then show ?thesis
    by (cases "f (j + 1)") (auto dest!: insert_results_ok simp: update_gateways_def split: option.splits if_splits)
qed

lemma locked_run:
  assumes "locked_assignments gid db sid = Some (device, run)"
  obtains a s where "(a, s) \<in> set (assigned_sessions gid db)" "as_SessionID a = sid" "device = jid_text (ws_WaJID s)" "run = desired_run s"
  using map_of_SomeD[OF assms[unfolded locked_assignments_def]] by auto

lemma assigned_pair:
  assumes "unique_assignments db" "distinct (map ws_ID (rg_sessions db))"
    and "(a, s) \<in> set (assigned_sessions gid db)" "(a', s') \<in> set (assigned_sessions gid db)" "as_SessionID a = as_SessionID a'"
  shows "a = a' \<and> s = s'"
  using assms by (auto simp: assigned_sessions_def unique_assignments_def distinct_map inj_on_def)

lemma counted_pair:
  assumes "assignment_count gid sid epoch device db = 1"
  obtains a s where "(a, s) \<in> set (assigned_sessions gid db)" "as_SessionID a = sid" "as_Epoch a = epoch" "jid_text (ws_WaJID s) = device"
proof -
  let ?l = "filter (\<lambda>(a, s). as_SessionID a = sid \<and> as_Epoch a = epoch \<and>
       ((ws_WaJID s = None \<and> device = []) \<or> ws_WaJID s = Some device)) (assigned_sessions gid db)"
  have "?l \<noteq> []" using assms unfolding assignment_count_def by (metis list.size(3) zero_neq_one)
  then have l: "hd ?l \<in> set ?l" by (rule hd_in_set)
  obtain a s where "hd ?l = (a, s)" by (cases "hd ?l")
  with l have "(a, s) \<in> set ?l" by (simp only:)
  then show ?thesis by (intro that[of a s]) (auto simp: jid_text_def)
qed

definition healthy_report :: "reconciliation_report \<Rightarrow> bool" where
  "healthy_report report \<longleftrightarrow> rp_KeystoreState report = ''healthy'' \<and> (\<forall>x\<in>set (rp_Results report). gr_Status x = ''applied'')"

text \<open>Property C19. An accepted report is of the gateway's current connection and desired revision. Its results
  name exactly the sessions assigned to the gateway at that moment, with their epochs and devices, and every local device
  is classified. It replaces the stored results of the gateway and touches nothing else but the gateway's
  health columns, and the gateway becomes healthy exactly when the keystore is healthy and every result is
  \<open>applied\<close>: then the device of every session that should run is in the inventory. A refused report changes nothing.\<close>

theorem report_replaces_view:
  assumes "unique_assignments (qd_registry db)" "distinct (map ws_ID (rg_sessions (qd_registry db)))"
    and "Persist f report atMs db = (db', r)"
  shows "case r of Inl e \<Rightarrow> db' = db
    | Inr _ \<Rightarrow>
       (\<exists>g\<in>set (rg_gateways (qd_registry db)). gw_ID g = rp_GatewayID report \<and> gw_ConnectionEpoch g = rp_Epoch report \<and>
          gw_DeletedAt g = None \<and> gw_DesiredRevision g = rp_Revision report) \<and>
       {(sid, gr_AssignmentEpoch x, gr_DeviceJID x) | sid x. x \<in> set (rp_Results report) \<and> gr_SessionID x = Some sid} =
         (\<lambda>(a, s). (as_SessionID a, as_Epoch a, jid_text (ws_WaJID s))) ` set (assigned_sessions (rp_GatewayID report) (qd_registry db)) \<and>
       set (rp_LocalDevices report) \<subseteq> gr_DeviceJID ` set (rp_Results report) \<and>
       qd_results db' = filter (\<lambda>w. rw_GatewayID w \<noteq> rp_GatewayID report) (qd_results db) @ map (result_row_of report atMs) (rp_Results report) \<and>
       qd_registry db' = (qd_registry db)\<lparr>rg_gateways :=
         upd_rows (fenced_gateway report) (record_health report (\<not> healthy_report report) atMs) (rg_gateways (qd_registry db))\<rparr> \<and>
       (healthy_report report \<longrightarrow> (\<forall>(a, s)\<in>set (assigned_sessions (rp_GatewayID report) (qd_registry db)). desired_run s \<longrightarrow>
          jid_text (ws_WaJID s) \<in> set (rp_LocalDevices report)))"
proof (cases r)
  case (Inl e)
  then show ?thesis using assms(3) by (auto simp: Persist_def in_tx_def Let_def split: sum.splits)
next
  case (Inr u)
  let ?reg = "qd_registry db" and ?gid = "rp_GatewayID report"
  let ?asg = "set (assigned_sessions ?gid ?reg)"
  from Inr assms(3) have p: "Persist f report atMs db = (db', Inr ())" by simp
  obtain g i t where g: "g \<in> set (rg_gateways ?reg)" "gw_ID g = ?gid" "gw_ConnectionEpoch g = rp_Epoch report" "gw_DeletedAt g = None"
      "gw_DesiredRevision g = rp_Revision report"
    and c: "check_results f 4 ?gid (locked_assignments ?gid ?reg) (set (rp_LocalDevices report)) ?reg (rp_Results report)
        \<lparr>ty_seen = {}, ty_classified = {}, ty_degraded = (rp_KeystoreState report \<noteq> ''healthy'')\<rparr> = Inr (i, t)"
    and seen: "(as_SessionID \<circ> fst) ` ?asg \<subseteq> ty_seen t" and cl: "set (rp_LocalDevices report) \<subseteq> ty_classified t"
    and w: "write_report f i report (ty_degraded t) atMs db = Inr (db', ())"
    by (rule Persist_ok[OF p])
  have ck: "\<forall>x\<in>set (rp_Results report). result_fits ?gid (locked_assignments ?gid ?reg) (set (rp_LocalDevices report)) ?reg x"
    and sn: "ty_seen t = {sid. Some sid \<in> gr_SessionID ` set (rp_Results report)}"
    and cs: "ty_classified t \<subseteq> gr_DeviceJID ` set (rp_Results report)"
    and dg: "ty_degraded t = (rp_KeystoreState report \<noteq> ''healthy'' \<or> (\<exists>x\<in>set (rp_Results report). gr_Status x \<noteq> ''applied''))"
    using check_results_ok[OF c] by simp_all
  have fits: "\<exists>s a. (a, s) \<in> ?asg \<and> as_SessionID a = sid \<and> as_Epoch a = gr_AssignmentEpoch x \<and> jid_text (ws_WaJID s) = gr_DeviceJID x \<and>
      (gr_Status x = ''applied'' \<longrightarrow> desired_run s \<longrightarrow> gr_DeviceJID x \<in> set (rp_LocalDevices report))"
    if x: "x \<in> set (rp_Results report)" "gr_SessionID x = Some sid" for x sid
  proof -
    have "result_fits ?gid (locked_assignments ?gid ?reg) (set (rp_LocalDevices report)) ?reg x" using ck x(1) by blast
    with x(2) obtain run where "assignment_count ?gid sid (gr_AssignmentEpoch x) (gr_DeviceJID x) ?reg = 1"
      and l: "locked_assignments ?gid ?reg sid = Some (gr_DeviceJID x, run)"
      and ap: "gr_Status x = ''applied'' \<longrightarrow> run \<longrightarrow> gr_DeviceJID x \<in> set (rp_LocalDevices report)"
      unfolding result_fits_def by auto
    from this(1) obtain a s where as: "(a, s) \<in> ?asg" "as_SessionID a = sid" "as_Epoch a = gr_AssignmentEpoch x" "jid_text (ws_WaJID s) = gr_DeviceJID x"
      by (rule counted_pair)
    from l obtain a' s' where "(a', s') \<in> ?asg" "as_SessionID a' = sid" "run = desired_run s'" by (rule locked_run)
    with assigned_pair[OF assms(1,2), of a s ?gid a' s'] as have "run = desired_run s" by simp
    with as ap show ?thesis by blast
  qed
  have all: "\<exists>x\<in>set (rp_Results report). gr_SessionID x = Some (as_SessionID a) \<and> gr_AssignmentEpoch x = as_Epoch a \<and>
      gr_DeviceJID x = jid_text (ws_WaJID s) \<and> (gr_Status x = ''applied'' \<longrightarrow> desired_run s \<longrightarrow> gr_DeviceJID x \<in> set (rp_LocalDevices report))"
    if as: "(a, s) \<in> ?asg" for a s
  proof -
    have "as_SessionID a \<in> ty_seen t" using seen as by force
    with sn obtain x where x: "x \<in> set (rp_Results report)" "gr_SessionID x = Some (as_SessionID a)" by force
    from fits[OF this] assigned_pair[OF assms(1,2) as] x show ?thesis by fastforce
  qed
  have "{(sid, gr_AssignmentEpoch x, gr_DeviceJID x) | sid x. x \<in> set (rp_Results report) \<and> gr_SessionID x = Some sid} =
      (\<lambda>(a, s). (as_SessionID a, as_Epoch a, jid_text (ws_WaJID s))) ` ?asg"
    (is "?L = ?R")
  proof (intro set_eqI iffI)
    fix y assume "y \<in> ?L"
    then obtain sid x where y: "y = (sid, gr_AssignmentEpoch x, gr_DeviceJID x)" and x: "x \<in> set (rp_Results report)" "gr_SessionID x = Some sid" by blast
    from fits[OF x] y show "y \<in> ?R" by force
  next
    fix y assume "y \<in> ?R"
    then obtain a s where "(a, s) \<in> ?asg" and y: "y = (as_SessionID a, as_Epoch a, jid_text (ws_WaJID s))" by auto
    from all[OF this(1)] y show "y \<in> ?L" by force
  qed
  moreover have "set (rp_LocalDevices report) \<subseteq> gr_DeviceJID ` set (rp_Results report)" using cs cl by auto
  moreover have deg: "ty_degraded t = (\<not> healthy_report report)" using dg by (auto simp: healthy_report_def)
  moreover have "healthy_report report \<longrightarrow> (\<forall>(a, s)\<in>?asg. desired_run s \<longrightarrow> jid_text (ws_WaJID s) \<in> set (rp_LocalDevices report))"
    using all by (fastforce simp: healthy_report_def)
  ultimately show ?thesis using Inr g write_report_ok[OF w[unfolded deg]] by auto
qed

text \<open>The same in a concrete registry: a healthy report of the one assigned session.\<close>

definition demo_report :: reconciliation_report where
  "demo_report = \<lparr>rp_GatewayID = ''g1'', rp_Epoch = 0, rp_Revision = 0, rp_KeystoreState = ''healthy'', rp_KeystoreBytes = Some 4096,
     rp_CheckedAt = None, rp_Results = [\<lparr>gr_SessionID = Some ''s'', gr_AssignmentEpoch = 4, gr_DeviceJID = ''628'', gr_Status = ''applied''\<rparr>],
     rp_LocalDevices = [''628'']\<rparr>"

theorem report_replaces_view_witness:
  "\<exists>db'. Persist no_faults demo_report 9 \<lparr>qd_registry = demo_db, qd_results = []\<rparr> = (db', Inr ()) \<and>
     qd_results db' = map (result_row_of demo_report 9) (rp_Results demo_report)"
proof -
  let ?db = "\<lparr>qd_registry = demo_db, qd_results = []\<rparr>"
  have ok: "snd (Persist no_faults demo_report 9 ?db) = Inr ()" by code_simp
  obtain db' where p: "Persist no_faults demo_report 9 ?db = (db', Inr ())" using ok by (cases "Persist no_faults demo_report 9 ?db") auto
  have "distinct (map ws_ID (rg_sessions (qd_registry ?db)))" "unique_assignments (qd_registry ?db)" using demo_unique by (simp_all add: demo_db_def)
  from report_replaces_view[OF this(2,1) p] p show ?thesis by auto
qed

text \<open>The gateway reports a corrupt device without a session (\<open>jidResults\<close> of desiredstate/control.go).
  Such a report is never accepted, while the column has a value for it.\<close>

theorem corrupt_device_report_refused:
  assumes "x \<in> set (rp_Results report)" "gr_SessionID x = None" "gr_Status x = ''keystore_corrupt''"
  shows "\<exists>e. Persist f report atMs db = (db, Inl e)"
proof (cases "Persist f report atMs db")
  case (Pair db' r)
  show ?thesis
  proof (cases r)
    case (Inl e)
    then show ?thesis using Pair by (auto simp: Persist_def in_tx_def Let_def split: sum.splits)
  next
    case (Inr u)
    with Pair have "Persist f report atMs db = (db', Inr ())" by simp
    from Persist_ok[OF this] obtain i t where "check_results f 4 (rp_GatewayID report) (locked_assignments (rp_GatewayID report) (qd_registry db))
        (set (rp_LocalDevices report)) (qd_registry db) (rp_Results report)
        \<lparr>ty_seen = {}, ty_classified = {}, ty_degraded = (rp_KeystoreState report \<noteq> ''healthy'')\<rparr> = Inr (i, t)" by metis
    from check_results_ok[OF this] assms show ?thesis by (auto simp: result_fits_def)
  qed
qed

theorem corrupt_device_report_refused_witness:
  "\<exists>e. Persist no_faults (demo_report\<lparr>rp_Results := [\<lparr>gr_SessionID = None, gr_AssignmentEpoch = 0, gr_DeviceJID = ''628'',
     gr_Status = ''keystore_corrupt''\<rparr>]\<rparr>) 9 \<lparr>qd_registry = demo_db, qd_results = []\<rparr> = (\<lparr>qd_registry = demo_db, qd_results = []\<rparr>, Inl e)"
  by (rule corrupt_device_report_refused[where x = "\<lparr>gr_SessionID = None, gr_AssignmentEpoch = 0, gr_DeviceJID = ''628'', gr_Status = ''keystore_corrupt''\<rparr>"])
    simp_all

end
