(* ===== verification/ControlFrames.thy ===== *)
theory ControlFrames
  imports Control_Types
begin

text \<open>
  The frames of the private control stream (src/backend/proto/gateway/v1/gateway_control.proto):
  the messages both ends of the stream read and write, and the gRPC status a stream ends with. A
  frame from the wire is never nil and neither is a message it carries, but its payload may be absent.
  A number that an enumeration does not name is handled like its unknown value by every reader; for journal
  states, where the unknown value is accepted, it is \<open>JOURNAL_UNNAMED\<close>.
\<close>

section \<open>Gateway to API\<close>

datatype runtime_state = RUNTIME_UNKNOWN | RUNTIME_STARTING | RUNTIME_READY | RUNTIME_DRAINING | RUNTIME_DRAINED | RUNTIME_DEGRADED
datatype lifecycle_failure = FAILURE_UNKNOWN | FAILURE_NONE | FAILURE_BUSY | FAILURE_TIMEOUT | FAILURE_INTERNAL
datatype wire_journal_state = JOURNAL_UNKNOWN | JOURNAL_HEALTHY | JOURNAL_DEGRADED | JOURNAL_PAUSED | JOURNAL_CRITICAL | JOURNAL_UNNAMED
datatype capability = CAPABILITY_UNKNOWN | CAPABILITY_SESSION_ENGINE | CAPABILITY_EVENT_STREAM | CAPABILITY_COMMAND_EXECUTION

record gateway_hello =
  wh_InstanceId :: string
  wh_SoftwareVersion :: string
  wh_Capabilities :: "capability list"
  wh_GrpcEndpoint :: "string option"
  wh_StartedAtUnixMs :: int
  wh_SessionCount :: nat
  wh_RuntimeState :: runtime_state
  wh_HttpBaseUrl :: "string option"

record gateway_heartbeat =
  wb_ConnectionEpoch :: nat
  wb_LastControlSequence :: nat
  wb_SentAtUnixMs :: int
  wb_SessionCount :: nat
  wb_RuntimeState :: runtime_state
  wb_JournalState :: wire_journal_state
  wb_JournalEntries :: nat
  wb_JournalBytes :: nat

record gateway_lifecycle_report =
  lr_ConnectionEpoch :: nat
  lr_DirectiveId :: string
  lr_State :: runtime_state
  lr_Failure :: lifecycle_failure

text \<open>The desired-state report with the optional numbers of its \<open>KeystoreHealth\<close>; an absent health is
  \<open>KEYSTORE_UNKNOWN\<close>.\<close>

record state_report = desired_report +
  dr_ByteSize :: "int option"
  dr_LastCheckedAtUnixMs :: "int option"

datatype gateway_payload = HelloP gateway_hello | HeartbeatP gateway_heartbeat | LifecycleReportP gateway_lifecycle_report
  | DesiredStateReportP state_report | EventBatchP "gateway_event list"

record gateway_frame =
  gf_ProtocolVersion :: nat
  gf_Sequence :: nat
  gf_Payload :: "gateway_payload option"

section \<open>API to gateway\<close>

datatype lifecycle_action = ACTION_UNKNOWN | ACTION_RUN | ACTION_DRAIN | ACTION_DISABLE
datatype directive_reason = REASON_UNKNOWN | REASON_OPERATOR | REASON_MAINTENANCE | REASON_CAPACITY | REASON_POLICY

record control_welcome =
  we_ConnectionId :: string
  we_ConnectionEpoch :: nat
  we_HeartbeatIntervalMs :: nat
  we_LeaseTimeoutMs :: nat
  we_DesiredLifecycle :: lifecycle_action
  we_ServerTimeUnixMs :: int

record wire_directive =
  ld_DirectiveId :: string
  ld_ConnectionEpoch :: nat
  ld_Action :: lifecycle_action
  ld_DrainDeadlineUnixMs :: "int option"
  ld_Reason :: directive_reason

record heartbeat_ack =
  ha_AcknowledgedGatewaySequence :: nat
  ha_ConnectionEpoch :: nat
  ha_ServerTimeUnixMs :: int

datatype control_payload = WelcomeP control_welcome | DirectiveP wire_directive | HeartbeatAckP heartbeat_ack
  | SnapshotP desired_snapshot | EventAckP nat

record control_frame =
  cf_ProtocolVersion :: nat
  cf_Sequence :: nat
  cf_Payload :: "control_payload option"

definition ProtocolVersion :: nat where
  "ProtocolVersion = 1"

section \<open>Status\<close>

datatype grpc_code = Canceled | UnknownCode | InvalidArgument | DeadlineExceeded | PermissionDenied | Aborted | FailedPrecondition
  | Unavailable | InternalCode | Unauthenticated | OtherCode

datatype status_err = Status (status_code: grpc_code) (status_text: string)

abbreviation (input) rejected :: "string \<Rightarrow> status_err" where "rejected \<equiv> Status FailedPrecondition"
abbreviation (input) invalid :: "string \<Rightarrow> status_err" where "invalid \<equiv> Status InvalidArgument"

end
