(* ===== verification/ControlServer.thy ===== *)
theory ControlServer
  imports ControlFrames
begin

text \<open>
  The API's end of the control stream (src/backend/internal/api/gateway/control.go): the
  validation of frames, the handshake and the loop of \<open>Connect\<close>. The \<open>Store\<close> interface
  is a record of operations over a state of any type; every step of the loop is given its own, so that failures
  and the writes of other processes are in what it does. Timers and the
  receiving goroutine choose what comes next (\<open>incoming\<close>).
\<close>

section \<open>Values\<close>

record hello =
  he_InstanceID :: string
  he_SoftwareVersion :: string
  he_GRPCEndpoint :: string
  he_HTTPBaseURL :: string
  he_Capabilities :: "capability list"
  he_StartedAt :: gotime
  he_SessionCount :: nat
  he_RuntimeState :: runtime_state

record heartbeat_value =
  hv_LastControlSequence :: nat
  hv_SentAt :: gotime
  hv_SessionCount :: nat
  hv_RuntimeState :: runtime_state
  hv_JournalState :: wire_journal_state
  hv_JournalEntries :: nat
  hv_JournalBytes :: nat

record lifecycle_value =
  lv_DirectiveID :: string
  lv_State :: runtime_state
  lv_Failure :: lifecycle_failure

record desired_lifecycle_value =
  dl_Action :: lifecycle_action
  dl_Revision :: nat

record desired_session_value =
  dv_SessionID :: string
  dv_OrganizationID :: string
  dv_DeviceJID :: string
  dv_DesiredAction :: desired_action
  dv_AssignmentEpoch :: nat
  dv_ConfigRevision :: nat
  dv_AutoRead :: bool
  dv_PresenceTyping :: bool
  dv_RatePerMin :: nat
  dv_RatePerHour :: nat
  dv_HistorySyncDays :: nat
  dv_LeaseExpiresAt :: gotime

record desired_state_value =
  dt_Revision :: nat
  dt_Assignments :: "desired_session_value list"

record report_result_value =
  rv_SessionID :: "string option"
  rv_AssignmentEpoch :: nat
  rv_DeviceJID :: string
  rv_Status :: string

record report_value =
  rl_Revision :: nat
  rl_KeystoreState :: string
  rl_KeystoreBytes :: "int option"
  rl_CheckedAt :: "int option"
  rl_LocalDevices :: "string list"
  rl_Results :: "report_result_value list"

record event_value =
  ev_JournalSequence :: nat
  ev_ConnectionEpoch :: nat
  ev_AssignmentEpoch :: nat
  ev_EventID :: string
  ev_SessionID :: string
  ev_OrganizationID :: string
  ev_Type :: string
  ev_OccurredAt :: gotime
  ev_Payload :: string

record control_connection =
  co_ID :: string
  co_Epoch :: nat
  co_HeartbeatInterval :: duration
  co_LeaseTimeout :: duration
  co_DesiredLifecycle :: lifecycle_action
  co_DesiredRevision :: nat

record 's control_store =
  st_Accept :: "string \<Rightarrow> hello \<Rightarrow> 's \<Rightarrow> 's \<times> control_connection result"
  st_Heartbeat :: "string \<Rightarrow> nat \<Rightarrow> heartbeat_value \<Rightarrow> 's \<Rightarrow> 's \<times> desired_lifecycle_value result"
  st_DesiredState :: "string \<Rightarrow> nat \<Rightarrow> nat \<Rightarrow> gotime \<Rightarrow> 's \<Rightarrow> 's \<times> desired_state_value result"
  st_PersistDesiredStateReport :: "string \<Rightarrow> nat \<Rightarrow> report_value \<Rightarrow> 's \<Rightarrow> 's \<times> unit result"
  st_IngestEvents :: "string \<Rightarrow> nat \<Rightarrow> event_value list \<Rightarrow> 's \<Rightarrow> 's \<times> unit result"
  st_Lifecycle :: "string \<Rightarrow> nat \<Rightarrow> lifecycle_value \<Rightarrow> 's \<Rightarrow> 's \<times> unit result"
  st_Disconnect :: "string \<Rightarrow> nat \<Rightarrow> 's \<Rightarrow> 's \<times> unit result"

abbreviation ErrUnauthorized :: go_err where "ErrUnauthorized \<equiv> Sentinel ''gateway unauthorized''"
abbreviation ErrConnectionConflict :: go_err where "ErrConnectionConflict \<equiv> Sentinel ''gateway connection conflict''"
abbreviation ErrStaleEpoch :: go_err where "ErrStaleEpoch \<equiv> Sentinel ''stale gateway connection epoch''"
abbreviation ErrPersistence :: go_err where "ErrPersistence \<equiv> Sentinel ''gateway persistence unavailable''"

definition storeStatus :: "go_err \<Rightarrow> status_err" where
  "storeStatus e =
     (if err_is ''context canceled'' e then Status Canceled ''gateway control canceled''
      else if err_is ''context deadline exceeded'' e then Status DeadlineExceeded ''gateway control deadline exceeded''
      else if err_is ''gateway unauthorized'' e then Status PermissionDenied ''gateway is not authorized''
      else if err_is ''gateway connection conflict'' e then Status Aborted ''gateway connection conflict''
      else if err_is ''stale gateway connection epoch'' e then rejected ''stale gateway connection epoch''
      else if err_is ''gateway persistence unavailable'' e then Status Unavailable ''gateway control temporarily unavailable''
      else Status InternalCode ''gateway control failed'')"

definition sendStatus :: "go_err \<Rightarrow> status_err" where
  "sendStatus e =
     (if err_is ''context canceled'' e then Status Canceled ''gateway control canceled''
      else if err_is ''context deadline exceeded'' e then Status DeadlineExceeded ''gateway control deadline exceeded''
      else Status Unavailable ''gateway control stream unavailable'')"

section \<open>Validation\<close>

definition MaxInstanceIDBytes :: nat where "MaxInstanceIDBytes = 128"
definition MaxSoftwareVersionBytes :: nat where "MaxSoftwareVersionBytes = 128"
definition MaxGRPCEndpointBytes :: nat where "MaxGRPCEndpointBytes = 512"
definition MaxHTTPBaseURLBytes :: nat where "MaxHTTPBaseURLBytes = 512"
definition MaxGatewayCapabilities :: nat where "MaxGatewayCapabilities = 16"
definition MaxGatewayEventBatch :: nat where "MaxGatewayEventBatch = 256"
definition MaxGatewayEventBatchBytes :: nat where "MaxGatewayEventBatchBytes = 2 ^ 20"
definition maxUnixMillis :: int where "maxUnixMillis = 253402300799999"

definition knownRuntimeState :: "runtime_state \<Rightarrow> bool" where
  "knownRuntimeState s \<longleftrightarrow> s \<noteq> RUNTIME_UNKNOWN"

definition knownJournalState :: "wire_journal_state \<Rightarrow> bool" where
  "knownJournalState s \<longleftrightarrow> s \<noteq> JOURNAL_UNNAMED"

definition knownLifecycleAction :: "lifecycle_action \<Rightarrow> bool" where
  "knownLifecycleAction a \<longleftrightarrow> a \<in> {ACTION_RUN, ACTION_DRAIN, ACTION_DISABLE}"

definition knownLifecycleFailure :: "lifecycle_failure \<Rightarrow> bool" where
  "knownLifecycleFailure f \<longleftrightarrow> f \<in> {FAILURE_NONE, FAILURE_BUSY, FAILURE_TIMEOUT, FAILURE_INTERNAL}"

definition knownCapability :: "capability \<Rightarrow> bool" where
  "knownCapability c \<longleftrightarrow> c \<in> {CAPABILITY_SESSION_ENGINE, CAPABILITY_EVENT_STREAM, CAPABILITY_COMMAND_EXECUTION}"

definition lifecycleActionSatisfied :: "lifecycle_action \<Rightarrow> runtime_state \<Rightarrow> bool" where
  "lifecycleActionSatisfied action st =
     (case action of ACTION_RUN \<Rightarrow> st = RUNTIME_READY | ACTION_DRAIN \<Rightarrow> st = RUNTIME_DRAINED
      | ACTION_DISABLE \<Rightarrow> st = RUNTIME_DRAINED | ACTION_UNKNOWN \<Rightarrow> False)"

definition validateEnvelope :: "gateway_frame \<Rightarrow> nat \<Rightarrow> status_err option" where
  "validateEnvelope frame sequence =
     (if gf_ProtocolVersion frame \<noteq> ProtocolVersion then Some (rejected ''unsupported gateway control protocol'')
      else if gf_Sequence frame \<noteq> sequence then Some (rejected ''gateway frame sequence mismatch'')
      else if gf_Payload frame = None then Some (invalid ''gateway frame payload required'')
      else None)"

text \<open>\<open>bare_origin\<close> is what the URL parser says: an HTTP origin without user, path, query or fragment that
  prints as it was written.\<close>

definition validateHTTPBaseURL :: "(string \<Rightarrow> bool) \<Rightarrow> string \<Rightarrow> status_err option" where
  "validateHTTPBaseURL bare_origin raw =
     (if raw = [] \<or> length raw > MaxHTTPBaseURLBytes \<or> \<not> bare_origin raw then Some (invalid ''invalid gateway HTTP base URL'') else None)"

fun check_capabilities :: "capability list \<Rightarrow> capability set \<Rightarrow> status_err option" where
  "check_capabilities [] seen = None"
| "check_capabilities (c # cs) seen =
     (if \<not> knownCapability c then Some (invalid ''invalid gateway capability'')
      else if c \<in> seen then Some (invalid ''duplicate gateway capability'')
      else check_capabilities cs (insert c seen))"

definition validateHello :: "(string \<Rightarrow> bool) \<Rightarrow> gateway_hello \<Rightarrow> status_err option" where
  "validateHello bare_origin h =
     (if wh_InstanceId h = [] \<or> length (wh_InstanceId h) > MaxInstanceIDBytes then Some (invalid ''invalid gateway instance id'')
      else if wh_SoftwareVersion h = [] \<or> length (wh_SoftwareVersion h) > MaxSoftwareVersionBytes
      then Some (invalid ''invalid gateway software version'')
      else if (case wh_GrpcEndpoint h of None \<Rightarrow> False | Some e \<Rightarrow> length e > MaxGRPCEndpointBytes)
      then Some (invalid ''invalid gateway gRPC endpoint'')
      else case (case wh_HttpBaseUrl h of None \<Rightarrow> None | Some u \<Rightarrow> validateHTTPBaseURL bare_origin u) of
        Some e \<Rightarrow> Some e
      | None \<Rightarrow>
          if wh_StartedAtUnixMs h \<le> 0 \<or> wh_StartedAtUnixMs h > maxUnixMillis then Some (invalid ''invalid gateway start time'')
          else if \<not> knownRuntimeState (wh_RuntimeState h) then Some (invalid ''invalid gateway runtime state'')
          else if length (wh_Capabilities h) > MaxGatewayCapabilities then Some (invalid ''too many gateway capabilities'')
          else check_capabilities (wh_Capabilities h) {})"

definition validateHeartbeat :: "gateway_heartbeat \<Rightarrow> status_err option" where
  "validateHeartbeat h =
     (if wb_ConnectionEpoch h = 0 \<or> (wb_SentAtUnixMs h \<le> 0 \<or> wb_SentAtUnixMs h > maxUnixMillis) \<or>
         \<not> knownRuntimeState (wb_RuntimeState h) then Some (invalid ''invalid gateway heartbeat'')
      else if \<not> knownJournalState (wb_JournalState h) then Some (invalid ''invalid gateway journal state'')
      else if wb_JournalState h = JOURNAL_UNKNOWN \<and> (wb_JournalEntries h \<noteq> 0 \<or> wb_JournalBytes h \<noteq> 0)
      then Some (invalid ''gateway journal telemetry requires a journal state'')
      else None)"

record issued_directive =
  id_id :: string
  id_action :: lifecycle_action

definition directiveID :: "string \<Rightarrow> nat \<Rightarrow> string" where
  "directiveID connectionID revision = connectionID @ '':'' @ show_nat revision"

definition validateLifecycleReport :: "gateway_lifecycle_report \<Rightarrow> nat \<Rightarrow> issued_directive \<Rightarrow> status_err option" where
  "validateLifecycleReport r epoch d =
     (if lr_DirectiveId r = [] \<or> \<not> knownRuntimeState (lr_State r) \<or> \<not> knownLifecycleFailure (lr_Failure r)
      then Some (invalid ''invalid gateway lifecycle report'')
      else if lr_ConnectionEpoch r \<noteq> epoch then Some (rejected ''gateway connection epoch mismatch'')
      else if lr_DirectiveId r \<noteq> id_id d then Some (rejected ''gateway lifecycle directive acknowledgement mismatch'')
      else if lr_Failure r = FAILURE_NONE \<and> \<not> lifecycleActionSatisfied (id_action d) (lr_State r)
      then Some (rejected ''gateway lifecycle directive result mismatch'')
      else None)"

definition validateDesiredStateReport :: "state_report \<Rightarrow> nat \<Rightarrow> status_err option" where
  "validateDesiredStateReport r epoch =
     (if dr_ConnectionEpoch r = 0 \<or> dr_ConnectionEpoch r \<noteq> epoch \<or> dr_KeystoreHealth r = KEYSTORE_UNKNOWN
      then Some (rejected ''invalid desired state report'') else None)"

definition validDesiredState :: "desired_state_value \<Rightarrow> gotime \<Rightarrow> bool" where
  "validDesiredState d minimumLease \<longleftrightarrow> dt_Revision d \<noteq> 0 \<and>
     (\<forall>a\<in>set (dt_Assignments d). dv_SessionID a \<noteq> [] \<and> dv_OrganizationID a \<noteq> [] \<and> dv_AssignmentEpoch a \<noteq> 0 \<and>
        dv_DesiredAction a \<noteq> SESSION_DESIRED_ACTION_UNKNOWN \<and> dv_ConfigRevision a = dt_Revision d \<and>
        dv_LeaseExpiresAt a > minimumLease - 1000000)"

text \<open>\<open>psize\<close> is \<open>proto.Size\<close> of a batch.\<close>

definition event_of_wire :: "gateway_event \<Rightarrow> event_value" where
  "event_of_wire v =
     \<lparr>ev_JournalSequence = ge_JournalSequence v, ev_ConnectionEpoch = ge_ConnectionEpoch v, ev_AssignmentEpoch = ge_AssignmentEpoch v,
      ev_EventID = ge_EventId v, ev_SessionID = ge_SessionId v, ev_OrganizationID = ge_OrganizationId v, ev_Type = ge_EventType v,
      ev_OccurredAt = of_UnixMilli (ge_OccurredAtUnixMs v), ev_Payload = ge_Payload v\<rparr>"

fun event_loop :: "string \<Rightarrow> nat \<Rightarrow> nat \<Rightarrow> gateway_event list \<Rightarrow> event_value list option" where
  "event_loop gatewayID epoch prev [] = Some []"
| "event_loop gatewayID epoch prev (v # vs) =
     (if ge_GatewayId v \<noteq> gatewayID \<or> (ge_JournalSequence v = 0 \<or> ge_JournalSequence v \<le> prev) \<or> ge_ConnectionEpoch v \<noteq> epoch \<or>
         ge_AssignmentEpoch v = 0 \<or> (ge_EventId v = [] \<or> ge_SessionId v = [] \<or> ge_OrganizationId v = [] \<or> ge_EventType v = []) \<or>
         ge_OccurredAtUnixMs v \<le> 0
      then None
      else map_option ((#) (event_of_wire v)) (event_loop gatewayID epoch (ge_JournalSequence v) vs))"

definition eventBatch :: "(gateway_event list \<Rightarrow> nat) \<Rightarrow> gateway_event list \<Rightarrow> string \<Rightarrow> nat \<Rightarrow> status_err + event_value list" where
  "eventBatch psize events gatewayID epoch =
     (if events = [] \<or> length events > MaxGatewayEventBatch then Inl (invalid ''invalid gateway event batch'')
      else if psize events > MaxGatewayEventBatchBytes then Inl (invalid ''gateway event batch too large'')
      else case event_loop gatewayID epoch 0 events of
        None \<Rightarrow> Inl (rejected ''invalid gateway event'') | Some out \<Rightarrow> Inr out)"

section \<open>Conversions\<close>

definition option_text :: "string option \<Rightarrow> string" where
  "option_text s = (case s of None \<Rightarrow> [] | Some t \<Rightarrow> t)"

definition helloValue :: "gateway_hello \<Rightarrow> hello" where
  "helloValue v =
     \<lparr>he_InstanceID = wh_InstanceId v, he_SoftwareVersion = wh_SoftwareVersion v, he_GRPCEndpoint = option_text (wh_GrpcEndpoint v),
      he_HTTPBaseURL = option_text (wh_HttpBaseUrl v), he_Capabilities = wh_Capabilities v,
      he_StartedAt = of_UnixMilli (wh_StartedAtUnixMs v), he_SessionCount = wh_SessionCount v, he_RuntimeState = wh_RuntimeState v\<rparr>"

definition heartbeatValue :: "gateway_heartbeat \<Rightarrow> heartbeat_value" where
  "heartbeatValue v =
     \<lparr>hv_LastControlSequence = wb_LastControlSequence v, hv_SentAt = of_UnixMilli (wb_SentAtUnixMs v),
      hv_SessionCount = wb_SessionCount v, hv_RuntimeState = wb_RuntimeState v, hv_JournalState = wb_JournalState v,
      hv_JournalEntries = wb_JournalEntries v, hv_JournalBytes = wb_JournalBytes v\<rparr>"

definition lifecycleValue :: "gateway_lifecycle_report \<Rightarrow> lifecycle_value" where
  "lifecycleValue v = \<lparr>lv_DirectiveID = lr_DirectiveId v, lv_State = lr_State v, lv_Failure = lr_Failure v\<rparr>"

text \<open>The names of the enumerations in lower case without their prefix.\<close>

definition keystore_text :: "keystore_health \<Rightarrow> string" where
  "keystore_text h = (case h of KEYSTORE_UNKNOWN \<Rightarrow> ''unknown'' | KEYSTORE_HEALTHY \<Rightarrow> ''healthy'' | KEYSTORE_MISSING \<Rightarrow> ''missing''
     | KEYSTORE_CORRUPT \<Rightarrow> ''corrupt'')"

definition result_text :: "reconciliation_status \<Rightarrow> string" where
  "result_text st = (case st of RECONCILIATION_UNKNOWN \<Rightarrow> ''unknown'' | RECONCILIATION_APPLIED \<Rightarrow> ''applied''
     | RECONCILIATION_KEYSTORE_MISSING \<Rightarrow> ''keystore_missing'' | RECONCILIATION_KEYSTORE_CORRUPT \<Rightarrow> ''keystore_corrupt''
     | RECONCILIATION_UNEXPECTED_LOCAL_DEVICE \<Rightarrow> ''unexpected_local_device'')"

definition reconciliationReport :: "state_report \<Rightarrow> report_value" where
  "reconciliationReport r =
     \<lparr>rl_Revision = dr_ProcessedRevision r, rl_KeystoreState = keystore_text (dr_KeystoreHealth r), rl_KeystoreBytes = dr_ByteSize r,
      rl_CheckedAt = dr_LastCheckedAtUnixMs r, rl_LocalDevices = dr_LocalDevices r,
      rl_Results = map (\<lambda>x. \<lparr>rv_SessionID = rr_SessionId x, rv_AssignmentEpoch = rr_AssignmentEpoch x, rv_DeviceJID = rr_DeviceJid x,
        rv_Status = result_text (rr_Status x)\<rparr>) (dr_Results r)\<rparr>"

definition wire_assignment :: "desired_session_value \<Rightarrow> session_assignment" where
  "wire_assignment a =
     \<lparr>sa_SessionId = dv_SessionID a, sa_OrganizationId = dv_OrganizationID a,
      sa_DeviceJid = (if dv_DeviceJID a = [] then None else Some (dv_DeviceJID a)), sa_AssignmentEpoch = dv_AssignmentEpoch a,
      sa_LeaseExpiresAtUnixMs = UnixMilli (dv_LeaseExpiresAt a), sa_DesiredAction = dv_DesiredAction a,
      sa_Config = Some \<lparr>scf_Revision = dv_ConfigRevision a, scf_AutoRead = dv_AutoRead a, scf_PresenceTyping = dv_PresenceTyping a,
        scf_RatePerMin = dv_RatePerMin a, scf_RatePerHour = dv_RatePerHour a, scf_HistorySyncDays = dv_HistorySyncDays a\<rparr>\<rparr>"

text \<open>\<open>durationMillis\<close>; \<open>uint32\<close> of a negative number wraps.\<close>

definition durationMillis :: "duration \<Rightarrow> nat" where
  "durationMillis v =
     (let ms = go_quot v 1000000 in if ms > 2 ^ 32 - 1 then 2 ^ 32 - 1 else nat (ms mod 2 ^ 32))"

section \<open>Actions\<close>

text \<open>What the handler does to its world: the store, and the frames it has sent.\<close>

record 's server_world =
  sw_store :: 's
  sw_sent :: "control_frame list"

type_synonym ('s, 'a) action = "'s server_world \<Rightarrow> 's server_world \<times> (status_err + 'a)"

definition returnA :: "'a \<Rightarrow> ('s, 'a) action" where
  "returnA x w = (w, Inr x)"

definition bindA :: "('s, 'a) action \<Rightarrow> ('a \<Rightarrow> ('s, 'b) action) \<Rightarrow> ('s, 'b) action" where
  "bindA m k w = (case m w of (w', Inl e) \<Rightarrow> (w', Inl e) | (w', Inr x) \<Rightarrow> k x w')"

definition checkA :: "status_err option \<Rightarrow> ('s, 'a) action \<Rightarrow> ('s, 'a) action" where
  "checkA c m w = (case c of None \<Rightarrow> m w | Some e \<Rightarrow> (w, Inl e))"

definition refuseA :: "bool \<Rightarrow> status_err \<Rightarrow> ('s, 'a) action \<Rightarrow> ('s, 'a) action" where
  "refuseA bad e m w = (if bad then (w, Inl e) else m w)"

definition storeA :: "('s \<Rightarrow> 's \<times> 'a result) \<Rightarrow> ('s, 'a) action" where
  "storeA op w =
     (case op (sw_store w) of
        (s, Inl e) \<Rightarrow> (w\<lparr>sw_store := s\<rparr>, Inl (storeStatus e))
      | (s, Inr x) \<Rightarrow> (w\<lparr>sw_store := s\<rparr>, Inr x))"

text \<open>\<open>stream.Send\<close>; \<open>sf\<close> gives the failure of the send of a sequence number.\<close>

definition sendA :: "faults \<Rightarrow> nat \<Rightarrow> control_payload \<Rightarrow> ('s, unit) action" where
  "sendA sf sequence payload w =
     (case sf sequence of
        Some e \<Rightarrow> (w, Inl (sendStatus e))
      | None \<Rightarrow> (w\<lparr>sw_sent := sw_sent w @ [\<lparr>cf_ProtocolVersion = ProtocolVersion, cf_Sequence = sequence, cf_Payload = Some payload\<rparr>]\<rparr>, Inr ()))"

section \<open>Connect\<close>

record serving =
  sv_gatewayID :: string
  sv_connection :: control_connection
  sv_outboundSequence :: nat
  sv_lastAcknowledgedControlSequence :: nat
  sv_lastIssuedDesiredRevision :: nat
  sv_lastIssuedDesiredAction :: lifecycle_action
  sv_pendingDirective :: "issued_directive option"
  sv_expected :: nat

definition sendDesiredState :: "'s control_store \<Rightarrow> gotime \<Rightarrow> faults \<Rightarrow> string \<Rightarrow> nat \<Rightarrow> duration \<Rightarrow> nat \<Rightarrow> nat \<Rightarrow> ('s, nat) action" where
  "sendDesiredState st now sf gatewayID epoch leaseTimeout revision sequence =
     (let leaseExpiresAt = now + leaseTimeout in
      bindA (storeA (st_DesiredState st gatewayID epoch revision leaseExpiresAt)) (\<lambda>desired.
      refuseA (dt_Revision desired \<noteq> revision \<or> \<not> validDesiredState desired leaseExpiresAt)
        (Status InternalCode ''invalid gateway desired state'')
      (bindA (sendA sf (sequence + 1) (SnapshotP \<lparr>ds_Revision = dt_Revision desired, ds_Assignments = map wire_assignment (dt_Assignments desired)\<rparr>))
       (\<lambda>_. returnA (sequence + 1)))))"

text \<open>The context of one step: what the store does, the clock and the failing sends.\<close>

record 's step_env =
  se_store :: "'s control_store"
  se_now :: gotime
  se_sends :: faults

definition issue_directive :: "'s step_env \<Rightarrow> desired_lifecycle_value \<Rightarrow> serving \<Rightarrow> ('s, serving) action" where
  "issue_directive env desired sv =
     (let c = sv_connection sv in
      if sv_pendingDirective sv = None \<and> dl_Revision desired \<noteq> sv_lastIssuedDesiredRevision sv
      then (let d = \<lparr>id_id = directiveID (co_ID c) (dl_Revision desired), id_action = dl_Action desired\<rparr>; seq = sv_outboundSequence sv + 1 in
        bindA (sendA (se_sends env) seq (DirectiveP \<lparr>ld_DirectiveId = id_id d, ld_ConnectionEpoch = co_Epoch c, ld_Action = id_action d,
            ld_DrainDeadlineUnixMs = None, ld_Reason = REASON_OPERATOR\<rparr>))
        (\<lambda>_. returnA (sv\<lparr>sv_outboundSequence := seq, sv_pendingDirective := Some d, sv_lastIssuedDesiredRevision := dl_Revision desired,
            sv_lastIssuedDesiredAction := dl_Action desired\<rparr>)))
      else returnA sv)"

definition on_heartbeat :: "'s step_env \<Rightarrow> nat \<Rightarrow> gateway_heartbeat \<Rightarrow> serving \<Rightarrow> ('s, serving) action" where
  "on_heartbeat env frameSequence hb sv =
     (let c = sv_connection sv; ack = wb_LastControlSequence hb; seq = sv_outboundSequence sv + 1 in
      checkA (validateHeartbeat hb)
      (refuseA (wb_ConnectionEpoch hb \<noteq> co_Epoch c) (rejected ''gateway connection epoch mismatch'')
      (refuseA (ack > sv_outboundSequence sv \<or> ack < sv_lastAcknowledgedControlSequence sv) (rejected ''gateway control acknowledgement mismatch'')
      (bindA (storeA (st_Heartbeat (se_store env) (sv_gatewayID sv) (co_Epoch c) (heartbeatValue hb))) (\<lambda>desired.
       refuseA (\<not> knownLifecycleAction (dl_Action desired)) (Status InternalCode ''invalid desired lifecycle'')
       (refuseA (dl_Revision desired < sv_lastIssuedDesiredRevision sv \<or>
           (dl_Revision desired = sv_lastIssuedDesiredRevision sv \<and> dl_Action desired \<noteq> sv_lastIssuedDesiredAction sv))
         (Status InternalCode ''invalid desired lifecycle revision'')
       (bindA (sendA (se_sends env) seq (HeartbeatAckP \<lparr>ha_AcknowledgedGatewaySequence = frameSequence, ha_ConnectionEpoch = co_Epoch c,
           ha_ServerTimeUnixMs = UnixMilli (se_now env)\<rparr>)) (\<lambda>_.
        bindA (issue_directive env desired (sv\<lparr>sv_lastAcknowledgedControlSequence := ack, sv_outboundSequence := seq\<rparr>)) (\<lambda>sv'.
        bindA (sendDesiredState (se_store env) (se_now env) (se_sends env) (sv_gatewayID sv) (co_Epoch c) (co_LeaseTimeout c)
            (dl_Revision desired) (sv_outboundSequence sv'))
        (\<lambda>seq'. returnA (sv'\<lparr>sv_outboundSequence := seq'\<rparr>)))))))))))"

definition on_event_batch :: "(gateway_event list \<Rightarrow> nat) \<Rightarrow> 's step_env \<Rightarrow> gateway_event list \<Rightarrow> serving \<Rightarrow> ('s, serving) action" where
  "on_event_batch psize env batch sv =
     (case eventBatch psize batch (sv_gatewayID sv) (co_Epoch (sv_connection sv)) of
        Inl e \<Rightarrow> (\<lambda>w. (w, Inl e))
      | Inr events \<Rightarrow>
          bindA (storeA (st_IngestEvents (se_store env) (sv_gatewayID sv) (co_Epoch (sv_connection sv)) events)) (\<lambda>_.
          bindA (sendA (se_sends env) (sv_outboundSequence sv + 1) (EventAckP (ev_JournalSequence (last events)))) (\<lambda>_.
          returnA (sv\<lparr>sv_outboundSequence := sv_outboundSequence sv + 1\<rparr>))))"

definition on_state_report :: "'s step_env \<Rightarrow> state_report \<Rightarrow> serving \<Rightarrow> ('s, serving) action" where
  "on_state_report env r sv =
     checkA (validateDesiredStateReport r (co_Epoch (sv_connection sv)))
     (bindA (storeA (st_PersistDesiredStateReport (se_store env) (sv_gatewayID sv) (co_Epoch (sv_connection sv)) (reconciliationReport r)))
      (\<lambda>_. returnA sv))"

definition on_lifecycle_report :: "'s step_env \<Rightarrow> gateway_lifecycle_report \<Rightarrow> serving \<Rightarrow> ('s, serving) action" where
  "on_lifecycle_report env r sv =
     (case sv_pendingDirective sv of
        None \<Rightarrow> (\<lambda>w. (w, Inl (rejected ''no lifecycle directive is awaiting acknowledgement'')))
      | Some d \<Rightarrow>
          checkA (validateLifecycleReport r (co_Epoch (sv_connection sv)) d)
          (bindA (storeA (st_Lifecycle (se_store env) (sv_gatewayID sv) (co_Epoch (sv_connection sv)) (lifecycleValue r)))
           (\<lambda>_. returnA (sv\<lparr>sv_pendingDirective := None\<rparr>))))"

text \<open>The body of the loop for one frame.\<close>

definition handle_frame :: "(gateway_event list \<Rightarrow> nat) \<Rightarrow> 's step_env \<Rightarrow> gateway_frame \<Rightarrow> serving \<Rightarrow> ('s, serving) action" where
  "handle_frame psize env frame sv =
     checkA (validateEnvelope frame (sv_expected sv))
     (bindA (case gf_Payload frame of
         Some (HeartbeatP hb) \<Rightarrow> on_heartbeat env (gf_Sequence frame) hb sv
       | Some (DesiredStateReportP r) \<Rightarrow> on_state_report env r sv
       | Some (EventBatchP b) \<Rightarrow> on_event_batch psize env b sv
       | Some (LifecycleReportP r) \<Rightarrow> on_lifecycle_report env r sv
       | _ \<Rightarrow> (\<lambda>w. (w, Inl (rejected ''hello is only valid as the first gateway frame''))))
      (\<lambda>sv'. returnA (sv'\<lparr>sv_expected := sv_expected sv + 1\<rparr>)))"

text \<open>What ends a wait: a frame, the end of the stream, an error of the stream or the context, the timer.\<close>

datatype incoming = Frame gateway_frame | EndOfStream | RecvFailed status_err | ContextDone go_err | DeadlinePassed | ReceiverGone

definition receiveStatus :: "status_err \<Rightarrow> status_err" where
  "receiveStatus e = (if status_code e \<noteq> UnknownCode then e else Status Unavailable ''gateway control stream unavailable'')"

definition receive_hello :: "incoming \<Rightarrow> status_err + gateway_frame" where
  "receive_hello i =
     (case i of
        Frame f \<Rightarrow> Inr f
      | EndOfStream \<Rightarrow> Inl (rejected ''hello frame required'')
      | RecvFailed e \<Rightarrow> Inl (receiveStatus e)
      | ContextDone e \<Rightarrow> Inl (sendStatus e)
      | DeadlinePassed \<Rightarrow> Inl (Status DeadlineExceeded ''gateway hello deadline exceeded'')
      | ReceiverGone \<Rightarrow> Inl (Status Unavailable ''gateway control stream unavailable''))"

definition accept_hello :: "(string \<Rightarrow> bool) \<Rightarrow> 's step_env \<Rightarrow> string \<Rightarrow> gateway_frame \<Rightarrow> ('s, control_connection) action" where
  "accept_hello bare_origin env gatewayID first =
     checkA (validateEnvelope first 1)
     (case gf_Payload first of
        Some (HelloP h) \<Rightarrow> checkA (validateHello bare_origin h) (storeA (st_Accept (se_store env) gatewayID (helloValue h)))
      | _ \<Rightarrow> (\<lambda>w. (w, Inl (rejected ''hello must be the first gateway frame''))))"

definition invalid_allocation :: "control_connection \<Rightarrow> bool" where
  "invalid_allocation c \<longleftrightarrow> co_ID c = [] \<or> co_Epoch c = 0 \<or> co_HeartbeatInterval c \<le> 0 \<or> co_LeaseTimeout c \<le> 0 \<or>
     \<not> knownLifecycleAction (co_DesiredLifecycle c)"

definition welcome_of :: "gotime \<Rightarrow> control_connection \<Rightarrow> control_welcome" where
  "welcome_of now c =
     \<lparr>we_ConnectionId = co_ID c, we_ConnectionEpoch = co_Epoch c, we_HeartbeatIntervalMs = durationMillis (co_HeartbeatInterval c),
      we_LeaseTimeoutMs = durationMillis (co_LeaseTimeout c), we_DesiredLifecycle = co_DesiredLifecycle c,
      we_ServerTimeUnixMs = UnixMilli now\<rparr>"

definition greet :: "'s step_env \<Rightarrow> string \<Rightarrow> control_connection \<Rightarrow> ('s, serving) action" where
  "greet env gatewayID c =
     bindA (sendA (se_sends env) 1 (WelcomeP (welcome_of (se_now env) c))) (\<lambda>_.
     bindA (sendDesiredState (se_store env) (se_now env) (se_sends env) gatewayID (co_Epoch c) (co_LeaseTimeout c) (co_DesiredRevision c) 1) (\<lambda>seq.
     returnA \<lparr>sv_gatewayID = gatewayID, sv_connection = c, sv_outboundSequence = seq, sv_lastAcknowledgedControlSequence = 1,
       sv_lastIssuedDesiredRevision = co_DesiredRevision c, sv_lastIssuedDesiredAction = co_DesiredLifecycle c,
       sv_pendingDirective = None, sv_expected = 2\<rparr>))"

text \<open>The loop over what arrives. \<open>None\<close>: still waiting; \<open>Some None\<close>: the handler returned nil.\<close>

fun serve :: "(gateway_event list \<Rightarrow> nat) \<Rightarrow> ('s step_env \<times> incoming) list \<Rightarrow> serving \<Rightarrow> 's server_world
    \<Rightarrow> 's server_world \<times> status_err option option" where
  "serve psize [] sv w = (w, None)"
| "serve psize ((env, i) # rest) sv w =
     (case i of
        Frame f \<Rightarrow> (case handle_frame psize env f sv w of (w', Inl e) \<Rightarrow> (w', Some (Some e)) | (w', Inr sv') \<Rightarrow> serve psize rest sv' w')
      | EndOfStream \<Rightarrow> (w, Some None)
      | RecvFailed e \<Rightarrow> (w, Some (Some e))
      | ContextDone e \<Rightarrow> (w, Some (Some (sendStatus e)))
      | DeadlinePassed \<Rightarrow> (w, Some (Some (Status DeadlineExceeded ''gateway heartbeat lease expired'')))
      | ReceiverGone \<Rightarrow> (w, Some (Some (Status Unavailable ''gateway control stream unavailable''))))"

text \<open>\<open>Connect\<close> for the authenticated gateway \<open>gatewayID\<close> (\<open>None\<close>: not authenticated). The deferred
  disconnect runs once the connection is allocated and the handler returns.\<close>

definition Connect :: "(string \<Rightarrow> bool) \<Rightarrow> (gateway_event list \<Rightarrow> nat) \<Rightarrow> string option \<Rightarrow> ('s step_env \<times> incoming) \<Rightarrow> ('s step_env \<times> incoming) list
    \<Rightarrow> 's control_store \<Rightarrow> 's server_world \<Rightarrow> 's server_world \<times> status_err option option" where
  "Connect bare_origin psize identity first rest final w =
     (case identity of
        None \<Rightarrow> (w, Some (Some (Status Unauthenticated ''gateway authentication required'')))
      | Some gid \<Rightarrow>
          if gid = [] then (w, Some (Some (Status Unauthenticated ''gateway authentication required'')))
          else (case receive_hello (snd first) of
            Inl e \<Rightarrow> (w, Some (Some e))
          | Inr frame \<Rightarrow>
              (case accept_hello bare_origin (fst first) gid frame w of
                 (w1, Inl e) \<Rightarrow> (w1, Some (Some e))
               | (w1, Inr c) \<Rightarrow>
                   if invalid_allocation c then (w1, Some (Some (Status InternalCode ''invalid gateway connection allocation'')))
                   else (case (case greet (fst first) gid c w1 of
                            (w2, Inl e) \<Rightarrow> (w2, Some (Some e)) | (w2, Inr sv) \<Rightarrow> serve psize rest sv w2) of
                      (w2, None) \<Rightarrow> (w2, None)
                    | (w2, Some r) \<Rightarrow> (w2\<lparr>sw_store := fst (st_Disconnect final gid (co_Epoch c) (sw_store w2))\<rparr>, Some r)))))"

end
