(* ===== verification/ControlSupervisor.thy ===== *)
theory ControlSupervisor
  imports ControlFrames
begin

text \<open>
  The gateway's end of the control stream (src/backend/internal/gateway/controlsupervisor/supervisor.go):
  the handshake, the loop of one connection, the replacement proof, the status its callers read and the
  decision whether an error is final; and the directive loop of cmd/gateway/main.go that reports
  outcomes through it. Journal, applier, runtime and clock are the interfaces of \<open>Config\<close>: operations over a
  state of any type, given anew for every step. The select of the loop chooses the next event.
\<close>

section \<open>Errors\<close>

text \<open>What matters of an error: a protocol violation, a gRPC status, or anything else.\<close>

datatype sup_err = ErrProtocol string | StatusErr string status_err | OtherErr string

fun annotate :: "string \<Rightarrow> sup_err \<Rightarrow> sup_err" where
  "annotate p (ErrProtocol m) = ErrProtocol (p @ '': '' @ m)"
| "annotate p (StatusErr m e) = StatusErr (p @ '': '' @ m) e"
| "annotate p (OtherErr m) = OtherErr (p @ '': '' @ m)"

fun terminal :: "sup_err \<Rightarrow> bool" where
  "terminal (ErrProtocol m) = True"
| "terminal (StatusErr m e) =
     (if status_code e = FailedPrecondition \<and> status_text e = ''stale gateway connection epoch'' then False
      else status_code e \<in> {Unauthenticated, PermissionDenied, InvalidArgument, FailedPrecondition})"
| "terminal (OtherErr m) = False"

section \<open>Validation\<close>

definition validRuntimeState :: "runtime_state \<Rightarrow> bool" where
  "validRuntimeState s \<longleftrightarrow> s \<noteq> RUNTIME_UNKNOWN"

definition validLifecycleAction :: "lifecycle_action \<Rightarrow> bool" where
  "validLifecycleAction a \<longleftrightarrow> a \<in> {ACTION_RUN, ACTION_DRAIN, ACTION_DISABLE}"

definition validDirectiveReason :: "directive_reason \<Rightarrow> bool" where
  "validDirectiveReason r \<longleftrightarrow> r \<in> {REASON_OPERATOR, REASON_MAINTENANCE, REASON_CAPACITY, REASON_POLICY}"

definition validateWelcome :: "control_frame \<Rightarrow> sup_err + control_welcome" where
  "validateWelcome frame =
     (if cf_ProtocolVersion frame \<noteq> ProtocolVersion \<or> cf_Sequence frame \<noteq> 1 then Inl (ErrProtocol ''invalid welcome envelope'')
      else case cf_Payload frame of
        Some (WelcomeP we) \<Rightarrow>
          if we_ConnectionId we = [] \<or> we_ConnectionEpoch we = 0 \<or> we_ServerTimeUnixMs we \<le> 0 then Inl (ErrProtocol ''invalid welcome'')
          else if \<not> validLifecycleAction (we_DesiredLifecycle we) then Inl (ErrProtocol ''invalid desired lifecycle'')
          else Inr we
      | _ \<Rightarrow> Inl (ErrProtocol ''invalid welcome''))"

definition validAssignment :: "session_assignment \<Rightarrow> bool" where
  "validAssignment a \<longleftrightarrow> sa_SessionId a \<noteq> [] \<and> sa_OrganizationId a \<noteq> [] \<and> sa_AssignmentEpoch a \<noteq> 0 \<and> sa_LeaseExpiresAtUnixMs a > 0 \<and>
     sa_DesiredAction a \<in> {SESSION_DESIRED_ACTION_RUN, SESSION_DESIRED_ACTION_STOP} \<and>
     \<not> (sa_DesiredAction a = SESSION_DESIRED_ACTION_RUN \<and> sa_DeviceJid a = None)"

fun check_assignments :: "session_assignment list \<Rightarrow> string set \<Rightarrow> sup_err option" where
  "check_assignments [] seen = None"
| "check_assignments (a # as) seen =
     (if \<not> validAssignment a then Some (ErrProtocol ''invalid session assignment'')
      else if sa_SessionId a \<in> seen then Some (ErrProtocol ''duplicate session assignment'')
      else check_assignments as (insert (sa_SessionId a) seen))"

definition validateDesiredState :: "desired_snapshot \<Rightarrow> sup_err option" where
  "validateDesiredState s =
     (if ds_Revision s = 0 then Some (ErrProtocol ''invalid desired state snapshot'') else check_assignments (ds_Assignments s) {})"

definition validateDirective :: "wire_directive \<Rightarrow> nat \<Rightarrow> gotime \<Rightarrow> sup_err option" where
  "validateDirective d epoch now =
     (if ld_DirectiveId d = [] \<or> ld_ConnectionEpoch d \<noteq> epoch \<or> \<not> validLifecycleAction (ld_Action d) \<or> \<not> validDirectiveReason (ld_Reason d)
      then Some (ErrProtocol ''invalid lifecycle directive'')
      else if ld_Action d \<noteq> ACTION_DRAIN
      then (if ld_DrainDeadlineUnixMs d \<noteq> None then Some (ErrProtocol ''unexpected drain deadline'') else None)
      else (case ld_DrainDeadlineUnixMs d of
          Some t \<Rightarrow> if t \<le> UnixMilli now then Some (ErrProtocol ''invalid drain deadline'') else None
        | None \<Rightarrow> None))"

definition validateControl :: "control_frame \<Rightarrow> nat \<Rightarrow> nat \<Rightarrow> nat \<Rightarrow> gotime \<Rightarrow> sup_err option" where
  "validateControl frame sequence epoch gatewaySequence now =
     (if cf_ProtocolVersion frame \<noteq> ProtocolVersion \<or> cf_Sequence frame \<noteq> sequence then Some (ErrProtocol ''invalid control envelope'')
      else case cf_Payload frame of
        Some (DirectiveP d) \<Rightarrow> validateDirective d epoch now
      | Some (SnapshotP s) \<Rightarrow> validateDesiredState s
      | Some (EventAckP q) \<Rightarrow> if q = 0 then Some (ErrProtocol ''invalid event acknowledgement'') else None
      | Some (HeartbeatAckP a) \<Rightarrow>
          if ha_ConnectionEpoch a \<noteq> epoch \<or> ha_AcknowledgedGatewaySequence a \<noteq> gatewaySequence \<or> ha_ServerTimeUnixMs a \<le> 0 \<or> gatewaySequence \<le> 1
          then Some (ErrProtocol ''invalid heartbeat acknowledgement'') else None
      | _ \<Rightarrow> Some (ErrProtocol ''invalid heartbeat acknowledgement''))"

section \<open>Status\<close>

record lifecycle_directive =
  le_ID :: string
  le_ConnectionEpoch :: nat
  le_Sequence :: nat
  le_Action :: lifecycle_action
  le_DrainDeadline :: "gotime option"
  le_Reason :: directive_reason

record sup_status =
  ss_Ready :: bool
  ss_Connected :: bool
  ss_ConfirmedHeartbeat :: bool
  ss_Stable :: bool
  ss_ConnectionEpoch :: nat
  ss_LastControlSequence :: nat
  ss_AcknowledgedRuntime :: runtime_state
  ss_DesiredLifecycle :: lifecycle_action
  ss_DesiredStateRevision :: nat
  ss_DesiredStateApplied :: bool
  ss_DesiredStateHealthy :: bool
  ss_Directive :: "lifecycle_directive option"
  ss_LastError :: "sup_err option"

definition lifecycleDirectiveValue :: "wire_directive \<Rightarrow> nat \<Rightarrow> lifecycle_directive" where
  "lifecycleDirectiveValue d sequence =
     \<lparr>le_ID = ld_DirectiveId d, le_ConnectionEpoch = ld_ConnectionEpoch d, le_Sequence = sequence, le_Action = ld_Action d,
      le_DrainDeadline = map_option of_UnixMilli (ld_DrainDeadlineUnixMs d), le_Reason = ld_Reason d\<rparr>"

definition zero_status :: sup_status where
  "zero_status = \<lparr>ss_Ready = False, ss_Connected = False, ss_ConfirmedHeartbeat = False, ss_Stable = False, ss_ConnectionEpoch = 0,
     ss_LastControlSequence = 0, ss_AcknowledgedRuntime = RUNTIME_UNKNOWN, ss_DesiredLifecycle = ACTION_UNKNOWN, ss_DesiredStateRevision = 0,
     ss_DesiredStateApplied = False, ss_DesiredStateHealthy = False, ss_Directive = None, ss_LastError = None\<rparr>"

definition connected :: "control_welcome \<Rightarrow> sup_status" where
  "connected we = zero_status\<lparr>ss_Connected := True, ss_ConnectionEpoch := we_ConnectionEpoch we, ss_LastControlSequence := 1,
     ss_DesiredLifecycle := we_DesiredLifecycle we\<rparr>"

definition desiredStateHealthy :: "state_report \<Rightarrow> bool" where
  "desiredStateHealthy r \<longleftrightarrow> dr_KeystoreHealth r = KEYSTORE_HEALTHY \<and> (\<forall>x\<in>set (dr_Results r). rr_Status x = RECONCILIATION_APPLIED)"

definition desiredStateApplied :: "nat \<Rightarrow> bool \<Rightarrow> sup_status \<Rightarrow> sup_status" where
  "desiredStateApplied revision healthy s =
     s\<lparr>ss_DesiredStateRevision := revision, ss_DesiredStateApplied := True, ss_DesiredStateHealthy := healthy\<rparr>"

definition heartbeatAcknowledged :: "nat \<Rightarrow> runtime_state \<Rightarrow> bool \<Rightarrow> sup_status \<Rightarrow> sup_status" where
  "heartbeatAcknowledged sequence rt isStable s =
     s\<lparr>ss_ConfirmedHeartbeat := True, ss_Stable := isStable, ss_LastControlSequence := sequence, ss_AcknowledgedRuntime := rt,
       ss_Ready := (ss_DesiredLifecycle s = ACTION_RUN \<and> rt = RUNTIME_READY \<and> ss_DesiredStateApplied s \<and> ss_DesiredStateHealthy s)\<rparr>"

definition directiveReceived :: "lifecycle_directive \<Rightarrow> sup_status \<Rightarrow> sup_status" where
  "directiveReceived d s = s\<lparr>ss_LastControlSequence := le_Sequence d, ss_DesiredLifecycle := le_Action d, ss_Directive := Some d, ss_Ready := False\<rparr>"

definition matchesActiveDirective :: "lifecycle_directive \<Rightarrow> sup_status \<Rightarrow> bool" where
  "matchesActiveDirective d s \<longleftrightarrow> ss_Connected s \<and> ss_Directive s = Some d"

definition directiveReported :: "lifecycle_directive \<Rightarrow> sup_status \<Rightarrow> sup_status" where
  "directiveReported d s = (if ss_Directive s = Some d then s\<lparr>ss_Directive := None\<rparr> else s)"

definition disconnected :: "sup_err option \<Rightarrow> sup_status \<Rightarrow> sup_status" where
  "disconnected err s = s\<lparr>ss_Ready := False, ss_Connected := False, ss_ConfirmedHeartbeat := False, ss_Stable := False,
     ss_ConnectionEpoch := 0, ss_LastControlSequence := 0, ss_LastError := err\<rparr>"

definition MarkDesiredStateUnhealthy :: "sup_status \<Rightarrow> sup_status" where
  "MarkDesiredStateUnhealthy s = s\<lparr>ss_DesiredStateHealthy := False, ss_Ready := False\<rparr>"

text \<open>What the waiting functions return once the status allows it; \<open>None\<close>: they go on waiting.\<close>

definition WaitForWelcome :: "sup_status \<Rightarrow> (sup_err + sup_status) option" where
  "WaitForWelcome s =
     (if ss_Connected s then Some (Inr s)
      else case ss_LastError s of Some e \<Rightarrow> if terminal e then Some (Inl e) else None | None \<Rightarrow> None)"

definition WaitForDesiredState :: "nat \<Rightarrow> sup_status \<Rightarrow> (sup_err + sup_status) option" where
  "WaitForDesiredState epoch s =
     (if ss_Connected s \<and> ss_ConnectionEpoch s \<ge> epoch \<and> ss_DesiredStateApplied s then Some (Inr s)
      else case ss_LastError s of Some e \<Rightarrow> if terminal e then Some (Inl e) else None | None \<Rightarrow> None)"

definition WaitForDirective :: "nat \<Rightarrow> sup_status \<Rightarrow> lifecycle_directive option" where
  "WaitForDirective afterSequence s =
     (case ss_Directive s of
        Some d \<Rightarrow> if ss_Connected s \<and> le_Sequence d > afterSequence then Some d else None
      | None \<Rightarrow> None)"

definition WaitForLifecycleChange :: "nat \<Rightarrow> lifecycle_action \<Rightarrow> sup_status \<Rightarrow> sup_status option" where
  "WaitForLifecycleChange epoch desired s =
     (if ss_Connected s \<and> (ss_ConnectionEpoch s \<noteq> epoch \<or> ss_DesiredLifecycle s \<noteq> desired) then Some s else None)"

definition WaitForStatusChange :: "sup_status \<Rightarrow> sup_status \<Rightarrow> sup_status option" where
  "WaitForStatusChange previous s =
     (if ss_Ready s \<noteq> ss_Ready previous \<or> ss_Connected s \<noteq> ss_Connected previous \<or> ss_ConnectionEpoch s \<noteq> ss_ConnectionEpoch previous \<or>
         ss_DesiredLifecycle s \<noteq> ss_DesiredLifecycle previous
      then Some s else None)"

definition WaitForRuntimeAck :: "runtime_state \<Rightarrow> sup_status \<Rightarrow> bool" where
  "WaitForRuntimeAck state s \<longleftrightarrow> ss_Connected s \<and> ss_AcknowledgedRuntime s = state"

text \<open>A turn of \<open>Flush\<close>, which has asked for a report and read \<open>initial\<close> before: \<open>None\<close> when it returns; else the epoch it has
  reported to and whether it asks again.\<close>

definition Flush_turn :: "runtime_state \<Rightarrow> sup_status \<Rightarrow> nat \<Rightarrow> sup_status \<Rightarrow> (nat \<times> bool) option" where
  "Flush_turn state initial lastReportEpoch s =
     (if (ss_Connected s \<and> ss_AcknowledgedRuntime s = state) \<and>
         (ss_ConnectionEpoch s \<noteq> ss_ConnectionEpoch initial \<or> ss_LastControlSequence s > ss_LastControlSequence initial) then None
      else if ss_Connected s \<and> ss_ConnectionEpoch s \<noteq> lastReportEpoch then Some (ss_ConnectionEpoch s, True)
      else Some (lastReportEpoch, False))"

definition validateReport :: "lifecycle_directive \<Rightarrow> runtime_state \<Rightarrow> lifecycle_failure \<Rightarrow> sup_err option" where
  "validateReport d st failure =
     (if le_ID d = [] \<or> le_ConnectionEpoch d = 0 \<or> le_Sequence d = 0 \<or> \<not> validLifecycleAction (le_Action d) \<or>
         \<not> validDirectiveReason (le_Reason d) \<or> \<not> validRuntimeState st
      then Some (ErrProtocol ''invalid lifecycle report'')
      else if failure = FAILURE_UNKNOWN then Some (ErrProtocol ''invalid lifecycle failure'') else None)"

section \<open>The interfaces of a gateway\<close>

record runtime_snapshot =
  rs_State :: runtime_state
  rs_SessionCount :: nat

record journal_pressure =
  jp_State :: wire_journal_state
  jp_Entries :: nat
  jp_Bytes :: nat

text \<open>A journal that is no \<open>AssignmentJournal\<close> has the identity for its last two operations.\<close>

record 'g journal_ops =
  jo_NextEventBatch :: "nat \<Rightarrow> 'g \<Rightarrow> 'g \<times> gateway_event list result"
  jo_AckEvents :: "nat \<Rightarrow> 'g \<Rightarrow> 'g \<times> unit result"
  jo_ResetDesiredAssignments :: "'g \<Rightarrow> 'g"
  jo_SetDesiredAssignments :: "desired_snapshot \<Rightarrow> 'g \<Rightarrow> 'g"

text \<open>\<open>pt_sends\<close> gives the failure of the send of a sequence number: the timeout, the context or the
  broken stream, whose status comes with the next receive.\<close>

record 'g parts =
  pt_EventJournal :: "'g journal_ops option"
  pt_DesiredState :: "(nat \<Rightarrow> desired_snapshot \<Rightarrow> 'g \<Rightarrow> 'g \<times> state_report option result) option"
  pt_Runtime :: "'g \<Rightarrow> runtime_snapshot"
  pt_JournalMetrics :: "('g \<Rightarrow> journal_pressure result) option"
  pt_now :: gotime
  pt_sends :: "nat \<Rightarrow> string option"

record sup_config =
  sc_InstanceID :: string
  sc_SoftwareVersion :: string
  sc_HTTPBaseURL :: string
  sc_GRPCEndpoint :: string
  sc_StartedAt :: gotime
  sc_MinHeartbeat :: duration
  sc_MaxHeartbeat :: duration

text \<open>The checks and defaults of \<open>New\<close>; \<open>bare_origin\<close> is what the URL parser says.\<close>

definition validHTTPBaseURL :: "(string \<Rightarrow> bool) \<Rightarrow> string \<Rightarrow> bool" where
  "validHTTPBaseURL bare_origin raw \<longleftrightarrow> length raw \<le> 512 \<and> \<not> (raw \<noteq> [] \<and> last raw = CHR ''/'') \<and> bare_origin raw"

definition New_supervisor :: "(string \<Rightarrow> bool) \<Rightarrow> gotime \<Rightarrow> sup_config \<Rightarrow> string + sup_config" where
  "New_supervisor bare_origin now cfg =
     (if sc_InstanceID cfg = [] \<or> sc_SoftwareVersion cfg = [] then Inl ''control supervisor: invalid configuration''
      else if sc_HTTPBaseURL cfg \<noteq> [] \<and> \<not> validHTTPBaseURL bare_origin (sc_HTTPBaseURL cfg)
      then Inl ''control supervisor: invalid HTTP base URL''
      else (let cfg' = cfg\<lparr>sc_StartedAt := (if IsZero (sc_StartedAt cfg) then now else sc_StartedAt cfg),
              sc_MinHeartbeat := (if sc_MinHeartbeat cfg \<le> 0 then 100000000 else sc_MinHeartbeat cfg),
              sc_MaxHeartbeat := (if sc_MaxHeartbeat cfg \<le> 0 then 60000000000 else sc_MaxHeartbeat cfg)\<rparr> in
        if sc_MinHeartbeat cfg' > sc_MaxHeartbeat cfg' then Inl ''control supervisor: invalid heartbeat bounds'' else Inr cfg'))"

section \<open>One connection\<close>

record control_session =
  gs_epoch :: nat
  gs_nextGatewaySequence :: nat
  gs_lastGatewaySequence :: nat
  gs_lastControlSequence :: nat
  gs_runtime :: runtime_snapshot
  gs_heartbeatArmed :: bool
  gs_acknowledgedCycles :: nat
  gs_pendingReport :: bool
  gs_eventInFlight :: bool
  gs_expectedEventAck :: nat

record 'g gateway_world =
  gd_parts :: 'g
  gd_sent :: "gateway_frame list"
  gd_status :: sup_status

type_synonym 'g situation = "control_session \<times> 'g gateway_world"
type_synonym 'g step = "'g situation \<Rightarrow> 'g situation \<times> sup_err option"

definition thenG :: "'g step \<Rightarrow> 'g step \<Rightarrow> 'g step" where
  "thenG a b s = (case a s of (s', None) \<Rightarrow> b s' | (s', Some e) \<Rightarrow> (s', Some e))"

definition doneG :: "'g step" where
  "doneG s = (s, None)"

definition gateway_frame_of :: "nat \<Rightarrow> gateway_payload \<Rightarrow> gateway_frame" where
  "gateway_frame_of sequence p = \<lparr>gf_ProtocolVersion = ProtocolVersion, gf_Sequence = sequence, gf_Payload = Some p\<rparr>"

text \<open>\<open>send\<close> of the frame with the next sequence, wrapped as its caller does.\<close>

definition sendG :: "'g parts \<Rightarrow> string \<Rightarrow> (control_session \<Rightarrow> gateway_payload) \<Rightarrow> 'g step" where
  "sendG pt what payload = (\<lambda>(l, w).
     case pt_sends pt (gs_nextGatewaySequence l) of
       Some m \<Rightarrow> ((l, w), Some (OtherErr (what @ '': '' @ m)))
     | None \<Rightarrow> ((l\<lparr>gs_nextGatewaySequence := gs_nextGatewaySequence l + 1\<rparr>,
           w\<lparr>gd_sent := gd_sent w @ [gateway_frame_of (gs_nextGatewaySequence l) (payload l)]\<rparr>), None))"

definition sendEventBatch :: "'g parts \<Rightarrow> 'g step" where
  "sendEventBatch pt = (\<lambda>(l, w).
     case pt_EventJournal pt of
       None \<Rightarrow> ((l, w), None)
     | Some j \<Rightarrow>
         if gs_eventInFlight l then ((l, w), None)
         else (case jo_NextEventBatch j (gs_epoch l) (gd_parts w) of
           (g, Inl e) \<Rightarrow> ((l, w\<lparr>gd_parts := g\<rparr>), Some (OtherErr (''read journal batch: '' @ err_text e)))
         | (g, Inr events) \<Rightarrow>
             if events = [] then ((l, w\<lparr>gd_parts := g\<rparr>), None)
             else thenG (sendG pt ''send journal batch'' (\<lambda>_. EventBatchP events))
               (\<lambda>(l, w). ((l\<lparr>gs_eventInFlight := True, gs_expectedEventAck := ge_JournalSequence (last events)\<rparr>, w), None))
               (l, w\<lparr>gd_parts := g\<rparr>)))"

definition handleEventAck :: "'g parts \<Rightarrow> nat \<Rightarrow> 'g step" where
  "handleEventAck pt q = (\<lambda>(l, w).
     case pt_EventJournal pt of
       None \<Rightarrow> ((l, w), Some (ErrProtocol ''unexpected event acknowledgement''))
     | Some j \<Rightarrow>
         if \<not> gs_eventInFlight l \<or> q \<noteq> gs_expectedEventAck l
         then ((l, w), Some (ErrProtocol ''event acknowledgement does not match in-flight batch''))
         else (case jo_AckEvents j q (gd_parts w) of
           (g, Inl e) \<Rightarrow> ((l, w\<lparr>gd_parts := g\<rparr>), Some (OtherErr (''ack journal events: '' @ err_text e)))
         | (g, Inr _) \<Rightarrow> sendEventBatch pt (l\<lparr>gs_eventInFlight := False, gs_expectedEventAck := 0\<rparr>, w\<lparr>gd_parts := g\<rparr>)))"

definition applyDesiredState :: "'g parts \<Rightarrow> desired_snapshot \<Rightarrow> 'g step" where
  "applyDesiredState pt snapshot = (\<lambda>(l, w).
     case pt_DesiredState pt of
       None \<Rightarrow> ((l, w), Some (ErrProtocol ''received desired state without applier''))
     | Some ap \<Rightarrow>
         (case validateDesiredState snapshot of
           Some e \<Rightarrow> ((l, w), Some e)
         | None \<Rightarrow>
             (case ap (gs_epoch l) snapshot (gd_parts w) of
               (g, Inl e) \<Rightarrow> ((l, w\<lparr>gd_parts := g\<rparr>), Some (OtherErr (''apply desired state: '' @ err_text e)))
             | (g, Inr None) \<Rightarrow> ((l, w\<lparr>gd_parts := g\<rparr>), Some (ErrProtocol ''invalid desired-state report''))
             | (g, Inr (Some report)) \<Rightarrow>
                 if \<not> (dr_ConnectionEpoch report = gs_epoch l \<and> dr_ProcessedRevision report = ds_Revision snapshot)
                 then ((l, w\<lparr>gd_parts := g\<rparr>), Some (ErrProtocol ''invalid desired-state report''))
                 else thenG (sendG pt ''send desired state acknowledgement'' (\<lambda>_. DesiredStateReportP report))
                   (\<lambda>(l, w). ((l, w\<lparr>gd_status := desiredStateApplied (ds_Revision snapshot) (desiredStateHealthy report) (gd_status w)\<rparr>), None))
                   (l, w\<lparr>gd_parts := (case pt_EventJournal pt of None \<Rightarrow> g | Some j \<Rightarrow> jo_SetDesiredAssignments j snapshot g)\<rparr>))))"

definition acknowledgeHeartbeat :: "'g step" where
  "acknowledgeHeartbeat = (\<lambda>(l, w).
     ((l\<lparr>gs_acknowledgedCycles := gs_acknowledgedCycles l + 1, gs_pendingReport := False, gs_heartbeatArmed := True\<rparr>,
       w\<lparr>gd_status := heartbeatAcknowledged (gs_lastControlSequence l) (rs_State (gs_runtime l)) (gs_acknowledgedCycles l + 1 \<ge> 2) (gd_status w)\<rparr>),
      None))"

datatype arrival = Arrived control_frame | StreamClosed | StreamFailed status_err

definition handleFrame :: "'g parts \<Rightarrow> arrival \<Rightarrow> 'g step" where
  "handleFrame pt a = (\<lambda>(l, w).
     case a of
       StreamClosed \<Rightarrow> ((l, w), Some (OtherErr ''control supervisor: stream closed''))
     | StreamFailed e \<Rightarrow> ((l, w), Some (StatusErr ''receive control frame'' e))
     | Arrived frame \<Rightarrow>
         (case validateControl frame (gs_lastControlSequence l + 1) (gs_epoch l) (gs_lastGatewaySequence l) (pt_now pt) of
           Some e \<Rightarrow> ((l, w), Some e)
         | None \<Rightarrow>
             (let l' = l\<lparr>gs_lastControlSequence := cf_Sequence frame\<rparr> in
              case cf_Payload frame of
                Some (EventAckP q) \<Rightarrow> handleEventAck pt q (l', w)
              | Some (DirectiveP d) \<Rightarrow>
                  ((l', w\<lparr>gd_status := directiveReceived (lifecycleDirectiveValue d (cf_Sequence frame)) (gd_status w)\<rparr>), None)
              | Some (SnapshotP s) \<Rightarrow> applyDesiredState pt s (l', w)
              | _ \<Rightarrow> acknowledgeHeartbeat (l', w))))"

definition newGatewayHeartbeat :: "nat \<Rightarrow> nat \<Rightarrow> runtime_snapshot \<Rightarrow> gotime \<Rightarrow> gateway_heartbeat" where
  "newGatewayHeartbeat connectionEpoch lastControlSequence rt now =
     \<lparr>wb_ConnectionEpoch = connectionEpoch, wb_LastControlSequence = lastControlSequence, wb_SentAtUnixMs = UnixMilli now,
      wb_SessionCount = rs_SessionCount rt, wb_RuntimeState = rs_State rt, wb_JournalState = JOURNAL_UNKNOWN, wb_JournalEntries = 0,
      wb_JournalBytes = 0\<rparr>"

definition journalPressure :: "'g parts \<Rightarrow> 'g \<Rightarrow> journal_pressure option" where
  "journalPressure pt g = (case pt_JournalMetrics pt of None \<Rightarrow> None | Some m \<Rightarrow> (case m g of Inl _ \<Rightarrow> None | Inr p \<Rightarrow> Some p))"

definition newHeartbeatFrame :: "'g parts \<Rightarrow> 'g \<Rightarrow> control_session \<Rightarrow> gateway_payload" where
  "newHeartbeatFrame pt g l =
     (let hb = newGatewayHeartbeat (gs_epoch l) (gs_lastControlSequence l) (gs_runtime l) (pt_now pt) in
      HeartbeatP (case journalPressure pt g of
        None \<Rightarrow> hb
      | Some p \<Rightarrow> hb\<lparr>wb_JournalState := jp_State p, wb_JournalEntries := jp_Entries p, wb_JournalBytes := jp_Bytes p\<rparr>))"

definition sendHeartbeat :: "'g parts \<Rightarrow> 'g step" where
  "sendHeartbeat pt = (\<lambda>(l, w).
     let l1 = l\<lparr>gs_runtime := pt_Runtime pt (gd_parts w)\<rparr> in
     if \<not> validRuntimeState (rs_State (gs_runtime l1)) then ((l1, w), Some (ErrProtocol ''invalid runtime state''))
     else thenG (sendG pt ''send heartbeat'' (newHeartbeatFrame pt (gd_parts w)))
       (\<lambda>(l2, w2). thenG (sendEventBatch pt) (\<lambda>(l3, w3). ((l3\<lparr>gs_heartbeatArmed := False\<rparr>, w3), None))
          (l2\<lparr>gs_lastGatewaySequence := gs_nextGatewaySequence l1\<rparr>, w2))
       (l1, w))"

record report_request =
  rq_directive :: lifecycle_directive
  rq_state :: runtime_state
  rq_failure :: lifecycle_failure

definition sendLifecycleReport :: "'g parts \<Rightarrow> report_request \<Rightarrow> 'g step" where
  "sendLifecycleReport pt rq =
     thenG (sendG pt ''send lifecycle report'' (\<lambda>_. LifecycleReportP \<lparr>lr_ConnectionEpoch = le_ConnectionEpoch (rq_directive rq),
        lr_DirectiveId = le_ID (rq_directive rq), lr_State = rq_state rq, lr_Failure = rq_failure rq\<rparr>))
     (\<lambda>(l, w). ((l, w\<lparr>gd_status := directiveReported (rq_directive rq) (gd_status w)\<rparr>), None))"

text \<open>What the select of \<open>loop\<close> can choose. The heartbeat timer fires only while it is armed, and a request
  for a superseded directive is answered without a frame.\<close>

datatype loop_event = CtxDone | LeaseExpired | Received arrival | HeartbeatTick | ReportSignal | LifecycleRequest report_request

definition loop_step :: "'g parts \<Rightarrow> loop_event \<Rightarrow> 'g situation \<Rightarrow> 'g situation \<times> sup_err option option" where
  "loop_step pt ev = (\<lambda>(l, w).
     let continue = (\<lambda>(s, r). (s, map_option Some r)) in
     case ev of
       CtxDone \<Rightarrow> ((l, w), Some None)
     | LeaseExpired \<Rightarrow> ((l, w), Some (Some (OtherErr ''control supervisor: control lease expired'')))
     | Received a \<Rightarrow> continue (handleFrame pt a (l, w))
     | HeartbeatTick \<Rightarrow> if gs_heartbeatArmed l then continue (sendHeartbeat pt (l, w)) else ((l, w), None)
     | ReportSignal \<Rightarrow> if gs_heartbeatArmed l then continue (sendHeartbeat pt (l, w)) else ((l\<lparr>gs_pendingReport := True\<rparr>, w), None)
     | LifecycleRequest rq \<Rightarrow>
         if \<not> matchesActiveDirective (rq_directive rq) (gd_status w) then ((l, w), None)
         else continue (sendLifecycleReport pt rq (l, w)))"

section \<open>Handshake\<close>

definition newHelloFrame :: "sup_config \<Rightarrow> runtime_snapshot \<Rightarrow> gateway_frame" where
  "newHelloFrame cfg rt = gateway_frame_of 1 (HelloP
     \<lparr>wh_InstanceId = sc_InstanceID cfg, wh_SoftwareVersion = sc_SoftwareVersion cfg, wh_Capabilities = [],
      wh_GrpcEndpoint = (if sc_GRPCEndpoint cfg = [] then None else Some (sc_GRPCEndpoint cfg)),
      wh_StartedAtUnixMs = UnixMilli (sc_StartedAt cfg), wh_SessionCount = rs_SessionCount rt, wh_RuntimeState = rs_State rt,
      wh_HttpBaseUrl = (if sc_HTTPBaseURL cfg = [] then None else Some (sc_HTTPBaseURL cfg))\<rparr>)"

definition millis :: "nat \<Rightarrow> duration" where
  "millis n = int n * 1000000"

text \<open>The first half of \<open>openSession\<close>: reset the journal's assignments and send the hello.\<close>

definition say_hello :: "sup_config \<Rightarrow> 'g parts \<Rightarrow> 'g gateway_world \<Rightarrow> 'g gateway_world \<times> (sup_err + runtime_snapshot)" where
  "say_hello cfg pt w =
     (let w1 = w\<lparr>gd_parts := (case pt_EventJournal pt of None \<Rightarrow> gd_parts w | Some j \<Rightarrow> jo_ResetDesiredAssignments j (gd_parts w))\<rparr>;
          rt = pt_Runtime pt (gd_parts w1) in
      if \<not> validRuntimeState (rs_State rt) then (w1, Inl (ErrProtocol ''invalid runtime state''))
      else case pt_sends pt 1 of
        Some m \<Rightarrow> (w1, Inl (OtherErr (''send hello: '' @ m)))
      | None \<Rightarrow> (w1\<lparr>gd_sent := gd_sent w1 @ [newHelloFrame cfg rt]\<rparr>, Inr rt))"

definition receiveWelcome :: "arrival \<Rightarrow> sup_err + control_frame" where
  "receiveWelcome a =
     (case a of
        Arrived f \<Rightarrow> Inr f
      | StreamClosed \<Rightarrow> Inl (OtherErr ''receive welcome: EOF'')
      | StreamFailed e \<Rightarrow> Inl (StatusErr ''receive welcome'' e))"

definition fresh_session :: "nat \<Rightarrow> runtime_snapshot \<Rightarrow> control_welcome \<Rightarrow> control_session" where
  "fresh_session sequence rt we =
     \<lparr>gs_epoch = we_ConnectionEpoch we, gs_nextGatewaySequence = 2, gs_lastGatewaySequence = 1, gs_lastControlSequence = sequence,
      gs_runtime = rt, gs_heartbeatArmed = True, gs_acknowledgedCycles = 0, gs_pendingReport = False, gs_eventInFlight = False,
      gs_expectedEventAck = 0\<rparr>"

text \<open>The second half: the welcome and its timing make the session.\<close>

definition enter_session :: "sup_config \<Rightarrow> runtime_snapshot \<Rightarrow> arrival \<Rightarrow> 'g gateway_world \<Rightarrow> 'g gateway_world \<times> (sup_err + control_session)" where
  "enter_session cfg rt a w =
     (case receiveWelcome a of
        Inl e \<Rightarrow> (w, Inl e)
      | Inr frame \<Rightarrow>
          (case validateWelcome frame of
            Inl e \<Rightarrow> (w, Inl e)
          | Inr we \<Rightarrow>
              (let heartbeatInterval = millis (we_HeartbeatIntervalMs we); leaseTimeout = millis (we_LeaseTimeoutMs we) in
               if heartbeatInterval < sc_MinHeartbeat cfg \<or> heartbeatInterval > sc_MaxHeartbeat cfg
               then (w, Inl (ErrProtocol ''invalid heartbeat interval''))
               else if leaseTimeout \<le> heartbeatInterval then (w, Inl (ErrProtocol ''invalid lease timeout''))
               else (w\<lparr>gd_status := connected we\<rparr>,
                 Inr (fresh_session (cf_Sequence frame) rt we)))))"

section \<open>The replacement proof\<close>

text \<open>\<open>ProveCurrentConnection\<close> after its hello: the welcome, its timing, one heartbeat and the
  acknowledgement, before which only snapshots may come. \<open>send\<close> is the failure of the heartbeat's send; the list ends where the context or the
  deadline ends the wait.\<close>

fun awaitReplacementAck :: "gotime \<Rightarrow> nat \<Rightarrow> nat \<Rightarrow> arrival list \<Rightarrow> sup_err option" where
  "awaitReplacementAck now epoch previous [] = Some (OtherErr ''control supervisor: replacement heartbeat acknowledgement timeout'')"
| "awaitReplacementAck now epoch previous (a # rest) =
     (case a of
        StreamClosed \<Rightarrow> Some (OtherErr ''receive replacement heartbeat acknowledgement: EOF'')
      | StreamFailed e \<Rightarrow> Some (StatusErr ''receive replacement heartbeat acknowledgement'' e)
      | Arrived frame \<Rightarrow>
          (case validateControl frame (previous + 1) epoch 2 now of
            Some e \<Rightarrow> Some e
          | None \<Rightarrow>
              (case cf_Payload frame of
                 Some (SnapshotP _) \<Rightarrow> awaitReplacementAck now epoch (cf_Sequence frame) rest
               | Some (HeartbeatAckP _) \<Rightarrow> None
               | _ \<Rightarrow> Some (ErrProtocol ''replacement control frame is not a heartbeat acknowledgement''))))"

definition prove_replacement :: "sup_config \<Rightarrow> gotime \<Rightarrow> string option \<Rightarrow> arrival \<Rightarrow> arrival list \<Rightarrow> sup_err option" where
  "prove_replacement cfg now send first rest =
     (case (case first of Arrived f \<Rightarrow> Inr f | StreamClosed \<Rightarrow> Inl (OtherErr ''receive replacement welcome: EOF'')
            | StreamFailed e \<Rightarrow> Inl (StatusErr ''receive replacement welcome'' e)) of
        Inl e \<Rightarrow> Some e
      | Inr frame \<Rightarrow>
          (case validateWelcome frame of
            Inl e \<Rightarrow> Some e
          | Inr we \<Rightarrow>
              if millis (we_HeartbeatIntervalMs we) < sc_MinHeartbeat cfg \<or> millis (we_HeartbeatIntervalMs we) > sc_MaxHeartbeat cfg \<or>
                 millis (we_LeaseTimeoutMs we) \<le> millis (we_HeartbeatIntervalMs we)
              then Some (ErrProtocol ''invalid replacement timing'')
              else (case send of
                Some m \<Rightarrow> Some (OtherErr (''send replacement heartbeat: '' @ m))
              | None \<Rightarrow> awaitReplacementAck now (we_ConnectionEpoch we) (cf_Sequence frame) rest)))"

section \<open>Reconnecting\<close>

record backoff =
  bo_Min :: duration
  bo_Max :: duration

primrec double_delay :: "duration \<Rightarrow> nat \<Rightarrow> duration \<Rightarrow> duration" where
  "double_delay mx 0 delay = delay"
| "double_delay mx (Suc n) delay = (if delay \<ge> go_quot mx 2 then delay else double_delay mx n (delay * 2))"

text \<open>\<open>Delay\<close> before its jitter, which takes a random part of it.\<close>

definition Delay :: "backoff \<Rightarrow> nat \<Rightarrow> duration" where
  "Delay b attempt =
     (let mn = (if bo_Min b \<le> 0 then 250000000 else bo_Min b);
          mx = (if bo_Max b < mn then 30000000000 else bo_Max b);
          delay = double_delay mx attempt mn
      in if delay > mx then mx else delay)"

text \<open>\<open>Run\<close>: how each connection ended (its error, whether it was stable, whether the context is over), and the
  delays in between. \<open>None\<close>: still reconnecting.\<close>

fun Run :: "backoff \<Rightarrow> nat \<Rightarrow> (sup_err option \<times> bool \<times> bool) list \<Rightarrow> duration list \<times> sup_err option option" where
  "Run b attempt [] = ([], None)"
| "Run b attempt ((err, isStable, ctxDone) # ends) =
     (if ctxDone then ([], Some None)
      else if (case err of None \<Rightarrow> False | Some e \<Rightarrow> terminal e) then ([], Some err)
      else (let attempt' = (if isStable then 0 else attempt); (ds, r) = Run b (attempt' + 1) ends in (Delay b attempt' # ds, r)))"

section \<open>Directives\<close>

text \<open>\<open>runControlDirectives\<close> of cmd/gateway/main.go: what is reported for a directive, given whether the
  manager was shut down before and the state the keystore allows.\<close>

definition directive_outcome :: "bool \<Rightarrow> runtime_state \<Rightarrow> lifecycle_directive \<Rightarrow> runtime_state \<times> lifecycle_failure" where
  "directive_outcome shutDown readyState d =
     (if le_Action d = ACTION_RUN
      then (if shutDown then (RUNTIME_DRAINED, FAILURE_BUSY) else (readyState, FAILURE_NONE))
      else (RUNTIME_DRAINED, FAILURE_NONE))"

text \<open>\<open>RuntimeState\<close> of cmd/gateway/keystore_runtime.go.\<close>

definition keystore_runtime_state :: "keystore_health \<Rightarrow> bool \<Rightarrow> runtime_state" where
  "keystore_runtime_state health reconciled = (if health \<noteq> KEYSTORE_HEALTHY \<or> \<not> reconciled then RUNTIME_DEGRADED else RUNTIME_READY)"

text \<open>One turn of its loop: the directive it takes, the request it makes and the sequence it waits beyond.\<close>

definition take_directive :: "bool \<Rightarrow> runtime_state \<Rightarrow> nat \<Rightarrow> sup_status \<Rightarrow> (report_request \<times> nat) option" where
  "take_directive shutDown readyState afterSequence s =
     map_option (\<lambda>d. (\<lparr>rq_directive = d, rq_state = fst (directive_outcome shutDown readyState d),
         rq_failure = snd (directive_outcome shutDown readyState d)\<rparr>, le_Sequence d))
       (WaitForDirective afterSequence s)"

section \<open>Readiness\<close>

text \<open>What changes the status of a supervisor.\<close>

datatype status_change = Connected control_welcome | Applied nat bool | Acknowledged nat runtime_state bool
  | Directed lifecycle_directive | Reported lifecycle_directive | Disconnected "sup_err option" | Unhealthy

fun change_status :: "status_change \<Rightarrow> sup_status \<Rightarrow> sup_status" where
  "change_status (Connected we) s = connected we"
| "change_status (Applied revision healthy) s = desiredStateApplied revision healthy s"
| "change_status (Acknowledged sequence rt isStable) s = heartbeatAcknowledged sequence rt isStable s"
| "change_status (Directed d) s = directiveReceived d s"
| "change_status (Reported d) s = directiveReported d s"
| "change_status (Disconnected e) s = disconnected e s"
| "change_status Unhealthy s = MarkDesiredStateUnhealthy s"

definition ready_inv :: "sup_status \<Rightarrow> bool" where
  "ready_inv s \<longleftrightarrow> (ss_Ready s \<longrightarrow> ss_ConfirmedHeartbeat s \<and> ss_DesiredLifecycle s = ACTION_RUN \<and>
     ss_AcknowledgedRuntime s = RUNTIME_READY \<and> ss_DesiredStateApplied s)"

lemma ready_inv_change: "ready_inv s \<Longrightarrow> ready_inv (change_status c s)"
  by (cases c) (auto simp: ready_inv_def connected_def zero_status_def desiredStateApplied_def heartbeatAcknowledged_def directiveReceived_def
      directiveReported_def disconnected_def MarkDesiredStateUnhealthy_def)

text \<open>Whatever happens to it, a supervisor is ready only while the API has acknowledged a heartbeat of the current connection
  that said READY, the desired lifecycle is RUN and a snapshot has been applied on the connection; losing the connection, a lease
  or receiving a directive ends readiness at once.\<close>

theorem ready_only_confirmed:
  assumes "s = fold change_status changes zero_status"
  shows "(ss_Ready s \<longrightarrow> ss_ConfirmedHeartbeat s \<and> ss_DesiredLifecycle s = ACTION_RUN \<and> ss_AcknowledgedRuntime s = RUNTIME_READY \<and>
      ss_DesiredStateApplied s) \<and>
    \<not> ss_Ready (connected we) \<and> \<not> ss_Ready (disconnected e s) \<and> \<not> ss_Ready (directiveReceived d s) \<and> \<not> ss_Ready (MarkDesiredStateUnhealthy s)"
proof -
  have "ready_inv (fold change_status changes s)" if "ready_inv s" for s
    using that by (induction changes arbitrary: s) (auto intro: ready_inv_change)
  moreover have "ready_inv zero_status" by (simp add: ready_inv_def zero_status_def)
  ultimately have "ready_inv s" using assms by blast
  then show ?thesis
    by (simp add: ready_inv_def connected_def zero_status_def disconnected_def directiveReceived_def MarkDesiredStateUnhealthy_def)
qed

text \<open>A supervisor that becomes ready: connected, a snapshot applied, its heartbeat acknowledged.\<close>

definition demo_ready :: sup_status where
  "demo_ready = fold change_status
     [Connected \<lparr>we_ConnectionId = ''c'', we_ConnectionEpoch = 3, we_HeartbeatIntervalMs = 10000, we_LeaseTimeoutMs = 30000,
        we_DesiredLifecycle = ACTION_RUN, we_ServerTimeUnixMs = 1\<rparr>, Applied 5 True, Acknowledged 3 RUNTIME_READY False] zero_status"

theorem ready_only_confirmed_witness:
  "ss_Ready demo_ready \<and> ss_ConfirmedHeartbeat demo_ready \<and> ss_DesiredStateApplied demo_ready"
proof -
  have "ss_Ready demo_ready"
    by (simp add: demo_ready_def connected_def desiredStateApplied_def heartbeatAcknowledged_def)
  with ready_only_confirmed[OF demo_ready_def] show ?thesis by blast
qed

end
