(* ===== verification/ControlLink.thy ===== *)
theory ControlLink
  imports ControlServer ControlSupervisor
begin

text \<open>
  One control connection with both its ends: the API's handler and the gateway's loop, joined by two
  ordered streams, as a step relation; what the ends rely on in their store, journal, applier and clock; and
  the invariant of a connection with its gateway half: what the gateway accepts, and what it sends.
\<close>

section \<open>Contracts\<close>

text \<open>What the handler relies on in the store: an accepted connection has timing the gateway's configuration allows,
  a snapshot names a session once and a session to run has a device, and only the clock's positive times are used. A store that
  answers \<open>ErrUnauthorized\<close> is left out: it tells a gateway that is not enrolled to give up.\<close>

definition authorized :: "'a result \<Rightarrow> bool" where
  "authorized r \<longleftrightarrow> (case r of Inl e \<Rightarrow> \<not> err_is ''gateway unauthorized'' e | Inr _ \<Rightarrow> True)"

definition timely :: "sup_config \<Rightarrow> control_connection \<Rightarrow> bool" where
  "timely cfg c \<longleftrightarrow> co_LeaseTimeout c \<ge> 1000000 \<and> sc_MinHeartbeat cfg \<le> millis (durationMillis (co_HeartbeatInterval c)) \<and>
     millis (durationMillis (co_HeartbeatInterval c)) \<le> sc_MaxHeartbeat cfg \<and>
     durationMillis (co_HeartbeatInterval c) < durationMillis (co_LeaseTimeout c)"

definition startable :: "desired_state_value \<Rightarrow> bool" where
  "startable d \<longleftrightarrow> distinct (map dv_SessionID (dt_Assignments d)) \<and>
     (\<forall>a\<in>set (dt_Assignments d). dv_DesiredAction a = SESSION_DESIRED_ACTION_RUN \<longrightarrow> dv_DeviceJID a \<noteq> [])"

definition good_env :: "sup_config \<Rightarrow> 's step_env \<Rightarrow> bool" where
  "good_env cfg env \<longleftrightarrow> UnixMilli (se_now env) > 0 \<and>
     (\<forall>gid h s. authorized (snd (st_Accept (se_store env) gid h s))) \<and>
     (\<forall>gid h s s' c. st_Accept (se_store env) gid h s = (s', Inr c) \<longrightarrow> timely cfg c) \<and>
     (\<forall>gid ep v s. authorized (snd (st_Heartbeat (se_store env) gid ep v s))) \<and>
     (\<forall>gid ep r t s. authorized (snd (st_DesiredState (se_store env) gid ep r t s))) \<and>
     (\<forall>gid ep r t s s' d. st_DesiredState (se_store env) gid ep r t s = (s', Inr d) \<longrightarrow> startable d) \<and>
     (\<forall>gid ep v s. authorized (snd (st_PersistDesiredStateReport (se_store env) gid ep v s))) \<and>
     (\<forall>gid ep v s. authorized (snd (st_IngestEvents (se_store env) gid ep v s))) \<and>
     (\<forall>gid ep v s. authorized (snd (st_Lifecycle (se_store env) gid ep v s)))"

text \<open>What the gateway's parts promise: valid runtime states and telemetry, batches the API accepts (for the journal: by
  \<open>journal_batches_valid\<close>), and reports of the connection and snapshot they answer.\<close>

definition good_batches :: "(gateway_event list \<Rightarrow> nat) \<Rightarrow> string \<Rightarrow> 'g journal_ops \<Rightarrow> bool" where
  "good_batches psize gid j \<longleftrightarrow>
     (\<forall>ep g g' b. jo_NextEventBatch j ep g = (g', Inr b) \<longrightarrow> b \<noteq> [] \<longrightarrow> (\<exists>evs. eventBatch psize b gid ep = Inr evs))"

definition good_parts :: "(gateway_event list \<Rightarrow> nat) \<Rightarrow> string \<Rightarrow> 'g parts \<Rightarrow> bool" where
  "good_parts psize gid pt \<longleftrightarrow>
     0 < UnixMilli (pt_now pt) \<and> UnixMilli (pt_now pt) \<le> maxUnixMillis \<and>
     (\<exists>j. pt_EventJournal pt = Some j \<and> good_batches psize gid j) \<and>
     (\<exists>ap. pt_DesiredState pt = Some ap \<and> (\<forall>ep s g g' r. ap ep s g = (g', Inr r) \<longrightarrow>
        (\<exists>x. r = Some x \<and> dr_ConnectionEpoch x = ep \<and> dr_ProcessedRevision x = ds_Revision s \<and> dr_KeystoreHealth x \<noteq> KEYSTORE_UNKNOWN))) \<and>
     (\<forall>g. rs_State (pt_Runtime pt g) \<noteq> RUNTIME_UNKNOWN) \<and>
     (\<forall>g p. journalPressure pt g = Some p \<longrightarrow> jp_State p \<noteq> JOURNAL_UNNAMED \<and>
        (jp_State p = JOURNAL_UNKNOWN \<longrightarrow> jp_Entries p = 0 \<and> jp_Bytes p = 0))"

text \<open>A request for a lifecycle report, as \<open>ReportLifecycle\<close> admits it, whose success is the state the
  directive asks for.\<close>

definition good_request :: "report_request \<Rightarrow> bool" where
  "good_request rq \<longleftrightarrow> validateReport (rq_directive rq) (rq_state rq) (rq_failure rq) = None \<and>
     (rq_failure rq = FAILURE_NONE \<longrightarrow> lifecycleActionSatisfied (le_Action (rq_directive rq)) (rq_state rq))"

definition transport_error :: "status_err \<Rightarrow> bool" where
  "transport_error e \<longleftrightarrow> status_code e \<notin> {Unauthenticated, PermissionDenied, InvalidArgument, FailedPrecondition}"

section \<open>The connection\<close>

datatype server_phase = AwaitHello | Serving serving | ServerOver "status_err option"
datatype gateway_phase = AwaitWelcome runtime_snapshot | InSession control_session | GatewayOver "sup_err option"

text \<open>The last two fields are history: the batches the store has taken without an error, and the journal sequences
  the gateway was told to drop.\<close>

record ('s, 'g) link =
  lk_server :: server_phase
  lk_store :: 's
  lk_gateway :: gateway_phase
  lk_parts :: 'g
  lk_status :: sup_status
  lk_up :: "gateway_frame list"
  lk_down :: "control_frame list"
  lk_ingested :: "gateway_event list list"
  lk_dropped :: "nat list"

text \<open>\<open>Connect\<close> on the first frame, before its loop.\<close>

definition connect_first :: "(string \<Rightarrow> bool) \<Rightarrow> 's step_env \<Rightarrow> string \<Rightarrow> gateway_frame \<Rightarrow> ('s, serving) action" where
  "connect_first bare_origin env gid frame =
     bindA (accept_hello bare_origin env gid frame) (\<lambda>c.
       refuseA (invalid_allocation c) (Status InternalCode ''invalid gateway connection allocation'') (greet env gid c))"

definition server_result :: "status_err + serving \<Rightarrow> server_phase" where
  "server_result r = (case r of Inl e \<Rightarrow> ServerOver (Some e) | Inr sv \<Rightarrow> Serving sv)"

definition gateway_result :: "control_session \<Rightarrow> sup_err option option \<Rightarrow> gateway_phase" where
  "gateway_result l r = (case r of None \<Rightarrow> InSession l | Some e \<Rightarrow> GatewayOver e)"

definition batch_in :: "(gateway_event list \<Rightarrow> nat) \<Rightarrow> 's step_env \<Rightarrow> serving \<Rightarrow> 's \<Rightarrow> gateway_frame \<Rightarrow> gateway_event list list" where
  "batch_in psize env sv s f =
     (case gf_Payload f of
        Some (EventBatchP b) \<Rightarrow>
          (case eventBatch psize b (sv_gatewayID sv) (co_Epoch (sv_connection sv)) of
             Inr evs \<Rightarrow> (case snd (st_IngestEvents (se_store env) (sv_gatewayID sv) (co_Epoch (sv_connection sv)) evs s) of Inr _ \<Rightarrow> [b] | Inl _ \<Rightarrow> [])
           | Inl _ \<Rightarrow> [])
      | _ \<Rightarrow> [])"

definition drops_of :: "control_frame \<Rightarrow> nat list" where
  "drops_of f = (case cf_Payload f of Some (EventAckP q) \<Rightarrow> [q] | _ \<Rightarrow> [])"

definition local_event :: "loop_event \<Rightarrow> bool" where
  "local_event ev \<longleftrightarrow>
     (case ev of Received (Arrived _) \<Rightarrow> False | Received StreamClosed \<Rightarrow> True | Received (StreamFailed e) \<Rightarrow> transport_error e
      | LifecycleRequest rq \<Rightarrow> good_request rq | _ \<Rightarrow> True)"

definition end_arrival :: "status_err option \<Rightarrow> arrival" where
  "end_arrival r = (case r of None \<Rightarrow> StreamClosed | Some e \<Rightarrow> StreamFailed e)"

definition local_end :: "incoming \<Rightarrow> bool" where
  "local_end i \<longleftrightarrow> (case i of Frame _ \<Rightarrow> False | RecvFailed e \<Rightarrow> transport_error e | _ \<Rightarrow> True)"

text \<open>One turn of an end: the API takes the next frame of the gateway, the gateway the next one of the API,
  or something else happens to the gateway.\<close>

definition server_takes :: "(string \<Rightarrow> bool) \<Rightarrow> (gateway_event list \<Rightarrow> nat) \<Rightarrow> string \<Rightarrow> 's step_env \<Rightarrow> ('s, 'g) link \<Rightarrow> ('s, 'g) link" where
  "server_takes bare_origin psize gid env k =
     (case lk_up k of
        [] \<Rightarrow> k
      | f # up \<Rightarrow>
          (case lk_server k of
             AwaitHello \<Rightarrow>
               (case connect_first bare_origin env gid f \<lparr>sw_store = lk_store k, sw_sent = []\<rparr> of (w, r) \<Rightarrow>
                  k\<lparr>lk_server := server_result r, lk_store := sw_store w, lk_up := up, lk_down := lk_down k @ sw_sent w\<rparr>)
           | Serving sv \<Rightarrow>
               (case handle_frame psize env f sv \<lparr>sw_store = lk_store k, sw_sent = []\<rparr> of (w, r) \<Rightarrow>
                  k\<lparr>lk_server := server_result r, lk_store := sw_store w, lk_up := up, lk_down := lk_down k @ sw_sent w,
                    lk_ingested := lk_ingested k @ batch_in psize env sv (lk_store k) f\<rparr>)
           | ServerOver _ \<Rightarrow> k))"

definition gateway_takes :: "sup_config \<Rightarrow> 'g parts \<Rightarrow> ('s, 'g) link \<Rightarrow> ('s, 'g) link" where
  "gateway_takes cfg pt k =
     (case lk_down k of
        [] \<Rightarrow> k
      | f # down \<Rightarrow>
          (case lk_gateway k of
             AwaitWelcome rt \<Rightarrow>
               (case enter_session cfg rt (Arrived f) \<lparr>gd_parts = lk_parts k, gd_sent = [], gd_status = lk_status k\<rparr> of (w, r) \<Rightarrow>
                  k\<lparr>lk_gateway := (case r of Inl e \<Rightarrow> GatewayOver (Some e) | Inr l \<Rightarrow> InSession l), lk_parts := gd_parts w,
                    lk_status := gd_status w, lk_down := down\<rparr>)
           | InSession l \<Rightarrow>
               (case loop_step pt (Received (Arrived f)) (l, \<lparr>gd_parts = lk_parts k, gd_sent = [], gd_status = lk_status k\<rparr>) of ((l', w), r) \<Rightarrow>
                  k\<lparr>lk_gateway := gateway_result l' r, lk_parts := gd_parts w, lk_status := gd_status w, lk_up := lk_up k @ gd_sent w,
                    lk_down := down, lk_dropped := lk_dropped k @ drops_of f\<rparr>)
           | GatewayOver _ \<Rightarrow> k))"

definition gateway_does :: "'g parts \<Rightarrow> loop_event \<Rightarrow> ('s, 'g) link \<Rightarrow> ('s, 'g) link" where
  "gateway_does pt ev k =
     (case lk_gateway k of
        InSession l \<Rightarrow>
          (case loop_step pt ev (l, \<lparr>gd_parts = lk_parts k, gd_sent = [], gd_status = lk_status k\<rparr>) of ((l', w), r) \<Rightarrow>
             k\<lparr>lk_gateway := gateway_result l' r, lk_parts := gd_parts w, lk_status := gd_status w, lk_up := lk_up k @ gd_sent w\<rparr>)
      | _ \<Rightarrow> k)"

inductive link_step :: "sup_config \<Rightarrow> (string \<Rightarrow> bool) \<Rightarrow> (gateway_event list \<Rightarrow> nat) \<Rightarrow> string \<Rightarrow> ('s, 'g) link \<Rightarrow> ('s, 'g) link \<Rightarrow> bool"
  for cfg bare_origin psize gid where
  api_turn: "good_env cfg env \<Longrightarrow> link_step cfg bare_origin psize gid k (server_takes bare_origin psize gid env k)"
| hello_lost: "lk_server k = AwaitHello \<Longrightarrow> local_end i \<Longrightarrow> i = EndOfStream \<longrightarrow> (\<exists>r. lk_gateway k = GatewayOver r) \<Longrightarrow> receive_hello i = Inl e \<Longrightarrow>
    link_step cfg bare_origin psize gid k (k\<lparr>lk_server := ServerOver (Some e)\<rparr>)"
| api_ends: "lk_server k = Serving sv \<Longrightarrow> local_end i \<Longrightarrow>
    serve psize [(env, i)] sv \<lparr>sw_store = lk_store k, sw_sent = []\<rparr> = (w, Some r) \<Longrightarrow>
    link_step cfg bare_origin psize gid k (k\<lparr>lk_server := ServerOver r\<rparr>)"
| others_move: "link_step cfg bare_origin psize gid k (k\<lparr>lk_store := s, lk_parts := g\<rparr>)"
| gateway_turn: "good_parts psize gid pt \<Longrightarrow> link_step cfg bare_origin psize gid k (gateway_takes cfg pt k)"
| gateway_event: "good_parts psize gid pt \<Longrightarrow> local_event ev \<Longrightarrow> link_step cfg bare_origin psize gid k (gateway_does pt ev k)"
| gateway_told: "lk_down k = [] \<Longrightarrow> lk_server k = ServerOver s \<Longrightarrow>
    link_step cfg bare_origin psize gid k (gateway_does pt (Received (end_arrival s)) k)"
| welcome_lost: "lk_gateway k = AwaitWelcome rt \<Longrightarrow>
    a = end_arrival s \<and> lk_down k = [] \<and> lk_server k = ServerOver s \<or> a = StreamClosed \<or> (\<exists>e. a = StreamFailed e \<and> transport_error e) \<Longrightarrow>
    receiveWelcome a = Inl e \<Longrightarrow>
    link_step cfg bare_origin psize gid k (k\<lparr>lk_gateway := GatewayOver (Some e)\<rparr>)"
| gives_up: "lk_gateway k = AwaitWelcome rt \<Longrightarrow> r = None \<or> r = Some (OtherErr ''control supervisor: welcome timeout'') \<Longrightarrow>
    link_step cfg bare_origin psize gid k (k\<lparr>lk_gateway := GatewayOver r\<rparr>)"

section \<open>The invariant\<close>

fun numbered :: "nat \<Rightarrow> nat list \<Rightarrow> bool" where
  "numbered n [] = True"
| "numbered n (x # xs) = (x = n \<and> numbered (Suc n) xs)"

lemma numbered_append [simp]: "numbered n (xs @ ys) \<longleftrightarrow> numbered n xs \<and> numbered (n + length xs) ys"
  by (induction xs arbitrary: n) auto

definition beat :: "gateway_frame \<Rightarrow> bool" where
  "beat f = (case gf_Payload f of Some (HeartbeatP _) \<Rightarrow> True | _ \<Rightarrow> False)"
definition events :: "gateway_frame \<Rightarrow> bool" where
  "events f = (case gf_Payload f of Some (EventBatchP _) \<Rightarrow> True | _ \<Rightarrow> False)"
definition reported :: "gateway_frame \<Rightarrow> bool" where
  "reported f = (case gf_Payload f of Some (LifecycleReportP _) \<Rightarrow> True | _ \<Rightarrow> False)"
definition beat_ack :: "control_frame \<Rightarrow> bool" where
  "beat_ack f = (case cf_Payload f of Some (HeartbeatAckP _) \<Rightarrow> True | _ \<Rightarrow> False)"
definition event_ack :: "control_frame \<Rightarrow> bool" where
  "event_ack f = (case cf_Payload f of Some (EventAckP _) \<Rightarrow> True | _ \<Rightarrow> False)"
definition directed :: "control_frame \<Rightarrow> bool" where
  "directed f = (case cf_Payload f of Some (DirectiveP _) \<Rightarrow> True | _ \<Rightarrow> False)"

definition count :: "('a \<Rightarrow> bool) \<Rightarrow> 'a list \<Rightarrow> nat" where
  "count P xs = length (filter P xs)"

lemma count_simps [simp]:
  "count P [] = 0" "count P (x # xs) = of_bool (P x) + count P xs" "count P (xs @ ys) = count P xs + count P ys"
  by (simp_all add: count_def)

lemma count_0: "count P xs = 0 \<longleftrightarrow> (\<forall>x\<in>set xs. \<not> P x)"
  by (induction xs) (auto simp: count_def)

text \<open>Frames on their way to the gateway are what it will accept. A heartbeat acknowledgement is for its last
  heartbeat and an event acknowledgement for its batch in flight.\<close>

definition down_ok :: "control_session \<Rightarrow> control_frame \<Rightarrow> bool" where
  "down_ok l f \<longleftrightarrow> cf_ProtocolVersion f = ProtocolVersion \<and>
     (case cf_Payload f of
        Some (DirectiveP d) \<Rightarrow> ld_DirectiveId d \<noteq> [] \<and> ld_ConnectionEpoch d = gs_epoch l \<and> validLifecycleAction (ld_Action d) \<and>
          validDirectiveReason (ld_Reason d) \<and> ld_DrainDeadlineUnixMs d = None
      | Some (HeartbeatAckP a) \<Rightarrow> ha_ConnectionEpoch a = gs_epoch l \<and> ha_AcknowledgedGatewaySequence a = gs_lastGatewaySequence l \<and>
          ha_ServerTimeUnixMs a > 0 \<and> gs_lastGatewaySequence l > 1
      | Some (SnapshotP s) \<Rightarrow> validateDesiredState s = None
      | Some (EventAckP q) \<Rightarrow> q \<noteq> 0 \<and> gs_eventInFlight l \<and> q = gs_expectedEventAck l
      | _ \<Rightarrow> False)"

definition gateway_inv :: "control_session \<Rightarrow> control_frame list \<Rightarrow> bool" where
  "gateway_inv l down \<longleftrightarrow> gs_epoch l \<noteq> 0 \<and> numbered (gs_lastControlSequence l + 1) (map cf_Sequence down) \<and> (\<forall>f\<in>set down. down_ok l f) \<and>
     count beat_ack down + of_bool (gs_heartbeatArmed l) \<le> 1 \<and> count event_ack down + of_bool (\<not> gs_eventInFlight l) \<le> 1"

text \<open>Frames on their way to the API are what it will accept.\<close>

definition up_ok :: "(gateway_event list \<Rightarrow> nat) \<Rightarrow> serving \<Rightarrow> control_session \<Rightarrow> gateway_frame \<Rightarrow> bool" where
  "up_ok psize sv l f \<longleftrightarrow> gf_ProtocolVersion f = ProtocolVersion \<and>
     (case gf_Payload f of
        Some (HeartbeatP h) \<Rightarrow> validateHeartbeat h = None \<and> wb_ConnectionEpoch h = co_Epoch (sv_connection sv) \<and>
          sv_lastAcknowledgedControlSequence sv \<le> wb_LastControlSequence h \<and> wb_LastControlSequence h \<le> gs_lastControlSequence l \<and>
          gf_Sequence f = gs_lastGatewaySequence l
      | Some (DesiredStateReportP r) \<Rightarrow> validateDesiredStateReport r (co_Epoch (sv_connection sv)) = None
      | Some (EventBatchP b) \<Rightarrow> (\<exists>evs. eventBatch psize b (sv_gatewayID sv) (co_Epoch (sv_connection sv)) = Inr evs) \<and>
          gs_eventInFlight l \<and> ge_JournalSequence (last b) = gs_expectedEventAck l
      | Some (LifecycleReportP r) \<Rightarrow> (\<exists>d. sv_pendingDirective sv = Some d \<and> validateLifecycleReport r (co_Epoch (sv_connection sv)) d = None)
      | _ \<Rightarrow> False)"

definition directive_known :: "serving \<Rightarrow> string \<Rightarrow> nat \<Rightarrow> lifecycle_action \<Rightarrow> bool" where
  "directive_known sv i ep a \<longleftrightarrow> ep = co_Epoch (sv_connection sv) \<and> sv_pendingDirective sv = Some \<lparr>id_id = i, id_action = a\<rparr>"

definition pair_inv :: "(gateway_event list \<Rightarrow> nat) \<Rightarrow> string \<Rightarrow> serving \<Rightarrow> control_session \<Rightarrow> sup_status \<Rightarrow> gateway_frame list \<Rightarrow> control_frame list \<Rightarrow> bool" where
  "pair_inv psize gid sv l st up down \<longleftrightarrow>
     sv_gatewayID sv = gid \<and> gs_epoch l = co_Epoch (sv_connection sv) \<and> co_Epoch (sv_connection sv) \<noteq> 0 \<and> co_ID (sv_connection sv) \<noteq> [] \<and>
     co_LeaseTimeout (sv_connection sv) \<ge> 1000000 \<and>
     sv_outboundSequence sv = gs_lastControlSequence l + length down \<and> sv_lastAcknowledgedControlSequence sv \<le> gs_lastControlSequence l \<and>
     sv_expected sv > 1 \<and> gs_nextGatewaySequence l = sv_expected sv + length up \<and> numbered (sv_expected sv) (map gf_Sequence up) \<and>
     (\<forall>f\<in>set up. up_ok psize sv l f) \<and>
     count beat up + count beat_ack down + of_bool (gs_heartbeatArmed l) \<le> 1 \<and>
     count events up + count event_ack down + of_bool (\<not> gs_eventInFlight l) \<le> 1 \<and>
     count reported up + count directed down + of_bool (ss_Directive st \<noteq> None) \<le> of_bool (sv_pendingDirective sv \<noteq> None) \<and>
     (\<forall>d. ss_Directive st = Some d \<longrightarrow> directive_known sv (le_ID d) (le_ConnectionEpoch d) (le_Action d)) \<and>
     (\<forall>f\<in>set down. \<forall>d. cf_Payload f = Some (DirectiveP d) \<longrightarrow> directive_known sv (ld_DirectiveId d) (ld_ConnectionEpoch d) (ld_Action d))"

section \<open>The gateway's side\<close>

text \<open>What reading the journal for a batch can do.\<close>

lemma sendEventBatch_cases:
  assumes "sendEventBatch pt (l, w) = ((l', w'), r)" "pt_EventJournal pt = Some j" "good_batches psize gid j"
  obtains (failed) m where "r = Some (OtherErr m)"
  | (idle) "r = None" "l' = l" "gd_sent w' = gd_sent w" "gd_status w' = gd_status w"
  | (sent) b evs where "r = None" "\<not> gs_eventInFlight l" "eventBatch psize b gid (gs_epoch l) = Inr evs" "gd_status w' = gd_status w"
      "l' = l\<lparr>gs_nextGatewaySequence := gs_nextGatewaySequence l + 1, gs_eventInFlight := True, gs_expectedEventAck := ge_JournalSequence (last b)\<rparr>"
      "gd_sent w' = gd_sent w @ [gateway_frame_of (gs_nextGatewaySequence l) (EventBatchP b)]"
proof (cases "gs_eventInFlight l")
  case True
  with assms(1,2) show ?thesis by (auto simp: sendEventBatch_def intro: idle)
next
  case False
  obtain g x where n: "jo_NextEventBatch j (gs_epoch l) (gd_parts w) = (g, x)" by (cases "jo_NextEventBatch j (gs_epoch l) (gd_parts w)")
  show ?thesis
  proof (cases x)
    case (Inl e)
    with assms(1,2) n False show ?thesis by (auto simp: sendEventBatch_def intro: failed)
  next
    case (Inr b)
    show ?thesis
    proof (cases "b = []")
      case True
      with assms(1,2) n False Inr show ?thesis by (auto simp: sendEventBatch_def intro: idle)
    next
      case ne: False
      with assms(3) n Inr obtain evs where "eventBatch psize b gid (gs_epoch l) = Inr evs" unfolding good_batches_def by blast
      with assms(1,2) n False Inr ne show ?thesis
        by (auto simp: sendEventBatch_def thenG_def sendG_def split: option.splits intro: failed sent)
    qed
  qed
qed

lemma event_loop_map: "event_loop gid ep p b = Some evs \<Longrightarrow> evs = map event_of_wire b \<and> (\<forall>v\<in>set b. ge_JournalSequence v \<noteq> 0)"
  by (induction b arbitrary: p evs) (auto split: if_splits)

lemma eventBatch_seq:
  assumes "eventBatch psize b gid ep = Inr evs"
  shows "b \<noteq> [] \<and> ge_JournalSequence (last b) \<noteq> 0 \<and> ev_JournalSequence (last evs) = ge_JournalSequence (last b)"
  using assms event_loop_map[of gid ep 0 b evs]
  by (auto simp: eventBatch_def last_map event_of_wire_def split: if_splits option.splits)

text \<open>A frame the gateway takes: it accepts it, what it sends is numbered on, and no error is final.\<close>

lemma control_ok:
  assumes "gateway_inv l (f # down)"
  shows "validateControl f (gs_lastControlSequence l + 1) (gs_epoch l) (gs_lastGatewaySequence l) now = None"
  using assms
  by (auto simp: gateway_inv_def down_ok_def validateControl_def validateDirective_def split: option.splits control_payload.splits)

lemma gateway_inv_pop:
  assumes "gateway_inv l (f # down)"
  shows "gs_epoch l \<noteq> 0" "cf_Sequence f = gs_lastControlSequence l + 1" "numbered (gs_lastControlSequence l + 2) (map cf_Sequence down)" "\<forall>f\<in>set down. down_ok l f"
  using assms by (auto simp: gateway_inv_def)

lemma down_ok_simps [simp]:
  "down_ok (l\<lparr>gs_lastControlSequence := x\<rparr>) f = down_ok l f" "down_ok (l\<lparr>gs_nextGatewaySequence := x\<rparr>) f = down_ok l f"
  "down_ok (l\<lparr>gs_acknowledgedCycles := x\<rparr>) f = down_ok l f" "down_ok (l\<lparr>gs_pendingReport := b\<rparr>) f = down_ok l f"
  "down_ok (l\<lparr>gs_heartbeatArmed := b\<rparr>) f = down_ok l f"
  by (simp_all add: down_ok_def cong: option.case_cong control_payload.case_cong)

lemma other_down_ok:
  assumes "\<forall>f\<in>set down. down_ok l f" "gs_epoch l' = gs_epoch l"
    and "count beat_ack down \<noteq> 0 \<longrightarrow> gs_lastGatewaySequence l' = gs_lastGatewaySequence l"
    and "count event_ack down \<noteq> 0 \<longrightarrow> gs_eventInFlight l' = gs_eventInFlight l \<and> gs_expectedEventAck l' = gs_expectedEventAck l"
  shows "\<forall>f\<in>set down. down_ok l' f"
proof
  fix f assume f: "f \<in> set down"
  have "beat_ack f \<longrightarrow> count beat_ack down \<noteq> 0" "event_ack f \<longrightarrow> count event_ack down \<noteq> 0" using f by (auto simp: count_0)
  moreover have "down_ok l f" using assms(1) f by blast
  ultimately show "down_ok l' f" using assms(2-4)
    by (auto simp: down_ok_def beat_ack_def event_ack_def split: option.splits control_payload.splits)
qed

definition not_final :: "sup_err option option \<Rightarrow> bool" where
  "not_final r \<longleftrightarrow> (case r of Some (Some e) \<Rightarrow> \<not> terminal e | _ \<Rightarrow> True)"

lemmas loop_defs = loop_step_def handleFrame_def thenG_def sendG_def Let_def

lemma take_directive_frame:
  assumes "gateway_inv l (f # down)" "cf_Payload f = Some (DirectiveP d)"
    and "loop_step pt (Received (Arrived f)) (l, w) = ((l', w'), r)"
  shows "r = None \<and> l' = l\<lparr>gs_lastControlSequence := cf_Sequence f\<rparr> \<and> gd_sent w' = gd_sent w \<and>
    gd_status w' = directiveReceived (lifecycleDirectiveValue d (cf_Sequence f)) (gd_status w)"
  using assms(2,3) control_ok[OF assms(1)] by (auto simp: loop_defs)

lemma take_beat_ack:
  assumes "gateway_inv l (f # down)" "cf_Payload f = Some (HeartbeatAckP a)"
    and "loop_step pt (Received (Arrived f)) (l, w) = ((l', w'), r)"
  shows "r = None \<and> l' = l\<lparr>gs_lastControlSequence := cf_Sequence f, gs_acknowledgedCycles := gs_acknowledgedCycles l + 1,
      gs_pendingReport := False, gs_heartbeatArmed := True\<rparr> \<and> gd_sent w' = gd_sent w \<and> ss_Directive (gd_status w') = ss_Directive (gd_status w)"
  using assms(2,3) control_ok[OF assms(1)] by (auto simp: loop_defs acknowledgeHeartbeat_def heartbeatAcknowledged_def)

lemma take_snapshot:
  assumes "gateway_inv l (f # down)" "cf_Payload f = Some (SnapshotP s)" "good_parts psize gid pt"
    and "loop_step pt (Received (Arrived f)) (l, w) = ((l', w'), r)"
  obtains (failed) m where "r = Some (Some (OtherErr m))"
  | (ok) x where "r = None" "l' = l\<lparr>gs_lastControlSequence := cf_Sequence f, gs_nextGatewaySequence := gs_nextGatewaySequence l + 1\<rparr>"
      "gd_sent w' = gd_sent w @ [gateway_frame_of (gs_nextGatewaySequence l) (DesiredStateReportP x)]"
      "dr_ConnectionEpoch x = gs_epoch l" "dr_KeystoreHealth x \<noteq> KEYSTORE_UNKNOWN" "ss_Directive (gd_status w') = ss_Directive (gd_status w)"
proof -
  obtain ap where ap: "pt_DesiredState pt = Some ap" "\<And>ep s g g' r. ap ep s g = (g', Inr r) \<Longrightarrow>
      \<exists>x. r = Some x \<and> dr_ConnectionEpoch x = ep \<and> dr_ProcessedRevision x = ds_Revision s \<and> dr_KeystoreHealth x \<noteq> KEYSTORE_UNKNOWN"
    using assms(3) unfolding good_parts_def by blast
  have v: "validateDesiredState s = None" using assms(1,2) by (auto simp: gateway_inv_def down_ok_def)
  obtain g x where a: "ap (gs_epoch l) s (gd_parts w) = (g, x)" by (cases "ap (gs_epoch l) s (gd_parts w)")
  show ?thesis
  proof (cases x)
    case (Inl e)
    with assms(2,4) control_ok[OF assms(1)] ap(1) v a show ?thesis by (auto simp: loop_defs applyDesiredState_def intro: failed)
  next
    case (Inr y)
    with ap(2) a obtain z where "y = Some z" "dr_ConnectionEpoch z = gs_epoch l" "dr_ProcessedRevision z = ds_Revision s" "dr_KeystoreHealth z \<noteq> KEYSTORE_UNKNOWN"
      by blast
    with assms(2,4) control_ok[OF assms(1)] ap(1) v a Inr show ?thesis
      by (auto simp: loop_defs applyDesiredState_def desiredStateApplied_def split: option.splits intro: failed ok)
  qed
qed

lemma take_event_ack:
  assumes "gateway_inv l (f # down)" "cf_Payload f = Some (EventAckP q)" "good_parts psize gid pt"
    and "loop_step pt (Received (Arrived f)) (l, w) = ((l', w'), r)"
  obtains (failed) m where "r = Some (Some (OtherErr m))"
  | (idle) "r = None" "l' = l\<lparr>gs_lastControlSequence := cf_Sequence f, gs_eventInFlight := False, gs_expectedEventAck := 0\<rparr>"
      "gd_sent w' = gd_sent w" "gd_status w' = gd_status w"
  | (sent) b evs where "r = None" "eventBatch psize b gid (gs_epoch l) = Inr evs" "gd_status w' = gd_status w"
      "l' = l\<lparr>gs_lastControlSequence := cf_Sequence f, gs_nextGatewaySequence := gs_nextGatewaySequence l + 1, gs_eventInFlight := True,
         gs_expectedEventAck := ge_JournalSequence (last b)\<rparr>"
      "gd_sent w' = gd_sent w @ [gateway_frame_of (gs_nextGatewaySequence l) (EventBatchP b)]"
proof -
  obtain j where j: "pt_EventJournal pt = Some j" "good_batches psize gid j" using assms(3) unfolding good_parts_def by blast
  have q: "gs_eventInFlight l" "q = gs_expectedEventAck l" using assms(1,2) by (auto simp: gateway_inv_def down_ok_def)
  obtain g x where a: "jo_AckEvents j q (gd_parts w) = (g, x)" by (cases "jo_AckEvents j q (gd_parts w)")
  let ?l = "l\<lparr>gs_lastControlSequence := cf_Sequence f, gs_eventInFlight := False, gs_expectedEventAck := 0\<rparr>"
  show ?thesis
  proof (cases x)
    case (Inl e)
    with assms(2,4) control_ok[OF assms(1)] j q a show ?thesis by (auto simp: loop_defs handleEventAck_def intro: failed)
  next
    case (Inr u)
    obtain r' where b: "sendEventBatch pt (?l, w\<lparr>gd_parts := g\<rparr>) = ((l', w'), r')" and r': "r = map_option Some r'"
      using assms(2,4) control_ok[OF assms(1)] j q a Inr by (auto simp: loop_defs handleEventAck_def split: prod.splits)
    from b j show ?thesis by (cases rule: sendEventBatch_cases) (auto simp: r' intro: failed idle sent)
  qed
qed

text \<open>A heartbeat, sent with the batch that may follow it.\<close>

lemma send_beat:
  assumes "sendHeartbeat pt (l, w) = ((l', w'), r)" "good_parts psize gid pt" "gs_epoch l \<noteq> 0"
  obtains (failed) m where "r = Some (OtherErr m)"
  | (sent) h fs where "r = None" "gd_sent w' = gd_sent w @ gateway_frame_of (gs_nextGatewaySequence l) (HeartbeatP h) # fs"
      "validateHeartbeat h = None" "wb_ConnectionEpoch h = gs_epoch l" "wb_LastControlSequence h = gs_lastControlSequence l"
      "gd_status w' = gd_status w" "gs_epoch l' = gs_epoch l" "gs_lastControlSequence l' = gs_lastControlSequence l" "\<not> gs_heartbeatArmed l'"
      "gs_lastGatewaySequence l' = gs_nextGatewaySequence l"
      "fs = [] \<and> gs_nextGatewaySequence l' = gs_nextGatewaySequence l + 1 \<and> gs_eventInFlight l' = gs_eventInFlight l \<and>
         gs_expectedEventAck l' = gs_expectedEventAck l \<or>
       (\<exists>b evs. fs = [gateway_frame_of (gs_nextGatewaySequence l + 1) (EventBatchP b)] \<and> gs_nextGatewaySequence l' = gs_nextGatewaySequence l + 2 \<and>
         \<not> gs_eventInFlight l \<and> gs_eventInFlight l' \<and> gs_expectedEventAck l' = ge_JournalSequence (last b) \<and>
         eventBatch psize b gid (gs_epoch l) = Inr evs)"
proof -
  obtain j where j: "pt_EventJournal pt = Some j" "good_batches psize gid j" using assms(2) unfolding good_parts_def by blast
  let ?rt = "pt_Runtime pt (gd_parts w)" and ?n = "gs_nextGatewaySequence l"
  have rt: "validRuntimeState (rs_State ?rt)" using assms(2) by (simp add: good_parts_def validRuntimeState_def)
  obtain h where h: "newHeartbeatFrame pt (gd_parts w) (l\<lparr>gs_runtime := ?rt\<rparr>) = HeartbeatP h"
    and hv: "validateHeartbeat h = None" "wb_ConnectionEpoch h = gs_epoch l" "wb_LastControlSequence h = gs_lastControlSequence l"
    using assms(2,3) rt
    by (auto simp: newHeartbeatFrame_def Let_def newGatewayHeartbeat_def validateHeartbeat_def good_parts_def knownRuntimeState_def
        validRuntimeState_def knownJournalState_def split: option.splits)
  show ?thesis
  proof (cases "pt_sends pt ?n")
    case (Some m)
    with assms(1) rt show ?thesis by (auto simp: sendHeartbeat_def Let_def thenG_def sendG_def intro: failed)
  next
    case None
    let ?l = "l\<lparr>gs_runtime := ?rt, gs_nextGatewaySequence := ?n + 1, gs_lastGatewaySequence := ?n\<rparr>"
    let ?w = "w\<lparr>gd_sent := gd_sent w @ [gateway_frame_of ?n (HeartbeatP h)]\<rparr>"
    obtain l2 w2 r2 where b: "sendEventBatch pt (?l, ?w) = ((l2, w2), r2)" by (metis surj_pair)
    with assms(1) rt None h have "(l', w') = (if r2 = None then l2\<lparr>gs_heartbeatArmed := False\<rparr> else l2, w2)" "r = r2"
      by (auto simp: sendHeartbeat_def Let_def thenG_def sendG_def split: option.splits if_splits)
    with b j hv show ?thesis by (cases rule: sendEventBatch_cases) (auto intro: failed sent)
  qed
qed

lemmas kinds = beat_def events_def reported_def beat_ack_def event_ack_def directed_def

lemma up_ok_mono:
  assumes "up_ok psize sv l f" "gs_lastControlSequence l \<le> gs_lastControlSequence l'"
    and "beat f \<longrightarrow> gs_lastGatewaySequence l' = gs_lastGatewaySequence l"
    and "events f \<longrightarrow> gs_eventInFlight l' \<and> gs_expectedEventAck l' = gs_expectedEventAck l"
  shows "up_ok psize sv l' f"
  using assms by (auto simp: up_ok_def kinds split: option.splits gateway_payload.splits)

lemma up_ok_next [simp]: "up_ok psize sv (l\<lparr>gs_nextGatewaySequence := x\<rparr>) f = up_ok psize sv l f"
  by (simp add: up_ok_def cong: option.case_cong gateway_payload.case_cong)

lemma gateway_takes_frame:
  assumes inv: "gateway_inv l (f # down)" and pt: "good_parts psize gid pt"
    and step: "loop_step pt (Received (Arrived f)) (l, w) = ((l', w'), r)"
  shows "not_final r \<and> (r = None \<longrightarrow> gateway_inv l' down)"
proof -
  note pop = gateway_inv_pop[OF inv]
  have c: "count beat_ack (f # down) + of_bool (gs_heartbeatArmed l) \<le> 1" "count event_ack (f # down) + of_bool (\<not> gs_eventInFlight l) \<le> 1"
    and d: "down_ok l f" using inv by (simp_all add: gateway_inv_def)
  from d obtain p where p: "cf_Payload f = Some p" by (auto simp: down_ok_def split: option.splits)
  show ?thesis
  proof (cases p)
    case (WelcomeP x)
    with d p show ?thesis by (simp add: down_ok_def)
  next
    case (DirectiveP x)
    from take_directive_frame[OF inv p[unfolded DirectiveP] step] pop c show ?thesis
      by (auto simp: gateway_inv_def not_final_def kinds p DirectiveP)
  next
    case (HeartbeatAckP x)
    from take_beat_ack[OF inv p[unfolded HeartbeatAckP] step] pop c show ?thesis
      by (auto simp: gateway_inv_def not_final_def kinds p HeartbeatAckP)
  next
    case (SnapshotP x)
    show ?thesis using inv p[unfolded SnapshotP] pt step
    proof (cases rule: take_snapshot)
      case (ok y)
      with pop c show ?thesis by (auto simp: gateway_inv_def not_final_def kinds p SnapshotP)
    qed (simp add: not_final_def)
  next
    case (EventAckP q)
    with c p have z: "count event_ack down = 0" by (auto simp: kinds)
    show ?thesis using inv p[unfolded EventAckP] pt step
    proof (cases rule: take_event_ack)
      case idle
      have "\<forall>f\<in>set down. down_ok l' f" by (rule other_down_ok[OF pop(4)]) (simp_all add: idle z)
      with idle pop c z show ?thesis by (auto simp: gateway_inv_def not_final_def kinds p EventAckP)
    next
      case (sent b evs)
      have "\<forall>f\<in>set down. down_ok l' f" by (rule other_down_ok[OF pop(4)]) (simp_all add: sent z)
      with sent pop c z show ?thesis by (auto simp: gateway_inv_def not_final_def kinds p EventAckP)
    qed (simp add: not_final_def)
  qed
qed

lemma pair_takes_frame:
  assumes inv: "gateway_inv l (f # down)" and pt: "good_parts psize gid pt"
    and step: "loop_step pt (Received (Arrived f)) (l, w) = ((l', w'), None)" and ws: "gd_sent w = []"
    and pair: "pair_inv psize gid sv l (gd_status w) up (f # down)"
  shows "pair_inv psize gid sv l' (gd_status w') (up @ gd_sent w') down"
proof -
  have d: "down_ok l f" and sq: "cf_Sequence f = gs_lastControlSequence l + 1" using inv by (simp_all add: gateway_inv_def)
  from d obtain p where p: "cf_Payload f = Some p" by (auto simp: down_ok_def split: option.splits)
  have up: "\<And>x. x \<in> set up \<Longrightarrow> up_ok psize sv l x" using pair by (simp add: pair_inv_def)
  have base: "sv_outboundSequence sv = gs_lastControlSequence l + 1 + length down"
    "sv_lastAcknowledgedControlSequence sv \<le> gs_lastControlSequence l + 1" using pair by (simp_all add: pair_inv_def)
  have same: "\<forall>y\<in>set up. up_ok psize sv k y" if "gs_lastControlSequence k = gs_lastControlSequence l + 1"
    "gs_lastGatewaySequence k = gs_lastGatewaySequence l" "gs_eventInFlight k = gs_eventInFlight l" "gs_expectedEventAck k = gs_expectedEventAck l" for k
  proof
    fix y assume y: "y \<in> set up"
    show "up_ok psize sv k y" by (rule up_ok_mono[OF up[OF y]])
        (use that up[OF y] in \<open>auto simp: up_ok_def kinds split: option.splits gateway_payload.splits\<close>)
  qed
  show ?thesis
  proof (cases p)
    case (WelcomeP x)
    with d p show ?thesis by (simp add: down_ok_def)
  next
    case (DirectiveP x)
    have t: "l' = l\<lparr>gs_lastControlSequence := cf_Sequence f\<rparr>" "gd_sent w' = gd_sent w"
      "gd_status w' = directiveReceived (lifecycleDirectiveValue x (cf_Sequence f)) (gd_status w)"
      using take_directive_frame[OF inv p[unfolded DirectiveP] step] by simp_all
    have "\<forall>y\<in>set up. up_ok psize sv l' y" by (rule same) (simp_all add: t sq)
    with t pair base sq p DirectiveP ws show ?thesis
      by (auto simp: pair_inv_def kinds directiveReceived_def lifecycleDirectiveValue_def)
  next
    case (HeartbeatAckP x)
    have t: "l' = l\<lparr>gs_lastControlSequence := cf_Sequence f, gs_acknowledgedCycles := gs_acknowledgedCycles l + 1,
        gs_pendingReport := False, gs_heartbeatArmed := True\<rparr>" "gd_sent w' = gd_sent w" "ss_Directive (gd_status w') = ss_Directive (gd_status w)"
      using take_beat_ack[OF inv p[unfolded HeartbeatAckP] step] by simp_all
    have "\<forall>y\<in>set up. up_ok psize sv l' y" by (rule same) (simp_all add: t sq)
    with t pair base sq p HeartbeatAckP ws show ?thesis by (auto simp: pair_inv_def kinds)
  next
    case (SnapshotP x)
    show ?thesis using inv p[unfolded SnapshotP] pt step
    proof (cases rule: take_snapshot)
      case (ok y)
      have "\<forall>y\<in>set up. up_ok psize sv l' y" by (rule same) (simp_all add: ok sq)
      moreover have "up_ok psize sv l' (gateway_frame_of (gs_nextGatewaySequence l) (DesiredStateReportP y))"
        using ok(4,5) pair by (simp add: up_ok_def gateway_frame_of_def validateDesiredStateReport_def pair_inv_def)
      ultimately show ?thesis using ok pair base sq p SnapshotP ws by (auto simp: pair_inv_def kinds gateway_frame_of_def)
    qed simp
  next
    case (EventAckP q)
    with pair p have z: "count events up = 0" "count event_ack down = 0" "gs_eventInFlight l" by (auto simp: kinds pair_inv_def)
    have evs: "\<forall>y\<in>set up. up_ok psize sv k y" if "gs_lastControlSequence k = gs_lastControlSequence l + 1"
      "gs_lastGatewaySequence k = gs_lastGatewaySequence l" for k
    proof
      fix y assume y: "y \<in> set up"
      show "up_ok psize sv k y" by (rule up_ok_mono[OF up[OF y]]) (use that z(1) y in \<open>auto simp: count_0\<close>)
    qed
    show ?thesis using inv p[unfolded EventAckP] pt step
    proof (cases rule: take_event_ack)
      case idle
      have "\<forall>y\<in>set up. up_ok psize sv l' y" by (rule evs) (simp_all add: idle sq)
      with idle pair base sq p EventAckP ws z show ?thesis by (auto simp: pair_inv_def kinds)
    next
      case (sent b evs')
      have "\<forall>y\<in>set up. up_ok psize sv l' y" by (rule evs) (simp_all add: sent sq)
      moreover have "up_ok psize sv l' (gateway_frame_of (gs_nextGatewaySequence l) (EventBatchP b))"
        using sent pair by (simp add: up_ok_def gateway_frame_of_def pair_inv_def)
      ultimately show ?thesis using sent pair base sq p EventAckP ws z by (auto simp: pair_inv_def kinds gateway_frame_of_def)
    qed simp
  qed
qed

text \<open>The gateway's own events: timers, report signals and lifecycle requests.\<close>

lemma beat_half:
  assumes inv: "gateway_inv l down" and pt: "good_parts psize gid pt" and armed: "gs_heartbeatArmed l"
    and step: "sendHeartbeat pt (l, w) = ((l', w'), r)"
  shows "not_final (map_option Some r) \<and> (r = None \<longrightarrow> gateway_inv l' down)"
proof -
  have ep: "gs_epoch l \<noteq> 0" and z: "count beat_ack down = 0" and e: "count event_ack down + of_bool (\<not> gs_eventInFlight l) \<le> 1"
    using inv armed by (simp_all add: gateway_inv_def)
  show ?thesis using step pt ep
  proof (cases rule: send_beat)
    case (sent h fs)
    have "\<forall>f\<in>set down. down_ok l' f"
      by (rule other_down_ok[of _ l]) (use inv sent(7,11) z e in \<open>auto simp: gateway_inv_def\<close>)
    moreover have "count event_ack down + of_bool (\<not> gs_eventInFlight l') \<le> 1" using sent(11) e by auto
    ultimately show ?thesis using sent inv z by (simp add: gateway_inv_def not_final_def)
  qed (simp add: not_final_def)
qed

lemma beat_pair:
  assumes inv: "gateway_inv l down" and pt: "good_parts psize gid pt" and armed: "gs_heartbeatArmed l"
    and step: "sendHeartbeat pt (l, w) = ((l', w'), None)" and ws: "gd_sent w = []"
    and pair: "pair_inv psize gid sv l (gd_status w) up down"
  shows "pair_inv psize gid sv l' (gd_status w') (up @ gd_sent w') down"
proof -
  have ep: "gs_epoch l \<noteq> 0" using inv by (simp add: gateway_inv_def)
  have z: "count beat up = 0" "count beat_ack down = 0" using pair armed by (simp_all add: pair_inv_def)
  have gid: "sv_gatewayID sv = gid" "gs_epoch l = co_Epoch (sv_connection sv)" using pair by (simp_all add: pair_inv_def)
  show ?thesis using step pt ep
  proof (cases rule: send_beat)
    case (sent h fs)
    have old: "\<forall>y\<in>set up. up_ok psize sv l' y"
    proof
      fix y assume y: "y \<in> set up"
      have "up_ok psize sv l y" using pair y by (simp add: pair_inv_def)
      then show "up_ok psize sv l' y"
        by (rule up_ok_mono) (use z(1) y sent(8,11) \<open>up_ok psize sv l y\<close> in \<open>auto simp: count_0 up_ok_def kinds split: option.splits gateway_payload.splits\<close>)
    qed
    have hb: "up_ok psize sv l' (gateway_frame_of (gs_nextGatewaySequence l) (HeartbeatP h))"
      using sent pair by (simp add: up_ok_def gateway_frame_of_def pair_inv_def)
    from sent(11) show ?thesis
    proof (elim disjE exE conjE)
      assume "fs = []" "gs_nextGatewaySequence l' = gs_nextGatewaySequence l + 1" "gs_eventInFlight l' = gs_eventInFlight l"
      with sent pair z old hb ws show ?thesis by (auto simp: pair_inv_def kinds gateway_frame_of_def)
    next
      fix b evs
      assume b: "fs = [gateway_frame_of (gs_nextGatewaySequence l + 1) (EventBatchP b)]" "gs_nextGatewaySequence l' = gs_nextGatewaySequence l + 2"
        "\<not> gs_eventInFlight l" "gs_eventInFlight l'" "gs_expectedEventAck l' = ge_JournalSequence (last b)" "eventBatch psize b gid (gs_epoch l) = Inr evs"
      have "up_ok psize sv l' (gateway_frame_of (gs_nextGatewaySequence l + 1) (EventBatchP b))"
        using b gid by (simp add: up_ok_def gateway_frame_of_def)
      with b sent pair z old hb ws show ?thesis by (auto simp: pair_inv_def kinds gateway_frame_of_def)
    qed
  qed simp
qed

lemma report_pair:
  assumes good: "good_request rq" and active: "matchesActiveDirective (rq_directive rq) (gd_status w)"
    and step: "sendLifecycleReport pt rq (l, w) = ((l', w'), r)"
  obtains (failed) m where "r = Some (OtherErr m)"
  | (sent) "r = None" "l' = l\<lparr>gs_nextGatewaySequence := gs_nextGatewaySequence l + 1\<rparr>"
      "\<And>psize gid sv up down. gd_sent w = [] \<Longrightarrow> pair_inv psize gid sv l (gd_status w) up down \<Longrightarrow>
         pair_inv psize gid sv l' (gd_status w') (up @ gd_sent w') down"
proof (cases "pt_sends pt (gs_nextGatewaySequence l)")
  case (Some m)
  with step show ?thesis by (auto simp: sendLifecycleReport_def thenG_def sendG_def intro: failed)
next
  case None
  let ?f = "gateway_frame_of (gs_nextGatewaySequence l) (LifecycleReportP \<lparr>lr_ConnectionEpoch = le_ConnectionEpoch (rq_directive rq),
      lr_DirectiveId = le_ID (rq_directive rq), lr_State = rq_state rq, lr_Failure = rq_failure rq\<rparr>)"
  have act: "ss_Directive (gd_status w) = Some (rq_directive rq)" using active by (simp add: matchesActiveDirective_def)
  have s: "r = None" "l' = l\<lparr>gs_nextGatewaySequence := gs_nextGatewaySequence l + 1\<rparr>" "gd_sent w' = gd_sent w @ [?f]" "ss_Directive (gd_status w') = None"
    using step None act by (auto simp: sendLifecycleReport_def thenG_def sendG_def directiveReported_def)
  show ?thesis
  proof (rule sent[OF s(1,2)])
    fix psize gid sv up down
    assume ws: "gd_sent w = []" and pair: "pair_inv psize gid sv l (gd_status w) up down"
    have k: "directive_known sv (le_ID (rq_directive rq)) (le_ConnectionEpoch (rq_directive rq)) (le_Action (rq_directive rq))"
      using pair act by (simp add: pair_inv_def)
    have "up_ok psize sv l' ?f" using k good
      by (cases "rq_failure rq") (auto simp: up_ok_def gateway_frame_of_def directive_known_def good_request_def validateReport_def validateLifecycleReport_def knownRuntimeState_def
          validRuntimeState_def knownLifecycleFailure_def split: if_splits)
    moreover have "\<forall>y\<in>set up. up_ok psize sv l' y" using pair s(2) by (simp add: pair_inv_def)
    ultimately show "pair_inv psize gid sv l' (gd_status w') (up @ gd_sent w') down"
      using pair s ws act by (auto simp: pair_inv_def kinds gateway_frame_of_def)
  qed
qed

end
