(* ===== verification/ControlServing.thy ===== *)
theory ControlServing
  imports ControlLink
begin

text \<open>
  The API's half of the connection invariant: every frame of the gateway is accepted, the frames the handler sends
  follow on, and an error it ends with is not one the gateway takes for final.
\<close>

section \<open>The API's side\<close>

definition quiet :: "status_err \<Rightarrow> bool" where
  "quiet e \<longleftrightarrow> \<not> terminal (StatusErr [] e)"

lemma quiet_statuses [simp]:
  "quiet (Status InternalCode m)" "quiet (Status DeadlineExceeded m)" "quiet (Status Unavailable m)" "quiet (sendStatus x)"
  "\<not> err_is ''gateway unauthorized'' y \<Longrightarrow> quiet (storeStatus y)" "transport_error e \<Longrightarrow> quiet e"
  by (auto simp: quiet_def sendStatus_def storeStatus_def transport_error_def)

lemma storeA_cases:
  assumes "storeA op w = (w', r)" "authorized (snd (op (sw_store w)))"
  obtains (failed) e where "r = Inl e" "quiet e" "sw_sent w' = sw_sent w" | (ok) x s where "r = Inr x" "op (sw_store w) = (s, Inr x)" "sw_sent w' = sw_sent w"
  using assms by (auto simp: storeA_def authorized_def split: prod.splits sum.splits intro: failed ok)

lemma sendA_cases:
  assumes "sendA sf n p w = (w', r)"
  obtains (failed) e where "r = Inl e" "quiet e" "w' = w"
  | (ok) "r = Inr ()" "sw_sent w' = sw_sent w @ [\<lparr>cf_ProtocolVersion = ProtocolVersion, cf_Sequence = n, cf_Payload = Some p\<rparr>]" "sw_store w' = sw_store w"
  using assms by (auto simp: sendA_def split: option.splits intro: failed ok)

lemma wire_assignments_ok:
  assumes "\<forall>a\<in>set as. validAssignment (wire_assignment a)" "distinct (map dv_SessionID as)" "dv_SessionID ` set as \<inter> seen = {}"
  shows "check_assignments (map wire_assignment as) seen = None"
  using assms by (induction as arbitrary: seen) (auto simp: wire_assignment_def)

lemma UnixMilli_pos: "UnixMilli t > 0 \<longleftrightarrow> t \<ge> 1000000"
  by (auto simp: UnixMilli_def)

lemma snapshot_ok:
  assumes "validDesiredState d (now + lease)" "startable d" "UnixMilli now > 0" "lease \<ge> 1000000"
  shows "validateDesiredState \<lparr>ds_Revision = dt_Revision d, ds_Assignments = map wire_assignment (dt_Assignments d)\<rparr> = None"
proof -
  have "validAssignment (wire_assignment a)" if a: "a \<in> set (dt_Assignments d)" for a
  proof -
    have "dv_LeaseExpiresAt a > now + lease - 1000000" using assms(1) a by (simp add: validDesiredState_def)
    then have "UnixMilli (dv_LeaseExpiresAt a) > 0" using assms(3,4) by (simp add: UnixMilli_pos)
    moreover have "dv_DesiredAction a \<noteq> SESSION_DESIRED_ACTION_UNKNOWN" using assms(1) a by (simp add: validDesiredState_def)
    then have "dv_DesiredAction a \<in> {SESSION_DESIRED_ACTION_RUN, SESSION_DESIRED_ACTION_STOP}" by (cases "dv_DesiredAction a") auto
    ultimately show ?thesis using assms(1,2) a by (auto simp: validAssignment_def wire_assignment_def validDesiredState_def startable_def)
  qed
  then show ?thesis using assms(1,2) wire_assignments_ok[of "dt_Assignments d" "{}"]
    by (simp add: validateDesiredState_def validDesiredState_def startable_def)
qed

lemma sendDesiredState_cases:
  assumes "sendDesiredState (se_store env) (se_now env) sf gid ep lease rev' n w = (w', r)" "good_env cfg env" "lease \<ge> 1000000"
  obtains (failed) e where "r = Inl e" "quiet e" "sw_sent w' = sw_sent w"
  | (ok) s where "r = Inr (n + 1)" "validateDesiredState s = None"
      "sw_sent w' = sw_sent w @ [\<lparr>cf_ProtocolVersion = ProtocolVersion, cf_Sequence = n + 1, cf_Payload = Some (SnapshotP s)\<rparr>]"
proof -
  let ?op = "st_DesiredState (se_store env) gid ep rev' (se_now env + lease)"
  obtain w1 r1 where d: "storeA ?op w = (w1, r1)" by (cases "storeA ?op w")
  have au: "authorized (snd (?op (sw_store w)))" using assms(2) by (simp add: good_env_def)
  from d au show ?thesis
  proof (cases rule: storeA_cases)
    case (failed e)
    with assms(1) d show ?thesis by (auto simp: sendDesiredState_def bindA_def Let_def intro: that(1))
  next
    case (ok x st)
    show ?thesis
    proof (cases "dt_Revision x \<noteq> rev' \<or> \<not> validDesiredState x (se_now env + lease)")
      case True
      with assms(1) d ok show ?thesis by (auto simp: sendDesiredState_def bindA_def Let_def refuseA_def intro: that(1))
    next
      case False
      let ?p = "SnapshotP \<lparr>ds_Revision = dt_Revision x, ds_Assignments = map wire_assignment (dt_Assignments x)\<rparr>"
      have st: "startable x" using assms(2) ok(2) unfolding good_env_def by blast
      have v: "validateDesiredState \<lparr>ds_Revision = dt_Revision x, ds_Assignments = map wire_assignment (dt_Assignments x)\<rparr> = None"
        by (rule snapshot_ok) (use False st assms(2,3) in \<open>auto simp: good_env_def\<close>)
      obtain w2 r2 where sd: "sendA sf (n + 1) ?p w1 = (w2, r2)" by (cases "sendA sf (n + 1) ?p w1")
      then show ?thesis
      proof (cases rule: sendA_cases)
        case (failed e)
        with assms(1) d ok(1,3) False sd show ?thesis by (auto simp: sendDesiredState_def bindA_def Let_def refuseA_def intro: that(1))
      next
        case ok2: ok
        with assms(1) d ok(1,3) False sd v show ?thesis by (auto simp: sendDesiredState_def bindA_def Let_def refuseA_def returnA_def intro: that(2))
      qed
    qed
  qed
qed

lemma issue_directive_cases:
  assumes "issue_directive env desired sv w = (w', r)"
  obtains (failed) e where "r = Inl e" "quiet e" "sw_sent w' = sw_sent w"
  | (none) "r = Inr sv" "sw_sent w' = sw_sent w"
  | (issued) d where "sv_pendingDirective sv = None" "r = Inr (sv\<lparr>sv_outboundSequence := sv_outboundSequence sv + 1, sv_pendingDirective := Some d,
        sv_lastIssuedDesiredRevision := dl_Revision desired, sv_lastIssuedDesiredAction := dl_Action desired\<rparr>)"
      "d = \<lparr>id_id = directiveID (co_ID (sv_connection sv)) (dl_Revision desired), id_action = dl_Action desired\<rparr>"
      "sw_sent w' = sw_sent w @ [\<lparr>cf_ProtocolVersion = ProtocolVersion, cf_Sequence = sv_outboundSequence sv + 1, cf_Payload = Some (DirectiveP
         \<lparr>ld_DirectiveId = id_id d, ld_ConnectionEpoch = co_Epoch (sv_connection sv), ld_Action = id_action d, ld_DrainDeadlineUnixMs = None,
          ld_Reason = REASON_OPERATOR\<rparr>)\<rparr>]"
  using assms
  by (auto simp: issue_directive_def Let_def bindA_def sendA_def returnA_def split: if_splits option.splits intro: failed none issued)

lemma gateway_inv_snoc:
  assumes "gateway_inv l down" "cf_Sequence f = gs_lastControlSequence l + 1 + length down" "down_ok l f"
    and "beat_ack f \<Longrightarrow> count beat_ack down + of_bool (gs_heartbeatArmed l) = 0" "event_ack f \<Longrightarrow> count event_ack down + of_bool (\<not> gs_eventInFlight l) = 0"
  shows "gateway_inv l (down @ [f])"
  using assms by (cases "beat_ack f"; cases "event_ack f") (auto simp: gateway_inv_def)

text \<open>Frames of the API keep the pair when they follow on and nothing circulates twice.\<close>

lemma pair_snapshot:
  assumes "pair_inv psize gid sv l st up down" "cf_Payload f = Some (SnapshotP s)"
  shows "pair_inv psize gid (sv\<lparr>sv_outboundSequence := sv_outboundSequence sv + 1\<rparr>) l st up (down @ [f])"
  using assms by (auto simp: pair_inv_def kinds up_ok_def directive_known_def cong: option.case_cong gateway_payload.case_cong)

lemma pair_directive:
  assumes "pair_inv psize gid sv l st up down" "sv_pendingDirective sv = None" "cf_Payload f = Some (DirectiveP d)"
    and "d = \<lparr>ld_DirectiveId = id_id x, ld_ConnectionEpoch = co_Epoch (sv_connection sv), ld_Action = id_action x, ld_DrainDeadlineUnixMs = t, ld_Reason = y\<rparr>"
  shows "pair_inv psize gid (sv\<lparr>sv_outboundSequence := sv_outboundSequence sv + 1, sv_pendingDirective := Some x,
    sv_lastIssuedDesiredRevision := rev', sv_lastIssuedDesiredAction := act\<rparr>) l st up (down @ [f])"
proof -
  let ?sv = "sv\<lparr>sv_outboundSequence := sv_outboundSequence sv + 1, sv_pendingDirective := Some x,
    sv_lastIssuedDesiredRevision := rev', sv_lastIssuedDesiredAction := act\<rparr>"
  have z: "count reported up = 0" "count directed down = 0" "ss_Directive st = None" using assms(1,2) by (auto simp: pair_inv_def)
  have "\<forall>y\<in>set up. up_ok psize ?sv l y"
  proof
    fix y assume y: "y \<in> set up"
    then have "up_ok psize sv l y" "\<not> reported y" using assms(1) z(1) by (simp_all add: pair_inv_def count_0)
    then show "up_ok psize ?sv l y" by (auto simp: up_ok_def kinds split: option.splits gateway_payload.splits)
  qed
  moreover have "\<forall>g\<in>set down. \<forall>d. cf_Payload g \<noteq> Some (DirectiveP d)" using z(2) by (auto simp: count_0 kinds)
  ultimately show ?thesis using assms z by (auto simp: pair_inv_def kinds directive_known_def)
qed

definition served :: "(gateway_event list \<Rightarrow> nat) \<Rightarrow> string \<Rightarrow> control_session \<Rightarrow> sup_status \<Rightarrow> gateway_frame list \<Rightarrow> control_frame list \<Rightarrow> control_frame list
    \<Rightarrow> status_err + serving \<Rightarrow> bool" where
  "served psize gid l st up down fs r \<longleftrightarrow> gateway_inv l (down @ fs) \<and>
     (case r of Inl e \<Rightarrow> quiet e | Inr sv' \<Rightarrow> pair_inv psize gid sv' l st up (down @ fs))"

definition onward :: "serving \<Rightarrow> status_err + serving \<Rightarrow> status_err + serving" where
  "onward sv r = (case r of Inl e \<Rightarrow> Inl e | Inr sv' \<Rightarrow> Inr (sv'\<lparr>sv_expected := sv_expected sv + 1\<rparr>))"

lemma onward_simps [simp]: "onward sv (Inl e) = Inl e" "onward sv (Inr sv') = Inr (sv'\<lparr>sv_expected := sv_expected sv + 1\<rparr>)"
  by (simp_all add: onward_def)

lemma expected_last:
  "x\<lparr>sv_expected := e, sv_outboundSequence := n\<rparr> = x\<lparr>sv_outboundSequence := n, sv_expected := e\<rparr>"
  "x\<lparr>sv_expected := e, sv_outboundSequence := n, sv_pendingDirective := d, sv_lastIssuedDesiredRevision := v, sv_lastIssuedDesiredAction := a\<rparr> =
     x\<lparr>sv_outboundSequence := n, sv_pendingDirective := d, sv_lastIssuedDesiredRevision := v, sv_lastIssuedDesiredAction := a, sv_expected := e\<rparr>"
  by simp_all

lemma servedI:
  "gateway_inv l (down @ fs) \<Longrightarrow> quiet e \<Longrightarrow> served psize gid l st up down fs (Inl e)"
  "gateway_inv l (down @ fs) \<Longrightarrow> pair_inv psize gid sv' l st up (down @ fs) \<Longrightarrow> served psize gid l st up down fs (Inr sv')"
  by (simp_all add: served_def)

text \<open>The acknowledgement of a heartbeat, as the pair has it afterwards.\<close>

lemma pair_beat_ack:
  assumes pair: "pair_inv psize gid sv l st (f # up) down" and f: "gf_Payload f = Some (HeartbeatP h)"
    and g: "cf_Payload g = Some (HeartbeatAckP x)"
  shows "pair_inv psize gid (sv\<lparr>sv_lastAcknowledgedControlSequence := wb_LastControlSequence h, sv_outboundSequence := sv_outboundSequence sv + 1,
    sv_expected := sv_expected sv + 1\<rparr>) l st up (down @ [g])"
proof -
  let ?sv = "sv\<lparr>sv_lastAcknowledgedControlSequence := wb_LastControlSequence h, sv_outboundSequence := sv_outboundSequence sv + 1,
    sv_expected := sv_expected sv + 1\<rparr>"
  have z: "count beat up = 0" using pair f by (auto simp: pair_inv_def kinds)
  have "\<forall>y\<in>set up. up_ok psize ?sv l y"
  proof
    fix y assume y: "y \<in> set up"
    then have "up_ok psize sv l y" "\<not> beat y" using pair z by (simp_all add: pair_inv_def count_0)
    then show "up_ok psize ?sv l y" by (auto simp: up_ok_def kinds split: option.splits gateway_payload.splits)
  qed
  moreover have "wb_LastControlSequence h \<le> gs_lastControlSequence l" using pair f by (simp add: pair_inv_def up_ok_def)
  ultimately show ?thesis using pair f g z by (auto simp: pair_inv_def kinds directive_known_def)
qed

lemma serve_beat:
  assumes pair: "pair_inv psize gid sv l st (f # up) down" and inv: "gateway_inv l down" and env: "good_env cfg env"
    and f: "gf_Payload f = Some (HeartbeatP h)" and ws: "sw_sent w = []"
    and step: "on_heartbeat env (gf_Sequence f) h sv w = (w', r)"
  shows "served psize gid l st up down (sw_sent w') (onward sv r)"
proof -
  have fok: "validateHeartbeat h = None" "wb_ConnectionEpoch h = co_Epoch (sv_connection sv)"
    "sv_lastAcknowledgedControlSequence sv \<le> wb_LastControlSequence h" "wb_LastControlSequence h \<le> sv_outboundSequence sv"
    and sq: "gf_Sequence f = gs_lastGatewaySequence l" "gf_Sequence f > 1"
    and lease: "co_LeaseTimeout (sv_connection sv) \<ge> 1000000" and ep: "co_Epoch (sv_connection sv) = gs_epoch l" and idn: "co_ID (sv_connection sv) \<noteq> []"
    and out: "sv_outboundSequence sv = gs_lastControlSequence l + length down"
    and z: "count beat_ack down = 0" "\<not> gs_heartbeatArmed l"
    using pair f by (auto simp: pair_inv_def up_ok_def kinds)
  have none: "gateway_inv l (down @ [])" using inv by simp
  let ?c = "sv_connection sv" and ?seq = "sv_outboundSequence sv + 1"
  let ?op = "st_Heartbeat (se_store env) (sv_gatewayID sv) (co_Epoch ?c) (heartbeatValue h)"
  let ?sv = "sv\<lparr>sv_lastAcknowledgedControlSequence := wb_LastControlSequence h, sv_outboundSequence := ?seq\<rparr>"
  let ?a = "HeartbeatAckP \<lparr>ha_AcknowledgedGatewaySequence = gf_Sequence f, ha_ConnectionEpoch = co_Epoch ?c, ha_ServerTimeUnixMs = UnixMilli (se_now env)\<rparr>"
  let ?g = "\<lparr>cf_ProtocolVersion = ProtocolVersion, cf_Sequence = ?seq, cf_Payload = Some ?a\<rparr>"
  obtain w1 r1 where s1: "storeA ?op w = (w1, r1)" by (cases "storeA ?op w")
  have au: "authorized (snd (?op (sw_store w)))" using env by (simp add: good_env_def)
  note unf = on_heartbeat_def Let_def checkA_def refuseA_def bindA_def fok
  from s1 au show ?thesis
  proof (cases rule: storeA_cases)
    case (failed e)
    with step s1 ws none fok(3,4) show ?thesis by (auto simp: unf intro!: servedI)
  next
    case (ok desired s)
    show ?thesis
    proof (cases "\<not> knownLifecycleAction (dl_Action desired) \<or> (dl_Revision desired < sv_lastIssuedDesiredRevision sv \<or>
           (dl_Revision desired = sv_lastIssuedDesiredRevision sv \<and> dl_Action desired \<noteq> sv_lastIssuedDesiredAction sv))")
      case True
      with step s1 ok ws none fok(3,4) show ?thesis by (auto simp: unf split: if_splits intro!: servedI)
    next
      case acc: False
      obtain w2 r2 where s2: "sendA (se_sends env) ?seq ?a w1 = (w2, r2)" by (cases "sendA (se_sends env) ?seq ?a w1")
      then show ?thesis
      proof (cases rule: sendA_cases)
        case (failed e)
        with step s1 ok acc s2 ws none fok(3,4) show ?thesis by (auto simp: unf intro!: servedI)
      next
        case sent: ok
        have sent2: "sw_sent w2 = [?g]" using sent(2) ok(3) ws by simp
        have inv2: "gateway_inv l (down @ [?g])"
          by (rule gateway_inv_snoc[OF inv]) (use sq ep out z env in \<open>auto simp: down_ok_def kinds good_env_def\<close>)
        have pair2: "pair_inv psize gid (?sv\<lparr>sv_expected := sv_expected sv + 1\<rparr>) l st up (down @ [?g])"
          using pair_beat_ack[OF pair f, of ?g] by simp
        obtain w3 r3 where s3: "issue_directive env desired ?sv w2 = (w3, r3)" by (cases "issue_directive env desired ?sv w2")
        have rest: "served psize gid l st up down (sw_sent w') (onward sv r)"
          if iv: "gateway_inv l (down @ sw_sent w3)" and pv: "pair_inv psize gid (sv'\<lparr>sv_expected := sv_expected sv + 1\<rparr>) l st up (down @ sw_sent w3)"
            and r3: "r3 = Inr sv'" for sv'
        proof -
          obtain w4 r4 where s4: "sendDesiredState (se_store env) (se_now env) (se_sends env) (sv_gatewayID sv) (co_Epoch ?c) (co_LeaseTimeout ?c)
              (dl_Revision desired) (sv_outboundSequence sv') w3 = (w4, r4)" by (metis surj_pair)
          have e: "w' = w4" "r = (case r4 of Inl e \<Rightarrow> Inl e | Inr n \<Rightarrow> Inr (sv'\<lparr>sv_outboundSequence := n\<rparr>))"
            using step s1 ok(1) acc s2 sent(1) s3 r3 s4 fok(3,4) by (auto simp: unf returnA_def split: sum.splits)
          have o: "sv_outboundSequence sv' = gs_lastControlSequence l + length (down @ sw_sent w3)" using pv by (simp add: pair_inv_def)
          from s4 env lease show ?thesis
          proof (cases rule: sendDesiredState_cases)
            case (failed x)
            with e iv show ?thesis by (auto intro!: servedI)
          next
            case (ok sn)
            let ?s = "\<lparr>cf_ProtocolVersion = ProtocolVersion, cf_Sequence = sv_outboundSequence sv' + 1, cf_Payload = Some (SnapshotP sn)\<rparr>"
            have "gateway_inv l ((down @ sw_sent w3) @ [?s])" by (rule gateway_inv_snoc[OF iv]) (use o ok in \<open>auto simp: down_ok_def kinds\<close>)
            moreover have "pair_inv psize gid (sv'\<lparr>sv_expected := sv_expected sv + 1, sv_outboundSequence := sv_outboundSequence sv' + 1\<rparr>) l st up ((down @ sw_sent w3) @ [?s])"
              using pair_snapshot[OF pv, of ?s sn] by simp
            ultimately show ?thesis using e ok by (auto simp: expected_last intro!: servedI)
          qed
        qed
        from s3 show ?thesis
        proof (cases rule: issue_directive_cases)
          case (failed e)
          with step s1 ok(1) acc s2 sent(1) s3 inv2 sent2 fok(3,4) show ?thesis by (auto simp: unf intro!: servedI)
        next
          case none
          with rest inv2 pair2 sent2 show ?thesis by simp
        next
          case (issued d)
          let ?w = "\<lparr>ld_DirectiveId = id_id d, ld_ConnectionEpoch = co_Epoch ?c, ld_Action = id_action d, ld_DrainDeadlineUnixMs = None, ld_Reason = REASON_OPERATOR\<rparr>"
          let ?d = "\<lparr>cf_ProtocolVersion = ProtocolVersion, cf_Sequence = ?seq + 1, cf_Payload = Some (DirectiveP ?w)\<rparr>"
          have s: "sw_sent w3 = [?g, ?d]" using issued(4) sent2 by simp
          have "gateway_inv l ((down @ [?g]) @ [?d])"
            by (rule gateway_inv_snoc[OF inv2]) (use out ep acc issued(3) idn in \<open>auto simp: down_ok_def kinds directiveID_def knownLifecycleAction_def
                validLifecycleAction_def validDirectiveReason_def\<close>)
          then have iv: "gateway_inv l (down @ sw_sent w3)" by (simp add: s)
          have "pair_inv psize gid (?sv\<lparr>sv_expected := sv_expected sv + 1, sv_outboundSequence := ?seq + 1, sv_pendingDirective := Some d,
              sv_lastIssuedDesiredRevision := dl_Revision desired, sv_lastIssuedDesiredAction := dl_Action desired\<rparr>) l st up ((down @ [?g]) @ [?d])"
            using pair_directive[OF pair2, of ?d ?w d] issued(1) by simp
          then have pv: "pair_inv psize gid (?sv\<lparr>sv_outboundSequence := ?seq + 1, sv_pendingDirective := Some d,
              sv_lastIssuedDesiredRevision := dl_Revision desired, sv_lastIssuedDesiredAction := dl_Action desired,
              sv_expected := sv_expected sv + 1\<rparr>) l st up (down @ sw_sent w3)"
            unfolding expected_last(2) by (simp add: s)
          show ?thesis by (rule rest[OF iv _ issued(2)]) (use pv in simp)
        qed
      qed
    qed
  qed
qed

text \<open>The other frames.\<close>

lemma pair_drop:
  assumes pair: "pair_inv psize gid sv l st (f # up) down" and f: "\<not> beat f"
  shows "pair_inv psize gid (sv\<lparr>sv_expected := sv_expected sv + 1\<rparr>) l st up down"
proof -
  let ?sv = "sv\<lparr>sv_expected := sv_expected sv + 1\<rparr>"
  have "up_ok psize ?sv l y = up_ok psize sv l y" for y by (simp add: up_ok_def cong: option.case_cong gateway_payload.case_cong)
  then show ?thesis using pair f by (auto simp: pair_inv_def directive_known_def)
qed

lemma serve_report:
  assumes pair: "pair_inv psize gid sv l st (f # up) down" and inv: "gateway_inv l down" and env: "good_env cfg env"
    and f: "gf_Payload f = Some (DesiredStateReportP x)" and ws: "sw_sent w = []"
    and step: "on_state_report env x sv w = (w', r)"
  shows "served psize gid l st up down (sw_sent w') (onward sv r)"
proof -
  let ?op = "st_PersistDesiredStateReport (se_store env) (sv_gatewayID sv) (co_Epoch (sv_connection sv)) (reconciliationReport x)"
  have v: "validateDesiredStateReport x (co_Epoch (sv_connection sv)) = None" using pair f by (simp add: pair_inv_def up_ok_def)
  obtain w1 r1 where s1: "storeA ?op w = (w1, r1)" by (cases "storeA ?op w")
  have au: "authorized (snd (?op (sw_store w)))" using env by (simp add: good_env_def)
  have p: "pair_inv psize gid (sv\<lparr>sv_expected := sv_expected sv + 1\<rparr>) l st up down" by (rule pair_drop[OF pair]) (simp add: kinds f)
  from s1 au show ?thesis
    by (cases rule: storeA_cases) (use step s1 v ws inv p in \<open>auto simp: on_state_report_def checkA_def bindA_def returnA_def intro!: servedI\<close>)
qed

lemma serve_events:
  assumes pair: "pair_inv psize gid sv l st (f # up) down" and inv: "gateway_inv l down" and env: "good_env cfg env"
    and f: "gf_Payload f = Some (EventBatchP b)" and ws: "sw_sent w = []"
    and step: "on_event_batch psize env b sv w = (w', r)"
  shows "served psize gid l st up down (sw_sent w') (onward sv r)"
proof -
  obtain evs where v: "eventBatch psize b (sv_gatewayID sv) (co_Epoch (sv_connection sv)) = Inr evs"
    and fl: "gs_eventInFlight l" "ge_JournalSequence (last b) = gs_expectedEventAck l"
    using pair f by (auto simp: pair_inv_def up_ok_def)
  note sq = eventBatch_seq[OF v]
  have out: "sv_outboundSequence sv = gs_lastControlSequence l + length down" and z: "count events up = 0" "count event_ack down = 0"
    using pair f by (auto simp: pair_inv_def kinds)
  let ?op = "st_IngestEvents (se_store env) (sv_gatewayID sv) (co_Epoch (sv_connection sv)) evs" and ?n = "sv_outboundSequence sv + 1"
  let ?p = "EventAckP (ev_JournalSequence (last evs))"
  let ?g = "\<lparr>cf_ProtocolVersion = ProtocolVersion, cf_Sequence = ?n, cf_Payload = Some ?p\<rparr>"
  obtain w1 r1 where s1: "storeA ?op w = (w1, r1)" by (cases "storeA ?op w")
  have au: "authorized (snd (?op (sw_store w)))" using env by (simp add: good_env_def)
  have p: "pair_inv psize gid (sv\<lparr>sv_expected := sv_expected sv + 1\<rparr>) l st up down" by (rule pair_drop[OF pair]) (simp add: kinds f)
  have same: "up_ok psize (sv\<lparr>sv_outboundSequence := n, sv_expected := e\<rparr>) l y = up_ok psize (sv\<lparr>sv_expected := e\<rparr>) l y" for e n y
    by (simp add: up_ok_def cong: option.case_cong gateway_payload.case_cong)
  have p2: "pair_inv psize gid (sv\<lparr>sv_outboundSequence := ?n, sv_expected := sv_expected sv + 1\<rparr>) l st up (down @ [?g])"
    using p fl z by (auto simp: pair_inv_def kinds directive_known_def same)
  have i2: "gateway_inv l (down @ [?g])" by (rule gateway_inv_snoc[OF inv]) (use out fl sq z in \<open>auto simp: down_ok_def kinds\<close>)
  from s1 au show ?thesis
  proof (cases rule: storeA_cases)
    case (failed e)
    then show ?thesis using step s1 v ws inv by (auto simp: on_event_batch_def bindA_def intro!: servedI)
  next
    case (ok u s)
    obtain w2 r2 where s2: "sendA (se_sends env) ?n ?p w1 = (w2, r2)" by (cases "sendA (se_sends env) ?n ?p w1")
    then show ?thesis
      by (cases rule: sendA_cases) (use step s1 s2 ok v ws inv p2 i2 in \<open>auto simp: on_event_batch_def bindA_def returnA_def intro!: servedI\<close>)
  qed
qed

lemma serve_lifecycle:
  assumes pair: "pair_inv psize gid sv l st (f # up) down" and inv: "gateway_inv l down" and env: "good_env cfg env"
    and f: "gf_Payload f = Some (LifecycleReportP x)" and ws: "sw_sent w = []"
    and step: "on_lifecycle_report env x sv w = (w', r)"
  shows "served psize gid l st up down (sw_sent w') (onward sv r)"
proof -
  obtain d where d: "sv_pendingDirective sv = Some d" "validateLifecycleReport x (co_Epoch (sv_connection sv)) d = None"
    using pair f by (auto simp: pair_inv_def up_ok_def)
  let ?op = "st_Lifecycle (se_store env) (sv_gatewayID sv) (co_Epoch (sv_connection sv)) (lifecycleValue x)"
  obtain w1 r1 where s1: "storeA ?op w = (w1, r1)" by (cases "storeA ?op w")
  have au: "authorized (snd (?op (sw_store w)))" using env by (simp add: good_env_def)
  let ?sv = "sv\<lparr>sv_pendingDirective := None, sv_expected := sv_expected sv + 1\<rparr>"
  have p: "pair_inv psize gid ?sv l st up down"
  proof -
    have p: "pair_inv psize gid (sv\<lparr>sv_expected := sv_expected sv + 1\<rparr>) l st up down" by (rule pair_drop[OF pair]) (simp add: kinds f)
    have z: "count reported up = 0" "count directed down = 0" "ss_Directive st = None" using pair f by (auto simp: pair_inv_def kinds d)
    have "\<forall>y\<in>set up. up_ok psize ?sv l y"
    proof
      fix y assume y: "y \<in> set up"
      then have "up_ok psize (sv\<lparr>sv_expected := sv_expected sv + 1\<rparr>) l y" "\<not> reported y" using p z(1) by (simp_all add: pair_inv_def count_0)
      then show "up_ok psize ?sv l y" by (auto simp: up_ok_def kinds split: option.splits gateway_payload.splits)
    qed
    moreover have "\<forall>g\<in>set down. \<forall>d. cf_Payload g \<noteq> Some (DirectiveP d)" using z(2) by (auto simp: count_0 kinds)
    ultimately show ?thesis using p z by (auto simp: pair_inv_def)
  qed
  from s1 au show ?thesis
    by (cases rule: storeA_cases) (use step s1 d ws inv p in \<open>auto simp: on_lifecycle_report_def checkA_def bindA_def returnA_def intro!: servedI\<close>)
qed

lemma serve_frame:
  assumes pair: "pair_inv psize gid sv l st (f # up) down" and inv: "gateway_inv l down" and env: "good_env cfg env"
    and ws: "sw_sent w = []" and step: "handle_frame psize env f sv w = (w', r)"
  shows "served psize gid l st up down (sw_sent w') r"
proof -
  have fo: "up_ok psize sv l f" and sq: "gf_Sequence f = sv_expected sv" using pair by (simp_all add: pair_inv_def)
  from fo obtain p where p: "gf_Payload f = Some p" by (auto simp: up_ok_def split: option.splits)
  let ?m = "case gf_Payload f of
         Some (HeartbeatP hb) \<Rightarrow> on_heartbeat env (gf_Sequence f) hb sv
       | Some (DesiredStateReportP r) \<Rightarrow> on_state_report env r sv
       | Some (EventBatchP b) \<Rightarrow> on_event_batch psize env b sv
       | Some (LifecycleReportP r) \<Rightarrow> on_lifecycle_report env r sv
       | _ \<Rightarrow> (\<lambda>w. (w, Inl (rejected ''hello is only valid as the first gateway frame'')))"
  have ve: "validateEnvelope f (sv_expected sv) = None" using fo sq p by (simp add: validateEnvelope_def up_ok_def)
  obtain r' where m: "?m w = (w', r')" and r: "r = onward sv r'"
  proof -
    obtain w1 r1 where "?m w = (w1, r1)" by (cases "?m w")
    with step ve show ?thesis by (intro that[of r1]) (auto simp: handle_frame_def checkA_def bindA_def returnA_def onward_def split: sum.splits)
  qed
  show ?thesis
  proof (cases p)
    case (HelloP x) with fo p show ?thesis by (simp add: up_ok_def)
  next
    case (HeartbeatP x) with serve_beat[OF pair inv env _ ws] m p r show ?thesis by simp
  next
    case (LifecycleReportP x) with serve_lifecycle[OF pair inv env _ ws] m p r show ?thesis by simp
  next
    case (DesiredStateReportP x) with serve_report[OF pair inv env _ ws] m p r show ?thesis by simp
  next
    case (EventBatchP x) with serve_events[OF pair inv env _ ws] m p r show ?thesis by simp
  qed
qed

end
