(* ===== verification/ControlRuns.thy ===== *)
theory ControlRuns
  imports ControlServing JournalControl
begin

text \<open>
  Runs of a control connection, from the hello on: between these two ends a connection never ends in an error the
  gateway takes for final, whatever the store, the journal, the timers and the network do within their
  contracts; and the gateway drops journal events only after the API has ingested them. Also the contracts that parts of the
  gateway meet or miss: the journal's batches and the requests of the directive loop, and the delay between connections.
\<close>

section \<open>The handshake\<close>

definition welcomes :: "sup_config \<Rightarrow> control_frame \<Rightarrow> control_welcome \<Rightarrow> bool" where
  "welcomes cfg f we \<longleftrightarrow> validateWelcome f = Inr we \<and> cf_Sequence f = 1 \<and>
     sc_MinHeartbeat cfg \<le> millis (we_HeartbeatIntervalMs we) \<and> millis (we_HeartbeatIntervalMs we) \<le> sc_MaxHeartbeat cfg \<and>
     millis (we_HeartbeatIntervalMs we) < millis (we_LeaseTimeoutMs we)"

lemma enter_welcomed:
  assumes "welcomes cfg f we"
  shows "enter_session cfg rt (Arrived f) w = (w\<lparr>gd_status := connected we\<rparr>, Inr (fresh_session 1 rt we))"
  using assms by (simp add: welcomes_def enter_session_def receiveWelcome_def Let_def)

lemma welcome_accepted:
  assumes "\<not> invalid_allocation c" "timely cfg c" "UnixMilli now > 0"
  shows "welcomes cfg \<lparr>cf_ProtocolVersion = ProtocolVersion, cf_Sequence = 1, cf_Payload = Some (WelcomeP (welcome_of now c))\<rparr> (welcome_of now c)"
  using assms
  by (auto simp: welcomes_def welcome_of_def validateWelcome_def invalid_allocation_def timely_def millis_def validLifecycleAction_def knownLifecycleAction_def
      split: if_splits)

lemma fresh_empty: "we_ConnectionEpoch we \<noteq> 0 \<Longrightarrow> gateway_inv (fresh_session 1 rt we) []"
  by (simp add: gateway_inv_def fresh_session_def)

lemma connect_cases:
  assumes step: "connect_first bare_origin env gid (gateway_frame_of 1 (HelloP h)) w = (w', r)" and h: "validateHello bare_origin h = None"
    and env: "good_env cfg env" and ws: "sw_sent w = []"
  obtains (refused) e where "r = Inl e" "quiet e" "sw_sent w' = []"
  | (cut) e f we where "r = Inl e" "quiet e" "sw_sent w' = [f]" "welcomes cfg f we" "\<And>rt. gateway_inv (fresh_session 1 rt we) []"
  | (greeted) sv f s we where "r = Inr sv" "sw_sent w' = [f, s]" "welcomes cfg f we" "\<And>rt. gateway_inv (fresh_session 1 rt we) [s]"
      "\<And>rt psize. pair_inv psize gid sv (fresh_session 1 rt we) (connected we) [] [s]"
proof -
  let ?op = "st_Accept (se_store env) gid (helloValue h)"
  obtain w1 r1 where s1: "storeA ?op w = (w1, r1)" by (cases "storeA ?op w")
  have au: "authorized (snd (?op (sw_store w)))" using env by (simp add: good_env_def)
  note unf = connect_first_def accept_hello_def checkA_def bindA_def refuseA_def validateEnvelope_def gateway_frame_of_def h
  from s1 au show ?thesis
  proof (cases rule: storeA_cases)
    case (failed e)
    with step s1 ws show ?thesis by (intro refused[of e]) (auto simp: unf)
  next
    case (ok c st)
    show ?thesis
    proof (cases "invalid_allocation c")
      case True
      with step s1 ok ws show ?thesis by (intro refused[of "Status InternalCode ''invalid gateway connection allocation''"]) (auto simp: unf)
    next
      case val: False
      have tm: "timely cfg c" using env ok(2) by (simp add: good_env_def)
      have lease: "co_LeaseTimeout c \<ge> 1000000" using tm by (simp add: timely_def)
      let ?we = "welcome_of (se_now env) c"
      let ?f = "\<lparr>cf_ProtocolVersion = ProtocolVersion, cf_Sequence = 1, cf_Payload = Some (WelcomeP ?we)\<rparr>"
      have wel: "welcomes cfg ?f ?we" by (rule welcome_accepted[OF val tm]) (use env in \<open>simp add: good_env_def\<close>)
      have ep: "we_ConnectionEpoch ?we \<noteq> 0" using val by (simp add: welcome_of_def invalid_allocation_def)
      obtain w2 r2 where s2: "sendA (se_sends env) 1 (WelcomeP ?we) w1 = (w2, r2)" by (cases "sendA (se_sends env) 1 (WelcomeP ?we) w1")
      then show ?thesis
      proof (cases rule: sendA_cases)
        case (failed e)
        with step s1 ok val s2 ws show ?thesis by (intro refused[of e]) (auto simp: unf greet_def)
      next
        case ok2: ok
        have sent: "sw_sent w2 = [?f]" using ok2(2) ok(3) ws by simp
        obtain w3 r3 where s3: "sendDesiredState (se_store env) (se_now env) (se_sends env) gid (co_Epoch c) (co_LeaseTimeout c)
            (co_DesiredRevision c) 1 w2 = (w3, r3)" by (metis surj_pair)
        from s3 env lease show ?thesis
        proof (cases rule: sendDesiredState_cases)
          case (failed e)
          with step s1 ok(1) val s2 ok2(1) s3 sent show ?thesis
            by (intro cut[OF _ _ _ wel fresh_empty[OF ep], of e]) (auto simp: unf greet_def)
        next
          case snap: (ok s)
          let ?s = "\<lparr>cf_ProtocolVersion = ProtocolVersion, cf_Sequence = 1 + 1, cf_Payload = Some (SnapshotP s)\<rparr>"
          let ?sv = "\<lparr>sv_gatewayID = gid, sv_connection = c, sv_outboundSequence = 2, sv_lastAcknowledgedControlSequence = 1,
            sv_lastIssuedDesiredRevision = co_DesiredRevision c, sv_lastIssuedDesiredAction = co_DesiredLifecycle c, sv_pendingDirective = None, sv_expected = 2\<rparr>"
          show ?thesis
          proof (rule greeted[OF _ _ wel])
            show "r = Inr ?sv" "sw_sent w' = [?f, ?s]"
              using step s1 ok(1) val s2 ok2(1) s3 snap sent by (auto simp: unf greet_def returnA_def)
            show "gateway_inv (fresh_session 1 rt ?we) [?s]" for rt
              using ep snap(2) by (simp add: gateway_inv_def fresh_session_def down_ok_def kinds)
            show "pair_inv psize gid ?sv (fresh_session 1 rt ?we) (connected ?we) [] [?s]" for rt psize
              using val lease by (simp add: pair_inv_def fresh_session_def connected_def zero_status_def kinds welcome_of_def invalid_allocation_def)
          qed
        qed
      qed
    qed
  qed
qed

section \<open>Both ends\<close>

lemma local_takes:
  assumes inv: "gateway_inv l down" and pt: "good_parts psize gid pt" and ev: "local_event ev"
    and step: "loop_step pt ev (l, w) = ((l', w'), r)" and ws: "gd_sent w = []"
  shows "not_final r \<and> (r = None \<longrightarrow> gateway_inv l' down \<and>
    (\<forall>sv up. pair_inv psize gid sv l (gd_status w) up down \<longrightarrow> pair_inv psize gid sv l' (gd_status w') (up @ gd_sent w') down))"
proof -
  have beat: ?thesis if a: "gs_heartbeatArmed l" and s: "(case sendHeartbeat pt (l, w) of (s, r) \<Rightarrow> (s, map_option Some r)) = ((l', w'), r)"
  proof -
    from s obtain r1 where b: "sendHeartbeat pt (l, w) = ((l', w'), r1)" and r: "r = map_option Some r1" by (auto split: prod.splits)
    from beat_half[OF inv pt a b] beat_pair[OF inv pt a _ ws] b r show ?thesis by (cases r1) auto
  qed
  show ?thesis
  proof (cases ev)
    case (Received a)
    with step ev show ?thesis
      by (cases a) (auto simp: local_event_def loop_step_def Let_def handleFrame_def not_final_def transport_error_def)
  next
    case HeartbeatTick
    with beat step inv ws show ?thesis by (cases "gs_heartbeatArmed l") (auto simp: loop_step_def Let_def not_final_def)
  next
    case ReportSignal
    have "gateway_inv (l\<lparr>gs_pendingReport := True\<rparr>) down" using inv by (simp add: gateway_inv_def)
    moreover have "pair_inv psize gid sv (l\<lparr>gs_pendingReport := True\<rparr>) st up down = pair_inv psize gid sv l st up down" for sv st up
      by (simp add: pair_inv_def up_ok_def cong: option.case_cong gateway_payload.case_cong)
    ultimately show ?thesis using ReportSignal beat step ws by (cases "gs_heartbeatArmed l") (auto simp: loop_step_def Let_def not_final_def)
  next
    case (LifecycleRequest rq)
    show ?thesis
    proof (cases "matchesActiveDirective (rq_directive rq) (gd_status w)")
      case True
      with step LifecycleRequest obtain r1 where b: "sendLifecycleReport pt rq (l, w) = ((l', w'), r1)" and r: "r = map_option Some r1"
        by (auto simp: loop_step_def Let_def split: prod.splits)
      have g: "good_request rq" using ev LifecycleRequest by (simp add: local_event_def)
      from g True b show ?thesis
      proof (cases rule: report_pair)
        case sent
        have "gateway_inv l' down" using inv by (simp add: sent(2) gateway_inv_def)
        with sent(1) sent(3)[OF ws] r show ?thesis by (auto simp: not_final_def)
      qed (simp add: r not_final_def)
    qed (use step LifecycleRequest inv ws in \<open>auto simp: loop_step_def Let_def not_final_def\<close>)
  qed (use step in \<open>auto simp: loop_step_def Let_def not_final_def\<close>)
qed

text \<open>How an end may be over: quietly for the API, with no final error for the gateway.\<close>

definition quiet_end :: "status_err option \<Rightarrow> bool" where
  "quiet_end r \<longleftrightarrow> (case r of None \<Rightarrow> True | Some e \<Rightarrow> quiet e)"

definition welcome_waiting :: "sup_config \<Rightarrow> runtime_snapshot \<Rightarrow> control_frame list \<Rightarrow> bool" where
  "welcome_waiting cfg rt down \<longleftrightarrow> (\<exists>f rest we. down = f # rest \<and> welcomes cfg f we \<and> gateway_inv (fresh_session 1 rt we) rest)"

definition link_inv :: "sup_config \<Rightarrow> (string \<Rightarrow> bool) \<Rightarrow> (gateway_event list \<Rightarrow> nat) \<Rightarrow> string \<Rightarrow> ('s, 'g) link \<Rightarrow> bool" where
  "link_inv cfg bare_origin psize gid k \<longleftrightarrow>
     (case lk_gateway k of
        GatewayOver r \<Rightarrow> not_final (Some r)
      | AwaitWelcome rt \<Rightarrow>
          (case lk_server k of
             AwaitHello \<Rightarrow> lk_down k = [] \<and> (\<exists>h. lk_up k = [gateway_frame_of 1 (HelloP h)] \<and> validateHello bare_origin h = None)
           | Serving sv \<Rightarrow> lk_up k = [] \<and> (\<exists>f rest we. lk_down k = f # rest \<and> welcomes cfg f we \<and> gateway_inv (fresh_session 1 rt we) rest \<and>
               pair_inv psize gid sv (fresh_session 1 rt we) (connected we) [] rest)
           | ServerOver r \<Rightarrow> quiet_end r \<and> (lk_down k = [] \<or> welcome_waiting cfg rt (lk_down k)))
      | InSession l \<Rightarrow> gateway_inv l (lk_down k) \<and>
          (case lk_server k of
             AwaitHello \<Rightarrow> False
           | Serving sv \<Rightarrow> pair_inv psize gid sv l (lk_status k) (lk_up k) (lk_down k)
           | ServerOver r \<Rightarrow> quiet_end r))"

lemma quiet_final: "quiet e \<Longrightarrow> \<not> terminal (StatusErr m e)"
  by (auto simp: quiet_def)

lemma end_not_final: "quiet_end s \<Longrightarrow> receiveWelcome (end_arrival s) = Inl e \<Longrightarrow> \<not> terminal e"
  by (cases s) (auto simp: quiet_end_def end_arrival_def receiveWelcome_def quiet_def)

lemma served_link:
  assumes "served psize gid l st up down fs r"
  shows "gateway_inv l (down @ fs) \<and> (case server_result r of ServerOver s \<Rightarrow> quiet_end s | Serving sv \<Rightarrow> pair_inv psize gid sv l st up (down @ fs) | AwaitHello \<Rightarrow> False)"
  using assms by (auto simp: served_def server_result_def quiet_end_def split: sum.splits)

lemma link_inv_server:
  assumes inv: "link_inv cfg bare_origin psize gid k" and env: "good_env cfg env"
  shows "link_inv cfg bare_origin psize gid (server_takes bare_origin psize gid env k)"
proof (cases "lk_gateway k")
  case (GatewayOver r)
  then show ?thesis using inv by (auto simp: link_inv_def server_takes_def split: list.splits server_phase.splits prod.splits)
next
  case (AwaitWelcome rt)
  show ?thesis
  proof (cases "lk_server k")
    case AwaitHello
    with inv AwaitWelcome obtain h where h: "lk_up k = [gateway_frame_of 1 (HelloP h)]" "validateHello bare_origin h = None" and d: "lk_down k = []"
      by (auto simp: link_inv_def)
    obtain w r where c: "connect_first bare_origin env gid (gateway_frame_of 1 (HelloP h)) \<lparr>sw_store = lk_store k, sw_sent = []\<rparr> = (w, r)"
      by (metis surj_pair)
    have e: "server_takes bare_origin psize gid env k = k\<lparr>lk_server := server_result r, lk_store := sw_store w, lk_up := [], lk_down := sw_sent w\<rparr>"
      using h(1) d AwaitHello c by (simp add: server_takes_def)
    have z: "sw_sent \<lparr>sw_store = lk_store k, sw_sent = []\<rparr> = []" by simp
    from c h(2) env z show ?thesis
    proof (cases rule: connect_cases)
      case greeted
      then show ?thesis unfolding e using AwaitWelcome by (auto simp: link_inv_def server_result_def)
    next
      case (cut x f we)
      then have "welcome_waiting cfg rt [f]" unfolding welcome_waiting_def by blast
      with cut show ?thesis unfolding e using AwaitWelcome by (simp add: link_inv_def server_result_def quiet_end_def)
    qed (use AwaitWelcome e in \<open>simp_all add: link_inv_def server_result_def quiet_end_def\<close>)
  qed (use inv AwaitWelcome in \<open>auto simp: link_inv_def server_takes_def split: list.splits\<close>)
next
  case (InSession l)
  show ?thesis
  proof (cases "lk_server k")
    case (Serving sv)
    show ?thesis
    proof (cases "lk_up k")
      case (Cons f up)
      obtain w r where c: "handle_frame psize env f sv \<lparr>sw_store = lk_store k, sw_sent = []\<rparr> = (w, r)" by (metis surj_pair)
      have "served psize gid l (lk_status k) up (lk_down k) (sw_sent w) r"
        by (rule serve_frame[OF _ _ env _ c]) (use inv InSession Serving Cons in \<open>simp_all add: link_inv_def\<close>)
      from served_link[OF this] show ?thesis
        using Serving Cons c InSession by (auto simp: link_inv_def server_takes_def split: server_phase.splits)
    qed (use inv in \<open>simp add: server_takes_def\<close>)
  qed (use inv InSession in \<open>auto simp: link_inv_def server_takes_def split: list.splits\<close>)
qed

lemma link_inv_gateway:
  assumes inv: "link_inv cfg bare_origin psize gid k" and pt: "good_parts psize gid pt"
  shows "link_inv cfg bare_origin psize gid (gateway_takes cfg pt k)"
proof (cases "lk_down k")
  case (Cons f down)
  show ?thesis
  proof (cases "lk_gateway k")
    case (AwaitWelcome rt)
    with inv Cons obtain we where we: "welcomes cfg f we" "gateway_inv (fresh_session 1 rt we) down"
      and s: "case lk_server k of Serving sv \<Rightarrow> lk_up k = [] \<and> pair_inv psize gid sv (fresh_session 1 rt we) (connected we) [] down
        | ServerOver r \<Rightarrow> quiet_end r | AwaitHello \<Rightarrow> False"
      by (cases "lk_server k") (auto simp: link_inv_def welcome_waiting_def)
    then show ?thesis using Cons AwaitWelcome
      by (auto simp: link_inv_def gateway_takes_def enter_welcomed[OF we(1)] split: server_phase.splits)
  next
    case (InSession l)
    have g: "gateway_inv l (f # down)" using inv InSession Cons by (simp add: link_inv_def)
    obtain l' w r where st: "loop_step pt (Received (Arrived f)) (l, \<lparr>gd_parts = lk_parts k, gd_sent = [], gd_status = lk_status k\<rparr>) = ((l', w), r)"
      by (metis surj_pair)
    have e: "gateway_takes cfg pt k = k\<lparr>lk_gateway := gateway_result l' r, lk_parts := gd_parts w, lk_status := gd_status w, lk_up := lk_up k @ gd_sent w,
        lk_down := down, lk_dropped := lk_dropped k @ drops_of f\<rparr>"
      using Cons InSession st by (simp add: gateway_takes_def)
    have t: "not_final r \<and> (r = None \<longrightarrow> gateway_inv l' down)" by (rule gateway_takes_frame[OF g pt st])
    show ?thesis
    proof (cases r)
      case None
      have "pair_inv psize gid sv l' (gd_status w) (lk_up k @ gd_sent w) down" if "lk_server k = Serving sv" for sv
        by (rule pair_takes_frame[OF g pt st[unfolded None]]) (use inv InSession Cons that in \<open>simp_all add: link_inv_def\<close>)
      with t None show ?thesis unfolding e using inv InSession by (auto simp: link_inv_def gateway_result_def split: server_phase.splits)
    next
      case (Some x)
      with t show ?thesis unfolding e by (simp add: link_inv_def gateway_result_def)
    qed
  qed (use inv Cons in \<open>simp add: gateway_takes_def\<close>)
qed (use inv in \<open>simp add: gateway_takes_def\<close>)

lemma link_inv_event:
  assumes inv: "link_inv cfg bare_origin psize gid k" and pt: "good_parts psize gid pt" and ev: "local_event ev"
  shows "link_inv cfg bare_origin psize gid (gateway_does pt ev k)"
proof (cases "lk_gateway k")
  case (InSession l)
  let ?w = "\<lparr>gd_parts = lk_parts k, gd_sent = [], gd_status = lk_status k\<rparr>"
  obtain l' w r where st: "loop_step pt ev (l, ?w) = ((l', w), r)" by (metis surj_pair)
  have e: "gateway_does pt ev k = k\<lparr>lk_gateway := gateway_result l' r, lk_parts := gd_parts w, lk_status := gd_status w, lk_up := lk_up k @ gd_sent w\<rparr>"
    using InSession st by (simp add: gateway_does_def)
  have g: "gateway_inv l (lk_down k)" using inv InSession by (simp add: link_inv_def)
  have t: "not_final r \<and> (r = None \<longrightarrow> gateway_inv l' (lk_down k) \<and>
    (\<forall>sv up. pair_inv psize gid sv l (lk_status k) up (lk_down k) \<longrightarrow> pair_inv psize gid sv l' (gd_status w) (up @ gd_sent w) (lk_down k)))"
    using local_takes[OF g pt ev st] by simp
  show ?thesis
  proof (cases r)
    case None
    with t show ?thesis unfolding e using inv InSession by (auto simp: link_inv_def gateway_result_def split: server_phase.splits)
  next
    case (Some x)
    with t show ?thesis unfolding e by (simp add: link_inv_def gateway_result_def)
  qed
qed (use inv in \<open>simp_all add: gateway_does_def\<close>)

lemma link_inv_told:
  assumes inv: "link_inv cfg bare_origin psize gid k" and s: "lk_server k = ServerOver s"
  shows "link_inv cfg bare_origin psize gid (gateway_does pt (Received (end_arrival s)) k)"
proof (cases "lk_gateway k")
  case (InSession l)
  have "quiet_end s" using inv s InSession by (simp add: link_inv_def)
  then show ?thesis using InSession
    by (cases s) (auto simp: link_inv_def gateway_does_def loop_step_def handleFrame_def end_arrival_def gateway_result_def not_final_def quiet_end_def
        dest: quiet_final)
qed (use inv in \<open>simp_all add: gateway_does_def\<close>)

lemma serve_ends_quiet:
  assumes "local_end i" "serve psize [(env, i)] sv w = (w', Some r)"
  shows "quiet_end r"
  using assms by (cases i) (auto simp: local_end_def quiet_end_def)

lemma link_inv_step:
  assumes inv: "link_inv cfg bare_origin psize gid k" and step: "link_step cfg bare_origin psize gid k k'"
  shows "link_inv cfg bare_origin psize gid k'"
  using step
proof cases
  case (api_turn env)
  with link_inv_server[OF inv] show ?thesis by simp
next
  case (hello_lost i e)
  have "quiet e" if "i \<noteq> EndOfStream"
    using hello_lost(3,5) that by (cases i) (auto simp: local_end_def receive_hello_def receiveStatus_def transport_error_def intro: quiet_statuses)
  with hello_lost inv show ?thesis by (auto simp: link_inv_def quiet_end_def split: gateway_phase.splits)
next
  case (api_ends sv i env w r)
  have "quiet_end r" by (rule serve_ends_quiet[OF api_ends(3,4)])
  with api_ends(1,2) inv show ?thesis by (auto simp: link_inv_def welcome_waiting_def split: gateway_phase.splits)
next
  case (others_move s g)
  with inv show ?thesis by (auto simp: link_inv_def split: gateway_phase.splits server_phase.splits)
next
  case (gateway_turn pt)
  with link_inv_gateway[OF inv] show ?thesis by simp
next
  case (gateway_event pt ev)
  with link_inv_event[OF inv] show ?thesis by simp
next
  case (gateway_told s pt)
  with link_inv_told[OF inv] show ?thesis by simp
next
  case (welcome_lost rt a s e)
  have "\<not> terminal e" using welcome_lost inv end_not_final[of s e]
    by (auto simp: link_inv_def receiveWelcome_def transport_error_def split: server_phase.splits)
  with welcome_lost(1) show ?thesis by (simp add: link_inv_def not_final_def)
next
  case (gives_up rt r)
  then show ?thesis by (auto simp: link_inv_def not_final_def)
qed

text \<open>The start: the gateway has sent a hello that is valid.\<close>

definition link_start :: "sup_config \<Rightarrow> (string \<Rightarrow> bool) \<Rightarrow> ('s, 'g) link \<Rightarrow> bool" where
  "link_start cfg bare_origin k \<longleftrightarrow>
     (case (lk_gateway k, gf_Payload (hd (lk_up k))) of
        (AwaitWelcome rt, Some (HelloP h)) \<Rightarrow> lk_server k = AwaitHello \<and> lk_up k = [newHelloFrame cfg rt] \<and> lk_down k = [] \<and>
          validateHello bare_origin h = None \<and> lk_ingested k = [] \<and> lk_dropped k = []
      | _ \<Rightarrow> False)"

lemma link_start_inv: "link_start cfg bare_origin k \<Longrightarrow> link_inv cfg bare_origin psize gid k"
  by (auto simp: link_start_def link_inv_def newHelloFrame_def gateway_frame_of_def split: gateway_phase.splits option.splits gateway_payload.splits)

lemma link_reachable_inv:
  assumes "(link_step cfg bare_origin psize gid)\<^sup>*\<^sup>* k0 k" "link_start cfg bare_origin k0"
  shows "link_inv cfg bare_origin psize gid k"
  using assms(1) by induction (auto intro: link_start_inv[OF assms(2)] link_inv_step)

section \<open>Acknowledged events\<close>

text \<open>Actions that send no event acknowledgement.\<close>

definition no_acks :: "('s, 'a) action \<Rightarrow> bool" where
  "no_acks m \<longleftrightarrow> (\<forall>w w' r. m w = (w', r) \<longrightarrow> (\<exists>fs. sw_sent w' = sw_sent w @ fs \<and> count event_ack fs = 0))"

lemma no_acks_intros [intro!]:
  "no_acks (returnA x)" "no_acks (\<lambda>w. (w, Inl e))" "no_acks (storeA op)"
  "no_acks m \<Longrightarrow> (\<And>x. no_acks (k x)) \<Longrightarrow> no_acks (bindA m k)"
  "no_acks m \<Longrightarrow> no_acks (checkA c m)" "no_acks m \<Longrightarrow> no_acks (refuseA b e m)"
  "(\<And>q. p \<noteq> EventAckP q) \<Longrightarrow> no_acks (sendA sf n p)"
proof -
  show "no_acks (returnA x)" "no_acks (\<lambda>w. (w, Inl e))" by (simp_all add: no_acks_def returnA_def)
  show "no_acks (storeA op)" by (auto simp: no_acks_def storeA_def split: prod.splits sum.splits)
  show "no_acks (checkA c m)" "no_acks (refuseA b e m)" if "no_acks m"
    using that by (auto simp: no_acks_def checkA_def refuseA_def split: option.splits)
  show "no_acks (sendA sf n p)" if "\<And>q. p \<noteq> EventAckP q"
    using that by (cases p) (auto simp: no_acks_def sendA_def event_ack_def split: option.splits)
  show "no_acks (bindA m k)" if m: "no_acks m" and k: "\<And>x. no_acks (k x)"
    unfolding no_acks_def
  proof (intro allI impI)
    fix w w' r assume b: "bindA m k w = (w', r)"
    obtain w1 r1 where s: "m w = (w1, r1)" by (cases "m w")
    with m obtain fs where fs: "sw_sent w1 = sw_sent w @ fs" "count event_ack fs = 0" unfolding no_acks_def by blast
    show "\<exists>fs. sw_sent w' = sw_sent w @ fs \<and> count event_ack fs = 0"
    proof (cases r1)
      case (Inl e)
      with b s fs show ?thesis by (auto simp: bindA_def)
    next
      case (Inr x)
      with b s have "k x w1 = (w', r)" by (simp add: bindA_def)
      with k obtain gs where "sw_sent w' = sw_sent w1 @ gs" "count event_ack gs = 0" unfolding no_acks_def by blast
      with fs show ?thesis by (intro exI[of _ "fs @ gs"]) simp
    qed
  qed
qed

lemma no_acks_sent: "no_acks m \<Longrightarrow> m w = (w', r) \<Longrightarrow> sw_sent w = [] \<Longrightarrow> count event_ack (sw_sent w') = 0"
  unfolding no_acks_def by fastforce

lemma no_acks_if [intro!]: "(b \<Longrightarrow> no_acks m) \<Longrightarrow> (\<not> b \<Longrightarrow> no_acks n) \<Longrightarrow> no_acks (if b then m else n)"
  by simp

lemma no_acks_desired [intro!]: "no_acks (sendDesiredState st now sf gid ep lease rev' n)"
  unfolding sendDesiredState_def Let_def by auto

lemma no_acks_issue [intro!]: "no_acks (issue_directive env d sv)"
  unfolding issue_directive_def Let_def by auto

lemma no_acks_heartbeat: "no_acks (on_heartbeat env n h sv)"
  unfolding on_heartbeat_def Let_def by auto

lemma no_acks_first: "no_acks (connect_first bare_origin env gid f)"
  unfolding connect_first_def accept_hello_def greet_def by (auto split: option.splits gateway_payload.splits)

definition acked :: "control_frame list \<Rightarrow> nat set" where
  "acked fs = {q. \<exists>f\<in>set fs. cf_Payload f = Some (EventAckP q)}"

lemma acked_simps [simp]: "acked [] = {}" "acked (f # fs) = set (drops_of f) \<union> acked fs" "acked (fs @ gs) = acked fs \<union> acked gs"
  by (auto simp: acked_def drops_of_def split: option.splits control_payload.splits)

lemma no_acks_acked: "count event_ack fs = 0 \<Longrightarrow> acked fs = {}"
  by (auto simp: acked_def count_0 event_ack_def)

lemma handle_frame_acks:
  assumes step: "handle_frame psize env f sv w = (w', r)" and ws: "sw_sent w = []"
  shows "acked (sw_sent w') \<subseteq> (\<lambda>b. ge_JournalSequence (last b)) ` set (batch_in psize env sv (sw_store w) f)"
proof -
  have no: ?thesis if "no_acks (handle_frame psize env f sv)"
    using no_acks_acked[OF no_acks_sent[OF that step ws]] by simp
  have other: ?thesis if "\<And>b. gf_Payload f \<noteq> Some (EventBatchP b)"
    by (rule no) (use that in \<open>auto simp: handle_frame_def on_state_report_def on_lifecycle_report_def
        intro!: no_acks_heartbeat split: option.splits gateway_payload.splits\<close>)
  show ?thesis
  proof (cases "\<exists>b. gf_Payload f = Some (EventBatchP b)")
    case True
    then obtain b where b: "gf_Payload f = Some (EventBatchP b)" by blast
    show ?thesis
    proof (cases "eventBatch psize b (sv_gatewayID sv) (co_Epoch (sv_connection sv))")
      case (Inl e)
      have "no_acks (handle_frame psize env f sv)" using b Inl by (auto simp: handle_frame_def on_event_batch_def)
      then show ?thesis by (rule no)
    next
      case (Inr evs)
      from eventBatch_seq[OF Inr] step ws b Inr show ?thesis
        by (auto simp: handle_frame_def on_event_batch_def checkA_def bindA_def returnA_def storeA_def sendA_def acked_def batch_in_def
            split: option.splits prod.splits sum.splits)
    qed
  qed (use other in blast)
qed

definition drop_inv :: "('s, 'g) link \<Rightarrow> bool" where
  "drop_inv k \<longleftrightarrow> acked (lk_down k) \<union> set (lk_dropped k) \<subseteq> (\<lambda>b. ge_JournalSequence (last b)) ` set (lk_ingested k)"

lemma drop_inv_server: "drop_inv k \<Longrightarrow> drop_inv (server_takes bare_origin psize gid env k)"
proof (cases "lk_up k")
  case (Cons f up)
  assume inv: "drop_inv k"
  show ?thesis
  proof (cases "lk_server k")
    case AwaitHello
    obtain w r where c: "connect_first bare_origin env gid f \<lparr>sw_store = lk_store k, sw_sent = []\<rparr> = (w, r)" by (metis surj_pair)
    have "acked (sw_sent w) = {}" using no_acks_acked[OF no_acks_sent[OF no_acks_first c]] by simp
    then show ?thesis using inv Cons AwaitHello c by (simp add: drop_inv_def server_takes_def)
  next
    case (Serving sv)
    obtain w r where c: "handle_frame psize env f sv \<lparr>sw_store = lk_store k, sw_sent = []\<rparr> = (w, r)" by (metis surj_pair)
    from handle_frame_acks[OF c] inv Cons Serving c show ?thesis
      by (auto simp: drop_inv_def server_takes_def)
  qed (use inv Cons in \<open>simp add: server_takes_def\<close>)
qed (simp add: server_takes_def)

lemma drop_inv_gateway: "drop_inv k \<Longrightarrow> drop_inv (gateway_takes cfg pt k)"
  by (cases "lk_down k"; cases "lk_gateway k") (auto simp: drop_inv_def gateway_takes_def split: prod.splits)

lemma drop_inv_does: "drop_inv k \<Longrightarrow> drop_inv (gateway_does pt ev k)"
  by (cases "lk_gateway k") (auto simp: drop_inv_def gateway_does_def split: prod.splits)

lemma drop_inv_step: "link_step cfg bare_origin psize gid k k' \<Longrightarrow> drop_inv k \<Longrightarrow> drop_inv k'"
  by (induction rule: link_step.induct) (auto intro: drop_inv_server drop_inv_gateway drop_inv_does, auto simp: drop_inv_def)

lemma link_start_drop: "link_start cfg bare_origin k \<Longrightarrow> drop_inv k"
  by (auto simp: link_start_def drop_inv_def split: gateway_phase.splits option.splits gateway_payload.splits)

section \<open>Batches of the journal\<close>

text \<open>What the API asks of an event besides its place: its type and a positive time. \<open>NewEvent\<close> gives both.\<close>

definition deliverable :: "payload_codec \<Rightarrow> jentry \<Rightarrow> bool" where
  "deliverable pc e \<longleftrightarrow>
     (case decodeJournalEvent pc (je_Payload e) of Inr v \<Rightarrow> ge_EventType v \<noteq> [] \<and> ge_OccurredAtUnixMs v > 0 | Inl _ \<Rightarrow> True)"

definition event_ok :: "string \<Rightarrow> nat \<Rightarrow> gateway_event \<Rightarrow> bool" where
  "event_ok gid ep v \<longleftrightarrow> ge_GatewayId v = gid \<and> ge_ConnectionEpoch v = ep \<and> ge_AssignmentEpoch v \<noteq> 0 \<and> ge_EventId v \<noteq> [] \<and>
     ge_SessionId v \<noteq> [] \<and> ge_OrganizationId v \<noteq> [] \<and> ge_EventType v \<noteq> [] \<and> ge_OccurredAtUnixMs v > 0"

lemma event_loop_accepts:
  assumes "sorted_wrt (<) (p # map ge_JournalSequence vs)" "\<forall>v\<in>set vs. event_ok gid ep v"
  shows "\<exists>evs. event_loop gid ep p vs = Some evs"
  using assms by (induction vs arbitrary: p) (auto simp: event_ok_def)

lemma stamped_ok:
  assumes "decodeJournalEvent pc (je_Payload e) = Inr v" "deliverable pc e" "je_EventID e \<noteq> []"
  shows "event_ok gid ep (stamp gid ep e v)"
proof -
  have "ge_EventType v \<noteq> []" "ge_OccurredAtUnixMs v > 0" using assms(1,2) by (simp_all add: deliverable_def)
  moreover have "ge_AssignmentEpoch v \<noteq> 0" "ge_SessionId v \<noteq> []" "ge_OrganizationId v \<noteq> []"
    using assms(1) by (auto simp: decodeJournalEvent_def split: sum.splits if_splits)
  ultimately show ?thesis using assms(3) by (simp add: event_ok_def stamp_def)
qed

lemma batch_loop_ok:
  assumes "batch_loop psize (decodeJournalEvent pc) mx gid ep asg acc es = Inr b"
    and "sorted_wrt (<) (map ge_JournalSequence acc @ map je_Seq es)" "\<forall>v\<in>set acc. event_ok gid ep v" "acc \<noteq> [] \<longrightarrow> int (psize acc) \<le> mx"
    and "\<forall>e\<in>set es. deliverable pc e \<and> je_EventID e \<noteq> []"
  shows "sorted_wrt (<) (map ge_JournalSequence b) \<and> (\<forall>v\<in>set b. event_ok gid ep v) \<and> (b \<noteq> [] \<longrightarrow> int (psize b) \<le> mx) \<and>
    length b \<le> length acc + length es \<and> ge_JournalSequence ` set b \<subseteq> ge_JournalSequence ` set acc \<union> je_Seq ` set es"
  using assms
proof (induction es arbitrary: acc)
  case (Cons e es)
  obtain v where v: "decodeJournalEvent pc (je_Payload e) = Inr v" using Cons.prems(1) by (auto elim!: bindr.elims)
  have s: "sorted_wrt (<) (map ge_JournalSequence acc @ map je_Seq es)" using Cons.prems(2) by (simp add: sorted_wrt_append)
  show ?case
  proof (cases "case asg of None \<Rightarrow> False | Some m \<Rightarrow> \<not> owned m v")
    case True
    with Cons.prems(1) v have l: "batch_loop psize (decodeJournalEvent pc) mx gid ep asg acc es = Inr b" by simp
    have "\<forall>e\<in>set es. deliverable pc e \<and> je_EventID e \<noteq> []" using Cons.prems(5) by simp
    from Cons.IH[OF l s Cons.prems(3,4) this] show ?thesis by auto
  next
    case False
    let ?acc = "acc @ [stamp gid ep e v]"
    show ?thesis
    proof (cases "int (psize ?acc) > mx")
      case True
      with Cons.prems(1) v False have "b = acc" by (auto split: if_splits)
      with Cons.prems show ?thesis by (auto simp: sorted_wrt_append)
    next
      case fits: False
      with Cons.prems(1) v False have l: "batch_loop psize (decodeJournalEvent pc) mx gid ep asg ?acc es = Inr b" by simp
      have "sorted_wrt (<) (map ge_JournalSequence ?acc @ map je_Seq es)" using Cons.prems(2) by (simp add: stamp_def)
      moreover have "\<forall>w\<in>set ?acc. event_ok gid ep w" using Cons.prems(3,5) stamped_ok[OF v] by simp
      moreover have "\<forall>e\<in>set es. deliverable pc e \<and> je_EventID e \<noteq> []" using Cons.prems(5) by simp
      ultimately have "sorted_wrt (<) (map ge_JournalSequence b) \<and> (\<forall>v\<in>set b. event_ok gid ep v) \<and> (b \<noteq> [] \<longrightarrow> int (psize b) \<le> mx) \<and>
          length b \<le> length ?acc + length es \<and> ge_JournalSequence ` set b \<subseteq> ge_JournalSequence ` set ?acc \<union> je_Seq ` set es"
        using fits by (intro Cons.IH[OF l]) simp_all
      then show ?thesis by (auto simp: stamp_def)
    qed
  qed
qed (auto simp: sorted_wrt_append)

lemma read_rows_take: "read_rows f i mx used out es = Inr r \<Longrightarrow> \<exists>n. r = out @ take n es"
proof (induction es arbitrary: i used out)
  case (Cons e es)
  show ?case
  proof (cases "out \<noteq> [] \<and> i64 (used + int (length (je_Payload e))) > mx")
    case True
    with Cons.prems show ?thesis by (intro exI[of _ 0]) (auto split: option.splits)
  next
    case False
    with Cons.prems have "read_rows f (Suc i) mx (i64 (used + int (length (je_Payload e)))) (out @ [e]) es = Inr r" by (auto split: option.splits)
    from Cons.IH[OF this] obtain n where "r = (out @ [e]) @ take n es" by blast
    then show ?thesis by (intro exI[of _ "Suc n"]) simp
  qed
qed (auto split: option.splits)

lemma ReadUnacked_take:
  assumes "ReadUnacked f mxe mxb j = Inr es" "jinv j"
  shows "\<exists>n\<le>nat mxe. es = take n (j_entries j)"
proof -
  have r: "read_rows f 1 mxb 0 [] (take (nat mxe) (j_entries j)) = Inr es"
    using assms by (auto simp: ReadUnacked_def select_entries[OF assms(2)] split: if_splits option.splits)
  from read_rows_take[OF this] obtain n where "es = take n (take (nat mxe) (j_entries j))" by auto
  then show ?thesis by (intro exI[of _ "min n (nat mxe)"]) (simp add: min.commute)
qed

text \<open>Property C31. Whatever fails, a batch the journal gives for a connection is one the API takes: its numbers, its limits
  and its events.\<close>

theorem journal_batches_valid:
  assumes inv: "jinv (ca_Journal a)" and ok: "\<forall>e\<in>set (j_entries (ca_Journal a)). deliverable pc e"
    and next': "NextEventBatch psize pc f g ep a = (a', Inr b)" and ne: "b \<noteq> []"
  shows "\<exists>evs. eventBatch psize b (ca_GatewayID a) ep = Inr evs"
proof -
  from next' ne obtain m es where "ca_assignments a = Some m" and r: "ReadUnacked f DefaultBatchEntries DefaultBatchBytes (ca_Journal a) = Inr es"
    and l: "batch_loop psize (decodeJournalEvent pc) DefaultBatchBytes (ca_GatewayID a) ep (Some m) [] es = Inr b"
    by (auto simp: NextEventBatch_def batch_def split: option.splits sum.splits if_splits prod.splits)
  from ReadUnacked_take[OF r inv] obtain n where n: "n \<le> 256" "es = take n (j_entries (ca_Journal a))" by (auto simp: DefaultBatchEntries_def)
  have es: "sorted_wrt (<) (map je_Seq es)" using inv unfolding n(2) by (simp add: jinv_def take_map[symmetric] sorted_wrt_take)
  have in_j: "deliverable pc e \<and> je_EventID e \<noteq> [] \<and> je_Seq e \<noteq> 0" if "e \<in> set es" for e
  proof -
    have "e \<in> set (j_entries (ca_Journal a))" using that n(2) by (auto dest: in_set_takeD)
    with inv ok show ?thesis by (fastforce simp: jinv_def)
  qed
  have b: "sorted_wrt (<) (map ge_JournalSequence b)" "\<forall>v\<in>set b. event_ok (ca_GatewayID a) ep v" "int (psize b) \<le> DefaultBatchBytes"
    "length b \<le> length es" "ge_JournalSequence ` set b \<subseteq> je_Seq ` set es"
    using batch_loop_ok[OF l] es in_j ne by auto
  have "sorted_wrt (<) (0 # map ge_JournalSequence b)" using b(1,5) in_j by (fastforce simp: image_iff)
  from event_loop_accepts[OF this b(2)] show ?thesis
    using ne b(3,4) n by (auto simp: eventBatch_def MaxGatewayEventBatch_def MaxGatewayEventBatchBytes_def DefaultBatchBytes_def)
qed

section \<open>Directives\<close>

text \<open>A directive the gateway has accepted, as \<open>validateDirective\<close> leaves it.\<close>

definition accepted_directive :: "lifecycle_directive \<Rightarrow> bool" where
  "accepted_directive d \<longleftrightarrow> le_ID d \<noteq> [] \<and> le_ConnectionEpoch d \<noteq> 0 \<and> le_Sequence d \<noteq> 0 \<and> validLifecycleAction (le_Action d) \<and>
     validDirectiveReason (le_Reason d)"


text \<open>In that situation the report it makes passes the gateway's own check, the API refuses it, and the refusal is
  final for the gateway: the process ends. The API sends such a directive whenever the desired revision changes.\<close>

theorem degraded_run_ends_gateway:
  assumes "accepted_directive d" "le_Action d = ACTION_RUN" "health \<noteq> KEYSTORE_HEALTHY \<or> \<not> reconciled"
    and "directive_outcome False (keystore_runtime_state health reconciled) d = (st, fl)"
  shows "validateReport d st fl = None \<and>
    (\<exists>e. validateLifecycleReport \<lparr>lr_ConnectionEpoch = le_ConnectionEpoch d, lr_DirectiveId = le_ID d, lr_State = st, lr_Failure = fl\<rparr>
        (le_ConnectionEpoch d) \<lparr>id_id = le_ID d, id_action = le_Action d\<rparr> = Some e \<and> terminal (StatusErr ''receive control frame'' e))"
  using assms
  by (auto simp: accepted_directive_def directive_outcome_def keystore_runtime_state_def validateReport_def validRuntimeState_def
      validateLifecycleReport_def knownRuntimeState_def knownLifecycleFailure_def lifecycleActionSatisfied_def)

text \<open>The directive loop waits for a sequence beyond the last one it took. Sequences start again with every connection: the
  first directive of a connection comes with the answer to its first heartbeat and has sequence 4, so the loop does not take it
  once it has taken any directive of an earlier connection.\<close>

theorem directive_after_reconnect_skipped:
  assumes earlier: "take_directive down0 ready0 n (directiveReceived (lifecycleDirectiveValue d0 q0) s0) = Some (rq, after)" and later: "q \<le> q0"
  shows "take_directive shutDown ready after (directiveReceived (lifecycleDirectiveValue d q) (connected we)) = None"
proof -
  have "after = q0" using earlier
    by (auto simp: take_directive_def WaitForDirective_def directiveReceived_def lifecycleDirectiveValue_def split: if_splits)
  with later show ?thesis by (simp add: take_directive_def WaitForDirective_def directiveReceived_def lifecycleDirectiveValue_def)
qed

theorem directive_after_reconnect_skipped_witness:
  "take_directive False RUNTIME_READY 4 (directiveReceived (lifecycleDirectiveValue \<lparr>ld_DirectiveId = ''c2:9'', ld_ConnectionEpoch = 2, ld_Action = ACTION_DRAIN,
      ld_DrainDeadlineUnixMs = None, ld_Reason = REASON_OPERATOR\<rparr> 4)
    (connected \<lparr>we_ConnectionId = ''c2'', we_ConnectionEpoch = 2, we_HeartbeatIntervalMs = 10000, we_LeaseTimeoutMs = 30000,
       we_DesiredLifecycle = ACTION_RUN, we_ServerTimeUnixMs = 1\<rparr>)) = None"
proof -
  let ?d = "\<lparr>ld_DirectiveId = ''c1:8'', ld_ConnectionEpoch = 1, ld_Action = ACTION_RUN, ld_DrainDeadlineUnixMs = None, ld_Reason = REASON_OPERATOR\<rparr>"
  let ?s = "directiveReceived (lifecycleDirectiveValue ?d 4) (connected \<lparr>we_ConnectionId = ''c1'', we_ConnectionEpoch = 1,
      we_HeartbeatIntervalMs = 10000, we_LeaseTimeoutMs = 30000, we_DesiredLifecycle = ACTION_RUN, we_ServerTimeUnixMs = 1\<rparr>)"
  have "take_directive False RUNTIME_READY 0 ?s = Some (\<lparr>rq_directive = lifecycleDirectiveValue ?d 4, rq_state = RUNTIME_READY, rq_failure = FAILURE_NONE\<rparr>, 4)"
    by code_simp
  from directive_after_reconnect_skipped[OF this order_refl] show ?thesis .
qed

section \<open>Reconnecting\<close>

lemma double_delay_bounds:
  "0 < d \<Longrightarrow> d \<le> double_delay mx n d \<and> (double_delay mx n d \<le> mx \<or> double_delay mx n d = d)"
proof (induction n arbitrary: d)
  case (Suc n)
  show ?case
  proof (cases "d \<ge> go_quot mx 2")
    case False
    have "d * 2 \<le> mx"
    proof (cases "mx > 0")
      case True
      then have "go_quot mx 2 = mx div 2" by (simp add: go_quot_def)
      with False show ?thesis by simp
    next
      case mx: False
      then have "go_quot mx 2 \<le> 0" by (simp add: go_quot_def mult_nonpos_nonneg sgn_if)
      with False Suc.prems show ?thesis by simp
    qed
    with Suc.IH[of "d * 2"] Suc.prems False show ?thesis by auto
  qed simp
qed simp

text \<open>The delay before a new attempt stays between its limits and is never computed from a wrapped number.\<close>

theorem Delay_bounds:
  "0 < Delay b n \<and> Delay b n \<le> (if bo_Max b < (if bo_Min b \<le> 0 then 250000000 else bo_Min b) then 30000000000 else bo_Max b)"
proof -
  let ?mn = "if bo_Min b \<le> 0 then 250000000 else bo_Min b"
  have "0 < ?mn" by simp
  from double_delay_bounds[OF this, of _ n] have "\<And>mx. 0 < double_delay mx n ?mn" using \<open>0 < ?mn\<close> by (meson less_le_trans)
  then show ?thesis using \<open>0 < ?mn\<close> by (auto simp: Delay_def Let_def)
qed

section \<open>Runs of a connection\<close>


text \<open>Property C8. What the gateway is told to drop from its journal is the end of a batch that the store of the API has taken without an error.\<close>

theorem dropped_events_ingested:
  assumes "link_start cfg bare_origin k0" "(link_step cfg bare_origin psize gid)\<^sup>*\<^sup>* k0 k"
  shows "set (lk_dropped k) \<subseteq> (\<lambda>b. ge_JournalSequence (last b)) ` set (lk_ingested k)"
proof -
  have "drop_inv k" using assms(2)
    by induction (auto intro: link_start_drop[OF assms(1)] drop_inv_step)
  then show ?thesis by (simp add: drop_inv_def)
qed

text \<open>A run: the handshake, a heartbeat with a batch, their answers, and a lost lease.\<close>

definition demo_env :: "nat step_env" where
  "demo_env = \<lparr>se_store = \<lparr>st_Accept = (\<lambda>gid h s. (s, Inr \<lparr>co_ID = ''c1'', co_Epoch = 3, co_HeartbeatInterval = 10000000000,
        co_LeaseTimeout = 30000000000, co_DesiredLifecycle = ACTION_RUN, co_DesiredRevision = 5\<rparr>)),
      st_Heartbeat = (\<lambda>gid ep v s. (s, Inr \<lparr>dl_Action = ACTION_RUN, dl_Revision = 5\<rparr>)),
      st_DesiredState = (\<lambda>gid ep r t s. (s, Inr \<lparr>dt_Revision = r, dt_Assignments = []\<rparr>)),
      st_PersistDesiredStateReport = (\<lambda>gid ep v s. (s, Inr ())),
      st_IngestEvents = (\<lambda>gid ep evs s. (s + length evs, Inr ())), st_Lifecycle = (\<lambda>gid ep v s. (s, Inr ())),
      st_Disconnect = (\<lambda>gid ep s. (s, Inr ()))\<rparr>, se_now = 1000000000, se_sends = (\<lambda>_. None)\<rparr>"

definition demo_batch :: "nat \<Rightarrow> gateway_event list" where
  "demo_batch ep = [\<lparr>ge_EventId = ''e'', ge_JournalSequence = 7, ge_GatewayId = ''gw'', ge_ConnectionEpoch = ep, ge_AssignmentEpoch = 1,
     ge_SessionId = ''s'', ge_OrganizationId = ''o'', ge_EventType = ''message'', ge_OccurredAtUnixMs = 1, ge_Payload = ''{}''\<rparr>]"

definition demo_parts :: "bool parts" where
  "demo_parts = \<lparr>pt_EventJournal = Some \<lparr>jo_NextEventBatch = (\<lambda>ep g. (g, Inr (if g \<and> ep = 3 then demo_batch ep else []))), jo_AckEvents = (\<lambda>q g. (False, Inr ())),
      jo_ResetDesiredAssignments = (\<lambda>g. g), jo_SetDesiredAssignments = (\<lambda>s g. g)\<rparr>,
    pt_DesiredState = Some (\<lambda>ep s g. (g, Inr (Some \<lparr>dr_ConnectionEpoch = ep, dr_ProcessedRevision = ds_Revision s, dr_KeystoreHealth = KEYSTORE_HEALTHY,
      dr_LocalDevices = [], dr_Results = [], dr_ByteSize = None, dr_LastCheckedAtUnixMs = None\<rparr>))),
    pt_Runtime = (\<lambda>g. \<lparr>rs_State = RUNTIME_READY, rs_SessionCount = 0\<rparr>), pt_JournalMetrics = None, pt_now = 1000000000, pt_sends = (\<lambda>_. None)\<rparr>"

definition demo_config :: sup_config where
  "demo_config = \<lparr>sc_InstanceID = ''i'', sc_SoftwareVersion = ''v1'', sc_HTTPBaseURL = [], sc_GRPCEndpoint = [], sc_StartedAt = 1000000000,
     sc_MinHeartbeat = 1000000000, sc_MaxHeartbeat = 60000000000\<rparr>"

definition demo_start :: "(nat, bool) link" where
  "demo_start = (let rt = \<lparr>rs_State = RUNTIME_READY, rs_SessionCount = 0\<rparr> in
     \<lparr>lk_server = AwaitHello, lk_store = 0, lk_gateway = AwaitWelcome rt, lk_parts = True, lk_status = zero_status,
      lk_up = [newHelloFrame demo_config rt], lk_down = [], lk_ingested = [], lk_dropped = []\<rparr>)"

definition demo_api :: "(nat, bool) link \<Rightarrow> (nat, bool) link" where
  "demo_api = server_takes (\<lambda>_. True) length ''gw'' demo_env"
definition demo_gateway :: "(nat, bool) link \<Rightarrow> (nat, bool) link" where
  "demo_gateway = gateway_takes demo_config demo_parts"
definition demo_event :: "loop_event \<Rightarrow> (nat, bool) link \<Rightarrow> (nat, bool) link" where
  "demo_event = gateway_does demo_parts"

definition demo_end :: "(nat, bool) link" where
  "demo_end = demo_event LeaseExpired (demo_gateway (demo_gateway (demo_gateway (demo_api (demo_api (demo_api
     (demo_event HeartbeatTick (demo_gateway (demo_gateway (demo_api demo_start))))))))))"

lemma demo_good: "good_env demo_config demo_env" "good_parts length ''gw'' demo_parts"
proof -
  show "good_env demo_config demo_env"
    by (simp add: good_env_def demo_env_def authorized_def timely_def startable_def demo_config_def millis_def durationMillis_def Let_def go_quot_def UnixMilli_def)
  show "good_parts length ''gw'' demo_parts"
    by (auto simp: good_parts_def demo_parts_def good_batches_def demo_batch_def eventBatch_def MaxGatewayEventBatch_def MaxGatewayEventBatchBytes_def
        UnixMilli_def maxUnixMillis_def journalPressure_def)
qed

lemma demo_starts: "link_start demo_config (\<lambda>_. True) demo_start"
  by code_simp

lemma demo_reaches: "(link_step demo_config (\<lambda>_. True) length ''gw'')\<^sup>*\<^sup>* demo_start demo_end"
proof -
  let ?R = "link_step demo_config (\<lambda>_. True) length ''gw''"
  have api: "?R\<^sup>*\<^sup>* demo_start k \<Longrightarrow> ?R\<^sup>*\<^sup>* demo_start (demo_api k)" for k
    unfolding demo_api_def by (rule rtranclp.rtrancl_into_rtrancl) (auto intro: link_step.api_turn demo_good)
  have gw: "?R\<^sup>*\<^sup>* demo_start k \<Longrightarrow> ?R\<^sup>*\<^sup>* demo_start (demo_gateway k)" for k
    unfolding demo_gateway_def by (rule rtranclp.rtrancl_into_rtrancl) (auto intro: link_step.gateway_turn demo_good)
  have ev: "?R\<^sup>*\<^sup>* demo_start k \<Longrightarrow> ?R\<^sup>*\<^sup>* demo_start (demo_event e k)" if "local_event e" for k e
    unfolding demo_event_def by (rule rtranclp.rtrancl_into_rtrancl) (auto intro: link_step.gateway_event demo_good that)
  have "local_event HeartbeatTick" "local_event LeaseExpired" by (simp_all add: local_event_def)
  then show ?thesis unfolding demo_end_def by (intro ev api gw rtranclp.rtrancl_refl)
qed

lemmas demo_unfold = demo_api_def server_takes_def connect_first_def accept_hello_def greet_def bindA_def checkA_def refuseA_def storeA_def sendA_def returnA_def
  sendDesiredState_def handle_frame_def on_state_report_def on_heartbeat_def on_event_batch_def issue_directive_def
  validateEnvelope_def validateHello_def invalid_allocation_def server_result_def batch_in_def
  newHelloFrame_def gateway_frame_of_def welcome_of_def ProtocolVersion_def
  MaxInstanceIDBytes_def MaxSoftwareVersionBytes_def MaxGatewayCapabilities_def maxUnixMillis_def knownRuntimeState_def knownLifecycleAction_def knownCapability_def
  UnixMilli_def durationMillis_def go_quot_def validDesiredState_def validateDesiredStateReport_def validateHeartbeat_def
  knownJournalState_def eventBatch_def event_of_wire_def of_UnixMilli_def MaxGatewayEventBatch_def MaxGatewayEventBatchBytes_def
  demo_gateway_def gateway_takes_def enter_session_def receiveWelcome_def validateWelcome_def validLifecycleAction_def millis_def fresh_session_def
  demo_event_def gateway_does_def loop_defs validateControl_def validateDesiredState_def applyDesiredState_def desiredStateApplied_def
  sendHeartbeat_def validRuntimeState_def newHeartbeatFrame_def newGatewayHeartbeat_def journalPressure_def sendEventBatch_def demo_batch_def
  handleEventAck_def acknowledgeHeartbeat_def gateway_result_def drops_of_def demo_env_def demo_start_def demo_config_def demo_parts_def

lemma demo_ends: "lk_dropped demo_end = [7]" "lk_gateway demo_end = GatewayOver (Some (OtherErr ''control supervisor: control lease expired''))"
  by (simp_all add: demo_end_def demo_unfold)


theorem dropped_events_ingested_witness:
  "set (lk_dropped demo_end) = {7} \<and> {7} \<subseteq> (\<lambda>b. ge_JournalSequence (last b)) ` set (lk_ingested demo_end)"
  using dropped_events_ingested[OF demo_starts demo_reaches] by (simp add: demo_ends(1))

theorem journal_batches_valid_witness:
  "\<exists>b evs. NextEventBatch length demo_codec no_faults no_faults 7 demo_control = (demo_control, Inr b) \<and> b \<noteq> [] \<and>
     eventBatch length b ''gw'' 7 = Inr evs"
proof -
  let ?m = "[''x'' \<mapsto> \<lparr>ea_organization = ''o'', ea_epoch = 3\<rparr>]" and ?b = "replay_events demo_codec ''gw'' 7 [demo_entry]"
  have inv: "jinv (ca_Journal demo_control)" using demo_inv(2) by (simp add: demo_control_facts)
  have n: "NextEventBatch length demo_codec no_faults no_faults 7 demo_control = (demo_control, Inr ?b)"
    using NextEventBatch_round[OF inv demo_control_facts(3), of length demo_codec 7]
    by (simp add: demo_control_facts Cons_eq_append_conv) (metis demo_control_facts(6))
  have "\<forall>e\<in>set (j_entries (ca_Journal demo_control)). deliverable demo_codec e"
    by (simp add: demo_control_facts deliverable_def decodeJournalEvent_def demo_codec_def demo_entry_def)
  from journal_batches_valid[OF inv this n] n show ?thesis by (auto simp: replay_events_def demo_control_facts)
qed


theorem degraded_run_ends_gateway_witness:
  "validateReport \<lparr>le_ID = ''c1:8'', le_ConnectionEpoch = 1, le_Sequence = 4, le_Action = ACTION_RUN, le_DrainDeadline = None,
      le_Reason = REASON_OPERATOR\<rparr> RUNTIME_DEGRADED FAILURE_NONE = None"
proof -
  let ?d = "\<lparr>le_ID = ''c1:8'', le_ConnectionEpoch = 1, le_Sequence = 4, le_Action = ACTION_RUN, le_DrainDeadline = None, le_Reason = REASON_OPERATOR\<rparr>"
  have "accepted_directive ?d" "le_Action ?d = ACTION_RUN" "KEYSTORE_CORRUPT \<noteq> KEYSTORE_HEALTHY \<or> \<not> True"
    "directive_outcome False (keystore_runtime_state KEYSTORE_CORRUPT True) ?d = (RUNTIME_DEGRADED, FAILURE_NONE)"
    by (simp_all add: accepted_directive_def validLifecycleAction_def validDirectiveReason_def directive_outcome_def keystore_runtime_state_def)
  from degraded_run_ends_gateway[OF this] show ?thesis by simp
qed

end
