(* ===== verification/DesiredState.thy ===== *)
theory DesiredState
  imports Control_Types "HOL-Library.AList" "HOL-Library.Sublist"
begin

text \<open>
  The gateway's desired-state reconciler (src/backend/internal/gateway/desiredstate/
  reconciler.go) and the control applier that feeds it snapshots, reports the outcome and
  arms the lease timer (control.go). The session engine is the interface \<open>Runtime\<close>: its
  answers are a parameter, and the calls it receives are logged in \<open>rc_calls\<close>. A Go map
  is an association list without duplicate keys; the order in which Go ranges over it is
  unspecified, and no statement below depends on it.
\<close>

section \<open>State\<close>

record assignment =
  as_SessionID :: string
  as_OrganizationID :: string
  as_DeviceJID :: string
  as_AssignmentEpoch :: nat
  as_LeaseExpiresAt :: gotime
  as_DesiredRun :: bool
  as_Config :: session_config

record snapshot =
  sn_Revision :: nat
  sn_Assignments :: "assignment list"

record inventory =
  iv_PairedJIDs :: "string list"
  iv_CorruptJIDs :: "string list"

record reconcile_result =
  rs_Revision :: nat
  rs_Healthy :: bool
  rs_MissingDeviceJIDs :: "string list"
  rs_UnexpectedJIDs :: "string list"
  rs_CorruptJIDs :: "string list"
  rs_LocalDeviceJIDs :: "string list"

record runtime =
  rt_Inventory :: "inventory result"
  rt_StartAssigned :: "assignment \<Rightarrow> go_err option"
  rt_StopAssigned :: "string \<Rightarrow> go_err option"

datatype rt_call = CallStart assignment | CallStop string

record reconciler =
  rc_revision :: nat
  rc_assignments :: "(string \<times> assignment) list"
  rc_calls :: "rt_call list"

abbreviation ErrInvalidSnapshot :: go_err where
  "ErrInvalidSnapshot \<equiv> Sentinel ''desired state: invalid snapshot''"

definition New :: reconciler where
  "New = \<lparr>rc_revision = 0, rc_assignments = [], rc_calls = []\<rparr>"

section \<open>Validation\<close>

definition invalid_assignment :: "assignment \<Rightarrow> bool" where
  "invalid_assignment a \<longleftrightarrow> as_SessionID a = [] \<or> as_OrganizationID a = [] \<or>
     (as_DesiredRun a \<and> as_DeviceJID a = []) \<or> as_AssignmentEpoch a = 0 \<or> IsZero (as_LeaseExpiresAt a)"

fun validate_loop :: "string list \<Rightarrow> string list \<Rightarrow> assignment list \<Rightarrow> go_err option" where
  "validate_loop seenSessions seenDevices [] = None"
| "validate_loop seenSessions seenDevices (a # as) =
     (if invalid_assignment a then Some ErrInvalidSnapshot
      else if as_SessionID a \<in> set seenSessions then Some ErrInvalidSnapshot
      else if as_DeviceJID a = [] then validate_loop (as_SessionID a # seenSessions) seenDevices as
      else if as_DeviceJID a \<in> set seenDevices then Some ErrInvalidSnapshot
      else validate_loop (as_SessionID a # seenSessions) (as_DeviceJID a # seenDevices) as)"

definition validate :: "snapshot \<Rightarrow> go_err option" where
  "validate s = (if sn_Revision s = 0 then Some ErrInvalidSnapshot else validate_loop [] [] (sn_Assignments s))"

section \<open>Applying a snapshot\<close>

text \<open>What the loop over the snapshot computes before any callback.\<close>

record plan =
  pl_next :: "(string \<times> assignment) list"
  pl_stopIDs :: "string list"
  pl_starts :: "assignment list"
  pl_missing :: "string list"
  pl_wanted :: "string list"

definition addStop :: "string \<Rightarrow> plan \<Rightarrow> plan" where
  "addStop sid p = (if sid \<in> set (pl_stopIDs p) then p else p\<lparr>pl_stopIDs := pl_stopIDs p @ [sid]\<rparr>)"

definition retain :: "assignment \<Rightarrow> plan \<Rightarrow> plan" where
  "retain a p = p\<lparr>pl_next := AList.update (as_SessionID a) a (pl_next p)\<rparr>"

definition plan_step :: "gotime \<Rightarrow> (string \<times> assignment) list \<Rightarrow> string list \<Rightarrow> assignment \<Rightarrow> plan \<Rightarrow> plan" where
  "plan_step now previousAssignments paired a p0 =
     (let p1 = (if as_DeviceJID a \<noteq> [] then p0\<lparr>pl_wanted := as_DeviceJID a # pl_wanted p0\<rparr> else p0);
          live = (as_LeaseExpiresAt a > now) in
      if \<not> as_DesiredRun a \<or> \<not> live
      then (let p2 = (case map_of previousAssignments (as_SessionID a) of
                None \<Rightarrow> p1
              | Some previous \<Rightarrow>
                  if as_DesiredRun previous \<or> as_AssignmentEpoch previous \<noteq> as_AssignmentEpoch a \<or>
                     as_OrganizationID previous \<noteq> as_OrganizationID a \<or> \<not> live
                  then addStop (as_SessionID a) p1 else p1)
            in if as_DesiredRun a then p2 else retain a p2)
      else (let p2 = retain a p1 in
            if as_DeviceJID a \<notin> set paired then p2\<lparr>pl_missing := pl_missing p2 @ [as_DeviceJID a]\<rparr>
            else p2\<lparr>pl_starts := pl_starts p2 @ [a]\<rparr>))"

definition make_plan :: "gotime \<Rightarrow> (string \<times> assignment) list \<Rightarrow> string list \<Rightarrow> assignment list \<Rightarrow> plan" where
  "make_plan now previousAssignments paired as =
     (let p = fold (plan_step now previousAssignments paired) as
                \<lparr>pl_next = [], pl_stopIDs = [], pl_starts = [], pl_missing = [], pl_wanted = []\<rparr>
      in fold (\<lambda>sid p. if map_of (pl_next p) sid = None then addStop sid p else p) (map fst previousAssignments) p)"

fun run_stops :: "(string \<Rightarrow> go_err option) \<Rightarrow> string list \<Rightarrow> rt_call list \<Rightarrow> rt_call list \<times> go_err option" where
  "run_stops stop [] calls = (calls, None)"
| "run_stops stop (sid # ids) calls =
     (case stop sid of Some e \<Rightarrow> (calls @ [CallStop sid], Some e) | None \<Rightarrow> run_stops stop ids (calls @ [CallStop sid]))"

fun run_starts :: "(assignment \<Rightarrow> go_err option) \<Rightarrow> assignment list \<Rightarrow> rt_call list \<Rightarrow> rt_call list \<times> go_err option" where
  "run_starts start [] calls = (calls, None)"
| "run_starts start (a # as) calls =
     (case start a of Some e \<Rightarrow> (calls @ [CallStart a], Some e) | None \<Rightarrow> run_starts start as (calls @ [CallStart a]))"

definition failClosed :: "nat \<Rightarrow> reconciler \<Rightarrow> reconciler" where
  "failClosed previousRevision r = r\<lparr>rc_assignments := [], rc_revision := previousRevision\<rparr>"

definition rollback :: "runtime \<Rightarrow> nat \<Rightarrow> (string \<times> assignment) list \<Rightarrow> (string \<times> assignment) list \<Rightarrow> go_err
    \<Rightarrow> reconciler \<Rightarrow> reconciler \<times> go_err" where
  "rollback rt previousRevision previous candidate cause r =
     (let ids = remdups (map fst previous @ map fst candidate);
          cleanupErr = fold (\<lambda>sid e. errors_join e (rt_StopAssigned rt sid)) ids None;
          r' = failClosed previousRevision (r\<lparr>rc_calls := rc_calls r @ map CallStop ids\<rparr>)
      in (r', case cleanupErr of None \<Rightarrow> cause | Some c \<Rightarrow> Joined cause c))"

definition result_of_plan :: "snapshot \<Rightarrow> inventory \<Rightarrow> plan \<Rightarrow> reconcile_result" where
  "result_of_plan s invy p =
     (let missing = sort (pl_missing p);
          unexpected = sort (filter (\<lambda>jid. jid \<notin> set (pl_wanted p)) (remdups (iv_PairedJIDs invy)));
          corrupt = sort (iv_CorruptJIDs invy)
      in \<lparr>rs_Revision = sn_Revision s, rs_Healthy = (missing = [] \<and> unexpected = [] \<and> corrupt = []),
          rs_MissingDeviceJIDs = missing, rs_UnexpectedJIDs = unexpected, rs_CorruptJIDs = corrupt,
          rs_LocalDeviceJIDs = sort (iv_PairedJIDs invy)\<rparr>)"

definition Apply :: "runtime option \<Rightarrow> gotime \<Rightarrow> snapshot \<Rightarrow> reconciler \<Rightarrow> reconciler \<times> reconcile_result result" where
  "Apply rto now s r =
     (case rto of None \<Rightarrow> (r, Inl (Plain ''desired state: nil runtime''))
      | Some rt \<Rightarrow>
     (case validate s of Some e \<Rightarrow> (r, Inl e)
      | None \<Rightarrow>
        if sn_Revision s < rc_revision r
        then (r, Inr \<lparr>rs_Revision = rc_revision r, rs_Healthy = False, rs_MissingDeviceJIDs = [],
                rs_UnexpectedJIDs = [], rs_CorruptJIDs = [], rs_LocalDeviceJIDs = []\<rparr>)
        else (case rt_Inventory rt of Inl e \<Rightarrow> (r, Inl e)
        | Inr invy \<Rightarrow>
          (let previousAssignments = rc_assignments r;
               p = make_plan now previousAssignments (iv_PairedJIDs invy) (sn_Assignments s);
               r1 = r\<lparr>rc_assignments := pl_next p\<rparr>;
               (calls2, stopErr) = run_stops (rt_StopAssigned rt) (pl_stopIDs p) (rc_calls r1);
               r2 = r1\<lparr>rc_calls := calls2\<rparr>
           in case stopErr of
                Some e \<Rightarrow> (case rollback rt (rc_revision r) previousAssignments (pl_next p) e r2 of
                    (r', e') \<Rightarrow> (r', Inl e'))
              | None \<Rightarrow>
                  (let (calls3, startErr) = run_starts (rt_StartAssigned rt) (pl_starts p) (rc_calls r2);
                       r3 = r2\<lparr>rc_calls := calls3\<rparr>
                   in case startErr of
                        Some e \<Rightarrow> (case rollback rt (rc_revision r) previousAssignments (pl_next p) e r3 of
                            (r', e') \<Rightarrow> (r', Inl e'))
                      | None \<Rightarrow> (r3\<lparr>rc_revision := sn_Revision s\<rparr>, Inr (result_of_plan s invy p)))))))"

section \<open>Expiry and the fence\<close>

definition Expire :: "runtime \<Rightarrow> gotime \<Rightarrow> reconciler \<Rightarrow> reconciler \<times> bool \<times> go_err option" where
  "Expire rt now r =
     (let expiredAssignments = map fst (filter (\<lambda>(sid, a). \<not> as_LeaseExpiresAt a > now) (rc_assignments r));
          r1 = r\<lparr>rc_assignments := filter (\<lambda>(sid, a). as_LeaseExpiresAt a > now) (rc_assignments r),
                 rc_calls := rc_calls r @ map CallStop expiredAssignments\<rparr>;
          stopErr = fold (\<lambda>sid e. errors_join e (rt_StopAssigned rt sid)) expiredAssignments None
      in case stopErr of
           Some e \<Rightarrow> (failClosed (rc_revision r) r1, False, Some e)
         | None \<Rightarrow> (r1, expiredAssignments \<noteq> [], None))"

definition CurrentEpoch :: "string \<Rightarrow> reconciler \<Rightarrow> nat \<times> bool" where
  "CurrentEpoch sessionID r =
     (case map_of (rc_assignments r) sessionID of None \<Rightarrow> (0, False) | Some a \<Rightarrow> (as_AssignmentEpoch a, True))"

definition assignmentActive :: "assignment \<Rightarrow> string \<Rightarrow> nat \<Rightarrow> gotime \<Rightarrow> bool" where
  "assignmentActive a organizationID epoch now \<longleftrightarrow>
     as_OrganizationID a = organizationID \<and> as_DesiredRun a \<and> as_AssignmentEpoch a = epoch \<and>
     as_LeaseExpiresAt a > now"

definition AllowsMutation :: "gotime \<Rightarrow> string \<Rightarrow> string \<Rightarrow> nat \<Rightarrow> reconciler \<Rightarrow> bool" where
  "AllowsMutation now organizationID sessionID epoch r \<longleftrightarrow>
     (case map_of (rc_assignments r) sessionID of
        None \<Rightarrow> False | Some a \<Rightarrow> assignmentActive a organizationID epoch now)"

definition OwnsSession :: "gotime \<Rightarrow> string \<Rightarrow> string \<Rightarrow> nat \<Rightarrow> reconciler \<Rightarrow> bool" where
  "OwnsSession now organizationID sessionID epoch r \<longleftrightarrow>
     (case map_of (rc_assignments r) sessionID of
        None \<Rightarrow> False | Some a \<Rightarrow> assignmentActive a organizationID epoch now)"

definition OwnsAssignment :: "gotime \<Rightarrow> string \<Rightarrow> string \<Rightarrow> nat \<Rightarrow> reconciler \<Rightarrow> bool" where
  "OwnsAssignment now organizationID sessionID epoch r \<longleftrightarrow>
     (case map_of (rc_assignments r) sessionID of
        None \<Rightarrow> False
      | Some a \<Rightarrow> as_OrganizationID a = organizationID \<and> as_AssignmentEpoch a = epoch \<and> as_LeaseExpiresAt a > now)"

definition AssignmentCount :: "reconciler \<Rightarrow> nat" where
  "AssignmentCount r = length (rc_assignments r)"

definition AssignedConfig :: "string \<Rightarrow> reconciler \<Rightarrow> session_config option" where
  "AssignedConfig sessionID r = map_option as_Config (map_of (rc_assignments r) sessionID)"

definition NextLeaseExpiry :: "reconciler \<Rightarrow> gotime \<times> bool" where
  "NextLeaseExpiry r =
     (let earliest = fold (\<lambda>(sid, a) earliest.
            if \<not> as_DesiredRun a then earliest
            else if IsZero earliest \<or> as_LeaseExpiresAt a < earliest then as_LeaseExpiresAt a else earliest)
            (rc_assignments r) zero_time
      in (earliest, \<not> IsZero earliest))"

section \<open>The control applier\<close>

text \<open>\<open>ct_timer\<close> is the delay of the armed lease timer, if there is one.\<close>

record control_applier =
  ct_Reconciler :: reconciler
  ct_Health :: "keystore_health option"
  ct_timer :: "duration option"

definition empty_config :: session_config where
  "empty_config = \<lparr>scf_Revision = 0, scf_AutoRead = False, scf_PresenceTyping = False, scf_RatePerMin = 0,
     scf_RatePerHour = 0, scf_HistorySyncDays = 0\<rparr>"

definition assignment_of_proto :: "session_assignment \<Rightarrow> assignment" where
  "assignment_of_proto item =
     \<lparr>as_SessionID = sa_SessionId item, as_OrganizationID = sa_OrganizationId item,
      as_DeviceJID = (case sa_DeviceJid item of None \<Rightarrow> [] | Some d \<Rightarrow> d),
      as_AssignmentEpoch = sa_AssignmentEpoch item,
      as_LeaseExpiresAt = of_UnixMilli (sa_LeaseExpiresAtUnixMs item),
      as_DesiredRun = (sa_DesiredAction item = SESSION_DESIRED_ACTION_RUN),
      as_Config = (case sa_Config item of None \<Rightarrow> empty_config | Some c \<Rightarrow> c)\<rparr>"

definition resetLeaseTimer :: "gotime \<Rightarrow> control_applier \<Rightarrow> control_applier" where
  "resetLeaseTimer now a =
     (case NextLeaseExpiry (ct_Reconciler a) of
        (expiresAt, False) \<Rightarrow> a\<lparr>ct_timer := None\<rparr>
      | (expiresAt, True) \<Rightarrow> a\<lparr>ct_timer := Some (if expiresAt - now < 0 then 0 else expiresAt - now)\<rparr>)"

text \<open>The timer's callback: the second component is the argument of \<open>OnLeaseExpired\<close>, if it
  is called.\<close>

definition lease_timer_fires :: "runtime \<Rightarrow> gotime \<Rightarrow> control_applier \<Rightarrow> control_applier \<times> go_err option option" where
  "lease_timer_fires rt now a =
     (case Expire rt now (ct_Reconciler a) of
        (r, expired, err) \<Rightarrow> (a\<lparr>ct_Reconciler := r\<rparr>, if expired then Some err else None))"

definition newReport :: "keystore_health option \<Rightarrow> nat \<Rightarrow> desired_snapshot \<Rightarrow> desired_report" where
  "newReport health epoch s =
     \<lparr>dr_ConnectionEpoch = epoch, dr_ProcessedRevision = ds_Revision s,
      dr_KeystoreHealth = (case health of None \<Rightarrow> KEYSTORE_HEALTHY | Some h \<Rightarrow> h),
      dr_LocalDevices = [], dr_Results = []\<rparr>"

definition assignmentResults :: "assignment list \<Rightarrow> reconcile_result \<Rightarrow> reconciliation_result list" where
  "assignmentResults as res =
     map (\<lambda>a. \<lparr>rr_SessionId = Some (as_SessionID a), rr_AssignmentEpoch = as_AssignmentEpoch a,
        rr_DeviceJid = as_DeviceJID a,
        rr_Status = (if as_DeviceJID a \<in> set (rs_MissingDeviceJIDs res) then RECONCILIATION_KEYSTORE_MISSING
                     else RECONCILIATION_APPLIED)\<rparr>) as"

definition jidResults :: "string list \<Rightarrow> reconciliation_status \<Rightarrow> reconciliation_result list" where
  "jidResults jids status =
     map (\<lambda>jid. \<lparr>rr_SessionId = None, rr_AssignmentEpoch = 0, rr_DeviceJid = jid, rr_Status = status\<rparr>) jids"

definition ApplyDesiredState :: "runtime option \<Rightarrow> gotime \<Rightarrow> gotime \<Rightarrow> nat \<Rightarrow> desired_snapshot \<Rightarrow> control_applier
    \<Rightarrow> control_applier \<times> desired_report result" where
  "ApplyDesiredState rto now timerNow epoch s a =
     (let as = map assignment_of_proto (ds_Assignments s) in
      case Apply rto now \<lparr>sn_Revision = ds_Revision s, sn_Assignments = as\<rparr> (ct_Reconciler a) of
        (r, Inl e) \<Rightarrow> (a\<lparr>ct_Reconciler := r\<rparr>, Inl e)
      | (r, Inr res) \<Rightarrow>
          (let a1 = resetLeaseTimer timerNow (a\<lparr>ct_Reconciler := r\<rparr>);
               report = newReport (ct_Health a) epoch s
           in (a1, Inr (report\<lparr>dr_LocalDevices := rs_LocalDeviceJIDs res,
                 dr_Results := assignmentResults as res @
                   jidResults (rs_UnexpectedJIDs res) RECONCILIATION_UNEXPECTED_LOCAL_DEVICE @
                   jidResults (rs_CorruptJIDs res) RECONCILIATION_KEYSTORE_CORRUPT\<rparr>))))"

section \<open>What the plan contains\<close>

text \<open>\<open>runs\<close>: the session should run and its lease is live; \<open>keeps\<close>: it stays assigned.\<close>

definition runs :: "gotime \<Rightarrow> assignment \<Rightarrow> bool" where
  "runs now a \<longleftrightarrow> as_DesiredRun a \<and> as_LeaseExpiresAt a > now"

definition keeps :: "gotime \<Rightarrow> assignment \<Rightarrow> bool" where
  "keeps now a \<longleftrightarrow> \<not> as_DesiredRun a \<or> as_LeaseExpiresAt a > now"

definition keyed :: "assignment list \<Rightarrow> (string \<times> assignment) list" where
  "keyed as = map (\<lambda>a. (as_SessionID a, a)) as"

lemma update_new: "k \<notin> fst ` set xs \<Longrightarrow> AList.update k v xs = xs @ [(k, v)]"
  by (induction xs) auto

lemma fold_update_new:
  "distinct (map fst xs @ map as_SessionID as) \<Longrightarrow>
     fold (\<lambda>a. AList.update (as_SessionID a) a) as xs = xs @ keyed as"
proof (induction as arbitrary: xs)
  case Nil
  then show ?case by (simp add: keyed_def)
next
  case (Cons a as)
  then have "AList.update (as_SessionID a) a xs = xs @ [(as_SessionID a, a)]"
    by (intro update_new) auto
  with Cons show ?case by (simp add: keyed_def)
qed

lemma addStop_sel [simp]:
  "pl_next (addStop sid p) = pl_next p" "pl_starts (addStop sid p) = pl_starts p"
  "pl_missing (addStop sid p) = pl_missing p" "pl_wanted (addStop sid p) = pl_wanted p"
  "set (pl_stopIDs (addStop sid p)) = insert sid (set (pl_stopIDs p))"
  by (auto simp: addStop_def)

lemma plan_step_sel:
  "pl_next (plan_step now prev paired a p) =
     (if keeps now a then AList.update (as_SessionID a) a (pl_next p) else pl_next p)"
  "pl_starts (plan_step now prev paired a p) =
     (if runs now a \<and> as_DeviceJID a \<in> set paired then pl_starts p @ [a] else pl_starts p)"
  "pl_missing (plan_step now prev paired a p) =
     (if runs now a \<and> as_DeviceJID a \<notin> set paired then pl_missing p @ [as_DeviceJID a] else pl_missing p)"
  "set (pl_wanted (plan_step now prev paired a p)) =
     set (pl_wanted p) \<union> (if as_DeviceJID a = [] then {} else {as_DeviceJID a})"
  "set (pl_stopIDs (plan_step now prev paired a p)) =
     set (pl_stopIDs p) \<union> (if \<not> runs now a \<and> (\<exists>b. map_of prev (as_SessionID a) = Some b \<and>
        (as_DesiredRun b \<or> as_AssignmentEpoch b \<noteq> as_AssignmentEpoch a \<or>
         as_OrganizationID b \<noteq> as_OrganizationID a \<or> \<not> as_LeaseExpiresAt a > now)) then {as_SessionID a} else {})"
  by (auto simp: plan_step_def Let_def runs_def keeps_def retain_def split: option.splits)

lemma fold_plan_sel:
  "pl_next (fold (plan_step now prev paired) as p) =
     fold (\<lambda>a. AList.update (as_SessionID a) a) (filter (keeps now) as) (pl_next p)"
  "pl_starts (fold (plan_step now prev paired) as p) =
     pl_starts p @ filter (\<lambda>a. runs now a \<and> as_DeviceJID a \<in> set paired) as"
  "pl_missing (fold (plan_step now prev paired) as p) =
     pl_missing p @ map as_DeviceJID (filter (\<lambda>a. runs now a \<and> as_DeviceJID a \<notin> set paired) as)"
  "set (pl_wanted (fold (plan_step now prev paired) as p)) =
     set (pl_wanted p) \<union> (as_DeviceJID ` set as - {[]})"
  by (induction as arbitrary: p) (auto simp: plan_step_sel)

lemma fold_plan_stops:
  "set (pl_stopIDs (fold (plan_step now prev paired) as p)) \<subseteq> set (pl_stopIDs p) \<union> dom (map_of prev)"
  "a \<in> set as \<Longrightarrow> \<not> runs now a \<Longrightarrow> map_of prev (as_SessionID a) = Some b \<Longrightarrow>
     as_DesiredRun b \<or> as_AssignmentEpoch b \<noteq> as_AssignmentEpoch a \<or> as_OrganizationID b \<noteq> as_OrganizationID a \<Longrightarrow>
     as_SessionID a \<in> set (pl_stopIDs (fold (plan_step now prev paired) as p))"
proof -
  show "set (pl_stopIDs (fold (plan_step now prev paired) as p)) \<subseteq> set (pl_stopIDs p) \<union> dom (map_of prev)"
  proof (induction as arbitrary: p)
    case (Cons a as)
    from Cons[of "plan_step now prev paired a p"] show ?case
      by (auto simp: plan_step_sel split: if_splits)
  qed simp
  have mono: "set (pl_stopIDs p) \<subseteq> set (pl_stopIDs (fold (plan_step now prev paired) as p))" for as p
  proof (induction as arbitrary: p)
    case (Cons a as)
    from Cons[of "plan_step now prev paired a p"] show ?case by (auto simp: plan_step_sel)
  qed simp
  show "a \<in> set as \<Longrightarrow> \<not> runs now a \<Longrightarrow> map_of prev (as_SessionID a) = Some b \<Longrightarrow>
     as_DesiredRun b \<or> as_AssignmentEpoch b \<noteq> as_AssignmentEpoch a \<or> as_OrganizationID b \<noteq> as_OrganizationID a \<Longrightarrow>
     as_SessionID a \<in> set (pl_stopIDs (fold (plan_step now prev paired) as p))"
  proof (induction as arbitrary: p)
    case (Cons c as)
    then show ?case
      using mono[of "plan_step now prev paired c p" as] by (auto simp: plan_step_sel)
  qed simp
qed

lemma fold_removed:
  "pl_next (fold (\<lambda>sid p. if map_of (pl_next p) sid = None then addStop sid p else p) ids p) = pl_next p"
  "pl_starts (fold (\<lambda>sid p. if map_of (pl_next p) sid = None then addStop sid p else p) ids p) = pl_starts p"
  "pl_missing (fold (\<lambda>sid p. if map_of (pl_next p) sid = None then addStop sid p else p) ids p) = pl_missing p"
  "pl_wanted (fold (\<lambda>sid p. if map_of (pl_next p) sid = None then addStop sid p else p) ids p) = pl_wanted p"
  "set (pl_stopIDs (fold (\<lambda>sid p. if map_of (pl_next p) sid = None then addStop sid p else p) ids p)) =
     set (pl_stopIDs p) \<union> {sid \<in> set ids. map_of (pl_next p) sid = None}"
  by (induction ids arbitrary: p) auto

lemma validate_loop_None:
  "validate_loop ss dd as = None \<Longrightarrow>
     distinct (map as_SessionID as) \<and> set ss \<inter> as_SessionID ` set as = {} \<and> (\<forall>a\<in>set as. \<not> invalid_assignment a)"
  by (induction as arbitrary: ss dd) (fastforce split: if_splits)+

text \<open>The plan of a valid snapshot in closed form.\<close>

lemma make_plan_valid:
  assumes "validate s = None"
  shows "pl_next (make_plan now prev paired (sn_Assignments s)) = keyed (filter (keeps now) (sn_Assignments s))"
    "pl_starts (make_plan now prev paired (sn_Assignments s)) =
       filter (\<lambda>a. runs now a \<and> as_DeviceJID a \<in> set paired) (sn_Assignments s)"
    "pl_missing (make_plan now prev paired (sn_Assignments s)) =
       map as_DeviceJID (filter (\<lambda>a. runs now a \<and> as_DeviceJID a \<notin> set paired) (sn_Assignments s))"
proof -
  have "distinct (map as_SessionID (sn_Assignments s))"
    using assms validate_loop_None[of "[]" "[]"] by (auto simp: validate_def split: if_splits)
  then have "fold (\<lambda>a. AList.update (as_SessionID a) a) (filter (keeps now) (sn_Assignments s)) [] =
      [] @ keyed (filter (keeps now) (sn_Assignments s))"
    by (intro fold_update_new) (simp add: distinct_map_filter)
  then show "pl_next (make_plan now prev paired (sn_Assignments s)) = keyed (filter (keeps now) (sn_Assignments s))"
    by (simp add: make_plan_def Let_def fold_removed fold_plan_sel)
  show "pl_starts (make_plan now prev paired (sn_Assignments s)) =
       filter (\<lambda>a. runs now a \<and> as_DeviceJID a \<in> set paired) (sn_Assignments s)"
    "pl_missing (make_plan now prev paired (sn_Assignments s)) =
       map as_DeviceJID (filter (\<lambda>a. runs now a \<and> as_DeviceJID a \<notin> set paired) (sn_Assignments s))"
    by (simp_all add: make_plan_def Let_def fold_removed fold_plan_sel)
qed

lemma make_plan_stops:
  "set (pl_stopIDs (make_plan now prev paired as)) \<subseteq> dom (map_of prev)"
  "sid \<in> dom (map_of prev) \<Longrightarrow> map_of (pl_next (make_plan now prev paired as)) sid = None \<Longrightarrow>
     sid \<in> set (pl_stopIDs (make_plan now prev paired as))"
  using fold_plan_stops(1)[of now prev paired as "\<lparr>pl_next = [], pl_stopIDs = [], pl_starts = [], pl_missing = [], pl_wanted = []\<rparr>"]
  by (auto simp: make_plan_def Let_def fold_removed dom_map_of_conv_image_fst)

lemma run_stops_spec:
  "run_stops stop ids calls = (calls', err) \<Longrightarrow>
     \<exists>dn. prefix dn ids \<and> calls' = calls @ map CallStop dn \<and> (err = None \<longrightarrow> dn = ids)"
proof (induction ids arbitrary: calls)
  case (Cons i ids)
  show ?case
  proof (cases "stop i")
    case None
    with Cons.prems Cons.IH[of "calls @ [CallStop i]"] obtain d where
      "prefix d ids" "calls' = calls @ CallStop i # map CallStop d" "err = None \<longrightarrow> d = ids" by auto
    then show ?thesis by (intro exI[of _ "i # d"]) simp
  next
    case (Some e)
    with Cons.prems show ?thesis by (intro exI[of _ "[i]"]) auto
  qed
qed simp

lemma run_starts_spec:
  "run_starts start as calls = (calls', err) \<Longrightarrow>
     \<exists>dn. prefix dn as \<and> calls' = calls @ map CallStart dn \<and> (err = None \<longrightarrow> dn = as)"
proof (induction as arbitrary: calls)
  case (Cons i as)
  show ?case
  proof (cases "start i")
    case None
    with Cons.prems Cons.IH[of "calls @ [CallStart i]"] obtain d where
      "prefix d as" "calls' = calls @ CallStart i # map CallStart d" "err = None \<longrightarrow> d = as" by auto
    then show ?thesis by (intro exI[of _ "i # d"]) simp
  next
    case (Some e)
    with Cons.prems show ?thesis by (intro exI[of _ "[i]"]) auto
  qed
qed simp

section \<open>Outcomes\<close>

text \<open>The ways \<open>Apply\<close> ends: nothing changed, the snapshot was published and applied, or a
  callback failed and everything is withdrawn.\<close>

lemma Apply_cases:
  assumes "Apply rto now s r = (r', res)"
  obtains (refused) e where "res = Inl e" "r' = r"
    | (stale) q where "res = Inr q" "r' = r" "sn_Revision s < rc_revision r"
    | (applied) rt invy where "rto = Some rt" "rt_Inventory rt = Inr invy" "validate s = None"
        "rc_revision r \<le> sn_Revision s"
        "res = Inr (result_of_plan s invy (make_plan now (rc_assignments r) (iv_PairedJIDs invy) (sn_Assignments s)))"
        "rc_revision r' = sn_Revision s"
        "rc_assignments r' = pl_next (make_plan now (rc_assignments r) (iv_PairedJIDs invy) (sn_Assignments s))"
        "rc_calls r' = rc_calls r @
           map CallStop (pl_stopIDs (make_plan now (rc_assignments r) (iv_PairedJIDs invy) (sn_Assignments s))) @
           map CallStart (pl_starts (make_plan now (rc_assignments r) (iv_PairedJIDs invy) (sn_Assignments s)))"
    | (withdrawn) e rt invy pre where "res = Inl e" "rto = Some rt" "rt_Inventory rt = Inr invy" "validate s = None"
        "rc_revision r' = rc_revision r" "rc_assignments r' = []"
        "rc_calls r' = rc_calls r @ pre @ map CallStop (remdups (map fst (rc_assignments r) @
           map fst (pl_next (make_plan now (rc_assignments r) (iv_PairedJIDs invy) (sn_Assignments s)))))"
proof (cases "\<exists>rt invy. rto = Some rt \<and> rt_Inventory rt = Inr invy \<and> validate s = None \<and> \<not> sn_Revision s < rc_revision r")
  case False
  with assms refused stale show ?thesis
    by (auto simp: Apply_def split: option.splits if_splits sum.splits)
next
  case True
  then obtain rt invy where t: "rto = Some rt" "rt_Inventory rt = Inr invy" "validate s = None"
    "\<not> sn_Revision s < rc_revision r" by blast
  define p where "p = make_plan now (rc_assignments r) (iv_PairedJIDs invy) (sn_Assignments s)"
  obtain c2 e2 where s2: "run_stops (rt_StopAssigned rt) (pl_stopIDs p) (rc_calls r) = (c2, e2)" by fastforce
  obtain d2 where d2: "c2 = rc_calls r @ map CallStop d2" "e2 = None \<longrightarrow> d2 = pl_stopIDs p"
    using run_stops_spec[OF s2] by blast
  obtain c3 e3 where s3: "run_starts (rt_StartAssigned rt) (pl_starts p) c2 = (c3, e3)" by fastforce
  obtain d3 where d3: "c3 = c2 @ map CallStart d3" "e3 = None \<longrightarrow> d3 = pl_starts p"
    using run_starts_spec[OF s3] by blast
  note run = assms[unfolded Apply_def] t p_def[symmetric] s2 s3
  consider (ok) "e2 = None" "e3 = None" | (bad2) x where "e2 = Some x" | (bad3) x where "e2 = None" "e3 = Some x"
    by fastforce
  then show ?thesis
  proof cases
    case ok
    with run d2 d3 show ?thesis by (intro applied[of rt invy, folded p_def]) (auto simp: Let_def)
  next
    case bad2
    with run d2 show ?thesis
      by (intro withdrawn[of _ rt invy "map CallStop d2", folded p_def]) (auto simp: rollback_def failClosed_def Let_def)
  next
    case bad3
    with run d2 d3 show ?thesis
      by (intro withdrawn[of _ rt invy "map CallStop d2 @ map CallStart d3", folded p_def])
        (auto simp: rollback_def failClosed_def Let_def)
  qed
qed

lemma fold_join_None:
  "fold (\<lambda>sid e. errors_join e (f sid)) ids e0 = None \<longleftrightarrow> e0 = None \<and> (\<forall>i\<in>set ids. f i = None)"
  by (induction ids arbitrary: e0) auto

lemma Expire_cases:
  assumes "Expire rt now r = (r', expired, err)"
  obtains (ok) "err = None" "rc_revision r' = rc_revision r"
      "rc_assignments r' = filter (\<lambda>(sid, a). as_LeaseExpiresAt a > now) (rc_assignments r)"
      "expired = (\<exists>x\<in>set (rc_assignments r). \<not> as_LeaseExpiresAt (snd x) > now)"
    | (bad) e where "err = Some e" "\<not> expired" "rc_revision r' = rc_revision r" "rc_assignments r' = []"
proof -
  define ids where "ids = map fst (filter (\<lambda>(sid, a). \<not> as_LeaseExpiresAt a > now) (rc_assignments r))"
  define er where "er = fold (\<lambda>sid e. errors_join e (rt_StopAssigned rt sid)) ids None"
  have ids: "ids \<noteq> [] \<longleftrightarrow> (\<exists>x\<in>set (rc_assignments r). \<not> as_LeaseExpiresAt (snd x) > now)"
    by (force simp: ids_def filter_empty_conv)
  note run = assms[unfolded Expire_def Let_def, folded ids_def, folded er_def]
  show thesis
  proof (cases er)
    case None
    with run ids show ?thesis by (intro ok) auto
  next
    case (Some e)
    with run show ?thesis by (intro bad[of e]) (auto simp: failClosed_def)
  qed
qed

section \<open>Histories of the reconciler\<close>

text \<open>
  Snapshots and expirations in any order, each with its own clock and engine answers.
  The second component records the last snapshot that was applied with success.
\<close>

inductive rstep :: "reconciler \<times> snapshot option \<Rightarrow> reconciler \<times> snapshot option \<Rightarrow> bool" where
  applied: "Apply rto now s r = (r', Inr q) \<Longrightarrow> \<not> sn_Revision s < rc_revision r \<Longrightarrow> rstep (r, ls) (r', Some s)"
| ignored: "Apply rto now s r = (r', Inr q) \<Longrightarrow> sn_Revision s < rc_revision r \<Longrightarrow> rstep (r, ls) (r', ls)"
| failed: "Apply rto now s r = (r', Inl e) \<Longrightarrow> rstep (r, ls) (r', ls)"
| expire: "Expire rt now r = (r', expired, err) \<Longrightarrow> rstep (r, ls) (r', ls)"

inductive_cases rstepE: "rstep x y"

definition rinv :: "reconciler \<times> snapshot option \<Rightarrow> bool" where
  "rinv x \<longleftrightarrow> (case x of (r, ls) \<Rightarrow>
     distinct (map fst (rc_assignments r)) \<and>
     (case ls of
        None \<Rightarrow> rc_assignments r = [] \<and> rc_revision r = 0
      | Some s \<Rightarrow> validate s = None \<and> rc_revision r = sn_Revision s \<and>
          (\<forall>(sid, a)\<in>set (rc_assignments r). a \<in> set (sn_Assignments s) \<and> as_SessionID a = sid)))"

lemma distinct_keyed: "validate s = None \<Longrightarrow> distinct (map fst (keyed (filter P (sn_Assignments s))))"
proof -
  assume "validate s = None"
  then have "distinct (map as_SessionID (sn_Assignments s))"
    using validate_loop_None[of "[]" "[]"] by (auto simp: validate_def split: if_splits)
  then show ?thesis by (simp add: keyed_def comp_def distinct_map_filter)
qed

lemma rstep_rinv: "rstep x y \<Longrightarrow> rinv x \<Longrightarrow> rinv y"
proof (induction rule: rstep.induct)
  case (applied rto now s r r' q ls)
  from applied(1) show ?case
  proof (cases rule: Apply_cases)
    case (applied rt invy)
    then show ?thesis using distinct_keyed[OF applied(3)] make_plan_valid(1)[OF applied(3)]
      by (auto simp: rinv_def keyed_def)
  qed (use applied in auto)
next
  case (ignored rto now s r r' q ls)
  from ignored(1) show ?case by (cases rule: Apply_cases) (use ignored in auto)
next
  case (failed rto now s r r' e ls)
  from failed(1) show ?case
    by (cases rule: Apply_cases) (use failed in \<open>auto simp: rinv_def split: option.splits\<close>)
next
  case (expire rt now r r' expired err ls)
  from expire(1) show ?case
    by (cases rule: Expire_cases)
      (use expire(2) in \<open>auto simp: rinv_def distinct_map_filter split: option.splits\<close>)
qed

lemma rinv_reachable: "rstep\<^sup>*\<^sup>* (New, None) x \<Longrightarrow> rinv x"
proof (induction rule: rtranclp_induct)
  case base
  show ?case by (simp add: rinv_def New_def)
qed (rule rstep_rinv)


text \<open>A successful \<open>Apply\<close> of a current snapshot leaves exactly its assignments
  except running ones whose lease has already expired; it starts exactly the running
  assignments with a live lease whose device is paired, in snapshot order, after stopping
  every session that was assigned before and no longer is, and no session that was not.\<close>

theorem Apply_success:
  assumes "Apply rto now s r = (r', Inr q)" "rc_revision r \<le> sn_Revision s"
  shows "rc_revision r' = sn_Revision s \<and>
    rc_assignments r' = keyed (filter (keeps now) (sn_Assignments s)) \<and>
    (\<exists>paired stops. rc_calls r' = rc_calls r @ map CallStop stops @
        map CallStart (filter (\<lambda>a. runs now a \<and> as_DeviceJID a \<in> set paired) (sn_Assignments s)) \<and>
      set stops \<subseteq> fst ` set (rc_assignments r) \<and>
      fst ` set (rc_assignments r) - fst ` set (rc_assignments r') \<subseteq> set stops)"
  using assms(1)
proof (cases rule: Apply_cases)
  case (applied rt invy)
  let ?p = "make_plan now (rc_assignments r) (iv_PairedJIDs invy) (sn_Assignments s)"
  have "set (pl_stopIDs ?p) \<subseteq> fst ` set (rc_assignments r)"
    "fst ` set (rc_assignments r) - fst ` set (rc_assignments r') \<subseteq> set (pl_stopIDs ?p)"
    using make_plan_stops[where now = now and prev = "rc_assignments r" and paired = "iv_PairedJIDs invy" and
        as = "sn_Assignments s"] applied(7)
    by (auto simp: dom_map_of_conv_image_fst map_of_eq_None_iff)
  with applied make_plan_valid[OF applied(3)] show ?thesis by auto
qed (use assms in auto)

text \<open>Property C27. A failed \<open>Apply\<close> fails closed: either nothing at all happened, or no
  session remains assigned, the revision is the old one, every session that was assigned
  before or would have been was told to stop, and no mutation passes the fence.\<close>

theorem Apply_fails_closed:
  assumes "Apply rto now s r = (r', Inl e)"
  shows "r' = r \<or>
    (rc_revision r' = rc_revision r \<and> rc_assignments r' = [] \<and> \<not> AllowsMutation now' org sid ep r' \<and>
     (\<forall>i\<in>fst ` set (rc_assignments r) \<union> as_SessionID ` set (filter (keeps now) (sn_Assignments s)).
        CallStop i \<in> set (drop (length (rc_calls r)) (rc_calls r'))))"
  using assms
proof (cases rule: Apply_cases)
  case (withdrawn e' rt invy pre)
  then show ?thesis using make_plan_valid(1)[OF withdrawn(4)]
    by (auto simp: AllowsMutation_def keyed_def)
qed auto

text \<open>After a lease sweep no session whose lease has elapsed is assigned; when a
  stop fails, no session is assigned at all, so no mutation passes.\<close>

theorem Expire_closes_leases:
  assumes "Expire rt now r = (r', expired, err)"
  shows "rc_revision r' = rc_revision r \<and>
    (\<forall>(sid, a)\<in>set (rc_assignments r'). now < as_LeaseExpiresAt a \<and> (sid, a) \<in> set (rc_assignments r)) \<and>
    (err = None \<longrightarrow> (\<forall>(sid, a)\<in>set (rc_assignments r). now < as_LeaseExpiresAt a \<longrightarrow> (sid, a) \<in> set (rc_assignments r'))) \<and>
    (err \<noteq> None \<longrightarrow> rc_assignments r' = [])"
  using assms by (cases rule: Expire_cases) auto

text \<open>When stopping an expired session fails, every assignment is dropped but the
  lease-expiry callback, which closes the gateway's readiness, is not called: the
  callback never receives an error.\<close>

theorem lease_callback_silent_on_failure:
  assumes "Expire rt now (ct_Reconciler a) = (r', expired, Some e)"
  shows "lease_timer_fires rt now a = (a\<lparr>ct_Reconciler := r'\<rparr>, None) \<and> rc_assignments r' = []"
  using assms by (cases rule: Expire_cases) (simp_all add: lease_timer_fires_def assms)

section \<open>Witnesses\<close>

definition demo_assignment :: assignment where
  "demo_assignment = \<lparr>as_SessionID = ''s1'', as_OrganizationID = ''org'', as_DeviceJID = ''jid1'',
     as_AssignmentEpoch = 2, as_LeaseExpiresAt = 100, as_DesiredRun = True, as_Config = empty_config\<rparr>"

definition demo_snapshot :: snapshot where
  "demo_snapshot = \<lparr>sn_Revision = 5, sn_Assignments = [demo_assignment]\<rparr>"

definition demo_runtime :: runtime where
  "demo_runtime = \<lparr>rt_Inventory = Inr \<lparr>iv_PairedJIDs = [''jid1''], iv_CorruptJIDs = []\<rparr>,
     rt_StartAssigned = (\<lambda>_. None), rt_StopAssigned = (\<lambda>_. None)\<rparr>"

definition demo_applied :: reconciler where
  "demo_applied = \<lparr>rc_revision = 5, rc_assignments = [(''s1'', demo_assignment)], rc_calls = [CallStart demo_assignment]\<rparr>"

definition demo_health :: reconcile_result where
  "demo_health = \<lparr>rs_Revision = 5, rs_Healthy = True, rs_MissingDeviceJIDs = [], rs_UnexpectedJIDs = [],
     rs_CorruptJIDs = [], rs_LocalDeviceJIDs = [''jid1'']\<rparr>"

lemma demo_apply: "Apply (Some demo_runtime) 10 demo_snapshot New = (demo_applied, Inr demo_health)"
  by code_simp

lemma demo_reach: "rstep\<^sup>*\<^sup>* (New, None) (demo_applied, Some demo_snapshot)"
  using rstep.applied[OF demo_apply, of None] by (simp add: New_def r_into_rtranclp)


theorem Apply_success_witness: "rc_assignments demo_applied = keyed (filter (keeps 10) (sn_Assignments demo_snapshot))"
  using Apply_success[OF demo_apply] by (simp add: New_def)

definition demo_failing :: runtime where
  "demo_failing = demo_runtime\<lparr>rt_StartAssigned := (\<lambda>_. Some (Plain ''engine''))\<rparr>"

lemma demo_fail: "Apply (Some demo_failing) 10 demo_snapshot demo_applied =
    (\<lparr>rc_revision = 5, rc_assignments = [], rc_calls = [CallStart demo_assignment, CallStart demo_assignment, CallStop ''s1'']\<rparr>,
     Inl (Plain ''engine''))"
  by code_simp

theorem Apply_fails_closed_witness:
  "\<not> AllowsMutation 20 ''org'' ''s1'' 2
     \<lparr>rc_revision = 5, rc_assignments = [], rc_calls = [CallStart demo_assignment, CallStart demo_assignment, CallStop ''s1'']\<rparr>"
  using Apply_fails_closed[OF demo_fail, of 20 "''org''" "''s1''" 2] by (simp add: demo_applied_def)

definition demo_stop_fails :: runtime where
  "demo_stop_fails = demo_runtime\<lparr>rt_StopAssigned := (\<lambda>_. Some (Plain ''stop''))\<rparr>"

lemma demo_expire: "Expire demo_stop_fails 100 demo_applied =
    (\<lparr>rc_revision = 5, rc_assignments = [], rc_calls = [CallStart demo_assignment, CallStop ''s1'']\<rparr>, False, Some (Plain ''stop''))"
  by code_simp

theorem Expire_closes_leases_witness:
  "rc_assignments \<lparr>rc_revision = 5, rc_assignments = [], rc_calls = [CallStart demo_assignment, CallStop ''s1'']\<rparr> = []"
  using Expire_closes_leases[OF demo_expire] by simp

theorem lease_callback_silent_on_failure_witness:
  "snd (lease_timer_fires demo_stop_fails 100 \<lparr>ct_Reconciler = demo_applied, ct_Health = None, ct_timer = None\<rparr>) = None"
  using lease_callback_silent_on_failure[where rt = demo_stop_fails and now = 100 and expired = False and
      a = "\<lparr>ct_Reconciler = demo_applied, ct_Health = None, ct_timer = None\<rparr>"] demo_expire by simp

end
