(* ===== verification/Outbox.thy ===== *)
theory Outbox
  imports StoreHelpers Fenced
begin

text \<open>
  The durable queue of outbound commands (src/backend/internal/store/outbox.go and the
  statements of store/queries/outbox.sql it runs). A row is leased by moving it to
  \<open>sending\<close> with the claimant's time in \<open>updated_at\<close>; that time is the owner stamp which
  fences every later write of the claimant. The table is a list of rows.
\<close>

section \<open>Rows\<close>

datatype outbox_status = OutboxQueued | OutboxSending | OutboxSent | OutboxFailed | OutboxUnknown

record outbox_entry =
  ob_ID :: string
  ob_OrganizationID :: string
  ob_SessionID :: string
  ob_IdempotencyKey :: "string option"
  ob_Payload :: string
  ob_Status :: outbox_status
  ob_Attempts :: int
  ob_NextAttemptAt :: int
  ob_ExpiresAt :: "int option"
  ob_AcknowledgedAt :: "int option"
  ob_EffectPossible :: bool
  ob_WAMessageID :: "string option"
  ob_Error :: "string option"
  ob_TerminalAt :: "int option"
  ob_CreatedAt :: int
  ob_UpdatedAt :: int

type_synonym outbox = "outbox_entry list"

section \<open>Insert and lookup\<close>

text \<open>The primary key and the unique key (organization_id, idempotency_key); NULL keys are
  never equal. A new row has the column defaults of \<open>acknowledged_at\<close> and
  \<open>effect_possible\<close>.\<close>

definition outbox_conflict :: "outbox_entry \<Rightarrow> outbox_entry \<Rightarrow> bool" where
  "outbox_conflict o1 o2 \<longleftrightarrow> ob_ID o1 = ob_ID o2 \<or>
     (ob_IdempotencyKey o1 \<noteq> None \<and> ob_IdempotencyKey o1 = ob_IdempotencyKey o2 \<and>
      ob_OrganizationID o1 = ob_OrganizationID o2)"

abbreviation ErrDuplicate :: go_err where "ErrDuplicate \<equiv> SQLError 1062 ''Duplicate entry''"

definition Insert :: "go_err option \<Rightarrow> outbox_entry \<Rightarrow> outbox \<Rightarrow> outbox \<times> unit result" where
  "Insert fault e tb =
     (case fault of
        Some er \<Rightarrow> (tb, Inl (Wrapped ''store: insert outbox'' er))
      | None \<Rightarrow>
          if \<exists>r\<in>set tb. outbox_conflict e r then (tb, Inl (Wrapped ''store: insert outbox'' ErrDuplicate))
          else (tb @ [e\<lparr>ob_AcknowledgedAt := None, ob_EffectPossible := False\<rparr>], Inr ()))"

definition Get :: "go_err option \<Rightarrow> string \<Rightarrow> outbox \<Rightarrow> outbox_entry result" where
  "Get fault oid tb =
     (case fault of
        Some er \<Rightarrow> Inl (notFound er ''outbox entry'')
      | None \<Rightarrow> (case find (\<lambda>r. ob_ID r = oid) tb of
            None \<Rightarrow> Inl (notFound ErrNoRows ''outbox entry'') | Some r \<Rightarrow> Inr r))"

definition GetByIdempotency :: "go_err option \<Rightarrow> string \<Rightarrow> string \<Rightarrow> outbox \<Rightarrow> outbox_entry result" where
  "GetByIdempotency fault organizationID idempotencyKey tb =
     (case fault of
        Some er \<Rightarrow> Inl (notFound er ''outbox entry'')
      | None \<Rightarrow>
          (case find (\<lambda>r. ob_OrganizationID r = organizationID \<and> ob_IdempotencyKey r = Some idempotencyKey) tb of
             None \<Rightarrow> Inl (notFound ErrNoRows ''outbox entry'') | Some r \<Rightarrow> Inr r))"

section \<open>Claims\<close>

text \<open>\<open>ClaimOutboxByID\<close>: the compare-and-set every claim goes through.\<close>

definition claimable :: "int \<Rightarrow> outbox_entry \<Rightarrow> bool" where
  "claimable staleBefore r \<longleftrightarrow> ob_TerminalAt r = None \<and>
     (ob_Status r = OutboxQueued \<or> ob_Status r = OutboxFailed \<or>
      (ob_Status r = OutboxSending \<and> ob_UpdatedAt r \<le> staleBefore))"

definition leased :: "int \<Rightarrow> outbox_entry \<Rightarrow> outbox_entry" where
  "leased updatedAt r = r\<lparr>ob_Status := OutboxSending, ob_Attempts := ob_Attempts r + 1, ob_UpdatedAt := updatedAt\<rparr>"

definition cas_claim :: "string \<Rightarrow> int \<Rightarrow> int \<Rightarrow> outbox \<Rightarrow> outbox \<times> nat" where
  "cas_claim oid updatedAt staleBefore tb =
     (upd_rows (\<lambda>r. ob_ID r = oid \<and> claimable staleBefore r) (leased updatedAt) tb,
      matched (\<lambda>r. ob_ID r = oid \<and> claimable staleBefore r) tb)"

definition ClaimByID :: "go_err option \<Rightarrow> string \<Rightarrow> int \<Rightarrow> int \<Rightarrow> outbox \<Rightarrow> outbox \<times> bool result" where
  "ClaimByID fault oid updatedAt staleBefore tb =
     (case fault of
        Some er \<Rightarrow> (tb, Inl (Wrapped (''store: claim outbox '' @ oid) er))
      | None \<Rightarrow> (case cas_claim oid updatedAt staleBefore tb of
          (tb', n) \<Rightarrow>
            if n = 0 then (tb', Inr False)
            else if n = 1 then (tb', Inr True)
            else (tb', Inl (Plain (''store: claim outbox '' @ oid @ '' affected '' @ show_nat n @ '' rows'')))))"

text \<open>
  The loop over the selected rows, in one transaction: call \<open>i\<close> is the compare-and-set of
  the next row. A row whose compare-and-set matches nothing is not returned.
\<close>

fun claim_loop :: "faults \<Rightarrow> nat \<Rightarrow> int \<Rightarrow> int \<Rightarrow> outbox_entry list \<Rightarrow> outbox_entry list \<Rightarrow> outbox
    \<Rightarrow> (outbox \<times> outbox_entry list) result" where
  "claim_loop f i updatedAt staleBefore [] out tb = Inr (tb, out)"
| "claim_loop f i updatedAt staleBefore (r # rs) out tb =
     (case f i of
        Some er \<Rightarrow> Inl (Wrapped (''store: claim outbox '' @ ob_ID r) er)
      | None \<Rightarrow>
          (case cas_claim (ob_ID r) updatedAt staleBefore tb of
             (tb', n) \<Rightarrow> claim_loop f (Suc i) updatedAt staleBefore rs
                          (if n = 1 then out @ [leased updatedAt r] else out) tb'))"

text \<open>Rows locked by other transactions are skipped (\<open>FOR UPDATE SKIP LOCKED\<close>): \<open>locked\<close> says
  which. The selection is call 1 of the transaction, \<open>BeginTx\<close> call 0.\<close>

definition queued_row :: "string \<Rightarrow> outbox_entry \<Rightarrow> bool" where
  "queued_row sessionFilter r \<longleftrightarrow> ob_Status r = OutboxQueued \<and> ob_TerminalAt r = None \<and>
     (sessionFilter = [] \<or> ob_SessionID r = sessionFilter)"

definition claimQueued :: "faults \<Rightarrow> (string \<Rightarrow> bool) \<Rightarrow> string \<Rightarrow> int \<Rightarrow> int \<Rightarrow> outbox
    \<Rightarrow> (outbox \<times> outbox_entry list) result" where
  "claimQueued f locked sessionID limit updatedAt tb =
     (case f 1 of
        Some er \<Rightarrow> Inl (Wrapped ''store: select queued outbox'' er)
      | None \<Rightarrow> claim_loop f 2 updatedAt updatedAt
          (select_rows (\<lambda>r. queued_row sessionID r \<and> \<not> locked (ob_ID r)) (\<lambda>r. (ob_CreatedAt r, ob_ID r)) (nat limit) tb)
          [] tb)"

definition due_row :: "int \<Rightarrow> int \<Rightarrow> outbox_entry \<Rightarrow> bool" where
  "due_row dueBefore staleBefore r \<longleftrightarrow> ob_TerminalAt r = None \<and>
     (((ob_Status r = OutboxQueued \<or> ob_Status r = OutboxFailed) \<and>
       (ob_NextAttemptAt r \<le> dueBefore \<or> (case ob_ExpiresAt r of None \<Rightarrow> False | Some t \<Rightarrow> t \<le> dueBefore))) \<or>
      (ob_Status r = OutboxSending \<and> ob_UpdatedAt r \<le> staleBefore))"

definition due_key :: "outbox_entry \<Rightarrow> int \<times> int \<times> string" where
  "due_key r = (ob_NextAttemptAt r, ob_CreatedAt r, ob_ID r)"

definition claimDue :: "faults \<Rightarrow> (string \<Rightarrow> bool) \<Rightarrow> int \<Rightarrow> int \<Rightarrow> int \<Rightarrow> int \<Rightarrow> outbox
    \<Rightarrow> (outbox \<times> outbox_entry list) result" where
  "claimDue f locked limit dueBefore staleBefore updatedAt tb =
     (case f 1 of
        Some er \<Rightarrow> Inl (Wrapped ''store: select due outbox'' er)
      | None \<Rightarrow> claim_loop f 2 updatedAt staleBefore
          (select_rows (\<lambda>r. due_row dueBefore staleBefore r \<and> \<not> locked (ob_ID r)) due_key (nat limit) tb) [] tb)"

text \<open>The batch claims on a repository over \<open>*sql.DB\<close>; the commit is fault \<open>c\<close>.\<close>

definition claimQueuedForSession :: "faults \<Rightarrow> go_err option \<Rightarrow> (string \<Rightarrow> bool) \<Rightarrow> string \<Rightarrow> int \<Rightarrow> int \<Rightarrow> outbox
    \<Rightarrow> outbox \<times> outbox_entry list result" where
  "claimQueuedForSession f c locked sessionID limit updatedAt tb = in_tx tb
     (call (map_option (Wrapped ''store: begin claim queued outbox'') (f 0))
     (bindr (claimQueued f locked sessionID (normLimit limit) updatedAt tb) (\<lambda>r.
      call (map_option (Wrapped ''store: commit claim queued outbox'') c) (Inr r))))"

definition ClaimDue :: "faults \<Rightarrow> go_err option \<Rightarrow> (string \<Rightarrow> bool) \<Rightarrow> int \<Rightarrow> int \<Rightarrow> int \<Rightarrow> int \<Rightarrow> outbox
    \<Rightarrow> outbox \<times> outbox_entry list result" where
  "ClaimDue f c locked limit dueBefore staleBefore updatedAt tb = in_tx tb
     (call (map_option (Wrapped ''store: begin claim due outbox'') (f 0))
     (bindr (claimDue f locked (normLimit limit) dueBefore staleBefore updatedAt tb) (\<lambda>r.
      call (map_option (Wrapped ''store: commit claim due outbox'') c) (Inr r))))"

section \<open>Writes of the lease owner\<close>

definition owned_row :: "string \<Rightarrow> int \<Rightarrow> outbox_entry \<Rightarrow> bool" where
  "owned_row oid ownerStamp r \<longleftrightarrow> ob_ID r = oid \<and> ob_Status r = OutboxSending \<and>
     ob_UpdatedAt r = ownerStamp \<and> ob_TerminalAt r = None"

definition fenced_update :: "string \<Rightarrow> go_err option \<Rightarrow> (outbox_entry \<Rightarrow> bool) \<Rightarrow> (outbox_entry \<Rightarrow> outbox_entry)
    \<Rightarrow> outbox \<Rightarrow> outbox \<times> bool result" where
  "fenced_update what fault P g tb =
     (case fault of
        Some er \<Rightarrow> (tb, Inl (Wrapped what er))
      | None \<Rightarrow> (upd_rows P g tb, Inr (matched P tb = 1)))"

definition Reschedule :: "go_err option \<Rightarrow> string \<Rightarrow> int \<Rightarrow> string \<Rightarrow> int \<Rightarrow> int \<Rightarrow> outbox \<Rightarrow> outbox \<times> bool result" where
  "Reschedule fault oid ownerStamp note nextAttemptAt updatedAt =
     fenced_update (''store: reschedule outbox '' @ oid) fault (owned_row oid ownerStamp)
       (\<lambda>r. r\<lparr>ob_Status := OutboxQueued, ob_Error := (if note = [] then None else Some note),
              ob_NextAttemptAt := nextAttemptAt, ob_UpdatedAt := updatedAt\<rparr>)"

definition MarkDispatchPossible :: "go_err option \<Rightarrow> string \<Rightarrow> int \<Rightarrow> outbox \<Rightarrow> outbox \<times> bool result" where
  "MarkDispatchPossible fault oid ownerStamp =
     fenced_update (''store: mark outbox dispatch '' @ oid) fault (owned_row oid ownerStamp)
       (\<lambda>r. r\<lparr>ob_EffectPossible := True\<rparr>)"

definition ClearDispatchPossible :: "go_err option \<Rightarrow> string \<Rightarrow> int \<Rightarrow> outbox \<Rightarrow> outbox \<times> bool result" where
  "ClearDispatchPossible fault oid ownerStamp =
     fenced_update (''store: clear outbox dispatch '' @ oid) fault
       (\<lambda>r. owned_row oid ownerStamp r \<and> ob_AcknowledgedAt r = None) (\<lambda>r. r\<lparr>ob_EffectPossible := False\<rparr>)"

definition RecordAcknowledgement :: "go_err option \<Rightarrow> string \<Rightarrow> int \<Rightarrow> string \<Rightarrow> int \<Rightarrow> outbox \<Rightarrow> outbox \<times> bool result" where
  "RecordAcknowledgement fault oid ownerStamp waID acknowledgedAt =
     fenced_update (''store: acknowledge outbox '' @ oid) fault (owned_row oid ownerStamp)
       (\<lambda>r. r\<lparr>ob_WAMessageID := Some waID, ob_AcknowledgedAt := Some acknowledgedAt\<rparr>)"

text \<open>\<open>strip\<close> is MySQL's \<open>JSON_REMOVE\<close> of the inline media fields.\<close>

definition CompleteOwned :: "(string \<Rightarrow> string) \<Rightarrow> go_err option \<Rightarrow> string \<Rightarrow> int \<Rightarrow> outbox_status \<Rightarrow> string option
    \<Rightarrow> string option \<Rightarrow> int \<Rightarrow> outbox \<Rightarrow> outbox \<times> bool result" where
  "CompleteOwned strip fault oid ownerStamp status waID note updatedAt =
     fenced_update (''store: complete outbox '' @ oid) fault (owned_row oid ownerStamp)
       (\<lambda>r. r\<lparr>ob_Status := status, ob_WAMessageID := (case waID of None \<Rightarrow> ob_WAMessageID r | Some w \<Rightarrow> Some w),
              ob_Error := note, ob_TerminalAt := Some updatedAt, ob_UpdatedAt := updatedAt,
              ob_Payload := (if status = OutboxSent then strip (ob_Payload r) else ob_Payload r)\<rparr>)"

text \<open>The unfenced transition kept for legacy callers; the calls are the first statement (0)
  and the fallback (1).\<close>

definition set_status :: "outbox_status \<Rightarrow> string option \<Rightarrow> string option \<Rightarrow> int \<Rightarrow> outbox_entry \<Rightarrow> outbox_entry" where
  "set_status status waMessageID errMsg updatedAt r =
     r\<lparr>ob_Status := status, ob_WAMessageID := waMessageID, ob_Error := errMsg, ob_UpdatedAt := updatedAt\<rparr>"

definition UpdateStatus :: "(string \<Rightarrow> string) \<Rightarrow> faults \<Rightarrow> string \<Rightarrow> outbox_status \<Rightarrow> string option \<Rightarrow> string option
    \<Rightarrow> int \<Rightarrow> outbox \<Rightarrow> outbox \<times> unit result" where
  "UpdateStatus strip f oid status waMessageID errMsg updatedAt tb =
     (let byID = (\<lambda>r. ob_ID r = oid);
          sending = (\<lambda>r. ob_ID r = oid \<and> ob_Status r = OutboxSending);
          plain = set_status status waMessageID errMsg updatedAt;
          fin = (\<lambda>er. Inl (Wrapped ''store: update outbox status'' er));
          report = (\<lambda>n. rowsAffectedOrNotFound n ''outbox entry'')
      in case f 0 of Some er \<Rightarrow>
           (if status = OutboxFailed
            then (case f 1 of Some er' \<Rightarrow> (tb, fin er')
                  | None \<Rightarrow> (upd_rows byID plain tb, report (matched byID tb)))
            else (tb, fin er))
         | None \<Rightarrow>
           (case status of
              OutboxSent \<Rightarrow>
                (upd_rows byID (\<lambda>r. (plain r)\<lparr>ob_Payload := strip (ob_Payload r), ob_TerminalAt := Some updatedAt\<rparr>) tb,
                 report (matched byID tb))
            | OutboxQueued \<Rightarrow> (upd_rows byID plain tb, report (matched byID tb))
            | OutboxSending \<Rightarrow> (upd_rows byID plain tb, report (matched byID tb))
            | OutboxUnknown \<Rightarrow>
                (upd_rows sending (\<lambda>r. (plain r)\<lparr>ob_TerminalAt := Some updatedAt\<rparr>) tb, report (matched sending tb))
            | OutboxFailed \<Rightarrow>
                (let tb' = upd_rows sending (\<lambda>r. (plain r)\<lparr>ob_TerminalAt := Some updatedAt\<rparr>) tb in
                 if matched sending tb = 0
                 then (case f 1 of Some er \<Rightarrow> (tb', fin er)
                       | None \<Rightarrow> (upd_rows byID plain tb', report (matched byID tb')))
                 else (tb', report (matched sending tb)))))"

section \<open>Batch claims\<close>

lemma leased_sel [simp]:
  "ob_ID (leased u r) = ob_ID r" "ob_Status (leased u r) = OutboxSending" "ob_UpdatedAt (leased u r) = u"
  "ob_TerminalAt (leased u r) = ob_TerminalAt r" "ob_AcknowledgedAt (leased u r) = ob_AcknowledgedAt r"
  by (simp_all add: leased_def)

definition unique_ids :: "outbox \<Rightarrow> bool" where
  "unique_ids tb \<longleftrightarrow> distinct (map ob_ID tb)"

lemma unique_idsD: "unique_ids tb \<Longrightarrow> r \<in> set tb \<Longrightarrow> s \<in> set tb \<Longrightarrow> ob_ID r = ob_ID s \<Longrightarrow> r = s"
  by (auto simp: unique_ids_def distinct_map inj_on_def)

lemma upd_rows_unique_ids:
  "(\<And>r. P r \<Longrightarrow> ob_ID (g r) = ob_ID r) \<Longrightarrow> unique_ids (upd_rows P g tb) = unique_ids tb"
  by (simp add: unique_ids_def map_upd_rows)

lemma matched_one:
  assumes "unique_ids tb" "r \<in> set tb" "P r" "\<And>s. P s \<Longrightarrow> ob_ID s = ob_ID r"
  shows "matched P tb = 1"
proof -
  have "matched P tb \<le> 1" using assms(1,4) matched_unique[of ob_ID tb P "ob_ID r"] by (simp add: unique_ids_def)
  moreover have "matched P tb \<noteq> 0" using assms by (auto simp: matched_0_iff)
  ultimately show ?thesis by simp
qed

lemma claim_loop_spec:
  assumes "unique_ids tb" "distinct (map ob_ID rs)" "\<forall>r\<in>set rs. r \<in> set tb \<and> claimable st r"
    "claim_loop f i u st rs out tb = Inr (tb', out')"
  shows "out' = out @ map (leased u) rs \<and> tb' = upd_rows (\<lambda>r. ob_ID r \<in> ob_ID ` set rs) (leased u) tb"
  using assms
proof (induction rs arbitrary: i out tb)
  case Nil
  then show ?case by (simp add: upd_rows_def)
next
  case (Cons r rs)
  let ?P = "\<lambda>x. ob_ID x = ob_ID r \<and> claimable st x"
  let ?tb = "upd_rows ?P (leased u) tb"
  have hit: "matched ?P tb = 1" using Cons.prems by (intro matched_one[of tb r]) auto
  have uniq: "unique_ids ?tb" using Cons.prems(1) by (simp add: upd_rows_unique_ids)
  have keep: "\<forall>x\<in>set rs. x \<in> set ?tb \<and> claimable st x"
    using Cons.prems(2,3) by (auto intro!: in_upd_rows_miss simp: rev_image_eqI)
  have loop: "claim_loop f (Suc i) u st rs (out @ [leased u r]) ?tb = Inr (tb', out')"
    using Cons.prems(4) hit by (auto simp: cas_claim_def split: option.splits)
  have "\<And>x. x \<in> set tb \<Longrightarrow> ob_ID x = ob_ID r \<Longrightarrow> claimable st x"
    using unique_idsD[OF Cons.prems(1)] Cons.prems(3) by (metis list.set_intros(1))
  then have "upd_rows (\<lambda>x. ob_ID x \<in> ob_ID ` set rs) (leased u) ?tb =
      upd_rows (\<lambda>x. ob_ID x \<in> ob_ID ` set (r # rs)) (leased u) tb"
    using Cons.prems(2) by (auto simp: upd_rows_def)
  with Cons.IH[OF uniq _ keep loop] Cons.prems(2) show ?case by simp
qed

lemma due_row_claimable: "due_row d st r \<Longrightarrow> claimable st r"
  by (auto simp: due_row_def claimable_def)

lemma due_row_open: "due_row d st r \<Longrightarrow> ob_TerminalAt r = None"
  by (simp add: due_row_def)

lemma queued_row_open: "queued_row sess r \<Longrightarrow> ob_TerminalAt r = None"
  by (simp add: queued_row_def)

lemma select_distinct: "unique_ids tb \<Longrightarrow> distinct (map ob_ID (select_rows P k n tb))"
  by (simp add: unique_ids_def distinct_map_select_rows)

lemma ClaimDue_result:
  assumes "unique_ids tb" "ClaimDue f c locked limit due st u tb = (tb', Inr out)"
  defines "sel \<equiv> select_rows (\<lambda>r. due_row due st r \<and> \<not> locked (ob_ID r)) due_key (nat (normLimit limit)) tb"
  shows "out = map (leased u) sel" "tb' = upd_rows (\<lambda>r. ob_ID r \<in> ob_ID ` set sel) (leased u) tb"
    "distinct (map ob_ID sel)" "\<forall>r\<in>set sel. r \<in> set tb \<and> due_row due st r \<and> \<not> locked (ob_ID r)"
    "sorted (map due_key sel)" "int (length sel) \<le> 200"
    "ob_ID ` set out = ob_ID ` set sel"
    "x \<in> set out \<Longrightarrow> x \<in> set tb' \<and> \<not> locked (ob_ID x) \<and> (\<exists>r\<in>set tb. due_row due st r \<and> x = leased u r)"
proof -
  show d: "distinct (map ob_ID sel)" unfolding sel_def by (rule select_distinct[OF assms(1)])
  show m: "\<forall>r\<in>set sel. r \<in> set tb \<and> due_row due st r \<and> \<not> locked (ob_ID r)"
    unfolding sel_def by (auto dest: in_select_rowsD)
  have "claim_loop f 2 u st sel [] tb = Inr (tb', out)"
    using assms(2) unfolding sel_def by (auto simp: ClaimDue_def claimDue_def split: option.splits)
  from claim_loop_spec[OF assms(1) d _ this] m due_row_claimable
  show out: "out = map (leased u) sel" and tb': "tb' = upd_rows (\<lambda>r. ob_ID r \<in> ob_ID ` set sel) (leased u) tb" by auto
  show "ob_ID ` set out = ob_ID ` set sel" by (simp add: out image_image)
  show "x \<in> set tb' \<and> \<not> locked (ob_ID x) \<and> (\<exists>r\<in>set tb. due_row due st r \<and> x = leased u r)" if x: "x \<in> set out"
  proof -
    obtain r where r: "r \<in> set sel" "x = leased u r" using x by (auto simp: out)
    have "leased u r \<in> set (upd_rows (\<lambda>r. ob_ID r \<in> ob_ID ` set sel) (leased u) tb)"
      by (rule in_upd_rows_hit) (use m r(1) in auto)
    with m r show ?thesis by (auto simp: tb')
  qed
  show "sorted (map due_key sel)" unfolding sel_def by (rule sorted_select_rows)
  have "length sel \<le> nat (normLimit limit)" unfolding sel_def by (rule length_select_rows)
  then show "int (length sel) \<le> 200" using normLimit_bounds[of limit] by linarith
qed

lemma due_key_leased: "map due_key (map (leased u) rs) = map due_key rs"
  by (simp add: due_key_def leased_def)

section \<open>Properties\<close>

text \<open>A successful batch claim returns at most the page limit of distinct rows in
  due order, each of which was due, not terminal and not locked; exactly these rows become
  sending leases stamped with the claim time, and no other row changes.\<close>

theorem ClaimDue_correct:
  assumes "unique_ids tb" "ClaimDue f c locked limit due st u tb = (tb', Inr out)"
  shows "int (length out) \<le> 200 \<and> distinct (map ob_ID out) \<and> sorted (map due_key out) \<and>
    (\<forall>o'\<in>set out. o' \<in> set tb' \<and> \<not> locked (ob_ID o') \<and>
       (\<exists>r\<in>set tb. due_row due st r \<and> o' = leased u r)) \<and>
    tb' = upd_rows (\<lambda>r. ob_ID r \<in> ob_ID ` set out) (leased u) tb"
proof -
  note r = ClaimDue_result[OF assms]
  have "int (length out) \<le> 200" using r(6) by (simp add: r(1))
  moreover have "distinct (map ob_ID out)" using r(3) by (simp add: r(1) comp_def)
  moreover have "sorted (map due_key out)" using r(5) by (simp only: r(1) due_key_leased)
  moreover have "tb' = upd_rows (\<lambda>r. ob_ID r \<in> ob_ID ` set out) (leased u) tb" unfolding r(7) by (rule r(2))
  ultimately show ?thesis using r(8) by blast
qed

text \<open>Leases are exclusive: a later batch claim returns no row of an earlier one
  whose lease it still has to respect, that is when the later stale limit lies before the
  earlier claim time; nothing but the lease itself is needed between them.\<close>

theorem ClaimDue_disjoint:
  assumes "unique_ids tb" "ClaimDue f c locked limit due st u tb = (tb1, Inr out1)"
    "ClaimDue f' c' locked' limit' due' st' u' tb1 = (tb2, Inr out2)" "st' < u"
  shows "ob_ID ` set out1 \<inter> ob_ID ` set out2 = {}"
proof (rule ccontr)
  assume "ob_ID ` set out1 \<inter> ob_ID ` set out2 \<noteq> {}"
  then obtain x where "x \<in> ob_ID ` set out1" "x \<in> ob_ID ` set out2" by blast
  then obtain a b where ab: "a \<in> set out1" "b \<in> set out2" "ob_ID a = ob_ID b" by auto
  note r1 = ClaimDue_result[OF assms(1,2)]
  have uniq: "unique_ids tb1" using assms(1) by (simp add: r1(2) upd_rows_unique_ids)
  note r2 = ClaimDue_result[OF uniq assms(3)]
  obtain s where s: "s \<in> set tb1" "due_row due' st' s" "ob_ID b = ob_ID s"
    using r2(8)[OF ab(2)] by auto
  have "a = s" using unique_idsD[OF uniq] ab(3) r1(8)[OF ab(1)] s by simp
  moreover have "ob_Status a = OutboxSending" "ob_UpdatedAt a = u" using r1(8)[OF ab(1)] by auto
  ultimately show False using s(2) assms(4) by (auto simp: due_row_def)
qed

section \<open>The owner fence\<close>

datatype owner_write =
    WReschedule string int int
  | WMark
  | WAcknowledge string int
  | WComplete outbox_status "string option" "string option" int

fun owner_write_op :: "(string \<Rightarrow> string) \<Rightarrow> owner_write \<Rightarrow> string \<Rightarrow> int \<Rightarrow> outbox \<Rightarrow> outbox \<times> bool result" where
  "owner_write_op strip (WReschedule note next upd) oid stamp tb = Reschedule None oid stamp note next upd tb"
| "owner_write_op strip WMark oid stamp tb = MarkDispatchPossible None oid stamp tb"
| "owner_write_op strip (WAcknowledge wa t) oid stamp tb = RecordAcknowledgement None oid stamp wa t tb"
| "owner_write_op strip (WComplete st wa note upd) oid stamp tb = CompleteOwned strip None oid stamp st wa note upd tb"

definition holds_lease :: "string \<Rightarrow> int \<Rightarrow> outbox \<Rightarrow> bool" where
  "holds_lease oid stamp tb \<longleftrightarrow> matched (owned_row oid stamp) tb = 1"

definition owner_apply :: "(string \<Rightarrow> string) \<Rightarrow> owner_write \<Rightarrow> string \<Rightarrow> int \<Rightarrow> outbox \<Rightarrow> outbox \<times> bool" where
  "owner_apply strip w oid stamp tb =
     (if unique_ids tb then (case owner_write_op strip w oid stamp tb of (tb', Inr b) \<Rightarrow> (tb', b) | (tb', Inl e) \<Rightarrow> (tb', False))
      else (tb, holds_lease oid stamp tb))"

lemma owned_row_lost:
  assumes "unique_ids tb" "\<not> holds_lease oid stamp tb"
  shows "matched (owned_row oid stamp) tb = 0"
  using matched_unique[of ob_ID tb "owned_row oid stamp" oid] assms
  by (auto simp: unique_ids_def holds_lease_def owned_row_def)

interpretation outbox_lease: fenced_write holds_lease "owner_apply strip" for strip
proof
  fix k t s a
  show "owner_apply strip a k t s = (s, False)" if "\<not> holds_lease k t s"
  proof (cases "unique_ids s")
    case True
    from owned_row_lost[OF True that] show ?thesis using True
      by (cases a) (simp_all add: owner_apply_def Reschedule_def MarkDispatchPossible_def
          RecordAcknowledgement_def CompleteOwned_def fenced_update_def upd_rows_id)
  qed (use that in \<open>simp add: owner_apply_def\<close>)
  show "snd (owner_apply strip a k t s)" if "holds_lease k t s"
    using that by (cases a) (simp_all add: owner_apply_def holds_lease_def Reschedule_def MarkDispatchPossible_def
        RecordAcknowledgement_def CompleteOwned_def fenced_update_def)
qed

lemma claimQueued_result:
  assumes "unique_ids tb" "claimQueuedForSession f c locked sess limit u tb = (tb', Inr out)"
  defines "sel \<equiv> select_rows (\<lambda>r. queued_row sess r \<and> \<not> locked (ob_ID r)) (\<lambda>r. (ob_CreatedAt r, ob_ID r))
    (nat (normLimit limit)) tb"
  shows "out = map (leased u) sel" "tb' = upd_rows (\<lambda>r. ob_ID r \<in> ob_ID ` set sel) (leased u) tb"
    "\<forall>r\<in>set sel. r \<in> set tb \<and> queued_row sess r"
proof -
  have d: "distinct (map ob_ID sel)" unfolding sel_def by (rule select_distinct[OF assms(1)])
  show m: "\<forall>r\<in>set sel. r \<in> set tb \<and> queued_row sess r" unfolding sel_def by (auto dest: in_select_rowsD)
  have "claim_loop f 2 u u sel [] tb = Inr (tb', out)"
    using assms(2) unfolding sel_def by (auto simp: claimQueuedForSession_def claimQueued_def split: option.splits)
  from claim_loop_spec[OF assms(1) d _ this] m
  show "out = map (leased u) sel" "tb' = upd_rows (\<lambda>r. ob_ID r \<in> ob_ID ` set sel) (leased u) tb"
    by (auto simp: queued_row_def claimable_def)
qed

section \<open>Histories of the table\<close>

text \<open>Every write the scheduler performs, in any order and with any database fault.\<close>

inductive ostep :: "(string \<Rightarrow> string) \<Rightarrow> outbox \<Rightarrow> outbox \<Rightarrow> bool" for strip where
  insert: "Insert ft e tb = (tb', r) \<Longrightarrow> ostep strip tb tb'"
| claim_id: "ClaimByID ft oid u st tb = (tb', r) \<Longrightarrow> ostep strip tb tb'"
| claim_due: "ClaimDue f c locked limit due st u tb = (tb', r) \<Longrightarrow> ostep strip tb tb'"
| claim_queued: "claimQueuedForSession f c locked sess limit u tb = (tb', r) \<Longrightarrow> ostep strip tb tb'"
| owner: "owner_write_op strip w oid stamp tb = (tb', r) \<Longrightarrow> ostep strip tb tb'"
| clear: "ClearDispatchPossible ft oid stamp tb = (tb', r) \<Longrightarrow> ostep strip tb tb'"

text \<open>Each write appends a row with new keys or updates rows that are not terminal and keeps
  their identity.\<close>

definition open_update :: "outbox \<Rightarrow> outbox \<Rightarrow> bool" where
  "open_update tb tb' \<longleftrightarrow> (\<exists>P g. tb' = upd_rows P g tb \<and>
     (\<forall>r\<in>set tb. P r \<longrightarrow> ob_TerminalAt r = None \<and> ob_ID (g r) = ob_ID r \<and>
        ob_OrganizationID (g r) = ob_OrganizationID r \<and> ob_IdempotencyKey (g r) = ob_IdempotencyKey r \<and>
        (ob_AcknowledgedAt r \<noteq> None \<longrightarrow> ob_AcknowledgedAt (g r) \<noteq> None)))"

lemma open_update_refl: "open_update tb tb"
  unfolding open_update_def by (rule exI[of _ "\<lambda>_. False"]) (simp add: upd_rows_def)

lemma open_updateI:
  "(\<And>r. P r \<Longrightarrow> ob_TerminalAt r = None \<and> ob_ID (g r) = ob_ID r \<and> ob_OrganizationID (g r) = ob_OrganizationID r \<and>
     ob_IdempotencyKey (g r) = ob_IdempotencyKey r \<and> (ob_AcknowledgedAt r \<noteq> None \<longrightarrow> ob_AcknowledgedAt (g r) \<noteq> None)) \<Longrightarrow>
   open_update tb (upd_rows P g tb)"
  unfolding open_update_def by blast

lemma open_update_claim:
  assumes "unique_ids tb" "\<forall>r\<in>set sel. r \<in> set tb \<and> ob_TerminalAt r = None"
  shows "open_update tb (upd_rows (\<lambda>r. ob_ID r \<in> ob_ID ` set sel) (leased u) tb)"
  unfolding open_update_def
  by (rule exI[of _ "\<lambda>r. ob_ID r \<in> ob_ID ` set sel"], rule exI[of _ "leased u"])
    (use assms unique_idsD[OF assms(1)] in \<open>auto simp: leased_def\<close>)

lemma fenced_update_open:
  assumes "fenced_update what ft P g tb = (tb', r)"
    "\<And>r. P r \<Longrightarrow> ob_TerminalAt r = None \<and> ob_ID (g r) = ob_ID r \<and> ob_OrganizationID (g r) = ob_OrganizationID r \<and>
     ob_IdempotencyKey (g r) = ob_IdempotencyKey r \<and> (ob_AcknowledgedAt r \<noteq> None \<longrightarrow> ob_AcknowledgedAt (g r) \<noteq> None)"
  shows "open_update tb tb'"
  using assms(1) open_updateI[of P g tb, OF assms(2)] open_update_refl[of tb]
  by (auto simp: fenced_update_def split: option.splits)

lemma in_tx_Inr_cases: "in_tx s r = (s', q) \<Longrightarrow> s' = s \<or> (\<exists>a. q = Inr a)"
  by (auto simp: in_tx_def split: sum.splits)

lemma ostep_shape:
  assumes "ostep strip tb tb'" "unique_ids tb"
  shows "open_update tb tb' \<or> (\<exists>e. tb' = tb @ [e] \<and> (\<forall>r\<in>set tb. \<not> outbox_conflict e r))"
  using assms(1)
proof cases
  case (insert ft e r)
  then show ?thesis using open_update_refl[of tb]
    by (auto simp: Insert_def outbox_conflict_def split: option.splits if_splits)
next
  case (claim_id ft oid u st r)
  have "open_update tb (upd_rows (\<lambda>r. ob_ID r = oid \<and> claimable st r) (leased u) tb)"
    by (rule open_updateI) (auto simp: claimable_def leased_def)
  with claim_id show ?thesis using open_update_refl[of tb]
    by (auto simp: ClaimByID_def cas_claim_def split: option.splits if_splits)
next
  case (claim_due f c locked limit due st u r)
  from in_tx_Inr_cases[OF claim_due[unfolded ClaimDue_def]]
  consider "tb' = tb" | out where "r = Inr out" by blast

  then show ?thesis
  proof cases
    case (2 out)
    note res = ClaimDue_result[OF assms(2) claim_due[unfolded 2]]
    have "open_update tb tb'" unfolding res(2)
      by (rule open_update_claim[OF assms(2)]) (use res(4) due_row_open in blast)
    then show ?thesis ..
  qed (simp add: open_update_refl)
next
  case (claim_queued f c locked sess limit u r)
  from in_tx_Inr_cases[OF claim_queued[unfolded claimQueuedForSession_def]]
  consider "tb' = tb" | out where "r = Inr out" by blast

  then show ?thesis
  proof cases
    case (2 out)
    note res = claimQueued_result[OF assms(2) claim_queued[unfolded 2]]
    have "open_update tb tb'" unfolding res(2)
      by (rule open_update_claim[OF assms(2)]) (use res(3) queued_row_open in blast)
    then show ?thesis ..
  qed (simp add: open_update_refl)
next
  case (owner w oid stamp r)
  then have "open_update tb tb'"
    by (cases w) (auto simp: Reschedule_def MarkDispatchPossible_def RecordAcknowledgement_def CompleteOwned_def
        owned_row_def elim!: fenced_update_open)
  then show ?thesis ..
next
  case (clear ft oid stamp r)
  then have "open_update tb tb'"
    by (auto simp: ClearDispatchPossible_def owned_row_def elim!: fenced_update_open)
  then show ?thesis ..
qed

definition table_ok :: "outbox \<Rightarrow> bool" where
  "table_ok tb \<longleftrightarrow> unique_ids tb \<and>
     distinct (map (\<lambda>r. (ob_OrganizationID r, ob_IdempotencyKey r)) (filter (\<lambda>r. ob_IdempotencyKey r \<noteq> None) tb))"

lemma open_update_ok:
  assumes "open_update tb tb'" "table_ok tb"
  shows "table_ok tb'"
proof -
  from assms(1) obtain P g where tb': "tb' = upd_rows P g tb" and
    g: "\<forall>r\<in>set tb. P r \<longrightarrow> ob_ID (g r) = ob_ID r \<and> ob_OrganizationID (g r) = ob_OrganizationID r \<and>
        ob_IdempotencyKey (g r) = ob_IdempotencyKey r"
    unfolding open_update_def by blast
  have "map ob_ID tb' = map ob_ID tb" "map ob_IdempotencyKey tb' = map ob_IdempotencyKey tb"
    "map (\<lambda>r. (ob_OrganizationID r, ob_IdempotencyKey r)) (filter (\<lambda>r. ob_IdempotencyKey r \<noteq> None) tb') =
     map (\<lambda>r. (ob_OrganizationID r, ob_IdempotencyKey r)) (filter (\<lambda>r. ob_IdempotencyKey r \<noteq> None) tb)"
    using g unfolding tb' by (induction tb) auto
  then show ?thesis using assms(2) by (simp add: table_ok_def unique_ids_def)
qed

lemma ostep_table_ok:
  assumes "ostep strip tb tb'" "table_ok tb"
  shows "table_ok tb'"
proof -
  have "unique_ids tb" using assms(2) by (simp add: table_ok_def)
  from ostep_shape[OF assms(1) this] show ?thesis
  proof
    assume "\<exists>e. tb' = tb @ [e] \<and> (\<forall>r\<in>set tb. \<not> outbox_conflict e r)"
    with assms(2) show ?thesis by (fastforce simp: table_ok_def unique_ids_def outbox_conflict_def)
  qed (rule open_update_ok[OF _ assms(2)])
qed

lemma ostep_keeps:
  assumes "ostep strip tb tb'" "unique_ids tb" "r \<in> set tb"
  shows "ob_TerminalAt r \<noteq> None \<Longrightarrow> r \<in> set tb'"
    "\<exists>r'\<in>set tb'. ob_ID r' = ob_ID r \<and> (ob_AcknowledgedAt r \<noteq> None \<longrightarrow> ob_AcknowledgedAt r' \<noteq> None)"
proof -
  have "(ob_TerminalAt r \<noteq> None \<longrightarrow> r \<in> set tb') \<and>
    (\<exists>r'\<in>set tb'. ob_ID r' = ob_ID r \<and> (ob_AcknowledgedAt r \<noteq> None \<longrightarrow> ob_AcknowledgedAt r' \<noteq> None))"
    using ostep_shape[OF assms(1,2)]
  proof
    assume "open_update tb tb'"
    then obtain P g where u: "tb' = upd_rows P g tb" "P r \<longrightarrow> ob_TerminalAt r = None \<and> ob_ID (g r) = ob_ID r \<and>
        (ob_AcknowledgedAt r \<noteq> None \<longrightarrow> ob_AcknowledgedAt (g r) \<noteq> None)"
      using assms(3) unfolding open_update_def by blast
    show ?thesis
    proof (cases "P r")
      case True
      then have "g r \<in> set tb'" unfolding u(1) by (rule in_upd_rows_hit[OF assms(3), where P = P and g = g])
      with u(2) True show ?thesis by auto
    next
      case False
      then have "r \<in> set tb'" unfolding u(1) by (rule in_upd_rows_miss[OF assms(3), where P = P and g = g])
      then show ?thesis by auto
    qed
  qed (use assms(3) in auto)
  then show "ob_TerminalAt r \<noteq> None \<Longrightarrow> r \<in> set tb'"
    "\<exists>r'\<in>set tb'. ob_ID r' = ob_ID r \<and> (ob_AcknowledgedAt r \<noteq> None \<longrightarrow> ob_AcknowledgedAt r' \<noteq> None)" by auto
qed

lemma osteps_table_ok: "(ostep strip)\<^sup>*\<^sup>* tb tb' \<Longrightarrow> table_ok tb \<Longrightarrow> table_ok tb'"
  by (induction rule: rtranclp_induct) (auto intro: ostep_table_ok)

text \<open>Property C21. A settled command is final: whatever inserts, claims and owner writes follow,
  with whatever database faults, a row with a terminal time keeps all its columns; and a
  recorded acknowledgement of WhatsApp is never erased.\<close>

theorem outbox_terminal_forever:
  assumes "table_ok tb" "(ostep strip)\<^sup>*\<^sup>* tb tb'" "r \<in> set tb"
  shows "(ob_TerminalAt r \<noteq> None \<longrightarrow> r \<in> set tb') \<and>
    (ob_AcknowledgedAt r \<noteq> None \<longrightarrow> (\<exists>r'\<in>set tb'. ob_ID r' = ob_ID r \<and> ob_AcknowledgedAt r' \<noteq> None))"
proof -
  have "(ob_TerminalAt r \<noteq> None \<longrightarrow> r \<in> set tb') \<and>
    (\<exists>r'\<in>set tb'. ob_ID r' = ob_ID r \<and> (ob_AcknowledgedAt r \<noteq> None \<longrightarrow> ob_AcknowledgedAt r' \<noteq> None))"
    using assms(2)
  proof (induction rule: rtranclp_induct)
    case base
    then show ?case using assms(3) by auto
  next
    case (step y z)
    have uniq: "unique_ids y" using osteps_table_ok[OF step.hyps(1) assms(1)] by (simp add: table_ok_def)
    note keep = ostep_keeps[OF step.hyps(2) uniq]
    from step.IH obtain r' where r': "r' \<in> set y" "ob_ID r' = ob_ID r"
      "ob_AcknowledgedAt r \<noteq> None \<longrightarrow> ob_AcknowledgedAt r' \<noteq> None" by blast
    obtain r'' where "r'' \<in> set z" "ob_ID r'' = ob_ID r'" "ob_AcknowledgedAt r' \<noteq> None \<longrightarrow> ob_AcknowledgedAt r'' \<noteq> None"
      using keep(2)[OF r'(1)] by blast
    with r' step.IH keep(1) show ?case by auto
  qed
  then show ?thesis by blast
qed

text \<open>An idempotency key names one command of an organisation for good: after any
  history, an insert that repeats the key of a stored row is refused without changing the
  table, and a lookup by the key returns that row.\<close>

theorem outbox_idempotency:
  assumes "table_ok tb0" "(ostep strip)\<^sup>*\<^sup>* tb0 tb" "r \<in> set tb" "ob_IdempotencyKey r = Some k"
    "ob_IdempotencyKey e = Some k" "ob_OrganizationID e = ob_OrganizationID r"
  shows "Insert None e tb = (tb, Inl (Wrapped ''store: insert outbox'' ErrDuplicate)) \<and>
    GetByIdempotency None (ob_OrganizationID r) k tb = Inr r"
proof -
  have conf: "outbox_conflict e r" using assms(4-6) by (simp add: outbox_conflict_def)
  have d: "distinct (map (\<lambda>r. (ob_OrganizationID r, ob_IdempotencyKey r)) (filter (\<lambda>r. ob_IdempotencyKey r \<noteq> None) tb))"
    using osteps_table_ok[OF assms(2,1)] by (simp add: table_ok_def)
  have "find (\<lambda>x. ob_OrganizationID x = ob_OrganizationID r \<and> ob_IdempotencyKey x = Some k) tb = Some r"
    using d assms(3,4)
  proof (induction tb)
    case (Cons x tb)
    show ?case
    proof (cases "ob_OrganizationID x = ob_OrganizationID r \<and> ob_IdempotencyKey x = Some k")
      case True
      then have "r \<notin> set tb" using Cons.prems(1) assms(4) by (force simp: rev_image_eqI)
      with True Cons.prems(2) show ?thesis by auto
    next
      case False
      with Cons show ?thesis by (auto split: if_splits)
    qed
  qed simp
  then show ?thesis using conf assms(3) by (auto simp: Insert_def GetByIdempotency_def)
qed

text \<open>A worker that lost its lease changes nothing: unless the row is still a
  sending lease stamped with its claim time, no sequence of its writes (reschedule, mark
  dispatch, acknowledge, complete) has any effect and each reports the loss.\<close>

theorem lost_lease_writes_nothing:
  assumes "unique_ids tb" "\<not> holds_lease oid stamp tb"
  shows "fold (\<lambda>w tb. fst (owner_write_op strip w oid stamp tb)) ws tb = tb \<and>
    owner_write_op strip w oid stamp tb = (tb, Inr False)"
proof -
  have one: "owner_write_op strip v oid stamp tb = (tb, Inr False)" for v
    using owned_row_lost[OF assms]
    by (cases v) (simp_all add: Reschedule_def MarkDispatchPossible_def RecordAcknowledgement_def CompleteOwned_def
        fenced_update_def upd_rows_id)
  have "owner_apply strip v oid stamp tb = (fst (owner_write_op strip v oid stamp tb), False)" for v
    using outbox_lease.lost[OF assms(2), of strip v] one by simp
  have "fold (\<lambda>w tb. fst (owner_write_op strip w oid stamp tb)) ws tb = tb" by (induction ws) (simp_all add: one)
  with one show ?thesis by blast
qed

section \<open>Witnesses\<close>

definition demo_row :: outbox_entry where
  "demo_row = \<lparr>ob_ID = ''ob1'', ob_OrganizationID = ''org'', ob_SessionID = ''s'', ob_IdempotencyKey = Some ''k'',
     ob_Payload = ''{}'', ob_Status = OutboxQueued, ob_Attempts = 0, ob_NextAttemptAt = 0, ob_ExpiresAt = None,
     ob_AcknowledgedAt = None, ob_EffectPossible = False, ob_WAMessageID = None, ob_Error = None,
     ob_TerminalAt = None, ob_CreatedAt = 1, ob_UpdatedAt = 1\<rparr>"

lemma demo_table: "unique_ids [demo_row]" "table_ok [demo_row]" "unique_ids [leased 10 demo_row]"
  by (simp_all add: unique_ids_def table_ok_def)

lemma demo_claim: "ClaimDue no_faults None (\<lambda>_. False) 5 10 0 10 [demo_row] = ([leased 10 demo_row], Inr [leased 10 demo_row])"
  by code_simp

lemma demo_claim_again: "ClaimDue no_faults None (\<lambda>_. False) 5 20 9 20 [leased 10 demo_row] = ([leased 10 demo_row], Inr [])"
  by code_simp

theorem ClaimDue_correct_witness: "[leased 10 demo_row] = upd_rows (\<lambda>r. ob_ID r \<in> ob_ID ` {leased 10 demo_row}) (leased 10) [demo_row]"
  using ClaimDue_correct[OF demo_table(1) demo_claim] by simp

theorem ClaimDue_disjoint_witness: "ob_ID ` set [leased 10 demo_row] \<inter> ob_ID ` set ([] :: outbox) = {}"
  using ClaimDue_disjoint[OF demo_table(1) demo_claim demo_claim_again] by simp

definition demo_sent :: outbox_entry where
  "demo_sent = demo_row\<lparr>ob_Status := OutboxSent, ob_TerminalAt := Some 12\<rparr>"

theorem outbox_terminal_forever_witness: "demo_sent \<in> set (fst (Insert None (demo_row\<lparr>ob_ID := ''ob2''\<rparr>) [demo_sent]))"
  using outbox_terminal_forever[of "[demo_sent]" "\<lambda>x. x" "fst (Insert None (demo_row\<lparr>ob_ID := ''ob2''\<rparr>) [demo_sent])" demo_sent]
    r_into_rtranclp[of "ostep (\<lambda>x. x)", OF ostep.insert[of None "demo_row\<lparr>ob_ID := ''ob2''\<rparr>" "[demo_sent]" _ _ "\<lambda>x. x", OF prod.collapse[symmetric]]]
  by (simp add: table_ok_def unique_ids_def demo_sent_def)

theorem outbox_idempotency_witness:
  "GetByIdempotency None ''org'' ''k'' [demo_row] = Inr demo_row"
  using outbox_idempotency[OF demo_table(2) rtranclp.rtrancl_refl[of "ostep (\<lambda>x. x)"], of demo_row "''k''" demo_row]
  by (simp add: demo_row_def)

theorem lost_lease_writes_nothing_witness:
  "owner_write_op (\<lambda>x. x) WMark ''ob1'' 9 [leased 10 demo_row] = ([leased 10 demo_row], Inr False)"
  using lost_lease_writes_nothing[OF demo_table(3), of "''ob1''" 9 "\<lambda>x. x" "[]" WMark]
  by (simp add: holds_lease_def owned_row_def)

end
