(* ===== verification/SendValidate.thy ===== *)
theory SendValidate
  imports Gw_Prelude Complex_Main
begin

text \<open>
  The send request body (src/backend/internal/domain/send.go) and the gate every send and
  message operation passes before it becomes a durable command
  (src/backend/internal/wa/outbound/validate.go). Strings are the UTF-8 bytes of decoded
  JSON, which is valid UTF-8 and carries only finite numbers. \<open>net/url.Parse\<close> is a
  parameter that yields the scheme, the host and whether there is user information.
\<close>

section \<open>Requests\<close>

record media_payload =
  mp_Data :: string
  mp_URL :: string
  mp_Mimetype :: string
  mp_Caption :: string
  mp_Filename :: string

record album_media =
  am_Type :: string
  am_Data :: string
  am_URL :: string
  am_Mimetype :: string

record contact_card =
  cc_Name :: string
  cc_Phone :: string
  cc_VCard :: string

record reply_button =
  rb_Kind :: string
  rb_ID :: string
  rb_Title :: string
  rb_URL :: string
  rb_Code :: string

record list_row =
  lr_ID :: string
  lr_Title :: string
  lr_Description :: string

record list_section =
  lsec_Title :: string
  lsec_Rows :: "list_row list"

record selection_list =
  sl_Title :: string
  sl_Sections :: "list_section list"

record send_request =
  rq_Type :: string
  rq_To :: string
  rq_ExpiresAt :: "int option"
  rq_Text :: string
  rq_ReplyTo :: string
  rq_Mentions :: "string list"
  rq_Buttons :: "reply_button list"
  rq_List :: "selection_list option"
  rq_Footer :: string
  rq_HeaderImage :: "media_payload option"
  rq_Name :: string
  rq_Options :: "string list"
  rq_SelectableCount :: int
  rq_PollEndTime :: int
  rq_PollHideVotes :: bool
  rq_Latitude :: real
  rq_Longitude :: real
  rq_Contact :: "contact_card option"
  rq_Media :: "media_payload option"
  rq_Medias :: "album_media list"
  rq_Caption :: string

definition SendTypeButtons :: string where "SendTypeButtons = ''buttons''"
definition SendTypeList :: string where "SendTypeList = ''list''"
definition SendTypeText :: string where "SendTypeText = ''text''"
definition SendTypePoll :: string where "SendTypePoll = ''poll''"
definition SendTypeLocation :: string where "SendTypeLocation = ''location''"
definition SendTypeContact :: string where "SendTypeContact = ''contact''"
definition SendTypeImage :: string where "SendTypeImage = ''image''"
definition SendTypeVideo :: string where "SendTypeVideo = ''video''"
definition SendTypeAudio :: string where "SendTypeAudio = ''audio''"
definition SendTypeDocument :: string where "SendTypeDocument = ''document''"
definition SendTypeSticker :: string where "SendTypeSticker = ''sticker''"
definition SendTypeAlbum :: string where "SendTypeAlbum = ''album''"

lemmas send_types = SendTypeButtons_def SendTypeList_def SendTypeText_def SendTypePoll_def SendTypeLocation_def
  SendTypeContact_def SendTypeImage_def SendTypeVideo_def SendTypeAudio_def SendTypeDocument_def
  SendTypeSticker_def SendTypeAlbum_def

definition media_types :: "string list" where
  "media_types = [SendTypeImage, SendTypeVideo, SendTypeAudio, SendTypeDocument, SendTypeSticker]"

section \<open>Text\<close>

text \<open>\<open>strings.TrimSpace(s) == ""\<close>: only white space of Unicode, in UTF-8.\<close>

fun blank_bytes :: "nat list \<Rightarrow> bool" where
  "blank_bytes [] = True"
| "blank_bytes (a # b # c # bs) =
     (if (9 \<le> a \<and> a \<le> 13) \<or> a = 32 then blank_bytes (b # c # bs)
      else if a = 194 \<and> (b = 133 \<or> b = 160) then blank_bytes (c # bs)
      else if a = 225 \<and> b = 154 \<and> c = 128 then blank_bytes bs
      else if a = 226 \<and> b = 128 \<and> ((128 \<le> c \<and> c \<le> 138) \<or> c = 168 \<or> c = 169 \<or> c = 175) then blank_bytes bs
      else if a = 226 \<and> b = 129 \<and> c = 159 then blank_bytes bs
      else if a = 227 \<and> b = 128 \<and> c = 128 then blank_bytes bs
      else False)"
| "blank_bytes [a, b] =
     (if (9 \<le> a \<and> a \<le> 13) \<or> a = 32 then blank_bytes [b] else a = 194 \<and> (b = 133 \<or> b = 160))"
| "blank_bytes [a] = ((9 \<le> a \<and> a \<le> 13) \<or> a = 32)"

definition blank :: "string \<Rightarrow> bool" where
  "blank s = blank_bytes (map of_char s)"

text \<open>\<open>utf8.RuneCountInString\<close> of valid UTF-8: the bytes that are not continuation bytes.\<close>

definition rune_count :: "string \<Rightarrow> nat" where
  "rune_count s = length (filter (\<lambda>c. \<not> (128 \<le> (of_char c :: nat) \<and> (of_char c :: nat) < 192)) s)"

definition quoted :: "string \<Rightarrow> string" where
  "quoted s = [char_of (39::nat)] @ s @ [char_of (39::nat)]"

definition approxDecodedLen :: "string \<Rightarrow> nat" where
  "approxDecodedLen b64 = length b64 div 4 * 3"

definition MaxMediaBytes :: nat where "MaxMediaBytes = 16 * 1024 * 1024"
definition MinAlbumItems :: nat where "MinAlbumItems = 2"
definition MaxAlbumItems :: nat where "MaxAlbumItems = 10"
definition MaxAlbumBytes :: nat where "MaxAlbumBytes = 64 * 1024 * 1024"
definition MaxReplyButtons :: nat where "MaxReplyButtons = 3"
definition MaxReplyButtonTitleRunes :: nat where "MaxReplyButtonTitleRunes = 20"
definition MaxInteractiveActionBytes :: nat where "MaxInteractiveActionBytes = 32 * 1024"

record parsed_url =
  pu_Scheme :: string
  pu_Host :: string
  pu_User :: bool

type_synonym url_parser = "string \<Rightarrow> parsed_url option"

definition http_url :: "url_parser \<Rightarrow> string \<Rightarrow> bool" where
  "http_url up u = (case up u of None \<Rightarrow> False
     | Some p \<Rightarrow> pu_Host p \<noteq> [] \<and> (pu_Scheme p = ''http'' \<or> pu_Scheme p = ''https''))"

section \<open>Interactive messages\<close>

text \<open>The closure \<open>check\<close>: \<open>ids\<close> are the selection ids seen so far.\<close>

definition check_selection :: "string list \<Rightarrow> string \<Rightarrow> string \<Rightarrow> string list result" where
  "check_selection ids sid title =
     (if blank sid \<or> blank title then Inl (ErrValidation ''selection id and title are required'')
      else if sid \<in> set ids then Inl (ErrValidation ''selection ids must be unique'')
      else Inr (sid # ids))"

definition check_button :: "url_parser \<Rightarrow> string list \<Rightarrow> reply_button \<Rightarrow> string list result" where
  "check_button up ids button =
     (if blank (rb_Title button) then Inl (ErrValidation ''button title is required'')
      else if rune_count (rb_Title button) > MaxReplyButtonTitleRunes
      then Inl (ErrValidation ''button title must be at most 20 characters'')
      else if rb_Kind button = [] \<or> rb_Kind button = ''reply''
      then check_selection ids (rb_ID button) (rb_Title button)
      else if rb_Kind button = ''url''
      then (if length (rb_URL button) > MaxInteractiveActionBytes
            then Inl (ErrValidation ''url button URL must be at most 32768 UTF-8 bytes'')
            else case up (rb_URL button) of
              None \<Rightarrow> Inl (ErrValidation ''url button requires an HTTPS url'')
            | Some u \<Rightarrow> if pu_Scheme u \<noteq> ''https'' \<or> pu_Host u = [] \<or> pu_User u
                then Inl (ErrValidation ''url button requires an HTTPS url'') else Inr ids)
      else if rb_Kind button = ''copy''
      then (if blank (rb_Code button) then Inl (ErrValidation ''copy button requires code'')
            else if length (rb_Code button) > MaxInteractiveActionBytes
            then Inl (ErrValidation ''copy button code must be at most 32768 UTF-8 bytes'')
            else Inr ids)
      else Inl (ErrValidation ''button kind must be reply, url, or copy''))"

fun check_buttons :: "url_parser \<Rightarrow> string list \<Rightarrow> reply_button list \<Rightarrow> string list result" where
  "check_buttons up ids [] = Inr ids"
| "check_buttons up ids (b # bs) = bindr (check_button up ids b) (\<lambda>ids'. check_buttons up ids' bs)"

fun check_rows :: "string list \<Rightarrow> list_row list \<Rightarrow> string list result" where
  "check_rows ids [] = Inr ids"
| "check_rows ids (r # rs) = bindr (check_selection ids (lr_ID r) (lr_Title r)) (\<lambda>ids'. check_rows ids' rs)"

fun check_sections :: "string list \<Rightarrow> list_section list \<Rightarrow> string list result" where
  "check_sections ids [] = Inr ids"
| "check_sections ids (s # ss) =
     (if lsec_Rows s = [] then Inl (ErrValidation ''list sections require rows'')
      else bindr (check_rows ids (lsec_Rows s)) (\<lambda>ids'. check_sections ids' ss))"

definition is_prefix :: "string \<Rightarrow> string \<Rightarrow> bool" where
  "is_prefix p s = (take (length p) s = p)"

definition check_header :: "url_parser \<Rightarrow> media_payload \<Rightarrow> unit result" where
  "check_header up h =
     (if blank (mp_Data h) = blank (mp_URL h)
      then Inl (ErrValidation ''headerImage requires exactly one of data or url'')
      else if mp_Mimetype h \<noteq> [] \<and> \<not> is_prefix ''image/'' (mp_Mimetype h)
      then Inl (ErrValidation ''headerImage mimetype must be image/*'')
      else if mp_Data h \<noteq> [] \<and> approxDecodedLen (mp_Data h) > MaxMediaBytes
      then Inl (ErrValidation (''headerImage exceeds the '' @ show_nat MaxMediaBytes @ '' byte limit''))
      else if mp_URL h \<noteq> [] \<and> \<not> http_url up (mp_URL h)
      then Inl (ErrValidation ''headerImage.url must be a valid http(s) URL'')
      else Inr ())"

definition validateInteractive :: "url_parser \<Rightarrow> send_request \<Rightarrow> unit result" where
  "validateInteractive up req =
     (if blank (rq_Text req) then Inl (ErrValidation ''text is required for interactive messages'')
      else if rq_Type req = SendTypeButtons
      then (if rq_Buttons req = [] \<or> rq_List req \<noteq> None
            then Inl (ErrValidation ''buttons requires choices and cannot include list'')
            else if length (rq_Buttons req) > MaxReplyButtons
            then Inl (ErrValidation ''buttons supports at most 3 choices'')
            else bindr (check_buttons up [] (rq_Buttons req)) (\<lambda>_.
              case rq_HeaderImage req of None \<Rightarrow> Inr () | Some h \<Rightarrow> check_header up h))
      else if rq_HeaderImage req \<noteq> None
      then Inl (ErrValidation ''headerImage is only supported for buttons'')
      else case rq_List req of
        None \<Rightarrow> Inl (ErrValidation ''list requires a menu and cannot include buttons'')
      | Some l \<Rightarrow>
          if rq_Buttons req \<noteq> [] then Inl (ErrValidation ''list requires a menu and cannot include buttons'')
          else if blank (sl_Title l) \<or> sl_Sections l = []
          then Inl (ErrValidation ''list title and sections are required'')
          else bindr (check_sections [] (sl_Sections l)) (\<lambda>_. Inr ()))"

section \<open>Requests by type\<close>

fun check_album :: "url_parser \<Rightarrow> nat \<Rightarrow> nat \<Rightarrow> album_media list \<Rightarrow> nat result" where
  "check_album up i tot [] = Inr tot"
| "check_album up i tot (m # ms) =
     (let ty = (if am_Type m = [] then SendTypeImage else am_Type m);
          hasData = (\<not> blank (am_Data m)); hasURL = (\<not> blank (am_URL m));
          idx = ''medias['' @ show_nat i @ '']'' in
      if ty \<noteq> SendTypeImage \<and> ty \<noteq> SendTypeVideo
      then Inl (ErrValidation (idx @ ''.type must be image or video''))
      else if hasData = hasURL
      then Inl (ErrValidation (''provide exactly one of '' @ idx @ ''.data or '' @ idx @ ''.url''))
      else if hasData \<and> approxDecodedLen (am_Data m) > MaxMediaBytes
      then Inl (ErrValidation (idx @ '' exceeds the '' @ show_nat MaxMediaBytes @ '' byte item limit''))
      else if hasURL \<and> \<not> http_url up (am_URL m)
      then Inl (ErrValidation (idx @ ''.url must be a valid http(s) URL''))
      else check_album up (Suc i) (if hasData then tot + approxDecodedLen (am_Data m) else tot) ms)"

definition check_media :: "url_parser \<Rightarrow> string \<Rightarrow> media_payload option \<Rightarrow> unit result" where
  "check_media up ty media =
     (case media of
        None \<Rightarrow> Inl (ErrValidation (''media is required for type '' @ quoted ty))
      | Some m \<Rightarrow>
          (let hasData = (\<not> blank (mp_Data m)); hasURL = (\<not> blank (mp_URL m)) in
           if hasData = hasURL
           then Inl (ErrValidation (''provide exactly one of media.data or media.url for type '' @ quoted ty))
           else if hasData \<and> approxDecodedLen (mp_Data m) > MaxMediaBytes
           then Inl (ErrValidation (''media exceeds the '' @ show_nat MaxMediaBytes @ '' byte limit''))
           else if hasURL \<and> \<not> http_url up (mp_URL m)
           then Inl (ErrValidation ''media.url must be a valid http(s) URL'')
           else Inr ()))"

definition validateRequest :: "url_parser \<Rightarrow> send_request \<Rightarrow> unit result" where
  "validateRequest up req =
     (let ty = rq_Type req; bad = (\<lambda>m. Inl (ErrValidation m)) in
      if ty = [] then bad ''send type is required''
      else if rq_To req = [] then bad (''recipient '' @ quoted ''to'' @ '' is required'')
      else if ty = SendTypeButtons \<or> ty = SendTypeList then validateInteractive up req
      else if ty = SendTypeText
      then (if rq_Text req = [] then bad (''text is required for type '' @ quoted ''text'') else Inr ())
      else if ty = SendTypePoll
      then (if rq_Name req = [] then bad (''name is required for type '' @ quoted ''poll'')
            else if length (rq_Options req) < 2 then bad ''poll requires at least 2 options''
            else if rq_SelectableCount req < 0 \<or> rq_SelectableCount req > int (length (rq_Options req))
            then bad ''selectableCount must be between 0 and the number of options''
            else if rq_PollEndTime req < 0 then bad ''pollEndTime must be a positive epoch millisecond timestamp''
            else Inr ())
      else if ty = SendTypeLocation
      then (if rq_Latitude req < -90 \<or> rq_Latitude req > 90 then bad ''latitude must be between -90 and 90''
            else if rq_Longitude req < -180 \<or> rq_Longitude req > 180
            then bad ''longitude must be between -180 and 180'' else Inr ())
      else if ty = SendTypeContact
      then (case rq_Contact req of
              None \<Rightarrow> bad (''contact is required for type '' @ quoted ''contact'')
            | Some c \<Rightarrow> if cc_VCard c = [] \<and> (cc_Name c = [] \<or> cc_Phone c = [])
                then bad ''contact requires either a vcard or both name and phone'' else Inr ())
      else if ty \<in> set media_types then check_media up ty (rq_Media req)
      else if ty = SendTypeAlbum
      then (if length (rq_Medias req) < MinAlbumItems \<or> length (rq_Medias req) > MaxAlbumItems
            then bad (''album requires between '' @ show_nat MinAlbumItems @ '' and '' @ show_nat MaxAlbumItems @ '' medias'')
            else bindr (check_album up 0 0 (rq_Medias req)) (\<lambda>tot.
              if tot > MaxAlbumBytes
              then bad (''album exceeds the '' @ show_nat MaxAlbumBytes @ '' byte aggregate limit'') else Inr ()))
      else bad (''unknown send type '' @ go_quote ty))"

definition Validate :: "url_parser \<Rightarrow> send_request \<Rightarrow> unit result" where
  "Validate up req = validateRequest up req"

section \<open>Message operations\<close>

text \<open>The type \<open>MessageOp\<close> is a string; the constants are the known operations.\<close>

definition OpReaction :: string where "OpReaction = ''reaction''"
definition OpEdit :: string where "OpEdit = ''edit''"
definition OpRevoke :: string where "OpRevoke = ''revoke''"
definition OpVote :: string where "OpVote = ''vote''"
definition OpForward :: string where "OpForward = ''forward''"

lemmas op_types = OpReaction_def OpEdit_def OpRevoke_def OpVote_def OpForward_def

record op_request =
  oq_Op :: string
  oq_ExpiresAt :: "int option"
  oq_IdempotencyKey :: string
  oq_Chat :: string
  oq_Sender :: string
  oq_MsgID :: string
  oq_Emoji :: string
  oq_NewText :: string
  oq_Options :: "string list"
  oq_To :: string

definition validateOp :: "op_request \<Rightarrow> unit result" where
  "validateOp req =
     (let bad = (\<lambda>m. Inl (ErrValidation m)) in
      if oq_MsgID req = [] then bad ''target message id is required''
      else if oq_Chat req = [] then bad ''chat is required''
      else if oq_Op req = OpReaction then Inr ()
      else if oq_Op req = OpEdit
      then (if oq_NewText req = [] then bad ''newText is required for edit'' else Inr ())
      else if oq_Op req = OpRevoke then Inr ()
      else if oq_Op req = OpVote
      then (if oq_Options req = [] then bad ''at least one option is required for vote'' else Inr ())
      else if oq_Op req = OpForward
      then (if oq_To req = [] then bad (''destination '' @ quoted ''to'' @ '' is required for forward'') else Inr ())
      else bad (''unknown message op '' @ go_quote (oq_Op req)))"

definition ValidateOp :: "op_request \<Rightarrow> unit result" where
  "ValidateOp req = validateOp req"

definition isOpType :: "string \<Rightarrow> bool" where
  "isOpType t \<longleftrightarrow> t = OpReaction \<or> t = OpEdit \<or> t = OpRevoke \<or> t = OpVote \<or> t = OpForward"

section \<open>Properties\<close>

lemma check_selection_ids:
  "check_selection ids s t = Inr ids' \<Longrightarrow> distinct ids \<Longrightarrow> distinct ids' \<and> ids' = s # ids \<and> \<not> blank s"
  by (auto simp: check_selection_def split: if_splits)

lemma check_rows_ids:
  "check_rows ids rs = Inr ids' \<Longrightarrow> distinct ids \<Longrightarrow>
     distinct ids' \<and> ids' = rev (map lr_ID rs) @ ids \<and> (\<forall>r\<in>set rs. \<not> blank (lr_ID r))"
proof (induction rs arbitrary: ids)
  case (Cons r rs)
  then obtain ids1 where "check_selection ids (lr_ID r) (lr_Title r) = Inr ids1" "check_rows ids1 rs = Inr ids'" by auto
  with Cons.IH[of ids1] Cons.prems(2) check_selection_ids show ?case by fastforce
qed simp

lemma check_sections_ids:
  "check_sections ids ss = Inr ids' \<Longrightarrow> distinct ids \<Longrightarrow>
     distinct ids' \<and> ids' = rev (map lr_ID (concat (map lsec_Rows ss))) @ ids"
proof (induction ss arbitrary: ids)
  case (Cons s ss)
  then obtain ids1 where "check_rows ids (lsec_Rows s) = Inr ids1" "check_sections ids1 ss = Inr ids'"
    by (auto split: if_splits)
  then have "distinct ids'" "ids' = rev (map lr_ID (concat (map lsec_Rows ss))) @ rev (map lr_ID (lsec_Rows s)) @ ids"
    using Cons.IH[of ids1] Cons.prems(2) check_rows_ids[of ids "lsec_Rows s" ids1] by blast+
  then show ?case by simp
qed simp

definition is_reply :: "reply_button \<Rightarrow> bool" where
  "is_reply b \<longleftrightarrow> rb_Kind b = [] \<or> rb_Kind b = ''reply''"

lemma check_buttons_ids:
  "check_buttons up ids bs = Inr ids' \<Longrightarrow> distinct ids \<Longrightarrow>
     distinct ids' \<and> ids' = rev (map rb_ID (filter is_reply bs)) @ ids"
proof (induction bs arbitrary: ids)
  case (Cons b bs)
  then obtain ids1 where b: "check_button up ids b = Inr ids1" "check_buttons up ids1 bs = Inr ids'" by auto
  have "distinct ids1 \<and> ids1 = (if is_reply b then rb_ID b # ids else ids)"
    using b(1) Cons.prems(2) check_selection_ids[of ids "rb_ID b" "rb_Title b" ids1]
    by (auto simp: check_button_def is_reply_def split: if_splits option.splits)
  with Cons.IH[OF b(2)] have "distinct ids'" "ids' = rev (map rb_ID (filter is_reply bs)) @ (if is_reply b then rb_ID b # ids else ids)"
    by blast+
  then show ?case by simp
qed simp

text \<open>Selections are unambiguous: in an accepted button or list message the reply
  ids, over all sections of a list, are pairwise different, and there are at most three
  buttons.\<close>

theorem accepted_selection_ids_distinct:
  assumes "Validate up req = Inr ()"
  shows "(rq_Type req = SendTypeButtons \<longrightarrow> length (rq_Buttons req) \<le> 3 \<and>
      distinct (map rb_ID (filter is_reply (rq_Buttons req)))) \<and>
    (rq_Type req = SendTypeList \<longrightarrow> (\<exists>l. rq_List req = Some l \<and>
      distinct (map lr_ID (concat (map lsec_Rows (sl_Sections l))))))"
proof -
  have "rq_Type req = SendTypeButtons \<or> rq_Type req = SendTypeList \<Longrightarrow> validateInteractive up req = Inr ()"
    using assms by (auto simp: Validate_def validateRequest_def Let_def split: if_splits)
  then show ?thesis
    using check_buttons_ids[of up "[]" "rq_Buttons req"] check_sections_ids[of "[]"]
    by (auto simp: validateInteractive_def send_types MaxReplyButtons_def distinct_rev split: if_splits option.splits) fastforce+
qed

lemma check_album_total:
  "check_album up i t ms = Inr t' \<Longrightarrow>
     t' = t + sum_list (map (\<lambda>m. if blank (am_Data m) then 0 else approxDecodedLen (am_Data m)) ms) \<and>
     (\<forall>m\<in>set ms. \<not> blank (am_Data m) \<longrightarrow> approxDecodedLen (am_Data m) \<le> MaxMediaBytes)"
proof (induction ms arbitrary: i t)
  case (Cons m ms)
  let ?n = "if blank (am_Data m) then 0 else approxDecodedLen (am_Data m)"
  have "check_album up (Suc i) (t + ?n) ms = Inr t'" "\<not> blank (am_Data m) \<longrightarrow> approxDecodedLen (am_Data m) \<le> MaxMediaBytes"
    using Cons.prems by (auto simp: Let_def split: if_splits)
  with Cons.IH[of "Suc i" "t + ?n"] show ?case by simp
qed simp

text \<open>Accepted albums respect the media budgets: two to ten items, inline items of at
  most 16 MiB decoded each and at most 64 MiB together.\<close>

theorem accepted_album_budget:
  assumes "Validate up req = Inr ()" "rq_Type req = SendTypeAlbum"
  shows "2 \<le> length (rq_Medias req) \<and> length (rq_Medias req) \<le> 10 \<and>
    (\<forall>m\<in>set (rq_Medias req). \<not> blank (am_Data m) \<longrightarrow> approxDecodedLen (am_Data m) \<le> 16777216) \<and>
    sum_list (map (\<lambda>m. if blank (am_Data m) then 0 else approxDecodedLen (am_Data m)) (rq_Medias req)) \<le> 67108864"
  using assms check_album_total[of up 0 0 "rq_Medias req"]
  by (auto simp: Validate_def validateRequest_def Let_def send_types media_types_def MinAlbumItems_def MaxAlbumItems_def
      MaxAlbumBytes_def MaxMediaBytes_def split: if_splits)

text \<open>Sends and message operations are disjoint: no request that passes \<open>Validate\<close> has
  an operation type, and every operation that passes \<open>ValidateOp\<close> has one, so the stored
  payload alone tells them apart.\<close>

theorem send_and_op_types_disjoint:
  "(Validate up req = Inr () \<longrightarrow> \<not> isOpType (rq_Type req)) \<and> (ValidateOp oreq = Inr () \<longrightarrow> isOpType (oq_Op oreq))"
  by (auto simp: Validate_def validateRequest_def Let_def isOpType_def op_types send_types media_types_def
      ValidateOp_def validateOp_def split: if_splits)

section \<open>Witnesses\<close>

definition demo_text :: send_request where
  "demo_text = \<lparr>rq_Type = ''text'', rq_To = ''628@s.whatsapp.net'', rq_ExpiresAt = None, rq_Text = ''hi'', rq_ReplyTo = [],
     rq_Mentions = [], rq_Buttons = [], rq_List = None, rq_Footer = [], rq_HeaderImage = None, rq_Name = [],
     rq_Options = [], rq_SelectableCount = 0, rq_PollEndTime = 0, rq_PollHideVotes = False, rq_Latitude = 0,
     rq_Longitude = 0, rq_Contact = None, rq_Media = None, rq_Medias = [], rq_Caption = []\<rparr>"

definition demo_button :: "string \<Rightarrow> reply_button" where
  "demo_button i = \<lparr>rb_Kind = [], rb_ID = i, rb_Title = ''ok'', rb_URL = [], rb_Code = []\<rparr>"

definition demo_buttons :: send_request where
  "demo_buttons = demo_text\<lparr>rq_Type := ''buttons'', rq_Buttons := [demo_button ''a'', demo_button ''b'']\<rparr>"

definition demo_album :: send_request where
  "demo_album = demo_text\<lparr>rq_Type := ''album'', rq_Medias :=
     [\<lparr>am_Type = [], am_Data = ''aaaa'', am_URL = [], am_Mimetype = []\<rparr>,
      \<lparr>am_Type = ''video'', am_Data = ''bbbb'', am_URL = [], am_Mimetype = []\<rparr>]\<rparr>"

definition no_urls :: url_parser where "no_urls = (\<lambda>_. None)"

lemma demo_valid: "Validate no_urls demo_text = Inr ()" "Validate no_urls demo_buttons = Inr ()"
  "Validate no_urls demo_album = Inr ()"
  by (simp_all add: Validate_def validateRequest_def validateInteractive_def demo_text_def demo_buttons_def demo_album_def
      send_types media_types_def demo_button_def check_button_def check_selection_def blank_def rune_count_def
      MaxReplyButtons_def MaxReplyButtonTitleRunes_def MinAlbumItems_def MaxAlbumItems_def MaxAlbumBytes_def
      MaxMediaBytes_def approxDecodedLen_def Let_def)

theorem accepted_selection_ids_distinct_witness: "distinct (map rb_ID (filter is_reply (rq_Buttons demo_buttons)))"
  using accepted_selection_ids_distinct[OF demo_valid(2)] by (simp add: demo_buttons_def SendTypeButtons_def)

theorem accepted_album_budget_witness:
  "sum_list (map (\<lambda>m. if blank (am_Data m) then 0 else approxDecodedLen (am_Data m)) (rq_Medias demo_album)) \<le> 67108864"
  using accepted_album_budget[OF demo_valid(3)] by (simp add: demo_album_def SendTypeAlbum_def)

theorem send_and_op_types_disjoint_witness: "\<not> isOpType (rq_Type demo_text)"
  using send_and_op_types_disjoint[of no_urls demo_text undefined] demo_valid(1) by blast

end
