(* ===== verification/Scheduler.thy ===== *)
theory Scheduler
  imports Outbox SendValidate
begin

text \<open>
  The API-owned send pipeline (src/backend/internal/service/outbound_scheduler.go): admission
  of sends and message operations as durable outbox commands, dispatch of one leased
  command through the private engine, retry with backoff, expiry, acknowledgement and
  projection, and the idempotent replay of a stored command. The session store, the rate
  limiter, the engine, the recorder and the publisher answer through the record \<open>world\<close>;
  the outbox is the table of theory \<open>Outbox\<close>. Clock readings and database faults are
  numbered by the call site, in the order of the source.
\<close>

section \<open>Configuration\<close>

record scheduler_config =
  cf_Lease :: duration
  cf_Batch :: int
  cf_Poll :: duration
  cf_MaxAttempts :: int
  cf_BackoffBase :: duration
  cf_BackoffCap :: duration
  cf_hasNow :: bool

definition normalize_config :: "scheduler_config \<Rightarrow> go_err option" where
  "normalize_config c =
     (if cf_Lease c \<le> 0 then Some (Plain ''outbound scheduler lease must be positive'')
      else if cf_Batch c \<le> 0 then Some (Plain ''outbound scheduler batch must be positive'')
      else if cf_Poll c \<le> 0 then Some (Plain ''outbound scheduler poll must be positive'')
      else if cf_MaxAttempts c \<le> 0 then Some (Plain ''outbound scheduler max attempts must be positive'')
      else if cf_BackoffBase c \<le> 0 \<or> cf_BackoffCap c < cf_BackoffBase c
      then Some (Plain ''outbound scheduler backoff base/cap invalid'')
      else if \<not> cf_hasNow c then Some (Plain ''outbound scheduler clock is required'')
      else None)"

section \<open>The surroundings\<close>

record session_info =
  wi_ID :: string
  wi_OrganizationID :: string
  wi_RatePerMin :: int
  wi_RatePerHour :: int

record engine_result =
  er_WAMessageID :: string
  er_SentAt :: gotime
  er_PreparedPayload :: "send_request option"

datatype message_status = MessageStatusNone | MessageSent | MessageFailed | MessageUnknown
datatype send_mode = ModeNone | ModeSync | ModeAsync

record send_outcome =
  so_Mode :: send_mode
  so_OutboxID :: string
  so_WAMessageID :: string
  so_Status :: message_status
  so_Timestamp :: int
  so_Replayed :: bool
  so_ReservedMessageIDs :: "string list"

definition no_outcome :: send_outcome where
  "no_outcome = \<lparr>so_Mode = ModeNone, so_OutboxID = [], so_WAMessageID = [], so_Status = MessageStatusNone,
     so_Timestamp = 0, so_Replayed = False, so_ReservedMessageIDs = []\<rparr>"

record media_meta =
  mm_Mimetype :: string
  mm_Size :: int
  mm_Filename :: string

record sent_message =
  sm_SessionID :: string
  sm_WAMessageID :: string
  sm_ChatJID :: string
  sm_Type :: string
  sm_Body :: string
  sm_ReplyTo :: string
  sm_Mentions :: "string list"
  sm_HasMedia :: bool
  sm_MediaMeta :: "media_meta option"
  sm_PollOptions :: "string list"
  sm_PollSelectableCount :: int
  sm_PollEndTime :: int
  sm_PollHideVotes :: bool
  sm_TimestampMs :: int

datatype sent_extra =
    NoExtra
  | PollExtra string "string list" int int bool
  | LocationExtra real real string
  | ContactExtra string string

record sent_event =
  se_ID :: string
  se_SessionID :: string
  se_OrganizationID :: string
  se_Timestamp :: int
  se_WAMessageID :: string
  se_ChatJID :: string
  se_FromMe :: bool
  se_Type :: string
  se_Body :: string
  se_QuotedMessageID :: string
  se_HasMedia :: bool
  se_Mentions :: "string list"
  se_Extra :: sent_extra

text \<open>
  The codecs of stored payloads (\<open>encoding/json\<close>), MySQL's \<open>JSON_REMOVE\<close> of media
  bytes, the message id of a command's \<open>n\<close>-th WhatsApp message (a digest), and
  \<open>net/url.Parse\<close>.
\<close>

record op_payload =
  op_Type :: string
  op_ExpiresAt :: "int option"
  op_Chat :: string
  op_Sender :: string
  op_MsgID :: string
  op_Emoji :: string
  op_NewText :: string
  op_Options :: "string list"
  op_To :: string

record codec =
  cd_marshal :: "send_request \<Rightarrow> string result"
  cd_unmarshal :: "string \<Rightarrow> send_request result"
  cd_marshalOp :: "op_payload \<Rightarrow> string result"
  cd_unmarshalOp :: "string \<Rightarrow> op_payload result"
  cd_strip :: "string \<Rightarrow> string"
  cd_commandMessageID :: "string \<Rightarrow> nat \<Rightarrow> string"
  cd_url :: url_parser

text \<open>The two commands of the private engine; the client resolves the assignment epoch, sent as 0.\<close>

record send_command =
  ec_CommandID :: string
  ec_OrganizationID :: string
  ec_SessionID :: string
  ec_AssignmentEpoch :: int
  ec_Payload :: send_request
  ec_ExpiresAt :: "int option"

record op_command =
  eo_CommandID :: string
  eo_OrganizationID :: string
  eo_SessionID :: string
  eo_Op :: string
  eo_ChatJID :: string
  eo_SenderJID :: string
  eo_MessageID :: string
  eo_Emoji :: string
  eo_NewText :: string
  eo_Options :: "string list"
  eo_ToJID :: string
  eo_ExpiresAt :: "int option"

datatype engine_call = SendCall send_command | OpCall op_command

fun call_id :: "engine_call \<Rightarrow> string" where
  "call_id (SendCall c) = ec_CommandID c"
| "call_id (OpCall c) = eo_CommandID c"

text \<open>
  What the scheduler calls: the clock, the database's faults, \<open>sessions.Get\<close> by session,
  \<open>limiter.Allow\<close> by session and rates, the engine by command (an error comes without a
  result), and the optional media capture (organization, session, message id, request),
  message recorder and event publisher.
\<close>

record world =
  w_now :: "nat \<Rightarrow> gotime"
  w_faults :: faults
  w_session :: "string \<Rightarrow> session_info result"
  w_allow :: "string \<Rightarrow> int \<Rightarrow> int \<Rightarrow> (bool \<times> duration) result"
  w_engine :: "engine_call \<Rightarrow> engine_result result"
  w_capture :: "(string \<Rightarrow> string \<Rightarrow> string \<Rightarrow> send_request \<Rightarrow> go_err option) option"
  w_recorder :: "(sent_message \<Rightarrow> go_err option) option"
  w_publish :: "(sent_event \<Rightarrow> go_err option) option"

text \<open>The state: the outbox table, and the commands handed to the engine, oldest first.\<close>

record sched =
  sd_outbox :: outbox
  sd_engine :: "engine_call list"

section \<open>Message content\<close>

definition isMediaType :: "string \<Rightarrow> bool" where
  "isMediaType t \<longleftrightarrow> t \<in> set media_types"

definition outboundBody :: "send_request \<Rightarrow> string" where
  "outboundBody req =
     (let ty = rq_Type req in
      if ty = SendTypeText \<or> ty = SendTypeButtons \<or> ty = SendTypeList then rq_Text req
      else if ty = SendTypePoll \<or> ty = SendTypeLocation then rq_Name req
      else if ty = SendTypeAlbum then rq_Caption req
      else if isMediaType ty then (case rq_Media req of None \<Rightarrow> [] | Some m \<Rightarrow> mp_Caption m)
      else [])"

definition outboundMedia :: "send_request \<Rightarrow> media_meta option \<times> bool" where
  "outboundMedia req =
     (if rq_Type req = SendTypeAlbum then (None, True)
      else if \<not> isMediaType (rq_Type req) then (None, False)
      else case rq_Media req of
        None \<Rightarrow> (None, False)
      | Some m \<Rightarrow>
          (Some \<lparr>mm_Mimetype = mp_Mimetype m,
                 mm_Size = (if blank (mp_Data m) then 0 else int (length (mp_Data m) div 4 * 3)),
                 mm_Filename = mp_Filename m\<rparr>, True))"

definition ReservedMessageIDs :: "codec \<Rightarrow> string \<Rightarrow> send_request \<Rightarrow> string list" where
  "ReservedMessageIDs cd commandID req =
     map (cd_commandMessageID cd commandID)
       [0..<1 + (if rq_Type req = SendTypeAlbum then length (rq_Medias req) else 0)]"

text \<open>\<open>nowMs\<close> is \<open>domain.NowMs\<close>, read only when there is no timestamp.\<close>

definition recordSent :: "(sent_message \<Rightarrow> go_err option) option \<Rightarrow> (sent_event \<Rightarrow> go_err option) option \<Rightarrow> int
    \<Rightarrow> string \<Rightarrow> string \<Rightarrow> send_request \<Rightarrow> string \<Rightarrow> int \<Rightarrow> string \<Rightarrow> go_err option" where
  "recordSent recorder publish nowMs organizationID sessionID req waMessageID ts0 commandID =
     (case recorder of None \<Rightarrow> None
      | Some rec \<Rightarrow>
        if (waMessageID = [] \<or> sessionID = []) \<or> (rq_Type req = [] \<and> rq_To req = []) then None
        else
          (let ts = (if ts0 = 0 then nowMs else ts0);
               (mediaMeta, hasMedia) = outboundMedia req in
           case rec \<lparr>sm_SessionID = sessionID, sm_WAMessageID = waMessageID, sm_ChatJID = rq_To req,
                     sm_Type = rq_Type req, sm_Body = outboundBody req, sm_ReplyTo = rq_ReplyTo req,
                     sm_Mentions = rq_Mentions req, sm_HasMedia = hasMedia, sm_MediaMeta = mediaMeta,
                     sm_PollOptions = rq_Options req, sm_PollSelectableCount = rq_SelectableCount req,
                     sm_PollEndTime = rq_PollEndTime req, sm_PollHideVotes = rq_PollHideVotes req,
                     sm_TimestampMs = ts\<rparr> of
             Some e \<Rightarrow> Some e
           | None \<Rightarrow>
               (case publish of None \<Rightarrow> None
                | Some pub \<Rightarrow>
                    pub \<lparr>se_ID = commandID, se_SessionID = sessionID, se_OrganizationID = organizationID,
                         se_Timestamp = ts, se_WAMessageID = waMessageID, se_ChatJID = rq_To req, se_FromMe = True,
                         se_Type = rq_Type req, se_Body = outboundBody req, se_QuotedMessageID = rq_ReplyTo req,
                         se_HasMedia = hasMedia, se_Mentions = rq_Mentions req,
                         se_Extra =
                           (if rq_Type req = SendTypePoll
                            then PollExtra (rq_Name req) (rq_Options req) (rq_SelectableCount req) (rq_PollEndTime req)
                                   (rq_PollHideVotes req)
                            else if rq_Type req = SendTypeLocation
                            then LocationExtra (rq_Latitude req) (rq_Longitude req) (rq_Name req)
                            else if rq_Type req = SendTypeContact
                            then (case rq_Contact req of None \<Rightarrow> NoExtra | Some c \<Rightarrow> ContactExtra (cc_Name c) (cc_VCard c))
                            else NoExtra)\<rparr>)))"

section \<open>Settling a lease\<close>

definition lease_checked :: "outbox \<times> bool result \<Rightarrow> outbox \<times> go_err option" where
  "lease_checked x =
     (case x of
        (tb, Inl e) \<Rightarrow> (tb, Some e)
      | (tb, Inr True) \<Rightarrow> (tb, None)
      | (tb, Inr False) \<Rightarrow> (tb, Some (ErrConflict ''outbox dispatch lease changed'')))"

definition complete :: "codec \<Rightarrow> go_err option \<Rightarrow> outbox_entry \<Rightarrow> outbox_status \<Rightarrow> string option \<Rightarrow> string option \<Rightarrow> int
    \<Rightarrow> outbox \<Rightarrow> outbox \<times> go_err option" where
  "complete cd ft entry status waID note atMs tb =
     lease_checked (CompleteOwned (cd_strip cd) ft (ob_ID entry) (ob_UpdatedAt entry) status waID note atMs tb)"

definition markPossible :: "go_err option \<Rightarrow> outbox_entry \<Rightarrow> outbox \<Rightarrow> outbox \<times> go_err option" where
  "markPossible ft entry tb = lease_checked (MarkDispatchPossible ft (ob_ID entry) (ob_UpdatedAt entry) tb)"

definition clearPossible :: "go_err option \<Rightarrow> outbox_entry \<Rightarrow> outbox \<Rightarrow> outbox \<times> go_err option" where
  "clearPossible ft entry tb = lease_checked (ClearDispatchPossible ft (ob_ID entry) (ob_UpdatedAt entry) tb)"

definition recordAck :: "go_err option \<Rightarrow> outbox_entry \<Rightarrow> string \<Rightarrow> int \<Rightarrow> outbox \<Rightarrow> outbox \<times> go_err option" where
  "recordAck ft entry waID atMs tb =
     lease_checked (RecordAcknowledgement ft (ob_ID entry) (ob_UpdatedAt entry) waID atMs tb)"

definition expired :: "gotime \<Rightarrow> outbox_entry \<Rightarrow> bool" where
  "expired now entry = (case ob_ExpiresAt entry of None \<Rightarrow> False | Some t \<Rightarrow> UnixMilli now \<ge> t)"

definition expireClaim :: "codec \<Rightarrow> go_err option \<Rightarrow> gotime \<Rightarrow> outbox_entry \<Rightarrow> outbox \<Rightarrow> outbox \<times> go_err" where
  "expireClaim cd ft now entry tb =
     (let (status, note) = (if ob_EffectPossible entry
            then (OutboxUnknown, ''expired after dispatch may have started; remote outcome unknown'')
            else (OutboxFailed, ''expired before WhatsApp dispatch''))
      in case complete cd ft entry status None (Some note) (UnixMilli now) tb of
           (tb', Some e) \<Rightarrow> (tb', e)
         | (tb', None) \<Rightarrow> (tb', if status = OutboxUnknown then ErrUnavailable note else ErrValidation note))"

definition backoff :: "scheduler_config \<Rightarrow> int \<Rightarrow> duration" where
  "backoff cfg attempt =
     (let b = shl64 (cf_BackoffBase cfg) (nat (attempt - 1)) in
      if b > cf_BackoffCap cfg \<or> b \<le> 0 then cf_BackoffCap cfg else b)"

text \<open>Clock readings: the expiry check (0), the settlement (1), the next attempt (2) and the
  reschedule (3).\<close>

definition ambiguous :: "codec \<Rightarrow> scheduler_config \<Rightarrow> go_err option \<Rightarrow> (nat \<Rightarrow> gotime) \<Rightarrow> outbox_entry \<Rightarrow> string
    \<Rightarrow> outbox \<Rightarrow> outbox \<times> go_err" where
  "ambiguous cd cfg ft nw entry cause tb =
     (if expired (nw 0) entry then expireClaim cd ft (nw 1) entry tb
      else
        (let attempt = (if ob_Attempts entry \<le> 0 then 1 else ob_Attempts entry);
             note = cause @ '' (attempt '' @ show_int attempt @ '')'' in
         if attempt \<ge> cf_MaxAttempts cfg
         then (let (status, message) = (if \<not> ob_EffectPossible entry
                 then (OutboxFailed, ''no WhatsApp dispatch after '' @ show_int attempt @ '' attempts; last error: '' @ cause)
                 else (OutboxUnknown, ''no definite outcome after '' @ show_int attempt @ '' attempts; last error: '' @ cause))
               in case complete cd ft entry status None (Some message) (UnixMilli (nw 1)) tb of
                    (tb', Some e) \<Rightarrow> (tb', e)
                  | (tb', None) \<Rightarrow> (tb', Plain note))
         else (case Reschedule ft (ob_ID entry) (ob_UpdatedAt entry) note
                      (UnixMilli (nw 2 + backoff cfg attempt)) (UnixMilli (nw 3)) tb of
                 (tb', Inl e) \<Rightarrow> (tb', e)
               | (tb', Inr owned) \<Rightarrow> (tb', Plain note))))"

definition deferProjection :: "scheduler_config \<Rightarrow> go_err option \<Rightarrow> (nat \<Rightarrow> gotime) \<Rightarrow> outbox_entry \<Rightarrow> go_err
    \<Rightarrow> outbox \<Rightarrow> outbox \<times> send_outcome result" where
  "deferProjection cfg ft nw entry cause tb =
     (case Reschedule ft (ob_ID entry) (ob_UpdatedAt entry)
             (''acknowledged send awaiting projection: '' @ err_text cause)
             (UnixMilli (nw 0 + cf_BackoffBase cfg)) (UnixMilli (nw 1)) tb of
        (tb', Inl e) \<Rightarrow> (tb', Inl e)
      | (tb', Inr False) \<Rightarrow> (tb', Inl (ErrConflict ''outbox dispatch lease changed''))
      | (tb', Inr True) \<Rightarrow> (tb', Inr (no_outcome\<lparr>so_Mode := ModeAsync, so_OutboxID := ob_ID entry\<rparr>)))"

section \<open>Dispatching one leased command\<close>

text \<open>
  After the engine was asked, or an earlier acknowledgement taken over: the failure
  branch common to sends and operations. \<open>final\<close> are the codes that are a definite
  rejection; \<open>wasPossible\<close> says that an earlier attempt may have reached WhatsApp.
  Faults: clear (0), settlement (1). Clock readings: timestamp (0), the expiry check (1),
  its settlement (2), and those of \<open>ambiguous\<close> (3 to 6).
\<close>

definition settle_failure :: "codec \<Rightarrow> scheduler_config \<Rightarrow> (api_code \<Rightarrow> bool) \<Rightarrow> faults \<Rightarrow> (nat \<Rightarrow> gotime) \<Rightarrow> bool
    \<Rightarrow> int \<Rightarrow> outbox_entry \<Rightarrow> go_err \<Rightarrow> outbox \<Rightarrow> outbox \<times> go_err" where
  "settle_failure cd cfg final f nw wasPossible timestamp entry0 err tb0 =
     (case (if \<not> wasPossible \<and> is_no_dispatch err
            then (case clearPossible (f 0) entry0 tb0 of
                    (tb', Some e) \<Rightarrow> (tb', Inl e)
                  | (tb', None) \<Rightarrow> (tb', Inr (entry0\<lparr>ob_EffectPossible := False\<rparr>)))
            else (tb0, Inr entry0)) of
        (tb, Inl e) \<Rightarrow> (tb, e)
      | (tb, Inr entry) \<Rightarrow>
          if \<not> wasPossible \<and> (case api_code_of err of None \<Rightarrow> False | Some c \<Rightarrow> final c)
          then (case complete cd (f 1) entry OutboxFailed None (Some (err_text err)) timestamp tb of
                  (tb', Some e) \<Rightarrow> (tb', e)
                | (tb', None) \<Rightarrow> (tb', err))
          else if expired (nw 1) entry then expireClaim cd (f 1) (nw 2) entry tb
          else ambiguous cd cfg (f 1) (\<lambda>i. nw (3 + i)) entry (err_text err) tb)"

text \<open>
  Asking the engine: a recorded acknowledgement is taken over without a call; otherwise
  the possibility of an effect is made durable before the call.
\<close>

definition ask_engine :: "go_err option \<Rightarrow> (engine_call \<Rightarrow> engine_result result) \<Rightarrow> engine_call \<Rightarrow> outbox_entry \<Rightarrow> sched
    \<Rightarrow> sched \<times> (outbox_entry \<times> engine_result result) result" where
  "ask_engine ft engine c entry s =
     (case (ob_AcknowledgedAt entry, ob_WAMessageID entry) of
        (Some t, Some w) \<Rightarrow>
          (s, Inr (entry, Inr \<lparr>er_WAMessageID = w, er_SentAt = of_UnixMilli t, er_PreparedPayload = None\<rparr>))
      | _ \<Rightarrow>
          (case (if \<not> ob_EffectPossible entry then markPossible ft entry (sd_outbox s) else (sd_outbox s, None)) of
             (tb, Some e) \<Rightarrow> (s\<lparr>sd_outbox := tb\<rparr>, Inl e)
           | (tb, None) \<Rightarrow>
               (s\<lparr>sd_outbox := tb, sd_engine := sd_engine s @ [c]\<rparr>,
                Inr (entry\<lparr>ob_EffectPossible := True\<rparr>, engine c))))"

definition ack_timestamp :: "gotime \<Rightarrow> engine_result \<Rightarrow> int" where
  "ack_timestamp now res = (if IsZero (er_SentAt res) then UnixMilli now else UnixMilli (er_SentAt res))"

definition ensureAck :: "go_err option \<Rightarrow> outbox_entry \<Rightarrow> string \<Rightarrow> int \<Rightarrow> outbox \<Rightarrow> outbox \<times> go_err option" where
  "ensureAck ft entry waID timestamp tb =
     (if ob_AcknowledgedAt entry = None then recordAck ft entry waID timestamp tb else (tb, None))"

definition sent_outcome :: "outbox_entry \<Rightarrow> string \<Rightarrow> int \<Rightarrow> send_outcome" where
  "sent_outcome entry waID timestamp =
     no_outcome\<lparr>so_Mode := ModeSync, so_OutboxID := ob_ID entry, so_WAMessageID := waID,
       so_Status := MessageSent, so_Timestamp := timestamp\<rparr>"

text \<open>\<open>dispatchOp\<close>. Faults: expiry (0), mark (1), clear (2), failure settlement (3), acknowledgement (4),
  completion (5). Clock: expiry (0, 1), timestamp (2), failure (3 to 8).\<close>

definition send_call :: "outbox_entry \<Rightarrow> send_request \<Rightarrow> engine_call" where
  "send_call entry req = SendCall \<lparr>ec_CommandID = ob_ID entry, ec_OrganizationID = ob_OrganizationID entry,
     ec_SessionID = ob_SessionID entry, ec_AssignmentEpoch = 0, ec_Payload = req, ec_ExpiresAt = ob_ExpiresAt entry\<rparr>"

definition op_call :: "outbox_entry \<Rightarrow> op_payload \<Rightarrow> engine_call" where
  "op_call entry p = OpCall \<lparr>eo_CommandID = ob_ID entry, eo_OrganizationID = ob_OrganizationID entry,
     eo_SessionID = ob_SessionID entry, eo_Op = op_Type p, eo_ChatJID = op_Chat p, eo_SenderJID = op_Sender p,
     eo_MessageID = op_MsgID p, eo_Emoji = op_Emoji p, eo_NewText = op_NewText p, eo_Options = op_Options p,
     eo_ToJID = op_To p, eo_ExpiresAt = ob_ExpiresAt entry\<rparr>"

definition dispatchOp :: "codec \<Rightarrow> scheduler_config \<Rightarrow> world \<Rightarrow> faults \<Rightarrow> (nat \<Rightarrow> gotime) \<Rightarrow> outbox_entry \<Rightarrow> op_payload \<Rightarrow> sched
    \<Rightarrow> sched \<times> send_outcome result" where
  "dispatchOp cd cfg w f nw entry payload s =
     (if ob_AcknowledgedAt entry = None \<and> expired (nw 0) entry \<and> \<not> ob_EffectPossible entry
      then (case expireClaim cd (f 0) (nw 1) entry (sd_outbox s) of (tb, e) \<Rightarrow> (s\<lparr>sd_outbox := tb\<rparr>, Inl e))
      else (case ask_engine (f 1) (w_engine w) (op_call entry payload) entry s of
          (s1, Inl e) \<Rightarrow> (s1, Inl e)
        | (s1, Inr (entry1, Inl err)) \<Rightarrow>
            (case settle_failure cd cfg (\<lambda>c. c = CodeValidationError) (\<lambda>i. f (2 + i)) (\<lambda>i. nw (2 + i))
                    (ob_EffectPossible entry) (UnixMilli (nw 2)) entry1 err (sd_outbox s1) of
               (tb, e) \<Rightarrow> (s1\<lparr>sd_outbox := tb\<rparr>, Inl e))
        | (s1, Inr (entry1, Inr res)) \<Rightarrow>
            (let timestamp = ack_timestamp (nw 2) res;
                 waID = er_WAMessageID res in
             case ensureAck (f 4) entry1 waID timestamp (sd_outbox s1) of
               (tb, Some e) \<Rightarrow> (s1\<lparr>sd_outbox := tb\<rparr>, Inl e)
             | (tb, None) \<Rightarrow>
                 (case complete cd (f 5) entry1 OutboxSent (Some waID) None timestamp tb of
                    (tb', Some e) \<Rightarrow> (s1\<lparr>sd_outbox := tb'\<rparr>, Inl e)
                  | (tb', None) \<Rightarrow> (s1\<lparr>sd_outbox := tb'\<rparr>, Inr (sent_outcome entry waID timestamp))))))"

text \<open>The rate limit of a worker attempt: \<open>None\<close> lets it continue. Faults: settlement (0).
  Clock: the start (0), the admission check (1), the check after a refusal (2, 3), and the
  two \<open>ambiguous\<close> (4 to 7 and 8 to 11).\<close>

definition limit_gate :: "codec \<Rightarrow> scheduler_config \<Rightarrow> world \<Rightarrow> go_err option \<Rightarrow> (nat \<Rightarrow> gotime) \<Rightarrow> bool \<Rightarrow> outbox_entry
    \<Rightarrow> outbox \<Rightarrow> outbox \<times> go_err option" where
  "limit_gate cd cfg w ft nw checkLimit entry tb =
     (let stop = (\<lambda>(tb', e). (tb', Some e)) in
      if \<not> (checkLimit \<and> ob_AcknowledgedAt entry = None \<and> \<not> expired (nw 1) entry) then (tb, None)
      else (case w_session w (ob_SessionID entry) of
          Inl e \<Rightarrow> stop (ambiguous cd cfg ft (\<lambda>i. nw (4 + i)) entry (''session lookup: '' @ err_text e) tb)
        | Inr sess \<Rightarrow>
            (case w_allow w (ob_SessionID entry) (wi_RatePerMin sess) (wi_RatePerHour sess) of
               Inl e \<Rightarrow> stop (ambiguous cd cfg ft (\<lambda>i. nw (8 + i)) entry (''rate check: '' @ err_text e) tb)
             | Inr (True, retryAfter) \<Rightarrow> (tb, None)
             | Inr (False, retryAfter) \<Rightarrow>
                 if expired (nw 2) entry \<and> \<not> ob_EffectPossible entry
                 then stop (expireClaim cd ft (nw 3) entry tb)
                 else (case Reschedule ft (ob_ID entry) (ob_UpdatedAt entry) ''rate limited''
                              (UnixMilli (nw 0 + retryAfter)) (UnixMilli (nw 0)) tb of
                         (tb', Inl e) \<Rightarrow> (tb', Some e)
                       | (tb', Inr owned) \<Rightarrow> (tb', Some (ErrRateLimited ''send deferred: rate limit''))))))"

text \<open>The end of a successful send: media capture, the message projection and its event, and the
  completion of the command. A projection that fails defers the command.\<close>

definition projectSent :: "codec \<Rightarrow> scheduler_config \<Rightarrow> world \<Rightarrow> outbox_entry \<Rightarrow> send_request \<Rightarrow> engine_result \<Rightarrow> int \<Rightarrow> outbox
    \<Rightarrow> outbox \<times> send_outcome result" where
  "projectSent cd cfg w entry req res timestamp tb =
     (let nw = w_now w; f = w_faults w; waID = er_WAMessageID res in
      case (case w_capture w of None \<Rightarrow> None
            | Some capture \<Rightarrow> capture (ob_OrganizationID entry) (ob_SessionID entry) waID (case er_PreparedPayload res of None \<Rightarrow> req | Some p \<Rightarrow> p)) of
        Some e \<Rightarrow> deferProjection cfg (f 8) (\<lambda>i. nw (24 + i)) entry e tb
      | None \<Rightarrow>
          (case recordSent (w_recorder w) (w_publish w) (UnixMilli (nw 28)) (ob_OrganizationID entry)
                  (ob_SessionID entry) req waID timestamp (ob_ID entry) of
             Some e \<Rightarrow> deferProjection cfg (f 8) (\<lambda>i. nw (26 + i)) entry e tb
           | None \<Rightarrow>
               (case complete cd (f 9) entry OutboxSent (Some waID) None timestamp tb of
                  (tb', Some e) \<Rightarrow> (tb', Inl e)
                | (tb', None) \<Rightarrow> (tb', Inr (sent_outcome entry waID timestamp)))))"

text \<open>\<open>dispatchClaimed\<close>. Faults: expiry (0), malformed operation (1), the operation's own (10 on),
  rate limit (2), second expiry (3), mark (4), clear (5), failure settlement (6),
  acknowledgement (7), deferral (8), completion (9). Clock: expiry (0, 1), malformed
  operation (2), the operation's own (40 on), rate limit (3 to 14), second expiry (15, 16),
  timestamp and failure (17 to 23), the two deferrals (24 to 27), \<open>NowMs\<close> (28).\<close>

definition dispatchClaimed :: "codec \<Rightarrow> scheduler_config \<Rightarrow> world \<Rightarrow> outbox_entry \<Rightarrow> send_request \<Rightarrow> bool \<Rightarrow> sched
    \<Rightarrow> sched \<times> send_outcome result" where
  "dispatchClaimed cd cfg w entry req checkLimit s =
     (let nw = w_now w; f = w_faults w;
          fail = (\<lambda>(tb, e). (s\<lparr>sd_outbox := tb\<rparr>, Inl e)) in
      if ob_AcknowledgedAt entry = None \<and> expired (nw 0) entry \<and> \<not> ob_EffectPossible entry
      then fail (expireClaim cd (f 0) (nw 1) entry (sd_outbox s))
      else if isOpType (rq_Type req)
      then (case cd_unmarshalOp cd (ob_Payload entry) of
              Inl _ \<Rightarrow>
                (case complete cd (f 1) entry OutboxFailed None (Some ''malformed stored op payload'') (UnixMilli (nw 2)) (sd_outbox s) of
                   (tb, Some e) \<Rightarrow> fail (tb, e)
                 | (tb, None) \<Rightarrow> fail (tb, Plain ''malformed stored op payload''))
            | Inr payload \<Rightarrow> dispatchOp cd cfg w (\<lambda>i. f (10 + i)) (\<lambda>i. nw (40 + i)) entry payload s)
      else (case limit_gate cd cfg w (f 2) (\<lambda>i. nw (3 + i)) checkLimit entry (sd_outbox s) of
          (tb, Some e) \<Rightarrow> fail (tb, e)
        | (tb, None) \<Rightarrow>
            if ob_AcknowledgedAt entry = None \<and> expired (nw 15) entry \<and> \<not> ob_EffectPossible entry
            then fail (expireClaim cd (f 3) (nw 16) entry tb)
            else (case ask_engine (f 4) (w_engine w) (send_call entry req) entry (s\<lparr>sd_outbox := tb\<rparr>) of
                (s1, Inl e) \<Rightarrow> (s1, Inl e)
              | (s1, Inr (entry1, Inl err)) \<Rightarrow>
                  (case settle_failure cd cfg (\<lambda>c. c = CodeValidationError \<or> c = CodeNotImplemented)
                          (\<lambda>i. f (5 + i)) (\<lambda>i. nw (17 + i)) (ob_EffectPossible entry) (UnixMilli (nw 17)) entry1 err
                          (sd_outbox s1) of
                     (tb', e) \<Rightarrow> (s1\<lparr>sd_outbox := tb'\<rparr>, Inl e))
              | (s1, Inr (entry1, Inr res)) \<Rightarrow>
                  (let timestamp = ack_timestamp (nw 17) res;
                       waID = er_WAMessageID res in
                   case ensureAck (f 7) entry1 waID timestamp (sd_outbox s1) of
                     (tb', Some e) \<Rightarrow> (s1\<lparr>sd_outbox := tb'\<rparr>, Inl e)
                   | (tb', None) \<Rightarrow>
                       (case projectSent cd cfg w entry1 req res timestamp tb' of
                          (tb2, r) \<Rightarrow> (s1\<lparr>sd_outbox := tb2\<rparr>, r))))))"

section \<open>Replay of a stored command\<close>

definition replayOutboxResult :: "codec \<Rightarrow> outbox_entry \<Rightarrow> send_outcome" where
  "replayOutboxResult cd e =
     (let r = no_outcome\<lparr>so_OutboxID := ob_ID e, so_Replayed := True,
            so_ReservedMessageIDs :=
              (case cd_unmarshal cd (ob_Payload e) of
                 Inl _ \<Rightarrow> []
               | Inr req \<Rightarrow> if rq_Type req \<noteq> [] \<and> \<not> isOpType (rq_Type req)
                   then ReservedMessageIDs cd (ob_ID e) req else [])\<rparr>
      in case ob_Status e of
           OutboxSent \<Rightarrow> r\<lparr>so_Mode := ModeSync, so_Status := MessageSent,
             so_WAMessageID := (case ob_WAMessageID e of None \<Rightarrow> [] | Some wa \<Rightarrow> wa), so_Timestamp := ob_UpdatedAt e\<rparr>
         | OutboxFailed \<Rightarrow> r\<lparr>so_Mode := ModeSync, so_Status := MessageFailed\<rparr>
         | OutboxUnknown \<Rightarrow> r\<lparr>so_Mode := ModeSync, so_Status := MessageUnknown\<rparr>
         | _ \<Rightarrow> r\<lparr>so_Mode := ModeAsync\<rparr>)"

definition opRequestToPayload :: "op_request \<Rightarrow> op_payload" where
  "opRequestToPayload req = \<lparr>op_Type = oq_Op req, op_ExpiresAt = oq_ExpiresAt req, op_Chat = oq_Chat req,
     op_Sender = oq_Sender req, op_MsgID = oq_MsgID req, op_Emoji = oq_Emoji req, op_NewText = oq_NewText req,
     op_Options = oq_Options req, op_To = oq_To req\<rparr>"

definition toOpRequest :: "op_payload \<Rightarrow> op_request" where
  "toOpRequest p = \<lparr>oq_Op = op_Type p, oq_ExpiresAt = op_ExpiresAt p, oq_IdempotencyKey = [], oq_Chat = op_Chat p,
     oq_Sender = op_Sender p, oq_MsgID = op_MsgID p, oq_Emoji = op_Emoji p, oq_NewText = op_NewText p,
     oq_Options = op_Options p, oq_To = op_To p\<rparr>"

section \<open>Admission\<close>

definition validateExpiry :: "gotime \<Rightarrow> int option \<Rightarrow> go_err option" where
  "validateExpiry now expiresAt =
     (case expiresAt of None \<Rightarrow> None
      | Some t \<Rightarrow> if t \<le> UnixMilli now then Some (ErrValidation ''expiresAt must be a future UTC epoch millisecond'') else None)"

definition session_of :: "world \<Rightarrow> string \<Rightarrow> string \<Rightarrow> session_info result" where
  "session_of w organizationID sessionID =
     bindr (w_session w sessionID) (\<lambda>sess.
       if wi_OrganizationID sess \<noteq> organizationID then Inl (ErrNotFound ''session not found'') else Inr sess)"

definition priorByIdempotency :: "go_err option \<Rightarrow> string \<Rightarrow> string \<Rightarrow> outbox \<Rightarrow> outbox_entry option result" where
  "priorByIdempotency ft organizationID key tb =
     (case GetByIdempotency ft organizationID key tb of
        Inr prior \<Rightarrow> Inr (Some prior)
      | Inl e \<Rightarrow> if api_code_of e = Some CodeNotFound then Inr None else Inl (Wrapped ''idempotency lookup'' e))"

definition optionalString :: "string \<Rightarrow> string option" where
  "optionalString v = (if v = [] then None else Some v)"

text \<open>\<open>ulid\<close> is the fresh identifier of \<open>domain.NewULID\<close>.\<close>

definition newCommand :: "string \<Rightarrow> session_info \<Rightarrow> string \<Rightarrow> outbox_status \<Rightarrow> gotime \<Rightarrow> int option \<Rightarrow> outbox_entry" where
  "newCommand ulid sess idempotencyKey status now expiresAt =
     \<lparr>ob_ID = ulid, ob_OrganizationID = wi_OrganizationID sess, ob_SessionID = wi_ID sess,
      ob_IdempotencyKey = optionalString idempotencyKey, ob_Payload = [], ob_Status = status, ob_Attempts = 0,
      ob_NextAttemptAt = 0, ob_ExpiresAt = expiresAt, ob_AcknowledgedAt = None, ob_EffectPossible = False,
      ob_WAMessageID = None, ob_Error = None, ob_TerminalAt = None, ob_CreatedAt = UnixMilli now,
      ob_UpdatedAt = UnixMilli now\<rparr>"

definition insertCommand :: "codec \<Rightarrow> go_err option \<Rightarrow> outbox_entry \<Rightarrow> send_request \<Rightarrow> outbox
    \<Rightarrow> outbox \<times> outbox_entry result" where
  "insertCommand cd ft entry req tb =
     (case cd_marshal cd req of
        Inl e \<Rightarrow> (tb, Inl (Wrapped ''encode send payload'' e))
      | Inr payload \<Rightarrow>
          (case Insert ft (entry\<lparr>ob_Payload := payload\<rparr>) tb of
             (tb', Inl e) \<Rightarrow> (tb', Inl e)
           | (tb', Inr _) \<Rightarrow> (tb', Inr (entry\<lparr>ob_Payload := payload\<rparr>))))"

text \<open>After a refused insert: the command that already has the key answers.\<close>

definition replay_or_fail :: "codec \<Rightarrow> go_err option \<Rightarrow> string \<Rightarrow> string \<Rightarrow> string \<Rightarrow> go_err \<Rightarrow> outbox \<Rightarrow> send_outcome result" where
  "replay_or_fail cd ft organizationID sessionID key err tb =
     (if key = [] then Inl err
      else case priorByIdempotency ft organizationID key tb of
        Inr (Some prior) \<Rightarrow>
          if ob_SessionID prior \<noteq> sessionID then Inl (ErrNotFound ''outbox entry not found'')
          else Inr (replayOutboxResult cd prior)
      | _ \<Rightarrow> Inl err)"

record send_options =
  opt_IdempotencyKey :: string
  opt_Async :: bool

definition enqueueAsync :: "codec \<Rightarrow> world \<Rightarrow> string \<Rightarrow> session_info \<Rightarrow> send_request \<Rightarrow> send_options \<Rightarrow> sched
    \<Rightarrow> sched \<times> send_outcome result" where
  "enqueueAsync cd w ulid sess req opts s =
     (let entry = newCommand ulid sess (opt_IdempotencyKey opts) OutboxQueued (w_now w 101) (rq_ExpiresAt req) in
      case insertCommand cd (w_faults w 101) entry req (sd_outbox s) of
        (tb, Inl e) \<Rightarrow>
          (s\<lparr>sd_outbox := tb\<rparr>,
           replay_or_fail cd (w_faults w 102) (wi_OrganizationID sess) (wi_ID sess) (opt_IdempotencyKey opts) e tb)
      | (tb, Inr entry1) \<Rightarrow>
          (s\<lparr>sd_outbox := tb\<rparr>,
           Inr (no_outcome\<lparr>so_Mode := ModeAsync, so_OutboxID := ob_ID entry,
             so_ReservedMessageIDs := ReservedMessageIDs cd (ob_ID entry) req\<rparr>)))"

text \<open>The entry handed to \<open>dispatchClaimed\<close> is the one before \<open>insertCommand\<close> set its payload,
  which that function received by value.\<close>

definition sendSync :: "codec \<Rightarrow> scheduler_config \<Rightarrow> world \<Rightarrow> string \<Rightarrow> session_info \<Rightarrow> send_request \<Rightarrow> send_options \<Rightarrow> sched
    \<Rightarrow> sched \<times> send_outcome result" where
  "sendSync cd cfg w ulid sess req opts s =
     (case w_allow w (wi_ID sess) (wi_RatePerMin sess) (wi_RatePerHour sess) of
        Inl e \<Rightarrow> (s, Inl (Wrapped ''rate check'' e))
      | Inr (False, retryAfter) \<Rightarrow> (s, Inl (ErrRateLimited ''send rate limit exceeded''))
      | Inr (True, retryAfter) \<Rightarrow>
          (case validateExpiry (w_now w 103) (rq_ExpiresAt req) of
             Some e \<Rightarrow> (s, Inl e)
           | None \<Rightarrow>
               (let entry = (newCommand ulid sess (opt_IdempotencyKey opts) OutboxSending (w_now w 104) (rq_ExpiresAt req))
                      \<lparr>ob_Attempts := 1\<rparr> in
                case insertCommand cd (w_faults w 101) entry req (sd_outbox s) of
                  (tb, Inl e) \<Rightarrow>
                    (s\<lparr>sd_outbox := tb\<rparr>,
                     replay_or_fail cd (w_faults w 102) (wi_OrganizationID sess) (wi_ID sess) (opt_IdempotencyKey opts) e tb)
                | (tb, Inr _) \<Rightarrow>
                    (case dispatchClaimed cd cfg w entry req False (s\<lparr>sd_outbox := tb\<rparr>) of
                       (s', Inl e) \<Rightarrow> (s', Inl e)
                     | (s', Inr r) \<Rightarrow>
                         (s', Inr (r\<lparr>so_ReservedMessageIDs := ReservedMessageIDs cd (ob_ID entry) req,
                                     so_OutboxID := ob_ID entry\<rparr>))))))"

definition Send :: "codec \<Rightarrow> scheduler_config \<Rightarrow> world \<Rightarrow> string \<Rightarrow> string \<Rightarrow> string \<Rightarrow> send_request \<Rightarrow> send_options \<Rightarrow> sched
    \<Rightarrow> sched \<times> send_outcome result" where
  "Send cd cfg w ulid organizationID sessionID req opts s =
     (case Validate (cd_url cd) req of Inl e \<Rightarrow> (s, Inl e)
      | Inr _ \<Rightarrow>
     (case session_of w organizationID sessionID of Inl e \<Rightarrow> (s, Inl e)
      | Inr sess \<Rightarrow>
     (case (if opt_IdempotencyKey opts = [] then Inr None
            else priorByIdempotency (w_faults w 100) organizationID (opt_IdempotencyKey opts) (sd_outbox s)) of
        Inl e \<Rightarrow> (s, Inl e)
      | Inr (Some prior) \<Rightarrow>
          (s, if ob_SessionID prior \<noteq> sessionID then Inl (ErrNotFound ''outbox entry not found'')
              else Inr (replayOutboxResult cd prior))
      | Inr None \<Rightarrow>
          (case validateExpiry (w_now w 100) (rq_ExpiresAt req) of
             Some e \<Rightarrow> (s, Inl e)
           | None \<Rightarrow>
               if opt_Async opts then enqueueAsync cd w ulid sess req opts s
               else sendSync cd cfg w ulid sess req opts s))))"

definition LookupByIdempotency :: "codec \<Rightarrow> world \<Rightarrow> string \<Rightarrow> string \<Rightarrow> string \<Rightarrow> sched \<Rightarrow> send_outcome result" where
  "LookupByIdempotency cd w organizationID sessionID key s =
     (if key = [] then Inl (ErrValidation ''key is required'')
      else bindr (session_of w organizationID sessionID) (\<lambda>_.
        bindr (priorByIdempotency (w_faults w 100) organizationID key (sd_outbox s)) (\<lambda>prior.
          case prior of
            None \<Rightarrow> Inl (ErrNotFound ''outbox entry not found'')
          | Some entry \<Rightarrow>
              if ob_SessionID entry \<noteq> sessionID then Inl (ErrNotFound ''outbox entry not found'')
              else Inr (replayOutboxResult cd entry))))"

definition op_send_request :: "string \<Rightarrow> send_request" where
  "op_send_request ty = \<lparr>rq_Type = ty, rq_To = [], rq_ExpiresAt = None, rq_Text = [], rq_ReplyTo = [], rq_Mentions = [],
     rq_Buttons = [], rq_List = None, rq_Footer = [], rq_HeaderImage = None, rq_Name = [], rq_Options = [],
     rq_SelectableCount = 0, rq_PollEndTime = 0, rq_PollHideVotes = False, rq_Latitude = 0, rq_Longitude = 0,
     rq_Contact = None, rq_Media = None, rq_Medias = [], rq_Caption = []\<rparr>"

definition ExecuteOp :: "codec \<Rightarrow> scheduler_config \<Rightarrow> world \<Rightarrow> string \<Rightarrow> string \<Rightarrow> string \<Rightarrow> op_request \<Rightarrow> sched
    \<Rightarrow> sched \<times> send_outcome result" where
  "ExecuteOp cd cfg w ulid organizationID sessionID req s =
     (case ValidateOp req of Inl e \<Rightarrow> (s, Inl e)
      | Inr _ \<Rightarrow>
     (case session_of w organizationID sessionID of Inl e \<Rightarrow> (s, Inl e)
      | Inr sess \<Rightarrow>
     (case (if oq_IdempotencyKey req = [] then Inr None
            else priorByIdempotency (w_faults w 100) organizationID (oq_IdempotencyKey req) (sd_outbox s)) of
        Inl e \<Rightarrow> (s, Inl e)
      | Inr (Some prior) \<Rightarrow>
          (s, if ob_SessionID prior \<noteq> sessionID then Inl (ErrNotFound ''outbox entry not found'')
              else Inr (replayOutboxResult cd prior))
      | Inr None \<Rightarrow>
     (case validateExpiry (w_now w 100) (oq_ExpiresAt req) of Some e \<Rightarrow> (s, Inl e)
      | None \<Rightarrow>
     (case w_allow w (wi_ID sess) (wi_RatePerMin sess) (wi_RatePerHour sess) of
        Inl e \<Rightarrow> (s, Inl (Wrapped ''rate check'' e))
      | Inr (False, retryAfter) \<Rightarrow> (s, Inl (ErrRateLimited ''send rate limit exceeded''))
      | Inr (True, retryAfter) \<Rightarrow>
     (case validateExpiry (w_now w 103) (oq_ExpiresAt req) of Some e \<Rightarrow> (s, Inl e)
      | None \<Rightarrow>
     (case cd_marshalOp cd (opRequestToPayload req) of
        Inl e \<Rightarrow> (s, Inl (Wrapped ''encode op payload'' e))
      | Inr payload \<Rightarrow>
          (let entry = (newCommand ulid sess (oq_IdempotencyKey req) OutboxSending (w_now w 104) (oq_ExpiresAt req))
                 \<lparr>ob_Attempts := 1, ob_Payload := payload\<rparr> in
           case Insert (w_faults w 101) entry (sd_outbox s) of
             (tb, Inl e) \<Rightarrow>
               (s\<lparr>sd_outbox := tb\<rparr>,
                replay_or_fail cd (w_faults w 102) organizationID sessionID (oq_IdempotencyKey req) e tb)
           | (tb, Inr _) \<Rightarrow>
               dispatchClaimed cd cfg w entry (op_send_request (oq_Op req)) False (s\<lparr>sd_outbox := tb\<rparr>)))))))))"

section \<open>The worker\<close>

text \<open>One poll: claim what is due, then drive each claimed command; \<open>ws\<close> is the surroundings of
  each one. A stored payload that does not decode is settled as failed.\<close>

fun process_claimed :: "codec \<Rightarrow> scheduler_config \<Rightarrow> (nat \<Rightarrow> world) \<Rightarrow> nat \<Rightarrow> outbox_entry list \<Rightarrow> sched \<Rightarrow> sched" where
  "process_claimed cd cfg ws i [] s = s"
| "process_claimed cd cfg ws i (entry # entries) s =
     process_claimed cd cfg ws (Suc i) entries
       (case cd_unmarshal cd (ob_Payload entry) of
          Inl _ \<Rightarrow> s\<lparr>sd_outbox := fst (complete cd (w_faults (ws i) 0) entry OutboxFailed None
                    (Some ''malformed stored payload'') (UnixMilli (w_now (ws i) 0)) (sd_outbox s))\<rparr>
        | Inr req \<Rightarrow> fst (dispatchClaimed cd cfg (ws i) entry req True s))"

definition processDue :: "codec \<Rightarrow> scheduler_config \<Rightarrow> gotime \<Rightarrow> faults \<Rightarrow> go_err option \<Rightarrow> (string \<Rightarrow> bool) \<Rightarrow> (nat \<Rightarrow> world)
    \<Rightarrow> sched \<Rightarrow> sched" where
  "processDue cd cfg clock f c locked ws s =
     (let now = UnixMilli clock in
      case ClaimDue f c locked (cf_Batch cfg) now (now - Milliseconds (cf_Lease cfg)) now (sd_outbox s) of
        (tb, Inl e) \<Rightarrow> s\<lparr>sd_outbox := tb\<rparr>
      | (tb, Inr entries) \<Rightarrow> process_claimed cd cfg ws 0 entries (s\<lparr>sd_outbox := tb\<rparr>))"

section \<open>How a dispatch moves its row\<close>

text \<open>
  \<open>moves S oid tb tb'\<close>: every row of the new table was there before, or it is a row of the
  command \<open>oid\<close> whose status is in \<open>S\<close>. The relation composes along the statements of a
  dispatch.
\<close>

definition moves :: "outbox_status set \<Rightarrow> string \<Rightarrow> outbox \<Rightarrow> outbox \<Rightarrow> bool" where
  "moves S oid tb tb' \<longleftrightarrow> (\<forall>r'\<in>set tb'. r' \<in> set tb \<or> (ob_ID r' = oid \<and> ob_Status r' \<in> S))"

lemma moves_refl [simp, intro]: "moves S oid tb tb"
  by (simp add: moves_def)

lemma moves_trans: "moves S oid tb tb1 \<Longrightarrow> moves S oid tb1 tb2 \<Longrightarrow> moves S oid tb tb2"
  unfolding moves_def by blast

lemma moves_mono: "moves S oid tb tb' \<Longrightarrow> S \<subseteq> T \<Longrightarrow> moves T oid tb tb'"
  unfolding moves_def by blast

lemma moves_fenced:
  assumes "\<And>r. P r \<Longrightarrow> ob_ID (g r) = oid \<and> ob_Status (g r) \<in> S"
  shows "moves S oid tb (fst (fenced_update what ft P g tb))"
  using assms unfolding moves_def fenced_update_def
  by (auto split: option.splits elim!: in_upd_rowsE)

lemma lease_checked_fst [simp]: "fst (lease_checked x) = fst x"
  by (auto simp: lease_checked_def split: prod.splits sum.splits bool.splits)

lemma moves_settlements:
  "moves {status} (ob_ID e) tb (fst (complete cd ft e status wa note t tb))"
  "moves {OutboxSending} (ob_ID e) tb (fst (markPossible ft e tb))"
  "moves {OutboxSending} (ob_ID e) tb (fst (clearPossible ft e tb))"
  "moves {OutboxSending} (ob_ID e) tb (fst (recordAck ft e w t tb))"
  "moves {OutboxQueued} oid tb (fst (Reschedule ft oid stamp nt next upd tb))"
  unfolding complete_def markPossible_def clearPossible_def recordAck_def lease_checked_fst CompleteOwned_def
    MarkDispatchPossible_def ClearDispatchPossible_def RecordAcknowledgement_def Reschedule_def
  by (rule moves_fenced; simp add: owned_row_def)+

definition loss :: "outbox_entry \<Rightarrow> outbox_status" where
  "loss e = (if ob_EffectPossible e then OutboxUnknown else OutboxFailed)"

lemma fst_case_option: "fst (case x of (tb, None) \<Rightarrow> (tb, k) | (tb, Some e) \<Rightarrow> (tb, h e)) = fst x"
  by (auto split: prod.splits option.splits)

lemma fst_case_sum: "fst (case x of (tb, Inl e) \<Rightarrow> (tb, h e) | (tb, Inr b) \<Rightarrow> (tb, k b)) = fst x"
  by (auto split: prod.splits sum.splits)

lemma moves_expireClaim: "moves {loss e} (ob_ID e) tb (fst (expireClaim cd ft now e tb))"
  using moves_settlements(1)[of "loss e" e tb cd ft None _ "UnixMilli now"]
  by (auto simp: expireClaim_def loss_def Let_def split: prod.splits option.splits) (metis fst_conv)+

lemma moves_ambiguous: "moves {loss e, OutboxQueued} (ob_ID e) tb (fst (ambiguous cd cfg ft nw e cause tb))"
proof -
  have 1: "moves {loss e, OutboxQueued} (ob_ID e) tb (fst (expireClaim cd ft (nw 1) e tb))"
    by (rule moves_mono[OF moves_expireClaim]) simp
  have 2: "moves {loss e, OutboxQueued} (ob_ID e) tb (fst (complete cd ft e (loss e) None (Some m) (UnixMilli (nw 1)) tb))" for m
    by (rule moves_mono[OF moves_settlements(1)]) simp
  have 3: "moves {loss e, OutboxQueued} (ob_ID e) tb (fst (Reschedule ft (ob_ID e) (ob_UpdatedAt e) nt nx up tb))" for nt nx up
    by (rule moves_mono[OF moves_settlements(5)]) simp
  have "\<exists>nt m nx up. fst (ambiguous cd cfg ft nw e cause tb) \<in>
      {fst (expireClaim cd ft (nw 1) e tb), fst (complete cd ft e (loss e) None (Some m) (UnixMilli (nw 1)) tb),
       fst (Reschedule ft (ob_ID e) (ob_UpdatedAt e) nt nx up tb)}"
    unfolding ambiguous_def Let_def loss_def
    by (cases "expired (nw 0) e"; cases "ob_EffectPossible e") (auto simp: fst_case_option fst_case_sum)
  then show ?thesis using 1 2 3 by auto
qed

lemma moves_deferProjection: "moves {OutboxQueued} (ob_ID e) tb (fst (deferProjection cfg ft nw e cause tb))"
  using moves_settlements(5)[of "ob_ID e" tb ft "ob_UpdatedAt e" "''acknowledged send awaiting projection: '' @ err_text cause"
      "UnixMilli (nw 0 + cf_BackoffBase cfg)" "UnixMilli (nw 1)"]
  by (auto simp: deferProjection_def split: prod.splits sum.splits bool.splits)

lemma moves_settle_failure:
  assumes "ob_EffectPossible e" "wasPossible"
  shows "moves {OutboxUnknown, OutboxQueued} (ob_ID e) tb (fst (settle_failure cd cfg final f nw wasPossible ts e err tb))"
proof -
  have "moves {OutboxUnknown, OutboxQueued} (ob_ID e) tb (fst (expireClaim cd (f 1) (nw 2) e tb))"
    by (rule moves_mono[OF moves_expireClaim]) (simp add: loss_def assms)
  moreover have "moves {OutboxUnknown, OutboxQueued} (ob_ID e) tb (fst (ambiguous cd cfg (f 1) (\<lambda>i. nw (3 + i)) e (err_text err) tb))"
    by (rule moves_mono[OF moves_ambiguous]) (simp add: loss_def assms)
  ultimately show ?thesis using assms by (simp add: settle_failure_def)
qed

text \<open>Asking the engine: what it does to the table, the entry and the log of calls.\<close>

lemma ask_engine_cases:
  assumes "ask_engine ft engine c e s = (s1, r)"
  obtains (taken) t w where "ob_AcknowledgedAt e = Some t" "ob_WAMessageID e = Some w" "s1 = s"
      "r = Inr (e, Inr \<lparr>er_WAMessageID = w, er_SentAt = of_UnixMilli t, er_PreparedPayload = None\<rparr>)"
    | (unmarked) er where "\<not> ob_EffectPossible e" "r = Inl er" "sd_engine s1 = sd_engine s"
        "moves {OutboxSending} (ob_ID e) (sd_outbox s) (sd_outbox s1)"
    | (asked) "r = Inr (e\<lparr>ob_EffectPossible := True\<rparr>, engine c)" "sd_engine s1 = sd_engine s @ [c]"
        "moves {OutboxSending} (ob_ID e) (sd_outbox s) (sd_outbox s1)"
        "ob_AcknowledgedAt e = None \<or> ob_WAMessageID e = None"
        "\<not> ob_EffectPossible e \<longrightarrow> markPossible ft e (sd_outbox s) = (sd_outbox s1, None)"
proof (cases "ob_AcknowledgedAt e \<noteq> None \<and> ob_WAMessageID e \<noteq> None")
  case True
  with assms taken show ?thesis by (auto simp: ask_engine_def)
next
  case False
  show ?thesis
  proof (cases "ob_EffectPossible e")
    case True
    then have "s1 = s\<lparr>sd_engine := sd_engine s @ [c]\<rparr>" "r = Inr (e\<lparr>ob_EffectPossible := True\<rparr>, engine c)"
      using assms False by (auto simp: ask_engine_def split: option.splits)
    then show ?thesis using asked False True by auto
  next
    case ep: False
    obtain tb q where m: "markPossible ft e (sd_outbox s) = (tb, q)" by fastforce
    have mv: "moves {OutboxSending} (ob_ID e) (sd_outbox s) tb" using moves_settlements(2)[of e "sd_outbox s" ft] m by simp
    show ?thesis
    proof (cases q)
      case None
      with assms False ep m have "s1 = s\<lparr>sd_outbox := tb, sd_engine := sd_engine s @ [c]\<rparr>"
        "r = Inr (e\<lparr>ob_EffectPossible := True\<rparr>, engine c)"
        by (auto simp: ask_engine_def split: option.splits)
      then show ?thesis using asked mv m None False by auto
    next
      case (Some er)
      with assms False ep m have "s1 = s\<lparr>sd_outbox := tb\<rparr>" "r = Inl er"
        by (auto simp: ask_engine_def split: option.splits)
      then show ?thesis using unmarked mv ep by auto
    qed
  qed
qed

definition acknowledged :: "outbox_entry \<Rightarrow> bool" where
  "acknowledged e \<longleftrightarrow> ob_AcknowledgedAt e \<noteq> None \<and> ob_WAMessageID e \<noteq> None"

text \<open>The statuses a command may take once an attempt may have reached WhatsApp: never
  \<open>failed\<close>, and with an acknowledgement not \<open>unknown\<close> either.\<close>

definition after_effect :: "outbox_entry \<Rightarrow> outbox_status set" where
  "after_effect e = {OutboxQueued, OutboxSending, OutboxSent} \<union> (if acknowledged e then {} else {OutboxUnknown})"

lemma moves_recordAck:
  assumes "ensureAck ft e w t tb = (tb', q)"
  shows "moves {OutboxSending} (ob_ID e) tb tb'"
  using assms moves_settlements(4)[of e tb ft w t] by (auto simp: ensureAck_def split: if_splits)

lemma moves_complete_sent:
  "complete cd ft e OutboxSent wa nt t tb = (tb', q) \<Longrightarrow> moves {OutboxSent} (ob_ID e) tb tb'"
  using moves_settlements(1)[of OutboxSent e tb cd ft wa nt t] by simp

lemma moves_effect_chain:
  assumes "moves {OutboxSending} oid tb tb1" "moves {OutboxSending} oid tb1 tb2" "moves S oid tb2 tb3" "S \<subseteq> after_effect e"
  shows "moves (after_effect e) oid tb tb3"
proof -
  have "{OutboxSending} \<subseteq> after_effect e" by (simp add: after_effect_def)
  then show ?thesis using assms by (meson moves_mono moves_trans)
qed

lemma moves_dispatchOp:
  assumes "ob_EffectPossible e \<or> acknowledged e"
  shows "moves (after_effect e) (ob_ID e) (sd_outbox s) (sd_outbox (fst (dispatchOp cd cfg w f nw e p s)))"
proof -
  obtain s1 r where a: "ask_engine (f 1) (w_engine w) (op_call e p) e s = (s1, r)" by fastforce
  have skip: "\<not> (ob_AcknowledgedAt e = None \<and> expired (nw 0) e \<and> \<not> ob_EffectPossible e)"
    using assms by (auto simp: acknowledged_def)
  note d = dispatchOp_def if_not_P[OF skip] a
  from a show ?thesis
  proof (cases rule: ask_engine_cases)
    case (taken t wa)
    obtain tb2 q where c: "complete cd (f 5) e OutboxSent (Some wa) None
        (ack_timestamp (nw 2) \<lparr>er_WAMessageID = wa, er_SentAt = of_UnixMilli t, er_PreparedPayload = None\<rparr>)
        (sd_outbox s) = (tb2, q)"
      by fastforce
    have "moves (after_effect e) (ob_ID e) (sd_outbox s) tb2"
      by (rule moves_mono[OF moves_complete_sent[OF c]]) (simp add: after_effect_def)
    then show ?thesis unfolding d taken using c taken(1) by (cases q) (simp_all add: Let_def ensureAck_def)
  next
    case (unmarked er)
    then show ?thesis unfolding d by (simp add: moves_mono[OF unmarked(4)] after_effect_def)
  next
    case asked
    then have ep: "ob_EffectPossible e" and nack: "\<not> acknowledged e" using assms by (auto simp: acknowledged_def)
    let ?e1 = "e\<lparr>ob_EffectPossible := True\<rparr>"
    have unk: "{OutboxUnknown, OutboxQueued} \<subseteq> after_effect e" using nack by (simp add: after_effect_def)
    show ?thesis
    proof (cases "w_engine w (op_call e p)")
      case (Inl err)
      obtain tb2 er where sf: "settle_failure cd cfg (\<lambda>c. c = CodeValidationError) (\<lambda>i. f (2 + i)) (\<lambda>i. nw (2 + i)) True
          (UnixMilli (nw 2)) ?e1 err (sd_outbox s1) = (tb2, er)" by fastforce
      have "moves {OutboxUnknown, OutboxQueued} (ob_ID e) (sd_outbox s1) tb2"
        using moves_settle_failure[of ?e1 True "sd_outbox s1" cd cfg "\<lambda>c. c = CodeValidationError"
            "\<lambda>i. f (2 + i)" "\<lambda>i. nw (2 + i)" "UnixMilli (nw 2)" err] sf by simp
      then have "moves (after_effect e) (ob_ID e) (sd_outbox s) tb2"
        using moves_effect_chain[OF asked(3) moves_refl _ unk] by blast
      then show ?thesis unfolding d asked(1) using Inl sf ep by simp
    next
      case (Inr res)
      define ts where "ts = ack_timestamp (nw 2) res"
      obtain tb2 q where ra: "ensureAck (f 4) ?e1 (er_WAMessageID res) ts (sd_outbox s1) = (tb2, q)" by fastforce
      obtain tb3 q3 where c: "complete cd (f 5) ?e1 OutboxSent (Some (er_WAMessageID res)) None ts tb2 = (tb3, q3)" by fastforce
      have m2: "moves {OutboxSending} (ob_ID e) (sd_outbox s1) tb2" using moves_recordAck[OF ra] by simp
      have "moves (after_effect e) (ob_ID e) (sd_outbox s) tb2"
        using moves_effect_chain[OF asked(3) m2 moves_refl, of "{}"] by simp
      moreover have "moves (after_effect e) (ob_ID e) (sd_outbox s) tb3"
        using moves_effect_chain[OF asked(3) m2, of "{OutboxSent}" tb3 e] moves_complete_sent[OF c] by (simp add: after_effect_def)
      ultimately show ?thesis unfolding d asked(1) using Inr ra c
        by (cases q; cases q3) (simp_all add: Let_def ts_def[symmetric])
    qed
  qed
qed

lemma limit_gate_acknowledged: "ob_AcknowledgedAt e \<noteq> None \<Longrightarrow> limit_gate cd cfg w ft nw cl e tb = (tb, None)"
  by (simp add: limit_gate_def)

lemma moves_limit_gate: "moves {loss e, OutboxQueued} (ob_ID e) tb (fst (limit_gate cd cfg w ft nw cl e tb))"
proof -
  have a: "moves {loss e, OutboxQueued} (ob_ID e) tb tb'" if "ambiguous cd cfg ft n' e c tb = (tb', er)" for n' c tb' er
    using moves_ambiguous[of e tb cd cfg ft n' c] that by simp
  have x: "moves {loss e, OutboxQueued} (ob_ID e) tb tb'" if "expireClaim cd ft n' e tb = (tb', er)" for n' tb' er
    using moves_mono[OF moves_expireClaim[of e tb cd ft n']] that by simp
  have r: "moves {loss e, OutboxQueued} (ob_ID e) tb tb'"
    if "Reschedule ft (ob_ID e) (ob_UpdatedAt e) nt nx up tb = (tb', q)" for nt nx up tb' q
    using moves_mono[OF moves_settlements(5)[of "ob_ID e" tb ft "ob_UpdatedAt e" nt nx up]] that by simp
  show ?thesis unfolding limit_gate_def Let_def
    by (auto split: prod.split sum.split bool.split dest: a x r)
qed

lemma moves_projectSent: "moves {OutboxQueued, OutboxSent} (ob_ID e) tb (fst (projectSent cd cfg w e req res ts tb))"
proof -
  have d: "moves {OutboxQueued, OutboxSent} (ob_ID e) tb (fst (deferProjection cfg ft nw e c tb))" for ft nw c
    by (rule moves_mono[OF moves_deferProjection]) simp
  have c: "moves {OutboxQueued, OutboxSent} (ob_ID e) tb tb'" if "complete cd ft e OutboxSent wa nt t tb = (tb', q)" for ft wa nt t tb' q
    using moves_mono[OF moves_complete_sent[OF that]] by simp
  show ?thesis unfolding projectSent_def Let_def by (auto split: prod.split option.split intro: d c)
qed

lemma moves_dispatchClaimed:
  assumes "ob_EffectPossible e \<or> acknowledged e" "isOpType (rq_Type req) \<Longrightarrow> cd_unmarshalOp cd (ob_Payload e) = Inr p"
  shows "moves (after_effect e) (ob_ID e) (sd_outbox s) (sd_outbox (fst (dispatchClaimed cd cfg w e req cl s)))"
proof -
  have skip: "\<not> (ob_AcknowledgedAt e = None \<and> x \<and> \<not> ob_EffectPossible e)" for x
    using assms by (auto simp: acknowledged_def)
  show ?thesis
  proof (cases "isOpType (rq_Type req)")
    case True
    then show ?thesis using moves_dispatchOp[OF assms(1), of s cd cfg w] assms(2)
      unfolding dispatchClaimed_def Let_def if_not_P[OF skip] by simp
  next
    case send: False
    obtain tb0 g where g: "limit_gate cd cfg w (w_faults w 2) (\<lambda>i. w_now w (3 + i)) cl e (sd_outbox s) = (tb0, g)"
      by fastforce
    have m0: "moves (after_effect e) (ob_ID e) (sd_outbox s) tb0"
    proof (cases "acknowledged e")
      case True
      then show ?thesis using g limit_gate_acknowledged[of e] by (simp add: acknowledged_def)
    next
      case False
      then have "{loss e, OutboxQueued} \<subseteq> after_effect e" using assms(1) by (simp add: loss_def after_effect_def)
      then show ?thesis
        using moves_mono[OF moves_limit_gate[of e "sd_outbox s" cd cfg w "w_faults w 2" "\<lambda>i. w_now w (3 + i)" cl]] g by simp
    qed
    note d = dispatchClaimed_def Let_def if_not_P[OF skip] if_not_P[OF send] g
    show ?thesis
    proof (cases g)
      case (Some er)
      then show ?thesis unfolding d using m0 by simp
    next
      case None
      obtain s1 r where a: "ask_engine (w_faults w 4) (w_engine w) (send_call e req) e (s\<lparr>sd_outbox := tb0\<rparr>) = (s1, r)" by fastforce
      have chain: "moves (after_effect e) (ob_ID e) (sd_outbox s) tbx"
        if "moves {OutboxSending} (ob_ID e) tb0 tb1" "moves {OutboxSending} (ob_ID e) tb1 tb2" "moves S (ob_ID e) tb2 tbx"
          "S \<subseteq> after_effect e" for tb1 tb2 tbx S
        by (rule moves_trans[OF m0 moves_effect_chain[OF that]])
      from a show ?thesis
      proof (cases rule: ask_engine_cases)
        case (taken t wa)
        let ?res = "\<lparr>er_WAMessageID = wa, er_SentAt = of_UnixMilli t, er_PreparedPayload = None\<rparr>"
        have "moves (after_effect e) (ob_ID e) (sd_outbox s)
            (fst (projectSent cd cfg w e req ?res (ack_timestamp (w_now w 17) ?res) tb0))"
          by (rule chain[OF moves_refl moves_refl moves_projectSent]) (simp add: after_effect_def)
        then show ?thesis unfolding d None using a taken by (auto simp: ensureAck_def split: prod.splits)
      next
        case (unmarked er)
        have "moves (after_effect e) (ob_ID e) (sd_outbox s) (sd_outbox s1)"
          by (rule chain[OF _ moves_refl moves_refl, of _ "{}"]) (use unmarked(4) in simp_all)
        then show ?thesis unfolding d None using a unmarked by simp
      next
        case asked
        then have ep: "ob_EffectPossible e" and nack: "\<not> acknowledged e" using assms(1) by (auto simp: acknowledged_def)
        have m1: "moves {OutboxSending} (ob_ID e) tb0 (sd_outbox s1)" using asked(3) by simp
        let ?e1 = "e\<lparr>ob_EffectPossible := True\<rparr>"
        show ?thesis
        proof (cases "w_engine w (send_call e req)")
          case (Inl err)
          let ?sf = "settle_failure cd cfg (\<lambda>c. c = CodeValidationError \<or> c = CodeNotImplemented) (\<lambda>i. w_faults w (5 + i))
            (\<lambda>i. w_now w (17 + i)) True (UnixMilli (w_now w 17)) ?e1 err (sd_outbox s1)"
          have "moves {OutboxUnknown, OutboxQueued} (ob_ID ?e1) (sd_outbox s1) (fst ?sf)"
            by (rule moves_settle_failure) simp_all
          then have sf: "moves {OutboxUnknown, OutboxQueued} (ob_ID e) (sd_outbox s1) (fst ?sf)" by simp
          have "moves (after_effect e) (ob_ID e) (sd_outbox s) (fst ?sf)"
            by (rule chain[OF m1 moves_refl sf]) (use nack in \<open>simp add: after_effect_def\<close>)
          then show ?thesis unfolding d None using a asked(1) Inl ep by (auto split: prod.splits)
        next
          case (Inr res)
          define ts where "ts = ack_timestamp (w_now w 17) res"
          obtain tb2 q where ra: "ensureAck (w_faults w 7) ?e1 (er_WAMessageID res) ts (sd_outbox s1) = (tb2, q)" by fastforce
          have m2: "moves {OutboxSending} (ob_ID e) (sd_outbox s1) tb2" using moves_recordAck[OF ra] by simp
          have ps: "moves {OutboxQueued, OutboxSent} (ob_ID e) tb2 (fst (projectSent cd cfg w ?e1 req res ts tb2))"
            using moves_projectSent[of ?e1 tb2 cd cfg w req res ts] by simp
          have "moves (after_effect e) (ob_ID e) (sd_outbox s) (fst (projectSent cd cfg w ?e1 req res ts tb2))"
            by (rule chain[OF m1 m2 ps]) (simp add: after_effect_def)
          moreover have "moves (after_effect e) (ob_ID e) (sd_outbox s) tb2"
            by (rule chain[OF m1 m2 moves_refl, of "{}"]) simp
          ultimately show ?thesis unfolding d None using a asked(1) Inr ra
            by (cases q) (auto simp: ts_def[symmetric] split: prod.splits)
        qed
      qed
    qed
  qed
qed


section \<open>What a dispatch keeps of every row\<close>

text \<open>No statement of a dispatch changes the identity of a row.\<close>

definition ident :: "outbox_entry \<Rightarrow> string \<times> string \<times> string \<times> string option" where
  "ident r = (ob_ID r, ob_OrganizationID r, ob_SessionID r, ob_IdempotencyKey r)"

abbreviation idents :: "outbox \<Rightarrow> (string \<times> string \<times> string \<times> string option) list" where
  "idents \<equiv> map ident"

lemma idents_fenced:
  "(\<And>r. ident (g r) = ident r) \<Longrightarrow> idents (fst (fenced_update what ft P g tb)) = idents tb"
  by (simp add: fenced_update_def map_upd_rows split: option.splits)

lemma idents_settlements:
  "idents (fst (complete cd ft e status wa nt t tb)) = idents tb"
  "idents (fst (markPossible ft e tb)) = idents tb"
  "idents (fst (clearPossible ft e tb)) = idents tb"
  "idents (fst (recordAck ft e w t tb)) = idents tb"
  "idents (fst (Reschedule ft oid stamp nt2 nx upd tb)) = idents tb"
  unfolding complete_def markPossible_def clearPossible_def recordAck_def lease_checked_fst CompleteOwned_def
    MarkDispatchPossible_def ClearDispatchPossible_def RecordAcknowledgement_def Reschedule_def
  by (rule idents_fenced; simp add: ident_def)+

lemma idents_dest:
  "complete cd ft e status wa nt t tb = (tb', q) \<Longrightarrow> idents tb' = idents tb"
  "markPossible ft e tb = (tb', q) \<Longrightarrow> idents tb' = idents tb"
  "clearPossible ft e tb = (tb', q) \<Longrightarrow> idents tb' = idents tb"
  "recordAck ft e w t tb = (tb', q) \<Longrightarrow> idents tb' = idents tb"
  "Reschedule ft oid stamp nt2 nx upd tb = (tb', b) \<Longrightarrow> idents tb' = idents tb"
  using idents_settlements by (metis fst_conv)+

lemma idents_expireClaim: "expireClaim cd ft now e tb = (tb', er) \<Longrightarrow> idents tb' = idents tb"
  by (auto simp: expireClaim_def Let_def split: prod.splits option.splits if_splits dest: idents_dest)

lemma idents_ambiguous: "ambiguous cd cfg ft nw e c tb = (tb', er) \<Longrightarrow> idents tb' = idents tb"
  by (auto simp: ambiguous_def Let_def split: prod.splits option.splits sum.splits if_splits
      dest: idents_dest idents_expireClaim)

lemma idents_settle_failure: "settle_failure cd cfg fin f nw wp t e er tb = (tb', er') \<Longrightarrow> idents tb' = idents tb"
  by (auto simp: settle_failure_def split: prod.splits option.splits sum.splits if_splits
      dest!: idents_dest idents_expireClaim idents_ambiguous)

lemma idents_ask_engine: "ask_engine ft eng c e s = (s', r) \<Longrightarrow> idents (sd_outbox s') = idents (sd_outbox s)"
  by (auto simp: ask_engine_def split: prod.splits option.splits if_splits dest!: idents_dest)

lemma idents_ensureAck: "ensureAck ft e wa t tb = (tb', q) \<Longrightarrow> idents tb' = idents tb"
  by (auto simp: ensureAck_def split: if_splits dest: idents_dest)

lemma idents_deferProjection: "deferProjection cfg ft nw e c tb = (tb', q) \<Longrightarrow> idents tb' = idents tb"
  by (auto simp: deferProjection_def split: prod.splits sum.splits bool.splits dest: idents_dest)

lemma idents_projectSent: "projectSent cd cfg w e req res t tb = (tb', q) \<Longrightarrow> idents tb' = idents tb"
  by (auto simp: projectSent_def Let_def split: prod.splits option.splits dest: idents_dest idents_deferProjection)

lemma idents_limit_gate: "limit_gate cd cfg w ft nw cl e tb = (tb', q) \<Longrightarrow> idents tb' = idents tb"
  by (auto simp: limit_gate_def Let_def split: prod.splits sum.splits bool.splits if_splits
      dest: idents_dest idents_expireClaim idents_ambiguous)

lemmas idents_steps = idents_dest idents_expireClaim idents_ambiguous idents_settle_failure idents_ask_engine
  idents_ensureAck idents_deferProjection idents_projectSent idents_limit_gate

lemma idents_dispatchOp: "dispatchOp cd cfg w f nw e p s = (s', r) \<Longrightarrow> idents (sd_outbox s') = idents (sd_outbox s)"
  by (auto simp: dispatchOp_def Let_def split: prod.splits sum.splits option.splits if_splits dest!: idents_steps)

lemma idents_dispatchClaimed:
  "dispatchClaimed cd cfg w e req cl s = (s', r) \<Longrightarrow> idents (sd_outbox s') = idents (sd_outbox s)"
  by (auto simp: dispatchClaimed_def Let_def split: prod.splits sum.splits option.splits if_splits
      dest!: idents_steps idents_dispatchOp)

end
