(* ===== verification/SchedulerCorrect.thy ===== *)
theory SchedulerCorrect
  imports Scheduler "HOL-Library.Sublist"
begin

text \<open>
  What the send pipeline of theory \<open>Scheduler\<close> guarantees: the engine is only asked under
  a lease that recorded the possible effect first, a command whose effect is possible is
  never settled as failed, a reported success is a settled row that replays to the same
  answer, an idempotency key sends at most once, and retries back off within bounds.
\<close>

section \<open>Engine calls\<close>

lemma markPossible_owned:
  "markPossible ft e tb = (tb', None) \<Longrightarrow> \<exists>r\<in>set tb. owned_row (ob_ID e) (ob_UpdatedAt e) r"
  using matched_0_iff[of "owned_row (ob_ID e) (ob_UpdatedAt e)" tb]
  by (auto simp: markPossible_def MarkDispatchPossible_def fenced_update_def lease_checked_def
      split: option.splits bool.splits)

lemma ask_engine_call:
  assumes "ask_engine ft eng c e s = (s1, r)" "sd_engine s1 \<noteq> sd_engine s"
  shows "sd_engine s1 = sd_engine s @ [c] \<and> \<not> acknowledged e \<and>
    (ob_EffectPossible e \<or> (\<exists>x\<in>set (sd_outbox s). owned_row (ob_ID e) (ob_UpdatedAt e) x))"
  using assms(1)
proof (cases rule: ask_engine_cases)
  case asked
  then show ?thesis using markPossible_owned[of ft e "sd_outbox s"] by (auto simp: acknowledged_def)
qed (use assms(2) in simp_all)

text \<open>A check that lets an attempt pass has not touched the table.\<close>

lemma limit_gate_pass: "limit_gate cd cfg w ft nw cl e tb = (tb', None) \<Longrightarrow> tb' = tb"
  by (auto simp: limit_gate_def Let_def split: if_splits sum.splits prod.splits bool.splits)

lemma call_id_calls [simp]: "call_id (send_call e req) = ob_ID e" "call_id (op_call e p) = ob_ID e"
  by (simp_all add: send_call_def op_call_def)

definition engine_time :: "world \<Rightarrow> send_request \<Rightarrow> gotime" where
  "engine_time w req = (if isOpType (rq_Type req) then w_now w 40 else w_now w 15)"

lemma dispatchOp_calls:
  assumes "dispatchOp cd cfg w f nw e p s = (s', r)" "sd_engine s' \<noteq> sd_engine s"
  shows "sd_engine s' = sd_engine s @ [op_call e p] \<and> \<not> acknowledged e \<and>
    (ob_EffectPossible e \<or> (\<exists>x\<in>set (sd_outbox s). owned_row (ob_ID e) (ob_UpdatedAt e) x) \<and>
       (ob_AcknowledgedAt e = None \<longrightarrow> \<not> expired (nw 0) e))"
proof (cases "ob_AcknowledgedAt e = None \<and> expired (nw 0) e \<and> \<not> ob_EffectPossible e")
  case True
  then show ?thesis using assms by (auto simp: dispatchOp_def split: prod.splits)
next
  case False
  obtain s1 q where a: "ask_engine (f 1) (w_engine w) (op_call e p) e s = (s1, q)" by fastforce
  have "sd_engine s' = sd_engine s1"
    using assms(1) a unfolding dispatchOp_def if_not_P[OF False]
    by (auto simp: Let_def split: prod.splits sum.splits option.splits)
  then show ?thesis using ask_engine_call[OF a] assms(2) False by auto
qed

lemma dispatchSend_calls:
  assumes "dispatchClaimed cd cfg w e req cl s = (s', r)" "sd_engine s' \<noteq> sd_engine s" "\<not> isOpType (rq_Type req)"
  shows "sd_engine s' = sd_engine s @ [send_call e req] \<and> \<not> acknowledged e \<and>
    (ob_EffectPossible e \<or> (\<exists>x\<in>set (sd_outbox s). owned_row (ob_ID e) (ob_UpdatedAt e) x) \<and>
       (ob_AcknowledgedAt e = None \<longrightarrow> \<not> expired (w_now w 15) e))"
proof -
  have c0: "\<not> (ob_AcknowledgedAt e = None \<and> expired (w_now w 0) e \<and> \<not> ob_EffectPossible e)"
  proof
    assume c: "ob_AcknowledgedAt e = None \<and> expired (w_now w 0) e \<and> \<not> ob_EffectPossible e"
    show False using assms(1,2) unfolding dispatchClaimed_def Let_def if_P[OF c] by (auto split: prod.splits)
  qed
  obtain tb g where g: "limit_gate cd cfg w (w_faults w 2) (\<lambda>i. w_now w (3 + i)) cl e (sd_outbox s) = (tb, g)" by fastforce
  note d = assms(1)[unfolded dispatchClaimed_def Let_def if_not_P[OF c0] if_not_P[OF assms(3)] g]
  have gN: "g = None" using d assms(2) by (cases g) auto
  then have tb: "tb = sd_outbox s" using limit_gate_pass g by blast
  have c15: "\<not> (ob_AcknowledgedAt e = None \<and> expired (w_now w 15) e \<and> \<not> ob_EffectPossible e)"
  proof
    assume c: "ob_AcknowledgedAt e = None \<and> expired (w_now w 15) e \<and> \<not> ob_EffectPossible e"
    show False using d assms(2) unfolding gN prod.case option.case if_P[OF c] by (auto split: prod.splits)
  qed
  obtain s1 q where a: "ask_engine (w_faults w 4) (w_engine w) (send_call e req) e s = (s1, q)" by fastforce
  have "sd_engine s' = sd_engine s1"
    using d unfolding gN prod.case option.case if_not_P[OF c15] tb
    using a by (auto split: prod.splits sum.splits option.splits)
  then show ?thesis using ask_engine_call[OF a] assms(2) c15 by auto
qed

lemma dispatchClaimed_op:
  assumes "isOpType (rq_Type req)" "dispatchClaimed cd cfg w e req cl s = (s', r)" "sd_engine s' \<noteq> sd_engine s"
  obtains p where "cd_unmarshalOp cd (ob_Payload e) = Inr p"
    "dispatchOp cd cfg w (\<lambda>i. w_faults w (10 + i)) (\<lambda>i. w_now w (40 + i)) e p s = (s', r)"
  using assms
  by (cases "cd_unmarshalOp cd (ob_Payload e)")
    (auto simp: dispatchClaimed_def Let_def split: prod.splits if_splits option.splits)


text \<open>Property C4. Once an attempt may have reached WhatsApp, the command is never settled as
  failed, whatever the engine, the database, the clock and the limiter do; once the
  acknowledgement is recorded it is not settled as unknown either.\<close>

theorem possible_effect_never_failed:
  assumes "ob_EffectPossible e \<or> acknowledged e" "isOpType (rq_Type req) \<Longrightarrow> cd_unmarshalOp cd (ob_Payload e) = Inr p"
    "r' \<in> set (sd_outbox (fst (dispatchClaimed cd cfg w e req cl s)))" "r' \<notin> set (sd_outbox s)"
  shows "ob_ID r' = ob_ID e \<and> ob_Status r' \<noteq> OutboxFailed \<and> (acknowledged e \<longrightarrow> ob_Status r' \<noteq> OutboxUnknown)"
proof -
  have "moves (after_effect e) (ob_ID e) (sd_outbox s) (sd_outbox (fst (dispatchClaimed cd cfg w e req cl s)))"
    by (rule moves_dispatchClaimed[OF assms(1)]) (rule assms(2))
  then show ?thesis using assms(3,4) unfolding moves_def after_effect_def by (auto split: if_splits)
qed


section \<open>Success\<close>

lemma complete_row:
  assumes "complete cd ft e st (Some wa) nt t tb = (tb', None)"
  shows "\<exists>row\<in>set tb'. ob_ID row = ob_ID e \<and> ob_Status row = st \<and> ob_WAMessageID row = Some wa \<and>
    ob_UpdatedAt row = t \<and> ob_TerminalAt row = Some t"
proof -
  let ?P = "owned_row (ob_ID e) (ob_UpdatedAt e)"
  from assms have m: "matched ?P tb = 1" and ft: "ft = None"
    by (auto simp: complete_def CompleteOwned_def fenced_update_def lease_checked_def split: option.splits bool.splits)
  then obtain r where r: "r \<in> set tb" "?P r" using matched_0_iff[of ?P tb] by auto
  from assms ft have tb': "tb' = fst (CompleteOwned (cd_strip cd) None (ob_ID e) (ob_UpdatedAt e) st (Some wa) nt t tb)"
    by (auto simp: complete_def lease_checked_def split: prod.splits sum.splits bool.splits)
  show ?thesis unfolding tb' CompleteOwned_def fenced_update_def option.case fst_conv
    by (rule bexI[OF _ in_upd_rows_hit[where P = "?P", OF r]]) (use r(2) in \<open>simp add: owned_row_def\<close>)
qed

lemma projectSent_sent:
  assumes "projectSent cd cfg w e req res t tb = (tb', Inr r)" "so_Status r = MessageSent"
  shows "\<exists>f. complete cd f e OutboxSent (Some (er_WAMessageID res)) None t tb = (tb', None)"
    "r = sent_outcome e (er_WAMessageID res) t"
  using assms
  by (auto simp: projectSent_def deferProjection_def no_outcome_def Let_def
      split: prod.splits option.splits sum.splits bool.splits)

lemma sent_outcome_sel [simp]:
  "so_WAMessageID (sent_outcome e wa t) = wa" "so_Timestamp (sent_outcome e wa t) = t"
  "so_Status (sent_outcome e wa t) = MessageSent" "so_Mode (sent_outcome e wa t) = ModeSync"
  "so_OutboxID (sent_outcome e wa t) = ob_ID e"
  by (simp_all add: sent_outcome_def)

lemma ask_engine_entry:
  "ask_engine ft eng c e s = (s1, Inr (e1, a)) \<Longrightarrow> e1 = e \<or> e1 = e\<lparr>ob_EffectPossible := True\<rparr>"
  by (auto simp: ask_engine_def split: prod.splits option.splits if_splits)

definition settled_sent :: "outbox \<Rightarrow> string \<Rightarrow> string \<Rightarrow> int \<Rightarrow> bool" where
  "settled_sent tb oid wa t \<longleftrightarrow> (\<exists>row\<in>set tb. ob_ID row = oid \<and> ob_Status row = OutboxSent \<and>
     ob_WAMessageID row = Some wa \<and> ob_UpdatedAt row = t \<and> ob_TerminalAt row = Some t)"

lemma dispatchOp_sent:
  assumes "dispatchOp cd cfg w f nw e p s = (s', Inr r)"
  shows "settled_sent (sd_outbox s') (ob_ID e) (so_WAMessageID r) (so_Timestamp r) \<and> so_Status r = MessageSent \<and>
    so_OutboxID r = ob_ID e"
proof -
  have "\<not> (ob_AcknowledgedAt e = None \<and> expired (nw 0) e \<and> \<not> ob_EffectPossible e)"
    using assms unfolding dispatchOp_def by (metis (no_types, lifting) Inl_Inr_False case_prod_unfold snd_conv)
  note d = assms[unfolded dispatchOp_def if_not_P[OF this]]
  from d obtain s1 e1 res tb tb' where a: "ask_engine (f 1) (w_engine w) (op_call e p) e s = (s1, Inr (e1, Inr res))"
    and c: "complete cd (f 5) e1 OutboxSent (Some (er_WAMessageID res)) None (ack_timestamp (nw 2) res) tb = (tb', None)"
    and r: "s' = s1\<lparr>sd_outbox := tb'\<rparr>" "r = sent_outcome e (er_WAMessageID res) (ack_timestamp (nw 2) res)"
    by (auto simp: Let_def split: prod.splits sum.splits option.splits)
  have "ob_ID e1 = ob_ID e" using ask_engine_entry[OF a] by auto
  then show ?thesis using complete_row[OF c] r by (simp add: settled_sent_def)
qed

lemma dispatchSend_sent:
  assumes "dispatchClaimed cd cfg w e req cl s = (s', Inr r)" "\<not> isOpType (rq_Type req)" "so_Status r = MessageSent"
  shows "settled_sent (sd_outbox s') (ob_ID e) (so_WAMessageID r) (so_Timestamp r) \<and> so_OutboxID r = ob_ID e"
proof -
  from assms(1,2) obtain s0 s1 e1 res t tb tb' where
    a: "ask_engine (w_faults w 4) (w_engine w) (send_call e req) e s0 = (s1, Inr (e1, Inr res))"
    and q: "projectSent cd cfg w e1 req res t tb = (tb', Inr r)" "s' = s1\<lparr>sd_outbox := tb'\<rparr>"
    by (auto simp: dispatchClaimed_def Let_def split: prod.splits sum.splits option.splits if_splits)
  have "ob_ID e1 = ob_ID e" using ask_engine_entry[OF a] by auto
  then show ?thesis
    using projectSent_sent[OF q(1) assms(3)] complete_row[of cd _ e1 OutboxSent] q(2) by (fastforce simp: settled_sent_def)
qed

lemma dispatchClaimed_sent:
  assumes "dispatchClaimed cd cfg w e req cl s = (s', Inr r)" "so_Status r = MessageSent"
  shows "settled_sent (sd_outbox s') (ob_ID e) (so_WAMessageID r) (so_Timestamp r) \<and> so_OutboxID r = ob_ID e"
proof (cases "isOpType (rq_Type req)")
  case True
  with assms(1) obtain p f nw where "dispatchOp cd cfg w f nw e p s = (s', Inr r)"
    by (auto simp: dispatchClaimed_def Let_def split: prod.splits if_splits sum.splits option.splits)
  then show ?thesis using dispatchOp_sent by blast
qed (use dispatchSend_sent assms in blast)

lemma replay_settled:
  assumes "settled_sent tb oid wa t"
  shows "\<exists>row\<in>set tb. ob_ID row = oid \<and> ob_TerminalAt row \<noteq> None \<and> so_Status (replayOutboxResult cd row) = MessageSent \<and>
    so_WAMessageID (replayOutboxResult cd row) = wa \<and> so_Timestamp (replayOutboxResult cd row) = t"
proof -
  from assms obtain row where "row \<in> set tb" "ob_ID row = oid" "ob_Status row = OutboxSent" "ob_WAMessageID row = Some wa"
    "ob_UpdatedAt row = t" "ob_TerminalAt row = Some t" unfolding settled_sent_def by blast
  then show ?thesis by (intro bexI[of _ row]) (simp_all add: replayOutboxResult_def Let_def)
qed

text \<open>A dispatch that reports a sent message has settled its row: the row is
  terminal, and an idempotent replay of it answers with the same status, WhatsApp message
  id and timestamp.\<close>

theorem reported_send_replays:
  assumes "dispatchClaimed cd cfg w e req cl s = (s', Inr r)" "so_Status r = MessageSent"
  shows "\<exists>row\<in>set (sd_outbox s'). ob_ID row = ob_ID e \<and> ob_TerminalAt row \<noteq> None \<and>
    so_Status (replayOutboxResult cd row) = MessageSent \<and>
    so_WAMessageID (replayOutboxResult cd row) = so_WAMessageID r \<and>
    so_Timestamp (replayOutboxResult cd row) = so_Timestamp r"
  using dispatchClaimed_sent[OF assms] replay_settled by blast


section \<open>Idempotent replay\<close>

definition keyed :: "string \<Rightarrow> string \<Rightarrow> outbox_entry \<Rightarrow> bool" where
  "keyed org k r \<longleftrightarrow> ob_OrganizationID r = org \<and> ob_IdempotencyKey r = Some k"

text \<open>The command that holds a key: its id and session.\<close>

definition holder :: "string \<Rightarrow> string \<Rightarrow> outbox \<Rightarrow> (string \<times> string) option" where
  "holder org k tb = map_option (\<lambda>r. (ob_ID r, ob_SessionID r)) (find (keyed org k) tb)"

lemma holder_of_idents:
  "holder org k tb = map_option (\<lambda>(i, _, sid, _). (i, sid)) (find (\<lambda>(_, o1, _, k1). o1 = org \<and> k1 = Some k) (idents tb))"
  unfolding holder_def by (induction tb) (auto simp: ident_def keyed_def)

lemma holder_idents: "idents tb' = idents tb \<Longrightarrow> holder org k tb' = holder org k tb"
  by (simp only: holder_of_idents)

lemma GetByIdempotency_keyed:
  "GetByIdempotency ft org k tb = (case ft of Some er \<Rightarrow> Inl (notFound er ''outbox entry'')
     | None \<Rightarrow> (case find (keyed org k) tb of None \<Rightarrow> Inl (notFound ErrNoRows ''outbox entry'') | Some r \<Rightarrow> Inr r))"
proof -
  have "keyed org k = (\<lambda>r. ob_OrganizationID r = org \<and> ob_IdempotencyKey r = Some k)" by (simp add: keyed_def fun_eq_iff)
  then show ?thesis by (simp add: GetByIdempotency_def split: option.split)
qed

lemma prior_holder:
  "priorByIdempotency ft org k tb = Inr (Some r) \<Longrightarrow> holder org k tb = Some (ob_ID r, ob_SessionID r)"
  by (auto simp: priorByIdempotency_def GetByIdempotency_keyed holder_def split: option.splits if_splits)

lemma holder_prior:
  assumes "holder org k tb = Some (oid, sid)"
  shows "\<exists>r. priorByIdempotency None org k tb = Inr (Some r) \<and> ob_ID r = oid \<and> ob_SessionID r = sid"
  using assms by (auto simp: priorByIdempotency_def GetByIdempotency_keyed holder_def)

lemma Insert_holder:
  assumes "Insert ft e tb = (tb', Inr u)" "ob_IdempotencyKey e = Some k"
  shows "holder (ob_OrganizationID e) k tb' = Some (ob_ID e, ob_SessionID e)"
proof -
  from assms(1) have c: "\<forall>r\<in>set tb. \<not> outbox_conflict e r" and t: "tb' = tb @ [e\<lparr>ob_AcknowledgedAt := None, ob_EffectPossible := False\<rparr>]"
    by (auto simp: Insert_def split: option.splits if_splits)
  have "find (keyed (ob_OrganizationID e) k) (tb @ [x]) = find (keyed (ob_OrganizationID e) k) [x]" for x
    using c assms(2) by (induction tb) (auto simp: keyed_def outbox_conflict_def)
  then show ?thesis using assms(2) by (simp add: t holder_def keyed_def)
qed

lemma insertCommand_holder:
  assumes "insertCommand cd ft e req tb = (tb', Inr e')" "ob_IdempotencyKey e = Some k"
  shows "holder (ob_OrganizationID e) k tb' = Some (ob_ID e, ob_SessionID e)"
  using assms Insert_holder[of ft "e\<lparr>ob_Payload := _\<rparr>" tb tb' _ k]
  by (fastforce simp: insertCommand_def split: sum.splits prod.splits)

lemma newCommand_sel [simp]:
  "ob_ID (newCommand u sess k st t ex) = u" "ob_SessionID (newCommand u sess k st t ex) = wi_ID sess"
  "ob_OrganizationID (newCommand u sess k st t ex) = wi_OrganizationID sess"
  "k \<noteq> [] \<Longrightarrow> ob_IdempotencyKey (newCommand u sess k st t ex) = Some k"
  by (simp_all add: newCommand_def optionalString_def)

lemma replay_id [simp]: "so_OutboxID (replayOutboxResult cd r) = ob_ID r" "so_Replayed (replayOutboxResult cd r)"
  by (simp_all add: replayOutboxResult_def no_outcome_def Let_def split: outbox_status.splits)

lemma replay_or_fail_holder:
  "replay_or_fail cd ft org sid k e tb = Inr r \<Longrightarrow> holder org k tb = Some (so_OutboxID r, sid)"
  using prior_holder[of ft org k tb]
  by (auto simp: replay_or_fail_def split: if_splits sum.splits option.splits)

lemma enqueueAsync_holder:
  assumes "enqueueAsync cd w ulid sess req opts s = (s', Inr r)" "opt_IdempotencyKey opts \<noteq> []"
  shows "holder (wi_OrganizationID sess) (opt_IdempotencyKey opts) (sd_outbox s') = Some (so_OutboxID r, wi_ID sess)"
  using assms by (auto simp: enqueueAsync_def Let_def split: prod.splits sum.splits
      dest!: insertCommand_holder replay_or_fail_holder)

lemma sendSync_holder:
  assumes "sendSync cd cfg w ulid sess req opts s = (s', Inr r)" "opt_IdempotencyKey opts \<noteq> []"
  shows "holder (wi_OrganizationID sess) (opt_IdempotencyKey opts) (sd_outbox s') = Some (so_OutboxID r, wi_ID sess)"
proof -
  define e where "e = (newCommand ulid sess (opt_IdempotencyKey opts) OutboxSending (w_now w 104) (rq_ExpiresAt req))\<lparr>ob_Attempts := 1\<rparr>"
  have e: "ob_ID e = ulid" "ob_SessionID e = wi_ID sess" "ob_OrganizationID e = wi_OrganizationID sess"
    "ob_IdempotencyKey e = Some (opt_IdempotencyKey opts)" using assms(2) by (simp_all add: e_def)
  obtain tb q where i: "insertCommand cd (w_faults w 101) e req (sd_outbox s) = (tb, q)" by fastforce
  show ?thesis
  proof (cases q)
    case (Inl er)
    then show ?thesis using assms(1) i
      by (auto simp: sendSync_def e_def[symmetric] split: sum.splits bool.splits option.splits dest!: replay_or_fail_holder)
  next
    case (Inr e')
    then obtain s2 r2 where d: "dispatchClaimed cd cfg w e req False (s\<lparr>sd_outbox := tb\<rparr>) = (s', Inr r2)" "so_OutboxID r = ulid"
      using assms(1) i by (auto simp: sendSync_def e_def[symmetric] e split: sum.splits bool.splits option.splits prod.splits)
    have "holder (wi_OrganizationID sess) (opt_IdempotencyKey opts) tb = Some (ulid, wi_ID sess)"
      using insertCommand_holder[OF i[unfolded Inr] e(4)] e by simp
    then show ?thesis using holder_idents[OF idents_dispatchClaimed[OF d(1)]] d(2) by simp
  qed
qed

lemma Send_holder:
  assumes "Send cd cfg w ulid org sid req opts s = (s', Inr r)" "opt_IdempotencyKey opts \<noteq> []"
    "\<And>sess. w_session w sid = Inr sess \<Longrightarrow> wi_ID sess = sid"
  shows "holder org (opt_IdempotencyKey opts) (sd_outbox s') = Some (so_OutboxID r, sid)"
proof -
  from assms(1) obtain sess where sess: "w_session w sid = Inr sess" "wi_OrganizationID sess = org"
    by (auto simp: Send_def session_of_def split: sum.splits if_splits)
  then show ?thesis using assms(1,2) assms(3)[OF sess(1)]
    enqueueAsync_holder[of cd w ulid sess req opts s s' r] sendSync_holder[of cd cfg w ulid sess req opts s s' r]
    by (auto simp: Send_def session_of_def split: sum.splits option.splits if_splits dest: prior_holder)
qed



section \<open>Retries\<close>

lemma backoff_range:
  assumes "normalize_config cfg = None"
  shows "0 < backoff cfg a \<and> backoff cfg a \<le> cf_BackoffCap cfg"
  using assms by (auto simp: normalize_config_def backoff_def Let_def split: if_splits)

text \<open>The wait before a retry is always positive and at most the cap, also where
  the 64-bit shift overflows; and as long as it does not, it is the base doubled with every
  attempt, up to the cap.\<close>

theorem backoff_exponential:
  assumes "normalize_config cfg = None" "1 \<le> a"
  shows "0 < backoff cfg a \<and> backoff cfg a \<le> cf_BackoffCap cfg \<and>
    (cf_BackoffBase cfg * 2 ^ nat (a - 1) < 2 ^ 63 \<longrightarrow>
       backoff cfg a = min (cf_BackoffCap cfg) (cf_BackoffBase cfg * 2 ^ nat (a - 1)))"
proof -
  have base: "0 < cf_BackoffBase cfg" using assms(1) by (auto simp: normalize_config_def split: if_splits)
  have "backoff cfg a = min (cf_BackoffCap cfg) (cf_BackoffBase cfg * 2 ^ nat (a - 1))"
    if "cf_BackoffBase cfg * 2 ^ nat (a - 1) < 2 ^ 63"
  proof -
    have "shl64 (cf_BackoffBase cfg) (nat (a - 1)) = cf_BackoffBase cfg * 2 ^ nat (a - 1)"
      unfolding shl64_def by (rule i64_nonneg_id) (use base that in simp_all)
    moreover have "0 < cf_BackoffBase cfg * 2 ^ nat (a - 1)" using base by simp
    ultimately show ?thesis unfolding backoff_def Let_def by (simp add: min_def)
  qed
  then show ?thesis using backoff_range[OF assms(1)] by blast
qed

definition attempt_no :: "outbox_entry \<Rightarrow> int" where
  "attempt_no e = (if ob_Attempts e \<le> 0 then 1 else ob_Attempts e)"

lemma owned_update:
  assumes "unique_ids tb" "x \<in> set tb" "owned_row oid stamp x"
  shows "fst (fenced_update what None (owned_row oid stamp) g tb) = upd_rows (\<lambda>r. ob_ID r = oid) g tb"
    "snd (fenced_update what None (owned_row oid stamp) g tb) = Inr True"
proof -
  have "owned_row oid stamp r \<longleftrightarrow> ob_ID r = oid" if "r \<in> set tb" for r
    using unique_idsD[OF assms(1) that assms(2)] assms(3) by (auto simp: owned_row_def)
  then show "fst (fenced_update what None (owned_row oid stamp) g tb) = upd_rows (\<lambda>r. ob_ID r = oid) g tb"
    by (simp add: fenced_update_def upd_rows_def)
  have "matched (owned_row oid stamp) tb = 1"
    by (rule matched_one[where P = "owned_row oid stamp", OF assms]) (use assms(3) in \<open>auto simp: owned_row_def\<close>)
  then show "snd (fenced_update what None (owned_row oid stamp) g tb) = Inr True" by (simp add: fenced_update_def)
qed

lemma fst_complete: "fst (complete cd ft e st wa nt t tb) =
    fst (CompleteOwned (cd_strip cd) ft (ob_ID e) (ob_UpdatedAt e) st wa nt t tb)"
  by (simp add: complete_def)

text \<open>A failed attempt without a definite outcome, while the lease is held: an
  expired command or the last attempt settles the row, as unknown when the effect is
  possible and as failed otherwise; every other attempt leaves it queued, due after the
  backoff of this attempt.\<close>

theorem ambiguous_outcome:
  assumes "unique_ids tb" "x \<in> set tb" "owned_row (ob_ID e) (ob_UpdatedAt e) x"
    "ambiguous cd cfg None nw e cause tb = (tb', er)"
  shows "\<exists>row\<in>set tb'. ob_ID row = ob_ID e \<and>
    (if expired (nw 0) e \<or> cf_MaxAttempts cfg \<le> attempt_no e
     then ob_TerminalAt row = Some (UnixMilli (nw 1)) \<and>
       ob_Status row = (if ob_EffectPossible e then OutboxUnknown else OutboxFailed)
     else ob_TerminalAt row = None \<and> ob_Status row = OutboxQueued \<and>
       ob_NextAttemptAt row = UnixMilli (nw 2 + backoff cfg (attempt_no e)))"
proof -
  have idx: "ob_ID x = ob_ID e" "ob_TerminalAt x = None" using assms(3) by (auto simp: owned_row_def)
  note upd = owned_update[OF assms(1-3)]
  have hit: "g x \<in> set (upd_rows (\<lambda>r. ob_ID r = ob_ID e) g tb)" for g
    by (rule in_upd_rows_hit[where P = "\<lambda>r. ob_ID r = ob_ID e", OF assms(2) idx(1)])
  have done': "\<exists>row\<in>set (fst (complete cd None e st None nt t tb)). ob_ID row = ob_ID e \<and> ob_TerminalAt row = Some t \<and> ob_Status row = st"
    for st nt t
    unfolding fst_complete CompleteOwned_def upd(1) by (rule bexI[OF _ hit]) (simp add: idx)
  have tb': "tb' = fst (ambiguous cd cfg None nw e cause tb)" using assms(4) by simp
  show ?thesis
  proof (cases "expired (nw 0) e \<or> cf_MaxAttempts cfg \<le> attempt_no e")
    case True
    let ?st = "if ob_EffectPossible e then OutboxUnknown else OutboxFailed"
    have "\<exists>nt. tb' = fst (complete cd None e ?st None nt (UnixMilli (nw 1)) tb)"
      using True unfolding tb' ambiguous_def expireClaim_def Let_def attempt_no_def[symmetric]
      by (cases "expired (nw 0) e"; cases "ob_EffectPossible e") (auto simp: fst_case_option)
    then show ?thesis using done'[of ?st _ "UnixMilli (nw 1)"] True by auto
  next
    case False
    then obtain nt up where r: "tb' = fst (Reschedule None (ob_ID e) (ob_UpdatedAt e) nt
        (UnixMilli (nw 2 + backoff cfg (attempt_no e))) up tb)"
      unfolding tb' ambiguous_def Let_def attempt_no_def[symmetric] by (auto simp: fst_case_sum)
    show ?thesis unfolding if_not_P[OF False] r[unfolded Reschedule_def upd(1)] by (rule bexI[OF _ hit]) (simp add: idx)
  qed
qed


section \<open>One poll of the worker\<close>

lemma dispatchClaimed_calls:
  "\<exists>cs. sd_engine (fst (dispatchClaimed cd cfg w e req cl s)) = sd_engine s @ cs \<and> map call_id cs \<in> {[], [ob_ID e]}"
proof (cases "sd_engine (fst (dispatchClaimed cd cfg w e req cl s)) = sd_engine s")
  case False
  obtain s' r where d: "dispatchClaimed cd cfg w e req cl s = (s', r)" by fastforce
  then have "sd_engine s' \<noteq> sd_engine s" using False by simp
  note ne = this
  show ?thesis
  proof (cases "isOpType (rq_Type req)")
    case True
    then obtain p where "dispatchOp cd cfg w (\<lambda>i. w_faults w (10 + i)) (\<lambda>i. w_now w (40 + i)) e p s = (s', r)"
      by (rule dispatchClaimed_op[OF _ d ne])
    from dispatchOp_calls[OF this ne] show ?thesis by (auto simp: d)
  next
    case False
    from dispatchSend_calls[OF d ne False] show ?thesis by (auto simp: d)
  qed
qed auto

lemma process_claimed_calls:
  "\<exists>cs. sd_engine (process_claimed cd cfg ws i es s) = sd_engine s @ cs \<and> subseq (map call_id cs) (map ob_ID es)"
proof (induction cd cfg ws i es s rule: process_claimed.induct)
  case (2 cd cfg ws i e es s)
  define s1 where "s1 = (case cd_unmarshal cd (ob_Payload e) of
      Inl _ \<Rightarrow> s\<lparr>sd_outbox := fst (complete cd (w_faults (ws i) 0) e OutboxFailed None
                    (Some ''malformed stored payload'') (UnixMilli (w_now (ws i) 0)) (sd_outbox s))\<rparr>
    | Inr req \<Rightarrow> fst (dispatchClaimed cd cfg (ws i) e req True s))"
  have "\<exists>cs. sd_engine s1 = sd_engine s @ cs \<and> map call_id cs \<in> {[], [ob_ID e]}"
    unfolding s1_def using dispatchClaimed_calls[of cd cfg "ws i" e _ True s] by (auto split: sum.splits)
  then obtain cs1 where c1: "sd_engine s1 = sd_engine s @ cs1" "map call_id cs1 \<in> {[], [ob_ID e]}"
    by (elim exE conjE) (rule that)
  from 2 obtain cs2 where c2: "sd_engine (process_claimed cd cfg ws (Suc i) es s1) = sd_engine s1 @ cs2"
    "subseq (map call_id cs2) (map ob_ID es)" unfolding s1_def[symmetric] by (elim exE conjE) (rule that)
  have "subseq (map call_id (cs1 @ cs2)) (map ob_ID (e # es))" using c1(2) c2(2) by auto
  moreover have "process_claimed cd cfg ws i (e # es) s = process_claimed cd cfg ws (Suc i) es s1"
    by (simp only: process_claimed.simps s1_def)
  ultimately show ?case using c1(1) c2(1) by (intro exI[of _ "cs1 @ cs2"]) simp
qed simp

text \<open>One poll of the worker hands each command to the engine at most once, in due
  order, and only commands that were due (queued and ready, or a stale lease) and not yet
  settled when the poll claimed them; at most a page of them.\<close>

theorem processDue_calls:
  assumes "unique_ids (sd_outbox s)"
  shows "\<exists>cs. sd_engine (processDue cd cfg clock f c locked ws s) = sd_engine s @ cs \<and>
    distinct (map call_id cs) \<and> length cs \<le> 200 \<and>
    (\<forall>k\<in>set cs. \<exists>r\<in>set (sd_outbox s). ob_ID r = call_id k \<and> ob_TerminalAt r = None \<and>
       due_row (UnixMilli clock) (UnixMilli clock - Milliseconds (cf_Lease cfg)) r)"
proof -
  let ?due = "UnixMilli clock" and ?st = "UnixMilli clock - Milliseconds (cf_Lease cfg)"
  obtain tb q where cl: "ClaimDue f c locked (cf_Batch cfg) ?due ?st ?due (sd_outbox s) = (tb, q)" by fastforce
  show ?thesis
  proof (cases q)
    case (Inl er)
    then show ?thesis by (intro exI[of _ "[]"]) (simp add: processDue_def Let_def cl)
  next
    case (Inr es)
    note res = ClaimDue_result[OF assms cl[unfolded Inr]]
    obtain cs where cs: "sd_engine (processDue cd cfg clock f c locked ws s) = sd_engine s @ cs"
      "subseq (map call_id cs) (map ob_ID es)"
      using process_claimed_calls[of cd cfg ws 0 es "s\<lparr>sd_outbox := tb\<rparr>"] by (auto simp: processDue_def Let_def cl Inr)
    have "distinct (map call_id cs)" using cs(2) res(1,3) by (auto simp: subseq_conv_nths comp_def intro: distinct_nthsI)
    moreover have "length cs \<le> 200" using list_emb_length[OF cs(2)] res(1,6) by simp
    moreover have "\<exists>r\<in>set (sd_outbox s). ob_ID r = call_id k \<and> ob_TerminalAt r = None \<and> due_row ?due ?st r" if "k \<in> set cs" for k
    proof -
      have "call_id k \<in> ob_ID ` set es" using that list_emb_set[OF cs(2), of "call_id k"] by force
      then show ?thesis using res(8) due_row_open by (fastforce simp: image_iff)
    qed
    ultimately show ?thesis using cs(1) by blast
  qed
qed


section \<open>Witnesses\<close>

definition demo_codec :: codec where
  "demo_codec = \<lparr>cd_marshal = (\<lambda>_. Inr ''{}''), cd_unmarshal = (\<lambda>_. Inr demo_text), cd_marshalOp = (\<lambda>_. Inr ''{}''),
     cd_unmarshalOp = (\<lambda>_. Inr (opRequestToPayload \<lparr>oq_Op = ''edit'', oq_ExpiresAt = None, oq_IdempotencyKey = [],
        oq_Chat = ''c'', oq_Sender = [], oq_MsgID = ''m'', oq_Emoji = [], oq_NewText = ''t'', oq_Options = [], oq_To = []\<rparr>)),
     cd_strip = (\<lambda>x. x), cd_commandMessageID = (\<lambda>c n. c @ show_nat n), cd_url = no_urls\<rparr>"

definition demo_cfg :: scheduler_config where
  "demo_cfg = \<lparr>cf_Lease = 1000, cf_Batch = 5, cf_Poll = 1, cf_MaxAttempts = 3, cf_BackoffBase = 2, cf_BackoffCap = 10, cf_hasNow = True\<rparr>"

definition demo_world :: world where
  "demo_world = \<lparr>w_now = (\<lambda>n. int n * 1000000), w_faults = no_faults,
     w_session = (\<lambda>i. Inr \<lparr>wi_ID = i, wi_OrganizationID = ''org'', wi_RatePerMin = 1, wi_RatePerHour = 1\<rparr>),
     w_allow = (\<lambda>_ _ _. Inr (True, 0)),
     w_engine = (\<lambda>_. Inr \<lparr>er_WAMessageID = ''wa'', er_SentAt = 5000000, er_PreparedPayload = None\<rparr>),
     w_capture = None, w_recorder = None, w_publish = None\<rparr>"

definition demo_lease :: outbox_entry where
  "demo_lease = leased 10 demo_row"

definition demo_sched :: sched where
  "demo_sched = \<lparr>sd_outbox = [demo_lease], sd_engine = []\<rparr>"

definition demo_sent_row :: outbox_entry where
  "demo_sent_row = demo_lease\<lparr>ob_Status := OutboxSent, ob_WAMessageID := Some ''wa'', ob_AcknowledgedAt := Some 5,
     ob_EffectPossible := True, ob_TerminalAt := Some 5, ob_UpdatedAt := 5\<rparr>"

lemmas demo_scheduler_defs = demo_codec_def demo_cfg_def demo_world_def demo_lease_def demo_sched_def demo_row_def demo_text_def
  leased_def no_faults_def

lemma demo_dispatch:
  "dispatchClaimed demo_codec demo_cfg demo_world demo_lease demo_text False demo_sched =
    (\<lparr>sd_outbox = [demo_sent_row], sd_engine = [send_call demo_lease demo_text]\<rparr>, Inr (sent_outcome demo_lease ''wa'' 5))"
  by code_simp


theorem reported_send_replays_witness: "so_WAMessageID (replayOutboxResult demo_codec demo_sent_row) = ''wa''"
  using reported_send_replays[OF demo_dispatch] by simp


text \<open>A command whose effect is possible, with an engine that now rejects it.\<close>

definition demo_possible :: outbox_entry where
  "demo_possible = demo_lease\<lparr>ob_EffectPossible := True\<rparr>"

definition demo_rejecting :: world where
  "demo_rejecting = demo_world\<lparr>w_engine := (\<lambda>_. Inl (ErrValidation ''no''))\<rparr>"

definition demo_retried :: outbox where
  "demo_retried = sd_outbox (fst (dispatchClaimed demo_codec demo_cfg demo_rejecting demo_possible demo_text False
     (demo_sched\<lparr>sd_outbox := [demo_possible]\<rparr>)))"

theorem possible_effect_never_failed_witness: "ob_ID (hd demo_retried) = ''ob1'' \<and> ob_Status (hd demo_retried) \<noteq> OutboxFailed"
proof -
  have "\<not> isOpType (rq_Type demo_text)" "hd demo_retried \<noteq> demo_possible" "demo_retried \<noteq> []" "ob_ID demo_possible = ''ob1''"
    by code_simp+
  then show ?thesis
    using possible_effect_never_failed[of demo_possible demo_text demo_codec _ "hd demo_retried" demo_cfg demo_rejecting False
        "demo_sched\<lparr>sd_outbox := [demo_possible]\<rparr>"] hd_in_set[of demo_retried]
    unfolding demo_retried_def[symmetric] by (simp add: demo_possible_def)
qed

definition demo_empty :: sched where
  "demo_empty = \<lparr>sd_outbox = [], sd_engine = []\<rparr>"

definition demo_opts :: send_options where
  "demo_opts = \<lparr>opt_IdempotencyKey = ''key'', opt_Async = False\<rparr>"

lemma demo_first_send: "\<exists>s' r. Send demo_codec demo_cfg demo_world ''u1'' ''org'' ''s'' demo_text demo_opts demo_empty = (s', Inr r) \<and>
    so_OutboxID r = ''u1'' \<and> length (sd_engine s') = 1"
proof -
  have "case Send demo_codec demo_cfg demo_world ''u1'' ''org'' ''s'' demo_text demo_opts demo_empty of
      (s', Inr r) \<Rightarrow> so_OutboxID r = ''u1'' \<and> length (sd_engine s') = 1 | (s', Inl e) \<Rightarrow> False"
    by code_simp
  then show ?thesis by (auto split: prod.splits sum.splits)
qed


theorem backoff_exponential_witness: "backoff demo_cfg 2 = 4 \<and> backoff demo_cfg 64 \<le> 10"
  using backoff_exponential[of demo_cfg 2] backoff_exponential[of demo_cfg 64] by (simp add: demo_cfg_def normalize_config_def)

theorem ambiguous_outcome_witness:
  "\<exists>row\<in>set (fst (ambiguous demo_codec demo_cfg None (\<lambda>n. int n) demo_lease ''x'' [demo_lease])). ob_Status row = OutboxQueued"
proof -
  have "unique_ids [demo_lease]" "owned_row (ob_ID demo_lease) (ob_UpdatedAt demo_lease) demo_lease"
    by (simp_all add: unique_ids_def owned_row_def demo_scheduler_defs)
  from ambiguous_outcome[OF this(1) _ this(2) prod.collapse[symmetric], of demo_codec demo_cfg "\<lambda>n. int n" "''x''"]
  show ?thesis by (auto simp: demo_scheduler_defs attempt_no_def expired_def)
qed

theorem processDue_calls_witness:
  "\<exists>cs. sd_engine (processDue demo_codec demo_cfg 20000000 no_faults None (\<lambda>_. False) (\<lambda>_. demo_world)
       (demo_empty\<lparr>sd_outbox := [demo_row]\<rparr>)) = cs \<and> map call_id cs = [''ob1''] \<and> distinct (map call_id cs)"
proof -
  have u: "unique_ids (sd_outbox (demo_empty\<lparr>sd_outbox := [demo_row]\<rparr>))" by (simp add: unique_ids_def)
  have "map call_id (sd_engine (processDue demo_codec demo_cfg 20000000 no_faults None (\<lambda>_. False) (\<lambda>_. demo_world)
       (demo_empty\<lparr>sd_outbox := [demo_row]\<rparr>))) = [''ob1'']" by code_simp
  then show ?thesis
    using processDue_calls[OF u, of demo_codec demo_cfg 20000000 no_faults None "\<lambda>_. False" "\<lambda>_. demo_world"] by auto
qed

end
