(* ===== verification/EventLog.thy ===== *)
theory EventLog
  imports Durable_Log Ownership
begin

text \<open>
  The event log and the claims on outgoing messages (src/backend/internal/store/event_log.go
  and outgoing_event_claim.go, with the statements of store/queries/event_log.sql and the
  tables of migrations 0001, 0011, 0012 and 0016). Values fit the widths of their columns.
\<close>

section \<open>Payloads\<close>

text \<open>A payload is the text of a JSON value, or text that is none.\<close>

datatype json =
    JNull
  | JBool bool
  | JNumber string
  | JString string
  | JArray "json list"
  | JObject "(string \<times> json) list"

datatype payload = Text string | Json json

text \<open>\<open>encoding/json\<close> matches the keys of an object to fields without regard to case; a later
  key overrides an earlier one, \<open>null\<close> leaves a field as it is, and a value of another type
  is an error. \<open>json.Unmarshal\<close> of \<open>null\<close> into a struct changes nothing.\<close>

record echo_identity =
  ec_WAMessageID :: string
  ec_ChatJID :: string
  ec_FromMe :: bool

definition echo_field :: "string \<Rightarrow> json \<Rightarrow> echo_identity \<Rightarrow> echo_identity option" where
  "echo_field k v e =
     (let n = map lower_char k in
      if n = ''wamessageid'' then
        (case v of JString s \<Rightarrow> Some (e\<lparr>ec_WAMessageID := s\<rparr>) | JNull \<Rightarrow> Some e | _ \<Rightarrow> None)
      else if n = ''chatjid'' then
        (case v of JString s \<Rightarrow> Some (e\<lparr>ec_ChatJID := s\<rparr>) | JNull \<Rightarrow> Some e | _ \<Rightarrow> None)
      else if n = ''fromme'' then
        (case v of JBool b \<Rightarrow> Some (e\<lparr>ec_FromMe := b\<rparr>) | JNull \<Rightarrow> Some e | _ \<Rightarrow> None)
      else Some e)"

fun echo_fields :: "(string \<times> json) list \<Rightarrow> echo_identity \<Rightarrow> echo_identity option" where
  "echo_fields [] e = Some e"
| "echo_fields ((k, v) # kvs) e = (case echo_field k v e of None \<Rightarrow> None | Some e' \<Rightarrow> echo_fields kvs e')"

definition echo_identity_of :: "payload \<Rightarrow> echo_identity option" where
  "echo_identity_of p =
     (let zero = \<lparr>ec_WAMessageID = [], ec_ChatJID = [], ec_FromMe = False\<rparr> in
      case p of
        Json JNull \<Rightarrow> Some zero
      | Json (JObject kvs) \<Rightarrow> echo_fields kvs zero
      | _ \<Rightarrow> None)"

text \<open>The object read into a \<open>map[string]json.RawMessage\<close> without one key, and marshalled
  again: one value per key, the keys in order.\<close>

definition strip_key :: "string \<Rightarrow> payload \<Rightarrow> payload" where
  "strip_key key p =
     (case p of
        Json (JObject kvs) \<Rightarrow>
          if key \<in> fst ` set kvs
          then Json (JObject (map (\<lambda>k. (k, the (map_of (rev kvs) k))) (sort (remdups (filter (\<lambda>k. k \<noteq> key) (map fst kvs))))))
          else p
      | _ \<Rightarrow> p)"

section \<open>Tables\<close>

record log_row =
  el_ID :: nat
  el_EventID :: string
  el_OrganizationID :: string
  el_SessionID :: string
  el_Type :: string
  el_Payload :: payload
  el_CreatedAt :: int

record outgoingEventIdentity =
  oi_organizationID :: string
  oi_sessionID :: string
  oi_chatJID :: string
  oi_waMessageID :: string

record outgoing_claim =
  oc_identity :: outgoingEventIdentity
  oc_EventID :: string
  oc_Owner :: string

record ingested_row =
  in_EventID :: string
  in_GatewayID :: string
  in_ConnectionEpoch :: nat
  in_SessionID :: string
  in_AssignmentEpoch :: nat
  in_OrganizationID :: string
  in_EventLogID :: string
  in_CommittedAt :: int
  in_ClaimedBy :: "string option"
  in_LeaseUntil :: "int option"
  in_CompletedAt :: "int option"

text \<open>The database of the API: the gateway registry, the event log with its next surrogate id,
  the claims, the ledger of ingested events, and the tables \<open>'m\<close> the media capture writes.\<close>

record 'm event_db =
  ev_registry :: registry
  ev_log :: "log_row list"
  ev_nextID :: nat
  ev_claims :: "outgoing_claim list"
  ev_ingested :: "ingested_row list"
  ev_media :: 'm

definition EventMessageFromMe :: string where "EventMessageFromMe = ''message.from_me''"
definition EventHistoryBatch :: string where "EventHistoryBatch = ''history.batch''"
definition Schema :: string where "Schema = ''v1''"

record event_log_entry =
  le_EventID :: string
  le_OrganizationID :: string
  le_SessionID :: string
  le_Type :: string
  le_Payload :: payload
  le_CreatedAt :: int

abbreviation ErrDuplicateEvent :: go_err where
  "ErrDuplicateEvent \<equiv> SQLError 1062 ''Duplicate entry for key event_log.uq_event_id''"

abbreviation ErrInvalidJSON :: go_err where
  "ErrInvalidJSON \<equiv> SQLError 3140 ''Invalid JSON text in column event_log.payload''"

definition logged :: "string \<Rightarrow> 'm event_db \<Rightarrow> bool" where
  "logged eid db \<longleftrightarrow> eid \<in> el_EventID ` set (ev_log db)"

text \<open>\<open>INSERT INTO event_log\<close>: the payload column holds JSON and \<open>event_id\<close> is unique;
  \<open>INSERT IGNORE\<close> skips a duplicate.\<close>

definition add_log_row :: "event_log_entry \<Rightarrow> 'm event_db \<Rightarrow> 'm event_db" where
  "add_log_row e db = db\<lparr>ev_log := ev_log db @ [\<lparr>el_ID = ev_nextID db, el_EventID = le_EventID e,
       el_OrganizationID = le_OrganizationID e, el_SessionID = le_SessionID e, el_Type = le_Type e,
       el_Payload = le_Payload e, el_CreatedAt = le_CreatedAt e\<rparr>],
     ev_nextID := Suc (ev_nextID db)\<rparr>"

definition insert_log :: "bool \<Rightarrow> event_log_entry \<Rightarrow> 'm event_db \<Rightarrow> 'm event_db result" where
  "insert_log ignore e db =
     (case le_Payload e of
        Text _ \<Rightarrow> Inl ErrInvalidJSON
      | Json _ \<Rightarrow>
          if logged (le_EventID e) db then (if ignore then Inr db else Inl ErrDuplicateEvent)
          else Inr (add_log_row e db))"

section \<open>Outgoing message claims\<close>

text \<open>The statement is \<open>INSERT IGNORE\<close>: the row is skipped when the identity or the event id is
  already claimed, or when the session does not exist (a foreign key).\<close>

definition insert_claim :: "outgoingEventIdentity \<Rightarrow> string \<Rightarrow> string \<Rightarrow> 'm event_db \<Rightarrow> 'm event_db" where
  "insert_claim i eid own db =
     (if (\<exists>c\<in>set (ev_claims db). oc_identity c = i \<or> oc_EventID c = eid) \<or>
         oi_sessionID i \<notin> ws_ID ` set (rg_sessions (ev_registry db))
      then db
      else db\<lparr>ev_claims := ev_claims db @ [\<lparr>oc_identity = i, oc_EventID = eid, oc_Owner = own\<rparr>]\<rparr>)"

definition claim_of :: "outgoingEventIdentity \<Rightarrow> 'm event_db \<Rightarrow> outgoing_claim option" where
  "claim_of i db = find (\<lambda>c. oc_identity c = i) (ev_claims db)"

text \<open>Faults: 0 insert, 1 read.\<close>

definition claimOutgoingEvent :: "faults \<Rightarrow> outgoingEventIdentity \<Rightarrow> string \<Rightarrow> string \<Rightarrow> 'm event_db
    \<Rightarrow> ('m event_db \<times> string \<times> string) result" where
  "claimOutgoingEvent f i eid own db =
     call (map_option (Wrapped ''store: claim outgoing message event'') (f 0))
     (let db' = insert_claim i eid own db in
      bindr (wrapr ''store: read outgoing message event claim''
              (call (f 1) (case claim_of i db' of None \<Rightarrow> Inl ErrNoRows | Some c \<Rightarrow> Inr (oc_EventID c, oc_Owner c))))
        (\<lambda>(cid, own'). Inr (db', cid, own')))"

section \<open>The log\<close>

text \<open>\<open>AppendOwnSentOnce\<close> on a repository over \<open>*sql.DB\<close>. Faults: 0 and 1 the claim, 2 begin,
  3 commit of a gateway-owned event, 4 insert, 5 read back, 6 commit.\<close>

definition AppendOwnSentOnce :: "faults \<Rightarrow> event_log_entry \<Rightarrow> string \<Rightarrow> string \<Rightarrow> 'm event_db \<Rightarrow> 'm event_db \<times> bool result" where
  "AppendOwnSentOnce f e chatJID waMessageID db =
     (if le_Type e \<noteq> EventMessageFromMe \<or> chatJID = [] \<or> waMessageID = []
      then (db, Inl (Plain ''store: outgoing sent event identity is required''))
      else in_tx db
       (call (map_option (Wrapped ''store: begin outgoing sent event'') (f 2))
       (bindr (claimOutgoingEvent f \<lparr>oi_organizationID = le_OrganizationID e, oi_sessionID = le_SessionID e,
                 oi_chatJID = chatJID, oi_waMessageID = waMessageID\<rparr> (le_EventID e) ''api'' db)
          (\<lambda>(db1, claimedID, claimedOwner).
             if claimedOwner \<noteq> ''api'' then
               call (map_option (Wrapped ''store: commit gateway-owned sent event'') (f 3)) (Inr (db1, False))
             else if claimedID \<noteq> le_EventID e then Inl (Plain ''store: conflicting API sent event claim'')
             else bindr (wrapr ''store: append API sent event'' (call (f 4) (insert_log True e db1))) (\<lambda>db2.
                  bindr (wrapr ''store: verify API sent event'' (call (f 5)
                          (case find (\<lambda>r. el_EventID r = le_EventID e) (ev_log db2) of
                             None \<Rightarrow> Inl ErrNoRows | Some r \<Rightarrow> Inr r))) (\<lambda>r.
                  if el_OrganizationID r \<noteq> le_OrganizationID e \<or> el_SessionID r \<noteq> le_SessionID e \<or> el_Type r \<noteq> le_Type e
                  then Inl (Plain ''store: API sent event identity collision'')
                  else call (map_option (Wrapped ''store: commit API sent event'') (f 6)) (Inr (db2, True))))))))"

text \<open>\<open>Append\<close> returns the surrogate id. Fault 0: the insert; 1: \<open>LastInsertId\<close>, after it.\<close>

definition Append :: "faults \<Rightarrow> event_log_entry \<Rightarrow> 'm event_db \<Rightarrow> 'm event_db \<times> nat result" where
  "Append f e db =
     (case call (f 0) (insert_log False e db) of
        Inl er \<Rightarrow> (db, Inl (Wrapped ''store: append event'' er))
      | Inr db' \<Rightarrow> (db', call (map_option (Wrapped ''store: append event id'') (f 1)) (Inr (ev_nextID db))))"

text \<open>The reads. \<open>expand\<close> is \<open>StickerRepo.ExpandPayload\<close>.\<close>

definition replayable :: "string \<Rightarrow> string \<Rightarrow> nat \<Rightarrow> log_row \<Rightarrow> bool" where
  "replayable organizationID sessionID afterID r \<longleftrightarrow> el_OrganizationID r = organizationID \<and>
     (sessionID = [] \<or> el_SessionID r = sessionID) \<and> afterID < el_ID r \<and> el_Type r \<noteq> EventHistoryBatch"

fun expand_rows :: "(payload \<Rightarrow> payload result) \<Rightarrow> log_row list \<Rightarrow> log_row list result" where
  "expand_rows ex [] = Inr []"
| "expand_rows ex (r # rs) =
     bindr (ex (el_Payload r)) (\<lambda>p. bindr (expand_rows ex rs) (\<lambda>out. Inr (r\<lparr>el_Payload := p\<rparr> # out)))"

definition ListSince :: "go_err option \<Rightarrow> (payload \<Rightarrow> payload result) \<Rightarrow> string \<Rightarrow> string \<Rightarrow> nat \<Rightarrow> int \<Rightarrow> 'm event_db
    \<Rightarrow> log_row list result" where
  "ListSince ft ex organizationID sessionID afterID limit db =
     call (map_option (Wrapped ''store: list events'') ft)
       (expand_rows ex (select_rows (replayable organizationID sessionID afterID) el_ID (nat (normLimit limit)) (ev_log db)))"

definition GetByEventID :: "go_err option \<Rightarrow> (payload \<Rightarrow> payload result) \<Rightarrow> string \<Rightarrow> 'm event_db \<Rightarrow> log_row result" where
  "GetByEventID ft ex eventID db =
     (case call ft (case find (\<lambda>r. el_EventID r = eventID) (ev_log db) of None \<Rightarrow> Inl ErrNoRows | Some r \<Rightarrow> Inr r) of
        Inl e \<Rightarrow> Inl (notFound e ''event'')
      | Inr r \<Rightarrow> bindr (ex (el_Payload r)) (\<lambda>p. Inr (r\<lparr>el_Payload := p\<rparr>)))"

record domain_event =
  de_Schema :: string
  de_ID :: string
  de_Type :: string
  de_Session :: string
  de_Organization :: string
  de_Timestamp :: int
  de_Payload :: payload

definition wire_event :: "log_row \<Rightarrow> domain_event" where
  "wire_event r = \<lparr>de_Schema = Schema, de_ID = el_EventID r, de_Type = el_Type r, de_Session = el_SessionID r,
     de_Organization = el_OrganizationID r, de_Timestamp = el_CreatedAt r, de_Payload = el_Payload r\<rparr>"

definition GetEvent :: "go_err option \<Rightarrow> (payload \<Rightarrow> payload result) \<Rightarrow> string \<Rightarrow> 'm event_db \<Rightarrow> domain_event result" where
  "GetEvent ft ex eventID db = bindr (GetByEventID ft ex eventID db) (\<lambda>r. Inr (wire_event r))"

end
