(* ===== verification/EventIngest.thy ===== *)
theory EventIngest
  imports EventLog
begin

text \<open>
  Ingest of gateway events and the leases of their fan-out
  (src/backend/internal/store/gateway_event_ingest.go): a batch from the control stream is
  checked against the current owner of its sessions, recorded once per event and logged in
  one transaction, and workers lease what has been committed and not completed.
\<close>

section \<open>Ingest\<close>

record ingest_event =
  ie_EventID :: string
  ie_GatewayID :: string
  ie_SessionID :: string
  ie_OrganizationID :: string
  ie_Type :: string
  ie_ConnectionEpoch :: nat
  ie_AssignmentEpoch :: nat
  ie_Payload :: payload
  ie_OccurredAt :: int

abbreviation ErrGatewayEventStale :: go_err where "ErrGatewayEventStale \<equiv> Sentinel ''gateway event stale''"

text \<open>The rows of the join that checks the ownership of an event.\<close>

definition ownership :: "ingest_event \<Rightarrow> registry \<Rightarrow> (assignment_row \<times> session_row \<times> gateway_row) list" where
  "ownership e rg =
     [(a, s, g). a \<leftarrow> rg_assignments rg, s \<leftarrow> rg_sessions rg, g \<leftarrow> rg_gateways rg,
        ws_ID s = as_SessionID a \<and> gw_ID g = as_GatewayID a \<and> as_GatewayID a = ie_GatewayID e \<and>
        as_SessionID a = ie_SessionID e \<and> ws_OrganizationID s = ie_OrganizationID e \<and>
        as_Epoch a = ie_AssignmentEpoch e \<and> gw_ConnectionEpoch g = ie_ConnectionEpoch e \<and> gw_DeletedAt g = None]"

text \<open>\<open>INSERT IGNORE INTO gateway_ingested_events\<close>: a known event, or an epoch that the check
  constraint refuses, affects no row. The join above has found the rows of the foreign keys.\<close>

definition ingested :: "string \<Rightarrow> 'm event_db \<Rightarrow> bool" where
  "ingested eid db \<longleftrightarrow> (\<exists>r\<in>set (ev_ingested db). in_EventID r = eid \<or> in_EventLogID r = eid)"

definition ingested_of :: "ingest_event \<Rightarrow> int \<Rightarrow> ingested_row" where
  "ingested_of e committedAt =
     \<lparr>in_EventID = ie_EventID e, in_GatewayID = ie_GatewayID e, in_ConnectionEpoch = ie_ConnectionEpoch e,
      in_SessionID = ie_SessionID e, in_AssignmentEpoch = ie_AssignmentEpoch e, in_OrganizationID = ie_OrganizationID e,
      in_EventLogID = ie_EventID e, in_CommittedAt = committedAt, in_ClaimedBy = None, in_LeaseUntil = None,
      in_CompletedAt = None\<rparr>"

definition recordable :: "ingest_event \<Rightarrow> bool" where
  "recordable e \<longleftrightarrow> 0 < ie_ConnectionEpoch e \<and> 0 < ie_AssignmentEpoch e"

definition insert_ingested :: "ingest_event \<Rightarrow> int \<Rightarrow> 'm event_db \<Rightarrow> 'm event_db \<times> nat" where
  "insert_ingested e committedAt db =
     (if ingested (ie_EventID e) db \<or> \<not> recordable e then (db, 0)
      else (db\<lparr>ev_ingested := ev_ingested db @ [ingested_of e committedAt]\<rparr>, 1))"

definition complete_ingested :: "string \<Rightarrow> int \<Rightarrow> 'm event_db \<Rightarrow> 'm event_db" where
  "complete_ingested eid t db = db\<lparr>ev_ingested :=
     upd_rows (\<lambda>r. in_EventID r = eid) (\<lambda>r. r\<lparr>in_CompletedAt := Some t\<rparr>) (ev_ingested db)\<rparr>"

text \<open>The identity of an own message that an event announces, when it is complete.\<close>

definition echo_of :: "ingest_event \<Rightarrow> outgoingEventIdentity option" where
  "echo_of e =
     (if ie_Type e \<noteq> EventMessageFromMe then None
      else case echo_identity_of (ie_Payload e) of
        None \<Rightarrow> None
      | Some i \<Rightarrow>
          if ec_FromMe i \<and> ec_WAMessageID i \<noteq> [] \<and> ec_ChatJID i \<noteq> []
          then Some \<lparr>oi_organizationID = ie_OrganizationID e, oi_sessionID = ie_SessionID e,
                     oi_chatJID = ec_ChatJID i, oi_waMessageID = ec_WAMessageID i\<rparr>
          else None)"

text \<open>\<open>MediaCapture\<close> runs in the transaction; \<open>None\<close> is the nil field.\<close>

type_synonym 'm capture = "(ingest_event \<Rightarrow> 'm \<Rightarrow> ('m \<times> payload) result) option"

definition captured :: "'m capture \<Rightarrow> ingest_event \<Rightarrow> 'm event_db \<Rightarrow> ('m event_db \<times> payload) result" where
  "captured cap e db =
     (case cap of
        None \<Rightarrow> Inr (db, strip_key ''_mediaSource'' (ie_Payload e))
      | Some g \<Rightarrow>
          (case g e (ev_media db) of
             Inl er \<Rightarrow> Inl (Wrapped (''store: capture gateway event '' @ ie_EventID e @ '' ('' @ ie_Type e @ '')'') er)
           | Inr (m, p) \<Rightarrow> Inr (db\<lparr>ev_media := m\<rparr>, p)))"

definition log_event :: "go_err option \<Rightarrow> 'm capture \<Rightarrow> ingest_event \<Rightarrow> 'm event_db \<Rightarrow> 'm event_db result" where
  "log_event ft cap e db =
     bindr (captured cap e db) (\<lambda>(db', p).
       call ft (insert_log False \<lparr>le_EventID = ie_EventID e, le_OrganizationID = ie_OrganizationID e,
          le_SessionID = ie_SessionID e, le_Type = ie_Type e, le_Payload = p, le_CreatedAt = ie_OccurredAt e\<rparr> db'))"

text \<open>One turn of the loop. Faults of the event: 0 and 1 the claim, 2 the ownership check,
  3 the ledger insert, 4 the completion of a duplicate echo, 5 the log insert.\<close>

definition ingest_one :: "faults \<Rightarrow> 'm capture \<Rightarrow> int \<Rightarrow> ingest_event \<Rightarrow> 'm event_db \<Rightarrow> 'm event_db result" where
  "ingest_one f cap committedAt e db =
     call (map_option (Wrapped ''store: check gateway event ownership'') (f 2))
     (if length (ownership e (ev_registry db)) \<noteq> 1 then Inl ErrGatewayEventStale
      else call (f 3)
       (case insert_ingested e committedAt db of
          (db1, n) \<Rightarrow>
            if n = 0 then Inr db1
            else (case echo_of e of
              None \<Rightarrow> log_event (f 5) cap e db1
            | Some i \<Rightarrow>
                bindr (claimOutgoingEvent f i (ie_EventID e) ''gateway'' db1) (\<lambda>(db2, claimedID, claimedOwner).
                  if claimedOwner \<noteq> ''gateway'' \<or> claimedID \<noteq> ie_EventID e
                  then call (map_option (Wrapped ''store: complete duplicate sent echo'') (f 4))
                         (Inr (complete_ingested (ie_EventID e) committedAt db2))
                  else log_event (f 5) cap e db2))))"

fun ingest_loop :: "(nat \<Rightarrow> faults) \<Rightarrow> 'm capture \<Rightarrow> int \<Rightarrow> nat \<Rightarrow> ingest_event list \<Rightarrow> 'm event_db \<Rightarrow> 'm event_db result" where
  "ingest_loop fs cap committedAt i [] db = Inr db"
| "ingest_loop fs cap committedAt i (e # es) db =
     bindr (ingest_one (fs i) cap committedAt e db) (ingest_loop fs cap committedAt (Suc i) es)"

text \<open>On a repository over \<open>*sql.DB\<close>; \<open>b\<close> is the error of begin and \<open>c\<close> that of the commit.\<close>

definition IngestBatch :: "go_err option \<Rightarrow> (nat \<Rightarrow> faults) \<Rightarrow> go_err option \<Rightarrow> 'm capture \<Rightarrow> ingest_event list \<Rightarrow> int
    \<Rightarrow> 'm event_db \<Rightarrow> 'm event_db \<times> unit result" where
  "IngestBatch b fs c cap events committedAt db =
     (if events = [] then (db, Inl (Plain ''empty gateway event batch''))
      else in_tx db
       (call b (bindr (ingest_loop fs cap committedAt 0 events db) (\<lambda>db'. call c (Inr (db', ()))))))"

definition Ingest :: "go_err option \<Rightarrow> (nat \<Rightarrow> faults) \<Rightarrow> go_err option \<Rightarrow> 'm capture \<Rightarrow> ingest_event \<Rightarrow> int
    \<Rightarrow> 'm event_db \<Rightarrow> 'm event_db \<times> unit result" where
  "Ingest b fs c cap event committedAt db = IngestBatch b fs c cap [event] committedAt db"

section \<open>Leases\<close>

record committed_work =
  cw_Owner :: string
  cw_ClaimedAt :: gotime
  cw_LeaseUntil :: gotime
  cw_MaxItems :: int

definition work_key :: "ingested_row \<Rightarrow> int \<times> string" where
  "work_key r = (in_CommittedAt r, in_EventLogID r)"

definition live_lease :: "int \<Rightarrow> ingested_row \<Rightarrow> bool" where
  "live_lease t r \<longleftrightarrow> (case in_LeaseUntil r of None \<Rightarrow> False | Some u \<Rightarrow> t < u)"

text \<open>The selected rows: not completed, not leased, with no leased row of the session before
  them. \<open>locked\<close> are the rows \<open>SKIP LOCKED\<close> passes over.\<close>

definition claimable_event :: "int \<Rightarrow> 'm event_db \<Rightarrow> ingested_row \<Rightarrow> bool" where
  "claimable_event t db r \<longleftrightarrow> logged (in_EventLogID r) db \<and> in_CompletedAt r = None \<and> \<not> live_lease t r \<and>
     \<not> (\<exists>p\<in>set (ev_ingested db). in_SessionID p = in_SessionID r \<and> in_CompletedAt p = None \<and> live_lease t p \<and>
          work_key p < work_key r)"

definition claimable_rows :: "(string \<Rightarrow> bool) \<Rightarrow> committed_work \<Rightarrow> 'm event_db \<Rightarrow> ingested_row list" where
  "claimable_rows locked work db =
     select_rows (\<lambda>r. claimable_event (UnixMilli (cw_ClaimedAt work)) db r \<and> \<not> locked (in_EventLogID r))
       work_key (nat (cw_MaxItems work)) (ev_ingested db)"

definition leased_row :: "string \<Rightarrow> int \<Rightarrow> ingested_row \<Rightarrow> ingested_row" where
  "leased_row own leaseUntil r = r\<lparr>in_ClaimedBy := Some own, in_LeaseUntil := Some leaseUntil\<rparr>"

definition claim_row_for :: "string \<Rightarrow> int \<Rightarrow> string \<Rightarrow> 'm event_db \<Rightarrow> 'm event_db \<times> nat" where
  "claim_row_for own leaseUntil eid db =
     (let P = (\<lambda>r. in_EventLogID r = eid \<and> in_CompletedAt r = None) in
      (db\<lparr>ev_ingested := upd_rows P (leased_row own leaseUntil) (ev_ingested db)\<rparr>,
       matched P (ev_ingested db)))"

fun lease_rows :: "faults \<Rightarrow> nat \<Rightarrow> string \<Rightarrow> int \<Rightarrow> string list \<Rightarrow> 'm event_db \<Rightarrow> 'm event_db result" where
  "lease_rows f i own leaseUntil [] db = Inr db"
| "lease_rows f i own leaseUntil (eid # eids) db =
     bindr (wrapr (''store: lease committed event '' @ eid) (call (f i) (Inr ()))) (\<lambda>_.
       (case claim_row_for own leaseUntil eid db of
          (db', n) \<Rightarrow>
            if n \<noteq> 1 then Inl (Plain (''store: lease committed event '' @ eid @ '': lost claim''))
            else lease_rows f (Suc i) own leaseUntil eids db'))"

definition log_row_of :: "'m event_db \<Rightarrow> string \<Rightarrow> log_row option" where
  "log_row_of db eid = find (\<lambda>r. el_EventID r = eid) (ev_log db)"

text \<open>Faults: 0 begin, 1 select and scan, 2 commit, then one per leased row.\<close>

definition ClaimCommittedEvents :: "faults \<Rightarrow> (string \<Rightarrow> bool) \<Rightarrow> committed_work \<Rightarrow> 'm event_db \<Rightarrow> 'm event_db \<times> domain_event list result" where
  "ClaimCommittedEvents f locked work db =
     (if cw_Owner work = [] then (db, Inl (Plain ''store: committed event owner is required''))
      else if cw_MaxItems work \<le> 0 then (db, Inl (Plain ''store: committed event max items must be positive''))
      else if IsZero (cw_ClaimedAt work) \<or> \<not> cw_ClaimedAt work < cw_LeaseUntil work
      then (db, Inl (Plain ''store: committed event lease must end after claim time''))
      else in_tx db
       (bindr (wrapr ''store: begin claim committed events'' (call (f 0) (Inr ()))) (\<lambda>_.
        bindr (wrapr ''store: select claimable committed events'' (call (f 1)
          (Inr (map in_EventLogID (claimable_rows locked work db))))) (\<lambda>eids.
        bindr (lease_rows f 3 (cw_Owner work) (UnixMilli (cw_LeaseUntil work)) eids db) (\<lambda>db'.
        bindr (wrapr ''store: commit claim committed events'' (call (f 2) (Inr ()))) (\<lambda>_.
          Inr (db', map (\<lambda>eid. wire_event (the (log_row_of db eid))) eids)))))))"

abbreviation errCommittedEventNotClaimed :: go_err where
  "errCommittedEventNotClaimed \<equiv> Sentinel ''committed event is not claimed by this owner''"

text \<open>The read of \<open>CompleteCommittedEvent\<close>: the comparison of a null owner is null, which
  does not scan into a \<open>bool\<close>.\<close>

definition completed_by :: "go_err option \<Rightarrow> string \<Rightarrow> string \<Rightarrow> 'm event_db \<Rightarrow> unit result" where
  "completed_by ft owner eventID db =
     (case call ft (case find (\<lambda>r. in_EventLogID r = eventID) (ev_ingested db) of None \<Rightarrow> Inl ErrNoRows | Some r \<Rightarrow> Inr r) of
        Inl er \<Rightarrow> Inl (if err_is ''sql: no rows in result set'' er then errCommittedEventNotClaimed
                     else Wrapped (''store: complete committed event '' @ eventID) er)
      | Inr r \<Rightarrow>
          if in_ClaimedBy r = None \<and> in_CompletedAt r \<noteq> None
          then Inl (Wrapped (''store: complete committed event '' @ eventID) (Plain ''sql: Scan error: converting NULL to bool is unsupported''))
          else if in_ClaimedBy r = Some owner \<and> in_CompletedAt r \<noteq> None then Inr ()
          else Inl errCommittedEventNotClaimed)"

definition claimed_incomplete :: "string \<Rightarrow> string \<Rightarrow> ingested_row \<Rightarrow> bool" where
  "claimed_incomplete owner eventID r \<longleftrightarrow> in_EventLogID r = eventID \<and> in_ClaimedBy r = Some owner \<and> in_CompletedAt r = None"

definition complete_claimed :: "string \<Rightarrow> string \<Rightarrow> int \<Rightarrow> 'm event_db \<Rightarrow> 'm event_db" where
  "complete_claimed owner eventID t db = db\<lparr>ev_ingested :=
     upd_rows (claimed_incomplete owner eventID) (\<lambda>r. r\<lparr>in_CompletedAt := Some t\<rparr>) (ev_ingested db)\<rparr>"

text \<open>Faults: 0 the update, 1 the read. Other clients may write between the two (\<open>env\<close>).\<close>

definition CompleteCommittedEvent :: "faults \<Rightarrow> ('m event_db \<Rightarrow> 'm event_db) \<Rightarrow> string \<Rightarrow> string \<Rightarrow> gotime \<Rightarrow> 'm event_db
    \<Rightarrow> 'm event_db \<times> unit result" where
  "CompleteCommittedEvent f env owner eventID completedAt db =
     (if owner = [] \<or> eventID = [] then (db, Inl (Plain ''store: committed event owner and id are required''))
      else case f 0 of
        Some er \<Rightarrow> (db, Inl (Wrapped (''store: complete committed event '' @ eventID) er))
      | None \<Rightarrow>
          (let db1 = complete_claimed owner eventID (UnixMilli completedAt) db in
           if matched (claimed_incomplete owner eventID) (ev_ingested db) = 1 then (db1, Inr ())
           else (env db1, completed_by (f 1) owner eventID (env db1))))"

section \<open>What one event does\<close>

lemma claimOutgoingEvent_cases:
  assumes "claimOutgoingEvent f i eid own db = Inr (db', cid, own')"
  obtains c where "c \<in> set (ev_claims db')" "oc_identity c = i" "oc_EventID c = cid" "oc_Owner c = own'"
    "db' = db \<or> db' = db\<lparr>ev_claims := ev_claims db @ [\<lparr>oc_identity = i, oc_EventID = eid, oc_Owner = own\<rparr>]\<rparr> \<and>
       i \<notin> oc_identity ` set (ev_claims db) \<and> eid \<notin> oc_EventID ` set (ev_claims db)"
proof -
  from assms have db': "db' = insert_claim i eid own db"
    by (auto simp: claimOutgoingEvent_def Let_def split: prod.splits)
  from assms obtain c where c: "claim_of i db' = Some c" "oc_EventID c = cid" "oc_Owner c = own'"
    by (auto simp: claimOutgoingEvent_def Let_def split: prod.splits option.splits)
  show thesis
    by (rule that[of c]) (use c db' in \<open>auto simp: claim_of_def insert_claim_def image_iff dest: find_Some_in split: if_splits\<close>)
qed

lemma insert_log_cases:
  assumes "insert_log ign e db = Inr db'"
  obtains (fresh) "\<not> logged (le_EventID e) db" "db' = add_log_row e db"
    | (known) "logged (le_EventID e) db" "ign" "db' = db"
  using assms by (auto simp: insert_log_def split: payload.splits if_splits)

lemma log_event_cases:
  assumes "log_event ft cap e db = Inr db'"
  obtains m p where "\<not> logged (ie_EventID e) db" "db' = add_log_row \<lparr>le_EventID = ie_EventID e,
     le_OrganizationID = ie_OrganizationID e, le_SessionID = ie_SessionID e, le_Type = ie_Type e, le_Payload = p,
     le_CreatedAt = ie_OccurredAt e\<rparr> (db\<lparr>ev_media := m\<rparr>)"
proof -
  from assms obtain db1 p where c: "captured cap e db = Inr (db1, p)" and
    l: "insert_log False \<lparr>le_EventID = ie_EventID e, le_OrganizationID = ie_OrganizationID e,
          le_SessionID = ie_SessionID e, le_Type = ie_Type e, le_Payload = p, le_CreatedAt = ie_OccurredAt e\<rparr> db1 = Inr db'"
    by (auto simp: log_event_def)
  from c obtain m where m: "db1 = db\<lparr>ev_media := m\<rparr>"
    by (cases cap) (auto simp: captured_def split: sum.splits intro: that[of "ev_media db"])
  from l show thesis
    by (cases rule: insert_log_cases) (auto intro!: that simp: m logged_def)
qed

lemma ingest_one_owned: "ingest_one f cap t e db = Inr db' \<Longrightarrow> length (ownership e (ev_registry db)) = 1"
  by (auto simp: ingest_one_def split: if_splits)

lemma ingest_one_cases:
  assumes "ingest_one f cap t e db = Inr db'" "\<not> (ingested (ie_EventID e) db \<or> \<not> recordable e)"
  obtains (plain) m p where "echo_of e = None" "\<not> logged (ie_EventID e) db"
      "db' = add_log_row \<lparr>le_EventID = ie_EventID e, le_OrganizationID = ie_OrganizationID e, le_SessionID = ie_SessionID e,
         le_Type = ie_Type e, le_Payload = p, le_CreatedAt = ie_OccurredAt e\<rparr>
         (db\<lparr>ev_ingested := ev_ingested db @ [ingested_of e t], ev_media := m\<rparr>)"
    | (sent) i db2 m p where "echo_of e = Some i" "\<not> logged (ie_EventID e) db"
      "claimOutgoingEvent f i (ie_EventID e) ''gateway'' (db\<lparr>ev_ingested := ev_ingested db @ [ingested_of e t]\<rparr>)
         = Inr (db2, ie_EventID e, ''gateway'')"
      "db' = add_log_row \<lparr>le_EventID = ie_EventID e, le_OrganizationID = ie_OrganizationID e, le_SessionID = ie_SessionID e,
         le_Type = ie_Type e, le_Payload = p, le_CreatedAt = ie_OccurredAt e\<rparr> (db2\<lparr>ev_media := m\<rparr>)"
    | (duplicate) i db2 cid own where "echo_of e = Some i" "own \<noteq> ''gateway'' \<or> cid \<noteq> ie_EventID e"
      "claimOutgoingEvent f i (ie_EventID e) ''gateway'' (db\<lparr>ev_ingested := ev_ingested db @ [ingested_of e t]\<rparr>) = Inr (db2, cid, own)"
      "db' = complete_ingested (ie_EventID e) t db2"
proof (cases "echo_of e")
  case None
  with assms have "log_event (f 5) cap e (db\<lparr>ev_ingested := ev_ingested db @ [ingested_of e t]\<rparr>) = Inr db'"
    by (auto simp: ingest_one_def insert_ingested_def split: if_splits)
  with None show thesis by (elim log_event_cases) (auto simp: logged_def intro: plain)
next
  case (Some i)
  with assms obtain db2 cid own where c: "claimOutgoingEvent f i (ie_EventID e) ''gateway''
      (db\<lparr>ev_ingested := ev_ingested db @ [ingested_of e t]\<rparr>) = Inr (db2, cid, own)"
    and r: "(if own \<noteq> ''gateway'' \<or> cid \<noteq> ie_EventID e
         then call (map_option (Wrapped ''store: complete duplicate sent echo'') (f 4)) (Inr (complete_ingested (ie_EventID e) t db2))
         else log_event (f 5) cap e db2) = Inr db'"
    by (auto simp: ingest_one_def insert_ingested_def split: if_splits prod.splits)
  show thesis
  proof (cases "own \<noteq> ''gateway'' \<or> cid \<noteq> ie_EventID e")
    case True
    with r have "db' = complete_ingested (ie_EventID e) t db2" by auto
    from duplicate[OF Some True c this] show thesis .
  next
    case False
    with r have l: "log_event (f 5) cap e db2 = Inr db'" by auto
    have same: "ev_log db2 = ev_log db"
      using c by (elim claimOutgoingEvent_cases) auto
    from l show thesis
      by (rule log_event_cases) (rule sent[OF Some], use False c same in \<open>auto simp: logged_def\<close>)
  qed
qed

lemma ingest_one_known:
  assumes "ingest_one f cap t e db = Inr db'" "ingested (ie_EventID e) db \<or> \<not> recordable e"
  shows "db' = db"
  using assms by (auto simp: ingest_one_def insert_ingested_def split: if_splits)

section \<open>Invariant\<close>

text \<open>The keys of the tables, and the ledger against the log: an event whose fan-out is still
  to be done is in the log, under its session and organization.\<close>

definition work_logged :: "log_row list \<Rightarrow> ingested_row \<Rightarrow> bool" where
  "work_logged ls r \<longleftrightarrow> (\<exists>l\<in>set ls. el_EventID l = in_EventID r \<and> el_SessionID l = in_SessionID r \<and>
     el_OrganizationID l = in_OrganizationID r)"

definition event_inv :: "'m event_db \<Rightarrow> bool" where
  "event_inv db \<longleftrightarrow>
     distinct (map in_EventID (ev_ingested db)) \<and> (\<forall>r\<in>set (ev_ingested db). in_EventLogID r = in_EventID r) \<and>
     distinct (map el_EventID (ev_log db)) \<and> sorted_wrt (<) (map el_ID (ev_log db)) \<and>
     (\<forall>l\<in>set (ev_log db). el_ID l < ev_nextID db) \<and>
     distinct (map oc_identity (ev_claims db)) \<and> distinct (map oc_EventID (ev_claims db)) \<and>
     (\<forall>r\<in>set (ev_ingested db). in_CompletedAt r = None \<longrightarrow> work_logged (ev_log db) r)"

lemma ingested_iff: "event_inv db \<Longrightarrow> ingested eid db \<longleftrightarrow> eid \<in> in_EventID ` set (ev_ingested db)"
  by (auto simp: event_inv_def ingested_def)

lemma logged_iff: "logged eid db \<longleftrightarrow> eid \<in> set (map el_EventID (ev_log db))"
  by (auto simp: logged_def)

text \<open>Media tables and registry do not matter to it.\<close>

lemma event_inv_other [simp]:
  "event_inv (db\<lparr>ev_media := m\<rparr>) = event_inv db"
  "event_inv (db\<lparr>ev_registry := rg\<rparr>) = event_inv db"
  by (simp_all add: event_inv_def)

lemma work_logged_mono: "work_logged ls r \<Longrightarrow> work_logged (ls @ ms) r"
  by (auto simp: work_logged_def)

lemma add_log_row_inv: "event_inv db \<Longrightarrow> \<not> logged (le_EventID e) db \<Longrightarrow> event_inv (add_log_row e db)"
  by (auto simp: event_inv_def add_log_row_def logged_def sorted_wrt_append work_logged_mono less_Suc_eq)

lemma insert_log_inv: "insert_log ign e db = Inr db' \<Longrightarrow> event_inv db \<Longrightarrow> event_inv db'"
  by (erule insert_log_cases) (auto intro: add_log_row_inv)

lemma claimOutgoingEvent_inv:
  assumes "claimOutgoingEvent f i eid own db = Inr (db', x)" "event_inv db"
  shows "event_inv db'"
proof -
  obtain cid o' where "x = (cid, o')" by (cases x)
  with assms show ?thesis by (auto elim!: claimOutgoingEvent_cases simp: event_inv_def)
qed

text \<open>Recording a new event: the ledger grows by one row, completed at once for an echo
  of a message somebody else announces, and matched by a row of the log otherwise.\<close>

lemma complete_new:
  assumes "\<not> ingested (ie_EventID e) db" "ev_ingested d = ev_ingested db @ [ingested_of e t]"
  shows "ev_ingested (complete_ingested (ie_EventID e) t d) = ev_ingested db @ [(ingested_of e t)\<lparr>in_CompletedAt := Some t\<rparr>]"
proof -
  have "upd_rows (\<lambda>r. in_EventID r = ie_EventID e) g (ev_ingested db) = ev_ingested db" for g
    using assms(1) by (intro upd_rows_id) (auto simp: matched_0_iff ingested_def)
  then show ?thesis
    using assms(2) by (simp add: complete_ingested_def upd_rows_def ingested_of_def)
qed

lemma claim_frame:
  "claimOutgoingEvent f i eid own db = Inr (db', x) \<Longrightarrow>
     ev_ingested db' = ev_ingested db \<and> ev_log db' = ev_log db \<and> ev_registry db' = ev_registry db \<and>
     ev_nextID db' = ev_nextID db \<and> prefix (ev_claims db) (ev_claims db')"
  by (cases x; clarify; erule claimOutgoingEvent_cases) auto

lemma ingest_one_effect:
  assumes "ingest_one f cap t e db = Inr db'"
  shows "ev_registry db' = ev_registry db \<and> prefix (ev_claims db) (ev_claims db') \<and>
    (db' = db \<and> (ingested (ie_EventID e) db \<or> \<not> recordable e) \<or>
     \<not> ingested (ie_EventID e) db \<and> recordable e \<and>
     ((\<exists>l. ev_ingested db' = ev_ingested db @ [ingested_of e t] \<and> ev_log db' = ev_log db @ [l] \<and>
         el_EventID l = ie_EventID e \<and> el_SessionID l = ie_SessionID e \<and> el_OrganizationID l = ie_OrganizationID e \<and>
         el_Type l = ie_Type e \<and>
         (\<forall>i. echo_of e = Some i \<longrightarrow> \<lparr>oc_identity = i, oc_EventID = ie_EventID e, oc_Owner = ''gateway''\<rparr> \<in> set (ev_claims db'))) \<or>
      (\<exists>i c. ev_ingested db' = ev_ingested db @ [(ingested_of e t)\<lparr>in_CompletedAt := Some t\<rparr>] \<and> ev_log db' = ev_log db \<and>
         echo_of e = Some i \<and> c \<in> set (ev_claims db') \<and> oc_identity c = i \<and>
         (oc_Owner c \<noteq> ''gateway'' \<or> oc_EventID c \<noteq> ie_EventID e))))"
proof (cases "ingested (ie_EventID e) db \<or> \<not> recordable e")
  case True
  with ingest_one_known[OF assms] show ?thesis by simp
next
  case False
  with assms show ?thesis
  proof (cases rule: ingest_one_cases)
    case plain
    with False show ?thesis by (auto simp: add_log_row_def)
  next
    case (sent i db2 m p)
    obtain c where "c \<in> set (ev_claims db2)" "oc_identity c = i" "oc_EventID c = ie_EventID e" "oc_Owner c = ''gateway''"
      using sent(3) by (elim claimOutgoingEvent_cases) auto
    moreover from this have "c = \<lparr>oc_identity = i, oc_EventID = ie_EventID e, oc_Owner = ''gateway''\<rparr>"
      by (intro outgoing_claim.equality) simp_all
    ultimately have "\<lparr>oc_identity = i, oc_EventID = ie_EventID e, oc_Owner = ''gateway''\<rparr> \<in> set (ev_claims db2)"
      by simp
    with sent False claim_frame[OF sent(3)] show ?thesis by (auto simp: add_log_row_def)
  next
    case (duplicate i db2 cid own)
    obtain c where "c \<in> set (ev_claims db2)" "oc_identity c = i" "oc_EventID c = cid" "oc_Owner c = own"
      using duplicate(3) by (elim claimOutgoingEvent_cases) auto
    moreover have "ev_ingested db' = ev_ingested db @ [(ingested_of e t)\<lparr>in_CompletedAt := Some t\<rparr>]"
      unfolding duplicate(4) using False claim_frame[OF duplicate(3)] by (intro complete_new) auto
    ultimately show ?thesis
      using duplicate False claim_frame[OF duplicate(3)] by (auto simp: complete_ingested_def)
  qed
qed

lemma claim_only:
  assumes "claimOutgoingEvent f i eid own db = Inr (db', x)"
  shows "db' = db\<lparr>ev_claims := ev_claims db'\<rparr>"
    "distinct (map oc_identity (ev_claims db)) \<Longrightarrow> distinct (map oc_identity (ev_claims db'))"
    "distinct (map oc_EventID (ev_claims db)) \<Longrightarrow> distinct (map oc_EventID (ev_claims db'))"
  using assms by (cases x, auto elim!: claimOutgoingEvent_cases)+

lemma ingest_one_inv:
  assumes "ingest_one f cap t e db = Inr db'" "event_inv db"
  shows "event_inv db'"
proof -
  let ?d = "db\<lparr>ev_ingested := ev_ingested db @ [ingested_of e t]\<rparr>"
  have base: "event_inv (db\<lparr>ev_ingested := ev_ingested db @ [(ingested_of e t)\<lparr>in_CompletedAt := Some t\<rparr>]\<rparr>)"
    if "\<not> ingested (ie_EventID e) db"
    using assms(2) that ingested_iff[OF assms(2), of "ie_EventID e"] by (auto simp: event_inv_def ingested_of_def)
  have grown: "event_inv (add_log_row x (d\<lparr>ev_media := m\<rparr>))"
    if "\<not> ingested (ie_EventID e) db" "event_inv d0" "ev_ingested d0 = ev_ingested db" "ev_log d0 = ev_log db"
      "d = d0\<lparr>ev_ingested := ev_ingested db @ [ingested_of e t]\<rparr>" "\<not> logged (ie_EventID e) db"
      "le_EventID x = ie_EventID e" "le_SessionID x = ie_SessionID e" "le_OrganizationID x = ie_OrganizationID e" for x d d0 m
    using that ingested_iff[OF assms(2), of "ie_EventID e"]
    by (auto simp: event_inv_def add_log_row_def logged_def sorted_wrt_append work_logged_mono less_Suc_eq
        ingested_of_def work_logged_def)
  show ?thesis
  proof (cases "ingested (ie_EventID e) db \<or> \<not> recordable e")
    case True
    with ingest_one_known[OF assms(1)] assms(2) show ?thesis by simp
  next
    case False
    with assms(1) show ?thesis
    proof (cases rule: ingest_one_cases)
      case (plain m p)
      with False assms(2) show ?thesis by (auto intro!: grown)
    next
      case (sent i db2 m p)
      have "event_inv (db\<lparr>ev_claims := ev_claims db2\<rparr>)"
        using claim_only(2,3)[OF sent(3)] assms(2) by (auto simp: event_inv_def)
      moreover have "db2 = (db\<lparr>ev_claims := ev_claims db2\<rparr>)\<lparr>ev_ingested := ev_ingested db @ [ingested_of e t]\<rparr>"
        by (rule trans[OF claim_only(1)[OF sent(3)]]) simp
      ultimately show ?thesis unfolding sent(4) using False sent(2) by (intro grown) auto
    next
      case (duplicate i db2 cid own)
      from claim_only(1)[OF duplicate(3)] have "db' = (db\<lparr>ev_ingested := ev_ingested db @ [(ingested_of e t)\<lparr>in_CompletedAt := Some t\<rparr>]\<rparr>)\<lparr>ev_claims := ev_claims db2\<rparr>"
        using complete_new[of e db db2 t] False duplicate(4) by (cases db2) (auto simp: complete_ingested_def)
      moreover have "distinct (map oc_identity (ev_claims db2)) \<and> distinct (map oc_EventID (ev_claims db2))"
        using claim_only(2,3)[OF duplicate(3)] assms(2) by (auto simp: event_inv_def)
      ultimately show ?thesis using base False by (simp add: event_inv_def)
    qed
  qed
qed

text \<open>The abstract ledger: the list of event ids recorded, each once, in the order of arrival.\<close>

definition record_id :: "string \<Rightarrow> string list \<Rightarrow> string list" where
  "record_id eid ids = (if eid \<in> set ids then ids else ids @ [eid])"

definition ledger_ids :: "'m event_db \<Rightarrow> string list" where
  "ledger_ids db = map in_EventID (ev_ingested db)"

definition record_batch :: "ingest_event list \<Rightarrow> string list \<Rightarrow> string list" where
  "record_batch es ids = fold record_id (map ie_EventID (filter recordable es)) ids"

lemma ingest_one_ledger:
  assumes "ingest_one f cap t e db = Inr db'" "event_inv db"
  shows "ledger_ids db' = record_batch [e] (ledger_ids db)"
  using ingest_one_effect[OF assms(1)] ingested_iff[OF assms(2), of "ie_EventID e"]
  by (auto simp: ledger_ids_def record_batch_def record_id_def ingested_of_def)

definition announced_elsewhere :: "ingest_event \<Rightarrow> 'm event_db \<Rightarrow> bool" where
  "announced_elsewhere e db \<longleftrightarrow> (\<exists>c\<in>set (ev_claims db). echo_of e = Some (oc_identity c) \<and>
     (oc_Owner c \<noteq> ''gateway'' \<or> oc_EventID c \<noteq> ie_EventID e))"

lemma announced_elsewhere_mono:
  "announced_elsewhere e db \<Longrightarrow> prefix (ev_claims db) (ev_claims db') \<Longrightarrow> announced_elsewhere e db'"
  by (auto simp: announced_elsewhere_def prefix_def)

lemma logged_mono: "logged eid db \<Longrightarrow> prefix (ev_log db) (ev_log db') \<Longrightarrow> logged eid db'"
  by (auto simp: logged_def prefix_def)

lemma ingest_loop_effect:
  assumes "ingest_loop fs cap t i es db = Inr db'" "event_inv db"
  shows "event_inv db' \<and> ev_registry db' = ev_registry db \<and> prefix (ev_claims db) (ev_claims db') \<and>
    prefix (ev_ingested db) (ev_ingested db') \<and> prefix (ev_log db) (ev_log db') \<and>
    ledger_ids db' = record_batch es (ledger_ids db) \<and>
    (\<forall>e\<in>set es. recordable e \<and> \<not> ingested (ie_EventID e) db \<longrightarrow>
       logged (ie_EventID e) db' \<or> (\<exists>e'\<in>set es. ie_EventID e' = ie_EventID e \<and> announced_elsewhere e' db')) \<and>
    (\<forall>eid. logged eid db' \<and> \<not> logged eid db \<longrightarrow> eid \<in> ie_EventID ` set es \<and> \<not> ingested eid db)"
  using assms
proof (induction es arbitrary: i db)
  case Nil
  then show ?case by (auto simp: record_batch_def)
next
  case (Cons e es)
  from Cons.prems obtain d where d: "ingest_one (fs i) cap t e db = Inr d" "ingest_loop fs cap t (Suc i) es d = Inr db'"
    by auto
  have di: "event_inv d" by (rule ingest_one_inv[OF d(1) Cons.prems(2)])
  note one = ingest_one_effect[OF d(1)]
  note IH = Cons.IH[OF d(2) di]
  have pre: "prefix (ev_ingested db) (ev_ingested d)" "prefix (ev_log db) (ev_log d)" using one by auto
  have led: "ledger_ids db' = record_batch (e # es) (ledger_ids db)"
    using IH ingest_one_ledger[OF d(1) Cons.prems(2)] by (simp add: record_batch_def)
  have ing: "ingested eid d \<longleftrightarrow> ingested eid db \<or> eid = ie_EventID e \<and> recordable e" for eid
    using one by (auto simp: ingested_def ingested_of_def)
  have here: "logged (ie_EventID e) db' \<or> announced_elsewhere e db'" if "recordable e" "\<not> ingested (ie_EventID e) db"
  proof -
    from one that have "logged (ie_EventID e) d \<or> announced_elsewhere e d"
      by (auto simp: logged_def announced_elsewhere_def)
    then show ?thesis
      using IH logged_mono announced_elsewhere_mono by blast
  qed
  have c1: "\<forall>x\<in>set (e # es). recordable x \<and> \<not> ingested (ie_EventID x) db \<longrightarrow>
       logged (ie_EventID x) db' \<or> (\<exists>e'\<in>set (e # es). ie_EventID e' = ie_EventID x \<and> announced_elsewhere e' db')"
  proof (intro ballI impI)
    fix x assume x: "x \<in> set (e # es)" "recordable x \<and> \<not> ingested (ie_EventID x) db"
    show "logged (ie_EventID x) db' \<or> (\<exists>e'\<in>set (e # es). ie_EventID e' = ie_EventID x \<and> announced_elsewhere e' db')"
    proof (cases "ie_EventID x = ie_EventID e \<and> recordable e")
      case True
      with x here show ?thesis by auto
    next
      case False
      with x ing have "\<not> ingested (ie_EventID x) d" "x \<in> set es" by auto
      with x IH show ?thesis by auto
    qed
  qed
  have c2: "eid \<in> ie_EventID ` set (e # es) \<and> \<not> ingested eid db" if "logged eid db'" "\<not> logged eid db" for eid
  proof (cases "logged eid d")
    case True
    with that(2) one show ?thesis by (auto simp: logged_def)
  next
    case False
    with that(1) IH ing show ?thesis by auto
  qed
  have c3: "prefix (ev_claims db) (ev_claims db')" "prefix (ev_ingested db) (ev_ingested db')" "prefix (ev_log db) (ev_log db')"
    using one IH pre by (blast intro: prefix_order.trans)+
  have c4: "event_inv db'" "ev_registry db' = ev_registry db" using IH one by auto
  from c1 c2 c3 c4 led show ?case by (intro conjI allI impI) auto
qed

section \<open>What the lease statements do\<close>

lemma leased_row_keeps [simp]:
  "in_EventID (leased_row own u r) = in_EventID r" "in_EventLogID (leased_row own u r) = in_EventLogID r"
  "in_CompletedAt (leased_row own u r) = in_CompletedAt r" "in_SessionID (leased_row own u r) = in_SessionID r"
  "in_CommittedAt (leased_row own u r) = in_CommittedAt r" "in_OrganizationID (leased_row own u r) = in_OrganizationID r"
  "work_key (leased_row own u r) = work_key r"
  "in_ClaimedBy (leased_row own u r) = Some own" "in_LeaseUntil (leased_row own u r) = Some u"
  "leased_row own u (leased_row own u r) = leased_row own u r"
  by (simp_all add: leased_row_def work_key_def)

definition lease_all :: "string \<Rightarrow> int \<Rightarrow> string list \<Rightarrow> 'm event_db \<Rightarrow> 'm event_db" where
  "lease_all own u eids db = db\<lparr>ev_ingested :=
     upd_rows (\<lambda>r. in_EventLogID r \<in> set eids \<and> in_CompletedAt r = None) (leased_row own u) (ev_ingested db)\<rparr>"

lemma lease_all_simps:
  "lease_all own u [] db = db"
  "lease_all own u eids (fst (claim_row_for own u eid db)) = lease_all own u (eid # eids) db"
  by (auto simp: lease_all_def claim_row_for_def upd_rows_def Let_def intro!: event_db.equality)

lemma lease_rows_result: "lease_rows f i own u eids db = Inr db' \<Longrightarrow> db' = lease_all own u eids db"
proof (induction eids arbitrary: i db)
  case Nil
  then show ?case by (simp add: lease_all_simps)
next
  case (Cons eid eids)
  then have "lease_rows f (Suc i) own u eids (fst (claim_row_for own u eid db)) = Inr db'"
    by (auto split: prod.splits if_splits)
  from Cons.IH[OF this] show ?case by (simp add: lease_all_simps)
qed

lemma ClaimCommittedEvents_result:
  assumes "ClaimCommittedEvents f locked w db = (db', Inr evs)"
  shows "db' = lease_all (cw_Owner w) (UnixMilli (cw_LeaseUntil w)) (map in_EventLogID (claimable_rows locked w db)) db"
    "evs = map (\<lambda>r. wire_event (the (log_row_of db (in_EventLogID r)))) (claimable_rows locked w db)"
  using assms by (auto simp: ClaimCommittedEvents_def dest: lease_rows_result split: if_splits)

lemma ClaimCommittedEvents_error: "ClaimCommittedEvents f locked w db = (db', Inl er) \<Longrightarrow> db' = db"
  by (auto simp: ClaimCommittedEvents_def split: if_splits)

text \<open>A write that keeps the keys, sessions and organizations of the ledger and completes no
  row it should not keeps the invariant.\<close>

lemma upd_ingested_inv:
  assumes "event_inv db"
    and "\<And>r. P r \<Longrightarrow> in_EventID (g r) = in_EventID r \<and> in_EventLogID (g r) = in_EventLogID r \<and>
          in_SessionID (g r) = in_SessionID r \<and> in_OrganizationID (g r) = in_OrganizationID r \<and>
          (in_CompletedAt (g r) = None \<longrightarrow> in_CompletedAt r = None)"
  shows "event_inv (db\<lparr>ev_ingested := upd_rows P g (ev_ingested db)\<rparr>)"
  using assms by (auto simp: event_inv_def map_upd_rows set_upd_rows work_logged_def)

lemma lease_all_inv: "event_inv db \<Longrightarrow> event_inv (lease_all own u eids db)"
  unfolding lease_all_def by (rule upd_ingested_inv) auto

lemma ClaimCommittedEvents_inv:
  assumes "ClaimCommittedEvents f locked w db = (db', q)" "event_inv db"
  shows "event_inv db'"
proof (cases q)
  case (Inl e)
  with assms show ?thesis by (auto dest: ClaimCommittedEvents_error)
next
  case (Inr evs)
  with assms show ?thesis by (auto dest: ClaimCommittedEvents_result(1) simp: lease_all_inv)
qed

lemma ledger_unique:
  "event_inv db \<Longrightarrow> r \<in> set (ev_ingested db) \<Longrightarrow> r' \<in> set (ev_ingested db) \<Longrightarrow> in_EventLogID r' = in_EventLogID r \<Longrightarrow> r' = r"
  by (auto simp: event_inv_def distinct_map inj_on_def)

lemma work_row_logged:
  "event_inv db \<Longrightarrow> r \<in> set (ev_ingested db) \<Longrightarrow> in_CompletedAt r = None \<Longrightarrow> logged (in_EventLogID r) db"
  by (force simp: event_inv_def work_logged_def logged_def)

text \<open>Every selected row matches, so the leases are taken.\<close>

lemma matched_log_id:
  assumes "event_inv db" "r \<in> set (ev_ingested db)" "in_CompletedAt r = None"
  shows "matched (\<lambda>x. in_EventLogID x = in_EventLogID r \<and> in_CompletedAt x = None) (ev_ingested db) = 1"
proof -
  have "in_EventLogID x = in_EventID x" if "x \<in> set (ev_ingested db)" for x using assms(1) that by (auto simp: event_inv_def)
  then have "matched (\<lambda>x. in_EventLogID x = in_EventLogID r \<and> in_CompletedAt x = None) (ev_ingested db) =
    matched (\<lambda>x. in_EventID x = in_EventID r \<and> in_CompletedAt x = None) (ev_ingested db)"
    using assms(2) unfolding matched_def by (intro arg_cong[where f = length] filter_cong) auto
  also have "\<dots> = 1"
    using assms by (intro matched_key[where key = in_EventID and r = r]) (auto simp: event_inv_def)
  finally show ?thesis .
qed


lemma CompleteCommittedEvent_db:
  "CompleteCommittedEvent f (\<lambda>d. d) own eid t db = (db', q) \<Longrightarrow> db' = db \<or> db' = complete_claimed own eid (UnixMilli t) db"
  by (auto simp: CompleteCommittedEvent_def Let_def split: if_splits option.splits)

lemma completed_by_Inr: "completed_by ft own eid db = Inr () \<Longrightarrow>
   \<exists>r\<in>set (ev_ingested db). in_EventLogID r = eid \<and> in_ClaimedBy r = Some own \<and> in_CompletedAt r \<noteq> None"
  by (auto simp: completed_by_def split: sum.splits option.splits if_splits dest!: find_Some_in)

end
