(* ===== verification/EventFlow.thy ===== *)
theory EventFlow
  imports EventIngest
begin

text \<open>
  What ingest, the claims on outgoing messages and the log guarantee together: an event is
  recorded once however often its batch is delivered, a stale owner records nothing, and an
  own message is announced by one public event whichever of the API and the gateway is first.
\<close>

section \<open>Runs\<close>

text \<open>The public events a batch announces for own messages: the echoes it logs.\<close>

fun batch_announces :: "(nat \<Rightarrow> faults) \<Rightarrow> 'm capture \<Rightarrow> int \<Rightarrow> nat \<Rightarrow> ingest_event list \<Rightarrow> 'm event_db
    \<Rightarrow> (outgoingEventIdentity \<times> string \<times> string) list" where
  "batch_announces fs cap t i [] db = []"
| "batch_announces fs cap t i (e # es) db =
     (case ingest_one (fs i) cap t e db of
        Inl er \<Rightarrow> []
      | Inr db' \<Rightarrow>
          (case echo_of e of
             None \<Rightarrow> []
           | Some i \<Rightarrow> if logged (ie_EventID e) db' \<and> \<not> logged (ie_EventID e) db then [(i, ie_EventID e, ''gateway'')] else [])
          @ batch_announces fs cap t (Suc i) es db')"

text \<open>A step of the event tables, with the own messages it announces. A send of the API
  announces its event when \<open>AppendOwnSentOnce\<close> says it owns it.\<close>

inductive estep :: "'m event_db \<Rightarrow> (outgoingEventIdentity \<times> string \<times> string) list \<Rightarrow> 'm event_db \<Rightarrow> bool" where
  ingest: "IngestBatch b fs c cap es t db = (db', q) \<Longrightarrow>
    estep db (if q = Inr () then batch_announces fs cap t 0 es db else []) db'"
| own_sent: "AppendOwnSentOnce f e chat wa db = (db', q) \<Longrightarrow>
    estep db (if q = Inr True then [(\<lparr>oi_organizationID = le_OrganizationID e, oi_sessionID = le_SessionID e,
      oi_chatJID = chat, oi_waMessageID = wa\<rparr>, le_EventID e, ''api'')] else []) db'"
| append: "Append f e db = (db', q) \<Longrightarrow> estep db [] db'"
| lease: "ClaimCommittedEvents f locked w db = (db', q) \<Longrightarrow> estep db [] db'"
| complete: "CompleteCommittedEvent f (\<lambda>d. d) own eid t db = (db', q) \<Longrightarrow> estep db [] db'"
| registry: "estep db [] (db\<lparr>ev_registry := rg\<rparr>)"

inductive esteps :: "'m event_db \<Rightarrow> (outgoingEventIdentity \<times> string \<times> string) list \<Rightarrow> 'm event_db \<Rightarrow> bool" where
  none: "esteps db [] db"
| step: "esteps db ps db1 \<Longrightarrow> estep db1 qs db2 \<Longrightarrow> esteps db (ps @ qs) db2"

section \<open>What each step keeps\<close>

definition announced :: "'m event_db \<Rightarrow> (outgoingEventIdentity \<times> string \<times> string) set" where
  "announced db = (\<lambda>c. (oc_identity c, oc_EventID c, oc_Owner c)) ` set (ev_claims db)"

text \<open>What a run keeps of an earlier state: claims, recorded ids and the log only grow.\<close>

definition grows :: "'m event_db \<Rightarrow> 'm event_db \<Rightarrow> bool" where
  "grows db db' \<longleftrightarrow> prefix (ev_claims db) (ev_claims db') \<and> prefix (ledger_ids db) (ledger_ids db') \<and>
     prefix (ev_log db) (ev_log db')"

lemma grows_refl [simp]: "grows db db"
  by (simp add: grows_def)

lemma grows_trans: "grows a b \<Longrightarrow> grows b c \<Longrightarrow> grows a c"
  by (auto simp: grows_def intro: prefix_order.trans)

lemma growsD: "grows db db' \<Longrightarrow> announced db \<subseteq> announced db'"
  by (auto simp: grows_def announced_def prefix_def)

lemma IngestBatch_cases:
  assumes "IngestBatch b fs c cap es t db = (db', q)"
  obtains (refused) er where "q = Inl er" "db' = db"
    | (ingested) "q = Inr ()" "es \<noteq> []" "ingest_loop fs cap t 0 es db = Inr db'"
  using assms by (auto simp: IngestBatch_def split: if_splits elim!: in_txE)

lemma ingest_loop_grows: "ingest_loop fs cap t i es db = Inr db' \<Longrightarrow> event_inv db \<Longrightarrow> grows db db'"
  using ingest_loop_effect[of fs cap t i es db db'] map_mono_prefix unfolding grows_def ledger_ids_def by blast

lemma AppendOwnSentOnce_cases:
  assumes "AppendOwnSentOnce f e chat wa db = (db', q)"
  defines "i \<equiv> \<lparr>oi_organizationID = le_OrganizationID e, oi_sessionID = le_SessionID e, oi_chatJID = chat, oi_waMessageID = wa\<rparr>"
  obtains (refused) er where "q = Inl er" "db' = db"
    | (foreign) cid own where "q = Inr False" "claimOutgoingEvent f i (le_EventID e) ''api'' db = Inr (db', cid, own)" "own \<noteq> ''api''"
    | (sent) db1 where "q = Inr True" "claimOutgoingEvent f i (le_EventID e) ''api'' db = Inr (db1, le_EventID e, ''api'')"
        "insert_log True e db1 = Inr db'"
  using assms(1) unfolding AppendOwnSentOnce_def i_def[symmetric]
  by (auto split: if_splits elim!: in_txE)

lemma insert_log_grows: "insert_log ign e db = Inr db' \<Longrightarrow> grows db db'"
  by (erule insert_log_cases) (auto simp: grows_def add_log_row_def ledger_ids_def)

lemma claim_grows: "claimOutgoingEvent f i eid own db = Inr (db', x) \<Longrightarrow> grows db db'"
  by (drule claim_frame) (simp add: grows_def ledger_ids_def)

lemma claim_announced: "claimOutgoingEvent f i eid own db = Inr (db', cid, own') \<Longrightarrow> (i, cid, own') \<in> announced db'"
  by (erule claimOutgoingEvent_cases) (auto simp: announced_def image_iff)

lemma batch_announces_claimed:
  assumes "ingest_loop fs cap t i es db = Inr db'" "event_inv db"
  shows "set (batch_announces fs cap t i es db) \<subseteq> announced db'"
  using assms
proof (induction es arbitrary: i db)
  case (Cons e es)
  then obtain d where d: "ingest_one (fs i) cap t e db = Inr d" "ingest_loop fs cap t (Suc i) es d = Inr db'" by auto
  have di: "event_inv d" by (rule ingest_one_inv[OF d(1) Cons.prems(2)])
  have "(j, ie_EventID e, ''gateway'') \<in> announced d"
    if "echo_of e = Some j" "logged (ie_EventID e) d" "\<not> logged (ie_EventID e) db" for j
  proof -
    have "\<lparr>oc_identity = j, oc_EventID = ie_EventID e, oc_Owner = ''gateway''\<rparr> \<in> set (ev_claims d)"
      using ingest_one_effect[OF d(1)] that by (auto simp: logged_def)
    then show ?thesis by (force simp: announced_def)
  qed
  with growsD[OF ingest_loop_grows[OF d(2) di]] Cons.IH[OF d(2) di] d(1) show ?case
    by (auto split: option.splits if_splits)
qed simp

lemma estep_keeps:
  assumes "estep db ps db'" "event_inv db"
  shows "event_inv db' \<and> grows db db' \<and> set ps \<subseteq> announced db'"
  using assms
proof cases
  case (ingest b fs c cap es t q)
  from ingest(2) show ?thesis
  proof (cases rule: IngestBatch_cases)
    case refused
    with ingest assms(2) show ?thesis by simp
  next
    case ingested
    with ingest ingest_loop_effect[OF ingested(3) assms(2)] ingest_loop_grows[OF ingested(3) assms(2)]
      batch_announces_claimed[OF ingested(3) assms(2)] show ?thesis by simp
  qed
next
  case (own_sent f e chat wa q)
  from own_sent(2) show ?thesis
  proof (cases rule: AppendOwnSentOnce_cases)
    case refused
    with own_sent assms(2) show ?thesis by simp
  next
    case (foreign cid own)
    with own_sent claim_grows claimOutgoingEvent_inv[OF _ assms(2)] show ?thesis by fastforce
  next
    case (sent db1)
    have "grows db1 db'" by (rule insert_log_grows[OF sent(3)])
    with own_sent sent claim_grows[OF sent(2)] insert_log_inv[OF sent(3) claimOutgoingEvent_inv[OF sent(2) assms(2)]]
      claim_announced[OF sent(2)] growsD[of db1 db'] show ?thesis by (auto intro: grows_trans)
  qed
next
  case (append f e q)
  then show ?thesis using assms(2)
    by (auto simp: Append_def insert_log_grows insert_log_inv split: sum.splits)
next
  case (lease f locked w q)
  have "grows db db'"
    using lease(2) by (cases q)
      (auto dest!: ClaimCommittedEvents_error ClaimCommittedEvents_result(1) simp: grows_def lease_all_def ledger_ids_def map_upd_rows)
  with lease ClaimCommittedEvents_inv[OF lease(2) assms(2)] show ?thesis by simp
next
  case (complete f own eid t q)
  with CompleteCommittedEvent_db[OF complete(2)] assms(2) show ?thesis
    by (auto intro!: upd_ingested_inv simp: complete_claimed_def grows_def ledger_ids_def map_upd_rows)
next
  case registry
  with assms(2) show ?thesis by (simp add: grows_def ledger_ids_def)
qed

lemma esteps_keep: "esteps db ps db' \<Longrightarrow> event_inv db \<Longrightarrow> event_inv db' \<and> grows db db' \<and> set ps \<subseteq> announced db'"
proof (induction rule: esteps.induct)
  case (step db ps db1 qs db2)
  with estep_keeps[OF step.hyps(2)] growsD[of db1 db2] show ?case by (auto intro: grows_trans)
qed simp

section \<open>Redelivery\<close>

lemma set_record_batch: "set (record_batch es ids) = set ids \<union> ie_EventID ` {e \<in> set es. recordable e}"
proof -
  have "set (fold record_id xs ids) = set ids \<union> set xs" for xs
    by (induction xs arbitrary: ids) (auto simp: record_id_def)
  then show ?thesis by (auto simp: record_batch_def)
qed

lemma known_ledger: "event_inv db \<Longrightarrow> ingested eid db \<longleftrightarrow> eid \<in> set (ledger_ids db)"
  by (simp add: ingested_iff ledger_ids_def)

lemma known_batch:
  assumes "\<And>e. e \<in> set es \<Longrightarrow> ingested (ie_EventID e) db \<or> \<not> recordable e"
    and "\<And>e. e \<in> set es \<Longrightarrow> length (ownership e (ev_registry db)) = 1"
  shows "ingest_loop (\<lambda>_. no_faults) cap t i es db = Inr db"
  using assms by (induction es arbitrary: i) (simp_all add: ingest_one_def insert_ingested_def)

lemma stale_loop: "e \<in> set es \<Longrightarrow> length (ownership e (ev_registry db)) \<noteq> 1 \<Longrightarrow> ingest_loop fs cap t i es db \<noteq> Inr db'"
proof (induction es arbitrary: i db)
  case (Cons x es)
  show ?case
  proof (cases "ingest_one (fs i) cap t x db")
    case (Inr d)
    with Cons.prems ingest_one_owned[OF Inr] have "e \<in> set es" by auto
    with Cons.IH[of d "Suc i"] Cons.prems(2) ingest_one_effect[OF Inr] Inr show ?thesis by auto
  qed simp
qed simp

text \<open>Property C3. Ingest refines the abstract ledger that records each event id once, in the
  order of arrival: a batch that is accepted appends exactly its new ids, leaves every
  earlier row of the ledger, the log and the claims as it was, logs every new event unless
  it is the echo of a message that is announced under another event id, and logs nothing
  else. A batch that is not accepted changes nothing.\<close>

theorem IngestBatch_records_once:
  assumes "event_inv db" "IngestBatch b fs c cap es t db = (db', q)"
  shows "event_inv db' \<and> (q \<noteq> Inr () \<longrightarrow> db' = db) \<and>
    (q = Inr () \<longrightarrow> ledger_ids db' = record_batch es (ledger_ids db) \<and>
       prefix (ev_ingested db) (ev_ingested db') \<and> prefix (ev_log db) (ev_log db') \<and> prefix (ev_claims db) (ev_claims db') \<and>
       (\<forall>e\<in>set es. recordable e \<and> \<not> ingested (ie_EventID e) db \<longrightarrow>
          logged (ie_EventID e) db' \<or> (\<exists>e'\<in>set es. ie_EventID e' = ie_EventID e \<and> announced_elsewhere e' db')) \<and>
       (\<forall>eid. logged eid db' \<and> \<not> logged eid db \<longrightarrow> eid \<in> ie_EventID ` set es \<and> \<not> ingested eid db))"
  using assms(2)
proof (cases rule: IngestBatch_cases)
  case refused
  with assms(1) show ?thesis by simp
next
  case ingested
  from ingest_loop_effect[OF ingested(3) assms(1)] ingested(1) show ?thesis by blast
qed

text \<open>Delivery is at least once and recording is idempotent: after a batch has been
  accepted, and after anything else that happened to the event tables, delivering the same
  batch again while its events are still owned is accepted and changes nothing.\<close>

theorem redelivered_batch_changes_nothing:
  assumes "event_inv db" "IngestBatch b fs c cap es t db = (db', Inr ())" "esteps db' ps db''"
    and "\<And>e. e \<in> set es \<Longrightarrow> length (ownership e (ev_registry db'')) = 1"
  shows "IngestBatch None (\<lambda>_. no_faults) None cap' es t' db'' = (db'', Inr ())"
proof -
  from assms(2) have l: "ingest_loop fs cap t 0 es db = Inr db'" "es \<noteq> []"
    by (auto elim: IngestBatch_cases)
  note eff = ingest_loop_effect[OF l(1) assms(1)]
  have keep: "event_inv db''" "grows db' db''" using esteps_keep[OF assms(3)] eff by auto
  have "ingested (ie_EventID e) db'' \<or> \<not> recordable e" if "e \<in> set es" for e
  proof -
    have "ie_EventID e \<in> set (ledger_ids db')" if "recordable e"
      using eff \<open>e \<in> set es\<close> that by (auto simp: set_record_batch)
    then show ?thesis using keep known_ledger[OF keep(1)] by (auto simp: grows_def prefix_def)
  qed
  from known_batch[OF this assms(4)] l(2) show ?thesis by (simp add: IngestBatch_def)
qed

text \<open>Property C7. The API and a gateway race for the event of an own message: in every run of
  the event tables, whichever interleaving of API sends, gateway batches, leases and
  completions it is, all announcements of one WhatsApp message carry the same event id and
  come from the same owner.\<close>

theorem own_message_announced_once:
  assumes "event_inv db" "esteps db ps db'" "(i, eid, own) \<in> set ps" "(i, eid', own') \<in> set ps"
  shows "eid' = eid \<and> own' = own"
proof -
  from esteps_keep[OF assms(2,1)] have i: "event_inv db'" "set ps \<subseteq> announced db'" by auto
  from i(2) assms(3,4) obtain c c' where c: "c \<in> set (ev_claims db')" "c' \<in> set (ev_claims db')"
    "(i, eid, own) = (oc_identity c, oc_EventID c, oc_Owner c)" "(i, eid', own') = (oc_identity c', oc_EventID c', oc_Owner c')"
    unfolding announced_def image_iff subset_iff by metis
  from i(1) have "inj_on oc_identity (set (ev_claims db'))" by (auto simp: event_inv_def distinct_map)
  with c have "c' = c" by (auto dest: inj_onD)
  with c show ?thesis by simp
qed

text \<open>Property C25. A superseded connection cannot record events: once a newer connection epoch of
  a gateway has been issued, a batch holding an event under an older epoch is refused
  whole, whatever else it holds and whatever the other calls return.\<close>

theorem superseded_connection_cannot_ingest:
  assumes "unique_gateways db0" "cnstep\<^sup>*\<^sup>* (cn_init db0) s" "(gid, n) \<in> set (cs_issued s)" "ev_registry db = cs_db s"
    and "e \<in> set es" "ie_GatewayID e = gid" "ie_ConnectionEpoch e < n"
  shows "\<exists>er. IngestBatch b fs c cap es t db = (db, Inl er) \<and>
    Ingest None (\<lambda>_. no_faults) None cap e t db = (db, Inl ErrGatewayEventStale)"
proof -
  have inv: "cn_inv s" using cn_inv_steps[OF assms(2) cn_inv_init[OF assms(1)]] .
  have "gw_ConnectionEpoch g \<noteq> ie_ConnectionEpoch e" if "g \<in> set (rg_gateways (cs_db s))" "gw_ID g = gid" for g
  proof -
    from inv assms(3) obtain x where x: "x \<in> set (rg_gateways (cs_db s))" "gw_ID x = gid" "n \<le> gw_ConnectionEpoch x"
      by (fastforce simp: cn_inv_def covered_def epoch_key_def)
    have "x = g" using unique_gatewaysD[of "cs_db s" x g] inv x that by (simp add: cn_inv_def)
    with x assms(7) show ?thesis by simp
  qed
  then have o: "ownership e (ev_registry db) = []"
    unfolding ownership_def assms(4) using assms(6) by (auto simp: concat_eq_Nil_conv)
  have bad: "ingest_loop fs' cap t i es' db \<noteq> Inr d" if "e \<in> set es'" for fs' i es' d
    by (rule stale_loop[OF that]) (simp add: o)
  obtain d q where r: "IngestBatch b fs c cap es t db = (d, q)" by fastforce
  then have "\<exists>er. (d, q) = (db, Inl er)" by (cases rule: IngestBatch_cases) (use bad assms(5) in auto)
  with r o show ?thesis by (simp add: Ingest_def IngestBatch_def ingest_one_def)
qed

section \<open>Replaying the log\<close>

text \<open>A client that resumes from a cursor (\<open>?since=\<close>): it asks for a page and goes on from the id
  of the last event of the page. \<open>lr_expand\<close> is a sticker expansion that succeeds.\<close>

record 'm log_reader =
  lr_organization :: string
  lr_session :: string
  lr_cursor :: nat
  lr_limit :: int
  lr_expand :: "payload \<Rightarrow> payload"
  lr_db :: "'m event_db"

definition expanded :: "(payload \<Rightarrow> payload) \<Rightarrow> log_row \<Rightarrow> log_row" where
  "expanded x r = r\<lparr>el_Payload := x (el_Payload r)\<rparr>"

definition unread :: "'m log_reader \<Rightarrow> log_row list" where
  "unread s = map (expanded (lr_expand s))
     (filter (replayable (lr_organization s) (lr_session s) (lr_cursor s)) (ev_log (lr_db s)))"

definition next_page :: "'m log_reader \<Rightarrow> log_row list" where
  "next_page s =
     (case ListSince None (\<lambda>p. Inr (lr_expand s p)) (lr_organization s) (lr_session s) (lr_cursor s) (lr_limit s) (lr_db s) of
        Inl e \<Rightarrow> [] | Inr rows \<Rightarrow> rows)"

lemma expand_rows_total: "expand_rows (\<lambda>p. Inr (x p)) rs = Inr (map (expanded x) rs)"
  by (induction rs) (simp_all add: expanded_def)

lemma el_ID_expanded [simp]: "el_ID (expanded x r) = el_ID r"
  by (simp add: expanded_def)

lemma next_page_take:
  assumes "sorted_wrt (<) (map el_ID (ev_log (lr_db s)))"
  shows "next_page s = take (nat (normLimit (lr_limit s))) (unread s)"
proof -
  have "sorted_wrt (<) (map el_ID (filter P (ev_log (lr_db s))))" for P
    using assms by (simp add: sorted_wrt_map sorted_wrt_filter)
  then show ?thesis
    by (simp add: next_page_def unread_def ListSince_def expand_rows_total select_rows_def sort_key_strict_id take_map)
qed

interpretation log_replay: durable_log unread el_ID "\<lambda>s. sorted_wrt (<) (map el_ID (ev_log (lr_db s)))" next_page
  "\<lambda>n s. s\<lparr>lr_cursor := n\<rparr>"
proof unfold_locales
  fix s :: "'a log_reader" and n e
  assume i: "sorted_wrt (<) (map el_ID (ev_log (lr_db s)))"
  show "sorted_wrt (<) (map el_ID (unread s))"
    using i by (simp add: unread_def sorted_wrt_map sorted_wrt_filter)
  show "prefix (next_page s) (unread s)" by (simp add: next_page_take[OF i] take_is_prefix)
  show "next_page s \<noteq> []" if "unread s \<noteq> []"
    using that normLimit_bounds(1)[of "lr_limit s"] by (simp add: next_page_take[OF i])
  show "sorted_wrt (<) (map el_ID (ev_log (lr_db (s\<lparr>lr_cursor := n\<rparr>))))" using i by simp
  show "unread (s\<lparr>lr_cursor := el_ID e\<rparr>) = filter (\<lambda>x. el_ID e < el_ID x) (unread s)" if "e \<in> set (unread s)"
    using that by (auto simp: unread_def filter_map comp_def replayable_def intro!: arg_cong[where f = "map _"] filter_cong)
qed

text \<open>Property C40. Paging through the event log from a cursor returns every later event of the
  organization, of one session or of all, except the bulk history batches, once and in
  order, whatever the page size the client asks for; then the pages are empty.\<close>

theorem event_replay_complete:
  assumes "event_inv (lr_db s)" "length (unread s) \<le> n"
  shows "\<exists>s'. drain next_page el_ID (\<lambda>c s. s\<lparr>lr_cursor := c\<rparr>) n s = (unread s, s') \<and> next_page s' = []"
proof -
  have i: "sorted_wrt (<) (map el_ID (ev_log (lr_db s)))" using assms(1) by (simp add: event_inv_def)
  from log_replay.drain_all[OF i assms(2)] show ?thesis by (auto simp: next_page_take)
qed

section \<open>A run\<close>

definition demo_events :: "unit event_db" where
  "demo_events = \<lparr>ev_registry = demo_accepted, ev_log = [], ev_nextID = 1, ev_claims = [], ev_ingested = [], ev_media = ()\<rparr>"

definition demo_event :: "string \<Rightarrow> string \<Rightarrow> payload \<Rightarrow> ingest_event" where
  "demo_event eid ty p = \<lparr>ie_EventID = eid, ie_GatewayID = ''g1'', ie_SessionID = ''s'', ie_OrganizationID = ''org'', ie_Type = ty,
     ie_ConnectionEpoch = 1, ie_AssignmentEpoch = 4, ie_Payload = p, ie_OccurredAt = 7\<rparr>"

definition demo_echo :: ingest_event where
  "demo_echo = demo_event ''e2'' ''message.from_me'' (Json (JObject
     [(''waMessageId'', JString ''M''), (''chatJid'', JString ''c''), (''fromMe'', JBool True), (''_mediaSource'', JNull)]))"

definition demo_batch :: "ingest_event list" where
  "demo_batch = [demo_event ''e1'' ''message'' (Json JNull), demo_echo]"

definition demo_ingested :: "unit event_db" where
  "demo_ingested = fst (IngestBatch None (\<lambda>_. no_faults) None None demo_batch 9 demo_events)"

definition demo_sent :: event_log_entry where
  "demo_sent = \<lparr>le_EventID = ''a1'', le_OrganizationID = ''org'', le_SessionID = ''s'', le_Type = ''message.from_me'',
     le_Payload = Json JNull, le_CreatedAt = 8\<rparr>"

lemma demo_events_inv: "event_inv demo_events"
  by (simp add: event_inv_def demo_events_def)

lemma demo_ingest: "IngestBatch None (\<lambda>_. no_faults) None None demo_batch 9 demo_events = (demo_ingested, Inr ())"
  unfolding demo_ingested_def by code_simp

lemma demo_ingested_inv: "event_inv demo_ingested"
  using esteps_keep[OF esteps.step[OF esteps.none estep.ingest[OF demo_ingest]] demo_events_inv] by simp

theorem IngestBatch_records_once_witness:
  "ledger_ids demo_ingested = [''e1'', ''e2''] \<and> map el_EventID (ev_log demo_ingested) = [''e1'', ''e2''] \<and> event_inv demo_ingested"
proof -
  have "record_batch demo_batch (ledger_ids demo_events) = [''e1'', ''e2'']" by code_simp
  moreover have "map el_EventID (ev_log demo_ingested) = [''e1'', ''e2'']" by code_simp
  ultimately show ?thesis using IngestBatch_records_once[OF demo_events_inv demo_ingest] by simp
qed

theorem redelivered_batch_changes_nothing_witness:
  "IngestBatch None (\<lambda>_. no_faults) None None demo_batch 11 demo_ingested = (demo_ingested, Inr ())"
proof -
  have "list_all (\<lambda>e. length (ownership e (ev_registry demo_ingested)) = 1) demo_batch" by code_simp
  then show ?thesis
    using redelivered_batch_changes_nothing[OF demo_events_inv demo_ingest esteps.none, of None 11] by (simp add: list_all_iff)
qed

definition demo_identity :: outgoingEventIdentity where
  "demo_identity = \<lparr>oi_organizationID = ''org'', oi_sessionID = ''s'', oi_chatJID = ''c'', oi_waMessageID = ''M''\<rparr>"

theorem own_message_announced_once_witness:
  "esteps demo_events [(demo_identity, ''e2'', ''gateway'')] demo_ingested \<and>
   snd (AppendOwnSentOnce no_faults demo_sent ''c'' ''M'' demo_ingested) = Inr False"
proof -
  have a: "batch_announces (\<lambda>_. no_faults) None 9 0 demo_batch demo_events = [(demo_identity, ''e2'', ''gateway'')]" by code_simp
  have e1: "esteps demo_events [(demo_identity, ''e2'', ''gateway'')] demo_ingested"
    using esteps.step[OF esteps.none estep.ingest[OF demo_ingest]] by (simp add: a)
  obtain d q where d: "AppendOwnSentOnce no_faults demo_sent ''c'' ''M'' demo_ingested = (d, q)" by fastforce
  have "q \<noteq> Inr True"
  proof
    assume "q = Inr True"
    with esteps.step[OF e1 estep.own_sent[OF d]]
    have "esteps demo_events [(demo_identity, ''e2'', ''gateway''), (demo_identity, ''a1'', ''api'')] d"
      by (simp add: demo_identity_def demo_sent_def)
    from own_message_announced_once[OF demo_events_inv this, of demo_identity "''e2''" "''gateway''" "''a1''" "''api''"]
    show False by simp
  qed
  moreover have "\<exists>b. snd (AppendOwnSentOnce no_faults demo_sent ''c'' ''M'' demo_ingested) = Inr b"
    by (rule exI[of _ False]) code_simp
  ultimately show ?thesis using e1 d by (auto simp: d)
qed

theorem superseded_connection_cannot_ingest_witness:
  "Ingest None (\<lambda>_. no_faults) None None (demo_echo\<lparr>ie_ConnectionEpoch := 0\<rparr>) 9 demo_events = (demo_events, Inl ErrGatewayEventStale)"
  using superseded_connection_cannot_ingest[OF demo_unique(1) demo_cn_steps, of "''g1''" 1 demo_events
      "demo_echo\<lparr>ie_ConnectionEpoch := 0\<rparr>" "[demo_echo\<lparr>ie_ConnectionEpoch := 0\<rparr>]" None "\<lambda>_. no_faults" None None 9]
  by (simp add: demo_cn_def demo_events_def demo_echo_def demo_event_def)

theorem event_replay_complete_witness:
  "\<exists>s'. drain next_page el_ID (\<lambda>c s. s\<lparr>lr_cursor := c\<rparr>) 5
     \<lparr>lr_organization = ''org'', lr_session = [], lr_cursor = 1, lr_limit = 1, lr_expand = id, lr_db = demo_ingested\<rparr>
     = ([\<lparr>el_ID = 2, el_EventID = ''e2'', el_OrganizationID = ''org'', el_SessionID = ''s'', el_Type = ''message.from_me'',
          el_Payload = Json (JObject [(''chatJid'', JString ''c''), (''fromMe'', JBool True), (''waMessageId'', JString ''M'')]),
          el_CreatedAt = 7\<rparr>], s')"
proof -
  let ?s = "\<lparr>lr_organization = ''org'', lr_session = [], lr_cursor = 1, lr_limit = 1, lr_expand = id, lr_db = demo_ingested\<rparr>"
  have u: "unread ?s = [\<lparr>el_ID = 2, el_EventID = ''e2'', el_OrganizationID = ''org'', el_SessionID = ''s'', el_Type = ''message.from_me'',
          el_Payload = Json (JObject [(''chatJid'', JString ''c''), (''fromMe'', JBool True), (''waMessageId'', JString ''M'')]),
          el_CreatedAt = 7\<rparr>]" by code_simp
  with event_replay_complete[of ?s 5] demo_ingested_inv show ?thesis by auto
qed



end
