(* ===== verification/CommittedEvents.thy ===== *)
theory CommittedEvents
  imports EventFlow
begin

text \<open>
  The fan-out of committed events (src/backend/internal/service/committed_events.go): the
  list of consumers, the dispatcher and the worker that leases committed events and
  completes those every consumer accepted. Consumers act on a world \<open>'w\<close> of their own (their
  projections, Redis, webhook deliveries) and are parameters.
\<close>

section \<open>Consumers\<close>

text \<open>A consumer either reports whether it claims the event for itself
  (\<open>handledCommittedEventConsumer\<close>) or only accepts it.\<close>

datatype 'w consumer =
    Handling "domain_event \<Rightarrow> 'w \<Rightarrow> 'w \<times> bool result"
  | Consuming "domain_event \<Rightarrow> 'w \<Rightarrow> 'w \<times> unit result"

fun HandleCommittedEvent :: "'w consumer list \<Rightarrow> domain_event \<Rightarrow> 'w \<Rightarrow> 'w \<times> bool result" where
  "HandleCommittedEvent [] ev w = (w, Inr False)"
| "HandleCommittedEvent (Handling h # cs) ev w =
     (case h ev w of
        (w', Inl e) \<Rightarrow> (w', Inl e)
      | (w', Inr consumed) \<Rightarrow> if consumed then (w', Inr True) else HandleCommittedEvent cs ev w')"
| "HandleCommittedEvent (Consuming c # cs) ev w =
     (case c ev w of
        (w', Inl e) \<Rightarrow> (w', Inl e)
      | (w', Inr _) \<Rightarrow> HandleCommittedEvent cs ev w')"

definition NewCommittedEventConsumers :: "'w consumer option list \<Rightarrow> 'w consumer list" where
  "NewCommittedEventConsumers consumers = List.map_filter (\<lambda>c. c) consumers"

definition Add :: "'w consumer option \<Rightarrow> 'w consumer list \<Rightarrow> 'w consumer list" where
  "Add consumer cs = (case consumer of None \<Rightarrow> cs | Some c \<Rightarrow> cs @ [c])"

section \<open>Dispatcher\<close>

record 'w dispatcher =
  dp_projections :: "'w consumer list"
  dp_publisher :: "(domain_event \<Rightarrow> 'w \<Rightarrow> 'w \<times> unit result) option"
  dp_webhooks :: "(domain_event \<Rightarrow> 'w \<Rightarrow> 'w \<times> nat result) option"

fun project :: "'w consumer list \<Rightarrow> domain_event \<Rightarrow> 'w \<Rightarrow> 'w \<times> bool result" where
  "project [] ev w = (w, Inr False)"
| "project (Handling h # cs) ev w =
     (case h ev w of
        (w', Inl e) \<Rightarrow> (w', Inl (Wrapped ''consume committed event'' e))
      | (w', Inr consumed) \<Rightarrow> if consumed then (w', Inr True) else project cs ev w')"
| "project (Consuming c # cs) ev w =
     (case c ev w of
        (w', Inl e) \<Rightarrow> (w', Inl (Wrapped ''project committed event'' e))
      | (w', Inr _) \<Rightarrow> project cs ev w')"

definition publish :: "string \<Rightarrow> (domain_event \<Rightarrow> 'w \<Rightarrow> 'w \<times> 'a result) option \<Rightarrow> domain_event \<Rightarrow> 'w \<Rightarrow> 'w \<times> unit result" where
  "publish what sink ev w =
     (case sink of
        None \<Rightarrow> (w, Inr ())
      | Some p \<Rightarrow> (case p ev w of (w', Inl e) \<Rightarrow> (w', Inl (Wrapped what e)) | (w', Inr _) \<Rightarrow> (w', Inr ())))"

definition ConsumeCommittedEvent :: "'w dispatcher \<Rightarrow> domain_event \<Rightarrow> 'w \<Rightarrow> 'w \<times> unit result" where
  "ConsumeCommittedEvent d ev w =
     (if de_ID ev = [] then (w, Inl (Plain ''committed event id is required''))
      else case project (dp_projections d) ev w of
        (w1, Inl e) \<Rightarrow> (w1, Inl e)
      | (w1, Inr consumed) \<Rightarrow>
          if consumed then (w1, Inr ())
          else (case publish ''publish committed event'' (dp_publisher d) ev w1 of
                  (w2, Inl e) \<Rightarrow> (w2, Inl e)
                | (w2, Inr _) \<Rightarrow> publish ''enqueue committed event webhooks'' (dp_webhooks d) ev w2))"

section \<open>Worker\<close>

record worker_config =
  wc_Owner :: string
  wc_Lease :: duration
  wc_Batch :: int
  wc_Poll :: duration
  wc_hasClock :: bool

definition NewCommittedEventWorker :: "bool \<Rightarrow> bool \<Rightarrow> worker_config \<Rightarrow> worker_config result" where
  "NewCommittedEventWorker hasStore hasDispatcher config =
     (if \<not> hasStore \<or> \<not> hasDispatcher then Inl (Plain ''committed event worker dependencies are required'')
      else if wc_Owner config = [] then Inl (Plain ''committed event worker owner is required'')
      else if wc_Lease config \<le> 0 \<or> wc_Batch config \<le> 0 \<or> wc_Poll config \<le> 0
      then Inl (Plain ''committed event worker lease, batch, and poll must be positive'')
      else if \<not> wc_hasClock config then Inl (Plain ''committed event worker clock is required'')
      else Inr config)"

text \<open>The state of the loop of \<open>RunOnce\<close>.\<close>

record ('m, 'w) run_state =
  rs_db :: "'m event_db"
  rs_world :: 'w
  rs_completed :: nat
  rs_failed :: "string list"
  rs_failures :: "go_err list"

text \<open>What the calls of a turn do: the time and the faults of a completion, and the writes of
  other clients before it and between its statements.\<close>

record 'm turn_env =
  te_faults :: faults
  te_now :: gotime
  te_before :: "'m event_db \<Rightarrow> 'm event_db"
  te_between :: "'m event_db \<Rightarrow> 'm event_db"

definition fail_session :: "domain_event \<Rightarrow> string \<Rightarrow> go_err \<Rightarrow> ('m, 'w) run_state \<Rightarrow> ('m, 'w) run_state" where
  "fail_session ev what e s = s\<lparr>rs_failed := rs_failed s @ [de_Session ev],
     rs_failures := rs_failures s @ [Wrapped (what @ '' committed event '' @ de_ID ev) e]\<rparr>"

definition run_event :: "(domain_event \<Rightarrow> 'w \<Rightarrow> 'w \<times> unit result) \<Rightarrow> string \<Rightarrow> 'm turn_env \<Rightarrow> domain_event
    \<Rightarrow> ('m, 'w) run_state \<Rightarrow> ('m, 'w) run_state" where
  "run_event dispatch own env ev s =
     (case dispatch ev (rs_world s) of
        (w, Inl e) \<Rightarrow> fail_session ev ''dispatch'' e (s\<lparr>rs_world := w\<rparr>)
      | (w, Inr _) \<Rightarrow>
          (case CompleteCommittedEvent (te_faults env) (te_between env) own (de_ID ev) (te_now env) (te_before env (rs_db s)) of
             (db, Inl e) \<Rightarrow> fail_session ev ''complete'' e (s\<lparr>rs_world := w, rs_db := db\<rparr>)
           | (db, Inr _) \<Rightarrow> s\<lparr>rs_world := w, rs_db := db, rs_completed := rs_completed s + 1\<rparr>))"

text \<open>The result is the count so far with the error of an early return, if any.\<close>

fun run_loop :: "(domain_event \<Rightarrow> 'w \<Rightarrow> 'w \<times> unit result) \<Rightarrow> string \<Rightarrow> (nat \<Rightarrow> 'm turn_env) \<Rightarrow> nat \<Rightarrow> domain_event list
    \<Rightarrow> ('m, 'w) run_state \<Rightarrow> ('m, 'w) run_state \<times> go_err option" where
  "run_loop dispatch own env i [] s = (s, None)"
| "run_loop dispatch own env i (ev # evs) s =
     (if de_Session ev \<in> set (rs_failed s) then run_loop dispatch own env (Suc i) evs s
      else if de_ID ev = [] then (s, Some (Plain ''claimed committed event id is required''))
      else run_loop dispatch own env (Suc i) evs (run_event dispatch own (env i) ev s))"

definition join_all :: "go_err list \<Rightarrow> go_err option" where
  "join_all es = fold (\<lambda>e acc. errors_join acc (Some e)) es None"

definition RunOnce :: "faults \<Rightarrow> (string \<Rightarrow> bool) \<Rightarrow> (nat \<Rightarrow> 'm turn_env) \<Rightarrow> (domain_event \<Rightarrow> 'w \<Rightarrow> 'w \<times> unit result) \<Rightarrow> worker_config
    \<Rightarrow> gotime \<Rightarrow> int \<Rightarrow> 'm event_db \<Rightarrow> 'w \<Rightarrow> ('m event_db \<times> 'w) \<times> nat \<times> go_err option" where
  "RunOnce f locked env dispatch config now maxItems db w =
     (if maxItems \<le> 0 then ((db, w), 0, Some (Plain ''committed event worker max items must be positive''))
      else case ClaimCommittedEvents f locked \<lparr>cw_Owner = wc_Owner config, cw_ClaimedAt = now,
             cw_LeaseUntil = now + wc_Lease config, cw_MaxItems = maxItems\<rparr> db of
        (db1, Inl e) \<Rightarrow> ((db1, w), 0, Some (Wrapped ''claim committed events'' e))
      | (db1, Inr events) \<Rightarrow>
          (case run_loop dispatch (wc_Owner config) env 0 events
                  \<lparr>rs_db = db1, rs_world = w, rs_completed = 0, rs_failed = [], rs_failures = []\<rparr> of
             (s, Some e) \<Rightarrow> ((rs_db s, rs_world s), rs_completed s, Some e)
           | (s, None) \<Rightarrow> ((rs_db s, rs_world s), rs_completed s, join_all (rs_failures s))))"

section \<open>Leases\<close>

lemma claimable_rowsD:
  assumes "r \<in> set (claimable_rows locked w db)"
  shows "r \<in> set (ev_ingested db)" "claimable_event (UnixMilli (cw_ClaimedAt w)) db r" "\<not> locked (in_EventLogID r)"
  using assms by (auto simp: claimable_rows_def dest: in_select_rowsD)

lemma claimable_rows_prefix:
  assumes "event_inv db" "r \<in> set (claimable_rows locked w db)" "p \<in> set (ev_ingested db)"
    "in_SessionID p = in_SessionID r" "work_key p < work_key r" "in_CompletedAt p = None" "\<not> locked (in_EventLogID p)"
  shows "p \<in> set (claimable_rows locked w db)"
proof -
  let ?t = "UnixMilli (cw_ClaimedAt w)"
  from claimable_rowsD(2)[OF assms(2)] have r: "\<not> (\<exists>q\<in>set (ev_ingested db). in_SessionID q = in_SessionID r \<and>
      in_CompletedAt q = None \<and> live_lease ?t q \<and> work_key q < work_key r)" by (simp add: claimable_event_def)
  have "\<not> live_lease ?t p" using r assms(3-6) by blast
  moreover have "\<not> (\<exists>q\<in>set (ev_ingested db). in_SessionID q = in_SessionID p \<and> in_CompletedAt q = None \<and>
      live_lease ?t q \<and> work_key q < work_key p)"
    using r assms(4,5) by (metis order.strict_trans)
  ultimately have "claimable_event ?t db p"
    using work_row_logged[OF assms(1,3,6)] assms(6) by (simp add: claimable_event_def)
  with assms(7) show ?thesis
    using select_rows_prefix_closed[OF assms(2)[unfolded claimable_rows_def] assms(3) _ assms(5)]
    unfolding claimable_rows_def by blast
qed

lemma lease_all_leased:
  assumes "r \<in> set (ev_ingested db)" "in_CompletedAt r = None" "in_EventLogID r \<in> set eids"
  shows "leased_row own u r \<in> set (ev_ingested (lease_all own u eids db))"
  using assms by (auto simp: lease_all_def intro!: in_upd_rows_hit[of r])

text \<open>Leases keep the order of a session and exclude each other: a claim takes an
  event only with every earlier unfinished event of its session whose row is not locked;
  and while the first claim's lease runs, a second claim, by whomever, takes none of its
  events and no later event of their sessions.\<close>

theorem ClaimCommittedEvents_session_order:
  assumes "event_inv db" "ClaimCommittedEvents f locked w db = (db1, Inr evs)"
    and "UnixMilli (cw_ClaimedAt w') < UnixMilli (cw_LeaseUntil w)"
    and "r \<in> set (claimable_rows locked w db)"
  shows "(\<forall>p\<in>set (ev_ingested db). in_SessionID p = in_SessionID r \<and> work_key p < work_key r \<and> in_CompletedAt p = None \<and>
      \<not> locked (in_EventLogID p) \<longrightarrow> p \<in> set (claimable_rows locked w db)) \<and>
    (\<forall>r'\<in>set (claimable_rows locked' w' db1). in_EventLogID r' \<noteq> in_EventLogID r \<and>
      (in_SessionID r' = in_SessionID r \<longrightarrow> work_key r' \<le> work_key r))"
proof -
  let ?l = "leased_row (cw_Owner w) (UnixMilli (cw_LeaseUntil w)) r"
  from claimable_rowsD[OF assms(4)] have r: "r \<in> set (ev_ingested db)" "in_CompletedAt r = None"
    by (auto simp: claimable_event_def)
  have l: "?l \<in> set (ev_ingested db1)"
    unfolding ClaimCommittedEvents_result(1)[OF assms(2)] using r assms(4) by (intro lease_all_leased) auto
  have live: "live_lease (UnixMilli (cw_ClaimedAt w')) ?l" using assms(3) by (simp add: live_lease_def)
  have i1: "event_inv db1" by (rule ClaimCommittedEvents_inv[OF assms(2,1)])
  have "in_EventLogID r' \<noteq> in_EventLogID r \<and> (in_SessionID r' = in_SessionID r \<longrightarrow> work_key r' \<le> work_key r)"
    if "r' \<in> set (claimable_rows locked' w' db1)" for r'
  proof (intro conjI impI notI)
    note r' = claimable_rowsD[OF that]
    assume "in_EventLogID r' = in_EventLogID r"
    with ledger_unique[OF i1 l r'(1)] have "r' = ?l" by simp
    with r'(2) live show False by (simp add: claimable_event_def)
  next
    assume "in_SessionID r' = in_SessionID r"
    then show "work_key r' \<le> work_key r"
      using claimable_rowsD(2)[OF that] l live r(2) unfolding claimable_event_def by (metis leased_row_keeps(3,4,7) not_le)
  qed
  with claimable_rows_prefix[OF assms(1,4)] show ?thesis by blast
qed

section \<open>The loop\<close>

definition completed_ids :: "'m event_db \<Rightarrow> string set" where
  "completed_ids db = in_EventLogID ` {r \<in> set (ev_ingested db). in_CompletedAt r \<noteq> None}"

definition quiet :: "'m turn_env \<Rightarrow> bool" where
  "quiet env \<longleftrightarrow> te_before env = (\<lambda>d. d) \<and> te_between env = (\<lambda>d. d)"

lemma complete_claimed_ids:
  "completed_ids db \<subseteq> completed_ids (complete_claimed own eid t db)"
  "completed_ids (complete_claimed own eid t db) \<subseteq> insert eid (completed_ids db)"
  by (force simp: completed_ids_def complete_claimed_def claimed_incomplete_def set_upd_rows)+

lemma complete_ids:
  assumes "CompleteCommittedEvent f (\<lambda>d. d) own eid t db = (db', q)"
  shows "completed_ids db \<subseteq> completed_ids db'" "completed_ids db' \<subseteq> insert eid (completed_ids db)"
    "q = Inr () \<Longrightarrow> eid \<in> completed_ids db'"
proof -
  from CompleteCommittedEvent_db[OF assms] complete_claimed_ids
  show "completed_ids db \<subseteq> completed_ids db'" "completed_ids db' \<subseteq> insert eid (completed_ids db)" by blast+
  show "eid \<in> completed_ids db'" if q: "q = Inr ()"
  proof (cases "matched (claimed_incomplete own eid) (ev_ingested db) = 1")
    case True
    then obtain r where r: "r \<in> set (ev_ingested db)" "claimed_incomplete own eid r"
      using matched_0_iff[of "claimed_incomplete own eid" "ev_ingested db"] by auto
    from assms q True have "db' = complete_claimed own eid (UnixMilli t) db"
      by (auto simp: CompleteCommittedEvent_def Let_def split: if_splits option.splits)
    with in_upd_rows_hit[of r "ev_ingested db" "claimed_incomplete own eid" "\<lambda>r. r\<lparr>in_CompletedAt := Some (UnixMilli t)\<rparr>", OF r] have "r\<lparr>in_CompletedAt := Some (UnixMilli t)\<rparr> \<in> set (ev_ingested db')"
      by (simp add: complete_claimed_def)
    with r(2) show ?thesis unfolding completed_ids_def claimed_incomplete_def by (intro image_eqI[rotated]) auto
  next
    case False
    with assms q have "completed_by (f 1) own eid db' = Inr ()"
      by (auto simp: CompleteCommittedEvent_def Let_def split: if_splits option.splits)
    from completed_by_Inr[OF this] show ?thesis by (auto simp: completed_ids_def)
  qed
qed

lemma run_event_cases:
  assumes "quiet env"
    and s'_def: "s' = run_event dispatch own env ev s"
  shows "completed_ids (rs_db s) \<subseteq> completed_ids (rs_db s')" "completed_ids (rs_db s') \<subseteq> insert (de_ID ev) (completed_ids (rs_db s))"
    "set (rs_failed s) \<subseteq> set (rs_failed s')" "de_Session ev \<in> set (rs_failed s') \<or> de_ID ev \<in> completed_ids (rs_db s')"
proof -
  obtain w q where d: "dispatch ev (rs_world s) = (w, q)" by fastforce
  obtain db z where c: "CompleteCommittedEvent (te_faults env) (\<lambda>d. d) own (de_ID ev) (te_now env) (rs_db s) = (db, z)" by fastforce
  have "s' = fail_session ev ''dispatch'' (projl q) (s\<lparr>rs_world := w\<rparr>) \<or>
    s' = fail_session ev ''complete'' (projl z) (s\<lparr>rs_world := w, rs_db := db\<rparr>) \<or>
    z = Inr () \<and> s' = s\<lparr>rs_world := w, rs_db := db, rs_completed := rs_completed s + 1\<rparr>"
    using assms(1) c d unfolding s'_def quiet_def
    by (cases q; cases z) (simp_all add: run_event_def)
  then show "completed_ids (rs_db s) \<subseteq> completed_ids (rs_db s')" "completed_ids (rs_db s') \<subseteq> insert (de_ID ev) (completed_ids (rs_db s))"
    "set (rs_failed s) \<subseteq> set (rs_failed s')" "de_Session ev \<in> set (rs_failed s') \<or> de_ID ev \<in> completed_ids (rs_db s')"
    using complete_ids[OF c] by (auto simp: fail_session_def)
qed

lemma run_loop_ids:
  assumes "\<And>i. quiet (env i)" "run_loop dispatch own env i evs s = (s', r)"
  shows "completed_ids (rs_db s) \<subseteq> completed_ids (rs_db s') \<and>
    (ev \<in> set evs \<longrightarrow> distinct (map de_ID evs) \<longrightarrow> de_Session ev \<in> set (rs_failed s) \<longrightarrow>
      de_ID ev \<in> completed_ids (rs_db s') \<longrightarrow> de_ID ev \<in> completed_ids (rs_db s)) \<and>
    completed_ids (rs_db s') \<subseteq> completed_ids (rs_db s) \<union> de_ID ` set evs"
  using assms(2)
proof (induction evs arbitrary: i s)
  case (Cons x evs)
  let ?s = "run_event dispatch own (env i) x s"
  note one = run_event_cases[OF assms(1)[of i] refl, where s = s and dispatch = dispatch and own = own and ev = x]
  consider (skip) "run_loop dispatch own env (Suc i) evs s = (s', r)" "de_Session x \<in> set (rs_failed s)"
    | (bad) "s' = s" | (run) "run_loop dispatch own env (Suc i) evs ?s = (s', r)" "de_Session x \<notin> set (rs_failed s)"
    using Cons.prems by (auto split: if_splits)
  then show ?case
  proof cases
    case skip
    note IH = Cons.IH[OF skip(1)]
    have "de_ID x \<in> completed_ids (rs_db s)" if "distinct (map de_ID (x # evs))" "de_ID x \<in> completed_ids (rs_db s')"
      using IH that by auto
    with IH show ?thesis by auto
  next
    case bad
    then show ?thesis by auto
  next
    case run
    note IH = Cons.IH[OF run(1)]
    have a: "completed_ids (rs_db s) \<subseteq> completed_ids (rs_db s')" using IH one(1) by blast
    have b: "completed_ids (rs_db s') \<subseteq> completed_ids (rs_db s) \<union> de_ID ` set (x # evs)" using IH one(2) by auto
    have c: "de_ID ev \<in> completed_ids (rs_db s)"
      if "ev \<in> set (x # evs)" "distinct (map de_ID (x # evs))" "de_Session ev \<in> set (rs_failed s)" "de_ID ev \<in> completed_ids (rs_db s')"
    proof -
      from that run(2) have "ev \<in> set evs" by auto
      moreover from this that(2) have "de_ID ev \<noteq> de_ID x" by (metis distinct.simps(2) imageI list.set_map list.simps(9))
      ultimately show ?thesis using IH that one(2,3) by auto
    qed
    from a b c show ?thesis by blast
  qed
qed simp

text \<open>Within a claimed batch, an event is completed only when all earlier events of its session are.\<close>

lemma run_loop_order:
  assumes "\<And>i. quiet (env i)" "run_loop dispatch own env i (xs @ p # ys) s = (s', r)" "distinct (map de_ID (xs @ p # ys))"
    "ev \<in> set ys" "de_Session ev = de_Session p" "de_ID ev \<in> completed_ids (rs_db s')" "de_ID ev \<notin> completed_ids (rs_db s)"
  shows "de_ID p \<in> completed_ids (rs_db s')"
  using assms(2-)
proof (induction xs arbitrary: i s)
  case Nil
  note ids = run_loop_ids[OF assms(1), where evs = ys and s' = s' and r = r and ev = ev]
  note one = run_event_cases[OF assms(1)[of i] refl, where s = s and dispatch = dispatch and own = own and ev = p]
  from Nil.prems(2,3) have ne: "de_ID ev \<noteq> de_ID p"
    by (metis append_Nil distinct.simps(2) imageI list.set_map list.simps(9))
  show ?case
  proof (cases "de_Session p \<in> set (rs_failed s)")
    case True
    with Nil.prems have "run_loop dispatch own env (Suc i) ys s = (s', r)" by simp
    from ids[OF this] Nil.prems True show ?thesis by auto
  next
    case False
    show ?thesis
    proof (cases "de_ID p = []")
      case True
      with False Nil.prems show ?thesis by auto
    next
      case ok: False
      with False Nil.prems have l: "run_loop dispatch own env (Suc i) ys (run_event dispatch own (env i) p s) = (s', r)" by simp
      show ?thesis
      proof (rule ccontr)
        assume "de_ID p \<notin> completed_ids (rs_db s')"
        with ids[OF l] one(4) have "de_Session p \<in> set (rs_failed (run_event dispatch own (env i) p s))" by auto
        with ids[OF l] Nil.prems have "de_ID ev \<in> completed_ids (rs_db (run_event dispatch own (env i) p s))" by auto
        with one(2) ne Nil.prems show False by auto
      qed
    qed
  qed
next
  case (Cons x xs)
  note one = run_event_cases[OF assms(1)[of i] refl, where s = s and dispatch = dispatch and own = own and ev = x]
  have ne: "de_ID ev \<noteq> de_ID x" using Cons.prems(2,3) by (auto simp: rev_image_eqI)
  consider (skip) "run_loop dispatch own env (Suc i) (xs @ p # ys) s = (s', r)" | (bad) "s' = s"
    | (run) "run_loop dispatch own env (Suc i) (xs @ p # ys) (run_event dispatch own (env i) x s) = (s', r)"
    using Cons.prems(1) by (auto split: if_splits)
  then show ?case
  proof cases
    case skip
    with Cons.IH[OF skip] Cons.prems show ?thesis by auto
  next
    case bad
    with Cons.prems show ?thesis by simp
  next
    case run
    have "de_ID ev \<notin> completed_ids (rs_db (run_event dispatch own (env i) x s))" using one(2) ne Cons.prems by auto
    with Cons.IH[OF run] Cons.prems show ?thesis by auto
  qed
qed

section \<open>A pass of the worker\<close>

lemma claimed_event:
  assumes "event_inv db" "r \<in> set (claimable_rows locked w db)"
  shows "de_ID (wire_event (the (log_row_of db (in_EventLogID r)))) = in_EventLogID r"
    "de_Session (wire_event (the (log_row_of db (in_EventLogID r)))) = in_SessionID r"
proof -
  from claimable_rowsD[OF assms(2)] have r: "r \<in> set (ev_ingested db)" "in_CompletedAt r = None"
    by (auto simp: claimable_event_def)
  from assms(1) r obtain l where l: "l \<in> set (ev_log db)" "el_EventID l = in_EventLogID r" "el_SessionID l = in_SessionID r"
    by (force simp: event_inv_def work_logged_def)
  have "find (\<lambda>x. el_EventID x = in_EventLogID r) (ev_log db) = Some l"
    using assms(1) l find_unique_key[of el_EventID "ev_log db" l] by (simp add: event_inv_def)
  with l show "de_ID (wire_event (the (log_row_of db (in_EventLogID r)))) = in_EventLogID r"
    "de_Session (wire_event (the (log_row_of db (in_EventLogID r)))) = in_SessionID r"
    by (simp_all add: log_row_of_def wire_event_def)
qed

lemma ledger_log_ids:
  assumes "event_inv db"
  shows "distinct (map in_EventLogID (ev_ingested db))"
proof -
  have ids: "map in_EventLogID (ev_ingested db) = map in_EventID (ev_ingested db)" using assms by (auto simp: event_inv_def)
  show ?thesis unfolding ids using assms by (simp add: event_inv_def)
qed

lemma claimable_rows_ids: "event_inv db \<Longrightarrow> distinct (map in_EventLogID (claimable_rows locked w db))"
  unfolding claimable_rows_def by (rule distinct_map_select_rows[OF ledger_log_ids])

lemma claimed_ids:
  assumes "event_inv db" "ClaimCommittedEvents f locked w db = (db1, Inr evs)"
  shows "map de_ID evs = map in_EventLogID (claimable_rows locked w db)" "distinct (map de_ID evs)"
    "completed_ids db1 = completed_ids db"
proof -
  show "map de_ID evs = map in_EventLogID (claimable_rows locked w db)"
    using ClaimCommittedEvents_result(2)[OF assms(2)] claimed_event(1)[OF assms(1)] by simp
  then show "distinct (map de_ID evs)" using claimable_rows_ids[OF assms(1)] by simp
  show "completed_ids db1 = completed_ids db"
    unfolding ClaimCommittedEvents_result(1)[OF assms(2)] lease_all_def completed_ids_def
    by (force simp: set_upd_rows image_iff)
qed

lemma RunOnce_cases:
  assumes "RunOnce f locked env dispatch config now k db w = ((db', w'), n, e)"
  obtains (claim_failed) "db' = db" "w' = w" "n = 0" "e \<noteq> None"
    | (ran) db1 evs s r where "ClaimCommittedEvents f locked \<lparr>cw_Owner = wc_Owner config, cw_ClaimedAt = now,
          cw_LeaseUntil = now + wc_Lease config, cw_MaxItems = k\<rparr> db = (db1, Inr evs)"
        "run_loop dispatch (wc_Owner config) env 0 evs \<lparr>rs_db = db1, rs_world = w, rs_completed = 0, rs_failed = [], rs_failures = []\<rparr> = (s, r)"
        "db' = rs_db s" "w' = rs_world s" "n = rs_completed s" "e = (if r = None then join_all (rs_failures s) else r)"
  using assms unfolding RunOnce_def
  by (auto split: if_splits prod.splits sum.splits option.splits dest: ClaimCommittedEvents_error)

text \<open>Property C16. A pass of the worker keeps the order of each session: whichever consumers
  fail and whichever completions do, as long as no other client writes the ledger or has
  rows locked during the pass, an event becomes complete only when every event of its
  session committed before it is complete.\<close>

theorem RunOnce_session_order:
  assumes "event_inv db" "\<And>i. quiet (env i)" "RunOnce f (\<lambda>_. False) env dispatch config now k db w = ((db', w'), n, e)"
    and "r \<in> set (ev_ingested db)" "in_CompletedAt r = None" "in_EventLogID r \<in> completed_ids db'"
    and "p \<in> set (ev_ingested db)" "in_SessionID p = in_SessionID r" "work_key p < work_key r"
  shows "in_EventLogID p \<in> completed_ids db'"
  using assms(3)
proof (cases rule: RunOnce_cases)
  have "in_EventLogID r \<notin> completed_ids db"
    using assms(5) ledger_unique[OF assms(1,4)] by (auto simp: completed_ids_def)
  note rnew = this
  {
    case claim_failed
    with assms(6) rnew show ?thesis by simp
  next
    case (ran db1 evs s q)
    let ?rows = "claimable_rows (\<lambda>_. False) \<lparr>cw_Owner = wc_Owner config, cw_ClaimedAt = now,
          cw_LeaseUntil = now + wc_Lease config, cw_MaxItems = k\<rparr> db"
    let ?ev = "\<lambda>x. wire_event (the (log_row_of db (in_EventLogID x)))"
    note ids = claimed_ids[OF assms(1) ran(1)]
    note loop = run_loop_ids[OF assms(2) ran(2)]
    from loop ids(3) rnew assms(6) ran(3) have "in_EventLogID r \<in> set (map de_ID evs)" by auto
    then obtain r0 where r0: "r0 \<in> set ?rows" "in_EventLogID r0 = in_EventLogID r" unfolding ids(1) by auto
    have rin: "r \<in> set ?rows" using r0 ledger_unique[OF assms(1,4) claimable_rowsD(1)[OF r0(1)]] by simp
    show ?thesis
    proof (cases "in_CompletedAt p")
      case (Some t)
      with assms(7) have "in_EventLogID p \<in> completed_ids db" by (auto simp: completed_ids_def)
      with loop ids(3) ran(3) show ?thesis by auto
    next
      case None
      have pin: "p \<in> set ?rows" by (rule claimable_rows_prefix[OF assms(1) rin assms(7,8,9) None]) simp
      then obtain xs ys where split: "?rows = xs @ p # ys" by (auto dest: split_list)
      have "sorted (map work_key ?rows)" unfolding claimable_rows_def by (rule sorted_select_rows)
      then have "\<forall>x\<in>set xs. work_key x \<le> work_key p" unfolding split by (auto simp: sorted_wrt_append)
      with rin assms(9) have ry: "r \<in> set ys" unfolding split by (auto simp: not_le[symmetric])
      have evs: "evs = map ?ev xs @ ?ev p # map ?ev ys"
        using ClaimCommittedEvents_result(2)[OF ran(1)] split by simp
      have "de_ID (?ev p) \<in> completed_ids (rs_db s)"
        by (rule run_loop_order[OF assms(2) ran(2)[unfolded evs] ids(2)[unfolded evs], of "?ev r"])
          (use ry assms(6,8) ran(3) rnew ids(3) claimed_event[OF assms(1) rin] claimed_event[OF assms(1) pin] in auto)
      with ran(3) claimed_event(1)[OF assms(1) pin] show ?thesis by simp
    qed
  }
qed

text \<open>What a consumer accepted, as a record beside its world.\<close>

definition recorded :: "(domain_event \<Rightarrow> 'w \<Rightarrow> 'w \<times> unit result) \<Rightarrow> domain_event \<Rightarrow> 'w \<times> string list \<Rightarrow> ('w \<times> string list) \<times> unit result" where
  "recorded dispatch ev x =
     (case dispatch ev (fst x) of
        (w, Inl e) \<Rightarrow> ((w, snd x), Inl e)
      | (w, Inr _) \<Rightarrow> ((w, snd x @ [de_ID ev]), Inr ()))"

lemma recorded_event:
  assumes "quiet env" "s' = run_event (recorded dispatch) own env ev s"
  shows "set (snd (rs_world s)) \<subseteq> set (snd (rs_world s'))"
    "completed_ids (rs_db s') \<subseteq> completed_ids (rs_db s) \<union> set (snd (rs_world s'))"
proof -
  obtain w q where d: "dispatch ev (fst (rs_world s)) = (w, q)" by fastforce
  obtain db z where c: "CompleteCommittedEvent (te_faults env) (\<lambda>d. d) own (de_ID ev) (te_now env) (rs_db s) = (db, z)" by fastforce
  show "set (snd (rs_world s)) \<subseteq> set (snd (rs_world s'))"
    "completed_ids (rs_db s') \<subseteq> completed_ids (rs_db s) \<union> set (snd (rs_world s'))"
    using assms c d complete_ids(2)[OF c] unfolding quiet_def
    by (cases q; cases z; auto simp: run_event_def recorded_def fail_session_def)+
qed

lemma recorded_loop:
  assumes "\<And>i. quiet (env i)" "run_loop (recorded dispatch) own env i evs s = (s', r)"
  shows "set (snd (rs_world s)) \<subseteq> set (snd (rs_world s')) \<and>
    completed_ids (rs_db s') \<subseteq> completed_ids (rs_db s) \<union> set (snd (rs_world s'))"
  using assms(2)
proof (induction evs arbitrary: i s)
  case (Cons x evs)
  note one = recorded_event[OF assms(1)[of i] refl, where s = s and dispatch = dispatch and own = own and ev = x]
  consider (skip) "run_loop (recorded dispatch) own env (Suc i) evs s = (s', r)" | (bad) "s' = s"
    | (run) "run_loop (recorded dispatch) own env (Suc i) evs (run_event (recorded dispatch) own (env i) x s) = (s', r)"
    using Cons.prems by (auto split: if_splits)
  then show ?case
  proof cases
    case run
    from Cons.IH[OF run] one show ?thesis by blast
  qed (use Cons.IH in auto)
qed simp

text \<open>No event is completed that its consumers did not accept: after a pass
  during which no other client writes the ledger, every event that has become complete was
  accepted by the dispatcher in this pass.\<close>

theorem RunOnce_completes_accepted:
  assumes "event_inv db" "\<And>i. quiet (env i)"
    and "RunOnce f locked env (recorded dispatch) config now k db (w, []) = ((db', w', accepted), n, e)"
  shows "completed_ids db' \<subseteq> completed_ids db \<union> set accepted"
  using assms(3)
proof (cases rule: RunOnce_cases)
  case claim_failed
  then show ?thesis by simp
next
  case (ran db1 evs s q)
  from recorded_loop[OF assms(2) ran(2)] claimed_ids(3)[OF assms(1) ran(1)] ran(3,4) show ?thesis
    by (auto simp: prod_eq_iff)
qed

section \<open>Progress\<close>

lemma lease_all_row:
  assumes "r \<in> set (ev_ingested db)"
  shows "\<exists>r'\<in>set (ev_ingested (lease_all own u eids db)). in_EventLogID r' = in_EventLogID r \<and> in_CompletedAt r' = in_CompletedAt r"
proof (cases "in_EventLogID r \<in> set eids \<and> in_CompletedAt r = None")
  case True
  with lease_all_leased[OF assms, of eids own u] show ?thesis by (intro bexI[of _ "leased_row own u r"]) auto
next
  case False
  with assms have "r \<in> set (ev_ingested (lease_all own u eids db))"
    by (auto simp: lease_all_def intro!: in_upd_rows_miss)
  then show ?thesis by blast
qed

lemma lease_rows_ok:
  assumes "event_inv db" "\<And>eid. eid \<in> set eids \<Longrightarrow> \<exists>r\<in>set (ev_ingested db). in_EventLogID r = eid \<and> in_CompletedAt r = None"
  shows "lease_rows no_faults i own u eids db = Inr (lease_all own u eids db)"
  using assms
proof (induction eids arbitrary: i db)
  case Nil
  then show ?case by (simp add: lease_all_simps)
next
  case (Cons eid eids)
  from Cons.prems(2)[of eid] obtain r where r: "r \<in> set (ev_ingested db)" "in_EventLogID r = eid" "in_CompletedAt r = None" by auto
  from matched_log_id[OF Cons.prems(1) r(1,3)] r(2) have m: "snd (claim_row_for own u eid db) = 1"
    by (simp add: claim_row_for_def)
  have d: "fst (claim_row_for own u eid db) = lease_all own u [eid] db"
    by (simp add: claim_row_for_def lease_all_def Let_def)
  have "\<exists>r\<in>set (ev_ingested (lease_all own u [eid] db)). in_EventLogID r = x \<and> in_CompletedAt r = None" if "x \<in> set eids" for x
    using Cons.prems(2)[of x] that lease_all_row[of _ db own u "[eid]"] by fastforce
  from Cons.IH[OF lease_all_inv[OF Cons.prems(1)] this, where i = "Suc i"] m d
    lease_all_simps(2)[of own u eids eid db] show ?case
    by (simp add: split_beta)
qed

definition held :: "string \<Rightarrow> string \<Rightarrow> 'm event_db \<Rightarrow> bool" where
  "held own eid db \<longleftrightarrow> (\<exists>r\<in>set (ev_ingested db). claimed_incomplete own eid r)"

lemma complete_held:
  assumes "event_inv db" "held own eid db" "own \<noteq> []" "eid \<noteq> []"
  shows "CompleteCommittedEvent no_faults env own eid t db = (complete_claimed own eid (UnixMilli t) db, Inr ())"
    "event_inv (complete_claimed own eid (UnixMilli t) db)"
    "x \<noteq> eid \<Longrightarrow> held own x db \<Longrightarrow> held own x (complete_claimed own eid (UnixMilli t) db)"
proof -
  from assms(2) obtain r where r: "r \<in> set (ev_ingested db)" "claimed_incomplete own eid r" by (auto simp: held_def)
  from ledger_log_ids[OF assms(1)]
  have "matched (claimed_incomplete own eid) (ev_ingested db) = 1"
    using r by (intro matched_key[where key = in_EventLogID and r = r]) (auto simp: claimed_incomplete_def)
  with assms(3,4) show "CompleteCommittedEvent no_faults env own eid t db = (complete_claimed own eid (UnixMilli t) db, Inr ())"
    by (simp add: CompleteCommittedEvent_def)
  show "event_inv (complete_claimed own eid (UnixMilli t) db)"
    unfolding complete_claimed_def using assms(1) by (intro upd_ingested_inv) auto
  show "held own x (complete_claimed own eid (UnixMilli t) db)" if "x \<noteq> eid" "held own x db"
    using that unfolding held_def complete_claimed_def by (auto simp: claimed_incomplete_def intro!: in_upd_rows_miss bexI)
qed

lemma run_loop_accepting:
  assumes "\<And>ev w. \<exists>w'. dispatch ev w = (w', Inr ())" "\<And>i. quiet (env i)" "\<And>i. te_faults (env i) = no_faults" "own \<noteq> []"
    and "event_inv (rs_db s)" "distinct (map de_ID evs)" "rs_failed s = []"
    and "\<And>ev. ev \<in> set evs \<Longrightarrow> de_ID ev \<noteq> [] \<and> held own (de_ID ev) (rs_db s)"
  shows "\<exists>s'. run_loop dispatch own env i evs s = (s', None) \<and> rs_completed s' = rs_completed s + length evs \<and>
    rs_failures s' = rs_failures s \<and> de_ID ` set evs \<subseteq> completed_ids (rs_db s')"
  using assms(5-)
proof (induction evs arbitrary: i s)
  case (Cons x evs)
  obtain w where w: "dispatch x (rs_world s) = (w, Inr ())" using assms(1) by blast
  have h: "held own (de_ID x) (rs_db s)" "de_ID x \<noteq> []" using Cons.prems(4) by auto
  let ?db = "complete_claimed own (de_ID x) (UnixMilli (te_now (env i))) (rs_db s)"
  let ?s = "s\<lparr>rs_world := w, rs_db := ?db, rs_completed := rs_completed s + 1\<rparr>"
  note c = complete_held[OF Cons.prems(1) h(1) assms(4) h(2)]
  have s: "run_event dispatch own (env i) x s = ?s"
    using w c(1) assms(2,3)[of i] by (simp add: run_event_def quiet_def)
  have "de_ID ev \<noteq> [] \<and> held own (de_ID ev) (rs_db ?s)" if "ev \<in> set evs" for ev
  proof -
    have "de_ID ev \<noteq> de_ID x" using Cons.prems(2) that by (metis distinct.simps(2) imageI list.set_map list.simps(9))
    with Cons.prems(4)[of ev] that c(3) show ?thesis by simp
  qed
  with Cons.IH[of ?s "Suc i"] Cons.prems c(2) obtain s' where s': "run_loop dispatch own env (Suc i) evs ?s = (s', None)"
    "rs_completed s' = rs_completed ?s + length evs" "rs_failures s' = rs_failures ?s" "de_ID ` set evs \<subseteq> completed_ids (rs_db s')"
    by auto
  have "de_ID x \<in> completed_ids ?db"
    using complete_ids(3)[OF c(1)[of "\<lambda>d. d"]] by simp
  then have "de_ID x \<in> completed_ids (rs_db s')"
    using run_loop_ids[OF assms(2) s'(1), of x] by auto
  with s s' h(2) Cons.prems(3) show ?case by auto
qed simp

text \<open>With no live lease and a large enough batch, a claim takes every unfinished event and
  holds it for the worker.\<close>

lemma claim_everything:
  fixes config now k
  defines "w \<equiv> \<lparr>cw_Owner = wc_Owner config, cw_ClaimedAt = now, cw_LeaseUntil = now + wc_Lease config, cw_MaxItems = k\<rparr>"
  assumes "event_inv db" "wc_Owner config \<noteq> []" "0 < wc_Lease config" "\<not> IsZero now" "0 < k"
    and "matched (\<lambda>r. in_CompletedAt r = None) (ev_ingested db) \<le> nat k"
    and "\<And>r. r \<in> set (ev_ingested db) \<Longrightarrow> \<not> live_lease (UnixMilli now) r \<and> in_EventID r \<noteq> []"
  obtains db1 evs where "ClaimCommittedEvents no_faults (\<lambda>_. False) w db = (db1, Inr evs)" "event_inv db1"
    "length evs = matched (\<lambda>r. in_CompletedAt r = None) (ev_ingested db)"
    "de_ID ` set evs = in_EventLogID ` {r \<in> set (ev_ingested db). in_CompletedAt r = None}"
    "\<And>ev. ev \<in> set evs \<Longrightarrow> de_ID ev \<noteq> [] \<and> held (wc_Owner config) (de_ID ev) db1"
proof -
  let ?rows = "claimable_rows (\<lambda>_. False) w db" and ?until = "UnixMilli (now + wc_Lease config)"
  have cl: "claimable_event (UnixMilli now) db r \<longleftrightarrow> in_CompletedAt r = None" if "r \<in> set (ev_ingested db)" for r
    using that assms(8) work_row_logged[OF assms(2) that] by (auto simp: claimable_event_def)
  have flt: "filter (\<lambda>r. claimable_event (UnixMilli now) db r) (ev_ingested db) = filter (\<lambda>r. in_CompletedAt r = None) (ev_ingested db)"
    using cl by (intro filter_cong) auto
  have rows: "set ?rows = {r \<in> set (ev_ingested db). in_CompletedAt r = None}"
    "length ?rows = matched (\<lambda>r. in_CompletedAt r = None) (ev_ingested db)"
    using assms(7) by (simp_all add: w_def claimable_rows_def select_rows_def flt matched_def)
  let ?db1 = "lease_all (wc_Owner config) ?until (map in_EventLogID ?rows) db"
  let ?evs = "map (\<lambda>r. wire_event (the (log_row_of db (in_EventLogID r)))) ?rows"
  have "lease_rows no_faults 3 (wc_Owner config) ?until (map in_EventLogID ?rows) db = Inr ?db1"
    using rows(1) by (intro lease_rows_ok[OF assms(2)]) auto
  then have claim: "ClaimCommittedEvents no_faults (\<lambda>_. False) w db = (?db1, Inr ?evs)"
    using assms(3-6) by (simp add: w_def ClaimCommittedEvents_def comp_def)
  show thesis
  proof (rule that[OF claim lease_all_inv[OF assms(2)]])
    show "length ?evs = matched (\<lambda>r. in_CompletedAt r = None) (ev_ingested db)" using rows(2) by simp
    have "map de_ID ?evs = map in_EventLogID ?rows" using claimed_ids(1)[OF assms(2) claim] .
    then have "de_ID ` set ?evs = in_EventLogID ` set ?rows" by (metis set_map)
    then show "de_ID ` set ?evs = in_EventLogID ` {r \<in> set (ev_ingested db). in_CompletedAt r = None}" unfolding rows(1) .
    show "de_ID ev \<noteq> [] \<and> held (wc_Owner config) (de_ID ev) ?db1" if "ev \<in> set ?evs" for ev
    proof -
      from that obtain r where r: "r \<in> set ?rows" "de_ID ev = in_EventLogID r" using claimed_event(1)[OF assms(2)] by auto
      with rows have r': "r \<in> set (ev_ingested db)" "in_CompletedAt r = None" by auto
      have "in_EventLogID r \<noteq> []" using assms(2,8) r'(1) by (auto simp: event_inv_def)
      moreover have "leased_row (wc_Owner config) ?until r \<in> set (ev_ingested ?db1)"
        by (rule lease_all_leased[OF r']) (use r(1) in simp)
      ultimately show ?thesis unfolding held_def claimed_incomplete_def r(2)
        by (intro conjI bexI[of _ "leased_row (wc_Owner config) ?until r"]) (simp_all add: r'(2))
    qed
  qed
qed

text \<open>Property C39. Progress: when no event is leased and the batch is large enough, one pass with
  consumers that accept their events completes every event of the ledger and reports no
  error.\<close>

theorem RunOnce_finishes:
  assumes "event_inv db" "\<And>i. quiet (env i)" "\<And>i. te_faults (env i) = no_faults" "\<And>ev w. \<exists>w'. dispatch ev w = (w', Inr ())"
    and "wc_Owner config \<noteq> []" "0 < wc_Lease config" "\<not> IsZero now" "0 < k"
    and "matched (\<lambda>r. in_CompletedAt r = None) (ev_ingested db) \<le> nat k"
    and "\<And>r. r \<in> set (ev_ingested db) \<Longrightarrow> \<not> live_lease (UnixMilli now) r \<and> in_EventID r \<noteq> []"
  shows "\<exists>db' w'. RunOnce no_faults (\<lambda>_. False) env dispatch config now k db w =
      ((db', w'), matched (\<lambda>r. in_CompletedAt r = None) (ev_ingested db), None) \<and>
    in_EventLogID ` set (ev_ingested db) \<subseteq> completed_ids db'"
proof -
  obtain db1 evs where claim: "ClaimCommittedEvents no_faults (\<lambda>_. False)
        \<lparr>cw_Owner = wc_Owner config, cw_ClaimedAt = now, cw_LeaseUntil = now + wc_Lease config, cw_MaxItems = k\<rparr> db = (db1, Inr evs)"
      and inv1: "event_inv db1" and len: "length evs = matched (\<lambda>r. in_CompletedAt r = None) (ev_ingested db)"
      and evs: "de_ID ` set evs = in_EventLogID ` {r \<in> set (ev_ingested db). in_CompletedAt r = None}"
      and holds: "\<And>ev. ev \<in> set evs \<Longrightarrow> de_ID ev \<noteq> [] \<and> held (wc_Owner config) (de_ID ev) db1"
    using claim_everything[OF assms(1,5-9) assms(10)] by blast
  note ids = claimed_ids[OF assms(1) claim]
  let ?s0 = "\<lparr>rs_db = db1, rs_world = w, rs_completed = 0, rs_failed = [], rs_failures = []\<rparr>"
  from run_loop_accepting[where s = ?s0 and i = 0 and dispatch = dispatch and env = env, OF assms(4,2,3,5) _ ids(2)] inv1 holds
  obtain s' where s': "run_loop dispatch (wc_Owner config) env 0 evs ?s0 = (s', None)"
    "rs_completed s' = length evs" "rs_failures s' = []" "de_ID ` set evs \<subseteq> completed_ids (rs_db s')" by auto
  have "in_EventLogID r \<in> completed_ids (rs_db s')" if "r \<in> set (ev_ingested db)" for r
  proof (cases "in_CompletedAt r = None")
    case True
    with that evs s'(4) show ?thesis by blast
  next
    case False
    with that have "in_EventLogID r \<in> completed_ids db1" unfolding ids(3) by (auto simp: completed_ids_def)
    with run_loop_ids[OF assms(2) s'(1)] show ?thesis by auto
  qed
  then show ?thesis using claim s' len assms(8) by (auto simp: RunOnce_def join_all_def)
qed

section \<open>Completion\<close>

text \<open>Completion is fenced by the claim and can be repeated: it succeeds exactly for
  the owner that holds the claim of a recorded event, a repetition succeeds and changes
  nothing, and for anybody else it changes nothing and fails.\<close>

theorem CompleteCommittedEvent_fenced:
  assumes "event_inv db" "own \<noteq> []" "eid \<noteq> []" "CompleteCommittedEvent no_faults (\<lambda>d. d) own eid t db = (db', q)"
  shows "(q = Inr () \<longleftrightarrow> (\<exists>r\<in>set (ev_ingested db). in_EventLogID r = eid \<and> in_ClaimedBy r = Some own)) \<and>
    (q \<noteq> Inr () \<longrightarrow> db' = db) \<and>
    (q = Inr () \<longrightarrow> eid \<in> completed_ids db' \<and> CompleteCommittedEvent no_faults (\<lambda>d. d) own eid t' db' = (db', Inr ()))"
proof -
  have found: "find (\<lambda>x. in_EventLogID x = in_EventLogID r) (ev_ingested d) = Some r"
    if "event_inv d" "r \<in> set (ev_ingested d)" for r d
    using find_unique_key[of in_EventLogID "ev_ingested d" r] ledger_log_ids[OF that(1)] that(2) by simp
  have none: "CompleteCommittedEvent no_faults (\<lambda>d. d) own eid u d = (d, completed_by None own eid d)"
    if "\<not> held own eid d" for d :: "'a event_db" and u
  proof -
    have m: "matched (claimed_incomplete own eid) (ev_ingested d) = 0" using that by (simp add: matched_0_iff held_def)
    then have "complete_claimed own eid (UnixMilli u) d = d" by (simp add: complete_claimed_def upd_rows_id)
    with m assms(2,3) show ?thesis by (simp add: CompleteCommittedEvent_def)
  qed
  have again: "CompleteCommittedEvent no_faults (\<lambda>d. d) own eid u d = (d, Inr ())"
    if "event_inv d" "r \<in> set (ev_ingested d)" "in_EventLogID r = eid" "in_ClaimedBy r = Some own" "in_CompletedAt r \<noteq> None"
    for d :: "'a event_db" and u r
  proof -
    have "\<not> held own eid d" using ledger_unique[OF that(1,2)] that(3,5) by (auto simp: held_def claimed_incomplete_def)
    with none found[OF that(1,2)] that(3-5) show ?thesis by (simp add: completed_by_def)
  qed
  show ?thesis
  proof (cases "held own eid db")
    case True
    then obtain r where r: "r \<in> set (ev_ingested db)" "claimed_incomplete own eid r" by (auto simp: held_def)
    note c = complete_held[OF assms(1) True assms(2,3)]
    from c(1)[of "\<lambda>d. d" t] assms(4) have d: "db' = complete_claimed own eid (UnixMilli t) db" "q = Inr ()" by simp_all
    have "r\<lparr>in_CompletedAt := Some (UnixMilli t)\<rparr> \<in> set (ev_ingested db')"
      using in_upd_rows_hit[of r "ev_ingested db" "claimed_incomplete own eid" "\<lambda>r. r\<lparr>in_CompletedAt := Some (UnixMilli t)\<rparr>", OF r]
      by (simp add: d(1) complete_claimed_def)
    from again[OF _ this, of t'] c(2)[of t] d r complete_ids(3)[OF assms(4)] show ?thesis
      by (auto simp: claimed_incomplete_def)
  next
    case False
    from none[OF False, of t] assms(4) have d: "db' = db" "q = completed_by None own eid db" by simp_all
    have "in_ClaimedBy r = Some own \<longrightarrow> in_CompletedAt r \<noteq> None" if "r \<in> set (ev_ingested db)" "in_EventLogID r = eid" for r
      using False that by (auto simp: held_def claimed_incomplete_def)
    with again[OF assms(1)] d completed_by_Inr[of None own eid db] complete_ids(3)[OF assms(4)] assms(4) show ?thesis
      by (metis prod.inject)
  qed
qed

section \<open>A pass\<close>

definition demo_config :: worker_config where
  "demo_config = \<lparr>wc_Owner = ''api'', wc_Lease = 30000000000, wc_Batch = 10, wc_Poll = 1, wc_hasClock = True\<rparr>"

definition demo_turn :: "unit turn_env" where
  "demo_turn = \<lparr>te_faults = no_faults, te_now = 7000000000, te_before = (\<lambda>d. d), te_between = (\<lambda>d. d)\<rparr>"

lemma demo_turn_quiet: "quiet demo_turn" "te_faults demo_turn = no_faults"
  by (simp_all add: quiet_def demo_turn_def)

definition demo_work :: "string \<Rightarrow> committed_work" where
  "demo_work own = \<lparr>cw_Owner = own, cw_ClaimedAt = 5000000000, cw_LeaseUntil = 35000000000, cw_MaxItems = 1\<rparr>"

definition demo_leased :: "unit event_db" where
  "demo_leased = fst (ClaimCommittedEvents no_faults (\<lambda>_. False) (demo_work ''a'') demo_ingested)"

text \<open>Rows that another transaction has locked are passed over, and the leases of that
  transaction are not visible yet: a claim may then take a later event of the session.\<close>

theorem skip_locked_overtakes:
  "map de_ID (projr (snd (ClaimCommittedEvents no_faults (\<lambda>_. False) (demo_work ''a'') demo_ingested))) = [''e1''] \<and>
   map de_ID (projr (snd (ClaimCommittedEvents no_faults (\<lambda>eid. eid = ''e1'') (demo_work ''b'') demo_ingested))) = [''e2'']"
  by code_simp

definition demo_row :: "string \<Rightarrow> ingested_row" where
  "demo_row eid = \<lparr>in_EventID = eid, in_GatewayID = ''g1'', in_ConnectionEpoch = 1, in_SessionID = ''s'', in_AssignmentEpoch = 4,
     in_OrganizationID = ''org'', in_EventLogID = eid, in_CommittedAt = 9, in_ClaimedBy = None, in_LeaseUntil = None, in_CompletedAt = None\<rparr>"

definition demo_evs :: "domain_event list" where
  "demo_evs = projr (snd (ClaimCommittedEvents no_faults (\<lambda>_. False) (demo_work ''a'') demo_ingested))"

definition demo_pass :: "(domain_event \<Rightarrow> unit \<times> string list \<Rightarrow> (unit \<times> string list) \<times> unit result) \<Rightarrow>
    (unit event_db \<times> unit \<times> string list) \<times> nat \<times> go_err option" where
  "demo_pass dispatch = RunOnce no_faults (\<lambda>_. False) (\<lambda>_. demo_turn) dispatch demo_config 5000000000 10 demo_ingested ((), [])"

definition demo_accept_all :: "domain_event \<Rightarrow> unit \<Rightarrow> unit \<times> unit result" where
  "demo_accept_all ev w = (w, Inr ())"

definition demo_reject :: "domain_event \<Rightarrow> unit \<Rightarrow> unit \<times> unit result" where
  "demo_reject ev w = (w, if de_ID ev = ''e1'' then Inl (Plain ''consumer down'') else Inr ())"

lemma demo_rows: "ev_ingested demo_ingested = [demo_row ''e1'', demo_row ''e2'']"
  by code_simp

lemma demo_first_claim: "ClaimCommittedEvents no_faults (\<lambda>_. False) (demo_work ''a'') demo_ingested = (demo_leased, Inr demo_evs)"
  unfolding demo_leased_def demo_evs_def by code_simp

theorem ClaimCommittedEvents_session_order_witness:
  "''e1'' \<notin> in_EventLogID ` set (claimable_rows (\<lambda>_. False) (demo_work ''b'') demo_leased)"
proof -
  have t: "UnixMilli (cw_ClaimedAt (demo_work ''b'')) < UnixMilli (cw_LeaseUntil (demo_work ''a''))" by code_simp
  have r: "demo_row ''e1'' \<in> set (claimable_rows (\<lambda>_. False) (demo_work ''a'') demo_ingested)" by code_simp
  from ClaimCommittedEvents_session_order[OF demo_ingested_inv demo_first_claim t r, of "\<lambda>_. False"]
  show ?thesis by (auto simp: demo_row_def)
qed

theorem RunOnce_session_order_witness: "''e1'' \<in> completed_ids (fst (fst (demo_pass (recorded demo_accept_all))))"
proof -
  obtain db w x n e where p: "demo_pass (recorded demo_accept_all) = ((db, w, x), n, e)" by (metis prod.exhaust)
  have "''e2'' \<in> completed_ids (fst (fst (demo_pass (recorded demo_accept_all))))" by code_simp
  with RunOnce_session_order[OF demo_ingested_inv demo_turn_quiet(1) p[unfolded demo_pass_def], of "demo_row ''e2''" "demo_row ''e1''"] p
  show ?thesis by (simp add: demo_rows) (simp add: demo_row_def work_key_def)
qed

theorem RunOnce_completes_accepted_witness: "completed_ids (fst (fst (demo_pass (recorded demo_reject)))) = {}"
proof -
  obtain db w x n e where p: "demo_pass (recorded demo_reject) = ((db, w, x), n, e)" by (metis prod.exhaust)
  have "snd (snd (fst (demo_pass (recorded demo_reject)))) = []" by code_simp
  with p have "x = []" by simp
  moreover have "completed_ids demo_ingested = {}" by (auto simp: completed_ids_def demo_rows demo_row_def)
  ultimately show ?thesis
    using RunOnce_completes_accepted[OF demo_ingested_inv demo_turn_quiet(1) p[unfolded demo_pass_def]] p by simp
qed

theorem RunOnce_finishes_witness:
  "\<exists>db' w'. demo_pass (recorded demo_accept_all) = ((db', w'), 2, None) \<and> {''e1'', ''e2''} \<subseteq> completed_ids db'"
proof -
  have a: "\<exists>w'. recorded demo_accept_all ev w = (w', Inr ())" for ev w
    by (simp add: recorded_def demo_accept_all_def)
  have l: "\<not> live_lease (UnixMilli 5000000000) r \<and> in_EventID r \<noteq> []" if "r \<in> set (ev_ingested demo_ingested)" for r
    using that by (auto simp: demo_rows demo_row_def live_lease_def)
  have n: "matched (\<lambda>r. in_CompletedAt r = None) (ev_ingested demo_ingested) = 2" by (simp add: demo_rows demo_row_def)
  have "\<exists>db' w'. RunOnce no_faults (\<lambda>_. False) (\<lambda>_. demo_turn) (recorded demo_accept_all) demo_config 5000000000 10 demo_ingested ((), []) =
      ((db', w'), matched (\<lambda>r. in_CompletedAt r = None) (ev_ingested demo_ingested), None) \<and>
    in_EventLogID ` set (ev_ingested demo_ingested) \<subseteq> completed_ids db'"
    by (rule RunOnce_finishes[OF demo_ingested_inv demo_turn_quiet a])
      (use l n in \<open>simp_all add: demo_config_def IsZero_def zero_time_def\<close>)
  then show ?thesis unfolding demo_pass_def n by (simp add: demo_rows demo_row_def)
qed

theorem CompleteCommittedEvent_fenced_witness:
  "snd (CompleteCommittedEvent no_faults (\<lambda>d. d) ''b'' ''e1'' 0 demo_leased) = Inl errCommittedEventNotClaimed \<and>
   fst (CompleteCommittedEvent no_faults (\<lambda>d. d) ''b'' ''e1'' 0 demo_leased) = demo_leased"
proof -
  have q: "snd (CompleteCommittedEvent no_faults (\<lambda>d. d) ''b'' ''e1'' 0 demo_leased) = Inl errCommittedEventNotClaimed"
    by code_simp
  have i: "event_inv demo_leased" by (rule ClaimCommittedEvents_inv[OF demo_first_claim demo_ingested_inv])
  obtain d z where d: "CompleteCommittedEvent no_faults (\<lambda>d. d) ''b'' ''e1'' 0 demo_leased = (d, z)" by fastforce
  with CompleteCommittedEvent_fenced[OF i _ _ d, of 0] q show ?thesis by auto
qed

end
