(* ===== verification/RateLimit.thy ===== *)
theory RateLimit
  imports Gw_Prelude
begin

text \<open>
  The outbound rate limiter (src/backend/internal/service/outbound_ratelimit.go): two fixed
  windows per session, kept as Redis counters that expire, read and bumped by one atomic
  script. Redis is a map from keys to a counter and the time in milliseconds it expires;
  a key whose time has come is absent.
\<close>

section \<open>Redis\<close>

record counter =
  rc_value :: int
  rc_expires :: "int option"

type_synonym redis = "string \<rightharpoonup> counter"

definition live :: "int \<Rightarrow> string \<Rightarrow> redis \<Rightarrow> counter option" where
  "live t k s = (case s k of None \<Rightarrow> None | Some c \<Rightarrow> (case rc_expires c of None \<Rightarrow> Some c | Some x \<Rightarrow> if x \<le> t then None else Some c))"

definition GET :: "int \<Rightarrow> string \<Rightarrow> redis \<Rightarrow> int" where
  "GET t k s = (case live t k s of None \<Rightarrow> 0 | Some c \<Rightarrow> rc_value c)"

definition PTTL :: "int \<Rightarrow> string \<Rightarrow> redis \<Rightarrow> int" where
  "PTTL t k s = (case live t k s of None \<Rightarrow> -2 | Some c \<Rightarrow> (case rc_expires c of None \<Rightarrow> -1 | Some x \<Rightarrow> x - t))"

definition INCR :: "int \<Rightarrow> string \<Rightarrow> redis \<Rightarrow> redis \<times> int" where
  "INCR t k s =
     (case live t k s of
        None \<Rightarrow> (s(k \<mapsto> \<lparr>rc_value = 1, rc_expires = None\<rparr>), 1)
      | Some c \<Rightarrow> (s(k \<mapsto> c\<lparr>rc_value := rc_value c + 1\<rparr>), rc_value c + 1))"

definition EXPIRE :: "int \<Rightarrow> string \<Rightarrow> int \<Rightarrow> redis \<Rightarrow> redis" where
  "EXPIRE t k secs s =
     (case live t k s of None \<Rightarrow> s | Some c \<Rightarrow> s(k \<mapsto> c\<lparr>rc_expires := Some (t + secs * 1000)\<rparr>))"

section \<open>The limiter\<close>

definition minuteWindowSeconds :: int where "minuteWindowSeconds = 60"
definition hourWindowSeconds :: int where "hourWindowSeconds = 3600"

definition ceil_seconds :: "int \<Rightarrow> int" where
  "ceil_seconds ms = (ms + 999) div 1000"

definition window_wait :: "int \<Rightarrow> string \<Rightarrow> int \<Rightarrow> redis \<Rightarrow> int" where
  "window_wait t k secs s = (let ttl = PTTL t k s in ceil_seconds (if ttl < 0 then secs * 1000 else ttl))"

definition bump_window :: "int \<Rightarrow> string \<Rightarrow> int \<Rightarrow> redis \<Rightarrow> redis" where
  "bump_window t k secs s = (case INCR t k s of (s', n) \<Rightarrow> if n = 1 then EXPIRE t k secs s' else s')"

text \<open>The script: whether the request is admitted, and the seconds to wait otherwise.\<close>

definition allowScript :: "int \<Rightarrow> string \<Rightarrow> string \<Rightarrow> int \<Rightarrow> int \<Rightarrow> int \<Rightarrow> int \<Rightarrow> redis \<Rightarrow> redis \<times> int \<times> int" where
  "allowScript t minKey hourKey minLimit hourLimit minTTL hourTTL s =
     (if minLimit > 0 \<and> GET t minKey s \<ge> minLimit then (s, 0, window_wait t minKey minTTL s)
      else if hourLimit > 0 \<and> GET t hourKey s \<ge> hourLimit then (s, 0, window_wait t hourKey hourTTL s)
      else (bump_window t hourKey hourTTL (bump_window t minKey minTTL s), 1, 0))"

definition minKey :: "string \<Rightarrow> string \<Rightarrow> string" where
  "minKey keyPrefix sessionID = keyPrefix @ '':'' @ sessionID @ '':min''"

definition hourKey :: "string \<Rightarrow> string \<Rightarrow> string" where
  "hourKey keyPrefix sessionID = keyPrefix @ '':'' @ sessionID @ '':hour''"

text \<open>\<open>ft\<close> is the error of the Redis call; the result is whether to send and the time to wait.\<close>

definition Allow :: "go_err option \<Rightarrow> string \<Rightarrow> int \<Rightarrow> string \<Rightarrow> int \<Rightarrow> int \<Rightarrow> redis \<Rightarrow> redis \<times> (bool \<times> duration) result" where
  "Allow ft keyPrefix t sessionID perMin perHour s =
     (case ft of
        Some e \<Rightarrow> (s, Inl (Wrapped ''ratelimit: run script'' e))
      | None \<Rightarrow>
          (case allowScript t (minKey keyPrefix sessionID) (hourKey keyPrefix sessionID) perMin perHour
                  minuteWindowSeconds hourWindowSeconds s of
             (s', allowed, retryAfterSec) \<Rightarrow>
               if allowed = 1 then (s', Inr (True, 0)) else (s', Inr (False, retryAfterSec * 1000000000))))"

section \<open>Windows\<close>

text \<open>Every counter is positive and expires.\<close>

definition counters_ok :: "redis \<Rightarrow> bool" where
  "counters_ok s \<longleftrightarrow> (\<forall>k c. s k = Some c \<longrightarrow> 0 < rc_value c \<and> rc_expires c \<noteq> None)"

text \<open>One window as an abstract counter: what is left of it at a time, and one more admission.\<close>

definition current :: "int \<Rightarrow> counter option \<Rightarrow> counter option" where
  "current t w = (case w of None \<Rightarrow> None | Some c \<Rightarrow> if the (rc_expires c) \<le> t then None else Some c)"

definition used :: "int \<Rightarrow> counter option \<Rightarrow> int" where
  "used t w = (case current t w of None \<Rightarrow> 0 | Some c \<Rightarrow> rc_value c)"

definition admit :: "int \<Rightarrow> int \<Rightarrow> counter option \<Rightarrow> counter option" where
  "admit len t w = (case current t w of
      None \<Rightarrow> Some \<lparr>rc_value = 1, rc_expires = Some (t + len)\<rparr>
    | Some c \<Rightarrow> Some (c\<lparr>rc_value := rc_value c + 1\<rparr>))"

lemma live_current: "counters_ok s \<Longrightarrow> live t k s = current t (s k)"
  by (force simp: counters_ok_def live_def current_def split: option.splits)

lemma GET_used: "counters_ok s \<Longrightarrow> GET t k s = used t (s k)"
  by (simp add: GET_def used_def live_current)

lemma bump_window_spec:
  assumes "counters_ok s"
  shows "bump_window t k secs s = s(k := admit (secs * 1000) t (s k))"
proof (cases "live t k s")
  case None
  with live_current[OF assms, of t k] show ?thesis
    by (simp add: bump_window_def INCR_def EXPIRE_def live_def admit_def)
next
  case (Some c)
  with assms have "0 < rc_value c" by (auto simp: live_def counters_ok_def split: option.splits if_splits)
  with Some live_current[OF assms, of t k] show ?thesis by (simp add: bump_window_def INCR_def admit_def)
qed

lemma admit_ok:
  assumes "counters_ok s"
  shows "counters_ok (s(k := admit len t (s k)))"
  using assms unfolding counters_ok_def admit_def current_def
  by (force split: option.splits if_splits)

lemma minKey_inj [simp]: "minKey p a = minKey p b \<longleftrightarrow> a = b" "hourKey p a = hourKey p b \<longleftrightarrow> a = b"
  by (simp_all add: minKey_def hourKey_def)

lemma min_hour_key [simp]: "minKey p a \<noteq> hourKey p b" "hourKey p b \<noteq> minKey p a"
proof -
  have "last (minKey p a) \<noteq> last (hourKey p b)" by (simp add: minKey_def hourKey_def)
  then show "minKey p a \<noteq> hourKey p b" "hourKey p b \<noteq> minKey p a" by metis+
qed

text \<open>What a call does: other sessions keep their windows, a refusal changes nothing, and an
  admission happens exactly when neither window is used up and counts in both.\<close>

lemma Allow_spec:
  assumes "counters_ok s"
  shows "Allow None p t sid perMin perHour s =
    (if perMin > 0 \<and> used t (s (minKey p sid)) \<ge> perMin then
       (s, Inr (False, window_wait t (minKey p sid) minuteWindowSeconds s * 1000000000))
     else if perHour > 0 \<and> used t (s (hourKey p sid)) \<ge> perHour then
       (s, Inr (False, window_wait t (hourKey p sid) hourWindowSeconds s * 1000000000))
     else (s(minKey p sid := admit 60000 t (s (minKey p sid)), hourKey p sid := admit 3600000 t (s (hourKey p sid))), Inr (True, 0)))"
proof -
  have b: "bump_window t (hourKey p sid) hourWindowSeconds (bump_window t (minKey p sid) minuteWindowSeconds s) =
    s(minKey p sid := admit 60000 t (s (minKey p sid)), hourKey p sid := admit 3600000 t (s (hourKey p sid)))"
    using bump_window_spec[OF assms] bump_window_spec[OF admit_ok[OF assms]]
    by (simp add: minuteWindowSeconds_def hourWindowSeconds_def)
  show ?thesis by (simp add: Allow_def allowScript_def GET_used[OF assms] b)
qed

lemma Allow_ok: "counters_ok s \<Longrightarrow> Allow None p t sid perMin perHour s = (s', q) \<Longrightarrow> counters_ok s'"
  using admit_ok[OF admit_ok, of s "minKey p sid" 60000 t "hourKey p sid" 3600000 t]
  by (auto simp: Allow_spec split: if_splits)

section \<open>Admissions over time\<close>

record rl_call =
  rl_at :: int
  rl_session :: string
  rl_perMin :: int
  rl_perHour :: int

definition admits :: "(bool \<times> duration) result \<Rightarrow> bool" where
  "admits q \<longleftrightarrow> (case q of Inl e \<Rightarrow> False | Inr (ok, _) \<Rightarrow> ok)"

fun admissions :: "string \<Rightarrow> rl_call list \<Rightarrow> redis \<Rightarrow> rl_call list" where
  "admissions p [] s = []"
| "admissions p (c # cs) s =
     (let r = Allow None p (rl_at c) (rl_session c) (rl_perMin c) (rl_perHour c) s in
      (if admits (snd r) then [c] else []) @ admissions p cs (fst r))"

text \<open>Admission times for windows of length \<open>len\<close>, each while the limit is not reached.\<close>

fun within :: "int \<Rightarrow> int \<Rightarrow> int list \<Rightarrow> counter option \<Rightarrow> bool" where
  "within limit len [] w = True"
| "within limit len (t # ts) w = (used t w < limit \<and> within limit len ts (admit len t w))"

lemma admissions_within:
  assumes "counters_ok s" "\<And>c. c \<in> set cs \<Longrightarrow> rl_session c = sid \<Longrightarrow> rl_perMin c = m \<and> rl_perHour c = h" "0 < m" "0 < h"
  shows "within m 60000 (map rl_at (filter (\<lambda>c. rl_session c = sid) (admissions p cs s))) (s (minKey p sid)) \<and>
    within h 3600000 (map rl_at (filter (\<lambda>c. rl_session c = sid) (admissions p cs s))) (s (hourKey p sid))"
  using assms(1,2)
proof (induction cs arbitrary: s)
  case (Cons c cs)
  obtain s' q where a: "Allow None p (rl_at c) (rl_session c) (rl_perMin c) (rl_perHour c) s = (s', q)" by fastforce
  have IH: "within m 60000 (map rl_at (filter (\<lambda>c. rl_session c = sid) (admissions p cs s'))) (s' (minKey p sid)) \<and>
    within h 3600000 (map rl_at (filter (\<lambda>c. rl_session c = sid) (admissions p cs s'))) (s' (hourKey p sid))"
    using Cons.IH[OF Allow_ok[OF Cons.prems(1) a]] Cons.prems(2) by simp
  have step: "if rl_session c = sid \<and> admits q
    then used (rl_at c) (s (minKey p sid)) < m \<and> used (rl_at c) (s (hourKey p sid)) < h \<and>
      s' (minKey p sid) = admit 60000 (rl_at c) (s (minKey p sid)) \<and> s' (hourKey p sid) = admit 3600000 (rl_at c) (s (hourKey p sid))
    else s' (minKey p sid) = s (minKey p sid) \<and> s' (hourKey p sid) = s (hourKey p sid)"
    using a Cons.prems(2)[of c] assms(3,4) unfolding Allow_spec[OF Cons.prems(1)]
    by (auto simp: admits_def split: if_splits)
  from IH step a show ?case by (auto split: if_splits)
qed simp

lemma set_admissions: "set (admissions p cs s) \<subseteq> set cs"
  by (induction cs arbitrary: s) (auto simp: Let_def)

lemma sorted_admissions: "sorted (map rl_at cs) \<Longrightarrow> sorted (map rl_at (admissions p cs s))"
proof (induction cs arbitrary: s)
  case (Cons c cs)
  with set_admissions[of p cs] show ?case by (fastforce simp: Let_def)
qed simp

section \<open>Bounds\<close>

text \<open>The history of a window: its admissions with the end of the window they counted in.
  Two windows do not overlap, and none is used beyond the limit.\<close>

definition in_window :: "int \<Rightarrow> (int \<times> int) list \<Rightarrow> int" where
  "in_window x H = int (length (filter (\<lambda>p. snd p = x) H))"

definition placed :: "int \<Rightarrow> int \<Rightarrow> (int \<times> int) list \<Rightarrow> bool" where
  "placed len now H \<longleftrightarrow> (\<forall>p\<in>set H. fst p \<le> now \<and> fst p < snd p \<and> snd p \<le> fst p + len)"

definition apart :: "int \<Rightarrow> (int \<times> int) list \<Rightarrow> bool" where
  "apart len H \<longleftrightarrow> (\<forall>p\<in>set H. \<forall>q\<in>set H. snd p < snd q \<longrightarrow> snd p + len \<le> snd q)"

definition open_window :: "int \<Rightarrow> int \<Rightarrow> (int \<times> int) list \<Rightarrow> counter option \<Rightarrow> bool" where
  "open_window len now H w \<longleftrightarrow> (case w of None \<Rightarrow> H = [] | Some c \<Rightarrow> rc_expires c \<noteq> None \<and> the (rc_expires c) \<le> now + len \<and>
     (\<forall>p\<in>set H. snd p \<le> the (rc_expires c)) \<and> in_window (the (rc_expires c)) H = rc_value c \<and> 0 < rc_value c)"

lemma in_window_simps [simp]: "in_window x [] = 0" "in_window x (H @ [p]) = in_window x H + (if snd p = x then 1 else 0)"
  by (simp_all add: in_window_def)

lemma in_window_0: "\<forall>p\<in>set H. snd p < x \<Longrightarrow> in_window x H = 0"
  by (auto simp: in_window_def filter_empty_conv)

lemma window_step:
  assumes "placed len now H" "apart len H" "\<forall>x. in_window x H \<le> limit" "open_window len now H w"
    and "now \<le> t" "used t w < limit" "0 < limit" "0 < len"
  defines "x \<equiv> the (rc_expires (the (admit len t w)))"
  shows "placed len t (H @ [(t, x)]) \<and> apart len (H @ [(t, x)]) \<and> (\<forall>y. in_window y (H @ [(t, x)]) \<le> limit) \<and>
    open_window len t (H @ [(t, x)]) (admit len t w)"
proof (cases "current t w")
  case None
  then have x: "x = t + len" "admit len t w = Some \<lparr>rc_value = 1, rc_expires = Some (t + len)\<rparr>"
    by (simp_all add: x_def admit_def)
  have old: "\<forall>p\<in>set H. snd p \<le> t"
    using None assms(4) by (auto simp: open_window_def current_def split: option.splits if_splits)
  then have "in_window (t + len) H = 0" using assms(8) by (intro in_window_0) auto
  moreover have "placed len t (H @ [(t, x)])" using assms(1,5,8) by (auto simp: placed_def x)
  moreover have "apart len (H @ [(t, x)])" using assms(2,8) old by (auto simp: apart_def x)
  ultimately show ?thesis using assms(3,7,8) old by (auto simp: x open_window_def)
next
  case (Some c)
  then have w: "w = Some c" "t < the (rc_expires c)" by (auto simp: current_def split: option.splits if_splits)
  have x: "x = the (rc_expires c)" "admit len t w = Some (c\<lparr>rc_value := rc_value c + 1\<rparr>)"
    using Some by (simp_all add: x_def admit_def)
  have o: "rc_expires c \<noteq> None" "x \<le> now + len" "\<forall>p\<in>set H. snd p \<le> x" "in_window x H = rc_value c" "0 < rc_value c"
    using assms(4) by (simp_all add: open_window_def w(1) x(1))
  have v: "rc_value c < limit" using assms(6) Some by (simp add: used_def)
  have "placed len t (H @ [(t, x)])" using assms(1,5) o(2) w(2) by (auto simp: placed_def x(1))
  moreover have "apart len (H @ [(t, x)])"
  proof -
    have "snd p + len \<le> x" if "p \<in> set H" "snd p < x" for p
    proof -
      have "in_window x H \<noteq> 0" using o(4,5) by simp
      then obtain q where "q \<in> set H" "snd q = x" by (auto simp: in_window_def filter_empty_conv)
      with assms(2) that show ?thesis by (auto simp: apart_def)
    qed
    with assms(2) o(3) show ?thesis by (auto simp: apart_def not_less)
  qed
  ultimately show ?thesis using assms(3,5) o v by (auto simp: x open_window_def)
qed

lemma window_run:
  assumes "within limit len ts w" "placed len now H" "apart len H" "\<forall>x. in_window x H \<le> limit" "open_window len now H w"
    and "sorted ts" "\<forall>t\<in>set ts. now \<le> t" "0 < limit" "0 < len"
  shows "\<exists>now' H'. map fst H' = map fst H @ ts \<and> placed len now' H' \<and> apart len H' \<and> (\<forall>x. in_window x H' \<le> limit)"
  using assms
proof (induction ts arbitrary: w now H)
  case Nil
  then show ?case by (intro exI[of _ now] exI[of _ H]) simp
next
  case (Cons t ts)
  note st = window_step[OF Cons.prems(2-5), of t]
  let ?H = "H @ [(t, the (rc_expires (the (admit len t w))))]"
  have "\<exists>now' H'. map fst H' = map fst ?H @ ts \<and> placed len now' H' \<and> apart len H' \<and> (\<forall>x. in_window x H' \<le> limit)"
    by (rule Cons.IH[of "admit len t w" t]) (use st Cons.prems in auto)
  then show ?case by simp
qed

lemma window_bound:
  assumes "placed len now H" "apart len H" "\<forall>x. in_window x H \<le> limit" "0 < limit" "0 < len"
  shows "int (length (filter (\<lambda>p. a \<le> fst p \<and> fst p < a + len) H)) \<le> 2 * limit"
proof (cases "filter (\<lambda>p. a \<le> fst p \<and> fst p < a + len) H = []")
  case True
  with assms(4) show ?thesis by simp
next
  case False
  let ?I = "filter (\<lambda>p. a \<le> fst p \<and> fst p < a + len) H"
  let ?X = "snd ` set ?I"
  have fin: "finite ?X" "?X \<noteq> {}" using False by (simp_all del: set_filter)
  obtain p where p: "p \<in> set ?I" "snd p = Min ?X" using Min_in[OF fin] by auto
  obtain q where q: "q \<in> set ?I" "snd q = Max ?X" using Max_in[OF fin] by auto
  have two: "snd r = Min ?X \<or> snd r = Max ?X" if "r \<in> set ?I" for r
  proof (rule ccontr)
    assume n: "\<not> (snd r = Min ?X \<or> snd r = Max ?X)"
    have "Min ?X \<le> snd r" "snd r \<le> Max ?X" using that fin by (auto simp del: set_filter)
    with n have "snd p < snd r" "snd r < snd q" using p(2) q(2) by auto
    then have "snd p + len \<le> snd r" "snd r + len \<le> snd q" using assms(2) that p(1) q(1) by (auto simp: apart_def)
    moreover have "a < snd p" "snd q < a + len + len" using assms(1) p(1) q(1) by (auto simp: placed_def)
    ultimately show False by simp
  qed
  have "length (filter P L) \<le> length (filter (\<lambda>p. snd p = x) L) + length (filter (\<lambda>p. snd p = y) L)"
    if "\<forall>r\<in>set (filter P L). snd r = x \<or> snd r = y" for P x y and L :: "(int \<times> int) list"
    using that by (induction L) auto
  from this[of "\<lambda>p. a \<le> fst p \<and> fst p < a + len" H "Min ?X" "Max ?X"] two
  have "int (length ?I) \<le> in_window (Min ?X) H + in_window (Max ?X) H" by (auto simp: in_window_def)
  also have "\<dots> \<le> limit + limit" using assms(3) by (intro add_mono) auto
  finally show ?thesis by simp
qed

lemma within_bound:
  assumes "within limit len ts None" "sorted ts" "0 < limit" "0 < len"
  shows "int (length (filter (\<lambda>t. a \<le> t \<and> t < a + len) ts)) \<le> 2 * limit"
proof (cases ts)
  case Nil
  with assms(3) show ?thesis by simp
next
  case (Cons t0 us)
  have "\<forall>t\<in>set ts. t0 \<le> t" using assms(2) Cons by auto
  then obtain now' H' where H': "map fst H' = ts" "placed len now' H'" "apart len H'" "\<forall>x. in_window x H' \<le> limit"
    using window_run[OF assms(1), of t0 "[]"] assms by (auto simp: placed_def apart_def open_window_def)
  have "filter (\<lambda>t. a \<le> t \<and> t < a + len) ts = map fst (filter (\<lambda>p. a \<le> fst p \<and> fst p < a + len) H')"
    unfolding H'(1)[symmetric] by (simp add: filter_map comp_def)
  with window_bound[OF H'(2-4) assms(3,4), of a] show ?thesis by simp
qed

text \<open>Property C26. The budgets hold over time: however the calls of any number of processes and
  sessions interleave, in any minute a session is admitted at most twice its budget per
  minute, and in any hour at most twice its budget per hour (the two windows that an
  interval of that length can touch).\<close>

theorem admissions_bounded:
  assumes "sorted (map rl_at cs)" "0 < m" "0 < h"
    and "\<And>c. c \<in> set cs \<Longrightarrow> rl_session c = sid \<Longrightarrow> rl_perMin c = m \<and> rl_perHour c = h"
  shows "int (length (filter (\<lambda>c. rl_session c = sid \<and> a \<le> rl_at c \<and> rl_at c < a + 60000) (admissions p cs Map.empty))) \<le> 2 * m \<and>
    int (length (filter (\<lambda>c. rl_session c = sid \<and> a \<le> rl_at c \<and> rl_at c < a + 3600000) (admissions p cs Map.empty))) \<le> 2 * h"
proof -
  let ?A = "filter (\<lambda>c. rl_session c = sid) (admissions p cs Map.empty)"
  have len: "length (filter (\<lambda>c. rl_session c = sid \<and> a \<le> rl_at c \<and> rl_at c < a + d) (admissions p cs Map.empty)) =
    length (filter (\<lambda>t. a \<le> t \<and> t < a + d) (map rl_at ?A))" for d
    by (simp add: filter_map comp_def conj_commute conj_left_commute)
  have srt: "sorted (map rl_at ?A)" by (rule sorted_filter[OF sorted_admissions[OF assms(1)]])
  have "counters_ok Map.empty" by (simp add: counters_ok_def)
  from admissions_within[OF this assms(4,2,3), where p = p]
  have "within m 60000 (map rl_at ?A) None" "within h 3600000 (map rl_at ?A) None" by simp_all
  note b = this
  from within_bound[OF b(1) srt assms(2)] within_bound[OF b(2) srt assms(3)] show ?thesis unfolding len by simp
qed

text \<open>\<open>Allow\<close> is exact and fails closed: it equals the reference of two counters per
  session: a request is refused, leaving every window as it is, exactly when one of its
  limited windows is used up; otherwise it is counted once in both windows of its session
  and in no other. An error of Redis admits nothing and counts nothing. After the time it
  tells the caller to wait, the window that refused the call is over.\<close>

theorem Allow_exact:
  assumes "counters_ok s"
  shows "Allow ft p t sid perMin perHour s =
    (case ft of Some e \<Rightarrow> (s, Inl (Wrapped ''ratelimit: run script'' e)) | None \<Rightarrow>
     if perMin > 0 \<and> used t (s (minKey p sid)) \<ge> perMin then
       (s, Inr (False, window_wait t (minKey p sid) 60 s * 1000000000))
     else if perHour > 0 \<and> used t (s (hourKey p sid)) \<ge> perHour then
       (s, Inr (False, window_wait t (hourKey p sid) 3600 s * 1000000000))
     else (s(minKey p sid := admit 60000 t (s (minKey p sid)), hourKey p sid := admit 3600000 t (s (hourKey p sid))), Inr (True, 0))) \<and>
    (0 < used t (s k) \<longrightarrow> 0 < window_wait t k secs s \<and> used (t + window_wait t k secs s * 1000) (s k) = 0)"
proof -
  have "0 < window_wait t k secs s \<and> used (t + window_wait t k secs s * 1000) (s k) = 0" if "0 < used t (s k)"
  proof -
    from that obtain c where c: "s k = Some c" "t < the (rc_expires c)" "current t (s k) = Some c"
      by (auto simp: used_def current_def split: option.splits if_splits)
    from assms c(1) obtain x where x: "rc_expires c = Some x" by (auto simp: counters_ok_def)
    have "PTTL t k s = x - t" using c(3) x by (simp add: PTTL_def live_current[OF assms])
    with c(2) x have w: "window_wait t k secs s = (x - t + 999) div 1000" by (simp add: window_wait_def ceil_seconds_def)
    have "0 < (x - t + 999) div 1000" "x \<le> t + (x - t + 999) div 1000 * 1000" using c(2) x by simp_all
    with w c(1) x show ?thesis by (simp add: used_def current_def)
  qed
  moreover have "Allow (Some e) p t sid perMin perHour s = (s, Inl (Wrapped ''ratelimit: run script'' e))" for e
    by (simp add: Allow_def)
  ultimately show ?thesis
    using Allow_spec[OF assms, of p t sid perMin perHour]
    by (cases ft) (simp_all add: minuteWindowSeconds_def hourWindowSeconds_def)
qed

definition demo_calls :: "rl_call list" where
  "demo_calls = map (\<lambda>t. \<lparr>rl_at = t, rl_session = ''s'', rl_perMin = 1, rl_perHour = 5\<rparr>) [0, 10, 59999, 60000, 60001]"

theorem admissions_bounded_witness:
  "map rl_at (admissions ''wa:rl'' demo_calls Map.empty) = [0, 60000] \<and>
   int (length (filter (\<lambda>c. rl_session c = ''s'' \<and> 1 \<le> rl_at c \<and> rl_at c < 1 + 60000) (admissions ''wa:rl'' demo_calls Map.empty))) \<le> 2 * 1"
proof -
  have "map rl_at (admissions ''wa:rl'' demo_calls Map.empty) = [0, 60000]" by code_simp
  moreover have "sorted (map rl_at demo_calls)" by (simp add: demo_calls_def)
  ultimately show ?thesis
    using admissions_bounded[of demo_calls 1 5 "''s''" 1 "''wa:rl''"] by (auto simp: demo_calls_def)
qed

theorem Allow_exact_witness:
  "Allow None ''wa:rl'' 10 ''s'' 1 5 (Map.empty(''wa:rl:s:min'' \<mapsto> \<lparr>rc_value = 1, rc_expires = Some 60000\<rparr>)) =
    (Map.empty(''wa:rl:s:min'' \<mapsto> \<lparr>rc_value = 1, rc_expires = Some 60000\<rparr>), Inr (False, 60000000000))"
proof -
  let ?s = "Map.empty(''wa:rl:s:min'' \<mapsto> \<lparr>rc_value = 1, rc_expires = Some (60000::int)\<rparr>)"
  have "counters_ok ?s" by (simp add: counters_ok_def)
  from Allow_exact[OF this, of None "''wa:rl''" 10 "''s''" 1 5] show ?thesis
    by (simp add: minKey_def used_def current_def window_wait_def PTTL_def live_def ceil_seconds_def)
qed

end
