(* ===== verification/Webhooks.thy ===== *)
theory Webhooks
  imports EventLog
begin

text \<open>
  Webhook deliveries: the ledger of deliveries (src/backend/internal/store/webhook_delivery.go,
  queries/webhook_delivery.sql), the matching of subscriptions, the enqueuer and the dispatcher
  (src/backend/internal/webhooks) with the adapters that join them
  (service/webhook_adapters.go, ListActiveForEvent of store/webhook.go).
\<close>

section \<open>Tables\<close>

datatype delivery_status = DeliveryPending | DeliveryDelivered | DeliveryFailed | DeliveryDead

record retry_policy =
  rp_Policy :: string
  rp_DelaySeconds :: int
  rp_Attempts :: int

record webhook =
  wh_ID :: string
  wh_OrganizationID :: string
  wh_SessionID :: "string option"
  wh_URL :: string
  wh_Events :: "string list"
  wh_HMACSecret :: string
  wh_CustomHeaders :: "(string \<times> string) list"
  wh_RetryPolicy :: retry_policy
  wh_Active :: bool
  wh_CreatedAt :: int
  wh_UpdatedAt :: int

record delivery =
  wd_ID :: nat
  wd_WebhookID :: string
  wd_EventID :: string
  wd_Status :: delivery_status
  wd_Attempts :: int
  wd_ResponseCode :: "int option"
  wd_NextRetryAt :: "int option"
  wd_LastError :: "string option"
  wd_CreatedAt :: int

record delivery_table =
  wt_rows :: "delivery list"
  wt_nextID :: nat

section \<open>The ledger of deliveries\<close>

text \<open>\<open>INSERT ... ON DUPLICATE KEY UPDATE id = LAST_INSERT_ID(id)\<close> under the unique key of webhook
  and event: a known pair answers with its id. Fault 0: the insert; 1: \<open>LastInsertId\<close>.\<close>

definition same_pair :: "string \<Rightarrow> string \<Rightarrow> delivery \<Rightarrow> bool" where
  "same_pair webhookID eventID d \<longleftrightarrow> wd_WebhookID d = webhookID \<and> wd_EventID d = eventID"

definition Enqueue :: "faults \<Rightarrow> string \<Rightarrow> string \<Rightarrow> int \<Rightarrow> delivery_table \<Rightarrow> delivery_table \<times> nat result" where
  "Enqueue f webhookID eventID createdAt tb =
     (case f 0 of
        Some e \<Rightarrow> (tb, Inl (Wrapped ''store: enqueue delivery'' e))
      | None \<Rightarrow>
          (case find (same_pair webhookID eventID) (wt_rows tb) of
             Some d \<Rightarrow> (tb, call (map_option (Wrapped ''store: enqueue delivery id'') (f 1)) (Inr (wd_ID d)))
           | None \<Rightarrow>
               (tb\<lparr>wt_rows := wt_rows tb @ [\<lparr>wd_ID = wt_nextID tb, wd_WebhookID = webhookID, wd_EventID = eventID,
                      wd_Status = DeliveryPending, wd_Attempts = 0, wd_ResponseCode = None, wd_NextRetryAt = Some createdAt,
                      wd_LastError = None, wd_CreatedAt = createdAt\<rparr>],
                   wt_nextID := Suc (wt_nextID tb)\<rparr>,
                call (map_option (Wrapped ''store: enqueue delivery id'') (f 1)) (Inr (wt_nextID tb)))))"

text \<open>\<open>Create\<close> sets the id of the row it was given; the caller reads only the error.\<close>

definition Create :: "faults \<Rightarrow> string \<Rightarrow> string \<Rightarrow> int \<Rightarrow> delivery_table \<Rightarrow> delivery_table \<times> unit result" where
  "Create f webhookID eventID createdAt tb =
     (case Enqueue f webhookID eventID createdAt tb of (tb', q) \<Rightarrow> (tb', bindr q (\<lambda>_. Inr ())))"

definition webhookAttemptLeaseMs :: int where "webhookAttemptLeaseMs = 60000"

definition due_delivery :: "int \<Rightarrow> delivery \<Rightarrow> bool" where
  "due_delivery now d \<longleftrightarrow> (wd_Status d = DeliveryPending \<or> wd_Status d = DeliveryFailed) \<and>
     (case wd_NextRetryAt d of None \<Rightarrow> False | Some t \<Rightarrow> t \<le> now)"

text \<open>The leases are staggered by the position in the batch. Rows due at the same time come in
  the order of the table, one of the orders the statement may return them in.\<close>

fun lease_loop :: "faults \<Rightarrow> int \<Rightarrow> nat \<Rightarrow> delivery list \<Rightarrow> delivery_table \<Rightarrow> delivery_table result" where
  "lease_loop f now i [] tb = Inr tb"
| "lease_loop f now i (d # ds) tb =
     call (map_option (Wrapped (''store: lease webhook delivery '' @ show_nat (wd_ID d))) (f (2 + i)))
       (lease_loop f now (Suc i) ds (tb\<lparr>wt_rows :=
          upd_rows (\<lambda>r. wd_ID r = wd_ID d) (\<lambda>r. r\<lparr>wd_NextRetryAt := Some (now + webhookAttemptLeaseMs * (int i + 1))\<rparr>) (wt_rows tb)\<rparr>))"

definition due_batch :: "(nat \<Rightarrow> bool) \<Rightarrow> int \<Rightarrow> int \<Rightarrow> delivery_table \<Rightarrow> delivery list" where
  "due_batch locked now limit tb =
     select_rows (\<lambda>d. due_delivery now d \<and> \<not> locked (wd_ID d)) (\<lambda>d. the (wd_NextRetryAt d)) (nat limit) (wt_rows tb)"

definition claimDue :: "faults \<Rightarrow> (nat \<Rightarrow> bool) \<Rightarrow> int \<Rightarrow> int \<Rightarrow> delivery_table \<Rightarrow> (delivery_table \<times> delivery list) result" where
  "claimDue f locked now limit tb =
     bindr (wrapr ''store: claim due deliveries'' (call (f 1) (Inr (due_batch locked now limit tb)))) (\<lambda>ds.
     bindr (lease_loop f now 0 ds tb) (\<lambda>tb'. Inr (tb', ds)))"

text \<open>On a repository over \<open>*sql.DB\<close>: fault 0 is begin, \<open>c\<close> the commit.\<close>

definition ClaimDue :: "faults \<Rightarrow> go_err option \<Rightarrow> (nat \<Rightarrow> bool) \<Rightarrow> int \<Rightarrow> int \<Rightarrow> delivery_table \<Rightarrow> delivery_table \<times> delivery list result" where
  "ClaimDue f c locked now limit tb = in_tx tb
     (call (map_option (Wrapped ''store: begin claim due deliveries'') (f 0))
     (bindr (claimDue f locked now (normLimit limit) tb) (\<lambda>r.
      call (map_option (Wrapped ''store: commit claim due deliveries'') c) (Inr r))))"

definition mark :: "go_err option \<Rightarrow> string \<Rightarrow> nat \<Rightarrow> (delivery \<Rightarrow> delivery) \<Rightarrow> delivery_table \<Rightarrow> delivery_table \<times> unit result" where
  "mark ft what i g tb =
     (case ft of
        Some e \<Rightarrow> (tb, Inl (Wrapped what e))
      | None \<Rightarrow> (tb\<lparr>wt_rows := upd_rows (\<lambda>d. wd_ID d = i) g (wt_rows tb)\<rparr>,
                 rowsAffectedOrNotFound (matched (\<lambda>d. wd_ID d = i) (wt_rows tb)) ''webhook delivery''))"

definition MarkDelivered :: "go_err option \<Rightarrow> nat \<Rightarrow> int \<Rightarrow> delivery_table \<Rightarrow> delivery_table \<times> unit result" where
  "MarkDelivered ft i code = mark ft ''store: mark delivered'' i
     (\<lambda>d. d\<lparr>wd_Status := DeliveryDelivered, wd_Attempts := wd_Attempts d + 1, wd_ResponseCode := Some code,
            wd_NextRetryAt := None, wd_LastError := None\<rparr>)"

definition MarkFailed :: "go_err option \<Rightarrow> nat \<Rightarrow> int option \<Rightarrow> string \<Rightarrow> int \<Rightarrow> delivery_table \<Rightarrow> delivery_table \<times> unit result" where
  "MarkFailed ft i code lastError nextRetryAt = mark ft ''store: mark failed'' i
     (\<lambda>d. d\<lparr>wd_Status := DeliveryFailed, wd_Attempts := wd_Attempts d + 1, wd_ResponseCode := code,
            wd_LastError := Some lastError, wd_NextRetryAt := Some nextRetryAt\<rparr>)"

definition MarkDead :: "go_err option \<Rightarrow> nat \<Rightarrow> int option \<Rightarrow> string \<Rightarrow> delivery_table \<Rightarrow> delivery_table \<times> unit result" where
  "MarkDead ft i code lastError = mark ft ''store: mark dead'' i
     (\<lambda>d. d\<lparr>wd_Status := DeliveryDead, wd_Attempts := wd_Attempts d + 1, wd_ResponseCode := code,
            wd_LastError := Some lastError, wd_NextRetryAt := None\<rparr>)"

definition terminal :: "delivery \<Rightarrow> bool" where
  "terminal d \<longleftrightarrow> wd_Status d = DeliveryDelivered \<or> wd_Status d = DeliveryDead"

definition ExistsTerminal :: "go_err option \<Rightarrow> string \<Rightarrow> string \<Rightarrow> delivery_table \<Rightarrow> bool result" where
  "ExistsTerminal ft webhookID eventID tb =
     (case ft of Some e \<Rightarrow> Inl (Wrapped ''store: exists terminal delivery'' e)
      | None \<Rightarrow> Inr (\<exists>d\<in>set (wt_rows tb). same_pair webhookID eventID d \<and> terminal d))"

section \<open>Matching and enqueueing\<close>

definition IsBulkEvent :: "string \<Rightarrow> bool" where
  "IsBulkEvent ty \<longleftrightarrow> ty = EventHistoryBatch"

definition EventMatches :: "string list \<Rightarrow> string \<Rightarrow> bool" where
  "EventMatches events ty \<longleftrightarrow> (\<exists>e\<in>set events. e = ty \<or> (e = ''*'' \<and> \<not> IsBulkEvent ty))"

definition ListActiveForEvent :: "go_err option \<Rightarrow> string \<Rightarrow> string \<Rightarrow> webhook list \<Rightarrow> webhook list result" where
  "ListActiveForEvent ft organizationID sessionID hooks =
     (case ft of Some e \<Rightarrow> Inl (Wrapped ''store: list active webhooks'' e)
      | None \<Rightarrow> Inr (sort_key (\<lambda>h. - wh_CreatedAt h) (filter (\<lambda>h. wh_OrganizationID h = organizationID \<and> wh_Active h \<and>
          (wh_SessionID h = None \<or> wh_SessionID h = Some sessionID)) hooks)))"

definition ListMatching :: "go_err option \<Rightarrow> string \<Rightarrow> string \<Rightarrow> string \<Rightarrow> webhook list \<Rightarrow> webhook list result" where
  "ListMatching ft organization session eventType hooks =
     bindr (ListActiveForEvent ft organization session hooks) (\<lambda>hs. Inr (filter (\<lambda>h. EventMatches (wh_Events h) eventType) hs))"

text \<open>The loop over the matching webhooks: the count, the failures and the table. Faults of
  webhook \<open>i\<close>: \<open>fs i 0\<close> and \<open>fs i 1\<close> of \<open>Create\<close>, \<open>fs i 2\<close> of the dedup check.\<close>

fun enqueue_loop :: "(nat \<Rightarrow> faults) \<Rightarrow> nat \<Rightarrow> domain_event \<Rightarrow> int \<Rightarrow> webhook list \<Rightarrow> delivery_table \<Rightarrow> delivery_table \<times> nat \<times> go_err option" where
  "enqueue_loop fs i evt now [] tb = (tb, 0, None)"
| "enqueue_loop fs i evt now (h # hs) tb =
     (if \<not> EventMatches (wh_Events h) (de_Type evt) then enqueue_loop fs (Suc i) evt now hs tb
      else case ExistsTerminal (fs i 2) (wh_ID h) (de_ID evt) tb of
        Inl e \<Rightarrow> (case enqueue_loop fs (Suc i) evt now hs tb of (tb', n, er) \<Rightarrow> (tb', n, errors_join (Some e) er))
      | Inr True \<Rightarrow> enqueue_loop fs (Suc i) evt now hs tb
      | Inr False \<Rightarrow>
          (case Create (fs i) (wh_ID h) (de_ID evt) now tb of
             (tb1, Inl e) \<Rightarrow> (case enqueue_loop fs (Suc i) evt now hs tb1 of (tb', n, er) \<Rightarrow> (tb', n, errors_join (Some e) er))
           | (tb1, Inr _) \<Rightarrow> (case enqueue_loop fs (Suc i) evt now hs tb1 of (tb', n, er) \<Rightarrow> (tb', Suc n, er))))"

definition EnqueueEvent :: "go_err option \<Rightarrow> (nat \<Rightarrow> faults) \<Rightarrow> int \<Rightarrow> webhook list \<Rightarrow> domain_event \<Rightarrow> delivery_table
    \<Rightarrow> delivery_table \<times> nat \<times> go_err option" where
  "EnqueueEvent ft fs now hooks evt tb =
     (case ListMatching ft (de_Organization evt) (de_Session evt) (de_Type evt) hooks of
        Inl e \<Rightarrow> (tb, 0, Some (Wrapped ''list matching webhooks'' e))
      | Inr hs \<Rightarrow> enqueue_loop fs 0 evt now hs tb)"

section \<open>Retry schedule\<close>

definition DefaultDelaySeconds :: int where "DefaultDelaySeconds = 2"
definition DefaultAttempts :: int where "DefaultAttempts = 15"
definition maxBackoffShift :: int where "maxBackoffShift = 30"

definition backoffSeconds :: "string \<Rightarrow> int \<Rightarrow> int \<Rightarrow> int" where
  "backoffSeconds policy delaySeconds0 attempt0 =
     (let delaySeconds = (if delaySeconds0 \<le> 0 then DefaultDelaySeconds else delaySeconds0);
          attempt = (if attempt0 < 1 then 1 else attempt0) in
      if policy \<noteq> ''exponential'' then delaySeconds
      else let shift = (if attempt - 1 > maxBackoffShift then maxBackoffShift else attempt - 1) in
        i64 (delaySeconds * shl64 1 (nat shift)))"

definition maxAttempts :: "retry_policy \<Rightarrow> int" where
  "maxAttempts p = (if rp_Attempts p \<le> 0 then DefaultAttempts else rp_Attempts p)"

section \<open>Requests\<close>

text \<open>\<open>http.Header.Set\<close> canonicalizes the key when it is a token: upper case at the start and after
  a hyphen, lower case elsewhere.\<close>

definition upper_char :: "char \<Rightarrow> char" where
  "upper_char c = (let n = of_char c :: nat in if 97 \<le> n \<and> n \<le> 122 then char_of (n - 32) else c)"

definition token_char :: "char \<Rightarrow> bool" where
  "token_char c \<longleftrightarrow> (let n = of_char c :: nat in (65 \<le> n \<and> n \<le> 90) \<or> (97 \<le> n \<and> n \<le> 122) \<or> (48 \<le> n \<and> n \<le> 57) \<or>
     n \<in> {33, 35, 36, 37, 38, 39, 42, 43, 45, 46, 94, 95, 96, 124, 126})"

fun canonical :: "bool \<Rightarrow> string \<Rightarrow> string" where
  "canonical up [] = []"
| "canonical up (c # cs) = (if up then upper_char c else lower_char c) # canonical (c = CHR ''-'') cs"

definition CanonicalHeaderKey :: "string \<Rightarrow> string" where
  "CanonicalHeaderKey k = (if list_all token_char k then canonical True k else k)"

type_synonym headers = "(string \<times> string) list"

definition header_set :: "string \<Rightarrow> string \<Rightarrow> headers \<Rightarrow> headers" where
  "header_set k v hs = (CanonicalHeaderKey k, v) # filter (\<lambda>kv. fst kv \<noteq> CanonicalHeaderKey k) hs"

definition HeaderRequestID :: string where "HeaderRequestID = ''X-Webhook-Request-Id''"
definition HeaderTimestamp :: string where "HeaderTimestamp = ''X-Webhook-Timestamp''"
definition HeaderHMAC :: string where "HeaderHMAC = ''X-Webhook-Hmac''"
definition HeaderHMACAlgorithm :: string where "HeaderHMACAlgorithm = ''X-Webhook-Hmac-Algorithm''"
definition HMACAlgorithm :: string where "HMACAlgorithm = ''sha512''"

record http_request =
  hq_URL :: string
  hq_Headers :: headers
  hq_Body :: string

text \<open>The collaborators of the dispatcher: the webhook and event stores, JSON encoding, URL
  parsing, decryption and signing, the HTTP client on a world \<open>'w\<close>, two readings of the
  clock and the error of the bookkeeping write.\<close>

record 'w webhook_env =
  we_hook :: "string \<Rightarrow> webhook result"
  we_event :: "string \<Rightarrow> domain_event result"
  we_marshal :: "domain_event \<Rightarrow> string result"
  we_url :: "string \<Rightarrow> go_err option"
  we_decrypt :: "(string \<Rightarrow> string result) option"
  we_sign :: "string \<Rightarrow> string \<Rightarrow> string"
  we_http :: "http_request \<Rightarrow> 'w \<Rightarrow> 'w \<times> (int \<times> string) result"
  we_now :: "nat \<Rightarrow> int"
  we_fault :: "go_err option"

definition buildRequest :: "'w webhook_env \<Rightarrow> webhook \<Rightarrow> domain_event \<Rightarrow> string \<Rightarrow> http_request result" where
  "buildRequest env hook evt body =
     (case we_url env (wh_URL hook) of
        Some e \<Rightarrow> Inl (Wrapped ''build request'' e)
      | None \<Rightarrow>
          (let hs = fold (\<lambda>(k, v). header_set k v) (wh_CustomHeaders hook) [];
               hs = header_set HeaderTimestamp (show_int (we_now env 0))
                      (header_set HeaderRequestID (de_ID evt) (header_set ''Content-Type'' ''application/json'' hs)) in
           if wh_HMACSecret hook = [] then Inr \<lparr>hq_URL = wh_URL hook, hq_Headers = hs, hq_Body = body\<rparr>
           else case we_decrypt env of
             None \<Rightarrow> Inl (Plain (''webhook '' @ wh_ID hook @ '' has hmac secret but no decryptor configured''))
           | Some dec \<Rightarrow>
               bindr (wrapr ''decrypt hmac secret'' (dec (wh_HMACSecret hook))) (\<lambda>secret.
                 Inr \<lparr>hq_URL = wh_URL hook, hq_Headers = header_set HeaderHMACAlgorithm HMACAlgorithm
                        (header_set HeaderHMAC (we_sign env secret body) hs), hq_Body = body\<rparr>)))"

section \<open>Dispatcher\<close>

definition isNotFound :: "go_err \<Rightarrow> bool" where
  "isNotFound e \<longleftrightarrow> api_code_of e = Some CodeNotFound"

definition maxResponseBodyRead :: nat where "maxResponseBodyRead = 4096"

definition fail :: "'w webhook_env \<Rightarrow> delivery \<Rightarrow> retry_policy \<Rightarrow> int \<Rightarrow> int option \<Rightarrow> string \<Rightarrow> delivery_table
    \<Rightarrow> delivery_table \<times> unit result" where
  "fail env del policy attempts code lastErr tb =
     (if attempts \<ge> maxAttempts policy then MarkDead (we_fault env) (wd_ID del) code lastErr tb
      else MarkFailed (we_fault env) (wd_ID del) code lastErr
        (i64 (we_now env 1 + i64 (backoffSeconds (rp_Policy policy) (rp_DelaySeconds policy) attempts * 1000))) tb)"

text \<open>The zero value of the hook, which a failed load returns.\<close>

definition zero_policy :: retry_policy where
  "zero_policy = \<lparr>rp_Policy = [], rp_DelaySeconds = 0, rp_Attempts = 0\<rparr>"

text \<open>How an attempt ends: dead-lettered at once, failed under a retry policy, or answered 2xx.\<close>

datatype outcome = GaveUp string | Failing retry_policy "int option" string | Succeeded int

definition attempt :: "'w webhook_env \<Rightarrow> delivery \<Rightarrow> 'w \<Rightarrow> 'w \<times> outcome" where
  "attempt env del w =
     (case we_hook env (wd_WebhookID del) of
        Inl e \<Rightarrow>
          (w, if isNotFound e then GaveUp (''webhook '' @ wd_WebhookID del @ '' not found'')
              else Failing zero_policy None (''load webhook: '' @ err_text e))
      | Inr hook \<Rightarrow>
          (case we_event env (wd_EventID del) of
             Inl e \<Rightarrow>
               (w, if isNotFound e then GaveUp (''event '' @ wd_EventID del @ '' not found'')
                   else Failing (wh_RetryPolicy hook) None (''load event: '' @ err_text e))
           | Inr evt \<Rightarrow>
               (case we_marshal env evt of
                  Inl e \<Rightarrow> (w, GaveUp (''marshal event: '' @ err_text e))
                | Inr body \<Rightarrow>
                    (case buildRequest env hook evt body of
                       Inl e \<Rightarrow> (w, Failing (wh_RetryPolicy hook) None (err_text e))
                     | Inr req \<Rightarrow>
                         (case we_http env req w of
                            (w', Inl e) \<Rightarrow> (w', Failing (wh_RetryPolicy hook) None (''http do: '' @ err_text e))
                          | (w', Inr (code, answer)) \<Rightarrow>
                              (w', if 200 \<le> code \<and> code < 300 then Succeeded code
                                   else Failing (wh_RetryPolicy hook) (Some code)
                                     (''non-2xx status '' @ show_int code @ '': '' @ TrimSpace (take maxResponseBodyRead answer))))))))"

definition record_outcome :: "'w webhook_env \<Rightarrow> delivery \<Rightarrow> outcome \<Rightarrow> delivery_table \<Rightarrow> delivery_table \<times> unit result" where
  "record_outcome env del out tb =
     (case out of
        GaveUp msg \<Rightarrow> MarkDead (we_fault env) (wd_ID del) None msg tb
      | Failing p code msg \<Rightarrow> fail env del p (wd_Attempts del + 1) code msg tb
      | Succeeded code \<Rightarrow> MarkDelivered (we_fault env) (wd_ID del) code tb)"

definition Deliver :: "'w webhook_env \<Rightarrow> delivery \<Rightarrow> delivery_table \<times> 'w \<Rightarrow> (delivery_table \<times> 'w) \<times> unit result" where
  "Deliver env del s =
     (case attempt env del (snd s) of (w', out) \<Rightarrow>
        (case record_outcome env del out (fst s) of (tb', q) \<Rightarrow> ((tb', w'), q)))"

definition DefaultClaimLimit :: int where "DefaultClaimLimit = 50"

text \<open>A pass: the claim, then every claimed delivery, its bookkeeping errors logged. Other clients
  may write the table before each delivery (\<open>before i\<close>).\<close>

fun deliver_loop :: "(nat \<Rightarrow> 'w webhook_env) \<Rightarrow> (nat \<Rightarrow> delivery_table \<Rightarrow> delivery_table) \<Rightarrow> nat \<Rightarrow> delivery list
    \<Rightarrow> delivery_table \<times> 'w \<Rightarrow> delivery_table \<times> 'w" where
  "deliver_loop envs before i [] s = s"
| "deliver_loop envs before i (d # ds) s =
     deliver_loop envs before (Suc i) ds (fst (Deliver (envs i) d (before i (fst s), snd s)))"

definition DeliverDue :: "faults \<Rightarrow> go_err option \<Rightarrow> (nat \<Rightarrow> bool) \<Rightarrow> (nat \<Rightarrow> 'w webhook_env) \<Rightarrow> (nat \<Rightarrow> delivery_table \<Rightarrow> delivery_table)
    \<Rightarrow> int \<Rightarrow> int \<Rightarrow> delivery_table \<times> 'w \<Rightarrow> (delivery_table \<times> 'w) \<times> nat result" where
  "DeliverDue f c locked envs before now limit s =
     (case ClaimDue f c locked now (if limit \<le> 0 then DefaultClaimLimit else limit) (fst s) of
        (tb, Inl e) \<Rightarrow> ((tb, snd s), Inl (Wrapped ''claim due deliveries'' e))
      | (tb, Inr due) \<Rightarrow> (deliver_loop envs before 0 due (tb, snd s), Inr (length due)))"

section \<open>Enqueueing once\<close>

definition deliveries_ok :: "delivery_table \<Rightarrow> bool" where
  "deliveries_ok tb \<longleftrightarrow> distinct (map (\<lambda>d. (wd_WebhookID d, wd_EventID d)) (wt_rows tb)) \<and> distinct (map wd_ID (wt_rows tb)) \<and>
     (\<forall>d\<in>set (wt_rows tb). wd_ID d < wt_nextID tb)"

definition known_pair :: "string \<Rightarrow> string \<Rightarrow> delivery_table \<Rightarrow> bool" where
  "known_pair h e tb \<longleftrightarrow> (\<exists>d\<in>set (wt_rows tb). same_pair h e d)"

lemma Create_effect:
  assumes "Create f h e now tb = (tb', q)" "deliveries_ok tb"
  shows "deliveries_ok tb' \<and> prefix (wt_rows tb) (wt_rows tb') \<and> (q = Inr () \<longrightarrow> known_pair h e tb') \<and>
    (known_pair h e tb \<longrightarrow> tb' = tb)"
proof (cases "find (same_pair h e) (wt_rows tb)")
  case None
  then have n: "\<not> known_pair h e tb" by (auto simp: find_None_iff known_pair_def)
  have fresh: "wt_nextID tb \<notin> wd_ID ` set (wt_rows tb)" "\<forall>d\<in>set (wt_rows tb). wd_ID d < Suc (wt_nextID tb)"
    using assms(2) by (force simp: deliveries_ok_def)+
  have pair: "(h, e) \<notin> (\<lambda>d. (wd_WebhookID d, wd_EventID d)) ` set (wt_rows tb)"
    using n by (auto simp: known_pair_def same_pair_def)
  show ?thesis
  proof (cases "f 0")
    case (Some er)
    with assms show ?thesis by (auto simp: Create_def Enqueue_def)
  next
    case c: None
    with assms(1) None have "tb' = tb\<lparr>wt_rows := wt_rows tb @ [\<lparr>wd_ID = wt_nextID tb, wd_WebhookID = h, wd_EventID = e,
        wd_Status = DeliveryPending, wd_Attempts = 0, wd_ResponseCode = None, wd_NextRetryAt = Some now,
        wd_LastError = None, wd_CreatedAt = now\<rparr>], wt_nextID := Suc (wt_nextID tb)\<rparr>"
      by (simp add: Create_def Enqueue_def)
    with assms(2) fresh pair n show ?thesis by (auto simp: deliveries_ok_def known_pair_def same_pair_def)
  qed
next
  case (Some d)
  with find_Some_in[OF Some] assms show ?thesis
    by (auto simp: Create_def Enqueue_def known_pair_def split: option.splits)
qed

lemma known_pair_mono: "known_pair h e tb \<Longrightarrow> prefix (wt_rows tb) (wt_rows tb') \<Longrightarrow> known_pair h e tb'"
  by (auto simp: known_pair_def prefix_def)

lemma enqueue_loop_effect:
  assumes "enqueue_loop fs i evt now hs tb = (tb', n, er)" "deliveries_ok tb"
  shows "deliveries_ok tb' \<and> prefix (wt_rows tb) (wt_rows tb') \<and>
    (er = None \<longrightarrow> (\<forall>h\<in>set hs. EventMatches (wh_Events h) (de_Type evt) \<longrightarrow> known_pair (wh_ID h) (de_ID evt) tb'))"
  using assms
proof (induction hs arbitrary: i tb n er)
  case (Cons h hs)
  show ?case
  proof (cases "EventMatches (wh_Events h) (de_Type evt)")
    case False
    with Cons.prems Cons.IH[of "Suc i" tb n er] show ?thesis by auto
  next
    case m: True
    show ?thesis
    proof (cases "ExistsTerminal (fs i 2) (wh_ID h) (de_ID evt) tb")
      case (Inl e)
      obtain n1 er1 where l: "enqueue_loop fs (Suc i) evt now hs tb = (tb', n1, er1)" "er = errors_join (Some e) er1"
        using Cons.prems(1) m Inl by (auto split: prod.splits)
      with Cons.IH[OF l(1) Cons.prems(2)] show ?thesis by simp
    next
      case (Inr t)
      show ?thesis
      proof (cases t)
        case True
        with m Inr Cons.prems(1) have l: "enqueue_loop fs (Suc i) evt now hs tb = (tb', n, er)" by simp
        have "known_pair (wh_ID h) (de_ID evt) tb"
          using Inr True by (auto simp: ExistsTerminal_def known_pair_def split: option.splits)
        with Cons.IH[OF l Cons.prems(2)] show ?thesis by (auto dest: known_pair_mono)
      next
        case False
        obtain tb1 q where c: "Create (fs i) (wh_ID h) (de_ID evt) now tb = (tb1, q)" by fastforce
        note ce = Create_effect[OF c Cons.prems(2)]
        obtain n1 er1 where l: "enqueue_loop fs (Suc i) evt now hs tb1 = (tb', n1, er1)"
          "er = (case q of Inl e \<Rightarrow> errors_join (Some e) er1 | Inr _ \<Rightarrow> er1)"
          using Cons.prems(1) m Inr False c by (auto split: prod.splits sum.splits)
        have IH: "deliveries_ok tb' \<and> prefix (wt_rows tb1) (wt_rows tb') \<and>
          (er1 = None \<longrightarrow> (\<forall>h\<in>set hs. EventMatches (wh_Events h) (de_Type evt) \<longrightarrow> known_pair (wh_ID h) (de_ID evt) tb'))"
          using Cons.IH[OF l(1)] ce by blast
        have "prefix (wt_rows tb) (wt_rows tb')" using ce IH prefix_order.trans by blast
        moreover have "known_pair (wh_ID h) (de_ID evt) tb'" if "q = Inr ()"
          using ce IH that known_pair_mono by blast
        ultimately show ?thesis using IH l(2) by (cases q) auto
      qed
    qed
  qed
qed simp

lemma enqueue_loop_known:
  assumes "deliveries_ok tb" "\<forall>h\<in>set hs. EventMatches (wh_Events h) (de_Type evt) \<longrightarrow> known_pair (wh_ID h) (de_ID evt) tb"
  shows "\<exists>n. enqueue_loop (\<lambda>_. no_faults) i evt now hs tb = (tb, n, None)"
  using assms(2)
proof (induction hs arbitrary: i)
  case (Cons h hs)
  obtain n where n: "enqueue_loop (\<lambda>_. no_faults) (Suc i) evt now hs tb = (tb, n, None)"
    using Cons.IH[of "Suc i"] Cons.prems by (meson list.set_intros(2))
  obtain tb1 q where c: "Create no_faults (wh_ID h) (de_ID evt) now tb = (tb1, q)" by fastforce
  then have q: "q = Inr ()" by (auto simp: Create_def Enqueue_def split: option.splits)
  show ?case
  proof (cases "EventMatches (wh_Events h) (de_Type evt)")
    case True
    with Cons.prems Create_effect[OF c assms(1)] have "tb1 = tb" by auto
    moreover have "no_faults 2 = None" by simp
    ultimately show ?thesis
      using c q n True by (auto simp: ExistsTerminal_def simp del: no_faults_app split: bool.splits)
  qed (use n in \<open>auto simp del: no_faults_app\<close>)
qed simp

text \<open>Property C35. An event is enqueued once per webhook: when the enqueuer returns no error, every
  active webhook of the event's organization and session that subscribes to its type has a
  delivery of the event, deliveries that existed keep their state, no webhook has two
  deliveries of an event, and enqueueing the event again changes nothing.\<close>

theorem webhook_event_enqueued_once:
  assumes "deliveries_ok tb" "EnqueueEvent ft fs now hooks evt tb = (tb', n, None)"
  shows "deliveries_ok tb' \<and> prefix (wt_rows tb) (wt_rows tb') \<and>
    (\<forall>h\<in>set hooks. wh_OrganizationID h = de_Organization evt \<and> wh_Active h \<and>
       (wh_SessionID h = None \<or> wh_SessionID h = Some (de_Session evt)) \<and> EventMatches (wh_Events h) (de_Type evt) \<longrightarrow>
       known_pair (wh_ID h) (de_ID evt) tb') \<and>
    (\<exists>m. EnqueueEvent None (\<lambda>_. no_faults) now' hooks evt tb' = (tb', m, None))"
proof -
  obtain hs where hs: "ListMatching ft (de_Organization evt) (de_Session evt) (de_Type evt) hooks = Inr hs"
    "enqueue_loop fs 0 evt now hs tb = (tb', n, None)"
    using assms(2) by (auto simp: EnqueueEvent_def split: sum.splits)
  note e = enqueue_loop_effect[OF hs(2) assms(1)]
  have l: "ListMatching None (de_Organization evt) (de_Session evt) (de_Type evt) hooks = Inr hs"
    using hs(1) by (auto simp: ListMatching_def ListActiveForEvent_def split: option.splits)
  have "set hs = {h \<in> set hooks. wh_OrganizationID h = de_Organization evt \<and> wh_Active h \<and>
       (wh_SessionID h = None \<or> wh_SessionID h = Some (de_Session evt)) \<and> EventMatches (wh_Events h) (de_Type evt)}"
    using l by (auto simp: ListMatching_def ListActiveForEvent_def)
  moreover have "\<exists>m. EnqueueEvent None (\<lambda>_. no_faults) now' hooks evt tb' = (tb', m, None)"
    using enqueue_loop_known[of tb' hs evt 0 now'] e l by (auto simp: EnqueueEvent_def)
  ultimately show ?thesis using e by auto
qed

section \<open>Leases\<close>

lemma lease_loop_rows:
  assumes "lease_loop f now i ds tb = Inr tb'" "distinct (map wd_ID ds)"
  shows "wt_nextID tb' = wt_nextID tb \<and> map wd_ID (wt_rows tb') = map wd_ID (wt_rows tb) \<and>
    (\<forall>r'\<in>set (wt_rows tb'). (\<exists>r\<in>set (wt_rows tb). wd_ID r = wd_ID r' \<and>
      (r' = r \<and> wd_ID r \<notin> wd_ID ` set ds \<or>
       (\<exists>k<length ds. wd_ID (ds ! k) = wd_ID r \<and>
         r' = r\<lparr>wd_NextRetryAt := Some (now + webhookAttemptLeaseMs * (int (i + k) + 1))\<rparr>))))"
  using assms
proof (induction ds arbitrary: i tb)
  case (Cons d ds)
  let ?t = "tb\<lparr>wt_rows := upd_rows (\<lambda>r. wd_ID r = wd_ID d) (\<lambda>r. r\<lparr>wd_NextRetryAt := Some (now + webhookAttemptLeaseMs * (int i + 1))\<rparr>) (wt_rows tb)\<rparr>"
  from Cons.prems have l: "lease_loop f now (Suc i) ds ?t = Inr tb'" by simp
  have dd: "distinct (map wd_ID ds)" "wd_ID d \<notin> wd_ID ` set ds" using Cons.prems by auto
  note IH = Cons.IH[OF l dd(1)]
  have "\<exists>r\<in>set (wt_rows tb). wd_ID r = wd_ID r' \<and>
      (r' = r \<and> wd_ID r \<notin> wd_ID ` set (d # ds) \<or>
       (\<exists>k<length (d # ds). wd_ID ((d # ds) ! k) = wd_ID r \<and>
         r' = r\<lparr>wd_NextRetryAt := Some (now + webhookAttemptLeaseMs * (int (i + k) + 1))\<rparr>))" if r': "r' \<in> set (wt_rows tb')" for r'
  proof -
    from IH r' obtain r where r: "r \<in> set (wt_rows ?t)" "wd_ID r = wd_ID r'"
      "r' = r \<and> wd_ID r \<notin> wd_ID ` set ds \<or> (\<exists>k<length ds. wd_ID (ds ! k) = wd_ID r \<and>
         r' = r\<lparr>wd_NextRetryAt := Some (now + webhookAttemptLeaseMs * (int (Suc i + k) + 1))\<rparr>)" by blast
    from r(1) obtain x where x: "x \<in> set (wt_rows tb)" "r = (if wd_ID x = wd_ID d then
        x\<lparr>wd_NextRetryAt := Some (now + webhookAttemptLeaseMs * (int i + 1))\<rparr> else x)"
      by (auto simp: set_upd_rows)
    show ?thesis
    proof (cases "wd_ID x = wd_ID d")
      case True
      have "wd_ID (ds ! k) \<noteq> wd_ID x" if "k < length ds" for k using dd(2) True that by (metis nth_mem image_eqI)
      with r(3) x True have "r' = x\<lparr>wd_NextRetryAt := Some (now + webhookAttemptLeaseMs * (int (i + 0) + 1))\<rparr>" by auto
      with x True show ?thesis by (intro bexI[of _ x] conjI disjI2 exI[of _ 0]) auto
    next
      case False
      then have rx: "r = x" using x by simp
      from r(3) show ?thesis
      proof (elim disjE exE conjE)
        assume "r' = r" "wd_ID r \<notin> wd_ID ` set ds"
        with False rx x show ?thesis by (intro bexI[of _ x]) auto
      next
        fix k assume "k < length ds" "wd_ID (ds ! k) = wd_ID r"
          "r' = r\<lparr>wd_NextRetryAt := Some (now + webhookAttemptLeaseMs * (int (Suc i + k) + 1))\<rparr>"
        with rx x show ?thesis by (intro bexI[of _ x] conjI disjI2 exI[of _ "Suc k"]) auto
      qed
    qed
  qed
  with IH show ?case by (simp add: map_upd_rows)
qed force

lemma delivery_claim_result:
  assumes "ClaimDue f c locked now limit tb = (tb', Inr ds)"
  shows "ds = due_batch locked now (normLimit limit) tb \<and> lease_loop f now 0 ds tb = Inr tb'"
  using assms by (auto simp: ClaimDue_def claimDue_def)

lemma due_batchD:
  assumes "deliveries_ok tb"
  shows "distinct (map wd_ID (due_batch locked now n tb))" "d \<in> set (due_batch locked now n tb) \<Longrightarrow> d \<in> set (wt_rows tb) \<and> due_delivery now d \<and> \<not> locked (wd_ID d)"
  using assms unfolding due_batch_def by (auto simp: deliveries_ok_def distinct_map_select_rows dest: in_select_rowsD)

text \<open>Concurrent dispatchers do not send the same delivery while a lease runs: the lease
  of the delivery at position \<open>k\<close> of a claimed batch lasts \<open>k + 1\<close> attempt budgets, and no claim
  before its end returns that delivery.\<close>

theorem webhook_claims_disjoint:
  assumes "deliveries_ok tb" "ClaimDue f c locked now limit tb = (tb1, Inr ds)"
    and "ClaimDue f' c' locked' now' limit' tb1 = (tb2, Inr ds')" "k < length ds" "now' < now + 60000 * (int k + 1)"
  shows "wd_ID (ds ! k) \<notin> wd_ID ` set ds'"
proof
  assume "wd_ID (ds ! k) \<in> wd_ID ` set ds'"
  then obtain r' where r': "r' \<in> set ds'" "wd_ID r' = wd_ID (ds ! k)" by auto
  note d = delivery_claim_result[OF assms(2)]
  have dd: "distinct (map wd_ID ds)" using d due_batchD(1)[OF assms(1)] by simp
  note rows = lease_loop_rows[OF conjunct2[OF d] dd]
  have in1: "r' \<in> set (wt_rows tb1)" "due_delivery now' r'"
    using r'(1) delivery_claim_result[OF assms(3)] by (auto simp: due_batch_def dest: in_select_rowsD)
  from rows in1(1) obtain r where r: "wd_ID r = wd_ID r'"
    "r' = r \<and> wd_ID r \<notin> wd_ID ` set ds \<or> (\<exists>k<length ds. wd_ID (ds ! k) = wd_ID r \<and>
       r' = r\<lparr>wd_NextRetryAt := Some (now + webhookAttemptLeaseMs * (int (0 + k) + 1))\<rparr>)" by blast
  have "wd_ID r \<in> wd_ID ` set ds" using r(1) r'(2) assms(4) by simp
  with r(2) obtain j where j: "j < length ds" "wd_ID (ds ! j) = wd_ID r"
    "r' = r\<lparr>wd_NextRetryAt := Some (now + webhookAttemptLeaseMs * (int j + 1))\<rparr>" by auto
  have "j = k" using dd j(1,2) assms(4) r(1) r'(2) by (metis distinct_conv_nth length_map nth_map)
  with j(3) in1(2) assms(5) show False by (simp add: due_delivery_def webhookAttemptLeaseMs_def)
qed

section \<open>Outcomes\<close>

definition marked :: "nat \<Rightarrow> (delivery \<Rightarrow> delivery) \<Rightarrow> delivery_table \<Rightarrow> delivery_table" where
  "marked i g tb = tb\<lparr>wt_rows := upd_rows (\<lambda>d. wd_ID d = i) g (wt_rows tb)\<rparr>"

lemma mark_known:
  assumes "deliveries_ok tb" "r \<in> set (wt_rows tb)"
  shows "mark None what (wd_ID r) g tb = (marked (wd_ID r) g tb, Inr ())" "g r \<in> set (wt_rows (marked (wd_ID r) g tb))"
proof -
  have "matched (\<lambda>d. wd_ID d = wd_ID r) (wt_rows tb) = 1"
    using assms by (intro matched_key[where key = wd_ID and r = r]) (auto simp: deliveries_ok_def)
  then show "mark None what (wd_ID r) g tb = (marked (wd_ID r) g tb, Inr ())"
    by (simp add: mark_def marked_def rowsAffectedOrNotFound_def)
  show "g r \<in> set (wt_rows (marked (wd_ID r) g tb))"
    using in_upd_rows_hit[of r "wt_rows tb" "\<lambda>d. wd_ID d = wd_ID r" g] assms(2) by (simp add: marked_def)
qed

text \<open>How an attempt ended, as the row shows it.\<close>

definition retry_time :: "'w webhook_env \<Rightarrow> retry_policy \<Rightarrow> int \<Rightarrow> int" where
  "retry_time env p attempts = i64 (we_now env 1 + i64 (backoffSeconds (rp_Policy p) (rp_DelaySeconds p) attempts * 1000))"

definition policy_of :: "'w webhook_env \<Rightarrow> delivery \<Rightarrow> retry_policy" where
  "policy_of env del = (case we_hook env (wd_WebhookID del) of Inl e \<Rightarrow> zero_policy | Inr hook \<Rightarrow> wh_RetryPolicy hook)"

definition attempt_ended :: "'w webhook_env \<Rightarrow> delivery \<Rightarrow> 'w \<Rightarrow> 'w \<Rightarrow> delivery \<Rightarrow> bool" where
  "attempt_ended env del w w' r' \<longleftrightarrow>
     (case wd_Status r' of
        DeliveryPending \<Rightarrow> False
      | DeliveryDelivered \<Rightarrow> (\<exists>hook evt body req code answer. we_hook env (wd_WebhookID del) = Inr hook \<and>
          we_event env (wd_EventID del) = Inr evt \<and> we_marshal env evt = Inr body \<and> buildRequest env hook evt body = Inr req \<and>
          we_http env req w = (w', Inr (code, answer)) \<and> 200 \<le> code \<and> code < 300) \<and> wd_NextRetryAt r' = None
      | DeliveryFailed \<Rightarrow> wd_Attempts del + 1 < maxAttempts (policy_of env del) \<and>
          wd_NextRetryAt r' = Some (retry_time env (policy_of env del) (wd_Attempts del + 1))
      | DeliveryDead \<Rightarrow> wd_NextRetryAt r' = None)"

lemma attempt_policy: "attempt env del w = (w', Failing p code msg) \<Longrightarrow> p = policy_of env del"
  by (auto simp: attempt_def policy_of_def split: sum.splits if_splits prod.splits)

lemma attempt_succeeded:
  "attempt env del w = (w', Succeeded code) \<Longrightarrow> \<exists>hook evt body req answer. we_hook env (wd_WebhookID del) = Inr hook \<and>
     we_event env (wd_EventID del) = Inr evt \<and> we_marshal env evt = Inr body \<and> buildRequest env hook evt body = Inr req \<and>
     we_http env req w = (w', Inr (code, answer)) \<and> 200 \<le> code \<and> code < 300"
  by (auto simp: attempt_def split: sum.splits if_splits prod.splits)

text \<open>Every attempt is accounted for: a delivery attempt whose outcome can be recorded
  counts one attempt and leaves the row delivered only after a request built and signed for it
  was answered with a 2xx status, failed only while attempts are left, due again exactly after
  the backoff of the attempt, and dead otherwise, never due again.\<close>

theorem Deliver_outcome:
  assumes "deliveries_ok tb" "r \<in> set (wt_rows tb)" "wd_ID r = wd_ID del" "we_fault env = None"
  shows "\<exists>tb' w' r'. Deliver env del (tb, w) = ((tb', w'), Inr ()) \<and> r' \<in> set (wt_rows tb') \<and> wd_ID r' = wd_ID del \<and>
    wd_Attempts r' = wd_Attempts r + 1 \<and> attempt_ended env del w w' r'"
proof -
  obtain w' out where a: "attempt env del w = (w', out)" by fastforce
  note known = mark_known[OF assms(1,2), unfolded assms(3)]
  have "\<exists>tb' r'. record_outcome env del out tb = (tb', Inr ()) \<and> r' \<in> set (wt_rows tb') \<and> wd_ID r' = wd_ID del \<and>
    wd_Attempts r' = wd_Attempts r + 1 \<and> attempt_ended env del w w' r'"
  proof (cases out)
    case (GaveUp msg)
    with known assms(3,4) show ?thesis
      by (auto simp: record_outcome_def MarkDead_def attempt_ended_def intro!: exI conjI)
  next
    case (Failing p code msg)
    from attempt_policy[of env del w w' p code msg] a Failing have "p = policy_of env del" by simp
    with Failing known assms(3,4) show ?thesis
      by (auto simp: record_outcome_def fail_def MarkDead_def MarkFailed_def attempt_ended_def retry_time_def intro!: exI conjI)
  next
    case (Succeeded code)
    with known assms(3,4) attempt_succeeded[of env del w w' code] a show ?thesis
      by (auto simp: record_outcome_def MarkDelivered_def attempt_ended_def intro!: exI conjI)
  qed
  with a show ?thesis by (fastforce simp: Deliver_def)
qed

section \<open>Requests\<close>

lemma map_of_header_set: "map_of (header_set k v hs) x = (if x = CanonicalHeaderKey k then Some v else map_of hs x)"
proof -
  have "map_of (filter (\<lambda>kv. fst kv \<noteq> c) hs) x = (if x = c then None else map_of hs x)" for c
    by (induction hs) auto
  then show ?thesis by (simp add: header_set_def)
qed

lemma canonical_names [simp]:
  "CanonicalHeaderKey HeaderRequestID = HeaderRequestID" "CanonicalHeaderKey HeaderTimestamp = HeaderTimestamp"
  "CanonicalHeaderKey HeaderHMAC = HeaderHMAC" "CanonicalHeaderKey HeaderHMACAlgorithm = HeaderHMACAlgorithm"
  "CanonicalHeaderKey ''Content-Type'' = ''Content-Type''"
  by code_simp+

lemma header_names_differ [simp]:
  "HeaderRequestID \<noteq> HeaderTimestamp" "HeaderHMAC \<noteq> HeaderHMACAlgorithm" "HeaderRequestID \<noteq> HeaderHMAC"
  "HeaderRequestID \<noteq> HeaderHMACAlgorithm" "HeaderTimestamp \<noteq> HeaderHMAC" "HeaderTimestamp \<noteq> HeaderHMACAlgorithm"
  "HeaderRequestID \<noteq> ''Content-Type''" "HeaderTimestamp \<noteq> ''Content-Type''"
  "HeaderHMAC \<noteq> ''Content-Type''" "HeaderHMACAlgorithm \<noteq> ''Content-Type''"
  by (simp_all add: HeaderRequestID_def HeaderTimestamp_def HeaderHMAC_def HeaderHMACAlgorithm_def)

lemmas header_names_differ' [simp] = header_names_differ[symmetric]

text \<open>The headers that identify and sign a delivery cannot be overridden: whatever
  custom headers a webhook has, in whatever spelling, the request carries the event id, the time
  and, with a secret, the signature of exactly the body it sends.\<close>

theorem protocol_headers_win:
  assumes "buildRequest env hook evt body = Inr req"
  shows "hq_Body req = body \<and> map_of (hq_Headers req) HeaderRequestID = Some (de_ID evt) \<and>
    map_of (hq_Headers req) HeaderTimestamp = Some (show_int (we_now env 0)) \<and>
    map_of (hq_Headers req) ''Content-Type'' = Some ''application/json'' \<and>
    (wh_HMACSecret hook \<noteq> [] \<longrightarrow> (\<exists>dec secret. we_decrypt env = Some dec \<and> dec (wh_HMACSecret hook) = Inr secret \<and>
       map_of (hq_Headers req) HeaderHMAC = Some (we_sign env secret body) \<and>
       map_of (hq_Headers req) HeaderHMACAlgorithm = Some HMACAlgorithm))"
  using assms
  by (auto simp: buildRequest_def map_of_header_set Let_def split: option.splits if_splits)

text \<open>The schedule of an exponential policy doubles with every attempt up to the cap, and is
  exact for delays up to 32 bits.\<close>

theorem backoffSeconds_doubles:
  assumes "0 < d" "d \<le> 2 ^ 32" "1 \<le> a"
  shows "backoffSeconds ''exponential'' d a = d * 2 ^ nat (min (a - 1) 30) \<and>
    (policy \<noteq> ''exponential'' \<longrightarrow> backoffSeconds policy d a = d)"
proof -
  let ?k = "nat (min (a - 1) 30)"
  have k: "?k \<le> 30" by simp
  then have p: "(2::int) ^ ?k \<le> 2 ^ 30" by (intro power_increasing) auto
  have "0 \<le> (2::int) ^ ?k" by simp
  with p have "is_i64 ((2::int) ^ ?k)" unfolding is_i64_def by (intro conjI; simp; linarith)
  then have s: "shl64 1 ?k = 2 ^ ?k" by (subst shl64_exact) auto
  have "d * 2 ^ ?k \<le> 2 ^ 32 * 2 ^ 30" using assms(1,2) p by (intro mult_mono) auto
  moreover have "0 \<le> d * 2 ^ ?k" using assms(1) by simp
  ultimately have "is_i64 (d * 2 ^ ?k)" unfolding is_i64_def by (intro conjI; simp; linarith)
  with s assms show ?thesis
    by (auto simp: backoffSeconds_def Let_def maxBackoffShift_def min_def)
qed

section \<open>Stale workers\<close>

text \<open>The marks are not fenced by the lease: when an attempt that outlived its lease fails, it
  turns a row that another worker has delivered meanwhile back to failed, due again.\<close>

theorem stale_attempt_revives_delivery:
  assumes "deliveries_ok tb" "r \<in> set (wt_rows tb)" "wd_ID r = wd_ID del" "wd_Status r = DeliveryDelivered"
    "attempt env del w = (w', Failing p code msg)" "wd_Attempts del + 1 < maxAttempts p" "we_fault env = None"
  shows "\<exists>r'\<in>set (wt_rows (fst (fst (Deliver env del (tb, w))))). wd_ID r' = wd_ID del \<and> wd_Status r' = DeliveryFailed \<and>
    wd_NextRetryAt r' \<noteq> None"
proof -
  note known = mark_known[OF assms(1,2), unfolded assms(3)]
  show ?thesis
    using assms(5-) known(1) by (auto simp: Deliver_def record_outcome_def fail_def MarkFailed_def assms(3) intro!: bexI[OF _ known(2)])
qed

section \<open>A delivery\<close>

definition demo_hook :: webhook where
  "demo_hook = \<lparr>wh_ID = ''h'', wh_OrganizationID = ''org'', wh_SessionID = None, wh_URL = ''https://x'', wh_Events = [''*''],
     wh_HMACSecret = ''k'', wh_CustomHeaders = [(''x-webhook-request-id'', ''spoofed'')],
     wh_RetryPolicy = \<lparr>rp_Policy = ''exponential'', rp_DelaySeconds = 2, rp_Attempts = 3\<rparr>, wh_Active = True, wh_CreatedAt = 0, wh_UpdatedAt = 0\<rparr>"

definition demo_message :: domain_event where
  "demo_message = \<lparr>de_Schema = ''v1'', de_ID = ''e1'', de_Type = ''message'', de_Session = ''s'', de_Organization = ''org'',
     de_Timestamp = 5, de_Payload = Json JNull\<rparr>"

definition demo_env :: "int \<Rightarrow> nat webhook_env" where
  "demo_env code = \<lparr>we_hook = (\<lambda>_. Inr demo_hook), we_event = (\<lambda>_. Inr demo_message), we_marshal = (\<lambda>_. Inr ''body''),
     we_url = (\<lambda>_. None), we_decrypt = Some (\<lambda>_. Inr ''secret''), we_sign = (\<lambda>k b. k @ b), we_http = (\<lambda>_ w. (Suc w, Inr (code, ''ok''))),
     we_now = (\<lambda>_. 1000), we_fault = None\<rparr>"

definition demo_deliveries :: delivery_table where
  "demo_deliveries = fst (EnqueueEvent None (\<lambda>_. no_faults) 7 [demo_hook] demo_message \<lparr>wt_rows = [], wt_nextID = 1\<rparr>)"

definition demo_delivery :: delivery where
  "demo_delivery = \<lparr>wd_ID = 1, wd_WebhookID = ''h'', wd_EventID = ''e1'', wd_Status = DeliveryPending, wd_Attempts = 0,
     wd_ResponseCode = None, wd_NextRetryAt = Some 7, wd_LastError = None, wd_CreatedAt = 7\<rparr>"

lemma demo_deliveries_rows: "demo_deliveries = \<lparr>wt_rows = [demo_delivery], wt_nextID = 2\<rparr>"
  by code_simp

lemma demo_deliveries_ok: "deliveries_ok \<lparr>wt_rows = [], wt_nextID = 1\<rparr>" "deliveries_ok demo_deliveries"
  by (simp_all add: demo_deliveries_rows deliveries_ok_def demo_delivery_def)

theorem webhook_event_enqueued_once_witness:
  "known_pair ''h'' ''e1'' demo_deliveries \<and>
   (\<exists>m. EnqueueEvent None (\<lambda>_. no_faults) 9 [demo_hook] demo_message demo_deliveries = (demo_deliveries, m, None))"
proof -
  have e: "EnqueueEvent None (\<lambda>_. no_faults) 7 [demo_hook] demo_message \<lparr>wt_rows = [], wt_nextID = 1\<rparr> = (demo_deliveries, 1, None)"
    unfolding demo_deliveries_def by code_simp
  have "EventMatches (wh_Events demo_hook) (de_Type demo_message)" by code_simp
  with webhook_event_enqueued_once[OF demo_deliveries_ok(1) e, of 9] show ?thesis
    by (simp add: demo_hook_def demo_message_def)
qed

theorem webhook_claims_disjoint_witness:
  "1 \<notin> wd_ID ` set (due_batch (\<lambda>_. False) 60006 50 (fst (ClaimDue no_faults None (\<lambda>_. False) 7 50 demo_deliveries)))"
proof -
  let ?c = "ClaimDue no_faults None (\<lambda>_. False) 7 50 demo_deliveries"
  have c1: "?c = (fst ?c, Inr [demo_delivery])" by code_simp
  have c2: "ClaimDue no_faults None (\<lambda>_. False) 60006 50 (fst ?c) =
      (fst ?c, Inr (due_batch (\<lambda>_. False) 60006 50 (fst ?c)))" by code_simp
  from webhook_claims_disjoint[OF demo_deliveries_ok(2) c1 c2, of 0] show ?thesis by (simp add: demo_delivery_def)
qed

theorem Deliver_outcome_witness:
  "\<exists>r'\<in>set (wt_rows (fst (fst (Deliver (demo_env 503) demo_delivery (demo_deliveries, 0))))). wd_Attempts r' = 1 \<and>
     attempt_ended (demo_env 503) demo_delivery 0 1 r'"
proof -
  have r: "demo_delivery \<in> set (wt_rows demo_deliveries)" by (simp add: demo_deliveries_rows)
  have w: "snd (fst (Deliver (demo_env 503) demo_delivery (demo_deliveries, 0))) = 1" by code_simp
  from Deliver_outcome[OF demo_deliveries_ok(2) r refl, of "demo_env 503" 0] w show ?thesis
    by (auto simp: demo_env_def demo_delivery_def)
qed

theorem protocol_headers_win_witness:
  "map_of (hq_Headers (projr (buildRequest (demo_env 200) demo_hook demo_message ''body''))) HeaderRequestID = Some ''e1''"
proof -
  have "buildRequest (demo_env 200) demo_hook demo_message ''body'' =
      Inr (projr (buildRequest (demo_env 200) demo_hook demo_message ''body''))" by code_simp
  from protocol_headers_win[OF this] show ?thesis by (simp add: demo_message_def)
qed

end
