(* ===== verification/HistoryInbox.thy ===== *)
theory HistoryInbox
  imports CommandLedger
begin

text \<open>
  The history inbox of the gateway (src/backend/internal/gateway/journal/history.go): the
  tables \<open>history_inbox\<close> and \<open>history_runs\<close> of the journal's SQLite file and every operation
  on them. Times are the milliseconds of the columns; \<open>msTime\<close> reads them as Go times where the
  worker does. \<open>now\<close> is the millisecond the operation reads from the clock.
\<close>

section \<open>Tables\<close>

datatype history_status = HistoryPending | HistoryDone | HistoryFailed | HistoryDiscarded

datatype history_run_status = HistoryRunRunning | HistoryRunCompleted | HistoryRunFailed

definition historyRetention :: duration where
  "historyRetention = 7 * 24 * 3600000000000"

record inbox_row =
  hi_ID :: nat
  hi_SessionID :: string
  hi_OrganizationID :: string
  hi_NotificationID :: string
  hi_AccountJID :: string
  hi_Notification :: string
  hi_notified_at :: int
  hi_CutoffMs :: int
  hi_ImportEnabled :: bool
  hi_Status :: history_status
  hi_Attempts :: int
  hi_next_attempt_at :: int
  hi_BatchesDone :: nat
  hi_ServerErrorSent :: bool
  hi_Error :: string
  hi_created_at :: int
  hi_updated_at :: int

record history_run =
  hr_RunID :: string
  hr_SessionID :: string
  hr_OrganizationID :: string
  hr_AccountJID :: string
  hr_Status :: history_run_status
  hr_CutoffMs :: int
  hr_SyncType :: string
  hr_Progress :: int
  hr_Chunks :: int
  hr_Batches :: int
  hr_Conversations :: int
  hr_Messages :: int
  hr_Skipped :: int
  hr_Error :: string
  hr_FinalEmitted :: bool
  hr_started_at :: int
  hr_updated_at :: int
  hr_ended_at :: int

record run_delta =
  hd_RunID :: string
  hd_SyncType :: string
  hd_Progress :: "int option"
  hd_Batches :: nat
  hd_Conversations :: nat
  hd_Messages :: nat
  hd_Skipped :: nat

text \<open>\<open>hx_open\<close> says that the journal and its database handle are not nil.\<close>

record history_db =
  hx_open :: bool
  hx_inbox :: "inbox_row list"
  hx_runs :: "history_run list"
  hx_nextID :: nat

definition msTime :: "int \<Rightarrow> gotime" where
  "msTime ms = (if ms = 0 then zero_time else of_UnixMilli ms)"

text \<open>\<open>historyExec\<close>: one statement.\<close>

definition historyExec :: "go_err option \<Rightarrow> (history_db \<Rightarrow> history_db) \<Rightarrow> history_db \<Rightarrow> history_db \<times> unit result" where
  "historyExec ft stmt db =
     (if \<not> hx_open db then (db, Inl errJournalUnavailable)
      else case ft of Some e \<Rightarrow> (db, Inl (classifySQLiteError e)) | None \<Rightarrow> (stmt db, Inr ()))"

definition update_inbox :: "(inbox_row \<Rightarrow> bool) \<Rightarrow> (inbox_row \<Rightarrow> inbox_row) \<Rightarrow> history_db \<Rightarrow> history_db" where
  "update_inbox P g db = db\<lparr>hx_inbox := upd_rows P g (hx_inbox db)\<rparr>"

definition update_runs :: "(history_run \<Rightarrow> bool) \<Rightarrow> (history_run \<Rightarrow> history_run) \<Rightarrow> history_db \<Rightarrow> history_db" where
  "update_runs P g db = db\<lparr>hx_runs := upd_rows P g (hx_runs db)\<rparr>"

section \<open>Notifications\<close>

text \<open>\<open>INSERT OR IGNORE\<close> under the unique key of session and notification. Fault 0: the insert;
  1: \<open>RowsAffected\<close>. A new row has the defaults of the schema.\<close>

record new_notification =
  nn_SessionID :: string
  nn_OrganizationID :: string
  nn_NotificationID :: string
  nn_AccountJID :: string
  nn_Notification :: string
  nn_NotifiedAt :: gotime
  nn_CutoffMs :: int
  nn_ImportEnabled :: bool

definition new_row :: "int \<Rightarrow> nat \<Rightarrow> new_notification \<Rightarrow> inbox_row" where
  "new_row now i n = \<lparr>hi_ID = i, hi_SessionID = nn_SessionID n, hi_OrganizationID = nn_OrganizationID n,
     hi_NotificationID = nn_NotificationID n, hi_AccountJID = nn_AccountJID n, hi_Notification = nn_Notification n,
     hi_notified_at = UnixMilli (nn_NotifiedAt n), hi_CutoffMs = nn_CutoffMs n, hi_ImportEnabled = nn_ImportEnabled n,
     hi_Status = HistoryPending, hi_Attempts = 0, hi_next_attempt_at = 0, hi_BatchesDone = 0, hi_ServerErrorSent = False,
     hi_Error = [], hi_created_at = now, hi_updated_at = now\<rparr>"

definition known_notification :: "string \<Rightarrow> string \<Rightarrow> history_db \<Rightarrow> bool" where
  "known_notification sid nid db \<longleftrightarrow> (\<exists>r\<in>set (hx_inbox db). hi_SessionID r = sid \<and> hi_NotificationID r = nid)"

definition EnqueueHistory :: "faults \<Rightarrow> int \<Rightarrow> new_notification \<Rightarrow> history_db \<Rightarrow> history_db \<times> bool result" where
  "EnqueueHistory f now n db =
     (if \<not> hx_open db then (db, Inl errJournalUnavailable)
      else if nn_SessionID n = [] \<or> nn_NotificationID n = [] \<or> nn_Notification n = [] then
        (db, Inl (Plain ''history notification session, id and payload are required''))
      else case f 0 of
        Some e \<Rightarrow> (db, Inl (classifySQLiteError (Wrapped ''enqueue history notification'' e)))
      | None \<Rightarrow>
          (if known_notification (nn_SessionID n) (nn_NotificationID n) db then (db, call (f 1) (Inr False))
           else (db\<lparr>hx_inbox := hx_inbox db @ [new_row now (hx_nextID db) n], hx_nextID := Suc (hx_nextID db)\<rparr>,
                 call (f 1) (Inr True))))"

definition PendingHistory :: "go_err option \<Rightarrow> history_db \<Rightarrow> inbox_row list result" where
  "PendingHistory ft db =
     (if \<not> hx_open db then Inl errJournalUnavailable
      else case ft of Some e \<Rightarrow> Inl (classifySQLiteError e)
        | None \<Rightarrow> Inr (sort_key hi_ID (filter (\<lambda>r. hi_Status r = HistoryPending) (hx_inbox db))))"

definition HasPendingHistory :: "go_err option \<Rightarrow> string \<Rightarrow> history_db \<Rightarrow> bool result" where
  "HasPendingHistory ft sid db =
     (if \<not> hx_open db then Inl errJournalUnavailable
      else case ft of Some e \<Rightarrow> Inl (classifySQLiteError e)
        | None \<Rightarrow> Inr (0 < matched (\<lambda>r. hi_SessionID r = sid \<and> hi_Status r = HistoryPending) (hx_inbox db)))"

definition PostponeHistory :: "go_err option \<Rightarrow> int \<Rightarrow> nat \<Rightarrow> int \<Rightarrow> gotime \<Rightarrow> string \<Rightarrow> history_db \<Rightarrow> history_db \<times> unit result" where
  "PostponeHistory ft now i attempts next errText =
     historyExec ft (update_inbox (\<lambda>r. hi_ID r = i \<and> hi_Status r = HistoryPending)
       (\<lambda>r. r\<lparr>hi_Attempts := attempts, hi_next_attempt_at := UnixMilli next, hi_Error := errText, hi_updated_at := now\<rparr>))"

definition SetHistoryCursor :: "go_err option \<Rightarrow> int \<Rightarrow> nat \<Rightarrow> nat \<Rightarrow> history_db \<Rightarrow> history_db \<times> unit result" where
  "SetHistoryCursor ft now i batchesDone =
     historyExec ft (update_inbox (\<lambda>r. hi_ID r = i) (\<lambda>r. r\<lparr>hi_BatchesDone := batchesDone, hi_updated_at := now\<rparr>))"

definition MarkHistoryServerErrorSent :: "go_err option \<Rightarrow> int \<Rightarrow> nat \<Rightarrow> history_db \<Rightarrow> history_db \<times> unit result" where
  "MarkHistoryServerErrorSent ft now i =
     historyExec ft (update_inbox (\<lambda>r. hi_ID r = i) (\<lambda>r. r\<lparr>hi_ServerErrorSent := True, hi_updated_at := now\<rparr>))"

text \<open>Faults of \<open>FinishHistory\<close>: 0 begin, 1 the inbox update, 2 the run update, 3 commit.\<close>

definition add_delta :: "int \<Rightarrow> run_delta \<Rightarrow> history_run \<Rightarrow> history_run" where
  "add_delta now d r =
     (let progress = (case hd_Progress d of None \<Rightarrow> -1 | Some p \<Rightarrow> p) in
      r\<lparr>hr_Chunks := hr_Chunks r + 1, hr_Batches := hr_Batches r + int (hd_Batches d),
        hr_Conversations := hr_Conversations r + int (hd_Conversations d), hr_Messages := hr_Messages r + int (hd_Messages d),
        hr_Skipped := hr_Skipped r + int (hd_Skipped d), hr_SyncType := hd_SyncType d,
        hr_Progress := (if progress \<ge> 0 then progress else hr_Progress r), hr_updated_at := now\<rparr>)"

definition finish_row :: "int \<Rightarrow> nat \<Rightarrow> history_status \<Rightarrow> string \<Rightarrow> history_db \<Rightarrow> history_db" where
  "finish_row now i status errText =
     update_inbox (\<lambda>r. hi_ID r = i \<and> hi_Status r = HistoryPending)
       (\<lambda>r. r\<lparr>hi_Status := status, hi_Error := errText, hi_updated_at := now\<rparr>)"

definition FinishHistory :: "faults \<Rightarrow> int \<Rightarrow> nat \<Rightarrow> history_status \<Rightarrow> string \<Rightarrow> run_delta option \<Rightarrow> history_db \<Rightarrow> history_db \<times> unit result" where
  "FinishHistory f now i status errText delta db =
     (if \<not> hx_open db then (db, Inl errJournalUnavailable)
      else in_tx db
        (call (map_option classifySQLiteError (f 0))
        (call (map_option classifySQLiteError (f 1))
        (case delta of
           None \<Rightarrow> call (map_option classifySQLiteError (f 3)) (Inr (finish_row now i status errText db, ()))
         | Some d \<Rightarrow>
             call (map_option classifySQLiteError (f 2))
             (call (map_option classifySQLiteError (f 3))
               (Inr (update_runs (\<lambda>r. hr_RunID r = hd_RunID d) (add_delta now d) (finish_row now i status errText db), ())))))))"

text \<open>Fault 1: \<open>RowsAffected\<close>, after the update.\<close>

definition dropped :: "string \<Rightarrow> string \<Rightarrow> inbox_row \<Rightarrow> bool" where
  "dropped sid keepAccount r \<longleftrightarrow> hi_SessionID r = sid \<and> hi_Status r = HistoryPending \<and> (keepAccount = [] \<or> hi_AccountJID r \<noteq> keepAccount)"

definition DiscardHistory :: "faults \<Rightarrow> int \<Rightarrow> string \<Rightarrow> string \<Rightarrow> string \<Rightarrow> history_db \<Rightarrow> history_db \<times> nat result" where
  "DiscardHistory f now sid keepAccount reason db =
     (if \<not> hx_open db then (db, Inl errJournalUnavailable)
      else case f 0 of
        Some e \<Rightarrow> (db, Inl (classifySQLiteError e))
      | None \<Rightarrow> (update_inbox (dropped sid keepAccount) (\<lambda>r. r\<lparr>hi_Status := HistoryDiscarded, hi_Error := reason, hi_updated_at := now\<rparr>) db,
          call (f 1) (Inr (matched (dropped sid keepAccount) (hx_inbox db)))))"

section \<open>Runs\<close>

definition queryRuns :: "go_err option \<Rightarrow> (history_db \<Rightarrow> history_run list) \<Rightarrow> history_db \<Rightarrow> history_run list result" where
  "queryRuns ft q db =
     (if \<not> hx_open db then Inl errJournalUnavailable
      else case ft of Some e \<Rightarrow> Inl (classifySQLiteError e) | None \<Rightarrow> Inr (q db))"

definition first_run :: "history_run list result \<Rightarrow> history_run option result" where
  "first_run q = bindr q (\<lambda>rs. Inr (case rs of [] \<Rightarrow> None | r # _ \<Rightarrow> Some r))"

definition ActiveHistoryRun :: "go_err option \<Rightarrow> string \<Rightarrow> string \<Rightarrow> history_db \<Rightarrow> history_run option result" where
  "ActiveHistoryRun ft sid account db = first_run (queryRuns ft (\<lambda>db. take 1 (sort_key (\<lambda>r. - hr_started_at r)
     (filter (\<lambda>r. hr_SessionID r = sid \<and> hr_AccountJID r = account \<and> hr_Status r = HistoryRunRunning) (hx_runs db)))) db)"

definition HistoryRunByID :: "go_err option \<Rightarrow> string \<Rightarrow> history_db \<Rightarrow> history_run option result" where
  "HistoryRunByID ft runID db = first_run (queryRuns ft (\<lambda>db. filter (\<lambda>r. hr_RunID r = runID) (hx_runs db)) db)"

definition new_run :: "string \<Rightarrow> string \<Rightarrow> string \<Rightarrow> string \<Rightarrow> int \<Rightarrow> gotime \<Rightarrow> history_run" where
  "new_run runID sid org account cutoff started = \<lparr>hr_RunID = runID, hr_SessionID = sid, hr_OrganizationID = org, hr_AccountJID = account,
     hr_Status = HistoryRunRunning, hr_CutoffMs = cutoff, hr_SyncType = [], hr_Progress = -1, hr_Chunks = 0, hr_Batches = 0,
     hr_Conversations = 0, hr_Messages = 0, hr_Skipped = 0, hr_Error = [], hr_FinalEmitted = False,
     hr_started_at = UnixMilli started, hr_updated_at = UnixMilli started, hr_ended_at = 0\<rparr>"

definition CreateHistoryRun :: "go_err option \<Rightarrow> history_run \<Rightarrow> history_db \<Rightarrow> history_db \<times> unit result" where
  "CreateHistoryRun ft run = historyExec ft (\<lambda>db.
     if \<exists>r\<in>set (hx_runs db). hr_RunID r = hr_RunID run then db else db\<lparr>hx_runs := hx_runs db @ [run]\<rparr>)"

definition ended :: "int \<Rightarrow> history_run_status \<Rightarrow> string \<Rightarrow> history_run \<Rightarrow> history_run" where
  "ended now status errText r = r\<lparr>hr_Status := status, hr_Error := errText, hr_ended_at := now, hr_updated_at := now\<rparr>"

definition EndHistoryRun :: "go_err option \<Rightarrow> int \<Rightarrow> string \<Rightarrow> history_run_status \<Rightarrow> string \<Rightarrow> history_db \<Rightarrow> history_db \<times> unit result" where
  "EndHistoryRun ft now runID status errText =
     historyExec ft (update_runs (\<lambda>r. hr_RunID r = runID \<and> hr_Status r = HistoryRunRunning) (ended now status errText))"

definition EndHistoryRuns :: "go_err option \<Rightarrow> int \<Rightarrow> string \<Rightarrow> string \<Rightarrow> history_run_status \<Rightarrow> string \<Rightarrow> history_db \<Rightarrow> history_db \<times> unit result" where
  "EndHistoryRuns ft now sid keepAccount status errText =
     historyExec ft (update_runs (\<lambda>r. hr_SessionID r = sid \<and> hr_Status r = HistoryRunRunning \<and>
       (keepAccount = [] \<or> hr_AccountJID r \<noteq> keepAccount)) (ended now status errText))"

definition UnemittedHistoryRuns :: "go_err option \<Rightarrow> history_db \<Rightarrow> history_run list result" where
  "UnemittedHistoryRuns ft = queryRuns ft (\<lambda>db. sort_key hr_ended_at
     (filter (\<lambda>r. hr_Status r \<noteq> HistoryRunRunning \<and> \<not> hr_FinalEmitted r) (hx_runs db)))"

definition MarkHistoryRunEmitted :: "go_err option \<Rightarrow> string \<Rightarrow> history_db \<Rightarrow> history_db \<times> unit result" where
  "MarkHistoryRunEmitted ft runID = historyExec ft (update_runs (\<lambda>r. hr_RunID r = runID) (\<lambda>r. r\<lparr>hr_FinalEmitted := True\<rparr>))"

definition IdleHistoryRuns :: "go_err option \<Rightarrow> gotime \<Rightarrow> history_db \<Rightarrow> history_run list result" where
  "IdleHistoryRuns ft before = queryRuns ft (\<lambda>db. filter (\<lambda>r. hr_Status r = HistoryRunRunning \<and> hr_updated_at r < UnixMilli before \<and>
     \<not> (\<exists>i\<in>set (hx_inbox db). hi_SessionID i = hr_SessionID r \<and> hi_Status i = HistoryPending)) (hx_runs db))"

definition PruneHistory :: "faults \<Rightarrow> gotime \<Rightarrow> history_db \<Rightarrow> history_db \<times> unit result" where
  "PruneHistory f now db =
     (let cutoff = UnixMilli (now - historyRetention) in
      case historyExec (f 0) (\<lambda>db. db\<lparr>hx_inbox := filter (\<lambda>r. \<not> (hi_Status r \<noteq> HistoryPending \<and> hi_updated_at r < cutoff)) (hx_inbox db)\<rparr>) db of
        (db1, Inl e) \<Rightarrow> (db1, Inl e)
      | (db1, Inr _) \<Rightarrow> historyExec (f 1) (\<lambda>db. db\<lparr>hx_runs := filter (\<lambda>r. \<not> (hr_Status r \<noteq> HistoryRunRunning \<and> hr_FinalEmitted r \<and>
            hr_updated_at r < cutoff)) (hx_runs db)\<rparr>) db1)"

end
