(* ===== verification/HistoryPack.thy ===== *)
theory HistoryPack
  imports Gw_Prelude
begin

text \<open>
  The conversion of a downloaded history blob into \<open>history.batch\<close> events
  (src/backend/internal/gateway/historysync/convert.go): the identity index, truncation of
  oversized messages, the order of messages, packing into bounded batches and the numbered
  result. Parsing of JIDs and of single WhatsApp messages is whatsmeow's and a parameter, as
  is the length of the JSON encoding.
\<close>

section \<open>Payloads\<close>

record history_contact =
  hc_LID :: string
  hc_PhoneJID :: string
  hc_PushName :: string

record contact_data =
  cd_DisplayName :: string
  cd_VCard :: string

text \<open>A message payload; \<open>hm_Rest\<close> stands for the fields the conversion only copies.\<close>

record history_message =
  hm_WAMessageID :: string
  hm_ChatJID :: string
  hm_FromMe :: bool
  hm_Type :: string
  hm_Body :: string
  hm_QuotedBody :: string
  hm_Contact :: "contact_data option"
  hm_Timestamp :: int
  hm_Kind :: string
  hm_Status :: string
  hm_Truncated :: bool
  hm_Rest :: string

record history_participant =
  hp_LID :: string
  hp_PhoneJID :: string
  hp_Role :: string

record history_conversation =
  cv_ChatJID :: string
  cv_Type :: string
  cv_Name :: string
  cv_Description :: string
  cv_LID :: string
  cv_PhoneJID :: string
  cv_UnreadCount :: "int option"
  cv_Archived :: bool
  cv_Pinned :: bool
  cv_MutedUntil :: int
  cv_LastMessageAt :: int
  cv_Participants :: "history_participant list"
  cv_Messages :: "history_message list"

record history_batch =
  hb_RunID :: string
  hb_AccountJID :: string
  hb_SyncType :: string
  hb_ChunkOrder :: int
  hb_Part :: int
  hb_Parts :: int
  hb_SnapshotAt :: int
  hb_Conversations :: "history_conversation list"
  hb_Contacts :: "history_contact list"

definition zero_batch :: history_batch where
  "zero_batch = \<lparr>hb_RunID = [], hb_AccountJID = [], hb_SyncType = [], hb_ChunkOrder = 0, hb_Part = 0, hb_Parts = 0,
     hb_SnapshotAt = 0, hb_Conversations = [], hb_Contacts = []\<rparr>"

text \<open>\<open>jsonLen\<close> at the types it is called with.\<close>

record json_len =
  len_contact :: "history_contact \<Rightarrow> int"
  len_conversation :: "history_conversation \<Rightarrow> int"
  len_message :: "history_message \<Rightarrow> int"
  len_batch :: "history_batch \<Rightarrow> int"

definition MaxBatchMessages :: int where "MaxBatchMessages = 200"
definition MaxBatchBytes :: int where "MaxBatchBytes = 96 * 1024 - 2 * 1024"
definition MaxMessageBytes :: int where "MaxMessageBytes = 768 * 1024"

definition batchOverhead :: "json_len \<Rightarrow> int" where
  "batchOverhead J = len_batch J (zero_batch\<lparr>hb_RunID := ''hsr_01J9ZX3K8Q2W5V7B4N6M1C0D9E'',
     hb_AccountJID := ''000000000000000@s.whatsapp.net'', hb_SyncType := ''initial_bootstrap'', hb_ChunkOrder := 2 ^ 30,
     hb_Part := 2 ^ 30, hb_Parts := 2 ^ 30, hb_SnapshotAt := 2 ^ 62\<rparr>) + 64"

section \<open>Deterministic ids\<close>

text \<open>\<open>U\<close> makes a ULID of a time in milliseconds and the SHA-256 hash of a text.\<close>

type_synonym ulid_maker = "int \<Rightarrow> string \<Rightarrow> string"

fun join_parts :: "string list \<Rightarrow> string" where
  "join_parts [] = []"
| "join_parts [x] = x"
| "join_parts (x # y # ys) = x @ ''|'' @ join_parts (y # ys)"

definition deterministicULID :: "ulid_maker \<Rightarrow> gotime \<Rightarrow> string list \<Rightarrow> string" where
  "deterministicULID U t parts = (let t = (if IsZero t \<or> t < 0 then 0 else t) in U (UnixMilli t) (join_parts parts))"

definition EventID :: "ulid_maker \<Rightarrow> gotime \<Rightarrow> string list \<Rightarrow> string" where
  "EventID U t parts = ''evt_'' @ deterministicULID U t parts"

definition RunID :: "ulid_maker \<Rightarrow> gotime \<Rightarrow> string \<Rightarrow> string \<Rightarrow> string" where
  "RunID U t sessionID notificationID = ''hsr_'' @ deterministicULID U t [sessionID, notificationID, ''run'']"

section \<open>Identities\<close>

text \<open>\<open>canonical\<close> is \<open>canonicalJID\<close>: whatsmeow's \<open>ParseJID\<close> without the device part, empty when it
  fails. The two maps of the index are \<open>pnToLID\<close> and \<open>lidToPN\<close>.\<close>

record identity_index =
  pnToLID :: "(string \<times> string) list"
  lidToPN :: "(string \<times> string) list"

definition map_get :: "(string \<times> string) list \<Rightarrow> string \<Rightarrow> string" where
  "map_get m k = (case map_of m k of Some v \<Rightarrow> v | None \<Rightarrow> [])"

definition add_new :: "string \<Rightarrow> string \<Rightarrow> (string \<times> string) list \<Rightarrow> (string \<times> string) list" where
  "add_new k v m = (if map_of m k = None then (k, v) # m else m)"

definition add_identity :: "(string \<Rightarrow> string) \<Rightarrow> string \<times> string \<Rightarrow> identity_index \<Rightarrow> identity_index" where
  "add_identity canonical = (\<lambda>(pn, lid) x.
     (let pn = canonical pn; lid = canonical lid in
      if \<not> HasSuffix pn ''@s.whatsapp.net'' \<or> \<not> HasSuffix lid ''@lid'' then x
      else \<lparr>pnToLID = add_new pn lid (pnToLID x), lidToPN = add_new lid pn (lidToPN x)\<rparr>))"

text \<open>The pairs a blob names: the mapping list, the inline contacts, and each conversation's id
  with the identity of the other kind beside it (\<open>(id, pnJID, lidJID)\<close>).\<close>

definition conversation_pair :: "(string \<Rightarrow> string) \<Rightarrow> string \<times> string \<times> string \<Rightarrow> (string \<times> string) list" where
  "conversation_pair canonical = (\<lambda>(cid, pn, lid).
     (let c = canonical cid in
      if HasSuffix c ''@lid'' then [(pn, c)] else if HasSuffix c ''@s.whatsapp.net'' then [(c, lid)] else []))"

definition newIdentityIndex :: "(string \<Rightarrow> string) \<Rightarrow> (string \<times> string) list \<Rightarrow> (string \<times> string) list
    \<Rightarrow> (string \<times> string \<times> string) list \<Rightarrow> identity_index" where
  "newIdentityIndex canonical mappings inlines convs =
     fold (add_identity canonical) (mappings @ inlines @ concat (map (conversation_pair canonical) convs))
       \<lparr>pnToLID = [], lidToPN = []\<rparr>"

definition split_identity :: "(string \<Rightarrow> string) \<Rightarrow> identity_index \<Rightarrow> string \<Rightarrow> string \<times> string" where
  "split_identity canonical x jid =
     (let jid = canonical jid in
      if HasSuffix jid ''@lid'' then (jid, map_get (lidToPN x) jid)
      else if HasSuffix jid ''@s.whatsapp.net'' then (map_get (pnToLID x) jid, jid) else ([], []))"

definition fillPair :: "string \<Rightarrow> string \<Rightarrow> identity_index \<Rightarrow> string \<times> string" where
  "fillPair jid lid x =
     (let lid = (if lid = [] \<and> jid \<noteq> [] then map_get (pnToLID x) jid else lid);
          jid = (if jid = [] \<and> lid \<noteq> [] then map_get (lidToPN x) lid else jid) in (jid, lid))"

section \<open>Oversized messages\<close>

definition RuneStart :: "char \<Rightarrow> bool" where
  "RuneStart c \<longleftrightarrow> (let n = of_char c :: nat in n < 128 \<or> 192 \<le> n)"

fun rune_floor :: "string \<Rightarrow> nat \<Rightarrow> nat" where
  "rune_floor s 0 = 0"
| "rune_floor s (Suc n) = (if RuneStart (s ! Suc n) then Suc n else rune_floor s n)"

definition truncateUTF8 :: "string \<Rightarrow> nat \<Rightarrow> string" where
  "truncateUTF8 s n = (if length s \<le> n then s else take (rune_floor s n) s)"

text \<open>The pointers to the free-text fields.\<close>

datatype text_field = FieldBody | FieldQuotedBody | FieldVCard

fun get_field :: "text_field \<Rightarrow> history_message \<Rightarrow> string" where
  "get_field FieldBody m = hm_Body m"
| "get_field FieldQuotedBody m = hm_QuotedBody m"
| "get_field FieldVCard m = (case hm_Contact m of None \<Rightarrow> [] | Some c \<Rightarrow> cd_VCard c)"

fun set_field :: "text_field \<Rightarrow> string \<Rightarrow> history_message \<Rightarrow> history_message" where
  "set_field FieldBody s m = m\<lparr>hm_Body := s\<rparr>"
| "set_field FieldQuotedBody s m = m\<lparr>hm_QuotedBody := s\<rparr>"
| "set_field FieldVCard s m = m\<lparr>hm_Contact := map_option (cd_VCard_update (\<lambda>_. s)) (hm_Contact m)\<rparr>"

definition shorten :: "(history_message \<Rightarrow> int) \<Rightarrow> int \<Rightarrow> text_field \<Rightarrow> history_message \<Rightarrow> history_message" where
  "shorten len limit f m =
     (let s = get_field f m; keep = int (length s) - (len m - limit) - 16 in
      (set_field f (truncateUTF8 s (nat (max keep 0))) m)\<lparr>hm_Truncated := True\<rparr>)"

lemma rune_floor_le [simp]: "rune_floor s n \<le> n"
  by (induction n) auto

lemma length_truncateUTF8: "length (truncateUTF8 s n) \<le> n"
  using order.trans[OF rune_floor_le[of s n]] by (auto simp: truncateUTF8_def)

lemma get_set_field: "get_field f (set_field f s m) = s \<or> f = FieldVCard \<and> hm_Contact m = None"
  by (cases f; cases "hm_Contact m") auto

lemma get_field_truncated [simp]: "get_field f (m\<lparr>hm_Truncated := b\<rparr>) = get_field f m"
  by (cases f) auto

lemma get_shorten:
  "get_field f m \<noteq> [] \<Longrightarrow> get_field f (shorten len limit f m) =
     truncateUTF8 (get_field f m) (nat (max (int (length (get_field f m)) - (len m - limit) - 16) 0))"
  using get_set_field[of f _ m] by (cases f) (auto simp: shorten_def Let_def split: option.splits)

function fit_field :: "(history_message \<Rightarrow> int) \<Rightarrow> int \<Rightarrow> text_field \<Rightarrow> history_message \<Rightarrow> history_message" where
  "fit_field len limit f m =
     (if len m > limit \<and> get_field f m \<noteq> [] then fit_field len limit f (shorten len limit f m) else m)"
  by pat_completeness auto

termination
proof (relation "measure (\<lambda>(len, limit, f, m). length (get_field f m))", simp, clarify)
  fix len :: "history_message \<Rightarrow> int" and limit f m
  assume a: "limit < len m" "get_field f m \<noteq> []"
  let ?n = "nat (max (int (length (get_field f m)) - (len m - limit) - 16) 0)"
  have "0 < length (get_field f m)" using a(2) by simp
  then have "?n < length (get_field f m)" using a(1) by linarith
  with length_truncateUTF8[of "get_field f m" ?n]
  show "((len, limit, f, shorten len limit f m), len, limit, f, m) \<in> measure (\<lambda>(len, limit, f, m). length (get_field f m))"
    by (simp add: get_shorten[OF a(2)])
qed

declare fit_field.simps [simp del]

definition fitMessage :: "(history_message \<Rightarrow> int) \<Rightarrow> int \<Rightarrow> history_message \<Rightarrow> bool \<times> history_message" where
  "fitMessage len limit m =
     (if len m \<le> limit then (True, m)
      else let fields = [FieldBody, FieldQuotedBody] @ (if hm_Contact m = None then [] else [FieldVCard]);
               m' = fold (fit_field len limit) fields m in (len m' \<le> limit, m'))"


text \<open>The message with its free text removed; truncation removes at most that.\<close>

definition emptied :: "history_message \<Rightarrow> bool" where
  "emptied m \<longleftrightarrow> hm_Body m = [] \<and> hm_QuotedBody m = [] \<and> (case hm_Contact m of None \<Rightarrow> True | Some c \<Rightarrow> cd_VCard c = [])"

text \<open>A cut of a text: a prefix that ends where a rune of the text begins.\<close>

definition rune_prefix :: "string \<Rightarrow> string \<Rightarrow> bool" where
  "rune_prefix s t \<longleftrightarrow> (\<exists>k\<le>length t. s = take k t \<and> (k = length t \<or> k = 0 \<or> RuneStart (t ! k)))"

definition without_text :: "history_message \<Rightarrow> history_message" where
  "without_text m = m\<lparr>hm_Body := [], hm_QuotedBody := [], hm_Contact := map_option (cd_VCard_update (\<lambda>_. [])) (hm_Contact m),
     hm_Truncated := False\<rparr>"

definition shortened_from :: "history_message \<Rightarrow> history_message \<Rightarrow> bool" where
  "shortened_from m m' \<longleftrightarrow> without_text m' = without_text m \<and> (\<forall>f. rune_prefix (get_field f m') (get_field f m))"

lemma rune_floor_start: "0 < rune_floor s n \<Longrightarrow> RuneStart (s ! rune_floor s n)"
  by (induction n) (auto split: if_splits)

lemma rune_prefix_refl [simp]: "rune_prefix s s"
  by (auto simp: rune_prefix_def)

lemma rune_prefix_trans:
  assumes "rune_prefix a b" "rune_prefix b c"
  shows "rune_prefix a c"
proof -
  from assms(1) obtain i where i: "i \<le> length b" "a = take i b" "i = length b \<or> i = 0 \<or> RuneStart (b ! i)"
    by (auto simp: rune_prefix_def)
  from assms(2) obtain j where j: "j \<le> length c" "b = take j c" by (auto simp: rune_prefix_def)
  show ?thesis
  proof (cases "i = length b")
    case True
    with i assms(2) show ?thesis by simp
  next
    case False
    moreover have "length b = j" using j by simp
    ultimately have "i < j" "a = take i c" "b ! i = c ! i" using i(1,2) j(2) by (auto simp: min_def)
    with i(3) j(1) False show ?thesis by (auto simp: rune_prefix_def intro!: exI[of _ i])
  qed
qed

lemma truncate_rune_prefix [simp]: "rune_prefix (truncateUTF8 s n) s"
proof (cases "length s \<le> n")
  case False
  then have "rune_floor s n \<le> length s" using order.trans[OF rune_floor_le[of s n]] by simp
  with False rune_floor_start[of s n] show ?thesis by (auto simp: truncateUTF8_def rune_prefix_def intro!: exI[of _ "rune_floor s n"])
qed (simp add: truncateUTF8_def)

lemma shortened_refl: "shortened_from m m"
  by (simp add: shortened_from_def)

lemma shortened_trans: "shortened_from a b \<Longrightarrow> shortened_from b c \<Longrightarrow> shortened_from a c"
  unfolding shortened_from_def by (metis rune_prefix_trans)

lemma shorten_shortened: "shortened_from m (shorten len limit f m)"
proof -
  have "rune_prefix (get_field g (shorten len limit f m)) (get_field g m)" for g
    by (cases f; cases g; cases "hm_Contact m") (auto simp: shorten_def Let_def)
  then show ?thesis by (cases f; cases "hm_Contact m") (auto simp: shortened_from_def without_text_def shorten_def Let_def)
qed

lemma fit_field_spec:
  "shortened_from m (fit_field len limit f m) \<and> (len (fit_field len limit f m) \<le> limit \<or> get_field f (fit_field len limit f m) = [])"
proof (induction len limit f m rule: fit_field.induct)
  case (1 len limit f m)
  then show ?case
    using shorten_shortened[of m len limit f]
    by (subst (1 2 3) fit_field.simps) (auto intro: shortened_trans shortened_refl simp: not_less)
qed


lemma rune_prefix_Nil [simp]: "rune_prefix s [] \<longleftrightarrow> s = []"
  by (auto simp: rune_prefix_def)

lemma emptied_shortened: "shortened_from m m' \<Longrightarrow> get_field f m = [] \<Longrightarrow> get_field f m' = []"
  unfolding shortened_from_def by (metis rune_prefix_Nil)

lemma all_fields: "(\<forall>f. P f) \<longleftrightarrow> P FieldBody \<and> P FieldQuotedBody \<and> P FieldVCard"
  by (metis text_field.exhaust)

lemma emptied_fields: "emptied m \<longleftrightarrow> (\<forall>f. get_field f m = [])"
  by (simp add: all_fields emptied_def split: option.splits)

lemma fit_field_fits: "len m \<le> limit \<Longrightarrow> fit_field len limit f m = m"
  by (subst fit_field.simps) simp

lemma fold_fit_spec:
  "shortened_from m (fold (fit_field len limit) fs m) \<and>
   (len (fold (fit_field len limit) fs m) \<le> limit \<or> (\<forall>f\<in>set fs. get_field f (fold (fit_field len limit) fs m) = []))"
proof (induction fs arbitrary: m)
  case (Cons f fs)
  note s = fit_field_spec[of m len limit f] and r = Cons.IH[of "fit_field len limit f m"]
  show ?case
  proof (cases "len (fit_field len limit f m) \<le> limit")
    case True
    then have "fold (fit_field len limit) fs (fit_field len limit f m) = fit_field len limit f m"
      by (induction fs) (simp_all add: fit_field_fits)
    with True s show ?thesis by simp
  next
    case False
    with s r show ?thesis by (auto intro: shortened_trans emptied_shortened)
  qed
qed (simp add: shortened_refl)

text \<open>Oversized history messages are cut, not lost: a message is kept exactly when it fits
  the limit in the end, one that fits already is untouched, otherwise only its free text is
  shortened, at a rune boundary, and it is skipped only when it does not fit with no text left.\<close>

theorem fitMessage_correct:
  "case fitMessage len limit m of (ok, m') \<Rightarrow>
     (ok \<longleftrightarrow> len m' \<le> limit) \<and> shortened_from m m' \<and> (len m \<le> limit \<longrightarrow> m' = m) \<and> (ok \<or> emptied m')"
proof -
  let ?fs = "[FieldBody, FieldQuotedBody] @ (if hm_Contact m = None then [] else [FieldVCard])"
  let ?m = "fold (fit_field len limit) ?fs m"
  note spec = fold_fit_spec[of m len limit ?fs]
  have "get_field FieldVCard ?m = []" if "hm_Contact m = None"
    using that emptied_shortened[OF conjunct1[OF spec], of FieldVCard] by simp
  with conjunct2[OF spec] have "len ?m \<le> limit \<or> emptied ?m"
    unfolding emptied_fields all_fields by (cases "hm_Contact m") (auto simp del: get_field.simps fold.simps)
  with spec show ?thesis by (simp add: fitMessage_def Let_def shortened_refl del: fold.simps)
qed

section \<open>Packing\<close>

record packer =
  pk_out :: "history_batch list"
  pk_cur :: history_batch
  pk_size :: int
  pk_messages :: int
  pk_convAt :: "string \<rightharpoonup> nat"

definition pk_empty :: "packer \<Rightarrow> bool" where
  "pk_empty p \<longleftrightarrow> hb_Contacts (pk_cur p) = [] \<and> hb_Conversations (pk_cur p) = []"

definition flush :: "json_len \<Rightarrow> packer \<Rightarrow> packer" where
  "flush J p =
     (if pk_empty p then p
      else \<lparr>pk_out = pk_out p @ [pk_cur p], pk_cur = zero_batch, pk_size = batchOverhead J, pk_messages = 0, pk_convAt = (\<lambda>_. None)\<rparr>)"

definition room :: "json_len \<Rightarrow> int \<Rightarrow> int \<Rightarrow> packer \<Rightarrow> packer" where
  "room J cost messages p =
     (if \<not> pk_empty p \<and> (pk_size p + cost > MaxBatchBytes \<or> pk_messages p + messages > MaxBatchMessages) then flush J p else p)"

definition pack_contact :: "json_len \<Rightarrow> history_contact \<Rightarrow> packer \<Rightarrow> packer" where
  "pack_contact J c p =
     (let cost = len_contact J c + 1; p = room J cost 0 p in
      p\<lparr>pk_cur := (pk_cur p)\<lparr>hb_Contacts := hb_Contacts (pk_cur p) @ [c]\<rparr>, pk_size := pk_size p + cost\<rparr>)"

text \<open>A \<open>convItem\<close>: the metadata of a conversation and its messages.\<close>

record conv_item =
  ci_meta :: history_conversation
  ci_messages :: "history_message list"

definition ensureMeta :: "json_len \<Rightarrow> history_conversation \<Rightarrow> packer \<Rightarrow> packer \<times> nat" where
  "ensureMeta J meta p =
     (case pk_convAt p (cv_ChatJID meta) of
        Some i \<Rightarrow> (p, i)
      | None \<Rightarrow>
          (let convs = hb_Conversations (pk_cur p) @ [meta\<lparr>cv_Messages := []\<rparr>]; i = length convs - 1 in
           (p\<lparr>pk_cur := (pk_cur p)\<lparr>hb_Conversations := convs\<rparr>, pk_size := pk_size p + (len_conversation J meta + 1),
              pk_convAt := (pk_convAt p)(cv_ChatJID meta \<mapsto> i)\<rparr>, i)))"

definition pack_message :: "json_len \<Rightarrow> history_conversation \<Rightarrow> history_message \<Rightarrow> packer \<Rightarrow> packer" where
  "pack_message J meta m p =
     (let cost = len_message J m + 1;
          need = (if pk_convAt p (cv_ChatJID meta) = None then cost + (len_conversation J meta + 1) else cost);
          (p, i) = ensureMeta J meta (room J need 1 p);
          c = hb_Conversations (pk_cur p) ! i in
      p\<lparr>pk_cur := (pk_cur p)\<lparr>hb_Conversations := (hb_Conversations (pk_cur p))[i := c\<lparr>cv_Messages := cv_Messages c @ [m]\<rparr>]\<rparr>,
        pk_size := pk_size p + cost, pk_messages := pk_messages p + 1\<rparr>)"

definition pack_conversation :: "json_len \<Rightarrow> conv_item \<Rightarrow> packer \<Rightarrow> packer" where
  "pack_conversation J conv p =
     (if ci_messages conv = [] then fst (ensureMeta J (ci_meta conv) (room J (len_conversation J (ci_meta conv) + 1) 0 p))
      else fold (pack_message J (ci_meta conv)) (ci_messages conv) p)"

definition start_packer :: "json_len \<Rightarrow> packer" where
  "start_packer J = \<lparr>pk_out = [], pk_cur = zero_batch, pk_size = batchOverhead J, pk_messages = 0, pk_convAt = (\<lambda>_. None)\<rparr>"

definition pack :: "json_len \<Rightarrow> history_contact list \<Rightarrow> conv_item list \<Rightarrow> history_batch list" where
  "pack J contacts convs =
     pk_out (flush J (fold (pack_conversation J) convs (fold (pack_contact J) contacts (start_packer J))))"

section \<open>Batches within their limits\<close>

text \<open>What a batch costs by the accounting of the packer, how many messages it has, and how many
  indivisible items: a contact, a message, or a conversation without messages.\<close>

definition batch_cost :: "json_len \<Rightarrow> history_batch \<Rightarrow> int" where
  "batch_cost J b = batchOverhead J + (\<Sum>c\<leftarrow>hb_Contacts b. len_contact J c + 1) +
     (\<Sum>c\<leftarrow>hb_Conversations b. len_conversation J (c\<lparr>cv_Messages := []\<rparr>) + 1 + (\<Sum>m\<leftarrow>cv_Messages c. len_message J m + 1))"

definition batch_messages :: "history_batch \<Rightarrow> nat" where
  "batch_messages b = (\<Sum>c\<leftarrow>hb_Conversations b. length (cv_Messages c))"

definition batch_items :: "history_batch \<Rightarrow> nat" where
  "batch_items b = length (hb_Contacts b) + (\<Sum>c\<leftarrow>hb_Conversations b. max 1 (length (cv_Messages c)))"

definition within_limits :: "json_len \<Rightarrow> history_batch \<Rightarrow> bool" where
  "within_limits J b \<longleftrightarrow> int (batch_messages b) \<le> MaxBatchMessages \<and> 0 < batch_items b \<and>
     (batch_cost J b \<le> MaxBatchBytes \<or> batch_items b = 1)"

text \<open>The messages a batch has for a chat.\<close>

definition chat_messages :: "string \<Rightarrow> history_batch \<Rightarrow> history_message list" where
  "chat_messages j b = concat (map cv_Messages (filter (\<lambda>c. cv_ChatJID c = j) (hb_Conversations b)))"

definition has_chat :: "string \<Rightarrow> history_batch \<Rightarrow> bool" where
  "has_chat j b \<longleftrightarrow> j \<in> cv_ChatJID ` set (hb_Conversations b)"

definition books :: "json_len \<Rightarrow> packer \<Rightarrow> bool" where
  "books J p \<longleftrightarrow> pk_size p = batch_cost J (pk_cur p) \<and> pk_messages p = int (batch_messages (pk_cur p)) \<and>
     distinct (map cv_ChatJID (hb_Conversations (pk_cur p))) \<and>
     (\<forall>j i. pk_convAt p j = Some i \<longleftrightarrow> i < length (hb_Conversations (pk_cur p)) \<and> cv_ChatJID (hb_Conversations (pk_cur p) ! i) = j)"

definition packing :: "json_len \<Rightarrow> packer \<Rightarrow> bool" where
  "packing J p \<longleftrightarrow> books J p \<and> (pk_empty p \<or> within_limits J (pk_cur p)) \<and> (\<forall>b\<in>set (pk_out p). within_limits J b)"

text \<open>What is packed so far.\<close>

definition packed_contacts :: "packer \<Rightarrow> history_contact list" where
  "packed_contacts p = concat (map hb_Contacts (pk_out p @ [pk_cur p]))"

definition packed_messages :: "string \<Rightarrow> packer \<Rightarrow> history_message list" where
  "packed_messages j p = concat (map (chat_messages j) (pk_out p @ [pk_cur p]))"

definition packed_chats :: "packer \<Rightarrow> string set" where
  "packed_chats p = {j. \<exists>b\<in>set (pk_out p @ [pk_cur p]). has_chat j b}"

lemmas packed_defs = packed_contacts_def packed_messages_def packed_chats_def chat_messages_def has_chat_def

lemma zero_batch_sel [simp]: "hb_Contacts zero_batch = []" "hb_Conversations zero_batch = []"
  by (simp_all add: zero_batch_def)

lemma books_empty [simp]:
  "books J \<lparr>pk_out = out, pk_cur = zero_batch, pk_size = batchOverhead J, pk_messages = 0, pk_convAt = (\<lambda>_. None)\<rparr>"
  by (simp add: books_def batch_cost_def batch_messages_def)

lemma flush_packing:
  assumes "packing J p"
  shows "packing J (flush J p)" "packed_contacts (flush J p) = packed_contacts p" "packed_messages j (flush J p) = packed_messages j p"
    "packed_chats (flush J p) = packed_chats p" "pk_empty (flush J p)"
  using assms by (auto simp: flush_def packing_def packed_defs pk_empty_def)

lemma room_packing:
  assumes "packing J p"
  shows "packing J (room J cost n p)" "packed_contacts (room J cost n p) = packed_contacts p"
    "packed_messages j (room J cost n p) = packed_messages j p" "packed_chats (room J cost n p) = packed_chats p"
    "pk_empty (room J cost n p) \<or> room J cost n p = p \<and> pk_size p + cost \<le> MaxBatchBytes \<and> pk_messages p + n \<le> MaxBatchMessages"
  using flush_packing[OF assms] assms by (auto simp: room_def)

lemma start_packing [simp]: "packing J (start_packer J)"
  by (simp add: start_packer_def packing_def pk_empty_def)

lemma packing_empty:
  assumes "books J p" "pk_empty p"
  shows "hb_Contacts (pk_cur p) = []" "hb_Conversations (pk_cur p) = []" "pk_convAt p j = None" "pk_messages p = 0"
  using assms by (cases "pk_convAt p j"; auto simp: books_def pk_empty_def batch_messages_def)+

text \<open>A batch stays within its limits when the item added was allowed for or is alone.\<close>

lemma within_limitsI:
  assumes "books J q" "0 < batch_items (pk_cur q)" "pk_messages q \<le> MaxBatchMessages"
    "pk_size q \<le> MaxBatchBytes \<or> batch_items (pk_cur q) = 1" "\<forall>b\<in>set (pk_out q). within_limits J b"
  shows "packing J q"
  using assms by (simp add: packing_def within_limits_def books_def)

lemma contact_packing:
  assumes "packing J p"
  shows "packing J (pack_contact J c p) \<and> packed_contacts (pack_contact J c p) = packed_contacts p @ [c] \<and>
    packed_messages j (pack_contact J c p) = packed_messages j p \<and> packed_chats (pack_contact J c p) = packed_chats p"
proof -
  let ?q = "room J (len_contact J c + 1) 0 p" and ?p' = "pack_contact J c p"
  note r = room_packing[OF assms, where cost = "len_contact J c + 1" and n = 0]
  have p': "?p' = ?q\<lparr>pk_cur := (pk_cur ?q)\<lparr>hb_Contacts := hb_Contacts (pk_cur ?q) @ [c]\<rparr>, pk_size := pk_size ?q + (len_contact J c + 1)\<rparr>"
    by (simp add: pack_contact_def Let_def)
  have b: "books J ?q" and out: "\<forall>b\<in>set (pk_out ?q). within_limits J b" using r(1) by (auto simp: packing_def)
  have books: "books J ?p'" using b by (simp add: p' books_def batch_cost_def batch_messages_def)
  have items: "batch_items (pk_cur ?p') = Suc (batch_items (pk_cur ?q))" by (simp add: p' batch_items_def)
  have "packing J ?p'"
  proof (rule within_limitsI[OF books])
    show "pk_size ?p' \<le> MaxBatchBytes \<or> batch_items (pk_cur ?p') = 1" "pk_messages ?p' \<le> MaxBatchMessages"
      using r(5) packing_empty(1,2,4)[OF b] by (auto simp: items p' batch_items_def MaxBatchMessages_def)
  qed (use items out in \<open>simp_all add: p'\<close>)
  moreover have "packed_contacts ?p' = packed_contacts ?q @ [c]"
    "packed_messages j ?p' = packed_messages j ?q" "packed_chats ?p' = packed_chats ?q"
    by (auto simp: p' packed_defs)
  ultimately show ?thesis using r by simp
qed

lemma books_at:
  assumes "books J p" "pk_convAt p j = Some i"
  shows "i < length (hb_Conversations (pk_cur p))" "cv_ChatJID (hb_Conversations (pk_cur p) ! i) = j" "j \<in> packed_chats p"
  using assms by (auto simp: books_def packed_defs intro!: image_eqI[OF _ nth_mem])

lemma ensureMeta_books:
  assumes "books J p" "cv_Messages meta = []" "ensureMeta J meta p = (q, i)"
  shows "books J q \<and> i < length (hb_Conversations (pk_cur q)) \<and> cv_ChatJID (hb_Conversations (pk_cur q) ! i) = cv_ChatJID meta \<and>
    pk_out q = pk_out p \<and> packed_contacts q = packed_contacts p \<and> packed_messages j q = packed_messages j p \<and>
    packed_chats q = insert (cv_ChatJID meta) (packed_chats p) \<and> pk_messages q = pk_messages p \<and>
    pk_size q = pk_size p + (if pk_convAt p (cv_ChatJID meta) = None then len_conversation J meta + 1 else 0)"
proof (cases "pk_convAt p (cv_ChatJID meta)")
  case (Some k)
  then have "q = p" "i = k" using assms(3) by (auto simp: ensureMeta_def)
  with Some assms(1) books_at[OF assms(1) Some] show ?thesis by auto
next
  case None
  let ?cs = "hb_Conversations (pk_cur p)"
  have eq: "meta\<lparr>cv_Messages := []\<rparr> = meta" using assms(2) by simp
  have "(q, i) = (p\<lparr>pk_cur := (pk_cur p)\<lparr>hb_Conversations := ?cs @ [meta]\<rparr>,
      pk_size := pk_size p + (len_conversation J meta + 1), pk_convAt := (pk_convAt p)(cv_ChatJID meta \<mapsto> length ?cs)\<rparr>, length ?cs)"
    unfolding assms(3)[symmetric] ensureMeta_def None by (simp add: eq Let_def)
  then have q: "q = p\<lparr>pk_cur := (pk_cur p)\<lparr>hb_Conversations := ?cs @ [meta]\<rparr>,
      pk_size := pk_size p + (len_conversation J meta + 1), pk_convAt := (pk_convAt p)(cv_ChatJID meta \<mapsto> length ?cs)\<rparr>"
    and i: "i = length ?cs"
    by (blast elim: Pair_inject)+
  have at: "pk_convAt p j = Some i \<longleftrightarrow> i < length ?cs \<and> cv_ChatJID (?cs ! i) = j" for j i using assms(1) by (simp add: books_def)
  have fresh: "cv_ChatJID meta \<notin> cv_ChatJID ` set ?cs"
  proof
    assume "cv_ChatJID meta \<in> cv_ChatJID ` set ?cs"
    then obtain k where "k < length ?cs" "cv_ChatJID (?cs ! k) = cv_ChatJID meta" by (auto simp: in_set_conv_nth)
    with at[of "cv_ChatJID meta" k] None show False by simp
  qed
  have books: "books J q"
    unfolding books_def
  proof (intro conjI allI)
    show "pk_size q = batch_cost J (pk_cur q)" "pk_messages q = int (batch_messages (pk_cur q))"
      using assms(1,2) by (simp_all add: q books_def batch_cost_def batch_messages_def eq)
    show "distinct (map cv_ChatJID (hb_Conversations (pk_cur q)))" using assms(1) fresh by (simp add: q books_def)
    fix j k
    show "pk_convAt q j = Some k \<longleftrightarrow> k < length (hb_Conversations (pk_cur q)) \<and> cv_ChatJID (hb_Conversations (pk_cur q) ! k) = j"
      using at[of j k] None fresh by (auto simp: q nth_append less_Suc_eq)
  qed
  have "packed_messages j q = packed_messages j p" "packed_contacts q = packed_contacts p"
    "packed_chats q = insert (cv_ChatJID meta) (packed_chats p)" using assms(2) by (auto simp: q packed_defs)
  with books None show ?thesis by (simp add: q i)
qed

lemma sum_list_update_int: "i < length xs \<Longrightarrow> (\<Sum>x\<leftarrow>xs[i := y]. f x) = (\<Sum>x\<leftarrow>xs. f x) - f (xs ! i) + (f y :: int)"
  by (induction xs arbitrary: i) (auto split: nat.splits)

lemma sum_list_update_nat: "i < length xs \<Longrightarrow> (\<Sum>x\<leftarrow>xs[i := y]. f x) + f (xs ! i) = (\<Sum>x\<leftarrow>xs. f x) + (f y :: nat)"
  by (induction xs arbitrary: i) (auto split: nat.splits)

lemma filter_update_messages:
  assumes "i < length cs" "distinct (map cv_ChatJID cs)" "cv_ChatJID c = cv_ChatJID (cs ! i)"
    "cv_Messages c = cv_Messages (cs ! i) @ [m]"
  shows "concat (map cv_Messages (filter (\<lambda>c. cv_ChatJID c = j) (cs[i := c]))) =
    concat (map cv_Messages (filter (\<lambda>c. cv_ChatJID c = j) cs)) @ (if j = cv_ChatJID c then [m] else [])"
  using assms
proof (induction cs arbitrary: i)
  case (Cons x cs)
  show ?case
  proof (cases i)
    case 0
    have "filter (\<lambda>c. cv_ChatJID c = cv_ChatJID x) cs = []" using Cons.prems(2) by (auto simp: filter_empty_conv image_iff)
    with 0 Cons.prems show ?thesis by auto
  next
    case (Suc k)
    moreover have "cv_ChatJID (cs ! k) \<in> cv_ChatJID ` set cs" using Cons.prems(1) Suc by auto
    then have "cv_ChatJID x \<noteq> cv_ChatJID c" using Cons.prems(2,3) Suc by auto
    ultimately show ?thesis using Cons.IH[of k] Cons.prems by auto
  qed
qed simp

text \<open>The append of a message to its conversation.\<close>

definition append_message :: "json_len \<Rightarrow> history_message \<Rightarrow> nat \<Rightarrow> packer \<Rightarrow> packer" where
  "append_message J m i p =
     (let c = hb_Conversations (pk_cur p) ! i in
      p\<lparr>pk_cur := (pk_cur p)\<lparr>hb_Conversations := (hb_Conversations (pk_cur p))[i := c\<lparr>cv_Messages := cv_Messages c @ [m]\<rparr>]\<rparr>,
        pk_size := pk_size p + (len_message J m + 1), pk_messages := pk_messages p + 1\<rparr>)"

lemma append_message_books:
  assumes "books J p" "i < length (hb_Conversations (pk_cur p))"
  shows "books J (append_message J m i p)" "packed_contacts (append_message J m i p) = packed_contacts p"
    "packed_messages j (append_message J m i p) =
      packed_messages j p @ (if j = cv_ChatJID (hb_Conversations (pk_cur p) ! i) then [m] else [])"
    "packed_chats (append_message J m i p) = packed_chats p"
proof -
  let ?cs = "hb_Conversations (pk_cur p)"
  let ?c = "(?cs ! i)\<lparr>cv_Messages := cv_Messages (?cs ! i) @ [m]\<rparr>" and ?q = "append_message J m i p"
  have q: "hb_Conversations (pk_cur ?q) = ?cs[i := ?c]" "hb_Contacts (pk_cur ?q) = hb_Contacts (pk_cur p)" "pk_out ?q = pk_out p"
    "pk_size ?q = pk_size p + (len_message J m + 1)" "pk_messages ?q = pk_messages p + 1" "pk_convAt ?q = pk_convAt p"
    by (simp_all add: append_message_def Let_def)
  have ids: "map cv_ChatJID (?cs[i := ?c]) = map cv_ChatJID ?cs" using assms(2) by (simp add: map_update list_update_same_conv)
  have nth: "cv_ChatJID (?cs[i := ?c] ! k) = cv_ChatJID (?cs ! k)" for k using assms(2) by (cases "k = i") auto
  show "books J ?q"
    using assms sum_list_update_nat[OF assms(2), of "\<lambda>c. length (cv_Messages c)" ?c]
    by (simp add: books_def q ids nth batch_cost_def batch_messages_def sum_list_update_int)
  show "packed_contacts ?q = packed_contacts p" by (simp add: packed_defs q)
  show "packed_messages j ?q = packed_messages j p @ (if j = cv_ChatJID (?cs ! i) then [m] else [])"
    using filter_update_messages[of i ?cs ?c m j] assms by (auto simp: packed_defs q books_def)
  have "cv_ChatJID ` set (?cs[i := ?c]) = cv_ChatJID ` set ?cs" using arg_cong[OF ids, of set] by simp
  then show "packed_chats ?q = packed_chats p" by (auto simp: packed_defs q)
qed

lemma pack_message_alt:
  "pack_message J meta m p =
     (let need = (if pk_convAt p (cv_ChatJID meta) = None then len_message J m + 1 + (len_conversation J meta + 1) else len_message J m + 1);
          (q, i) = ensureMeta J meta (room J need 1 p) in append_message J m i q)"
  by (simp add: pack_message_def append_message_def Let_def)

lemma batch_items_pos: "hb_Conversations b \<noteq> [] \<Longrightarrow> 0 < batch_items b"
  by (cases "hb_Conversations b") (auto simp: batch_items_def)

lemma message_packing:
  assumes "packing J p" "cv_Messages meta = []"
  shows "packing J (pack_message J meta m p) \<and> packed_contacts (pack_message J meta m p) = packed_contacts p \<and>
    packed_messages j (pack_message J meta m p) = packed_messages j p @ (if j = cv_ChatJID meta then [m] else []) \<and>
    packed_chats (pack_message J meta m p) = insert (cv_ChatJID meta) (packed_chats p)"
proof -
  define need where "need = (if pk_convAt p (cv_ChatJID meta) = None then len_message J m + 1 + (len_conversation J meta + 1) else len_message J m + 1)"
  let ?q = "room J need 1 p"
  obtain r i where e: "ensureMeta J meta ?q = (r, i)" by fastforce
  have pm: "pack_message J meta m p = append_message J m i r" by (simp add: pack_message_alt need_def[symmetric] e)
  note rp = room_packing[OF assms(1), where cost = need and n = 1]
  have b: "books J ?q" and out: "\<forall>b\<in>set (pk_out ?q). within_limits J b" using rp(1) by (auto simp: packing_def)
  note em = ensureMeta_books[OF b assms(2) e]
  have i: "books J r" "i < length (hb_Conversations (pk_cur r))" "cv_ChatJID (hb_Conversations (pk_cur r) ! i) = cv_ChatJID meta"
    using em by auto
  note am = append_message_books[OF i(1,2), where m = m]
  let ?s = "append_message J m i r"
  have "packing J ?s"
  proof (rule within_limitsI[OF am(1)])
    have sel: "pk_size ?s = pk_size r + (len_message J m + 1)" "pk_messages ?s = pk_messages ?q + 1" "pk_out ?s = pk_out ?q"
      using em by (simp_all add: append_message_def Let_def)
    show "\<forall>b\<in>set (pk_out ?s). within_limits J b" using out sel by simp
    show "pk_messages ?s \<le> MaxBatchMessages"
      using rp(5) packing_empty(4)[OF b] sel by (auto simp: MaxBatchMessages_def)
    show "0 < batch_items (pk_cur ?s)"
      using i(2) by (intro batch_items_pos) (auto simp: append_message_def Let_def)
    show "pk_size ?s \<le> MaxBatchBytes \<or> batch_items (pk_cur ?s) = 1"
    proof (cases "pk_empty ?q")
      case True
      note pe = packing_empty[OF b True]
      then have "r = fst (ensureMeta J meta ?q)" "i = 0" using e by (simp_all add: ensureMeta_def Let_def)
      with pe have "batch_items (pk_cur ?s) = 1"
        by (simp add: append_message_def ensureMeta_def Let_def batch_items_def)
      then show ?thesis by simp
    next
      case False
      with rp(5) sel em show ?thesis by (auto simp: need_def)
    qed
  qed
  then show ?thesis using am em rp unfolding pm by auto
qed

lemma conversation_packing:
  assumes "packing J p" "cv_Messages (ci_meta c) = []"
  shows "packing J (pack_conversation J c p) \<and> packed_contacts (pack_conversation J c p) = packed_contacts p \<and>
    packed_messages j (pack_conversation J c p) = packed_messages j p @ (if j = cv_ChatJID (ci_meta c) then ci_messages c else []) \<and>
    packed_chats (pack_conversation J c p) = insert (cv_ChatJID (ci_meta c)) (packed_chats p)"
proof (cases "ci_messages c = []")
  case False
  have "packing J (fold (pack_message J (ci_meta c)) ms q) \<and> packed_contacts (fold (pack_message J (ci_meta c)) ms q) = packed_contacts q \<and>
    packed_messages j (fold (pack_message J (ci_meta c)) ms q) = packed_messages j q @ (if j = cv_ChatJID (ci_meta c) then ms else []) \<and>
    packed_chats (fold (pack_message J (ci_meta c)) ms q) = (if ms = [] then {} else {cv_ChatJID (ci_meta c)}) \<union> packed_chats q"
    if "packing J q" for ms q
    using that
  proof (induction ms arbitrary: q)
    case (Cons m ms)
    from message_packing[OF Cons.prems assms(2), of m j] Cons.IH[of "pack_message J (ci_meta c) m q"] show ?case by auto
  qed simp
  from this[OF assms(1), of "ci_messages c"] False show ?thesis by (simp add: pack_conversation_def)
next
  case True
  let ?q = "room J (len_conversation J (ci_meta c) + 1) 0 p"
  obtain r i where e: "ensureMeta J (ci_meta c) ?q = (r, i)" by fastforce
  note rp = room_packing[OF assms(1), where cost = "len_conversation J (ci_meta c) + 1" and n = 0]
  have b: "books J ?q" and out: "\<forall>b\<in>set (pk_out ?q). within_limits J b" using rp(1) by (auto simp: packing_def)
  note em = ensureMeta_books[OF b assms(2) e, of j]
  have "packing J r"
  proof (cases "pk_convAt ?q (cv_ChatJID (ci_meta c))")
    case None
    show ?thesis
    proof (rule within_limitsI)
      show "pk_messages r \<le> MaxBatchMessages" using rp(5) packing_empty(4)[OF b] em by (auto simp: MaxBatchMessages_def)
      show "0 < batch_items (pk_cur r)" using em by (intro batch_items_pos) auto
      show "pk_size r \<le> MaxBatchBytes \<or> batch_items (pk_cur r) = 1"
      proof (cases "pk_empty ?q")
        case True
        from packing_empty[OF b True] None e show ?thesis by (auto simp: ensureMeta_def Let_def batch_items_def)
      next
        case False
        with rp(5) em None show ?thesis by auto
      qed
    qed (use em out in auto)
  next
    case (Some k)
    with e rp(1) show ?thesis by (simp add: ensureMeta_def)
  qed
  with True e em rp show ?thesis by (simp add: pack_conversation_def)
qed

section \<open>Conversion of a notification\<close>

text \<open>\<open>buildContacts\<close>: \<open>order\<close> is the order in which Go iterates over the keys of the two maps of the
  index, \<open>pushnames\<close> the ids and names of the blob. The contacts found so far are kept by key.\<close>

definition contact_for :: "(string \<Rightarrow> string) \<Rightarrow> identity_index \<Rightarrow> string \<Rightarrow> (string \<times> history_contact) option" where
  "contact_for canonical x jid =
     (case split_identity canonical x jid of (lid, pn) \<Rightarrow>
        if lid = [] \<and> pn = [] then None
        else Some (if lid = [] then pn else lid, \<lparr>hc_LID = lid, hc_PhoneJID = pn, hc_PushName = []\<rparr>))"

definition get_contact :: "(string \<Rightarrow> string) \<Rightarrow> identity_index \<Rightarrow> string \<Rightarrow> (string \<times> history_contact) list \<Rightarrow> (string \<times> history_contact) list" where
  "get_contact canonical x jid byKey =
     (case contact_for canonical x jid of None \<Rightarrow> byKey
      | Some (k, c) \<Rightarrow> (if map_of byKey k = None then byKey @ [(k, c)] else byKey))"

definition name_contact :: "(string \<Rightarrow> string) \<Rightarrow> identity_index \<Rightarrow> string \<times> string \<Rightarrow> (string \<times> history_contact) list \<Rightarrow> (string \<times> history_contact) list" where
  "name_contact canonical x = (\<lambda>(jid, push) byKey.
     (let name = TrimSpace push in
      if name = [] then byKey
      else case contact_for canonical x jid of None \<Rightarrow> byKey
        | Some (k, _) \<Rightarrow> map (\<lambda>(k', c). (k', if k' = k \<and> hc_PushName c = [] then c\<lparr>hc_PushName := name\<rparr> else c))
            (get_contact canonical x jid byKey)))"

definition buildContacts :: "(string \<Rightarrow> string) \<Rightarrow> identity_index \<Rightarrow> string list \<Rightarrow> (string \<times> string) list \<Rightarrow> history_contact list" where
  "buildContacts canonical x order pushnames =
     sort_key (\<lambda>c. (hc_LID c, hc_PhoneJID c))
       (map snd (fold (name_contact canonical x) pushnames (fold (get_contact canonical x) order [])))"

text \<open>The messages of a conversation: converted one by one (\<open>conv1\<close> is \<open>convertMessage\<close>, \<open>None\<close> a
  skipped message), ordered by time, order id and position, and cut to the limit.\<close>

record ordered_message =
  om_ts :: int
  om_order :: int
  om_index :: int
  om_msg :: history_message

definition order_parts :: "int \<Rightarrow> nat \<Rightarrow> history_message list \<Rightarrow> ordered_message list" where
  "order_parts ord i ms = map (\<lambda>(j, m). \<lparr>om_ts = hm_Timestamp m, om_order = ord, om_index = int i * 256 + int (min j 255), om_msg = m\<rparr>)
     (enumerate 0 ms)"

fun convert_loop :: "('h \<Rightarrow> history_message list option) \<Rightarrow> ('h \<Rightarrow> int) \<Rightarrow> nat \<Rightarrow> 'h list \<Rightarrow> ordered_message list \<times> nat" where
  "convert_loop conv1 order_of i [] = ([], 0)"
| "convert_loop conv1 order_of i (h # hs) =
     (case convert_loop conv1 order_of (Suc i) hs of (out, skipped) \<Rightarrow>
        (case conv1 h of None \<Rightarrow> (out, Suc skipped)
         | Some ms \<Rightarrow> (order_parts (order_of h) i ms @ out, skipped)))"

definition convertMessages :: "json_len \<Rightarrow> ('h \<Rightarrow> history_message list option) \<Rightarrow> ('h \<Rightarrow> int) \<Rightarrow> int \<Rightarrow> 'h list \<Rightarrow> history_message list \<times> nat" where
  "convertMessages J conv1 order_of limit hs =
     (case convert_loop conv1 order_of 0 hs of (out, skipped) \<Rightarrow>
        (let fitted = map (\<lambda>o'. fitMessage (len_message J) limit (om_msg o')) (sort_key (\<lambda>o'. (om_ts o', om_order o', om_index o')) out) in
         (map snd (filter fst fitted), skipped + length (filter (\<lambda>f. \<not> fst f) fitted))))"

text \<open>A decoded blob: the type, chunk and progress it reports, the number of status messages, its
  conversations, and what is read from a conversation: its metadata (\<open>None\<close> when the id does
  not parse or is the status chat) and its messages.\<close>

record ('v, 'h) history_blob =
  bl_SyncType :: string
  bl_ChunkOrder :: int
  bl_Progress :: "int option"
  bl_StatusMessages :: nat
  bl_Contacts :: "history_contact list"
  bl_Conversations :: "'v list"
  bl_Meta :: "'v \<Rightarrow> history_conversation option"
  bl_Messages :: "'v \<Rightarrow> 'h list"
  bl_Convert :: "'v \<Rightarrow> 'h \<Rightarrow> history_message list option"
  bl_Order :: "'h \<Rightarrow> int"

record convert_input =
  hin_SessionID :: string
  hin_NotificationID :: string
  hin_NotifiedAt :: gotime
  hin_RunID :: string
  hin_AccountJID :: string

record convert_result =
  hres_SyncType :: string
  hres_ChunkOrder :: int
  hres_Progress :: "int option"
  hres_Batches :: "(string \<times> history_batch) list"
  hres_Conversations :: nat
  hres_Messages :: nat
  hres_Skipped :: nat

definition message_limit :: "json_len \<Rightarrow> history_conversation \<Rightarrow> int" where
  "message_limit J meta = max (MaxMessageBytes - len_conversation J meta) (64 * 1024)"

fun convert_conversations :: "json_len \<Rightarrow> ('v, 'h) history_blob \<Rightarrow> 'v list \<Rightarrow> conv_item list \<times> nat" where
  "convert_conversations J b [] = ([], 0)"
| "convert_conversations J b (v # vs) =
     (case convert_conversations J b vs of (items, skipped) \<Rightarrow>
        (case bl_Meta b v of
           None \<Rightarrow> (items, length (bl_Messages b v) + skipped)
         | Some meta' \<Rightarrow>
             (let meta = meta'\<lparr>cv_Messages := []\<rparr>;
                  (ms, sk) = convertMessages J (bl_Convert b v) (bl_Order b) (message_limit J meta) (bl_Messages b v) in
              (\<lparr>ci_meta = meta, ci_messages = ms\<rparr> # items, sk + skipped))))"

definition number_batch :: "ulid_maker \<Rightarrow> convert_input \<Rightarrow> ('v, 'h) history_blob \<Rightarrow> nat \<Rightarrow> nat \<times> history_batch \<Rightarrow> string \<times> history_batch" where
  "number_batch U inp b parts = (\<lambda>(i, p).
     (EventID U (hin_NotifiedAt inp) [hin_SessionID inp, hin_NotificationID inp, show_nat i],
      p\<lparr>hb_RunID := hin_RunID inp, hb_AccountJID := hin_AccountJID inp, hb_SyncType := bl_SyncType b, hb_ChunkOrder := bl_ChunkOrder b,
        hb_Part := int i + 1, hb_Parts := int parts, hb_SnapshotAt := UnixMilli (hin_NotifiedAt inp)\<rparr>))"

definition Convert :: "json_len \<Rightarrow> ulid_maker \<Rightarrow> convert_input \<Rightarrow> ('v, 'h) history_blob \<Rightarrow> convert_result" where
  "Convert J U inp b =
     (case convert_conversations J b (bl_Conversations b) of (convs, skipped) \<Rightarrow>
        (let payloads = pack J (bl_Contacts b) convs in
         \<lparr>hres_SyncType = bl_SyncType b, hres_ChunkOrder = bl_ChunkOrder b, hres_Progress = map_option (\<lambda>p. min p 100) (bl_Progress b),
          hres_Batches = map (number_batch U inp b (length payloads)) (enumerate 0 payloads),
          hres_Conversations = length convs, hres_Messages = (\<Sum>c\<leftarrow>convs. length (ci_messages c)),
          hres_Skipped = bl_StatusMessages b + skipped\<rparr>))"

lemma pack_spec:
  assumes "\<And>c. c \<in> set convs \<Longrightarrow> cv_Messages (ci_meta c) = []"
  shows "\<forall>b\<in>set (pack J contacts convs). within_limits J b" "concat (map hb_Contacts (pack J contacts convs)) = contacts"
    "concat (map (chat_messages j) (pack J contacts convs)) = concat (map ci_messages (filter (\<lambda>c. cv_ChatJID (ci_meta c) = j) convs))"
    "(\<exists>b\<in>set (pack J contacts convs). has_chat j b) \<longleftrightarrow> j \<in> (cv_ChatJID \<circ> ci_meta) ` set convs"
proof -
  have contacts: "packing J (fold (pack_contact J) cs p) \<and> packed_contacts (fold (pack_contact J) cs p) = packed_contacts p @ cs \<and>
    packed_messages j (fold (pack_contact J) cs p) = packed_messages j p \<and> packed_chats (fold (pack_contact J) cs p) = packed_chats p"
    if "packing J p" for cs p
    using that
  proof (induction cs arbitrary: p)
    case (Cons c cs)
    from contact_packing[OF Cons.prems, of c j] Cons.IH[of "pack_contact J c p"] show ?case by simp
  qed simp
  have convs: "packing J (fold (pack_conversation J) cs p) \<and> packed_contacts (fold (pack_conversation J) cs p) = packed_contacts p \<and>
    packed_messages j (fold (pack_conversation J) cs p) =
      packed_messages j p @ concat (map ci_messages (filter (\<lambda>c. cv_ChatJID (ci_meta c) = j) cs)) \<and>
    packed_chats (fold (pack_conversation J) cs p) = (cv_ChatJID \<circ> ci_meta) ` set cs \<union> packed_chats p"
    if "packing J p" "set cs \<subseteq> set convs" for cs p
    using that
  proof (induction cs arbitrary: p)
    case (Cons c cs)
    from Cons.prems(2) assms have "cv_Messages (ci_meta c) = []" by auto
    from conversation_packing[OF Cons.prems(1) this, of j] Cons.IH[of "pack_conversation J c p"] Cons.prems(2) show ?case by auto
  qed simp
  let ?p = "fold (pack_conversation J) convs (fold (pack_contact J) contacts (start_packer J))"
  from contacts[OF start_packing, of contacts] convs[of "fold (pack_contact J) contacts (start_packer J)" convs]
  have p: "packing J ?p" "packed_contacts ?p = contacts" "packed_chats ?p = (cv_ChatJID \<circ> ci_meta) ` set convs"
    "packed_messages j ?p = concat (map ci_messages (filter (\<lambda>c. cv_ChatJID (ci_meta c) = j) convs))"
    by (auto simp: start_packer_def packed_defs)
  note f = flush_packing[OF p(1)]
  then have e: "hb_Contacts (pk_cur (flush J ?p)) = []" "hb_Conversations (pk_cur (flush J ?p)) = []" by (simp_all add: pk_empty_def)
  show "\<forall>b\<in>set (pack J contacts convs). within_limits J b" using f(1) by (simp add: packing_def pack_def)
  show "concat (map hb_Contacts (pack J contacts convs)) = contacts"
    using f(2) p(2) e by (simp add: pack_def packed_contacts_def)
  show "concat (map (chat_messages j) (pack J contacts convs)) = concat (map ci_messages (filter (\<lambda>c. cv_ChatJID (ci_meta c) = j) convs))"
    using f(3)[of j] p(4) e by (simp add: pack_def packed_messages_def chat_messages_def)
  have "(\<exists>b\<in>set (pack J contacts convs). has_chat j b) \<longleftrightarrow> j \<in> packed_chats (flush J ?p)"
    using e by (simp add: pack_def packed_chats_def has_chat_def)
  then show "(\<exists>b\<in>set (pack J contacts convs). has_chat j b) \<longleftrightarrow> j \<in> (cv_ChatJID \<circ> ci_meta) ` set convs"
    using f(4) p(3) by simp
qed

lemma convert_metas: "c \<in> set (fst (convert_conversations J b vs)) \<Longrightarrow> cv_Messages (ci_meta c) = []"
  by (induction vs) (auto simp: Let_def split: prod.splits option.splits)

lemma fit_timestamp: "hm_Timestamp (snd (fitMessage len limit m)) = hm_Timestamp m"
proof -
  have "without_text (snd (fitMessage len limit m)) = without_text m"
    using fold_fit_spec[of m len limit] by (simp add: fitMessage_def Let_def shortened_from_def del: fold.simps)
  from arg_cong[OF this, of hm_Timestamp] show ?thesis by (simp add: without_text_def)
qed

lemma convert_loop_ts: "o' \<in> set (fst (convert_loop conv1 order_of i hs)) \<Longrightarrow> om_ts o' = hm_Timestamp (om_msg o')"
proof (induction hs arbitrary: i)
  case (Cons h hs)
  from Cons.prems Cons.IH[of "Suc i"] show ?case by (auto simp: order_parts_def split: prod.splits option.splits)
qed simp

lemma convertMessages_sorted: "sorted (map hm_Timestamp (fst (convertMessages J conv1 order_of limit hs)))"
proof -
  let ?out = "sort_key (\<lambda>o'. (om_ts o', om_order o', om_index o')) (fst (convert_loop conv1 order_of 0 hs))"
  have "sorted (map (\<lambda>o'. (om_ts o', om_order o', om_index o')) ?out)" by simp
  then have "sorted (map om_ts ?out)"
    by (auto simp: sorted_wrt_map less_eq_prod_def elim!: sorted_wrt_mono_rel[rotated])
  moreover have "map om_ts ?out = map (\<lambda>o'. hm_Timestamp (om_msg o')) ?out"
    using convert_loop_ts[of _ conv1 order_of 0 hs] by (intro map_cong) auto
  ultimately have "sorted (map (\<lambda>o'. hm_Timestamp (om_msg o')) ?out)" by simp
  then have "sorted (map (\<lambda>o'. hm_Timestamp (om_msg o')) (filter P ?out))" for P by (rule sorted_filter)
  then show ?thesis
    by (simp add: convertMessages_def Let_def filter_map comp_def fit_timestamp case_prod_unfold)
qed

lemma number_batch_keeps [simp]:
  "within_limits J (snd (number_batch U inp b n (i, p))) = within_limits J p"
  "hb_Contacts (snd (number_batch U inp b n (i, p))) = hb_Contacts p"
  "hb_Conversations (snd (number_batch U inp b n (i, p))) = hb_Conversations p"
  "chat_messages j (snd (number_batch U inp b n (i, p))) = chat_messages j p"
  "batch_messages (snd (number_batch U inp b n (i, p))) = batch_messages p"
  by (simp_all add: number_batch_def within_limits_def batch_messages_def batch_cost_def batch_items_def chat_messages_def)

lemma map_numbered:
  assumes "\<And>i p. f (snd (number_batch U inp b n (i, p))) = f p"
  shows "map (f \<circ> snd \<circ> number_batch U inp b n) (enumerate k ps) = map f ps"
  using assms by (intro nth_equalityI) (simp_all add: nth_enumerate_eq)

lemma convert_items:
  "c \<in> set (fst (convert_conversations J b vs)) \<Longrightarrow> sorted (map hm_Timestamp (ci_messages c))"
proof (induction vs)
  case (Cons v vs)
  note sorted = convertMessages_sorted[of J "bl_Convert b v" "bl_Order b" _ "bl_Messages b v"]
  show ?case
  proof (cases "bl_Meta b v")
    case None
    with Cons show ?thesis by (simp split: prod.splits)
  next
    case (Some meta)
    with Cons.prems have "c \<in> set (fst (convert_conversations J b vs)) \<or>
        ci_messages c = fst (convertMessages J (bl_Convert b v) (bl_Order b) (message_limit J (meta\<lparr>cv_Messages := []\<rparr>)) (bl_Messages b v))"
      by (auto simp: Let_def split: prod.splits)
    with Cons.IH sorted show ?thesis by auto
  qed
qed simp

text \<open>The batches of a conversion, and the conversations it accepted.\<close>

definition batches_of :: "convert_result \<Rightarrow> history_batch list" where
  "batches_of r = map snd (hres_Batches r)"

definition accepted_items :: "json_len \<Rightarrow> ('v, 'h) history_blob \<Rightarrow> conv_item list" where
  "accepted_items J b = fst (convert_conversations J b (bl_Conversations b))"

lemma batches_of_Convert:
  assumes "\<And>i p n. f (snd (number_batch U inp b n (i, p))) = f p"
  shows "map f (batches_of (Convert J U inp b)) = map f (pack J (bl_Contacts b) (accepted_items J b))"
  using map_numbered[of f U inp b, OF assms]
  by (simp add: batches_of_def Convert_def Let_def accepted_items_def comp_assoc split: prod.splits)

text \<open>Property C36. Converting a history notification loses and reorders nothing and respects the
  limits: the batches together carry every contact and, for each chat, exactly its converted
  messages in the order of their conversations, which are in order of time; each batch has at
  most 200 messages and stays within its byte budget unless it is a single item.\<close>

theorem Convert_bounded_complete:
  "(\<forall>p\<in>set (batches_of (Convert J U inp b)). within_limits J p) \<and>
   concat (map hb_Contacts (batches_of (Convert J U inp b))) = bl_Contacts b \<and>
   concat (map (chat_messages j) (batches_of (Convert J U inp b))) =
     concat (map ci_messages (filter (\<lambda>c. cv_ChatJID (ci_meta c) = j) (accepted_items J b))) \<and>
   (\<forall>c\<in>set (accepted_items J b). sorted (map hm_Timestamp (ci_messages c)))"
proof -
  have metas: "cv_Messages (ci_meta c) = []" if "c \<in> set (accepted_items J b)" for c
    using convert_metas that by (auto simp: accepted_items_def)
  note spec = pack_spec[of "accepted_items J b", OF metas]
  have "map (within_limits J) (batches_of (Convert J U inp b)) = map (within_limits J) (pack J (bl_Contacts b) (accepted_items J b))"
    by (rule batches_of_Convert) simp
  with spec(1) have "\<forall>p\<in>set (batches_of (Convert J U inp b)). within_limits J p" by (metis (mono_tags) imageE image_eqI list.set_map)
  then show ?thesis
    using batches_of_Convert[of hb_Contacts U inp b J] batches_of_Convert[of "chat_messages j" U inp b J] spec(2,3) convert_items
    by (auto simp: accepted_items_def)
qed

text \<open>The batches of a notification are numbered from one to their number, under event ids that
  depend only on the session, the notification and the position.\<close>

theorem Convert_numbering:
  assumes "i < length (hres_Batches (Convert J U inp b))"
  shows "case hres_Batches (Convert J U inp b) ! i of (e, p) \<Rightarrow>
    e = EventID U (hin_NotifiedAt inp) [hin_SessionID inp, hin_NotificationID inp, show_nat i] \<and> hb_Part p = int i + 1 \<and>
    hb_Parts p = int (length (hres_Batches (Convert J U inp b))) \<and> hb_RunID p = hin_RunID inp"
  using assms by (simp add: Convert_def Let_def number_batch_def nth_enumerate_eq split: prod.splits)

text \<open>Two phone numbers with one LID make the contacts depend on the iteration order of a map.\<close>

theorem buildContacts_order_dependent:
  "let x = newIdentityIndex (\<lambda>s. s) [(''1@s.whatsapp.net'', ''7@lid''), (''2@s.whatsapp.net'', ''7@lid'')] [] [] in
   map fst (pnToLID x) = [''2@s.whatsapp.net'', ''1@s.whatsapp.net''] \<and>
   buildContacts (\<lambda>s. s) x [''1@s.whatsapp.net'', ''2@s.whatsapp.net'', ''7@lid''] [] \<noteq>
   buildContacts (\<lambda>s. s) x [''2@s.whatsapp.net'', ''1@s.whatsapp.net'', ''7@lid''] []"
  by code_simp

section \<open>A conversion\<close>

definition demo_len :: json_len where
  "demo_len = \<lparr>len_contact = (\<lambda>_. 100), len_conversation = (\<lambda>_. 100), len_message = (\<lambda>m. 100 + int (length (hm_Body m))), len_batch = (\<lambda>_. 100)\<rparr>"

definition demo_history_message :: "int \<Rightarrow> history_message" where
  "demo_history_message t = \<lparr>hm_WAMessageID = ''m'', hm_ChatJID = ''c'', hm_FromMe = False, hm_Type = ''text'', hm_Body = ''hello'',
     hm_QuotedBody = [], hm_Contact = None, hm_Timestamp = t, hm_Kind = ''message'', hm_Status = [], hm_Truncated = False, hm_Rest = []\<rparr>"

definition demo_conversation :: history_conversation where
  "demo_conversation = \<lparr>cv_ChatJID = ''c'', cv_Type = ''dm'', cv_Name = [], cv_Description = [], cv_LID = [], cv_PhoneJID = [],
     cv_UnreadCount = None, cv_Archived = False, cv_Pinned = False, cv_MutedUntil = 0, cv_LastMessageAt = 0, cv_Participants = [], cv_Messages = []\<rparr>"

definition demo_blob :: "(unit, int) history_blob" where
  "demo_blob = \<lparr>bl_SyncType = ''recent'', bl_ChunkOrder = 1, bl_Progress = Some 100, bl_StatusMessages = 0,
     bl_Contacts = [\<lparr>hc_LID = ''7@lid'', hc_PhoneJID = [], hc_PushName = []\<rparr>], bl_Conversations = [()], bl_Meta = (\<lambda>_. Some demo_conversation),
     bl_Messages = (\<lambda>_. [5, 3, -1]), bl_Convert = (\<lambda>_ t. if t < 0 then None else Some [demo_history_message t]), bl_Order = (\<lambda>_. 0)\<rparr>"

definition demo_input :: convert_input where
  "demo_input = \<lparr>hin_SessionID = ''s'', hin_NotificationID = ''n'', hin_NotifiedAt = 0, hin_RunID = ''r'', hin_AccountJID = ''a''\<rparr>"

theorem fitMessage_correct_witness:
  "fitMessage (len_message demo_len) 200 (demo_history_message 1) = (True, demo_history_message 1) \<and>
   shortened_from (demo_history_message 1) (snd (fitMessage (len_message demo_len) 102 (demo_history_message 1)))"
proof -
  have "len_message demo_len (demo_history_message 1) \<le> 200" by code_simp
  with fitMessage_correct[of "len_message demo_len" 200 "demo_history_message 1"]
    fitMessage_correct[of "len_message demo_len" 102 "demo_history_message 1"]
  show ?thesis by (auto split: prod.splits)
qed

theorem Convert_bounded_complete_witness:
  "length (batches_of (Convert demo_len (\<lambda>t s. s) demo_input demo_blob)) = 1 \<and>
   within_limits demo_len (batches_of (Convert demo_len (\<lambda>t s. s) demo_input demo_blob) ! 0) \<and>
   map hm_Timestamp (concat (map (chat_messages ''c'') (batches_of (Convert demo_len (\<lambda>t s. s) demo_input demo_blob)))) = [3, 5]"
proof -
  let ?r = "Convert demo_len (\<lambda>t s. s) demo_input demo_blob"
  have l: "length (batches_of ?r) = 1" by code_simp
  have "map hm_Timestamp (concat (map ci_messages (filter (\<lambda>c. cv_ChatJID (ci_meta c) = ''c'') (accepted_items demo_len demo_blob)))) = [3, 5]"
    by code_simp
  with l Convert_bounded_complete[of demo_len "\<lambda>t s. s" demo_input demo_blob "''c''"] show ?thesis by (simp add: all_set_conv_all_nth)
qed

end
