(* ===== verification/HistoryWorker.thy ===== *)
theory HistoryWorker
  imports HistoryInbox HistoryPack
begin

text \<open>
  The history worker of the gateway (src/backend/internal/gateway/historysync/worker.go): it
  stores history notifications before they are acknowledged to the phone, and drains the inbox
  one notification per session at a time, publishing the batches of the conversion and the
  events of the import run. The WhatsApp client, the sink and the clock are parameters;
  each call to them or to the database may fail.
\<close>

section \<open>Configuration and state\<close>

record history_config =
  hcf_Concurrency :: int
  hcf_BatchInterval :: duration
  hcf_IdleComplete :: duration
  hcf_RetryFor :: duration
  hcf_FullSync :: bool

definition second :: duration where "second = 1000000000"
definition waitForSession :: duration where "waitForSession = 30 * second"
definition maxBackoff :: duration where "maxBackoff = 600 * second"
definition emitGiveUp :: duration where "emitGiveUp = 3600 * second"

text \<open>The defaults of \<open>NewWorker\<close>.\<close>

definition normalize_history_config :: "history_config \<Rightarrow> history_config" where
  "normalize_history_config c =
     c\<lparr>hcf_Concurrency := (if hcf_Concurrency c \<le> 0 then 1 else hcf_Concurrency c),
       hcf_BatchInterval := (if hcf_BatchInterval c \<le> 0 then second div 4 else hcf_BatchInterval c),
       hcf_IdleComplete := (if hcf_IdleComplete c \<le> 0 then 600 * second else hcf_IdleComplete c),
       hcf_RetryFor := (if hcf_RetryFor c \<le> 0 then 24 * 3600 * second else hcf_RetryFor c)\<rparr>"

record sync_payload =
  sp_RunID :: string
  sp_Phase :: string
  sp_AccountJID :: string
  sp_SyncType :: string
  sp_ChunkOrder :: int
  sp_Progress :: "int option"
  sp_CutoffAt :: int
  sp_Chunks :: int
  sp_Batches :: int
  sp_Conversations :: int
  sp_Messages :: int
  sp_Skipped :: int
  sp_Error :: string

datatype history_payload = BatchPayload history_batch | SyncPayload sync_payload

record history_event =
  he_ID :: string
  he_Type :: string
  he_Session :: string
  he_Organization :: string
  he_Timestamp :: int
  he_Payload :: history_payload

datatype client_call = HistoryReceipt string | ServerErrorReceipt string | DeleteMedia string

text \<open>What the worker works on: the database, the events the sink accepted and the calls to the
  WhatsApp client that succeeded.\<close>

record worker_state =
  wk_db :: history_db
  wk_log :: "history_event list"
  wk_calls :: "client_call list"

text \<open>
  The surroundings of one call of \<open>process\<close>. \<open>hv_client\<close> is \<open>HistoryClient\<close>: \<open>None\<close> for an unknown
  session, otherwise whether the client is connected, and its account. \<open>hv_pace i\<close> says that the
  wait before batch \<open>i\<close> was cancelled, \<open>hv_pub\<close> how the publications fail (0 the start, 1 the
  progress, \<open>i + 2\<close> batch \<open>i\<close>). Faults of single statements: 0 to 2 \<open>ensureRun\<close>, 3 the pending
  check, 4 completing the run, 5 the server-error mark, 6 and 7 failing the run.
\<close>

record ('n, 'v, 'h) history_env =
  hv_client :: "(bool \<times> string) option"
  hv_owns :: bool
  hv_decode :: "string \<Rightarrow> 'n option"
  hv_download :: "'n \<Rightarrow> (go_err + ('v, 'h) history_blob)"
  hv_direct :: "'n \<Rightarrow> string"
  hv_receipt :: "go_err option"
  hv_delete :: "go_err option"
  hv_pace :: "nat \<Rightarrow> bool"
  hv_pub :: "nat \<Rightarrow> go_err option"
  hv_finish :: faults
  hv_postpone :: "go_err option"
  hv_cursor :: "nat \<Rightarrow> go_err option"
  hv_faults :: faults
  hv_now :: gotime
  hv_ms :: int
  hv_U :: ulid_maker
  hv_len :: json_len
  hv_cfg :: history_config

section \<open>Steps of a notification\<close>

fun backoff_loop :: "nat \<Rightarrow> duration \<Rightarrow> duration" where
  "backoff_loop 0 d = d"
| "backoff_loop (Suc n) d = (if d < maxBackoff then backoff_loop n (d * 2) else d)"

definition history_backoff :: "int \<Rightarrow> duration" where
  "history_backoff attempts = min (backoff_loop (nat (attempts - 1)) (5 * second)) maxBackoff"

definition postpone :: "('n, 'v, 'h) history_env \<Rightarrow> inbox_row \<Rightarrow> int \<Rightarrow> duration \<Rightarrow> string \<Rightarrow> worker_state \<Rightarrow> worker_state" where
  "postpone env row attempts delay reason s =
     s\<lparr>wk_db := fst (PostponeHistory (hv_postpone env) (hv_ms env) (hi_ID row) attempts (hv_now env + delay) reason (wk_db s))\<rparr>"

definition finish :: "('n, 'v, 'h) history_env \<Rightarrow> inbox_row \<Rightarrow> history_status \<Rightarrow> string \<Rightarrow> run_delta option \<Rightarrow> worker_state \<Rightarrow> worker_state \<times> bool" where
  "finish env row status reason delta s =
     (case FinishHistory (hv_finish env) (hv_ms env) (hi_ID row) status reason delta (wk_db s) of
        (db', q) \<Rightarrow> (s\<lparr>wk_db := db'\<rparr>, q = Inr ()))"

definition deleteMedia :: "('n, 'v, 'h) history_env \<Rightarrow> 'n \<Rightarrow> worker_state \<Rightarrow> worker_state" where
  "deleteMedia env notif s =
     (if hv_direct env notif = [] \<or> hv_delete env \<noteq> None then s
      else s\<lparr>wk_calls := wk_calls s @ [DeleteMedia (hv_direct env notif)]\<rparr>)"

definition publish :: "('n, 'v, 'h) history_env \<Rightarrow> nat \<Rightarrow> string \<Rightarrow> string \<Rightarrow> string \<Rightarrow> string \<Rightarrow> history_payload \<Rightarrow> worker_state
    \<Rightarrow> worker_state \<times> go_err option" where
  "publish env k sid org eid typ payload s =
     (case hv_pub env k of
        Some e \<Rightarrow> (s, Some e)
      | None \<Rightarrow> (s\<lparr>wk_log := wk_log s @ [\<lparr>he_ID = eid, he_Type = typ, he_Session = sid, he_Organization = org,
          he_Timestamp = UnixMilli (hv_now env), he_Payload = payload\<rparr>]\<rparr>, None))"

definition lifecycle :: "history_run \<Rightarrow> string \<Rightarrow> sync_payload" where
  "lifecycle run phase = \<lparr>sp_RunID = hr_RunID run, sp_Phase = phase, sp_AccountJID = hr_AccountJID run, sp_SyncType = hr_SyncType run,
     sp_ChunkOrder = 0, sp_Progress = (if hr_Progress run \<ge> 0 then Some (hr_Progress run) else None), sp_CutoffAt = hr_CutoffMs run,
     sp_Chunks = hr_Chunks run, sp_Batches = hr_Batches run, sp_Conversations = hr_Conversations run, sp_Messages = hr_Messages run,
     sp_Skipped = hr_Skipped run, sp_Error = (if phase = ''failed'' then hr_Error run else [])\<rparr>"

definition applyDelta :: "history_run \<Rightarrow> run_delta \<Rightarrow> history_run" where
  "applyDelta run d =
     run\<lparr>hr_Chunks := hr_Chunks run + 1, hr_Batches := hr_Batches run + int (hd_Batches d),
         hr_Conversations := hr_Conversations run + int (hd_Conversations d), hr_Messages := hr_Messages run + int (hd_Messages d),
         hr_Skipped := hr_Skipped run + int (hd_Skipped d), hr_SyncType := hd_SyncType d,
         hr_Progress := (case hd_Progress d of None \<Rightarrow> hr_Progress run | Some p \<Rightarrow> p)\<rparr>"

definition completes :: "history_config \<Rightarrow> convert_result \<Rightarrow> bool" where
  "completes cfg res \<longleftrightarrow> hres_SyncType res = (if hcf_FullSync cfg then ''full'' else ''recent'') \<and>
     (case hres_Progress res of None \<Rightarrow> False | Some p \<Rightarrow> p \<ge> 100)"

definition ensureRun :: "('n, 'v, 'h) history_env \<Rightarrow> inbox_row \<Rightarrow> worker_state \<Rightarrow> worker_state \<times> history_run result" where
  "ensureRun env row s =
     (case ActiveHistoryRun (hv_faults env 0) (hi_SessionID row) (hi_AccountJID row) (wk_db s) of
        Inl e \<Rightarrow> (s, Inl e)
      | Inr (Some run) \<Rightarrow> (s, Inr run)
      | Inr None \<Rightarrow>
          (let rid = RunID (hv_U env) (msTime (hi_notified_at row)) (hi_SessionID row) (hi_NotificationID row) in
           case CreateHistoryRun (hv_faults env 1) (new_run rid (hi_SessionID row) (hi_OrganizationID row) (hi_AccountJID row)
                  (hi_CutoffMs row) (hv_now env)) (wk_db s) of
             (db', Inl e) \<Rightarrow> (s\<lparr>wk_db := db'\<rparr>, Inl e)
           | (db', Inr _) \<Rightarrow>
               (s\<lparr>wk_db := db'\<rparr>, bindr (HistoryRunByID (hv_faults env 2) rid db') (\<lambda>r. case r of
                  None \<Rightarrow> Inl (Plain ''history run vanished after create'') | Some run \<Rightarrow> Inr run))))"

text \<open>The loop over the batches from the cursor on. It answers whether \<open>process\<close> goes on.\<close>

fun publish_loop :: "('n, 'v, 'h) history_env \<Rightarrow> inbox_row \<Rightarrow> nat \<Rightarrow> (string \<times> history_batch) list \<Rightarrow> worker_state \<Rightarrow> worker_state \<times> bool" where
  "publish_loop env row i [] s = (s, True)"
| "publish_loop env row i ((eid, payload) # bs) s =
     (if hv_pace env i then (s, False)
      else case publish env (i + 2) (hi_SessionID row) (hi_OrganizationID row) eid ''history.batch'' (BatchPayload payload) s of
        (s', Some e) \<Rightarrow> (postpone env row (hi_Attempts row) waitForSession (err_text e) s', False)
      | (s', None) \<Rightarrow>
          publish_loop env row (Suc i) bs
            (s'\<lparr>wk_db := fst (SetHistoryCursor (hv_cursor env i) (hv_ms env) (hi_ID row) (Suc i) (wk_db s'))\<rparr>))"

definition delta_of :: "history_run \<Rightarrow> convert_result \<Rightarrow> run_delta" where
  "delta_of run res = \<lparr>hd_RunID = hr_RunID run, hd_SyncType = hres_SyncType res, hd_Progress = hres_Progress res,
     hd_Batches = length (hres_Batches res), hd_Conversations = hres_Conversations res, hd_Messages = hres_Messages res,
     hd_Skipped = hres_Skipped res\<rparr>"

definition input_of :: "inbox_row \<Rightarrow> history_run \<Rightarrow> convert_input" where
  "input_of row run = \<lparr>hin_SessionID = hi_SessionID row, hin_NotificationID = hi_NotificationID row,
     hin_NotifiedAt = msTime (hi_notified_at row), hin_RunID = hr_RunID run, hin_AccountJID = hi_AccountJID row\<rparr>"

text \<open>What follows the batches: the progress event, the end of the notification, and of the run.\<close>

definition conclude :: "('n, 'v, 'h) history_env \<Rightarrow> inbox_row \<Rightarrow> 'n \<Rightarrow> history_run \<Rightarrow> convert_result \<Rightarrow> worker_state \<Rightarrow> worker_state" where
  "conclude env row notif run res s =
     (case publish env 1 (hi_SessionID row) (hi_OrganizationID row)
         (EventID (hv_U env) (msTime (hi_notified_at row)) [hi_SessionID row, hi_NotificationID row, ''progress'']) ''history.sync''
         (SyncPayload ((lifecycle (applyDelta run (delta_of run res)) ''progress'')\<lparr>sp_ChunkOrder := hres_ChunkOrder res\<rparr>)) s of
        (s1, Some e) \<Rightarrow> postpone env row (hi_Attempts row) waitForSession (err_text e) s1
      | (s1, None) \<Rightarrow>
          (case finish env row HistoryDone [] (Some (delta_of run res)) s1 of
             (s2, False) \<Rightarrow> s2
           | (s2, True) \<Rightarrow>
               (let s3 = deleteMedia env notif s2 in
                if completes (hv_cfg env) res \<and> HasPendingHistory (hv_faults env 3) (hi_SessionID row) (wk_db s3) = Inr False
                then s3\<lparr>wk_db := fst (EndHistoryRun (hv_faults env 4) (hv_ms env) (hr_RunID run) HistoryRunCompleted [] (wk_db s3))\<rparr>
                else s3)))"

definition import_blob :: "('n, 'v, 'h) history_env \<Rightarrow> inbox_row \<Rightarrow> 'n \<Rightarrow> ('v, 'h) history_blob \<Rightarrow> history_run \<Rightarrow> worker_state \<Rightarrow> worker_state" where
  "import_blob env row notif blob run s =
     (let (s1, started) =
          (if hr_Chunks run = 0 then
             publish env 0 (hr_SessionID run) (hr_OrganizationID run)
               (EventID (hv_U env) (msTime (hr_started_at run)) [hr_SessionID run, hr_RunID run, ''started'']) ''history.sync''
               (SyncPayload (lifecycle run ''started'')) s
           else (s, None)) in
      case started of
        Some e \<Rightarrow> postpone env row (hi_Attempts row) waitForSession (err_text e) s1
      | None \<Rightarrow>
          (let res = Convert (hv_len env) (hv_U env) (input_of row run) blob in
           case publish_loop env row (hi_BatchesDone row) (drop (hi_BatchesDone row) (hres_Batches res)) s1 of
             (s2, False) \<Rightarrow> s2
           | (s2, True) \<Rightarrow> conclude env row notif run res s2))"

text \<open>whatsmeow's errors are sentinels; the text of the others is searched.\<close>

definition permanentDownloadError :: "go_err \<Rightarrow> bool" where
  "permanentDownloadError e \<longleftrightarrow> err_is ''ErrInvalidMediaHMAC'' e \<or> err_is ''ErrInvalidMediaSHA256'' e \<or> err_is ''ErrNoURLPresent'' e \<or>
     contains ''decompress'' (err_text e) \<or> contains ''failed to unmarshal'' (err_text e)"

definition expired_blob :: "go_err \<Rightarrow> bool" where
  "expired_blob e \<longleftrightarrow> err_is ''ErrMediaDownloadFailedWith404'' e \<or> err_is ''ErrMediaDownloadFailedWith410'' e"

definition downloadFailed :: "('n, 'v, 'h) history_env \<Rightarrow> inbox_row \<Rightarrow> go_err \<Rightarrow> worker_state \<Rightarrow> worker_state" where
  "downloadFailed env row e s =
     (if expired_blob e then
        (let s1 = (if hi_ServerErrorSent row \<or> hv_receipt env \<noteq> None then s
                   else s\<lparr>wk_calls := wk_calls s @ [ServerErrorReceipt (hi_NotificationID row)],
                          wk_db := fst (MarkHistoryServerErrorSent (hv_faults env 5) (hv_ms env) (hi_ID row) (wk_db s))\<rparr>) in
         fst (finish env row HistoryFailed ''history blob expired on WhatsApp servers'' None s1))
      else if permanentDownloadError e then fst (finish env row HistoryFailed (err_text e) None s)
      else if hv_now env - msTime (hi_created_at row) \<ge> hcf_RetryFor (hv_cfg env) then
        (let s1 = fst (finish env row HistoryFailed (err_text e) None s) in
         case ActiveHistoryRun (hv_faults env 6) (hi_SessionID row) (hi_AccountJID row) (wk_db s1) of
           Inr (Some run) \<Rightarrow> s1\<lparr>wk_db := fst (EndHistoryRun (hv_faults env 7) (hv_ms env) (hr_RunID run) HistoryRunFailed
             (''history download kept failing: '' @ err_text e) (wk_db s1))\<rparr>
         | _ \<Rightarrow> s1)
      else postpone env row (hi_Attempts row + 1) (history_backoff (hi_Attempts row + 1)) (err_text e) s)"

definition process :: "('n, 'v, 'h) history_env \<Rightarrow> inbox_row \<Rightarrow> worker_state \<Rightarrow> worker_state" where
  "process env row s =
     (case hv_client env of
        None \<Rightarrow> fst (finish env row HistoryDiscarded ''session is no longer on this gateway'' None s)
      | Some (connected, account) \<Rightarrow>
          if account \<noteq> [] \<and> hi_AccountJID row \<noteq> [] \<and> account \<noteq> hi_AccountJID row then
            fst (finish env row HistoryDiscarded ''device is linked to another account'' None s)
          else if \<not> connected \<or> \<not> hv_owns env then
            postpone env row (hi_Attempts row) waitForSession ''waiting for the session to be connected and owned'' s
          else case hv_decode env (hi_Notification row) of
            None \<Rightarrow> fst (finish env row HistoryFailed ''stored notification is undecodable'' None s)
          | Some notif \<Rightarrow>
              (case hv_download env notif of
                 Inl e \<Rightarrow> downloadFailed env row e s
               | Inr blob \<Rightarrow>
                   if \<not> hi_ImportEnabled row then deleteMedia env notif (fst (finish env row HistoryDone [] None s))
                   else case ensureRun env row s of
                     (s1, Inl e) \<Rightarrow> postpone env row (hi_Attempts row + 1) (history_backoff (hi_Attempts row + 1)) (err_text e) s1
                   | (s1, Inr run) \<Rightarrow> import_blob env row notif blob run s1))"

section \<open>The worker\<close>

text \<open>\<open>Accept\<close>: \<open>raw\<close> is the encoded notification (or the error of encoding it, \<open>None\<close> for a nil
  notification), \<open>days\<close> the answer of \<open>cfg.Days\<close>, \<open>receipt\<close> the error of the receipt, and \<open>client\<close>
  whether there is a client to send it with.\<close>

record intercepted =
  ic_SessionID :: string
  ic_OrganizationID :: string
  ic_MessageID :: string
  ic_AccountJID :: string
  ic_NotifiedAt :: gotime
  ic_Notification :: "string result option"
  ic_HistorySyncDays :: nat

definition day :: duration where "day = 24 * 3600 * second"

definition Accept :: "faults \<Rightarrow> bool \<Rightarrow> go_err option \<Rightarrow> nat option \<Rightarrow> gotime \<Rightarrow> int \<Rightarrow> intercepted \<Rightarrow> worker_state \<Rightarrow> worker_state \<times> go_err option" where
  "Accept f client receipt days now ms n s =
     (case ic_Notification n of
        None \<Rightarrow> (s, Some (Plain ''history notification requires session, id and payload''))
      | Some enc \<Rightarrow>
          if ic_MessageID n = [] \<or> ic_SessionID n = [] then (s, Some (Plain ''history notification requires session, id and payload''))
          else case enc of
            Inl e \<Rightarrow> (s, Some (Wrapped ''encode history notification'' e))
          | Inr raw \<Rightarrow>
              (let d = (case days of Some d \<Rightarrow> d | None \<Rightarrow> ic_HistorySyncDays n);
                   notified = (if IsZero (ic_NotifiedAt n) then now else ic_NotifiedAt n);
                   cutoff = (if d > 0 then UnixMilli (now + i64 (- int d * day)) else 0) in
               case EnqueueHistory f ms \<lparr>nn_SessionID = ic_SessionID n, nn_OrganizationID = ic_OrganizationID n,
                      nn_NotificationID = ic_MessageID n, nn_AccountJID = ic_AccountJID n, nn_Notification = raw,
                      nn_NotifiedAt = notified, nn_CutoffMs = cutoff, nn_ImportEnabled = d > 0\<rparr> (wk_db s) of
                 (db', Inl e) \<Rightarrow> (s\<lparr>wk_db := db'\<rparr>, Some (Wrapped ''store history notification'' e))
               | (db', Inr _) \<Rightarrow>
                   (s\<lparr>wk_db := db', wk_calls := wk_calls s @ (if client \<and> receipt = None then [HistoryReceipt (ic_MessageID n)] else [])\<rparr>, None)))"

text \<open>\<open>drop\<close>, called by \<open>Paired\<close> with the account to keep and by \<open>Discard\<close> with none.\<close>

definition drop_history :: "faults \<Rightarrow> go_err option \<Rightarrow> int \<Rightarrow> string \<Rightarrow> string \<Rightarrow> string \<Rightarrow> worker_state \<Rightarrow> worker_state" where
  "drop_history f ft ms sid keepAccount reason s =
     s\<lparr>wk_db := fst (EndHistoryRuns ft ms sid keepAccount HistoryRunFailed reason (fst (DiscardHistory f ms sid keepAccount reason (wk_db s))))\<rparr>"

definition Paired :: "faults \<Rightarrow> go_err option \<Rightarrow> int \<Rightarrow> string \<Rightarrow> string \<Rightarrow> worker_state \<Rightarrow> worker_state" where
  "Paired f ft ms sid account = drop_history f ft ms sid account ''device relinked to another account''"

definition Discard :: "faults \<Rightarrow> go_err option \<Rightarrow> int \<Rightarrow> string \<Rightarrow> string \<Rightarrow> worker_state \<Rightarrow> worker_state" where
  "Discard f ft ms sid reason = drop_history f ft ms sid [] reason"

text \<open>The final events of ended runs. \<open>known\<close> says which sessions the gateway has, \<open>pub\<close> and \<open>mk\<close> which
  publications and marks fail.\<close>

definition emit_run :: "(string \<Rightarrow> bool) \<Rightarrow> go_err option \<Rightarrow> go_err option \<Rightarrow> gotime \<Rightarrow> ulid_maker \<Rightarrow> history_run \<Rightarrow> worker_state \<Rightarrow> worker_state" where
  "emit_run known pub mk now U run s =
     (let phase = (if hr_Status run = HistoryRunFailed then ''failed'' else ''completed'');
          event = \<lparr>he_ID = EventID U (msTime (hr_started_at run)) [hr_SessionID run, hr_RunID run, phase],
               he_Type = ''history.sync'', he_Session = hr_SessionID run, he_Organization = hr_OrganizationID run,
               he_Timestamp = UnixMilli now, he_Payload = SyncPayload (lifecycle run phase)\<rparr>;
          published = known (hr_SessionID run) \<and> pub = None;
          waits = known (hr_SessionID run) \<and> pub \<noteq> None \<and> now - msTime (hr_ended_at run) < emitGiveUp in
      if waits then s
      else s\<lparr>wk_log := wk_log s @ (if published then [event] else []),
             wk_db := fst (MarkHistoryRunEmitted mk (hr_RunID run) (wk_db s))\<rparr>)"

fun emit_loop :: "(string \<Rightarrow> bool) \<Rightarrow> (nat \<Rightarrow> go_err option) \<Rightarrow> faults \<Rightarrow> gotime \<Rightarrow> ulid_maker \<Rightarrow> nat \<Rightarrow> history_run list \<Rightarrow> worker_state \<Rightarrow> worker_state" where
  "emit_loop known pub mk now U i [] s = s"
| "emit_loop known pub mk now U i (run # runs) s =
     emit_loop known pub mk now U (Suc i) runs (emit_run known (pub i) (mk i) now U run s)"

definition emitFinals :: "go_err option \<Rightarrow> (string \<Rightarrow> bool) \<Rightarrow> (nat \<Rightarrow> go_err option) \<Rightarrow> faults \<Rightarrow> gotime \<Rightarrow> ulid_maker \<Rightarrow> worker_state \<Rightarrow> worker_state" where
  "emitFinals ft known pub mk now U s =
     (case UnemittedHistoryRuns ft (wk_db s) of Inl e \<Rightarrow> s | Inr runs \<Rightarrow> emit_loop known pub mk now U 0 runs s)"

fun complete_loop :: "faults \<Rightarrow> int \<Rightarrow> nat \<Rightarrow> history_run list \<Rightarrow> history_db \<Rightarrow> history_db" where
  "complete_loop f ms i [] db = db"
| "complete_loop f ms i (run # runs) db =
     complete_loop f ms (Suc i) runs (fst (EndHistoryRun (f i) ms (hr_RunID run) HistoryRunCompleted [] db))"

text \<open>The surroundings of one pass of the worker outside \<open>process\<close>.\<close>

record pass_env =
  ps_read :: "nat \<Rightarrow> go_err option"
  ps_known :: "string \<Rightarrow> bool"
  ps_pub :: "nat \<Rightarrow> nat \<Rightarrow> go_err option"
  ps_mark :: "nat \<Rightarrow> faults"
  ps_end :: faults
  ps_prune :: faults
  ps_now :: gotime
  ps_ms :: int
  ps_U :: ulid_maker

definition completeIdle :: "history_config \<Rightarrow> pass_env \<Rightarrow> worker_state \<Rightarrow> worker_state" where
  "completeIdle cfg ps s =
     (case IdleHistoryRuns (ps_read ps 1) (ps_now ps - hcf_IdleComplete cfg) (wk_db s) of
        Inl e \<Rightarrow> s
      | Inr runs \<Rightarrow>
          (let s1 = s\<lparr>wk_db := complete_loop (ps_end ps) (ps_ms ps) 0 runs (wk_db s)\<rparr> in
           if runs = [] then s1 else emitFinals (ps_read ps 2) (ps_known ps) (ps_pub ps 1) (ps_mark ps 1) (ps_now ps) (ps_U ps) s1))"

text \<open>The selection of \<open>tick\<close>: the first pending notification of each session, when its attempt is
  due, at most \<open>Concurrency\<close> of them; and the earliest postponed attempt.\<close>

definition earlier :: "gotime option \<Rightarrow> gotime \<Rightarrow> gotime" where
  "earlier nextDue t = (case nextDue of None \<Rightarrow> t | Some d \<Rightarrow> if t < d then t else d)"

fun select_due :: "int \<Rightarrow> gotime \<Rightarrow> inbox_row list \<Rightarrow> string list \<Rightarrow> inbox_row list \<Rightarrow> gotime option \<Rightarrow> inbox_row list \<times> gotime option" where
  "select_due conc now [] seen due nextDue = (due, nextDue)"
| "select_due conc now (row # rows) seen due nextDue =
     (if hi_SessionID row \<in> set seen then select_due conc now rows seen due nextDue
      else if msTime (hi_next_attempt_at row) > now then
        select_due conc now rows (hi_SessionID row # seen) due (Some (earlier nextDue (msTime (hi_next_attempt_at row))))
      else select_due conc now rows (hi_SessionID row # seen) (if int (length due) < conc then due @ [row] else due) nextDue)"

fun process_all :: "(inbox_row \<Rightarrow> ('n, 'v, 'h) history_env) \<Rightarrow> inbox_row list \<Rightarrow> worker_state \<Rightarrow> worker_state" where
  "process_all envs [] s = s"
| "process_all envs (row # rows) s = process_all envs rows (process (envs row) row s)"

text \<open>One pass. It answers whether notifications were processed, the earliest postponed attempt and
  the time of the last pruning.\<close>

definition tick :: "history_config \<Rightarrow> pass_env \<Rightarrow> (inbox_row \<Rightarrow> ('n, 'v, 'h) history_env) \<Rightarrow> gotime \<Rightarrow> worker_state
    \<Rightarrow> worker_state \<times> bool \<times> gotime option \<times> gotime" where
  "tick cfg ps envs lastPrune s =
     (let s1 = completeIdle cfg ps (emitFinals (ps_read ps 0) (ps_known ps) (ps_pub ps 0) (ps_mark ps 0) (ps_now ps) (ps_U ps) s);
          (s2, lp) = (if ps_now ps - lastPrune > 3600 * second
                      then (s1\<lparr>wk_db := fst (PruneHistory (ps_prune ps) (ps_now ps) (wk_db s1))\<rparr>, ps_now ps) else (s1, lastPrune)) in
      case PendingHistory (ps_read ps 3) (wk_db s2) of
        Inl e \<Rightarrow> (s2, False, Some (ps_now ps + waitForSession), lp)
      | Inr rows \<Rightarrow>
          (case select_due (hcf_Concurrency cfg) (ps_now ps) rows [] [] None of
             (due, nextDue) \<Rightarrow>
               if due = [] then (s2, False, nextDue, lp) else (process_all envs due s2, True, nextDue, lp)))"

end
