(* ===== verification/HistoryImport.thy ===== *)
theory HistoryImport
  imports HistoryWorker
begin

text \<open>
  What is proved of the history worker: the invariant that ties the inbox to the published
  events, runs of the worker as a step relation, completeness of an import, durability of
  acknowledged notifications, the order of work, the retry delay and the final events of runs.
\<close>

section \<open>Rows keep their notification\<close>

definition same_row :: "inbox_row \<Rightarrow> inbox_row \<Rightarrow> bool" where
  "same_row r r' \<longleftrightarrow> hi_ID r' = hi_ID r \<and> hi_SessionID r' = hi_SessionID r \<and> hi_NotificationID r' = hi_NotificationID r \<and>
     hi_notified_at r' = hi_notified_at r \<and> hi_ImportEnabled r' = hi_ImportEnabled r \<and> hi_AccountJID r' = hi_AccountJID r \<and>
     hi_Notification r' = hi_Notification r"

text \<open>A step on the row with the id \<open>i\<close>: no other row changes, and an ended notification stays ended.\<close>

definition row_step :: "(inbox_row \<Rightarrow> bool) \<Rightarrow> history_db \<Rightarrow> history_db \<Rightarrow> bool" where
  "row_step P db db' \<longleftrightarrow> hx_nextID db' = hx_nextID db \<and> (\<exists>g. hx_inbox db' = map g (hx_inbox db) \<and>
     (\<forall>r. same_row r (g r) \<and> (hi_Status r \<noteq> HistoryPending \<longrightarrow> hi_Status (g r) = hi_Status r) \<and> (P r \<or> g r = r)))"

abbreviation has_id :: "nat \<Rightarrow> inbox_row \<Rightarrow> bool" where
  "has_id i r \<equiv> hi_ID r = i"

lemma same_row_refl [simp]: "same_row r r"
  by (simp add: same_row_def)

lemma same_row_trans: "same_row a b \<Longrightarrow> same_row b c \<Longrightarrow> same_row a c"
  by (auto simp: same_row_def)

lemma row_step_refl [simp]: "row_step P db db"
  by (auto simp: row_step_def intro!: exI[of _ "\<lambda>r. r"])

lemma row_step_mono: "row_step P a b \<Longrightarrow> (\<And>r. P r \<Longrightarrow> Q r) \<Longrightarrow> row_step Q a b"
  unfolding row_step_def by blast

lemma row_step_comp:
  assumes "row_step P a b" "row_step P b c" "\<And>r r'. same_row r r' \<Longrightarrow> P r' \<Longrightarrow> P r"
  shows "row_step P a c"
proof -
  from assms(1,2) obtain g h where g: "hx_inbox b = map g (hx_inbox a)"
      "\<And>r. same_row r (g r) \<and> (hi_Status r \<noteq> HistoryPending \<longrightarrow> hi_Status (g r) = hi_Status r) \<and> (P r \<or> g r = r)"
    and h: "hx_inbox c = map h (hx_inbox b)"
      "\<And>r. same_row r (h r) \<and> (hi_Status r \<noteq> HistoryPending \<longrightarrow> hi_Status (h r) = hi_Status r) \<and> (P r \<or> h r = r)"
    and n: "hx_nextID c = hx_nextID a"
    unfolding row_step_def by metis
  have "same_row r (h (g r)) \<and> (hi_Status r \<noteq> HistoryPending \<longrightarrow> hi_Status (h (g r)) = hi_Status r) \<and> (P r \<or> h (g r) = r)" for r
    using g(2)[of r] h(2)[of "g r"] same_row_trans assms(3) by metis
  then show ?thesis using g(1) h(1) n unfolding row_step_def by (intro conjI exI[of _ "\<lambda>r. h (g r)"]) auto
qed

lemma row_step_trans: "row_step (has_id i) a b \<Longrightarrow> row_step (has_id i) b c \<Longrightarrow> row_step (has_id i) a c"
  by (erule (1) row_step_comp) (simp add: same_row_def)

lemma row_step_update:
  assumes "\<And>r. P r \<Longrightarrow> same_row r (g r) \<and> (hi_Status r \<noteq> HistoryPending \<longrightarrow> hi_Status (g r) = hi_Status r)"
  shows "row_step P db (update_inbox P g db)"
proof -
  have "same_row r (if P r then g r else r) \<and> (hi_Status r \<noteq> HistoryPending \<longrightarrow> hi_Status (if P r then g r else r) = hi_Status r) \<and>
    (P r \<or> (if P r then g r else r) = r)" for r using assms[of r] by simp
  then show ?thesis unfolding row_step_def update_inbox_def upd_rows_def
    by (intro conjI exI[of _ "\<lambda>r. if P r then g r else r"] allI) simp_all
qed

lemma row_step_runs [simp]: "row_step P db (update_runs Q g db)" "row_step P db (db\<lparr>hx_runs := rs\<rparr>)"
  by (auto simp: row_step_def update_runs_def intro!: exI[of _ "\<lambda>r. r"])

lemma historyExec_cases: "fst (historyExec ft stmt db) = db \<or> fst (historyExec ft stmt db) = stmt db"
  by (auto simp: historyExec_def split: option.splits)

lemma row_step_exec: "row_step P db (stmt db) \<Longrightarrow> row_step P db (fst (historyExec ft stmt db))"
  using historyExec_cases[of ft stmt db] by auto

lemma inbox_exec: "hx_inbox (stmt db) = hx_inbox db \<Longrightarrow> hx_inbox (fst (historyExec ft stmt db)) = hx_inbox db"
  using historyExec_cases[of ft stmt db] by auto

lemma row_step_ops:
  "row_step (has_id i) db (fst (PostponeHistory ft now i attempts next errText db))"
  "row_step (has_id i) db (fst (SetHistoryCursor ft now i k db))"
  "row_step (has_id i) db (fst (MarkHistoryServerErrorSent ft now i db))"
  "row_step P db (fst (EndHistoryRun ft now runID status errText db))"
  "row_step P db (fst (EndHistoryRuns ft now sid keep status errText db))"
  "row_step P db (fst (CreateHistoryRun ft run db))"
  "row_step P db (fst (MarkHistoryRunEmitted ft runID db))"
  unfolding PostponeHistory_def SetHistoryCursor_def MarkHistoryServerErrorSent_def EndHistoryRun_def EndHistoryRuns_def
    CreateHistoryRun_def MarkHistoryRunEmitted_def
  by (rule row_step_exec, auto intro!: row_step_mono[OF row_step_update] simp: same_row_def)+

lemma row_step_finish: "row_step (has_id i) db (fst (FinishHistory f now i status errText delta db))"
proof -
  have "row_step (has_id i) db (finish_row now i status errText db)"
    unfolding finish_row_def by (rule row_step_mono[OF row_step_update]) (auto simp: same_row_def)
  then have "row_step (has_id i) db (update_runs P g (finish_row now i status errText db))" for P g
    by (rule row_step_trans) simp
  with \<open>row_step (has_id i) db (finish_row now i status errText db)\<close> show ?thesis
    by (auto simp: FinishHistory_def in_tx_def split: sum.splits option.splits prod.splits)
qed

section \<open>The inbox and the events\<close>

text \<open>What a notification stands for: \<open>B\<close> is the blob its media decodes to, under the same hash every
  time it is downloaded.\<close>

type_synonym ('v, 'h) blobs = "string \<Rightarrow> string \<Rightarrow> ('v, 'h) history_blob"

definition batches_for :: "json_len \<Rightarrow> ('v, 'h) blobs \<Rightarrow> inbox_row \<Rightarrow> history_batch list" where
  "batches_for J B r = (let b = B (hi_SessionID r) (hi_NotificationID r) in pack J (bl_Contacts b) (accepted_items J b))"

definition batch_id :: "ulid_maker \<Rightarrow> inbox_row \<Rightarrow> nat \<Rightarrow> string" where
  "batch_id U r i = EventID U (msTime (hi_notified_at r)) [hi_SessionID r, hi_NotificationID r, show_nat i]"

text \<open>Batch \<open>i\<close> of the notification was accepted by the sink, with its contents.\<close>

definition has_batch :: "ulid_maker \<Rightarrow> json_len \<Rightarrow> ('v, 'h) blobs \<Rightarrow> history_event list \<Rightarrow> inbox_row \<Rightarrow> nat \<Rightarrow> bool" where
  "has_batch U J B log r i \<longleftrightarrow> (\<exists>e\<in>set log. he_ID e = batch_id U r i \<and> he_Type e = ''history.batch'' \<and> he_Session e = hi_SessionID r \<and>
     (case he_Payload e of SyncPayload p \<Rightarrow> False
      | BatchPayload p \<Rightarrow> i < length (batches_for J B r) \<and> hb_Conversations p = hb_Conversations (batches_for J B r ! i) \<and>
          hb_Contacts p = hb_Contacts (batches_for J B r ! i)))"

text \<open>What a row claims of its batches: those below the cursor, all of them when it is done.\<close>

definition row_published :: "ulid_maker \<Rightarrow> json_len \<Rightarrow> ('v, 'h) blobs \<Rightarrow> history_event list \<Rightarrow> inbox_row \<Rightarrow> bool" where
  "row_published U J B log r \<longleftrightarrow> (\<forall>i<hi_BatchesDone r. has_batch U J B log r i) \<and>
     (hi_Status r = HistoryDone \<and> hi_ImportEnabled r \<longrightarrow> (\<forall>i<length (batches_for J B r). has_batch U J B log r i))"

definition history_inv :: "ulid_maker \<Rightarrow> json_len \<Rightarrow> ('v, 'h) blobs \<Rightarrow> history_event list \<Rightarrow> history_db \<Rightarrow> bool" where
  "history_inv U J B log db \<longleftrightarrow> distinct (map hi_ID (hx_inbox db)) \<and> (\<forall>r\<in>set (hx_inbox db). hi_ID r < hx_nextID db \<and> row_published U J B log r)"

lemma has_batch_mono: "has_batch U J B log r i \<Longrightarrow> set log \<subseteq> set log' \<Longrightarrow> has_batch U J B log' r i"
  by (auto simp: has_batch_def)

lemma history_inv_mono: "history_inv U J B log db \<Longrightarrow> set log \<subseteq> set log' \<Longrightarrow> history_inv U J B log' db"
  unfolding history_inv_def row_published_def by (blast intro: has_batch_mono)

lemma same_row_batches:
  "same_row r r' \<Longrightarrow> batches_for J B r' = batches_for J B r" "same_row r r' \<Longrightarrow> has_batch U J B log r' i = has_batch U J B log r i"
proof -
  show b: "batches_for J B r' = batches_for J B r" if "same_row r r'" using that by (simp add: same_row_def batches_for_def)
  show "has_batch U J B log r' i = has_batch U J B log r i" if "same_row r r'"
    using that unfolding has_batch_def b[OF that] by (simp add: same_row_def batch_id_def)
qed

text \<open>A statement keeps the invariant when what it writes to a row is true of the row.\<close>

lemma history_inv_step:
  assumes "history_inv U J B log db" "row_step P db db'"
    and "\<And>r r'. r \<in> set (hx_inbox db) \<Longrightarrow> r' \<in> set (hx_inbox db') \<Longrightarrow> P r \<Longrightarrow> same_row r r' \<Longrightarrow> row_published U J B log r \<Longrightarrow> row_published U J B log r'"
  shows "history_inv U J B log db'"
proof -
  from assms(2) obtain g where g: "hx_inbox db' = map g (hx_inbox db)" "hx_nextID db' = hx_nextID db"
    "\<And>r. same_row r (g r)" "\<And>r. P r \<or> g r = r"
    unfolding row_step_def by blast
  have "map hi_ID (hx_inbox db') = map hi_ID (hx_inbox db)" using g(3) by (simp add: g(1) same_row_def)
  moreover have "hi_ID r' < hx_nextID db' \<and> row_published U J B log r'" if r': "r' \<in> set (hx_inbox db')" for r'
  proof -
    from r' g(1) obtain r where r: "r \<in> set (hx_inbox db)" "r' = g r" by auto
    then have "hi_ID r < hx_nextID db" "row_published U J B log r" using assms(1) by (auto simp: history_inv_def)
    moreover have "hi_ID r' = hi_ID r" using g(3)[of r] r(2) by (simp add: same_row_def)
    ultimately show ?thesis using g(2) g(3)[of r] g(4)[of r] r assms(3)[OF r(1) r'] by auto
  qed
  ultimately show ?thesis using assms(1) by (simp add: history_inv_def)
qed

lemma row_published_keeps:
  "row_published U J B log r \<Longrightarrow> same_row r r' \<Longrightarrow> hi_BatchesDone r' = hi_BatchesDone r \<Longrightarrow>
   (hi_Status r' = HistoryDone \<Longrightarrow> hi_Status r = HistoryDone) \<Longrightarrow> row_published U J B log r'"
  by (auto simp: row_published_def same_row_batches) (auto simp: same_row_def)

section \<open>What a pass does to the invariant\<close>

text \<open>A step of the worker on the notification with the id \<open>i\<close>: its rows evolve, events are only
  added, and the invariant is kept.\<close>

definition work_step :: "ulid_maker \<Rightarrow> json_len \<Rightarrow> ('v, 'h) blobs \<Rightarrow> nat \<Rightarrow> worker_state \<Rightarrow> worker_state \<Rightarrow> bool" where
  "work_step U J B i s s' \<longleftrightarrow> row_step (has_id i) (wk_db s) (wk_db s') \<and> set (wk_log s) \<subseteq> set (wk_log s') \<and>
     (history_inv U J B (wk_log s) (wk_db s) \<longrightarrow> history_inv U J B (wk_log s') (wk_db s'))"

lemma work_step_refl [simp]: "work_step U J B i s s"
  by (simp add: work_step_def)

lemma work_step_trans: "work_step U J B i a b \<Longrightarrow> work_step U J B i b c \<Longrightarrow> work_step U J B i a c"
  unfolding work_step_def by (blast intro: row_step_trans)

lemma work_step_log: "wk_db s' = wk_db s \<Longrightarrow> set (wk_log s) \<subseteq> set (wk_log s') \<Longrightarrow> work_step U J B i s s'"
  unfolding work_step_def by (auto intro: history_inv_mono)

lemma work_step_db:
  assumes "row_step (has_id i) (wk_db s) db'"
    and "history_inv U J B (wk_log s) (wk_db s) \<Longrightarrow> history_inv U J B (wk_log s) db'"
  shows "work_step U J B i s (s\<lparr>wk_db := db'\<rparr>)"
  using assms by (simp add: work_step_def)

text \<open>An update keeps the invariant when what it writes to a row is true of the row.\<close>

lemma inv_update:
  assumes "history_inv U J B log db"
    and "\<And>r. r \<in> set (hx_inbox db) \<Longrightarrow> P r \<Longrightarrow> row_published U J B log r \<Longrightarrow> same_row r (g r) \<and> row_published U J B log (g r)"
  shows "history_inv U J B log (update_inbox P g db)"
proof -
  let ?h = "\<lambda>r. if P r then g r else r"
  have h: "same_row r (?h r) \<and> row_published U J B log (?h r)" if "r \<in> set (hx_inbox db)" for r
    using assms that by (auto simp: history_inv_def)
  define h where "h = ?h"
  have inbox: "hx_inbox (update_inbox P g db) = map h (hx_inbox db)" "hx_nextID (update_inbox P g db) = hx_nextID db"
    by (simp_all add: update_inbox_def upd_rows_def h_def)
  have hh: "hi_ID (h r) = hi_ID r \<and> row_published U J B log (h r)" if "r \<in> set (hx_inbox db)" for r
    using h[OF that] by (simp add: same_row_def h_def)
  then have ids: "map (hi_ID \<circ> h) (hx_inbox db) = map hi_ID (hx_inbox db)" by simp
  show ?thesis unfolding history_inv_def inbox map_map ids using assms(1) hh by (simp add: history_inv_def)
qed

lemma inv_runs [simp]:
  "history_inv U J B log (update_runs P g db) = history_inv U J B log db" "history_inv U J B log (db\<lparr>hx_runs := rs\<rparr>) = history_inv U J B log db"
  by (simp_all add: history_inv_def update_runs_def)

lemma inv_exec:
  "history_inv U J B log db \<Longrightarrow> history_inv U J B log (stmt db) \<Longrightarrow> history_inv U J B log (fst (historyExec ft stmt db))"
  using historyExec_cases[of ft stmt db] by auto

lemma inv_exec_update:
  assumes "history_inv U J B log db"
    and "\<And>r. r \<in> set (hx_inbox db) \<Longrightarrow> P r \<Longrightarrow> row_published U J B log r \<Longrightarrow> same_row r (g r) \<and> row_published U J B log (g r)"
  shows "history_inv U J B log (fst (historyExec ft (update_inbox P g) db))"
  using inv_exec[OF assms(1)] inv_update[OF assms] by blast

lemma inv_ops:
  assumes "history_inv U J B log db"
  shows "history_inv U J B log (fst (PostponeHistory ft now i attempts next errText db))"
    "history_inv U J B log (fst (MarkHistoryServerErrorSent ft now i db))"
    "history_inv U J B log (fst (EndHistoryRun ft now runID status errText' db))"
    "history_inv U J B log (fst (EndHistoryRuns ft now sid keep status errText' db))"
    "history_inv U J B log (fst (CreateHistoryRun ft run db))"
    "history_inv U J B log (fst (MarkHistoryRunEmitted ft runID db))"
proof -
  have quiet: "same_row r r' \<and> row_published U J B log r'"
    if "row_published U J B log r" "same_row r r'" "hi_BatchesDone r' = hi_BatchesDone r" "hi_Status r' = hi_Status r" for r r'
    using row_published_keeps[OF that(1,2,3)] that by simp
  show "history_inv U J B log (fst (PostponeHistory ft now i attempts next errText db))"
    "history_inv U J B log (fst (MarkHistoryServerErrorSent ft now i db))"
    unfolding PostponeHistory_def MarkHistoryServerErrorSent_def
    by (rule inv_exec_update[OF assms quiet]; simp add: same_row_def)+
  show "history_inv U J B log (fst (EndHistoryRun ft now runID status errText' db))"
    "history_inv U J B log (fst (EndHistoryRuns ft now sid keep status errText' db))"
    "history_inv U J B log (fst (CreateHistoryRun ft run db))"
    "history_inv U J B log (fst (MarkHistoryRunEmitted ft runID db))"
    unfolding EndHistoryRun_def EndHistoryRuns_def CreateHistoryRun_def MarkHistoryRunEmitted_def
    by (rule inv_exec[OF assms]; simp add: assms)+
qed

lemma inv_cursor:
  assumes "history_inv U J B log db" "\<And>r k. r \<in> set (hx_inbox db) \<Longrightarrow> hi_ID r = i \<Longrightarrow> k < n \<Longrightarrow> has_batch U J B log r k"
  shows "history_inv U J B log (fst (SetHistoryCursor ft now i n db))"
  unfolding SetHistoryCursor_def
proof (rule inv_exec_update[OF assms(1)])
  fix r
  assume r: "r \<in> set (hx_inbox db)" "hi_ID r = i" "row_published U J B log r"
  let ?r = "r\<lparr>hi_BatchesDone := n, hi_updated_at := now\<rparr>"
  have "same_row r ?r" by (simp add: same_row_def)
  with r assms(2)[OF r(1,2)] show "same_row r ?r \<and> row_published U J B log ?r"
    unfolding row_published_def same_row_batches[OF \<open>same_row r ?r\<close>] by simp
qed

lemma inv_finish:
  assumes "history_inv U J B log db"
    and "\<And>r k. r \<in> set (hx_inbox db) \<Longrightarrow> hi_ID r = i \<Longrightarrow> status = HistoryDone \<Longrightarrow> hi_ImportEnabled r \<Longrightarrow> k < length (batches_for J B r) \<Longrightarrow>
      has_batch U J B log r k"
  shows "history_inv U J B log (fst (FinishHistory f now i status errText delta db))"
proof -
  have "history_inv U J B log (finish_row now i status errText db)"
    unfolding finish_row_def
  proof (rule inv_update[OF assms(1)])
    fix r
    assume r: "r \<in> set (hx_inbox db)" "hi_ID r = i \<and> hi_Status r = HistoryPending" "row_published U J B log r"
    let ?r = "r\<lparr>hi_Status := status, hi_Error := errText, hi_updated_at := now\<rparr>"
    have "same_row r ?r" by (simp add: same_row_def)
    with r assms(2)[OF r(1)] show "same_row r ?r \<and> row_published U J B log ?r"
      unfolding row_published_def same_row_batches[OF \<open>same_row r ?r\<close>] by simp
  qed
  with assms(1) show ?thesis
    by (auto simp: FinishHistory_def in_tx_def split: sum.splits option.splits prod.splits)
qed

lemma postpone_step: "work_step U J B (hi_ID row) s (postpone env row attempts delay reason s)"
  unfolding postpone_def by (rule work_step_db[OF row_step_ops(1) inv_ops(1)])

lemma finish_step:
  assumes "\<And>r k. r \<in> set (hx_inbox (wk_db s)) \<Longrightarrow> hi_ID r = hi_ID row \<Longrightarrow> status = HistoryDone \<Longrightarrow> hi_ImportEnabled r \<Longrightarrow>
      k < length (batches_for J B r) \<Longrightarrow> has_batch U J B (wk_log s) r k"
  shows "work_step U J B (hi_ID row) s (fst (finish env row status reason delta s))"
proof -
  let ?db = "fst (FinishHistory (hv_finish env) (hv_ms env) (hi_ID row) status reason delta (wk_db s))"
  have "work_step U J B (hi_ID row) s (s\<lparr>wk_db := ?db\<rparr>)"
    using row_step_finish inv_finish[OF _ assms] by (rule work_step_db)
  then show ?thesis by (simp add: finish_def case_prod_unfold)
qed

lemma calls_step [simp]: "work_step U J B i s (deleteMedia env notif s)"
  by (simp add: deleteMedia_def work_step_log)

lemma publish_step: "publish env k sid org eid typ payload s = (s', q) \<Longrightarrow> work_step U J B i s s' \<and> wk_db s' = wk_db s"
  by (auto simp: publish_def intro!: work_step_log split: option.splits)

lemma end_run_step: "work_step U J B i s (s\<lparr>wk_db := fst (EndHistoryRun ft now runID status errText (wk_db s))\<rparr>)"
  by (rule work_step_db[OF row_step_ops(4) inv_ops(3)])

lemma ensureRun_step:
  assumes "ensureRun env row s = (s', q)"
  shows "work_step U J B i s s' \<and> hx_inbox (wk_db s') = hx_inbox (wk_db s) \<and> wk_log s' = wk_log s"
proof -
  have c: "work_step U J B i s (s\<lparr>wk_db := fst (CreateHistoryRun ft run (wk_db s))\<rparr>)" for ft run
    by (rule work_step_db[OF row_step_ops(6) inv_ops(5)])
  have d: "hx_inbox (fst (CreateHistoryRun ft run (wk_db s))) = hx_inbox (wk_db s)" for ft run
    unfolding CreateHistoryRun_def by (rule inbox_exec) simp
  have "s' = s \<or> (\<exists>ft run. s' = s\<lparr>wk_db := fst (CreateHistoryRun ft run (wk_db s))\<rparr>)"
    using assms by (auto simp: ensureRun_def Let_def split: sum.splits option.splits prod.splits) (metis fst_conv)+
  with c d show ?thesis by auto
qed

lemma downloadFailed_step: "work_step U J B (hi_ID row) s (downloadFailed env row e s)"
proof -
  have mark: "work_step U J B (hi_ID row) s (s\<lparr>wk_calls := cs, wk_db := fst (MarkHistoryServerErrorSent ft now (hi_ID row) (wk_db s))\<rparr>)" for cs ft now
  proof -
    have "work_step U J B (hi_ID row) s (s\<lparr>wk_db := fst (MarkHistoryServerErrorSent ft now (hi_ID row) (wk_db s))\<rparr>)"
      by (rule work_step_db[OF row_step_ops(3) inv_ops(2)])
    then show ?thesis by (simp add: work_step_def)
  qed
  have fail: "work_step U J B (hi_ID row) s' (fst (finish env row HistoryFailed reason None s'))" for s' reason
    by (rule finish_step) simp
  show ?thesis
    unfolding downloadFailed_def Let_def
    by (auto simp: postpone_step fail intro: work_step_trans[OF mark fail] work_step_trans[OF fail end_run_step]
        split: sum.splits option.splits)
qed

text \<open>Rows of the notification under work are the row that was read, up to its progress.\<close>

definition tracks :: "inbox_row \<Rightarrow> worker_state \<Rightarrow> bool" where
  "tracks row s \<longleftrightarrow> (\<forall>r\<in>set (hx_inbox (wk_db s)). hi_ID r = hi_ID row \<longrightarrow> same_row row r)"

lemma tracks_step: "tracks row s \<Longrightarrow> work_step U J B i s s' \<Longrightarrow> tracks row s'"
  unfolding tracks_def work_step_def row_step_def
  by (auto simp: same_row_def)

lemma converted_batches:
  assumes "b = B (hi_SessionID row) (hi_NotificationID row)"
  shows "length (hres_Batches (Convert J U (input_of row run) b)) = length (batches_for J B row)"
    "i < length (batches_for J B row) \<Longrightarrow> hres_Batches (Convert J U (input_of row run) b) ! i = (e, p) \<Longrightarrow>
      e = batch_id U row i \<and> hb_Conversations p = hb_Conversations (batches_for J B row ! i) \<and> hb_Contacts p = hb_Contacts (batches_for J B row ! i)"
  using assms by (auto simp: Convert_def Let_def batches_for_def accepted_items_def number_batch_def nth_enumerate_eq batch_id_def input_of_def
      split: prod.splits)

lemma tracks_batches: "tracks row s \<Longrightarrow> r \<in> set (hx_inbox (wk_db s)) \<Longrightarrow> hi_ID r = hi_ID row \<Longrightarrow>
    batches_for J B r = batches_for J B row \<and> has_batch U J B log r k = has_batch U J B log row k \<and> hi_ImportEnabled r = hi_ImportEnabled row"
  using same_row_batches(1)[of row r J B] same_row_batches(2)[of row r U J B log k] by (auto simp: tracks_def same_row_def)

lemma publish_loop_step:
  assumes "publish_loop env row i bs s = (s', continue)" "tracks row s" "\<And>k. k < i \<Longrightarrow> has_batch U J B (wk_log s) row k"
    and "hres_Batches (Convert J U (input_of row run) b) = X" "b = B (hi_SessionID row) (hi_NotificationID row)" "bs = drop i X"
  shows "work_step U J B (hi_ID row) s s' \<and> (continue \<longrightarrow> (\<forall>k<length (batches_for J B row). has_batch U J B (wk_log s') row k))"
  using assms(1-3,6)
proof (induction bs arbitrary: i s)
  case Nil
  then have "length X \<le> i" by simp
  with Nil converted_batches(1)[where B = B and b = b, OF assms(5), of J U run] assms(4) show ?case by auto
next
  case (Cons x bs)
  obtain eid p where x: "x = (eid, p)" by fastforce
  have i: "i < length X" "X ! i = (eid, p)" "bs = drop (Suc i) X"
    using Cons.prems(4) x by (metis drop_eq_Nil leI list.distinct(1), metis nth_via_drop, metis drop_Suc list.sel(3) tl_drop)
  let ?pub = "publish env (i + 2) (hi_SessionID row) (hi_OrganizationID row) eid ''history.batch'' (BatchPayload p) s"
  obtain s1 q where pub: "?pub = (s1, q)" by fastforce
  note st = publish_step[OF pub, of U J B "hi_ID row"]
  show ?case
  proof (cases "hv_pace env i \<or> q \<noteq> None")
    case True
    with Cons.prems(1) x pub st show ?thesis
      by (auto intro: work_step_trans[OF _ postpone_step] split: if_splits)
  next
    case False
    then have q: "q = None" by simp
    let ?s2 = "s1\<lparr>wk_db := fst (SetHistoryCursor (hv_cursor env i) (hv_ms env) (hi_ID row) (Suc i) (wk_db s1))\<rparr>"
    have next_: "publish_loop env row (Suc i) bs ?s2 = (s', continue)" using Cons.prems(1) x pub q False by simp
    note tr = tracks_step[OF Cons.prems(2) conjunct1[OF st]]
    have new: "has_batch U J B (wk_log s1) row i"
      using pub q converted_batches[where B = B and b = b and J = J and U = U and run = run, OF assms(5)] i(1,2) assms(4)
      by (auto simp: publish_def has_batch_def split: option.splits)
    have old: "has_batch U J B (wk_log s1) row k" if "k < i" for k
      using has_batch_mono[OF Cons.prems(3)[OF that]] st by (auto simp: work_step_def)
    have upto: "has_batch U J B (wk_log s1) row k" if "k < Suc i" for k using new old that less_Suc_eq by blast
    have c: "work_step U J B (hi_ID row) s1 ?s2"
    proof (rule work_step_db[OF row_step_ops(2) inv_cursor])
      show "has_batch U J B (wk_log s1) r k" if "r \<in> set (hx_inbox (wk_db s1))" "hi_ID r = hi_ID row" "k < Suc i" for r k
        using tracks_batches[OF tr that(1,2)] upto[OF that(3)] by blast
    qed
    have "work_step U J B (hi_ID row) ?s2 s' \<and> (continue \<longrightarrow> (\<forall>k<length (batches_for J B row). has_batch U J B (wk_log s') row k))"
      using Cons.IH[OF next_ tracks_step[OF tr c] _ i(3)] upto by simp
    with st c show ?thesis by (blast intro: work_step_trans)
  qed
qed

text \<open>The surroundings answer for the notification they are given: its media decodes to its blob.\<close>

definition faithful :: "ulid_maker \<Rightarrow> json_len \<Rightarrow> ('v, 'h) blobs \<Rightarrow> ('n, 'v, 'h) history_env \<Rightarrow> inbox_row \<Rightarrow> bool" where
  "faithful U J B env row \<longleftrightarrow> hv_U env = U \<and> hv_len env = J \<and>
     (\<forall>n b. hv_decode env (hi_Notification row) = Some n \<longrightarrow> hv_download env n = Inr b \<longrightarrow> b = B (hi_SessionID row) (hi_NotificationID row))"

lemma conclude_step:
  assumes "tracks row s" "\<And>k. k < length (batches_for J B row) \<Longrightarrow> has_batch U J B (wk_log s) row k"
  shows "work_step U J B (hi_ID row) s (conclude env row notif run res s)"
proof -
  let ?pub = "publish env 1 (hi_SessionID row) (hi_OrganizationID row)
         (EventID (hv_U env) (msTime (hi_notified_at row)) [hi_SessionID row, hi_NotificationID row, ''progress'']) ''history.sync''
         (SyncPayload ((lifecycle (applyDelta run (delta_of run res)) ''progress'')\<lparr>sp_ChunkOrder := hres_ChunkOrder res\<rparr>)) s"
  obtain s1 q where pub: "?pub = (s1, q)" by fastforce
  note st = publish_step[OF pub, of U J B "hi_ID row"]
  note tr = tracks_step[OF assms(1) conjunct1[OF st]]
  have all: "has_batch U J B (wk_log s1) row k" if "k < length (batches_for J B row)" for k
    using has_batch_mono[OF assms(2)[OF that]] st by (auto simp: work_step_def)
  have fin: "work_step U J B (hi_ID row) s1 (fst (finish env row HistoryDone [] (Some (delta_of run res)) s1))"
    by (rule finish_step) (use tracks_batches[OF tr] all in metis)
  show ?thesis
  proof (cases q)
    case (Some e)
    with pub st show ?thesis by (auto simp: conclude_def intro: work_step_trans[OF _ postpone_step])
  next
    case None
    obtain s2 ok where f: "finish env row HistoryDone [] (Some (delta_of run res)) s1 = (s2, ok)" by fastforce
    have s2: "work_step U J B (hi_ID row) s s2" using work_step_trans[OF conjunct1[OF st] fin] f by simp
    then have s3: "work_step U J B (hi_ID row) s (deleteMedia env notif s2)" by (rule work_step_trans) simp
    show ?thesis
      using None pub f s2 s3 work_step_trans[OF s3 end_run_step]
      by (cases ok) (auto simp: conclude_def Let_def)
  qed
qed

lemma import_step:
  assumes "tracks row s" "\<And>k. k < hi_BatchesDone row \<Longrightarrow> has_batch U J B (wk_log s) row k" "hv_U env = U" "hv_len env = J"
    "b = B (hi_SessionID row) (hi_NotificationID row)"
  shows "work_step U J B (hi_ID row) s (import_blob env row notif b run s)"
proof -
  let ?start = "if hr_Chunks run = 0 then
             publish env 0 (hr_SessionID run) (hr_OrganizationID run)
               (EventID (hv_U env) (msTime (hr_started_at run)) [hr_SessionID run, hr_RunID run, ''started'']) ''history.sync''
               (SyncPayload (lifecycle run ''started'')) s
           else (s, None)"
  let ?res = "Convert J U (input_of row run) b"
  obtain s1 q where start: "?start = (s1, q)" by fastforce
  have st: "work_step U J B (hi_ID row) s s1" using start publish_step by (fastforce split: if_splits)
  note tr = tracks_step[OF assms(1) st]
  obtain s2 ok where loop: "publish_loop env row (hi_BatchesDone row) (drop (hi_BatchesDone row) (hres_Batches ?res)) s1 = (s2, ok)" by fastforce
  have old: "has_batch U J B (wk_log s1) row k" if "k < hi_BatchesDone row" for k
    using has_batch_mono[OF assms(2)[OF that]] st by (auto simp: work_step_def)
  note pl = publish_loop_step[OF loop tr old refl assms(5) refl]
  show ?thesis
  proof (cases q)
    case (Some e)
    with start st show ?thesis
      unfolding import_blob_def by (auto simp: Let_def intro: work_step_trans[OF _ postpone_step])
  next
    case None
    have "import_blob env row notif b run s = (if ok then conclude env row notif run ?res s2 else s2)"
      using start None loop assms(3,4) by (auto simp: import_blob_def Let_def)
    moreover have "work_step U J B (hi_ID row) s s2" using pl st by (blast intro: work_step_trans)
    moreover have "work_step U J B (hi_ID row) s2 (conclude env row notif run ?res s2)" if ok
      by (rule conclude_step) (use pl that tracks_step[OF tr] in auto)
    ultimately show ?thesis by (auto intro: work_step_trans)
  qed
qed

lemma process_step:
  assumes "tracks row s" "\<And>k. k < hi_BatchesDone row \<Longrightarrow> has_batch U J B (wk_log s) row k" "faithful U J B env row"
  shows "work_step U J B (hi_ID row) s (process env row s)"
proof -
  have fin: "work_step U J B (hi_ID row) s' (fst (finish env row status reason delta s'))" if "status \<noteq> HistoryDone" for s' status reason delta
    by (rule finish_step) (use that in simp)
  have off: "work_step U J B (hi_ID row) s (fst (finish env row HistoryDone reason delta s))" if "\<not> hi_ImportEnabled row" for reason delta
    by (rule finish_step) (use tracks_batches[OF assms(1)] that in metis)
  have imp: "work_step U J B (hi_ID row) s (import_blob env row notif b run s1)"
    if "ensureRun env row s = (s1, Inr run)" "b = B (hi_SessionID row) (hi_NotificationID row)" for s1 run notif b
  proof -
    note er = ensureRun_step[OF that(1), of U J B "hi_ID row"]
    have "tracks row s1" using tracks_step[OF assms(1)] er by blast
    then have "work_step U J B (hi_ID row) s1 (import_blob env row notif b run s1)"
      using er assms(2,3) that(2) by (intro import_step) (auto simp: faithful_def)
    with er show ?thesis by (blast intro: work_step_trans)
  qed
  have ens: "work_step U J B (hi_ID row) s (postpone env row a d t s1)" if "ensureRun env row s = (s1, Inl e)" for s1 e a d t
    using ensureRun_step[OF that, of U J B "hi_ID row"] by (blast intro: work_step_trans postpone_step)
  have dl: "b = B (hi_SessionID row) (hi_NotificationID row)" if "hv_decode env (hi_Notification row) = Some n" "hv_download env n = Inr b" for n b
    using assms(3) that by (simp add: faithful_def)
  show ?thesis
    using imp ens dl
    by (auto simp: process_def fin postpone_step downloadFailed_step work_step_trans[OF off calls_step]
        split: option.splits prod.splits sum.splits)
qed

section \<open>Runs of the worker\<close>

text \<open>What any operation does to the inbox: the invariant is kept, no event is taken back, and a pending
  notification stays in the inbox.\<close>

definition history_move :: "ulid_maker \<Rightarrow> json_len \<Rightarrow> ('v, 'h) blobs \<Rightarrow> worker_state \<Rightarrow> worker_state \<Rightarrow> bool" where
  "history_move U J B s s' \<longleftrightarrow> history_inv U J B (wk_log s') (wk_db s') \<and> set (wk_log s) \<subseteq> set (wk_log s') \<and>
     (\<forall>r\<in>set (hx_inbox (wk_db s)). hi_Status r = HistoryPending \<longrightarrow> (\<exists>r'\<in>set (hx_inbox (wk_db s')). same_row r r'))"

lemma move_of_step:
  assumes "row_step P (wk_db s) (wk_db s')" "set (wk_log s) \<subseteq> set (wk_log s')" "history_inv U J B (wk_log s') (wk_db s')"
  shows "history_move U J B s s'"
  using assms unfolding history_move_def row_step_def by auto

lemma row_step_any: "row_step P a b \<Longrightarrow> row_step (\<lambda>_. True) a b"
  by (erule row_step_mono) simp

lemma same_inbox_step: "hx_inbox db' = hx_inbox db \<Longrightarrow> hx_nextID db' = hx_nextID db \<Longrightarrow> row_step P db db'"
  by (auto simp: row_step_def intro!: exI[of _ "\<lambda>r. r"])

lemma same_inbox_inv: "hx_inbox db' = hx_inbox db \<Longrightarrow> hx_nextID db' = hx_nextID db \<Longrightarrow> history_inv U J B log db' = history_inv U J B log db"
  by (simp add: history_inv_def)

lemma row_step_others: "row_step P a b \<Longrightarrow> r \<in> set (hx_inbox a) \<Longrightarrow> \<not> P r \<Longrightarrow> r \<in> set (hx_inbox b)"
proof -
  assume "row_step P a b" and r: "r \<in> set (hx_inbox a)" "\<not> P r"
  then obtain g where "hx_inbox b = map g (hx_inbox a)" "g r = r" unfolding row_step_def by blast
  with r(1) show ?thesis by (metis image_eqI list.set_map)
qed

lemma process_all_step:
  assumes "history_inv U J B (wk_log s) (wk_db s)" "distinct (map hi_ID rows)" "set rows \<subseteq> set (hx_inbox (wk_db s))"
    "\<And>row. faithful U J B (envs row) row"
  shows "row_step (\<lambda>_. True) (wk_db s) (wk_db (process_all envs rows s)) \<and> set (wk_log s) \<subseteq> set (wk_log (process_all envs rows s)) \<and>
    history_inv U J B (wk_log (process_all envs rows s)) (wk_db (process_all envs rows s))"
  using assms(1-3)
proof (induction rows arbitrary: s)
  case (Cons row rows)
  let ?s1 = "process (envs row) row s"
  have row: "row \<in> set (hx_inbox (wk_db s))" using Cons.prems(3) by simp
  have "distinct (map hi_ID (hx_inbox (wk_db s)))" using Cons.prems(1) by (simp add: history_inv_def)
  then have "inj_on hi_ID (set (hx_inbox (wk_db s)))" by (simp add: distinct_map)
  then have "r = row" if "r \<in> set (hx_inbox (wk_db s))" "hi_ID r = hi_ID row" for r using inj_onD that row by metis
  then have "tracks row s" unfolding tracks_def by (metis same_row_refl)
  moreover have "has_batch U J B (wk_log s) row k" if "k < hi_BatchesDone row" for k
    using Cons.prems(1) row that by (auto simp: history_inv_def row_published_def)
  ultimately have st: "work_step U J B (hi_ID row) s ?s1" using assms(4) by (intro process_step)
  have "r \<in> set (hx_inbox (wk_db ?s1))" if "r \<in> set rows" for r
  proof -
    have "r \<in> set (hx_inbox (wk_db s))" "hi_ID r \<noteq> hi_ID row" using Cons.prems(2,3) that by (auto simp: image_iff)
    then show ?thesis using st row_step_others by (auto simp: work_step_def)
  qed
  with st Cons.prems have rest: "row_step (\<lambda>_. True) (wk_db ?s1) (wk_db (process_all envs rows ?s1)) \<and>
    set (wk_log ?s1) \<subseteq> set (wk_log (process_all envs rows ?s1)) \<and>
    history_inv U J B (wk_log (process_all envs rows ?s1)) (wk_db (process_all envs rows ?s1))"
    by (intro Cons.IH) (auto simp: work_step_def)
  have "row_step (has_id (hi_ID row)) (wk_db s) (wk_db ?s1)" using st by (simp add: work_step_def)
  from row_step_comp[OF row_step_any[OF this] conjunct1[OF rest]]
  have "row_step (\<lambda>_. True) (wk_db s) (wk_db (process_all envs rows ?s1))" by simp
  with rest st show ?case by (auto simp: work_step_def)
qed simp

lemma emit_run_frame:
  "hx_inbox (wk_db (emit_run known pub mk now U' run s)) = hx_inbox (wk_db s)"
  "hx_nextID (wk_db (emit_run known pub mk now U' run s)) = hx_nextID (wk_db s)"
  "set (wk_log s) \<subseteq> set (wk_log (emit_run known pub mk now U' run s))"
  by (auto simp: emit_run_def Let_def MarkHistoryRunEmitted_def historyExec_def update_runs_def split: option.splits)

lemma emit_loop_frame:
  "hx_inbox (wk_db (emit_loop known pub mk now U' i runs s)) = hx_inbox (wk_db s) \<and>
   hx_nextID (wk_db (emit_loop known pub mk now U' i runs s)) = hx_nextID (wk_db s) \<and>
   set (wk_log s) \<subseteq> set (wk_log (emit_loop known pub mk now U' i runs s))"
proof (induction runs arbitrary: i s)
  case (Cons run runs)
  from Cons.IH[of "Suc i" "emit_run known (pub i) (mk i) now U' run s"] emit_run_frame[where known = known and pub = "pub i" and mk = "mk i" and now = now and U' = U' and run = run and s = s]
  show ?case by auto
qed simp

lemma complete_loop_frame: "hx_inbox (complete_loop f ms i runs db) = hx_inbox db \<and> hx_nextID (complete_loop f ms i runs db) = hx_nextID db"
proof (induction runs arbitrary: i db)
  case (Cons run runs)
  then show ?case by (simp add: EndHistoryRun_def historyExec_def update_runs_def split: option.splits)
qed simp

lemma emitFinals_frame:
  "hx_inbox (wk_db (emitFinals ft known pub mk now U' s)) = hx_inbox (wk_db s) \<and>
   hx_nextID (wk_db (emitFinals ft known pub mk now U' s)) = hx_nextID (wk_db s) \<and>
   set (wk_log s) \<subseteq> set (wk_log (emitFinals ft known pub mk now U' s))"
  using emit_loop_frame by (simp add: emitFinals_def split: sum.splits)

lemma completeIdle_frame:
  "hx_inbox (wk_db (completeIdle cfg ps s)) = hx_inbox (wk_db s) \<and> hx_nextID (wk_db (completeIdle cfg ps s)) = hx_nextID (wk_db s) \<and>
   set (wk_log s) \<subseteq> set (wk_log (completeIdle cfg ps s))"
proof (cases "IdleHistoryRuns (ps_read ps 1) (ps_now ps - hcf_IdleComplete cfg) (wk_db s)")
  case (Inr runs)
  let ?s1 = "s\<lparr>wk_db := complete_loop (ps_end ps) (ps_ms ps) 0 runs (wk_db s)\<rparr>"
  show ?thesis
    using emitFinals_frame[of "ps_read ps 2" "ps_known ps" "ps_pub ps 1" "ps_mark ps 1" "ps_now ps" "ps_U ps" ?s1]
      complete_loop_frame[of "ps_end ps" "ps_ms ps" 0 runs "wk_db s"] by (simp add: completeIdle_def Inr Let_def del: One_nat_def)
qed (simp add: completeIdle_def del: One_nat_def)

lemma prune_inbox:
  "(\<exists>c. hx_inbox (fst (PruneHistory f now db)) = filter (\<lambda>r. \<not> (hi_Status r \<noteq> HistoryPending \<and> hi_updated_at r < c)) (hx_inbox db)) \<and>
   hx_nextID (fst (PruneHistory f now db)) = hx_nextID db"
proof -
  have "filter (\<lambda>r. True) xs = xs" for xs :: "inbox_row list" by simp
  moreover have "\<exists>c. \<forall>r\<in>set xs. \<not> hi_updated_at r < c" for xs :: "inbox_row list"
  proof (induction xs)
    case (Cons x xs)
    then obtain c where "\<forall>r\<in>set xs. c \<le> hi_updated_at r" by (auto simp: not_less)
    then show ?case by (intro exI[of _ "min c (hi_updated_at x)"]) auto
  qed simp
  then have "\<exists>c. xs = filter (\<lambda>r. \<not> (hi_Status r \<noteq> HistoryPending \<and> hi_updated_at r < c)) xs" for xs :: "inbox_row list"
    by (metis (mono_tags, lifting) filter_True)
  ultimately show ?thesis by (auto simp: PruneHistory_def historyExec_def Let_def split: option.splits)
qed

lemma select_due_subset:
  "select_due conc now rows seen due nd = (due', nd') \<Longrightarrow> distinct (map hi_ID (due @ rows)) \<Longrightarrow>
   set due' \<subseteq> set due \<union> set rows \<and> distinct (map hi_ID due')"
proof (induction conc now rows seen due nd rule: select_due.induct)
  case (2 conc now row rows seen due nd)
  show ?case
  proof (cases "hi_SessionID row \<in> set seen \<or> msTime (hi_next_attempt_at row) > now")
    case True
    then show ?thesis using 2 by (auto split: if_splits)
  next
    case False
    then show ?thesis using "2.IH"(3) "2.prems" by (cases "int (length due) < conc") auto
  qed
qed simp

lemma filter_inv: "history_inv U J B log db \<Longrightarrow> hx_inbox db' = filter P (hx_inbox db) \<Longrightarrow> hx_nextID db' = hx_nextID db \<Longrightarrow> history_inv U J B log db'"
  by (auto simp: history_inv_def distinct_map_filter)

lemma tick_move:
  assumes "tick cfg ps envs lastPrune s = (s', out)" "\<And>row. faithful U J B (envs row) row" "history_inv U J B (wk_log s) (wk_db s)"
  shows "history_move U J B s s'"
proof -
  define s1 where "s1 = completeIdle cfg ps (emitFinals (ps_read ps 0) (ps_known ps) (ps_pub ps 0) (ps_mark ps 0) (ps_now ps) (ps_U ps) s)"
  have f1: "hx_inbox (wk_db s1) = hx_inbox (wk_db s) \<and> hx_nextID (wk_db s1) = hx_nextID (wk_db s) \<and> set (wk_log s) \<subseteq> set (wk_log s1)"
    using completeIdle_frame[of cfg ps] emitFinals_frame[of "ps_read ps 0" "ps_known ps" "ps_pub ps 0" "ps_mark ps 0" "ps_now ps" "ps_U ps" s]
    unfolding s1_def by (metis (no_types, lifting) order.trans)
  define s2 where "s2 = (if ps_now ps - lastPrune > 3600 * second
      then s1\<lparr>wk_db := fst (PruneHistory (ps_prune ps) (ps_now ps) (wk_db s1))\<rparr> else s1)"
  have f2: "\<exists>P. hx_inbox (wk_db s2) = filter P (hx_inbox (wk_db s1)) \<and> (\<forall>r. hi_Status r = HistoryPending \<longrightarrow> P r)"
    "hx_nextID (wk_db s2) = hx_nextID (wk_db s1)" "wk_log s2 = wk_log s1"
    using prune_inbox[of "ps_prune ps" "ps_now ps" "wk_db s1"] by (auto simp: s2_def intro: exI[of _ "\<lambda>_. True"])
  then obtain P where P: "hx_inbox (wk_db s2) = filter P (hx_inbox (wk_db s))" "\<And>r. hi_Status r = HistoryPending \<Longrightarrow> P r" using f1 by auto
  have inv2: "history_inv U J B (wk_log s2) (wk_db s2)"
    using filter_inv[OF history_inv_mono[OF assms(3)] P(1)] f1 f2 by simp
  have kept: "r \<in> set (hx_inbox (wk_db s2))" if "r \<in> set (hx_inbox (wk_db s))" "hi_Status r = HistoryPending" for r
    using that P by simp
  show ?thesis
  proof (cases "s' = s2")
    case True
    with inv2 kept f1 f2 show ?thesis by (auto simp: history_move_def intro: same_row_refl)
  next
    case False
    have st: "(if ps_now ps - lastPrune > 3600 * second
        then (s1\<lparr>wk_db := fst (PruneHistory (ps_prune ps) (ps_now ps) (wk_db s1))\<rparr>, ps_now ps) else (s1, lastPrune)) =
        (s2, if ps_now ps - lastPrune > 3600 * second then ps_now ps else lastPrune)" by (simp add: s2_def)
    from False obtain rows due nd where pend: "PendingHistory (ps_read ps 3) (wk_db s2) = Inr rows"
      and sel: "select_due (hcf_Concurrency cfg) (ps_now ps) rows [] [] None = (due, nd)" and s': "s' = process_all envs due s2"
      using assms(1) unfolding tick_def Let_def s1_def[symmetric] st
      by (auto split: sum.splits prod.splits if_splits)
    have rows: "rows = sort_key hi_ID (filter (\<lambda>r. hi_Status r = HistoryPending) (hx_inbox (wk_db s2)))"
      using pend by (auto simp: PendingHistory_def split: if_splits option.splits)
    have "distinct (map hi_ID rows)" using inv2 by (auto simp: rows history_inv_def distinct_map intro: inj_on_subset)
    with select_due_subset[OF sel] have "set due \<subseteq> set rows" "distinct (map hi_ID due)" by auto
    then have "row_step (\<lambda>_. True) (wk_db s2) (wk_db s') \<and> set (wk_log s2) \<subseteq> set (wk_log s') \<and> history_inv U J B (wk_log s') (wk_db s')"
      unfolding s' using assms(2) inv2 by (intro process_all_step) (auto simp: rows)
    with move_of_step[of "\<lambda>_. True" s2 s' U J B] kept f1 f2 show ?thesis by (auto simp: history_move_def)
  qed
qed

text \<open>The steps: a notification, a relink or logout, and a pass of the worker. A decoded notification is
  represented by its bytes.\<close>

inductive hstep :: "ulid_maker \<Rightarrow> json_len \<Rightarrow> ('v, 'h) blobs \<Rightarrow> worker_state \<Rightarrow> worker_state \<Rightarrow> bool"
  for U :: ulid_maker and J :: json_len and B :: "('v, 'h) blobs" where
  accept: "Accept f client receipt days now ms n s = (s', q) \<Longrightarrow> hstep U J B s s'"
| drop_pending: "hstep U J B s (drop_history f ft ms sid keep reason s)"
| pass: "(\<And>row. faithful U J B (envs row) row) \<Longrightarrow> tick cfg ps (envs :: inbox_row \<Rightarrow> (string, 'v, 'h) history_env) lastPrune s = (s', out) \<Longrightarrow> hstep U J B s s'"

abbreviation hsteps :: "ulid_maker \<Rightarrow> json_len \<Rightarrow> ('v, 'h) blobs \<Rightarrow> worker_state \<Rightarrow> worker_state \<Rightarrow> bool" where
  "hsteps U J B \<equiv> (hstep U J B)\<^sup>*\<^sup>*"

definition history_start :: worker_state where
  "history_start = \<lparr>wk_db = \<lparr>hx_open = True, hx_inbox = [], hx_runs = [], hx_nextID = 1\<rparr>, wk_log = [], wk_calls = []\<rparr>"

definition enqueues :: "int \<Rightarrow> history_db \<Rightarrow> history_db \<Rightarrow> bool" where
  "enqueues ms db db' \<longleftrightarrow> hx_inbox db' = hx_inbox db \<and> hx_nextID db' = hx_nextID db \<or>
     (\<exists>n. hx_inbox db' = hx_inbox db @ [new_row ms (hx_nextID db) n] \<and> hx_nextID db' = Suc (hx_nextID db))"

lemma enqueues_refl [simp]: "enqueues ms db db"
  by (simp add: enqueues_def)

lemma EnqueueHistory_cases:
  "enqueues ms db (fst (EnqueueHistory f ms n db)) \<and>
   (isl (snd (EnqueueHistory f ms n db)) \<or> known_notification (nn_SessionID n) (nn_NotificationID n) (fst (EnqueueHistory f ms n db)))"
proof (cases "hx_open db \<and> nn_SessionID n \<noteq> [] \<and> nn_NotificationID n \<noteq> [] \<and> nn_Notification n \<noteq> [] \<and> f 0 = None")
  case False
  then show ?thesis by (auto simp: EnqueueHistory_def split: option.split)
next
  case True
  let ?db = "db\<lparr>hx_inbox := hx_inbox db @ [new_row ms (hx_nextID db) n], hx_nextID := Suc (hx_nextID db)\<rparr>"
  have "enqueues ms db ?db" unfolding enqueues_def by (intro disjI2 exI[of _ n]) simp
  moreover have "known_notification (nn_SessionID n) (nn_NotificationID n) ?db" by (simp add: known_notification_def new_row_def)
  ultimately show ?thesis using True by (simp add: EnqueueHistory_def)
qed

lemma Accept_cases:
  assumes "Accept f client receipt days now ms n s = (s', q)"
  shows "enqueues ms (wk_db s) (wk_db s') \<and> wk_log s' = wk_log s \<and>
    (q = None \<longrightarrow> known_notification (ic_SessionID n) (ic_MessageID n) (wk_db s')) \<and> (wk_calls s' \<noteq> wk_calls s \<longrightarrow> q = None)"
proof -
  let ?early = "s' = s \<and> q \<noteq> None"
  have "?early \<or> (\<exists>nn. nn_SessionID nn = ic_SessionID n \<and> nn_NotificationID nn = ic_MessageID n \<and>
      wk_db s' = fst (EnqueueHistory f ms nn (wk_db s)) \<and> wk_log s' = wk_log s \<and> (q = None \<longleftrightarrow> \<not> isl (snd (EnqueueHistory f ms nn (wk_db s)))) \<and>
      (wk_calls s' \<noteq> wk_calls s \<longrightarrow> q = None))"
  proof (cases "\<exists>raw. ic_Notification n = Some (Inr raw) \<and> ic_MessageID n \<noteq> [] \<and> ic_SessionID n \<noteq> []")
    case False
    with assms have ?early by (auto simp: Accept_def split: option.splits sum.splits if_splits)
    then show ?thesis by blast
  next
    case True
    then obtain raw where raw: "ic_Notification n = Some (Inr raw)" "ic_MessageID n \<noteq> []" "ic_SessionID n \<noteq> []" by blast
    define d where "d = (case days of Some d \<Rightarrow> d | None \<Rightarrow> ic_HistorySyncDays n)"
    define nn where "nn = \<lparr>nn_SessionID = ic_SessionID n, nn_OrganizationID = ic_OrganizationID n, nn_NotificationID = ic_MessageID n,
      nn_AccountJID = ic_AccountJID n, nn_Notification = raw, nn_NotifiedAt = (if IsZero (ic_NotifiedAt n) then now else ic_NotifiedAt n),
      nn_CutoffMs = (if d > 0 then UnixMilli (now + i64 (- int d * day)) else 0), nn_ImportEnabled = d > 0\<rparr>"
    obtain db' res where e: "EnqueueHistory f ms nn (wk_db s) = (db', res)" by fastforce
    have "Accept f client receipt days now ms n s = (case (db', res) of
        (db', Inl e) \<Rightarrow> (s\<lparr>wk_db := db'\<rparr>, Some (Wrapped ''store history notification'' e))
      | (db', Inr _) \<Rightarrow> (s\<lparr>wk_db := db', wk_calls := wk_calls s @ (if client \<and> receipt = None then [HistoryReceipt (ic_MessageID n)] else [])\<rparr>, None))"
      unfolding e[symmetric] nn_def Accept_def raw(1) using raw(2,3) by (simp add: Let_def d_def[symmetric])
    with assms e show ?thesis by (intro disjI2 exI[of _ nn]) (cases res; auto simp: nn_def)
  qed
  then show ?thesis using EnqueueHistory_cases[of ms "wk_db s" f] enqueues_refl[of ms "wk_db s"] by metis
qed

lemma accept_move:
  assumes "Accept f client receipt days now ms n s = (s', q)" "history_inv U J B (wk_log s) (wk_db s)"
  shows "history_move U J B s s'"
proof -
  have new: "row_published U J B (wk_log s) (new_row ms i nn)" "hi_ID (new_row ms i nn) = i" for i nn
    by (simp_all add: row_published_def new_row_def)
  have "hx_nextID (wk_db s) \<notin> hi_ID ` set (hx_inbox (wk_db s))" using assms(2) by (auto simp: history_inv_def)
  with Accept_cases[OF assms(1)] assms(2) new have "history_inv U J B (wk_log s') (wk_db s')"
    by (auto simp: history_inv_def enqueues_def less_Suc_eq)
  with Accept_cases[OF assms(1)] show ?thesis by (auto simp: history_move_def enqueues_def intro: same_row_refl)
qed

lemma drop_move:
  assumes "history_inv U J B (wk_log s) (wk_db s)"
  shows "history_move U J B s (drop_history f ft ms sid keep reason s)"
proof -
  let ?g = "\<lambda>r. r\<lparr>hi_Status := HistoryDiscarded, hi_Error := reason, hi_updated_at := ms\<rparr>"
  let ?d = "fst (DiscardHistory f ms sid keep reason (wk_db s))"
  have d: "?d = wk_db s \<or> ?d = update_inbox (dropped sid keep) ?g (wk_db s)"
    by (auto simp: DiscardHistory_def split: option.splits)
  have "row_step (\<lambda>_. True) (wk_db s) (update_inbox (dropped sid keep) ?g (wk_db s))"
    by (rule row_step_mono[OF row_step_update]) (auto simp: same_row_def dropped_def)
  moreover have "history_inv U J B (wk_log s) (update_inbox (dropped sid keep) ?g (wk_db s))"
  proof (rule inv_update[OF assms])
    fix r
    assume "row_published U J B (wk_log s) r"
    moreover have "same_row r (?g r)" by (simp add: same_row_def)
    ultimately show "same_row r (?g r) \<and> row_published U J B (wk_log s) (?g r)" using row_published_keeps by force
  qed
  ultimately have "row_step (\<lambda>_. True) (wk_db s) ?d" "history_inv U J B (wk_log s) ?d" using d assms by auto
  then have "row_step (\<lambda>_. True) (wk_db s) (wk_db (drop_history f ft ms sid keep reason s))"
    "history_inv U J B (wk_log s) (wk_db (drop_history f ft ms sid keep reason s))"
    using row_step_comp[OF _ row_step_ops(5)] inv_ops(4) by (auto simp: drop_history_def)
  then show ?thesis by (intro move_of_step) (auto simp: drop_history_def)
qed

lemma hstep_move: "hstep U J B s s' \<Longrightarrow> history_inv U J B (wk_log s) (wk_db s) \<Longrightarrow> history_move U J B s s'"
  by (cases rule: hstep.cases) (auto intro: accept_move drop_move tick_move)

lemma hsteps_inv: "hsteps U J B s s' \<Longrightarrow> history_inv U J B (wk_log s) (wk_db s) \<Longrightarrow> history_inv U J B (wk_log s') (wk_db s')"
  by (induction rule: rtranclp_induct) (auto dest: hstep_move simp: history_move_def)

lemma history_start_inv [simp]: "history_inv U J B (wk_log history_start) (wk_db history_start)"
  by (simp add: history_inv_def history_start_def)


text \<open>Property C13. A history notification is acknowledged to the phone only once it is stored, and a
  stored notification is not lost: it stays in the inbox, with its content, at least until it
  has been ended.\<close>

theorem acknowledged_notification_kept:
  assumes "hsteps U J B history_start s" "Accept f client receipt days now ms n s = (s1, q)" "wk_calls s1 \<noteq> wk_calls s"
  shows "\<exists>r\<in>set (hx_inbox (wk_db s1)). hi_SessionID r = ic_SessionID n \<and> hi_NotificationID r = ic_MessageID n \<and>
    (\<forall>s2. hsteps U J B s1 s2 \<longrightarrow> (\<exists>r'\<in>set (hx_inbox (wk_db s2)). same_row r r') \<or>
      (\<exists>s' r'. hsteps U J B s1 s' \<and> hsteps U J B s' s2 \<and> r' \<in> set (hx_inbox (wk_db s')) \<and> same_row r r' \<and> hi_Status r' \<noteq> HistoryPending))"
proof -
  from Accept_cases[OF assms(2)] assms(3) obtain r where r: "r \<in> set (hx_inbox (wk_db s1))" "hi_SessionID r = ic_SessionID n"
    "hi_NotificationID r = ic_MessageID n" by (auto simp: known_notification_def)
  have "hsteps U J B history_start s1" using assms(1) hstep.accept[OF assms(2)] by (rule rtranclp.rtrancl_into_rtrancl)
  note inv1 = hsteps_inv[OF this history_start_inv]
  let ?in = "\<lambda>s r'. r' \<in> set (hx_inbox (wk_db s)) \<and> same_row r r'"
  have "(\<exists>r'. ?in s2 r') \<or> (\<exists>s' r'. hsteps U J B s1 s' \<and> hsteps U J B s' s2 \<and> ?in s' r' \<and> hi_Status r' \<noteq> HistoryPending)"
    if "hsteps U J B s1 s2" for s2
    using that
  proof (induction rule: rtranclp_induct)
    case base
    with r(1) show ?case by (meson same_row_refl)
  next
    case (step a b)
    from step.IH show ?case
    proof
      assume "\<exists>r'. ?in a r'"
      then obtain r' where r': "?in a r'" by blast
      show ?thesis
      proof (cases "hi_Status r' = HistoryPending")
        case True
        with hstep_move[OF step.hyps(2) hsteps_inv[OF step.hyps(1) inv1]] r' show ?thesis
          unfolding history_move_def by (meson same_row_trans)
      next
        case False
        with r' step.hyps show ?thesis by blast
      qed
    next
      assume "\<exists>s' r'. hsteps U J B s1 s' \<and> hsteps U J B s' a \<and> ?in s' r' \<and> hi_Status r' \<noteq> HistoryPending"
      with step.hyps(2) show ?thesis by (meson rtranclp.rtrancl_into_rtrancl)
    qed
  qed
  with r show ?thesis by blast
qed

section \<open>Selection\<close>

text \<open>The first notification of each session, in the order of the rows.\<close>

fun first_rows :: "string list \<Rightarrow> inbox_row list \<Rightarrow> inbox_row list" where
  "first_rows seen [] = []"
| "first_rows seen (r # rs) =
     (if hi_SessionID r \<in> set seen then first_rows seen rs else r # first_rows (hi_SessionID r # seen) rs)"

lemma first_rowsD:
  "r \<in> set (first_rows seen rows) \<Longrightarrow> sorted (map hi_ID rows) \<Longrightarrow>
   r \<in> set rows \<and> hi_SessionID r \<notin> set seen \<and> (\<forall>r'\<in>set rows. hi_SessionID r' = hi_SessionID r \<longrightarrow> hi_ID r \<le> hi_ID r')"
proof (induction seen rows rule: first_rows.induct)
  case (2 seen x rs)
  show ?case
  proof (cases "hi_SessionID x \<in> set seen")
    case True
    then have "r \<in> set (first_rows seen rs)" "sorted (map hi_ID rs)" using "2.prems" by simp_all
    from "2.IH"(1)[OF True this] True show ?thesis by auto
  next
    case False
    then have r: "r = x \<or> r \<in> set (first_rows (hi_SessionID x # seen) rs)" and srt: "sorted (map hi_ID rs)" "\<forall>y\<in>set rs. hi_ID x \<le> hi_ID y"
      using "2.prems" by auto
    from r show ?thesis
    proof
      assume "r = x"
      with False srt(2) show ?thesis by simp
    next
      assume "r \<in> set (first_rows (hi_SessionID x # seen) rs)"
      from "2.IH"(2)[OF False this srt(1)] show ?thesis by auto
    qed
  qed
qed simp

lemma first_rows_distinct: "distinct (map hi_SessionID (first_rows seen rows)) \<and> hi_SessionID ` set (first_rows seen rows) \<inter> set seen = {}"
  by (induction seen rows rule: first_rows.induct) auto

lemma first_rows_cover: "r \<in> set rows \<Longrightarrow> hi_SessionID r \<in> hi_SessionID ` set (first_rows seen rows) \<union> set seen"
  by (induction seen rows rule: first_rows.induct) auto

definition due_now :: "gotime \<Rightarrow> inbox_row \<Rightarrow> bool" where
  "due_now now r \<longleftrightarrow> msTime (hi_next_attempt_at r) \<le> now"

lemma select_due_exact:
  "fst (select_due conc now rows seen due nd) = due @ take (nat (conc - int (length due))) (filter (due_now now) (first_rows seen rows))"
proof (induction conc now rows seen due nd rule: select_due.induct)
  case (2 conc now row rows seen due nd)
  show ?case
  proof (cases "hi_SessionID row \<in> set seen \<or> msTime (hi_next_attempt_at row) > now")
    case True
    then show ?thesis using 2 by (auto simp: due_now_def)
  next
    case False
    then have f: "filter (due_now now) (first_rows seen (row # rows)) = row # filter (due_now now) (first_rows (hi_SessionID row # seen) rows)"
      by (auto simp: due_now_def)
    show ?thesis
    proof (cases "int (length due) < conc")
      case True
      then have "nat (conc - int (length due)) = Suc (nat (conc - int (length (due @ [row]))))" by simp
      with True False "2.IH"(3) f show ?thesis by simp
    next
      case small: False
      with False "2.IH"(3) f show ?thesis by simp
    qed
  qed
qed simp

text \<open>Notifications are worked on in order: a pass takes exactly the first pending
  notification of each session whose attempt is due, in order of arrival and up to the
  concurrency, so never two of one session and never one before an earlier one of its session;
  when one is due, some notification is taken.\<close>

theorem pass_takes_first_due:
  assumes "PendingHistory None db = Inr rows" "select_due (hcf_Concurrency cfg) now rows [] [] None = (due, nd)"
  shows "due = take (nat (hcf_Concurrency cfg)) (filter (due_now now) (first_rows [] rows)) \<and> distinct (map hi_SessionID due) \<and>
    (\<forall>r\<in>set due. \<forall>r'\<in>set (hx_inbox db). hi_Status r' = HistoryPending \<and> hi_SessionID r' = hi_SessionID r \<longrightarrow> hi_ID r \<le> hi_ID r') \<and>
    (0 < hcf_Concurrency cfg \<and> due = [] \<longrightarrow> (\<forall>r\<in>set (first_rows [] rows). \<not> due_now now r))"
proof -
  have rows: "rows = sort_key hi_ID (filter (\<lambda>r. hi_Status r = HistoryPending) (hx_inbox db))"
    using assms(1) by (auto simp: PendingHistory_def split: if_splits)
  have due: "due = take (nat (hcf_Concurrency cfg)) (filter (due_now now) (first_rows [] rows))"
    using select_due_exact[of "hcf_Concurrency cfg" now rows "[]" "[]" None] assms(2) by simp
  have "distinct (map hi_SessionID (filter (due_now now) (first_rows [] rows)))"
    using first_rows_distinct[of "[]" rows] by (simp add: distinct_map_filter)
  then have "distinct (map hi_SessionID due)" unfolding due take_map[symmetric] by (rule distinct_take)
  moreover have "hi_ID r \<le> hi_ID r'" if "r \<in> set due" "r' \<in> set (hx_inbox db)" "hi_Status r' = HistoryPending" "hi_SessionID r' = hi_SessionID r" for r r'
  proof -
    have "r \<in> set (first_rows [] rows)" using that(1) unfolding due by (auto dest: in_set_takeD)
    then show ?thesis using first_rowsD[of r "[]" rows] that by (auto simp: rows)
  qed
  moreover have "\<forall>r\<in>set (first_rows [] rows). \<not> due_now now r" if "0 < hcf_Concurrency cfg" "due = []"
    using that unfolding due by (auto simp: filter_empty_conv)
  ultimately show ?thesis using due by blast
qed

section \<open>Retry delay\<close>

lemma backoff_loop_value: "0 < d \<Longrightarrow> min (backoff_loop n d) maxBackoff = min (d * 2 ^ n) maxBackoff"
proof (induction n arbitrary: d)
  case (Suc n)
  show ?case
  proof (cases "d < maxBackoff")
    case True
    with Suc.IH[of "d * 2"] Suc.prems show ?thesis by (simp add: algebra_simps)
  next
    case False
    moreover have "1 \<le> (2::int) ^ Suc n" by (rule one_le_power) simp
    then have "d * 1 \<le> d * 2 ^ Suc n" using Suc.prems by (intro mult_left_mono) simp_all
    ultimately have "maxBackoff \<le> d * 2 ^ Suc n" by simp
    with False show ?thesis by (simp add: min_def)
  qed
qed simp

text \<open>The delay before a failed download is tried again doubles from five seconds up to ten minutes.\<close>

theorem history_backoff_doubles:
  "1 \<le> attempts \<Longrightarrow> history_backoff attempts = min (5 * second * 2 ^ nat (attempts - 1)) maxBackoff"
  unfolding history_backoff_def by (rule backoff_loop_value) (simp add: second_def)

section \<open>Final events\<close>

text \<open>What settles the end of a run: its final event is published, its session is gone, or publishing
  was given up an hour after the end.\<close>

definition final_settled :: "(string \<Rightarrow> bool) \<Rightarrow> gotime \<Rightarrow> history_event list \<Rightarrow> history_run \<Rightarrow> bool" where
  "final_settled known now log run \<longleftrightarrow> \<not> known (hr_SessionID run) \<or> emitGiveUp \<le> now - msTime (hr_ended_at run) \<or>
     (\<exists>e\<in>set log. he_Session e = hr_SessionID run \<and> he_Payload e = SyncPayload (lifecycle run
        (if hr_Status run = HistoryRunFailed then ''failed'' else ''completed'')))"

lemma final_settled_mono: "final_settled known now log run \<Longrightarrow> set log \<subseteq> set log' \<Longrightarrow> final_settled known now log' run"
  by (auto simp: final_settled_def)

definition emitted_before :: "history_run \<Rightarrow> worker_state \<Rightarrow> bool" where
  "emitted_before r' s \<longleftrightarrow> (\<exists>r\<in>set (hx_runs (wk_db s)). hr_RunID r = hr_RunID r' \<and> hr_FinalEmitted r)"

lemma emitted_run:
  assumes "r' \<in> set (hx_runs (wk_db (emit_run known pub mk now U run s)))" "hr_FinalEmitted r'"
  shows "emitted_before r' s \<or>
    hr_RunID r' = hr_RunID run \<and> final_settled known now (wk_log (emit_run known pub mk now U run s)) run"
  using assms
  by (auto simp: emit_run_def Let_def MarkHistoryRunEmitted_def historyExec_def update_runs_def emitted_before_def final_settled_def not_less
      elim!: in_upd_rowsE split: option.splits if_splits)

lemma emitted_loop:
  assumes "emitted_before r' (emit_loop known pub mk now U i runs s)"
  shows "emitted_before r' s \<or>
    (\<exists>run\<in>set runs. hr_RunID r' = hr_RunID run \<and> final_settled known now (wk_log (emit_loop known pub mk now U i runs s)) run)"
  using assms
proof (induction runs arbitrary: i s)
  case (Cons run runs)
  let ?s1 = "emit_run known (pub i) (mk i) now U run s"
  have log: "set (wk_log ?s1) \<subseteq> set (wk_log (emit_loop known pub mk now U (Suc i) runs ?s1))" using emit_loop_frame by blast
  show ?case
  proof (cases "emitted_before r' ?s1")
    case True
    then obtain r where r: "r \<in> set (hx_runs (wk_db ?s1))" "hr_RunID r = hr_RunID r'" "hr_FinalEmitted r" by (auto simp: emitted_before_def)
    from emitted_run[OF r(1,3)] have "emitted_before r' s \<or> hr_RunID r' = hr_RunID run \<and> final_settled known now (wk_log ?s1) run"
      by (simp add: emitted_before_def r(2))
    then show ?thesis using final_settled_mono[OF _ log] by auto
  next
    case False
    with Cons.IH[of "Suc i" ?s1] Cons.prems show ?thesis by auto
  qed
qed simp

text \<open>The end of an import run is announced: when a pass marks an ended run as emitted, it has
  published the run's completed or failed event, with the counters and the error of the run,
  unless the session has left the gateway or publishing kept failing for an hour.\<close>

theorem final_event_before_mark:
  assumes "emitted_before r' (emitFinals ft known pub mk now U s)" "\<not> emitted_before r' s"
  shows "\<exists>run\<in>set (hx_runs (wk_db s)). hr_RunID run = hr_RunID r' \<and> hr_Status run \<noteq> HistoryRunRunning \<and>
    final_settled known now (wk_log (emitFinals ft known pub mk now U s)) run"
proof (cases "UnemittedHistoryRuns ft (wk_db s)")
  case (Inl e)
  with assms show ?thesis by (auto simp: emitFinals_def)
next
  case (Inr runs)
  then have runs: "set runs = {r \<in> set (hx_runs (wk_db s)). hr_Status r \<noteq> HistoryRunRunning \<and> \<not> hr_FinalEmitted r}"
    by (auto simp: UnemittedHistoryRuns_def queryRuns_def split: if_splits option.splits)
  have eq: "emitFinals ft known pub mk now U s = emit_loop known pub mk now U 0 runs s" by (simp add: emitFinals_def Inr)
  from emitted_loop[OF assms(1)[unfolded eq]] assms(2) obtain run where run: "run \<in> set runs" "hr_RunID r' = hr_RunID run"
    "final_settled known now (wk_log (emit_loop known pub mk now U 0 runs s)) run" by blast
  then show ?thesis unfolding eq using runs by auto
qed

section \<open>An import\<close>

definition demo_ulid :: ulid_maker where "demo_ulid = (\<lambda>t s. s)"

definition demo_history_cfg :: history_config where
  "demo_history_cfg = normalize_history_config \<lparr>hcf_Concurrency = 0, hcf_BatchInterval = 0, hcf_IdleComplete = 0, hcf_RetryFor = 0, hcf_FullSync = False\<rparr>"

definition demo_history_env :: "(string, unit, int) history_env" where
  "demo_history_env = \<lparr>hv_client = Some (True, ''a''), hv_owns = True, hv_decode = Some, hv_download = (\<lambda>_. Inr demo_blob), hv_direct = (\<lambda>_. ''/p''),
     hv_receipt = None, hv_delete = None, hv_pace = (\<lambda>_. False), hv_pub = (\<lambda>_. None), hv_finish = no_faults, hv_postpone = None,
     hv_cursor = (\<lambda>_. None), hv_faults = no_faults, hv_now = 5000000000, hv_ms = 5000, hv_U = demo_ulid, hv_len = demo_len, hv_cfg = demo_history_cfg\<rparr>"

definition demo_pass :: pass_env where
  "demo_pass = \<lparr>ps_read = (\<lambda>_. None), ps_known = (\<lambda>_. True), ps_pub = (\<lambda>_ _. None), ps_mark = (\<lambda>_. no_faults), ps_end = no_faults,
     ps_prune = no_faults, ps_now = 5000000000, ps_ms = 5000, ps_U = demo_ulid\<rparr>"

definition demo_intercepted :: intercepted where
  "demo_intercepted = \<lparr>ic_SessionID = ''s'', ic_OrganizationID = ''org'', ic_MessageID = ''n'', ic_AccountJID = ''a'',
     ic_NotifiedAt = 4000000000, ic_Notification = Some (Inr ''raw''), ic_HistorySyncDays = 30\<rparr>"

definition demo_accepted :: worker_state where
  "demo_accepted = fst (Accept no_faults True None None 5000000000 5000 demo_intercepted history_start)"

definition demo_imported :: worker_state where
  "demo_imported = fst (tick demo_history_cfg demo_pass (\<lambda>_. demo_history_env) 0 demo_accepted)"

lemma demo_import_steps:
  "hsteps demo_ulid demo_len (\<lambda>_ _. demo_blob) history_start demo_accepted"
  "hsteps demo_ulid demo_len (\<lambda>_ _. demo_blob) demo_accepted demo_imported"
proof -
  have f: "faithful demo_ulid demo_len (\<lambda>_ _. demo_blob) demo_history_env row" for row by (simp add: faithful_def demo_history_env_def)
  have "hstep demo_ulid demo_len (\<lambda>_ _. demo_blob) history_start demo_accepted"
    unfolding demo_accepted_def by (rule hstep.accept) (rule prod.collapse[symmetric])
  then show "hsteps demo_ulid demo_len (\<lambda>_ _. demo_blob) history_start demo_accepted" by blast
  have "hstep demo_ulid demo_len (\<lambda>_ _. demo_blob) demo_accepted demo_imported"
    unfolding demo_imported_def by (rule hstep.pass[OF f]) (rule prod.collapse[symmetric])
  then show "hsteps demo_ulid demo_len (\<lambda>_ _. demo_blob) demo_accepted demo_imported" by blast
qed


theorem acknowledged_notification_kept_witness:
  "\<exists>r\<in>set (hx_inbox (wk_db demo_accepted)). hi_SessionID r = ''s'' \<and> hi_NotificationID r = ''n''"
proof -
  have a: "Accept no_faults True None None 5000000000 5000 demo_intercepted history_start =
      (demo_accepted, snd (Accept no_faults True None None 5000000000 5000 demo_intercepted history_start))"
    by (simp add: demo_accepted_def)
  have c: "wk_calls demo_accepted \<noteq> wk_calls history_start" by code_simp
  from acknowledged_notification_kept[OF rtranclp.rtrancl_refl a c, of demo_ulid demo_len "\<lambda>_ _. demo_blob"]
  show ?thesis by (auto simp: demo_intercepted_def)
qed

theorem pass_takes_first_due_witness:
  "fst (select_due 1 5000000000 (hx_inbox (wk_db demo_accepted)) [] [] None) = hx_inbox (wk_db demo_accepted) \<and> hx_inbox (wk_db demo_accepted) \<noteq> []"
proof -
  let ?rows = "hx_inbox (wk_db demo_accepted)"
  have p: "PendingHistory None (wk_db demo_accepted) = Inr ?rows" by code_simp
  have s: "select_due (hcf_Concurrency demo_history_cfg) 5000000000 ?rows [] [] None = (?rows, None)" by code_simp
  have c: "hcf_Concurrency demo_history_cfg = 1" by code_simp
  have n: "?rows \<noteq> []" by code_simp
  from pass_takes_first_due[OF p s] s n c show ?thesis by simp
qed

theorem final_event_before_mark_witness:
  "\<exists>run\<in>set (hx_runs (wk_db demo_imported)). hr_Status run \<noteq> HistoryRunRunning \<and>
     final_settled (\<lambda>_. True) 6000000000 (wk_log (emitFinals None (\<lambda>_. True) (\<lambda>_. None) no_faults 6000000000 demo_ulid demo_imported)) run"
proof -
  let ?r = "hd (hx_runs (wk_db demo_imported))"
  have a: "emitted_before ?r (emitFinals None (\<lambda>_. True) (\<lambda>_. None) no_faults 6000000000 demo_ulid demo_imported)" by code_simp
  have b: "\<not> emitted_before ?r demo_imported" by code_simp
  from final_event_before_mark[OF a b] show ?thesis by blast
qed

text \<open>The re-upload request is sent before it is recorded: when neither the mark nor the end of the
  notification can be written, the next attempt sends it again.\<close>

definition demo_expired_env :: "(string, unit, int) history_env" where
  "demo_expired_env = demo_history_env\<lparr>hv_download := (\<lambda>_. Inl (Sentinel ''ErrMediaDownloadFailedWith404'')),
     hv_faults := (\<lambda>_. Some (Plain ''locked'')), hv_finish := (\<lambda>_. Some (Plain ''locked''))\<rparr>"

theorem server_error_receipt_repeated:
  "let attempt = (\<lambda>s. process demo_expired_env (hd (hx_inbox (wk_db s))) s) in
   wk_calls (attempt (attempt demo_accepted)) = [HistoryReceipt ''n'', ServerErrorReceipt ''n'', ServerErrorReceipt ''n'']"
  by code_simp

end
