(* ===== verification/EnrollStore.thy ===== *)
theory EnrollStore
  imports Registry
begin

text \<open>
  The control-plane records of enrollment (src/backend/internal/store/gateway_control.go,
  enrollment_tx.go and renewal_tx.go with the statements of store/queries/gateway_control.sql
  they run): enrollment tokens, gateway certificates and audit events, and the transactions
  that issue, lease, redeem, release and recover an enrollment and that renew a certificate.
  The constraints of the tables (migrations/0001_init.up.sql) refuse statements that violate
  them. Bytes are strings; a nullable column is an option.
\<close>

section \<open>Rows\<close>

datatype token_status = TokenActive | TokenRedeeming | TokenConsumed | TokenLocked | TokenRevoked
datatype issuance_kind = KindEnrollment | KindRenewal

record enrollment_token =
  tn_ID :: string
  tn_GatewayID :: string
  tn_TokenPrefix :: string
  tn_Status :: token_status
  tn_CreatedByUserID :: string
  tn_TokenHash :: string
  tn_AttemptCount :: nat
  tn_MaxAttempts :: nat
  tn_ExpiresAt :: int
  tn_CreatedAt :: int
  tn_UpdatedAt :: int
  tn_RedemptionNonce :: "string option"
  tn_CSRSHA256 :: "string option"
  tn_RedeemingAt :: "int option"
  tn_LeaseExpiresAt :: "int option"
  tn_ConsumedAt :: "int option"
  tn_RevokedAt :: "int option"

record gateway_certificate =
  gc_ID :: string
  gc_GatewayID :: string
  gc_AuthorityID :: string
  gc_IssuanceKind :: issuance_kind
  gc_EnrollmentTokenID :: "string option"
  gc_CSRSHA256 :: string
  gc_SerialNumber :: string
  gc_CertificatePEM :: string
  gc_TrustBundlePEM :: string
  gc_Fingerprint :: string
  gc_NotBefore :: int
  gc_NotAfter :: int
  gc_RevokedAt :: "int option"
  gc_RevocationReason :: "string option"
  gc_CreatedAt :: int

text \<open>The metadata of an audit event is JSON: objects, arrays and scalars.\<close>

datatype metadata = MObject "(string \<times> metadata) list" | MArray "metadata list" | MText string

record audit_event =
  ev_ID :: string
  ev_ActorType :: string
  ev_Action :: string
  ev_ResourceType :: string
  ev_Outcome :: string
  ev_OrganizationID :: "string option"
  ev_ActorID :: "string option"
  ev_ResourceID :: "string option"
  ev_RequestID :: "string option"
  ev_SourceIP :: string
  ev_Metadata :: metadata
  ev_CreatedAt :: int

record enroll_db =
  ed_registry :: registry
  ed_tokens :: "enrollment_token list"
  ed_certs :: "gateway_certificate list"
  ed_audits :: "audit_event list"

abbreviation ErrEnrollmentState :: go_err where "ErrEnrollmentState \<equiv> Sentinel ''enrollment state mismatch''"
abbreviation ErrRenewalState :: go_err where "ErrRenewalState \<equiv> Sentinel ''certificate renewal state mismatch''"
abbreviation ErrDuplicate :: go_err where "ErrDuplicate \<equiv> SQLError 1062 ''Duplicate entry''"
abbreviation ErrForeign :: go_err where "ErrForeign \<equiv> SQLError 1452 ''Cannot add or update a child row: a foreign key constraint fails''"
abbreviation ErrTokenCheck :: go_err where "ErrTokenCheck \<equiv> SQLError 3819 ''Check constraint is violated.''"

section \<open>Token statements\<close>

text \<open>The CHECK constraints of gateway_enrollment_tokens.\<close>

definition token_check :: "enrollment_token \<Rightarrow> bool" where
  "token_check t \<longleftrightarrow>
     0 < tn_MaxAttempts t \<and> tn_AttemptCount t \<le> tn_MaxAttempts t \<and> tn_CreatedAt t < tn_ExpiresAt t \<and>
     (if tn_Status t = TokenRedeeming
      then tn_RedemptionNonce t \<noteq> None \<and> tn_CSRSHA256 t \<noteq> None \<and>
        (case (tn_RedeemingAt t, tn_LeaseExpiresAt t) of (Some a, Some l) \<Rightarrow> a < l | _ \<Rightarrow> False)
      else tn_RedemptionNonce t = None \<and> tn_CSRSHA256 t = None \<and> tn_RedeemingAt t = None \<and> tn_LeaseExpiresAt t = None) \<and>
     (tn_ConsumedAt t \<noteq> None \<longleftrightarrow> tn_Status t = TokenConsumed) \<and> (tn_RevokedAt t \<noteq> None \<longleftrightarrow> tn_Status t = TokenRevoked)"

definition update_tokens :: "go_err option \<Rightarrow> (enrollment_token \<Rightarrow> bool) \<Rightarrow> (enrollment_token \<Rightarrow> enrollment_token) \<Rightarrow> enroll_db
    \<Rightarrow> (enroll_db \<times> nat) result" where
  "update_tokens ft P g db =
     call ft (if \<exists>t\<in>set (ed_tokens db). P t \<and> \<not> token_check (g t) then Inl ErrTokenCheck
              else Inr (db\<lparr>ed_tokens := upd_rows P g (ed_tokens db)\<rparr>, matched P (ed_tokens db)))"

definition live :: "enrollment_token \<Rightarrow> bool" where
  "live t \<longleftrightarrow> tn_Status t = TokenActive \<or> tn_Status t = TokenRedeeming"

text \<open>The columns of a lease set to NULL.\<close>

definition no_lease :: "enrollment_token \<Rightarrow> enrollment_token" where
  "no_lease t = t\<lparr>tn_RedemptionNonce := None, tn_CSRSHA256 := None, tn_RedeemingAt := None, tn_LeaseExpiresAt := None\<rparr>"

definition new_token :: "enrollment_token \<Rightarrow> enrollment_token" where
  "new_token t = no_lease (t\<lparr>tn_Status := TokenActive, tn_AttemptCount := 0, tn_ConsumedAt := None, tn_RevokedAt := None\<rparr>)"

definition issue :: "go_err option \<Rightarrow> enrollment_token \<Rightarrow> enroll_db \<Rightarrow> enroll_db result" where
  "issue ft t db =
     call ft (if \<not> token_check (new_token t) then Inl ErrTokenCheck
              else if \<exists>s\<in>set (ed_tokens db). tn_ID s = tn_ID t \<or> tn_TokenHash s = tn_TokenHash t then Inl ErrDuplicate
              else if \<not> (\<exists>g\<in>set (rg_gateways (ed_registry db)). gw_ID g = tn_GatewayID t) then Inl ErrForeign
              else Inr (db\<lparr>ed_tokens := ed_tokens db @ [new_token t]\<rparr>))"

definition getForUpdate :: "go_err option \<Rightarrow> string \<Rightarrow> enroll_db \<Rightarrow> enrollment_token result" where
  "getForUpdate ft tid db =
     call ft (case find (\<lambda>t. tn_ID t = tid) (ed_tokens db) of None \<Rightarrow> Inl ErrNoRows | Some t \<Rightarrow> Inr t)"

text \<open>An empty byte slice is stored as NULL and a NULL read as an empty slice. A comparison with
  NULL selects nothing.\<close>

definition binaryNull :: "string \<Rightarrow> string option" where
  "binaryNull v = (if v = [] then None else Some v)"

definition bytes_of :: "string option \<Rightarrow> string" where
  "bytes_of v = (case v of None \<Rightarrow> [] | Some b \<Rightarrow> b)"

definition sql_eq :: "string option \<Rightarrow> string option \<Rightarrow> bool" where
  "sql_eq a b \<longleftrightarrow> a \<noteq> None \<and> a = b"

definition at_most :: "int option \<Rightarrow> int \<Rightarrow> bool" where
  "at_most v n = (case v of None \<Rightarrow> False | Some l \<Rightarrow> l \<le> n)"

definition greater :: "int option \<Rightarrow> int \<Rightarrow> bool" where
  "greater v n = (case v of None \<Rightarrow> False | Some l \<Rightarrow> l > n)"

definition begin_redeem :: "go_err option \<Rightarrow> string \<Rightarrow> string \<Rightarrow> string \<Rightarrow> int \<Rightarrow> int \<Rightarrow> enroll_db \<Rightarrow> (enroll_db \<times> bool) result" where
  "begin_redeem ft tid nonce csr now leaseUntil db =
     bindr (update_tokens ft
         (\<lambda>t. tn_ID t = tid \<and> tn_ExpiresAt t > now \<and> tn_AttemptCount t < tn_MaxAttempts t \<and>
            (tn_Status t = TokenActive \<or>
             tn_Status t = TokenRedeeming \<and> at_most (tn_LeaseExpiresAt t) now \<and> sql_eq (tn_CSRSHA256 t) (binaryNull csr)))
         (\<lambda>t. t\<lparr>tn_Status := TokenRedeeming, tn_RedemptionNonce := binaryNull nonce, tn_CSRSHA256 := binaryNull csr,
               tn_RedeemingAt := Some now, tn_LeaseExpiresAt := Some leaseUntil, tn_AttemptCount := tn_AttemptCount t + 1,
               tn_UpdatedAt := now\<rparr>) db)
       (\<lambda>(db', n). Inr (db', n = 1))"

text \<open>The holder of a lease names its nonce and CSR; the lease must not have expired.\<close>

definition lease_row :: "string \<Rightarrow> string \<Rightarrow> string \<Rightarrow> int \<Rightarrow> enrollment_token \<Rightarrow> bool" where
  "lease_row tid nonce csr now t \<longleftrightarrow> tn_ID t = tid \<and> tn_Status t = TokenRedeeming \<and>
     sql_eq (tn_RedemptionNonce t) (binaryNull nonce) \<and> sql_eq (tn_CSRSHA256 t) (binaryNull csr) \<and>
     greater (tn_LeaseExpiresAt t) now"

definition finalize :: "go_err option \<Rightarrow> string \<Rightarrow> string \<Rightarrow> string \<Rightarrow> int \<Rightarrow> enroll_db \<Rightarrow> (enroll_db \<times> bool) result" where
  "finalize ft tid nonce csr now db =
     bindr (update_tokens ft (lease_row tid nonce csr now)
         (\<lambda>t. (no_lease t)\<lparr>tn_Status := TokenConsumed, tn_ConsumedAt := Some now, tn_UpdatedAt := now\<rparr>) db)
       (\<lambda>(db', n). Inr (db', n = 1))"

definition release :: "go_err option \<Rightarrow> string \<Rightarrow> string \<Rightarrow> string \<Rightarrow> int \<Rightarrow> enroll_db \<Rightarrow> (enroll_db \<times> bool) result" where
  "release ft tid nonce csr now db =
     bindr (update_tokens ft (lease_row tid nonce csr now) (\<lambda>t. (no_lease t)\<lparr>tn_Status := TokenActive, tn_UpdatedAt := now\<rparr>) db)
       (\<lambda>(db', n). Inr (db', n = 1))"

definition lock_token :: "go_err option \<Rightarrow> string \<Rightarrow> int \<Rightarrow> enroll_db \<Rightarrow> (enroll_db \<times> bool) result" where
  "lock_token ft tid now db =
     bindr (update_tokens ft (\<lambda>t. tn_ID t = tid \<and> live t)
         (\<lambda>t. (no_lease t)\<lparr>tn_Status := TokenLocked, tn_AttemptCount := tn_MaxAttempts t, tn_UpdatedAt := now\<rparr>) db)
       (\<lambda>(db', n). Inr (db', n = 1))"

definition revokeLiveByGateway :: "go_err option \<Rightarrow> string \<Rightarrow> int \<Rightarrow> enroll_db \<Rightarrow> (enroll_db \<times> nat) result" where
  "revokeLiveByGateway ft gid now db =
     update_tokens ft (\<lambda>t. tn_GatewayID t = gid \<and> live t)
       (\<lambda>t. (no_lease t)\<lparr>tn_Status := TokenRevoked, tn_RevokedAt := Some now, tn_UpdatedAt := now\<rparr>) db"

section \<open>Certificate statements\<close>

definition cert_check :: "gateway_certificate \<Rightarrow> bool" where
  "cert_check c \<longleftrightarrow> gc_NotBefore c < gc_NotAfter c \<and> (gc_IssuanceKind c = KindEnrollment \<longleftrightarrow> gc_EnrollmentTokenID c \<noteq> None)"

text \<open>The primary key and the three unique keys of gateway_certificates.\<close>

definition cert_conflict :: "gateway_certificate \<Rightarrow> gateway_certificate \<Rightarrow> bool" where
  "cert_conflict c d \<longleftrightarrow> gc_ID c = gc_ID d \<or> (gc_AuthorityID c = gc_AuthorityID d \<and> gc_SerialNumber c = gc_SerialNumber d) \<or>
     gc_Fingerprint c = gc_Fingerprint d \<or> (gc_GatewayID c = gc_GatewayID d \<and> gc_CSRSHA256 c = gc_CSRSHA256 d)"

text \<open>Whether the authority of a certificate is known to pki_authorities is \<open>ca\<close>.\<close>

definition insert_cert :: "(string \<Rightarrow> bool) \<Rightarrow> go_err option \<Rightarrow> gateway_certificate \<Rightarrow> enroll_db \<Rightarrow> enroll_db result" where
  "insert_cert ca ft c db =
     call ft (if \<not> cert_check c then Inl ErrTokenCheck
              else if \<exists>d\<in>set (ed_certs db). cert_conflict c d then Inl ErrDuplicate
              else if \<not> ca (gc_AuthorityID c) \<or> \<not> (\<exists>g\<in>set (rg_gateways (ed_registry db)). gw_ID g = gc_GatewayID c) \<or>
                (case gc_EnrollmentTokenID c of None \<Rightarrow> False | Some tid \<Rightarrow> \<not> (\<exists>t\<in>set (ed_tokens db). tn_ID t = tid)) then Inl ErrForeign
              else Inr (db\<lparr>ed_certs := ed_certs db @ [c\<lparr>gc_RevokedAt := None, gc_RevocationReason := None\<rparr>]\<rparr>))"

definition select_cert :: "go_err option \<Rightarrow> (gateway_certificate \<Rightarrow> bool) \<Rightarrow> enroll_db \<Rightarrow> gateway_certificate result" where
  "select_cert ft P db = call ft (case find P (ed_certs db) of None \<Rightarrow> Inl ErrNoRows | Some c \<Rightarrow> Inr c)"

definition getByTokenCSR :: "go_err option \<Rightarrow> string \<Rightarrow> string \<Rightarrow> enroll_db \<Rightarrow> gateway_certificate result" where
  "getByTokenCSR ft tid csr =
     select_cert ft (\<lambda>c. gc_IssuanceKind c = KindEnrollment \<and> gc_EnrollmentTokenID c = Some tid \<and> gc_CSRSHA256 c = csr)"

definition getByGatewayCSR :: "go_err option \<Rightarrow> string \<Rightarrow> string \<Rightarrow> enroll_db \<Rightarrow> gateway_certificate result" where
  "getByGatewayCSR ft gid csr = select_cert ft (\<lambda>c. gc_GatewayID c = gid \<and> gc_CSRSHA256 c = csr)"

definition getForRenewal :: "go_err option \<Rightarrow> string \<Rightarrow> string \<Rightarrow> string \<Rightarrow> string \<Rightarrow> enroll_db \<Rightarrow> gateway_certificate result" where
  "getForRenewal ft cid gid fingerprint serial =
     select_cert ft (\<lambda>c. gc_ID c = cid \<and> gc_GatewayID c = gid \<and> gc_Fingerprint c = fingerprint \<and> gc_SerialNumber c = serial)"

section \<open>Audit events\<close>

text \<open>\<open>strings.Map\<close> of validateAuditMetadata, on ASCII keys.\<close>

definition alnum :: "char \<Rightarrow> bool" where
  "alnum c \<longleftrightarrow> (let n = of_char c :: nat in (48 \<le> n \<and> n \<le> 57) \<or> (65 \<le> n \<and> n \<le> 90) \<or> (97 \<le> n \<and> n \<le> 122))"

definition normalized_key :: "string \<Rightarrow> string" where
  "normalized_key k = map lower_char (filter alnum k)"

definition sensitive_key :: "string \<Rightarrow> bool" where
  "sensitive_key k \<longleftrightarrow>
     (let n = normalized_key k; allowed = HasSuffix n ''id'' \<or> HasSuffix n ''fingerprint'' in
      (\<exists>bad\<in>set [''token'', ''secret'', ''privatekey'', ''authorization'', ''csr'', ''certificate'', ''pem'']. contains bad n \<and> \<not> allowed))"

fun validateAuditMetadata :: "metadata \<Rightarrow> go_err option" and validate_fields :: "(string \<times> metadata) list \<Rightarrow> go_err option"
  and validate_items :: "metadata list \<Rightarrow> go_err option" where
  "validateAuditMetadata (MObject fs) = validate_fields fs"
| "validateAuditMetadata (MArray xs) = validate_items xs"
| "validateAuditMetadata (MText s) = None"
| "validate_fields [] = None"
| "validate_fields ((k, v) # fs) =
     (if sensitive_key k then Some (Plain (''store: sensitive audit metadata key '' @ go_quote k))
      else case validateAuditMetadata v of Some e \<Rightarrow> Some e | None \<Rightarrow> validate_fields fs)"
| "validate_items [] = None"
| "validate_items (x # xs) = (case validateAuditMetadata x of Some e \<Rightarrow> Some e | None \<Rightarrow> validate_items xs)"

text \<open>\<open>marshal\<close> is \<open>json.Marshal\<close>.\<close>

definition Append_audit :: "(metadata \<Rightarrow> string result) \<Rightarrow> go_err option \<Rightarrow> audit_event \<Rightarrow> enroll_db \<Rightarrow> enroll_db result" where
  "Append_audit marshal ft e db =
     (if ev_ID e = [] \<or> ev_Action e = [] \<or> ev_ResourceType e = [] \<or> ev_ActorType e \<notin> set [''user'', ''gateway'', ''system''] \<or>
        ev_Outcome e \<notin> set [''success'', ''denied'', ''failure''] then Inl (Plain ''store: invalid audit event'')
      else call (validateAuditMetadata (ev_Metadata e))
        (bindr (wrapr ''store: marshal audit metadata'' (marshal (ev_Metadata e))) (\<lambda>text.
           if length text > 16 * 1024 then Inl (Plain ''store: audit metadata exceeds 16384 bytes'')
           else call ft (if \<exists>a\<in>set (ed_audits db). ev_ID a = ev_ID e then Inl ErrDuplicate
                         else Inr (db\<lparr>ed_audits := ed_audits db @ [e]\<rparr>)))))"

fun append_audits :: "(metadata \<Rightarrow> string result) \<Rightarrow> faults \<Rightarrow> nat \<Rightarrow> audit_event list \<Rightarrow> enroll_db \<Rightarrow> enroll_db result" where
  "append_audits marshal f i [] db = Inr db"
| "append_audits marshal f i (e # es) db = bindr (Append_audit marshal (f i) e db) (append_audits marshal f (Suc i) es)"

section \<open>Transactions\<close>

text \<open>A commit takes effect and is reported, fails, or takes effect although it is reported as
  failed (the connection is lost before the answer arrives). Call 0 of a transaction begins
  it, call 1 locks the gateway and call 2 the token.\<close>

datatype commit = Committed | NotCommitted go_err | Unreported go_err

definition withTx :: "faults \<Rightarrow> commit \<Rightarrow> enroll_db \<Rightarrow> (enroll_db \<times> 'a) result \<Rightarrow> enroll_db \<times> 'a result" where
  "withTx f c db body =
     (case call (f 0) body of
        Inl e \<Rightarrow> (db, Inl e)
      | Inr (db', a) \<Rightarrow>
          case c of Committed \<Rightarrow> (db', Inr a) | NotCommitted e \<Rightarrow> (db, Inl e) | Unreported e \<Rightarrow> (db', Inl e))"

record gateway_lock =
  gl_ID :: string
  gl_Status :: gateway_status
  gl_Deleted :: bool

definition loadGateway :: "go_err option \<Rightarrow> string \<Rightarrow> enroll_db \<Rightarrow> gateway_lock result" where
  "loadGateway ft gid db =
     call ft (case find (\<lambda>g. gw_ID g = gid) (rg_gateways (ed_registry db)) of
        None \<Rightarrow> Inl ErrNoRows
      | Some g \<Rightarrow> Inr \<lparr>gl_ID = gw_ID g, gl_Status = gw_Status g, gl_Deleted = gw_DeletedAt g \<noteq> None\<rparr>)"

definition withGatewayTx :: "faults \<Rightarrow> commit \<Rightarrow> string \<Rightarrow> enroll_db \<Rightarrow> (gateway_lock \<Rightarrow> (enroll_db \<times> 'a) result) \<Rightarrow> enroll_db \<times> 'a result" where
  "withGatewayTx f c gid db body = withTx f c db (bindr (loadGateway (f 1) gid db) body)"

definition gatewayPending :: "gateway_lock \<Rightarrow> bool" where
  "gatewayPending g \<longleftrightarrow> gl_Status g = GatewayPendingEnrollment \<and> \<not> gl_Deleted g"

definition gatewayRecoveryEligible :: "gateway_lock \<Rightarrow> bool" where
  "gatewayRecoveryEligible g \<longleftrightarrow> \<not> gl_Deleted g \<and> gl_Status g \<in> {GatewayJoining, GatewayActive, GatewayDraining, GatewayDrained}"

definition gatewayDuplicateFinalizeEligible :: "bool \<Rightarrow> gateway_lock \<Rightarrow> bool" where
  "gatewayDuplicateFinalizeEligible duplicateIssuance g \<longleftrightarrow> duplicateIssuance \<and> \<not> gl_Deleted g \<and> gl_Status g = GatewayJoining"

definition certificateMatches :: "gateway_certificate \<Rightarrow> string \<Rightarrow> string \<Rightarrow> string \<Rightarrow> int \<Rightarrow> bool" where
  "certificateMatches cert gid tid csr now \<longleftrightarrow> gc_GatewayID cert = gid \<and> gc_IssuanceKind cert = KindEnrollment \<and>
     gc_EnrollmentTokenID cert = Some tid \<and> gc_CSRSHA256 cert = csr \<and> gc_NotBefore cert \<le> now \<and> gc_NotAfter cert > now"

definition loadToken :: "go_err option \<Rightarrow> gateway_lock \<Rightarrow> string \<Rightarrow> string \<Rightarrow> enroll_db \<Rightarrow> enrollment_token result" where
  "loadToken ft g tid hash db =
     (case getForUpdate ft tid db of
        Inl _ \<Rightarrow> Inl ErrEnrollmentState
      | Inr t \<Rightarrow> if tn_GatewayID t \<noteq> gl_ID g \<or> hash \<noteq> tn_TokenHash t then Inl ErrEnrollmentState else Inr t)"

definition LookupSelector :: "go_err option \<Rightarrow> string \<Rightarrow> enroll_db \<Rightarrow> enrollment_token result" where
  "LookupSelector ft tid db = call ft (case find (\<lambda>t. tn_ID t = tid) (ed_tokens db) of None \<Rightarrow> Inl ErrNoRows | Some t \<Rightarrow> Inr t)"

definition CreatePendingWithToken :: "(metadata \<Rightarrow> string result) \<Rightarrow> faults \<Rightarrow> commit \<Rightarrow> gateway_row \<Rightarrow> string option \<Rightarrow> string \<Rightarrow> enrollment_token
    \<Rightarrow> audit_event list \<Rightarrow> enroll_db \<Rightarrow> enroll_db \<times> unit result" where
  "CreatePendingWithToken marshal f c g notes' creator token audits db = withTx f c db
     (case CreatePending (f 1) g notes' (Some creator) 1 (ed_registry db) of
        (_, Inl e) \<Rightarrow> Inl e
      | (r', Inr _) \<Rightarrow>
          bindr (issue (f 2) token (db\<lparr>ed_registry := r'\<rparr>)) (\<lambda>db1.
            bindr (append_audits marshal f 3 audits db1) (\<lambda>db2. Inr (db2, ()))))"

definition ReplaceLiveToken :: "(metadata \<Rightarrow> string result) \<Rightarrow> faults \<Rightarrow> commit \<Rightarrow> string \<Rightarrow> enrollment_token \<Rightarrow> audit_event \<Rightarrow> int
    \<Rightarrow> enroll_db \<Rightarrow> enroll_db \<times> unit result" where
  "ReplaceLiveToken marshal f c gid token audit now db =
     (case withGatewayTx f c gid db (\<lambda>g.
        if \<not> gatewayPending g then Inl ErrEnrollmentState
        else bindr (revokeLiveByGateway (f 2) gid now db) (\<lambda>(db1, _).
          bindr (issue (f 3) token db1) (\<lambda>db2. bindr (Append_audit marshal (f 4) audit db2) (\<lambda>db3. Inr (db3, ()))))) of
        (db', Inl e) \<Rightarrow> (db', Inl (if err_is ''sql: no rows in result set'' e then ErrEnrollmentState else e))
      | (db', Inr u) \<Rightarrow> (db', Inr u))"

record acquire_input =
  ai_GatewayID :: string
  ai_TokenID :: string
  ai_ExpectedHash :: string
  ai_CSRHash :: string
  ai_Nonce :: string
  ai_Now :: int
  ai_LeaseUntil :: int
  ai_CSRValid :: bool
  ai_StartedAudit :: audit_event

datatype disposition = DispositionReplay gateway_certificate | DispositionInvalid | DispositionRateLimited | DispositionInProgress
  | DispositionAcquired

text \<open>An invalid request is charged: the attempt is counted and the last one locks the token.\<close>

definition charge_invalid :: "go_err option \<Rightarrow> string \<Rightarrow> int \<Rightarrow> enrollment_token \<Rightarrow> enroll_db \<Rightarrow> (enroll_db \<times> disposition) result" where
  "charge_invalid ft tid now token db =
     (let lock = tn_AttemptCount token + 1 \<ge> tn_MaxAttempts token in
      bindr (update_tokens ft (\<lambda>t. tn_ID t = tid)
          (\<lambda>t. (no_lease t)\<lparr>tn_Status := if lock then TokenLocked else TokenActive,
                 tn_AttemptCount := min (tn_AttemptCount t + 1) (tn_MaxAttempts t), tn_UpdatedAt := now\<rparr>) db)
        (\<lambda>(db', _). Inr (db', if lock then DispositionRateLimited else DispositionInvalid)))"

text \<open>The closure that runs in the transaction, after the gateway row was locked.\<close>

definition acquire_body :: "(metadata \<Rightarrow> string result) \<Rightarrow> faults \<Rightarrow> acquire_input \<Rightarrow> enroll_db \<Rightarrow> gateway_lock
    \<Rightarrow> (enroll_db \<times> disposition) result" where
  "acquire_body marshal f inp db g =
     (case loadToken (f 2) g (ai_TokenID inp) (ai_ExpectedHash inp) db of
       Inl _ \<Rightarrow> Inl ErrEnrollmentState
     | Inr token \<Rightarrow>
         if tn_Status token = TokenConsumed then
           (if \<not> gatewayRecoveryEligible g then Inl ErrEnrollmentState
            else case getByTokenCSR (f 3) (ai_TokenID inp) (ai_CSRHash inp) db of
              Inl _ \<Rightarrow> Inl ErrEnrollmentState
            | Inr cert \<Rightarrow>
                if \<not> certificateMatches cert (ai_GatewayID inp) (ai_TokenID inp) (ai_CSRHash inp) (ai_Now inp)
                then Inl ErrEnrollmentState else Inr (db, DispositionReplay cert))
         else if tn_ExpiresAt token \<le> ai_Now inp \<or> tn_Status token = TokenRevoked then Inl ErrEnrollmentState
         else if tn_Status token = TokenLocked then Inr (db, DispositionRateLimited)
         else if tn_AttemptCount token \<ge> tn_MaxAttempts token then
           bindr (lock_token (f 4) (ai_TokenID inp) (ai_Now inp) db) (\<lambda>(db', _). Inr (db', DispositionRateLimited))
         else if tn_Status token = TokenRedeeming \<and> (tn_LeaseExpiresAt token = None \<or> bytes_of (tn_CSRSHA256 token) \<noteq> ai_CSRHash inp)
         then Inl ErrEnrollmentState
         else if tn_Status token = TokenRedeeming \<and> the (tn_LeaseExpiresAt token) > ai_Now inp then Inr (db, DispositionInProgress)
         else if \<not> ai_CSRValid inp then charge_invalid (f 5) (ai_TokenID inp) (ai_Now inp) token db
         else bindr (begin_redeem (f 6) (ai_TokenID inp) (ai_Nonce inp) (ai_CSRHash inp) (ai_Now inp) (ai_LeaseUntil inp) db) (\<lambda>(db1, ok).
           if \<not> ok then Inl ErrEnrollmentState
           else bindr (Append_audit marshal (f 7) (ai_StartedAudit inp) db1) (\<lambda>db2. Inr (db2, DispositionAcquired))))"

definition AcquireEnrollmentLease :: "(metadata \<Rightarrow> string result) \<Rightarrow> faults \<Rightarrow> commit \<Rightarrow> acquire_input \<Rightarrow> enroll_db
    \<Rightarrow> enroll_db \<times> disposition result" where
  "AcquireEnrollmentLease marshal f c inp db = withGatewayTx f c (ai_GatewayID inp) db (acquire_body marshal f inp db)"

record finalize_input =
  fi_GatewayID :: string
  fi_TokenID :: string
  fi_ExpectedHash :: string
  fi_Nonce :: string
  fi_CSRHash :: string
  fi_Now :: int
  fi_Certificate :: gateway_certificate
  fi_SucceededAudit :: audit_event

definition leased_to :: "string \<Rightarrow> string \<Rightarrow> enrollment_token \<Rightarrow> bool" where
  "leased_to nonce csr token \<longleftrightarrow> tn_Status token = TokenRedeeming \<and> bytes_of (tn_RedemptionNonce token) = nonce \<and>
     bytes_of (tn_CSRSHA256 token) = csr"

definition lease_expired :: "int \<Rightarrow> enrollment_token \<Rightarrow> bool" where
  "lease_expired now token \<longleftrightarrow> (case tn_LeaseExpiresAt token of None \<Rightarrow> True | Some l \<Rightarrow> l \<le> now)"

text \<open>The insert of the certificate; when it fails, the certificate that is stored for the token
  and CSR is taken instead. The last value says that it was.\<close>

definition persist_cert :: "(string \<Rightarrow> bool) \<Rightarrow> faults \<Rightarrow> finalize_input \<Rightarrow> enroll_db \<Rightarrow> (enroll_db \<times> gateway_certificate \<times> bool) result" where
  "persist_cert ca f inp db =
     (case insert_cert ca (f 3) (fi_Certificate inp) db of
        Inr db' \<Rightarrow> Inr (db', fi_Certificate inp, False)
      | Inl e \<Rightarrow>
          (case getByTokenCSR (f 4) (fi_TokenID inp) (fi_CSRHash inp) db of
             Inl _ \<Rightarrow> Inl e
           | Inr persisted \<Rightarrow> Inr (db, persisted, True)))"

definition enroll_gateway :: "go_err option \<Rightarrow> finalize_input \<Rightarrow> gateway_lock \<Rightarrow> bool \<Rightarrow> enroll_db \<Rightarrow> enroll_db result" where
  "enroll_gateway ft inp g duplicate db =
     (if gatewayPending g then
        (case markEnrolledJoining ft (fi_GatewayID inp) (fi_Now inp) (ed_registry db) of
           (_, Inl e) \<Rightarrow> Inl e
         | (r', Inr ok) \<Rightarrow> if \<not> ok then Inl ErrEnrollmentState else Inr (db\<lparr>ed_registry := r'\<rparr>))
      else if \<not> gatewayDuplicateFinalizeEligible duplicate g then Inl ErrEnrollmentState
      else Inr db)"

definition finalize_body :: "(string \<Rightarrow> bool) \<Rightarrow> (metadata \<Rightarrow> string result) \<Rightarrow> faults \<Rightarrow> finalize_input \<Rightarrow> enroll_db \<Rightarrow> gateway_lock
    \<Rightarrow> (enroll_db \<times> gateway_certificate) result" where
  "finalize_body ca marshal f inp db g =
     (case loadToken (f 2) g (fi_TokenID inp) (fi_ExpectedHash inp) db of
       Inl _ \<Rightarrow> Inl ErrEnrollmentState
     | Inr token \<Rightarrow>
         if \<not> leased_to (fi_Nonce inp) (fi_CSRHash inp) token \<or> lease_expired (fi_Now inp) token then Inl ErrEnrollmentState
         else bindr (persist_cert ca f inp db) (\<lambda>(db1, out, duplicate).
           bindr (enroll_gateway (f 5) inp g duplicate db1) (\<lambda>db2.
             bindr (finalize (f 6) (fi_TokenID inp) (fi_Nonce inp) (fi_CSRHash inp) (fi_Now inp) db2) (\<lambda>(db3, ok).
               if \<not> ok then Inl ErrEnrollmentState
               else bindr (Append_audit marshal (f 7) (fi_SucceededAudit inp) db3) (\<lambda>db4. Inr (db4, out))))))"

definition FinalizeEnrollmentIssuance :: "(string \<Rightarrow> bool) \<Rightarrow> (metadata \<Rightarrow> string result) \<Rightarrow> faults \<Rightarrow> commit \<Rightarrow> finalize_input \<Rightarrow> enroll_db
    \<Rightarrow> enroll_db \<times> gateway_certificate result" where
  "FinalizeEnrollmentIssuance ca marshal f c inp db = withGatewayTx f c (fi_GatewayID inp) db (finalize_body ca marshal f inp db)"

record release_input =
  ri_GatewayID :: string
  ri_TokenID :: string
  ri_ExpectedHash :: string
  ri_Nonce :: string
  ri_CSRHash :: string
  ri_Now :: int
  ri_FailureAudit :: audit_event

definition ReleaseEnrollmentLease :: "(metadata \<Rightarrow> string result) \<Rightarrow> faults \<Rightarrow> commit \<Rightarrow> release_input \<Rightarrow> enroll_db \<Rightarrow> enroll_db \<times> bool result" where
  "ReleaseEnrollmentLease marshal f c inp db = withGatewayTx f c (ri_GatewayID inp) db (\<lambda>g.
     case loadToken (f 2) g (ri_TokenID inp) (ri_ExpectedHash inp) db of
       Inl _ \<Rightarrow> Inr (db, False)
     | Inr token \<Rightarrow>
         if \<not> leased_to (ri_Nonce inp) (ri_CSRHash inp) token then Inr (db, False)
         else bindr (release (f 3) (ri_TokenID inp) (ri_Nonce inp) (ri_CSRHash inp) (ri_Now inp) db) (\<lambda>(db1, ok).
           if \<not> ok then Inr (db1, False)
           else bindr (Append_audit marshal (f 4) (ri_FailureAudit inp) db1) (\<lambda>db2. Inr (db2, True))))"

definition RecoverEnrollmentIssuance :: "faults \<Rightarrow> commit \<Rightarrow> string \<Rightarrow> string \<Rightarrow> string \<Rightarrow> string \<Rightarrow> int \<Rightarrow> enroll_db
    \<Rightarrow> enroll_db \<times> gateway_certificate result" where
  "RecoverEnrollmentIssuance f c gid tid hash csr now db = withGatewayTx f c gid db (\<lambda>g.
     case loadToken (f 2) g tid hash db of
       Inl _ \<Rightarrow> Inl ErrEnrollmentState
     | Inr token \<Rightarrow>
         if tn_Status token \<noteq> TokenConsumed \<or> \<not> gatewayRecoveryEligible g then Inl ErrEnrollmentState
         else case getByTokenCSR (f 3) tid csr db of
           Inl _ \<Rightarrow> Inl ErrEnrollmentState
         | Inr out \<Rightarrow> if \<not> certificateMatches out gid tid csr now then Inl ErrEnrollmentState else Inr (db, out))"

section \<open>Renewal\<close>

record renewal_credential =
  rw_GatewayID :: string
  rw_CertificateID :: string
  rw_SerialNumber :: string
  rw_Fingerprint :: string

definition validateRenewalCredential :: "go_err option \<Rightarrow> gateway_lock \<Rightarrow> renewal_credential \<Rightarrow> int \<Rightarrow> enroll_db \<Rightarrow> unit result" where
  "validateRenewalCredential ft g cr now db =
     (if \<not> gatewayRecoveryEligible g then Inl ErrRenewalState
      else case getForRenewal ft (rw_CertificateID cr) (rw_GatewayID cr) (rw_Fingerprint cr) (rw_SerialNumber cr) db of
        Inl _ \<Rightarrow> Inl ErrRenewalState
      | Inr cert \<Rightarrow>
          if gc_RevokedAt cert \<noteq> None \<or> gc_NotBefore cert > now \<or> gc_NotAfter cert \<le> now then Inl ErrRenewalState else Inr ())"

definition newRenewalMatches :: "gateway_certificate \<Rightarrow> string \<Rightarrow> string \<Rightarrow> int \<Rightarrow> bool" where
  "newRenewalMatches cert gid csr now \<longleftrightarrow> gc_GatewayID cert = gid \<and> gc_IssuanceKind cert = KindRenewal \<and>
     gc_EnrollmentTokenID cert = None \<and> gc_CSRSHA256 cert = csr \<and> gc_NotBefore cert \<le> now \<and> gc_NotAfter cert > now"

definition renewalReplayMatches :: "gateway_certificate \<Rightarrow> string \<Rightarrow> string \<Rightarrow> int \<Rightarrow> bool" where
  "renewalReplayMatches cert gid csr now \<longleftrightarrow> newRenewalMatches cert gid csr now \<and> gc_RevokedAt cert = None"

definition normalizeRenewalError :: "enroll_db \<times> 'a result \<Rightarrow> enroll_db \<times> 'a result" where
  "normalizeRenewalError x =
     (case x of
        (db, Inl e) \<Rightarrow> (db, Inl (if err_is ''sql: no rows in result set'' e then ErrRenewalState else e))
      | (db, Inr a) \<Rightarrow> (db, Inr a))"

definition PrepareRenewal :: "faults \<Rightarrow> commit \<Rightarrow> renewal_credential \<Rightarrow> string \<Rightarrow> int \<Rightarrow> enroll_db \<Rightarrow> enroll_db \<times> gateway_certificate option result" where
  "PrepareRenewal f c cr csr now db = normalizeRenewalError (withGatewayTx f c (rw_GatewayID cr) db (\<lambda>g.
     bindr (validateRenewalCredential (f 2) g cr now db) (\<lambda>_.
       case getByGatewayCSR (f 3) (rw_GatewayID cr) csr db of
         Inl e \<Rightarrow> if err_is ''sql: no rows in result set'' e then Inr (db, None) else Inl ErrRenewalState
       | Inr cert \<Rightarrow>
           if \<not> renewalReplayMatches cert (rw_GatewayID cr) csr now then Inl ErrRenewalState else Inr (db, Some cert))))"

definition renewal_body :: "(string \<Rightarrow> bool) \<Rightarrow> (metadata \<Rightarrow> string result) \<Rightarrow> faults \<Rightarrow> renewal_credential \<Rightarrow> string \<Rightarrow> int \<Rightarrow> gateway_certificate
    \<Rightarrow> audit_event \<Rightarrow> enroll_db \<Rightarrow> gateway_lock \<Rightarrow> (enroll_db \<times> gateway_certificate) result" where
  "renewal_body ca marshal f cr csr now cert audit db g =
     bindr (validateRenewalCredential (f 2) g cr now db) (\<lambda>_.
       case getByGatewayCSR (f 3) (rw_GatewayID cr) csr db of
         Inr persisted \<Rightarrow>
           if \<not> renewalReplayMatches persisted (rw_GatewayID cr) csr now then Inl ErrRenewalState else Inr (db, persisted)
       | Inl e \<Rightarrow>
           if \<not> err_is ''sql: no rows in result set'' e \<or> \<not> newRenewalMatches cert (rw_GatewayID cr) csr now then Inl ErrRenewalState
           else case insert_cert ca (f 4) cert db of
             Inr db1 \<Rightarrow> bindr (Append_audit marshal (f 5) audit db1) (\<lambda>db2. Inr (db2, cert))
           | Inl e' \<Rightarrow>
               (case getByGatewayCSR (f 6) (rw_GatewayID cr) csr db of
                  Inl _ \<Rightarrow> Inl e'
                | Inr persisted \<Rightarrow>
                    if \<not> renewalReplayMatches persisted (rw_GatewayID cr) csr now then Inl e' else Inr (db, persisted)))"

definition FinalizeRenewal :: "(string \<Rightarrow> bool) \<Rightarrow> (metadata \<Rightarrow> string result) \<Rightarrow> faults \<Rightarrow> commit \<Rightarrow> renewal_credential \<Rightarrow> string \<Rightarrow> int
    \<Rightarrow> gateway_certificate \<Rightarrow> audit_event \<Rightarrow> enroll_db \<Rightarrow> enroll_db \<times> gateway_certificate result" where
  "FinalizeRenewal ca marshal f c cr csr now cert audit db =
     normalizeRenewalError (withGatewayTx f c (rw_GatewayID cr) db (renewal_body ca marshal f cr csr now cert audit db))"

end
