(* ===== verification/EnrollToken.thy ===== *)
theory EnrollToken
  imports Gw_Prelude
begin

text \<open>
  Enrollment tokens (src/backend/internal/enrollmenttoken/token.go): the bearer value
  \<open>qwg_enroll_v1_<selector>.<secret>\<close>, its generation, parsing, digest and verification, with
  the unpadded URL-safe base64 of encoding/base64. Bytes are characters. The selector is a
  ULID of a third-party library: \<open>ulid\<close> says which texts are canonical ULIDs. SHA-256 is
  the function \<open>sha\<close>.
\<close>

section \<open>Unpadded URL-safe base64\<close>

definition b64_alphabet :: string where
  "b64_alphabet = ''ABCDEFGHIJKLMNOPQRSTUVWXYZabcdefghijklmnopqrstuvwxyz0123456789-_''"

definition b64_char :: "nat \<Rightarrow> char" where
  "b64_char n = b64_alphabet ! n"

definition b64_value :: "char \<Rightarrow> nat option" where
  "b64_value c = find (\<lambda>i. b64_alphabet ! i = c) [0..<64]"

fun b64_split :: "nat list \<Rightarrow> nat list" where
  "b64_split [] = []"
| "b64_split [a] = [a div 4, (a mod 4) * 16]"
| "b64_split [a, b] = [a div 4, (a mod 4) * 16 + b div 16, (b mod 16) * 4]"
| "b64_split (a # b # c # r) = [a div 4, (a mod 4) * 16 + b div 16, (b mod 16) * 4 + c div 64, c mod 64] @ b64_split r"

text \<open>The strict decoder refuses a last sextet with bits that belong to no byte.\<close>

fun b64_join :: "nat list \<Rightarrow> nat list option" where
  "b64_join [] = Some []"
| "b64_join [s] = None"
| "b64_join [s, t] = (if t mod 16 \<noteq> 0 then None else Some [s * 4 + t div 16])"
| "b64_join [s, t, u] = (if u mod 4 \<noteq> 0 then None else Some [s * 4 + t div 16, (t mod 16) * 16 + u div 4])"
| "b64_join (s # t # u # v # r) =
     map_option (\<lambda>bs. [s * 4 + t div 16, (t mod 16) * 16 + u div 4, (u mod 4) * 64 + v] @ bs) (b64_join r)"

definition EncodeToString :: "string \<Rightarrow> string" where
  "EncodeToString bs = map b64_char (b64_split (map of_char bs))"

text \<open>\<open>Strict().DecodeString\<close>: line breaks in the input are skipped.\<close>

definition DecodeString :: "string \<Rightarrow> string option" where
  "DecodeString s =
     (let vs = map b64_value (filter (\<lambda>c. of_char c \<noteq> (10::nat) \<and> of_char c \<noteq> (13::nat)) s) in
      if None \<in> set vs then None else map_option (map char_of) (b64_join (map the vs)))"

section \<open>Tokens\<close>

abbreviation ErrInvalid :: go_err where "ErrInvalid \<equiv> Sentinel ''invalid enrollment token''"

definition tokenPrefix :: string where "tokenPrefix = ''qwg_enroll_v1_''"

definition digestDomain :: string where "digestDomain = ''quick-wa/enrollment-token/v1'' @ [char_of (0::nat)]"

record token =
  tk_selector :: string
  tk_value :: string

text \<open>\<open>strings.Cut(s, ".")\<close>.\<close>

definition Cut :: "string \<Rightarrow> string \<times> string \<times> bool" where
  "Cut s = (case dropWhile (\<lambda>c. c \<noteq> CHR ''.'') s of [] \<Rightarrow> (s, [], False) | _ # rest \<Rightarrow> (takeWhile (\<lambda>c. c \<noteq> CHR ''.'') s, rest, True))"

text \<open>\<open>secret\<close> is what reading 32 bytes of the random source gives.\<close>

definition GenerateWith :: "(string \<Rightarrow> bool) \<Rightarrow> string result \<Rightarrow> string \<Rightarrow> token result" where
  "GenerateWith ulid secret selector =
     bindr secret (\<lambda>bs.
       if \<not> ulid selector then Inl ErrInvalid
       else Inr \<lparr>tk_selector = selector, tk_value = tokenPrefix @ selector @ ''.'' @ EncodeToString bs\<rparr>)"

definition Parse :: "(string \<Rightarrow> bool) \<Rightarrow> string \<Rightarrow> token result" where
  "Parse ulid v =
     (if \<not> HasPrefix v tokenPrefix then Inl ErrInvalid
      else case Cut (drop (length tokenPrefix) v) of (selector, encoded, ok) \<Rightarrow>
        if \<not> ok \<or> CHR ''.'' \<in> set encoded \<or> length selector \<noteq> 26 \<or> length encoded \<noteq> 43 then Inl ErrInvalid
        else if \<not> ulid selector then Inl ErrInvalid
        else case DecodeString encoded of
          None \<Rightarrow> Inl ErrInvalid
        | Some secret \<Rightarrow>
            if length secret \<noteq> 32 \<or> EncodeToString secret \<noteq> encoded then Inl ErrInvalid
            else Inr \<lparr>tk_selector = selector, tk_value = v\<rparr>)"

definition Digest :: "(string \<Rightarrow> string) \<Rightarrow> string \<Rightarrow> string" where
  "Digest sha v = sha (digestDomain @ v)"

text \<open>The comparison takes the same time for malformed input: a fixed value is hashed then.\<close>

definition Verify :: "(string \<Rightarrow> bool) \<Rightarrow> (string \<Rightarrow> string) \<Rightarrow> string \<Rightarrow> string \<Rightarrow> bool" where
  "Verify ulid sha v expected =
     (let (material, valid) = (case Parse ulid v of
            Inl _ \<Rightarrow> (tokenPrefix @ ''00000000000000000000000000.AAAAAAAAAAAAAAAAAAAAAAAAAAAAAAAAAAAAAAAAAAA'', False)
          | Inr parsed \<Rightarrow> (tk_value parsed, True)) in
      Digest sha material = expected \<and> valid)"

section \<open>Round trip\<close>

lemma b64_alphabet_facts: "length b64_alphabet = 64" "distinct b64_alphabet" "CHR ''.'' \<notin> set b64_alphabet"
  "\<forall>c\<in>set b64_alphabet. of_char c \<noteq> (10::nat) \<and> of_char c \<noteq> (13::nat)"
  by code_simp+

lemma b64_value_char: "n < 64 \<Longrightarrow> b64_value (b64_char n) = Some n"
  using b64_alphabet_facts(1,2)
  by (auto simp: b64_value_def b64_char_def find_Some_iff nth_eq_iff_index_eq intro!: exI[of _ n])

lemma b64_char_in: "n < 64 \<Longrightarrow> b64_char n \<in> set b64_alphabet"
  using b64_alphabet_facts(1) by (simp add: b64_char_def)

lemma b64_split_less: "\<forall>b\<in>set bs. b < 256 \<Longrightarrow> \<forall>s\<in>set (b64_split bs). s < 64"
  by (induction bs rule: b64_split.induct) auto

lemma b64_join_split: "\<forall>b\<in>set bs. b < 256 \<Longrightarrow> b64_join (b64_split bs) = Some bs"
proof (induction bs rule: b64_split.induct)
  case (4 a b c r)
  then have "b div 16 < 16" "c div 64 < 4" by auto
  then have "((a mod 4) * 16 + b div 16) div 16 = a mod 4" "((b mod 16) * 4 + c div 64) div 4 = b mod 16"
    "((a mod 4) * 16 + b div 16) mod 16 = b div 16" "((b mod 16) * 4 + c div 64) mod 4 = c div 64" by auto
  then show ?case using 4 by (simp add: mult.commute)
next
  case (3 a b)
  then have "((a mod 4) * 16 + b div 16) div 16 = a mod 4" "((a mod 4) * 16 + b div 16) mod 16 = b div 16" by auto
  then show ?case by (simp add: mult.commute)
qed (auto simp: mult.commute)

lemma length_b64_split: "length (b64_split bs) = (4 * length bs + 2) div 3"
  by (induction bs rule: b64_split.induct) auto

lemma bytes_less: "\<forall>b\<in>set (map of_char (bs :: string)). b < (256::nat)"
  by simp

lemma EncodeToString_chars: "set (EncodeToString bs) \<subseteq> set b64_alphabet"
  using b64_split_less[OF bytes_less[of bs]] b64_char_in by (auto simp: EncodeToString_def)

lemma decode_encode: "DecodeString (EncodeToString bs) = Some bs"
proof -
  let ?ss = "b64_split (map of_char bs)"
  have "filter (\<lambda>c. of_char c \<noteq> (10::nat) \<and> of_char c \<noteq> (13::nat)) (EncodeToString bs) = EncodeToString bs"
    using EncodeToString_chars[of bs] b64_alphabet_facts(4) by (intro filter_True) blast
  moreover have "map b64_value (EncodeToString bs) = map Some ?ss"
    using b64_split_less[OF bytes_less[of bs]] by (simp add: EncodeToString_def b64_value_char)
  ultimately show ?thesis using b64_join_split[OF bytes_less[of bs]] by (auto simp: DecodeString_def Let_def comp_def)
qed

lemma length_EncodeToString: "length (EncodeToString bs) = (4 * length bs + 2) div 3"
  by (simp add: EncodeToString_def length_b64_split)

lemma Cut_append: "CHR ''.'' \<notin> set a \<Longrightarrow> Cut (a @ CHR ''.'' # b) = (a, b, True)"
  by (auto simp: Cut_def takeWhile_append dropWhile_append)

lemma Cut_Some: "Cut s = (a, b, True) \<Longrightarrow> s = a @ CHR ''.'' # b"
proof -
  assume c: "Cut s = (a, b, True)"
  then obtain d rest where d: "dropWhile (\<lambda>c. c \<noteq> CHR ''.'') s = d # rest" by (auto simp: Cut_def split: list.splits)
  then have "d = CHR ''.''" using hd_dropWhile[of "\<lambda>c. c \<noteq> CHR ''.''" s] by auto
  with c d takeWhile_dropWhile_id[of "\<lambda>c. c \<noteq> CHR ''.''" s] show ?thesis by (auto simp: Cut_def)
qed

text \<open>Property C34. Enrollment tokens parse back: the texts that parse are exactly those a generation makes,
  one text for each selector and 32-byte secret, and they parse to the selector and value that were
  generated.\<close>

theorem token_parse_exact:
  assumes "\<forall>i. ulid i \<longrightarrow> length i = 26 \<and> CHR ''.'' \<notin> set i"
  shows "Parse ulid v = Inr t \<longleftrightarrow> (\<exists>secret. length secret = 32 \<and> GenerateWith ulid (Inr secret) (tk_selector t) = Inr t \<and> tk_value t = v)"
proof
  assume "Parse ulid v = Inr t"
  then obtain selector encoded secret where p: "HasPrefix v tokenPrefix" "Cut (drop (length tokenPrefix) v) = (selector, encoded, True)"
    "ulid selector" "length secret = 32" "EncodeToString secret = encoded" "t = \<lparr>tk_selector = selector, tk_value = v\<rparr>"
    by (auto simp: Parse_def split: if_splits prod.splits option.splits)
  have "v = tokenPrefix @ drop (length tokenPrefix) v" using p(1) by (metis HasPrefix_def append_take_drop_id)
  also have "drop (length tokenPrefix) v = selector @ ''.'' @ encoded" using Cut_Some[OF p(2)] by simp
  finally show "\<exists>secret. length secret = 32 \<and> GenerateWith ulid (Inr secret) (tk_selector t) = Inr t \<and> tk_value t = v"
    using p by (auto simp: GenerateWith_def)
next
  assume "\<exists>secret. length secret = 32 \<and> GenerateWith ulid (Inr secret) (tk_selector t) = Inr t \<and> tk_value t = v"
  then obtain secret where s: "length secret = 32" "ulid (tk_selector t)" "t = \<lparr>tk_selector = tk_selector t, tk_value = v\<rparr>"
    "v = tokenPrefix @ tk_selector t @ ''.'' @ EncodeToString secret"
    by (auto simp: GenerateWith_def split: if_splits) (metis token.select_convs token.surjective unit.exhaust)+
  have "CHR ''.'' \<notin> set (EncodeToString secret)" using EncodeToString_chars b64_alphabet_facts(3) by blast
  with s assms show "Parse ulid v = Inr t"
    by (auto simp: Parse_def HasPrefix_def Cut_append decode_encode length_EncodeToString)
qed

text \<open>The canonical ULIDs: 26 characters of Crockford's alphabet, the first at most 7.\<close>

definition crockford_ulid :: "string \<Rightarrow> bool" where
  "crockford_ulid s \<longleftrightarrow> length s = 26 \<and> list_all (\<lambda>c. c \<in> set ''0123456789ABCDEFGHJKMNPQRSTVWXYZ'') s \<and> of_char (hd s) \<le> (55::nat)"

lemma crockford_ulid_facts: "crockford_ulid i \<longrightarrow> length i = 26 \<and> CHR ''.'' \<notin> set i"
proof -
  have "CHR ''.'' \<notin> set ''0123456789ABCDEFGHJKMNPQRSTVWXYZ''" by code_simp
  then show ?thesis unfolding crockford_ulid_def list_all_iff by blast
qed

definition demo_token :: token where
  "demo_token = \<lparr>tk_selector = replicate 26 (CHR ''0''), tk_value = tokenPrefix @ replicate 26 (CHR ''0'') @ ''.'' @ replicate 43 (CHR ''A'')\<rparr>"

theorem token_parse_exact_witness: "Parse crockford_ulid (tk_value demo_token) = Inr demo_token"
proof -
  have "GenerateWith crockford_ulid (Inr (replicate 32 (char_of (0::nat)))) (tk_selector demo_token) = Inr demo_token" by code_simp
  then show ?thesis using token_parse_exact[of crockford_ulid "tk_value demo_token" demo_token] crockford_ulid_facts by auto
qed

section \<open>Verification\<close>

lemma Parse_value: "Parse ulid v = Inr t \<Longrightarrow> tk_value t = v"
  by (auto simp: Parse_def split: if_splits prod.splits option.splits)

lemma Verify_iff: "Verify ulid sha v h \<longleftrightarrow> (\<exists>t. Parse ulid v = Inr t) \<and> Digest sha v = h"
  by (auto simp: Verify_def Let_def Parse_value split: sum.splits)

end
