(* ===== verification/EnrollService.thy ===== *)
theory EnrollService
  imports EnrollStore EnrollToken
begin

text \<open>
  Enrollment and renewal of gateways (src/backend/internal/service/enrollment.go and
  renewal.go): creation of a gateway with its token, replacement of the token, redemption of
  a token for a certificate and renewal of a certificate. A call runs several transactions;
  \<open>others i\<close> is what other processes write before transaction \<open>i\<close>. The clock, the ids, the
  random source, the context, certificate requests and the certificate authority (crypto/x509)
  are arguments. The readings of clock, ids and context are numbered in the order of the source.
\<close>

section \<open>Configuration\<close>

record enrollment_config =
  ec_TokenTTL :: duration
  ec_LeaseTTL :: duration
  ec_SignTimeout :: duration
  ec_SafetyMargin :: duration
  ec_MaxAttempts :: nat

definition DefaultEnrollmentConfig :: enrollment_config where
  "DefaultEnrollmentConfig = \<lparr>ec_TokenTTL = 15 * 60 * 1000000000, ec_LeaseTTL = 60 * 1000000000, ec_SignTimeout = 20 * 1000000000,
     ec_SafetyMargin = 5 * 1000000000, ec_MaxAttempts = 5\<rparr>"

definition Validate_config :: "enrollment_config \<Rightarrow> go_err option" where
  "Validate_config c =
     (if ec_TokenTTL c \<le> 0 \<or> ec_LeaseTTL c \<le> 0 \<or> ec_SignTimeout c \<le> 0 \<or> ec_SignTimeout c \<ge> ec_LeaseTTL c \<or>
        ec_SafetyMargin c \<le> 0 \<or> i64 (ec_SignTimeout c + ec_SafetyMargin c) \<ge> ec_LeaseTTL c \<or> ec_MaxAttempts c = 0
      then Some (Plain ''invalid enrollment config'') else None)"

section \<open>Errors\<close>

text \<open>The error types of the service. The errors of the store are none of them, so the
  branches of mapError that look for an in-progress or rate-limit error are not taken.\<close>

datatype enroll_error = EnrollmentDenied | InvalidCredentialError | InProgressError | RateLimitedError | TransientError go_err
  | StateConflictError go_err | OtherError go_err

definition is_ctx_err :: "go_err \<Rightarrow> bool" where
  "is_ctx_err e \<longleftrightarrow> err_is ''context canceled'' e \<or> err_is ''context deadline exceeded'' e"

definition publicErr :: "go_err \<Rightarrow> enroll_error" where
  "publicErr e =
     (if is_ctx_err e then OtherError e
      else if err_is ''enrollment denied'' e then InvalidCredentialError
      else if err_is ''enrollment state mismatch'' e then StateConflictError e
      else TransientError e)"

text \<open>A denial waits a random time and then reports the context's error, if any.\<close>

definition deniedAt :: "go_err option \<Rightarrow> enroll_error" where
  "deniedAt ctx = (case ctx of Some e \<Rightarrow> OtherError e | None \<Rightarrow> InvalidCredentialError)"

definition mapError :: "go_err option \<Rightarrow> go_err \<Rightarrow> enroll_error" where
  "mapError ctx e =
     (if is_ctx_err e then OtherError e
      else if err_is ''enrollment denied'' e \<or> err_is ''enrollment state mismatch'' e then deniedAt ctx
      else TransientError e)"

section \<open>Audit events\<close>

record actor =
  ac_Type :: string
  ac_ID :: string
  ac_RequestID :: string

definition audit :: "string \<Rightarrow> actor \<Rightarrow> string \<Rightarrow> string \<Rightarrow> string \<Rightarrow> int \<Rightarrow> (string \<times> string) list \<Rightarrow> audit_event" where
  "audit eid act action resource outcome atMs meta =
     \<lparr>ev_ID = eid, ev_ActorType = ac_Type act, ev_Action = action, ev_ResourceType = ''gateway'', ev_Outcome = outcome,
      ev_OrganizationID = None, ev_ActorID = Some (ac_ID act), ev_ResourceID = Some resource,
      ev_RequestID = (if ac_RequestID act = [] then None else Some (ac_RequestID act)), ev_SourceIP = [],
      ev_Metadata = MObject (map (\<lambda>(k, v). (k, MText v)) (filter (\<lambda>(k, v). k \<noteq> ''gateway_id'') meta @ [(''gateway_id'', resource)])),
      ev_CreatedAt = atMs\<rparr>"

text \<open>The verb \<open>%x\<close> on bytes.\<close>

definition hex_bytes :: "string \<Rightarrow> string" where
  "hex_bytes bs = concat (map (\<lambda>c. let n = of_char c :: nat in [hex_char (n div 16), hex_char (n mod 16)]) bs)"

abbreviation node_actor :: "string \<Rightarrow> string \<Rightarrow> actor" where
  "node_actor gid requestID \<equiv> \<lparr>ac_Type = ''gateway'', ac_ID = gid, ac_RequestID = requestID\<rparr>"

section \<open>Issuing tokens\<close>

definition safePrefix :: "string \<Rightarrow> string" where
  "safePrefix v = take 16 v"

definition newEnrollmentToken :: "enrollment_config \<Rightarrow> (string \<Rightarrow> bool) \<Rightarrow> (string \<Rightarrow> string) \<Rightarrow> string result \<Rightarrow> string \<Rightarrow> gotime \<Rightarrow> string \<Rightarrow> string
    \<Rightarrow> (token \<times> enrollment_token) result" where
  "newEnrollmentToken cfg ulid sha secret selector now gid actorID =
     bindr (GenerateWith ulid secret selector) (\<lambda>t.
       Inr (t, \<lparr>tn_ID = tk_selector t, tn_GatewayID = gid, tn_TokenPrefix = safePrefix (tk_value t), tn_Status = TokenActive,
                tn_CreatedByUserID = actorID, tn_TokenHash = Digest sha (tk_value t), tn_AttemptCount = 0,
                tn_MaxAttempts = ec_MaxAttempts cfg, tn_ExpiresAt = UnixMilli (now + ec_TokenTTL cfg), tn_CreatedAt = UnixMilli now,
                tn_UpdatedAt = UnixMilli now, tn_RedemptionNonce = None, tn_CSRSHA256 = None, tn_RedeemingAt = None,
                tn_LeaseExpiresAt = None, tn_ConsumedAt = None, tn_RevokedAt = None\<rparr>))"

record create_input =
  ci_Label :: "string option"
  ci_Notes :: "string option"
  ci_Capacity :: "int option"
  ci_CreatedByUserID :: string
  ci_Actor :: actor

record issued_enrollment =
  is_GatewayID :: string
  is_TokenID :: string
  is_Token :: string
  is_ExpiresAt :: int

record issue_env =
  ie_cfg :: enrollment_config
  ie_ulid :: "string \<Rightarrow> bool"
  ie_sha :: "string \<Rightarrow> string"
  ie_marshal :: "metadata \<Rightarrow> string result"
  ie_secret :: "string result"
  ie_ids :: "nat \<Rightarrow> string"
  ie_now :: gotime
  ie_faults :: faults
  ie_commit :: commit

definition actorOrCreator :: "actor \<Rightarrow> string \<Rightarrow> actor" where
  "actorOrCreator act createdBy = (if ac_ID act \<noteq> [] then act else \<lparr>ac_Type = ''user'', ac_ID = createdBy, ac_RequestID = []\<rparr>)"

definition isUserActor :: "actor \<Rightarrow> bool" where
  "isUserActor act \<longleftrightarrow> ac_Type act = ''user'' \<and> ac_ID act \<noteq> []"

definition newGateway :: "gotime \<Rightarrow> string \<Rightarrow> create_input \<Rightarrow> gateway_row" where
  "newGateway now gid inp = (new_gateway gid GatewayPendingEnrollment (UnixMilli now) (UnixMilli now))
     \<lparr>gw_Label := ci_Label inp, gw_Capacity := ci_Capacity inp\<rparr>"

definition issued :: "string \<Rightarrow> token \<times> enrollment_token \<Rightarrow> issued_enrollment" where
  "issued gid x = \<lparr>is_GatewayID = gid, is_TokenID = tk_selector (fst x), is_Token = tk_value (fst x), is_ExpiresAt = tn_ExpiresAt (snd x)\<rparr>"

definition CreateGateway :: "issue_env \<Rightarrow> create_input \<Rightarrow> enroll_db \<Rightarrow> enroll_db \<times> (enroll_error + issued_enrollment)" where
  "CreateGateway env inp db =
     (let act = actorOrCreator (ci_Actor inp) (ci_CreatedByUserID inp) in
      if \<not> isUserActor act then (db, Inl EnrollmentDenied)
      else let now = ie_now env; gid = ''gw_'' @ ie_ids env 0 in
        case newEnrollmentToken (ie_cfg env) (ie_ulid env) (ie_sha env) (ie_secret env) (ie_ids env 1) now gid (ac_ID act) of
          Inl e \<Rightarrow> (db, Inl (OtherError e))
        | Inr x \<Rightarrow>
            (case CreatePendingWithToken (ie_marshal env) (ie_faults env) (ie_commit env) (newGateway now gid inp) (ci_Notes inp) (ac_ID act)
                    (snd x) [audit (ie_ids env 2) act ''gateway.created'' gid ''success'' (UnixMilli now) [],
                             audit (ie_ids env 3) act ''enrollment.issued'' gid ''success'' (UnixMilli now) []] db of
               (db', Inl e) \<Rightarrow> (db', Inl (OtherError e))
             | (db', Inr _) \<Rightarrow> (db', Inr (issued gid x))))"

definition ReplaceTokenAs :: "issue_env \<Rightarrow> string \<Rightarrow> actor \<Rightarrow> enroll_db \<Rightarrow> enroll_db \<times> (enroll_error + issued_enrollment)" where
  "ReplaceTokenAs env gid act db =
     (if gid = [] \<or> ac_ID act = [] \<or> ac_Type act \<noteq> ''user'' then (db, Inl EnrollmentDenied)
      else let now = ie_now env in
        case newEnrollmentToken (ie_cfg env) (ie_ulid env) (ie_sha env) (ie_secret env) (ie_ids env 0) now gid (ac_ID act) of
          Inl e \<Rightarrow> (db, Inl (OtherError e))
        | Inr x \<Rightarrow>
            (case ReplaceLiveToken (ie_marshal env) (ie_faults env) (ie_commit env) gid (snd x)
                    (audit (ie_ids env 1) act ''enrollment.replaced'' gid ''success'' (UnixMilli now) []) (UnixMilli now) db of
               (db', Inl e) \<Rightarrow> (db', Inl (publicErr e))
             | (db', Inr _) \<Rightarrow> (db', Inr (issued gid x))))"

definition ReplaceToken :: "issue_env \<Rightarrow> string \<Rightarrow> string \<Rightarrow> enroll_db \<Rightarrow> enroll_db \<times> (enroll_error + issued_enrollment)" where
  "ReplaceToken env gid userID = ReplaceTokenAs env gid \<lparr>ac_Type = ''user'', ac_ID = userID, ac_RequestID = []\<rparr>"

section \<open>Redeeming a token\<close>

record enrollment_result =
  er_GatewayID :: string
  er_CertificatePEM :: string
  er_TrustBundlePEM :: string
  er_AuthorityID :: string
  er_SerialNumber :: string
  er_NotBefore :: int
  er_NotAfter :: int

definition resultFromCertificate :: "gateway_certificate \<Rightarrow> enrollment_result" where
  "resultFromCertificate c = \<lparr>er_GatewayID = gc_GatewayID c, er_CertificatePEM = gc_CertificatePEM c, er_TrustBundlePEM = gc_TrustBundlePEM c,
     er_AuthorityID = gc_AuthorityID c, er_SerialNumber = gc_SerialNumber c, er_NotBefore = gc_NotBefore c, er_NotAfter = gc_NotAfter c\<rparr>"

record signed_certificate =
  sg_AuthorityID :: string
  sg_Serial :: string
  sg_ChainPEM :: string
  sg_TrustBundlePEM :: string
  sg_Fingerprint :: string
  sg_NotBefore :: gotime
  sg_NotAfter :: gotime

text \<open>\<open>rd_csr\<close> is \<open>pki.ValidateCSR\<close> with the hash of the accepted request, \<open>rd_sign\<close> the signer
  (gateway, token, request, deadline) and \<open>rd_check\<close> \<open>pki.ValidateSignedGateway\<close>.\<close>

record 'c redeem_env =
  rd_cfg :: enrollment_config
  rd_ulid :: "string \<Rightarrow> bool"
  rd_sha :: "string \<Rightarrow> string"
  rd_marshal :: "metadata \<Rightarrow> string result"
  rd_ca :: "string \<Rightarrow> bool"
  rd_now :: "nat \<Rightarrow> gotime"
  rd_ids :: "nat \<Rightarrow> string"
  rd_nonce :: "string result"
  rd_ctx :: "nat \<Rightarrow> go_err option"
  rd_csr :: "string \<Rightarrow> string \<Rightarrow> (string \<times> 'c) result"
  rd_sign :: "string \<Rightarrow> string \<Rightarrow> 'c \<Rightarrow> gotime \<Rightarrow> signed_certificate result"
  rd_check :: "signed_certificate \<Rightarrow> 'c \<Rightarrow> string \<Rightarrow> gotime \<Rightarrow> go_err option"
  rd_faults :: "nat \<Rightarrow> faults"
  rd_commit :: "nat \<Rightarrow> commit"
  rd_others :: "nat \<Rightarrow> enroll_db \<Rightarrow> enroll_db"

record presented =
  pe_tokenID :: string
  pe_gatewayID :: string
  pe_expected :: string
  pe_credential :: bool

definition fallbackTokenID :: string where "fallbackTokenID = replicate 26 (CHR ''0'')"

text \<open>\<open>copy\<close> into an array of 32 zero bytes.\<close>

definition copy32 :: "string \<Rightarrow> string" where
  "copy32 h = take 32 (h @ drop (length h) (replicate 32 (char_of (0::nat))))"

definition resolveCredential :: "'c redeem_env \<Rightarrow> string \<Rightarrow> enroll_db \<Rightarrow> presented" where
  "resolveCredential env v db =
     (let parsed = Parse (rd_ulid env) v;
          tid = (case parsed of Inr t \<Rightarrow> tk_selector t | Inl _ \<Rightarrow> fallbackTokenID);
          lookup = LookupSelector (rd_faults env 0 0) tid db;
          expected = (case lookup of Inr r \<Rightarrow> copy32 (tn_TokenHash r) | Inl _ \<Rightarrow> copy32 []);
          nobody = \<lparr>pe_tokenID = tid, pe_gatewayID = [], pe_expected = copy32 [], pe_credential = False\<rparr> in
      if \<not> Verify (rd_ulid env) (rd_sha env) v expected then nobody
      else case (parsed, lookup) of
        (Inr _, Inr r) \<Rightarrow> \<lparr>pe_tokenID = tid, pe_gatewayID = tn_GatewayID r, pe_expected = expected, pe_credential = True\<rparr>
      | _ \<Rightarrow> nobody)"

record 'c parsed_csr =
  pc_validated :: "'c option"
  pc_hash :: string
  pc_valid :: bool

definition parseCSR :: "'c redeem_env \<Rightarrow> string \<Rightarrow> string \<Rightarrow> 'c parsed_csr" where
  "parseCSR env der gid =
     (case rd_csr env der gid of
        Inl _ \<Rightarrow> \<lparr>pc_validated = None, pc_hash = rd_sha env der, pc_valid = False\<rparr>
      | Inr (h, c) \<Rightarrow> \<lparr>pc_validated = Some c, pc_hash = h, pc_valid = True\<rparr>)"

definition startLease :: "'c redeem_env \<Rightarrow> string \<Rightarrow> presented \<Rightarrow> string \<Rightarrow> gotime \<Rightarrow> 'c parsed_csr \<Rightarrow> enroll_db \<Rightarrow> enroll_db \<times> disposition result" where
  "startLease env requestID cred nonce now csr =
     AcquireEnrollmentLease (rd_marshal env) (rd_faults env 1) (rd_commit env 1)
       \<lparr>ai_GatewayID = pe_gatewayID cred, ai_TokenID = pe_tokenID cred, ai_ExpectedHash = pe_expected cred, ai_CSRHash = pc_hash csr,
        ai_Nonce = nonce, ai_Now = UnixMilli now, ai_LeaseUntil = UnixMilli (now + ec_LeaseTTL (rd_cfg env)), ai_CSRValid = pc_valid csr,
        ai_StartedAudit = audit (rd_ids env 0) (node_actor (pe_gatewayID cred) requestID) ''enrollment.started'' (pe_gatewayID cred)
          ''success'' (UnixMilli now) []\<rparr>"

text \<open>\<open>None\<close>: the lease was acquired and the request goes on.\<close>

definition handleLeaseDisposition :: "'c redeem_env \<Rightarrow> disposition \<Rightarrow> (enroll_error + enrollment_result) option" where
  "handleLeaseDisposition env d =
     (case d of
        DispositionReplay cert \<Rightarrow> Some (Inr (resultFromCertificate cert))
      | DispositionInvalid \<Rightarrow> Some (Inl (deniedAt (rd_ctx env 1)))
      | DispositionRateLimited \<Rightarrow> Some (Inl RateLimitedError)
      | DispositionInProgress \<Rightarrow> Some (Inl InProgressError)
      | DispositionAcquired \<Rightarrow> None)"

definition calculateSigningDeadline :: "'c redeem_env \<Rightarrow> gotime \<Rightarrow> gotime \<Rightarrow> gotime \<times> bool" where
  "calculateSigningDeadline env now leaseUntil =
     (let deadline = min (now + ec_SignTimeout (rd_cfg env)) (leaseUntil - ec_SafetyMargin (rd_cfg env)) in
      (deadline, deadline > rd_now env 2))"

definition release_lease :: "'c redeem_env \<Rightarrow> presented \<Rightarrow> string \<Rightarrow> string \<Rightarrow> string \<Rightarrow> string \<Rightarrow> enroll_db \<Rightarrow> enroll_db" where
  "release_lease env cred nonce csr cls requestID db =
     (let now = UnixMilli (rd_now env 6) in
      fst (ReleaseEnrollmentLease (rd_marshal env) (rd_faults env 4) (rd_commit env 4)
        \<lparr>ri_GatewayID = pe_gatewayID cred, ri_TokenID = pe_tokenID cred, ri_ExpectedHash = pe_expected cred, ri_Nonce = nonce,
         ri_CSRHash = csr, ri_Now = now,
         ri_FailureAudit = audit (rd_ids env 3) (node_actor (pe_gatewayID cred) requestID) ''enrollment.failed'' (pe_gatewayID cred)
           ''failure'' now [(''failure_class'', cls)]\<rparr> (rd_others env 4 db)))"

definition enrollment_certificate :: "string \<Rightarrow> presented \<Rightarrow> string \<Rightarrow> signed_certificate \<Rightarrow> int \<Rightarrow> gateway_certificate" where
  "enrollment_certificate cid cred csr sc now =
     \<lparr>gc_ID = cid, gc_GatewayID = pe_gatewayID cred, gc_AuthorityID = sg_AuthorityID sc, gc_IssuanceKind = KindEnrollment,
      gc_EnrollmentTokenID = Some (pe_tokenID cred), gc_CSRSHA256 = csr, gc_SerialNumber = sg_Serial sc,
      gc_CertificatePEM = sg_ChainPEM sc, gc_TrustBundlePEM = sg_TrustBundlePEM sc, gc_Fingerprint = sg_Fingerprint sc,
      gc_NotBefore = UnixMilli (sg_NotBefore sc), gc_NotAfter = UnixMilli (sg_NotAfter sc), gc_RevokedAt = None,
      gc_RevocationReason = None, gc_CreatedAt = now\<rparr>"

definition finalize_request :: "'c redeem_env \<Rightarrow> presented \<Rightarrow> string \<Rightarrow> string \<Rightarrow> string \<Rightarrow> signed_certificate \<Rightarrow> finalize_input" where
  "finalize_request env cred nonce csr requestID sc =
     (let now = UnixMilli (rd_now env 4) in
      \<lparr>fi_GatewayID = pe_gatewayID cred, fi_TokenID = pe_tokenID cred, fi_ExpectedHash = pe_expected cred, fi_Nonce = nonce,
       fi_CSRHash = csr, fi_Now = now, fi_Certificate = enrollment_certificate (rd_ids env 1) cred csr sc now,
       fi_SucceededAudit = audit (rd_ids env 2) (node_actor (pe_gatewayID cred) requestID) ''enrollment.succeeded'' (pe_gatewayID cred)
         ''success'' now [(''certificate_fingerprint'', hex_bytes (sg_Fingerprint sc))]\<rparr>)"

definition persistCertificate :: "'c redeem_env \<Rightarrow> presented \<Rightarrow> string \<Rightarrow> string \<Rightarrow> string \<Rightarrow> signed_certificate \<Rightarrow> enroll_db
    \<Rightarrow> enroll_db \<times> (enroll_error + enrollment_result)" where
  "persistCertificate env cred nonce csr requestID sc db =
     (case FinalizeEnrollmentIssuance (rd_ca env) (rd_marshal env) (rd_faults env 2) (rd_commit env 2)
             (finalize_request env cred nonce csr requestID sc) (rd_others env 2 db) of
        (db1, Inr persisted) \<Rightarrow> (db1, Inr (resultFromCertificate persisted))
      | (db1, Inl e) \<Rightarrow>
          (case RecoverEnrollmentIssuance (rd_faults env 3) (rd_commit env 3) (pe_gatewayID cred) (pe_tokenID cred) (pe_expected cred) csr
                  (UnixMilli (rd_now env 5)) (rd_others env 3 db1) of
             (db2, Inr recovered) \<Rightarrow> (db2, Inr (resultFromCertificate recovered))
           | (db2, Inl _) \<Rightarrow>
               (release_lease env cred nonce csr ''finalize_failure'' requestID db2,
                Inl (case rd_ctx env 3 of
                       Some ce \<Rightarrow> OtherError ce
                     | None \<Rightarrow> if err_is ''enrollment state mismatch'' e then deniedAt (rd_ctx env 4) else TransientError e))))"

definition signed_request :: "'c redeem_env \<Rightarrow> presented \<Rightarrow> string \<Rightarrow> 'c parsed_csr \<Rightarrow> string \<Rightarrow> gotime \<Rightarrow> enroll_db
    \<Rightarrow> enroll_db \<times> (enroll_error + enrollment_result)" where
  "signed_request env cred nonce csr requestID deadline db =
     (let give_up = (\<lambda>cls. release_lease env cred nonce (pc_hash csr) cls requestID db) in
      case rd_sign env (pe_gatewayID cred) (pe_tokenID cred) (the (pc_validated csr)) deadline of
        Inl e \<Rightarrow> (give_up ''sign_failure'', Inl (case rd_ctx env 2 of Some ce \<Rightarrow> OtherError ce | None \<Rightarrow> TransientError e))
      | Inr sc \<Rightarrow>
          (case rd_check env sc (the (pc_validated csr)) (pe_gatewayID cred) (rd_now env 3) of
             Some e \<Rightarrow> (give_up ''invalid_signer_output'', Inl (TransientError e))
           | None \<Rightarrow> persistCertificate env cred nonce (pc_hash csr) requestID sc db))"

record redeem_input =
  rp_Token :: string
  rp_CSRDER :: string
  rp_RequestID :: string

definition RedeemWithInput :: "'c redeem_env \<Rightarrow> redeem_input \<Rightarrow> enroll_db \<Rightarrow> enroll_db \<times> (enroll_error + enrollment_result)" where
  "RedeemWithInput env inp db =
     (let cred = resolveCredential env (rp_Token inp) db in
      if \<not> pe_credential cred then (db, Inl (deniedAt (rd_ctx env 0)))
      else let csr = parseCSR env (rp_CSRDER inp) (pe_gatewayID cred) in
        case rd_nonce env of
          Inl e \<Rightarrow> (db, Inl (OtherError e))
        | Inr nonce \<Rightarrow>
            (let now = rd_now env 1 in
             case startLease env (rp_RequestID inp) cred nonce now csr (rd_others env 1 db) of
               (db1, Inl e) \<Rightarrow> (db1, Inl (mapError (rd_ctx env 1) e))
             | (db1, Inr d) \<Rightarrow>
                 (case handleLeaseDisposition env d of
                    Some answer \<Rightarrow> (db1, answer)
                  | None \<Rightarrow>
                      (case calculateSigningDeadline env now (now + ec_LeaseTTL (rd_cfg env)) of
                         (deadline, False) \<Rightarrow>
                           (release_lease env cred nonce (pc_hash csr) ''lease_exhausted'' (rp_RequestID inp) db1,
                            Inl (TransientError (Sentinel ''context deadline exceeded'')))
                       | (deadline, True) \<Rightarrow> signed_request env cred nonce csr (rp_RequestID inp) deadline db1))))"

section \<open>Renewal\<close>

record 'c renew_env =
  rn_marshal :: "metadata \<Rightarrow> string result"
  rn_ca :: "string \<Rightarrow> bool"
  rn_now :: "nat \<Rightarrow> gotime"
  rn_ids :: "nat \<Rightarrow> string"
  rn_ctx :: "nat \<Rightarrow> go_err option"
  rn_csr :: "string \<Rightarrow> string \<Rightarrow> (string \<times> 'c) result"
  rn_sign :: "string \<Rightarrow> 'c \<Rightarrow> signed_certificate result"
  rn_check :: "signed_certificate \<Rightarrow> 'c \<Rightarrow> string \<Rightarrow> gotime \<Rightarrow> go_err option"
  rn_faults :: "nat \<Rightarrow> faults"
  rn_commit :: "nat \<Rightarrow> commit"
  rn_others :: "nat \<Rightarrow> enroll_db \<Rightarrow> enroll_db"

definition mapRenewalError :: "go_err option \<Rightarrow> go_err \<Rightarrow> enroll_error" where
  "mapRenewalError ctx e =
     (case ctx of
        Some ce \<Rightarrow> OtherError ce
      | None \<Rightarrow> if err_is ''certificate renewal state mismatch'' e then InvalidCredentialError else TransientError e)"

definition renewalAudit :: "string \<Rightarrow> string \<Rightarrow> string \<Rightarrow> int \<Rightarrow> audit_event" where
  "renewalAudit eid gid fingerprint now =
     \<lparr>ev_ID = eid, ev_ActorType = ''gateway'', ev_Action = ''renewal.succeeded'', ev_ResourceType = ''gateway'', ev_Outcome = ''success'',
      ev_OrganizationID = None, ev_ActorID = Some gid, ev_ResourceID = Some gid, ev_RequestID = None, ev_SourceIP = [],
      ev_Metadata = MObject [(''certificate_fingerprint'', MText (hex_bytes fingerprint))], ev_CreatedAt = now\<rparr>"

definition renewal_certificate :: "string \<Rightarrow> string \<Rightarrow> string \<Rightarrow> signed_certificate \<Rightarrow> int \<Rightarrow> gateway_certificate" where
  "renewal_certificate cid gid csr sc now =
     \<lparr>gc_ID = cid, gc_GatewayID = gid, gc_AuthorityID = sg_AuthorityID sc, gc_IssuanceKind = KindRenewal,
      gc_EnrollmentTokenID = None, gc_CSRSHA256 = csr, gc_SerialNumber = sg_Serial sc, gc_CertificatePEM = sg_ChainPEM sc,
      gc_TrustBundlePEM = sg_TrustBundlePEM sc, gc_Fingerprint = sg_Fingerprint sc, gc_NotBefore = UnixMilli (sg_NotBefore sc),
      gc_NotAfter = UnixMilli (sg_NotAfter sc), gc_RevokedAt = None, gc_RevocationReason = None, gc_CreatedAt = now\<rparr>"

text \<open>What follows the signature; the answer of a failed write is looked up again.\<close>

definition finish_renewal :: "'c renew_env \<Rightarrow> renewal_credential \<Rightarrow> string \<Rightarrow> signed_certificate \<Rightarrow> enroll_db \<Rightarrow> enroll_db \<times> (enroll_error + enrollment_result)" where
  "finish_renewal env cr csr sc db =
     (let issuedAt = UnixMilli (rn_now env 2) in
      case FinalizeRenewal (rn_ca env) (rn_marshal env) (rn_faults env 1) (rn_commit env 1) cr csr issuedAt
             (renewal_certificate (rn_ids env 0) (rw_GatewayID cr) csr sc issuedAt)
             (renewalAudit (rn_ids env 1) (rw_GatewayID cr) (sg_Fingerprint sc) issuedAt) (rn_others env 1 db) of
        (db1, Inr persisted) \<Rightarrow> (db1, Inr (resultFromCertificate persisted))
      | (db1, Inl e) \<Rightarrow>
          (case PrepareRenewal (rn_faults env 2) (rn_commit env 2) cr csr (UnixMilli (rn_now env 3)) (rn_others env 2 db1) of
             (db2, Inr (Some replayed)) \<Rightarrow> (db2, Inr (resultFromCertificate replayed))
           | (db2, _) \<Rightarrow> (db2, Inl (mapRenewalError (rn_ctx env 2) e))))"

definition Renew :: "'c renew_env \<Rightarrow> renewal_credential \<Rightarrow> string \<Rightarrow> enroll_db \<Rightarrow> enroll_db \<times> (enroll_error + enrollment_result)" where
  "Renew env cr der db =
     (if rw_GatewayID cr = [] \<or> rw_CertificateID cr = [] \<or> rw_SerialNumber cr = [] \<or> rw_Fingerprint cr = []
      then (db, Inl InvalidCredentialError)
      else case rn_csr env der (rw_GatewayID cr) of
        Inl _ \<Rightarrow> (db, Inl InvalidCredentialError)
      | Inr (h, c) \<Rightarrow>
          (case PrepareRenewal (rn_faults env 0) (rn_commit env 0) cr h (UnixMilli (rn_now env 0)) (rn_others env 0 db) of
             (db1, Inl e) \<Rightarrow> (db1, Inl (mapRenewalError (rn_ctx env 0) e))
           | (db1, Inr (Some replay)) \<Rightarrow> (db1, Inr (resultFromCertificate replay))
           | (db1, Inr None) \<Rightarrow>
               (case rn_sign env (rw_GatewayID cr) c of
                  Inl e \<Rightarrow> (db1, Inl (case rn_ctx env 1 of Some ce \<Rightarrow> OtherError ce | None \<Rightarrow> TransientError e))
                | Inr sc \<Rightarrow>
                    (case rn_check env sc c (rw_GatewayID cr) (rn_now env 1) of
                       Some e \<Rightarrow> (db1, Inl (TransientError e))
                     | None \<Rightarrow> finish_renewal env cr h sc db1))))"

end
