(* ===== verification/EnrollSteps.thy ===== *)
theory EnrollSteps
  imports EnrollService
begin

text \<open>
  What is proved of enrollment and renewal: the transactions of any number of processes,
  with failing calls and commits whose outcome is not reported, as a step relation on the
  tables, its invariant, and what a redemption, a repeated redemption and a renewal give.
\<close>

section \<open>Transactions\<close>

lemma withTx_cases:
  assumes "withTx f c db body = (db', q)"
  obtains (none) e where "db' = db" "q = Inl e"
    | (applied) a where "body = Inr (db', a)" "q = Inr a \<or> (\<exists>e. q = Inl e)"
  using assms by (auto simp: withTx_def split: sum.splits prod.splits commit.splits)

lemma withGatewayTx_cases:
  assumes "withGatewayTx f c gid db body = (db', q)"
  obtains (none) e where "db' = db" "q = Inl e"
    | (applied) g a where "loadGateway None gid db = Inr g" "body g = Inr (db', a)" "q = Inr a \<or> (\<exists>e. q = Inl e)"
proof -
  from assms have "withTx f c db (bindr (loadGateway (f 1) gid db) body) = (db', q)" by (simp add: withGatewayTx_def)
  then show ?thesis
  proof (cases rule: withTx_cases)
    case none
    then show ?thesis by (rule that(1))
  next
    case (applied a)
    then obtain g where "loadGateway (f 1) gid db = Inr g" "body g = Inr (db', a)" by auto
    then show ?thesis using that(2)[of g a] applied(2) by (simp add: loadGateway_def)
  qed
qed

lemma loadGateway_Inr:
  "loadGateway ft gid db = Inr g \<Longrightarrow> \<exists>r\<in>set (rg_gateways (ed_registry db)). gw_ID r = gid \<and> g = \<lparr>gl_ID = gid, gl_Status = gw_Status r, gl_Deleted = gw_DeletedAt r \<noteq> None\<rparr>"
  by (auto simp: loadGateway_def find_Some_iff split: option.splits)

lemma loadToken_Inr:
  "loadToken ft g tid h db = Inr t \<longleftrightarrow> ft = None \<and> find (\<lambda>t. tn_ID t = tid) (ed_tokens db) = Some t \<and> tn_GatewayID t = gl_ID g \<and> tn_TokenHash t = h"
  by (auto simp: loadToken_def getForUpdate_def split: sum.splits option.splits if_splits)

lemma update_tokens_Inr:
  "update_tokens ft P g db = Inr (db', n) \<longleftrightarrow> ft = None \<and> (\<forall>t\<in>set (ed_tokens db). P t \<longrightarrow> token_check (g t)) \<and>
     db' = db\<lparr>ed_tokens := upd_rows P g (ed_tokens db)\<rparr> \<and> n = matched P (ed_tokens db)"
  by (auto simp: update_tokens_def)

lemma Append_audit_Inr: "Append_audit m ft e db = Inr db' \<Longrightarrow> db' = db\<lparr>ed_audits := ed_audits db @ [e]\<rparr>"
  by (auto simp: Append_audit_def split: if_splits)

lemma append_audits_Inr: "append_audits m f i es db = Inr db' \<Longrightarrow> db' = db\<lparr>ed_audits := ed_audits db @ es\<rparr>"
  by (induction es arbitrary: i db) (simp, fastforce dest: Append_audit_Inr)

lemma insert_cert_Inr:
  assumes "insert_cert ca ft c db = Inr db'"
  shows "db' = db\<lparr>ed_certs := ed_certs db @ [c\<lparr>gc_RevokedAt := None, gc_RevocationReason := None\<rparr>]\<rparr>" "cert_check c"
    "\<And>d. d \<in> set (ed_certs db) \<Longrightarrow> \<not> cert_conflict c d"
  using assms by (auto simp: insert_cert_def split: if_splits)

lemma issue_Inr:
  assumes "issue ft t db = Inr db'"
  shows "db' = db\<lparr>ed_tokens := ed_tokens db @ [new_token t]\<rparr>" "token_check (new_token t)" "tn_ID t \<notin> tn_ID ` set (ed_tokens db)"
    "tn_GatewayID t \<in> gw_ID ` set (rg_gateways (ed_registry db))"
  using assms by (force simp: issue_def split: if_splits)+

lemma new_token_simps [simp]:
  "tn_ID (new_token t) = tn_ID t" "tn_GatewayID (new_token t) = tn_GatewayID t" "tn_Status (new_token t) = TokenActive"
  "tn_MaxAttempts (new_token t) = tn_MaxAttempts t" "tn_AttemptCount (new_token t) = 0" "tn_TokenHash (new_token t) = tn_TokenHash t"
  by (simp_all add: new_token_def no_lease_def)

lemma no_lease_simps [simp]:
  "tn_ID (no_lease t) = tn_ID t" "tn_GatewayID (no_lease t) = tn_GatewayID t" "tn_Status (no_lease t) = tn_Status t"
  "tn_MaxAttempts (no_lease t) = tn_MaxAttempts t" "tn_AttemptCount (no_lease t) = tn_AttemptCount t" "tn_TokenHash (no_lease t) = tn_TokenHash t"
  by (simp_all add: no_lease_def)

section \<open>The invariant\<close>

definition enrolls :: "enrollment_token \<Rightarrow> gateway_certificate \<Rightarrow> bool" where
  "enrolls t c \<longleftrightarrow> gc_IssuanceKind c = KindEnrollment \<and> gc_EnrollmentTokenID c = Some (tn_ID t) \<and> gc_GatewayID c = tn_GatewayID t"

definition consumed :: "enrollment_token \<Rightarrow> bool" where
  "consumed t \<longleftrightarrow> tn_Status t = TokenConsumed"

definition gateways_of :: "enroll_db \<Rightarrow> gateway_row list" where
  "gateways_of db = rg_gateways (ed_registry db)"

text \<open>The tokens of the tables, and how they agree with the gateways and the certificates.\<close>

definition tokens_ok :: "registry \<Rightarrow> enrollment_token list \<Rightarrow> bool" where
  "tokens_ok r ts \<longleftrightarrow> distinct (map tn_ID ts) \<and> distinct (map gw_ID (rg_gateways r)) \<and>
     (\<forall>t\<in>set ts. token_check t \<and> tn_GatewayID t \<in> gw_ID ` set (rg_gateways r)) \<and>
     (\<forall>t\<in>set ts. \<forall>s\<in>set ts. (live t \<or> consumed t) \<and> (live s \<or> consumed s) \<and> tn_GatewayID t = tn_GatewayID s \<longrightarrow> tn_ID t = tn_ID s) \<and>
     (\<forall>t\<in>set ts. consumed t \<longrightarrow> (\<forall>g\<in>set (rg_gateways r). gw_ID g = tn_GatewayID t \<longrightarrow> gw_Status g \<noteq> GatewayPendingEnrollment))"

definition certs_ok :: "enrollment_token list \<Rightarrow> gateway_certificate list \<Rightarrow> bool" where
  "certs_ok ts cs \<longleftrightarrow> distinct (map gc_ID cs) \<and>
     (\<forall>t\<in>set ts. consumed t \<longrightarrow> matched (enrolls t) cs = 1) \<and>
     (\<forall>c\<in>set cs. gc_IssuanceKind c = KindEnrollment \<longrightarrow> (\<exists>t\<in>set ts. consumed t \<and> enrolls t c))"

definition enroll_inv :: "enroll_db \<Rightarrow> bool" where
  "enroll_inv db \<longleftrightarrow> tokens_ok (ed_registry db) (ed_tokens db) \<and> certs_ok (ed_tokens db) (ed_certs db)"

lemma tokens_okD:
  assumes "tokens_ok r ts"
  shows "distinct (map tn_ID ts)" "distinct (map gw_ID (rg_gateways r))"
    "\<And>t. t \<in> set ts \<Longrightarrow> token_check t" "\<And>t. t \<in> set ts \<Longrightarrow> tn_GatewayID t \<in> gw_ID ` set (rg_gateways r)"
    "\<And>t s. t \<in> set ts \<Longrightarrow> s \<in> set ts \<Longrightarrow> live t \<or> consumed t \<Longrightarrow> live s \<or> consumed s \<Longrightarrow> tn_GatewayID t = tn_GatewayID s \<Longrightarrow> tn_ID t = tn_ID s"
    "\<And>t g. t \<in> set ts \<Longrightarrow> consumed t \<Longrightarrow> g \<in> set (rg_gateways r) \<Longrightarrow> gw_ID g = tn_GatewayID t \<Longrightarrow> gw_Status g \<noteq> GatewayPendingEnrollment"
  using assms unfolding tokens_ok_def by blast+

lemma tokens_okI:
  assumes "distinct (map tn_ID ts)" "distinct (map gw_ID (rg_gateways r))"
    "\<And>t. t \<in> set ts \<Longrightarrow> token_check t" "\<And>t. t \<in> set ts \<Longrightarrow> tn_GatewayID t \<in> gw_ID ` set (rg_gateways r)"
    "\<And>t s. t \<in> set ts \<Longrightarrow> s \<in> set ts \<Longrightarrow> live t \<or> consumed t \<Longrightarrow> live s \<or> consumed s \<Longrightarrow> tn_GatewayID t = tn_GatewayID s \<Longrightarrow> tn_ID t = tn_ID s"
    "\<And>t g. t \<in> set ts \<Longrightarrow> consumed t \<Longrightarrow> g \<in> set (rg_gateways r) \<Longrightarrow> gw_ID g = tn_GatewayID t \<Longrightarrow> gw_Status g \<noteq> GatewayPendingEnrollment"
  shows "tokens_ok r ts"
  using assms unfolding tokens_ok_def by blast

text \<open>An update of live tokens that consumes none.\<close>

definition spares :: "(enrollment_token \<Rightarrow> bool) \<Rightarrow> (enrollment_token \<Rightarrow> enrollment_token) \<Rightarrow> enrollment_token list \<Rightarrow> bool" where
  "spares P g ts \<longleftrightarrow> (\<forall>t\<in>set ts. P t \<longrightarrow> live t \<and> tn_ID (g t) = tn_ID t \<and> tn_GatewayID (g t) = tn_GatewayID t \<and>
     token_check (g t) \<and> \<not> consumed (g t))"

lemma live_not_consumed: "live t \<Longrightarrow> \<not> consumed t"
  by (auto simp: live_def consumed_def)

lemma spares_tokens:
  assumes "tokens_ok r ts" "spares P g ts"
  shows "tokens_ok r (upd_rows P g ts)"
proof -
  have ids: "map tn_ID (upd_rows P g ts) = map tn_ID ts"
    using assms(2) unfolding upd_rows_def spares_def by auto
  have orig: "\<exists>t\<in>set ts. tn_ID t = tn_ID t' \<and> tn_GatewayID t = tn_GatewayID t' \<and> (live t' \<or> consumed t' \<longrightarrow> live t \<or> consumed t) \<and>
      (consumed t' \<longrightarrow> consumed t) \<and> token_check t'" if "t' \<in> set (upd_rows P g ts)" for t'
    using that
  proof (cases rule: in_upd_rowsE)
    case (hit t)
    then show ?thesis using assms(2) unfolding spares_def by (intro bexI[of _ t]) auto
  next
    case miss
    then show ?thesis using assms(1) unfolding tokens_ok_def by (intro bexI[of _ t']) auto
  qed
  show ?thesis unfolding tokens_ok_def ids
  proof (intro conjI ballI impI)
    fix t' assume "t' \<in> set (upd_rows P g ts)"
    from orig[OF this] obtain t where "t \<in> set ts" "tn_GatewayID t = tn_GatewayID t'" "token_check t'" by blast
    with tokens_okD(4)[OF assms(1)] show "token_check t'" "tn_GatewayID t' \<in> gw_ID ` set (rg_gateways r)" by metis+
  next
    fix t' s' assume "t' \<in> set (upd_rows P g ts)" "s' \<in> set (upd_rows P g ts)"
      "(live t' \<or> consumed t') \<and> (live s' \<or> consumed s') \<and> tn_GatewayID t' = tn_GatewayID s'"
    with orig[OF this(1)] orig[OF this(2)] tokens_okD(5)[OF assms(1)] show "tn_ID t' = tn_ID s'" by metis
  next
    fix t' gw assume "t' \<in> set (upd_rows P g ts)" "consumed t'" "gw \<in> set (rg_gateways r)" "gw_ID gw = tn_GatewayID t'"
    with orig[OF this(1)] tokens_okD(6)[OF assms(1)] show "gw_Status gw \<noteq> GatewayPendingEnrollment" by metis
  qed (use tokens_okD(1,2)[OF assms(1)] in simp_all)
qed

lemma enrolls_cong: "tn_ID t = tn_ID s \<Longrightarrow> tn_GatewayID t = tn_GatewayID s \<Longrightarrow> enrolls t = enrolls s"
  by (simp add: enrolls_def fun_eq_iff)

lemma spares_consumed:
  assumes "spares P g ts" "consumed t"
  shows "t \<in> set (upd_rows P g ts) \<longleftrightarrow> t \<in> set ts"
  using assms live_not_consumed unfolding spares_def set_upd_rows by (auto simp: image_iff split: if_splits)

lemma spares_certs: "certs_ok ts cs \<Longrightarrow> spares P g ts \<Longrightarrow> certs_ok (upd_rows P g ts) cs"
  unfolding certs_ok_def using spares_consumed[of P g ts] by metis

lemma update_tokens_inv:
  assumes "enroll_inv db" "update_tokens ft P g db = Inr (db', n)"
    "\<And>t. t \<in> set (ed_tokens db) \<Longrightarrow> P t \<Longrightarrow> live t \<and> tn_ID (g t) = tn_ID t \<and> tn_GatewayID (g t) = tn_GatewayID t \<and> \<not> consumed (g t)"
  shows "enroll_inv db'"
proof -
  have "spares P g (ed_tokens db)" using assms(2,3) by (simp add: spares_def update_tokens_Inr)
  with assms(1,2) spares_tokens spares_certs show ?thesis by (auto simp: enroll_inv_def update_tokens_Inr)
qed

text \<open>What every operation keeps of a token row and of a certificate.\<close>

definition token_kept :: "enrollment_token \<Rightarrow> enrollment_token \<Rightarrow> bool" where
  "token_kept t t' \<longleftrightarrow> tn_ID t' = tn_ID t \<and> tn_GatewayID t' = tn_GatewayID t \<and> tn_TokenHash t' = tn_TokenHash t \<and>
     tn_MaxAttempts t' = tn_MaxAttempts t \<and> tn_AttemptCount t \<le> tn_AttemptCount t' \<and> (consumed t \<longrightarrow> t' = t)"

definition without_revocation :: "gateway_certificate \<Rightarrow> gateway_certificate" where
  "without_revocation c = c\<lparr>gc_RevokedAt := None, gc_RevocationReason := None\<rparr>"

definition evolves :: "enroll_db \<Rightarrow> enroll_db \<Rightarrow> bool" where
  "evolves db db' \<longleftrightarrow> (\<forall>t\<in>set (ed_tokens db). \<exists>t'\<in>set (ed_tokens db'). token_kept t t') \<and>
     without_revocation ` set (ed_certs db) \<subseteq> without_revocation ` set (ed_certs db')"

lemma token_kept_refl [simp]: "token_kept t t"
  by (simp add: token_kept_def)

lemma token_kept_trans: "token_kept t u \<Longrightarrow> token_kept u v \<Longrightarrow> token_kept t v"
  unfolding token_kept_def by auto

lemma evolves_refl [simp]: "evolves db db"
  by (auto simp: evolves_def intro: bexI[rotated])

lemma evolves_trans: "evolves a b \<Longrightarrow> evolves b c \<Longrightarrow> evolves a c"
  unfolding evolves_def by (meson subset_trans token_kept_trans)

lemma evolves_update:
  assumes "update_tokens ft P g db = Inr (db', n)" "\<And>t. t \<in> set (ed_tokens db) \<Longrightarrow> P t \<Longrightarrow> token_kept t (g t)"
  shows "evolves db db'"
proof -
  have "\<exists>t'\<in>set (upd_rows P g (ed_tokens db)). token_kept t t'" if "t \<in> set (ed_tokens db)" for t
    using that assms(2)[of t] in_upd_rows_hit[of t "ed_tokens db" P g] in_upd_rows_miss[of t "ed_tokens db" P g]
    by (cases "P t") (auto intro: bexI[of _ "g t"] bexI[of _ t])
  with assms(1) show ?thesis by (auto simp: evolves_def update_tokens_Inr)
qed

lemma inv_same: "ed_registry db' = ed_registry db \<Longrightarrow> ed_tokens db' = ed_tokens db \<Longrightarrow> ed_certs db' = ed_certs db \<Longrightarrow> enroll_inv db' \<longleftrightarrow> enroll_inv db"
  by (simp add: enroll_inv_def)

lemma evolves_same: "ed_tokens db' = ed_tokens db \<Longrightarrow> ed_certs db' = ed_certs db \<Longrightarrow> evolves x db' \<longleftrightarrow> evolves x db"
  by (simp add: evolves_def)

lemma unique_token:
  assumes "enroll_inv db" "find (\<lambda>t. tn_ID t = tid) (ed_tokens db) = Some t"
  shows "t \<in> set (ed_tokens db)" "tn_ID t = tid" "\<And>s. s \<in> set (ed_tokens db) \<Longrightarrow> tn_ID s = tid \<Longrightarrow> s = t"
  using assms find_Some_in[OF assms(2)] by (auto simp: enroll_inv_def tokens_ok_def eq_key_imp_eq_value distinct_map inj_on_def)

section \<open>Acquiring the lease\<close>

text \<open>The live token with one id is replaced.\<close>

definition replaces :: "enrollment_token \<Rightarrow> enrollment_token \<Rightarrow> enroll_db \<Rightarrow> enroll_db \<Rightarrow> bool" where
  "replaces t t' db db' \<longleftrightarrow> live t \<and> \<not> consumed t' \<and> token_kept t t' \<and> token_check t' \<and> ed_registry db' = ed_registry db \<and>
     ed_certs db' = ed_certs db \<and> ed_tokens db' = upd_rows (\<lambda>s. tn_ID s = tn_ID t) (\<lambda>_. t') (ed_tokens db)"

lemma replaces_inv:
  assumes "enroll_inv db" "find (\<lambda>t. tn_ID t = tid) (ed_tokens db) = Some t" "replaces t t' db db'"
  shows "enroll_inv db' \<and> evolves db db'"
proof -
  note u = unique_token[OF assms(1,2)]
  from assms(3) have r: "live t" "\<not> consumed t'" "token_kept t t'" "token_check t'" and e: "ed_registry db' = ed_registry db"
    "ed_certs db' = ed_certs db" "ed_tokens db' = upd_rows (\<lambda>s. tn_ID s = tn_ID t) (\<lambda>_. t') (ed_tokens db)"
    by (simp_all add: replaces_def)
  let ?db = "db\<lparr>ed_tokens := ed_tokens db'\<rparr>"
  have upd: "update_tokens None (\<lambda>s. tn_ID s = tn_ID t) (\<lambda>_. t') db = Inr (?db, matched (\<lambda>s. tn_ID s = tn_ID t) (ed_tokens db))"
    using r(4) e(3) by (simp add: update_tokens_Inr)
  have only: "s = t" if "s \<in> set (ed_tokens db)" "tn_ID s = tn_ID t" for s using u(3)[OF that(1)] that(2) u(2) by simp
  have "enroll_inv ?db" by (rule update_tokens_inv[OF assms(1) upd], drule only, assumption) (use r in \<open>simp add: token_kept_def\<close>)
  moreover have "evolves db ?db" by (rule evolves_update[OF upd], drule only, assumption) (use r in simp)
  ultimately show ?thesis using e by (simp add: enroll_inv_def evolves_def)
qed

lemma update_replaces:
  assumes "enroll_inv db" "find (\<lambda>t. tn_ID t = tid) (ed_tokens db) = Some t" "update_tokens ft P h db = Inr (db', n)"
    "\<And>s. P s \<Longrightarrow> tn_ID s = tid" "P t" "live t" "\<not> consumed (h t)" "token_kept t (h t)"
  shows "replaces t (h t) db db'"
proof -
  note u = unique_token[OF assms(1,2)]
  have "upd_rows P h (ed_tokens db) = upd_rows (\<lambda>s. tn_ID s = tn_ID t) (\<lambda>_. h t) (ed_tokens db)"
    unfolding upd_rows_def
  proof (rule map_cong[OF refl])
    fix s assume s: "s \<in> set (ed_tokens db)"
    show "(if P s then h s else s) = (if tn_ID s = tn_ID t then h t else s)"
      using u(3)[OF s] u(2) assms(4)[of s] assms(5) by (cases "tn_ID s = tid") auto
  qed
  then show ?thesis using assms(3,5-) u(1) by (simp add: replaces_def update_tokens_Inr)
qed

lemma matched_1_ex: "matched P xs = 1 \<Longrightarrow> \<exists>x\<in>set xs. P x"
  by (metis matched_0_iff zero_neq_one)

lemma inv_token_check: "enroll_inv db \<Longrightarrow> t \<in> set (ed_tokens db) \<Longrightarrow> token_check t"
  unfolding enroll_inv_def using tokens_okD(3) by blast

lemma lock_replaces:
  assumes "enroll_inv db" "find (\<lambda>t. tn_ID t = tid) (ed_tokens db) = Some t" "live t" "lock_token ft tid now db = Inr (db', ok)"
  shows "\<exists>t'. replaces t t' db db'"
proof -
  note u = unique_token[OF assms(1,2)]
  let ?h = "\<lambda>t. (no_lease t)\<lparr>tn_Status := TokenLocked, tn_AttemptCount := tn_MaxAttempts t, tn_UpdatedAt := now\<rparr>"
  from assms(4) have "update_tokens ft (\<lambda>t. tn_ID t = tid \<and> live t) ?h db = Inr (db', matched (\<lambda>t. tn_ID t = tid \<and> live t) (ed_tokens db))"
    by (auto simp: lock_token_def update_tokens_Inr)
  from update_replaces[OF assms(1,2) this] have "replaces t (?h t) db db'"
    using u(2) assms(3) inv_token_check[OF assms(1) u(1)] by (auto simp: consumed_def token_kept_def live_def token_check_def)
  then show ?thesis ..
qed

lemma charge_replaces:
  assumes "enroll_inv db" "find (\<lambda>t. tn_ID t = tid) (ed_tokens db) = Some t" "live t" "charge_invalid ft tid now t db = Inr (db', d)"
    "tn_AttemptCount t < tn_MaxAttempts t"
  shows "\<exists>t'. replaces t t' db db' \<and> tn_AttemptCount t' = Suc (tn_AttemptCount t)" "d = DispositionRateLimited \<or> d = DispositionInvalid"
proof -
  note u = unique_token[OF assms(1,2)]
  let ?h = "\<lambda>s. (no_lease s)\<lparr>tn_Status := if tn_MaxAttempts t \<le> tn_AttemptCount t + 1 then TokenLocked else TokenActive,
      tn_AttemptCount := min (tn_AttemptCount s + 1) (tn_MaxAttempts s), tn_UpdatedAt := now\<rparr>"
  from assms(4) have "update_tokens ft (\<lambda>t. tn_ID t = tid) ?h db = Inr (db', matched (\<lambda>t. tn_ID t = tid) (ed_tokens db))"
    and d: "d = DispositionRateLimited \<or> d = DispositionInvalid" by (auto simp: charge_invalid_def Let_def update_tokens_Inr split: if_splits)
  from update_replaces[OF assms(1,2) this(1)] have "replaces t (?h t) db db'"
    using u(2) assms(3,5) by (auto simp: consumed_def token_kept_def live_def)
  then show "\<exists>t'. replaces t t' db db' \<and> tn_AttemptCount t' = Suc (tn_AttemptCount t)" using assms(5) by (intro exI[of _ "?h t"]) simp
  show "d = DispositionRateLimited \<or> d = DispositionInvalid" by (rule d)
qed

lemma begin_replaces:
  assumes "enroll_inv db" "find (\<lambda>t. tn_ID t = tid) (ed_tokens db) = Some t" "live t" "begin_redeem ft tid nonce csr now leaseUntil db = Inr (db', True)"
  shows "\<exists>t'. replaces t t' db db' \<and> tn_AttemptCount t' = Suc (tn_AttemptCount t)"
proof -
  note u = unique_token[OF assms(1,2)]
  let ?h = "\<lambda>t. t\<lparr>tn_Status := TokenRedeeming, tn_RedemptionNonce := binaryNull nonce, tn_CSRSHA256 := binaryNull csr,
      tn_RedeemingAt := Some now, tn_LeaseExpiresAt := Some leaseUntil, tn_AttemptCount := tn_AttemptCount t + 1, tn_UpdatedAt := now\<rparr>"
  let ?P = "\<lambda>t. tn_ID t = tid \<and> tn_ExpiresAt t > now \<and> tn_AttemptCount t < tn_MaxAttempts t \<and>
        (tn_Status t = TokenActive \<or>
         tn_Status t = TokenRedeeming \<and> at_most (tn_LeaseExpiresAt t) now \<and> sql_eq (tn_CSRSHA256 t) (binaryNull csr))"
  from assms(4) have up: "update_tokens ft ?P ?h db = Inr (db', matched ?P (ed_tokens db))" and n: "matched ?P (ed_tokens db) = 1"
    unfolding begin_redeem_def by (auto simp: update_tokens_Inr)
  from matched_1_ex[OF n] u(3) have Pt: "?P t" by blast
  from update_replaces[OF assms(1,2) up] Pt have "replaces t (?h t) db db'" using assms(3) by (auto simp: consumed_def token_kept_def live_def)
  then show ?thesis by (intro exI[of _ "?h t"]) simp
qed

text \<open>What the transaction does with a live token.\<close>

lemma acquire_live:
  assumes "acquire_body m f inp db g = Inr (db', d)" "loadToken (f 2) g (ai_TokenID inp) (ai_ExpectedHash inp) db = Inr t" "live t"
  obtains (lock) ok where "lock_token (f 4) (ai_TokenID inp) (ai_Now inp) db = Inr (db', ok)" "d = DispositionRateLimited"
    | (busy) "db' = db" "d = DispositionInProgress"
    | (charge) "tn_AttemptCount t < tn_MaxAttempts t" "charge_invalid (f 5) (ai_TokenID inp) (ai_Now inp) t db = Inr (db', d)"
    | (go) db1 where "tn_AttemptCount t < tn_MaxAttempts t" "d = DispositionAcquired"
      "begin_redeem (f 6) (ai_TokenID inp) (ai_Nonce inp) (ai_CSRHash inp) (ai_Now inp) (ai_LeaseUntil inp) db = Inr (db1, True)"
      "Append_audit m (f 7) (ai_StartedAudit inp) db1 = Inr db'"
proof -
  have st: "tn_Status t \<noteq> TokenConsumed" "tn_Status t \<noteq> TokenRevoked" "tn_Status t \<noteq> TokenLocked" using assms(3) by (auto simp: live_def)
  note body = assms(1)[unfolded acquire_body_def assms(2), simplified, simplified st, simplified]
  have "\<not> tn_ExpiresAt t \<le> ai_Now inp" using body by (rule contrapos_pn) simp
  note body = body[simplified this, simplified]
  let ?other = "tn_Status t = TokenRedeeming \<and> (tn_LeaseExpiresAt t = None \<or> bytes_of (tn_CSRSHA256 t) \<noteq> ai_CSRHash inp)"
  let ?busy = "tn_Status t = TokenRedeeming \<and> ai_Now inp < the (tn_LeaseExpiresAt t)"
  consider "tn_MaxAttempts t \<le> tn_AttemptCount t" | "\<not> tn_MaxAttempts t \<le> tn_AttemptCount t" ?other
    | "\<not> tn_MaxAttempts t \<le> tn_AttemptCount t" "\<not> ?other" ?busy | "\<not> tn_MaxAttempts t \<le> tn_AttemptCount t" "\<not> ?other" "\<not> ?busy" by blast
  then show thesis
  proof cases
    case 1
    with body show thesis by (auto intro: lock)
  next
    case 2
    with body show thesis by simp
  next
    case 3
    with body show thesis by (intro busy) auto
  next
    case 4
    show thesis
    proof (cases "ai_CSRValid inp")
      case True
      with 4 body have "bindr (begin_redeem (f 6) (ai_TokenID inp) (ai_Nonce inp) (ai_CSRHash inp) (ai_Now inp) (ai_LeaseUntil inp) db) (\<lambda>(db1, ok).
           if \<not> ok then Inl ErrEnrollmentState
           else bindr (Append_audit m (f 7) (ai_StartedAudit inp) db1) (\<lambda>db2. Inr (db2, DispositionAcquired))) = Inr (db', d)"
        by (simp only: if_False simp_thms)
      with 4(1) show thesis by (auto split: if_splits intro: go)
    next
      case False
      with 4 body show thesis by (intro charge, simp only: not_le) (simp only: if_False simp_thms if_True)
    qed
  qed
qed

lemma acquire_cases:
  assumes "acquire_body m f inp db g = Inr (db', d)" "enroll_inv db"
  obtains (same) t where "find (\<lambda>t. tn_ID t = ai_TokenID inp) (ed_tokens db) = Some t" "db' = db" "d \<noteq> DispositionAcquired" "d \<noteq> DispositionInvalid"
      "\<And>cert. d = DispositionReplay cert \<Longrightarrow> consumed t \<and> cert \<in> set (ed_certs db) \<and>
        certificateMatches cert (ai_GatewayID inp) (ai_TokenID inp) (ai_CSRHash inp) (ai_Now inp)"
    | (changed) t t' where "find (\<lambda>t. tn_ID t = ai_TokenID inp) (ed_tokens db) = Some t" "replaces t t' db db'"
      "d = DispositionAcquired \<or> d = DispositionInvalid \<Longrightarrow> tn_AttemptCount t' = Suc (tn_AttemptCount t)"
      "\<And>cert. d \<noteq> DispositionReplay cert"
proof -
  from assms(1) obtain t where lt: "loadToken (f 2) g (ai_TokenID inp) (ai_ExpectedHash inp) db = Inr t"
    by (auto simp: acquire_body_def split: sum.splits)
  then have t: "find (\<lambda>t. tn_ID t = ai_TokenID inp) (ed_tokens db) = Some t" by (simp add: loadToken_Inr)
  note body = assms(1)[unfolded acquire_body_def lt, simplified]
  consider "consumed t" | "\<not> consumed t" "tn_Status t = TokenLocked" | "live t" | "tn_Status t = TokenRevoked"
    by (cases "tn_Status t") (auto simp: consumed_def live_def)
  then show ?thesis
  proof cases
    case 1
    then show ?thesis using body t
      by (intro same[of t]) (auto simp: consumed_def getByTokenCSR_def select_cert_def split: if_splits sum.splits option.splits dest: find_Some_in)
  next
    case 2
    then show ?thesis using body t by (intro same[of t]) (auto simp: consumed_def split: if_splits)
  next
    case 4
    then show ?thesis using body by simp
  next
    case 3
    from assms(1) lt 3 show ?thesis
    proof (cases rule: acquire_live)
      case (lock ok)
      from lock_replaces[OF assms(2) t 3 lock(1)] obtain t' where "replaces t t' db db'" ..
      with lock(2) show ?thesis by (intro changed[OF t]) auto
    next
      case busy
      then show ?thesis by (intro same[OF t]) auto
    next
      case charge
      with charge_replaces[OF assms(2) t 3] show ?thesis by (metis changed[OF t] disposition.distinct(1,3))
    next
      case (go db1)
      from begin_replaces[OF assms(2) t 3 go(3)] obtain t' where "replaces t t' db db1" "tn_AttemptCount t' = Suc (tn_AttemptCount t)" by blast
      moreover from this(1) have "replaces t t' db db'" using Append_audit_Inr[OF go(4)] by (simp add: replaces_def)
      ultimately show ?thesis using go(2) by (intro changed[OF t]) auto
    qed
  qed
qed

section \<open>Issuing the certificate\<close>

text \<open>The request the service makes: an enrollment certificate for the token and the CSR.\<close>

definition enrollment_for :: "finalize_input \<Rightarrow> bool" where
  "enrollment_for inp \<longleftrightarrow> (let c = fi_Certificate inp in gc_IssuanceKind c = KindEnrollment \<and> gc_EnrollmentTokenID c = Some (fi_TokenID inp) \<and>
     gc_GatewayID c = fi_GatewayID inp \<and> gc_CSRSHA256 c = fi_CSRHash inp \<and> without_revocation c = c)"

lemma no_cert_before:
  assumes "enroll_inv db" "t \<in> set (ed_tokens db)" "\<not> consumed t" "c \<in> set (ed_certs db)" "gc_IssuanceKind c = KindEnrollment"
  shows "gc_EnrollmentTokenID c \<noteq> Some (tn_ID t)"
proof
  assume a: "gc_EnrollmentTokenID c = Some (tn_ID t)"
  from assms(1,4,5) obtain s where s: "s \<in> set (ed_tokens db)" "consumed s" "enrolls s c" unfolding enroll_inv_def certs_ok_def by blast
  with a have "tn_ID s = tn_ID t" by (simp add: enrolls_def)
  with tokens_okD(1)[OF conjunct1[OF assms(1)[unfolded enroll_inv_def]]] s(1) assms(2) have "s = t" by (simp add: distinct_map inj_on_def)
  with s(2) assms(3) show False by simp
qed

definition join_gateway :: "string \<Rightarrow> int \<Rightarrow> gateway_row \<Rightarrow> gateway_row" where
  "join_gateway gid now r = (if gw_ID r = gid \<and> gw_Status r = GatewayPendingEnrollment \<and> gw_DeletedAt r = None
     then r\<lparr>gw_Status := GatewayJoining, gw_EnrolledAt := Some now, gw_UpdatedAt := now\<rparr> else r)"

text \<open>The effect of issuing: the leased token is consumed, the certificate stored, the gateway joins.\<close>

definition issues :: "finalize_input \<Rightarrow> enrollment_token \<Rightarrow> enroll_db \<Rightarrow> enroll_db \<Rightarrow> bool" where
  "issues inp t db db' \<longleftrightarrow> leased_to (fi_Nonce inp) (fi_CSRHash inp) t \<and> \<not> lease_expired (fi_Now inp) t \<and>
     tn_GatewayID t = fi_GatewayID inp \<and> tn_TokenHash t = fi_ExpectedHash inp \<and>
     (\<exists>t'. tn_ID t' = tn_ID t \<and> tn_GatewayID t' = tn_GatewayID t \<and> consumed t' \<and> token_check t' \<and> token_kept t t' \<and>
        ed_tokens db' = upd_rows (\<lambda>s. tn_ID s = tn_ID t) (\<lambda>_. t') (ed_tokens db)) \<and>
     (\<forall>c\<in>set (ed_certs db). \<not> cert_conflict (fi_Certificate inp) c) \<and> ed_certs db' = ed_certs db @ [fi_Certificate inp] \<and>
     (\<exists>r\<in>set (rg_gateways (ed_registry db)). gw_ID r = fi_GatewayID inp \<and> gw_Status r = GatewayPendingEnrollment \<and> gw_DeletedAt r = None) \<and>
     rg_gateways (ed_registry db') = map (join_gateway (fi_GatewayID inp) (fi_Now inp)) (rg_gateways (ed_registry db))"

lemma markEnrolledJoining_Inr:
  assumes "markEnrolledJoining ft gid now r = (r', Inr True)"
  shows "rg_gateways r' = map (join_gateway gid now) (rg_gateways r)"
  using assms by (auto simp: markEnrolledJoining_def one_row_def update_gateways_def upd_rows_def join_gateway_def split: prod.splits sum.splits option.splits if_splits)

lemma finalize_Inr:
  assumes "enroll_inv db" "find (\<lambda>t. tn_ID t = tid) (ed_tokens db) = Some t" "finalize ft tid nonce csr now db1 = Inr (db', True)" "ed_tokens db1 = ed_tokens db"
  shows "ed_certs db' = ed_certs db1 \<and> ed_registry db' = ed_registry db1 \<and> live t \<and>
     (\<exists>t'. tn_ID t' = tn_ID t \<and> tn_GatewayID t' = tn_GatewayID t \<and> consumed t' \<and> token_check t' \<and> token_kept t t' \<and>
        ed_tokens db' = upd_rows (\<lambda>s. tn_ID s = tn_ID t) (\<lambda>_. t') (ed_tokens db))"
proof -
  note u = unique_token[OF assms(1,2)]
  let ?h = "\<lambda>t. (no_lease t)\<lparr>tn_Status := TokenConsumed, tn_ConsumedAt := Some now, tn_UpdatedAt := now\<rparr>"
  from assms(3) have up: "update_tokens ft (lease_row tid nonce csr now) ?h db1 = Inr (db', matched (lease_row tid nonce csr now) (ed_tokens db1))"
    and n: "matched (lease_row tid nonce csr now) (ed_tokens db1) = 1" unfolding finalize_def by (auto simp: update_tokens_Inr)
  from matched_1_ex[OF n] u(3) assms(4) have P: "lease_row tid nonce csr now t" by (auto simp: lease_row_def)
  have "upd_rows (lease_row tid nonce csr now) ?h (ed_tokens db) = upd_rows (\<lambda>s. tn_ID s = tn_ID t) (\<lambda>_. ?h t) (ed_tokens db)"
    unfolding upd_rows_def
  proof (rule map_cong[OF refl])
    fix s assume "s \<in> set (ed_tokens db)"
    from u(3)[OF this] u(2) P show "(if lease_row tid nonce csr now s then ?h s else s) = (if tn_ID s = tn_ID t then ?h t else s)"
      by (cases "tn_ID s = tid") (auto simp: lease_row_def)
  qed
  moreover have "token_check (?h t)" using up P u(1) assms(4) by (simp add: update_tokens_Inr)
  ultimately show ?thesis using up P assms(4)
    by (intro conjI exI[of _ "?h t"]) (auto simp: update_tokens_Inr consumed_def token_kept_def lease_row_def live_def)
qed

lemma finalize_cases:
  assumes "finalize_body ca m f inp db g = Inr (db', out)" "enroll_inv db" "enrollment_for inp" "loadGateway None (fi_GatewayID inp) db = Inr g"
  shows "\<exists>t. find (\<lambda>t. tn_ID t = fi_TokenID inp) (ed_tokens db) = Some t \<and> live t \<and> issues inp t db db' \<and> out = fi_Certificate inp"
proof -
  from assms(1) obtain t db1 dup db2 db3 where t: "find (\<lambda>t. tn_ID t = fi_TokenID inp) (ed_tokens db) = Some t"
    "tn_GatewayID t = gl_ID g" "tn_TokenHash t = fi_ExpectedHash inp"
    and l: "leased_to (fi_Nonce inp) (fi_CSRHash inp) t" "\<not> lease_expired (fi_Now inp) t"
    and p: "persist_cert ca f inp db = Inr (db1, out, dup)" and e: "enroll_gateway (f 5) inp g dup db1 = Inr db2"
    and fin: "finalize (f 6) (fi_TokenID inp) (fi_Nonce inp) (fi_CSRHash inp) (fi_Now inp) db2 = Inr (db3, True)"
    and a: "Append_audit m (f 7) (fi_SucceededAudit inp) db3 = Inr db'"
    by (auto simp: finalize_body_def loadToken_Inr split: sum.splits if_splits)
  note u = unique_token[OF assms(2) t(1)]
  have lv: "live t" using l(1) by (simp add: leased_to_def live_def)
  have "\<not> (gc_IssuanceKind c = KindEnrollment \<and> gc_EnrollmentTokenID c = Some (fi_TokenID inp))" if "c \<in> set (ed_certs db)" for c
    using no_cert_before[OF assms(2) u(1) live_not_consumed[OF lv] that] u(2) by auto
  then have "getByTokenCSR (f 4) (fi_TokenID inp) (fi_CSRHash inp) db \<noteq> Inr c" for c
    by (auto simp: getByTokenCSR_def select_cert_def split: option.splits dest: find_Some_in)
  with p have dup: "\<not> dup" "out = fi_Certificate inp" and ins: "insert_cert ca (f 3) (fi_Certificate inp) db = Inr db1"
    by (auto simp: persist_cert_def split: sum.splits)
  note i = insert_cert_Inr[OF ins]
  obtain r where r: "r \<in> set (rg_gateways (ed_registry db))" "gw_ID r = fi_GatewayID inp"
    "g = \<lparr>gl_ID = fi_GatewayID inp, gl_Status = gw_Status r, gl_Deleted = gw_DeletedAt r \<noteq> None\<rparr>"
    using loadGateway_Inr[OF assms(4)] by blast
  from e dup(1) obtain r' where pend: "gatewayPending g" and mk: "markEnrolledJoining (f 5) (fi_GatewayID inp) (fi_Now inp) (ed_registry db1) = (r', Inr True)"
    and db2: "db2 = db1\<lparr>ed_registry := r'\<rparr>"
    by (auto simp: enroll_gateway_def gatewayDuplicateFinalizeEligible_def split: if_splits prod.splits sum.splits)
  note fin = finalize_Inr[OF assms(2) t(1) fin]
  have "ed_tokens db2 = ed_tokens db" using db2 i(1) by simp
  note fin = fin[OF this]
  have "fi_Certificate inp\<lparr>gc_RevokedAt := None, gc_RevocationReason := None\<rparr> = fi_Certificate inp"
    using assms(3) by (simp add: enrollment_for_def without_revocation_def Let_def)
  then have "issues inp t db db'"
    unfolding issues_def using l t r pend fin i markEnrolledJoining_Inr[OF mk] db2 Append_audit_Inr[OF a]
    by (auto simp: gatewayPending_def)
  with t(1) lv dup(2) show ?thesis by blast
qed

lemma matched_append [simp]: "matched P (xs @ ys) = matched P xs + matched P ys"
  by (simp add: matched_def)

lemma join_gateway_id [simp]: "gw_ID (join_gateway gid now r) = gw_ID r"
  by (simp add: join_gateway_def)

lemma join_gateway_pending: "gw_Status (join_gateway gid now r) = GatewayPendingEnrollment \<Longrightarrow>
    gw_Status r = GatewayPendingEnrollment \<and> (gw_ID r = gid \<longrightarrow> gw_DeletedAt r \<noteq> None)"
  by (auto simp: join_gateway_def split: if_splits)

lemma issues_tokens:
  assumes "enroll_inv db" "find (\<lambda>t. tn_ID t = tid) (ed_tokens db) = Some t" "live t" "issues inp t db db'"
  shows "tokens_ok (ed_registry db') (ed_tokens db')"
proof -
  note u = unique_token[OF assms(1,2)]
  have ok: "tokens_ok (ed_registry db) (ed_tokens db)" using assms(1) by (simp add: enroll_inv_def)
  from assms(4) obtain t' r where t': "tn_ID t' = tn_ID t" "tn_GatewayID t' = tn_GatewayID t" "consumed t'" "token_check t'"
      "ed_tokens db' = upd_rows (\<lambda>s. tn_ID s = tn_ID t) (\<lambda>_. t') (ed_tokens db)"
    and g: "tn_GatewayID t = fi_GatewayID inp" "rg_gateways (ed_registry db') = map (join_gateway (fi_GatewayID inp) (fi_Now inp)) (rg_gateways (ed_registry db))"
    and r: "r \<in> set (rg_gateways (ed_registry db))" "gw_ID r = fi_GatewayID inp" "gw_DeletedAt r = None" unfolding issues_def by blast
  have ids: "map tn_ID (ed_tokens db') = map tn_ID (ed_tokens db)" using t'(1,5) by (simp add: map_upd_rows)
  have gids: "map gw_ID (rg_gateways (ed_registry db')) = map gw_ID (rg_gateways (ed_registry db))" unfolding g(2) by simp
  have orig: "s = t' \<or> s \<in> set (ed_tokens db)" if "s \<in> set (ed_tokens db')" for s
    using that unfolding t'(5) by (auto simp: set_upd_rows split: if_splits)
  have old: "\<exists>v\<in>set (ed_tokens db). tn_ID v = tn_ID s \<and> tn_GatewayID v = tn_GatewayID s \<and> (live s \<or> consumed s \<longrightarrow> live v \<or> consumed v) \<and> token_check s"
    if "s \<in> set (ed_tokens db')" for s using orig[OF that] t' u(1) assms(3) tokens_okD(3)[OF ok] by auto
  have last_: "gw_Status gw \<noteq> GatewayPendingEnrollment" if s: "s \<in> set (ed_tokens db')" "consumed s" "gw \<in> set (rg_gateways (ed_registry db'))" "gw_ID gw = tn_GatewayID s" for s gw
  proof
    assume p: "gw_Status gw = GatewayPendingEnrollment"
    from s(3) g(2) obtain r0 where r0: "r0 \<in> set (rg_gateways (ed_registry db))" "gw = join_gateway (fi_GatewayID inp) (fi_Now inp) r0" by auto
    note j = join_gateway_pending[OF p[unfolded r0(2)]]
    from orig[OF s(1)] show False
    proof
      assume "s = t'"
      with s(4) r0 t'(2) g(1) have "gw_ID r0 = gw_ID r" using r(2) by simp
      with tokens_okD(2)[OF ok] r0(1) r(1) have "r0 = r" by (simp add: distinct_map inj_on_def)
      with j r show False by simp
    next
      assume "s \<in> set (ed_tokens db)"
      with tokens_okD(6)[OF ok this s(2) r0(1)] j s(4) r0(2) show False by simp
    qed
  qed
  show ?thesis unfolding tokens_ok_def ids gids
  proof (intro conjI ballI impI)
    fix s assume "s \<in> set (ed_tokens db')"
    from old[OF this] obtain v where "v \<in> set (ed_tokens db)" "tn_GatewayID v = tn_GatewayID s" "token_check s" by blast
    moreover have "gw_ID ` set (rg_gateways (ed_registry db')) = gw_ID ` set (rg_gateways (ed_registry db))" using gids by (metis list.set_map)
    ultimately show "token_check s" "tn_GatewayID s \<in> gw_ID ` set (rg_gateways (ed_registry db'))" using tokens_okD(4)[OF ok] by metis+
  next
    fix s v assume "s \<in> set (ed_tokens db')" "v \<in> set (ed_tokens db')" "(live s \<or> consumed s) \<and> (live v \<or> consumed v) \<and> tn_GatewayID s = tn_GatewayID v"
    with old[OF this(1)] old[OF this(2)] tokens_okD(5)[OF ok] show "tn_ID s = tn_ID v" by metis
  qed (use tokens_okD(1,2)[OF ok] last_ in auto)
qed

lemma issues_certs:
  assumes "enroll_inv db" "find (\<lambda>t. tn_ID t = tid) (ed_tokens db) = Some t" "live t" "issues inp t db db'" "enrollment_for inp" "fi_TokenID inp = tid"
  shows "certs_ok (ed_tokens db') (ed_certs db')"
proof -
  note u = unique_token[OF assms(1,2)]
  have ok: "certs_ok (ed_tokens db) (ed_certs db)" using assms(1) by (simp add: enroll_inv_def)
  let ?c = "fi_Certificate inp"
  from assms(4) obtain t' where t': "tn_ID t' = tn_ID t" "tn_GatewayID t' = tn_GatewayID t" "consumed t'"
      "ed_tokens db' = upd_rows (\<lambda>s. tn_ID s = tn_ID t) (\<lambda>_. t') (ed_tokens db)"
    and g: "tn_GatewayID t = fi_GatewayID inp" and cs: "ed_certs db' = ed_certs db @ [?c]" "\<forall>c\<in>set (ed_certs db). \<not> cert_conflict ?c c"
    unfolding issues_def by blast
  have new: "enrolls t' ?c" using assms(5,6) t' g u(2) by (simp add: enrolls_def enrollment_for_def Let_def)
  have none: "matched (enrolls t') (ed_certs db) = 0"
    using no_cert_before[OF assms(1) u(1) live_not_consumed[OF assms(3)]] t'(1) by (auto simp: matched_0_iff enrolls_def)
  have orig: "s = t' \<or> s \<in> set (ed_tokens db) \<and> tn_ID s \<noteq> tid" if "s \<in> set (ed_tokens db')" for s
    using that u(2) unfolding t'(4) by (auto simp: set_upd_rows split: if_splits)
  have in': "t' \<in> set (ed_tokens db')" unfolding t'(4) using in_upd_rows_hit[where P = "\<lambda>s. tn_ID s = tn_ID t" and g = "\<lambda>_. t'", OF u(1)] by simp
  have keep: "s \<in> set (ed_tokens db')" if "s \<in> set (ed_tokens db)" "consumed s" for s
  proof -
    have "tn_ID s \<noteq> tn_ID t" using u(3)[OF that(1)] u(2) that(2) live_not_consumed[OF assms(3)] by auto
    then show ?thesis unfolding t'(4) by (intro in_upd_rows_miss[OF that(1)])
  qed
  show ?thesis unfolding certs_ok_def
  proof (intro conjI ballI impI)
    show "distinct (map gc_ID (ed_certs db'))" using ok cs by (auto simp: certs_ok_def cert_conflict_def)
  next
    fix s assume s: "s \<in> set (ed_tokens db')" "consumed s"
    from orig[OF s(1)] show "matched (enrolls s) (ed_certs db') = 1"
    proof
      assume "s = t'" with none new cs(1) show ?thesis by simp
    next
      assume o: "s \<in> set (ed_tokens db) \<and> tn_ID s \<noteq> tid"
      then have "\<not> enrolls s ?c" using new t'(1) u(2) by (auto simp: enrolls_def)
      with o s(2) ok cs(1) show ?thesis by (simp add: certs_ok_def)
    qed
  next
    fix c assume "c \<in> set (ed_certs db')" "gc_IssuanceKind c = KindEnrollment"
    then show "\<exists>s\<in>set (ed_tokens db'). consumed s \<and> enrolls s c"
      using cs(1) new in' t'(3) ok keep unfolding certs_ok_def by (auto, blast)
  qed
qed

lemma issues_inv:
  assumes "enroll_inv db" "find (\<lambda>t. tn_ID t = fi_TokenID inp) (ed_tokens db) = Some t" "live t" "issues inp t db db'" "enrollment_for inp"
  shows "enroll_inv db' \<and> evolves db db'"
proof -
  note u = unique_token[OF assms(1,2)]
  from assms(4) obtain t' where t': "token_kept t t'" "ed_tokens db' = upd_rows (\<lambda>s. tn_ID s = tn_ID t) (\<lambda>_. t') (ed_tokens db)"
    and cs: "ed_certs db' = ed_certs db @ [fi_Certificate inp]" unfolding issues_def by blast
  have "\<exists>s'\<in>set (ed_tokens db'). token_kept s s'" if s: "s \<in> set (ed_tokens db)" for s
  proof (cases "tn_ID s = tn_ID t")
    case True
    with u(3)[OF s] u(2) have "s = t" by simp
    with t' in_upd_rows_hit[where P = "\<lambda>s. tn_ID s = tn_ID t" and g = "\<lambda>_. t'", OF s True] show ?thesis by auto
  next
    case False
    with t' in_upd_rows_miss[where P = "\<lambda>s. tn_ID s = tn_ID t" and g = "\<lambda>_. t'", OF s False] show ?thesis using token_kept_refl by metis
  qed
  then have "evolves db db'" using cs by (auto simp: evolves_def)
  then show ?thesis using issues_tokens[OF assms(1-4)] issues_certs[OF assms] by (simp add: enroll_inv_def)
qed

section \<open>The other operations\<close>

lemma CreatePending_Inr:
  assumes "CreatePending ft g nt cr rev' r = (r', Inr u)"
  shows "\<exists>row. gw_ID row = gw_ID g \<and> rg_gateways r' = rg_gateways r @ [row] \<and> (\<forall>x\<in>set (rg_gateways r). gw_ID x \<noteq> gw_ID g)"
  using assms by (auto simp: CreatePending_def new_gateway_def split: if_splits option.splits)

lemma new_token_inv:
  assumes "enroll_inv db" "token_check (new_token t)" "tn_ID t \<notin> tn_ID ` set (ed_tokens db)" "tn_GatewayID t \<in> gw_ID ` set (rg_gateways (ed_registry db))"
    "\<And>s. s \<in> set (ed_tokens db) \<Longrightarrow> live s \<or> consumed s \<Longrightarrow> tn_GatewayID s \<noteq> tn_GatewayID t"
    "ed_registry db' = ed_registry db" "ed_certs db' = ed_certs db" "ed_tokens db' = ed_tokens db @ [new_token t]"
  shows "enroll_inv db' \<and> evolves db db'"
proof -
  have nc: "\<not> consumed (new_token t)" by (simp add: consumed_def)
  have ok: "tokens_ok (ed_registry db) (ed_tokens db)" using assms(1) by (simp add: enroll_inv_def)
  have "tokens_ok (ed_registry db') (ed_tokens db')"
  proof (rule tokens_okI)
    fix s v assume s: "s \<in> set (ed_tokens db')" "v \<in> set (ed_tokens db')" "live s \<or> consumed s" "live v \<or> consumed v" "tn_GatewayID s = tn_GatewayID v"
    then have "s = new_token t \<or> s \<in> set (ed_tokens db)" "v = new_token t \<or> v \<in> set (ed_tokens db)" using assms(8) by auto
    with s(3-5) assms(5)[of s] assms(5)[of v] tokens_okD(5)[OF ok, of s v] show "tn_ID s = tn_ID v" by auto
  qed (use assms(2-4,6-8) nc tokens_okD(1-4,6)[OF ok] in auto)
  moreover have "certs_ok (ed_tokens db') (ed_certs db')"
    using assms(1,7,8) nc unfolding enroll_inv_def certs_ok_def by auto
  ultimately show ?thesis using assms(7,8) by (auto simp: enroll_inv_def evolves_def intro: bexI[rotated])
qed

lemma registry_inv:
  assumes "enroll_inv db" "distinct (map gw_ID (rg_gateways r'))" "gw_ID ` set (rg_gateways (ed_registry db)) \<subseteq> gw_ID ` set (rg_gateways r')"
    "\<And>g'. g' \<in> set (rg_gateways r') \<Longrightarrow> gw_Status g' = GatewayPendingEnrollment \<Longrightarrow> gw_ID g' \<in> gw_ID ` set (rg_gateways (ed_registry db)) \<Longrightarrow>
       \<exists>g\<in>set (rg_gateways (ed_registry db)). gw_ID g = gw_ID g' \<and> gw_Status g = GatewayPendingEnrollment"
  shows "enroll_inv (db\<lparr>ed_registry := r'\<rparr>)"
proof -
  have ok: "tokens_ok (ed_registry db) (ed_tokens db)" using assms(1) by (simp add: enroll_inv_def)
  have "gw_Status g' \<noteq> GatewayPendingEnrollment" if "t \<in> set (ed_tokens db)" "consumed t" "g' \<in> set (rg_gateways r')" "gw_ID g' = tn_GatewayID t" for t g'
  proof
    assume "gw_Status g' = GatewayPendingEnrollment"
    with assms(4)[OF that(3)] tokens_okD(4)[OF ok that(1)] that(4) obtain g where "g \<in> set (rg_gateways (ed_registry db))" "gw_ID g = gw_ID g'" "gw_Status g = GatewayPendingEnrollment"
      by metis
    with tokens_okD(6)[OF ok that(1,2)] that(4) show False by metis
  qed
  moreover have "tn_GatewayID t \<in> gw_ID ` set (rg_gateways r')" if "t \<in> set (ed_tokens db)" for t using tokens_okD(4)[OF ok that] assms(3) by blast
  ultimately have "tokens_ok r' (ed_tokens db)" by (intro tokens_okI tokens_okD(1,3,5)[OF ok] assms(2))
  then show ?thesis using assms(1) by (simp add: enroll_inv_def)
qed

lemma Create_inv:
  assumes "CreatePendingWithToken m f c g nt cr t as db = (db', q)" "enroll_inv db" "tn_GatewayID t = gw_ID g"
  shows "enroll_inv db' \<and> evolves db db'"
  using assms(1)[unfolded CreatePendingWithToken_def]
proof (cases rule: withTx_cases)
  case none
  with assms(2) show ?thesis by simp
next
  case (applied a)
  from applied(1) obtain r' u db1 where cp: "CreatePending (f 1) g nt (Some cr) 1 (ed_registry db) = (r', Inr u)"
    and i: "issue (f 2) t (db\<lparr>ed_registry := r'\<rparr>) = Inr db1" and aa: "append_audits m f 3 as db1 = Inr db'"
    by (auto split: prod.splits sum.splits)
  from CreatePending_Inr[OF cp] obtain row where row: "gw_ID row = gw_ID g" "rg_gateways r' = rg_gateways (ed_registry db) @ [row]"
    "\<forall>x\<in>set (rg_gateways (ed_registry db)). gw_ID x \<noteq> gw_ID g" by blast
  have ok: "tokens_ok (ed_registry db) (ed_tokens db)" using assms(2) by (simp add: enroll_inv_def)
  have inv: "enroll_inv (db\<lparr>ed_registry := r'\<rparr>)" by (rule registry_inv[OF assms(2)]) (use row tokens_okD(2)[OF ok] in auto)
  have "enroll_inv db' \<and> evolves (db\<lparr>ed_registry := r'\<rparr>) db'"
  proof (rule new_token_inv[OF inv issue_Inr(2)[OF i] issue_Inr(3,4)[OF i]])
    fix s assume "s \<in> set (ed_tokens (db\<lparr>ed_registry := r'\<rparr>))"
    then show "tn_GatewayID s \<noteq> tn_GatewayID t" using tokens_okD(4)[OF ok, of s] row(3) assms(3) by auto
  qed (use issue_Inr(1)[OF i] append_audits_Inr[OF aa] in simp_all)
  then show ?thesis by (simp add: evolves_def)
qed

lemma Replace_inv:
  assumes "ReplaceLiveToken m f c gid t au now db = (db', q)" "enroll_inv db" "tn_GatewayID t = gid"
  shows "enroll_inv db' \<and> evolves db db'"
proof -
  let ?body = "\<lambda>g. if \<not> gatewayPending g then Inl ErrEnrollmentState
        else bindr (revokeLiveByGateway (f 2) gid now db) (\<lambda>(db1, _).
          bindr (issue (f 3) t db1) (\<lambda>db2. bindr (Append_audit m (f 4) au db2) (\<lambda>db3. Inr (db3, ()))))"
  from assms(1) obtain q' where "withGatewayTx f c gid db ?body = (db', q')"
    unfolding ReplaceLiveToken_def by (auto split: prod.splits sum.splits)
  then show ?thesis
  proof (cases rule: withGatewayTx_cases)
    case none
    with assms(2) show ?thesis by simp
  next
    case (applied g a)
    let ?h = "\<lambda>t. (no_lease t)\<lparr>tn_Status := TokenRevoked, tn_RevokedAt := Some now, tn_UpdatedAt := now\<rparr>"
    from applied(2) obtain db1 n db2 where pend: "gatewayPending g" and rv: "update_tokens (f 2) (\<lambda>t. tn_GatewayID t = gid \<and> live t) ?h db = Inr (db1, n)"
      and i: "issue (f 3) t db1 = Inr db2" and au: "Append_audit m (f 4) au db2 = Inr db'"
      by (auto simp: revokeLiveByGateway_def split: if_splits)
    have inv: "enroll_inv db1" by (rule update_tokens_inv[OF assms(2) rv]) (auto simp: consumed_def)
    have ev: "evolves db db1" by (rule evolves_update[OF rv]) (auto simp: token_kept_def live_not_consumed)
    from loadGateway_Inr[OF applied(1)] pend obtain r where r: "r \<in> set (rg_gateways (ed_registry db))" "gw_ID r = gid" "gw_Status r = GatewayPendingEnrollment"
      by (auto simp: gatewayPending_def)
    have "enroll_inv db' \<and> evolves db1 db'"
    proof (rule new_token_inv[OF inv issue_Inr(2)[OF i] issue_Inr(3,4)[OF i]])
      fix s assume s: "s \<in> set (ed_tokens db1)" "live s \<or> consumed s"
      from s(1) rv have "s \<in> set (upd_rows (\<lambda>t. tn_GatewayID t = gid \<and> live t) ?h (ed_tokens db))" by (simp add: update_tokens_Inr)
      then show "tn_GatewayID s \<noteq> tn_GatewayID t"
      proof (cases rule: in_upd_rowsE)
        case (hit v)
        with s(2) show ?thesis by (auto simp: live_def consumed_def)
      next
        case miss
        with s(2) tokens_okD(6)[OF conjunct1[OF assms(2)[unfolded enroll_inv_def]] miss(1) _ r(1)] r assms(3) show ?thesis by auto
      qed
    qed (use issue_Inr(1)[OF i] Append_audit_Inr[OF au] in simp_all)
    with ev evolves_trans show ?thesis by blast
  qed
qed

lemma Acquire_inv:
  assumes "AcquireEnrollmentLease m f c inp db = (db', q)" "enroll_inv db"
  shows "enroll_inv db' \<and> evolves db db'"
  using assms(1)[unfolded AcquireEnrollmentLease_def]
proof (cases rule: withGatewayTx_cases)
  case none
  with assms(2) show ?thesis by simp
next
  case (applied g a)
  from applied(2) assms(2) show ?thesis
  proof (cases rule: acquire_cases)
    case same
    with assms(2) show ?thesis by simp
  next
    case (changed t t')
    then show ?thesis using replaces_inv[OF assms(2)] by blast
  qed
qed

lemma Finalize_cases:
  assumes "FinalizeEnrollmentIssuance ca m f c inp db = (db', q)" "enroll_inv db" "enrollment_for inp"
  obtains (none) e where "db' = db" "q = Inl e"
    | (issued) t where "find (\<lambda>t. tn_ID t = fi_TokenID inp) (ed_tokens db) = Some t" "live t" "issues inp t db db'" "q = Inr (fi_Certificate inp) \<or> (\<exists>e. q = Inl e)"
  using assms(1)[unfolded FinalizeEnrollmentIssuance_def]
proof (cases rule: withGatewayTx_cases)
  case none
  then show ?thesis by (rule that(1))
next
  case (applied g a)
  from finalize_cases[OF applied(2) assms(2,3) applied(1)] applied(3) that(2) show ?thesis by blast
qed

lemma Finalize_inv:
  assumes "FinalizeEnrollmentIssuance ca m f c inp db = (db', q)" "enroll_inv db" "enrollment_for inp"
  shows "enroll_inv db' \<and> evolves db db'"
  using assms(1) assms(2) assms(3)
proof (cases rule: Finalize_cases)
  case none
  with assms(2) show ?thesis by simp
next
  case (issued t)
  with issues_inv[OF assms(2) issued(1-3) assms(3)] show ?thesis by simp
qed

lemma Release_inv:
  assumes "ReleaseEnrollmentLease m f c inp db = (db', q)" "enroll_inv db"
  shows "enroll_inv db' \<and> evolves db db'"
  using assms(1)[unfolded ReleaseEnrollmentLease_def]
proof (cases rule: withGatewayTx_cases)
  case none
  with assms(2) show ?thesis by simp
next
  case (applied g a)
  let ?h = "\<lambda>t. (no_lease t)\<lparr>tn_Status := TokenActive, tn_UpdatedAt := ri_Now inp\<rparr>"
  let ?P = "lease_row (ri_TokenID inp) (ri_Nonce inp) (ri_CSRHash inp) (ri_Now inp)"
  from applied(2) have "db' = db \<or> (\<exists>db1 n. update_tokens (f 3) ?P ?h db = Inr (db1, n) \<and> ed_registry db' = ed_registry db1 \<and> ed_tokens db' = ed_tokens db1 \<and> ed_certs db' = ed_certs db1)"
    by (auto simp: release_def split: sum.splits if_splits dest!: Append_audit_Inr)
  then show ?thesis
  proof
    assume "db' = db" with assms(2) show ?thesis by simp
  next
    assume "\<exists>db1 n. update_tokens (f 3) ?P ?h db = Inr (db1, n) \<and> ed_registry db' = ed_registry db1 \<and> ed_tokens db' = ed_tokens db1 \<and> ed_certs db' = ed_certs db1"
    then obtain db1 n where up: "update_tokens (f 3) ?P ?h db = Inr (db1, n)" and eq: "ed_registry db' = ed_registry db1" "ed_tokens db' = ed_tokens db1" "ed_certs db' = ed_certs db1" by blast
    have "enroll_inv db1" by (rule update_tokens_inv[OF assms(2) up]) (auto simp: consumed_def live_def lease_row_def)
    moreover have "evolves db db1" by (rule evolves_update[OF up]) (auto simp: token_kept_def consumed_def lease_row_def)
    ultimately show ?thesis using eq by (simp add: enroll_inv_def evolves_def)
  qed
qed

lemma validate_no_fault: "validateRenewalCredential ft g cr now db = Inr () \<Longrightarrow> validateRenewalCredential None g cr now db = Inr ()"
  by (cases ft) (auto simp: validateRenewalCredential_def getForRenewal_def select_cert_def split: if_splits)

lemma getByGatewayCSR_in: "getByGatewayCSR ft gid csr db = Inr p \<Longrightarrow> p \<in> set (ed_certs db)"
  by (auto simp: getByGatewayCSR_def select_cert_def split: option.splits dest: find_Some_in)

lemma renewal_body_cases:
  assumes "renewal_body ca m f cr csr now cert au db g = Inr (db', a)"
  obtains (replay) "validateRenewalCredential None g cr now db = Inr ()" "db' = db" "a \<in> set (ed_certs db)" "renewalReplayMatches a (rw_GatewayID cr) csr now"
    | (new) db1 where "validateRenewalCredential None g cr now db = Inr ()" "newRenewalMatches cert (rw_GatewayID cr) csr now"
        "insert_cert ca (f 4) cert db = Inr db1" "Append_audit m (f 5) au db1 = Inr db'" "a = cert"
proof -
  from assms have v: "validateRenewalCredential None g cr now db = Inr ()" by (auto simp: renewal_body_def intro: validate_no_fault)
  show ?thesis
  proof (cases "getByGatewayCSR (f 3) (rw_GatewayID cr) csr db")
    case (Inr p)
    with assms have "db' = db" "a = p" "renewalReplayMatches p (rw_GatewayID cr) csr now" by (auto simp: renewal_body_def split: if_splits)
    then show ?thesis using replay[OF v] getByGatewayCSR_in[OF Inr] by blast
  next
    case none: (Inl e)
    with assms have n: "newRenewalMatches cert (rw_GatewayID cr) csr now" by (auto simp: renewal_body_def split: if_splits)
    show ?thesis
    proof (cases "insert_cert ca (f 4) cert db")
      case (Inr db1)
      with none assms n show ?thesis by (intro new[OF v n Inr]) (auto simp: renewal_body_def split: if_splits)
    next
      case (Inl e')
      with none assms n have "db' = db" "renewalReplayMatches a (rw_GatewayID cr) csr now" "getByGatewayCSR (f 6) (rw_GatewayID cr) csr db = Inr a"
        by (auto simp: renewal_body_def split: if_splits sum.splits)
      then show ?thesis using replay[OF v] getByGatewayCSR_in by blast
    qed
  qed
qed

lemma Renew_cases:
  assumes "FinalizeRenewal ca m f c cr csr now cert au db = (db', q)"
  obtains (none) e where "db' = db" "q = Inl e"
    | (replay) g p where "loadGateway None (rw_GatewayID cr) db = Inr g" "validateRenewalCredential None g cr now db = Inr ()" "db' = db"
        "p \<in> set (ed_certs db)" "renewalReplayMatches p (rw_GatewayID cr) csr now" "q = Inr p \<or> (\<exists>e. q = Inl e)"
    | (new) g where "loadGateway None (rw_GatewayID cr) db = Inr g" "validateRenewalCredential None g cr now db = Inr ()"
        "newRenewalMatches cert (rw_GatewayID cr) csr now" "\<And>d. d \<in> set (ed_certs db) \<Longrightarrow> \<not> cert_conflict cert d"
        "db' = db\<lparr>ed_certs := ed_certs db @ [without_revocation cert], ed_audits := ed_audits db @ [au]\<rparr>" "q = Inr cert \<or> (\<exists>e. q = Inl e)"
proof -
  from assms obtain q' where q': "withGatewayTx f c (rw_GatewayID cr) db (renewal_body ca m f cr csr now cert au db) = (db', q')" "q = q' \<or> (\<exists>e e'. q = Inl e \<and> q' = Inl e')"
    unfolding FinalizeRenewal_def normalizeRenewalError_def by (auto split: prod.splits sum.splits)
  from q'(1) show ?thesis
  proof (cases rule: withGatewayTx_cases)
    case (none e)
    then show ?thesis using q'(2) that(1) by blast
  next
    case (applied g a)
    have qa: "q = Inr a \<or> (\<exists>e. q = Inl e)" using applied(3) q'(2) by auto
    from applied(2) show ?thesis
    proof (cases rule: renewal_body_cases)
      case replay
      with that(2)[OF applied(1)] qa show ?thesis by blast
    next
      case (new db1)
      with insert_cert_Inr[OF new(3)] Append_audit_Inr[OF new(4)] qa show ?thesis
        by (intro that(3)[OF applied(1) new(1,2)]) (simp_all add: without_revocation_def)
    qed
  qed
qed

lemma certs_append:
  assumes "certs_ok ts cs" "\<And>d. d \<in> set cs \<Longrightarrow> \<not> cert_conflict c d" "gc_IssuanceKind c = KindRenewal"
  shows "certs_ok ts (cs @ [without_revocation c])"
  using assms unfolding certs_ok_def by (auto simp: enrolls_def without_revocation_def cert_conflict_def)

lemma Renew_inv:
  assumes "FinalizeRenewal ca m f c cr csr now cert au db = (db', q)" "enroll_inv db"
  shows "enroll_inv db' \<and> evolves db db'"
  using assms(1)
proof (cases rule: Renew_cases)
  case (new g)
  with certs_append[of "ed_tokens db" "ed_certs db" cert] assms(2) show ?thesis
    by (auto simp: enroll_inv_def newRenewalMatches_def evolves_def intro: bexI[rotated])
qed (use assms(2) in simp_all)

section \<open>Runs\<close>

text \<open>\<open>RevokeGatewayCertificate\<close>, which an operator runs.\<close>

definition revoke_cert :: "string \<Rightarrow> int \<Rightarrow> string \<Rightarrow> enroll_db \<Rightarrow> enroll_db" where
  "revoke_cert cid now reason db = db\<lparr>ed_certs := upd_rows (\<lambda>c. gc_ID c = cid \<and> gc_RevokedAt c = None)
     (\<lambda>c. c\<lparr>gc_RevokedAt := Some now, gc_RevocationReason := Some reason\<rparr>) (ed_certs db)\<rparr>"

text \<open>What other writers of the registry keep: gateways are not removed and none becomes pending
  again.\<close>

definition keeps_gateways :: "registry \<Rightarrow> registry \<Rightarrow> bool" where
  "keeps_gateways r r' \<longleftrightarrow> distinct (map gw_ID (rg_gateways r')) \<and> gw_ID ` set (rg_gateways r) \<subseteq> gw_ID ` set (rg_gateways r') \<and>
     (\<forall>g'\<in>set (rg_gateways r'). gw_Status g' = GatewayPendingEnrollment \<and> gw_ID g' \<in> gw_ID ` set (rg_gateways r) \<longrightarrow>
        (\<exists>g\<in>set (rg_gateways r). gw_ID g = gw_ID g' \<and> gw_Status g = GatewayPendingEnrollment))"

text \<open>A step says whether it charged an attempt to a token.\<close>

datatype enroll_label = Attempt string | Quiet

definition attempt_label :: "string \<Rightarrow> disposition result \<Rightarrow> enroll_label" where
  "attempt_label tid q = (if q = Inr DispositionAcquired \<or> q = Inr DispositionInvalid then Attempt tid else Quiet)"

inductive estep :: "enroll_db \<Rightarrow> enroll_label \<Rightarrow> enroll_db \<Rightarrow> bool" where
  create: "CreatePendingWithToken m f c g nt cr t as db = (db', q) \<Longrightarrow> tn_GatewayID t = gw_ID g \<Longrightarrow> estep db Quiet db'"
| replace: "ReplaceLiveToken m f c gid t au now db = (db', q) \<Longrightarrow> tn_GatewayID t = gid \<Longrightarrow> estep db Quiet db'"
| acquire: "AcquireEnrollmentLease m f c ai db = (db', d) \<Longrightarrow> estep db (attempt_label (ai_TokenID ai) d) db'"
| finalize: "FinalizeEnrollmentIssuance ca m f c fi db = (db', p) \<Longrightarrow> enrollment_for fi \<Longrightarrow> estep db Quiet db'"
| release: "ReleaseEnrollmentLease m f c ri db = (db', b) \<Longrightarrow> estep db Quiet db'"
| renew: "FinalizeRenewal ca m f c cr' csr now cert au db = (db', p) \<Longrightarrow> estep db Quiet db'"
| revoke: "estep db Quiet (revoke_cert cid now reason db)"
| registry: "keeps_gateways (ed_registry db) r' \<Longrightarrow> estep db Quiet (db\<lparr>ed_registry := r'\<rparr>)"

inductive eruns :: "enroll_db \<Rightarrow> enroll_label list \<Rightarrow> enroll_db \<Rightarrow> bool" where
  start: "eruns db [] db"
| step: "eruns db ls db1 \<Longrightarrow> estep db1 l db2 \<Longrightarrow> eruns db (ls @ [l]) db2"

inductive_cases estep_attemptE: "estep db (Attempt tid) db'"

lemma eruns_trans:
  assumes "eruns b ls' c" "eruns a ls b"
  shows "eruns a (ls @ ls') c"
  using assms
proof (induction rule: eruns.induct)
  case (step db ls1 db1 l db2)
  then show ?case using eruns.step[of a "ls @ ls1" db1 l db2] by simp
qed simp

lemma eruns_one: "estep a l b \<Longrightarrow> eruns a [l] b"
  using eruns.step[OF eruns.start] by fastforce

definition reaches :: "enroll_db \<Rightarrow> enroll_db \<Rightarrow> bool" where
  "reaches a b \<longleftrightarrow> (\<exists>ls. eruns a ls b)"

lemma reaches_refl [simp, intro]: "reaches a a"
  unfolding reaches_def using eruns.start by blast

lemma reaches_trans [trans]: "reaches a b \<Longrightarrow> reaches b c \<Longrightarrow> reaches a c"
  unfolding reaches_def using eruns_trans by blast

lemma reaches_step: "estep a l b \<Longrightarrow> reaches a b"
  unfolding reaches_def using eruns_one by blast

lemma upd_rows_image: "(\<And>c. f (h c) = f c) \<Longrightarrow> f ` set (upd_rows P h cs) = f ` set cs"
  unfolding set_upd_rows image_image by (rule image_cong) auto

lemma matched_upd_rows: "(\<And>c. P (h c) = P c) \<Longrightarrow> matched P (upd_rows Q h cs) = matched P cs"
  by (induction cs) auto

lemma revoke_inv:
  assumes "enroll_inv db"
  shows "enroll_inv (revoke_cert cid now reason db) \<and> evolves db (revoke_cert cid now reason db)"
proof -
  let ?h = "\<lambda>c. c\<lparr>gc_RevokedAt := Some now, gc_RevocationReason := Some reason\<rparr>"
  let ?cs = "ed_certs (revoke_cert cid now reason db)"
  have cs: "?cs = upd_rows (\<lambda>c. gc_ID c = cid \<and> gc_RevokedAt c = None) ?h (ed_certs db)" by (simp add: revoke_cert_def)
  have e: "enrolls t (?h c) = enrolls t c" for t c by (simp add: enrolls_def)
  have ids: "map gc_ID ?cs = map gc_ID (ed_certs db)" unfolding cs by (rule map_upd_rows) simp
  have orig: "\<exists>d\<in>set (ed_certs db). gc_IssuanceKind d = gc_IssuanceKind c \<and> (\<forall>t. enrolls t d = enrolls t c)" if "c \<in> set ?cs" for c
    using that unfolding cs by (cases rule: in_upd_rowsE) (auto simp: enrolls_def)
  have "certs_ok (ed_tokens db) ?cs"
    using assms unfolding enroll_inv_def certs_ok_def ids
  proof (elim conjE, intro conjI ballI impI)
    fix t assume "\<forall>t\<in>set (ed_tokens db). consumed t \<longrightarrow> matched (enrolls t) (ed_certs db) = 1" "t \<in> set (ed_tokens db)" "consumed t"
    then show "matched (enrolls t) ?cs = 1" unfolding cs by (simp add: matched_upd_rows[of "enrolls t" ?h, OF e])
  next
    fix c assume "\<forall>c\<in>set (ed_certs db). gc_IssuanceKind c = KindEnrollment \<longrightarrow> (\<exists>t\<in>set (ed_tokens db). consumed t \<and> enrolls t c)"
      "c \<in> set ?cs" "gc_IssuanceKind c = KindEnrollment"
    then show "\<exists>t\<in>set (ed_tokens db). consumed t \<and> enrolls t c" using orig[of c] by metis
  qed
  moreover have "without_revocation ` set ?cs = without_revocation ` set (ed_certs db)"
    unfolding cs by (rule upd_rows_image) (simp add: without_revocation_def)
  ultimately show ?thesis using assms by (auto simp: enroll_inv_def evolves_def revoke_cert_def intro: bexI[rotated])
qed

theorem estep_inv:
  assumes "estep db l db'" "enroll_inv db"
  shows "enroll_inv db' \<and> evolves db db'"
  using assms
proof cases
  case (registry r')
  then show ?thesis using registry_inv[OF assms(2), of r'] unfolding keeps_gateways_def
    by (auto simp: evolves_def intro: bexI[rotated])
qed (use assms(2) in \<open>auto dest: Create_inv Replace_inv Acquire_inv Finalize_inv Release_inv Renew_inv simp: revoke_inv\<close>)

lemma eruns_inv: "eruns db ls db' \<Longrightarrow> enroll_inv db \<Longrightarrow> enroll_inv db' \<and> evolves db db'"
  by (induction rule: eruns.induct) (auto dest: estep_inv intro: evolves_trans)

lemma reaches_inv: "reaches db db' \<Longrightarrow> enroll_inv db \<Longrightarrow> enroll_inv db' \<and> evolves db db'"
  unfolding reaches_def using eruns_inv by blast

definition enroll_start :: "registry \<Rightarrow> enroll_db" where
  "enroll_start r = \<lparr>ed_registry = r, ed_tokens = [], ed_certs = [], ed_audits = []\<rparr>"

lemma start_inv: "distinct (map gw_ID (rg_gateways r)) \<Longrightarrow> enroll_inv (enroll_start r)"
  by (simp add: enroll_start_def enroll_inv_def tokens_ok_def certs_ok_def)

end
