(* ===== verification/Enrollment.thy ===== *)
theory Enrollment
  imports EnrollSteps
begin

text \<open>
  What enrollment and renewal give their callers: a gateway is enrolled once, attempts are
  bounded, a redeemed token always gives the same certificate, a presented token that is not
  stored is refused without effect, and a renewal needs a valid incumbent.
\<close>

section \<open>Enrolled once\<close>

lemma cert_token:
  assumes "enroll_inv db" "c \<in> set (ed_certs db)" "gc_IssuanceKind c = KindEnrollment"
  obtains t where "t \<in> set (ed_tokens db)" "consumed t" "enrolls t c"
  using assms unfolding enroll_inv_def certs_ok_def by blast

lemma same_gateway_token:
  assumes "enroll_inv db" "t \<in> set (ed_tokens db)" "s \<in> set (ed_tokens db)" "consumed t" "consumed s" "tn_GatewayID t = tn_GatewayID s"
  shows "t = s"
proof -
  have ok: "tokens_ok (ed_registry db) (ed_tokens db)" using assms(1) by (simp add: enroll_inv_def)
  have "tn_ID t = tn_ID s" by (rule tokens_okD(5)[OF ok assms(2,3)]) (use assms in auto)
  with tokens_okD(1)[OF ok] assms(2,3) show ?thesis by (simp add: distinct_map inj_on_def)
qed

lemma filter_eq_matched: "(\<And>x. x \<in> set xs \<Longrightarrow> P x = Q x) \<Longrightarrow> matched P xs = matched Q xs"
  unfolding matched_def by (metis (mono_tags, lifting) filter_cong)

lemma one_enrollment_per_gateway:
  assumes inv: "enroll_inv db"
  shows "matched (\<lambda>c. gc_GatewayID c = gid \<and> gc_IssuanceKind c = KindEnrollment) (ed_certs db) \<le> 1" (is "matched ?E _ \<le> 1")
proof (cases "\<exists>c\<in>set (ed_certs db). ?E c")
  case True
  then obtain c where c: "c \<in> set (ed_certs db)" "?E c" by blast
  from cert_token[OF inv c(1)] c(2) obtain t where t: "t \<in> set (ed_tokens db)" "consumed t" "enrolls t c" by blast
  have "?E d = enrolls t d" if d: "d \<in> set (ed_certs db)" for d
  proof
    assume e: "?E d"
    then obtain s where s: "s \<in> set (ed_tokens db)" "consumed s" "enrolls s d" using cert_token[OF inv d] by blast
    then have "s = t" using same_gateway_token[OF inv s(1) t(1) s(2) t(2)] t(3) c(2) e by (simp add: enrolls_def)
    with s show "enrolls t d" by simp
  qed (use t(3) c(2) in \<open>auto simp: enrolls_def\<close>)
  then have "matched ?E (ed_certs db) = matched (enrolls t) (ed_certs db)" by (rule filter_eq_matched)
  then show ?thesis using inv t by (simp add: enroll_inv_def certs_ok_def)
next
  case False
  then show ?thesis using matched_0_iff[of ?E "ed_certs db"] by auto
qed

lemma one_usable_token:
  assumes ok: "tokens_ok r ts"
  shows "matched (\<lambda>t. tn_GatewayID t = gid \<and> tn_Status t \<in> {TokenActive, TokenRedeeming, TokenConsumed}) ts \<le> 1" (is "matched ?U _ \<le> 1")
proof (cases "\<exists>t\<in>set ts. ?U t")
  case True
  then obtain t where t: "t \<in> set ts" "?U t" by blast
  have "?U s = (tn_ID s = tn_ID t \<and> ?U s)" if "s \<in> set ts" for s
    using tokens_okD(5)[OF ok that t(1)] t(2) by (auto simp: live_def consumed_def)
  then have "matched ?U ts = matched (\<lambda>s. tn_ID s = tn_ID t \<and> ?U s) ts" by (rule filter_eq_matched)
  also have "\<dots> \<le> 1" by (rule matched_unique[OF tokens_okD(1)[OF ok]]) simp
  finally show ?thesis .
next
  case False
  then show ?thesis using matched_0_iff[of ?U ts] by auto
qed


section \<open>Attempts\<close>

lemma attempt_step:
  assumes "estep db (Attempt tid) db'" "enroll_inv db"
  shows "\<exists>t\<in>set (ed_tokens db). tn_ID t = tid \<and> (\<forall>t'\<in>set (ed_tokens db'). tn_ID t' = tid \<longrightarrow> tn_AttemptCount t' = Suc (tn_AttemptCount t))"
proof -
  from assms(1) obtain m f c ai d where 1: "AcquireEnrollmentLease m f c ai db = (db', d)" "Attempt tid = attempt_label (ai_TokenID ai) d"
    by (auto elim: estep_attemptE)
  then have d: "d = Inr DispositionAcquired \<or> d = Inr DispositionInvalid" "ai_TokenID ai = tid" by (auto simp: attempt_label_def split: if_splits)
  from 1(1)[unfolded AcquireEnrollmentLease_def] show ?thesis
  proof (cases rule: withGatewayTx_cases)
    case none
    with d show ?thesis by simp
  next
    case (applied g a)
    from applied(2) assms(2) show ?thesis
    proof (cases rule: acquire_cases)
      case (same t)
      with applied(3) d show ?thesis by auto
    next
      case (changed t t')
      note u = unique_token[OF assms(2) changed(1)]
      have "tn_AttemptCount t' = Suc (tn_AttemptCount t)" using changed(3) applied(3) d by auto
      moreover have "s = t'" if "s \<in> set (ed_tokens db')" "tn_ID s = tid" for s
        using that changed(2) u(2) d(2) unfolding replaces_def by (auto simp: set_upd_rows split: if_splits)
      ultimately show ?thesis using u(1,2) d(2) by blast
    qed
  qed
qed

lemma eruns_attempts:
  assumes "eruns db0 ls db" "enroll_inv db0" "ed_tokens db0 = []"
  shows "(\<forall>t\<in>set (ed_tokens db). count_list ls (Attempt (tn_ID t)) \<le> tn_AttemptCount t) \<and>
    (\<forall>tid. tid \<notin> tn_ID ` set (ed_tokens db) \<longrightarrow> count_list ls (Attempt tid) = 0)"
  using assms
proof (induction rule: eruns.induct)
  case (step db0 ls db1 l db2)
  then have IH: "\<forall>t\<in>set (ed_tokens db1). count_list ls (Attempt (tn_ID t)) \<le> tn_AttemptCount t"
      "\<And>tid. tid \<notin> tn_ID ` set (ed_tokens db1) \<Longrightarrow> count_list ls (Attempt tid) = 0" by simp_all
  have inv: "enroll_inv db1" using eruns_inv[OF step(1)] step.prems by simp
  note e = estep_inv[OF step(2) inv]
  have kept: "\<exists>t'\<in>set (ed_tokens db2). token_kept t t'" if "t \<in> set (ed_tokens db1)" for t using e that by (simp add: evolves_def)
  have uniq: "s = t" if "s \<in> set (ed_tokens db2)" "t \<in> set (ed_tokens db2)" "tn_ID s = tn_ID t" for s t
    using e tokens_okD(1)[of "ed_registry db2" "ed_tokens db2"] that by (simp add: enroll_inv_def distinct_map inj_on_def)
  have att: "\<exists>t\<in>set (ed_tokens db1). tn_ID t = tid \<and> (\<forall>t'\<in>set (ed_tokens db2). tn_ID t' = tid \<longrightarrow> tn_AttemptCount t' = Suc (tn_AttemptCount t))" if "l = Attempt tid" for tid
    using attempt_step[of db1 tid db2] step(2) inv that by simp
  show ?case
  proof (intro conjI ballI allI impI)
    fix t assume t: "t \<in> set (ed_tokens db2)"
    show "count_list (ls @ [l]) (Attempt (tn_ID t)) \<le> tn_AttemptCount t"
    proof (cases "l = Attempt (tn_ID t)")
      case True
      with att[OF True] IH(1) t show ?thesis by (fastforce simp: count_list_append)
    next
      case False
      show ?thesis
      proof (cases "tn_ID t \<in> tn_ID ` set (ed_tokens db1)")
        case True
        then obtain s where s: "s \<in> set (ed_tokens db1)" "tn_ID s = tn_ID t" by auto
        from kept[OF s(1)] uniq[OF t] s(2) have "token_kept s t" by (metis token_kept_def)
        with IH(1) s False show ?thesis by (fastforce simp: count_list_append token_kept_def)
      next
        case nt: False
        with IH(2) False show ?thesis by (simp add: count_list_append)
      qed
    qed
  next
    fix tid assume n: "tid \<notin> tn_ID ` set (ed_tokens db2)"
    have n1: "tid \<notin> tn_ID ` set (ed_tokens db1)"
    proof
      assume "tid \<in> tn_ID ` set (ed_tokens db1)"
      with kept n show False by (auto simp: token_kept_def) (metis image_eqI)
    qed
    moreover have "l \<noteq> Attempt tid" using att[of tid] n1 by auto
    ultimately show "count_list (ls @ [l]) (Attempt tid) = 0" using IH(2) by (simp add: count_list_append)
  qed
qed simp

text \<open>Guessing is bounded: over any run, the attempts charged to a token, the leases it granted
  and the invalid requests it answered, are at most its limit, however processes interleave and
  leases expire or are released.\<close>

theorem enrollment_attempts_bounded:
  assumes "eruns (enroll_start r) ls db" "distinct (map gw_ID (rg_gateways r))" "t \<in> set (ed_tokens db)"
  shows "count_list ls (Attempt (tn_ID t)) \<le> tn_AttemptCount t \<and> tn_AttemptCount t \<le> tn_MaxAttempts t"
proof -
  have "enroll_inv db" using eruns_inv[OF assms(1) start_inv[OF assms(2)]] by simp
  then have "token_check t" using assms(3) by (rule inv_token_check)
  then show ?thesis using eruns_attempts[OF assms(1) start_inv[OF assms(2)]] assms(3) by (simp add: enroll_start_def token_check_def)
qed

section \<open>Redemption\<close>

definition behave :: "(nat \<Rightarrow> enroll_db \<Rightarrow> enroll_db) \<Rightarrow> bool" where
  "behave others \<longleftrightarrow> (\<forall>i db. reaches db (others i db))"

lemma behaveD: "behave others \<Longrightarrow> reaches db (others i db)"
  by (simp add: behave_def)

lemma resolveCredential_cases:
  assumes "pe_credential (resolveCredential env v db)"
  obtains tk t where "Parse (rd_ulid env) v = Inr tk" "find (\<lambda>t. tn_ID t = tk_selector tk) (ed_tokens db) = Some t"
    "Digest (rd_sha env) v = copy32 (tn_TokenHash t)"
    "resolveCredential env v db = \<lparr>pe_tokenID = tk_selector tk, pe_gatewayID = tn_GatewayID t, pe_expected = copy32 (tn_TokenHash t), pe_credential = True\<rparr>"
  using assms by (auto simp: resolveCredential_def Let_def LookupSelector_def Verify_iff split: if_splits sum.splits option.splits)

lemma finalize_request_enrollment: "enrollment_for (finalize_request env cred nonce csr rid sc)"
  by (simp add: enrollment_for_def finalize_request_def enrollment_certificate_def without_revocation_def Let_def)

lemma Recover_state:
  assumes "RecoverEnrollmentIssuance f c gid tid h csr now db = (db', q)"
  shows "db' = db" "q = Inr out \<Longrightarrow> out \<in> set (ed_certs db) \<and> certificateMatches out gid tid csr now"
proof -
  from assms have "withGatewayTx f c gid db (\<lambda>g.
     case loadToken (f 2) g tid h db of
       Inl _ \<Rightarrow> Inl ErrEnrollmentState
     | Inr token \<Rightarrow>
         if tn_Status token \<noteq> TokenConsumed \<or> \<not> gatewayRecoveryEligible g then Inl ErrEnrollmentState
         else case getByTokenCSR (f 3) tid csr db of
           Inl _ \<Rightarrow> Inl ErrEnrollmentState
         | Inr out \<Rightarrow> if \<not> certificateMatches out gid tid csr now then Inl ErrEnrollmentState else Inr (db, out)) = (db', q)"
    by (simp add: RecoverEnrollmentIssuance_def)
  then have "db' = db \<and> (q = Inr out \<longrightarrow> out \<in> set (ed_certs db) \<and> certificateMatches out gid tid csr now)"
    by (cases rule: withGatewayTx_cases)
      (auto simp: getByTokenCSR_def select_cert_def split: sum.splits if_splits option.splits dest: find_Some_in)
  then show "db' = db" "q = Inr out \<Longrightarrow> out \<in> set (ed_certs db) \<and> certificateMatches out gid tid csr now" by simp_all
qed

lemma release_lease_reaches: "behave (rd_others env) \<Longrightarrow> reaches db (release_lease env cred nonce csr cls rid db)"
  unfolding release_lease_def Let_def
  by (rule reaches_trans[OF behaveD reaches_step[OF estep.release]]) (auto intro: prod.collapse[symmetric])

text \<open>The answer of a redemption: the certificate of the token for the request.\<close>

definition answers :: "presented \<Rightarrow> string \<Rightarrow> enroll_db \<Rightarrow> enrollment_result \<Rightarrow> bool" where
  "answers cred csr db res \<longleftrightarrow> (\<exists>c\<in>set (ed_certs db). gc_IssuanceKind c = KindEnrollment \<and> gc_EnrollmentTokenID c = Some (pe_tokenID cred) \<and>
     gc_GatewayID c = pe_gatewayID cred \<and> gc_CSRSHA256 c = csr \<and> res = resultFromCertificate c)"

lemma answers_match: "c \<in> set (ed_certs db) \<Longrightarrow> certificateMatches c (pe_gatewayID cred) (pe_tokenID cred) csr now \<Longrightarrow> answers cred csr db (resultFromCertificate c)"
  by (auto simp: answers_def certificateMatches_def)

lemma persistCertificate_reaches:
  assumes "persistCertificate env cred nonce csr rid sc db = (db', q)" "behave (rd_others env)" "enroll_inv db"
  shows "reaches db db' \<and> (\<forall>res. q = Inr res \<longrightarrow> answers cred csr db' res)"
proof -
  let ?inp = "finalize_request env cred nonce csr rid sc" and ?d = "rd_others env 2 db"
  obtain db1 p where fin: "FinalizeEnrollmentIssuance (rd_ca env) (rd_marshal env) (rd_faults env 2) (rd_commit env 2) ?inp ?d = (db1, p)" by force
  have inv: "enroll_inv ?d" using reaches_inv[OF behaveD[OF assms(2)] assms(3)] by blast
  have r1: "reaches db db1" using behaveD[OF assms(2)] reaches_step[OF estep.finalize[OF fin finalize_request_enrollment]] by (rule reaches_trans)
  show ?thesis
  proof (cases p)
    case (Inr c)
    have c: "c = fi_Certificate ?inp \<and> c \<in> set (ed_certs db1)"
      by (cases rule: Finalize_cases[OF fin inv finalize_request_enrollment]) (use Inr in \<open>auto simp: issues_def\<close>)
    have "answers cred csr db1 (resultFromCertificate c)"
      unfolding answers_def by (rule bexI[of _ c]) (use c in \<open>auto simp: finalize_request_def enrollment_certificate_def Let_def\<close>)
    with assms(1) fin Inr r1 show ?thesis by (auto simp: persistCertificate_def)
  next
    case (Inl e)
    obtain db2 w where rec: "RecoverEnrollmentIssuance (rd_faults env 3) (rd_commit env 3) (pe_gatewayID cred) (pe_tokenID cred) (pe_expected cred) csr
        (UnixMilli (rd_now env 5)) (rd_others env 3 db1) = (db2, w)" by force
    note rs = Recover_state[OF rec]
    have r2: "reaches db db2" using reaches_trans[OF r1 behaveD[OF assms(2)]] rs(1) by simp
    show ?thesis
    proof (cases w)
      case (Inr c)
      with rs(2) answers_match have "answers cred csr db2 (resultFromCertificate c)" using rs(1) by blast
      with assms(1) fin Inl rec Inr r2 show ?thesis by (auto simp: persistCertificate_def)
    next
      case (Inl e')
      with assms(1) fin \<open>p = Inl e\<close> rec r2 reaches_trans[OF r2 release_lease_reaches[OF assms(2)]] show ?thesis by (auto simp: persistCertificate_def)
    qed
  qed
qed

lemma startLease_reaches:
  assumes "startLease env rid cred nonce now csr db = (db', q)" "enroll_inv db"
  shows "reaches db db'" "q = Inr (DispositionReplay c) \<Longrightarrow> answers cred (pc_hash csr) db' (resultFromCertificate c)"
proof -
  show "reaches db db'" using reaches_step[OF estep.acquire[OF assms(1)[unfolded startLease_def]]] .
  assume q: "q = Inr (DispositionReplay c)"
  from assms(1)[unfolded startLease_def AcquireEnrollmentLease_def] show "answers cred (pc_hash csr) db' (resultFromCertificate c)"
  proof (cases rule: withGatewayTx_cases)
    case none
    with q show ?thesis by simp
  next
    case (applied g a)
    with q have a: "a = DispositionReplay c" by auto
    from applied(2) assms(2) show ?thesis
      by (cases rule: acquire_cases) (use a in \<open>auto intro: answers_match\<close>)
  qed
qed

lemma Redeem_reaches:
  assumes "RedeemWithInput env inp db = (db', q)" "behave (rd_others env)" "enroll_inv db"
  shows "reaches db db' \<and> (\<forall>res. q = Inr res \<longrightarrow> (let cred = resolveCredential env (rp_Token inp) db in
     pe_credential cred \<and> answers cred (pc_hash (parseCSR env (rp_CSRDER inp) (pe_gatewayID cred))) db' res))"
proof -
  let ?cred = "resolveCredential env (rp_Token inp) db"
  let ?csr = "parseCSR env (rp_CSRDER inp) (pe_gatewayID ?cred)"
  show ?thesis
  proof (cases "pe_credential ?cred \<and> (\<exists>nonce. rd_nonce env = Inr nonce)")
    case False
    then have "db' = db \<and> (\<exists>e. q = Inl e)" using assms(1) unfolding RedeemWithInput_def Let_def
      by (cases "rd_nonce env"; cases "pe_credential ?cred") auto
    then show ?thesis by auto
  next
    case True
    then obtain nonce where n: "rd_nonce env = Inr nonce" and c: "pe_credential ?cred" by blast
    let ?d = "rd_others env 1 db" and ?now = "rd_now env 1"
    obtain db1 w where sl: "startLease env (rp_RequestID inp) ?cred nonce ?now ?csr ?d = (db1, w)" by force
    have inv: "enroll_inv ?d" using reaches_inv[OF behaveD[OF assms(2)] assms(3)] by blast
    note s = startLease_reaches[OF sl inv]
    have r1: "reaches db db1" using behaveD[OF assms(2)] s(1) by (rule reaches_trans)
    have inv1: "enroll_inv db1" using reaches_inv[OF r1 assms(3)] by blast
    have give: "reaches db (release_lease env ?cred nonce (pc_hash ?csr) cls (rp_RequestID inp) db1)" for cls
      using r1 release_lease_reaches[OF assms(2)] by (rule reaches_trans)
    have sign: "reaches db x \<and> (\<forall>res. y = Inr res \<longrightarrow> answers ?cred (pc_hash ?csr) x res)"
      if "signed_request env ?cred nonce ?csr (rp_RequestID inp) dl db1 = (x, y)" for dl x y
      using that give persistCertificate_reaches[OF _ assms(2) inv1] reaches_trans[OF r1]
      by (auto simp: signed_request_def Let_def split: sum.splits option.splits)
    have rest: "RedeemWithInput env inp db = (case w of Inl e \<Rightarrow> (db1, Inl (mapError (rd_ctx env 1) e))
       | Inr d \<Rightarrow> (case handleLeaseDisposition env d of
            Some answer \<Rightarrow> (db1, answer)
          | None \<Rightarrow> (case calculateSigningDeadline env ?now (?now + ec_LeaseTTL (rd_cfg env)) of
              (deadline, False) \<Rightarrow> (release_lease env ?cred nonce (pc_hash ?csr) ''lease_exhausted'' (rp_RequestID inp) db1,
                 Inl (TransientError (Sentinel ''context deadline exceeded'')))
            | (deadline, True) \<Rightarrow> signed_request env ?cred nonce ?csr (rp_RequestID inp) deadline db1)))"
      unfolding RedeemWithInput_def Let_def using n c sl by (cases w) simp_all
    show ?thesis
    proof (cases w)
      case (Inl e)
      with rest assms(1) r1 show ?thesis by auto
    next
      case w: (Inr d)
      show ?thesis
      proof (cases "handleLeaseDisposition env d")
        case (Some a)
        then have "(db', q) = (db1, a)" using rest assms(1) w by simp
        moreover have "\<forall>res. a = Inr res \<longrightarrow> answers ?cred (pc_hash ?csr) db1 res"
          using Some s(2) w by (auto simp: handleLeaseDisposition_def split: disposition.splits)
        ultimately show ?thesis using r1 c by (simp add: Let_def)
      next
        case None
        obtain dl ok where dl: "calculateSigningDeadline env ?now (?now + ec_LeaseTTL (rd_cfg env)) = (dl, ok)" by force
        show ?thesis
        proof (cases ok)
          case True
          with rest assms(1) w None dl have "signed_request env ?cred nonce ?csr (rp_RequestID inp) dl db1 = (db', q)" by simp
          from sign[OF this] c show ?thesis by (simp add: Let_def)
        next
          case False
          with rest assms(1) w None dl give show ?thesis by auto
        qed
      qed
    qed
  qed
qed

lemma without_revocation_simps: "gc_IssuanceKind (without_revocation c) = gc_IssuanceKind c"
  "gc_EnrollmentTokenID (without_revocation c) = gc_EnrollmentTokenID c" "resultFromCertificate (without_revocation c) = resultFromCertificate c"
  by (simp_all add: without_revocation_def resultFromCertificate_def)

lemma resultFromCertificate_kept: "without_revocation c = without_revocation d \<Longrightarrow> resultFromCertificate c = resultFromCertificate d"
  by (metis without_revocation_simps(3))

lemma one_certificate:
  assumes "enroll_inv db" "c \<in> set (ed_certs db)" "d \<in> set (ed_certs db)" "gc_IssuanceKind c = KindEnrollment" "gc_IssuanceKind d = KindEnrollment"
    "gc_EnrollmentTokenID c = gc_EnrollmentTokenID d"
  shows "c = d"
proof -
  from cert_token[OF assms(1,2,4)] obtain t where t: "t \<in> set (ed_tokens db)" "consumed t" "enrolls t c" by blast
  from cert_token[OF assms(1,3,5)] obtain s where s: "s \<in> set (ed_tokens db)" "consumed s" "enrolls s d" by blast
  have "tn_ID s = tn_ID t" using t(3) s(3) assms(6) by (simp add: enrolls_def)
  with tokens_okD(1)[OF conjunct1[OF assms(1)[unfolded enroll_inv_def]]] s(1) t(1) have "s = t" by (simp add: distinct_map inj_on_def)
  moreover have "length (filter (enrolls t) (ed_certs db)) = 1" using assms(1) t by (simp add: enroll_inv_def certs_ok_def matched_def)
  then obtain x where x: "filter (enrolls t) (ed_certs db) = [x]" by (auto simp: length_Suc_conv)
  ultimately have "c \<in> set [x]" "d \<in> set [x]" unfolding x[symmetric] using t(3) s(3) assms(2,3) by simp_all
  then show ?thesis by simp
qed

lemma answers_unique:
  assumes "enroll_inv db" "reaches db db'" "answers cred csr db res" "answers cred' csr' db' res'" "pe_tokenID cred' = pe_tokenID cred"
  shows "res' = res"
proof -
  from assms(3) obtain c where c: "c \<in> set (ed_certs db)" "gc_IssuanceKind c = KindEnrollment" "gc_EnrollmentTokenID c = Some (pe_tokenID cred)"
    "res = resultFromCertificate c" unfolding answers_def by blast
  from assms(4) obtain d where d: "d \<in> set (ed_certs db')" "gc_IssuanceKind d = KindEnrollment" "gc_EnrollmentTokenID d = Some (pe_tokenID cred')"
    "res' = resultFromCertificate d" unfolding answers_def by blast
  note r = reaches_inv[OF assms(2,1)]
  have "without_revocation c \<in> without_revocation ` set (ed_certs db')" using c(1) r unfolding evolves_def by blast
  then obtain x where x: "x \<in> set (ed_certs db')" "without_revocation x = without_revocation c" by force
  then have "gc_IssuanceKind x = gc_IssuanceKind c" "gc_EnrollmentTokenID x = gc_EnrollmentTokenID c"
    by (metis without_revocation_simps(1), metis x(2) without_revocation_simps(2))
  with one_certificate[OF conjunct1[OF r] x(1) d(1)] c d assms(5) have "x = d" by simp
  with c(4) d(4) resultFromCertificate_kept[OF x(2)] show ?thesis by simp
qed

text \<open>Property C10. A token buys one certificate: whatever happens between, with failing calls, unreported
  commits and other processes at work, two successful redemptions of one token give the same
  certificate, and it is stored for the token, its gateway and the presented request.\<close>

theorem Redeem_same_certificate:
  assumes "eruns (enroll_start r) ls db" "distinct (map gw_ID (rg_gateways r))"
    "RedeemWithInput env inp db = (db1, Inr res)" "behave (rd_others env)" "eruns db1 ls' db2"
    "RedeemWithInput env' inp' db2 = (db3, Inr res')" "behave (rd_others env')"
    "rp_Token inp' = rp_Token inp" "rd_ulid env' = rd_ulid env"
  shows "res' = res \<and> (let cred = resolveCredential env (rp_Token inp) db in
    answers cred (pc_hash (parseCSR env (rp_CSRDER inp) (pe_gatewayID cred))) db1 res)"
proof -
  have inv: "enroll_inv db" using eruns_inv[OF assms(1) start_inv[OF assms(2)]] by simp
  note a = Redeem_reaches[OF assms(3,4) inv]
  have inv1: "enroll_inv db1" using reaches_inv a inv by blast
  have "reaches db1 db2" using assms(5) by (auto simp: reaches_def)
  then have inv2: "enroll_inv db2" and r2: "reaches db1 db2" using reaches_inv inv1 by blast+
  note b = Redeem_reaches[OF assms(6,7) inv2]
  have r3: "reaches db1 db3" using r2 b reaches_trans by blast
  from a have "pe_credential (resolveCredential env (rp_Token inp) db)" by (simp add: Let_def)
  then obtain tk t where 1: "Parse (rd_ulid env) (rp_Token inp) = Inr tk" "pe_tokenID (resolveCredential env (rp_Token inp) db) = tk_selector tk"
    by (elim resolveCredential_cases) simp
  from b have "pe_credential (resolveCredential env' (rp_Token inp') db2)" by (simp add: Let_def)
  then obtain tk' t where 2: "Parse (rd_ulid env') (rp_Token inp') = Inr tk'" "pe_tokenID (resolveCredential env' (rp_Token inp') db2) = tk_selector tk'"
    by (elim resolveCredential_cases) simp
  let ?c = "resolveCredential env (rp_Token inp) db" and ?c' = "resolveCredential env' (rp_Token inp') db2"
  have "res' = res"
  proof (rule answers_unique[OF inv1 r3])
    show "answers ?c (pc_hash (parseCSR env (rp_CSRDER inp) (pe_gatewayID ?c))) db1 res" using a by (simp add: Let_def)
    show "answers ?c' (pc_hash (parseCSR env' (rp_CSRDER inp') (pe_gatewayID ?c'))) db3 res'" using b by (simp add: Let_def)
    show "pe_tokenID ?c' = pe_tokenID ?c" using 1 2 assms(8,9) by simp
  qed
  with a show ?thesis by (simp add: Let_def)
qed

text \<open>A token that is not stored is refused without effect: a presented text that is no token or
  whose digest is not that of the stored token with its selector changes nothing and is
  answered with the one generic refusal.\<close>

theorem unknown_token_denied:
  assumes "\<not> (\<exists>tk. \<exists>t\<in>set (ed_tokens db). Parse (rd_ulid env) (rp_Token inp) = Inr tk \<and> tn_ID t = tk_selector tk \<and>
    copy32 (tn_TokenHash t) = Digest (rd_sha env) (rp_Token inp))"
  shows "RedeemWithInput env inp db = (db, Inl (deniedAt (rd_ctx env 0)))"
proof -
  have "\<not> pe_credential (resolveCredential env (rp_Token inp) db)"
  proof
    assume "pe_credential (resolveCredential env (rp_Token inp) db)"
    then obtain tk t where "Parse (rd_ulid env) (rp_Token inp) = Inr tk" "find (\<lambda>t. tn_ID t = tk_selector tk) (ed_tokens db) = Some t"
      "Digest (rd_sha env) (rp_Token inp) = copy32 (tn_TokenHash t)" by (elim resolveCredential_cases) blast
    with assms find_Some_in[OF this(2)] show False by metis
  qed
  then show ?thesis by (simp add: RedeemWithInput_def Let_def)
qed

section \<open>Renewal\<close>

lemma loadGateway_found: "loadGateway None gid db = Inr g \<Longrightarrow> gatewayRecoveryEligible g \<Longrightarrow>
    \<exists>r\<in>set (rg_gateways (ed_registry db)). gw_ID r = gid \<and> gw_DeletedAt r = None \<and> gw_Status r \<in> {GatewayJoining, GatewayActive, GatewayDraining, GatewayDrained}"
  by (drule loadGateway_Inr) (auto simp: gatewayRecoveryEligible_def)

text \<open>The certificate the caller is authenticated with, valid and not revoked, of an enrolled gateway.\<close>

definition valid_incumbent :: "renewal_credential \<Rightarrow> int \<Rightarrow> enroll_db \<Rightarrow> bool" where
  "valid_incumbent cr now db \<longleftrightarrow>
     (\<exists>r\<in>set (rg_gateways (ed_registry db)). gw_ID r = rw_GatewayID cr \<and> gw_DeletedAt r = None \<and>
        gw_Status r \<in> {GatewayJoining, GatewayActive, GatewayDraining, GatewayDrained}) \<and>
     (\<exists>c\<in>set (ed_certs db). gc_ID c = rw_CertificateID cr \<and> gc_GatewayID c = rw_GatewayID cr \<and> gc_Fingerprint c = rw_Fingerprint cr \<and>
        gc_SerialNumber c = rw_SerialNumber cr \<and> gc_RevokedAt c = None \<and> gc_NotBefore c \<le> now \<and> now < gc_NotAfter c)"

lemma validate_incumbent:
  assumes "loadGateway None (rw_GatewayID cr) db = Inr g" "validateRenewalCredential None g cr now db = Inr ()"
  shows "valid_incumbent cr now db"
proof -
  from assms(2) have e: "gatewayRecoveryEligible g" and "\<exists>c\<in>set (ed_certs db). gc_ID c = rw_CertificateID cr \<and> gc_GatewayID c = rw_GatewayID cr \<and>
      gc_Fingerprint c = rw_Fingerprint cr \<and> gc_SerialNumber c = rw_SerialNumber cr \<and> gc_RevokedAt c = None \<and> gc_NotBefore c \<le> now \<and> now < gc_NotAfter c"
    by (auto simp: validateRenewalCredential_def getForRenewal_def select_cert_def split: if_splits option.splits dest!: find_Some_in)
  then show ?thesis using loadGateway_found[OF assms(1) e] unfolding valid_incumbent_def by blast
qed

definition renewed :: "renewal_credential \<Rightarrow> string \<Rightarrow> int \<Rightarrow> enroll_db \<Rightarrow> enrollment_result \<Rightarrow> bool" where
  "renewed cr csr now db res \<longleftrightarrow> (\<exists>c\<in>set (ed_certs db). res = resultFromCertificate c \<and> gc_IssuanceKind c = KindRenewal \<and>
     gc_GatewayID c = rw_GatewayID cr \<and> gc_CSRSHA256 c = csr \<and> gc_RevokedAt c = None \<and> gc_NotBefore c \<le> now \<and> now < gc_NotAfter c)"

lemma PrepareRenewal_replay:
  assumes "PrepareRenewal f c cr csr now db = (db', q)"
  shows "db' = db" "q = Inr (Some p) \<Longrightarrow> valid_incumbent cr now db \<and> renewed cr csr now db (resultFromCertificate p)"
    "q = Inr None \<Longrightarrow> valid_incumbent cr now db"
proof -
  let ?body = "\<lambda>g. bindr (validateRenewalCredential (f 2) g cr now db) (\<lambda>_.
       case getByGatewayCSR (f 3) (rw_GatewayID cr) csr db of
         Inl e \<Rightarrow> if err_is ''sql: no rows in result set'' e then Inr (db, None) else Inl ErrRenewalState
       | Inr cert \<Rightarrow>
           if \<not> renewalReplayMatches cert (rw_GatewayID cr) csr now then Inl ErrRenewalState else Inr (db, Some cert))"
  from assms obtain q' where q': "withGatewayTx f c (rw_GatewayID cr) db ?body = (db', q')" "\<forall>a. q = Inr a \<longrightarrow> q' = Inr a"
    unfolding PrepareRenewal_def normalizeRenewalError_def by (auto split: prod.splits sum.splits)
  from q'(1) have "db' = db \<and> (\<forall>a. q' = Inr a \<longrightarrow> valid_incumbent cr now db \<and> (\<forall>p. a = Some p \<longrightarrow> renewed cr csr now db (resultFromCertificate p)))"
  proof (cases rule: withGatewayTx_cases)
    case (applied g a)
    then have "validateRenewalCredential None g cr now db = Inr ()" by (auto intro: validate_no_fault)
    with applied validate_incumbent[OF applied(1)] show ?thesis
      by (auto simp: renewed_def renewalReplayMatches_def newRenewalMatches_def split: sum.splits if_splits dest!: getByGatewayCSR_in)
  qed simp
  with q'(2) show "db' = db" "q = Inr (Some p) \<Longrightarrow> valid_incumbent cr now db \<and> renewed cr csr now db (resultFromCertificate p)"
    "q = Inr None \<Longrightarrow> valid_incumbent cr now db" by auto
qed

lemma FinalizeRenewal_success:
  assumes "FinalizeRenewal ca m f c cr csr now cert au db = (db', Inr p)" "without_revocation cert = cert"
  shows "valid_incumbent cr now db' \<and> renewed cr csr now db' (resultFromCertificate p)"
  using assms(1)
proof (cases rule: Renew_cases)
  case (replay g p')
  with validate_incumbent[OF replay(1,2)] show ?thesis by (auto simp: renewed_def renewalReplayMatches_def newRenewalMatches_def)
next
  case (new g)
  have unrevoked: "gc_RevokedAt cert = None" using arg_cong[OF assms(2), of gc_RevokedAt] by (simp add: without_revocation_def)
  from new validate_incumbent[OF new(1,2)] assms(2) show ?thesis
    using unrevoked by (auto simp: renewed_def newRenewalMatches_def valid_incumbent_def)
qed auto

text \<open>Property C33. Renewal needs a valid incumbent: when a renewal succeeds, then in the state it leaves the
  gateway is enrolled and not deleted, the certificate the caller was authenticated with is
  stored, in its validity and not revoked, at the time of the transaction that answered, and
  the answer is a stored certificate of that gateway for the presented request, also when the
  answer was recovered after an unreported commit.\<close>

theorem Renew_under_valid_incumbent:
  assumes "Renew env cr der db = (db', Inr res)"
  shows "\<exists>csr x now. rn_csr env der (rw_GatewayID cr) = Inr (csr, x) \<and> now \<in> {UnixMilli (rn_now env 0), UnixMilli (rn_now env 2), UnixMilli (rn_now env 3)} \<and>
    valid_incumbent cr now db' \<and> renewed cr csr now db' res"
proof -
  from assms obtain csr x where csr: "rn_csr env der (rw_GatewayID cr) = Inr (csr, x)"
    unfolding Renew_def by (auto split: if_splits sum.splits prod.splits)
  obtain db1 p where pr: "PrepareRenewal (rn_faults env 0) (rn_commit env 0) cr csr (UnixMilli (rn_now env 0)) (rn_others env 0 db) = (db1, p)" by force
  note prs = PrepareRenewal_replay[OF pr]
  note run = assms[unfolded Renew_def csr, simplified]
  consider (replay) c where "p = Inr (Some c)" "db' = db1" "res = resultFromCertificate c"
    | (signed_) sc where "finish_renewal env cr csr sc db1 = (db', Inr res)"
  proof (cases p)
    case (Inl e)
    with run show thesis by (simp add: pr split: if_splits)
  next
    case (Inr o')
    show thesis
    proof (cases o')
      case None
      with run Inr have "(case rn_sign env (rw_GatewayID cr) x of
           Inl e \<Rightarrow> (db1, Inl (case rn_ctx env 1 of Some ce \<Rightarrow> OtherError ce | None \<Rightarrow> TransientError e))
         | Inr sc \<Rightarrow> (case rn_check env sc x (rw_GatewayID cr) (rn_now env 1) of
             Some e \<Rightarrow> (db1, Inl (TransientError e)) | None \<Rightarrow> finish_renewal env cr csr sc db1)) = (db', Inr res)"
        by (simp add: pr split: if_splits)
      then show thesis by (auto split: sum.splits option.splits intro: signed_)
    next
      case (Some c)
      with run Inr show thesis by (intro replay[of c]) (simp_all add: pr split: if_splits)
    qed
  qed
  then show ?thesis
  proof cases
    case replay
    with prs csr show ?thesis by blast
  next
    case (signed_ sc)
    let ?at = "UnixMilli (rn_now env 2)" and ?cert = "renewal_certificate (rn_ids env 0) (rw_GatewayID cr) csr sc (UnixMilli (rn_now env 2))"
    obtain db2 w where fin: "FinalizeRenewal (rn_ca env) (rn_marshal env) (rn_faults env 1) (rn_commit env 1) cr csr ?at ?cert
        (renewalAudit (rn_ids env 1) (rw_GatewayID cr) (sg_Fingerprint sc) ?at) (rn_others env 1 db1) = (db2, w)" by force
    note run = signed_[unfolded finish_renewal_def Let_def fin]
    show ?thesis
    proof (cases w)
      case (Inr c)
      have "without_revocation ?cert = ?cert" by (simp add: renewal_certificate_def without_revocation_def)
      from FinalizeRenewal_success[OF fin[unfolded Inr] this] run Inr csr show ?thesis by auto
    next
      case (Inl e)
      obtain db3 y where rp: "PrepareRenewal (rn_faults env 2) (rn_commit env 2) cr csr (UnixMilli (rn_now env 3)) (rn_others env 2 db2) = (db3, y)" by force
      with run Inl obtain c where "y = Inr (Some c)" "db' = db3" "res = resultFromCertificate c"
        by (auto split: sum.splits option.splits)
      with PrepareRenewal_replay[OF rp] csr show ?thesis by blast
    qed
  qed
qed

section \<open>Asking again\<close>

lemma copy32_id: "length h = 32 \<Longrightarrow> copy32 h = h"
  by (simp add: copy32_def)

lemma acquire_replays:
  assumes "enroll_inv db" "c \<in> set (ed_certs db)" "certificateMatches c (ai_GatewayID inp) (ai_TokenID inp) (ai_CSRHash inp) (ai_Now inp)"
    "t \<in> set (ed_tokens db)" "tn_ID t = ai_TokenID inp" "tn_TokenHash t = ai_ExpectedHash inp" "gatewayRecoveryEligible g" "gl_ID g = ai_GatewayID inp"
  shows "acquire_body m no_faults inp db g = Inr (db, DispositionReplay c)"
proof -
  have ok: "tokens_ok (ed_registry db) (ed_tokens db)" using assms(1) by (simp add: enroll_inv_def)
  have ft: "find (\<lambda>s. tn_ID s = ai_TokenID inp) (ed_tokens db) = Some t" using find_unique_key[OF tokens_okD(1)[OF ok] assms(4)] assms(5) by simp
  from assms(3) have m: "gc_IssuanceKind c = KindEnrollment" "gc_EnrollmentTokenID c = Some (ai_TokenID inp)" "gc_GatewayID c = ai_GatewayID inp" "gc_CSRSHA256 c = ai_CSRHash inp"
    by (simp_all add: certificateMatches_def)
  from cert_token[OF assms(1,2) m(1)] obtain s where s: "s \<in> set (ed_tokens db)" "consumed s" "enrolls s c" by blast
  then have "tn_ID s = tn_ID t" using m(2) assms(5) by (simp add: enrolls_def)
  with tokens_okD(1)[OF ok] s(1) assms(4) have st: "s = t" by (simp add: distinct_map inj_on_def)
  have lt: "loadToken None g (ai_TokenID inp) (ai_ExpectedHash inp) db = Inr t"
    using ft st s(3) m(3) assms(6,8) by (simp add: loadToken_Inr enrolls_def)
  obtain d where d: "find (\<lambda>c. gc_IssuanceKind c = KindEnrollment \<and> gc_EnrollmentTokenID c = Some (ai_TokenID inp) \<and> gc_CSRSHA256 c = ai_CSRHash inp) (ed_certs db) = Some d"
    using m assms(2) by (cases "find (\<lambda>c. gc_IssuanceKind c = KindEnrollment \<and> gc_EnrollmentTokenID c = Some (ai_TokenID inp) \<and> gc_CSRSHA256 c = ai_CSRHash inp) (ed_certs db)")
      (auto simp: find_None_iff)
  with one_certificate[OF assms(1) _ assms(2)] m find_Some_in[OF d] have "d = c" by simp
  then show ?thesis using lt s(2) st d assms(3,7) by (simp add: acquire_body_def consumed_def getByTokenCSR_def select_cert_def)
qed

text \<open>A lost answer can be had again: after an enrollment a redemption with the same token and
  request returns the stored certificate, and changes nothing, as long as the certificate is
  valid and the gateway was not removed or disabled.\<close>

theorem Redeem_replays:
  assumes "eruns (enroll_start r) ls db" "distinct (map gw_ID (rg_gateways r))"
    "c \<in> set (ed_certs db)" "gc_IssuanceKind c = KindEnrollment" "gc_EnrollmentTokenID c = Some (tn_ID t)" "t \<in> set (ed_tokens db)"
    "Parse (rd_ulid env) (rp_Token inp) = Inr tk" "tk_selector tk = tn_ID t" "Digest (rd_sha env) (rp_Token inp) = tn_TokenHash t" "length (tn_TokenHash t) = 32"
    "pc_hash (parseCSR env (rp_CSRDER inp) (gc_GatewayID c)) = gc_CSRSHA256 c"
    "gc_NotBefore c \<le> UnixMilli (rd_now env 1)" "UnixMilli (rd_now env 1) < gc_NotAfter c"
    "g \<in> set (rg_gateways (ed_registry db))" "gw_ID g = gc_GatewayID c" "gw_DeletedAt g = None"
    "gw_Status g \<in> {GatewayJoining, GatewayActive, GatewayDraining, GatewayDrained}"
    "rd_faults env = (\<lambda>_. no_faults)" "rd_commit env = (\<lambda>_. Committed)" "rd_others env = (\<lambda>_ d. d)" "rd_nonce env = Inr nonce"
  shows "RedeemWithInput env inp db = (db, Inr (resultFromCertificate c))"
proof -
  have inv: "enroll_inv db" using eruns_inv[OF assms(1) start_inv[OF assms(2)]] by simp
  then have ok: "tokens_ok (ed_registry db) (ed_tokens db)" by (simp add: enroll_inv_def)
  from cert_token[OF inv assms(3,4)] obtain s where s: "s \<in> set (ed_tokens db)" "enrolls s c" by blast
  with tokens_okD(1)[OF ok] assms(5,6) have gt: "tn_GatewayID t = gc_GatewayID c" by (auto simp: enrolls_def distinct_map inj_on_def)
  have ft: "find (\<lambda>s. tn_ID s = tn_ID t) (ed_tokens db) = Some t" by (rule find_unique_key[OF tokens_okD(1)[OF ok] assms(6)])
  let ?cred = "\<lparr>pe_tokenID = tn_ID t, pe_gatewayID = gc_GatewayID c, pe_expected = tn_TokenHash t, pe_credential = True\<rparr>"
  have cred: "resolveCredential env (rp_Token inp) db = ?cred"
    using assms(7-10,18) ft gt by (simp add: resolveCredential_def Let_def LookupSelector_def Verify_iff copy32_id)
  let ?lock = "\<lparr>gl_ID = gc_GatewayID c, gl_Status = gw_Status g, gl_Deleted = False\<rparr>"
  have lg: "loadGateway None (gc_GatewayID c) db = Inr ?lock"
    using find_unique_key[OF tokens_okD(2)[OF ok] assms(14)] assms(15,16) by (simp add: loadGateway_def)
  let ?csr = "parseCSR env (rp_CSRDER inp) (gc_GatewayID c)"
  let ?inp = "\<lparr>ai_GatewayID = gc_GatewayID c, ai_TokenID = tn_ID t, ai_ExpectedHash = tn_TokenHash t, ai_CSRHash = pc_hash ?csr, ai_Nonce = nonce,
    ai_Now = UnixMilli (rd_now env 1), ai_LeaseUntil = UnixMilli (rd_now env 1 + ec_LeaseTTL (rd_cfg env)), ai_CSRValid = pc_valid ?csr,
    ai_StartedAudit = audit (rd_ids env 0) (node_actor (gc_GatewayID c) (rp_RequestID inp)) ''enrollment.started'' (gc_GatewayID c) ''success'' (UnixMilli (rd_now env 1)) []\<rparr>"
  have ab: "acquire_body (rd_marshal env) no_faults ?inp db ?lock = Inr (db, DispositionReplay c)"
    by (rule acquire_replays[OF inv assms(3) _ assms(6)]) (use assms(4,5,11-13,17) in \<open>simp_all add: certificateMatches_def gatewayRecoveryEligible_def\<close>)
  have "startLease env (rp_RequestID inp) ?cred nonce (rd_now env 1) ?csr db =
      AcquireEnrollmentLease (rd_marshal env) no_faults Committed ?inp db" unfolding startLease_def assms(18,19) by simp
  also have "\<dots> = (db, Inr (DispositionReplay c))"
    unfolding AcquireEnrollmentLease_def withGatewayTx_def withTx_def using ab lg by simp
  finally have "startLease env (rp_RequestID inp) ?cred nonce (rd_now env 1) ?csr db = (db, Inr (DispositionReplay c))" .
  then show ?thesis unfolding RedeemWithInput_def Let_def cred using assms(20,21) by (simp add: handleLeaseDisposition_def)
qed

section \<open>An enrollment\<close>

definition demo_issue_env :: issue_env where
  "demo_issue_env = \<lparr>ie_cfg = DefaultEnrollmentConfig, ie_ulid = crockford_ulid, ie_sha = (\<lambda>_. replicate 32 (CHR ''h'')),
     ie_marshal = (\<lambda>_. Inr []), ie_secret = Inr (replicate 32 (char_of (0::nat))),
     ie_ids = (\<lambda>i. if i = 1 then replicate 26 (CHR ''0'') else show_nat i), ie_now = 0, ie_faults = no_faults, ie_commit = Committed\<rparr>"

definition demo_create :: create_input where
  "demo_create = \<lparr>ci_Label = None, ci_Notes = None, ci_Capacity = None, ci_CreatedByUserID = ''u'',
     ci_Actor = \<lparr>ac_Type = ''user'', ac_ID = ''u'', ac_RequestID = []\<rparr>\<rparr>"

definition demo_registry :: registry where
  "demo_registry = \<lparr>rg_gateways = [], rg_sessions = [], rg_assignments = []\<rparr>"

definition demo_signed :: signed_certificate where
  "demo_signed = \<lparr>sg_AuthorityID = ''ca'', sg_Serial = ''7'', sg_ChainPEM = ''pem'', sg_TrustBundlePEM = ''trust'', sg_Fingerprint = ''fp'',
     sg_NotBefore = 0, sg_NotAfter = 1000000000000\<rparr>"

definition demo_redeem_env :: "unit redeem_env" where
  "demo_redeem_env = \<lparr>rd_cfg = DefaultEnrollmentConfig, rd_ulid = crockford_ulid, rd_sha = (\<lambda>_. replicate 32 (CHR ''h'')),
     rd_marshal = (\<lambda>_. Inr []), rd_ca = (\<lambda>_. True), rd_now = (\<lambda>_. 1000000000), rd_ids = (\<lambda>i. ''r'' @ show_nat i), rd_nonce = Inr ''nonce'',
     rd_ctx = (\<lambda>_. None), rd_csr = (\<lambda>_ _. Inr (''csr'', ())), rd_sign = (\<lambda>_ _ _ _. Inr demo_signed), rd_check = (\<lambda>_ _ _ _. None),
     rd_faults = (\<lambda>_. no_faults), rd_commit = (\<lambda>_. Committed), rd_others = (\<lambda>_ db. db)\<rparr>"

definition demo_redeem :: redeem_input where
  "demo_redeem = \<lparr>rp_Token = tk_value demo_token, rp_CSRDER = ''der'', rp_RequestID = []\<rparr>"

definition demo_cert :: gateway_certificate where
  "demo_cert = enrollment_certificate ''r1'' \<lparr>pe_tokenID = tk_selector demo_token, pe_gatewayID = ''gw_0'', pe_expected = [], pe_credential = True\<rparr>
     ''csr'' demo_signed 1000"

definition demo_gateway :: "gateway_status \<Rightarrow> int option \<Rightarrow> int \<Rightarrow> gateway_row" where
  "demo_gateway st enrolled updated = (new_gateway ''gw_0'' st 0 updated)\<lparr>gw_CreatedBy := Some ''u'', gw_DesiredRevision := 1, gw_EnrolledAt := enrolled\<rparr>"

definition demo_row :: enrollment_token where
  "demo_row = \<lparr>tn_ID = tk_selector demo_token, tn_GatewayID = ''gw_0'', tn_TokenPrefix = ''qwg_enroll_v1_00'', tn_Status = TokenActive,
     tn_CreatedByUserID = ''u'', tn_TokenHash = replicate 32 (CHR ''h''), tn_AttemptCount = 0, tn_MaxAttempts = 5, tn_ExpiresAt = 900000,
     tn_CreatedAt = 0, tn_UpdatedAt = 0, tn_RedemptionNonce = None, tn_CSRSHA256 = None, tn_RedeemingAt = None, tn_LeaseExpiresAt = None,
     tn_ConsumedAt = None, tn_RevokedAt = None\<rparr>"

definition demo_issued :: enroll_db where
  "demo_issued = \<lparr>ed_registry = demo_registry\<lparr>rg_gateways := [demo_gateway GatewayPendingEnrollment None 0]\<rparr>, ed_tokens = [demo_row], ed_certs = [],
     ed_audits = [audit ''2'' (ci_Actor demo_create) ''gateway.created'' ''gw_0'' ''success'' 0 [],
                  audit ''3'' (ci_Actor demo_create) ''enrollment.issued'' ''gw_0'' ''success'' 0 []]\<rparr>"

definition demo_enrolled :: enroll_db where
  "demo_enrolled = \<lparr>ed_registry = demo_registry\<lparr>rg_gateways := [demo_gateway GatewayJoining (Some 1000) 1000]\<rparr>,
     ed_tokens = [demo_row\<lparr>tn_Status := TokenConsumed, tn_AttemptCount := 1, tn_UpdatedAt := 1000, tn_ConsumedAt := Some 1000\<rparr>], ed_certs = [demo_cert],
     ed_audits = ed_audits demo_issued @
       [audit ''r0'' (node_actor ''gw_0'' []) ''enrollment.started'' ''gw_0'' ''success'' 1000 [],
        audit ''r2'' (node_actor ''gw_0'' []) ''enrollment.succeeded'' ''gw_0'' ''success'' 1000 [(''certificate_fingerprint'', ''6670'')]]\<rparr>"

lemma CreateGateway_run:
  assumes "CreateGateway env inp db = (db', q)"
  shows "eruns db [Quiet] db' \<or> db' = db"
proof -
  have "estep db Quiet (fst (CreatePendingWithToken m f c (newGateway now gid inp) nt cr (snd x) as db))"
    if "newEnrollmentToken cfg ulid sha secret selector now gid aid = Inr x" for m f c now gid nt cr x as cfg ulid sha secret selector aid
    using that by (intro estep.create[OF prod.collapse[symmetric]]) (auto simp: newEnrollmentToken_def newGateway_def new_gateway_def)
  with assms show ?thesis
    by (auto simp: CreateGateway_def Let_def split: if_splits sum.splits prod.splits) (metis eruns_one fst_conv)+
qed

lemma demo_created: "CreateGateway demo_issue_env demo_create (enroll_start demo_registry) =
    (demo_issued, Inr \<lparr>is_GatewayID = ''gw_0'', is_TokenID = tk_selector demo_token, is_Token = tk_value demo_token, is_ExpiresAt = 900000\<rparr>)"
  by code_simp

lemma demo_redeemed: "RedeemWithInput demo_redeem_env demo_redeem demo_issued = (demo_enrolled, Inr (resultFromCertificate demo_cert))"
  by code_simp

lemma demo_again: "RedeemWithInput demo_redeem_env demo_redeem demo_enrolled = (demo_enrolled, Inr (resultFromCertificate demo_cert))"
  by code_simp

lemma demo_behave: "behave (rd_others demo_redeem_env)"
  by (simp add: behave_def demo_redeem_env_def)

lemma demo_registry_distinct: "distinct (map gw_ID (rg_gateways demo_registry))"
  by (simp add: demo_registry_def)

lemma demo_issued_run: "eruns (enroll_start demo_registry) [Quiet] demo_issued"
  using CreateGateway_run[OF demo_created] by (simp add: demo_issued_def enroll_start_def)

lemma demo_enrolled_run: "reaches (enroll_start demo_registry) demo_enrolled"
proof -
  have "enroll_inv demo_issued" using eruns_inv[OF demo_issued_run start_inv[OF demo_registry_distinct]] by simp
  from Redeem_reaches[OF demo_redeemed demo_behave this] demo_issued_run show ?thesis unfolding reaches_def using eruns_trans by blast
qed


theorem enrollment_attempts_bounded_witness:
  "count_list [Quiet, Attempt (tn_ID demo_row)] (Attempt (tn_ID demo_row)) \<le> 1 \<and> tn_AttemptCount demo_row < tn_MaxAttempts demo_row"
proof -
  let ?inp = "\<lparr>ai_GatewayID = ''gw_0'', ai_TokenID = tn_ID demo_row, ai_ExpectedHash = tn_TokenHash demo_row, ai_CSRHash = ''csr'', ai_Nonce = ''n'',
    ai_Now = 1000, ai_LeaseUntil = 2000, ai_CSRValid = False, ai_StartedAudit = audit [] (node_actor [] []) [] [] [] 0 []\<rparr>"
  let ?t = "demo_row\<lparr>tn_AttemptCount := 1, tn_UpdatedAt := 1000\<rparr>"
  have "AcquireEnrollmentLease (\<lambda>_. Inr []) no_faults Committed ?inp demo_issued = (demo_issued\<lparr>ed_tokens := [?t]\<rparr>, Inr DispositionInvalid)" by code_simp
  from estep.acquire[OF this] have "estep demo_issued (Attempt (tn_ID demo_row)) (demo_issued\<lparr>ed_tokens := [?t]\<rparr>)" by (simp add: attempt_label_def)
  from eruns.step[OF demo_issued_run this] have r: "eruns (enroll_start demo_registry) [Quiet, Attempt (tn_ID demo_row)] (demo_issued\<lparr>ed_tokens := [?t]\<rparr>)" by simp
  from enrollment_attempts_bounded[OF r demo_registry_distinct, of ?t] show ?thesis by (simp add: demo_row_def)
qed

theorem Redeem_same_certificate_witness:
  "snd (RedeemWithInput demo_redeem_env demo_redeem demo_enrolled) = Inr (resultFromCertificate demo_cert) \<and>
   answers \<lparr>pe_tokenID = tn_ID demo_row, pe_gatewayID = ''gw_0'', pe_expected = tn_TokenHash demo_row, pe_credential = True\<rparr> ''csr'' demo_enrolled
     (resultFromCertificate demo_cert)"
proof -
  have c: "resolveCredential demo_redeem_env (rp_Token demo_redeem) demo_issued =
      \<lparr>pe_tokenID = tn_ID demo_row, pe_gatewayID = ''gw_0'', pe_expected = tn_TokenHash demo_row, pe_credential = True\<rparr>" by code_simp
  have "pc_hash (parseCSR demo_redeem_env d g) = ''csr''" for d g by (simp add: parseCSR_def demo_redeem_env_def)
  with Redeem_same_certificate[OF demo_issued_run demo_registry_distinct demo_redeemed demo_behave eruns.start demo_again demo_behave refl refl] demo_again
  show ?thesis by (simp add: Let_def c)
qed

theorem unknown_token_denied_witness:
  "RedeemWithInput demo_redeem_env (demo_redeem\<lparr>rp_Token := ''forged''\<rparr>) demo_issued = (demo_issued, Inl InvalidCredentialError)"
proof -
  have "Parse (rd_ulid demo_redeem_env) ''forged'' = Inl ErrInvalid" by (simp add: Parse_def HasPrefix_def tokenPrefix_def)
  with unknown_token_denied[of demo_issued demo_redeem_env "demo_redeem\<lparr>rp_Token := ''forged''\<rparr>"] show ?thesis
    by (simp add: deniedAt_def demo_redeem_env_def)
qed

theorem Redeem_replays_witness:
  "RedeemWithInput demo_redeem_env demo_redeem demo_enrolled = (demo_enrolled, Inr (resultFromCertificate demo_cert))"
proof -
  obtain ls where r: "eruns (enroll_start demo_registry) ls demo_enrolled" using demo_enrolled_run by (auto simp: reaches_def)
  let ?t = "demo_row\<lparr>tn_Status := TokenConsumed, tn_AttemptCount := 1, tn_UpdatedAt := 1000, tn_ConsumedAt := Some 1000\<rparr>"
  have p: "Parse (rd_ulid demo_redeem_env) (rp_Token demo_redeem) = Inr demo_token" by code_simp
  show ?thesis
    by (rule Redeem_replays[OF r demo_registry_distinct, where t = ?t and tk = demo_token and g = "demo_gateway GatewayJoining (Some 1000) 1000" and nonce = "''nonce''"])
      (insert p, simp_all add: demo_enrolled_def demo_cert_def enrollment_certificate_def demo_signed_def demo_row_def demo_redeem_env_def demo_redeem_def
        Digest_def parseCSR_def UnixMilli_def demo_gateway_def new_gateway_def)
qed

definition demo_renew_env :: "unit renew_env" where
  "demo_renew_env = \<lparr>rn_marshal = (\<lambda>_. Inr []), rn_ca = (\<lambda>_. True), rn_now = (\<lambda>_. 2000000000), rn_ids = (\<lambda>i. ''n'' @ show_nat i), rn_ctx = (\<lambda>_. None),
     rn_csr = (\<lambda>_ _. Inr (''csr2'', ())), rn_sign = (\<lambda>_ _. Inr (demo_signed\<lparr>sg_Serial := ''8'', sg_Fingerprint := ''fp2''\<rparr>)),
     rn_check = (\<lambda>_ _ _ _. None), rn_faults = (\<lambda>_. no_faults), rn_commit = (\<lambda>_. Committed), rn_others = (\<lambda>_ db. db)\<rparr>"

definition demo_credential :: renewal_credential where
  "demo_credential = \<lparr>rw_GatewayID = ''gw_0'', rw_CertificateID = ''r1'', rw_SerialNumber = ''7'', rw_Fingerprint = ''fp''\<rparr>"

theorem Renew_under_valid_incumbent_witness:
  "\<exists>db' res now. Renew demo_renew_env demo_credential ''der'' demo_enrolled = (db', Inr res) \<and>
     valid_incumbent demo_credential now db' \<and> renewed demo_credential ''csr2'' now db' res"
proof -
  let ?r = "Renew demo_renew_env demo_credential ''der'' demo_enrolled"
  have "isl (snd ?r) = False" by code_simp
  then obtain db' res where r: "?r = (db', Inr res)" by (cases "?r"; cases "snd ?r") auto
  from Renew_under_valid_incumbent[OF r] show ?thesis unfolding r by (auto simp: demo_renew_env_def)
qed

end
