(* ===== verification/Autocommit.thy ===== *)
theory Autocommit
  imports StoreHelpers
begin

text \<open>
  Sequences of SQL statements that commit by themselves: the repositories of the WhatsApp-data
  tables write outside a transaction, so an operation that fails half-way leaves what its
  earlier statements wrote. The theory has the computations, the interface \<open>table_relation\<close>
  of a relation that all of them keep when each statement does, and \<open>INSERT ... ON DUPLICATE
  KEY UPDATE\<close> on a table kept as a list of rows.
\<close>

text \<open>
  The database decides what becomes of each statement: it works, it is refused with an error and
  changes nothing, or it takes effect and its answer is lost, which the caller sees as an error.
  A computation consumes one fate per statement; with no fate left, statements work.
\<close>

datatype fate = Works | Refused go_err | Lost go_err

type_synonym ('s, 'a) stm = "'s \<times> fate list \<Rightarrow> 'a result \<times> 's \<times> fate list"

definition returnS :: "'a \<Rightarrow> ('s, 'a) stm" where
  "returnS a = (\<lambda>s. (Inr a, s))"

definition failS :: "go_err \<Rightarrow> ('s, 'a) stm" where
  "failS e = (\<lambda>s. (Inl e, s))"

definition bindS :: "('s, 'a) stm \<Rightarrow> ('a \<Rightarrow> ('s, 'b) stm) \<Rightarrow> ('s, 'b) stm" where
  "bindS m k = (\<lambda>s. case m s of (Inl e, s') \<Rightarrow> (Inl e, s') | (Inr a, s') \<Rightarrow> k a s')"

abbreviation thenS :: "('s, unit) stm \<Rightarrow> ('s, 'b) stm \<Rightarrow> ('s, 'b) stm" where
  "thenS m n \<equiv> bindS m (\<lambda>_. n)"

text \<open>\<open>whenS c m\<close> is \<open>if c { if err := m; err != nil { return err } }\<close>, \<open>wrapS p m\<close> wraps the
  error of a call, and \<open>forS\<close> is a loop that returns the first error.\<close>

definition whenS :: "bool \<Rightarrow> ('s, unit) stm \<Rightarrow> ('s, unit) stm" where
  "whenS c m = (if c then m else returnS ())"

definition wrapS :: "string \<Rightarrow> ('s, 'a) stm \<Rightarrow> ('s, 'a) stm" where
  "wrapS p m = (\<lambda>s. case m s of (r, s') \<Rightarrow> (wrapr p r, s'))"

primrec forS :: "'b list \<Rightarrow> ('b \<Rightarrow> ('s, unit) stm) \<Rightarrow> ('s, unit) stm" where
  "forS [] body = returnS ()"
| "forS (x # xs) body = thenS (body x) (forS xs body)"

text \<open>One statement: what it does to the tables, or the constraint it violates.\<close>

fun execS :: "('s \<Rightarrow> ('s \<times> 'a) result) \<Rightarrow> ('s, 'a) stm" where
  "execS st (db, Refused e # fs) = (Inl e, db, fs)"
| "execS st (db, Lost e # fs) = (case st db of Inl e' \<Rightarrow> (Inl e', db, fs) | Inr (db', a) \<Rightarrow> (Inl e, db', fs))"
| "execS st (db, Works # fs) = (case st db of Inl e' \<Rightarrow> (Inl e', db, fs) | Inr (db', a) \<Rightarrow> (Inr a, db', fs))"
| "execS st (db, []) = (case st db of Inl e' \<Rightarrow> (Inl e', db, []) | Inr (db', a) \<Rightarrow> (Inr a, db', []))"

definition writeS :: "('s \<Rightarrow> 's) \<Rightarrow> ('s, unit) stm" where
  "writeS g = execS (\<lambda>db. Inr (g db, ()))"

definition readS :: "('s \<Rightarrow> 'a) \<Rightarrow> ('s, 'a) stm" where
  "readS q = execS (\<lambda>db. Inr (db, q db))"

text \<open>\<open>after m db\<close> is what a computation leaves of the tables when no statement fails.\<close>

definition after :: "('s, 'a) stm \<Rightarrow> 's \<Rightarrow> 's" where
  "after m db = fst (snd (m (db, [])))"

definition outcome :: "('s, 'a) stm \<Rightarrow> 's \<Rightarrow> 'a result" where
  "outcome m db = fst (m (db, []))"

text \<open>
  A computation keeps a relation between the tables before and after it, whatever becomes of its
  statements.
\<close>

definition keeps :: "('s \<Rightarrow> 's \<Rightarrow> bool) \<Rightarrow> ('s, 'a) stm \<Rightarrow> bool" where
  "keeps R m \<longleftrightarrow> (\<forall>db fs. R db (fst (snd (m (db, fs)))))"

text \<open>The same for the runs that succeed, which is all a transaction needs of its body.\<close>

definition keeps_ok :: "('s \<Rightarrow> 's \<Rightarrow> bool) \<Rightarrow> ('s, 'a) stm \<Rightarrow> bool" where
  "keeps_ok R m \<longleftrightarrow> (\<forall>db fs a db' fs'. m (db, fs) = (Inr a, db', fs') \<longrightarrow> R db db')"

lemma keeps_imp_ok: "keeps R m \<Longrightarrow> keeps_ok R m"
  unfolding keeps_def keeps_ok_def by (metis fst_conv snd_conv)

locale table_relation =
  fixes R :: "'s \<Rightarrow> 's \<Rightarrow> bool"
  assumes R_refl: "R db db"
    and R_trans: "R a b \<Longrightarrow> R b c \<Longrightarrow> R a c"
begin

lemma keeps_return: "keeps R (returnS a)" "keeps R (failS e)"
  by (simp_all add: keeps_def returnS_def failS_def R_refl)

lemma keeps_bind:
  assumes m: "keeps R m" and k: "\<And>a. keeps R (k a)"
  shows "keeps R (bindS m k)"
  unfolding keeps_def
proof (intro allI)
  fix db fs
  obtain r db' fs' where e: "m (db, fs) = (r, db', fs')" by (cases "m (db, fs)") auto
  have 1: "R db db'" using m e unfolding keeps_def by (metis fst_conv snd_conv)
  show "R db (fst (snd (bindS m k (db, fs))))"
  proof (cases r)
    case (Inl x)
    then show ?thesis using 1 e by (simp add: bindS_def)
  next
    case (Inr a)
    have "R db' (fst (snd (k a (db', fs'))))" using k[of a] unfolding keeps_def by blast
    then show ?thesis using R_trans[OF 1] Inr e by (simp add: bindS_def)
  qed
qed

lemma keeps_when: "keeps R m \<Longrightarrow> keeps R (whenS c m)"
  by (simp add: whenS_def keeps_return)

lemma keeps_wrap: "keeps R m \<Longrightarrow> keeps R (wrapS p m)"
  by (simp add: keeps_def wrapS_def split_beta)

lemma keeps_for: "(\<And>x. x \<in> set xs \<Longrightarrow> keeps R (body x)) \<Longrightarrow> keeps R (forS xs body)"
  by (induction xs) (simp_all add: keeps_return keeps_bind)

lemma exec_related:
  assumes st: "\<And>db' a. st db = Inr (db', a) \<Longrightarrow> R db db'"
  shows "R db (fst (snd (execS st (db, fs))))"
  by (cases "(st, db, fs)" rule: execS.cases) (auto simp: R_refl split: sum.splits dest: st)

lemma keeps_exec: "(\<And>db db' a. st db = Inr (db', a) \<Longrightarrow> R db db') \<Longrightarrow> keeps R (execS st)"
  unfolding keeps_def using exec_related by blast

lemma keeps_write: "(\<And>db. R db (g db)) \<Longrightarrow> keeps R (writeS g)"
  unfolding writeS_def by (rule keeps_exec) auto

lemma keeps_read: "keeps R (readS q)"
  unfolding readS_def by (rule keeps_exec) (auto simp: R_refl)

lemmas keeps_rules = keeps_return keeps_bind keeps_when keeps_wrap keeps_for keeps_read

end

text \<open>Statements that work one after the other.\<close>

lemma exec_nil [simp]: "execS st (db, []) = (case st db of Inl e \<Rightarrow> (Inl e, db, []) | Inr (db', a) \<Rightarrow> (Inr a, db', []))"
  by simp

lemma write_nil [simp]: "writeS g (db, []) = (Inr (), g db, [])"
  by (simp add: writeS_def)

lemma read_nil [simp]: "readS q (db, []) = (Inr (q db), db, [])"
  by (simp add: readS_def)

lemma return_app [simp]: "returnS a s = (Inr a, s)"
  by (simp add: returnS_def)

lemma fail_app [simp]: "failS e s = (Inl e, s)"
  by (simp add: failS_def)

lemma bind_app: "bindS m k s = (case m s of (Inl e, s') \<Rightarrow> (Inl e, s') | (Inr a, s') \<Rightarrow> k a s')"
  by (simp add: bindS_def)

lemma wrap_app: "wrapS p m s = (case m s of (r, s') \<Rightarrow> (wrapr p r, s'))"
  by (simp add: wrapS_def)

lemma when_app: "whenS c m s = (if c then m s else (Inr (), s))"
  by (simp add: whenS_def)

text \<open>What a successful run has done.\<close>

lemma bind_ok: "bindS m k s = (Inr b, s') \<longleftrightarrow> (\<exists>a s1. m s = (Inr a, s1) \<and> k a s1 = (Inr b, s'))"
  by (cases "m s"; cases "fst (m s)") (auto simp: bindS_def)

lemma wrap_ok: "wrapS p m s = (Inr a, s') \<longleftrightarrow> m s = (Inr a, s')"
  by (cases "m s") (auto simp: wrapS_def)

lemma exec_ok: "execS st (db, fs) = (Inr a, db', fs') \<Longrightarrow> st db = Inr (db', a)"
  by (cases "(st, db, fs)" rule: execS.cases) (auto split: sum.splits)

lemma write_ok: "writeS g (db, fs) = (Inr a, db', fs') \<Longrightarrow> db' = g db"
  unfolding writeS_def by (drule exec_ok) simp

lemma read_ok: "readS q (db, fs) = (Inr a, db', fs') \<Longrightarrow> db' = db \<and> a = q db"
  unfolding readS_def by (drule exec_ok) auto

lemmas stm_simps = bind_app wrap_app when_app

section \<open>Upserts\<close>

text \<open>\<open>INSERT ... ON DUPLICATE KEY UPDATE\<close> on a table with one unique key, and SQL's
  \<open>COALESCE\<close> of two nullable values.\<close>

definition upsert :: "('r \<Rightarrow> 'k) \<Rightarrow> ('r \<Rightarrow> 'r \<Rightarrow> 'r) \<Rightarrow> 'r \<Rightarrow> 'r list \<Rightarrow> 'r list" where
  "upsert key merge row rows =
     (if \<exists>r\<in>set rows. key r = key row then upd_rows (\<lambda>r. key r = key row) (merge row) rows else rows @ [row])"

definition coalesce :: "'a option \<Rightarrow> 'a option \<Rightarrow> 'a option" where
  "coalesce a b = (case a of None \<Rightarrow> b | Some _ \<Rightarrow> a)"

lemma coalesce_simps [simp]:
  "coalesce None b = b" "coalesce (Some x) b = Some x" "coalesce a a = a" "coalesce a None = a"
  by (simp_all add: coalesce_def split: option.splits)

lemma upsert_distinct:
  assumes "\<And>r. key r = key row \<Longrightarrow> key (merge row r) = key row" "distinct (map key rows)"
  shows "distinct (map key (upsert key merge row rows))"
proof -
  have "map key (upd_rows (\<lambda>r. key r = key row) (merge row) rows) = map key rows"
    by (rule map_upd_rows) (simp add: assms(1))
  then show ?thesis using assms(2) by (auto simp: upsert_def)
qed

lemma upd_rows_keeps_rows:
  assumes "r \<in> set rows" "\<And>x. P x \<Longrightarrow> S x (g x)" "\<And>x. S x x"
  shows "\<exists>r'\<in>set (upd_rows P g rows). S r r'"
proof (cases "P r")
  case True
  then show ?thesis using in_upd_rows_hit[of r rows P g, OF assms(1) True] assms(2) by blast
next
  case False
  then show ?thesis using in_upd_rows_miss[of r rows P g, OF assms(1) False] assms(3) by blast
qed

lemma upsert_keeps_rows:
  assumes "r \<in> set rows" "\<And>x. key x = key row \<Longrightarrow> S x (merge row x)" "\<And>x. S x x"
  shows "\<exists>r'\<in>set (upsert key merge row rows). S r r'"
proof (cases "\<exists>r\<in>set rows. key r = key row")
  case True
  then show ?thesis using upd_rows_keeps_rows[where P = "\<lambda>x. key x = key row" and S = S and g = "merge row", OF assms]
    by (simp add: upsert_def)
next
  case False
  then have "r \<in> set (upsert key merge row rows)" using assms(1) by (simp add: upsert_def)
  with assms(3) show ?thesis by blast
qed

lemma upsert_filter:
  assumes "\<And>r. key r = key row \<Longrightarrow> \<not> Q r" "\<And>r. key r = key row \<Longrightarrow> \<not> Q (merge row r)"
  shows "filter Q (upsert key merge row rows) = filter Q rows"
proof -
  have "filter Q (upd_rows (\<lambda>r. key r = key row) (merge row) rows) = filter Q rows" using assms by (induction rows) auto
  moreover have "\<not> Q row" using assms(1) by simp
  ultimately show ?thesis by (simp add: upsert_def)
qed

section \<open>Transactions\<close>

text \<open>
  A transaction around such a computation: the body works on the tables as the transaction sees
  them; an error, and a return without \<open>Commit\<close> (the flag is false), roll back. The \<open>Commit\<close> is
  a statement of its own and its answer can be lost too.
\<close>

definition inTx :: "string \<Rightarrow> string \<Rightarrow> ('s, bool \<times> 'a) stm \<Rightarrow> ('s, 'a) stm" where
  "inTx pbegin pcommit body = thenS (wrapS pbegin (readS (\<lambda>_. ()))) (\<lambda>(db, fs).
     case body (db, fs) of
       (Inl e, db', fs') \<Rightarrow> (Inl e, db, fs')
     | (Inr (commit, a), db', fs') \<Rightarrow>
         (if commit then wrapS pcommit (execS (\<lambda>_. Inr (db', a))) (db, fs') else (Inr a, db, fs')))"

text \<open>A query per chunk whose rows are collected.\<close>

primrec collectS :: "'b list \<Rightarrow> ('b \<Rightarrow> ('s, 'a list) stm) \<Rightarrow> ('s, 'a list) stm" where
  "collectS [] q = returnS []"
| "collectS (x # xs) q = bindS (q x) (\<lambda>rows. bindS (collectS xs q) (\<lambda>rest. returnS (rows @ rest)))"

fun chunked :: "nat \<Rightarrow> 'a list \<Rightarrow> 'a list list" where
  "chunked k xs = (if xs = [] \<or> k = 0 then [] else take k xs # chunked k (drop k xs))"

declare chunked.simps [simp del]

lemma chunked_Nil [simp]: "chunked k [] = []"
  by (simp add: chunked.simps)

lemma concat_chunked: "0 < k \<Longrightarrow> concat (chunked k xs) = xs"
proof (induction k xs rule: chunked.induct)
  case (1 k xs)
  have e: "chunked k xs = (if xs = [] \<or> k = 0 then [] else take k xs # chunked k (drop k xs))" by (rule chunked.simps)
  show ?case
  proof (cases "xs = []")
    case False
    then show ?thesis using 1 by (simp add: e)
  qed simp
qed

context table_relation
begin

lemma keeps_collect: "(\<And>x. keeps R (q x)) \<Longrightarrow> keeps R (collectS xs q)"
  by (induction xs) (simp_all add: keeps_return keeps_bind)

lemma keeps_ok_bind:
  assumes m: "keeps_ok R m" and k: "\<And>a. keeps_ok R (k a)"
  shows "keeps_ok R (bindS m k)"
  unfolding keeps_ok_def
proof (intro allI impI)
  fix db fs a db' fs'
  assume run: "bindS m k (db, fs) = (Inr a, db', fs')"
  obtain r d1 f1 where e: "m (db, fs) = (r, d1, f1)" by (cases "m (db, fs)") auto
  with run obtain x where x: "r = Inr x" "k x (d1, f1) = (Inr a, db', fs')" by (cases r) (auto simp: bindS_def)
  have "R db d1" using m e x(1) unfolding keeps_ok_def by blast
  moreover have "R d1 db'" using k[of x] x(2) unfolding keeps_ok_def by blast
  ultimately show "R db db'" by (rule R_trans)
qed

lemma keeps_tx:
  assumes body: "keeps_ok R body"
  shows "keeps R (inTx p c body)"
proof -
  have "keeps R (\<lambda>(db, fs). case body (db, fs) of
       (Inl e, db', fs') \<Rightarrow> (Inl e, db, fs')
     | (Inr (commit, a), db', fs') \<Rightarrow>
         (if commit then wrapS c (execS (\<lambda>_. Inr (db', a))) (db, fs') else (Inr a, db, fs')))" (is "keeps R ?t")
    unfolding keeps_def
  proof (intro allI)
    fix db fs
    obtain r db' fs' where e: "body (db, fs) = (r, db', fs')" by (cases "body (db, fs)") auto
    have x: "R db (fst (snd (execS (\<lambda>_. Inr (db', a)) (db, fs'))))" if "r = Inr v" for a v
    proof (rule exec_related)
      have "R db db'" using body e that unfolding keeps_ok_def by blast
      then show "R db d" if "Inr (db', a) = (Inr (d, y) :: ('s \<times> 'b) result)" for d y using that by simp
    qed
    show "R db (fst (snd (?t (db, fs))))"
      using e x R_refl by (auto simp: wrap_app split_beta split: sum.splits prod.splits)
  qed
  then show ?thesis unfolding inTx_def by (intro keeps_bind keeps_wrap keeps_read)
qed

end

end
