(* ===== verification/WaTables.thy ===== *)
theory WaTables
  imports Autocommit
begin

text \<open>
  The WhatsApp-data tables and the repositories that write them
  (src/backend/internal/store/message.go, chat.go, identity.go, identity_alias.go, poll.go,
  poll_vote.go, group.go, group_member.go and the pairing writes of session.go, with the
  statements of store/queries they run). Strings compare by their characters and a JSON column
  holds the value that was encoded; AUTO_INCREMENT keys, column widths and columns that no
  statement here touches are left out.
\<close>

section \<open>Rows\<close>

datatype chat_type = ChatDM | ChatGroup | ChatNewsletter | ChatBroadcast | ChatStatus
datatype message_direction = DirectionIn | DirectionOut
datatype message_origin = OriginLive | OriginHistory | OriginBackup
datatype group_role = RoleMember | RoleAdmin | RoleSuperAdmin
datatype wa_session_status = StatusStarting | StatusScanQR | StatusWorking | StatusFailed | StatusStopped | StatusLoggedOut

datatype wa_media = WaMedia (wm_Items: "wa_media list") (wm_ID: string) (wm_URL: string) (wm_ExpiresAt: "int option")
  (wm_Mimetype: string) (wm_Size: int) (wm_Filename: string)

datatype message_status = MessagePending | MessageSent | MessageDelivered | MessageRead | MessagePlayed | MessageFailed

text \<open>A status arrives as its text; the column is an ENUM of these six (the Go type also has
  \<open>unknown\<close>, which the column does not take).\<close>

definition message_status_of :: "string \<Rightarrow> message_status option" where
  "message_status_of s =
     (if s = ''pending'' then Some MessagePending else if s = ''sent'' then Some MessageSent
      else if s = ''delivered'' then Some MessageDelivered else if s = ''read'' then Some MessageRead
      else if s = ''played'' then Some MessagePlayed else if s = ''failed'' then Some MessageFailed else None)"

record message_row =
  mg_ID :: string
  mg_SessionID :: string
  mg_WAMessageID :: string
  mg_ChatJID :: string
  mg_SenderLID :: "string option"
  mg_SenderJID :: "string option"
  mg_FromMe :: bool
  mg_Direction :: message_direction
  mg_Type :: string
  mg_Body :: "string option"
  mg_QuotedMessageID :: "string option"
  mg_Mentions :: "string list option"
  mg_HasMedia :: bool
  mg_MediaMeta :: "wa_media option"
  mg_Status :: "message_status option"
  mg_AckLevel :: "int option"
  mg_Error :: "string option"
  mg_Edited :: bool
  mg_Deleted :: bool
  mg_Timestamp :: int
  mg_RawJSON :: "string option"
  mg_CreatedAt :: int
  mg_Origin :: message_origin

record chat_row =
  ct_SessionID :: string
  ct_ChatJID :: string
  ct_Type :: chat_type
  ct_Name :: "string option"
  ct_LastMessageAt :: "int option"
  ct_UnreadCount :: int
  ct_Archived :: bool
  ct_Pinned :: bool
  ct_MutedUntil :: "int option"

record identity_row =
  il_LID :: string
  il_PhoneNumber :: "string option"
  il_PhoneJID :: "string option"
  il_Name :: "string option"
  il_BusinessName :: "string option"
  il_FirstSeenAt :: int
  il_UpdatedAt :: int

record group_row =
  gr_GroupJID :: string
  gr_Subject :: "string option"
  gr_Description :: "string option"
  gr_OwnerJID :: "string option"
  gr_ParticipantCount :: "int option"
  gr_IsAnnounce :: "bool option"
  gr_IsLocked :: "bool option"
  gr_CreatedAtWA :: "int option"
  gr_FirstSeenAt :: int
  gr_UpdatedAt :: int

record member_row =
  gm_SessionID :: string
  gm_GroupJID :: string
  gm_LID :: string
  gm_Tag :: "string option"
  gm_Role :: group_role
  gm_FirstSeenAt :: int
  gm_LastSeenAt :: int

record poll_row =
  po_SessionID :: string
  po_PollMessageID :: string
  po_ChatJID :: string
  po_Name :: "string option"
  po_Options :: "string list"
  po_SelectableCount :: int
  po_EndTime :: "int option"
  po_HideVotes :: bool
  po_RecapEmittedAt :: "int option"
  po_CreatedAt :: int
  po_UpdatedAt :: int

record vote_row =
  vo_SessionID :: string
  vo_PollMessageID :: string
  vo_VoterLID :: string
  vo_SelectedOptions :: "string list"
  vo_Timestamp :: int
  vo_RawJSON :: "string option"

record wa_session_row =
  wr_ID :: string
  wr_Status :: wa_session_status
  wr_WaJID :: "string option"
  wr_WaLID :: "string option"
  wr_PhoneNumber :: "string option"
  wr_DataAccountJID :: "string option"
  wr_AccountChangedAt :: "int option"
  wr_UpdatedAt :: int

datatype run_status = RunRunning | RunCompleted | RunFailed

record run_row =
  hr_SessionID :: string
  hr_RunID :: string
  hr_AccountJID :: "string option"
  hr_Status :: run_status
  hr_SyncType :: "string option"
  hr_Progress :: "int option"
  hr_CutoffAt :: "int option"
  hr_Chunks :: int
  hr_Batches :: int
  hr_Conversations :: int
  hr_Messages :: int
  hr_Skipped :: int
  hr_BatchesApplied :: nat
  hr_MessagesImported :: nat
  hr_MessagesExisting :: nat
  hr_MessagesDropped :: nat
  hr_Error :: "string option"
  hr_StartedAt :: int
  hr_UpdatedAt :: int
  hr_FinishedAt :: "int option"

record batch_row =
  hb_EventID :: string
  hb_SessionID :: string
  hb_RunID :: string
  hb_MessagesImported :: nat
  hb_MessagesExisting :: nat
  hb_MessagesDropped :: nat
  hb_AppliedAt :: int

record wa_db =
  db_messages :: "message_row list"
  db_chats :: "chat_row list"
  db_identities :: "identity_row list"
  db_groups :: "group_row list"
  db_members :: "member_row list"
  db_polls :: "poll_row list"
  db_votes :: "vote_row list"
  db_sessions :: "wa_session_row list"
  db_runs :: "run_row list"
  db_batches :: "batch_row list"

abbreviation ErrDupEntry :: go_err where "ErrDupEntry \<equiv> SQLError 1062 ''Duplicate entry''"

text \<open>The unique keys of the tables.\<close>

definition message_key :: "message_row \<Rightarrow> string \<times> string" where
  "message_key m = (mg_SessionID m, mg_WAMessageID m)"

definition chat_key :: "chat_row \<Rightarrow> string \<times> string" where
  "chat_key c = (ct_SessionID c, ct_ChatJID c)"

definition member_key :: "member_row \<Rightarrow> string \<times> string \<times> string" where
  "member_key m = (gm_SessionID m, gm_GroupJID m, gm_LID m)"

definition poll_key :: "poll_row \<Rightarrow> string \<times> string" where
  "poll_key p = (po_SessionID p, po_PollMessageID p)"

definition vote_key :: "vote_row \<Rightarrow> string \<times> string \<times> string \<times> int" where
  "vote_key v = (vo_SessionID v, vo_PollMessageID v, vo_VoterLID v, vo_Timestamp v)"

definition run_key :: "run_row \<Rightarrow> string \<times> string" where
  "run_key r = (hr_SessionID r, hr_RunID r)"

section \<open>Direct chats and their aliases\<close>

abbreviation phone_suffix :: string where "phone_suffix \<equiv> ''@s.whatsapp.net''"
abbreviation lid_suffix :: string where "lid_suffix \<equiv> ''@lid''"

definition canonical_lids :: "string \<Rightarrow> wa_db \<Rightarrow> string list" where
  "canonical_lids phone db =
     take 2 (map il_LID (rev (filter (\<lambda>i. il_PhoneJID i = Some phone \<and> il_LID i \<noteq> phone \<and> HasSuffix (il_LID i) lid_suffix)
       (db_identities db))))"

definition canonicalDMChatJID :: "string \<Rightarrow> (wa_db, string) stm" where
  "canonicalDMChatJID chatJID =
     (if \<not> HasSuffix chatJID phone_suffix then returnS chatJID
      else bindS (wrapS ''store: resolve chat alias'' (readS (canonical_lids chatJID)))
        (\<lambda>lids. returnS (case lids of [l] \<Rightarrow> l | _ \<Rightarrow> chatJID)))"

text \<open>The columns of two chats of one session folded into the canonical one.\<close>

definition greatest0 :: "int option \<Rightarrow> int option \<Rightarrow> int option" where
  "greatest0 a b = Some (max (case a of None \<Rightarrow> 0 | Some x \<Rightarrow> x) (case b of None \<Rightarrow> 0 | Some x \<Rightarrow> x))"

definition merged_chat :: "chat_row \<Rightarrow> chat_row \<Rightarrow> chat_row" where
  "merged_chat c a = c\<lparr>ct_Name := coalesce (ct_Name c) (ct_Name a),
     ct_LastMessageAt := greatest0 (ct_LastMessageAt c) (ct_LastMessageAt a),
     ct_UnreadCount := max (ct_UnreadCount c) (ct_UnreadCount a),
     ct_Archived := (ct_Archived c \<or> ct_Archived a), ct_Pinned := (ct_Pinned c \<or> ct_Pinned a),
     ct_MutedUntil := greatest0 (ct_MutedUntil c) (ct_MutedUntil a)\<rparr>"

definition alias_of :: "string \<Rightarrow> chat_row list \<Rightarrow> chat_row \<Rightarrow> chat_row option" where
  "alias_of phone chats c = find (\<lambda>a. ct_SessionID a = ct_SessionID c \<and> ct_ChatJID a = phone) chats"

definition has_chat :: "string \<Rightarrow> string \<Rightarrow> chat_row list \<Rightarrow> bool" where
  "has_chat session jid chats \<longleftrightarrow> (\<exists>c\<in>set chats. ct_SessionID c = session \<and> ct_ChatJID c = jid)"

definition fold_alias :: "string \<Rightarrow> chat_row list \<Rightarrow> chat_row \<Rightarrow> chat_row" where
  "fold_alias phone chats c = (case alias_of phone chats c of None \<Rightarrow> c | Some a \<Rightarrow> merged_chat c a)"

definition MergeExistingDMChatAliases :: "string \<Rightarrow> string \<Rightarrow> wa_db \<Rightarrow> wa_db" where
  "MergeExistingDMChatAliases phone lid db =
     db\<lparr>db_chats := upd_rows (\<lambda>c. ct_ChatJID c = lid) (fold_alias phone (db_chats db)) (db_chats db)\<rparr>"

definition DeleteMergedDMChatAliases :: "string \<Rightarrow> string \<Rightarrow> wa_db \<Rightarrow> wa_db" where
  "DeleteMergedDMChatAliases lid phone db =
     db\<lparr>db_chats := filter (\<lambda>a. \<not> (ct_ChatJID a = phone \<and> has_chat (ct_SessionID a) lid (db_chats db))) (db_chats db)\<rparr>"

text \<open>A rename onto a key that another row has violates \<open>uq_chat\<close>.\<close>

definition rename_chats :: "(chat_row \<Rightarrow> bool) \<Rightarrow> string \<Rightarrow> wa_db \<Rightarrow> (wa_db \<times> unit) result" where
  "rename_chats P lid db =
     (if \<exists>a\<in>set (db_chats db). P a \<and> ct_ChatJID a \<noteq> lid \<and> has_chat (ct_SessionID a) lid (db_chats db) then Inl ErrDupEntry
      else Inr (db\<lparr>db_chats := upd_rows P (\<lambda>a. a\<lparr>ct_ChatJID := lid\<rparr>) (db_chats db)\<rparr>, ()))"

definition move_messages :: "(string \<Rightarrow> bool) \<Rightarrow> string \<Rightarrow> string \<Rightarrow> wa_db \<Rightarrow> wa_db" where
  "move_messages S lid phone db =
     db\<lparr>db_messages := upd_rows (\<lambda>m. S (mg_SessionID m) \<and> mg_ChatJID m = phone) (\<lambda>m. m\<lparr>mg_ChatJID := lid\<rparr>) (db_messages db)\<rparr>"

definition move_polls :: "(string \<Rightarrow> bool) \<Rightarrow> string \<Rightarrow> string \<Rightarrow> wa_db \<Rightarrow> wa_db" where
  "move_polls S lid phone db =
     db\<lparr>db_polls := upd_rows (\<lambda>p. S (po_SessionID p) \<and> po_ChatJID p = phone) (\<lambda>p. p\<lparr>po_ChatJID := lid\<rparr>) (db_polls db)\<rparr>"

definition merge_all_sessions :: "string \<Rightarrow> string \<Rightarrow> (wa_db, unit) stm" where
  "merge_all_sessions lid phone =
     thenS (wrapS ''store: merge chat aliases'' (writeS (MergeExistingDMChatAliases phone lid)))
       (thenS (wrapS ''store: delete merged chat aliases'' (writeS (DeleteMergedDMChatAliases lid phone)))
         (thenS (wrapS ''store: rename chat aliases'' (execS (rename_chats (\<lambda>a. ct_ChatJID a = phone) lid)))
           (thenS (wrapS ''store: update message chat aliases'' (writeS (move_messages (\<lambda>_. True) lid phone)))
             (wrapS ''store: update poll chat aliases'' (writeS (move_polls (\<lambda>_. True) lid phone))))))"

text \<open>The same for one session, where the canonical chat is looked up first.\<close>

definition MergeSessionDMChatAlias :: "string \<Rightarrow> string \<Rightarrow> string \<Rightarrow> wa_db \<Rightarrow> wa_db" where
  "MergeSessionDMChatAlias phone session lid db =
     db\<lparr>db_chats := upd_rows (\<lambda>c. ct_SessionID c = session \<and> ct_ChatJID c = lid) (fold_alias phone (db_chats db)) (db_chats db)\<rparr>"

definition DeleteSessionDMChatAlias :: "string \<Rightarrow> string \<Rightarrow> wa_db \<Rightarrow> wa_db" where
  "DeleteSessionDMChatAlias session phone db =
     db\<lparr>db_chats := filter (\<lambda>a. \<not> (ct_SessionID a = session \<and> ct_ChatJID a = phone)) (db_chats db)\<rparr>"

definition merge_session :: "string \<Rightarrow> string \<Rightarrow> string \<Rightarrow> (wa_db, unit) stm" where
  "merge_session session lid phone =
     thenS (bindS (wrapS ''store: check chat alias'' (readS (\<lambda>db. has_chat session lid (db_chats db))))
        (\<lambda>canonical. if canonical
           then thenS (wrapS ''store: merge chat alias'' (writeS (MergeSessionDMChatAlias phone session lid)))
             (wrapS ''store: delete chat alias'' (writeS (DeleteSessionDMChatAlias session phone)))
           else wrapS ''store: rename chat alias''
             (execS (rename_chats (\<lambda>a. ct_SessionID a = session \<and> ct_ChatJID a = phone) lid))))
       (thenS (wrapS ''store: update message chat alias'' (writeS (move_messages (\<lambda>s. s = session) lid phone)))
         (wrapS ''store: update poll chat alias'' (writeS (move_polls (\<lambda>s. s = session) lid phone))))"

definition mergeDMChatAlias :: "string \<Rightarrow> string \<Rightarrow> string \<Rightarrow> (wa_db, unit) stm" where
  "mergeDMChatAlias session lid phone =
     (if lid = [] \<or> phone = [] \<or> lid = phone then returnS ()
      else if \<not> HasSuffix lid lid_suffix \<or> \<not> HasSuffix phone phone_suffix then returnS ()
      else if session = [] then merge_all_sessions lid phone
      else merge_session session lid phone)"

section \<open>The repositories\<close>

text \<open>messages: one row per session and WhatsApp message id, and per id of our own.\<close>

definition content_of :: "message_row \<Rightarrow> message_row \<Rightarrow> message_row" where
  "content_of v r = r\<lparr>mg_ChatJID := mg_ChatJID v, mg_SenderLID := coalesce (mg_SenderLID v) (mg_SenderLID r),
     mg_SenderJID := coalesce (mg_SenderJID v) (mg_SenderJID r), mg_Body := coalesce (mg_Body v) (mg_Body r),
     mg_QuotedMessageID := coalesce (mg_QuotedMessageID v) (mg_QuotedMessageID r),
     mg_Mentions := coalesce (mg_Mentions v) (mg_Mentions r), mg_HasMedia := mg_HasMedia v,
     mg_MediaMeta := coalesce (mg_MediaMeta v) (mg_MediaMeta r), mg_RawJSON := coalesce (mg_RawJSON v) (mg_RawJSON r)\<rparr>"

text \<open>\<open>ON DUPLICATE KEY UPDATE\<close> updates the row with the primary key when there is one, else the
  row with the unique key.\<close>

definition upsert_message :: "(message_row \<Rightarrow> message_row \<Rightarrow> message_row) \<Rightarrow> message_row \<Rightarrow> message_row list \<Rightarrow> message_row list" where
  "upsert_message merge m rows =
     (if \<exists>r\<in>set rows. mg_ID r = mg_ID m then upd_rows (\<lambda>r. mg_ID r = mg_ID m) (merge m) rows
      else upsert message_key merge m rows)"

definition Upsert_message :: "message_row \<Rightarrow> (wa_db, unit) stm" where
  "Upsert_message m = bindS (canonicalDMChatJID (mg_ChatJID m)) (\<lambda>jid.
     wrapS ''store: upsert message'' (writeS (\<lambda>db.
       db\<lparr>db_messages := upsert_message content_of (m\<lparr>mg_ChatJID := jid\<rparr>) (db_messages db)\<rparr>)))"

definition receiptStatusRank :: "string \<Rightarrow> nat" where
  "receiptStatusRank status =
     (case message_status_of status of Some MessageSent \<Rightarrow> 2 | Some MessageDelivered \<Rightarrow> 3 | Some MessageRead \<Rightarrow> 4
      | Some MessagePlayed \<Rightarrow> 5 | _ \<Rightarrow> 1)"

text \<open>\<open>FIELD(COALESCE(status, 'pending'), 'pending', 'sent', 'delivered', 'read', 'played')\<close>.\<close>

definition status_field :: "message_status option \<Rightarrow> nat" where
  "status_field status =
     (case status of None \<Rightarrow> 1 | Some MessagePending \<Rightarrow> 1 | Some MessageSent \<Rightarrow> 2 | Some MessageDelivered \<Rightarrow> 3
      | Some MessageRead \<Rightarrow> 4 | Some MessagePlayed \<Rightarrow> 5 | Some MessageFailed \<Rightarrow> 0)"

text \<open>A text is written only when its rank is above a rank, so it is one of the ENUM's.\<close>

definition advance_status :: "string \<Rightarrow> message_status option \<Rightarrow> message_status option" where
  "advance_status next status =
     (if status = Some MessageFailed then status
      else if status_field status < receiptStatusRank next then message_status_of next else status)"

definition advance_ack :: "int option \<Rightarrow> int option \<Rightarrow> int option" where
  "advance_ack next ack =
     (case next of None \<Rightarrow> ack
      | Some n \<Rightarrow> (case ack of None \<Rightarrow> Some n | Some a \<Rightarrow> if n > a then Some n else Some a))"

definition advance_row :: "string \<Rightarrow> int option \<Rightarrow> message_row \<Rightarrow> message_row" where
  "advance_row status ack m = m\<lparr>mg_Status := advance_status status (mg_Status m), mg_AckLevel := advance_ack ack (mg_AckLevel m)\<rparr>"

definition AdvanceReceiptStatus :: "string \<Rightarrow> string \<Rightarrow> string \<Rightarrow> int option \<Rightarrow> (wa_db, unit) stm" where
  "AdvanceReceiptStatus session waID status ack =
     wrapS ''store: advance receipt status'' (writeS (\<lambda>db.
       db\<lparr>db_messages := upd_rows (\<lambda>m. message_key m = (session, waID)) (advance_row status ack) (db_messages db)\<rparr>))"

text \<open>An update whose row count decides between success and \<open>not_found\<close>.\<close>

definition update_counted :: "(message_row \<Rightarrow> bool) \<Rightarrow> (message_row \<Rightarrow> message_row) \<Rightarrow> wa_db \<Rightarrow> (wa_db \<times> nat) result" where
  "update_counted P g db = Inr (db\<lparr>db_messages := upd_rows P g (db_messages db)\<rparr>, matched P (db_messages db))"

definition or_not_found :: "string \<Rightarrow> nat \<Rightarrow> (wa_db, unit) stm" where
  "or_not_found resource n = (case rowsAffectedOrNotFound n resource of Inl e \<Rightarrow> failS e | Inr _ \<Rightarrow> returnS ())"

definition MarkEdited :: "string \<Rightarrow> string \<Rightarrow> string \<Rightarrow> (wa_db, unit) stm" where
  "MarkEdited session waID newBody =
     bindS (wrapS ''store: mark message edited'' (execS (update_counted (\<lambda>m. message_key m = (session, waID))
         (\<lambda>m. m\<lparr>mg_Edited := True, mg_Body := Some newBody\<rparr>)))) (or_not_found ''message'')"

definition MarkDeleted :: "string \<Rightarrow> string \<Rightarrow> (wa_db, unit) stm" where
  "MarkDeleted session waID =
     bindS (wrapS ''store: mark message deleted'' (execS (update_counted (\<lambda>m. message_key m = (session, waID))
         (\<lambda>m. m\<lparr>mg_Deleted := True\<rparr>)))) (or_not_found ''message'')"

definition GetByWAID :: "string \<Rightarrow> string \<Rightarrow> (wa_db, message_row) stm" where
  "GetByWAID session waID = bindS (readS (\<lambda>db. find (\<lambda>m. message_key m = (session, waID)) (db_messages db)))
     (\<lambda>r. case r of None \<Rightarrow> failS (notFound ErrNoRows ''message'') | Some m \<Rightarrow> returnS m)"

text \<open>chats: the name is refreshed by a value, and the time of the last message only moves forward.\<close>

definition forward :: "int option \<Rightarrow> int option \<Rightarrow> int option" where
  "forward v old = (case v of None \<Rightarrow> old | Some n \<Rightarrow> (case old of None \<Rightarrow> Some n | Some o' \<Rightarrow> Some (max o' n)))"

definition refresh_chat :: "chat_row \<Rightarrow> chat_row \<Rightarrow> chat_row" where
  "refresh_chat v c = c\<lparr>ct_Name := coalesce (ct_Name v) (ct_Name c), ct_LastMessageAt := forward (ct_LastMessageAt v) (ct_LastMessageAt c)\<rparr>"

definition Upsert_chat :: "chat_row \<Rightarrow> (wa_db, unit) stm" where
  "Upsert_chat c =
     bindS (if ct_Type c = ChatDM then canonicalDMChatJID (ct_ChatJID c) else returnS (ct_ChatJID c)) (\<lambda>jid.
       wrapS ''store: upsert chat'' (writeS (\<lambda>db. db\<lparr>db_chats := upsert chat_key refresh_chat (c\<lparr>ct_ChatJID := jid\<rparr>) (db_chats db)\<rparr>)))"

text \<open>identities, by LID: a learned phone JID folds the direct chats kept under it into the LID's.\<close>

definition refresh_identity :: "identity_row \<Rightarrow> identity_row \<Rightarrow> identity_row" where
  "refresh_identity v i = i\<lparr>il_PhoneNumber := coalesce (il_PhoneNumber v) (il_PhoneNumber i),
     il_PhoneJID := coalesce (il_PhoneJID v) (il_PhoneJID i), il_Name := coalesce (il_Name v) (il_Name i),
     il_BusinessName := coalesce (il_BusinessName v) (il_BusinessName i), il_UpdatedAt := il_UpdatedAt v\<rparr>"

definition Upsert_identity :: "identity_row \<Rightarrow> (wa_db, unit) stm" where
  "Upsert_identity i =
     thenS (wrapS ''store: upsert identity'' (writeS (\<lambda>db. db\<lparr>db_identities := upsert il_LID refresh_identity i (db_identities db)\<rparr>)))
       (case il_PhoneJID i of None \<Rightarrow> returnS () | Some phone \<Rightarrow> mergeDMChatAlias [] (il_LID i) phone)"

definition FillNameByJID :: "string \<Rightarrow> string \<Rightarrow> int \<Rightarrow> (wa_db, unit) stm" where
  "FillNameByJID jid name now =
     (if jid = [] \<or> name = [] then returnS ()
      else wrapS ''store: fill identity name'' (writeS (\<lambda>db. db\<lparr>db_identities :=
        upd_rows (\<lambda>i. (il_LID i = jid \<or> il_PhoneJID i = Some jid) \<and> (il_Name i = None \<or> il_Name i = Some []))
          (\<lambda>i. i\<lparr>il_Name := Some name, il_UpdatedAt := now\<rparr>) (db_identities db)\<rparr>)))"

text \<open>groups and their members.\<close>

definition refresh_group :: "group_row \<Rightarrow> group_row \<Rightarrow> group_row" where
  "refresh_group v g = g\<lparr>gr_Subject := coalesce (gr_Subject v) (gr_Subject g), gr_Description := coalesce (gr_Description v) (gr_Description g),
     gr_OwnerJID := coalesce (gr_OwnerJID v) (gr_OwnerJID g), gr_ParticipantCount := coalesce (gr_ParticipantCount v) (gr_ParticipantCount g),
     gr_IsAnnounce := coalesce (gr_IsAnnounce v) (gr_IsAnnounce g), gr_IsLocked := coalesce (gr_IsLocked v) (gr_IsLocked g),
     gr_CreatedAtWA := coalesce (gr_CreatedAtWA v) (gr_CreatedAtWA g), gr_UpdatedAt := gr_UpdatedAt v\<rparr>"

definition Upsert_group :: "group_row \<Rightarrow> (wa_db, unit) stm" where
  "Upsert_group g = wrapS ''store: upsert group'' (writeS (\<lambda>db. db\<lparr>db_groups := upsert gr_GroupJID refresh_group g (db_groups db)\<rparr>))"

definition refresh_member :: "member_row \<Rightarrow> member_row \<Rightarrow> member_row" where
  "refresh_member v m = m\<lparr>gm_Tag := coalesce (gm_Tag v) (gm_Tag m), gm_Role := gm_Role v, gm_LastSeenAt := gm_LastSeenAt v\<rparr>"

definition Upsert_member :: "member_row \<Rightarrow> (wa_db, unit) stm" where
  "Upsert_member m = wrapS ''store: upsert group member'' (writeS (\<lambda>db. db\<lparr>db_members := upsert member_key refresh_member m (db_members db)\<rparr>))"

text \<open>polls and votes: a second vote row for the same poll, voter and time is ignored.\<close>

definition refresh_poll :: "poll_row \<Rightarrow> poll_row \<Rightarrow> poll_row" where
  "refresh_poll v p = p\<lparr>po_ChatJID := po_ChatJID v, po_Name := po_Name v, po_Options := po_Options v,
     po_SelectableCount := po_SelectableCount v, po_EndTime := po_EndTime v, po_HideVotes := po_HideVotes v, po_UpdatedAt := po_UpdatedAt v\<rparr>"

definition Upsert_poll :: "poll_row \<Rightarrow> (wa_db, unit) stm" where
  "Upsert_poll p = bindS (canonicalDMChatJID (po_ChatJID p)) (\<lambda>jid.
     wrapS ''store: upsert poll'' (writeS (\<lambda>db. db\<lparr>db_polls := upsert poll_key refresh_poll (p\<lparr>po_ChatJID := jid\<rparr>) (db_polls db)\<rparr>)))"

definition pollNullInt64 :: "int \<Rightarrow> int option" where
  "pollNullInt64 v = (if v = 0 then None else Some v)"

definition insert_vote :: "vote_row \<Rightarrow> wa_db \<Rightarrow> wa_db" where
  "insert_vote v db = db\<lparr>db_votes := upsert vote_key (\<lambda>_ r. r) v (db_votes db)\<rparr>"

definition Insert_vote :: "vote_row \<Rightarrow> (wa_db, unit) stm" where
  "Insert_vote v = wrapS ''store: insert poll vote'' (writeS (insert_vote v))"

text \<open>Whether this call is the one that claimed the recap.\<close>

definition MarkRecapEmitted :: "string \<Rightarrow> string \<Rightarrow> int \<Rightarrow> (wa_db, bool) stm" where
  "MarkRecapEmitted session pollID now =
     wrapS ''store: mark poll recap emitted'' (execS (\<lambda>db.
       let P = (\<lambda>p. poll_key p = (session, pollID) \<and> po_RecapEmittedAt p = None) in
       Inr (db\<lparr>db_polls := upd_rows P (\<lambda>p. p\<lparr>po_RecapEmittedAt := pollNullInt64 now, po_UpdatedAt := now\<rparr>) (db_polls db)\<rparr>,
            matched P (db_polls db) > 0)))"

text \<open>The pairing of a session. No two sessions have the same JID (\<open>uq_sessions_jid\<close>).\<close>

definition update_session :: "string \<Rightarrow> (wa_session_row \<Rightarrow> wa_session_row) \<Rightarrow> wa_db \<Rightarrow> (wa_db \<times> nat) result" where
  "update_session sid g db =
     (let rows = upd_rows (\<lambda>r. wr_ID r = sid) g (db_sessions db) in
      if \<exists>r\<in>set rows. \<exists>r'\<in>set rows. wr_ID r = sid \<and> wr_ID r' \<noteq> sid \<and> wr_WaJID r \<noteq> None \<and> wr_WaJID r' = wr_WaJID r
      then Inl ErrDupEntry
      else Inr (db\<lparr>db_sessions := rows\<rparr>, matched (\<lambda>r. wr_ID r = sid) (db_sessions db)))"

record attach_input =
  at_SessionID :: string
  at_WaJID :: string
  at_WaLID :: string
  at_PhoneNumber :: string
  at_UpdatedAt :: int

definition nullStringFromValue :: "string \<Rightarrow> string option" where
  "nullStringFromValue s = (if s = [] then None else Some s)"

text \<open>\<open>data_account_jid <> account\<close> is neither true nor false when a side is NULL.\<close>

definition differs :: "string option \<Rightarrow> string option \<Rightarrow> bool" where
  "differs a b \<longleftrightarrow> a \<noteq> None \<and> b \<noteq> None \<and> a \<noteq> b"

definition attach_row :: "attach_input \<Rightarrow> wa_session_row \<Rightarrow> wa_session_row" where
  "attach_row inp r =
     (let account = (if at_PhoneNumber inp = [] then None else Some (at_PhoneNumber inp @ phone_suffix)) in
      r\<lparr>wr_AccountChangedAt := (if differs (wr_DataAccountJID r) account then Some (at_UpdatedAt inp) else wr_AccountChangedAt r),
        wr_DataAccountJID := coalesce account (wr_DataAccountJID r),
        wr_WaJID := nullStringFromValue (at_WaJID inp), wr_WaLID := nullStringFromValue (at_WaLID inp),
        wr_PhoneNumber := nullStringFromValue (at_PhoneNumber inp), wr_UpdatedAt := at_UpdatedAt inp\<rparr>)"

definition AttachPairing :: "attach_input \<Rightarrow> (wa_db, unit) stm" where
  "AttachPairing inp = bindS (wrapS ''store: attach session pairing'' (execS (update_session (at_SessionID inp) (attach_row inp))))
     (or_not_found ''session'')"

definition ClearPairing :: "string \<Rightarrow> int \<Rightarrow> (wa_db, unit) stm" where
  "ClearPairing sid now = bindS (wrapS ''store: clear session pairing'' (execS (update_session sid
       (\<lambda>r. r\<lparr>wr_Status := StatusLoggedOut, wr_WaJID := None, wr_WaLID := None, wr_PhoneNumber := None, wr_UpdatedAt := now\<rparr>))))
     (or_not_found ''session'')"

definition UpdateSessionStatus :: "string \<Rightarrow> wa_session_status \<Rightarrow> int \<Rightarrow> (wa_db, unit) stm" where
  "UpdateSessionStatus sid status now = bindS (wrapS ''store: update session status'' (execS (update_session sid
       (\<lambda>r. r\<lparr>wr_Status := status, wr_UpdatedAt := now\<rparr>)))) (or_not_found ''session'')"

end
