(* ===== verification/HistoryStore.thy ===== *)
theory HistoryStore
  imports WaTables
begin

text \<open>
  The history repository (src/backend/internal/store/history.go): one \<open>history.batch\<close> event is
  applied in one transaction guarded by the ledger \<open>history_sync_batches\<close>, and \<open>history.sync\<close>
  events are recorded on the row of their run. The ids of imported messages
  (\<open>NewMessageIDSequence\<close>) and the order in which Go iterates over a map are arguments.
\<close>

section \<open>Input\<close>

record history_contact =
  hc_LID :: string
  hc_PhoneJID :: string
  hc_PushName :: string

record history_participant =
  hp_LID :: string
  hp_PhoneJID :: string
  hp_Role :: string

record history_poll =
  hl_Name :: string
  hl_Options :: "string list"
  hl_SelectableCount :: int
  hl_EndTime :: int
  hl_HideVotes :: bool

record history_message =
  hm_Kind :: string
  hm_WAMessageID :: string
  hm_SenderLID :: string
  hm_SenderJID :: string
  hm_PushName :: string
  hm_FromMe :: bool
  hm_Type :: string
  hm_Body :: string
  hm_QuotedMessageID :: string
  hm_Mentions :: "string list"
  hm_HasMedia :: bool
  hm_MediaMeta :: "wa_media option"
  hm_Timestamp :: int
  hm_RawJSON :: string
  hm_Status :: "message_status option"
  hm_TargetID :: string
  hm_Poll :: "history_poll option"
  hm_SelectedOptions :: "string list"

record history_conversation =
  hv_ChatJID :: string
  hv_Type :: chat_type
  hv_Name :: string
  hv_Description :: string
  hv_LID :: string
  hv_PhoneJID :: string
  hv_UnreadCount :: "int option"
  hv_Archived :: bool
  hv_Pinned :: bool
  hv_MutedUntil :: "int option"
  hv_Participants :: "history_participant list"
  hv_Messages :: "history_message list"

record history_batch =
  hx_EventID :: string
  hx_SessionID :: string
  hx_RunID :: string
  hx_AccountJID :: string
  hx_SnapshotAt :: int
  hx_RetentionCutoff :: int
  hx_Now :: int
  hx_Contacts :: "history_contact list"
  hx_Conversations :: "history_conversation list"

record batch_result =
  br_Applied :: bool
  br_Imported :: nat
  br_Existing :: nat
  br_Dropped :: nat

definition no_result :: batch_result where
  "no_result = \<lparr>br_Applied = False, br_Imported = 0, br_Existing = 0, br_Dropped = 0\<rparr>"

text \<open>The kinds of a history message are the types of live events.\<close>

abbreviation HistoryKindMessage :: string where "HistoryKindMessage \<equiv> ''message''"
abbreviation HistoryKindFromMe :: string where "HistoryKindFromMe \<equiv> ''message.from_me''"
abbreviation HistoryKindReply :: string where "HistoryKindReply \<equiv> ''message.interactive_reply''"
abbreviation HistoryKindEdited :: string where "HistoryKindEdited \<equiv> ''message.edited''"
abbreviation HistoryKindRevoked :: string where "HistoryKindRevoked \<equiv> ''message.revoked''"
abbreviation HistoryKindPollVote :: string where "HistoryKindPollVote \<equiv> ''poll.vote''"

definition createsRow :: "string \<Rightarrow> bool" where
  "createsRow k \<longleftrightarrow> k = HistoryKindMessage \<or> k = HistoryKindFromMe \<or> k = HistoryKindReply"

definition historyInChunk :: nat where "historyInChunk = 500"

definition nullIfEmpty :: "string \<Rightarrow> string option" where
  "nullIfEmpty s = (if s = [] then None else Some s)"

text \<open>\<open>domain.PhoneFromJID\<close>: the part before the suffix, or nil.\<close>

definition PhoneFromJID :: "string \<Rightarrow> string option" where
  "PhoneFromJID jid =
     (if HasSuffix jid phone_suffix then nullIfEmpty (take (length jid - length phone_suffix) jid) else None)"

section \<open>Identities\<close>

record identity_fill =
  if_phoneJID :: string
  if_name :: string

text \<open>The fills by LID in the order they are first seen, and the names seen for phone JIDs.\<close>

type_synonym fills = "(string \<times> identity_fill) list \<times> (string \<times> string) list"

definition improve :: "string \<Rightarrow> string \<Rightarrow> identity_fill \<Rightarrow> identity_fill" where
  "improve phoneJID name f =
     \<lparr>if_phoneJID = (if if_phoneJID f = [] \<and> HasSuffix phoneJID phone_suffix then phoneJID else if_phoneJID f),
      if_name = (if if_name f = [] then name else if_name f)\<rparr>"

definition add_fill :: "string \<Rightarrow> string \<Rightarrow> string \<Rightarrow> fills \<Rightarrow> fills" where
  "add_fill lid phoneJID name s =
     (if HasSuffix lid lid_suffix
      then (if map_of (fst s) lid = None then fst s @ [(lid, improve phoneJID name \<lparr>if_phoneJID = [], if_name = []\<rparr>)]
            else map (\<lambda>(l, f). (l, if l = lid then improve phoneJID name f else f)) (fst s), snd s)
      else if name \<noteq> [] \<and> HasSuffix phoneJID phone_suffix
      then (fst s, if map_of (snd s) phoneJID = None then snd s @ [(phoneJID, name)] else snd s)
      else s)"

definition dm_fill :: "history_conversation \<Rightarrow> fills \<Rightarrow> fills" where
  "dm_fill conv s =
     (if hv_Type conv = ChatDM
      then add_fill (if hv_LID conv = [] \<and> HasSuffix (hv_ChatJID conv) lid_suffix then hv_ChatJID conv else hv_LID conv)
        (if hv_PhoneJID conv = [] \<and> HasSuffix (hv_ChatJID conv) phone_suffix then hv_ChatJID conv else hv_PhoneJID conv) [] s
      else s)"

definition conversation_fill :: "history_conversation \<Rightarrow> fills \<Rightarrow> fills" where
  "conversation_fill conv s =
     fold (\<lambda>m s. if hm_FromMe m then s else add_fill (hm_SenderLID m) (hm_SenderJID m) (hm_PushName m) s) (hv_Messages conv)
       (fold (\<lambda>p s. add_fill (hp_LID p) (hp_PhoneJID p) [] s) (hv_Participants conv) (dm_fill conv s))"

definition batch_fills :: "history_batch \<Rightarrow> fills" where
  "batch_fills b =
     fold conversation_fill (hx_Conversations b)
       (fold (\<lambda>c s. add_fill (hc_LID c) (hc_PhoneJID c) (hc_PushName c) s) (hx_Contacts b) ([], []))"

definition knownPhoneMappings :: "string list \<Rightarrow> (wa_db, (string \<times> string) list) stm" where
  "knownPhoneMappings lids = collectS (chunked historyInChunk lids) (\<lambda>chunk.
     wrapS ''store: history identity pre-select'' (readS (\<lambda>db.
       map (\<lambda>i. (il_LID i, case il_PhoneJID i of None \<Rightarrow> [] | Some p \<Rightarrow> p))
         (filter (\<lambda>i. il_LID i \<in> set chunk) (db_identities db)))))"

text \<open>A known phone or name is never overwritten.\<close>

definition fill_identity :: "identity_row \<Rightarrow> identity_row \<Rightarrow> identity_row" where
  "fill_identity v i = i\<lparr>il_PhoneNumber := coalesce (il_PhoneNumber i) (il_PhoneNumber v),
     il_PhoneJID := coalesce (il_PhoneJID i) (il_PhoneJID v),
     il_Name := (if il_Name i = None \<or> il_Name i = Some [] then il_Name v else il_Name i)\<rparr>"

definition filled_identity :: "int \<Rightarrow> string \<Rightarrow> identity_fill \<Rightarrow> identity_row" where
  "filled_identity now lid f =
     \<lparr>il_LID = lid, il_PhoneNumber = PhoneFromJID (if_phoneJID f), il_PhoneJID = nullIfEmpty (if_phoneJID f),
      il_Name = nullIfEmpty (if_name f), il_BusinessName = None, il_FirstSeenAt = now, il_UpdatedAt = now\<rparr>"

definition mergeNewMappings :: "string \<Rightarrow> (string \<times> string) list \<Rightarrow> (wa_db, unit) stm" where
  "mergeNewMappings session mappings =
     (if mappings = [] then returnS ()
      else bindS (collectS (chunked historyInChunk (map snd mappings)) (\<lambda>chunk.
             wrapS ''store: history alias pre-select'' (readS (\<lambda>db.
               map ct_ChatJID (filter (\<lambda>c. ct_SessionID c = session \<and> ct_ChatJID c \<in> set chunk) (db_chats db))))))
        (\<lambda>existing. forS mappings (\<lambda>(lid, phone).
           whenS (phone \<in> set existing) (mergeDMChatAlias session lid phone))))"

definition new_mappings :: "(string \<times> string) list \<Rightarrow> (string \<times> identity_fill) list \<Rightarrow> (string \<times> string) list" where
  "new_mappings known fs =
     map (\<lambda>(lid, f). (lid, if_phoneJID f))
       (filter (\<lambda>(lid, f). if_phoneJID f \<noteq> [] \<and> (case map_of known lid of None \<Rightarrow> True | Some p \<Rightarrow> p = [])) fs)"

definition identities :: "((string \<times> string) list \<Rightarrow> (string \<times> string) list) \<Rightarrow> history_batch \<Rightarrow> (wa_db, unit) stm" where
  "identities iter b =
     (let fs = fst (batch_fills b); names = snd (batch_fills b) in
      thenS (whenS (fs \<noteq> []) (bindS (knownPhoneMappings (map fst fs)) (\<lambda>known.
          thenS (forS fs (\<lambda>(lid, f). wrapS ''store: history identity'' (writeS (\<lambda>db.
                   db\<lparr>db_identities := upsert il_LID fill_identity (filled_identity (hx_Now b) lid f) (db_identities db)\<rparr>))))
            (mergeNewMappings (hx_SessionID b) (new_mappings known fs)))))
        (forS (iter names) (\<lambda>(phone, name). FillNameByJID phone name (hx_Now b))))"

section \<open>Groups and chats\<close>

definition role_of :: "string \<Rightarrow> group_role" where
  "role_of r = (if r = ''admin'' then RoleAdmin else if r = ''superadmin'' then RoleSuperAdmin else RoleMember)"

definition addMember :: "string \<Rightarrow> string \<Rightarrow> (string \<times> group_role) list \<Rightarrow> (string \<times> group_role) list" where
  "addMember lid role members =
     (if \<not> HasSuffix lid lid_suffix \<or> lid \<in> set (map fst members) then members else members @ [(lid, role_of role)])"

definition conversation_members :: "history_conversation \<Rightarrow> (string \<times> group_role) list" where
  "conversation_members conv =
     fold (\<lambda>m ms. if hm_FromMe m then ms else addMember (hm_SenderLID m) ''member'' ms) (hv_Messages conv)
       (fold (\<lambda>p. addMember (hp_LID p) (hp_Role p)) (hv_Participants conv) [])"

definition fill_group :: "group_row \<Rightarrow> group_row \<Rightarrow> group_row" where
  "fill_group v g = g\<lparr>gr_Subject := coalesce (gr_Subject g) (gr_Subject v), gr_Description := coalesce (gr_Description g) (gr_Description v)\<rparr>"

definition groups :: "history_batch \<Rightarrow> (wa_db, unit) stm" where
  "groups b = forS (hx_Conversations b) (\<lambda>conv. whenS (hv_Type conv = ChatGroup)
     (thenS (wrapS ''store: history group'' (writeS (\<lambda>db. db\<lparr>db_groups := upsert gr_GroupJID fill_group
          \<lparr>gr_GroupJID = hv_ChatJID conv, gr_Subject = nullIfEmpty (hv_Name conv), gr_Description = nullIfEmpty (hv_Description conv),
           gr_OwnerJID = None, gr_ParticipantCount = None, gr_IsAnnounce = None, gr_IsLocked = None, gr_CreatedAtWA = None,
           gr_FirstSeenAt = hx_Now b, gr_UpdatedAt = hx_Now b\<rparr> (db_groups db)\<rparr>)))
        (forS (conversation_members conv) (\<lambda>(lid, role). wrapS ''store: history group member'' (writeS (\<lambda>db.
           db\<lparr>db_members := upsert member_key (\<lambda>_ r. r)
             \<lparr>gm_SessionID = hx_SessionID b, gm_GroupJID = hv_ChatJID conv, gm_LID = lid, gm_Tag = None, gm_Role = role,
              gm_FirstSeenAt = hx_Now b, gm_LastSeenAt = hx_Now b\<rparr> (db_members db)\<rparr>))))))"

definition kept_time :: "history_batch \<Rightarrow> history_message \<Rightarrow> bool" where
  "kept_time b m \<longleftrightarrow> hx_RetentionCutoff b \<le> 0 \<or> hm_Timestamp m \<ge> hx_RetentionCutoff b"

definition keptMessage :: "history_batch \<Rightarrow> history_message \<Rightarrow> bool" where
  "keptMessage b m \<longleftrightarrow> hm_WAMessageID m \<noteq> [] \<and> kept_time b m"

definition keptVote :: "history_batch \<Rightarrow> history_message \<Rightarrow> bool" where
  "keptVote b m \<longleftrightarrow> kept_time b m"

definition last_kept :: "history_batch \<Rightarrow> history_message list \<Rightarrow> int option" where
  "last_kept b ms =
     fold (\<lambda>m l. if createsRow (hm_Kind m) \<and> keptMessage b m \<and> (case l of None \<Rightarrow> True | Some t \<Rightarrow> hm_Timestamp m > t)
                 then Some (hm_Timestamp m) else l) ms None"

text \<open>The unread count of the snapshot is taken only when the snapshot is as fresh as the chat.\<close>

definition fill_chat :: "int option \<Rightarrow> int \<Rightarrow> chat_row \<Rightarrow> chat_row \<Rightarrow> chat_row" where
  "fill_chat unread snapshotAt v c = c\<lparr>
     ct_UnreadCount := (case unread of None \<Rightarrow> ct_UnreadCount c
        | Some n \<Rightarrow> if (case ct_LastMessageAt c of None \<Rightarrow> 0 | Some t \<Rightarrow> t) \<le> snapshotAt then n else ct_UnreadCount c),
     ct_LastMessageAt := forward (ct_LastMessageAt v) (ct_LastMessageAt c),
     ct_Name := coalesce (ct_Name c) (ct_Name v)\<rparr>"

definition snapshot_unread :: "history_conversation \<Rightarrow> int option" where
  "snapshot_unread conv = (case hv_UnreadCount conv of None \<Rightarrow> None | Some n \<Rightarrow> if n \<ge> 0 then Some n else None)"

text \<open>The map from the JID of a conversation to the JID its chat is stored under; the empty string
  is no entry.\<close>

primrec chats :: "history_batch \<Rightarrow> history_conversation list \<Rightarrow> (string \<Rightarrow> string) \<Rightarrow> (wa_db, string \<Rightarrow> string) stm" where
  "chats b [] canonical = returnS canonical"
| "chats b (conv # convs) canonical =
     (if hv_ChatJID conv = [] then chats b convs canonical
      else bindS (if hv_Type conv = ChatDM then canonicalDMChatJID (hv_ChatJID conv) else returnS (hv_ChatJID conv)) (\<lambda>jid.
        thenS (wrapS ''store: history chat'' (writeS (\<lambda>db. db\<lparr>db_chats := upsert chat_key (fill_chat (snapshot_unread conv) (hx_SnapshotAt b))
            \<lparr>ct_SessionID = hx_SessionID b, ct_ChatJID = jid, ct_Type = hv_Type conv, ct_Name = nullIfEmpty (hv_Name conv),
             ct_LastMessageAt = last_kept b (hv_Messages conv),
             ct_UnreadCount = (case snapshot_unread conv of None \<Rightarrow> 0 | Some n \<Rightarrow> n),
             ct_Archived = hv_Archived conv, ct_Pinned = hv_Pinned conv, ct_MutedUntil = hv_MutedUntil conv\<rparr> (db_chats db)\<rparr>)))
          (chats b convs (canonical(hv_ChatJID conv := jid)))))"

section \<open>Messages\<close>

text \<open>The messages of a batch in order, each with the stored JID of its conversation.\<close>

definition placed :: "(string \<Rightarrow> string) \<Rightarrow> history_batch \<Rightarrow> (string \<times> history_message) list" where
  "placed canonical b = concat (map (\<lambda>conv. map (\<lambda>m. (canonical (hv_ChatJID conv), m)) (hv_Messages conv)) (hx_Conversations b))"

definition storedMessageIDs :: "string \<Rightarrow> string list \<Rightarrow> (wa_db, string list) stm" where
  "storedMessageIDs session ids = collectS (chunked historyInChunk ids) (\<lambda>chunk.
     wrapS ''store: history message pre-select'' (readS (\<lambda>db.
       map mg_WAMessageID (filter (\<lambda>m. mg_SessionID m = session \<and> mg_WAMessageID m \<in> set chunk) (db_messages db)))))"

definition imported_row :: "history_batch \<Rightarrow> string \<Rightarrow> string \<Rightarrow> history_message \<Rightarrow> message_row" where
  "imported_row b mid jid m =
     \<lparr>mg_ID = mid, mg_SessionID = hx_SessionID b, mg_WAMessageID = hm_WAMessageID m, mg_ChatJID = jid,
      mg_SenderLID = nullIfEmpty (hm_SenderLID m), mg_SenderJID = nullIfEmpty (hm_SenderJID m), mg_FromMe = hm_FromMe m,
      mg_Direction = (if hm_FromMe m then DirectionOut else DirectionIn), mg_Type = hm_Type m, mg_Body = nullIfEmpty (hm_Body m),
      mg_QuotedMessageID = nullIfEmpty (hm_QuotedMessageID m), mg_Mentions = (if hm_Mentions m = [] then None else Some (hm_Mentions m)),
      mg_HasMedia = hm_HasMedia m, mg_MediaMeta = hm_MediaMeta m,
      mg_Status = (if hm_FromMe m then hm_Status m else None), mg_AckLevel = None, mg_Error = None, mg_Edited = False, mg_Deleted = False,
      mg_Timestamp = hm_Timestamp m, mg_RawJSON = nullIfEmpty (hm_RawJSON m), mg_CreatedAt = hx_Now b, mg_Origin = OriginHistory\<rparr>"

definition insertMessage :: "history_batch \<Rightarrow> string \<Rightarrow> string \<Rightarrow> history_message \<Rightarrow> (wa_db, unit) stm" where
  "insertMessage b mid jid m = wrapS ''store: history message'' (writeS (\<lambda>db.
     db\<lparr>db_messages := upsert_message (\<lambda>_ r. r) (imported_row b mid jid m) (db_messages db)\<rparr>))"

definition insertPoll :: "history_batch \<Rightarrow> string \<Rightarrow> history_message \<Rightarrow> history_poll \<Rightarrow> (wa_db, unit) stm" where
  "insertPoll b jid m p = wrapS ''store: history poll'' (writeS (\<lambda>db. db\<lparr>db_polls := upsert poll_key (\<lambda>_ r. r)
     \<lparr>po_SessionID = hx_SessionID b, po_PollMessageID = hm_WAMessageID m, po_ChatJID = jid, po_Name = nullIfEmpty (hl_Name p),
      po_Options = hl_Options p, po_SelectableCount = (if hl_SelectableCount p \<le> 0 then 1 else hl_SelectableCount p),
      po_EndTime = (if hl_EndTime p > 0 then Some (hl_EndTime p) else None), po_HideVotes = hl_HideVotes p,
      po_RecapEmittedAt = (if hl_EndTime p > 0 \<and> hl_EndTime p \<le> hx_Now b then Some (hx_Now b) else None),
      po_CreatedAt = hx_Now b, po_UpdatedAt = hx_Now b\<rparr> (db_polls db)\<rparr>))"

text \<open>The loop over the messages: \<open>stored\<close> are the WhatsApp ids known to be stored, and \<open>mids n\<close> is
  the id the sequence gives to the \<open>n\<close>-th imported message.\<close>

fun import_messages :: "(nat \<Rightarrow> string) \<Rightarrow> history_batch \<Rightarrow> (string \<times> history_message) list \<Rightarrow> string set \<Rightarrow> batch_result
    \<Rightarrow> (wa_db, batch_result) stm" where
  "import_messages mids b [] stored res = returnS res"
| "import_messages mids b ((jid, m) # ms) stored res =
     (if \<not> createsRow (hm_Kind m) then import_messages mids b ms stored res
      else if jid = [] \<or> \<not> keptMessage b m then import_messages mids b ms stored (res\<lparr>br_Dropped := br_Dropped res + 1\<rparr>)
      else if hm_WAMessageID m \<in> stored then import_messages mids b ms stored (res\<lparr>br_Existing := br_Existing res + 1\<rparr>)
      else thenS (insertMessage b (mids (br_Imported res)) jid m)
        (thenS (case hm_Poll m of None \<Rightarrow> returnS () | Some p \<Rightarrow> insertPoll b jid m p)
          (import_messages mids b ms (insert (hm_WAMessageID m) stored) (res\<lparr>br_Imported := br_Imported res + 1\<rparr>))))"

definition row_ids :: "history_batch \<Rightarrow> (string \<times> history_message) list \<Rightarrow> string list" where
  "row_ids b ms = map (hm_WAMessageID \<circ> snd) (filter (\<lambda>(jid, m). createsRow (hm_Kind m) \<and> keptMessage b m \<and> jid \<noteq> []) ms)"

definition messages :: "(nat \<Rightarrow> string) \<Rightarrow> history_batch \<Rightarrow> (string \<Rightarrow> string) \<Rightarrow> (wa_db, batch_result) stm" where
  "messages mids b canonical =
     (let ms = placed canonical b in
      bindS (storedMessageIDs (hx_SessionID b) (row_ids b ms)) (\<lambda>stored.
        import_messages mids b ms (set stored) no_result))"

text \<open>Edits, revokes and votes, after all rows exist.\<close>

definition mutate :: "history_batch \<Rightarrow> history_message \<Rightarrow> (wa_db, unit) stm" where
  "mutate b m =
     (if hm_Kind m = HistoryKindEdited
      then whenS (hm_TargetID m \<noteq> []) (wrapS ''store: history edit'' (writeS (\<lambda>db. db\<lparr>db_messages :=
             upd_rows (\<lambda>r. message_key r = (hx_SessionID b, hm_TargetID m) \<and> \<not> mg_Edited r)
               (\<lambda>r. r\<lparr>mg_Body := Some (hm_Body m), mg_Edited := True\<rparr>) (db_messages db)\<rparr>)))
      else if hm_Kind m = HistoryKindRevoked
      then whenS (hm_TargetID m \<noteq> []) (wrapS ''store: history revoke'' (writeS (\<lambda>db. db\<lparr>db_messages :=
             upd_rows (\<lambda>r. message_key r = (hx_SessionID b, hm_TargetID m)) (\<lambda>r. r\<lparr>mg_Deleted := True\<rparr>) (db_messages db)\<rparr>)))
      else if hm_Kind m = HistoryKindPollVote
      then (let voter = (if hm_SenderLID m = [] then hm_SenderJID m else hm_SenderLID m) in
            whenS (hm_TargetID m \<noteq> [] \<and> voter \<noteq> [] \<and> hm_SelectedOptions m \<noteq> [] \<and> keptVote b m)
              (wrapS ''store: history poll vote'' (writeS (insert_vote
                \<lparr>vo_SessionID = hx_SessionID b, vo_PollMessageID = hm_TargetID m, vo_VoterLID = voter,
                 vo_SelectedOptions = hm_SelectedOptions m, vo_Timestamp = hm_Timestamp m, vo_RawJSON = nullIfEmpty (hm_RawJSON m)\<rparr>))))
      else returnS ())"

definition mutations :: "history_batch \<Rightarrow> (wa_db, unit) stm" where
  "mutations b = forS (hx_Conversations b) (\<lambda>conv. forS (hv_Messages conv) (mutate b))"

section \<open>One batch, one run event\<close>

abbreviation ErrNoSession :: go_err where
  "ErrNoSession \<equiv> SQLError 1452 ''Cannot add or update a child row: a foreign key constraint fails''"

definition has_session :: "string \<Rightarrow> wa_db \<Rightarrow> bool" where
  "has_session sid db \<longleftrightarrow> (\<exists>r\<in>set (db_sessions db). wr_ID r = sid)"

definition upsert_run :: "(run_row \<Rightarrow> run_row \<Rightarrow> run_row) \<Rightarrow> run_row \<Rightarrow> wa_db \<Rightarrow> (wa_db \<times> unit) result" where
  "upsert_run merge r db =
     (if \<not> has_session (hr_SessionID r) db \<and> \<not> (\<exists>x\<in>set (db_runs db). run_key x = run_key r) then Inl ErrNoSession
      else Inr (db\<lparr>db_runs := upsert run_key merge r (db_runs db)\<rparr>, ()))"

definition new_run :: "string \<Rightarrow> string \<Rightarrow> string option \<Rightarrow> int \<Rightarrow> run_row" where
  "new_run sid run account now =
     \<lparr>hr_SessionID = sid, hr_RunID = run, hr_AccountJID = account, hr_Status = RunRunning, hr_SyncType = None, hr_Progress = None,
      hr_CutoffAt = None, hr_Chunks = 0, hr_Batches = 0, hr_Conversations = 0, hr_Messages = 0, hr_Skipped = 0, hr_BatchesApplied = 0,
      hr_MessagesImported = 0, hr_MessagesExisting = 0, hr_MessagesDropped = 0, hr_Error = None, hr_StartedAt = now, hr_UpdatedAt = now,
      hr_FinishedAt = None\<rparr>"

definition ensureHistoryRun :: "string \<Rightarrow> string \<Rightarrow> string \<Rightarrow> int \<Rightarrow> (wa_db, unit) stm" where
  "ensureHistoryRun sid run account now = wrapS ''store: ensure history run'' (execS (upsert_run
     (\<lambda>v r. r\<lparr>hr_AccountJID := coalesce (hr_AccountJID r) (hr_AccountJID v)\<rparr>) (new_run sid run (nullIfEmpty account) now)))"

definition insert_batch :: "batch_row \<Rightarrow> wa_db \<Rightarrow> (wa_db \<times> unit) result" where
  "insert_batch r db =
     (if \<exists>x\<in>set (db_batches db). hb_EventID x = hb_EventID r then Inl ErrDupEntry
      else if \<not> has_session (hb_SessionID r) db then Inl ErrNoSession
      else Inr (db\<lparr>db_batches := db_batches db @ [r]\<rparr>, ()))"

definition ledger_row :: "history_batch \<Rightarrow> batch_result \<Rightarrow> batch_row" where
  "ledger_row b res = \<lparr>hb_EventID = hx_EventID b, hb_SessionID = hx_SessionID b, hb_RunID = hx_RunID b, hb_MessagesImported = br_Imported res,
     hb_MessagesExisting = br_Existing res, hb_MessagesDropped = br_Dropped res, hb_AppliedAt = hx_Now b\<rparr>"

definition count_batch :: "batch_row \<Rightarrow> wa_db \<Rightarrow> wa_db" where
  "count_batch x db = db\<lparr>db_runs := upd_rows (\<lambda>r. run_key r = (hb_SessionID x, hb_RunID x))
     (\<lambda>r. r\<lparr>hr_BatchesApplied := hr_BatchesApplied r + 1, hr_MessagesImported := hr_MessagesImported r + hb_MessagesImported x,
           hr_MessagesExisting := hr_MessagesExisting r + hb_MessagesExisting x, hr_MessagesDropped := hr_MessagesDropped r + hb_MessagesDropped x,
           hr_UpdatedAt := max (hr_UpdatedAt r) (hb_AppliedAt x)\<rparr>) (db_runs db)\<rparr>"

record history_env =
  he_mids :: "nat \<Rightarrow> string"
  he_iter :: "(string \<times> string) list \<Rightarrow> (string \<times> string) list"

text \<open>The rows of a batch, and its entry in the ledger with the counters of its run.\<close>

definition apply_rows :: "history_env \<Rightarrow> history_batch \<Rightarrow> (wa_db, batch_result) stm" where
  "apply_rows env b =
     thenS (identities (he_iter env) b)
       (thenS (groups b)
         (bindS (chats b (hx_Conversations b) (\<lambda>_. [])) (\<lambda>canonical.
           bindS (messages (he_mids env) b canonical) (\<lambda>res.
             thenS (mutations b) (returnS res)))))"

definition record_batch :: "batch_row \<Rightarrow> (wa_db, unit) stm" where
  "record_batch x =
     thenS (wrapS ''store: history ledger insert'' (execS (insert_batch x)))
       (wrapS ''store: history run counters'' (writeS (count_batch x)))"

definition batch_body :: "history_env \<Rightarrow> history_batch \<Rightarrow> (wa_db, bool \<times> batch_result) stm" where
  "batch_body env b =
     bindS (wrapS ''store: history ledger check'' (readS (\<lambda>db. \<exists>x\<in>set (db_batches db). hb_EventID x = hx_EventID b))) (\<lambda>seen.
       if seen then returnS (False, no_result)
       else thenS (ensureHistoryRun (hx_SessionID b) (hx_RunID b) (hx_AccountJID b) (hx_Now b))
         (bindS (apply_rows env b) (\<lambda>res.
           thenS (record_batch (ledger_row b res)) (returnS (True, res\<lparr>br_Applied := True\<rparr>)))))"

definition ApplyBatch :: "history_env \<Rightarrow> history_batch \<Rightarrow> (wa_db, batch_result) stm" where
  "ApplyBatch env b =
     (if hx_EventID b = [] \<or> hx_SessionID b = [] \<or> hx_RunID b = []
      then failS (ErrValidation ''history batch requires event, session and run ids'')
      else inTx ''store: begin history batch'' ''store: commit history batch'' (batch_body env b))"

record sync_update =
  su_SessionID :: string
  su_RunID :: string
  su_Phase :: string
  su_AccountJID :: string
  su_SyncType :: string
  su_Progress :: "int option"
  su_CutoffAt :: int
  su_Chunks :: int
  su_Batches :: int
  su_Conversations :: int
  su_Messages :: int
  su_Skipped :: int
  su_Error :: string
  su_Now :: int

abbreviation HistoryPhaseStarted :: string where "HistoryPhaseStarted \<equiv> ''started''"
abbreviation HistoryPhaseProgress :: string where "HistoryPhaseProgress \<equiv> ''progress''"
abbreviation HistoryPhaseCompleted :: string where "HistoryPhaseCompleted \<equiv> ''completed''"
abbreviation HistoryPhaseFailed :: string where "HistoryPhaseFailed \<equiv> ''failed''"

definition phase_status :: "string \<Rightarrow> run_status option" where
  "phase_status phase =
     (if phase = HistoryPhaseCompleted then Some RunCompleted else if phase = HistoryPhaseFailed then Some RunFailed
      else if phase = HistoryPhaseStarted \<or> phase = HistoryPhaseProgress then Some RunRunning else None)"

definition sync_row :: "sync_update \<Rightarrow> run_status \<Rightarrow> run_row" where
  "sync_row u status = (new_run (su_SessionID u) (su_RunID u) (nullIfEmpty (su_AccountJID u)) (su_Now u))\<lparr>
     hr_Status := status, hr_SyncType := nullIfEmpty (su_SyncType u),
     hr_Progress := map_option (\<lambda>p. min (max p 0) 100) (su_Progress u),
     hr_CutoffAt := (if su_CutoffAt u > 0 then Some (su_CutoffAt u) else None),
     hr_Chunks := su_Chunks u, hr_Batches := su_Batches u, hr_Conversations := su_Conversations u, hr_Messages := su_Messages u,
     hr_Skipped := su_Skipped u, hr_Error := (if status = RunFailed then nullIfEmpty (su_Error u) else None),
     hr_FinishedAt := (if status = RunRunning then None else Some (su_Now u))\<rparr>"

definition mirror_run :: "run_row \<Rightarrow> run_row \<Rightarrow> run_row" where
  "mirror_run v r = r\<lparr>hr_AccountJID := coalesce (hr_AccountJID r) (hr_AccountJID v), hr_Status := hr_Status v,
     hr_SyncType := coalesce (hr_SyncType v) (hr_SyncType r), hr_Progress := coalesce (hr_Progress v) (hr_Progress r),
     hr_CutoffAt := coalesce (hr_CutoffAt v) (hr_CutoffAt r), hr_Chunks := max (hr_Chunks r) (hr_Chunks v),
     hr_Batches := max (hr_Batches r) (hr_Batches v), hr_Conversations := max (hr_Conversations r) (hr_Conversations v),
     hr_Messages := max (hr_Messages r) (hr_Messages v), hr_Skipped := max (hr_Skipped r) (hr_Skipped v), hr_Error := hr_Error v,
     hr_UpdatedAt := max (hr_UpdatedAt r) (hr_UpdatedAt v), hr_FinishedAt := hr_FinishedAt v\<rparr>"

definition ApplySync :: "sync_update \<Rightarrow> (wa_db, unit) stm" where
  "ApplySync u =
     (if su_SessionID u = [] \<or> su_RunID u = [] then failS (ErrValidation ''history sync requires session and run ids'')
      else case phase_status (su_Phase u) of
        None \<Rightarrow> failS (ErrValidation ''unknown history sync phase'')
      | Some status \<Rightarrow> wrapS ''store: apply history sync'' (execS (upsert_run mirror_run (sync_row u status))))"

text \<open>The most recently started run; of two started at the same time the one stored last.\<close>

definition LatestRun :: "string \<Rightarrow> (wa_db, run_row) stm" where
  "LatestRun sid = bindS (readS (\<lambda>db. sort_key hr_StartedAt (filter (\<lambda>r. hr_SessionID r = sid) (db_runs db))))
     (\<lambda>rows. if rows = [] then failS (notFound ErrNoRows ''history sync run'') else returnS (last rows))"

end
