(* ===== verification/EventProjection.thy ===== *)
theory EventProjection
  imports HistoryStore
begin

text \<open>
  The projection of committed gateway events onto the WhatsApp-data tables
  (src/backend/internal/service/event_projection.go, history_projection.go,
  store_projections.go, value_helpers.go). The handlers are the source's, over the repositories
  of \<open>WaTables\<close> and \<open>HistoryStore\<close>. \<open>encoding/json\<close> enters as the decoders of a
  \<open>codec\<close>; the clock, the id of a new message row and the order of map iteration are arguments.
  A Go map is the list of its entries in the order the loop meets them.
\<close>

section \<open>Payloads\<close>

record poll_data =
  pd_Name :: string
  pd_Options :: "string list"
  pd_SelectableCount :: int
  pd_EndTime :: int
  pd_HideVotes :: bool

record message_payload =
  mp_WAMessageID :: string
  mp_ChatJID :: string
  mp_SenderJID :: string
  mp_SenderLID :: string
  mp_FromMe :: bool
  mp_Type :: string
  mp_Body :: string
  mp_QuotedMessageID :: string
  mp_Mentions :: "(string \<times> string \<times> string) list"
  mp_HasMedia :: bool
  mp_Media :: "wa_media option"
  mp_Timestamp :: int
  mp_PushName :: string
  mp_TargetID :: string
  mp_HasLocation :: bool
  mp_HasContact :: bool
  mp_Poll :: "poll_data option"
  mp_SelectedOptions :: "string list"

record status_payload =
  sp_MessageIDs :: "string list"
  sp_Status :: string

record auth_code_payload =
  ap_JID :: string
  ap_LID :: string

record history_message_payload = message_payload +
  mp_Kind :: string
  mp_Status :: string

record conversation_payload =
  cp_ChatJID :: string
  cp_Name :: string
  cp_Description :: string
  cp_LID :: string
  cp_PhoneJID :: string
  cp_UnreadCount :: "int option"
  cp_Archived :: bool
  cp_Pinned :: bool
  cp_MutedUntil :: int
  cp_Participants :: "history_participant list"
  cp_Messages :: "history_message_payload list"

record batch_payload =
  bp_RunID :: string
  bp_AccountJID :: string
  bp_SnapshotAt :: int
  bp_Conversations :: "conversation_payload list"
  bp_Contacts :: "history_contact list"

record sync_payload =
  yp_RunID :: string
  yp_Phase :: string
  yp_AccountJID :: string
  yp_SyncType :: string
  yp_Progress :: "int option"
  yp_CutoffAt :: int
  yp_Chunks :: int
  yp_Batches :: int
  yp_Conversations :: int
  yp_Messages :: int
  yp_Skipped :: int
  yp_Error :: string

record committed_event =
  ce_ID :: string
  ce_Type :: string
  ce_Session :: string
  ce_Timestamp :: int
  ce_Payload :: string

record codec =
  cd_message :: "string \<Rightarrow> message_payload result"
  cd_status :: "string \<Rightarrow> status_payload result"
  cd_auth :: "string \<Rightarrow> auth_code_payload result"
  cd_session :: "string \<Rightarrow> string result"
  cd_batch :: "string \<Rightarrow> batch_payload result"
  cd_sync :: "string \<Rightarrow> sync_payload result"
  cd_marshal :: "string \<Rightarrow> string result"
  cd_history :: "history_message_payload \<Rightarrow> string result"

text \<open>What one call of the consumer is given: the clock, the id of a new row, and the choices of a
  history batch.\<close>

record consumer =
  co_codec :: codec
  co_clock :: int
  co_messageID :: string
  co_history :: history_env
  co_retentionDays :: int

section \<open>Helpers\<close>

definition stringPtr :: "string \<Rightarrow> string option" where
  "stringPtr s = (if s = [] then None else Some s)"

definition int64Ptr :: "int \<Rightarrow> int option" where
  "int64Ptr v = (if v = 0 then None else Some v)"

text \<open>\<open>phoneFromJID\<close> cuts the suffix and what follows a colon, which names a device.\<close>

definition phoneFromJID :: "string \<Rightarrow> string" where
  "phoneFromJID jid =
     (if \<not> HasSuffix jid phone_suffix then []
      else takeWhile (\<lambda>c. c \<noteq> CHR '':'') (take (length jid - length phone_suffix) jid))"

definition chatTypeFromJID :: "string \<Rightarrow> chat_type" where
  "chatTypeFromJID jid =
     (if HasSuffix jid ''@g.us'' then ChatGroup
      else if HasSuffix jid ''@newsletter'' then ChatNewsletter
      else if HasSuffix jid ''@broadcast'' then (if HasPrefix jid ''status@broadcast'' then ChatStatus else ChatBroadcast)
      else ChatDM)"

definition mentionKeys :: "(string \<times> 'a) list \<Rightarrow> string list" where
  "mentionKeys m = map fst m"

text \<open>\<open>payloadJSON\<close>: the payload encoded again, or nothing when that fails.\<close>

definition payloadJSON :: "consumer \<Rightarrow> committed_event \<Rightarrow> string" where
  "payloadJSON c ev = (case cd_marshal (co_codec c) (ce_Payload ev) of Inl _ \<Rightarrow> [] | Inr raw \<Rightarrow> raw)"

section \<open>Messages\<close>

definition chat_upsert :: "string \<Rightarrow> message_payload \<Rightarrow> chat_row" where
  "chat_upsert session p =
     \<lparr>ct_SessionID = session, ct_ChatJID = mp_ChatJID p, ct_Type = chatTypeFromJID (mp_ChatJID p),
      ct_Name = stringPtr (if chatTypeFromJID (mp_ChatJID p) \<noteq> ChatGroup then mp_PushName p else []),
      ct_LastMessageAt = int64Ptr (mp_Timestamp p), ct_UnreadCount = 0, ct_Archived = False, ct_Pinned = False, ct_MutedUntil = None\<rparr>"

definition noDisplayableContent :: "message_payload \<Rightarrow> bool" where
  "noDisplayableContent p \<longleftrightarrow> mp_Body p = [] \<and> \<not> mp_HasLocation p \<and> \<not> mp_HasContact p \<and> mp_Poll p = None"

definition body_of :: "consumer \<Rightarrow> committed_event \<Rightarrow> message_payload \<Rightarrow> string" where
  "body_of c ev p = (if noDisplayableContent p \<and> payloadJSON c ev \<noteq> [] then payloadJSON c ev else mp_Body p)"

definition message_insert :: "consumer \<Rightarrow> committed_event \<Rightarrow> message_payload \<Rightarrow> message_row" where
  "message_insert c ev p =
     \<lparr>mg_ID = co_messageID c, mg_SessionID = ce_Session ev, mg_WAMessageID = mp_WAMessageID p, mg_ChatJID = mp_ChatJID p,
      mg_SenderLID = stringPtr (mp_SenderLID p), mg_SenderJID = stringPtr (mp_SenderJID p), mg_FromMe = mp_FromMe p,
      mg_Direction = (if mp_FromMe p then DirectionOut else DirectionIn), mg_Type = mp_Type p, mg_Body = stringPtr (body_of c ev p),
      mg_QuotedMessageID = stringPtr (mp_QuotedMessageID p),
      mg_Mentions = (if mentionKeys (mp_Mentions p) = [] then None else Some (mentionKeys (mp_Mentions p))),
      mg_HasMedia = mp_HasMedia p, mg_MediaMeta = mp_Media p, mg_Status = None, mg_AckLevel = None, mg_Error = None,
      mg_Edited = False, mg_Deleted = False, mg_Timestamp = mp_Timestamp p, mg_RawJSON = stringPtr (payloadJSON c ev),
      mg_CreatedAt = co_clock c, mg_Origin = OriginLive\<rparr>"

definition poll_upsert :: "consumer \<Rightarrow> committed_event \<Rightarrow> message_payload \<Rightarrow> poll_data \<Rightarrow> poll_row" where
  "poll_upsert c ev p d =
     \<lparr>po_SessionID = ce_Session ev, po_PollMessageID = mp_WAMessageID p, po_ChatJID = mp_ChatJID p, po_Name = Some (pd_Name d),
      po_Options = pd_Options d, po_SelectableCount = pd_SelectableCount d, po_EndTime = pollNullInt64 (pd_EndTime d),
      po_HideVotes = pd_HideVotes d, po_RecapEmittedAt = None, po_CreatedAt = co_clock c, po_UpdatedAt = co_clock c\<rparr>"

definition identity_upsert :: "consumer \<Rightarrow> message_payload \<Rightarrow> identity_row" where
  "identity_upsert c p =
     \<lparr>il_LID = mp_SenderLID p, il_PhoneNumber = stringPtr (phoneFromJID (mp_SenderJID p)), il_PhoneJID = stringPtr (mp_SenderJID p),
      il_Name = stringPtr (mp_PushName p), il_BusinessName = None, il_FirstSeenAt = co_clock c, il_UpdatedAt = co_clock c\<rparr>"

definition captureSenderOnly :: "consumer \<Rightarrow> message_payload \<Rightarrow> (wa_db, unit) stm" where
  "captureSenderOnly c p =
     (if mp_SenderLID p \<noteq> [] then Upsert_identity (identity_upsert c p)
      else if mp_PushName p \<noteq> [] \<and> mp_SenderJID p \<noteq> [] then FillNameByJID (mp_SenderJID p) (mp_PushName p) (co_clock c)
      else returnS ())"

definition member_upsert :: "consumer \<Rightarrow> committed_event \<Rightarrow> message_payload \<Rightarrow> member_row" where
  "member_upsert c ev p =
     \<lparr>gm_SessionID = ce_Session ev, gm_GroupJID = mp_ChatJID p, gm_LID = mp_SenderLID p, gm_Tag = None, gm_Role = RoleMember,
      gm_FirstSeenAt = co_clock c, gm_LastSeenAt = co_clock c\<rparr>"

text \<open>The decoded payload, or the decoder's error.\<close>

definition decodeS :: "'a result \<Rightarrow> ('a \<Rightarrow> (wa_db, unit) stm) \<Rightarrow> (wa_db, unit) stm" where
  "decodeS r k = (case r of Inl e \<Rightarrow> failS e | Inr p \<Rightarrow> k p)"

definition project_payload :: "consumer \<Rightarrow> committed_event \<Rightarrow> message_payload \<Rightarrow> (wa_db, unit) stm" where
  "project_payload c ev p =
     thenS (whenS (mp_ChatJID p \<noteq> []) (Upsert_chat (chat_upsert (ce_Session ev) p)))
      (thenS (Upsert_message (message_insert c ev p))
       (thenS (case mp_Poll p of None \<Rightarrow> returnS () | Some d \<Rightarrow> Upsert_poll (poll_upsert c ev p d))
        (thenS (captureSenderOnly c p)
         (whenS (chatTypeFromJID (mp_ChatJID p) = ChatGroup \<and> mp_SenderLID p \<noteq> []) (Upsert_member (member_upsert c ev p))))))"

definition projectMessage :: "consumer \<Rightarrow> committed_event \<Rightarrow> (wa_db, unit) stm" where
  "projectMessage c ev = decodeS (cd_message (co_codec c) (ce_Payload ev)) (project_payload c ev)"

definition projectReaction :: "consumer \<Rightarrow> committed_event \<Rightarrow> (wa_db, unit) stm" where
  "projectReaction c ev = decodeS (cd_message (co_codec c) (ce_Payload ev)) (captureSenderOnly c)"

definition projectEdit :: "consumer \<Rightarrow> committed_event \<Rightarrow> (wa_db, unit) stm" where
  "projectEdit c ev = decodeS (cd_message (co_codec c) (ce_Payload ev)) (\<lambda>p.
     whenS (mp_TargetID p \<noteq> []) (MarkEdited (ce_Session ev) (mp_TargetID p) (mp_Body p)))"

text \<open>A revocation of a message that is not stored succeeds.\<close>

definition ignore_not_found :: "(wa_db, unit) stm \<Rightarrow> (wa_db, unit) stm" where
  "ignore_not_found m = (\<lambda>s. case m s of
       (Inl e, s') \<Rightarrow> (if api_code_of e = Some CodeNotFound then Inr () else Inl e, s')
     | (Inr x, s') \<Rightarrow> (Inr x, s'))"

definition projectRevoke :: "consumer \<Rightarrow> committed_event \<Rightarrow> (wa_db, unit) stm" where
  "projectRevoke c ev = decodeS (cd_message (co_codec c) (ce_Payload ev)) (\<lambda>p.
     whenS (mp_TargetID p \<noteq> []) (ignore_not_found (MarkDeleted (ce_Session ev) (mp_TargetID p))))"

definition vote_insert :: "consumer \<Rightarrow> committed_event \<Rightarrow> message_payload \<Rightarrow> vote_row" where
  "vote_insert c ev p =
     \<lparr>vo_SessionID = ce_Session ev, vo_PollMessageID = mp_TargetID p,
      vo_VoterLID = (if mp_SenderLID p = [] then mp_SenderJID p else mp_SenderLID p), vo_SelectedOptions = mp_SelectedOptions p,
      vo_Timestamp = mp_Timestamp p, vo_RawJSON = stringPtr (payloadJSON c ev)\<rparr>"

definition projectPollVote :: "consumer \<Rightarrow> committed_event \<Rightarrow> (wa_db, unit) stm" where
  "projectPollVote c ev = decodeS (cd_message (co_codec c) (ce_Payload ev)) (\<lambda>p.
     thenS (Insert_vote (vote_insert c ev p)) (captureSenderOnly c p))"

definition UpdateMessageStatus :: "string \<Rightarrow> string list \<Rightarrow> string \<Rightarrow> (wa_db, unit) stm" where
  "UpdateMessageStatus session ids status = forS ids (\<lambda>i. AdvanceReceiptStatus session i status None)"

definition projectReceipt :: "consumer \<Rightarrow> committed_event \<Rightarrow> (wa_db, unit) stm" where
  "projectReceipt c ev = decodeS (cd_status (co_codec c) (ce_Payload ev)) (\<lambda>p.
     whenS (sp_MessageIDs p \<noteq> []) (UpdateMessageStatus (ce_Session ev) (sp_MessageIDs p) (sp_Status p)))"

section \<open>Sessions\<close>

definition projectPairSuccess :: "consumer \<Rightarrow> committed_event \<Rightarrow> (wa_db, unit) stm" where
  "projectPairSuccess c ev = decodeS (cd_auth (co_codec c) (ce_Payload ev)) (\<lambda>p.
     whenS (ap_JID p \<noteq> []) (AttachPairing
       \<lparr>at_SessionID = ce_Session ev, at_WaJID = ap_JID p, at_WaLID = ap_LID p, at_PhoneNumber = phoneFromJID (ap_JID p),
        at_UpdatedAt = co_clock c\<rparr>))"

definition observed_status :: "string \<Rightarrow> wa_session_status option" where
  "observed_status s =
     (if s = ''starting'' then Some StatusStarting else if s = ''working'' then Some StatusWorking
      else if s = ''scan_qr_code'' then Some StatusScanQR else if s = ''failed'' then Some StatusFailed
      else if s = ''stopped'' then Some StatusStopped else None)"

definition projectSessionStatus :: "consumer \<Rightarrow> committed_event \<Rightarrow> (wa_db, unit) stm" where
  "projectSessionStatus c ev = decodeS (cd_session (co_codec c) (ce_Payload ev)) (\<lambda>status.
     if status = ''logged_out'' then ClearPairing (ce_Session ev) (co_clock c)
     else case observed_status status of
       Some st \<Rightarrow> UpdateSessionStatus (ce_Session ev) st (co_clock c)
     | None \<Rightarrow> failS (ErrValidation ''unknown session status''))"

section \<open>History\<close>

definition dayMs :: int where "dayMs = 24 * 60 * 60 * 1000"

definition retentionCutoff :: "consumer \<Rightarrow> int \<Rightarrow> int" where
  "retentionCutoff c now = (if co_retentionDays c \<le> 0 then 0 else i64 (now - i64 (co_retentionDays c * dayMs)))"

text \<open>Only the type, size and name of imported media are kept.\<close>

fun historyMediaMeta :: "wa_media \<Rightarrow> wa_media" where
  "historyMediaMeta (WaMedia items mid url expires mime size' filename) = WaMedia (map historyMediaMeta items) [] [] None mime size' filename"

definition validMessageStatus :: "string \<Rightarrow> bool" where
  "validMessageStatus s \<longleftrightarrow> s \<in> {''pending'', ''sent'', ''delivered'', ''read'', ''played'', ''failed''}"

definition history_kind :: "history_message_payload \<Rightarrow> string" where
  "history_kind p = (if mp_Kind p \<noteq> [] then mp_Kind p else if mp_FromMe p then HistoryKindFromMe else HistoryKindMessage)"

definition history_poll_of :: "poll_data \<Rightarrow> history_poll" where
  "history_poll_of d = \<lparr>hl_Name = pd_Name d, hl_Options = pd_Options d, hl_SelectableCount = pd_SelectableCount d,
     hl_EndTime = pd_EndTime d, hl_HideVotes = pd_HideVotes d\<rparr>"

definition historyMessageFromPayload :: "consumer \<Rightarrow> string \<Rightarrow> history_message_payload \<Rightarrow> history_message result" where
  "historyMessageFromPayload c chatJID p = bindr (cd_history (co_codec c) p) (\<lambda>raw.
     let kind = history_kind p;
         swap = HasSuffix chatJID ''@g.us'' \<and> mp_SenderLID p = [] \<and> HasSuffix (mp_SenderJID p) lid_suffix in
     Inr \<lparr>hm_Kind = kind, hm_WAMessageID = mp_WAMessageID p, hm_SenderLID = (if swap then mp_SenderJID p else mp_SenderLID p),
       hm_SenderJID = (if swap then [] else mp_SenderJID p), hm_PushName = mp_PushName p, hm_FromMe = mp_FromMe p,
       hm_Type = (if mp_Type p = [] then ''system'' else mp_Type p),
       hm_Body = (if kind \<noteq> HistoryKindEdited \<and> noDisplayableContent (message_payload.truncate p) then raw else mp_Body p),
       hm_QuotedMessageID = mp_QuotedMessageID p, hm_Mentions = mentionKeys (mp_Mentions p), hm_HasMedia = mp_HasMedia p,
       hm_MediaMeta = map_option historyMediaMeta (mp_Media p), hm_Timestamp = mp_Timestamp p, hm_RawJSON = raw,
       hm_Status = (if mp_Status p \<noteq> [] \<and> validMessageStatus (mp_Status p) then message_status_of (mp_Status p) else None),
       hm_TargetID = mp_TargetID p, hm_Poll = map_option history_poll_of (mp_Poll p),
       hm_SelectedOptions = (if kind = HistoryKindPollVote then mp_SelectedOptions p else [])\<rparr>)"

primrec mapr :: "('a \<Rightarrow> 'b result) \<Rightarrow> 'a list \<Rightarrow> 'b list result" where
  "mapr f [] = Inr []"
| "mapr f (x # xs) = bindr (f x) (\<lambda>y. bindr (mapr f xs) (\<lambda>ys. Inr (y # ys)))"

definition historyConversation :: "consumer \<Rightarrow> conversation_payload \<Rightarrow> history_conversation result" where
  "historyConversation c v = bindr (mapr (historyMessageFromPayload c (cp_ChatJID v)) (cp_Messages v)) (\<lambda>ms.
     Inr \<lparr>hv_ChatJID = cp_ChatJID v, hv_Type = chatTypeFromJID (cp_ChatJID v), hv_Name = cp_Name v, hv_Description = cp_Description v,
       hv_LID = cp_LID v, hv_PhoneJID = cp_PhoneJID v, hv_UnreadCount = cp_UnreadCount v, hv_Archived = cp_Archived v,
       hv_Pinned = cp_Pinned v, hv_MutedUntil = (if cp_MutedUntil v > 0 then Some (cp_MutedUntil v) else None),
       hv_Participants = cp_Participants v, hv_Messages = ms\<rparr>)"

definition historyBatchFromPayload :: "consumer \<Rightarrow> committed_event \<Rightarrow> batch_payload \<Rightarrow> int \<Rightarrow> int \<Rightarrow> history_batch result" where
  "historyBatchFromPayload c ev p now cutoff =
     bindr (mapr (historyConversation c) (filter (\<lambda>v. cp_ChatJID v \<noteq> []) (bp_Conversations p))) (\<lambda>convs.
       Inr \<lparr>hx_EventID = ce_ID ev, hx_SessionID = ce_Session ev, hx_RunID = bp_RunID p, hx_AccountJID = bp_AccountJID p,
         hx_SnapshotAt = (if bp_SnapshotAt p \<le> 0 then ce_Timestamp ev else bp_SnapshotAt p), hx_RetentionCutoff = cutoff, hx_Now = now,
         hx_Contacts = bp_Contacts p, hx_Conversations = convs\<rparr>)"

text \<open>A batch that cannot be decoded, names no run or cannot be encoded is logged and skipped.\<close>

definition projectHistoryBatch :: "consumer \<Rightarrow> committed_event \<Rightarrow> (wa_db, unit) stm" where
  "projectHistoryBatch c ev =
     (case cd_batch (co_codec c) (ce_Payload ev) of
        Inl _ \<Rightarrow> returnS ()
      | Inr p \<Rightarrow>
          (if bp_RunID p = [] then returnS ()
           else case historyBatchFromPayload c ev p (co_clock c) (retentionCutoff c (co_clock c)) of
             Inl _ \<Rightarrow> returnS ()
           | Inr b \<Rightarrow> bindS (ApplyBatch (co_history c) b) (\<lambda>_. returnS ())))"

definition sync_of :: "consumer \<Rightarrow> committed_event \<Rightarrow> sync_payload \<Rightarrow> sync_update" where
  "sync_of c ev p =
     \<lparr>su_SessionID = ce_Session ev, su_RunID = yp_RunID p, su_Phase = yp_Phase p, su_AccountJID = yp_AccountJID p,
      su_SyncType = yp_SyncType p, su_Progress = yp_Progress p, su_CutoffAt = yp_CutoffAt p, su_Chunks = yp_Chunks p,
      su_Batches = yp_Batches p, su_Conversations = yp_Conversations p, su_Messages = yp_Messages p, su_Skipped = yp_Skipped p,
      su_Error = yp_Error p, su_Now = co_clock c\<rparr>"

definition projectHistorySync :: "consumer \<Rightarrow> committed_event \<Rightarrow> (wa_db, unit) stm" where
  "projectHistorySync c ev =
     (case cd_sync (co_codec c) (ce_Payload ev) of
        Inl _ \<Rightarrow> returnS ()
      | Inr p \<Rightarrow>
          (if yp_Phase p \<notin> {HistoryPhaseStarted, HistoryPhaseProgress, HistoryPhaseCompleted, HistoryPhaseFailed} then returnS ()
           else if yp_RunID p = [] then returnS ()
           else ApplySync (sync_of c ev p)))"

section \<open>The consumer\<close>

definition ConsumeCommittedEvent :: "consumer \<Rightarrow> committed_event \<Rightarrow> (wa_db, unit) stm" where
  "ConsumeCommittedEvent c ev =
     (if ce_Type ev \<in> {''message'', ''message.from_me'', ''message.interactive_reply''} then projectMessage c ev
      else if ce_Type ev = ''message.reaction'' then projectReaction c ev
      else if ce_Type ev = ''message.edited'' then projectEdit c ev
      else if ce_Type ev = ''message.revoked'' then projectRevoke c ev
      else if ce_Type ev = ''poll.vote'' then projectPollVote c ev
      else if ce_Type ev = ''message.status'' then projectReceipt c ev
      else if ce_Type ev = ''auth.code'' then projectPairSuccess c ev
      else if ce_Type ev = ''session.status'' then projectSessionStatus c ev
      else if ce_Type ev = ''history.batch'' then projectHistoryBatch c ev
      else if ce_Type ev = ''history.sync'' then projectHistorySync c ev
      else returnS ())"

text \<open>
  A run of the consumer: every call has its own clock, ids and fates, and a call that fails may be
  followed by any other, so redeliveries are calls like any other.
\<close>

fun consume_all :: "(consumer \<times> committed_event \<times> fate list) list \<Rightarrow> wa_db \<Rightarrow> wa_db" where
  "consume_all [] db = db"
| "consume_all ((c, ev, fs) # rest) db = consume_all rest (fst (snd (ConsumeCommittedEvent c ev (db, fs))))"

end
