(* ===== verification/ProjectionKeeps.thy ===== *)
theory ProjectionKeeps
  imports EventProjection
begin

text \<open>
  The interface between the projection and the properties of its tables: a relation between the
  tables before and after a call that every single statement keeps is kept by the whole consumer,
  whatever becomes of the statements. \<open>row_relation\<close> has the laws of the statements on rows for
  an event of one session, whose new message rows take ids in \<open>F\<close>; \<open>projection_relation\<close> adds
  the writes to sessions, runs and the ledger.
\<close>

locale row_relation = table_relation R
  for R :: "wa_db \<Rightarrow> wa_db \<Rightarrow> bool" +
  fixes sid :: string and F :: "string \<Rightarrow> bool"
  assumes chat_refresh: "ct_SessionID c = sid \<Longrightarrow> R db (db\<lparr>db_chats := upsert chat_key refresh_chat c (db_chats db)\<rparr>)"
    and chat_fill: "ct_SessionID c = sid \<Longrightarrow> R db (db\<lparr>db_chats := upsert chat_key (fill_chat u t) c (db_chats db)\<rparr>)"
    and chat_merge: "R db (MergeExistingDMChatAliases phone lid db)"
    and chat_delete: "R db (DeleteMergedDMChatAliases lid phone db)"
    and chat_rename: "rename_chats (\<lambda>a. ct_ChatJID a = phone) lid db = Inr (db', u') \<Longrightarrow> R db db'"
    and chat_merge_session: "R db (MergeSessionDMChatAlias phone sid lid db)"
    and chat_delete_session: "R db (DeleteSessionDMChatAlias sid phone db)"
    and chat_rename_session: "rename_chats (\<lambda>a. ct_SessionID a = sid \<and> ct_ChatJID a = phone) lid db = Inr (db', u') \<Longrightarrow> R db db'"
    and messages_moved: "R db (move_messages S lid phone db)"
    and polls_moved: "R db (move_polls S lid phone db)"
    and message_content: "mg_SessionID m = sid \<Longrightarrow> F (mg_ID m) \<Longrightarrow>
      R db (db\<lparr>db_messages := upsert_message content_of m (db_messages db)\<rparr>)"
    and message_import: "mg_SessionID m = sid \<Longrightarrow> F (mg_ID m) \<Longrightarrow>
      R db (db\<lparr>db_messages := upsert_message (\<lambda>_ r. r) m (db_messages db)\<rparr>)"
    and message_receipt: "R db (db\<lparr>db_messages := upd_rows (\<lambda>r. message_key r = (sid, w)) (advance_row status None) (db_messages db)\<rparr>)"
    and message_edit: "R db (db\<lparr>db_messages := upd_rows (\<lambda>r. message_key r = (sid, w)) (\<lambda>r. r\<lparr>mg_Edited := True, mg_Body := Some body\<rparr>) (db_messages db)\<rparr>)"
    and message_history_edit: "R db (db\<lparr>db_messages := upd_rows (\<lambda>r. message_key r = (sid, w) \<and> \<not> mg_Edited r)
      (\<lambda>r. r\<lparr>mg_Body := Some body, mg_Edited := True\<rparr>) (db_messages db)\<rparr>)"
    and message_delete: "R db (db\<lparr>db_messages := upd_rows (\<lambda>r. message_key r = (sid, w)) (\<lambda>r. r\<lparr>mg_Deleted := True\<rparr>) (db_messages db)\<rparr>)"
    and identity_refresh: "R db (db\<lparr>db_identities := upsert il_LID refresh_identity i (db_identities db)\<rparr>)"
    and identity_fill: "R db (db\<lparr>db_identities := upsert il_LID fill_identity i (db_identities db)\<rparr>)"
    and identity_name: "R db (db\<lparr>db_identities := upd_rows P (\<lambda>i. i\<lparr>il_Name := n, il_UpdatedAt := now\<rparr>) (db_identities db)\<rparr>)"
    and group_fill: "R db (db\<lparr>db_groups := upsert gr_GroupJID fill_group g (db_groups db)\<rparr>)"
    and member_refresh: "gm_SessionID v = sid \<Longrightarrow> R db (db\<lparr>db_members := upsert member_key refresh_member v (db_members db)\<rparr>)"
    and member_keep: "gm_SessionID v = sid \<Longrightarrow> R db (db\<lparr>db_members := upsert member_key (\<lambda>_ r. r) v (db_members db)\<rparr>)"
    and poll_refresh: "po_SessionID p = sid \<Longrightarrow> R db (db\<lparr>db_polls := upsert poll_key refresh_poll p (db_polls db)\<rparr>)"
    and poll_keep: "po_SessionID p = sid \<Longrightarrow> R db (db\<lparr>db_polls := upsert poll_key (\<lambda>_ r. r) p (db_polls db)\<rparr>)"
    and vote_keep: "vo_SessionID vote = sid \<Longrightarrow> R db (insert_vote vote db)"
begin

lemmas table_rules = keeps_rules keeps_write keeps_exec keeps_collect

lemma keeps_canonical: "keeps R (canonicalDMChatJID jid)"
  unfolding canonicalDMChatJID_def by (auto intro!: keeps_rules)

lemma keeps_alias:
  assumes "session = [] \<or> session = sid"
  shows "keeps R (mergeDMChatAlias session lid phone)"
proof -
  have "keeps R (merge_all_sessions lid phone)" unfolding merge_all_sessions_def
    by (intro keeps_bind keeps_wrap keeps_write keeps_exec chat_merge chat_delete messages_moved polls_moved)
      (erule chat_rename)
  moreover have "keeps R (merge_session sid lid phone)"
  proof -
    have "keeps R (if c then thenS (wrapS x (writeS (MergeSessionDMChatAlias phone sid lid))) (wrapS y (writeS (DeleteSessionDMChatAlias sid phone)))
        else wrapS z (execS (rename_chats (\<lambda>a. ct_SessionID a = sid \<and> ct_ChatJID a = phone) lid)))" for c x y z
      by (cases c) (auto intro!: keeps_bind keeps_wrap keeps_write keeps_exec chat_merge_session chat_delete_session intro: chat_rename_session)
    then show ?thesis unfolding merge_session_def
      by (intro keeps_bind keeps_wrap keeps_write keeps_read messages_moved polls_moved)
  qed
  ultimately show ?thesis using assms by (auto simp: mergeDMChatAlias_def keeps_return)
qed

lemma keeps_Upsert_chat: "ct_SessionID c = sid \<Longrightarrow> keeps R (Upsert_chat c)"
  unfolding Upsert_chat_def
  by (intro keeps_bind keeps_wrap keeps_write) (auto simp: keeps_canonical keeps_return intro: chat_refresh)

lemma keeps_Upsert_message: "mg_SessionID m = sid \<Longrightarrow> F (mg_ID m) \<Longrightarrow> keeps R (Upsert_message m)"
  unfolding Upsert_message_def
  by (intro keeps_bind keeps_wrap keeps_write keeps_canonical message_content) simp_all

lemma keeps_Upsert_poll: "po_SessionID p = sid \<Longrightarrow> keeps R (Upsert_poll p)"
  unfolding Upsert_poll_def
  by (intro keeps_bind keeps_wrap keeps_write keeps_canonical poll_refresh) simp

lemma keeps_Upsert_identity: "keeps R (Upsert_identity i)"
  unfolding Upsert_identity_def
  by (intro keeps_bind keeps_wrap keeps_write identity_refresh)
    (cases "il_PhoneJID i", simp_all add: keeps_return keeps_alias)

lemma keeps_FillName: "keeps R (FillNameByJID jid name now)"
  unfolding FillNameByJID_def by (auto intro!: keeps_rules keeps_write identity_name)

lemma keeps_capture: "keeps R (captureSenderOnly c p)"
  unfolding captureSenderOnly_def by (simp add: keeps_Upsert_identity keeps_FillName keeps_return)

lemma keeps_or_not_found: "keeps R (or_not_found x n)"
  unfolding or_not_found_def by (auto simp: keeps_return split: sum.splits)

lemma keeps_MarkEdited: "keeps R (MarkEdited sid w body)"
  unfolding MarkEdited_def update_counted_def
  by (intro keeps_bind keeps_wrap keeps_exec keeps_or_not_found) (auto intro: message_edit)

lemma keeps_MarkDeleted: "keeps R (MarkDeleted sid w)"
  unfolding MarkDeleted_def update_counted_def
  by (intro keeps_bind keeps_wrap keeps_exec keeps_or_not_found) (auto intro: message_delete)

lemma keeps_ignore_not_found: "keeps R m \<Longrightarrow> keeps R (ignore_not_found m)"
  unfolding keeps_def ignore_not_found_def by (auto simp: split_beta split: sum.splits)

lemma keeps_receipts: "keeps R (UpdateMessageStatus sid ids status)"
  unfolding UpdateMessageStatus_def AdvanceReceiptStatus_def
  by (intro keeps_for keeps_wrap keeps_write message_receipt)

lemma keeps_payload:
  assumes "ce_Session ev = sid" "F (co_messageID c)"
  shows "keeps R (project_payload c ev p)"
proof -
  have "keeps R (case mp_Poll p of None \<Rightarrow> returnS () | Some d \<Rightarrow> Upsert_poll (poll_upsert c ev p d))"
    using assms(1) by (cases "mp_Poll p") (simp_all add: keeps_return keeps_Upsert_poll poll_upsert_def)
  moreover have "keeps R (Upsert_member (member_upsert c ev p))" unfolding Upsert_member_def
    using assms(1) by (intro keeps_wrap keeps_write member_refresh) (simp add: member_upsert_def)
  moreover have "keeps R (Upsert_chat (chat_upsert (ce_Session ev) p))"
    using assms(1) by (intro keeps_Upsert_chat) (simp add: chat_upsert_def)
  moreover have "keeps R (Upsert_message (message_insert c ev p))"
    using assms by (intro keeps_Upsert_message) (simp_all add: message_insert_def)
  ultimately show ?thesis unfolding project_payload_def by (intro keeps_bind keeps_when keeps_capture)
qed

lemma keeps_identities:
  assumes "hx_SessionID b = sid"
  shows "keeps R (identities iter b)"
proof -
  have "keeps R (mergeNewMappings sid ms)" for ms
    unfolding mergeNewMappings_def by (auto intro!: keeps_rules keeps_collect keeps_alias)
  then show ?thesis unfolding identities_def knownPhoneMappings_def Let_def
    by (auto simp: assms intro!: keeps_rules keeps_collect keeps_write identity_fill keeps_FillName)
qed

lemma keeps_groups: "hx_SessionID b = sid \<Longrightarrow> keeps R (groups b)"
  unfolding groups_def by (auto intro!: keeps_rules keeps_write group_fill member_keep)

lemma keeps_chats:
  assumes "hx_SessionID b = sid"
  shows "keeps R (chats b convs canonical)"
proof (induction convs arbitrary: canonical)
  case (Cons conv convs)
  have "keeps R (if hv_Type conv = ChatDM then canonicalDMChatJID (hv_ChatJID conv) else returnS (hv_ChatJID conv))"
    by (simp add: keeps_canonical keeps_return)
  with Cons.IH show ?case using assms by (auto intro!: keeps_bind keeps_wrap keeps_write chat_fill)
qed (simp add: keeps_return)

lemma keeps_import:
  assumes "hx_SessionID b = sid" "\<And>n. F (mids n)"
  shows "keeps R (import_messages mids b ms stored res)"
proof (induction ms arbitrary: stored res)
  case (Cons x ms)
  obtain jid m where x: "x = (jid, m)" by force
  have poll: "keeps R (case hm_Poll m of None \<Rightarrow> returnS () | Some p \<Rightarrow> insertPoll b jid m p)"
    using assms(1) by (cases "hm_Poll m") (auto simp: insertPoll_def keeps_return intro!: keeps_wrap keeps_write poll_keep)
  have row: "keeps R (insertMessage b (mids (br_Imported res)) jid m)"
    unfolding insertMessage_def using assms by (intro keeps_wrap keeps_write message_import) (simp_all add: imported_row_def)
  show ?case unfolding x using Cons.IH poll row by (simp add: keeps_bind)
qed (simp add: keeps_return)

lemma keeps_messages:
  assumes "hx_SessionID b = sid" "\<And>n. F (mids n)"
  shows "keeps R (messages mids b canonical)"
  unfolding messages_def storedMessageIDs_def Let_def
  by (intro keeps_bind keeps_collect keeps_wrap keeps_read keeps_import assms)

lemma keeps_mutations:
  assumes "hx_SessionID b = sid"
  shows "keeps R (mutations b)"
proof -
  have "keeps R (mutate b m)" for m
    unfolding mutate_def Let_def assms
    by (auto intro!: keeps_when keeps_wrap keeps_write message_history_edit message_delete vote_keep keeps_return)
  then show ?thesis unfolding mutations_def by (intro keeps_for)
qed

lemma keeps_apply_rows:
  assumes "hx_SessionID b = sid" "\<And>n. F (he_mids env n)"
  shows "keeps R (apply_rows env b)"
  unfolding apply_rows_def
  by (intro keeps_bind keeps_return keeps_identities keeps_groups keeps_chats keeps_messages keeps_mutations assms)

end

text \<open>Applying the rows of a batch leaves sessions, runs and the ledger alone.\<close>

definition same_ledger :: "wa_db \<Rightarrow> wa_db \<Rightarrow> bool" where
  "same_ledger db db' \<longleftrightarrow> db_sessions db' = db_sessions db \<and> db_runs db' = db_runs db \<and> db_batches db' = db_batches db"

interpretation sl: row_relation same_ledger sid "\<lambda>_. True" for sid
  by unfold_locales
    (auto simp: same_ledger_def MergeExistingDMChatAliases_def DeleteMergedDMChatAliases_def MergeSessionDMChatAlias_def
      DeleteSessionDMChatAlias_def rename_chats_def move_messages_def move_polls_def insert_vote_def split: if_splits)

lemma apply_rows_same_ledger: "keeps same_ledger (apply_rows env b)"
  by (rule sl.keeps_apply_rows[of b "hx_SessionID b"]) simp_all

lemma keepsD: "keeps R m \<Longrightarrow> m (db, fs) = (r, db', fs') \<Longrightarrow> R db db'"
  unfolding keeps_def by (metis fst_conv snd_conv)

lemma upsert_run_present:
  assumes "upsert_run merge row db = Inr (db', u)" "\<And>r. run_key (merge row r) = run_key r"
  shows "\<exists>r\<in>set (db_runs db'). run_key r = run_key row"
proof -
  have d: "db_runs db' = upsert run_key merge row (db_runs db)" using assms(1) by (auto simp: upsert_run_def split: if_splits)
  show ?thesis
  proof (cases "\<exists>r\<in>set (db_runs db). run_key r = run_key row")
    case True
    then obtain r where r: "r \<in> set (db_runs db)" "run_key r = run_key row" by blast
    then have "merge row r \<in> set (db_runs db')" using True unfolding d upsert_def by (simp add: in_upd_rows_hit)
    then show ?thesis using assms(2)[of r] r(2) by metis
  qed (simp add: d upsert_def)
qed

locale projection_relation = row_relation R sid F
  for R :: "wa_db \<Rightarrow> wa_db \<Rightarrow> bool" and sid F +
  assumes session_attach: "update_session sid (attach_row inp) db = Inr (db', n') \<Longrightarrow> R db db'"
    and session_clear: "update_session sid (\<lambda>r. r\<lparr>wr_Status := StatusLoggedOut, wr_WaJID := None, wr_WaLID := None, wr_PhoneNumber := None, wr_UpdatedAt := t'\<rparr>) db
      = Inr (db', n') \<Longrightarrow> R db db'"
    and session_status: "update_session sid (\<lambda>r. r\<lparr>wr_Status := st, wr_UpdatedAt := t'\<rparr>) db = Inr (db', n') \<Longrightarrow> R db db'"
    and run_ensure: "upsert_run (\<lambda>v r. r\<lparr>hr_AccountJID := coalesce (hr_AccountJID r) (hr_AccountJID v)\<rparr>) (new_run sid run acc t') db
      = Inr (db', u') \<Longrightarrow> R db db'"
    and run_mirror: "hr_SessionID row = sid \<Longrightarrow> hr_BatchesApplied row = 0 \<Longrightarrow> hr_MessagesImported row = 0 \<Longrightarrow> hr_MessagesExisting row = 0 \<Longrightarrow>
      hr_MessagesDropped row = 0 \<Longrightarrow> upsert_run mirror_run row db = Inr (db', u') \<Longrightarrow> R db db'"
    and batch_record: "hb_SessionID x = sid \<Longrightarrow> \<exists>r\<in>set (db_runs db). run_key r = (sid, hb_RunID x) \<Longrightarrow>
      \<forall>y\<in>set (db_batches db). hb_EventID y \<noteq> hb_EventID x \<Longrightarrow> R db (count_batch x (db\<lparr>db_batches := db_batches db @ [x]\<rparr>))"
begin

lemma keeps_ok_batch_body:
  assumes "hx_SessionID b = sid" "\<And>n. F (he_mids env n)"
  shows "keeps_ok R (batch_body env b)"
  unfolding keeps_ok_def
proof (intro allI impI)
  fix db fs a db' fs'
  assume run: "batch_body env b (db, fs) = (Inr a, db', fs')"
  then obtain seen d0 f0 where "readS (\<lambda>db. \<exists>x\<in>set (db_batches db). hb_EventID x = hx_EventID b) (db, fs) = (Inr seen, d0, f0)"
    and rest: "(if seen then returnS (False, no_result)
       else thenS (ensureHistoryRun (hx_SessionID b) (hx_RunID b) (hx_AccountJID b) (hx_Now b))
         (bindS (apply_rows env b) (\<lambda>res.
           thenS (record_batch (ledger_row b res)) (returnS (True, res\<lparr>br_Applied := True\<rparr>))))) (d0, f0) = (Inr a, db', fs')"
    unfolding batch_body_def bind_ok wrap_ok by auto
  then have d0: "d0 = db" by (blast dest: read_ok)
  show "R db db'"
  proof (cases seen)
    case True
    then show ?thesis using rest d0 R_refl by simp
  next
    case False
    with rest obtain d1 f1 res d2 f2 d3 f3
      where ens: "ensureHistoryRun (hx_SessionID b) (hx_RunID b) (hx_AccountJID b) (hx_Now b) (db, f0) = (Inr (), d1, f1)"
        and rows: "apply_rows env b (d1, f1) = (Inr res, d2, f2)"
        and rec: "record_batch (ledger_row b res) (d2, f2) = (Inr (), d3, f3)" and d': "db' = d3"
      unfolding d0 by (auto simp: bind_ok)
    let ?x = "ledger_row b res"
    from ens have up: "upsert_run (\<lambda>v r. r\<lparr>hr_AccountJID := coalesce (hr_AccountJID r) (hr_AccountJID v)\<rparr>)
        (new_run sid (hx_RunID b) (nullIfEmpty (hx_AccountJID b)) (hx_Now b)) db = Inr (d1, ())"
      unfolding ensureHistoryRun_def wrap_ok assms(1) by (rule exec_ok)
    have ledger: "same_ledger d1 d2" using keepsD[OF apply_rows_same_ledger rows] .
    have 1: "R db d1" using run_ensure[OF up] .
    have 2: "R d1 d2" using keepsD[OF keeps_apply_rows[OF assms] rows] .
    have "\<exists>r\<in>set (db_runs d2). run_key r = (sid, hb_RunID ?x)"
      using upsert_run_present[OF up, simplified run_key_def] ledger by (auto simp: same_ledger_def ledger_row_def new_run_def run_key_def)
    moreover from rec obtain d where ins: "insert_batch ?x d2 = Inr (d, ())" and d3: "d3 = count_batch ?x d"
      unfolding record_batch_def bind_ok wrap_ok by (auto dest!: exec_ok write_ok)
    ultimately have "R d2 d3" unfolding d3 using batch_record[of ?x d2] assms(1)
      by (auto simp: insert_batch_def ledger_row_def split: if_splits)
    with 1 2 show ?thesis unfolding d' using R_trans by blast
  qed
qed

lemma keeps_ApplyBatch:
  assumes "hx_SessionID b = sid" "\<And>n. F (he_mids env n)"
  shows "keeps R (ApplyBatch env b)"
  unfolding ApplyBatch_def using keeps_ok_batch_body[OF assms] by (simp add: keeps_return keeps_tx)

lemma keeps_ApplySync:
  assumes "su_SessionID u = sid"
  shows "keeps R (ApplySync u)"
proof -
  have "keeps R (execS (upsert_run mirror_run (sync_row u status)))" for status
    by (rule keeps_exec, erule run_mirror[rotated 5]) (simp_all add: sync_row_def new_run_def assms)
  then show ?thesis unfolding ApplySync_def by (auto simp: keeps_return keeps_wrap split: option.splits)
qed

lemma keeps_pairing:
  "keeps R (AttachPairing inp)" if "at_SessionID inp = sid" for inp
  using that unfolding AttachPairing_def by (intro keeps_bind keeps_wrap keeps_exec keeps_or_not_found) (auto intro: session_attach)

lemma keeps_status:
  "keeps R (ClearPairing sid now)" "keeps R (UpdateSessionStatus sid status now)"
  unfolding ClearPairing_def UpdateSessionStatus_def
  by (intro keeps_bind keeps_wrap keeps_exec keeps_or_not_found, erule session_clear)
    (intro keeps_bind keeps_wrap keeps_exec keeps_or_not_found, erule session_status)

lemma keeps_decode: "(\<And>p. keeps R (k p)) \<Longrightarrow> keeps R (decodeS r k)"
  unfolding decodeS_def by (cases r) (simp_all add: keeps_return)

lemma batch_session: "historyBatchFromPayload c ev p now cutoff = Inr b \<Longrightarrow> hx_SessionID b = ce_Session ev"
  unfolding historyBatchFromPayload_def by (auto simp del: bindr_Inr simp: bindr_Inr)

lemma keeps_history:
  assumes "ce_Session ev = sid" "\<And>n. F (he_mids (co_history c) n)"
  shows "keeps R (projectHistoryBatch c ev)" "keeps R (projectHistorySync c ev)"
proof -
  have "keeps R (ApplyBatch (co_history c) b)" if "historyBatchFromPayload c ev p now cutoff = Inr b" for p now cutoff b
    using keeps_ApplyBatch[OF _ assms(2)] batch_session[OF that] assms(1) by simp
  then show "keeps R (projectHistoryBatch c ev)" unfolding projectHistoryBatch_def
    by (auto intro!: keeps_bind keeps_return split: sum.splits)
  show "keeps R (projectHistorySync c ev)" unfolding projectHistorySync_def
    using assms(1) by (auto intro!: keeps_ApplySync keeps_return simp: sync_of_def split: sum.splits)
qed

theorem keeps_consume:
  assumes "ce_Session ev = sid" "F (co_messageID c)" "\<And>n. F (he_mids (co_history c) n)"
  shows "keeps R (ConsumeCommittedEvent c ev)"
proof -
  have "keeps R (projectMessage c ev)" unfolding projectMessage_def by (intro keeps_decode keeps_payload assms)
  moreover have "keeps R (projectReaction c ev)" unfolding projectReaction_def by (intro keeps_decode keeps_capture)
  moreover have "keeps R (projectEdit c ev)" unfolding projectEdit_def assms(1) by (intro keeps_decode keeps_when keeps_MarkEdited)
  moreover have "keeps R (projectRevoke c ev)" unfolding projectRevoke_def assms(1)
    by (intro keeps_decode keeps_when keeps_ignore_not_found keeps_MarkDeleted)
  moreover have "keeps R (projectPollVote c ev)" unfolding projectPollVote_def Insert_vote_def
    by (intro keeps_decode keeps_bind keeps_wrap keeps_write keeps_capture vote_keep) (simp add: vote_insert_def assms(1))
  moreover have "keeps R (projectReceipt c ev)" unfolding projectReceipt_def assms(1) by (intro keeps_decode keeps_when keeps_receipts)
  moreover have "keeps R (projectPairSuccess c ev)" unfolding projectPairSuccess_def
    by (intro keeps_decode keeps_when keeps_pairing) (simp add: assms(1))
  moreover have "keeps R (projectSessionStatus c ev)" unfolding projectSessionStatus_def assms(1)
    by (intro keeps_decode) (auto simp: keeps_status keeps_return split: option.splits)
  ultimately show ?thesis unfolding ConsumeCommittedEvent_def using keeps_history[OF assms(1,3)] by (simp add: keeps_return)
qed

end

end
