(* ===== verification/Projections.thy ===== *)
theory Projections
  imports ProjectionKeeps
begin

text \<open>
  What the projection promises of the tables, whatever the events, their order and repetition and
  whatever becomes of the statements: message rows stay and only advance, one session's events
  leave the rows of the others alone, keys stay unique, and the counters of a history run are the
  sums of its ledger. The instances of \<open>projection_relation\<close> discharge the laws of the single
  statements.
\<close>

lemmas statement_defs = MergeExistingDMChatAliases_def DeleteMergedDMChatAliases_def MergeSessionDMChatAlias_def
  DeleteSessionDMChatAlias_def move_messages_def move_polls_def insert_vote_def count_batch_def

lemma rename_chats_ok:
  "rename_chats P lid db = Inr (db', u) \<Longrightarrow> db' = db\<lparr>db_chats := upd_rows P (\<lambda>a. a\<lparr>ct_ChatJID := lid\<rparr>) (db_chats db)\<rparr>"
  by (auto simp: rename_chats_def split: if_splits)

lemma update_session_ok:
  "update_session sid g db = Inr (db', n) \<Longrightarrow> db' = db\<lparr>db_sessions := upd_rows (\<lambda>r. wr_ID r = sid) g (db_sessions db)\<rparr>"
  by (auto simp: update_session_def Let_def split: if_splits)

lemma upsert_run_ok:
  "upsert_run merge row db = Inr (db', u) \<Longrightarrow> db' = db\<lparr>db_runs := upsert run_key merge row (db_runs db)\<rparr>"
  by (auto simp: upsert_run_def split: if_splits)

lemmas statement_ok = rename_chats_ok update_session_ok upsert_run_ok

section \<open>A concrete run\<close>

text \<open>Two sessions, one of them with a stored message; a contact writes to the first, the phone sends history
  and receipts, and statements fail.\<close>

definition demo_payload :: message_payload where
  "demo_payload = \<lparr>mp_WAMessageID = ''M1'', mp_ChatJID = ''62@s.whatsapp.net'', mp_SenderJID = ''62@s.whatsapp.net'', mp_SenderLID = ''7@lid'',
     mp_FromMe = False, mp_Type = ''text'', mp_Body = ''hi'', mp_QuotedMessageID = [], mp_Mentions = [], mp_HasMedia = False, mp_Media = None,
     mp_Timestamp = 5, mp_PushName = ''Al'', mp_TargetID = ''M9'', mp_HasLocation = False, mp_HasContact = False, mp_Poll = None, mp_SelectedOptions = []\<rparr>"

definition demo_batch :: batch_payload where
  "demo_batch = \<lparr>bp_RunID = ''run'', bp_AccountJID = ''61@s.whatsapp.net'', bp_SnapshotAt = 9,
     bp_Conversations = [\<lparr>cp_ChatJID = ''62@s.whatsapp.net'', cp_Name = [], cp_Description = [], cp_LID = [], cp_PhoneJID = [], cp_UnreadCount = Some 1,
       cp_Archived = False, cp_Pinned = False, cp_MutedUntil = 0, cp_Participants = [],
       cp_Messages = [message_payload.extend (demo_payload\<lparr>mp_WAMessageID := ''M2''\<rparr>) (history_message_payload.fields [] []),
                      message_payload.extend (demo_payload\<lparr>mp_WAMessageID := []\<rparr>) (history_message_payload.fields [] [])]\<rparr>],
     bp_Contacts = []\<rparr>"

definition demo_codec :: codec where
  "demo_codec = \<lparr>cd_message = (\<lambda>_. Inr demo_payload), cd_status = (\<lambda>s. Inr \<lparr>sp_MessageIDs = [''M1''], sp_Status = s\<rparr>),
     cd_auth = (\<lambda>s. Inr \<lparr>ap_JID = s, ap_LID = []\<rparr>), cd_session = (\<lambda>s. Inr s), cd_batch = (\<lambda>_. Inr demo_batch),
     cd_sync = (\<lambda>_. Inl (Plain ''no sync'')), cd_marshal = (\<lambda>s. Inr s), cd_history = (\<lambda>_. Inr ''raw'')\<rparr>"

definition demo_consumer :: "int \<Rightarrow> consumer" where
  "demo_consumer now = \<lparr>co_codec = demo_codec, co_clock = now, co_messageID = ''m1'',
     co_history = \<lparr>he_mids = (\<lambda>n. CHR ''h'' # replicate n (CHR ''h'')), he_iter = (\<lambda>xs. xs)\<rparr>, co_retentionDays = 0\<rparr>"

definition demo_committed :: "string \<Rightarrow> string \<Rightarrow> committed_event" where
  "demo_committed type text = \<lparr>ce_ID = ''e1'', ce_Type = type, ce_Session = ''s1'', ce_Timestamp = 5, ce_Payload = text\<rparr>"

definition demo_session :: "string \<Rightarrow> wa_session_row" where
  "demo_session sid = \<lparr>wr_ID = sid, wr_Status = StatusWorking, wr_WaJID = None, wr_WaLID = None, wr_PhoneNumber = None,
     wr_DataAccountJID = Some ''61@s.whatsapp.net'', wr_AccountChangedAt = None, wr_UpdatedAt = 0\<rparr>"

definition demo_wa :: wa_db where
  "demo_wa = \<lparr>db_messages = [(message_insert (demo_consumer 1) (demo_committed ''message'' ''p'') demo_payload)\<lparr>mg_ID := ''m0'', mg_SessionID := ''s2''\<rparr>],
     db_chats = [], db_identities = [], db_groups = [], db_members = [], db_polls = [], db_votes = [],
     db_sessions = [demo_session ''s1'', demo_session ''s2''], db_runs = [], db_batches = []\<rparr>"

definition demo_calls :: "(consumer \<times> committed_event \<times> fate list) list" where
  "demo_calls = [(demo_consumer 2, demo_committed ''message'' ''p'', [Works, Lost (Plain ''gone'')]),
     (demo_consumer 3, demo_committed ''message'' ''p'', []), (demo_consumer 4, demo_committed ''history.batch'' ''b'', []),
     (demo_consumer 5, demo_committed ''history.batch'' ''b'', [])]"

section \<open>Message rows only advance\<close>

definition advances :: "message_row \<Rightarrow> message_row \<Rightarrow> bool" where
  "advances r r' \<longleftrightarrow> mg_ID r' = mg_ID r \<and> message_key r' = message_key r \<and> mg_FromMe r' = mg_FromMe r \<and> mg_Direction r' = mg_Direction r \<and>
     mg_Type r' = mg_Type r \<and> mg_Timestamp r' = mg_Timestamp r \<and> mg_CreatedAt r' = mg_CreatedAt r \<and> mg_Origin r' = mg_Origin r \<and>
     mg_Error r' = mg_Error r \<and> mg_AckLevel r' = mg_AckLevel r \<and>
     (mg_Deleted r \<longrightarrow> mg_Deleted r') \<and> (mg_Edited r \<longrightarrow> mg_Edited r') \<and>
     status_field (mg_Status r) \<le> status_field (mg_Status r') \<and> (mg_Status r = Some MessageFailed \<longleftrightarrow> mg_Status r' = Some MessageFailed)"

definition only_advances :: "wa_db \<Rightarrow> wa_db \<Rightarrow> bool" where
  "only_advances db db' \<longleftrightarrow> (\<forall>r\<in>set (db_messages db). \<exists>r'\<in>set (db_messages db'). advances r r')"

lemma advances_refl: "advances r r"
  by (simp add: advances_def)

lemma advances_trans: "advances a b \<Longrightarrow> advances b c \<Longrightarrow> advances a c"
  by (auto simp: advances_def)

lemma advance_status_cases:
  obtains (same) "advance_status next s = s" | (up) t where "advance_status next s = Some t" "s \<noteq> Some MessageFailed" "t \<noteq> MessageFailed"
    "status_field s < status_field (Some t)" "message_status_of next = Some t" "receiptStatusRank next = status_field (Some t)"
proof (cases "s \<noteq> Some MessageFailed \<and> status_field s < receiptStatusRank next")
  case True
  then have "status_field s \<ge> 1" by (auto simp: status_field_def split: option.splits message_status.splits)
  with True have "receiptStatusRank next \<ge> 2" by simp
  then obtain t where t: "message_status_of next = Some t" "t \<noteq> MessageFailed" "receiptStatusRank next = status_field (Some t)"
    by (auto simp: receiptStatusRank_def status_field_def split: option.splits message_status.splits)
  show ?thesis by (rule up[of t]) (use True t in \<open>simp_all add: advance_status_def\<close>)
next
  case False
  then show ?thesis by (intro same) (auto simp: advance_status_def)
qed

lemma advance_status_field: "status_field s \<le> status_field (advance_status next s)"
  by (cases rule: advance_status_cases[of "next" s]) simp_all

lemma advance_status_failed: "advance_status next s = Some MessageFailed \<longleftrightarrow> s = Some MessageFailed"
  by (cases rule: advance_status_cases[of "next" s]) simp_all

lemma advances_updates:
  "advances r (advance_row status None r)" "advances r (content_of m r)" "advances r (r\<lparr>mg_ChatJID := j\<rparr>)"
  "advances r (r\<lparr>mg_Edited := True, mg_Body := b\<rparr>)" "advances r (r\<lparr>mg_Body := b, mg_Edited := True\<rparr>)" "advances r (r\<lparr>mg_Deleted := True\<rparr>)"
  by (simp_all add: advances_def advance_row_def advance_ack_def content_of_def message_key_def advance_status_field advance_status_failed)

lemma only_advances_same: "db_messages db' = db_messages db \<Longrightarrow> only_advances db db'"
  unfolding only_advances_def using advances_refl by auto

lemma only_advances_upd: "(\<And>r. advances r (g r)) \<Longrightarrow> only_advances db (db\<lparr>db_messages := upd_rows P g (db_messages db)\<rparr>)"
  unfolding only_advances_def using upd_rows_keeps_rows[where S = advances and P = P and g = g] advances_refl by simp

lemma only_advances_upsert:
  assumes "\<And>r. advances r (merge m r)"
  shows "only_advances db (db\<lparr>db_messages := upsert_message merge m (db_messages db)\<rparr>)"
proof (cases "\<exists>r\<in>set (db_messages db). mg_ID r = mg_ID m")
  case True
  then show ?thesis using only_advances_upd[OF assms] by (simp add: upsert_message_def)
next
  case False
  then show ?thesis using upsert_keeps_rows[where S = advances and key = message_key and merge = merge, OF _ assms advances_refl]
    by (auto simp: upsert_message_def only_advances_def)
qed

interpretation adv: projection_relation only_advances sid "\<lambda>_. True" for sid
proof (unfold_locales, goal_cases)
  case (2 a b c)
  then show ?case unfolding only_advances_def using advances_trans by blast
qed (auto intro!: only_advances_same only_advances_upd only_advances_upsert advances_updates advances_refl
      simp: statement_defs dest!: statement_ok)

text \<open>A run of the consumer over any calls: what each call keeps, the run keeps.\<close>

lemma consume_all_keeps:
  assumes "table_relation R" "\<And>c ev fs. (c, ev, fs) \<in> set calls \<Longrightarrow> keeps R (ConsumeCommittedEvent c ev)"
  shows "R db (consume_all calls db)"
  using assms(2)
proof (induction calls arbitrary: db)
  case Nil
  then show ?case using table_relation.R_refl[OF assms(1)] by simp
next
  case (Cons x calls)
  obtain c ev fs where x: "x = (c, ev, fs)" by (cases x) auto
  let ?d = "fst (snd (ConsumeCommittedEvent c ev (db, fs)))"
  have "R db ?d" using Cons.prems[of c ev fs] x unfolding keeps_def by simp
  moreover have "R ?d (consume_all calls ?d)" by (rule Cons.IH) (rule Cons.prems, rule list.set_intros(2))
  ultimately have "R db (consume_all calls ?d)" by (rule table_relation.R_trans[OF assms(1)])
  then show ?case unfolding x by simp
qed


section \<open>Other sessions\<close>

text \<open>The rows of the sessions other than \<open>sid\<close>. Only the JID of a direct chat may differ: an
  identity is global, and learning the phone number of a LID renames its chats everywhere.\<close>

definition unplaced_message :: "message_row \<Rightarrow> message_row" where
  "unplaced_message r = r\<lparr>mg_ChatJID := []\<rparr>"

definition unplaced_poll :: "poll_row \<Rightarrow> poll_row" where
  "unplaced_poll p = p\<lparr>po_ChatJID := []\<rparr>"

record other_rows =
  or_messages :: "message_row list"
  or_polls :: "poll_row list"
  or_votes :: "vote_row list"
  or_members :: "member_row list"
  or_sessions :: "wa_session_row list"
  or_runs :: "run_row list"
  or_batches :: "batch_row list"

definition others :: "string \<Rightarrow> wa_db \<Rightarrow> other_rows" where
  "others sid db =
     \<lparr>or_messages = map unplaced_message (filter (\<lambda>r. mg_SessionID r \<noteq> sid) (db_messages db)),
      or_polls = map unplaced_poll (filter (\<lambda>p. po_SessionID p \<noteq> sid) (db_polls db)),
      or_votes = filter (\<lambda>v. vo_SessionID v \<noteq> sid) (db_votes db),
      or_members = filter (\<lambda>m. gm_SessionID m \<noteq> sid) (db_members db),
      or_sessions = filter (\<lambda>r. wr_ID r \<noteq> sid) (db_sessions db),
      or_runs = filter (\<lambda>r. hr_SessionID r \<noteq> sid) (db_runs db),
      or_batches = filter (\<lambda>x. hb_SessionID x \<noteq> sid) (db_batches db)\<rparr>"

text \<open>The ids in \<open>F\<close> belong to \<open>sid\<close>: a new row never takes the id of another session's row.\<close>

definition own_ids :: "string \<Rightarrow> (string \<Rightarrow> bool) \<Rightarrow> wa_db \<Rightarrow> bool" where
  "own_ids sid F db \<longleftrightarrow> (\<forall>r\<in>set (db_messages db). F (mg_ID r) \<longrightarrow> mg_SessionID r = sid)"

definition isolated :: "string \<Rightarrow> (string \<Rightarrow> bool) \<Rightarrow> wa_db \<Rightarrow> wa_db \<Rightarrow> bool" where
  "isolated sid F db db' \<longleftrightarrow> (own_ids sid F db \<longrightarrow> own_ids sid F db' \<and> others sid db' = others sid db)"

lemma filter_upd_rows_other:
  assumes "\<And>r. r \<in> set rows \<Longrightarrow> P r \<Longrightarrow> \<not> Q r \<and> \<not> Q (g r)"
  shows "filter Q (upd_rows P g rows) = filter Q rows"
  using assms by (induction rows) auto

lemma map_filter_upd_rows:
  assumes "\<And>r. Q (g r) = Q r" "\<And>r. h (g r) = h r"
  shows "map h (filter Q (upd_rows P g rows)) = map h (filter Q rows)"
  using assms by (induction rows) auto

lemma isolated_same:
  "db_messages db' = db_messages db \<Longrightarrow> others sid db' = others sid db \<Longrightarrow> isolated sid F db db'"
  by (simp add: isolated_def own_ids_def)

lemma isolated_messages:
  assumes "\<And>r. mg_ID (g r) = mg_ID r" "\<And>r. mg_SessionID (g r) = mg_SessionID r" "\<And>r. P r \<Longrightarrow> mg_SessionID r = sid"
  shows "isolated sid F db (db\<lparr>db_messages := upd_rows P g (db_messages db)\<rparr>)"
proof -
  have "filter (\<lambda>r. mg_SessionID r \<noteq> sid) (upd_rows P g (db_messages db)) = filter (\<lambda>r. mg_SessionID r \<noteq> sid) (db_messages db)"
    by (rule filter_upd_rows_other) (use assms in simp)
  moreover have "own_ids sid F (db\<lparr>db_messages := upd_rows P g (db_messages db)\<rparr>)" if "own_ids sid F db"
    using that assms by (auto simp: own_ids_def elim!: in_upd_rowsE)
  ultimately show ?thesis by (simp add: isolated_def others_def)
qed

lemma isolated_upsert:
  assumes "mg_SessionID m = sid" "F (mg_ID m)" "\<And>r. mg_ID (merge m r) = mg_ID r" "\<And>r. message_key (merge m r) = message_key r"
  shows "isolated sid F db (db\<lparr>db_messages := upsert_message merge m (db_messages db)\<rparr>)"
proof -
  let ?rows = "db_messages db" and ?Q = "\<lambda>r. mg_SessionID r \<noteq> sid"
  have sess: "mg_SessionID (merge m r) = mg_SessionID r" for r using assms(4)[of r] by (simp add: message_key_def)
  have "filter ?Q (upsert_message merge m ?rows) = filter ?Q ?rows" if own: "own_ids sid F db"
  proof (cases "\<exists>r\<in>set ?rows. mg_ID r = mg_ID m")
    case True
    have "filter ?Q (upd_rows (\<lambda>r. mg_ID r = mg_ID m) (merge m) ?rows) = filter ?Q ?rows"
      by (rule filter_upd_rows_other) (use own assms(2) sess in \<open>auto simp: own_ids_def\<close>)
    with True show ?thesis by (simp add: upsert_message_def)
  next
    case False
    have "filter ?Q (upsert message_key merge m ?rows) = filter ?Q ?rows"
      by (rule upsert_filter) (use assms(1) sess in \<open>auto simp: message_key_def\<close>)
    with False show ?thesis by (simp add: upsert_message_def)
  qed
  moreover have "own_ids sid F (db\<lparr>db_messages := upsert_message merge m ?rows\<rparr>)" if "own_ids sid F db"
    using that assms sess by (auto simp: own_ids_def upsert_message_def upsert_def elim!: in_upd_rowsE split: if_splits)
  ultimately show ?thesis by (simp add: isolated_def others_def)
qed

lemma isolated_moved:
  "isolated sid F db (move_messages S lid phone db)" "isolated sid F db (move_polls S lid phone db)"
proof -
  have "map unplaced_message (filter (\<lambda>r. mg_SessionID r \<noteq> sid) (db_messages (move_messages S lid phone db)))
      = map unplaced_message (filter (\<lambda>r. mg_SessionID r \<noteq> sid) (db_messages db))"
    unfolding move_messages_def by (simp, rule map_filter_upd_rows) (simp_all add: unplaced_message_def)
  moreover have "own_ids sid F (move_messages S lid phone db)" if "own_ids sid F db"
    using that by (auto simp: own_ids_def move_messages_def elim!: in_upd_rowsE)
  ultimately show "isolated sid F db (move_messages S lid phone db)" by (simp add: isolated_def others_def move_messages_def)
  have "map unplaced_poll (filter (\<lambda>p. po_SessionID p \<noteq> sid) (db_polls (move_polls S lid phone db)))
      = map unplaced_poll (filter (\<lambda>p. po_SessionID p \<noteq> sid) (db_polls db))"
    unfolding move_polls_def by (simp, rule map_filter_upd_rows) (simp_all add: unplaced_poll_def)
  then show "isolated sid F db (move_polls S lid phone db)" by (intro isolated_same) (simp_all add: others_def move_polls_def)
qed

lemma others_chats [simp]: "others sid (db\<lparr>db_chats := x\<rparr>) = others sid db" "others sid (db\<lparr>db_identities := y\<rparr>) = others sid db"
  "others sid (db\<lparr>db_groups := z\<rparr>) = others sid db"
  by (simp_all add: others_def)

lemma isolated_polls:
  assumes "po_SessionID p = sid" "\<And>r. poll_key (merge p r) = poll_key r"
  shows "isolated sid F db (db\<lparr>db_polls := upsert poll_key merge p (db_polls db)\<rparr>)"
proof -
  have s: "po_SessionID (merge p r) = po_SessionID r" for r using assms(2)[of r] by (simp add: poll_key_def)
  have "filter (\<lambda>r. po_SessionID r \<noteq> sid) (upsert poll_key merge p (db_polls db)) = filter (\<lambda>r. po_SessionID r \<noteq> sid) (db_polls db)"
    by (rule upsert_filter) (use assms(1) s in \<open>auto simp: poll_key_def\<close>)
  then show ?thesis by (intro isolated_same) (simp_all add: others_def)
qed

interpretation iso: projection_relation "isolated sid F" sid F for sid F
proof (unfold_locales, goal_cases)
  case (2 a b c)
  then show ?case by (auto simp: isolated_def)
next
  case 11
  show ?case by (rule isolated_moved)
next
  case 12
  show ?case by (rule isolated_moved)
next
  case 13
  then show ?case by (intro isolated_upsert) (simp_all add: content_of_def message_key_def)
next
  case 14
  then show ?case by (intro isolated_upsert) simp_all
next
  case 15
  show ?case by (rule isolated_messages) (auto simp: message_key_def advance_row_def)
next
  case 16
  show ?case by (rule isolated_messages) (auto simp: message_key_def)
next
  case 17
  show ?case by (rule isolated_messages) (auto simp: message_key_def)
next
  case 18
  show ?case by (rule isolated_messages) (auto simp: message_key_def)
next
  case 25
  then show ?case by (intro isolated_polls) (simp_all add: refresh_poll_def poll_key_def)
next
  case 26
  then show ?case by (intro isolated_polls) simp_all
qed (auto dest!: statement_ok intro!: isolated_same filter_upd_rows_other upsert_filter
   simp: others_def statement_defs member_key_def vote_key_def
     run_key_def refresh_member_def new_run_def mirror_run_def attach_row_def Let_def)



section \<open>Unique keys\<close>

text \<open>\<open>uq_sessions_jid\<close>: sessions with the same JID are one session.\<close>

definition jids_apart :: "wa_session_row list \<Rightarrow> bool" where
  "jids_apart rows \<longleftrightarrow> (\<forall>r\<in>set rows. \<forall>r'\<in>set rows. wr_WaJID r \<noteq> None \<and> wr_WaJID r = wr_WaJID r' \<longrightarrow> wr_ID r = wr_ID r')"

definition wa_wf :: "wa_db \<Rightarrow> bool" where
  "wa_wf db \<longleftrightarrow> distinct (map mg_ID (db_messages db)) \<and> distinct (map message_key (db_messages db)) \<and> distinct (map chat_key (db_chats db)) \<and>
     distinct (map il_LID (db_identities db)) \<and> distinct (map gr_GroupJID (db_groups db)) \<and> distinct (map member_key (db_members db)) \<and>
     distinct (map poll_key (db_polls db)) \<and> distinct (map vote_key (db_votes db)) \<and> distinct (map wr_ID (db_sessions db)) \<and>
     distinct (map run_key (db_runs db)) \<and> distinct (map hb_EventID (db_batches db)) \<and>
     jids_apart (db_sessions db)"

definition keeps_wf :: "wa_db \<Rightarrow> wa_db \<Rightarrow> bool" where
  "keeps_wf db db' \<longleftrightarrow> (wa_wf db \<longrightarrow> wa_wf db')"

text \<open>A rename that meets no row under the new JID keeps the keys of the chats apart.\<close>

lemma rename_distinct:
  assumes d: "distinct (map chat_key cs)" and P: "\<And>a. P a \<Longrightarrow> ct_ChatJID a = phone"
    and free: "\<And>a. a \<in> set cs \<Longrightarrow> P a \<Longrightarrow> ct_ChatJID a \<noteq> lid \<Longrightarrow> \<not> has_chat (ct_SessionID a) lid cs"
  shows "distinct (map chat_key (upd_rows P (\<lambda>a. a\<lparr>ct_ChatJID := lid\<rparr>) cs))"
proof (cases "phone = lid")
  case True
  have "upd_rows P (\<lambda>a. a\<lparr>ct_ChatJID := lid\<rparr>) cs = cs" using P True by (induction cs) auto
  then show ?thesis using d by simp
next
  case False
  have inj: "inj_on chat_key (set cs)" and dc: "distinct cs" using d by (simp_all add: distinct_map)
  let ?g = "\<lambda>r. chat_key (if P r then r\<lparr>ct_ChatJID := lid\<rparr> else r)"
  have "inj_on ?g (set cs)"
  proof (rule inj_onI)
    fix a b assume ab: "a \<in> set cs" "b \<in> set cs" "?g a = ?g b"
    have clash: False if "x \<in> set cs" "y \<in> set cs" "P x" "\<not> P y" "?g x = ?g y" for x y
      using that free[OF that(1,3)] P[OF that(3)] False by (auto simp: chat_key_def has_chat_def)
    show "a = b"
    proof (cases "P a = P b")
      case True
      then have "chat_key a = chat_key b" using ab(3) P by (auto simp: chat_key_def split: if_splits)
      then show ?thesis using inj ab by (simp add: inj_on_def)
    next
      case False
      then show ?thesis using clash[of a b] clash[of b a] ab by auto
    qed
  qed
  then have "distinct (map ?g cs)" using dc by (simp add: distinct_map)
  then show ?thesis by (simp add: upd_rows_def comp_def)
qed

lemma message_upsert_distinct:
  assumes "\<And>r. mg_ID (merge m r) = mg_ID r" "\<And>r. message_key (merge m r) = message_key r"
    "distinct (map mg_ID rows)" "distinct (map message_key rows)"
  shows "distinct (map mg_ID (upsert_message merge m rows))" "distinct (map message_key (upsert_message merge m rows))"
  using assms(3,4) assms(1,2) by (auto simp: upsert_message_def upsert_def map_upd_rows)

lemma wf_messages:
  assumes "\<And>r. mg_ID (g r) = mg_ID r" "\<And>r. message_key (g r) = message_key r"
  shows "keeps_wf db (db\<lparr>db_messages := upd_rows P g (db_messages db)\<rparr>)"
  using assms by (simp add: keeps_wf_def wa_wf_def map_upd_rows)

lemma wf_message_upsert:
  assumes "\<And>r. mg_ID (merge m r) = mg_ID r" "\<And>r. message_key (merge m r) = message_key r"
  shows "keeps_wf db (db\<lparr>db_messages := upsert_message merge m (db_messages db)\<rparr>)"
  using message_upsert_distinct[of merge m "db_messages db", OF assms] by (simp add: keeps_wf_def wa_wf_def)

lemma wf_chats: "distinct (map chat_key cs) \<or> \<not> distinct (map chat_key (db_chats db)) \<Longrightarrow> keeps_wf db (db\<lparr>db_chats := cs\<rparr>)"
  by (auto simp: keeps_wf_def wa_wf_def)

lemma wf_chat_updates:
  "(\<And>r. P r \<Longrightarrow> chat_key (g r) = chat_key r) \<Longrightarrow> keeps_wf db (db\<lparr>db_chats := upd_rows P g (db_chats db)\<rparr>)"
  by (rule wf_chats) (simp add: map_upd_rows)

lemma fold_alias_key: "chat_key (fold_alias phone cs c) = chat_key c"
  by (simp add: fold_alias_def merged_chat_def chat_key_def split: option.splits)

lemma wf_rename:
  assumes "rename_chats P lid db = Inr (db', u)" "\<And>a. P a \<Longrightarrow> ct_ChatJID a = phone"
  shows "keeps_wf db db'"
proof -
  have "distinct (map chat_key (db_chats db)) \<Longrightarrow> distinct (map chat_key (upd_rows P (\<lambda>a. a\<lparr>ct_ChatJID := lid\<rparr>) (db_chats db)))"
    by (rule rename_distinct[of _ _ phone]) (use assms in \<open>auto simp: rename_chats_def split: if_splits\<close>)
  then show ?thesis unfolding rename_chats_ok[OF assms(1)] by (intro wf_chats) blast
qed

lemma wf_session:
  assumes "update_session sid g db = Inr (db', n)" "\<And>r. wr_ID (g r) = wr_ID r"
  shows "keeps_wf db db'"
proof -
  let ?rows = "upd_rows (\<lambda>r. wr_ID r = sid) g (db_sessions db)"
  have "\<not> (\<exists>r\<in>set ?rows. \<exists>r'\<in>set ?rows. wr_ID r = sid \<and> wr_ID r' \<noteq> sid \<and> wr_WaJID r \<noteq> None \<and> wr_WaJID r' = wr_WaJID r)"
    by (rule notI) (use assms(1) in \<open>simp only: update_session_def Let_def if_True sum.distinct\<close>)
  then have apart: "r \<in> set ?rows \<Longrightarrow> r' \<in> set ?rows \<Longrightarrow> wr_ID r = sid \<Longrightarrow> wr_ID r' \<noteq> sid \<Longrightarrow> wr_WaJID r \<noteq> None \<Longrightarrow> wr_WaJID r' \<noteq> wr_WaJID r" for r r'
    by blast
  have ids: "map wr_ID ?rows = map wr_ID (db_sessions db)" by (rule map_upd_rows) (simp add: assms(2))
  have old: "r \<in> set (db_sessions db)" if "r \<in> set ?rows" "wr_ID r \<noteq> sid" for r
    using that assms(2) by (auto elim!: in_upd_rowsE)
  have "wr_ID r = wr_ID r'" if wf: "wa_wf db" and r: "r \<in> set ?rows" "r' \<in> set ?rows" "wr_WaJID r \<noteq> None" "wr_WaJID r = wr_WaJID r'" for r r'
  proof (cases "wr_ID r = sid"; cases "wr_ID r' = sid")
    assume "wr_ID r \<noteq> sid" "wr_ID r' \<noteq> sid"
    then show ?thesis using wf old[OF r(1)] old[OF r(2)] r(3,4) unfolding wa_wf_def jids_apart_def by blast
  qed (use apart[of r r'] apart[of r' r] r in auto)
  then have "wa_wf db \<Longrightarrow> jids_apart ?rows" unfolding jids_apart_def by blast
  then show ?thesis unfolding update_session_ok[OF assms(1)] keeps_wf_def using ids by (simp add: wa_wf_def)
qed

interpretation wfr: projection_relation keeps_wf sid "\<lambda>_. True" for sid
proof (unfold_locales, goal_cases)
  case 1
  show ?case by (simp add: keeps_wf_def)
next
  case (2 a b c)
  then show ?case by (simp add: keeps_wf_def)
next
  case 5
  show ?case unfolding MergeExistingDMChatAliases_def by (rule wf_chat_updates) (rule fold_alias_key)
next
  case 6
  show ?case unfolding DeleteMergedDMChatAliases_def by (rule wf_chats) (use distinct_map_filter in blast)
next
  case (7 phone lid db db' u')
  then show ?case by (rule wf_rename) simp
next
  case 8
  show ?case unfolding MergeSessionDMChatAlias_def by (rule wf_chat_updates) (rule fold_alias_key)
next
  case 9
  show ?case unfolding DeleteSessionDMChatAlias_def by (rule wf_chats) (use distinct_map_filter in blast)
next
  case (10 phone lid db db' u')
  then show ?case by (rule wf_rename) simp
next
  case 11
  show ?case unfolding move_messages_def by (rule wf_messages) (simp_all add: message_key_def)
next
  case 13
  show ?case by (rule wf_message_upsert) (simp_all add: content_of_def message_key_def)
next
  case 14
  show ?case by (rule wf_message_upsert) simp_all
next
  case 15
  show ?case by (rule wf_messages) (simp_all add: advance_row_def message_key_def)
next
  case 16
  show ?case by (rule wf_messages) (simp_all add: message_key_def)
next
  case 17
  show ?case by (rule wf_messages) (simp_all add: message_key_def)
next
  case 18
  show ?case by (rule wf_messages) (simp_all add: message_key_def)
next
  case (28 inp db db' n')
  then show ?case by (rule wf_session) (simp add: attach_row_def Let_def)
next
  case (29 t' db db' n')
  then show ?case by (rule wf_session) simp
next
  case (30 st t' db db' n')
  then show ?case by (rule wf_session) simp
qed (auto dest!: upsert_run_ok intro!: upsert_distinct simp: keeps_wf_def wa_wf_def statement_defs map_upd_rows refresh_chat_def fill_chat_def chat_key_def
   refresh_identity_def fill_identity_def fill_group_def refresh_member_def member_key_def refresh_poll_def poll_key_def run_key_def mirror_run_def)



section \<open>The counters of a history run\<close>

definition of_run :: "run_row \<Rightarrow> wa_db \<Rightarrow> batch_row list" where
  "of_run r db = filter (\<lambda>x. (hb_SessionID x, hb_RunID x) = run_key r) (db_batches db)"

text \<open>Every run counts exactly the batches in the ledger that name it.\<close>

definition runs_counted :: "wa_db \<Rightarrow> bool" where
  "runs_counted db \<longleftrightarrow> distinct (map run_key (db_runs db)) \<and> distinct (map hb_EventID (db_batches db)) \<and>
     (\<forall>x\<in>set (db_batches db). \<exists>r\<in>set (db_runs db). run_key r = (hb_SessionID x, hb_RunID x)) \<and>
     (\<forall>r\<in>set (db_runs db). hr_BatchesApplied r = length (of_run r db) \<and>
        hr_MessagesImported r = sum_list (map hb_MessagesImported (of_run r db)) \<and>
        hr_MessagesExisting r = sum_list (map hb_MessagesExisting (of_run r db)) \<and>
        hr_MessagesDropped r = sum_list (map hb_MessagesDropped (of_run r db)))"

definition keeps_counts :: "wa_db \<Rightarrow> wa_db \<Rightarrow> bool" where
  "keeps_counts db db' \<longleftrightarrow> (runs_counted db \<longrightarrow> runs_counted db')"

lemma counts_same:
  assumes "db_runs db' = db_runs db" "db_batches db' = db_batches db"
  shows "keeps_counts db db'"
proof -
  have "of_run r db' = of_run r db" for r by (simp add: of_run_def assms(2))
  then show ?thesis by (simp add: keeps_counts_def runs_counted_def assms)
qed

text \<open>A new run starts with no batch in the ledger, and an existing one keeps its counters.\<close>

lemma counts_run:
  assumes "upsert_run merge row db = Inr (db', u)"
    and row: "hr_BatchesApplied row = 0" "hr_MessagesImported row = 0" "hr_MessagesExisting row = 0" "hr_MessagesDropped row = 0"
    and merge: "\<And>r. run_key (merge row r) = run_key r" "\<And>r. hr_BatchesApplied (merge row r) = hr_BatchesApplied r"
      "\<And>r. hr_MessagesImported (merge row r) = hr_MessagesImported r" "\<And>r. hr_MessagesExisting (merge row r) = hr_MessagesExisting r"
      "\<And>r. hr_MessagesDropped (merge row r) = hr_MessagesDropped r"
  shows "keeps_counts db db'"
  unfolding keeps_counts_def
proof
  assume c: "runs_counted db"
  have db': "db' = db\<lparr>db_runs := upsert run_key merge row (db_runs db)\<rparr>" by (rule upsert_run_ok[OF assms(1)])
  have of: "of_run r db' = of_run r db" for r by (simp add: of_run_def db')
  have ofm: "of_run (merge row r) db = of_run r db" for r by (simp add: of_run_def merge(1))
  have none: "of_run row db = []" if "\<forall>r\<in>set (db_runs db). run_key r \<noteq> run_key row"
    using c that unfolding runs_counted_def of_run_def by (metis (mono_tags, lifting) filter_False)
  have d: "distinct (map run_key (db_runs db'))" unfolding db' using c
    by (simp, intro upsert_distinct) (simp_all add: merge(1) runs_counted_def)
  have "\<exists>r'\<in>set (db_runs db'). run_key r' = k" if "r \<in> set (db_runs db)" "run_key r = k" for r k
    using upsert_keeps_rows[of r "db_runs db" run_key row "\<lambda>x y. run_key y = run_key x" merge] that merge(1) by (auto simp: db')
  then have cov: "\<forall>x\<in>set (db_batches db'). \<exists>r\<in>set (db_runs db'). run_key r = (hb_SessionID x, hb_RunID x)"
    using c by (simp add: runs_counted_def db') metis
  have "hr_BatchesApplied r = length (of_run r db') \<and> hr_MessagesImported r = sum_list (map hb_MessagesImported (of_run r db')) \<and>
      hr_MessagesExisting r = sum_list (map hb_MessagesExisting (of_run r db')) \<and>
      hr_MessagesDropped r = sum_list (map hb_MessagesDropped (of_run r db'))" if r: "r \<in> set (db_runs db')" for r
  proof (cases "\<exists>x\<in>set (db_runs db). run_key x = run_key row")
    case True
    then have "r \<in> set (upd_rows (\<lambda>x. run_key x = run_key row) (merge row) (db_runs db))" using r by (simp add: db' upsert_def)
    then show ?thesis
      by (cases rule: in_upd_rowsE) (use c in \<open>auto simp: runs_counted_def of ofm merge\<close>)
  next
    case False
    then have "r \<in> set (db_runs db) \<or> r = row" using r by (auto simp: db' upsert_def)
    then show ?thesis using c none False row by (auto simp: runs_counted_def of)
  qed
  with d cov c show "runs_counted db'" unfolding runs_counted_def by (simp add: db')
qed

lemma counts_batch:
  assumes "\<exists>r\<in>set (db_runs db). run_key r = (hb_SessionID x, hb_RunID x)" "\<forall>y\<in>set (db_batches db). hb_EventID y \<noteq> hb_EventID x"
  shows "keeps_counts db (count_batch x (db\<lparr>db_batches := db_batches db @ [x]\<rparr>))"
  unfolding keeps_counts_def
proof
  assume c: "runs_counted db"
  let ?db' = "count_batch x (db\<lparr>db_batches := db_batches db @ [x]\<rparr>)"
  let ?P = "\<lambda>r. run_key r = (hb_SessionID x, hb_RunID x)"
  have runs: "map run_key (db_runs ?db') = map run_key (db_runs db)"
    unfolding count_batch_def by (simp, rule map_upd_rows) (simp add: run_key_def)
  then have keys: "run_key ` set (db_runs ?db') = run_key ` set (db_runs db)" by (metis set_map)
  have of: "of_run r ?db' = of_run r db @ (if ?P r then [x] else [])" for r
    by (auto simp: of_run_def count_batch_def)
  have "hr_BatchesApplied r = length (of_run r ?db') \<and> hr_MessagesImported r = sum_list (map hb_MessagesImported (of_run r ?db')) \<and>
      hr_MessagesExisting r = sum_list (map hb_MessagesExisting (of_run r ?db')) \<and>
      hr_MessagesDropped r = sum_list (map hb_MessagesDropped (of_run r ?db'))" if "r \<in> set (db_runs ?db')" for r
  proof -
    let ?g = "\<lambda>r. r\<lparr>hr_BatchesApplied := hr_BatchesApplied r + 1, hr_MessagesImported := hr_MessagesImported r + hb_MessagesImported x,
           hr_MessagesExisting := hr_MessagesExisting r + hb_MessagesExisting x, hr_MessagesDropped := hr_MessagesDropped r + hb_MessagesDropped x,
           hr_UpdatedAt := max (hr_UpdatedAt r) (hb_AppliedAt x)\<rparr>"
    have g: "run_key (?g q) = run_key q" "of_run (?g q) db = of_run q db" for q by (simp_all add: run_key_def of_run_def)
    from that have "r \<in> set (upd_rows ?P ?g (db_runs db))" by (simp add: count_batch_def)
    then consider (hit) q where "q \<in> set (db_runs db)" "?P q" "r = ?g q" | (miss) "r \<in> set (db_runs db)" "\<not> ?P r"
      by (rule in_upd_rowsE)
    then show ?thesis
    proof cases
      case hit
      then show ?thesis unfolding of hit(3) g using c by (simp add: runs_counted_def)
    next
      case miss
      then show ?thesis unfolding of using c by (simp add: runs_counted_def)
    qed
  qed
  moreover have "\<exists>r\<in>set (db_runs ?db'). run_key r = (hb_SessionID y, hb_RunID y)" if "y \<in> set (db_batches ?db')" for y
  proof -
    have "y \<in> set (db_batches db) \<or> y = x" using that by (auto simp: count_batch_def)
    then obtain r where "r \<in> set (db_runs db)" "run_key r = (hb_SessionID y, hb_RunID y)"
      using c assms(1) unfolding runs_counted_def by blast
    then have "(hb_SessionID y, hb_RunID y) \<in> run_key ` set (db_runs ?db')" unfolding keys by (metis image_eqI)
    then show ?thesis by (rule imageE) (erule bexI[rotated], rule sym)
  qed
  moreover have "distinct (map run_key (db_runs ?db'))" unfolding runs using c by (simp add: runs_counted_def)
  moreover have "distinct (map hb_EventID (db_batches ?db'))" using c assms(2) by (auto simp: runs_counted_def count_batch_def)
  ultimately show "runs_counted ?db'" unfolding runs_counted_def by blast
qed

interpretation cnt: projection_relation keeps_counts sid "\<lambda>_. True" for sid
proof (unfold_locales, goal_cases)
  case (2 a b c)
  then show ?case by (simp add: keeps_counts_def)
next
  case (31 run acc t' db db' u')
  then show ?case by (rule counts_run) (simp_all add: new_run_def run_key_def)
next
  case (32 row db db' u')
  show ?case by (rule counts_run[OF 32(6) 32(2-5)]) (simp_all add: mirror_run_def run_key_def)
next
  case (33 x db)
  then show ?case by (intro counts_batch) simp_all
qed (auto intro!: counts_same simp: statement_defs dest!: rename_chats_ok update_session_ok)

text \<open>Property C29. A redelivered \<open>history.batch\<close>, a transaction that fails anywhere and a commit whose answer is lost
  never count a batch twice or not at all: the counters of every run are the number of its batches in the ledger and
  the sums of what each of them imported, met again and dropped.\<close>

theorem run_counters_match_ledger:
  assumes "runs_counted db"
  shows "runs_counted (consume_all calls db)"
proof -
  have "keeps_counts db (consume_all calls db)"
    by (rule consume_all_keeps[OF cnt.table_relation_axioms]) (rule cnt.keeps_consume, simp_all)
  with assms show ?thesis by (simp add: keeps_counts_def)
qed

theorem run_counters_match_ledger_witness: "runs_counted demo_wa \<and> runs_counted (consume_all demo_calls demo_wa)"
proof -
  have "runs_counted demo_wa" by (simp add: runs_counted_def demo_wa_def)
  then show ?thesis using run_counters_match_ledger by blast
qed

end
