(* ===== verification/Receipts.thy ===== *)
theory Receipts
  imports Projections
begin

text \<open>
  Delivery receipts (\<open>message.status\<close> events). WhatsApp repeats and reorders them and a failed
  call is redelivered; the theory shows that only the set of receipts matters, and what becomes of
  edits and revocations of messages that are not stored.
\<close>

section \<open>One receipt\<close>

type_synonym receipt = "string \<times> string \<times> string"

definition receive :: "receipt \<Rightarrow> wa_db \<Rightarrow> wa_db" where
  "receive x db = (case x of (session, waID, status) \<Rightarrow>
     db\<lparr>db_messages := upd_rows (\<lambda>m. message_key m = (session, waID)) (advance_row status None) (db_messages db)\<rparr>)"

lemma advance_status_idem: "advance_status a (advance_status a s) = advance_status a s"
  by (cases rule: advance_status_cases[of a s]) (simp_all add: advance_status_def)

lemma advance_status_commute: "advance_status a (advance_status b s) = advance_status b (advance_status a s)"
proof -
  have up: "advance_status a s = (if s = Some MessageFailed then s else if status_field s < receiptStatusRank a then message_status_of a else s)" for a s
    by (simp add: advance_status_def)
  show ?thesis
    unfolding up receiptStatusRank_def status_field_def
    by (cases "message_status_of a"; cases "message_status_of b"; cases s)
      (simp_all split: message_status.splits)
qed

lemma advance_row_idem: "advance_row a None (advance_row a None m) = advance_row a None m"
  by (simp add: advance_row_def advance_status_idem advance_ack_def)

lemma advance_row_commute: "advance_row a None (advance_row b None m) = advance_row b None (advance_row a None m)"
  by (simp add: advance_row_def advance_ack_def advance_status_commute[of a b])

lemma advance_row_key [simp]: "message_key (advance_row a x m) = message_key m"
  by (simp add: advance_row_def message_key_def)

lemma upd_rows_commute:
  assumes "\<And>r. P (h r) = P r" "\<And>r. Q (g r) = Q r" "\<And>r. g (h r) = h (g r)"
  shows "upd_rows P g (upd_rows Q h rows) = upd_rows Q h (upd_rows P g rows)"
  by (induction rows) (auto simp: assms)

lemma upd_rows_idem:
  assumes "\<And>r. P (g r) = P r" "\<And>r. g (g r) = g r"
  shows "upd_rows P g (upd_rows P g rows) = upd_rows P g rows"
  by (induction rows) (auto simp: assms)

text \<open>Receipts commute and repeat without effect, so a fold over them depends on their set only.\<close>

lemma receive_commute: "receive y (receive x db) = receive x (receive y db)"
proof -
  obtain s w a where x: "x = (s, w, a)" by (cases x) auto
  obtain t v b where y: "y = (t, v, b)" by (cases y) auto
  have "upd_rows (\<lambda>m. message_key m = (t, v)) (advance_row b None) (upd_rows (\<lambda>m. message_key m = (s, w)) (advance_row a None) rows) =
      upd_rows (\<lambda>m. message_key m = (s, w)) (advance_row a None) (upd_rows (\<lambda>m. message_key m = (t, v)) (advance_row b None) rows)" for rows
    by (rule upd_rows_commute) (simp_all add: advance_row_commute[of a b])
  then show ?thesis by (simp add: x y receive_def)
qed

lemma receive_twice: "receive x (receive x db) = receive x db"
  by (cases x) (simp add: receive_def upd_rows_idem advance_row_idem)

interpretation rcp: comp_fun_idem receive
  by unfold_locales (simp_all add: fun_eq_iff receive_twice receive_commute)

lemma receive_set: "set xs = set ys \<Longrightarrow> fold receive xs db = fold receive ys db"
  using rcp.fold_set_fold[of db xs] rcp.fold_set_fold[of db ys] by simp

section \<open>Receipt events\<close>

text \<open>The receipts an event carries; one that cannot be decoded carries none.\<close>

definition receipts_of :: "consumer \<Rightarrow> committed_event \<Rightarrow> receipt list" where
  "receipts_of c ev = (case cd_status (co_codec c) (ce_Payload ev) of Inl _ \<Rightarrow> []
     | Inr p \<Rightarrow> map (\<lambda>i. (ce_Session ev, i, sp_Status p)) (sp_MessageIDs p))"

lemma execS_write:
  obtains (applied) r fs' where "writeS g (db, fs) = (r, g db, fs')" | (refused) e fs' where "writeS g (db, fs) = (Inl e, db, fs')"
proof -
  have "writeS g (db, fs) = execS (\<lambda>db. Inr (g db, ())) (db, fs)" by (simp add: writeS_def)
  then show ?thesis using that by (cases "(\<lambda>db. Inr (g db, ()) :: (_ \<times> unit) result, db, fs)" rule: execS.cases) auto
qed

text \<open>A call applies some of the receipts of its event, and all of them when no statement fails.\<close>

lemma status_some:
  "\<exists>xs. set xs \<subseteq> (\<lambda>i. (s, i, status)) ` set ids \<and> fst (snd (UpdateMessageStatus s ids status (db, fs))) = fold receive xs db"
proof (induction ids arbitrary: db fs)
  case Nil
  show ?case by (rule exI[of _ "[]"]) (simp add: UpdateMessageStatus_def)
next
  case (Cons i ids)
  let ?g = "receive (s, i, status)"
  have step: "AdvanceReceiptStatus s i status None = wrapS ''store: advance receipt status'' (writeS ?g)"
    by (simp add: AdvanceReceiptStatus_def receive_def[abs_def])
  have unf: "UpdateMessageStatus s (i # ids) status (db, fs) =
      (case AdvanceReceiptStatus s i status None (db, fs) of (Inl e, x) \<Rightarrow> (Inl e, x) | (Inr _, x) \<Rightarrow> UpdateMessageStatus s ids status x)"
    by (simp add: UpdateMessageStatus_def bind_app split: prod.splits sum.splits)
  show ?case
  proof (cases rule: execS_write[of ?g db fs])
    case (applied r fs')
    obtain xs where xs: "set xs \<subseteq> (\<lambda>i. (s, i, status)) ` set ids" "fst (snd (UpdateMessageStatus s ids status (?g db, fs'))) = fold receive xs (?g db)"
      using Cons.IH by blast
    show ?thesis
    proof (cases r)
      case (Inl e)
      show ?thesis by (rule exI[of _ "[(s, i, status)]"]) (simp add: unf step wrap_app applied Inl)
    next
      case (Inr u)
      show ?thesis by (rule exI[of _ "(s, i, status) # xs"]) (use xs in \<open>auto simp: unf step wrap_app applied Inr\<close>)
    qed
  next
    case (refused e fs')
    show ?thesis by (rule exI[of _ "[]"]) (simp add: unf step wrap_app refused)
  qed
qed

lemma status_all: "fst (snd (UpdateMessageStatus s ids status (db, []))) = fold receive (map (\<lambda>i. (s, i, status)) ids) db"
  by (induction ids arbitrary: db)
    (simp_all add: UpdateMessageStatus_def AdvanceReceiptStatus_def bind_app wrap_app receive_def)

lemma consume_receipts:
  assumes "ce_Type ev = ''message.status''"
  shows "\<exists>xs. set xs \<subseteq> set (receipts_of c ev) \<and> fst (snd (ConsumeCommittedEvent c ev (db, fs))) = fold receive xs db"
    and "fst (snd (ConsumeCommittedEvent c ev (db, []))) = fold receive (receipts_of c ev) db"
proof -
  have e: "ConsumeCommittedEvent c ev = projectReceipt c ev" using assms by (simp add: ConsumeCommittedEvent_def)
  show "\<exists>xs. set xs \<subseteq> set (receipts_of c ev) \<and> fst (snd (ConsumeCommittedEvent c ev (db, fs))) = fold receive xs db"
  proof (cases "cd_status (co_codec c) (ce_Payload ev)")
    case (Inl x)
    show ?thesis by (rule exI[of _ "[]"]) (simp add: e projectReceipt_def decodeS_def Inl)
  next
    case (Inr p)
    show ?thesis using status_some[of "ce_Session ev" "sp_Status p" "sp_MessageIDs p" db fs]
      by (cases "sp_MessageIDs p") (auto simp: e projectReceipt_def decodeS_def Inr receipts_of_def whenS_def)
  qed
  show "fst (snd (ConsumeCommittedEvent c ev (db, []))) = fold receive (receipts_of c ev) db"
    by (cases "cd_status (co_codec c) (ce_Payload ev)")
      (auto simp: e projectReceipt_def decodeS_def receipts_of_def whenS_def status_all)
qed

definition all_receipts :: "(consumer \<times> committed_event \<times> fate list) list \<Rightarrow> receipt set" where
  "all_receipts calls = (\<Union>(c, ev, fs)\<in>set calls. set (receipts_of c ev))"

lemma run_receipts:
  assumes "\<forall>(c, ev, fs)\<in>set calls. ce_Type ev = ''message.status''"
  shows "\<exists>xs. set xs \<subseteq> all_receipts calls \<and> all_receipts (filter (\<lambda>(c, ev, fs). fs = []) calls) \<subseteq> set xs \<and> consume_all calls db = fold receive xs db"
  using assms
proof (induction calls arbitrary: db)
  case Nil
  show ?case by (rule exI[of _ "[]"]) (simp add: all_receipts_def)
next
  case (Cons x calls)
  obtain c ev fs where x: "x = (c, ev, fs)" by (cases x) auto
  have t: "ce_Type ev = ''message.status''" using Cons.prems x by simp
  obtain ys where ys: "set ys \<subseteq> set (receipts_of c ev)" "fst (snd (ConsumeCommittedEvent c ev (db, fs))) = fold receive ys db"
    "fs = [] \<Longrightarrow> ys = receipts_of c ev"
    using consume_receipts(1)[OF t, of c db fs] consume_receipts(2)[OF t, of c db] by (cases "fs = []") auto
  obtain zs where zs: "set zs \<subseteq> all_receipts calls" "all_receipts (filter (\<lambda>(c, ev, fs). fs = []) calls) \<subseteq> set zs"
    "consume_all calls (fold receive ys db) = fold receive zs (fold receive ys db)"
    using Cons.IH[of "fold receive ys db"] Cons.prems by auto
  show ?case
    by (rule exI[of _ "ys @ zs"]) (use x ys zs in \<open>auto simp: all_receipts_def\<close>)
qed

text \<open>Property C20. Delivery receipts may be repeated, reordered, spread over any number of calls and interrupted by failing
  statements: as long as every receipt was in one call that worked, the tables are those of any other such
  delivery of the same set of receipts.\<close>

theorem receipts_any_order:
  assumes "\<forall>(c, ev, fs)\<in>set xs. ce_Type ev = ''message.status''" "\<forall>(c, ev, fs)\<in>set ys. ce_Type ev = ''message.status''"
    and "all_receipts (filter (\<lambda>(c, ev, fs). fs = []) xs) = all_receipts xs"
    and "all_receipts (filter (\<lambda>(c, ev, fs). fs = []) ys) = all_receipts xs" "all_receipts ys = all_receipts xs"
  shows "consume_all xs db = consume_all ys db"
proof -
  obtain us where us: "set us \<subseteq> all_receipts xs" "all_receipts xs \<subseteq> set us" "consume_all xs db = fold receive us db"
    using run_receipts[OF assms(1), of db] assms(3) by auto
  obtain vs where vs: "set vs \<subseteq> all_receipts xs" "all_receipts xs \<subseteq> set vs" "consume_all ys db = fold receive vs db"
    using run_receipts[OF assms(2), of db] assms(4,5) by auto
  from us vs have "set us = set vs" by blast
  with us(3) vs(3) show ?thesis using receive_set[of us vs db] by simp
qed

definition demo_receipt :: "string \<Rightarrow> fate list \<Rightarrow> consumer \<times> committed_event \<times> fate list" where
  "demo_receipt status fs = (demo_consumer 7, demo_committed ''message.status'' status, fs)"

text \<open>A read receipt that fails first and arrives after the delivery receipt, and the two in the other order.\<close>

theorem receipts_any_order_witness:
  "consume_all [demo_receipt ''delivered'' [], demo_receipt ''read'' [Refused (Plain ''x'')], demo_receipt ''read'' []]
     (consume_all demo_calls demo_wa) =
   consume_all [demo_receipt ''read'' [], demo_receipt ''delivered'' []] (consume_all demo_calls demo_wa)"
  by (rule receipts_any_order)
    (simp_all add: demo_receipt_def demo_committed_def all_receipts_def receipts_of_def demo_consumer_def demo_codec_def insert_commute)

section \<open>Edits and revocations of unknown messages\<close>

lemma edit_unknown:
  assumes "\<forall>m\<in>set (db_messages db). message_key m \<noteq> (s, w)"
  shows "\<exists>e fs'. MarkEdited s w body (db, fs) = (Inl e, db, fs')"
proof -
  have m: "matched (\<lambda>m. message_key m = (s, w)) (db_messages db) = 0" using assms by (auto simp: matched_0_iff)
  have u: "update_counted (\<lambda>m. message_key m = (s, w)) g db = Inr (db, 0)" for g
    by (simp add: update_counted_def m upd_rows_id[OF m])
  show ?thesis unfolding MarkEdited_def
    by (cases "(update_counted (\<lambda>m. message_key m = (s, w)) (\<lambda>m. m\<lparr>mg_Edited := True, mg_Body := Some body\<rparr>), db, fs)" rule: execS.cases)
      (auto simp: bind_app wrap_app u or_not_found_def rowsAffectedOrNotFound_def)
qed

text \<open>An edit of a message that is not stored fails whatever the database does, and changes nothing, so its event
  is never completed however often it is delivered; a revocation of a message that is not stored succeeds.\<close>

theorem edit_of_unknown_message_stuck:
  assumes "cd_message (co_codec c) (ce_Payload ev) = Inr p" "mp_TargetID p \<noteq> []"
    and "\<forall>m\<in>set (db_messages db). message_key m \<noteq> (ce_Session ev, mp_TargetID p)"
  shows "(ce_Type ev = ''message.edited'' \<longrightarrow> (\<exists>e fs'. ConsumeCommittedEvent c ev (db, fs) = (Inl e, db, fs'))) \<and>
    (ce_Type ev = ''message.revoked'' \<longrightarrow> ConsumeCommittedEvent c ev (db, []) = (Inr (), db, []))"
proof -
  have m: "matched (\<lambda>m. message_key m = (ce_Session ev, mp_TargetID p)) (db_messages db) = 0" using assms(3) by (auto simp: matched_0_iff)
  have "ce_Type ev = ''message.edited'' \<longrightarrow> (\<exists>e fs'. ConsumeCommittedEvent c ev (db, fs) = (Inl e, db, fs'))"
    using edit_unknown[OF assms(3), of "mp_Body p" fs]
    by (auto simp: ConsumeCommittedEvent_def projectEdit_def decodeS_def assms(1,2) whenS_def)
  moreover have "ce_Type ev = ''message.revoked'' \<longrightarrow> ConsumeCommittedEvent c ev (db, []) = (Inr (), db, [])"
    by (auto simp: ConsumeCommittedEvent_def projectRevoke_def decodeS_def assms(1,2) whenS_def MarkDeleted_def ignore_not_found_def
        bind_app wrap_app update_counted_def m upd_rows_id[OF m] or_not_found_def rowsAffectedOrNotFound_def)
  ultimately show ?thesis by blast
qed

theorem edit_of_unknown_message_stuck_witness:
  "(\<exists>e fs'. ConsumeCommittedEvent (demo_consumer 7) (demo_committed ''message.edited'' ''p'') (demo_wa, [Works]) = (Inl e, demo_wa, fs')) \<and>
   ConsumeCommittedEvent (demo_consumer 7) (demo_committed ''message.revoked'' ''p'') (demo_wa, []) = (Inr (), demo_wa, [])"
proof -
  have none: "\<forall>m\<in>set (db_messages demo_wa). message_key m \<noteq> (ce_Session (demo_committed t ''p''), mp_TargetID demo_payload)" for t
    by (simp add: demo_wa_def message_key_def demo_committed_def)
  have dec: "cd_message (co_codec (demo_consumer 7)) (ce_Payload (demo_committed t ''p'')) = Inr demo_payload" "mp_TargetID demo_payload \<noteq> []" for t
    by (simp_all add: demo_consumer_def demo_codec_def demo_payload_def)
  have type: "ce_Type (demo_committed t ''p'') = t" for t by (simp add: demo_committed_def)
  show ?thesis
    using edit_of_unknown_message_stuck[OF dec(1)[of "''message.edited''"] dec(2) none, of "[Works]"]
      edit_of_unknown_message_stuck[OF dec(1)[of "''message.revoked''"] dec(2) none, of "[]"]
    unfolding type by blast
qed

end
