(* ===== verification/DirectChats.thy ===== *)
theory DirectChats
  imports Projections
begin

text \<open>
  What the projection does to a contact's direct chats and to the pairing of a session when no
  statement fails: a contact known by LID and phone number ends up with one chat per session, and
  a session paired with another phone number is marked as changed.
\<close>

section \<open>One chat per contact\<close>

text \<open>The abstract effect of learning that \<open>phone\<close> and \<open>lid\<close> are one contact: every row moves to the LID.\<close>

definition moved :: "string \<Rightarrow> string \<Rightarrow> string \<Rightarrow> string" where
  "moved lid phone jid = (if jid = phone then lid else jid)"

lemma move_all:
  "map mg_ChatJID (db_messages (move_messages (\<lambda>_. True) lid phone db)) = map (moved lid phone \<circ> mg_ChatJID) (db_messages db)"
  "map po_ChatJID (db_polls (move_polls (\<lambda>_. True) lid phone db)) = map (moved lid phone \<circ> po_ChatJID) (db_polls db)"
  by (simp_all add: move_messages_def move_polls_def upd_rows_def moved_def)

lemma has_chat_merge: "has_chat s j (db_chats (MergeExistingDMChatAliases phone lid db)) = has_chat s j (db_chats db)"
proof -
  have "map chat_key (db_chats (MergeExistingDMChatAliases phone lid db)) = map chat_key (db_chats db)"
    unfolding MergeExistingDMChatAliases_def by (simp, rule map_upd_rows) (rule fold_alias_key)
  moreover have "has_chat s j cs \<longleftrightarrow> (s, j) \<in> set (map chat_key cs)" for cs
    by (auto simp: has_chat_def chat_key_def)
  ultimately show ?thesis by metis
qed

lemma has_chat_delete:
  "lid \<noteq> phone \<Longrightarrow> has_chat s lid (db_chats (DeleteMergedDMChatAliases lid phone db)) = has_chat s lid (db_chats db)"
  "lid \<noteq> phone \<Longrightarrow> has_chat s phone (db_chats (DeleteMergedDMChatAliases lid phone db)) \<longleftrightarrow> has_chat s phone (db_chats db) \<and> \<not> has_chat s lid (db_chats db)"
  by (auto simp: has_chat_def DeleteMergedDMChatAliases_def)

text \<open>After the canonical chats have absorbed their aliases, renaming the remaining aliases meets no key.\<close>

lemma rename_free:
  assumes "lid \<noteq> phone"
  shows "\<exists>db'. rename_chats (\<lambda>a. ct_ChatJID a = phone) lid (DeleteMergedDMChatAliases lid phone db) = Inr (db', ())"
proof -
  have "\<not> has_chat (ct_SessionID a) lid (db_chats (DeleteMergedDMChatAliases lid phone db))"
    if "a \<in> set (db_chats (DeleteMergedDMChatAliases lid phone db))" "ct_ChatJID a = phone" for a
    using that has_chat_delete(2)[OF assms, of "ct_SessionID a" db] has_chat_delete(1)[OF assms, of "ct_SessionID a" db]
    by (auto simp: has_chat_def)
  then show ?thesis by (auto simp: rename_chats_def)
qed

lemma has_chat_rename:
  assumes "rename_chats (\<lambda>a. ct_ChatJID a = phone) lid db = Inr (db', u)" "lid \<noteq> phone"
  shows "has_chat s lid (db_chats db') \<longleftrightarrow> has_chat s lid (db_chats db) \<or> has_chat s phone (db_chats db)" "\<not> has_chat s phone (db_chats db')"
proof -
  have cs: "db_chats db' = upd_rows (\<lambda>a. ct_ChatJID a = phone) (\<lambda>a. a\<lparr>ct_ChatJID := lid\<rparr>) (db_chats db)"
    using rename_chats_ok[OF assms(1)] by simp
  show "\<not> has_chat s phone (db_chats db')" unfolding cs has_chat_def using assms(2) by (auto elim!: in_upd_rowsE)
  show "has_chat s lid (db_chats db') \<longleftrightarrow> has_chat s lid (db_chats db) \<or> has_chat s phone (db_chats db)" (is "?l = ?r")
  proof
    assume ?l
    then obtain c where c: "c \<in> set (upd_rows (\<lambda>a. ct_ChatJID a = phone) (\<lambda>a. a\<lparr>ct_ChatJID := lid\<rparr>) (db_chats db))" "ct_SessionID c = s" "ct_ChatJID c = lid"
      unfolding cs has_chat_def by blast
    from c(1) show ?r by (rule in_upd_rowsE) (use c(2,3) in \<open>auto simp: has_chat_def\<close>)
  next
    assume ?r
    then obtain c where c: "c \<in> set (db_chats db)" "ct_SessionID c = s" "ct_ChatJID c = lid \<or> ct_ChatJID c = phone"
      by (auto simp: has_chat_def)
    show ?l
    proof (cases "ct_ChatJID c = phone")
      case True
      then have "c\<lparr>ct_ChatJID := lid\<rparr> \<in> set (db_chats db')" unfolding cs using c(1) by (intro in_upd_rows_hit) simp_all
      then show ?thesis unfolding has_chat_def using c(2) by (intro bexI[of _ "c\<lparr>ct_ChatJID := lid\<rparr>"]) simp_all
    next
      case False
      then show ?thesis unfolding cs has_chat_def
        using in_upd_rows_miss[of c "db_chats db" "\<lambda>a. ct_ChatJID a = phone" "\<lambda>a. a\<lparr>ct_ChatJID := lid\<rparr>"] c by auto
    qed
  qed
qed

text \<open>Property C30. When the phone number of a contact's LID is learned and no statement fails, the call succeeds (no rename
  meets an existing chat), the contact's chat in every session that had one under either address is
  the chat under the LID, no chat, message or poll is left under the phone number, and no message or poll is lost or moved
  elsewhere.\<close>

theorem contact_chats_merged:
  assumes "HasSuffix lid lid_suffix" "HasSuffix phone phone_suffix" "lid \<noteq> phone"
  shows "outcome (mergeDMChatAlias [] lid phone) db = Inr () \<and>
    (\<forall>s. has_chat s lid (db_chats (after (mergeDMChatAlias [] lid phone) db)) = (has_chat s lid (db_chats db) \<or> has_chat s phone (db_chats db)) \<and>
         \<not> has_chat s phone (db_chats (after (mergeDMChatAlias [] lid phone) db))) \<and>
    map mg_ChatJID (db_messages (after (mergeDMChatAlias [] lid phone) db)) = map (moved lid phone \<circ> mg_ChatJID) (db_messages db) \<and>
    map po_ChatJID (db_polls (after (mergeDMChatAlias [] lid phone) db)) = map (moved lid phone \<circ> po_ChatJID) (db_polls db)"
proof -
  let ?d1 = "MergeExistingDMChatAliases phone lid db"
  let ?d2 = "DeleteMergedDMChatAliases lid phone ?d1"
  obtain d3 where d3: "rename_chats (\<lambda>a. ct_ChatJID a = phone) lid ?d2 = Inr (d3, ())" using rename_free[OF assms(3)] by blast
  let ?d5 = "move_polls (\<lambda>_. True) lid phone (move_messages (\<lambda>_. True) lid phone d3)"
  have ne: "lid \<noteq> []" "phone \<noteq> []" using assms(1,2) by (auto simp: HasSuffix_def)
  have run: "mergeDMChatAlias [] lid phone (db, []) = (Inr (), ?d5, [])"
    using assms ne d3 by (simp add: mergeDMChatAlias_def merge_all_sessions_def bind_app wrap_app)
  have msgs: "db_messages d3 = db_messages db" "db_polls d3 = db_polls db"
    using rename_chats_ok[OF d3] by (simp_all add: MergeExistingDMChatAliases_def DeleteMergedDMChatAliases_def)
  have chats: "db_chats ?d5 = db_chats d3" by (simp add: move_polls_def move_messages_def)
  have "has_chat s lid (db_chats d3) = (has_chat s lid (db_chats db) \<or> has_chat s phone (db_chats db)) \<and> \<not> has_chat s phone (db_chats d3)" for s
    using has_chat_rename[OF d3 assms(3), of s] has_chat_delete[OF assms(3), of s ?d1] has_chat_merge[of s] by auto
  moreover have "db_messages ?d5 = db_messages (move_messages (\<lambda>_. True) lid phone d3)" by (simp add: move_polls_def)
  moreover have "db_polls (move_messages (\<lambda>_. True) lid phone d3) = db_polls d3" by (simp add: move_messages_def)
  ultimately show ?thesis unfolding outcome_def after_def run
    using move_all(1)[of lid phone d3] move_all(2)[of lid phone "move_messages (\<lambda>_. True) lid phone d3"] by (simp add: chats msgs)
qed

theorem contact_chats_merged_witness:
  "outcome (mergeDMChatAlias [] ''7@lid'' ''62@s.whatsapp.net'') demo_wa = Inr () \<and>
   map mg_ChatJID (db_messages (after (mergeDMChatAlias [] ''7@lid'' ''62@s.whatsapp.net'') demo_wa)) = [''7@lid'']"
  using contact_chats_merged[of "''7@lid''" "''62@s.whatsapp.net''" demo_wa]
  by (simp add: HasSuffix_def moved_def demo_wa_def message_insert_def demo_payload_def)

section \<open>Pairing\<close>

lemma phoneFromJID_device:
  assumes "CHR '':'' \<notin> set user"
  shows "phoneFromJID (user @ CHR '':'' # device @ phone_suffix) = user" "phoneFromJID (user @ phone_suffix) = user"
proof -
  have "HasSuffix (x @ phone_suffix) phone_suffix" "take (length (x @ phone_suffix) - length phone_suffix) (x @ phone_suffix) = x" for x
    by (simp_all add: HasSuffix_def)
  then have p: "phoneFromJID (x @ phone_suffix) = takeWhile (\<lambda>c. c \<noteq> CHR '':'') x" for x by (simp add: phoneFromJID_def)
  have all: "takeWhile (\<lambda>c. c \<noteq> CHR '':'') user = user" using assms by (auto simp: takeWhile_eq_all_conv)
  show "phoneFromJID (user @ phone_suffix) = user" using p[of user] all by simp
  have "takeWhile (\<lambda>c. c \<noteq> CHR '':'') (user @ CHR '':'' # device) = user"
    using assms by (subst takeWhile_append2) auto
  then show "phoneFromJID (user @ CHR '':'' # device @ phone_suffix) = user" using p[of "user @ CHR '':'' # device"] by simp
qed

text \<open>The account a session's data belongs to, and when it last changed.\<close>

definition same_account :: "wa_db \<Rightarrow> wa_db \<Rightarrow> bool" where
  "same_account db db' \<longleftrightarrow> (\<forall>r\<in>set (db_sessions db). \<exists>r'\<in>set (db_sessions db'). wr_ID r' = wr_ID r \<and>
     wr_DataAccountJID r' = wr_DataAccountJID r \<and> wr_AccountChangedAt r' = wr_AccountChangedAt r)"

interpretation acc: table_relation same_account
proof (unfold_locales, goal_cases)
  case (2 a b c)
  then show ?case unfolding same_account_def by metis
qed (auto simp: same_account_def)

lemma account_update:
  assumes "\<And>r. wr_ID (g r) = wr_ID r \<and> wr_DataAccountJID (g r) = wr_DataAccountJID r \<and> wr_AccountChangedAt (g r) = wr_AccountChangedAt r"
  shows "keeps same_account (execS (update_session sid g))"
proof (rule acc.keeps_exec)
  fix db db' n assume "update_session sid g db = Inr (db', n)"
  then have "db_sessions db' = upd_rows (\<lambda>r. wr_ID r = sid) g (db_sessions db)" by (drule_tac update_session_ok) simp
  then show "same_account db db'" unfolding same_account_def
    using upd_rows_keeps_rows[where P = "\<lambda>r. wr_ID r = sid" and g = g and rows = "db_sessions db" and
        S = "\<lambda>r r'. wr_ID r' = wr_ID r \<and> wr_DataAccountJID r' = wr_DataAccountJID r \<and> wr_AccountChangedAt r' = wr_AccountChangedAt r"] assms
    by simp
qed

lemma account_status: "keeps same_account (projectSessionStatus c ev)"
proof -
  have nf: "keeps same_account (or_not_found x n)" for x n
    unfolding or_not_found_def by (auto simp: acc.keeps_return split: sum.splits)
  have "keeps same_account (ClearPairing (ce_Session ev) (co_clock c))" "keeps same_account (UpdateSessionStatus (ce_Session ev) st (co_clock c))" for st
    unfolding ClearPairing_def UpdateSessionStatus_def
    by (intro acc.keeps_bind acc.keeps_wrap account_update nf; simp)+
  then show ?thesis unfolding projectSessionStatus_def decodeS_def
    by (auto simp: acc.keeps_return split: sum.splits option.splits)
qed

text \<open>A session whose data belongs to one phone number keeps that through any logouts and status changes, failing or not; the
  next successful pairing records the number it attaches (without the device part of the JID) and stamps the
  change of account exactly when the number is another one, so linking the same number as a new device
  is no change.\<close>

theorem account_change_stamped:
  assumes "r \<in> set (db_sessions db)" "wr_DataAccountJID r = Some (old @ phone_suffix)"
    and "\<forall>(c, ev, fs)\<in>set calls. ce_Type ev = ''session.status''"
    and "ce_Type ev = ''auth.code''" "ce_Session ev = wr_ID r" "cd_auth (co_codec c) (ce_Payload ev) = Inr p"
    and "ap_JID p = user @ CHR '':'' # device @ phone_suffix" "CHR '':'' \<notin> set user" "user \<noteq> []"
    and "outcome (ConsumeCommittedEvent c ev) (consume_all calls db) = Inr ()"
  shows "\<exists>r'\<in>set (db_sessions (after (ConsumeCommittedEvent c ev) (consume_all calls db))). wr_ID r' = wr_ID r \<and>
    wr_WaJID r' = Some (ap_JID p) \<and> wr_DataAccountJID r' = Some (user @ phone_suffix) \<and>
    wr_AccountChangedAt r' = (if user = old then wr_AccountChangedAt r else Some (co_clock c))"
proof -
  let ?d = "consume_all calls db"
  have "same_account db ?d"
  proof (rule consume_all_keeps[OF acc.table_relation_axioms])
    fix c ev fs assume "(c, ev, fs) \<in> set calls"
    then have "ce_Type ev = ''session.status''" using assms(3) by blast
    then show "keeps same_account (ConsumeCommittedEvent c ev)" using account_status by (simp add: ConsumeCommittedEvent_def)
  qed
  then obtain q where q: "q \<in> set (db_sessions ?d)" "wr_ID q = wr_ID r" "wr_DataAccountJID q = Some (old @ phone_suffix)"
    "wr_AccountChangedAt q = wr_AccountChangedAt r" using assms(1,2) unfolding same_account_def by metis
  let ?inp = "\<lparr>at_SessionID = wr_ID r, at_WaJID = ap_JID p, at_WaLID = ap_LID p, at_PhoneNumber = user, at_UpdatedAt = co_clock c\<rparr>"
  have e: "ConsumeCommittedEvent c ev = AttachPairing ?inp"
    using assms(4-7) phoneFromJID_device(1)[OF assms(8), of device]
    by (simp add: ConsumeCommittedEvent_def projectPairSuccess_def decodeS_def whenS_def)
  obtain d n where up: "update_session (wr_ID r) (attach_row ?inp) ?d = Inr (d, n)" and d: "after (ConsumeCommittedEvent c ev) ?d = d"
    using assms(10) unfolding e outcome_def after_def AttachPairing_def
    by (cases "update_session (wr_ID r) (attach_row ?inp) ?d")
      (auto simp: bind_app wrap_app or_not_found_def split: sum.splits)
  have "attach_row ?inp q \<in> set (db_sessions d)"
    using in_upd_rows_hit[of q "db_sessions ?d" "\<lambda>x. wr_ID x = wr_ID r" "attach_row ?inp"] q update_session_ok[OF up] by simp
  moreover have "wr_ID (attach_row ?inp q) = wr_ID r \<and> wr_WaJID (attach_row ?inp q) = Some (ap_JID p) \<and>
      wr_DataAccountJID (attach_row ?inp q) = Some (user @ phone_suffix) \<and>
      wr_AccountChangedAt (attach_row ?inp q) = (if user = old then wr_AccountChangedAt r else Some (co_clock c))"
    using q assms(7,9) by (auto simp: attach_row_def Let_def nullStringFromValue_def differs_def)
  ultimately show ?thesis unfolding d by blast
qed

theorem account_change_stamped_witness:
  "\<exists>r'\<in>set (db_sessions (after (ConsumeCommittedEvent (demo_consumer 8) (demo_committed ''auth.code'' ''63:2@s.whatsapp.net''))
      (consume_all [(demo_consumer 7, demo_committed ''session.status'' ''logged_out'', [])] demo_wa))).
    wr_ID r' = ''s1'' \<and> wr_DataAccountJID r' = Some ''63@s.whatsapp.net'' \<and> wr_AccountChangedAt r' = Some 8"
proof -
  let ?calls = "[(demo_consumer 7, demo_committed ''session.status'' ''logged_out'', [])]"
  let ?ev = "demo_committed ''auth.code'' ''63:2@s.whatsapp.net''"
  have ok: "outcome (ConsumeCommittedEvent (demo_consumer 8) ?ev) (consume_all ?calls demo_wa) = Inr ()" by code_simp
  have "\<exists>r'\<in>set (db_sessions (after (ConsumeCommittedEvent (demo_consumer 8) ?ev) (consume_all ?calls demo_wa))). wr_ID r' = wr_ID (demo_session ''s1'') \<and>
    wr_WaJID r' = Some (ap_JID \<lparr>ap_JID = ''63:2@s.whatsapp.net'', ap_LID = []\<rparr>) \<and> wr_DataAccountJID r' = Some (''63'' @ phone_suffix) \<and>
    wr_AccountChangedAt r' = (if ''63'' = ''61'' then wr_AccountChangedAt (demo_session ''s1'') else Some (co_clock (demo_consumer 8)))"
    by (rule account_change_stamped[where device = "''2''" and old = "''61''", OF _ _ _ _ _ _ _ _ _ ok])
      (simp_all add: demo_wa_def demo_session_def demo_committed_def demo_consumer_def demo_codec_def)
  then show ?thesis by (simp add: demo_session_def demo_consumer_def) blast
qed

end
