(* ===== verification/HistoryAccounts.thy ===== *)
theory HistoryAccounts
  imports Projections
begin

text \<open>
  What a \<open>history.batch\<close> that was applied has done: every message of the batch that makes a row is
  counted once, as imported, already stored or dropped; the table grew by the imported ones; the
  ledger has the counts; and applying the event again changes nothing.
\<close>

section \<open>Queries per chunk\<close>

lemma collect_ok:
  "collectS xs (\<lambda>x. wrapS p (readS (q x))) (db, fs) = (Inr rows, db', fs') \<Longrightarrow> db' = db \<and> rows = concat (map (\<lambda>x. q x db) xs)"
proof (induction xs arbitrary: fs rows db' fs')
  case (Cons x xs)
  then obtain a d1 f1 rest d2 f2 where 1: "readS (q x) (db, fs) = (Inr a, d1, f1)"
    and 2: "collectS xs (\<lambda>x. wrapS p (readS (q x))) (d1, f1) = (Inr rest, d2, f2)" and 3: "rows = a @ rest" "db' = d2"
    by (auto simp: bind_ok wrap_ok)
  then show ?case using read_ok[OF 1] Cons.IH[of f1 rest d2 f2] by auto
qed simp

lemma stored_ids:
  assumes "storedMessageIDs session ids (db, fs) = (Inr rows, db', fs')"
  shows "db' = db" "set rows = {w. w \<in> set ids \<and> (\<exists>m\<in>set (db_messages db). mg_SessionID m = session \<and> mg_WAMessageID m = w)}"
proof -
  have r: "db' = db \<and> rows = concat (map (\<lambda>chunk. map mg_WAMessageID (filter (\<lambda>m. mg_SessionID m = session \<and> mg_WAMessageID m \<in> set chunk) (db_messages db)))
      (chunked historyInChunk ids))"
    by (rule collect_ok[OF assms[unfolded storedMessageIDs_def]])
  then show "db' = db" by simp
  have "set ids = \<Union> (set ` set (chunked historyInChunk ids))"
    using concat_chunked[of historyInChunk ids] by (metis set_concat historyInChunk_def zero_less_numeral)
  then show "set rows = {w. w \<in> set ids \<and> (\<exists>m\<in>set (db_messages db). mg_SessionID m = session \<and> mg_WAMessageID m = w)}"
    using r by auto
qed

section \<open>Importing the messages\<close>

lemma import_counts:
  "import_messages mids b ms stored res (db, fs) = (Inr res', db', fs') \<Longrightarrow> br_Imported res' + br_Existing res' + br_Dropped res' =
     br_Imported res + br_Existing res + br_Dropped res + length (filter (\<lambda>(jid, m). createsRow (hm_Kind m)) ms)"
proof (induction ms arbitrary: stored res db fs)
  case (Cons x ms)
  obtain jid m where x: "x = (jid, m)" by force
  show ?case using Cons.prems
    by (auto simp: x bind_ok split: if_splits dest!: Cons.IH)
qed simp

text \<open>The ids the sequence has still to give out are not in the table, and no remaining message that would make a
  row is stored unless it is known to be.\<close>

definition importable :: "(nat \<Rightarrow> string) \<Rightarrow> history_batch \<Rightarrow> (string \<times> history_message) list \<Rightarrow> string set \<Rightarrow> nat \<Rightarrow> wa_db \<Rightarrow> bool" where
  "importable mids b ms stored n db \<longleftrightarrow> (\<forall>k\<ge>n. mids k \<notin> mg_ID ` set (db_messages db)) \<and>
     (\<forall>r\<in>set (db_messages db). mg_SessionID r = hx_SessionID b \<and> mg_WAMessageID r \<in> set (row_ids b ms) \<longrightarrow> mg_WAMessageID r \<in> stored)"

lemma importable_tail: "importable mids b (x # ms) stored n db \<Longrightarrow> importable mids b ms stored n db"
  by (auto simp: importable_def row_ids_def split: if_splits)

lemma inserted:
  assumes "importable mids b ((jid, m) # ms) stored n db" "createsRow (hm_Kind m)" "keptMessage b m" "jid \<noteq> []" "hm_WAMessageID m \<notin> stored"
    "inj mids" "insertMessage b (mids n) jid m (db, fs) = (Inr u, db', fs')"
  shows "db_messages db' = db_messages db @ [imported_row b (mids n) jid m]"
    "importable mids b ms (insert (hm_WAMessageID m) stored) (Suc n) db'"
proof -
  let ?row = "imported_row b (mids n) jid m"
  have db': "db' = db\<lparr>db_messages := upsert_message (\<lambda>_ r. r) ?row (db_messages db)\<rparr>"
    using assms(7) unfolding insertMessage_def wrap_ok by (rule write_ok)
  have "\<forall>r\<in>set (db_messages db). mg_ID r \<noteq> mg_ID ?row" using assms(1)
    by (auto simp: importable_def imported_row_def) (metis image_eqI order_refl)
  moreover have "\<forall>r\<in>set (db_messages db). message_key r \<noteq> message_key ?row"
    using assms(1-5) by (auto simp: importable_def row_ids_def imported_row_def message_key_def)
  ultimately show ms: "db_messages db' = db_messages db @ [?row]" by (auto simp: db' upsert_message_def upsert_def)
  have "mids k \<noteq> mids n" if "k \<ge> Suc n" for k using assms(6) that by (auto dest: injD)
  then show "importable mids b ms (insert (hm_WAMessageID m) stored) (Suc n) db'"
    using importable_tail[OF assms(1)] by (auto simp: importable_def ms imported_row_def)
qed

lemma poll_messages:
  assumes "(case hm_Poll m of None \<Rightarrow> returnS () | Some p \<Rightarrow> insertPoll b jid m p) (db, fs) = (Inr u, db', fs')"
  shows "db_messages db' = db_messages db"
  using assms by (cases "hm_Poll m") (auto simp: insertPoll_def wrap_ok dest!: write_ok)

lemma importable_messages: "db_messages db' = db_messages db \<Longrightarrow> importable mids b ms stored n db' = importable mids b ms stored n db"
  by (simp add: importable_def)

lemma import_grows:
  assumes "inj mids" "importable mids b ms stored (br_Imported res) db" "import_messages mids b ms stored res (db, fs) = (Inr res', db', fs')"
  shows "br_Imported res \<le> br_Imported res' \<and> length (db_messages db') + br_Imported res = length (db_messages db) + br_Imported res'"
  using assms(2,3)
proof (induction ms arbitrary: stored res db fs)
  case (Cons x ms)
  obtain jid m where x: "x = (jid, m)" by force
  consider (skip) "\<not> createsRow (hm_Kind m)" | (drop) "createsRow (hm_Kind m)" "jid = [] \<or> \<not> keptMessage b m"
    | (known) "createsRow (hm_Kind m)" "jid \<noteq> []" "keptMessage b m" "hm_WAMessageID m \<in> stored"
    | (new) "createsRow (hm_Kind m)" "jid \<noteq> []" "keptMessage b m" "hm_WAMessageID m \<notin> stored" by blast
  then show ?case
  proof cases
    case skip
    then show ?thesis using Cons.IH[OF importable_tail[OF Cons.prems(1)]] Cons.prems(2) by (simp add: x)
  next
    case drop
    then show ?thesis using Cons.IH[of stored "res\<lparr>br_Dropped := br_Dropped res + 1\<rparr>" db fs] importable_tail[OF Cons.prems(1)] Cons.prems(2)
      by (simp add: x)
  next
    case known
    then show ?thesis using Cons.IH[of stored "res\<lparr>br_Existing := br_Existing res + 1\<rparr>" db fs] importable_tail[OF Cons.prems(1)] Cons.prems(2)
      by (simp add: x)
  next
    case new
    then obtain d1 f1 d2 f2 where ins: "insertMessage b (mids (br_Imported res)) jid m (db, fs) = (Inr (), d1, f1)"
      and poll: "(case hm_Poll m of None \<Rightarrow> returnS () | Some p \<Rightarrow> insertPoll b jid m p) (d1, f1) = (Inr (), d2, f2)"
      and rest: "import_messages mids b ms (insert (hm_WAMessageID m) stored) (res\<lparr>br_Imported := br_Imported res + 1\<rparr>) (d2, f2) = (Inr res', db', fs')"
      using Cons.prems(2) by (auto simp: x bind_ok)
    have d2: "db_messages d2 = db_messages d1" by (rule poll_messages[OF poll])
    note new' = inserted[OF Cons.prems(1)[unfolded x] new(1) new(3) new(2) new(4) assms(1) ins]
    have imp: "importable mids b ms (insert (hm_WAMessageID m) stored) (br_Imported (res\<lparr>br_Imported := br_Imported res + 1\<rparr>)) d2"
      using importable_messages[OF d2] new'(2) by simp
    from Cons.IH[OF imp rest] show ?thesis using new'(1) d2 by simp
  qed
qed simp

section \<open>The whole batch\<close>

text \<open>The statements that make no message row keep the ids and keys of the table.\<close>

definition same_ids :: "wa_db \<Rightarrow> wa_db \<Rightarrow> bool" where
  "same_ids db db' \<longleftrightarrow> map mg_ID (db_messages db') = map mg_ID (db_messages db) \<and> map message_key (db_messages db') = map message_key (db_messages db)"

lemma same_ids_upd:
  assumes "\<And>r. mg_ID (g r) = mg_ID r" "\<And>r. message_key (g r) = message_key r"
  shows "same_ids db (db\<lparr>db_messages := upd_rows P g (db_messages db)\<rparr>)"
  using assms by (simp add: same_ids_def map_upd_rows)

interpretation ids: row_relation same_ids sid "\<lambda>_. False" for sid
proof (unfold_locales, goal_cases)
  case (2 a b c)
  then show ?case by (simp add: same_ids_def)
next
  case 11
  show ?case unfolding move_messages_def by (rule same_ids_upd) (simp_all add: message_key_def)
next
  case 15
  show ?case by (rule same_ids_upd) (simp_all add: advance_row_def message_key_def)
next
  case 16
  show ?case by (rule same_ids_upd) (simp_all add: message_key_def)
next
  case 17
  show ?case by (rule same_ids_upd) (simp_all add: message_key_def)
next
  case 18
  show ?case by (rule same_ids_upd) (simp_all add: message_key_def)
qed (auto simp: same_ids_def statement_defs dest!: rename_chats_ok)

definition row_messages :: "history_batch \<Rightarrow> history_message list" where
  "row_messages b = filter (\<lambda>m. createsRow (hm_Kind m)) (concat (map hv_Messages (hx_Conversations b)))"

lemma placed_rows: "length (filter (\<lambda>(jid, m). createsRow (hm_Kind m)) (placed canonical b)) = length (row_messages b)"
proof -
  have "map snd (placed canonical b) = concat (map hv_Messages (hx_Conversations b))"
    by (simp add: placed_def map_concat comp_def)
  then have "map snd (filter (\<lambda>x. createsRow (hm_Kind (snd x))) (placed canonical b)) = row_messages b"
    unfolding row_messages_def by (metis (no_types, lifting) filter_map comp_def filter_cong)
  then show ?thesis by (metis (no_types, lifting) length_map case_prod_beta' filter_cong)
qed

lemma messages_ok:
  assumes "messages mids b canonical (db, fs) = (Inr res, db', fs')" "inj mids" "\<forall>n. mids n \<notin> mg_ID ` set (db_messages db)"
  shows "br_Imported res + br_Existing res + br_Dropped res = length (row_messages b)"
    "length (db_messages db') = length (db_messages db) + br_Imported res"
proof -
  from assms(1) obtain rows d1 f1 where st: "storedMessageIDs (hx_SessionID b) (row_ids b (placed canonical b)) (db, fs) = (Inr rows, d1, f1)"
    and im: "import_messages mids b (placed canonical b) (set rows) no_result (d1, f1) = (Inr res, db', fs')"
    by (auto simp: messages_def Let_def bind_ok)
  note s = stored_ids[OF st]
  show "br_Imported res + br_Existing res + br_Dropped res = length (row_messages b)"
    using import_counts[OF im] placed_rows[of canonical b] by (simp add: no_result_def)
  have "importable mids b (placed canonical b) (set rows) (br_Imported no_result) d1"
    using assms(3) s by (auto simp: importable_def no_result_def)
  from import_grows[OF assms(2) this im] show "length (db_messages db') = length (db_messages db) + br_Imported res"
    using s(1) by (simp add: no_result_def)
qed

lemma apply_rows_ok:
  assumes "apply_rows env b (db, fs) = (Inr res, db', fs')" "inj (he_mids env)" "\<forall>n. he_mids env n \<notin> mg_ID ` set (db_messages db)"
  shows "br_Imported res + br_Existing res + br_Dropped res = length (row_messages b)"
    "length (db_messages db') = length (db_messages db) + br_Imported res"
proof -
  from assms(1) obtain d1 f1 d2 f2 canonical d3 f3 d4 f4
    where 1: "identities (he_iter env) b (db, fs) = (Inr (), d1, f1)" and 2: "groups b (d1, f1) = (Inr (), d2, f2)"
      and 3: "chats b (hx_Conversations b) (\<lambda>_. []) (d2, f2) = (Inr canonical, d3, f3)"
      and 4: "messages (he_mids env) b canonical (d3, f3) = (Inr res, d4, f4)" and 5: "mutations b (d4, f4) = (Inr (), db', fs')"
    by (auto simp: apply_rows_def bind_ok)
  have "same_ids db d3"
    using keepsD[OF ids.keeps_identities[OF refl] 1] keepsD[OF ids.keeps_groups[OF refl] 2] keepsD[OF ids.keeps_chats[OF refl] 3]
    by (simp add: same_ids_def)
  moreover have "same_ids d4 db'" by (rule keepsD[OF ids.keeps_mutations[OF refl] 5])
  ultimately have len: "length (db_messages d3) = length (db_messages db)" "length (db_messages db') = length (db_messages d4)"
    and fresh: "mg_ID ` set (db_messages d3) = mg_ID ` set (db_messages db)"
    unfolding same_ids_def by (metis length_map, metis length_map, metis set_map)
  note m = messages_ok[OF 4 assms(2)]
  show "br_Imported res + br_Existing res + br_Dropped res = length (row_messages b)" using m(1) fresh assms(3) by simp
  show "length (db_messages db') = length (db_messages db) + br_Imported res" using m(2) fresh assms(3) len by simp
qed

lemma tx_ok:
  assumes "inTx p c body (db, fs) = (Inr a, db', fs')"
  obtains f1 commit d1 f2 where "body (db, f1) = (Inr (commit, a), d1, f2)" "db' = (if commit then d1 else db)"
proof -
  from assms obtain d0 f1 where 0: "readS (\<lambda>_. ()) (db, fs) = (Inr (), d0, f1)"
    and 1: "(case body (d0, f1) of (Inl e, db', fs') \<Rightarrow> (Inl e, d0, fs') | (Inr (commit, a), db', fs') \<Rightarrow>
       (if commit then wrapS c (execS (\<lambda>_. Inr (db', a))) (d0, fs') else (Inr a, d0, fs'))) = (Inr a, db', fs')"
    unfolding inTx_def bind_ok wrap_ok by auto
  have d0: "d0 = db" using read_ok[OF 0] by simp
  obtain x d1 f2 where b: "body (db, f1) = (x, d1, f2)" by (cases "body (db, f1)") auto
  obtain commit y where x: "x = Inr (commit, y)" using 1 unfolding d0 b by (cases x) auto
  have "y = a \<and> db' = (if commit then d1 else db)" using 1 unfolding d0 b x
    by (auto simp: wrap_ok split: if_splits dest!: exec_ok)
  then show ?thesis using that[of f1 commit d1 f2] b x by simp
qed

lemma batch_ok:
  assumes "batch_body env b (db, fs) = (Inr (commit, res), db', fs')"
  shows "commit = br_Applied res"
    "commit \<Longrightarrow> \<exists>d1 f1 res0 d2 f2. db_messages d1 = db_messages db \<and> apply_rows env b (d1, f1) = (Inr res0, d2, f2) \<and>
       res = res0\<lparr>br_Applied := True\<rparr> \<and> db' = count_batch (ledger_row b res0) (d2\<lparr>db_batches := db_batches d2 @ [ledger_row b res0]\<rparr>)"
proof -
  from assms obtain seen f0 where
    rest: "(if seen then returnS (False, no_result)
       else thenS (ensureHistoryRun (hx_SessionID b) (hx_RunID b) (hx_AccountJID b) (hx_Now b))
         (bindS (apply_rows env b) (\<lambda>res.
           thenS (record_batch (ledger_row b res)) (returnS (True, res\<lparr>br_Applied := True\<rparr>))))) (db, f0) = (Inr (commit, res), db', fs')"
    unfolding batch_body_def bind_ok wrap_ok by (auto dest: read_ok)
  show "commit = br_Applied res" using rest by (auto simp: bind_ok no_result_def split: if_splits)
  assume c: commit
  with rest obtain d1 f1 res0 d2 f2 f3
    where ens: "ensureHistoryRun (hx_SessionID b) (hx_RunID b) (hx_AccountJID b) (hx_Now b) (db, f0) = (Inr (), d1, f1)"
      and rows: "apply_rows env b (d1, f1) = (Inr res0, d2, f2)"
      and rec: "record_batch (ledger_row b res0) (d2, f2) = (Inr (), db', f3)" and res: "res = res0\<lparr>br_Applied := True\<rparr>"
    by (auto simp: bind_ok split: if_splits)
  from ens have "db_messages d1 = db_messages db"
    unfolding ensureHistoryRun_def wrap_ok by (auto dest!: exec_ok upsert_run_ok)
  moreover from rec have "db' = count_batch (ledger_row b res0) (d2\<lparr>db_batches := db_batches d2 @ [ledger_row b res0]\<rparr>)"
    unfolding record_batch_def bind_ok wrap_ok by (auto simp: insert_batch_def dest!: exec_ok write_ok split: if_splits)
  ultimately show "\<exists>d1 f1 res0 d2 f2. db_messages d1 = db_messages db \<and> apply_rows env b (d1, f1) = (Inr res0, d2, f2) \<and>
       res = res0\<lparr>br_Applied := True\<rparr> \<and> db' = count_batch (ledger_row b res0) (d2\<lparr>db_batches := db_batches d2 @ [ledger_row b res0]\<rparr>)"
    using rows res by blast
qed

text \<open>Property C18. A batch that is applied accounts for each of its messages that makes a row: it is imported, already stored
  or dropped, and the table grew by exactly the imported ones; the ledger has those counts under the id of the
  event; and applying an event with that id again succeeds and changes nothing.\<close>

theorem history_batch_accounted:
  assumes "ApplyBatch env b (db, fs) = (Inr res, db', fs')" "br_Applied res"
    and "inj (he_mids env)" "\<forall>n. he_mids env n \<notin> mg_ID ` set (db_messages db)"
    and "hx_EventID b' = hx_EventID b" "hx_SessionID b' \<noteq> []" "hx_RunID b' \<noteq> []"
  shows "br_Imported res + br_Existing res + br_Dropped res = length (row_messages b) \<and>
    length (db_messages db') = length (db_messages db) + br_Imported res \<and>
    ledger_row b res \<in> set (db_batches db') \<and> ApplyBatch env' b' (db', []) = (Inr no_result, db', [])"
proof -
  have tx: "inTx ''store: begin history batch'' ''store: commit history batch'' (batch_body env b) (db, fs) = (Inr res, db', fs')"
    and ne: "hx_EventID b \<noteq> []" using assms(1) unfolding ApplyBatch_def by (auto split: if_splits)
  obtain f1 commit d1 f2 where body: "batch_body env b (db, f1) = (Inr (commit, res), d1, f2)" and d: "db' = (if commit then d1 else db)"
    by (rule tx_ok[OF tx])
  have c: commit using batch_ok(1)[OF body] assms(2) by simp
  obtain e1 g1 res0 e2 g2 where e1: "db_messages e1 = db_messages db" and rows: "apply_rows env b (e1, g1) = (Inr res0, e2, g2)"
    and res: "res = res0\<lparr>br_Applied := True\<rparr>" and d1: "d1 = count_batch (ledger_row b res0) (e2\<lparr>db_batches := db_batches e2 @ [ledger_row b res0]\<rparr>)"
    using batch_ok(2)[OF body c] by blast
  have fresh: "\<forall>n. he_mids env n \<notin> mg_ID ` set (db_messages e1)" using assms(4) e1 by simp
  have row: "ledger_row b res = ledger_row b res0" by (simp add: ledger_row_def res)
  have led: "ledger_row b res \<in> set (db_batches db')" using c d d1 row by (simp add: count_batch_def)
  then have "\<exists>x\<in>set (db_batches db'). hb_EventID x = hx_EventID b'" using assms(5) by (intro bexI[of _ "ledger_row b res"]) (simp_all add: ledger_row_def)
  then have "ApplyBatch env' b' (db', []) = (Inr no_result, db', [])"
    using assms(5-7) ne by (simp add: ApplyBatch_def inTx_def batch_body_def bind_app wrap_app)
  with apply_rows_ok[OF rows assms(3) fresh] led show ?thesis using c d d1 e1 by (simp add: res count_batch_def)
qed

definition demo_history :: history_batch where
  "demo_history = (case historyBatchFromPayload (demo_consumer 4) (demo_committed ''history.batch'' ''b'') demo_batch 4 0 of Inr b \<Rightarrow> b)"

theorem history_batch_accounted_witness:
  "\<exists>res db'. ApplyBatch (co_history (demo_consumer 4)) demo_history (demo_wa, []) = (Inr res, db', []) \<and>
     br_Imported res + br_Existing res + br_Dropped res = 2 \<and> length (db_messages db') = 1 + br_Imported res \<and>
     ApplyBatch (co_history (demo_consumer 5)) demo_history (db', []) = (Inr no_result, db', [])"
proof -
  let ?run = "ApplyBatch (co_history (demo_consumer 4)) demo_history (demo_wa, [])"
  have ok: "(case fst ?run of Inl _ \<Rightarrow> False | Inr res \<Rightarrow> br_Applied res) \<and> snd (snd ?run) = []" by code_simp
  then obtain res db' where run: "?run = (Inr res, db', [])" and ap: "br_Applied res"
    by (cases ?run; cases "fst ?run") auto
  have inj: "inj (he_mids (co_history (demo_consumer 4)))"
    by (auto simp: demo_consumer_def inj_def dest: arg_cong[of _ _ length])
  have fresh: "\<forall>n. he_mids (co_history (demo_consumer 4)) n \<notin> mg_ID ` set (db_messages demo_wa)"
    by (simp add: demo_consumer_def demo_wa_def)
  have ids: "hx_SessionID demo_history \<noteq> []" "hx_RunID demo_history \<noteq> []" "length (row_messages demo_history) = 2" by code_simp+
  from history_batch_accounted[OF run ap inj fresh refl ids(1,2), of "co_history (demo_consumer 5)"]
  show ?thesis using run ids(3) by (auto simp: demo_wa_def)
qed

end
