(* ===== verification/Spec2Isabelle.thy ===== *)
theory Spec2Isabelle
  imports DurableCommand JournalControl Reconciliation ControlRuns DesiredState SchedulerCorrect CommittedEvents RateLimit Webhooks HistoryImport Enrollment
    Receipts DirectChats HistoryAccounts
begin

text \<open>
  Verification of quick-whatsapp-gateway (src/backend, Go).

  \<^bold>\<open>The program.\<close> An API process accepts sends over HTTP, keeps them in a MySQL outbox and hands
  them to gateway processes, which own the WhatsApp connections. A gateway keeps what
  it must not lose in a local SQLite file (events still to be delivered, results of
  commands) and talks to the API over a private control stream: the API sends it the
  sessions it shall run, it sends back the events of its sessions. Delivery is at least
  once everywhere; the code makes it effectively once with leases, epochs, idempotency
  keys and ledgers. Those mechanisms are what this development models.

  \<^bold>\<open>Theories and sources\<close> (paths under src/backend/internal).
  \<^item> Gw_Prelude: Go integers, times and errors (domain/errors.go), fallible database calls
    and transactions, SQL statements on tables kept as lists of rows.
  \<^item> Durable_Log: the locale of a sequence-numbered log with its delivery loop;
    interpreted by the journal and by replay of the event log.
  \<^item> Fenced: the locale of writes that name the lease or epoch they are made under;
    interpreted by the outbox leases and by the connection epochs of the registry.
  \<^item> Gateway, durable state: Journal (gateway/journal/journal.go), CommandLedger
    (gateway/journal/commands.go), JournalControl (gateway/journal/control.go) and
    DurableCommand (wa/command_execution.go, wa/application_messages.go): the latter runs
    requests of any number of clients, crashes and restarts as a step relation.
  \<^item> Gateway, history: HistoryInbox (gateway/journal/history.go: the stored notifications and
    import runs), HistoryPack (gateway/historysync/convert.go: event ids, contacts, fitting and
    packing), HistoryWorker (gateway/historysync/worker.go) and HistoryImport (runs of the
    worker as a step relation).
  \<^item> Gateway, ownership: Control_Types (messages of the stream) and DesiredState
    (gateway/desiredstate): snapshots, rollback, lease expiry, the mutation fence.
  \<^item> Control stream: ControlFrames (proto/gateway/v1/gateway_control.proto), ControlServer
    (api/gateway/control.go), ControlSupervisor (gateway/controlsupervisor/supervisor.go and the
    directive loop of cmd/gateway). ControlLink joins both ends in a step relation with its invariant,
    ControlServing is the half of the API, ControlRuns what is proved of connections.
  \<^item> API, sending: SendValidate (wa/outbound/validate.go), Outbox (store/outbox.go),
    Scheduler and SchedulerCorrect (service/outbound_scheduler.go), RateLimit
    (service/outbound_ratelimit.go with the commands of its Redis script).
  \<^item> API, gateways: Registry (store/gateway.go), Assignments (store/gateway_assignment.go),
    with Connections (competing connections as a step relation) and Ownership
    (snapshots, reassignment, placement) holding what is proved of them; Reconciliation
    (store/gateway_reconciliation.go).
  \<^item> API, enrollment: EnrollToken (enrollmenttoken/token.go), EnrollStore (store/enrollment_tx.go,
    store/renewal_tx.go, store/gateway_control.go), EnrollService (service/enrollment.go,
    service/renewal.go), EnrollSteps (the transactions of all processes as a step relation with
    its invariant) and Enrollment (what is proved of redemption and renewal).
  \<^item> API, events: EventLog (store/event_log.go, store/outgoing_event_claim.go), EventIngest
    (store/gateway_event_ingest.go), EventFlow (runs of the event tables) and
    CommittedEvents (service/committed_events.go), Webhooks (store/webhook_delivery.go and
    webhooks: matching, enqueueing, claims, attempts and the retry schedule).
  \<^item> API, projections: Autocommit (statements that commit one by one, with what becomes of
    each), WaTables (store/message.go, store/chat.go, store/identity.go, store/identity_alias.go,
    store/group.go, store/group_member.go, store/poll.go, store/poll_vote.go and the pairing of
    store/session.go, with their SQL), HistoryStore (store/history.go), EventProjection
    (service/event_projection.go, service/history_projection.go, service/store_projections.go).
    ProjectionKeeps holds the locales through which a relation kept by each table write is kept by every
    consumed event; Projections, Receipts, DirectChats and HistoryAccounts interpret them.
  \<^item> StoreHelpers: pages and cursors (store/helpers.go).

  \<^bold>\<open>How state and operations are modelled.\<close> A struct or a table row is a record with a
  prefix per type, a table the list of its rows. An operation is a function with the name
  of the Go function that returns the new state and \<open>Inl error\<close> or \<open>Inr result\<close>. Its fallible
  calls are numbered in source order and \<open>faults\<close> says which fail; a transaction
  (\<open>in_tx\<close>) that fails returns the state it started in. Where several statements run
  without a transaction, the writes of other clients between them are an argument. What
  the code takes as a function or interface (the WhatsApp engine, callbacks, clocks,
  consumers, media capture, message ids, the HTTP client, the certificate authority, hash functions, protobuf
  and JSON codecs of stored payloads) is an argument.
  A projection runs outside a transaction: each of its statements works, is refused without
  effect, or takes effect while its answer is lost, as the list of fates given to it says.
  Times are nanoseconds, stored times milliseconds; 64-bit arithmetic is written out where
  it can wrap (backoff, journal sizes).

  \<^bold>\<open>What is proved.\<close>
  \<^item> Commands: a command whose result is in the ledger is never handed to WhatsApp again,
    one request at a time executes a command, retries are answered from the ledger.
  \<^item> Journal: no event is lost before it is acknowledged, sequences are never reused,
    delivery terminates and delivers every event in order.
  \<^item> History: a stored notification is worked on in order and not lost, one that is marked
    done has had all its batches published, batches are complete and within their limits,
    oversized messages are cut and not dropped, the end of a run is announced.
  \<^item> Desired state: the mutation fence admits only what the last snapshot assigns with a
    live lease; failed snapshots and failed stops fail closed.
  \<^item> Control stream: each end accepts every frame the other sends, so a connection never ends in an error
    the gateway takes for final, as long as store, journal, applier and directive loop keep their contracts; the journal
    keeps its own, the directive loop in all situations but one. Events are dropped from the journal
    only once the store has taken them.
  \<^item> Sending: an idempotency key sends once, the engine is asked only under the lease,
    a command that may have reached WhatsApp is never reported as failed, settled rows
    are final, claims are disjoint, the retry delay is bounded, the limiter is exact.
  \<^item> Ownership: connection epochs are issued once and fence older connections, snapshots
    are states of the database, reassignment is atomic, a reconciliation report covers exactly
    the current assignments of its gateway.
  \<^item> Enrollment: tokens parse back exactly, a gateway is enrolled once, a token gives one
    certificate however often it is redeemed and returns it again, attempts are bounded, forged
    tokens have no effect, and a renewal needs a valid incumbent certificate; all of it with
    commits whose outcome is not reported.
  \<^item> Events: each event is recorded once however often it is delivered, by its current
    owner only, in well-formed tables; an own message is announced by one event;
    workers keep the order of a session, complete only what was accepted, and finish;
    the log can be replayed completely from a cursor.
  \<^item> Projections: whatever fails and however often events are consumed again, stored messages
    are never lost and their status, edit and delete marks only advance, the tables keep their keys, a
    session's events leave the rows of other sessions alone, the counters of a history run
    equal its ledger of batches, and every message of a batch is accounted for once. Receipts give the same rows in any
    order and with any repetition. A contact's chats become one, and pairing another number is recorded.
  \<^item> Webhooks: an event is queued once per subscription, workers claim disjoint deliveries,
    every attempt is accounted for, custom headers cannot replace the signed ones.

  \<^bold>\<open>Bounds and fuel.\<close> Every function is total. \<open>accept_loop\<close> counts down the source's eight
  attempts. \<open>drain\<close> takes a number of rounds; its theorems hold from the number of stored
  entries on. All other recursion is structural or on the digits of a number.

  \<^bold>\<open>Assumptions of the model.\<close> Strings are compared exactly, as byte strings (the MySQL
  collation also identifies letter case); values fit their columns; a statement is atomic,
  a failed call has no effect, and surrogate ids are handed out in the order of inserts.
  A pass of the history worker processes rows of different sessions at the same time; each
  touches its own session only, so they are composed one after another, one notification in
  one step, with acceptance and removal of sessions between steps; the batches of a
  notification are determined by its content; the parsing of whatsmeow messages and the
  length of encoded JSON are arguments.
  The streams of a connection deliver in order and lose nothing before they end; a frame from the wire is never nil. The
  gateway of a connection is enrolled: the store does not answer that it is unauthorized.
  JSON keys are matched without ASCII case. In the projection tables surrogate keys are left out and the order of rows
  is the order of inserts; the foreign keys that matter are those of history runs.

  \<^bold>\<open>Not modelled.\<close> HTTP and gRPC transport and the generated code (marshalling), whatsmeow and
  everything in wa that drives it, X.509 requests and issuance (package pki: arguments of the
  enrollment model), OAuth token handling (libraries and glue), tickers and goroutine wiring (the functions they call are modelled), the
  read pages of the repositories, and of the control stream the dialing, the time limits and the channels: which event comes next is
  free in the step relation.
\<close>

end
